(* ===== verification/Prelude.thy ===== *)
theory Prelude
  imports Main "HOL-Library.Word"
begin

text \<open>
  Shared vocabulary of the development: the machine integers and addresses of the two
  Cortex-A9 cores, the fact collections the component proofs draw on, and generic lemmas on
  words, lists and options that several components use.

  Unsigned C integers are words of their width (\<open>u8\<close> to \<open>u64\<close>), so arithmetic wraps as it
  does in C. A pointer is a natural number: C leaves pointer arithmetic that leaves its
  object undefined, so the model does not wrap it, and the layout theorems show that every
  pointer the tunnels form stays inside its region. \<open>NULL\<close> is the pointer \<open>0\<close>.
\<close>

unbundle bit_operations_syntax

type_synonym u8 = "8 word"
type_synonym u16 = "16 word"
type_synonym u32 = "32 word"
type_synonym u64 = "64 word"
type_synonym addr = nat
type_synonym bytes = "8 word list"

abbreviation (input) NULL :: addr where
  "NULL \<equiv> 0"

named_theorems mem_simps "loads and stores on the shared byte memory"
named_theorems ring_simps "cyclic index sequences"
named_theorems tunnel_defs "definitions of the tunnel data path"

section \<open>Words\<close>

lemma unat_ucast_up:
  fixes x :: "'a::len word"
  assumes "LENGTH('a) \<le> LENGTH('b::len)"
  shows "unat (ucast x :: 'b word) = unat x"
proof -
  have "unat x < 2 ^ LENGTH('b)"
    using assms by (rule less_le_trans [OF unsigned_less power_increasing]) simp
  then show ?thesis by (simp add: unsigned_ucast_eq take_bit_eq_mod)
qed

lemma unat_u16_u32 [simp]: "unat (ucast (x :: u16) :: u32) = unat x"
  by (rule unat_ucast_up) simp

lemma unat_u8_u32 [simp]: "unat (ucast (x :: u8) :: u32) = unat x"
  by (rule unat_ucast_up) simp

lemma unat_u32_u64 [simp]: "unat (ucast (x :: u32) :: u64) = unat x"
  by (rule unat_ucast_up) simp

lemma unat_u32_u16: "unat (ucast (x :: u32) :: u16) = unat x mod 2 ^ 16"
  by (simp add: unsigned_ucast_eq take_bit_eq_mod)

end
