(* ===== verification/Byte_Memory.thy ===== *)
theory Byte_Memory
  imports Prelude
begin

text \<open>
  The byte-addressed memory both cores see (on-chip memory or the reserved DDR window): bulk
  copies (\<open>memcpy\<close>, \<open>memset\<close>, \<open>copy_to_user\<close>), little-endian integer access, and the frame
  lemmas that let a store to one region be ignored by a load from a disjoint one.
\<close>

type_synonym memory = "addr \<Rightarrow> u8"

section \<open>Bulk access\<close>

definition load_bytes :: "memory \<Rightarrow> addr \<Rightarrow> nat \<Rightarrow> bytes" where
  "load_bytes m a n = map (\<lambda>i. m (a + i)) [0..<n]"

definition store_bytes :: "memory \<Rightarrow> addr \<Rightarrow> bytes \<Rightarrow> memory" where
  "store_bytes m a bs = (\<lambda>x. if a \<le> x \<and> x < a + length bs then bs ! (x - a) else m x)"

definition disjoint_regions :: "addr \<Rightarrow> nat \<Rightarrow> addr \<Rightarrow> nat \<Rightarrow> bool" where
  "disjoint_regions a n b k \<longleftrightarrow> a + n \<le> b \<or> b + k \<le> a"

lemma disjoint_regions_sym: "disjoint_regions a n b k \<longleftrightarrow> disjoint_regions b k a n"
  by (auto simp: disjoint_regions_def)

lemma length_load_bytes [simp, mem_simps]: "length (load_bytes m a n) = n"
  by (simp add: load_bytes_def)

lemma nth_load_bytes [mem_simps]: "i < n \<Longrightarrow> load_bytes m a n ! i = m (a + i)"
  by (simp add: load_bytes_def)

lemma load_bytes_cong:
  "(\<And>x. a \<le> x \<Longrightarrow> x < a + n \<Longrightarrow> m x = m' x) \<Longrightarrow> load_bytes m a n = load_bytes m' a n"
  by (auto simp: load_bytes_def)

lemma load_bytes_take: "k \<le> n \<Longrightarrow> load_bytes m a k = take k (load_bytes m a n)"
  by (simp add: load_bytes_def take_map min_def)

lemma load_store_bytes_same [simp, mem_simps]:
  "n = length bs \<Longrightarrow> load_bytes (store_bytes m a bs) a n = bs"
  by (auto simp: load_bytes_def store_bytes_def intro: nth_equalityI)

lemma load_store_bytes_disjoint [mem_simps]:
  "disjoint_regions b n a (length bs) \<Longrightarrow> load_bytes (store_bytes m a bs) b n = load_bytes m b n"
  by (rule load_bytes_cong) (auto simp: store_bytes_def disjoint_regions_def)

lemma load_bytes_within:
  "off + k \<le> length bs \<Longrightarrow> load_bytes (store_bytes m a bs) (a + off) k = take k (drop off bs)"
  by (rule nth_equalityI) (simp_all add: load_bytes_def store_bytes_def)

lemma store_bytes_outside:
  "x < a \<or> a + length bs \<le> x \<Longrightarrow> store_bytes m a bs x = m x"
  by (auto simp: store_bytes_def)

lemma store_bytes_commute:
  "disjoint_regions a (length xs) b (length ys) \<Longrightarrow>
   store_bytes (store_bytes m a xs) b ys = store_bytes (store_bytes m b ys) a xs"
  by (auto simp: store_bytes_def disjoint_regions_def fun_eq_iff)

section \<open>Little-endian integers\<close>

fun le_bytes :: "nat \<Rightarrow> 'a::len word \<Rightarrow> bytes" where
  "le_bytes 0 w = []"
| "le_bytes (Suc n) w = ucast w # le_bytes n (drop_bit 8 w)"

fun le_word :: "bytes \<Rightarrow> 'a::len word" where
  "le_word [] = 0"
| "le_word (b # bs) = ucast b OR push_bit 8 (le_word bs)"

lemma length_le_bytes [simp, mem_simps]: "length (le_bytes n w) = n"
  by (induction n arbitrary: w) auto

lemma le_word_le_bytes_take_bit:
  "le_word (le_bytes n w) = take_bit (8 * n) (w :: 'a::len word)"
proof (induction n arbitrary: w)
  case 0
  then show ?case by simp
next
  case (Suc n)
  have "ucast (ucast w :: u8) OR push_bit 8 (take_bit (8 * n) (drop_bit 8 w))
      = take_bit (8 * Suc n) w"
    by (rule bit_word_eqI) (auto simp: bit_simps)
  with Suc.IH show ?case by simp
qed

lemma le_word_le_bytes [simp, mem_simps]:
  assumes "LENGTH('a) \<le> 8 * n"
  shows "le_word (le_bytes n w) = (w :: 'a::len word)"
  using assms by (simp add: le_word_le_bytes_take_bit take_bit_word_eq_self)

definition load16 :: "memory \<Rightarrow> addr \<Rightarrow> u16" where
  "load16 m a = le_word (load_bytes m a 2)"

definition load32 :: "memory \<Rightarrow> addr \<Rightarrow> u32" where
  "load32 m a = le_word (load_bytes m a 4)"

definition load64 :: "memory \<Rightarrow> addr \<Rightarrow> u64" where
  "load64 m a = le_word (load_bytes m a 8)"

definition store32 :: "memory \<Rightarrow> addr \<Rightarrow> u32 \<Rightarrow> memory" where
  "store32 m a v = store_bytes m a (le_bytes 4 v)"

lemma load32_store32_same [simp, mem_simps]: "load32 (store32 m a v) a = v"
  by (simp add: load32_def store32_def)

lemma load32_store32_disjoint [mem_simps]:
  "disjoint_regions b 4 a 4 \<Longrightarrow> load32 (store32 m a v) b = load32 m b"
  by (simp add: load32_def store32_def load_store_bytes_disjoint)

lemma load32_store_bytes_disjoint [mem_simps]:
  "disjoint_regions b 4 a (length bs) \<Longrightarrow> load32 (store_bytes m a bs) b = load32 m b"
  by (simp add: load32_def load_store_bytes_disjoint)

lemma load_bytes_store32_disjoint [mem_simps]:
  "disjoint_regions b n a 4 \<Longrightarrow> load_bytes (store32 m a v) b n = load_bytes m b n"
  by (simp add: store32_def load_store_bytes_disjoint)

lemma store32_outside: "x < a \<or> a + 4 \<le> x \<Longrightarrow> store32 m a v x = m x"
  by (simp add: store32_def store_bytes_outside)

lemma store32_store_bytes_commute:
  "disjoint_regions a 4 b (length bs) \<Longrightarrow>
   store_bytes (store32 m a v) b bs = store32 (store_bytes m b bs) a v"
  by (simp add: store32_def store_bytes_commute)

lemma le_word_zeros: "le_word (replicate n 0) = 0"
  by (induction n) auto

lemma load32_memset_zero:
  assumes "a \<le> b" and "b + 4 \<le> a + n"
  shows "load32 (store_bytes m a (replicate n 0)) b = 0"
proof -
  have "load_bytes (store_bytes m a (replicate n 0)) b 4 = replicate 4 0"
    using assms by (auto simp: load_bytes_def store_bytes_def intro!: nth_equalityI)
  then show ?thesis by (simp add: load32_def le_word_zeros)
qed

end
