(* ===== verification/Ring_Index.thy ===== *)
theory Ring_Index
  imports Prelude
begin

text \<open>
  Index arithmetic of the ring buffers. Every ring of the program (the two directions of a
  tunnel, the packet buffer of the OpenAMP variant) keeps a read index and a write index below
  a slot count and advances them by one with a wrap to zero. \<open>ring_span n r w\<close> is the list of
  occupied slots, oldest first; the lemmas say how it changes when either index advances.
\<close>

definition ring_next :: "nat \<Rightarrow> nat \<Rightarrow> nat" where
  "ring_next n i = (if Suc i = n then 0 else Suc i)"

definition ring_used :: "nat \<Rightarrow> nat \<Rightarrow> nat \<Rightarrow> nat" where
  "ring_used n r w = (if r \<le> w then w - r else w + n - r)"

definition ring_span :: "nat \<Rightarrow> nat \<Rightarrow> nat \<Rightarrow> nat list" where
  "ring_span n r w = (if r \<le> w then [r..<w] else [r..<n] @ [0..<w])"

lemma ring_next_less [simp, ring_simps]: "i < n \<Longrightarrow> ring_next n i < n"
  by (auto simp: ring_next_def)

lemma ring_next_inj: "i < n \<Longrightarrow> j < n \<Longrightarrow> ring_next n i = ring_next n j \<Longrightarrow> i = j"
  by (auto simp: ring_next_def split: if_splits)

lemma length_ring_span [simp, ring_simps]: "r < n \<Longrightarrow> w < n \<Longrightarrow> length (ring_span n r w) = ring_used n r w"
  by (auto simp: ring_span_def ring_used_def)

lemma ring_span_empty [simp, ring_simps]: "ring_span n r r = []"
  by (simp add: ring_span_def)

lemma ring_span_bound: "r < n \<Longrightarrow> w < n \<Longrightarrow> i \<in> set (ring_span n r w) \<Longrightarrow> i < n"
  by (auto simp: ring_span_def split: if_splits)

lemma distinct_ring_span: "distinct (ring_span n r w)"
  by (auto simp: ring_span_def)

lemma ring_span_pop:
  assumes "r < n" and "w < n" and "r \<noteq> w"
  shows "ring_span n r w = r # ring_span n (ring_next n r) w"
proof (cases "Suc r = n")
  case True
  then show ?thesis using assms by (auto simp: ring_span_def ring_next_def upt_conv_Cons)
next
  case False
  then show ?thesis using assms by (auto simp: ring_span_def ring_next_def upt_conv_Cons)
qed

lemma ring_span_push:
  assumes "r < n" and "w < n" and "ring_next n w \<noteq> r"
  shows "ring_span n r (ring_next n w) = ring_span n r w @ [w]"
proof (cases "Suc w = n")
  case True
  then have "ring_span n r (ring_next n w) = [r..<n]"
    using assms by (auto simp: ring_span_def ring_next_def)
  then show ?thesis using assms True
    by (auto simp: ring_span_def upt_Suc_append [symmetric])
next
  case False
  then show ?thesis using assms by (auto simp: ring_span_def ring_next_def)
qed

lemma ring_span_write_free: "r < n \<Longrightarrow> w < n \<Longrightarrow> w \<notin> set (ring_span n r w)"
  by (auto simp: ring_span_def)

lemma ring_used_less [ring_simps]: "r < n \<Longrightarrow> w < n \<Longrightarrow> ring_used n r w < n"
  by (auto simp: ring_used_def)

lemma ring_used_0_iff [ring_simps]: "r < n \<Longrightarrow> w < n \<Longrightarrow> ring_used n r w = 0 \<longleftrightarrow> r = w"
  by (auto simp: ring_used_def)

lemma ring_full_iff: "r < n \<Longrightarrow> w < n \<Longrightarrow> ring_next n w = r \<longleftrightarrow> ring_used n r w = n - 1"
  by (auto simp: ring_used_def ring_next_def)

lemma ring_used_push:
  "r < n \<Longrightarrow> w < n \<Longrightarrow> ring_next n w \<noteq> r \<Longrightarrow> ring_used n r (ring_next n w) = Suc (ring_used n r w)"
  by (auto simp: ring_used_def ring_next_def)

lemma ring_used_pop:
  "r < n \<Longrightarrow> w < n \<Longrightarrow> r \<noteq> w \<Longrightarrow> Suc (ring_used n (ring_next n r) w) = ring_used n r w"
  by (auto simp: ring_used_def ring_next_def)

section \<open>The same step on 32-bit index words\<close>

text \<open>
  The sources increment a \<open>uint32_t\<close> index and compare it with a \<open>uint16_t\<close> count promoted to
  32 bits. Below the count the increment cannot wrap, so the word step is \<open>ring_next\<close>.
\<close>

definition next_index32 :: "u16 \<Rightarrow> u32 \<Rightarrow> u32" where
  "next_index32 count i = (if i + 1 = ucast count then 0 else i + 1)"

lemma unat_u16_less: "unat (c :: u16) < 65536"
  using unsigned_less [of c] by simp

lemma unat_add_one_u32:
  assumes "unat (i :: u32) < unat (c :: u16)"
  shows "unat (i + 1) = Suc (unat i)"
proof -
  have "unat i + 1 < 2 ^ 32" using assms unat_u16_less [of c] by simp
  then show ?thesis by (simp add: unat_word_ariths)
qed

lemma unat_next_index32 [ring_simps]:
  assumes "unat i < unat count"
  shows "unat (next_index32 count i) = ring_next (unat count) (unat i)"
proof -
  have "i + 1 = ucast count \<longleftrightarrow> Suc (unat i) = unat count"
    using unat_add_one_u32 [OF assms] by (metis unat_u16_u32 word_unat_eq_iff)
  then show ?thesis
    using unat_add_one_u32 [OF assms] by (simp add: next_index32_def ring_next_def)
qed

lemma unat_mult_u16:
  assumes "unat (i :: u32) < unat (c :: u16)"
  shows "unat (i * ucast (k :: u16)) = unat i * unat k"
proof -
  have "unat i \<le> 65535" "unat k \<le> 65535"
    using assms unat_u16_less [of c] unat_u16_less [of k] by linarith+
  then have "unat i * unat k \<le> 65535 * 65535" by (rule mult_le_mono)
  then show ?thesis by (simp add: unat_word_ariths)
qed

end
