(* ===== verification/Packet_Ring.thy ===== *)
theory Packet_Ring
  imports Byte_Memory Ring_Index
begin

text \<open>
  One direction of a tunnel as it lies in shared memory: an array of equally sized slots, each
  a packet header (a 32-bit packet size and a reserved word) followed by the payload, and two
  32-bit indices in the control header. The record \<open>ring\<close> is this geometry; \<open>ring_contents\<close>
  is the queue of packets a memory holds for it, oldest first. The producer and the consumer
  code of both cores are related to \<open>ring_contents\<close> by the lemmas at the end: filling the
  free slot and advancing the write index appends a packet, advancing the read index removes
  the oldest one, and a store that misses the ring changes nothing.
\<close>

record ring =
  rbase :: addr
  rstride :: nat
  rcount :: nat
  rmax :: nat
  rwidx :: addr
  rridx :: addr

definition slot_addr :: "ring \<Rightarrow> nat \<Rightarrow> addr" where
  "slot_addr g i = rbase g + i * rstride g"

definition slot_data :: "ring \<Rightarrow> nat \<Rightarrow> addr" where
  "slot_data g i = slot_addr g i + 8"

definition widx :: "ring \<Rightarrow> memory \<Rightarrow> nat" where
  "widx g m = unat (load32 m (rwidx g))"

definition ridx :: "ring \<Rightarrow> memory \<Rightarrow> nat" where
  "ridx g m = unat (load32 m (rridx g))"

definition packet_len :: "ring \<Rightarrow> memory \<Rightarrow> nat \<Rightarrow> nat" where
  "packet_len g m i = unat (load32 m (slot_addr g i))"

definition ring_packet :: "ring \<Rightarrow> memory \<Rightarrow> nat \<Rightarrow> bytes" where
  "ring_packet g m i = load_bytes m (slot_data g i) (packet_len g m i)"

definition ring_contents :: "ring \<Rightarrow> memory \<Rightarrow> bytes list" where
  "ring_contents g m = map (ring_packet g m) (ring_span (rcount g) (ridx g m) (widx g m))"

definition ring_wf :: "ring \<Rightarrow> bool" where
  "ring_wf g \<longleftrightarrow> 1 < rcount g \<and> rcount g < 65536 \<and> rmax g + 8 \<le> rstride g \<and> rmax g < 65536
     \<and> disjoint_regions (rwidx g) 4 (rridx g) 4
     \<and> disjoint_regions (rwidx g) 4 (rbase g) (rcount g * rstride g)
     \<and> disjoint_regions (rridx g) 4 (rbase g) (rcount g * rstride g)"

definition ring_inv :: "ring \<Rightarrow> memory \<Rightarrow> bool" where
  "ring_inv g m \<longleftrightarrow> ridx g m < rcount g \<and> widx g m < rcount g
     \<and> (\<forall>i\<in>set (ring_span (rcount g) (ridx g m) (widx g m)). packet_len g m i \<le> rmax g)"

lemmas ring_defs = slot_addr_def slot_data_def widx_def ridx_def packet_len_def ring_packet_def

section \<open>Slots do not overlap each other or the indices\<close>

lemma slot_in_buffer:
  assumes "i < rcount g" and "ring_wf g"
  shows "rbase g \<le> slot_addr g i" and "slot_addr g i + rstride g \<le> rbase g + rcount g * rstride g"
proof -
  have "i * rstride g + rstride g = Suc i * rstride g" by simp
  also have "\<dots> \<le> rcount g * rstride g" using assms(1) by (intro mult_le_mono1) simp
  finally show "slot_addr g i + rstride g \<le> rbase g + rcount g * rstride g"
    by (simp add: slot_addr_def)
qed (simp add: slot_addr_def)

lemma slots_disjoint:
  assumes "i \<noteq> j"
  shows "disjoint_regions (slot_addr g i) (rstride g) (slot_addr g j) (rstride g)"
proof -
  have step: "slot_addr g a + rstride g \<le> slot_addr g b" if "a < b" for a b
  proof -
    have "a * rstride g + rstride g = Suc a * rstride g" by simp
    also have "\<dots> \<le> b * rstride g" using that by (intro mult_le_mono1) simp
    finally show ?thesis by (simp add: slot_addr_def)
  qed
  show ?thesis using assms step by (auto simp: disjoint_regions_def neq_iff)
qed

lemma packet_cong:
  assumes "\<And>x. slot_addr g i \<le> x \<Longrightarrow> x < slot_addr g i + rstride g \<Longrightarrow> m' x = m x"
    and "packet_len g m i + 8 \<le> rstride g" and "4 \<le> rstride g"
  shows "packet_len g m' i = packet_len g m i" and "ring_packet g m' i = ring_packet g m i"
proof -
  have "load_bytes m' (slot_addr g i) 4 = load_bytes m (slot_addr g i) 4"
    using assms(1,3) by (intro load_bytes_cong) simp
  then show len: "packet_len g m' i = packet_len g m i"
    by (simp add: packet_len_def load32_def)
  have "load_bytes m' (slot_data g i) (packet_len g m i) = load_bytes m (slot_data g i) (packet_len g m i)"
    using assms(1,2) by (intro load_bytes_cong) (simp add: slot_data_def)
  then show "ring_packet g m' i = ring_packet g m i"
    by (simp add: ring_packet_def len)
qed

section \<open>Changes of memory seen through a ring\<close>

definition slots_agree :: "ring \<Rightarrow> nat set \<Rightarrow> memory \<Rightarrow> memory \<Rightarrow> bool" where
  "slots_agree g S m m' \<longleftrightarrow>
     (\<forall>i\<in>S. \<forall>x. slot_addr g i \<le> x \<and> x < slot_addr g i + rstride g \<longrightarrow> m' x = m x)"

definition same_ring :: "ring \<Rightarrow> memory \<Rightarrow> memory \<Rightarrow> bool" where
  "same_ring g m m' \<longleftrightarrow> load32 m' (rwidx g) = load32 m (rwidx g) \<and> load32 m' (rridx g) = load32 m (rridx g)
     \<and> slots_agree g (set (ring_span (rcount g) (ridx g m) (widx g m))) m m'"

lemma span_packets_cong:
  assumes "ring_wf g" and "ring_inv g m"
    and same: "slots_agree g S m m'"
    and "S \<subseteq> set (ring_span (rcount g) (ridx g m) (widx g m))" and "i \<in> S"
  shows "packet_len g m' i = packet_len g m i" and "ring_packet g m' i = ring_packet g m i"
proof -
  have "packet_len g m i \<le> rmax g" using assms(2,4,5) by (auto simp: ring_inv_def)
  then have "packet_len g m i + 8 \<le> rstride g" and "4 \<le> rstride g"
    using assms(1) by (auto simp: ring_wf_def)
  moreover have "m' x = m x" if "slot_addr g i \<le> x" "x < slot_addr g i + rstride g" for x
    using same \<open>i \<in> S\<close> that by (auto simp: slots_agree_def)
  ultimately show "packet_len g m' i = packet_len g m i"
    and "ring_packet g m' i = ring_packet g m i"
    using packet_cong [of g i m' m] by auto
qed

lemma same_ringD:
  assumes "ring_wf g" and "ring_inv g m" and "same_ring g m m'"
  shows "ring_inv g m'" and "ring_contents g m' = ring_contents g m"
proof -
  let ?S = "set (ring_span (rcount g) (ridx g m) (widx g m))"
  have idx: "ridx g m' = ridx g m" "widx g m' = widx g m"
    using assms(3) by (auto simp: same_ring_def ridx_def widx_def)
  have same: "slots_agree g ?S m m'"
    using assms(3) by (auto simp: same_ring_def)
  note cong = span_packets_cong [OF assms(1,2) same subset_refl]
  show "ring_contents g m' = ring_contents g m"
    using cong(2) by (simp add: ring_contents_def idx)
  show "ring_inv g m'"
    using assms(2) cong(1) by (auto simp: ring_inv_def idx)
qed

lemma ring_push:
  assumes "ring_wf g" and "ring_inv g m"
    and free: "ring_next (rcount g) (widx g m) \<noteq> ridx g m"
    and outside: "\<And>x. x < slot_addr g (widx g m) \<or> slot_addr g (widx g m) + rstride g \<le> x \<Longrightarrow> m1 x = m x"
    and filled: "ring_packet g m1 (widx g m) = p" and small: "packet_len g m1 (widx g m) \<le> rmax g"
    and m': "m' = store32 m1 (rwidx g) v" and v: "unat v = ring_next (rcount g) (widx g m)"
  shows "ring_contents g m' = ring_contents g m @ [p]" and "ring_inv g m'"
proof -
  let ?w = "widx g m" and ?r = "ridx g m" and ?n = "rcount g"
  let ?S = "set (ring_span ?n ?r ?w)"
  have rw: "?r < ?n" "?w < ?n" using assms(2) by (auto simp: ring_inv_def)
  note buf = slot_in_buffer [OF _ assms(1)]
  have unchanged: "m' x = m1 x" if "rbase g \<le> x" "x < rbase g + ?n * rstride g" for x
    using that assms(1) by (auto simp: m' store32_def store_bytes_def ring_wf_def disjoint_regions_def)
  have slot_unchanged: "m' x = m1 x"
    if "i < ?n" "slot_addr g i \<le> x" "x < slot_addr g i + rstride g" for i x
    using that buf [of i] by (intro unchanged) auto
  have widx': "widx g m' = ring_next ?n ?w" by (simp add: widx_def m' v)
  have "load32 m' (rridx g) = load32 m1 (rridx g)"
    using assms(1) by (auto simp: m' ring_wf_def disjoint_regions_def intro!: load32_store32_disjoint)
  also have "\<dots> = load32 m (rridx g)"
  proof -
    have "load_bytes m1 (rridx g) 4 = load_bytes m (rridx g) 4"
      using assms(1) buf [OF rw(2)]
      by (intro load_bytes_cong outside) (auto simp: ring_wf_def disjoint_regions_def)
    then show ?thesis by (simp add: load32_def)
  qed
  finally have ridx': "ridx g m' = ?r" by (simp add: ridx_def)
  have old: "slots_agree g ?S m m'"
    unfolding slots_agree_def
  proof (intro ballI allI impI)
    fix i x assume "i \<in> ?S" and x: "slot_addr g i \<le> x \<and> x < slot_addr g i + rstride g"
    then have "i < ?n" "i \<noteq> ?w" using rw ring_span_bound ring_span_write_free by blast+
    then have "m' x = m1 x" "m1 x = m x"
      using x slot_unchanged slots_disjoint [OF \<open>i \<noteq> ?w\<close>, of g]
      by (auto intro!: outside simp: disjoint_regions_def)
    then show "m' x = m x" by simp
  qed
  note keep = span_packets_cong [OF assms(1,2) old subset_refl]
  have new: "packet_len g m' ?w = packet_len g m1 ?w" "ring_packet g m' ?w = ring_packet g m1 ?w"
    using assms(1) small slot_unchanged [OF rw(2)] by (auto intro!: packet_cong simp: ring_wf_def)
  note span = ring_span_push [OF rw free]
  show "ring_contents g m' = ring_contents g m @ [p]"
    using keep(2) new(2) filled by (simp add: ring_contents_def widx' ridx' span)
  show "ring_inv g m'"
    using assms(2) keep(1) new(1) small rw by (auto simp: ring_inv_def widx' ridx' span)
qed

lemma ring_pop:
  assumes "ring_wf g" and "ring_inv g m" and "ridx g m \<noteq> widx g m"
    and m': "m' = store32 m (rridx g) v" and v: "unat v = ring_next (rcount g) (ridx g m)"
  shows "ring_contents g m = ring_packet g m (ridx g m) # ring_contents g m'" and "ring_inv g m'"
proof -
  let ?w = "widx g m" and ?r = "ridx g m" and ?n = "rcount g"
  let ?S = "set (ring_span ?n (ring_next ?n ?r) ?w)"
  have rw: "?r < ?n" "?w < ?n" using assms(2) by (auto simp: ring_inv_def)
  note span = ring_span_pop [OF rw assms(3)]
  have ridx': "ridx g m' = ring_next ?n ?r" by (simp add: ridx_def m' v)
  have "load32 m' (rwidx g) = load32 m (rwidx g)"
    using assms(1) by (auto simp: m' ring_wf_def disjoint_regions_def intro!: load32_store32_disjoint)
  then have widx': "widx g m' = ?w" by (simp add: widx_def)
  have same: "slots_agree g ?S m m'"
    unfolding slots_agree_def
  proof (intro ballI allI impI)
    fix i x assume "i \<in> ?S" and x: "slot_addr g i \<le> x \<and> x < slot_addr g i + rstride g"
    then have "i < ?n" using rw ring_span_bound ring_next_less by blast
    then show "m' x = m x" using x slot_in_buffer [OF _ assms(1), of i] assms(1)
      by (auto simp: m' store32_def store_bytes_def ring_wf_def disjoint_regions_def)
  qed
  have sub: "?S \<subseteq> set (ring_span ?n ?r ?w)" by (auto simp: span)
  note keep = span_packets_cong [OF assms(1,2) same sub]
  show "ring_contents g m = ring_packet g m ?r # ring_contents g m'"
    using keep(2) by (simp add: ring_contents_def widx' ridx' span)
  show "ring_inv g m'"
    using assms(2) keep(1) sub rw by (auto simp: ring_inv_def widx' ridx')
qed

lemma length_ring_contents:
  "ring_inv g m \<Longrightarrow> length (ring_contents g m) = ring_used (rcount g) (ridx g m) (widx g m)"
  by (simp add: ring_contents_def ring_inv_def)

lemma ring_contents_Nil_iff:
  "ring_inv g m \<Longrightarrow> ring_contents g m = [] \<longleftrightarrow> ridx g m = widx g m"
  by (metis length_0_conv length_ring_contents ring_inv_def ring_used_0_iff)

lemma ring_capacity: "ring_inv g m \<Longrightarrow> length (ring_contents g m) < rcount g"
  by (simp add: length_ring_contents) (simp add: ring_inv_def ring_used_less)

lemma ring_packet_bound:
  assumes "ring_inv g m" and "ring_contents g m = p # ps"
  shows "length p \<le> rmax g"
proof -
  have "\<forall>p\<in>set (ring_contents g m). length p \<le> rmax g"
    using assms(1) by (auto simp: ring_contents_def ring_inv_def ring_packet_def)
  then show ?thesis by (simp add: assms(2))
qed

lemma ring_has_room_iff:
  assumes "ring_inv g m"
  shows "ring_next (rcount g) (widx g m) \<noteq> ridx g m \<longleftrightarrow> length (ring_contents g m) < rcount g - 1"
proof -
  have rw: "ridx g m < rcount g" "widx g m < rcount g" using assms by (auto simp: ring_inv_def)
  show ?thesis
    using ring_full_iff [OF rw] ring_used_less [OF rw] length_ring_contents [OF assms] by linarith
qed

section \<open>Rings that do not share memory\<close>

definition ring_regions :: "ring \<Rightarrow> (addr \<times> nat) list" where
  "ring_regions g = [(rwidx g, 4), (rridx g, 4), (rbase g, rcount g * rstride g)]"

definition in_ring :: "ring \<Rightarrow> addr \<Rightarrow> bool" where
  "in_ring g x \<longleftrightarrow> (\<exists>(a, n)\<in>set (ring_regions g). a \<le> x \<and> x < a + n)"

definition rings_disjoint :: "ring \<Rightarrow> ring \<Rightarrow> bool" where
  "rings_disjoint g h \<longleftrightarrow>
     (\<forall>(a, n)\<in>set (ring_regions g). \<forall>(b, k)\<in>set (ring_regions h). disjoint_regions a n b k)"

lemma rings_disjoint_sym: "rings_disjoint g h \<Longrightarrow> rings_disjoint h g"
  unfolding rings_disjoint_def using disjoint_regions_sym by fast

lemma rings_disjoint_in_ring:
  assumes "rings_disjoint g h" and "in_ring g x"
  shows "\<not> in_ring h x"
proof
  assume "in_ring h x"
  then obtain b k where h: "(b, k) \<in> set (ring_regions h)" "b \<le> x" "x < b + k"
    by (auto simp: in_ring_def)
  obtain a n where g: "(a, n) \<in> set (ring_regions g)" "a \<le> x" "x < a + n"
    using assms(2) by (auto simp: in_ring_def)
  have "disjoint_regions a n b k" using assms(1) g(1) h(1) by (fastforce simp: rings_disjoint_def)
  then show False using g h by (auto simp: disjoint_regions_def)
qed

lemma in_ring_slot:
  assumes "ring_wf g" and "i < rcount g" and "slot_addr g i \<le> x" and "x < slot_addr g i + rstride g"
  shows "in_ring g x"
  using slot_in_buffer [OF assms(2,1)] assms(3,4) by (auto simp: in_ring_def ring_regions_def)

lemma same_ring_eq:
  assumes wf: "ring_wf h" and "ring_inv h m" and eq: "\<forall>x. in_ring h x \<longrightarrow> m' x = m x"
  shows "same_ring h m m'"
proof -
  have "load_bytes m' a 4 = load_bytes m a 4" if "(a, 4) \<in> set (ring_regions h)" for a
  proof (rule load_bytes_cong)
    fix x assume "a \<le> x" "x < a + 4"
    then have "in_ring h x" using that by (fastforce simp: in_ring_def)
    then show "m' x = m x" using eq by blast
  qed
  then have "load32 m' (rwidx h) = load32 m (rwidx h)" "load32 m' (rridx h) = load32 m (rridx h)"
    by (auto simp: load32_def ring_regions_def)
  moreover have "slots_agree h (set (ring_span (rcount h) (ridx h m) (widx h m))) m m'"
    unfolding slots_agree_def
  proof (intro ballI allI impI)
    fix i x assume "i \<in> set (ring_span (rcount h) (ridx h m) (widx h m))"
      and x: "slot_addr h i \<le> x \<and> x < slot_addr h i + rstride h"
    then have "i < rcount h" using assms(2) ring_span_bound by (auto simp: ring_inv_def)
    then show "m' x = m x" using x in_ring_slot [OF wf] eq by blast
  qed
  ultimately show ?thesis by (simp add: same_ring_def)
qed

lemma same_ring_frame:
  assumes "ring_wf h" and "ring_inv h m" and "rings_disjoint g h"
    and frame: "\<And>x. \<not> in_ring g x \<Longrightarrow> m' x = m x"
  shows "same_ring h m m'"
  using same_ring_eq [OF assms(1,2)] frame rings_disjoint_in_ring [OF assms(3)] by blast

lemma same_ring_free_slot:
  assumes wf: "ring_wf g" and "ring_inv g m"
    and outside: "\<forall>x. x < slot_addr g (widx g m) \<or> slot_addr g (widx g m) + rstride g \<le> x \<longrightarrow> m' x = m x"
  shows "same_ring g m m'"
proof -
  have rw: "ridx g m < rcount g" "widx g m < rcount g" using assms(2) by (auto simp: ring_inv_def)
  have "load_bytes m' a 4 = load_bytes m a 4" if "a \<in> {rwidx g, rridx g}" for a
    using that wf slot_in_buffer [OF rw(2) wf] outside
    by (intro load_bytes_cong) (auto simp: ring_wf_def disjoint_regions_def)
  moreover have "slots_agree g (set (ring_span (rcount g) (ridx g m) (widx g m))) m m'"
    unfolding slots_agree_def
  proof (intro ballI allI impI)
    fix i x assume "i \<in> set (ring_span (rcount g) (ridx g m) (widx g m))"
      and x: "slot_addr g i \<le> x \<and> x < slot_addr g i + rstride g"
    then have "i \<noteq> widx g m" using rw ring_span_write_free by blast
    then show "m' x = m x" using x outside slots_disjoint [of i "widx g m" g]
      by (auto simp: disjoint_regions_def)
  qed
  ultimately show ?thesis by (auto simp: same_ring_def load32_def)
qed

definition ring_misses :: "ring \<Rightarrow> addr \<Rightarrow> nat \<Rightarrow> bool" where
  "ring_misses g a n \<longleftrightarrow> (\<forall>(b, k)\<in>set (ring_regions g). disjoint_regions a n b k)"

lemma ring_misses_in_ring:
  assumes "ring_misses g a n" and "in_ring g x"
  shows "x < a \<or> a + n \<le> x"
proof -
  obtain b k where r: "(b, k) \<in> set (ring_regions g)" "b \<le> x" "x < b + k"
    using assms(2) by (auto simp: in_ring_def)
  then have "disjoint_regions a n b k" using assms(1) by (fastforce simp: ring_misses_def)
  then show ?thesis using r by (auto simp: disjoint_regions_def)
qed

lemma same_ring_store:
  assumes "ring_wf h" and "ring_inv h m" and "ring_misses h a (length bs)"
  shows "same_ring h m (store_bytes m a bs)"
  using same_ring_eq [OF assms(1,2)] ring_misses_in_ring [OF assms(3)] store_bytes_outside by blast

definition ring_within :: "ring \<Rightarrow> addr \<Rightarrow> nat \<Rightarrow> bool" where
  "ring_within g a n \<longleftrightarrow> (\<forall>(b, k)\<in>set (ring_regions g). a \<le> b \<and> b + k \<le> a + n)"

lemma ring_within_misses:
  "ring_within g a n \<Longrightarrow> disjoint_regions b k a n \<Longrightarrow> ring_misses g b k"
  unfolding ring_within_def ring_misses_def disjoint_regions_def by fastforce

lemma ring_within_disjoint:
  assumes "ring_within g a n" and "ring_within h b k" and "disjoint_regions a n b k"
  shows "rings_disjoint g h"
  unfolding rings_disjoint_def
proof (intro ballI, clarify)
  fix c l d m assume "(c, l) \<in> set (ring_regions g)" "(d, m) \<in> set (ring_regions h)"
  then have "a \<le> c \<and> c + l \<le> a + n" "b \<le> d \<and> d + m \<le> b + k"
    using assms(1,2) by (fastforce simp: ring_within_def)+
  then show "disjoint_regions c l d m" using assms(3) by (auto simp: disjoint_regions_def)
qed

section \<open>The producer's and the consumer's whole effect\<close>

text \<open>
  A producer fills the free slot (size word and payload, in either order) and then publishes
  the new write index; a consumer only publishes the new read index. Both leave every address
  outside the ring alone.
\<close>

definition fill_slot :: "ring \<Rightarrow> nat \<Rightarrow> u32 \<Rightarrow> bytes \<Rightarrow> memory \<Rightarrow> memory" where
  "fill_slot g i v p m = store_bytes (store32 m (slot_addr g i) v) (slot_data g i) p"

lemma fill_slot_data_first:
  "store32 (store_bytes m (slot_data g i) p) (slot_addr g i) v = fill_slot g i v p m"
  by (simp add: fill_slot_def store32_store_bytes_commute disjoint_regions_def slot_data_def)

lemma fill_slot_props:
  assumes "length p + 8 \<le> rstride g" and "unat v = length p"
  shows "x < slot_addr g i \<or> slot_addr g i + rstride g \<le> x \<Longrightarrow> fill_slot g i v p m x = m x"
    and "packet_len g (fill_slot g i v p m) i = length p"
    and "ring_packet g (fill_slot g i v p m) i = p"
proof -
  show "fill_slot g i v p m x = m x" if "x < slot_addr g i \<or> slot_addr g i + rstride g \<le> x"
    using that assms(1) by (auto simp: fill_slot_def slot_data_def store_bytes_outside store32_outside)
  show len: "packet_len g (fill_slot g i v p m) i = length p"
    using assms(2) by (simp add: packet_len_def fill_slot_def slot_data_def disjoint_regions_def
        load32_store_bytes_disjoint)
  show "ring_packet g (fill_slot g i v p m) i = p"
    by (simp add: ring_packet_def len) (simp add: fill_slot_def)
qed

lemma produce:
  assumes "ring_wf g" and "ring_inv g m" and "length p \<le> rmax g" and "unat v = length p"
    and "ring_next (rcount g) (widx g m) \<noteq> ridx g m"
    and "unat nx = ring_next (rcount g) (widx g m)"
    and m': "m' = store32 (fill_slot g (widx g m) v p m) (rwidx g) nx"
  shows "ring_contents g m' = ring_contents g m @ [p]" and "ring_inv g m'"
    and "\<not> in_ring g x \<Longrightarrow> m' x = m x"
proof -
  have fits: "length p + 8 \<le> rstride g" using assms(1,3) by (auto simp: ring_wf_def)
  note fill = fill_slot_props [OF fits assms(4)]
  note push = ring_push [OF assms(1,2,5) _ fill(3) _ m' assms(6)]
  show "ring_contents g m' = ring_contents g m @ [p]" and "ring_inv g m'"
    using push fill(1,2) assms(3) by auto
  have w: "widx g m < rcount g" using assms(2) by (simp add: ring_inv_def)
  show "m' x = m x" if "\<not> in_ring g x"
  proof -
    have "x < slot_addr g (widx g m) \<or> slot_addr g (widx g m) + rstride g \<le> x"
      using that in_ring_slot [OF assms(1) w, of x] by (meson not_less)
    moreover have "x < rwidx g \<or> rwidx g + 4 \<le> x"
      using that by (auto simp: in_ring_def ring_regions_def)
    ultimately show ?thesis by (simp add: m' store32_outside fill(1))
  qed
qed

lemma consume:
  assumes "ring_wf g" and "ring_inv g m" and "ridx g m \<noteq> widx g m"
    and "unat nx = ring_next (rcount g) (ridx g m)"
    and m': "m' = store32 m (rridx g) nx"
  shows "ring_contents g m = ring_packet g m (ridx g m) # ring_contents g m'" and "ring_inv g m'"
    and "\<not> in_ring g x \<Longrightarrow> m' x = m x"
  using ring_pop [OF assms(1-3) m' assms(4)]
  by (auto simp: m' in_ring_def ring_regions_def store32_outside not_less)

end
