(* ===== verification/Ipc_Tunnel.thy ===== *)
theory Ipc_Tunnel
  imports Packet_Ring
begin

text \<open>
  The bare-metal (CPU1) end of a tunnel: \<open>variants/ipc-tunnel-v3/ipc_tunnel.h\<close> and
  \<open>ipc_tunnel.c\<close>. The state of a call is the tunnel object and the machine: the shared memory
  and the log of writes to the software-interrupt trigger register of the interrupt
  controller. Memory barriers and the acquire/release qualifiers order accesses that this
  model already executes in program order. Console output is not modelled.
\<close>

record machine =
  mem :: memory
  sfi :: "u32 list" \<comment> \<open>values written to the GIC software-interrupt register, oldest first\<close>

section \<open>Data\<close>

record IpcTunnelConfig =
  controlBlockAddress :: u32
  sendBufferAddress :: u32
  receiveBufferAddress :: u32
  sendPacketMaxSize :: u16
  sendBufferedPacketCount :: u16
  receivePacketMaxSize :: u16
  receiveBufferedPacketCount :: u16
  cpu0KickSGI :: u32
  sharedMemoryAddress :: u32
  sharedMemorySize :: u32

record IpcTunnel =
  config :: IpcTunnelConfig
  control :: addr
  sendRingBuffer :: addr
  receiveRingBuffer :: addr
  sendPacketSize :: u16
  receivePacketSize :: u16
  directWriteIndex :: u32
  directReadIndex :: u32

text \<open>\<open>ControlHeader_t\<close>: two index words, 24 bytes of padding, two index words, padding.\<close>

definition cpu0_write_index :: "addr \<Rightarrow> addr" where
  "cpu0_write_index h = h"

definition cpu0_read_index :: "addr \<Rightarrow> addr" where
  "cpu0_read_index h = h + 4"

definition cpu1_write_index :: "addr \<Rightarrow> addr" where
  "cpu1_write_index h = h + 32"

definition cpu1_read_index :: "addr \<Rightarrow> addr" where
  "cpu1_read_index h = h + 36"

definition sizeof_ControlHeader :: nat where
  "sizeof_ControlHeader = 64"

text \<open>\<open>PacketHeader_t\<close>: \<open>packetSize\<close> at offset 0, a reserved word, \<open>data\<close> at offset 8.\<close>

definition sizeof_PacketHeader :: u32 where
  "sizeof_PacketHeader = 8"

definition packet_data :: "addr \<Rightarrow> addr" where
  "packet_data p = p + 8"

definition PACKET_SIZE_ALIGNMENT :: "bool \<Rightarrow> u32" where
  "PACKET_SIZE_ALIGNMENT cached = (if cached then 32 else 8)"

section \<open>Operations\<close>

definition slot_size :: "bool \<Rightarrow> u16 \<Rightarrow> u16" where
  "slot_size cached maxSize =
     ucast (((ucast maxSize + sizeof_PacketHeader) + (PACKET_SIZE_ALIGNMENT cached - 1))
            AND NOT (PACKET_SIZE_ALIGNMENT cached - 1))"

definition IPC_TUNNEL_Init :: "bool \<Rightarrow> IpcTunnel \<Rightarrow> IpcTunnelConfig \<Rightarrow> machine \<Rightarrow> IpcTunnel \<times> machine" where
  "IPC_TUNNEL_Init cached tunnel cfg s =
     (tunnel\<lparr>config := cfg,
             control := unat (controlBlockAddress cfg),
             receiveRingBuffer := unat (sendBufferAddress cfg),
             sendRingBuffer := unat (receiveBufferAddress cfg),
             sendPacketSize := slot_size cached (sendPacketMaxSize cfg),
             receivePacketSize := slot_size cached (receivePacketMaxSize cfg),
             directWriteIndex := 0\<rparr>,
      s\<lparr>mem := store_bytes (mem s) (unat (controlBlockAddress cfg)) (replicate sizeof_ControlHeader 0)\<rparr>)"

definition GetNextWriteIndex :: "IpcTunnel \<Rightarrow> u32 \<Rightarrow> u32" where
  "GetNextWriteIndex tunnel writeIndex =
     (let writeIndex = writeIndex + 1 in
      if writeIndex = ucast (sendBufferedPacketCount (config tunnel)) then 0 else writeIndex)"

definition GetWriteBufferPacket :: "IpcTunnel \<Rightarrow> u32 \<Rightarrow> addr" where
  "GetWriteBufferPacket tunnel index = sendRingBuffer tunnel + unat (index * ucast (sendPacketSize tunnel))"

definition GetReadBufferPacket :: "IpcTunnel \<Rightarrow> u32 \<Rightarrow> addr" where
  "GetReadBufferPacket tunnel index = receiveRingBuffer tunnel + unat (index * ucast (receivePacketSize tunnel))"

definition MarkPacketAsRead :: "IpcTunnel \<Rightarrow> u32 \<Rightarrow> machine \<Rightarrow> machine" where
  "MarkPacketAsRead tunnel previousReadIndex s =
     (let next = previousReadIndex + 1;
          next = (if next = ucast (receiveBufferedPacketCount (config tunnel)) then 0 else next)
      in s\<lparr>mem := store32 (mem s) (cpu1_read_index (control tunnel)) next\<rparr>)"

definition XSCUGIC_SFI_TRIG_MASK :: u32 where
  "XSCUGIC_SFI_TRIG_MASK = 0x00FF0000 OR 0x0000000F"

definition SendPacket :: "IpcTunnel \<Rightarrow> u32 \<Rightarrow> machine \<Rightarrow> machine" where
  "SendPacket tunnel nextWriteIndex s =
     (let s = s\<lparr>mem := store32 (mem s) (cpu1_write_index (control tunnel)) nextWriteIndex\<rparr>;
          mask = (push_bit 16 1 OR cpu0KickSGI (config tunnel)) AND XSCUGIC_SFI_TRIG_MASK
      in s\<lparr>sfi := sfi s @ [mask]\<rparr>)"

text \<open>
  \<open>IPC_TUNNEL_Read\<close> fills the front of the caller's \<open>buffer\<close> and returns the number of bytes
  copied, 0 when the ring is empty.
\<close>

definition IPC_TUNNEL_Read :: "IpcTunnel \<Rightarrow> bytes \<Rightarrow> u16 \<Rightarrow> machine \<Rightarrow> u16 \<times> bytes \<times> machine" where
  "IPC_TUNNEL_Read tunnel buffer sz s =
     (let readIndex = load32 (mem s) (cpu1_read_index (control tunnel));
          cpu0WriteIndex = load32 (mem s) (cpu0_write_index (control tunnel))
      in if readIndex \<noteq> cpu0WriteIndex then
           let packet = GetReadBufferPacket tunnel readIndex;
               rx = load32 (mem s) packet;
               rx = (if ucast sz < rx then ucast sz else rx);
               data = load_bytes (mem s) (packet_data packet) (unat rx)
           in (ucast rx, data @ drop (unat rx) buffer, MarkPacketAsRead tunnel readIndex s)
         else (0, buffer, s))"

definition IPC_TUNNEL_Write :: "IpcTunnel \<Rightarrow> bytes \<Rightarrow> u16 \<Rightarrow> machine \<Rightarrow> bool \<times> machine" where
  "IPC_TUNNEL_Write tunnel buffer sz s =
     (if sz = 0 then (False, s)
      else if sendPacketMaxSize (config tunnel) < sz then (False, s)
      else
        let writeIndex = load32 (mem s) (cpu1_write_index (control tunnel));
            cpu0ReadIndex = load32 (mem s) (cpu0_read_index (control tunnel));
            nextWriteIndex = GetNextWriteIndex tunnel writeIndex
        in if nextWriteIndex \<noteq> cpu0ReadIndex then
             let packet = GetWriteBufferPacket tunnel writeIndex;
                 s = s\<lparr>mem := store32 (mem s) packet (ucast sz)\<rparr>;
                 s = s\<lparr>mem := store_bytes (mem s) (packet_data packet) (take (unat sz) buffer)\<rparr>
             in (True, SendPacket tunnel nextWriteIndex s)
           else (False, s))"

definition IPC_TUNNEL_BeginDirectWrite :: "IpcTunnel \<Rightarrow> u16 \<Rightarrow> machine \<Rightarrow> addr \<times> IpcTunnel \<times> machine" where
  "IPC_TUNNEL_BeginDirectWrite tunnel sz s =
     (if sz = 0 then (NULL, tunnel, s)
      else if sendPacketMaxSize (config tunnel) < sz then (NULL, tunnel, s)
      else
        let writeIndex = load32 (mem s) (cpu1_write_index (control tunnel));
            nextWriteIndex = GetNextWriteIndex tunnel writeIndex;
            cpu0ReadIndex = load32 (mem s) (cpu0_read_index (control tunnel))
        in if nextWriteIndex \<noteq> cpu0ReadIndex then
             let packet = GetWriteBufferPacket tunnel writeIndex
             in (packet_data packet,
                 tunnel\<lparr>directWriteIndex := nextWriteIndex\<rparr>,
                 s\<lparr>mem := store32 (mem s) packet (ucast sz)\<rparr>)
           else (NULL, tunnel, s))"

definition IPC_TUNNEL_EndDirectWrite :: "IpcTunnel \<Rightarrow> machine \<Rightarrow> machine" where
  "IPC_TUNNEL_EndDirectWrite tunnel s = SendPacket tunnel (directWriteIndex tunnel) s"

text \<open>
  \<open>IPC_TUNNEL_BeginDirectRead\<close> leaves the caller's pointer alone when the ring is empty, which
  the model shows by taking the old pointer and returning the new one.
\<close>

definition IPC_TUNNEL_BeginDirectRead :: "IpcTunnel \<Rightarrow> addr \<Rightarrow> machine \<Rightarrow> u16 \<times> addr \<times> IpcTunnel" where
  "IPC_TUNNEL_BeginDirectRead tunnel dataPtr s =
     (let readIndex = load32 (mem s) (cpu1_read_index (control tunnel));
          cpu0WriteIndex = load32 (mem s) (cpu0_write_index (control tunnel))
      in if readIndex \<noteq> cpu0WriteIndex then
           let packet = GetReadBufferPacket tunnel readIndex
           in (ucast (load32 (mem s) packet), packet_data packet,
               tunnel\<lparr>directReadIndex := readIndex\<rparr>)
         else (0, dataPtr, tunnel))"

definition IPC_TUNNEL_EndDirectRead :: "IpcTunnel \<Rightarrow> machine \<Rightarrow> machine" where
  "IPC_TUNNEL_EndDirectRead tunnel s = MarkPacketAsRead tunnel (directReadIndex tunnel) s"

definition IPC_TUNNEL_GetSharedMemoryPointer :: "IpcTunnel \<Rightarrow> addr" where
  "IPC_TUNNEL_GetSharedMemoryPointer tunnel = unat (sharedMemoryAddress (config tunnel))"

definition IPC_TUNNEL_GetSharedMemorySize :: "IpcTunnel \<Rightarrow> u32" where
  "IPC_TUNNEL_GetSharedMemorySize tunnel = sharedMemorySize (config tunnel)"

section \<open>The two rings of a tunnel\<close>

definition tx_ring :: "IpcTunnel \<Rightarrow> ring" where
  "tx_ring t = \<lparr>rbase = sendRingBuffer t, rstride = unat (sendPacketSize t),
     rcount = unat (sendBufferedPacketCount (config t)), rmax = unat (sendPacketMaxSize (config t)),
     rwidx = cpu1_write_index (control t), rridx = cpu0_read_index (control t)\<rparr>"

definition rx_ring :: "IpcTunnel \<Rightarrow> ring" where
  "rx_ring t = \<lparr>rbase = receiveRingBuffer t, rstride = unat (receivePacketSize t),
     rcount = unat (receiveBufferedPacketCount (config t)), rmax = unat (receivePacketMaxSize (config t)),
     rwidx = cpu0_write_index (control t), rridx = cpu1_read_index (control t)\<rparr>"

definition tunnel_wf :: "IpcTunnel \<Rightarrow> bool" where
  "tunnel_wf t \<longleftrightarrow> ring_wf (tx_ring t) \<and> ring_wf (rx_ring t) \<and> rings_disjoint (tx_ring t) (rx_ring t)"

definition tunnel_inv :: "IpcTunnel \<Rightarrow> machine \<Rightarrow> bool" where
  "tunnel_inv t s \<longleftrightarrow> ring_inv (tx_ring t) (mem s) \<and> ring_inv (rx_ring t) (mem s)"

lemma tx_ring_sel [simp]:
  "rbase (tx_ring t) = sendRingBuffer t" "rstride (tx_ring t) = unat (sendPacketSize t)"
  "rcount (tx_ring t) = unat (sendBufferedPacketCount (config t))"
  "rmax (tx_ring t) = unat (sendPacketMaxSize (config t))"
  "rwidx (tx_ring t) = cpu1_write_index (control t)" "rridx (tx_ring t) = cpu0_read_index (control t)"
  by (simp_all add: tx_ring_def)

lemma rx_ring_sel [simp]:
  "rbase (rx_ring t) = receiveRingBuffer t" "rstride (rx_ring t) = unat (receivePacketSize t)"
  "rcount (rx_ring t) = unat (receiveBufferedPacketCount (config t))"
  "rmax (rx_ring t) = unat (receivePacketMaxSize (config t))"
  "rwidx (rx_ring t) = cpu0_write_index (control t)" "rridx (rx_ring t) = cpu1_read_index (control t)"
  by (simp_all add: rx_ring_def)

lemma GetNextWriteIndex_eq: "GetNextWriteIndex t i = next_index32 (sendBufferedPacketCount (config t)) i"
  by (simp add: GetNextWriteIndex_def next_index32_def Let_def)

lemma MarkPacketAsRead_eq:
  "MarkPacketAsRead t i s = s\<lparr>mem := store32 (mem s) (cpu1_read_index (control t))
     (next_index32 (receiveBufferedPacketCount (config t)) i)\<rparr>"
  by (simp add: MarkPacketAsRead_def next_index32_def Let_def)

lemma GetWriteBufferPacket_slot:
  "unat i < unat (sendBufferedPacketCount (config t)) \<Longrightarrow>
   GetWriteBufferPacket t i = slot_addr (tx_ring t) (unat i)"
  by (simp add: GetWriteBufferPacket_def slot_addr_def unat_mult_u16)

lemma GetReadBufferPacket_slot:
  "unat i < unat (receiveBufferedPacketCount (config t)) \<Longrightarrow>
   GetReadBufferPacket t i = slot_addr (rx_ring t) (unat i)"
  by (simp add: GetReadBufferPacket_def slot_addr_def unat_mult_u16)

section \<open>Sending\<close>

lemma IPC_TUNNEL_Write_unfold:
  assumes "tunnel_inv t s" and "sz \<noteq> 0" and "sz \<le> sendPacketMaxSize (config t)"
  shows "IPC_TUNNEL_Write t buffer sz s =
    (let g = tx_ring t; w = load32 (mem s) (rwidx g);
         nx = next_index32 (sendBufferedPacketCount (config t)) w
     in if ring_next (rcount g) (widx g (mem s)) \<noteq> ridx g (mem s)
        then (True, SendPacket t nx
               (s\<lparr>mem := fill_slot g (widx g (mem s)) (ucast sz) (take (unat sz) buffer) (mem s)\<rparr>))
        else (False, s))"
proof -
  let ?w = "load32 (mem s) (cpu1_write_index (control t))"
  have w: "unat ?w < unat (sendBufferedPacketCount (config t))"
    using assms(1) by (simp add: tunnel_inv_def ring_inv_def widx_def)
  have "GetNextWriteIndex t ?w = load32 (mem s) (cpu0_read_index (control t)) \<longleftrightarrow>
      ring_next (rcount (tx_ring t)) (widx (tx_ring t) (mem s)) = ridx (tx_ring t) (mem s)"
    by (simp add: GetNextWriteIndex_eq widx_def ridx_def word_unat_eq_iff unat_next_index32 [OF w])
  then show ?thesis
    using assms(2,3) GetWriteBufferPacket_slot [OF w]
    by (simp add: IPC_TUNNEL_Write_def Let_def GetNextWriteIndex_eq fill_slot_def packet_data_def
        slot_data_def widx_def not_less [symmetric])
qed

lemma IPC_TUNNEL_Write_correct:
  assumes wf: "tunnel_wf t" and inv: "tunnel_inv t s"
    and sz: "sz \<noteq> 0" "sz \<le> sendPacketMaxSize (config t)" and len: "unat sz \<le> length buffer"
    and run: "IPC_TUNNEL_Write t buffer sz s = (ok, s')"
  shows "ok \<longleftrightarrow> length (ring_contents (tx_ring t) (mem s)) < unat (sendBufferedPacketCount (config t)) - 1"
    and "ok \<Longrightarrow> ring_contents (tx_ring t) (mem s') = ring_contents (tx_ring t) (mem s) @ [take (unat sz) buffer]"
    and "ok \<Longrightarrow> sfi s' = sfi s @ [(push_bit 16 1 OR cpu0KickSGI (config t)) AND XSCUGIC_SFI_TRIG_MASK]"
    and "\<not> ok \<Longrightarrow> s' = s"
    and "\<not> in_ring (tx_ring t) x \<Longrightarrow> mem s' x = mem s x"
    and "ring_contents (rx_ring t) (mem s') = ring_contents (rx_ring t) (mem s)"
    and "tunnel_inv t s'"
proof -
  let ?g = "tx_ring t" and ?h = "rx_ring t" and ?p = "take (unat sz) buffer"
  have g: "ring_wf ?g" "ring_inv ?g (mem s)" and h: "ring_wf ?h" "ring_inv ?h (mem s)"
    and disj: "rings_disjoint ?g ?h"
    using wf inv by (auto simp: tunnel_wf_def tunnel_inv_def)
  note eq = IPC_TUNNEL_Write_unfold [OF inv sz, of buffer, unfolded Let_def]
  let ?room = "ring_next (rcount ?g) (widx ?g (mem s)) \<noteq> ridx ?g (mem s)"
  have ok: "ok \<longleftrightarrow> ?room" using run eq by (auto split: if_splits)
  then show "ok \<longleftrightarrow> length (ring_contents ?g (mem s)) < unat (sendBufferedPacketCount (config t)) - 1"
    using ring_has_room_iff [OF g(2)] by simp
  show "s' = s" if "\<not> ok" using that run eq by (auto split: if_splits)
  have step: "ring_contents ?g (mem s') = ring_contents ?g (mem s) @ [?p] \<and> ring_inv ?g (mem s')
      \<and> (\<forall>x. \<not> in_ring ?g x \<longrightarrow> mem s' x = mem s x)
      \<and> sfi s' = sfi s @ [(push_bit 16 1 OR cpu0KickSGI (config t)) AND XSCUGIC_SFI_TRIG_MASK]" if "ok"
  proof -
    let ?nx = "next_index32 (sendBufferedPacketCount (config t)) (load32 (mem s) (rwidx ?g))"
    have s': "s' = SendPacket t ?nx (s\<lparr>mem := fill_slot ?g (widx ?g (mem s)) (ucast sz) ?p (mem s)\<rparr>)"
      using that ok run eq by auto
    then have m': "mem s' = store32 (fill_slot ?g (widx ?g (mem s)) (ucast sz) ?p (mem s)) (rwidx ?g) ?nx"
      by (simp add: SendPacket_def Let_def)
    have lp: "length ?p \<le> rmax ?g" "unat (ucast sz :: u32) = length ?p"
      using sz(2) len by (auto simp: word_le_nat_alt)
    have nx: "unat ?nx = ring_next (rcount ?g) (widx ?g (mem s))"
      using g(2) by (simp add: unat_next_index32 ring_inv_def widx_def)
    note eff = produce [OF g lp _ nx m']
    show ?thesis using eff that ok s' by (auto simp: SendPacket_def Let_def)
  qed
  show "ring_contents ?g (mem s') = ring_contents ?g (mem s) @ [?p]" if ok using step that by blast
  show "sfi s' = sfi s @ [(push_bit 16 1 OR cpu0KickSGI (config t)) AND XSCUGIC_SFI_TRIG_MASK]" if ok
    using step that by blast
  have frame: "mem s' x = mem s x" if "\<not> in_ring ?g x" for x
    using step \<open>\<not> ok \<Longrightarrow> s' = s\<close> that by blast
  then show "mem s' x = mem s x" if "\<not> in_ring ?g x" using that by blast
  note same = same_ringD [OF h same_ring_frame [OF h disj frame]]
  show "ring_contents ?h (mem s') = ring_contents ?h (mem s)" by (rule same(2))
  show "tunnel_inv t s'"
    using step same(1) \<open>\<not> ok \<Longrightarrow> s' = s\<close> inv unfolding tunnel_inv_def by blast
qed

section \<open>Receiving\<close>

lemma IPC_TUNNEL_Read_empty:
  assumes "tunnel_inv t s" and "ring_contents (rx_ring t) (mem s) = []"
  shows "IPC_TUNNEL_Read t buffer sz s = (0, buffer, s)"
proof -
  have "ridx (rx_ring t) (mem s) = widx (rx_ring t) (mem s)"
    using assms ring_contents_Nil_iff by (auto simp: tunnel_inv_def)
  then show ?thesis by (simp add: IPC_TUNNEL_Read_def ridx_def widx_def word_unat_eq_iff)
qed

lemma IPC_TUNNEL_Read_correct:
  assumes wf: "tunnel_wf t" and inv: "tunnel_inv t s"
    and ne: "ring_contents (rx_ring t) (mem s) = p # ps"
    and run: "IPC_TUNNEL_Read t buffer sz s = (rx, buffer', s')"
  shows "unat rx = min (unat sz) (length p)"
    and "buffer' = take (unat rx) p @ drop (unat rx) buffer"
    and "ring_contents (rx_ring t) (mem s') = ps"
    and "ring_contents (tx_ring t) (mem s') = ring_contents (tx_ring t) (mem s)"
    and "tunnel_inv t s'" and "sfi s' = sfi s"
    and "\<not> in_ring (rx_ring t) x \<Longrightarrow> mem s' x = mem s x"
proof -
  let ?g = "rx_ring t" and ?h = "tx_ring t"
  let ?r = "load32 (mem s) (rridx ?g)"
  have g: "ring_wf ?g" "ring_inv ?g (mem s)" and h: "ring_wf ?h" "ring_inv ?h (mem s)"
    and disj: "rings_disjoint ?g ?h"
    using wf inv rings_disjoint_sym by (auto simp: tunnel_wf_def tunnel_inv_def)
  have r: "unat ?r < rcount ?g" using g(2) by (simp add: ring_inv_def ridx_def)
  have neq: "ridx ?g (mem s) \<noteq> widx ?g (mem s)" using ne ring_contents_Nil_iff [OF g(2)] by auto
  let ?nx = "next_index32 (receiveBufferedPacketCount (config t)) ?r"
  have nx: "unat ?nx = ring_next (rcount ?g) (ridx ?g (mem s))"
    using r by (simp add: unat_next_index32 ridx_def)
  let ?m = "store32 (mem s) (rridx ?g) ?nx"
  note eff = consume [OF g neq nx refl]
  have p: "p = ring_packet ?g (mem s) (ridx ?g (mem s))" and ps: "ring_contents ?g ?m = ps"
    using eff(1) ne by auto
  let ?len = "load32 (mem s) (slot_addr ?g (unat ?r))"
  have lp: "unat ?len = length p"
    by (simp add: p ring_packet_def packet_len_def ridx_def)
  have data: "load_bytes (mem s) (slot_addr ?g (unat ?r) + 8) k = take k p" if "k \<le> length p" for k
    using that load_bytes_take [of k "length p"] lp
    by (simp add: p ring_packet_def packet_len_def ridx_def slot_data_def)
  have cond: "load32 (mem s) (cpu1_read_index (control t)) \<noteq> load32 (mem s) (cpu0_write_index (control t))"
    using neq by (auto simp: ridx_def widx_def)
  let ?k = "if (ucast sz :: u32) < ?len then ucast sz else ?len"
  have res: "rx = ucast ?k" "buffer' = load_bytes (mem s) (slot_addr ?g (unat ?r) + 8) (unat ?k) @ drop (unat ?k) buffer"
    "s' = s\<lparr>mem := ?m\<rparr>"
    using run cond GetReadBufferPacket_slot [of ?r t] r
    by (auto simp: IPC_TUNNEL_Read_def Let_def MarkPacketAsRead_eq packet_data_def split: if_splits)
  have k: "unat ?k = min (unat sz) (length p)"
    using lp by (auto simp: word_less_nat_alt min_def)
  have "unat ?k < 2 ^ 16" using k unat_u16_less [of sz] by simp
  then show rx: "unat rx = min (unat sz) (length p)" using k res(1) by (simp add: unat_u32_u16)
  show "buffer' = take (unat rx) p @ drop (unat rx) buffer" using res(2) data k rx by simp
  have same: "same_ring ?h (mem s) ?m"
    using eff(3) by (intro same_ring_frame [OF h disj]) auto
  show "ring_contents ?g (mem s') = ps" using ps res(3) by simp
  show "ring_contents ?h (mem s') = ring_contents ?h (mem s)" using same_ringD(2) [OF h same] res(3) by simp
  show "tunnel_inv t s'"
    using eff(2) same_ringD(1) [OF h same] res(3) by (simp add: tunnel_inv_def)
  show "sfi s' = sfi s" using res(3) by simp
  show "mem s' x = mem s x" if "\<not> in_ring ?g x" using eff(3) that res(3) by simp
qed

section \<open>The zero-copy calls\<close>

lemma direct_write_NULL_iff:
  assumes "sendRingBuffer t \<noteq> NULL"
  shows "fst (IPC_TUNNEL_BeginDirectWrite t sz s) = NULL \<longleftrightarrow> \<not> fst (IPC_TUNNEL_Write t buffer sz s)"
  using assms
  by (auto simp: IPC_TUNNEL_BeginDirectWrite_def IPC_TUNNEL_Write_def Let_def packet_data_def)

lemma direct_read_empty:
  assumes "tunnel_inv t s" and "ring_contents (rx_ring t) (mem s) = []"
  shows "IPC_TUNNEL_BeginDirectRead t d s = (0, d, t)"
proof -
  have "ridx (rx_ring t) (mem s) = widx (rx_ring t) (mem s)"
    using assms ring_contents_Nil_iff by (auto simp: tunnel_inv_def)
  then show ?thesis by (simp add: IPC_TUNNEL_BeginDirectRead_def ridx_def widx_def word_unat_eq_iff)
qed

lemma direct_read_packet:
  assumes inv: "tunnel_inv t s" and "tunnel_wf t" and ne: "ring_contents (rx_ring t) (mem s) = p # ps"
    and run: "IPC_TUNNEL_BeginDirectRead t d s = (n, ptr, t')"
  shows "unat n = length p" and "load_bytes (mem s) ptr (unat n) = p"
    and "IPC_TUNNEL_EndDirectRead t' s = snd (snd (IPC_TUNNEL_Read t buffer sz s))"
proof -
  let ?g = "rx_ring t"
  have g: "ring_inv ?g (mem s)" and wf: "rmax ?g < 65536" using assms(1,2) by (auto simp: tunnel_inv_def tunnel_wf_def ring_wf_def)
  have neq: "ridx ?g (mem s) \<noteq> widx ?g (mem s)" using ne ring_contents_Nil_iff [OF g] by auto
  have r: "unat (load32 (mem s) (rridx ?g)) < rcount ?g" using g by (simp add: ring_inv_def ridx_def)
  have rw: "ridx ?g (mem s) < rcount ?g" "widx ?g (mem s) < rcount ?g" using g by (auto simp: ring_inv_def)
  have p: "p = ring_packet ?g (mem s) (ridx ?g (mem s))"
    using ne ring_span_pop [OF rw neq] by (simp add: ring_contents_def)
  have c: "load32 (mem s) (cpu1_read_index (control t)) \<noteq> load32 (mem s) (cpu0_write_index (control t))"
    using neq by (auto simp: ridx_def widx_def)
  let ?a = "slot_addr ?g (ridx ?g (mem s))"
  have res: "n = ucast (load32 (mem s) ?a)" "ptr = ?a + 8"
      "t' = t\<lparr>directReadIndex := load32 (mem s) (cpu1_read_index (control t))\<rparr>"
    using run c GetReadBufferPacket_slot [of "load32 (mem s) (rridx ?g)" t] r
    by (simp_all add: IPC_TUNNEL_BeginDirectRead_def Let_def packet_data_def ridx_def)
  have "length p < 65536" using ring_packet_bound [OF g ne] wf by simp
  then show n: "unat n = length p" using p by (simp add: res unat_u32_u16 ring_packet_def packet_len_def)
  show "load_bytes (mem s) ptr (unat n) = p"
    unfolding n by (simp add: res) (simp add: p ring_packet_def slot_data_def)
  show "IPC_TUNNEL_EndDirectRead t' s = snd (snd (IPC_TUNNEL_Read t buffer sz s))"
    using c by (simp add: IPC_TUNNEL_EndDirectRead_def IPC_TUNNEL_Read_def Let_def res MarkPacketAsRead_def)
qed

section \<open>Initialisation\<close>

lemma init_index_zero:
  assumes "IPC_TUNNEL_Init cached t0 cfg s = (t, s')"
  shows "load32 (mem s') (cpu0_write_index (control t)) = 0" "load32 (mem s') (cpu0_read_index (control t)) = 0"
    "load32 (mem s') (cpu1_write_index (control t)) = 0" "load32 (mem s') (cpu1_read_index (control t)) = 0"
  using assms
  by (auto simp: IPC_TUNNEL_Init_def sizeof_ControlHeader_def cpu0_write_index_def cpu0_read_index_def
      cpu1_write_index_def cpu1_read_index_def intro!: load32_memset_zero)

lemma IPC_TUNNEL_Init_empty:
  assumes "IPC_TUNNEL_Init cached t0 cfg s = (t, s')" and "tunnel_wf t"
  shows "tunnel_inv t s'" and "ring_contents (tx_ring t) (mem s') = []" and "ring_contents (rx_ring t) (mem s') = []"
  using init_index_zero [OF assms(1)] assms(2)
  by (auto simp: tunnel_inv_def ring_inv_def ring_contents_def widx_def ridx_def tunnel_wf_def ring_wf_def)

end
