(* ===== verification/Tunnel_Variant.thy ===== *)
theory Tunnel_Variant
  imports Ipc_Tunnel
begin

text \<open>
  The IPC-tunnel transport behind the variant interface (\<open>variants/include/variant.h\<close>):
  \<open>variants/ipc-tunnel-v3/variant.c\<close>, the six tunnel configurations, the three channels, and
  the memory map they share. The build selects on-chip memory or DDR (\<open>ocm\<close>) and cached or
  uncached access (\<open>cached\<close>); both are parameters here. A read callback is a function on the
  application's state.
\<close>

definition f_configs :: "IpcTunnelConfig list" where
  "f_configs =
   [ \<lparr>controlBlockAddress = 0xFFFF0000, sendBufferAddress = 0xFFFF0040, receiveBufferAddress = 0xFFFF1100,
      sendPacketMaxSize = 0x780, sendBufferedPacketCount = 2,
      receivePacketMaxSize = 0x780, receiveBufferedPacketCount = 2,
      cpu0KickSGI = 14, sharedMemoryAddress = 0xFFFFE000, sharedMemorySize = 0x1000\<rparr>,
     \<lparr>controlBlockAddress = 0xFFFF3000, sendBufferAddress = 0xFFFF3040, receiveBufferAddress = 0xFFFF5100,
      sendPacketMaxSize = 0x780, sendBufferedPacketCount = 4,
      receivePacketMaxSize = 0x780, receiveBufferedPacketCount = 4,
      cpu0KickSGI = 13, sharedMemoryAddress = 0, sharedMemorySize = 0\<rparr>,
     \<lparr>controlBlockAddress = 0xFFFF7200, sendBufferAddress = 0xFFFF7240, receiveBufferAddress = 0xFFFF9800,
      sendPacketMaxSize = 0x1200, sendBufferedPacketCount = 2,
      receivePacketMaxSize = 0x1200, receiveBufferedPacketCount = 2,
      cpu0KickSGI = 12, sharedMemoryAddress = 0xFFFFC000, sharedMemorySize = 0x2000\<rparr>,
     \<lparr>controlBlockAddress = 0x3FFF0000, sendBufferAddress = 0x3FFF0040, receiveBufferAddress = 0x3FFF1100,
      sendPacketMaxSize = 0x780, sendBufferedPacketCount = 2,
      receivePacketMaxSize = 0x780, receiveBufferedPacketCount = 2,
      cpu0KickSGI = 11, sharedMemoryAddress = 0x3FFFE000, sharedMemorySize = 0x1000\<rparr>,
     \<lparr>controlBlockAddress = 0x3FFF3000, sendBufferAddress = 0x3FFF3040, receiveBufferAddress = 0x3FFF5100,
      sendPacketMaxSize = 0x780, sendBufferedPacketCount = 4,
      receivePacketMaxSize = 0x780, receiveBufferedPacketCount = 4,
      cpu0KickSGI = 10, sharedMemoryAddress = 0, sharedMemorySize = 0\<rparr>,
     \<lparr>controlBlockAddress = 0x3FFF7200, sendBufferAddress = 0x3FFF7240, receiveBufferAddress = 0x3FFF9800,
      sendPacketMaxSize = 0x1200, sendBufferedPacketCount = 2,
      receivePacketMaxSize = 0x1200, receiveBufferedPacketCount = 2,
      cpu0KickSGI = 9, sharedMemoryAddress = 0x3FFFC000, sharedMemorySize = 0x2000\<rparr> ]"

definition IPC_TUNNEL_CONFIG_OFFSET :: "bool \<Rightarrow> nat" where
  "IPC_TUNNEL_CONFIG_OFFSET ocm = (if ocm then 0 else 3)"

record variant =
  f_tunnels :: "IpcTunnel list"
  tlb :: "(u32 \<times> u32) list" \<comment> \<open>\<open>Xil_SetTlbAttributes\<close> calls, oldest first\<close>
  machine :: machine

definition NORM_WB_CACHE :: u32 where
  "NORM_WB_CACHE = 0x15DE6"

definition init_tunnel :: "bool \<Rightarrow> bool \<Rightarrow> nat \<Rightarrow> variant \<Rightarrow> variant" where
  "init_tunnel ocm cached i v =
     (let (t, s) = IPC_TUNNEL_Init cached (f_tunnels v ! i) (f_configs ! (IPC_TUNNEL_CONFIG_OFFSET ocm + i)) (machine v)
      in v\<lparr>f_tunnels := (f_tunnels v)[i := t], machine := s\<rparr>)"

definition VARIANT_Initialize :: "bool \<Rightarrow> bool \<Rightarrow> variant \<Rightarrow> bool \<times> variant" where
  "VARIANT_Initialize ocm cached v =
     (let attrib = (if cached then NORM_WB_CACHE else 0x04de2);
          v = v\<lparr>tlb := tlb v @ [(0xFFFF0000, attrib), (0x3FFF0000, attrib)]\<rparr>;
          v = init_tunnel ocm cached 0 v;
          v = init_tunnel ocm cached 1 v;
          v = init_tunnel ocm cached 2 v
      in (True, v))"

definition read_chan ::
  "nat \<Rightarrow> bytes \<Rightarrow> u32 \<Rightarrow> (bytes \<Rightarrow> u32 \<Rightarrow> 'a \<Rightarrow> 'a) \<Rightarrow> 'a \<Rightarrow> variant \<Rightarrow> bytes \<times> 'a \<times> variant" where
  "read_chan i buffer sz cb user v =
     (let (s, buffer, mc) = IPC_TUNNEL_Read (f_tunnels v ! i) buffer (ucast sz) (machine v)
      in (buffer, (if 0 < s then cb buffer (ucast s) user else user), v\<lparr>machine := mc\<rparr>))"

definition write_chan :: "nat \<Rightarrow> bytes \<Rightarrow> u32 \<Rightarrow> variant \<Rightarrow> bool \<times> variant" where
  "write_chan i buffer sz v =
     (let (ok, mc) = IPC_TUNNEL_Write (f_tunnels v ! i) buffer (ucast sz) (machine v)
      in (ok, v\<lparr>machine := mc\<rparr>))"

definition VARIANT_ReadChan0 where "VARIANT_ReadChan0 = read_chan 0"
definition VARIANT_ReadChan1 where "VARIANT_ReadChan1 = read_chan 1"
definition VARIANT_ReadChan2 where "VARIANT_ReadChan2 = read_chan 2"
definition VARIANT_WriteChan0 where "VARIANT_WriteChan0 = write_chan 0"
definition VARIANT_WriteChan1 where "VARIANT_WriteChan1 = write_chan 1"
definition VARIANT_WriteChan2 where "VARIANT_WriteChan2 = write_chan 2"

definition VARIANT_PacketSizeChan0 :: u32 where
  "VARIANT_PacketSizeChan0 = ucast (sendPacketMaxSize (f_configs ! 0))"

definition VARIANT_PacketSizeChan1 :: u32 where
  "VARIANT_PacketSizeChan1 = ucast (sendPacketMaxSize (f_configs ! 1))"

definition VARIANT_PacketSizeChan2 :: u32 where
  "VARIANT_PacketSizeChan2 = ucast (sendPacketMaxSize (f_configs ! 2))"

definition VARIANT_T0Shm :: "variant \<Rightarrow> addr" where
  "VARIANT_T0Shm v = unat (sharedMemoryAddress (config (f_tunnels v ! 0)))"

definition VARIANT_T0ShmSize :: "variant \<Rightarrow> u32" where
  "VARIANT_T0ShmSize v = sharedMemorySize (config (f_tunnels v ! 0))"

definition VARIANT_Destruct :: "variant \<Rightarrow> variant" where
  "VARIANT_Destruct v = v"

section \<open>The memory map\<close>

definition blank_tunnel :: IpcTunnel where
  "blank_tunnel = \<lparr>config = f_configs ! 0, control = 0, sendRingBuffer = 0, receiveRingBuffer = 0,
     sendPacketSize = 0, receivePacketSize = 0, directWriteIndex = 0, directReadIndex = 0\<rparr>"

definition tunnel_of :: "bool \<Rightarrow> IpcTunnelConfig \<Rightarrow> IpcTunnel" where
  "tunnel_of cached cfg = fst (IPC_TUNNEL_Init cached blank_tunnel cfg \<lparr>mem = (\<lambda>_. 0), sfi = []\<rparr>)"

lemma tunnel_of_sel [simp]:
  "config (tunnel_of cached c) = c" "control (tunnel_of cached c) = unat (controlBlockAddress c)"
  "receiveRingBuffer (tunnel_of cached c) = unat (sendBufferAddress c)"
  "sendRingBuffer (tunnel_of cached c) = unat (receiveBufferAddress c)"
  "sendPacketSize (tunnel_of cached c) = slot_size cached (sendPacketMaxSize c)"
  "receivePacketSize (tunnel_of cached c) = slot_size cached (receivePacketMaxSize c)"
  by (simp_all add: tunnel_of_def IPC_TUNNEL_Init_def)

lemma slot_size_deployed [simp]:
  "slot_size True 0x780 = 0x7A0" "slot_size False 0x780 = 0x788"
  "slot_size True 0x1200 = 0x1220" "slot_size False 0x1200 = 0x1208"
  by code_simp+

lemmas layout_simps = f_configs_def ring_wf_def rings_disjoint_def ring_regions_def disjoint_regions_def
  cpu0_write_index_def cpu0_read_index_def cpu1_write_index_def cpu1_read_index_def tunnel_wf_def
  tx_ring_def rx_ring_def

lemma tunnel_wf_configs: "\<forall>c \<in> set f_configs. tunnel_wf (tunnel_of cached c)"
  by (cases cached) (simp_all add: layout_simps)

definition bank_config :: "bool \<Rightarrow> nat \<Rightarrow> IpcTunnelConfig" where
  "bank_config ocm i = f_configs ! (IPC_TUNNEL_CONFIG_OFFSET ocm + i)"

abbreviation bank_tunnel :: "bool \<Rightarrow> bool \<Rightarrow> nat \<Rightarrow> IpcTunnel" where
  "bank_tunnel ocm cached i \<equiv> tunnel_of cached (bank_config ocm i)"

lemma less_3_cases: "i < 3 \<longleftrightarrow> i = 0 \<or> i = 1 \<or> i = (2 :: nat)"
  by auto

lemmas bank_simps = bank_config_def IPC_TUNNEL_CONFIG_OFFSET_def layout_simps less_3_cases

lemma bank_wf: "i < 3 \<Longrightarrow> tunnel_wf (bank_tunnel ocm cached i)"
  using tunnel_wf_configs [of cached]
  by (auto simp: bank_config_def IPC_TUNNEL_CONFIG_OFFSET_def f_configs_def less_3_cases)

text \<open>
  Each tunnel of a bank keeps to a window of the 64 KiB region: \<open>0x0000\<close> to \<open>0x3000\<close>,
  \<open>0x3000\<close> to \<open>0x7200\<close> and \<open>0x7200\<close> to \<open>0xC000\<close>; the shared-memory areas lie above.
\<close>

definition window_base :: "bool \<Rightarrow> nat \<Rightarrow> addr" where
  "window_base ocm i = (if ocm then 0xFFFF0000 else 0x3FFF0000) + [0, 0x3000, 0x7200] ! i"

definition window_size :: "nat \<Rightarrow> nat" where
  "window_size i = [0x3000, 0x4200, 0x4E00] ! i"

lemma window_tx: "i < 3 \<Longrightarrow> ring_within (tx_ring (bank_tunnel ocm cached i)) (window_base ocm i) (window_size i)"
  by (cases ocm; cases cached) (auto simp: bank_simps ring_within_def window_base_def window_size_def)

lemma window_rx: "i < 3 \<Longrightarrow> ring_within (rx_ring (bank_tunnel ocm cached i)) (window_base ocm i) (window_size i)"
  by (cases ocm; cases cached) (auto simp: bank_simps ring_within_def window_base_def window_size_def)

lemma windows_disjoint:
  assumes "i < 3" and "j < 3" and "i \<noteq> j"
  shows "disjoint_regions (window_base ocm i) (window_size i) (window_base ocm j) (window_size j)"
  using assms by (auto simp: less_3_cases window_base_def window_size_def disjoint_regions_def)

lemma header_in_window:
  assumes "i < 3" and "j < 3" and "i \<noteq> j"
  shows "disjoint_regions (unat (controlBlockAddress (bank_config ocm i))) sizeof_ControlHeader
     (window_base ocm j) (window_size j)"
  using assms by (cases ocm)
    (auto simp: bank_simps window_base_def window_size_def sizeof_ControlHeader_def)

lemma shm_above_window:
  assumes "i < 3" and "j < 3"
  shows "disjoint_regions (unat (sharedMemoryAddress (bank_config ocm i)))
     (unat (sharedMemorySize (bank_config ocm i))) (window_base ocm j) (window_size j)"
  using assms by (cases ocm) (auto simp: bank_simps window_base_def window_size_def)

lemmas bank_disjoint =
  ring_within_disjoint [OF window_tx window_tx windows_disjoint]
  ring_within_disjoint [OF window_tx window_rx windows_disjoint]
  ring_within_disjoint [OF window_rx window_tx windows_disjoint]
  ring_within_disjoint [OF window_rx window_rx windows_disjoint]

lemmas header_misses =
  ring_within_misses [OF window_tx header_in_window] ring_within_misses [OF window_rx header_in_window]

lemmas shm_misses =
  ring_within_misses [OF window_tx shm_above_window] ring_within_misses [OF window_rx shm_above_window]

section \<open>The invariant of a bank of channels\<close>

definition chan_inv :: "bool \<Rightarrow> bool \<Rightarrow> nat \<Rightarrow> variant \<Rightarrow> bool" where
  "chan_inv ocm cached i v \<longleftrightarrow>
     config (f_tunnels v ! i) = bank_config ocm i
     \<and> tx_ring (f_tunnels v ! i) = tx_ring (bank_tunnel ocm cached i)
     \<and> rx_ring (f_tunnels v ! i) = rx_ring (bank_tunnel ocm cached i)
     \<and> tunnel_inv (f_tunnels v ! i) (machine v)"

definition variant_inv :: "bool \<Rightarrow> bool \<Rightarrow> variant \<Rightarrow> bool" where
  "variant_inv ocm cached v \<longleftrightarrow> length (f_tunnels v) = 3 \<and> (\<forall>i<3. chan_inv ocm cached i v)"

definition chan_sent :: "nat \<Rightarrow> variant \<Rightarrow> bytes list" where
  "chan_sent i v = ring_contents (tx_ring (f_tunnels v ! i)) (mem (machine v))"

definition chan_pending :: "nat \<Rightarrow> variant \<Rightarrow> bytes list" where
  "chan_pending i v = ring_contents (rx_ring (f_tunnels v ! i)) (mem (machine v))"

lemma chan_inv_wf: "i < 3 \<Longrightarrow> chan_inv ocm cached i v \<Longrightarrow> tunnel_wf (f_tunnels v ! i)"
  using bank_wf [of i cached ocm] by (simp add: chan_inv_def tunnel_wf_def)

text \<open>A channel is not disturbed by stores that miss both of its rings.\<close>

definition chan_kept :: "nat \<Rightarrow> variant \<Rightarrow> variant \<Rightarrow> bool" where
  "chan_kept i v v' \<longleftrightarrow> f_tunnels v' ! i = f_tunnels v ! i
     \<and> same_ring (tx_ring (f_tunnels v ! i)) (mem (machine v)) (mem (machine v'))
     \<and> same_ring (rx_ring (f_tunnels v ! i)) (mem (machine v)) (mem (machine v'))"

lemma chan_keptD:
  assumes "i < 3" and "chan_inv ocm cached i v" and "chan_kept i v v'"
  shows "chan_inv ocm cached i v'" "chan_sent i v' = chan_sent i v" "chan_pending i v' = chan_pending i v"
  using chan_inv_wf [OF assms(1,2)] assms(2,3) same_ringD
  unfolding chan_inv_def chan_kept_def chan_sent_def chan_pending_def tunnel_wf_def tunnel_inv_def
  by auto

lemma chan_kept_frame:
  assumes "i < 3" and "j < 3" and "i \<noteq> j" and "chan_inv ocm cached i v" and "chan_inv ocm cached j v"
    and "g \<in> {tx_ring (f_tunnels v ! j), rx_ring (f_tunnels v ! j)}"
    and "f_tunnels v' = f_tunnels v" and "\<forall>x. \<not> in_ring g x \<longrightarrow> mem (machine v') x = mem (machine v) x"
  shows "chan_kept i v v'"
proof -
  let ?t = "f_tunnels v ! i"
  have wf: "ring_wf (tx_ring ?t)" "ring_wf (rx_ring ?t)"
    and inv: "ring_inv (tx_ring ?t) (mem (machine v))" "ring_inv (rx_ring ?t) (mem (machine v))"
    using chan_inv_wf [OF assms(1,4)] assms(4) by (auto simp: tunnel_wf_def chan_inv_def tunnel_inv_def)
  have "rings_disjoint g (tx_ring ?t)" "rings_disjoint g (rx_ring ?t)"
    using assms(1-6) bank_disjoint by (auto simp: chan_inv_def)
  then show ?thesis
    unfolding chan_kept_def
    using same_ring_frame [OF wf(1) inv(1)] same_ring_frame [OF wf(2) inv(2)] assms(7,8) by metis
qed

lemma init_tunnel_step:
  assumes "length (f_tunnels v) = 3" and "i < 3" and v': "v' = init_tunnel ocm cached i v"
  shows "length (f_tunnels v') = 3" and "chan_inv ocm cached i v'"
    and "chan_sent i v' = []" and "chan_pending i v' = []"
    and "j < 3 \<Longrightarrow> j \<noteq> i \<Longrightarrow> chan_inv ocm cached j v \<Longrightarrow> chan_kept j v v'"
proof -
  obtain t s where init: "IPC_TUNNEL_Init cached (f_tunnels v ! i) (bank_config ocm i) (machine v) = (t, s)"
    by fastforce
  have eqs: "f_tunnels v' = (f_tunnels v)[i := t]" "machine v' = s"
    using init by (simp_all add: v' init_tunnel_def bank_config_def)
  then show "length (f_tunnels v') = 3" using assms(1) by simp
  have t: "f_tunnels v' ! i = t" using eqs assms(1,2) by simp
  have same: "config t = bank_config ocm i" "tx_ring t = tx_ring (bank_tunnel ocm cached i)"
    "rx_ring t = rx_ring (bank_tunnel ocm cached i)"
    using init by (auto simp: IPC_TUNNEL_Init_def tx_ring_def rx_ring_def)
  then have wf: "tunnel_wf t" using bank_wf [OF assms(2)] by (simp add: tunnel_wf_def)
  note empty = IPC_TUNNEL_Init_empty [OF init wf]
  show "chan_inv ocm cached i v'" "chan_sent i v' = []" "chan_pending i v' = []"
    using same empty by (simp_all add: chan_inv_def chan_sent_def chan_pending_def t eqs(2))
  assume j: "j < 3" "j \<noteq> i" and inv: "chan_inv ocm cached j v"
  let ?u = "f_tunnels v ! j"
  have mem: "mem s = store_bytes (mem (machine v)) (unat (controlBlockAddress (bank_config ocm i)))
      (replicate sizeof_ControlHeader 0)"
    using init by (auto simp: IPC_TUNNEL_Init_def)
  have wfj: "ring_wf (tx_ring ?u)" "ring_wf (rx_ring ?u)"
    using chan_inv_wf [OF j(1) inv] by (simp_all add: tunnel_wf_def)
  have "ring_misses g (unat (controlBlockAddress (bank_config ocm i))) (length (replicate sizeof_ControlHeader (0 :: u8)))"
    if "g \<in> {tx_ring ?u, rx_ring ?u}" for g
    using that inv header_misses [OF j(1) assms(2) j(1) j(2) [symmetric], of cached ocm]
    by (auto simp: chan_inv_def)
  then show "chan_kept j v v'"
    using same_ring_store [OF wfj(1)] same_ring_store [OF wfj(2)] inv j
    by (auto simp: chan_kept_def eqs mem chan_inv_def tunnel_inv_def)
qed

lemma VARIANT_Initialize_correct:
  assumes "length (f_tunnels v) = 3" and "VARIANT_Initialize ocm cached v = (ok, v')"
  shows "ok" and "variant_inv ocm cached v'" and "\<forall>i<3. chan_sent i v' = [] \<and> chan_pending i v' = []"
proof -
  define v0 where "v0 = v\<lparr>tlb := tlb v @ [(0xFFFF0000, if cached then NORM_WB_CACHE else 0x04de2),
      (0x3FFF0000, if cached then NORM_WB_CACHE else 0x04de2)]\<rparr>"
  define v1 where "v1 = init_tunnel ocm cached 0 v0"
  define v2 where "v2 = init_tunnel ocm cached 1 v1"
  have v': "v' = init_tunnel ocm cached 2 v2" and ok
    using assms(2) by (simp_all add: VARIANT_Initialize_def v0_def v1_def v2_def Let_def)
  have "length (f_tunnels v0) = 3" using assms(1) by (simp add: v0_def)
  note s0 = init_tunnel_step [OF this, of 0, OF _ v1_def, simplified]
  note s1 = init_tunnel_step [OF s0(1), of 1, OF _ v2_def, simplified]
  note s2 = init_tunnel_step [OF s1(1), of 2, OF _ v', simplified]
  note k01 = chan_keptD [OF _ s0(2) s1(5) [OF _ _ s0(2)], simplified]
  note k02 = chan_keptD [OF _ k01(1) s2(5) [OF _ _ k01(1)], simplified]
  note k12 = chan_keptD [OF _ s1(2) s2(5) [OF _ _ s1(2)], simplified]
  show ok by fact
  show "variant_inv ocm cached v'"
    using s2(1,2) k02(1) k12(1) s0(2) by (auto simp: variant_inv_def less_3_cases)
  show "\<forall>i<3. chan_sent i v' = [] \<and> chan_pending i v' = []"
    using s2(3,4) k02(2,3) k12(2,3) k01(2,3) s0 s1 by (auto simp: less_3_cases)
qed

section \<open>Channel operations\<close>

lemma chan_config: "i < 3 \<Longrightarrow> chan_inv ocm cached i v \<Longrightarrow> config (f_tunnels v ! i) = bank_config ocm i"
  by (simp add: chan_inv_def)

lemma variant_invI_step:
  assumes "variant_inv ocm cached v" and "f_tunnels v' = f_tunnels v"
    and "tunnel_inv (f_tunnels v ! i) (machine v')"
    and "\<forall>j<3. j \<noteq> i \<longrightarrow> chan_kept j v v'"
  shows "variant_inv ocm cached v'"
  unfolding variant_inv_def
proof (intro conjI allI impI)
  show "length (f_tunnels v') = 3" using assms(1,2) by (simp add: variant_inv_def)
  fix j :: nat assume j: "j < 3"
  show "chan_inv ocm cached j v'"
  proof (cases "j = i")
    case True
    then show ?thesis using assms(1,2,3) j by (simp add: variant_inv_def chan_inv_def)
  next
    case False
    then show ?thesis using assms(1,4) j chan_keptD(1) by (auto simp: variant_inv_def)
  qed
qed

lemma write_chan_correct:
  assumes inv: "variant_inv ocm cached v" and i: "i < 3"
    and sz: "sz \<noteq> 0" "sz \<le> ucast (sendPacketMaxSize (bank_config ocm i))" and len: "unat sz \<le> length buffer"
    and run: "write_chan i buffer sz v = (ok, v')"
  shows "ok \<longleftrightarrow> length (chan_sent i v) < unat (sendBufferedPacketCount (bank_config ocm i)) - 1"
    and "ok \<Longrightarrow> chan_sent i v' = chan_sent i v @ [take (unat sz) buffer]"
    and "\<not> ok \<Longrightarrow> v' = v" and "chan_pending i v' = chan_pending i v"
    and "variant_inv ocm cached v'"
    and "j < 3 \<Longrightarrow> j \<noteq> i \<Longrightarrow> chan_sent j v' = chan_sent j v \<and> chan_pending j v' = chan_pending j v"
proof -
  let ?t = "f_tunnels v ! i"
  have ch: "chan_inv ocm cached k v" if "k < 3" for k using inv that by (simp add: variant_inv_def)
  note wf = chan_inv_wf [OF i ch [OF i]] and cfg = chan_config [OF i ch [OF i]]
  have ti: "tunnel_inv ?t (machine v)" using ch [OF i] by (simp add: chan_inv_def)
  have small: "unat sz \<le> unat (sendPacketMaxSize (bank_config ocm i))"
    using sz(2) by (simp add: word_le_nat_alt)
  then have us: "unat (ucast sz :: u16) = unat sz"
    using unat_u16_less [of "sendPacketMaxSize (bank_config ocm i)"] by (simp add: unat_u32_u16)
  have s16: "(ucast sz :: u16) \<noteq> 0" "(ucast sz :: u16) \<le> sendPacketMaxSize (config ?t)"
    using sz(1) small us by (auto simp: cfg word_le_nat_alt word_unat_eq_iff)
  obtain mc where w: "IPC_TUNNEL_Write ?t buffer (ucast sz) (machine v) = (ok, mc)"
    and v': "v' = v\<lparr>machine := mc\<rparr>"
    using run by (auto simp: write_chan_def split: prod.splits)
  note eff = IPC_TUNNEL_Write_correct [OF wf ti s16 _ w, unfolded us, OF len]
  show "ok \<longleftrightarrow> length (chan_sent i v) < unat (sendBufferedPacketCount (bank_config ocm i)) - 1"
    using eff(1) by (simp add: chan_sent_def cfg)
  show "chan_sent i v' = chan_sent i v @ [take (unat sz) buffer]" if ok
    using eff(2) that by (simp add: chan_sent_def v')
  show "v' = v" if "\<not> ok" using eff(4) that by (simp add: v')
  show "chan_pending i v' = chan_pending i v" using eff(6) by (simp add: chan_pending_def v')
  have kept: "chan_kept k v v'" if "k < 3" "k \<noteq> i" for k
    using chan_kept_frame [OF that(1) i that(2) ch ch, of "tx_ring ?t" v'] that(1) i eff(5)
    by (auto simp: v')
  show "variant_inv ocm cached v'"
    using variant_invI_step [OF inv, of v' i] kept eff(7) by (simp add: v')
  show "chan_sent j v' = chan_sent j v \<and> chan_pending j v' = chan_pending j v" if "j < 3" "j \<noteq> i"
    using chan_keptD(2,3) [OF that(1) ch [OF that(1)] kept [OF that]] by simp
qed

lemma write_chan_sfi:
  assumes inv: "variant_inv ocm cached v" and i: "i < 3" and run: "write_chan i buffer sz v = (True, v')"
  shows "sfi (machine v') = sfi (machine v) @ [(push_bit 16 1 OR cpu0KickSGI (bank_config ocm i)) AND XSCUGIC_SFI_TRIG_MASK]"
proof -
  have "config (f_tunnels v ! i) = bank_config ocm i" using inv i by (simp add: variant_inv_def chan_inv_def)
  then show ?thesis using run
    by (auto simp: write_chan_def IPC_TUNNEL_Write_def SendPacket_def Let_def split: if_splits)
qed

lemma write_chan_refused:
  assumes inv: "variant_inv ocm cached v" and i: "i < 3"
    and "(ucast sz :: u16) = 0 \<or> sendPacketMaxSize (bank_config ocm i) < ucast sz"
  shows "write_chan i buffer sz v = (False, v)"
proof -
  have "config (f_tunnels v ! i) = bank_config ocm i" using inv i by (simp add: variant_inv_def chan_inv_def)
  then show ?thesis using assms(3) by (auto simp: write_chan_def IPC_TUNNEL_Write_def)
qed

lemma read_chan_empty:
  assumes "variant_inv ocm cached v" and "i < 3" and "chan_pending i v = []"
  shows "read_chan i buffer sz cb user v = (buffer, user, v)"
proof -
  have "tunnel_inv (f_tunnels v ! i) (machine v)" using assms(1,2) by (simp add: variant_inv_def chan_inv_def)
  from IPC_TUNNEL_Read_empty [OF this] assms(3) show ?thesis
    by (simp add: read_chan_def chan_pending_def)
qed

lemma read_chan_correct:
  assumes inv: "variant_inv ocm cached v" and i: "i < 3" and ne: "chan_pending i v = p # ps"
    and run: "read_chan i buffer sz cb user v = (buffer', user', v')"
    and k: "k = min (unat (ucast sz :: u16)) (length p)"
  shows "buffer' = take k p @ drop k buffer"
    and "user' = (if k = 0 then user else cb buffer' (of_nat k) user)"
    and "chan_pending i v' = ps" and "chan_sent i v' = chan_sent i v"
    and "variant_inv ocm cached v'"
    and "j < 3 \<Longrightarrow> j \<noteq> i \<Longrightarrow> chan_sent j v' = chan_sent j v \<and> chan_pending j v' = chan_pending j v"
proof -
  let ?t = "f_tunnels v ! i"
  have ch: "chan_inv ocm cached k v" if "k < 3" for k using inv that by (simp add: variant_inv_def)
  note wf = chan_inv_wf [OF i ch [OF i]]
  have ti: "tunnel_inv ?t (machine v)" using ch [OF i] by (simp add: chan_inv_def)
  obtain rx mc where r: "IPC_TUNNEL_Read ?t buffer (ucast sz) (machine v) = (rx, buffer', mc)"
    and v': "v' = v\<lparr>machine := mc\<rparr>" and u: "user' = (if 0 < rx then cb buffer' (ucast rx) user else user)"
    using run by (auto simp: read_chan_def split: prod.splits)
  note eff = IPC_TUNNEL_Read_correct [OF wf ti ne [unfolded chan_pending_def] r]
  have rx: "unat rx = k" using eff(1) k by simp
  show "buffer' = take k p @ drop k buffer" using eff(2) rx by simp
  have "ucast rx = (of_nat k :: u32)" using rx by (auto simp: of_nat_unat)
  moreover have "0 < rx \<longleftrightarrow> k \<noteq> 0" using rx by (auto simp: word_less_nat_alt)
  ultimately show "user' = (if k = 0 then user else cb buffer' (of_nat k) user)" using u by simp
  show "chan_pending i v' = ps" "chan_sent i v' = chan_sent i v"
    using eff(3,4) by (simp_all add: chan_pending_def chan_sent_def v')
  have kept: "chan_kept k v v'" if "k < 3" "k \<noteq> i" for k
    using chan_kept_frame [OF that(1) i that(2) ch ch, of "rx_ring ?t" v'] that(1) i eff(7)
    by (auto simp: v')
  show "variant_inv ocm cached v'"
    using variant_invI_step [OF inv, of v' i] kept eff(5) by (simp add: v')
  show "chan_sent j v' = chan_sent j v \<and> chan_pending j v' = chan_pending j v" if "j < 3" "j \<noteq> i"
    using chan_keptD(2,3) [OF that(1) ch [OF that(1)] kept [OF that]] by simp
qed

section \<open>Properties of one tunnel\<close>

text \<open>A deployed tunnel right after initialisation, for the concrete instances below.\<close>

definition fresh_machine :: machine where
  "fresh_machine = snd (IPC_TUNNEL_Init True blank_tunnel (f_configs ! 0) \<lparr>mem = (\<lambda>_. 0), sfi = []\<rparr>)"

abbreviation fresh_tunnel :: IpcTunnel where
  "fresh_tunnel \<equiv> tunnel_of True (f_configs ! 0)"

lemma fresh_tunnel_ok:
  "tunnel_wf fresh_tunnel" "tunnel_inv fresh_tunnel fresh_machine"
  "ring_contents (tx_ring fresh_tunnel) (mem fresh_machine) = []"
  "ring_contents (rx_ring fresh_tunnel) (mem fresh_machine) = []"
proof -
  show wf: "tunnel_wf fresh_tunnel" using tunnel_wf_configs [of True] by (simp add: f_configs_def)
  have "IPC_TUNNEL_Init True blank_tunnel (f_configs ! 0) \<lparr>mem = (\<lambda>_. 0), sfi = []\<rparr> = (fresh_tunnel, fresh_machine)"
    by (simp add: tunnel_of_def fresh_machine_def IPC_TUNNEL_Init_def)
  from IPC_TUNNEL_Init_empty [OF this wf]
  show "tunnel_inv fresh_tunnel fresh_machine" "ring_contents (tx_ring fresh_tunnel) (mem fresh_machine) = []"
    "ring_contents (rx_ring fresh_tunnel) (mem fresh_machine) = []" .
qed

lemma fresh_tunnel_config: "config fresh_tunnel = f_configs ! 0" "sendPacketMaxSize (f_configs ! 0) = 0x780"
  "sendBufferedPacketCount (f_configs ! 0) = 2" "sendRingBuffer fresh_tunnel \<noteq> NULL"
  by (simp_all add: f_configs_def)

text \<open>
  \<open>IPC_TUNNEL_Write\<close> on every branch: it accepts the packet exactly when the size is
  not zero, does not exceed the maximum, and the ring has a free slot (one slot always stays
  free). Accepting appends the first \<open>sz\<close> bytes of the buffer to the queue and triggers one
  software interrupt; refusing changes nothing. Memory outside the send ring and the queue in
  the other direction are untouched, and the tunnel's invariant is kept.
\<close>

lemma tunnel_write_correct:
  assumes "tunnel_wf t" and "tunnel_inv t s" and "unat sz \<le> length buffer"
    and "IPC_TUNNEL_Write t buffer sz s = (ok, s')"
  shows "(ok \<longleftrightarrow> sz \<noteq> 0 \<and> sz \<le> sendPacketMaxSize (config t) \<and>
      length (ring_contents (tx_ring t) (mem s)) < unat (sendBufferedPacketCount (config t)) - 1)
    \<and> (if ok then ring_contents (tx_ring t) (mem s') = ring_contents (tx_ring t) (mem s) @ [take (unat sz) buffer]
          \<and> sfi s' = sfi s @ [(push_bit 16 1 OR cpu0KickSGI (config t)) AND XSCUGIC_SFI_TRIG_MASK]
       else s' = s)
    \<and> tunnel_inv t s' \<and> ring_contents (rx_ring t) (mem s') = ring_contents (rx_ring t) (mem s)
    \<and> (\<forall>x. \<not> in_ring (tx_ring t) x \<longrightarrow> mem s' x = mem s x)"
proof (cases "sz \<noteq> 0 \<and> sz \<le> sendPacketMaxSize (config t)")
  case True
  then show ?thesis using IPC_TUNNEL_Write_correct [OF assms(1,2) _ _ assms(3,4)] by auto
next
  case False
  then have "IPC_TUNNEL_Write t buffer sz s = (False, s)"
    by (cases "sz = 0") (simp_all add: IPC_TUNNEL_Write_def not_le)
  then have "\<not> ok \<and> s' = s" using assms(4) by simp
  then show ?thesis using False assms(2) by auto
qed

lemma tunnel_write_correct_witness:
  "\<exists>s'. IPC_TUNNEL_Write fresh_tunnel [1, 2, 3] 3 fresh_machine = (True, s') \<and>
     ring_contents (tx_ring fresh_tunnel) (mem s') = [[1, 2, 3]]"
proof -
  obtain ok s' where run: "IPC_TUNNEL_Write fresh_tunnel [1, 2, 3] 3 fresh_machine = (ok, s')" by fastforce
  from tunnel_write_correct [OF fresh_tunnel_ok(1,2) _ run] show ?thesis
    using run by (simp add: fresh_tunnel_ok fresh_tunnel_config)
qed

text \<open>
  \<open>IPC_TUNNEL_Read\<close> on every branch: on an empty ring it returns 0 and changes nothing;
  otherwise it removes the oldest packet and copies as much of it as the caller's size allows
  (a longer packet is cut off), leaving the rest of the buffer, the other queue and all memory
  outside the receive ring alone. No interrupt is sent.
\<close>

lemma tunnel_read_correct:
  assumes "tunnel_wf t" and "tunnel_inv t s" and "IPC_TUNNEL_Read t buffer sz s = (rx, buffer', s')"
  shows "(case ring_contents (rx_ring t) (mem s) of
      [] \<Rightarrow> rx = 0 \<and> buffer' = buffer \<and> s' = s
    | p # ps \<Rightarrow> unat rx = min (unat sz) (length p) \<and> buffer' = take (unat rx) p @ drop (unat rx) buffer
        \<and> ring_contents (rx_ring t) (mem s') = ps)
    \<and> ring_contents (tx_ring t) (mem s') = ring_contents (tx_ring t) (mem s)
    \<and> tunnel_inv t s' \<and> sfi s' = sfi s \<and> (\<forall>x. \<not> in_ring (rx_ring t) x \<longrightarrow> mem s' x = mem s x)"
proof (cases "ring_contents (rx_ring t) (mem s)")
  case Nil
  then show ?thesis using IPC_TUNNEL_Read_empty [OF assms(2) Nil, of buffer sz] assms by simp
next
  case (Cons p ps)
  then show ?thesis using IPC_TUNNEL_Read_correct [OF assms(1,2) Cons assms(3)] by simp
qed

lemma tunnel_read_correct_witness: "fst (IPC_TUNNEL_Read fresh_tunnel [7, 7] 2 fresh_machine) = 0"
proof -
  obtain rx b s' where run: "IPC_TUNNEL_Read fresh_tunnel [7, 7] 2 fresh_machine = (rx, b, s')" by (metis prod_cases3)
  from tunnel_read_correct [OF fresh_tunnel_ok(1,2) run] run show ?thesis by (simp add: fresh_tunnel_ok)
qed

text \<open>
  A caller that obtains a packet pointer from \<open>IPC_TUNNEL_BeginDirectWrite\<close>, fills
  \<open>sz\<close> bytes there and calls \<open>IPC_TUNNEL_EndDirectWrite\<close> leaves the machine in exactly the state
  that \<open>IPC_TUNNEL_Write\<close> of the same bytes leaves it in, and the pointer is \<open>NULL\<close> exactly when
  \<open>IPC_TUNNEL_Write\<close> would have refused the packet.
\<close>

lemma direct_write_equiv:
  assumes "sendRingBuffer t \<noteq> NULL"
    and "IPC_TUNNEL_BeginDirectWrite t sz s = (p, t', s1)"
  shows "IPC_TUNNEL_Write t buffer sz s =
    (if p = NULL then (False, s)
     else (True, IPC_TUNNEL_EndDirectWrite t' (s1\<lparr>mem := store_bytes (mem s1) p (take (unat sz) buffer)\<rparr>)))"
  using assms
  by (auto simp: IPC_TUNNEL_BeginDirectWrite_def IPC_TUNNEL_Write_def IPC_TUNNEL_EndDirectWrite_def
      SendPacket_def Let_def packet_data_def split: if_splits)

lemma direct_write_equiv_witness:
  "\<exists>p t' s1. IPC_TUNNEL_BeginDirectWrite fresh_tunnel 2 fresh_machine = (p, t', s1) \<and>
     IPC_TUNNEL_Write fresh_tunnel [8, 9] 2 fresh_machine =
       (if p = NULL then (False, fresh_machine)
        else (True, IPC_TUNNEL_EndDirectWrite t' (s1\<lparr>mem := store_bytes (mem s1) p [8, 9]\<rparr>)))"
proof -
  obtain p t' s1 where run: "IPC_TUNNEL_BeginDirectWrite fresh_tunnel 2 fresh_machine = (p, t', s1)" by (metis prod_cases3)
  from direct_write_equiv [OF fresh_tunnel_config(4) run, of "[8, 9]"] run show ?thesis by auto
qed

text \<open>
  \<open>IPC_TUNNEL_BeginDirectRead\<close> exposes the oldest packet in place: the pointer and
  the size it returns denote exactly that packet, and \<open>IPC_TUNNEL_EndDirectRead\<close> then has the same
  effect on the machine as \<open>IPC_TUNNEL_Read\<close>. On an empty ring it returns 0 and leaves the
  caller's pointer and the tunnel alone.
\<close>

lemma direct_read_equiv:
  assumes "tunnel_wf t" and "tunnel_inv t s" and "IPC_TUNNEL_BeginDirectRead t d s = (n, ptr, t')"
  shows "case ring_contents (rx_ring t) (mem s) of
      [] \<Rightarrow> n = 0 \<and> ptr = d \<and> t' = t
    | p # ps \<Rightarrow> load_bytes (mem s) ptr (unat n) = p
        \<and> IPC_TUNNEL_EndDirectRead t' s = snd (snd (IPC_TUNNEL_Read t buffer sz s))"
  using direct_read_empty [OF assms(2), of d] direct_read_packet [OF assms(2,1) _ assms(3)] assms(3)
  by (cases "ring_contents (rx_ring t) (mem s)") auto

lemma direct_read_equiv_witness: "IPC_TUNNEL_BeginDirectRead fresh_tunnel 5 fresh_machine = (0, 5, fresh_tunnel)"
proof -
  obtain n ptr t' where run: "IPC_TUNNEL_BeginDirectRead fresh_tunnel 5 fresh_machine = (n, ptr, t')" by (metis prod_cases3)
  from direct_read_equiv [OF fresh_tunnel_ok(1,2) run] run show ?thesis by (simp add: fresh_tunnel_ok)
qed

text \<open>
  \<open>VARIANT_Initialize\<close> succeeds and establishes the invariant of all three channels, for
  on-chip memory and DDR, cached and uncached: every ring is empty, well formed, disjoint from
  every other ring and from every other control header.
\<close>

lemma variant_boot:
  assumes "length (f_tunnels v) = 3" and "VARIANT_Initialize ocm cached v = (ok, v')"
  shows "ok \<and> variant_inv ocm cached v' \<and> (\<forall>i<3. chan_sent i v' = [] \<and> chan_pending i v' = [])"
  using VARIANT_Initialize_correct [OF assms] by blast

lemma variant_boot_witness:
  "variant_inv True False (snd (VARIANT_Initialize True False
     \<lparr>f_tunnels = [blank_tunnel, blank_tunnel, blank_tunnel], tlb = [], machine = fresh_machine\<rparr>))"
proof -
  obtain ok v' where run: "VARIANT_Initialize True False
     \<lparr>f_tunnels = [blank_tunnel, blank_tunnel, blank_tunnel], tlb = [], machine = fresh_machine\<rparr> = (ok, v')" by fastforce
  from variant_boot [OF _ run] run show ?thesis by simp
qed

text \<open>
  The memory map: in each bank the rings and control headers of the three tunnels and
  their shared-memory areas do not overlap one another.
\<close>

lemma memory_map:
  assumes "i < 3" and "j < 3"
    and "g \<in> {tx_ring (bank_tunnel ocm cached j), rx_ring (bank_tunnel ocm cached j)}"
  shows "ring_misses g (unat (sharedMemoryAddress (bank_config ocm i))) (unat (sharedMemorySize (bank_config ocm i)))
    \<and> (i \<noteq> j \<longrightarrow> rings_disjoint (tx_ring (bank_tunnel ocm cached i)) g \<and> rings_disjoint (rx_ring (bank_tunnel ocm cached i)) g
         \<and> ring_misses g (unat (controlBlockAddress (bank_config ocm i))) sizeof_ControlHeader)"
  using shm_misses [OF assms(2) assms(1,2), of cached ocm] header_misses [OF assms(2) assms(1,2), of cached ocm]
    bank_disjoint [OF assms(1,2) assms(1,2), of cached ocm cached] assms(3) by auto

lemma memory_map_witness: "rings_disjoint (tx_ring (bank_tunnel True True 0)) (rx_ring (bank_tunnel True True 2))"
  using memory_map [of 0 2 "rx_ring (bank_tunnel True True 2)" True True] by simp

text \<open>
  \<open>VARIANT_WriteChan0\<close> to \<open>VARIANT_WriteChan2\<close> take a 32-bit size but hand only its low 16 bits to
  the tunnel, so a size of \<open>65536 + n\<close> sends the first \<open>n\<close> bytes instead of being refused.
\<close>

theorem write_size_truncated: "write_chan i buffer (sz + 0x10000) v = write_chan i buffer sz v"
proof -
  have "(ucast (sz + 0x10000) :: u16) = ucast sz"
    by (simp add: word_unat_eq_iff unat_u32_u16 unat_word_ariths mod_mod_cancel)
  then show ?thesis by (simp add: write_chan_def)
qed

end
