(* ===== verification/Kernel_Tunnel.thy ===== *)
theory Kernel_Tunnel
  imports Tunnel_Variant
begin

text \<open>
  The Linux (CPU0) end of the tunnels: the data path of \<open>kernel_module_src/ipc-tunnel.c\<close>, that
  is the packet accessors and the file operations of the character devices. The state of a
  call is the array of tunnel instances, the shared memory, and the wake-ups issued on the
  read queues. A pointer into mapped shared memory is identified with the physical address it
  maps. \<open>size_t\<close> and \<open>unsigned long\<close> have 32 bits, as on the Cortex-A9. Functions of the
  kernel that the module calls are parameters: \<open>copy_to_user\<close> and \<open>copy_from_user\<close> (what they
  transferred and how many bytes they left) and \<open>remap_pfn_range\<close>. Flag words of the kernel
  ABI are sets of named flags. Log output is not modelled.
\<close>

section \<open>Data\<close>

datatype kerr =
  EINTR | EAGAIN | EBUSY | EINVAL | EFAULT | EFBIG | EBADFD | ENOMEM
| KernelError int \<comment> \<open>an error code passed on from a kernel function\<close>
| NullDereference \<comment> \<open>the access of a \<open>NULL\<close> tunnel, which the source does not guard against\<close>

record TunnelConfig =
  control_header_address :: u32
  send_buffer_address :: u32
  receive_buffer_address :: u32
  send_max_packet_size :: u16
  send_buffered_packet_count :: u16
  receive_max_packet_size :: u16
  receive_buffered_packet_count :: u16
  shared_buffer_address :: u32
  shared_buffer_size :: u32
  cpu0_notify_ipi :: int
  cpu0_notify_ipi_handler :: nat \<comment> \<open>handler \<open>i\<close> is \<open>tunnel<i>_ipi_notify_handler\<close>\<close>

record TunnelInstance =
  kconfig :: TunnelConfig
  control_header :: addr
  send_buffer :: addr
  receive_buffer :: addr
  send_packet_size :: u16
  receive_packet_size :: u16
  dev :: u32
  is_open :: bool

record ReadPacket =
  read_packet :: addr
  next_read_index :: u32

record WritePacket =
  write_packet :: addr
  next_write_index :: u32

record kernel =
  tunnels :: "TunnelInstance list"
  kmem :: memory
  wakes :: "nat list" \<comment> \<open>read queues woken, oldest first\<close>

record kfile =
  private_data :: "nat option" \<comment> \<open>index of the tunnel, \<open>None\<close> for \<open>NULL\<close>\<close>
  o_nonblock :: bool

definition DEVICE_COUNT :: nat where
  "DEVICE_COUNT = 6"

definition tunnel_configs :: "TunnelConfig list" where
  "tunnel_configs =
   [ \<lparr>control_header_address = 0xFFFF0000, send_buffer_address = 0xFFFF0040, receive_buffer_address = 0xFFFF1100,
      send_max_packet_size = 0x780, send_buffered_packet_count = 2,
      receive_max_packet_size = 0x780, receive_buffered_packet_count = 2,
      shared_buffer_address = 0xFFFFE000, shared_buffer_size = 0x1000,
      cpu0_notify_ipi = 14, cpu0_notify_ipi_handler = 0\<rparr>,
     \<lparr>control_header_address = 0xFFFF3000, send_buffer_address = 0xFFFF3040, receive_buffer_address = 0xFFFF5100,
      send_max_packet_size = 0x780, send_buffered_packet_count = 4,
      receive_max_packet_size = 0x780, receive_buffered_packet_count = 4,
      shared_buffer_address = 0x0, shared_buffer_size = 0x0,
      cpu0_notify_ipi = 13, cpu0_notify_ipi_handler = 1\<rparr>,
     \<lparr>control_header_address = 0xFFFF7200, send_buffer_address = 0xFFFF7240, receive_buffer_address = 0xFFFF9800,
      send_max_packet_size = 0x1200, send_buffered_packet_count = 2,
      receive_max_packet_size = 0x1200, receive_buffered_packet_count = 2,
      shared_buffer_address = 0xFFFFC000, shared_buffer_size = 0x3000,
      cpu0_notify_ipi = 12, cpu0_notify_ipi_handler = 2\<rparr>,
     \<lparr>control_header_address = 0x3FFF0000, send_buffer_address = 0x3FFF0040, receive_buffer_address = 0x3FFF1100,
      send_max_packet_size = 0x780, send_buffered_packet_count = 2,
      receive_max_packet_size = 0x780, receive_buffered_packet_count = 2,
      shared_buffer_address = 0x3FFFE000, shared_buffer_size = 0x1000,
      cpu0_notify_ipi = 11, cpu0_notify_ipi_handler = 3\<rparr>,
     \<lparr>control_header_address = 0x3FFF3000, send_buffer_address = 0x3FFF3040, receive_buffer_address = 0x3FFF5100,
      send_max_packet_size = 0x780, send_buffered_packet_count = 4,
      receive_max_packet_size = 0x780, receive_buffered_packet_count = 4,
      shared_buffer_address = 0x0, shared_buffer_size = 0x0,
      cpu0_notify_ipi = 10, cpu0_notify_ipi_handler = 4\<rparr>,
     \<lparr>control_header_address = 0x3FFF7200, send_buffer_address = 0x3FFF7240, receive_buffer_address = 0x3FFF9800,
      send_max_packet_size = 0x1200, send_buffered_packet_count = 2,
      receive_max_packet_size = 0x1200, receive_buffered_packet_count = 2,
      shared_buffer_address = 0x3FFFC000, shared_buffer_size = 0x2000,
      cpu0_notify_ipi = 9, cpu0_notify_ipi_handler = 5\<rparr> ]"

section \<open>Packet access\<close>

definition get_cpu0_write_index :: "addr \<Rightarrow> memory \<Rightarrow> u32" where
  "get_cpu0_write_index header m = load32 m (cpu0_write_index header)"

definition get_cpu1_read_index :: "addr \<Rightarrow> memory \<Rightarrow> u32" where
  "get_cpu1_read_index header m = load32 m (cpu1_read_index header)"

definition get_cpu0_read_index :: "addr \<Rightarrow> memory \<Rightarrow> u32" where
  "get_cpu0_read_index header m = load32 m (cpu0_read_index header)"

definition get_cpu1_write_index :: "addr \<Rightarrow> memory \<Rightarrow> u32" where
  "get_cpu1_write_index header m = load32 m (cpu1_write_index header)"

definition get_read_packet :: "TunnelInstance \<Rightarrow> u32 \<Rightarrow> addr" where
  "get_read_packet tunnel read_index =
     receive_buffer tunnel + unat (ucast (receive_packet_size tunnel) * read_index)"

definition get_write_packet :: "TunnelInstance \<Rightarrow> u32 \<Rightarrow> addr" where
  "get_write_packet tunnel write_index =
     send_buffer tunnel + unat (ucast (send_packet_size tunnel) * write_index)"

text \<open>The \<open>int\<close> result and the packet filled in through the pointer are one option value.\<close>

definition try_get_read_packet :: "TunnelInstance \<Rightarrow> memory \<Rightarrow> ReadPacket option" where
  "try_get_read_packet tunnel m =
     (let readIndex = get_cpu0_read_index (control_header tunnel) m;
          cpu1WriteIndex = get_cpu1_write_index (control_header tunnel) m
      in if readIndex \<noteq> cpu1WriteIndex then
           let packet = get_read_packet tunnel readIndex;
               readIndex = readIndex + 1;
               readIndex = (if readIndex = ucast (receive_buffered_packet_count (kconfig tunnel)) then 0 else readIndex)
           in Some \<lparr>read_packet = packet, next_read_index = readIndex\<rparr>
         else None)"

definition try_get_write_packet :: "TunnelInstance \<Rightarrow> memory \<Rightarrow> WritePacket option" where
  "try_get_write_packet tunnel m =
     (let writeIndex = get_cpu0_write_index (control_header tunnel) m;
          nextWriteIndex = writeIndex + 1;
          nextWriteIndex = (if nextWriteIndex = ucast (send_buffered_packet_count (kconfig tunnel)) then 0 else nextWriteIndex);
          cpu1ReadIndex = get_cpu1_read_index (control_header tunnel) m
      in if nextWriteIndex \<noteq> cpu1ReadIndex then
           Some \<lparr>write_packet = get_write_packet tunnel writeIndex, next_write_index = nextWriteIndex\<rparr>
         else None)"

definition mark_packet_as_read :: "TunnelInstance \<Rightarrow> ReadPacket \<Rightarrow> memory \<Rightarrow> memory" where
  "mark_packet_as_read tunnel packet m = store32 m (cpu0_read_index (control_header tunnel)) (next_read_index packet)"

definition send_packet :: "TunnelInstance \<Rightarrow> WritePacket \<Rightarrow> memory \<Rightarrow> memory" where
  "send_packet tunnel packet m = store32 m (cpu0_write_index (control_header tunnel)) (next_write_index packet)"

section \<open>Waiting for a packet\<close>

text \<open>
  A sleeping reader runs again when its queue is woken or a signal arrives; by then the other
  core may have changed the shared memory, so each event carries the memory at that moment.
  \<open>wait_event_interruptible\<close> re-evaluates the condition after every event, and gives up after a
  signal if it still does not hold. No result (\<open>None\<close>) means that the reader still sleeps after
  the listed events.
\<close>

datatype wait_event = Woken memory | Signalled memory

fun wait_event_interruptible ::
  "(memory \<Rightarrow> 'p option) \<Rightarrow> memory \<Rightarrow> wait_event list \<Rightarrow> ('p option \<times> memory) option" where
  "wait_event_interruptible cond m [] =
     (case cond m of Some p \<Rightarrow> Some (Some p, m) | None \<Rightarrow> None)"
| "wait_event_interruptible cond m (Woken m' # es) =
     (case cond m of Some p \<Rightarrow> Some (Some p, m) | None \<Rightarrow> wait_event_interruptible cond m' es)"
| "wait_event_interruptible cond m (Signalled m' # es) =
     (case cond m of Some p \<Rightarrow> Some (Some p, m) | None \<Rightarrow> Some (cond m', m'))"

section \<open>File operations\<close>

definition dev_open :: "nat \<Rightarrow> kfile \<Rightarrow> kernel \<Rightarrow> (kerr + unit) \<times> kfile \<times> kernel" where
  "dev_open i_cdev filep k =
     (case List.find (\<lambda>i. i_cdev = i) [0..<DEVICE_COUNT] of
        None \<Rightarrow> (Inl EINVAL, filep, k)
      | Some i \<Rightarrow>
         let filep = filep\<lparr>private_data := Some i\<rparr>
         in if is_open (tunnels k ! i) then (Inl EBUSY, filep, k)
            else (Inr (), filep, k\<lparr>tunnels := (tunnels k)[i := (tunnels k ! i)\<lparr>is_open := True\<rparr>]\<rparr>))"

definition read_out ::
  "(bytes \<Rightarrow> bytes \<Rightarrow> bytes \<times> nat) \<Rightarrow> TunnelInstance \<Rightarrow> ReadPacket \<Rightarrow> bytes \<Rightarrow> u32 \<Rightarrow> kernel
   \<Rightarrow> (kerr + u32) \<times> bytes \<times> kernel" where
  "read_out copy_to_user tunnel packet buffer len k =
     (let rx = load32 (kmem k) (read_packet packet);
          rx = (if len < rx then len else rx);
          (buffer, left) = copy_to_user buffer (load_bytes (kmem k) (packet_data (read_packet packet)) (unat rx))
      in if left \<noteq> 0 then (Inl EFAULT, buffer, k)
         else (Inr rx, buffer, k\<lparr>kmem := mark_packet_as_read tunnel packet (kmem k)\<rparr>))"

definition dev_read ::
  "(bytes \<Rightarrow> bytes \<Rightarrow> bytes \<times> nat) \<Rightarrow> kfile \<Rightarrow> bytes \<Rightarrow> u32 \<Rightarrow> wait_event list \<Rightarrow> kernel
   \<Rightarrow> ((kerr + u32) \<times> bytes \<times> kernel) option" where
  "dev_read copy_to_user filep buffer len events k =
     (case private_data filep of
        None \<Rightarrow> Some (Inl NullDereference, buffer, k)
      | Some i \<Rightarrow>
         let tunnel = tunnels k ! i
         in if o_nonblock filep then
              (case try_get_read_packet tunnel (kmem k) of
                 None \<Rightarrow> Some (Inl EAGAIN, buffer, k)
               | Some packet \<Rightarrow> Some (read_out copy_to_user tunnel packet buffer len k))
            else
              (case wait_event_interruptible (try_get_read_packet tunnel) (kmem k) events of
                 None \<Rightarrow> None
               | Some (None, m) \<Rightarrow> Some (Inl EINTR, buffer, k\<lparr>kmem := m\<rparr>)
               | Some (Some packet, m) \<Rightarrow> Some (read_out copy_to_user tunnel packet buffer len (k\<lparr>kmem := m\<rparr>))))"

definition dev_write ::
  "(bytes \<Rightarrow> nat \<Rightarrow> bytes \<times> nat) \<Rightarrow> kfile \<Rightarrow> bytes \<Rightarrow> u32 \<Rightarrow> kernel \<Rightarrow> (kerr + u32) \<times> kernel" where
  "dev_write copy_from_user filep buffer len k =
     (if len = 0 then (Inr 0, k)
      else case private_data filep of
        None \<Rightarrow> (Inl EBADFD, k)
      | Some i \<Rightarrow>
         let tunnel = tunnels k ! i
         in if ucast (send_max_packet_size (kconfig tunnel)) < len then (Inl EFBIG, k)
            else case try_get_write_packet tunnel (kmem k) of
              None \<Rightarrow> (Inr 0, k)
            | Some write \<Rightarrow>
               let (copied, left) = copy_from_user buffer (unat len);
                   k = k\<lparr>kmem := store_bytes (kmem k) (packet_data (write_packet write)) copied\<rparr>
               in if left \<noteq> 0 then (Inl EFAULT, k)
                  else
                    let k = k\<lparr>kmem := store32 (kmem k) (write_packet write) len\<rparr>
                    in (Inr len, k\<lparr>kmem := send_packet tunnel write (kmem k)\<rparr>))"

datatype poll_flag = POLLIN | POLLRDNORM

definition dev_poll :: "kfile \<Rightarrow> kernel \<Rightarrow> kerr + poll_flag set" where
  "dev_poll file k =
     (case private_data file of
        None \<Rightarrow> Inl NullDereference
      | Some i \<Rightarrow>
         let tunnel = tunnels k ! i
         in if get_cpu0_read_index (control_header tunnel) (kmem k) \<noteq> get_cpu1_write_index (control_header tunnel) (kmem k)
            then Inr {POLLIN, POLLRDNORM} else Inr {})"

datatype vm_flag = VM_SHARED | VM_PFNMAP | VM_DONTEXPAND | VM_DONTDUMP

datatype page_prot = SharedWriteBack | NonCached

record vm_area =
  vm_start :: u32
  vm_end :: u32
  vm_pgoff :: u32
  vm_flags :: "vm_flag set"
  vm_page_prot :: "page_prot option" \<comment> \<open>\<open>None\<close>: the protection the caller set up\<close>

definition PAGE_SHIFT :: nat where
  "PAGE_SHIFT = 12"

definition dev_mmap ::
  "bool \<Rightarrow> (u32 \<Rightarrow> u32 \<Rightarrow> u32 \<Rightarrow> page_prot option \<Rightarrow> kerr + unit) \<Rightarrow> kfile \<Rightarrow> vm_area \<Rightarrow> kernel
   \<Rightarrow> (kerr + unit) \<times> vm_area" where
  "dev_mmap cached remap_pfn_range filep vma k =
     (case private_data filep of
        None \<Rightarrow> (Inl NullDereference, vma)
      | Some i \<Rightarrow>
         let tunnel = tunnels k ! i;
             offset = push_bit PAGE_SHIFT (vm_pgoff vma);
             physical_base = shared_buffer_address (kconfig tunnel);
             physical_size = shared_buffer_size (kconfig tunnel);
             virtual_size = vm_end vma - vm_start vma;
             pfn = drop_bit PAGE_SHIFT (physical_base + offset)
         in if VM_SHARED \<notin> vm_flags vma then (Inl EINVAL, vma)
            else if physical_size \<le> offset \<or> physical_size - offset < virtual_size then (Inl EINVAL, vma)
            else
              let vma = vma\<lparr>vm_flags := vm_flags vma \<union> {VM_PFNMAP, VM_DONTEXPAND, VM_DONTDUMP},
                            vm_page_prot := Some (if cached then SharedWriteBack else NonCached)\<rparr>
              in (remap_pfn_range (vm_start vma) pfn virtual_size (vm_page_prot vma), vma))"

definition dev_release :: "kfile \<Rightarrow> kernel \<Rightarrow> (kerr + unit) \<times> kernel" where
  "dev_release filep k =
     (case private_data filep of
        None \<Rightarrow> (Inl NullDereference, k)
      | Some i \<Rightarrow> (Inr (), k\<lparr>tunnels := (tunnels k)[i := (tunnels k ! i)\<lparr>is_open := False\<rparr>]\<rparr>))"

text \<open>The six interrupt handlers differ in the tunnel whose queue they wake.\<close>

definition wake_up_interruptible :: "nat \<Rightarrow> kernel \<Rightarrow> kernel" where
  "wake_up_interruptible i k = k\<lparr>wakes := wakes k @ [i]\<rparr>"

definition tunnel0_ipi_notify_handler where "tunnel0_ipi_notify_handler = wake_up_interruptible 0"
definition tunnel1_ipi_notify_handler where "tunnel1_ipi_notify_handler = wake_up_interruptible 1"
definition tunnel2_ipi_notify_handler where "tunnel2_ipi_notify_handler = wake_up_interruptible 2"
definition tunnel3_ipi_notify_handler where "tunnel3_ipi_notify_handler = wake_up_interruptible 3"
definition tunnel4_ipi_notify_handler where "tunnel4_ipi_notify_handler = wake_up_interruptible 4"
definition tunnel5_ipi_notify_handler where "tunnel5_ipi_notify_handler = wake_up_interruptible 5"

definition ipi_handlers :: "(kernel \<Rightarrow> kernel) list" where
  "ipi_handlers = [tunnel0_ipi_notify_handler, tunnel1_ipi_notify_handler, tunnel2_ipi_notify_handler,
     tunnel3_ipi_notify_handler, tunnel4_ipi_notify_handler, tunnel5_ipi_notify_handler]"

section \<open>The two rings of a tunnel, seen from CPU0\<close>

definition ktx_ring :: "TunnelInstance \<Rightarrow> ring" where
  "ktx_ring t = \<lparr>rbase = send_buffer t, rstride = unat (send_packet_size t),
     rcount = unat (send_buffered_packet_count (kconfig t)), rmax = unat (send_max_packet_size (kconfig t)),
     rwidx = cpu0_write_index (control_header t), rridx = cpu1_read_index (control_header t)\<rparr>"

definition krx_ring :: "TunnelInstance \<Rightarrow> ring" where
  "krx_ring t = \<lparr>rbase = receive_buffer t, rstride = unat (receive_packet_size t),
     rcount = unat (receive_buffered_packet_count (kconfig t)), rmax = unat (receive_max_packet_size (kconfig t)),
     rwidx = cpu1_write_index (control_header t), rridx = cpu0_read_index (control_header t)\<rparr>"

definition ktunnel_wf :: "TunnelInstance \<Rightarrow> bool" where
  "ktunnel_wf t \<longleftrightarrow> ring_wf (ktx_ring t) \<and> ring_wf (krx_ring t) \<and> rings_disjoint (ktx_ring t) (krx_ring t)"

definition ktunnel_inv :: "TunnelInstance \<Rightarrow> memory \<Rightarrow> bool" where
  "ktunnel_inv t m \<longleftrightarrow> ring_inv (ktx_ring t) m \<and> ring_inv (krx_ring t) m"

lemma ktx_ring_sel [simp]:
  "rbase (ktx_ring t) = send_buffer t" "rstride (ktx_ring t) = unat (send_packet_size t)"
  "rcount (ktx_ring t) = unat (send_buffered_packet_count (kconfig t))"
  "rmax (ktx_ring t) = unat (send_max_packet_size (kconfig t))"
  "rwidx (ktx_ring t) = cpu0_write_index (control_header t)" "rridx (ktx_ring t) = cpu1_read_index (control_header t)"
  by (simp_all add: ktx_ring_def)

lemma krx_ring_sel [simp]:
  "rbase (krx_ring t) = receive_buffer t" "rstride (krx_ring t) = unat (receive_packet_size t)"
  "rcount (krx_ring t) = unat (receive_buffered_packet_count (kconfig t))"
  "rmax (krx_ring t) = unat (receive_max_packet_size (kconfig t))"
  "rwidx (krx_ring t) = cpu1_write_index (control_header t)" "rridx (krx_ring t) = cpu0_read_index (control_header t)"
  by (simp_all add: krx_ring_def)

lemma try_get_write_packet_eq:
  assumes "ring_inv (ktx_ring t) m"
  shows "try_get_write_packet t m =
    (if length (ring_contents (ktx_ring t) m) < rcount (ktx_ring t) - 1
     then Some \<lparr>write_packet = slot_addr (ktx_ring t) (widx (ktx_ring t) m),
       next_write_index = next_index32 (send_buffered_packet_count (kconfig t)) (load32 m (rwidx (ktx_ring t)))\<rparr>
     else None)"
proof -
  let ?g = "ktx_ring t" and ?w = "load32 m (rwidx (ktx_ring t))"
  have w: "unat ?w < unat (send_buffered_packet_count (kconfig t))"
    using assms by (simp add: ring_inv_def widx_def)
  have "next_index32 (send_buffered_packet_count (kconfig t)) ?w \<noteq> load32 m (rridx ?g) \<longleftrightarrow>
      length (ring_contents ?g m) < rcount ?g - 1"
    using ring_has_room_iff [OF assms]
    by (simp add: word_unat_eq_iff unat_next_index32 [OF w, simplified] widx_def ridx_def)
  moreover have "get_write_packet t ?w = slot_addr ?g (widx ?g m)"
    using unat_mult_u16 [OF w] by (simp add: get_write_packet_def slot_addr_def widx_def mult.commute)
  ultimately show ?thesis
    by (auto simp: try_get_write_packet_def Let_def get_cpu0_write_index_def get_cpu1_read_index_def
        next_index32_def)
qed

lemma try_get_read_packet_eq:
  assumes "ring_inv (krx_ring t) m"
  shows "try_get_read_packet t m =
    (if ring_contents (krx_ring t) m \<noteq> []
     then Some \<lparr>read_packet = slot_addr (krx_ring t) (ridx (krx_ring t) m),
       next_read_index = next_index32 (receive_buffered_packet_count (kconfig t)) (load32 m (rridx (krx_ring t)))\<rparr>
     else None)"
proof -
  let ?g = "krx_ring t" and ?r = "load32 m (rridx (krx_ring t))"
  have r: "unat ?r < unat (receive_buffered_packet_count (kconfig t))"
    using assms by (simp add: ring_inv_def ridx_def)
  have "?r \<noteq> load32 m (rwidx ?g) \<longleftrightarrow> ring_contents ?g m \<noteq> []"
    using ring_contents_Nil_iff [OF assms] by (simp add: word_unat_eq_iff widx_def ridx_def)
  moreover have "get_read_packet t ?r = slot_addr ?g (ridx ?g m)"
    using unat_mult_u16 [OF r] by (simp add: get_read_packet_def slot_addr_def ridx_def mult.commute)
  ultimately show ?thesis
    by (auto simp: try_get_read_packet_def Let_def get_cpu0_read_index_def get_cpu1_write_index_def
        next_index32_def)
qed

section \<open>Writing to the device\<close>

text \<open>
  What the module relies on from the kernel's user-memory copies: they never store more than was
  asked for, and when they report that nothing is left they have transferred everything.
\<close>

definition copy_from_user_ok :: "(bytes \<Rightarrow> nat \<Rightarrow> bytes \<times> nat) \<Rightarrow> bool" where
  "copy_from_user_ok cfu \<longleftrightarrow> (\<forall>buffer n. length (fst (cfu buffer n)) \<le> n \<and>
     (snd (cfu buffer n) = 0 \<longrightarrow> n \<le> length buffer \<and> fst (cfu buffer n) = take n buffer))"

definition copy_to_user_ok :: "(bytes \<Rightarrow> bytes \<Rightarrow> bytes \<times> nat) \<Rightarrow> bool" where
  "copy_to_user_ok ctu \<longleftrightarrow> (\<forall>buffer data. snd (ctu buffer data) = 0 \<longrightarrow>
     length data \<le> length buffer \<and> fst (ctu buffer data) = data @ drop (length data) buffer)"

lemma dev_write_full:
  assumes "private_data f = Some i" and "ktunnel_inv (tunnels k ! i) (kmem k)" and "len \<noteq> 0"
    and "len \<le> ucast (send_max_packet_size (kconfig (tunnels k ! i)))"
    and "\<not> length (ring_contents (ktx_ring (tunnels k ! i)) (kmem k)) < rcount (ktx_ring (tunnels k ! i)) - 1"
  shows "dev_write cfu f buffer len k = (Inr 0, k)"
  using assms by (auto simp: dev_write_def Let_def try_get_write_packet_eq ktunnel_inv_def not_less)

lemma dev_write_unfold:
  assumes "private_data f = Some i" and inv: "ring_inv (ktx_ring (tunnels k ! i)) (kmem k)"
    and "len \<noteq> 0" and len: "len \<le> ucast (send_max_packet_size (kconfig (tunnels k ! i)))"
    and room: "length (ring_contents (ktx_ring (tunnels k ! i)) (kmem k)) < rcount (ktx_ring (tunnels k ! i)) - 1"
    and c: "cfu buffer (unat len) = (copied, left)"
  shows "dev_write cfu f buffer len k =
    (let g = ktx_ring (tunnels k ! i); w = widx g (kmem k);
         nx = next_index32 (send_buffered_packet_count (kconfig (tunnels k ! i))) (load32 (kmem k) (rwidx g))
     in if left \<noteq> 0 then (Inl EFAULT, k\<lparr>kmem := store_bytes (kmem k) (slot_data g w) copied\<rparr>)
        else (Inr len, k\<lparr>kmem := store32 (fill_slot g w len copied (kmem k)) (rwidx g) nx\<rparr>))"
proof -
  have "\<not> ucast (send_max_packet_size (kconfig (tunnels k ! i))) < len" using len by simp
  then show ?thesis
    using assms(1,3) room c try_get_write_packet_eq [OF inv]
    by (simp add: dev_write_def Let_def packet_data_def slot_data_def send_packet_def
        fill_slot_data_first [unfolded slot_data_def] split: if_splits)
qed

lemma dev_write_room:
  assumes "private_data f = Some i" and wf: "ktunnel_wf (tunnels k ! i)"
    and inv: "ktunnel_inv (tunnels k ! i) (kmem k)" and cfu: "copy_from_user_ok cfu" and "len \<noteq> 0"
    and "len \<le> ucast (send_max_packet_size (kconfig (tunnels k ! i)))"
    and room: "length (ring_contents (ktx_ring (tunnels k ! i)) (kmem k)) < rcount (ktx_ring (tunnels k ! i)) - 1"
    and run: "dev_write cfu f buffer len k = (r, k')"
  shows "(if snd (cfu buffer (unat len)) = 0
       then r = Inr len \<and> ring_contents (ktx_ring (tunnels k ! i)) (kmem k') =
              ring_contents (ktx_ring (tunnels k ! i)) (kmem k) @ [take (unat len) buffer]
       else r = Inl EFAULT \<and> ring_contents (ktx_ring (tunnels k ! i)) (kmem k') =
              ring_contents (ktx_ring (tunnels k ! i)) (kmem k))"
    and "ring_inv (ktx_ring (tunnels k ! i)) (kmem k')"
    and "\<not> in_ring (ktx_ring (tunnels k ! i)) x \<Longrightarrow> kmem k' x = kmem k x"
    and "tunnels k' = tunnels k"
proof -
  let ?t = "tunnels k ! i"
  let ?g = "ktx_ring ?t" and ?m = "kmem k"
  have g: "ring_wf ?g" "ring_inv ?g ?m" using wf inv by (auto simp: ktunnel_wf_def ktunnel_inv_def)
  obtain copied left where c: "cfu buffer (unat len) = (copied, left)" by fastforce
  let ?w = "widx ?g ?m" and ?nx = "next_index32 (send_buffered_packet_count (kconfig ?t)) (load32 ?m (rwidx ?g))"
  let ?m1 = "store_bytes ?m (slot_data ?g ?w) copied"
  have w: "?w < rcount ?g" using g(2) by (simp add: ring_inv_def)
  have len: "unat len \<le> rmax ?g" using assms(6) by (simp add: word_le_nat_alt)
  have clen: "length copied \<le> unat len"
    and full: "left = 0 \<Longrightarrow> unat len \<le> length buffer \<and> copied = take (unat len) buffer"
    using cfu c unfolding copy_from_user_ok_def by (metis fst_conv snd_conv)+
  have nx: "unat ?nx = ring_next (rcount ?g) ?w" using w by (simp add: unat_next_index32 widx_def)
  have room': "ring_next (rcount ?g) ?w \<noteq> ridx ?g ?m" using room ring_has_room_iff [OF g(2)] by simp
  note res = run [symmetric, unfolded dev_write_unfold [OF assms(1) g(2) assms(5,6) room, of cfu buffer copied left, OF c] Let_def]
  have "(if left = 0 then r = Inr len \<and> ring_contents ?g (kmem k') = ring_contents ?g ?m @ [take (unat len) buffer]
      else r = Inl EFAULT \<and> ring_contents ?g (kmem k') = ring_contents ?g ?m)
      \<and> ring_inv ?g (kmem k') \<and> (\<forall>x. \<not> in_ring ?g x \<longrightarrow> kmem k' x = ?m x) \<and> tunnels k' = tunnels k"
  proof (cases "left = 0")
    case True
    then have l: "length copied \<le> rmax ?g" "unat len = length copied" using full len by auto
    have "kmem k' = store32 (fill_slot ?g ?w len copied ?m) (rwidx ?g) ?nx" "r = Inr len" "tunnels k' = tunnels k"
      using res True by simp_all
    with produce [OF g l room' nx this(1)] full True show ?thesis by simp
  next
    case False
    then have k': "kmem k' = ?m1" "r = Inl EFAULT" "tunnels k' = tunnels k" using res by simp_all
    have slot: "?m1 x = ?m x" if "x < slot_addr ?g ?w \<or> slot_addr ?g ?w + rstride ?g \<le> x" for x
      using that clen len g(1) by (intro store_bytes_outside) (auto simp: slot_data_def ring_wf_def)
    have "same_ring ?g ?m ?m1" by (rule same_ring_free_slot [OF g]) (use slot in blast)
    moreover have "?m1 x = ?m x" if "\<not> in_ring ?g x" for x
      using that slot in_ring_slot [OF g(1) w] not_less by metis
    ultimately show ?thesis using k' False same_ringD [OF g] by simp
  qed
  then show "(if snd (cfu buffer (unat len)) = 0
       then r = Inr len \<and> ring_contents ?g (kmem k') = ring_contents ?g ?m @ [take (unat len) buffer]
       else r = Inl EFAULT \<and> ring_contents ?g (kmem k') = ring_contents ?g ?m)"
    and "ring_inv ?g (kmem k')" and "\<not> in_ring ?g x \<Longrightarrow> kmem k' x = ?m x" and "tunnels k' = tunnels k"
    using c by auto
qed

lemma ktunnel_other_ring:
  assumes "ktunnel_wf t" and "ktunnel_inv t m" and "g \<in> {ktx_ring t, krx_ring t}" and "h \<in> {ktx_ring t, krx_ring t}"
    and "g \<noteq> h" and "\<forall>x. \<not> in_ring g x \<longrightarrow> m' x = m x"
  shows "ring_inv h m'" and "ring_contents h m' = ring_contents h m"
proof -
  have h: "ring_wf h" "ring_inv h m" and d: "rings_disjoint g h"
    using assms(1-5) rings_disjoint_sym by (auto simp: ktunnel_wf_def ktunnel_inv_def)
  have "same_ring h m m'" using assms(6) by (intro same_ring_frame [OF h d]) auto
  from same_ringD [OF h this] show "ring_inv h m'" and "ring_contents h m' = ring_contents h m" .
qed

section \<open>Reading from the device\<close>

lemma read_out_correct:
  assumes wf: "ktunnel_wf t" and inv: "ktunnel_inv t (kmem k)" and ctu: "copy_to_user_ok ctu"
    and ne: "ring_contents (krx_ring t) (kmem k) = p # ps"
    and pk: "try_get_read_packet t (kmem k) = Some pk"
    and run: "read_out ctu t pk buffer len k = (r, buffer', k')"
  shows "(if snd (ctu buffer (take (unat len) p)) = 0
      then r = Inr (of_nat (min (unat len) (length p))) \<and> buffer' = take (unat len) p @ drop (min (unat len) (length p)) buffer
        \<and> ring_contents (krx_ring t) (kmem k') = ps
      else r = Inl EFAULT \<and> k' = k)"
    and "ring_inv (krx_ring t) (kmem k')" and "\<not> in_ring (krx_ring t) x \<Longrightarrow> kmem k' x = kmem k x"
    and "tunnels k' = tunnels k"
proof -
  let ?g = "krx_ring t" and ?m = "kmem k"
  have g: "ring_wf ?g" "ring_inv ?g ?m" using wf inv by (auto simp: ktunnel_wf_def ktunnel_inv_def)
  let ?r = "load32 ?m (rridx ?g)"
  let ?nx = "next_index32 (receive_buffered_packet_count (kconfig t)) ?r"
  have r: "unat ?r < rcount ?g" using g(2) by (simp add: ring_inv_def ridx_def)
  have nx: "unat ?nx = ring_next (rcount ?g) (ridx ?g ?m)" using r by (simp add: unat_next_index32 ridx_def)
  have neq: "ridx ?g ?m \<noteq> widx ?g ?m" using ne ring_contents_Nil_iff [OF g(2)] by auto
  note eff = consume [OF g neq nx refl]
  have p: "p = ring_packet ?g ?m (ridx ?g ?m)" and ps: "ring_contents ?g (store32 ?m (rridx ?g) ?nx) = ps"
    using eff(1) ne by auto
  have pk': "pk = \<lparr>read_packet = slot_addr ?g (ridx ?g ?m), next_read_index = ?nx\<rparr>"
    using pk try_get_read_packet_eq [OF g(2)] ne by simp
  let ?len = "load32 ?m (slot_addr ?g (ridx ?g ?m))"
  let ?rx = "if len < ?len then len else ?len"
  have lp: "unat ?len = length p" by (simp add: p ring_packet_def packet_len_def)
  have whole: "load_bytes ?m (slot_addr ?g (ridx ?g ?m) + 8) (length p) = p"
    unfolding lp [symmetric] by (simp add: p ring_packet_def packet_len_def slot_data_def)
  have rx: "unat ?rx = min (unat len) (length p)" using lp by (auto simp: word_less_nat_alt min_def)
  have "load_bytes ?m (slot_addr ?g (ridx ?g ?m) + 8) (unat ?rx) = take (unat ?rx) p"
    using load_bytes_take [of "unat ?rx" "length p" ?m "slot_addr ?g (ridx ?g ?m) + 8"] whole rx by simp
  also have "\<dots> = take (unat len) p" using rx by (simp add: min_def)
  finally have data: "load_bytes ?m (slot_addr ?g (ridx ?g ?m) + 8) (unat ?rx) = take (unat len) p" .
  obtain b left where c: "ctu buffer (take (unat len) p) = (b, left)" by fastforce
  have res: "(r, buffer', k') = (if left \<noteq> 0 then (Inl EFAULT, b, k)
      else (Inr ?rx, b, k\<lparr>kmem := store32 ?m (rridx ?g) ?nx\<rparr>))"
    using run data c
    by (cases "left = 0"; cases "len < ?len")
      (simp_all add: read_out_def pk' Let_def packet_data_def mark_packet_as_read_def)
  have b: "b = take (unat len) p @ drop (min (unat len) (length p)) buffer" if "left = 0"
    using ctu c that unfolding copy_to_user_ok_def by (metis fst_conv length_take min.commute snd_conv)
  have "?rx = of_nat (min (unat len) (length p))" unfolding rx [symmetric] by simp
  then show "(if snd (ctu buffer (take (unat len) p)) = 0
      then r = Inr (of_nat (min (unat len) (length p))) \<and> buffer' = take (unat len) p @ drop (min (unat len) (length p)) buffer
        \<and> ring_contents ?g (kmem k') = ps
      else r = Inl EFAULT \<and> k' = k)"
    using res c b ps by auto
  show "ring_inv ?g (kmem k')" using res eff(2) g(2) by (auto split: if_splits)
  show "kmem k' x = ?m x" if "\<not> in_ring ?g x" using res eff(3) that by (auto split: if_splits)
  show "tunnels k' = tunnels k" using res by (auto split: if_splits)
qed

lemma wait_event_interruptible_sound:
  assumes "wait_event_interruptible cond m events = Some (res, m')"
  shows "res = cond m' \<and> (m' = m \<or> Woken m' \<in> set events \<or> Signalled m' \<in> set events)
    \<and> (res = None \<longrightarrow> Signalled m' \<in> set events)"
  using assms by (induction cond m events rule: wait_event_interruptible.induct) (auto split: option.splits, metis)

text \<open>A sleeping reader is not lost: the first wake-up that finds a packet ends the wait.\<close>

lemma wait_event_interruptible_progress:
  assumes "cond m' = Some p" and "\<forall>e\<in>set es. \<exists>m1. e = Woken m1 \<and> cond m1 = None" and "cond m = None"
  shows "wait_event_interruptible cond m (es @ [Woken m']) = Some (Some p, m')"
  using assms
proof (induction es arbitrary: m)
  case Nil
  then show ?case by simp
next
  case (Cons e es)
  then obtain m1 where "e = Woken m1" "cond m1 = None" by auto
  then show ?case using Cons by simp
qed

section \<open>Polling, opening and mapping\<close>

lemma dev_poll_iff:
  assumes "private_data f = Some i" and "ktunnel_inv (tunnels k ! i) (kmem k)"
  shows "dev_poll f k = Inr (if ring_contents (krx_ring (tunnels k ! i)) (kmem k) = [] then {} else {POLLIN, POLLRDNORM})"
proof -
  let ?g = "krx_ring (tunnels k ! i)"
  have "load32 (kmem k) (rridx ?g) = load32 (kmem k) (rwidx ?g) \<longleftrightarrow> ring_contents ?g (kmem k) = []"
    using assms(2) ring_contents_Nil_iff [of ?g "kmem k"]
    by (simp add: ktunnel_inv_def word_unat_eq_iff widx_def ridx_def)
  then show ?thesis
    using assms(1) by (simp add: dev_poll_def Let_def get_cpu0_read_index_def get_cpu1_write_index_def)
qed

lemma find_upt: "List.find (\<lambda>i. j = i) [0..<n] = (if j < n then Some j else None)"
proof (cases "j < n")
  case True
  then have "List.find (\<lambda>i. j = i) [0..<n] = Some j"
    unfolding find_Some_iff by (intro exI [of _ j]) auto
  with True show ?thesis by simp
next
  case False
  then show ?thesis by (auto simp: find_None_iff)
qed

lemma dev_open_cases:
  "dev_open c f k =
    (if c < DEVICE_COUNT then
       if is_open (tunnels k ! c) then (Inl EBUSY, f\<lparr>private_data := Some c\<rparr>, k)
       else (Inr (), f\<lparr>private_data := Some c\<rparr>, k\<lparr>tunnels := (tunnels k)[c := (tunnels k ! c)\<lparr>is_open := True\<rparr>]\<rparr>)
     else (Inl EINVAL, f, k))"
  by (simp add: dev_open_def find_upt Let_def)

lemma push_drop_page:
  assumes "unat (x :: u32) + unat (y :: u32) < 2 ^ 32" and "4096 dvd unat x" and "4096 dvd unat y"
  shows "unat (drop_bit PAGE_SHIFT (x + y)) * 4096 = unat x + unat y"
proof -
  have "unat (x + y) = unat x + unat y" using assms(1) by (simp add: unat_word_ariths)
  moreover have "unat (drop_bit PAGE_SHIFT (x + y)) = unat (x + y) div 4096"
    by (simp add: PAGE_SHIFT_def drop_bit_eq_div unat_div_distrib)
  moreover have "4096 dvd unat x + unat y" using assms(2,3) by (rule dvd_add)
  ultimately show ?thesis using dvd_div_mult_self by metis
qed

lemma unat_page_offset: "4096 dvd unat (push_bit PAGE_SHIFT (x :: u32))"
proof -
  have "unat (push_bit PAGE_SHIFT x) = (unat x * 4096) mod 2 ^ 32"
    by (simp add: PAGE_SHIFT_def push_bit_eq_mult unat_word_ariths)
  then show ?thesis by (simp add: dvd_mod)
qed

end
