(* ===== verification/Kernel_Module.thy ===== *)
theory Kernel_Module
  imports Kernel_Tunnel
begin

text \<open>
  Loading and unloading of the kernel module: \<open>ipc_tunnel_init\<close> and \<open>ipc_tunnel_exit\<close> of
  \<open>kernel_module_src/ipc-tunnel.c\<close>. The kernel functions they call can fail, so their outcomes
  are a parameter (the record \<open>kenv\<close>); the model keeps the set of kernel resources the module
  holds, and a flag that is raised when something is acquired twice or released without being
  held. The \<open>goto\<close> labels of the error path are the functions \<open>unmap_memory\<close>,
  \<open>destroy_devices\<close> and \<open>unregister_chrdevs\<close>, each falling through to the next.
\<close>

section \<open>State and kernel interface\<close>

datatype resource =
  ChrdevRegion
| DeviceClass
| Device u32
| Cdev nat
| Mapping addr nat
| IpiHandler int nat

record kenv =
  alloc_chrdev_region_ret :: "int + u32" \<comment> \<open>error, or the first device number\<close>
  mkdev :: "u32 \<Rightarrow> nat \<Rightarrow> u32" \<comment> \<open>\<open>MKDEV(MAJOR(first), MINOR(first) + i)\<close>\<close>
  class_create_err :: "int option"
  device_create_err :: "nat \<Rightarrow> int option"
  cdev_add_ret :: "nat \<Rightarrow> int"
  remap_ok :: "u32 \<Rightarrow> bool" \<comment> \<open>whether the physical address can be mapped\<close>

record module =
  mtunnels :: "TunnelInstance list"
  first_device_number :: u32
  live :: "resource set"
  faulty :: bool

definition acquire :: "resource \<Rightarrow> module \<Rightarrow> module" where
  "acquire r st = (if r \<in> live st then st\<lparr>faulty := True\<rparr> else st\<lparr>live := insert r (live st)\<rparr>)"

definition release :: "resource \<Rightarrow> module \<Rightarrow> module" where
  "release r st = (if r \<in> live st then st\<lparr>live := live st - {r}\<rparr> else st\<lparr>faulty := True\<rparr>)"

definition maps_at :: "addr \<Rightarrow> resource \<Rightarrow> bool" where
  "maps_at p r = (case r of Mapping a n \<Rightarrow> a = p | _ \<Rightarrow> False)"

definition memunmap :: "addr \<Rightarrow> module \<Rightarrow> module" where
  "memunmap p st =
     (if \<exists>r\<in>live st. maps_at p r then st\<lparr>live := {r \<in> live st. \<not> maps_at p r}\<rparr>
      else st\<lparr>faulty := True\<rparr>)"

definition memremap :: "kenv \<Rightarrow> u32 \<Rightarrow> nat \<Rightarrow> module \<Rightarrow> addr \<times> module" where
  "memremap env a n st = (if remap_ok env a then (unat a, acquire (Mapping (unat a) n) st) else (NULL, st))"

definition set_tunnel :: "nat \<Rightarrow> (TunnelInstance \<Rightarrow> TunnelInstance) \<Rightarrow> module \<Rightarrow> module" where
  "set_tunnel i f st = st\<lparr>mtunnels := (mtunnels st)[i := f (mtunnels st ! i)]\<rparr>"

section \<open>Loading\<close>

fun reset_tunnels :: "nat list \<Rightarrow> module \<Rightarrow> module" where
  "reset_tunnels [] st = st"
| "reset_tunnels (i # is) st =
     reset_tunnels is (set_tunnel i (\<lambda>t. t\<lparr>dev := 0, kconfig := tunnel_configs ! i, is_open := False,
       control_header := NULL, send_buffer := NULL, receive_buffer := NULL,
       send_packet_size := 0, receive_packet_size := 0\<rparr>) st)"

fun create_devices :: "kenv \<Rightarrow> nat list \<Rightarrow> module \<Rightarrow> int option \<times> module" where
  "create_devices env [] st = (None, st)"
| "create_devices env (i # is) st =
     (let dev_num = mkdev env (first_device_number st) i
      in case device_create_err env i of
           Some e \<Rightarrow> (Some e, st)
         | None \<Rightarrow> create_devices env is (set_tunnel i (\<lambda>t. t\<lparr>dev := dev_num\<rparr>) (acquire (Device dev_num) st)))"

text \<open>A failing \<open>cdev_add\<close> deletes the character devices already added, newest first.\<close>

fun delete_cdevs :: "nat list \<Rightarrow> module \<Rightarrow> module" where
  "delete_cdevs [] st = st"
| "delete_cdevs (i # is) st = delete_cdevs is (release (Cdev i) st)"

fun add_cdevs :: "kenv \<Rightarrow> nat list \<Rightarrow> module \<Rightarrow> int option \<times> module" where
  "add_cdevs env [] st = (None, st)"
| "add_cdevs env (i # is) st =
     (if cdev_add_ret env i < 0 then (Some (cdev_add_ret env i), delete_cdevs (rev [0..<i]) st)
      else add_cdevs env is (acquire (Cdev i) st))"

definition aligned_size :: "bool \<Rightarrow> u16 \<Rightarrow> u16" where
  "aligned_size cached max_size =
     (if cached then ucast ((ucast max_size + 8 + 31) AND NOT (31 :: u32))
      else ucast ((ucast max_size + 8 + 7) AND NOT (7 :: u32)))"

definition map_tunnel :: "bool \<Rightarrow> kenv \<Rightarrow> nat \<Rightarrow> module \<Rightarrow> module" where
  "map_tunnel cached env i st =
     (let cfg = tunnel_configs ! i;
          (header, st) = memremap env (control_header_address cfg) sizeof_ControlHeader st;
          st = set_tunnel i (\<lambda>t. t\<lparr>control_header := header\<rparr>) st;
          st = set_tunnel i (\<lambda>t. t\<lparr>send_packet_size := aligned_size cached (send_max_packet_size cfg)\<rparr>) st;
          (sendb, st) = memremap env (send_buffer_address cfg)
             (unat (send_packet_size (mtunnels st ! i)) * unat (send_buffered_packet_count cfg)) st;
          st = set_tunnel i (\<lambda>t. t\<lparr>send_buffer := sendb\<rparr>) st;
          st = set_tunnel i (\<lambda>t. t\<lparr>receive_packet_size := aligned_size cached (receive_max_packet_size cfg)\<rparr>) st;
          (recvb, st) = memremap env (receive_buffer_address cfg)
             (unat (receive_packet_size (mtunnels st ! i)) * unat (receive_buffered_packet_count cfg)) st
      in set_tunnel i (\<lambda>t. t\<lparr>receive_buffer := recvb\<rparr>) st)"

fun map_tunnels :: "bool \<Rightarrow> kenv \<Rightarrow> nat list \<Rightarrow> module \<Rightarrow> bool \<times> module" where
  "map_tunnels cached env [] st = (True, st)"
| "map_tunnels cached env (i # is) st =
     (let st = map_tunnel cached env i st; t = mtunnels st ! i
      in if control_header t = NULL \<or> send_buffer t = NULL \<or> receive_buffer t = NULL then (False, st)
         else map_tunnels cached env is st)"

fun install_handlers :: "nat list \<Rightarrow> module \<Rightarrow> module" where
  "install_handlers [] st = st"
| "install_handlers (i # is) st =
     install_handlers is (acquire (IpiHandler (cpu0_notify_ipi (tunnel_configs ! i))
       (cpu0_notify_ipi_handler (tunnel_configs ! i))) st)"

definition unmap_ptr :: "addr \<Rightarrow> module \<Rightarrow> module" where
  "unmap_ptr p st = (if p \<noteq> NULL then memunmap p st else st)"

fun unmap_tunnels :: "nat list \<Rightarrow> module \<Rightarrow> module" where
  "unmap_tunnels [] st = st"
| "unmap_tunnels (i # is) st =
     (let st = unmap_ptr (control_header (mtunnels st ! i)) st;
          st = unmap_ptr (send_buffer (mtunnels st ! i)) st;
          st = unmap_ptr (receive_buffer (mtunnels st ! i)) st
      in unmap_tunnels is st)"

fun destroy_existing :: "nat list \<Rightarrow> module \<Rightarrow> module" where
  "destroy_existing [] st = st"
| "destroy_existing (i # is) st =
     destroy_existing is (if dev (mtunnels st ! i) \<noteq> 0 then release (Device (dev (mtunnels st ! i))) st else st)"

definition unregister_chrdevs :: "module \<Rightarrow> module" where
  "unregister_chrdevs st = release ChrdevRegion st"

definition destroy_devices :: "module \<Rightarrow> module" where
  "destroy_devices st = unregister_chrdevs (release DeviceClass (destroy_existing [0..<DEVICE_COUNT] st))"

definition unmap_memory :: "module \<Rightarrow> module" where
  "unmap_memory st = destroy_devices (delete_cdevs [0..<DEVICE_COUNT] (unmap_tunnels [0..<DEVICE_COUNT] st))"

definition ipc_tunnel_init :: "bool \<Rightarrow> kenv \<Rightarrow> module \<Rightarrow> (kerr + unit) \<times> module" where
  "ipc_tunnel_init cached env st =
     (let st = reset_tunnels [0..<DEVICE_COUNT] st
      in case alloc_chrdev_region_ret env of
        Inl e \<Rightarrow> (Inl (KernelError e), st)
      | Inr first \<Rightarrow>
        let st = acquire ChrdevRegion (st\<lparr>first_device_number := first\<rparr>)
        in case class_create_err env of
          Some e \<Rightarrow> (Inl (KernelError e), unregister_chrdevs st)
        | None \<Rightarrow>
          case create_devices env [0..<DEVICE_COUNT] (acquire DeviceClass st) of
            (Some e, st) \<Rightarrow> (Inl (KernelError e), destroy_devices st)
          | (None, st) \<Rightarrow>
            case add_cdevs env [0..<DEVICE_COUNT] st of
              (Some e, st) \<Rightarrow> (Inl (KernelError e), destroy_devices st)
            | (None, st) \<Rightarrow>
              let (mapped, st) = map_tunnels cached env [0..<DEVICE_COUNT] st
              in if mapped then (Inr (), install_handlers [0..<DEVICE_COUNT] st)
                 else (Inl ENOMEM, unmap_memory st))"

section \<open>Unloading\<close>

fun exit_tunnels :: "nat list \<Rightarrow> module \<Rightarrow> module" where
  "exit_tunnels [] st = st"
| "exit_tunnels (i # is) st =
     (let st = release (IpiHandler (cpu0_notify_ipi (tunnel_configs ! i))
                 (cpu0_notify_ipi_handler (tunnel_configs ! i))) st;
          st = memunmap (control_header (mtunnels st ! i)) st;
          st = memunmap (send_buffer (mtunnels st ! i)) st;
          st = memunmap (receive_buffer (mtunnels st ! i)) st;
          st = release (Cdev i) st;
          st = release (Device (dev (mtunnels st ! i))) st
      in exit_tunnels is st)"

definition ipc_tunnel_exit :: "module \<Rightarrow> module" where
  "ipc_tunnel_exit st =
     release ChrdevRegion (release DeviceClass (exit_tunnels [0..<DEVICE_COUNT] st))"

section \<open>Acquiring and releasing in bulk\<close>

lemma acquire_sel [simp]: "mtunnels (acquire r st) = mtunnels st"
    "first_device_number (acquire r st) = first_device_number st"
  and release_sel [simp]: "mtunnels (release r st) = mtunnels st"
    "first_device_number (release r st) = first_device_number st"
  by (simp_all add: acquire_def release_def)

lemma set_tunnel_sel [simp]: "live (set_tunnel i f st) = live st" "faulty (set_tunnel i f st) = faulty st"
  "first_device_number (set_tunnel i f st) = first_device_number st"
  "mtunnels (set_tunnel i f st) = (mtunnels st)[i := f (mtunnels st ! i)]"
  by (simp_all add: set_tunnel_def)

lemma fold_release:
  assumes "distinct rs" and "set rs \<subseteq> live st"
  shows "fold release rs st = st\<lparr>live := live st - set rs\<rparr>"
  using assms
proof (induction rs arbitrary: st)
  case (Cons r rs)
  then have "release r st = st\<lparr>live := live st - {r}\<rparr>" by (simp add: release_def)
  moreover have "set rs \<subseteq> live (st\<lparr>live := live st - {r}\<rparr>)" using Cons.prems by auto
  ultimately show ?case using Cons.IH Cons.prems(1) by (simp add: Diff_insert2 [symmetric])
qed simp

lemma fold_acquire:
  assumes "distinct rs" and "set rs \<inter> live st = {}"
  shows "fold acquire rs st = st\<lparr>live := live st \<union> set rs\<rparr>"
  using assms
proof (induction rs arbitrary: st)
  case (Cons r rs)
  then have "acquire r st = st\<lparr>live := insert r (live st)\<rparr>" by (simp add: acquire_def)
  then show ?case using Cons.IH [of "st\<lparr>live := insert r (live st)\<rparr>"] Cons.prems by simp
qed simp

lemma delete_cdevs_eq: "delete_cdevs is st = fold release (map Cdev is) st"
  by (induction "is" arbitrary: st) simp_all

definition handler_res :: "nat \<Rightarrow> resource" where
  "handler_res i = IpiHandler (cpu0_notify_ipi (tunnel_configs ! i)) (cpu0_notify_ipi_handler (tunnel_configs ! i))"

lemma install_handlers_eq: "install_handlers is st = fold acquire (map handler_res is) st"
  by (induction "is" arbitrary: st) (simp_all add: handler_res_def)

lemma destroy_existing_eq:
  "destroy_existing is st =
   fold release (map (\<lambda>i. Device (dev (mtunnels st ! i))) (filter (\<lambda>i. dev (mtunnels st ! i) \<noteq> 0) is)) st"
  by (induction "is" arbitrary: st) simp_all

text \<open>The loops that can stop early run a step on a prefix of the indices.\<close>

definition dev_step :: "kenv \<Rightarrow> nat \<Rightarrow> module \<Rightarrow> module" where
  "dev_step env i st = set_tunnel i (\<lambda>t. t\<lparr>dev := mkdev env (first_device_number st) i\<rparr>)
     (acquire (Device (mkdev env (first_device_number st) i)) st)"

lemma create_devices_prefix:
  assumes "create_devices env is st = (r, st')"
  shows "\<exists>ds rest. is = ds @ rest \<and> (r = None \<longleftrightarrow> rest = []) \<and> st' = fold (dev_step env) ds st"
  using assms
proof (induction "is" arbitrary: st)
  case (Cons i "is")
  show ?case
  proof (cases "device_create_err env i")
    case None
    with Cons.prems have "create_devices env is (dev_step env i st) = (r, st')"
      by (simp add: Let_def dev_step_def)
    from Cons.IH [OF this] obtain ds rest where "is = ds @ rest" "r = None \<longleftrightarrow> rest = []"
      "st' = fold (dev_step env) ds (dev_step env i st)" by blast
    then show ?thesis by (intro exI [of _ "i # ds"] exI [of _ rest]) simp
  next
    case (Some e)
    then have "create_devices env (i # is) st = (Some e, st)" by (simp add: Let_def)
    with Cons.prems have "r \<noteq> None" "st' = st" by auto
    then show ?thesis by (intro exI [of _ "[]"] exI [of _ "i # is"]) simp
  qed
qed simp

lemma map_tunnels_prefix:
  assumes "map_tunnels cached env is st = (r, st')"
  shows "\<exists>ds rest. is = ds @ rest \<and> st' = fold (map_tunnel cached env) ds st \<and> (r \<longrightarrow> rest = [])"
  using assms
proof (induction "is" arbitrary: st)
  case (Cons i "is")
  let ?st = "map_tunnel cached env i st"
  show ?case
  proof (cases "control_header (mtunnels ?st ! i) = NULL \<or> send_buffer (mtunnels ?st ! i) = NULL \<or> receive_buffer (mtunnels ?st ! i) = NULL")
    case True
    with Cons.prems have "st' = ?st \<and> \<not> r" by (auto simp: Let_def)
    then show ?thesis by (intro exI [of _ "[i]"] exI [of _ "is"]) simp
  next
    case False
    with Cons.prems have "map_tunnels cached env is ?st = (r, st')" by (auto simp: Let_def)
    from Cons.IH [OF this] obtain ds rest
      where "is = ds @ rest" "r \<longrightarrow> rest = []" "st' = fold (map_tunnel cached env) ds ?st" by blast
    then show ?thesis by (intro exI [of _ "i # ds"] exI [of _ rest]) simp
  qed
qed simp

lemma add_cdevs_prefix:
  assumes "add_cdevs env [n..<k] st = (r, st')" and "n \<le> k"
  shows "(r = None \<and> st' = fold acquire (map Cdev [n..<k]) st) \<or>
    (\<exists>m e. n \<le> m \<and> m < k \<and> r = Some e \<and> st' = delete_cdevs (rev [0..<m]) (fold acquire (map Cdev [n..<m]) st))"
  using assms
proof (induction "k - n" arbitrary: n st)
  case 0
  then show ?case by simp
next
  case (Suc d)
  then have nk: "n < k" "d = k - Suc n" by auto
  then have upt: "[n..<k] = n # [Suc n..<k]" by (simp add: upt_conv_Cons)
  show ?case
  proof (cases "cdev_add_ret env n < 0")
    case True
    then show ?thesis using Suc.prems(1) nk by (intro disjI2 exI [of _ n]) (auto simp: upt)
  next
    case False
    then have "add_cdevs env [Suc n..<k] (acquire (Cdev n) st) = (r, st')" using Suc.prems(1) by (simp add: upt)
    from Suc.hyps(1) [OF nk(2) this] nk(1)
    have "(r = None \<and> st' = fold acquire (map Cdev [Suc n..<k]) (acquire (Cdev n) st)) \<or>
      (\<exists>m e. Suc n \<le> m \<and> m < k \<and> r = Some e \<and>
         st' = delete_cdevs (rev [0..<m]) (fold acquire (map Cdev [Suc n..<m]) (acquire (Cdev n) st)))" by simp
    then show ?thesis
    proof (elim disjE exE conjE)
      fix m e assume "Suc n \<le> m" "m < k" "r = Some e"
        "st' = delete_cdevs (rev [0..<m]) (fold acquire (map Cdev [Suc n..<m]) (acquire (Cdev n) st))"
      then show ?thesis by (intro disjI2 exI [of _ m]) (auto simp: upt_conv_Cons [of n m])
    qed (auto simp: upt)
  qed
qed

section \<open>The effect of the loading steps\<close>

definition mkdev_ok :: "kenv \<Rightarrow> bool" where
  "mkdev_ok env \<longleftrightarrow> (\<forall>first. \<forall>i<DEVICE_COUNT. mkdev env first i \<noteq> 0 \<and>
     (\<forall>j<DEVICE_COUNT. mkdev env first i = mkdev env first j \<longrightarrow> i = j))"

definition cfg_maps :: "bool \<Rightarrow> nat \<Rightarrow> (u32 \<times> nat) list" where
  "cfg_maps cached i = (let c = tunnel_configs ! i in
     [(control_header_address c, sizeof_ControlHeader),
      (send_buffer_address c, unat (aligned_size cached (send_max_packet_size c)) * unat (send_buffered_packet_count c)),
      (receive_buffer_address c, unat (aligned_size cached (receive_max_packet_size c)) * unat (receive_buffered_packet_count c))])"

definition mapped_ptr :: "kenv \<Rightarrow> u32 \<Rightarrow> addr" where
  "mapped_ptr env a = (if remap_ok env a then unat a else NULL)"

definition mapped_tunnel :: "bool \<Rightarrow> kenv \<Rightarrow> nat \<Rightarrow> TunnelInstance \<Rightarrow> TunnelInstance" where
  "mapped_tunnel cached env i t = (let c = tunnel_configs ! i in
     t\<lparr>control_header := mapped_ptr env (control_header_address c),
       send_packet_size := aligned_size cached (send_max_packet_size c),
       send_buffer := mapped_ptr env (send_buffer_address c),
       receive_packet_size := aligned_size cached (receive_max_packet_size c),
       receive_buffer := mapped_ptr env (receive_buffer_address c)\<rparr>)"

definition tunnel_maps :: "bool \<Rightarrow> kenv \<Rightarrow> nat \<Rightarrow> resource list" where
  "tunnel_maps cached env i =
     map (\<lambda>(a, n). Mapping (unat a) n) (filter (\<lambda>(a, n). remap_ok env a) (cfg_maps cached i))"

lemma memremap_eq:
  "memremap env a n st = (mapped_ptr env a, if remap_ok env a then acquire (Mapping (unat a) n) st else st)"
  by (simp add: memremap_def mapped_ptr_def)

lemma set_tunnel_acquire: "set_tunnel i f (acquire r st) = acquire r (set_tunnel i f st)"
  by (simp add: set_tunnel_def acquire_def)

lemma set_tunnel_twice:
  "i < length (mtunnels st) \<Longrightarrow> set_tunnel i f (set_tunnel i g st) = set_tunnel i (f \<circ> g) st"
  by (simp add: set_tunnel_def)

lemma map_tunnel_eq:
  assumes "i < length (mtunnels st)"
  shows "map_tunnel cached env i st =
    fold acquire (tunnel_maps cached env i) (set_tunnel i (mapped_tunnel cached env i) st)"
proof -
  have upd: "set_tunnel i (\<lambda>t. t\<lparr>receive_buffer := e\<rparr>) (set_tunnel i (\<lambda>t. t\<lparr>receive_packet_size := d\<rparr>)
      (set_tunnel i (\<lambda>t. t\<lparr>send_buffer := c\<rparr>) (set_tunnel i (\<lambda>t. t\<lparr>send_packet_size := b\<rparr>)
        (set_tunnel i (\<lambda>t. t\<lparr>control_header := a\<rparr>) st)))) =
      set_tunnel i (\<lambda>t. t\<lparr>control_header := a, send_packet_size := b, send_buffer := c,
        receive_packet_size := d, receive_buffer := e\<rparr>) st" for a b c d e
    using assms by (simp add: set_tunnel_def)
  show ?thesis
    using assms
    by (simp add: map_tunnel_def memremap_eq Let_def tunnel_maps_def cfg_maps_def
        set_tunnel_acquire upd mapped_tunnel_def [abs_def])
qed

text \<open>Updating the tunnels of a list of indices, independently of the resources.\<close>

definition set_tunnels :: "(nat \<Rightarrow> TunnelInstance \<Rightarrow> TunnelInstance) \<Rightarrow> nat list \<Rightarrow> module \<Rightarrow> module" where
  "set_tunnels F is st = fold (\<lambda>i. set_tunnel i (F i)) is st"

lemma set_tunnels_sel [simp]: "live (set_tunnels F is st) = live st" "faulty (set_tunnels F is st) = faulty st"
  "first_device_number (set_tunnels F is st) = first_device_number st"
  "length (mtunnels (set_tunnels F is st)) = length (mtunnels st)"
  by (induction "is" arbitrary: st) (simp_all add: set_tunnels_def)

lemma set_tunnels_nth:
  assumes "distinct is" and "\<forall>i\<in>set is. i < length (mtunnels st)"
  shows "mtunnels (set_tunnels F is st) ! j = (if j \<in> set is then F j (mtunnels st ! j) else mtunnels st ! j)"
  using assms by (induction "is" arbitrary: st) (auto simp: set_tunnels_def nth_list_update)

lemma fold_acquire_sel [simp]: "mtunnels (fold acquire rs st) = mtunnels st"
  "first_device_number (fold acquire rs st) = first_device_number st"
  by (induction rs arbitrary: st) simp_all

lemma set_tunnels_acquire: "set_tunnels F is (fold acquire rs st) = fold acquire rs (set_tunnels F is st)"
proof -
  have one: "set_tunnel i f (fold acquire rs st) = fold acquire rs (set_tunnel i f st)" for i f and st :: module
    by (induction rs arbitrary: st) (simp_all add: set_tunnel_acquire)
  show ?thesis by (induction "is" arbitrary: st) (simp_all add: set_tunnels_def one)
qed

lemma set_tunnels_Cons: "set_tunnels F (i # is) st = set_tunnels F is (set_tunnel i (F i) st)"
  by (simp add: set_tunnels_def)

lemma fold_dev_step:
  "fold (dev_step env) ds st =
   fold acquire (map (\<lambda>i. Device (mkdev env (first_device_number st) i)) ds)
     (set_tunnels (\<lambda>i t. t\<lparr>dev := mkdev env (first_device_number st) i\<rparr>) ds st)"
proof (induction ds arbitrary: st)
  case (Cons i ds)
  have "dev_step env i st = acquire (Device (mkdev env (first_device_number st) i))
      (set_tunnel i (\<lambda>t. t\<lparr>dev := mkdev env (first_device_number st) i\<rparr>) st)"
    by (simp add: dev_step_def set_tunnel_acquire)
  then show ?case
    using Cons.IH [of "dev_step env i st"] set_tunnels_acquire [of _ ds "[r]" for r]
    by (simp add: set_tunnels_Cons)
qed (simp add: set_tunnels_def)

lemma fold_map_tunnel:
  assumes "\<forall>i\<in>set ds. i < length (mtunnels st)"
  shows "fold (map_tunnel cached env) ds st =
   fold acquire (concat (map (tunnel_maps cached env) ds)) (set_tunnels (mapped_tunnel cached env) ds st)"
  using assms
proof (induction ds arbitrary: st)
  case (Cons i ds)
  then have "map_tunnel cached env i st =
      fold acquire (tunnel_maps cached env i) (set_tunnel i (mapped_tunnel cached env i) st)"
    by (simp add: map_tunnel_eq)
  then show ?case using Cons by (simp add: set_tunnels_Cons set_tunnels_acquire)
qed (simp add: set_tunnels_def)

lemma reset_tunnels_eq:
  "reset_tunnels is st = set_tunnels (\<lambda>i t. t\<lparr>dev := 0, kconfig := tunnel_configs ! i, is_open := False,
       control_header := NULL, send_buffer := NULL, receive_buffer := NULL,
       send_packet_size := 0, receive_packet_size := 0\<rparr>) is st"
  by (induction "is" arbitrary: st) (simp_all add: set_tunnels_def)

section \<open>Unmapping\<close>

definition all_maps :: "bool \<Rightarrow> resource list" where
  "all_maps cached = concat (map (\<lambda>i. map (\<lambda>(a, n). Mapping (unat a) n) (cfg_maps cached i)) [0..<DEVICE_COUNT])"

definition map_addr :: "resource \<Rightarrow> addr" where
  "map_addr r = (case r of Mapping a n \<Rightarrow> a | _ \<Rightarrow> NULL)"

lemma all_maps_distinct: "distinct (map map_addr (all_maps cached))" and all_maps_nonnull: "NULL \<notin> map_addr ` set (all_maps cached)"
  by (cases cached; simp add: all_maps_def cfg_maps_def map_addr_def tunnel_configs_def DEVICE_COUNT_def upt_rec Let_def)+

lemma tunnel_maps_subset:
  assumes "i < DEVICE_COUNT"
  shows "set (tunnel_maps cached env i) \<subseteq> set (all_maps cached)"
  using assms by (auto simp: tunnel_maps_def all_maps_def)

lemma distinct_concat_filter:
  "distinct (concat (map f is)) \<Longrightarrow> distinct (concat (map (\<lambda>i. filter (P i) (f i)) is))"
  by (induction "is") auto

lemma tunnel_maps_distinct: "distinct (concat (map (tunnel_maps cached env) [0..<DEVICE_COUNT]))"
proof -
  let ?f = "\<lambda>i. map (\<lambda>(a, n). Mapping (unat a) n) (cfg_maps cached i)"
  have "tunnel_maps cached env = (\<lambda>i. filter (\<lambda>r. remap_ok env (of_nat (map_addr r))) (?f i))"
    by (auto simp: tunnel_maps_def filter_map o_def map_addr_def case_prod_beta fun_eq_iff intro!: arg_cong [where f = "map _"] filter_cong)
  moreover have "distinct (concat (map ?f [0..<DEVICE_COUNT]))"
    using all_maps_distinct [of cached] by (simp add: all_maps_def distinct_map)
  ultimately show ?thesis using distinct_concat_filter [of ?f "[0..<DEVICE_COUNT]"] by simp
qed

definition maps_ok :: "bool \<Rightarrow> resource set \<Rightarrow> bool" where
  "maps_ok cached L \<longleftrightarrow> (\<forall>r\<in>L. map_addr r \<noteq> NULL \<longrightarrow> r \<in> set (all_maps cached))"

lemma memunmap_release:
  assumes "maps_ok cached (live st)" and "r \<in> live st" and "r \<in> set (all_maps cached)" and "p = map_addr r"
  shows "memunmap p st = release r st"
proof -
  have nz: "p \<noteq> NULL" using assms(3,4) all_maps_nonnull by force
  have at: "maps_at p x \<longleftrightarrow> map_addr x = p" for x
    using nz by (auto simp: maps_at_def map_addr_def split: resource.splits)
  have "x = r" if "x \<in> live st" "map_addr x = p" for x
  proof -
    have "x \<in> set (all_maps cached)" using assms(1) that nz by (auto simp: maps_ok_def)
    then show ?thesis using assms(3,4) that(2) all_maps_distinct [of cached] by (auto simp: distinct_map inj_on_def)
  qed
  then have "{x \<in> live st. \<not> maps_at p x} = live st - {r}"
    using assms(4) unfolding at by auto
  moreover have "\<exists>x\<in>live st. maps_at p x" using assms(2,4) at by auto
  ultimately show ?thesis using assms(2) by (simp add: memunmap_def release_def)
qed

lemma maps_ok_release [simp]: "maps_ok cached (live st) \<Longrightarrow> maps_ok cached (live (release r st))"
  by (auto simp: maps_ok_def release_def)

text \<open>The pointers a tunnel holds after mapping, and the mappings behind them.\<close>

lemma tunnel_addr_nonnull:
  assumes "i < DEVICE_COUNT" and "(a, n) \<in> set (cfg_maps cached i)"
  shows "unat a \<noteq> NULL"
proof -
  have "Mapping (unat a) n \<in> set (all_maps cached)" using assms by (force simp: all_maps_def)
  then show ?thesis using all_maps_nonnull [of cached] by (force simp: map_addr_def)
qed

lemma unmap_ptr_eq:
  assumes "maps_ok cached (live st)" and "i < DEVICE_COUNT" and "(a, n) \<in> set (cfg_maps cached i)"
    and "remap_ok env a \<Longrightarrow> Mapping (unat a) n \<in> live st"
  shows "unmap_ptr (mapped_ptr env a) st = (if remap_ok env a then release (Mapping (unat a) n) st else st)"
proof -
  have "Mapping (unat a) n \<in> set (all_maps cached)" using assms(2,3) by (force simp: all_maps_def)
  then show ?thesis
    using memunmap_release [OF assms(1) assms(4), of "unat a"] tunnel_addr_nonnull [OF assms(2,3)]
    by (auto simp: unmap_ptr_def mapped_ptr_def map_addr_def)
qed

definition mapped_as :: "bool \<Rightarrow> kenv \<Rightarrow> nat \<Rightarrow> TunnelInstance \<Rightarrow> bool" where
  "mapped_as cached env i t \<longleftrightarrow>
     map (mapped_ptr env \<circ> fst) (cfg_maps cached i) = [control_header t, send_buffer t, receive_buffer t]"

lemma unmap_tunnel_eq:
  assumes i: "i < DEVICE_COUNT" and "mapped_as cached env i t" and "maps_ok cached (live st)"
    and d: "distinct (tunnel_maps cached env i)" "set (tunnel_maps cached env i) \<subseteq> live st"
  shows "unmap_ptr (receive_buffer t) (unmap_ptr (send_buffer t) (unmap_ptr (control_header t) st)) =
    fold release (tunnel_maps cached env i) st"
proof -
  obtain a1 n1 a2 n2 a3 n3 where c: "cfg_maps cached i = [(a1, n1), (a2, n2), (a3, n3)]"
    by (simp add: cfg_maps_def Let_def)
  have p: "control_header t = mapped_ptr env a1" "send_buffer t = mapped_ptr env a2"
    "receive_buffer t = mapped_ptr env a3"
    using assms(2) by (auto simp: mapped_as_def c)
  let ?r = "\<lambda>a n st. if remap_ok env a then release (Mapping (unat a) n) st else st"
  define s1 where "s1 = ?r a1 n1 st"
  define s2 where "s2 = ?r a2 n2 s1"
  have s3: "?r a3 n3 s2 = fold release (tunnel_maps cached env i) st"
    by (simp add: tunnel_maps_def c s1_def s2_def)
  have t: "maps_ok cached (live s1)" "maps_ok cached (live s2)"
    using assms(3) by (auto simp: s1_def s2_def)
  have h: "remap_ok env a1 \<Longrightarrow> Mapping (unat a1) n1 \<in> live st" "remap_ok env a2 \<Longrightarrow> Mapping (unat a2) n2 \<in> live s1"
    "remap_ok env a3 \<Longrightarrow> Mapping (unat a3) n3 \<in> live s2"
    using d by (auto simp: tunnel_maps_def c s1_def s2_def release_def split: if_splits)
  have "unmap_ptr (mapped_ptr env a1) st = s1"
    using unmap_ptr_eq [OF assms(3) i, of a1 n1 env] h(1) by (simp add: c s1_def)
  moreover have "unmap_ptr (mapped_ptr env a2) s1 = s2"
    using unmap_ptr_eq [OF t(1) i, of a2 n2 env] h(2) by (simp add: c s2_def)
  moreover have "unmap_ptr (mapped_ptr env a3) s2 = ?r a3 n3 s2"
    using unmap_ptr_eq [OF t(2) i, of a3 n3 env] h(3) by (simp add: c)
  ultimately show ?thesis by (simp only: p s3)
qed

lemma unmap_ptr_sel [simp]: "mtunnels (unmap_ptr p st) = mtunnels st" "mtunnels (memunmap p st) = mtunnels st"
  by (simp_all add: unmap_ptr_def memunmap_def)

lemma unmap_tunnels_eq:
  assumes "\<forall>i\<in>set is. i < DEVICE_COUNT \<and> mapped_as cached env i (mtunnels st ! i)"
    and "maps_ok cached (live st)" and "distinct (concat (map (tunnel_maps cached env) is))"
    and "set (concat (map (tunnel_maps cached env) is)) \<subseteq> live st"
  shows "unmap_tunnels is st = fold release (concat (map (tunnel_maps cached env) is)) st"
  using assms
proof (induction "is" arbitrary: st)
  case (Cons i "is")
  have d: "distinct (tunnel_maps cached env i)" "set (tunnel_maps cached env i) \<subseteq> live st"
    using Cons.prems by auto
  let ?st = "fold release (tunnel_maps cached env i) st"
  have st: "?st = st\<lparr>live := live st - set (tunnel_maps cached env i)\<rparr>" by (rule fold_release [OF d])
  have "unmap_tunnels (i # is) st = unmap_tunnels is ?st"
    using unmap_tunnel_eq [OF _ _ Cons.prems(2) d] Cons.prems(1) by (simp add: Let_def)
  also have "\<dots> = fold release (concat (map (tunnel_maps cached env) is)) ?st"
  proof (rule Cons.IH)
    show "maps_ok cached (live ?st)" using Cons.prems(2) by (auto simp: st maps_ok_def)
    show "set (concat (map (tunnel_maps cached env) is)) \<subseteq> live ?st" using Cons.prems(3,4) by (auto simp: st)
  qed (use Cons.prems in \<open>auto simp: st\<close>)
  finally show ?case by simp
qed simp

definition exit_res :: "bool \<Rightarrow> kenv \<Rightarrow> TunnelInstance list \<Rightarrow> nat \<Rightarrow> resource list" where
  "exit_res cached env ts i = handler_res i # tunnel_maps cached env i @ [Cdev i, Device (dev (ts ! i))]"

lemma map_addr_simps [simp]: "map_addr ChrdevRegion = NULL" "map_addr DeviceClass = NULL" "map_addr (Device d) = NULL"
  "map_addr (Cdev c) = NULL" "map_addr (IpiHandler p q) = NULL" "map_addr (Mapping a n) = a"
  by (simp_all add: map_addr_def)

lemma exit_tunnels_eq:
  assumes "\<forall>i\<in>set is. i < DEVICE_COUNT \<and> mapped_as cached env i (mtunnels st ! i)"
    and "\<forall>i\<in>set is. \<forall>(a, n)\<in>set (cfg_maps cached i). remap_ok env a"
    and "maps_ok cached (live st)" and "distinct (concat (map (exit_res cached env (mtunnels st)) is))"
    and "set (concat (map (exit_res cached env (mtunnels st)) is)) \<subseteq> live st"
  shows "exit_tunnels is st = fold release (concat (map (exit_res cached env (mtunnels st)) is)) st"
  using assms
proof (induction "is" arbitrary: st)
  case (Cons i "is")
  let ?t = "mtunnels st ! i" and ?R = "exit_res cached env (mtunnels st) i"
  have d: "distinct ?R" "set ?R \<subseteq> live st" using Cons.prems by auto
  let ?st = "fold release ?R st" and ?s0 = "release (handler_res i) st"
  have st: "?st = st\<lparr>live := live st - set ?R\<rparr>" by (rule fold_release [OF d])
  have i: "i < DEVICE_COUNT" and m: "mapped_as cached env i ?t" using Cons.prems(1) by auto
  have s0: "live ?s0 = live st - {handler_res i}" using d(2) by (simp add: release_def exit_res_def)
  have d0: "distinct (tunnel_maps cached env i)" "set (tunnel_maps cached env i) \<subseteq> live ?s0"
    using d by (auto simp: exit_res_def s0)
  have nz: "control_header ?t \<noteq> NULL \<and> send_buffer ?t \<noteq> NULL \<and> receive_buffer ?t \<noteq> NULL"
  proof -
    have "\<forall>p\<in>set (map (mapped_ptr env \<circ> fst) (cfg_maps cached i)). p \<noteq> NULL"
      using tunnel_addr_nonnull [OF i] Cons.prems(2) by (fastforce simp: mapped_ptr_def)
    then show ?thesis unfolding m [unfolded mapped_as_def] by simp
  qed
  have "exit_tunnels (i # is) st = exit_tunnels is ?st"
    using unmap_tunnel_eq [OF i m _ d0] Cons.prems(3) nz
    by (simp add: Let_def exit_res_def handler_res_def [symmetric] unmap_ptr_def)
  also have "\<dots> = fold release (concat (map (exit_res cached env (mtunnels ?st)) is)) ?st"
  proof (rule Cons.IH)
    show "maps_ok cached (live ?st)" using Cons.prems(3) by (auto simp: st maps_ok_def)
    show "set (concat (map (exit_res cached env (mtunnels ?st)) is)) \<subseteq> live ?st"
      using Cons.prems(4,5) by (auto simp: st)
  qed (use Cons.prems in \<open>auto simp: st\<close>)
  finally show ?case by (simp add: st)
qed simp

section \<open>Loading as a whole\<close>

definition fresh_module :: "module \<Rightarrow> bool" where
  "fresh_module st \<longleftrightarrow> length (mtunnels st) = DEVICE_COUNT \<and> live st = {} \<and> \<not> faulty st"

definition dev_res :: "kenv \<Rightarrow> module \<Rightarrow> nat \<Rightarrow> resource" where
  "dev_res env st i = Device (mkdev env (first_device_number st) i)"

text \<open>
  \<open>loading env m st\<close>: the region, the class and the first \<open>m\<close> devices exist, with nothing else
  but the resources in \<open>X\<close>.
\<close>

definition loading :: "kenv \<Rightarrow> nat \<Rightarrow> resource set \<Rightarrow> module \<Rightarrow> bool" where
  "loading env m X st \<longleftrightarrow> length (mtunnels st) = DEVICE_COUNT \<and> \<not> faulty st
     \<and> live st = {ChrdevRegion, DeviceClass} \<union> dev_res env st ` {..<m} \<union> X
     \<and> (\<forall>i<DEVICE_COUNT. kconfig (mtunnels st ! i) = tunnel_configs ! i \<and> \<not> is_open (mtunnels st ! i)
          \<and> dev (mtunnels st ! i) = (if i < m then mkdev env (first_device_number st) i else 0))"

lemma destroy_devices_clean:
  assumes "mkdev_ok env" and "m \<le> DEVICE_COUNT" and l: "loading env m {} st"
  shows "live (destroy_devices st) = {}" and "\<not> faulty (destroy_devices st)"
proof -
  let ?ds = "map (\<lambda>i. Device (dev (mtunnels st ! i))) (filter (\<lambda>i. dev (mtunnels st ! i) \<noteq> 0) [0..<DEVICE_COUNT])"
  have flt: "filter (\<lambda>i. dev (mtunnels st ! i) \<noteq> 0) [0..<DEVICE_COUNT] = [0..<m]"
  proof -
    have "[0..<DEVICE_COUNT] = [0..<m] @ [m..<DEVICE_COUNT]" 
      using assms(2) upt_add_eq_append [of 0 m "DEVICE_COUNT - m"] by simp
    moreover have "filter (\<lambda>i. dev (mtunnels st ! i) \<noteq> 0) [0..<m] = [0..<m]"
      using l assms(1,2) by (auto simp: loading_def mkdev_ok_def intro!: filter_True)
    moreover have "filter (\<lambda>i. dev (mtunnels st ! i) \<noteq> 0) [m..<DEVICE_COUNT] = []"
      using l by (auto simp: loading_def intro!: filter_False)
    ultimately show ?thesis by simp
  qed
  have eq: "?ds = map (dev_res env st) [0..<m]"
    using l assms(2) by (simp add: flt) (auto simp: loading_def dev_res_def)
  have "distinct ?ds" unfolding eq using assms(1,2)
    by (auto simp: distinct_map inj_on_def dev_res_def mkdev_ok_def)
  moreover have "set ?ds \<subseteq> live st" unfolding eq using l by (auto simp: loading_def)
  ultimately have "destroy_existing [0..<DEVICE_COUNT] st = st\<lparr>live := live st - set ?ds\<rparr>"
    unfolding destroy_existing_eq by (rule fold_release)
  moreover have "live st - set ?ds = {ChrdevRegion, DeviceClass}"
    unfolding eq using l by (auto simp: loading_def dev_res_def atLeast0LessThan)
  ultimately have "destroy_existing [0..<DEVICE_COUNT] st = st\<lparr>live := {ChrdevRegion, DeviceClass}\<rparr>" by simp
  then show "live (destroy_devices st) = {}" "\<not> faulty (destroy_devices st)"
    using l by (auto simp: destroy_devices_def unregister_chrdevs_def release_def loading_def)
qed

lemma upt_prefix:
  assumes "[0..<n] = ds @ rest"
  shows "ds = [0..<length ds]" "length ds \<le> n" "rest = [] \<longleftrightarrow> length ds = n"
proof -
  have "n = length ds + length rest" using arg_cong [OF assms, of length] by simp
  then show "length ds \<le> n" "rest = [] \<longleftrightarrow> length ds = n" by auto
  have "ds = take (length ds) [0..<n]" using assms by simp
  then show "ds = [0..<length ds]" using \<open>length ds \<le> n\<close> by (simp add: take_upt)
qed

definition unmapped :: "module \<Rightarrow> bool" where
  "unmapped st \<longleftrightarrow> (\<forall>i<DEVICE_COUNT. control_header (mtunnels st ! i) = NULL \<and> send_buffer (mtunnels st ! i) = NULL
     \<and> receive_buffer (mtunnels st ! i) = NULL)"

lemma create_devices_loading:
  assumes "mkdev_ok env" and "loading env 0 {} st" and "create_devices env [0..<DEVICE_COUNT] st = (r, st')"
  shows "\<exists>m\<le>DEVICE_COUNT. loading env m {} st' \<and> (r = None \<longrightarrow> m = DEVICE_COUNT)"
    and "unmapped st \<Longrightarrow> unmapped st'"
proof -
  obtain ds rest where ds: "[0..<DEVICE_COUNT] = ds @ rest" "r = None \<longleftrightarrow> rest = []" "st' = fold (dev_step env) ds st"
    using create_devices_prefix [OF assms(3)] by blast
  define m where "m = length ds"
  note m = upt_prefix [OF ds(1), folded m_def]
  let ?u = "set_tunnels (\<lambda>i t. t\<lparr>dev := mkdev env (first_device_number st) i\<rparr>) ds st"
  let ?rs = "map (dev_res env st) ds"
  have u: "live st = {ChrdevRegion, DeviceClass}" using assms(2) by (auto simp: loading_def)
  have "distinct ?rs" using assms(1) m by (auto simp: distinct_map inj_on_def dev_res_def mkdev_ok_def)
  then have "fold acquire ?rs ?u = ?u\<lparr>live := live ?u \<union> set ?rs\<rparr>"
    by (rule fold_acquire) (auto simp: u dev_res_def)
  then have st': "st' = ?u\<lparr>live := live ?u \<union> set ?rs\<rparr>" using ds(3) by (simp add: fold_dev_step dev_res_def [abs_def])
  have tun: "mtunnels ?u ! i = (if i \<in> set ds then (mtunnels st ! i)\<lparr>dev := mkdev env (first_device_number st) i\<rparr> else mtunnels st ! i)" for i
    using assms(2) m by (intro set_tunnels_nth) (auto simp: loading_def)
  then show "unmapped st \<Longrightarrow> unmapped st'" by (simp add: st' unmapped_def)
  have sd: "set ds = {..<m}" using m(1) by (metis atLeast0LessThan set_upt)
  have "loading env m {} st'"
    using assms(2) m(2) by (auto simp: st' loading_def dev_res_def tun u sd)
  then show "\<exists>m\<le>DEVICE_COUNT. loading env m {} st' \<and> (r = None \<longrightarrow> m = DEVICE_COUNT)"
    using m ds(2) by blast
qed

lemma add_cdevs_loading:
  assumes l: "loading env DEVICE_COUNT {} st" and r: "add_cdevs env [0..<DEVICE_COUNT] st = (r, st')"
  shows "if r = None then st' = st\<lparr>live := live st \<union> Cdev ` {..<DEVICE_COUNT}\<rparr> else st' = st"
proof -
  have dc: "distinct (map Cdev [0..<m])" for m by (simp add: distinct_map inj_on_def)
  have "set (map Cdev [0..<m]) \<inter> live st = {}" for m using l by (auto simp: loading_def dev_res_def)
  note acq = fold_acquire [OF dc this]
  from add_cdevs_prefix [OF r] consider
    (all) "r = None" "st' = fold acquire (map Cdev [0..<DEVICE_COUNT]) st"
  | (some) m e where "r = Some e" "st' = delete_cdevs (rev [0..<m]) (fold acquire (map Cdev [0..<m]) st)"
    by auto
  then show ?thesis
  proof cases
    case all
    then show ?thesis by (simp add: acq atLeast0LessThan)
  next
    case (some m e)
    let ?s = "st\<lparr>live := live st \<union> set (map Cdev [0..<m])\<rparr>"
    have "st' = fold release (map Cdev (rev [0..<m])) ?s" using some by (simp only: acq delete_cdevs_eq)
    also have "\<dots> = ?s\<lparr>live := live ?s - set (map Cdev (rev [0..<m]))\<rparr>"
      by (rule fold_release) (auto simp: distinct_map inj_on_def)
    also have "\<dots> = st" using \<open>set (map Cdev [0..<m]) \<inter> live st = {}\<close> by (cases st) auto
    finally show ?thesis using some by simp
  qed
qed

lemma mapped_tunnel_sel [simp]:
  "kconfig (mapped_tunnel cached env i t) = kconfig t" "dev (mapped_tunnel cached env i t) = dev t"
  "is_open (mapped_tunnel cached env i t) = is_open t" "mapped_as cached env i (mapped_tunnel cached env i t)"
  by (simp_all add: mapped_tunnel_def mapped_as_def cfg_maps_def Let_def)

lemma map_tunnels_loading:
  assumes l: "loading env DEVICE_COUNT (Cdev ` {..<DEVICE_COUNT}) st"
    and m: "map_tunnels cached env [0..<DEVICE_COUNT] st = (ok, st')"
  shows "\<exists>k\<le>DEVICE_COUNT. (ok \<longrightarrow> k = DEVICE_COUNT)
    \<and> loading env DEVICE_COUNT (Cdev ` {..<DEVICE_COUNT} \<union> set (concat (map (tunnel_maps cached env) [0..<k]))) st'
    \<and> (\<forall>i<DEVICE_COUNT. mtunnels st' ! i = (if i < k then mapped_tunnel cached env i (mtunnels st ! i) else mtunnels st ! i))"
proof -
  obtain ds rest where ds: "[0..<DEVICE_COUNT] = ds @ rest" "ok \<longrightarrow> rest = []" "st' = fold (map_tunnel cached env) ds st"
    using map_tunnels_prefix [OF m] by blast
  define k where "k = length ds"
  note k = upt_prefix [OF ds(1), folded k_def]
  let ?u = "set_tunnels (mapped_tunnel cached env) ds st" and ?rs = "concat (map (tunnel_maps cached env) ds)"
  have len: "\<forall>i\<in>set ds. i < length (mtunnels st)" using l k by (auto simp: loading_def)
  have "distinct ?rs" using tunnel_maps_distinct [of cached env] ds(1) by simp
  moreover have "set ?rs \<inter> live st = {}" using l by (auto simp: loading_def tunnel_maps_def dev_res_def)
  ultimately have "fold acquire ?rs ?u = ?u\<lparr>live := live ?u \<union> set ?rs\<rparr>" by (intro fold_acquire) simp_all
  then have st': "st' = ?u\<lparr>live := live ?u \<union> set ?rs\<rparr>" using ds(3) fold_map_tunnel [OF len] by simp
  have tun: "mtunnels ?u ! i = (if i \<in> set ds then mapped_tunnel cached env i (mtunnels st ! i) else mtunnels st ! i)" for i
    using len k by (intro set_tunnels_nth) (metis distinct_upt, auto)
  have "loading env DEVICE_COUNT (Cdev ` {..<DEVICE_COUNT} \<union> set ?rs) st'"
    using l by (auto simp: st' loading_def tun dev_res_def)
  moreover have "i \<in> set ds \<longleftrightarrow> i < k" for i using k(1) by (metis atLeastLessThan_iff le0 set_upt)
  ultimately show ?thesis using k ds(2) tun by (intro exI [of _ k]) (auto simp: st')
qed

lemma all_maps_loading:
  assumes "loading env m (Cdev ` {..<DEVICE_COUNT} \<union> set (concat (map (tunnel_maps cached env) [0..<k]))) st"
    and "k \<le> DEVICE_COUNT"
  shows "maps_ok cached (live st)"
proof -
  have "set (concat (map (tunnel_maps cached env) [0..<k])) \<subseteq> set (all_maps cached)"
  proof
    fix r assume "r \<in> set (concat (map (tunnel_maps cached env) [0..<k]))"
    then obtain i where "i < k" "r \<in> set (tunnel_maps cached env i)" by auto
    then show "r \<in> set (all_maps cached)" using assms(2) tunnel_maps_subset [of i cached env] by auto
  qed
  then show ?thesis using assms(1) unfolding maps_ok_def loading_def dev_res_def by auto
qed

lemma unmap_tunnels_append: "unmap_tunnels (is @ js) st = unmap_tunnels js (unmap_tunnels is st)"
  by (induction "is" arbitrary: st) (simp_all add: Let_def)

lemma unmap_tunnels_null:
  assumes "\<forall>i\<in>set is. control_header (mtunnels st ! i) = NULL \<and> send_buffer (mtunnels st ! i) = NULL
     \<and> receive_buffer (mtunnels st ! i) = NULL"
  shows "unmap_tunnels is st = st"
  using assms by (induction "is" arbitrary: st) (simp_all add: unmap_ptr_def)

lemma unmap_memory_clean:
  assumes "mkdev_ok env" and "k \<le> DEVICE_COUNT" and u: "unmapped st0"
    and l: "loading env DEVICE_COUNT (Cdev ` {..<DEVICE_COUNT} \<union> set (concat (map (tunnel_maps cached env) [0..<k]))) st"
    and t: "\<forall>i<DEVICE_COUNT. mtunnels st ! i = (if i < k then mapped_tunnel cached env i (mtunnels st0 ! i) else mtunnels st0 ! i)"
  shows "live (unmap_memory st) = {}" and "\<not> faulty (unmap_memory st)"
proof -
  let ?M = "concat (map (tunnel_maps cached env) [0..<k])" and ?C = "map Cdev [0..<DEVICE_COUNT]"
  have split: "[0..<DEVICE_COUNT] = [0..<k] @ [k..<DEVICE_COUNT]"
    using assms(2) upt_add_eq_append [of 0 k "DEVICE_COUNT - k"] by simp
  have dM: "distinct ?M" using tunnel_maps_distinct [of cached env] unfolding split by simp
  have sM: "set ?M \<subseteq> live st" using l by (auto simp: loading_def)
  have "unmap_tunnels [0..<k] st = fold release ?M st"
    using all_maps_loading [OF l assms(2)] dM sM t assms(2) by (intro unmap_tunnels_eq) auto
  then have e1: "unmap_tunnels [0..<k] st = st\<lparr>live := live st - set ?M\<rparr>" using fold_release [OF dM sM] by simp
  have "unmap_tunnels [0..<DEVICE_COUNT] st = st\<lparr>live := live st - set ?M\<rparr>"
    unfolding split unmap_tunnels_append e1
    using t u by (intro unmap_tunnels_null) (auto simp: unmapped_def)
  moreover have "delete_cdevs [0..<DEVICE_COUNT] (st\<lparr>live := live st - set ?M\<rparr>) =
      st\<lparr>live := live st - set ?M - set ?C\<rparr>"
  proof -
    have "set ?C \<subseteq> live (st\<lparr>live := live st - set ?M\<rparr>)" using l by (auto simp: loading_def tunnel_maps_def)
    from fold_release [OF _ this] show ?thesis by (simp add: delete_cdevs_eq distinct_map inj_on_def)
  qed
  ultimately have "unmap_memory st = destroy_devices (st\<lparr>live := live st - set ?M - set ?C\<rparr>)"
    by (simp add: unmap_memory_def)
  moreover have "loading env DEVICE_COUNT {} (st\<lparr>live := live st - set ?M - set ?C\<rparr>)"
    using l by (auto simp: loading_def tunnel_maps_def dev_res_def)
  ultimately show "live (unmap_memory st) = {}" "\<not> faulty (unmap_memory st)"
    using destroy_devices_clean [OF assms(1) order_refl] by metis+
qed

lemma start_loading:
  assumes "fresh_module st"
    and "st' = acquire DeviceClass (acquire ChrdevRegion ((reset_tunnels [0..<DEVICE_COUNT] st)\<lparr>first_device_number := f\<rparr>))"
  shows "loading env 0 {} st'" and "unmapped st'"
proof -
  have len: "length (mtunnels st) = DEVICE_COUNT" and e: "live st = {}" "\<not> faulty st"
    using assms(1) by (auto simp: fresh_module_def)
  have nth: "mtunnels st' ! i = (mtunnels st ! i)\<lparr>dev := 0, kconfig := tunnel_configs ! i, is_open := False,
       control_header := NULL, send_buffer := NULL, receive_buffer := NULL,
       send_packet_size := 0, receive_packet_size := 0\<rparr>" if "i < DEVICE_COUNT" for i
    using that len by (simp add: assms(2) reset_tunnels_eq set_tunnels_nth)
  have "length (mtunnels st') = DEVICE_COUNT" "live st' = {ChrdevRegion, DeviceClass}" "\<not> faulty st'"
    using e len by (auto simp: assms(2) acquire_def reset_tunnels_eq)
  then show "loading env 0 {} st'" "unmapped st'"
    using nth by (simp_all add: loading_def unmapped_def insert_commute)
qed

lemma added_cdevs_loading:
  assumes "loading env DEVICE_COUNT {} s1" and "unmapped s1" and "add_cdevs env [0..<DEVICE_COUNT] s1 = (None, s2)"
  shows "loading env DEVICE_COUNT (Cdev ` {..<DEVICE_COUNT}) s2" and "unmapped s2"
proof -
  have "s2 = s1\<lparr>live := live s1 \<union> Cdev ` {..<DEVICE_COUNT}\<rparr>"
    using add_cdevs_loading [OF assms(1,3)] by simp
  then show "loading env DEVICE_COUNT (Cdev ` {..<DEVICE_COUNT}) s2" "unmapped s2"
    using assms(1,2) by (auto simp: loading_def dev_res_def unmapped_def)
qed

lemma map_tunnels_failed:
  assumes "mkdev_ok env" and "loading env DEVICE_COUNT (Cdev ` {..<DEVICE_COUNT}) st" and "unmapped st"
    and "map_tunnels cached env [0..<DEVICE_COUNT] st = (ok, st')"
  shows "live (unmap_memory st') = {}" and "\<not> faulty (unmap_memory st')"
  using map_tunnels_loading [OF assms(2,4)] unmap_memory_clean [OF assms(1) _ assms(3)] by blast+

lemma ipc_tunnel_init_cases:
  assumes "fresh_module st" and "mkdev_ok env" and "ipc_tunnel_init cached env st = (r, st')"
  shows "(case r of Inl e \<Rightarrow> live st' = {} \<and> \<not> faulty st'
    | Inr _ \<Rightarrow> \<exists>st0 st1. unmapped st0 \<and> st' = install_handlers [0..<DEVICE_COUNT] st1
        \<and> map_tunnels cached env [0..<DEVICE_COUNT] st0 = (True, st1)
        \<and> loading env DEVICE_COUNT (Cdev ` {..<DEVICE_COUNT}) st0)"
proof (cases "alloc_chrdev_region_ret env")
  case (Inl e)
  then show ?thesis using assms(1,3)
    by (auto simp: ipc_tunnel_init_def Let_def reset_tunnels_eq fresh_module_def)
next
  case (Inr f)
  let ?a = "acquire ChrdevRegion ((reset_tunnels [0..<DEVICE_COUNT] st)\<lparr>first_device_number := f\<rparr>)"
  let ?s = "acquire DeviceClass ?a"
  have init: "loading env 0 {} ?s" "unmapped ?s" using start_loading [OF assms(1) refl] by blast+
  have a: "live ?a = {ChrdevRegion}" "\<not> faulty ?a"
    using assms(1) by (simp_all add: acquire_def reset_tunnels_eq fresh_module_def)
  obtain r1 s1 where c: "create_devices env [0..<DEVICE_COUNT] ?s = (r1, s1)" by fastforce
  obtain m where m: "m \<le> DEVICE_COUNT" "loading env m {} s1" "r1 = None \<longrightarrow> m = DEVICE_COUNT"
    using create_devices_loading(1) [OF assms(2) init(1) c] by blast
  have u1: "unmapped s1" using create_devices_loading(2) [OF assms(2) init(1) c] init(2) .
  obtain r2 s2 where d: "add_cdevs env [0..<DEVICE_COUNT] s1 = (r2, s2)" by fastforce
  obtain ok s3 where k: "map_tunnels cached env [0..<DEVICE_COUNT] s2 = (ok, s3)" by fastforce
  note run = assms(3) [unfolded ipc_tunnel_init_def Let_def Inr, simplified, unfolded c, simplified]
  consider (cls) e where "class_create_err env = Some e" | (dev) e where "class_create_err env = None" "r1 = Some e"
    | (cdev) e where "class_create_err env = None" "r1 = None" "r2 = Some e"
    | (map) "class_create_err env = None" "r1 = None" "r2 = None"
    by (cases "class_create_err env"; cases r1; cases r2) auto
  then show ?thesis
  proof cases
    case cls
    then have "r = Inl (KernelError e)" "st' = unregister_chrdevs ?a" using run by simp_all
    then show ?thesis using a by (simp add: unregister_chrdevs_def release_def)
  next
    case dev
    then have "r = Inl (KernelError e)" "st' = destroy_devices s1" using run by simp_all
    then show ?thesis using destroy_devices_clean [OF assms(2) m(1,2)] by simp
  next
    case cdev
    then have "loading env DEVICE_COUNT {} s1" "s2 = s1"
      using m add_cdevs_loading [OF _ d] by auto
    moreover have "r = Inl (KernelError e)" "st' = destroy_devices s2" using run cdev d by simp_all
    ultimately show ?thesis using destroy_devices_clean [OF assms(2) order_refl, of s1] by simp
  next
    case map
    then have "loading env DEVICE_COUNT {} s1" using m by simp
    note l2 = added_cdevs_loading [OF this u1 d [unfolded map]]
    note n = map_tunnels_failed [OF assms(2) l2 k]
    show ?thesis
    proof (cases ok)
      case True
      then have "r = Inr ()" "st' = install_handlers [0..<DEVICE_COUNT] s3" using run map d k by simp_all
      then show ?thesis using True l2 k by auto
    next
      case False
      then have "r = Inl ENOMEM" "st' = unmap_memory s3" using run map d k by simp_all
      then show ?thesis using n by simp
    qed
  qed
qed

lemma map_tunnels_True:
  assumes "map_tunnels cached env is st = (True, st')" and "\<forall>i\<in>set is. i < length (mtunnels st)"
  shows "\<forall>i\<in>set is. \<forall>(a, n)\<in>set (cfg_maps cached i). remap_ok env a"
  using assms
proof (induction "is" arbitrary: st)
  case (Cons i "is")
  let ?st = "map_tunnel cached env i st"
  have st: "mtunnels ?st = (mtunnels st)[i := mapped_tunnel cached env i (mtunnels st ! i)]"
    using Cons.prems(2) by (simp add: map_tunnel_eq)
  then have "mtunnels ?st ! i = mapped_tunnel cached env i (mtunnels st ! i)" using Cons.prems(2) by simp
  then have run: "map_tunnels cached env is ?st = (True, st')"
    and nz: "control_header (mapped_tunnel cached env i (mtunnels st ! i)) \<noteq> NULL"
      "send_buffer (mapped_tunnel cached env i (mtunnels st ! i)) \<noteq> NULL"
      "receive_buffer (mapped_tunnel cached env i (mtunnels st ! i)) \<noteq> NULL"
    using Cons.prems(1) by (auto simp: Let_def split: if_splits)
  have "\<forall>(a, n)\<in>set (cfg_maps cached i). remap_ok env a"
    using nz by (auto simp: mapped_tunnel_def cfg_maps_def mapped_ptr_def Let_def split: if_splits)
  then show ?case using Cons.IH [OF run] Cons.prems(2) st by simp
qed simp

lemma tunnel_maps_all:
  "\<forall>(a, n)\<in>set (cfg_maps cached i). remap_ok env a \<Longrightarrow>
   tunnel_maps cached env i = map (\<lambda>(a, n). Mapping (unat a) n) (cfg_maps cached i)"
  by (simp add: tunnel_maps_def filter_True)

text \<open>The fields of an instance that the data path uses, as loading leaves them.\<close>

definition instance_of :: "bool \<Rightarrow> nat \<Rightarrow> TunnelInstance \<Rightarrow> bool" where
  "instance_of cached i t \<longleftrightarrow> (let c = tunnel_configs ! i in
     kconfig t = c \<and> control_header t = unat (control_header_address c)
     \<and> send_buffer t = unat (send_buffer_address c) \<and> receive_buffer t = unat (receive_buffer_address c)
     \<and> send_packet_size t = aligned_size cached (send_max_packet_size c)
     \<and> receive_packet_size t = aligned_size cached (receive_max_packet_size c))"

definition loaded_resources :: "bool \<Rightarrow> module \<Rightarrow> resource set" where
  "loaded_resources cached st = {ChrdevRegion, DeviceClass} \<union> set (map (\<lambda>t. Device (dev t)) (mtunnels st))
     \<union> Cdev ` {..<DEVICE_COUNT} \<union> set (all_maps cached) \<union> handler_res ` {..<DEVICE_COUNT}"

lemma handlers_distinct: "distinct (map handler_res [0..<DEVICE_COUNT])"
  by (simp add: handler_res_def tunnel_configs_def DEVICE_COUNT_def upt_rec)

lemma ipc_tunnel_init_loaded:
  assumes "fresh_module st" and "mkdev_ok env" and "ipc_tunnel_init cached env st = (Inr u, st')"
  shows "\<not> faulty st'" and "length (mtunnels st') = DEVICE_COUNT" and "live st' = loaded_resources cached st'"
    and "\<forall>i<DEVICE_COUNT. instance_of cached i (mtunnels st' ! i) \<and> \<not> is_open (mtunnels st' ! i)
       \<and> dev (mtunnels st' ! i) = mkdev env (first_device_number st') i"
    and "\<forall>i<DEVICE_COUNT. mapped_as cached env i (mtunnels st' ! i) \<and> (\<forall>(a, n)\<in>set (cfg_maps cached i). remap_ok env a)"
proof -
  obtain st0 st1 where st': "st' = install_handlers [0..<DEVICE_COUNT] st1"
    and m: "map_tunnels cached env [0..<DEVICE_COUNT] st0 = (True, st1)"
    and l0: "loading env DEVICE_COUNT (Cdev ` {..<DEVICE_COUNT}) st0"
    using ipc_tunnel_init_cases [OF assms] by auto
  note ok = map_tunnels_True [OF m]
  have ok: "\<forall>i<DEVICE_COUNT. \<forall>(a, n)\<in>set (cfg_maps cached i). remap_ok env a"
    using ok l0 by (auto simp: loading_def)
  let ?M = "set (concat (map (tunnel_maps cached env) [0..<DEVICE_COUNT]))"
  have "?M = set (all_maps cached)" using ok by (simp add: all_maps_def tunnel_maps_all)
  then have l1: "loading env DEVICE_COUNT (Cdev ` {..<DEVICE_COUNT} \<union> set (all_maps cached)) st1"
    and t1: "\<forall>i<DEVICE_COUNT. mtunnels st1 ! i = mapped_tunnel cached env i (mtunnels st0 ! i)"
    using map_tunnels_loading [OF l0 m] by auto
  have "set (map handler_res [0..<DEVICE_COUNT]) \<inter> live st1 = {}"
    using l1 by (auto simp: loading_def handler_res_def dev_res_def all_maps_def)
  then have eq: "st' = st1\<lparr>live := live st1 \<union> handler_res ` {..<DEVICE_COUNT}\<rparr>"
    using fold_acquire [OF handlers_distinct, of st1] by (simp add: st' install_handlers_eq atLeast0LessThan)
  have len: "length (mtunnels st1) = DEVICE_COUNT" using l1 by (simp add: loading_def)
  show "\<not> faulty st'" "length (mtunnels st') = DEVICE_COUNT" using l1 by (auto simp: eq loading_def)
  have "map (\<lambda>t. Device (dev t)) (mtunnels st1) = map (dev_res env st1) [0..<DEVICE_COUNT]"
    using l1 len by (intro nth_equalityI) (auto simp: loading_def dev_res_def)
  then have "set (map (\<lambda>t. Device (dev t)) (mtunnels st1)) = dev_res env st1 ` {..<DEVICE_COUNT}"
    by (simp only: set_map set_upt atLeast0LessThan)
  then show "live st' = loaded_resources cached st'" using l1 by (auto simp: eq loading_def loaded_resources_def)
  have ptr: "mapped_ptr env a = unat a" if "i < DEVICE_COUNT" "(a, n) \<in> set (cfg_maps cached i)" for i a n
    using ok that by (auto simp: mapped_ptr_def)
  show "\<forall>i<DEVICE_COUNT. instance_of cached i (mtunnels st' ! i) \<and> \<not> is_open (mtunnels st' ! i)
       \<and> dev (mtunnels st' ! i) = mkdev env (first_device_number st') i"
  proof (intro allI impI)
    fix i assume i: "i < DEVICE_COUNT"
    have "kconfig (mtunnels st1 ! i) = tunnel_configs ! i" using l1 i by (simp add: loading_def)
    moreover have p: "mapped_ptr env (control_header_address (tunnel_configs ! i)) = unat (control_header_address (tunnel_configs ! i))"
      "mapped_ptr env (send_buffer_address (tunnel_configs ! i)) = unat (send_buffer_address (tunnel_configs ! i))"
      "mapped_ptr env (receive_buffer_address (tunnel_configs ! i)) = unat (receive_buffer_address (tunnel_configs ! i))"
      by (rule ptr [OF i]; force simp: cfg_maps_def Let_def)+
    ultimately have "instance_of cached i (mtunnels st1 ! i)"
      using t1 i p by (simp add: instance_of_def mapped_tunnel_def Let_def)
    then show "instance_of cached i (mtunnels st' ! i) \<and> \<not> is_open (mtunnels st' ! i)
       \<and> dev (mtunnels st' ! i) = mkdev env (first_device_number st') i"
      using l1 i by (simp add: eq loading_def)
  qed
  show "\<forall>i<DEVICE_COUNT. mapped_as cached env i (mtunnels st' ! i) \<and> (\<forall>(a, n)\<in>set (cfg_maps cached i). remap_ok env a)"
    using t1 ok by (simp add: eq)
qed

section \<open>Unloading as a whole\<close>

lemma distinct_concat_map:
  assumes "distinct is" and "\<forall>i\<in>set is. distinct (f i)"
    and "\<forall>i\<in>set is. \<forall>j\<in>set is. i \<noteq> j \<longrightarrow> set (f i) \<inter> set (f j) = {}"
  shows "distinct (concat (map f is))"
  using assms by (induction "is") auto

lemma distinct_concat_disjoint:
  assumes "distinct (concat (map f is))" and "i \<in> set is"
  shows "j \<in> set is \<Longrightarrow> i \<noteq> j \<Longrightarrow> set (f i) \<inter> set (f j) = {}" and "distinct (f i)"
  using assms by (induction "is") auto

lemma exit_res_distinct:
  assumes "\<forall>i<DEVICE_COUNT. \<forall>j<DEVICE_COUNT. dev (ts ! i) = dev (ts ! j) \<longrightarrow> i = j"
  shows "distinct (concat (map (exit_res cached env ts) [0..<DEVICE_COUNT]))"
proof (rule distinct_concat_map)
  note maps = distinct_concat_disjoint [OF tunnel_maps_distinct [of cached env]]
  have h: "handler_res i = handler_res j \<Longrightarrow> i = j" if "i < DEVICE_COUNT" "j < DEVICE_COUNT" for i j
    using handlers_distinct that by (auto simp: distinct_map inj_on_def)
  show "\<forall>i\<in>set [0..<DEVICE_COUNT]. distinct (exit_res cached env ts i)"
  proof
    fix i assume i: "i \<in> set [0..<DEVICE_COUNT]"
    show "distinct (exit_res cached env ts i)"
      using maps(2) [OF i] by (auto simp: exit_res_def handler_res_def tunnel_maps_def)
  qed
  show "\<forall>i\<in>set [0..<DEVICE_COUNT]. \<forall>j\<in>set [0..<DEVICE_COUNT]. i \<noteq> j \<longrightarrow>
      set (exit_res cached env ts i) \<inter> set (exit_res cached env ts j) = {}"
  proof (intro ballI impI)
    fix i j assume ij: "i \<in> set [0..<DEVICE_COUNT]" "j \<in> set [0..<DEVICE_COUNT]" "i \<noteq> j"
    then have "handler_res i \<noteq> handler_res j" "dev (ts ! i) \<noteq> dev (ts ! j)" using h assms by auto
    moreover have "handler_res a \<notin> set (tunnel_maps cached env b)" "handler_res a \<noteq> Cdev c" "handler_res a \<noteq> Device d" for a b c d
      by (auto simp: handler_res_def tunnel_maps_def)
    moreover have "Cdev c \<notin> set (tunnel_maps cached env b)" "Device d \<notin> set (tunnel_maps cached env b)" for b c d
      by (auto simp: tunnel_maps_def)
    moreover note maps(1) [OF ij]
    ultimately show "set (exit_res cached env ts i) \<inter> set (exit_res cached env ts j) = {}"
      using ij(3) by (auto simp: exit_res_def)
  qed
qed simp

lemma ipc_tunnel_exit_clean:
  assumes "fresh_module st" and "mkdev_ok env" and "ipc_tunnel_init cached env st = (Inr u, st')"
  shows "live (ipc_tunnel_exit st') = {}" and "\<not> faulty (ipc_tunnel_exit st')"
proof -
  note L = ipc_tunnel_init_loaded [OF assms]
  let ?R = "concat (map (exit_res cached env (mtunnels st')) [0..<DEVICE_COUNT])"
  have "\<forall>i<DEVICE_COUNT. \<forall>j<DEVICE_COUNT. dev (mtunnels st' ! i) = dev (mtunnels st' ! j) \<longrightarrow> i = j"
    using L(4) assms(2) by (auto simp: mkdev_ok_def)
  note d = exit_res_distinct [OF this, of cached env]
  have maps: "concat (map (tunnel_maps cached env) [0..<DEVICE_COUNT]) = all_maps cached"
    using L(5) by (auto simp: all_maps_def tunnel_maps_all intro!: arg_cong [where f = concat])
  have set_R: "set ?R = live st' - {ChrdevRegion, DeviceClass}"
  proof -
    have "set ?R = handler_res ` {..<DEVICE_COUNT} \<union> set (concat (map (tunnel_maps cached env) [0..<DEVICE_COUNT]))
       \<union> Cdev ` {..<DEVICE_COUNT} \<union> (\<lambda>i. Device (dev (mtunnels st' ! i))) ` {..<DEVICE_COUNT}"
      by (auto simp: exit_res_def)
    moreover have "(\<lambda>i. Device (dev (mtunnels st' ! i))) ` {..<DEVICE_COUNT} = set (map (\<lambda>t. Device (dev t)) (mtunnels st'))"
    proof -
      have "map (\<lambda>t. Device (dev t)) (mtunnels st') = map (\<lambda>i. Device (dev (mtunnels st' ! i))) [0..<DEVICE_COUNT]"
        using L(2) by (intro nth_equalityI) auto
      then show ?thesis by (simp only: set_map set_upt atLeast0LessThan)
    qed
    ultimately show ?thesis unfolding L(3) maps loaded_resources_def
      by (auto simp: handler_res_def all_maps_def)
  qed
  have "exit_tunnels [0..<DEVICE_COUNT] st' = fold release ?R st'"
  proof (rule exit_tunnels_eq)
    show "maps_ok cached (live st')" unfolding L(3) by (auto simp: maps_ok_def loaded_resources_def handler_res_def)
  qed (use L(5) d set_R in auto)
  also have "\<dots> = st'\<lparr>live := live st' - set ?R\<rparr>" using d set_R by (intro fold_release) auto
  finally have "exit_tunnels [0..<DEVICE_COUNT] st' = st'\<lparr>live := live st' - (live st' - {ChrdevRegion, DeviceClass})\<rparr>"
    unfolding set_R .
  moreover have "live st' - (live st' - {ChrdevRegion, DeviceClass}) = {ChrdevRegion, DeviceClass}"
    unfolding L(3) by (auto simp: loaded_resources_def)
  ultimately have "exit_tunnels [0..<DEVICE_COUNT] st' = st'\<lparr>live := {ChrdevRegion, DeviceClass}\<rparr>" by simp
  then show "live (ipc_tunnel_exit st') = {}" "\<not> faulty (ipc_tunnel_exit st')"
    using L(1) by (auto simp: ipc_tunnel_exit_def release_def)
qed

section \<open>When loading succeeds\<close>

lemma map_tunnels_iff:
  assumes "\<forall>i\<in>set is. i < DEVICE_COUNT" and "length (mtunnels st) = DEVICE_COUNT"
  shows "fst (map_tunnels cached env is st) \<longleftrightarrow> (\<forall>i\<in>set is. \<forall>(a, n)\<in>set (cfg_maps cached i). remap_ok env a)"
  using assms
proof (induction "is" arbitrary: st)
  case (Cons i "is")
  let ?st = "map_tunnel cached env i st" and ?c = "tunnel_configs ! i"
  have st: "mtunnels ?st = (mtunnels st)[i := mapped_tunnel cached env i (mtunnels st ! i)]"
    using Cons.prems by (simp add: map_tunnel_eq)
  then have t: "mtunnels ?st ! i = mapped_tunnel cached env i (mtunnels st ! i)" using Cons.prems by simp
  have nz: "mapped_ptr env a = NULL \<longleftrightarrow> \<not> remap_ok env a" if "(a, n) \<in> set (cfg_maps cached i)" for a n
    using tunnel_addr_nonnull [OF _ that] Cons.prems(1) by (auto simp: mapped_ptr_def)
  have "(control_header (mtunnels ?st ! i) = NULL \<or> send_buffer (mtunnels ?st ! i) = NULL \<or> receive_buffer (mtunnels ?st ! i) = NULL)
      \<longleftrightarrow> (\<exists>(a, n)\<in>set (cfg_maps cached i). mapped_ptr env a = NULL)"
    by (simp add: t) (auto simp: mapped_tunnel_def cfg_maps_def Let_def)
  also have "\<dots> \<longleftrightarrow> \<not> (\<forall>(a, n)\<in>set (cfg_maps cached i). remap_ok env a)" using nz by fastforce
  finally show ?case using Cons.IH [of ?st] Cons.prems st by (simp add: Let_def)
qed simp

lemma create_devices_ok:
  "\<forall>i\<in>set is. device_create_err env i = None \<Longrightarrow> fst (create_devices env is st) = None"
  by (induction "is" arbitrary: st) (simp_all add: Let_def)

lemma add_cdevs_ok: "\<forall>i\<in>set is. 0 \<le> cdev_add_ret env i \<Longrightarrow> add_cdevs env is st = (None, fold acquire (map Cdev is) st)"
  by (induction "is" arbitrary: st) simp_all

lemma ipc_tunnel_init_result:
  assumes "fresh_module st" and "alloc_chrdev_region_ret env = Inr first" and "class_create_err env = None"
    and "\<forall>i<DEVICE_COUNT. device_create_err env i = None" and "\<forall>i<DEVICE_COUNT. 0 \<le> cdev_add_ret env i"
  shows "fst (ipc_tunnel_init cached env st) =
    (if \<forall>i<DEVICE_COUNT. \<forall>(a, n)\<in>set (cfg_maps cached i). remap_ok env a then Inr () else Inl ENOMEM)"
proof -
  let ?s = "acquire DeviceClass (acquire ChrdevRegion ((reset_tunnels [0..<DEVICE_COUNT] st)\<lparr>first_device_number := first\<rparr>))"
  obtain s1 where c: "create_devices env [0..<DEVICE_COUNT] ?s = (None, s1)"
    using create_devices_ok [of "[0..<DEVICE_COUNT]" env ?s] assms(4) by (metis atLeastLessThan_iff prod.collapse set_upt)
  have d: "add_cdevs env [0..<DEVICE_COUNT] s1 = (None, fold acquire (map Cdev [0..<DEVICE_COUNT]) s1)"
    using assms(5) by (intro add_cdevs_ok) simp
  obtain ds where ds: "s1 = fold (dev_step env) ds ?s" using create_devices_prefix [OF c] by blast
  have "length (mtunnels s1) = DEVICE_COUNT"
    using assms(1) by (simp add: ds fold_dev_step reset_tunnels_eq fresh_module_def)
  then have m: "fst (map_tunnels cached env [0..<DEVICE_COUNT] (fold acquire (map Cdev [0..<DEVICE_COUNT]) s1)) \<longleftrightarrow>
      (\<forall>i<DEVICE_COUNT. \<forall>(a, n)\<in>set (cfg_maps cached i). remap_ok env a)"
    by (subst map_tunnels_iff) auto
  show ?thesis
    unfolding m [symmetric] by (simp add: ipc_tunnel_init_def assms(2,3) Let_def c d case_prod_beta)
qed

end
