(* ===== verification/Channel_Spec.thy ===== *)
theory Channel_Spec
  imports Prelude
begin

text \<open>
  The contract of a packet channel, the interface between the transports (both directions of
  an IPC tunnel, the packet buffer of the OpenAMP variant) and the code that sends and receives
  packets over them. A provider has a state with an abstract queue \<open>contents\<close>: a send of an
  admissible packet succeeds exactly when the queue is below its capacity and then appends the
  packet; a receive returns and removes the oldest packet, or reports that there is none. The
  locale proves once what every client relies on: over any sequence of operations no packet is
  lost, duplicated, invented or reordered.
\<close>

datatype 'p chan_op = Send 'p | Recv

fun channel_run ::
  "('p \<Rightarrow> 's \<Rightarrow> bool \<times> 's) \<Rightarrow> ('s \<Rightarrow> 'p option \<times> 's) \<Rightarrow> 'p chan_op list \<Rightarrow> 's \<Rightarrow> 'p list \<times> 'p list \<times> 's"
where
  "channel_run send recv [] s = ([], [], s)"
| "channel_run send recv (Send p # ops) s =
     (let (ok, s1) = send p s; (accepted, received, s2) = channel_run send recv ops s1
      in ((if ok then p # accepted else accepted), received, s2))"
| "channel_run send recv (Recv # ops) s =
     (let (x, s1) = recv s; (accepted, received, s2) = channel_run send recv ops s1
      in (accepted, (case x of None \<Rightarrow> received | Some p \<Rightarrow> p # received), s2))"

fun sent_packets :: "'p chan_op list \<Rightarrow> 'p list" where
  "sent_packets [] = []"
| "sent_packets (Send p # ops) = p # sent_packets ops"
| "sent_packets (Recv # ops) = sent_packets ops"

locale bounded_channel =
  fixes invar :: "'s \<Rightarrow> bool"
    and contents :: "'s \<Rightarrow> 'p list"
    and capacity :: nat
    and admissible :: "'p \<Rightarrow> bool"
    and send :: "'p \<Rightarrow> 's \<Rightarrow> bool \<times> 's"
    and recv :: "'s \<Rightarrow> 'p option \<times> 's"
  assumes send_ok: "invar s \<Longrightarrow> admissible p \<Longrightarrow> length (contents s) < capacity \<Longrightarrow>
      \<exists>s'. send p s = (True, s') \<and> invar s' \<and> contents s' = contents s @ [p]"
    and send_full: "invar s \<Longrightarrow> admissible p \<Longrightarrow> \<not> length (contents s) < capacity \<Longrightarrow>
      send p s = (False, s)"
    and recv_ok: "invar s \<Longrightarrow> contents s = p # ps \<Longrightarrow>
      \<exists>s'. recv s = (Some p, s') \<and> invar s' \<and> contents s' = ps"
    and recv_empty: "invar s \<Longrightarrow> contents s = [] \<Longrightarrow> recv s = (None, s)"
    and within_capacity: "invar s \<Longrightarrow> length (contents s) \<le> capacity"
begin

lemma run_fifo:
  assumes "invar s" and "list_all admissible (sent_packets ops)"
    and "channel_run send recv ops s = (accepted, received, s')"
  shows "invar s' \<and> contents s @ accepted = received @ contents s'"
  using assms
proof (induction ops arbitrary: s accepted received)
  case Nil
  then show ?case by simp
next
  case (Cons op ops)
  show ?case
  proof (cases op)
    case (Send p)
    obtain ok s1 where s1: "send p s = (ok, s1)" by fastforce
    obtain a r where run: "channel_run send recv ops s1 = (a, r, s')"
      and acc: "accepted = (if ok then p # a else a)" "received = r"
      using Cons.prems(3) Send s1 by (auto split: prod.splits)
    have adm: "admissible p" "list_all admissible (sent_packets ops)"
      using Cons.prems(2) Send by auto
    have "invar s1 \<and> contents s1 = contents s @ (if ok then [p] else [])"
      using send_ok [OF Cons.prems(1) adm(1)] send_full [OF Cons.prems(1) adm(1)] s1 Cons.prems(1)
      by (cases "length (contents s) < capacity") auto
    then show ?thesis using Cons.IH [OF _ adm(2) run] acc by (auto split: if_splits)
  next
    case Recv
    obtain x s1 where s1: "recv s = (x, s1)" by fastforce
    obtain a r where run: "channel_run send recv ops s1 = (a, r, s')"
      and acc: "accepted = a" "received = (case x of None \<Rightarrow> r | Some p \<Rightarrow> p # r)"
      using Cons.prems(3) Recv s1 by (auto split: prod.splits)
    have adm: "list_all admissible (sent_packets ops)" using Cons.prems(2) Recv by simp
    have "invar s1 \<and> contents s = (case x of None \<Rightarrow> contents s1 | Some p \<Rightarrow> p # contents s1)"
      using recv_ok [OF Cons.prems(1)] recv_empty [OF Cons.prems(1)] s1 Cons.prems(1)
      by (cases "contents s") fastforce+
    then show ?thesis using Cons.IH [OF _ adm run] acc by (auto split: option.splits)
  qed
qed

lemma run_conservation:
  assumes "invar s" and "list_all admissible (sent_packets ops)"
    and "channel_run send recv ops s = (accepted, received, s')"
  shows "length (contents s') \<le> capacity \<and>
    length received \<le> length (contents s) + length accepted \<and>
    length accepted \<le> length received + capacity"
proof -
  have inv: "invar s'" and eq: "contents s @ accepted = received @ contents s'"
    using run_fifo [OF assms] by auto
  from eq have "length (contents s) + length accepted = length received + length (contents s')"
    by (metis length_append)
  then show ?thesis using within_capacity [OF inv] by simp
qed

lemma run_drain:
  assumes "invar s" and "length (contents s) \<le> n"
  shows "\<exists>s'. channel_run send recv (replicate n Recv) s = ([], contents s, s') \<and> contents s' = [] \<and> invar s'"
  using assms
proof (induction n arbitrary: s)
  case 0
  then show ?case by simp
next
  case (Suc n)
  show ?case
  proof (cases "contents s")
    case Nil
    then show ?thesis using Suc.IH [OF Suc.prems(1)] recv_empty [OF Suc.prems(1) Nil] by auto
  next
    case (Cons p ps)
    obtain s1 where "recv s = (Some p, s1)" "invar s1" "contents s1 = ps"
      using recv_ok [OF Suc.prems(1) Cons] by auto
    then show ?thesis using Suc.IH [of s1] Suc.prems Cons by auto
  qed
qed

end

end
