(* ===== verification/Tunnel_Link.thy ===== *)
theory Tunnel_Link
  imports Kernel_Module Channel_Spec
begin

text \<open>
  The two ends of the tunnels together: the bare-metal application on CPU1 and the kernel
  module on CPU0 share one memory. The state \<open>world\<close> holds both; an operation of either end runs
  on the shared memory. The interrupts CPU1 raises are delivered to the handlers the module
  installed. The lemmas show that the two ends agree on where every ring lies, that each
  direction of each channel meets the contract \<open>bounded_channel\<close>, and that the interrupt sent
  with a packet wakes the reader of that packet's device.
\<close>

section \<open>Both ends see the same rings\<close>

lemma aligned_size_slot_size: "aligned_size cached n = slot_size cached n"
  by (cases cached) (simp_all add: aligned_size_def slot_size_def PACKET_SIZE_ALIGNMENT_def sizeof_PacketHeader_def)

lemma rings_match:
  assumes "instance_of cached (IPC_TUNNEL_CONFIG_OFFSET ocm + i) t" and "i < 3"
  shows "ktx_ring t = rx_ring (bank_tunnel ocm cached i)" and "krx_ring t = tx_ring (bank_tunnel ocm cached i)"
  using assms
  by (cases ocm;
      auto simp: less_3_cases instance_of_def ktx_ring_def krx_ring_def rx_ring_def tx_ring_def
        bank_config_def f_configs_def tunnel_configs_def IPC_TUNNEL_CONFIG_OFFSET_def aligned_size_slot_size)+

section \<open>The shared world\<close>

record world =
  wtunnels :: "TunnelInstance list"
  wvariant :: variant
  wwakes :: "nat list"

definition kernel_of :: "world \<Rightarrow> kernel" where
  "kernel_of w = \<lparr>tunnels = wtunnels w, kmem = mem (machine (wvariant w)), wakes = wwakes w\<rparr>"

definition put_kernel :: "kernel \<Rightarrow> world \<Rightarrow> world" where
  "put_kernel k w = w\<lparr>wtunnels := tunnels k, wwakes := wakes k,
     wvariant := (wvariant w)\<lparr>machine := (machine (wvariant w))\<lparr>mem := kmem k\<rparr>\<rparr>\<rparr>"

definition device_of :: "bool \<Rightarrow> nat \<Rightarrow> nat" where
  "device_of ocm i = IPC_TUNNEL_CONFIG_OFFSET ocm + i"

definition world_inv :: "bool \<Rightarrow> bool \<Rightarrow> world \<Rightarrow> bool" where
  "world_inv ocm cached w \<longleftrightarrow> variant_inv ocm cached (wvariant w) \<and>
     (\<forall>i<3. instance_of cached (device_of ocm i) (wtunnels w ! device_of ocm i))"

definition to_linux :: "nat \<Rightarrow> world \<Rightarrow> bytes list" where
  "to_linux i w = chan_sent i (wvariant w)"

definition to_cpu1 :: "nat \<Rightarrow> world \<Rightarrow> bytes list" where
  "to_cpu1 i w = chan_pending i (wvariant w)"

text \<open>The four packet operations of channel \<open>i\<close>, two on each core.\<close>

definition cpu1_send :: "nat \<Rightarrow> bytes \<Rightarrow> world \<Rightarrow> bool \<times> world" where
  "cpu1_send i p w = (let (ok, v) = write_chan i p (of_nat (length p)) (wvariant w) in (ok, w\<lparr>wvariant := v\<rparr>))"

definition cpu1_recv :: "nat \<Rightarrow> nat \<Rightarrow> world \<Rightarrow> bytes option \<times> world" where
  "cpu1_recv i sz w =
     (let (_, got, v) = read_chan i (replicate sz 0) (of_nat sz) (\<lambda>buffer n _. Some (take (unat n) buffer)) None (wvariant w)
      in (got, w\<lparr>wvariant := v\<rparr>))"

definition full_copy_to_user :: "bytes \<Rightarrow> bytes \<Rightarrow> bytes \<times> nat" where
  "full_copy_to_user buffer data = (if length data \<le> length buffer then (data @ drop (length data) buffer, 0)
     else (buffer, length data))"

definition full_copy_from_user :: "bytes \<Rightarrow> nat \<Rightarrow> bytes \<times> nat" where
  "full_copy_from_user buffer n = (if n \<le> length buffer then (take n buffer, 0) else ([], n))"

definition device_file :: "bool \<Rightarrow> nat \<Rightarrow> kfile" where
  "device_file ocm i = \<lparr>private_data = Some (device_of ocm i), o_nonblock = True\<rparr>"

definition linux_send :: "bool \<Rightarrow> nat \<Rightarrow> bytes \<Rightarrow> world \<Rightarrow> bool \<times> world" where
  "linux_send ocm i p w =
     (let (r, k) = dev_write full_copy_from_user (device_file ocm i) p (of_nat (length p)) (kernel_of w)
      in (r = Inr (of_nat (length p)), put_kernel k w))"

definition linux_recv :: "bool \<Rightarrow> nat \<Rightarrow> nat \<Rightarrow> world \<Rightarrow> bytes option \<times> world" where
  "linux_recv ocm i sz w =
     (case dev_read full_copy_to_user (device_file ocm i) (replicate sz 0) (of_nat sz) [] (kernel_of w) of
        Some (Inr n, buffer, k) \<Rightarrow> (Some (take (unat n) buffer), put_kernel k w)
      | Some (Inl _, _, k) \<Rightarrow> (None, put_kernel k w)
      | None \<Rightarrow> (None, w))"

text \<open>
  Delivery of the oldest pending software interrupt: the GIC hands the interrupt number in the
  low four bits to the core named in the target list; the module's handler for that number runs.
\<close>

definition deliver_sgi :: "world \<Rightarrow> world" where
  "deliver_sgi w =
     (case sfi (machine (wvariant w)) of
        [] \<Rightarrow> w
      | v # vs \<Rightarrow>
         let w = w\<lparr>wvariant := (wvariant w)\<lparr>machine := (machine (wvariant w))\<lparr>sfi := vs\<rparr>\<rparr>\<rparr>
         in if v AND push_bit 16 1 = 0 then w
            else case List.find (\<lambda>c. cpu0_notify_ipi c = uint (v AND 0xF)) tunnel_configs of
              None \<Rightarrow> w
            | Some c \<Rightarrow> put_kernel ((ipi_handlers ! cpu0_notify_ipi_handler c) (kernel_of w)) w)"

section \<open>Operations of the kernel on the shared world\<close>

lemma kernel_of_sel [simp]: "tunnels (kernel_of w) = wtunnels w" "kmem (kernel_of w) = mem (machine (wvariant w))"
  "wakes (kernel_of w) = wwakes w"
  by (simp_all add: kernel_of_def)

lemma put_kernel_sel [simp]: "wtunnels (put_kernel k w) = tunnels k" "wwakes (put_kernel k w) = wakes k"
  "mem (machine (wvariant (put_kernel k w))) = kmem k"
  "f_tunnels (wvariant (put_kernel k w)) = f_tunnels (wvariant w)"
  "sfi (machine (wvariant (put_kernel k w))) = sfi (machine (wvariant w))"
  by (simp_all add: put_kernel_def)

lemma put_kernel_of [simp]: "put_kernel (kernel_of w) w = w"
  by (simp add: put_kernel_def)

abbreviation ktunnel :: "bool \<Rightarrow> nat \<Rightarrow> world \<Rightarrow> TunnelInstance" where
  "ktunnel ocm i w \<equiv> wtunnels w ! device_of ocm i"

lemma world_rings:
  assumes "world_inv ocm cached w" and "i < 3"
  shows "ktx_ring (ktunnel ocm i w) = rx_ring (f_tunnels (wvariant w) ! i)"
    and "krx_ring (ktunnel ocm i w) = tx_ring (f_tunnels (wvariant w) ! i)"
  using assms rings_match [of cached ocm i]
  by (auto simp: world_inv_def variant_inv_def chan_inv_def device_of_def)

lemma world_kernel_ok:
  assumes "world_inv ocm cached w" and "i < 3"
  shows "ktunnel_wf (ktunnel ocm i w)" and "ktunnel_inv (ktunnel ocm i w) (mem (machine (wvariant w)))"
proof -
  have ch: "chan_inv ocm cached i (wvariant w)" using assms by (simp add: world_inv_def variant_inv_def)
  show "ktunnel_wf (ktunnel ocm i w)"
    using chan_inv_wf [OF assms(2) ch] world_rings [OF assms] rings_disjoint_sym
    by (auto simp: ktunnel_wf_def tunnel_wf_def)
  show "ktunnel_inv (ktunnel ocm i w) (mem (machine (wvariant w)))"
    using ch world_rings [OF assms] by (auto simp: ktunnel_inv_def tunnel_inv_def chan_inv_def)
qed

lemma world_contents:
  assumes "world_inv ocm cached w" and "i < 3"
  shows "to_linux i w = ring_contents (krx_ring (ktunnel ocm i w)) (mem (machine (wvariant w)))"
    and "to_cpu1 i w = ring_contents (ktx_ring (ktunnel ocm i w)) (mem (machine (wvariant w)))"
  using world_rings [OF assms] by (simp_all add: to_linux_def to_cpu1_def chan_sent_def chan_pending_def)

lemma kernel_step:
  assumes w: "world_inv ocm cached w" and i: "i < 3"
    and g: "g \<in> {ktx_ring (ktunnel ocm i w), krx_ring (ktunnel ocm i w)}"
    and h: "h \<in> {ktx_ring (ktunnel ocm i w), krx_ring (ktunnel ocm i w)}" "g \<noteq> h"
    and k: "tunnels k = wtunnels w" and inv: "ring_inv g (kmem k)"
    and frame: "\<forall>x. \<not> in_ring g x \<longrightarrow> kmem k x = mem (machine (wvariant w)) x"
  shows "world_inv ocm cached (put_kernel k w)"
    and "ring_contents h (kmem k) = ring_contents h (mem (machine (wvariant w)))"
    and "j < 3 \<Longrightarrow> j \<noteq> i \<Longrightarrow> to_linux j (put_kernel k w) = to_linux j w \<and> to_cpu1 j (put_kernel k w) = to_cpu1 j w"
proof -
  let ?v = "wvariant w" and ?v' = "wvariant (put_kernel k w)"
  let ?t = "f_tunnels ?v ! i"
  have ch: "chan_inv ocm cached j ?v" if "j < 3" for j using w that by (simp add: world_inv_def variant_inv_def)
  note rings = world_rings [OF w i]
  note other = ktunnel_other_ring [OF world_kernel_ok [OF w i] g h frame]
  show "ring_contents h (kmem k) = ring_contents h (mem (machine ?v))" by (rule other(2))
  have kept: "chan_kept j ?v ?v'" if "j < 3" "j \<noteq> i" for j
    using g frame by (intro chan_kept_frame [OF that(1) i that(2) ch ch, of g]) (auto simp: rings that(1) i)
  have "{g, h} = {tx_ring ?t, rx_ring ?t}" using g h by (auto simp: rings)
  then have "tunnel_inv ?t (machine ?v')" using inv other(1) by (auto simp: tunnel_inv_def doubleton_eq_iff)
  then have "variant_inv ocm cached ?v'"
    using variant_invI_step [of ocm cached ?v ?v' i] w kept by (simp add: world_inv_def)
  then show "world_inv ocm cached (put_kernel k w)" using w k by (simp add: world_inv_def)
  show "to_linux j (put_kernel k w) = to_linux j w \<and> to_cpu1 j (put_kernel k w) = to_cpu1 j w" if "j < 3" "j \<noteq> i"
    using chan_keptD(2,3) [OF that(1) ch [OF that(1)] kept [OF that]] by (simp add: to_linux_def to_cpu1_def)
qed

lemma ktx_neq_krx: "ktx_ring t \<noteq> krx_ring t"
proof
  assume "ktx_ring t = krx_ring t"
  then have "rwidx (ktx_ring t) = rwidx (krx_ring t)" by simp
  then show False by (simp add: cpu0_write_index_def cpu1_write_index_def)
qed

lemma full_copies_ok: "copy_to_user_ok full_copy_to_user" "copy_from_user_ok full_copy_from_user"
  by (auto simp: copy_to_user_ok_def copy_from_user_ok_def full_copy_to_user_def full_copy_from_user_def split: if_splits)

definition packet_max :: "bool \<Rightarrow> nat \<Rightarrow> nat" where
  "packet_max ocm i = unat (sendPacketMaxSize (bank_config ocm i))"

definition packet_slots :: "bool \<Rightarrow> nat \<Rightarrow> nat" where
  "packet_slots ocm i = unat (sendBufferedPacketCount (bank_config ocm i))"

definition admissible_packet :: "bool \<Rightarrow> nat \<Rightarrow> bytes \<Rightarrow> bool" where
  "admissible_packet ocm i p \<longleftrightarrow> p \<noteq> [] \<and> length p \<le> packet_max ocm i"

lemma ktunnel_sizes:
  assumes "world_inv ocm cached w" and "i < 3"
  shows "unat (send_max_packet_size (kconfig (ktunnel ocm i w))) = packet_max ocm i"
    and "rmax (ktx_ring (ktunnel ocm i w)) = packet_max ocm i" and "rmax (krx_ring (ktunnel ocm i w)) = packet_max ocm i"
    and "rcount (ktx_ring (ktunnel ocm i w)) = packet_slots ocm i" and "rcount (krx_ring (ktunnel ocm i w)) = packet_slots ocm i"
proof -
  have inst: "instance_of cached (device_of ocm i) (ktunnel ocm i w)" using assms by (simp add: world_inv_def)
  then have "kconfig (ktunnel ocm i w) = tunnel_configs ! device_of ocm i" by (simp add: instance_of_def Let_def)
  then show "unat (send_max_packet_size (kconfig (ktunnel ocm i w))) = packet_max ocm i"
    "rmax (ktx_ring (ktunnel ocm i w)) = packet_max ocm i" "rmax (krx_ring (ktunnel ocm i w)) = packet_max ocm i"
    "rcount (ktx_ring (ktunnel ocm i w)) = packet_slots ocm i" "rcount (krx_ring (ktunnel ocm i w)) = packet_slots ocm i"
    using assms(2)
    by (cases ocm; auto simp: less_3_cases packet_max_def packet_slots_def bank_config_def device_of_def
        IPC_TUNNEL_CONFIG_OFFSET_def f_configs_def tunnel_configs_def)+
qed

lemma packet_max_bound: "i < 3 \<Longrightarrow> packet_max ocm i < 65536"
  using unat_u16_less by (simp add: packet_max_def)

lemma unat_small: "n < 65536 \<Longrightarrow> unat (of_nat n :: u32) = n"
  by (simp add: unat_of_nat)

lemma linux_send_correct:
  assumes w: "world_inv ocm cached w" and i: "i < 3" and p: "admissible_packet ocm i p"
    and run: "linux_send ocm i p w = (ok, w')"
  shows "ok \<longleftrightarrow> length (to_cpu1 i w) < packet_slots ocm i - 1"
    and "to_cpu1 i w' = (if ok then to_cpu1 i w @ [p] else to_cpu1 i w)"
    and "\<not> ok \<Longrightarrow> w' = w" and "to_linux i w' = to_linux i w" and "world_inv ocm cached w'"
    and "j < 3 \<Longrightarrow> j \<noteq> i \<Longrightarrow> to_linux j w' = to_linux j w \<and> to_cpu1 j w' = to_cpu1 j w"
proof -
  let ?t = "ktunnel ocm i w" and ?f = "device_file ocm i" and ?n = "of_nat (length p) :: u32"
  let ?m = "mem (machine (wvariant w))"
  note sizes = ktunnel_sizes [OF w i, simplified] and wf = world_kernel_ok [OF w i] and cont = world_contents [OF w i]
  have f: "private_data ?f = Some (device_of ocm i)" by (simp add: device_file_def)
  have n: "unat ?n = length p" using p packet_max_bound [OF i, of ocm] by (intro unat_small) (simp add: admissible_packet_def)
  then have n0: "?n \<noteq> 0" "?n \<le> ucast (send_max_packet_size (kconfig ?t))"
    using p sizes(1) by (auto simp: admissible_packet_def word_le_nat_alt unat_eq_0 [symmetric])
  obtain r k where dw: "dev_write full_copy_from_user ?f p ?n (kernel_of w) = (r, k)" by fastforce
  have res: "ok = (r = Inr ?n)" "w' = put_kernel k w" using run dw by (simp_all add: linux_send_def)
  let ?room = "length (ring_contents (ktx_ring ?t) ?m) < rcount (ktx_ring ?t) - 1"
  have full: "\<not> ?room \<Longrightarrow> r = Inr 0 \<and> k = kernel_of w"
    using dev_write_full [OF f _ n0(1), of "kernel_of w"] n0 wf dw by simp
  note room = dev_write_room [OF f _ _ full_copies_ok(2) n0(1) _ _ dw, simplified, OF wf n0(2)]
  have c: "snd (full_copy_from_user p (length p)) = 0" by (simp add: full_copy_from_user_def)
  show ok: "ok \<longleftrightarrow> length (to_cpu1 i w) < packet_slots ocm i - 1"
    using full room(1) c n n0(1) by (cases ?room) (auto simp: res cont sizes)
  show "w' = w" if "\<not> ok" using that ok full by (simp add: res cont sizes)
  have step: "world_inv ocm cached w' \<and> ring_contents (krx_ring ?t) (kmem k) = ring_contents (krx_ring ?t) ?m
      \<and> (j < 3 \<longrightarrow> j \<noteq> i \<longrightarrow> to_linux j w' = to_linux j w \<and> to_cpu1 j w' = to_cpu1 j w)
      \<and> ring_contents (ktx_ring ?t) (kmem k) = (if ok then to_cpu1 i w @ [p] else to_cpu1 i w)
      \<and> tunnels k = wtunnels w" for j
  proof (cases ok)
    case True
    then have r: ?room using ok by (simp add: cont sizes)
    note eff = room [OF r [simplified]]
    note st = kernel_step [where g = "ktx_ring ?t" and h = "krx_ring ?t" and k = k, OF w i _ _ ktx_neq_krx,
        simplified, OF eff(4,2)]
    show ?thesis using st eff(1,3,4) True c n by (auto simp: res cont)
  next
    case False
    then show ?thesis using full w by (auto simp: ok res cont sizes)
  qed
  then have w': "world_inv ocm cached w'" and tun: "ktunnel ocm i w' = ?t" using res by auto
  then show "world_inv ocm cached w'" by blast
  show "to_cpu1 i w' = (if ok then to_cpu1 i w @ [p] else to_cpu1 i w)" "to_linux i w' = to_linux i w"
    using step world_contents [OF w' i] cont by (simp_all add: tun) (simp_all add: res)
  show "to_linux j w' = to_linux j w \<and> to_cpu1 j w' = to_cpu1 j w" if "j < 3" "j \<noteq> i" using step that by blast
qed

lemma linux_recv_empty:
  assumes w: "world_inv ocm cached w" and i: "i < 3" and "to_linux i w = []"
  shows "linux_recv ocm i sz w = (None, w)"
proof -
  have "try_get_read_packet (ktunnel ocm i w) (mem (machine (wvariant w))) = None"
    using world_kernel_ok(2) [OF w i] assms(3) world_contents(1) [OF w i]
    by (simp add: try_get_read_packet_eq ktunnel_inv_def)
  then show ?thesis by (simp add: linux_recv_def dev_read_def device_file_def)
qed

lemma linux_recv_correct:
  assumes w: "world_inv ocm cached w" and i: "i < 3" and ne: "to_linux i w = p # ps"
    and sz: "packet_max ocm i \<le> sz" "sz < 65536"
    and run: "linux_recv ocm i sz w = (got, w')"
  shows "got = Some p" and "to_linux i w' = ps" and "to_cpu1 i w' = to_cpu1 i w" and "world_inv ocm cached w'"
    and "j < 3 \<Longrightarrow> j \<noteq> i \<Longrightarrow> to_linux j w' = to_linux j w \<and> to_cpu1 j w' = to_cpu1 j w"
proof -
  let ?t = "ktunnel ocm i w" and ?m = "mem (machine (wvariant w))" and ?n = "of_nat sz :: u32"
  note sizes = ktunnel_sizes [OF w i, simplified] and wf = world_kernel_ok [OF w i] and cont = world_contents [OF w i]
  have n: "unat ?n = sz" using sz(2) by (rule unat_small)
  have lp: "length p \<le> sz"
    using ring_packet_bound [of "krx_ring ?t" ?m p] wf(2) ne cont(1) sizes(3) sz(1) by (simp add: ktunnel_inv_def)
  have "try_get_read_packet ?t ?m \<noteq> None"
    using wf(2) ne cont(1) by (simp add: try_get_read_packet_eq ktunnel_inv_def)
  then obtain pk where pk: "try_get_read_packet ?t ?m = Some pk" by blast
  obtain r b k where ro: "read_out full_copy_to_user ?t pk (replicate sz 0) ?n (kernel_of w) = (r, b, k)"
    by (metis prod_cases3)
  note eff = read_out_correct [OF wf(1) _ full_copies_ok(1) _ _ ro, simplified, OF wf(2) ne [unfolded cont(1)] pk]
  have c: "snd (full_copy_to_user (replicate sz 0) (take (unat ?n) p)) = 0"
    using lp by (simp add: full_copy_to_user_def n)
  then have r: "r = Inr (of_nat (length p))" "b = p @ drop (length p) (replicate sz 0)"
    and ps: "ring_contents (krx_ring ?t) (kmem k) = ps"
    using eff(1) lp n by (auto simp: min_def)
  have res: "got = Some (take (unat (of_nat (length p) :: u32)) b)" "w' = put_kernel k w"
    using run pk ro r(1) by (simp_all add: linux_recv_def dev_read_def device_file_def)
  then show "got = Some p" using lp sz(2) r(2) by (simp add: unat_small)
  note st = kernel_step [where g = "krx_ring ?t" and h = "ktx_ring ?t" and k = k,
      OF w i _ _ ktx_neq_krx [symmetric], simplified, OF eff(4,2)]
  have fr: "\<forall>x. \<not> in_ring (krx_ring ?t) x \<longrightarrow> kmem k x = ?m x" using eff(3) by blast
  have w': "world_inv ocm cached w'" and tun: "ktunnel ocm i w' = ?t" using st(1) fr eff(4) by (simp_all add: res)
  then show "world_inv ocm cached w'" by blast
  show "to_linux i w' = ps" "to_cpu1 i w' = to_cpu1 i w"
    using world_contents [OF w' i] ps st(2) fr cont by (simp_all add: tun) (simp_all add: res)
  show "to_linux j w' = to_linux j w \<and> to_cpu1 j w' = to_cpu1 j w" if "j < 3" "j \<noteq> i"
    using st(3) that fr by (simp add: res)
qed

section \<open>Operations of CPU1 on the shared world\<close>

lemma cpu1_send_correct:
  assumes w: "world_inv ocm cached w" and i: "i < 3" and p: "admissible_packet ocm i p"
    and run: "cpu1_send i p w = (ok, w')"
  shows "ok \<longleftrightarrow> length (to_linux i w) < packet_slots ocm i - 1"
    and "to_linux i w' = (if ok then to_linux i w @ [p] else to_linux i w)"
    and "\<not> ok \<Longrightarrow> w' = w" and "to_cpu1 i w' = to_cpu1 i w" and "world_inv ocm cached w'"
    and "j < 3 \<Longrightarrow> j \<noteq> i \<Longrightarrow> to_linux j w' = to_linux j w \<and> to_cpu1 j w' = to_cpu1 j w"
proof -
  let ?n = "of_nat (length p) :: u32"
  have v: "variant_inv ocm cached (wvariant w)" using w by (simp add: world_inv_def)
  have n: "unat ?n = length p" using p packet_max_bound [OF i, of ocm] by (intro unat_small) (simp add: admissible_packet_def)
  then have n0: "?n \<noteq> 0" "?n \<le> ucast (sendPacketMaxSize (bank_config ocm i))" "unat ?n \<le> length p"
    using p by (auto simp: admissible_packet_def packet_max_def word_le_nat_alt unat_eq_0 [symmetric])
  obtain v' where wr: "write_chan i p ?n (wvariant w) = (ok, v')" and w': "w' = w\<lparr>wvariant := v'\<rparr>"
    using run by (auto simp: cpu1_send_def split: prod.splits)
  note eff = write_chan_correct [OF v i n0 wr]
  show "ok \<longleftrightarrow> length (to_linux i w) < packet_slots ocm i - 1"
    using eff(1) by (simp add: to_linux_def packet_slots_def)
  show "\<not> ok \<Longrightarrow> w' = w" using eff(3) by (simp add: w')
  then show "to_linux i w' = (if ok then to_linux i w @ [p] else to_linux i w)"
    using eff(2,3) n by (auto simp: to_linux_def w')
  show "to_cpu1 i w' = to_cpu1 i w" using eff(4) by (simp add: to_cpu1_def w')
  show "world_inv ocm cached w'" using eff(5) w by (simp add: world_inv_def w')
  show "to_linux j w' = to_linux j w \<and> to_cpu1 j w' = to_cpu1 j w" if "j < 3" "j \<noteq> i"
    using eff(6) that by (simp add: to_linux_def to_cpu1_def w')
qed

lemma cpu1_recv_empty:
  assumes w: "world_inv ocm cached w" and i: "i < 3" and "to_cpu1 i w = []"
  shows "cpu1_recv i sz w = (None, w)"
  using assms by (simp add: cpu1_recv_def world_inv_def to_cpu1_def read_chan_empty [of ocm cached])

lemma cpu1_recv_correct:
  assumes w: "world_inv ocm cached w" and i: "i < 3" and ne: "to_cpu1 i w = p # ps" and "p \<noteq> []"
    and sz: "packet_max ocm i \<le> sz" "sz < 65536"
    and run: "cpu1_recv i sz w = (got, w')"
  shows "got = Some p" and "to_cpu1 i w' = ps" and "to_linux i w' = to_linux i w" and "world_inv ocm cached w'"
    and "j < 3 \<Longrightarrow> j \<noteq> i \<Longrightarrow> to_linux j w' = to_linux j w \<and> to_cpu1 j w' = to_cpu1 j w"
proof -
  let ?t = "ktunnel ocm i w" and ?m = "mem (machine (wvariant w))"
  have v: "variant_inv ocm cached (wvariant w)" using w by (simp add: world_inv_def)
  have lp: "length p \<le> sz"
    using ring_packet_bound [of "ktx_ring ?t" ?m p] world_kernel_ok(2) [OF w i] ne world_contents(2) [OF w i]
      ktunnel_sizes(2) [OF w i] sz(1) by (simp add: ktunnel_inv_def)
  obtain b v' where rd: "read_chan i (replicate sz 0) (of_nat sz) (\<lambda>buffer n _. Some (take (unat n) buffer)) None (wvariant w) = (b, got, v')"
    and w': "w' = w\<lparr>wvariant := v'\<rparr>"
    using run by (auto simp: cpu1_recv_def split: prod.splits)
  have "unat (ucast (of_nat sz :: u32) :: u16) = sz" using sz(2) by (simp add: unat_u32_u16 unat_small)
  then have k: "length p = min (unat (ucast (of_nat sz :: u32) :: u16)) (length p)" using lp by simp
  note eff = read_chan_correct [OF v i ne [unfolded to_cpu1_def] rd k]
  show "got = Some p" using eff(1,2) assms(4) lp sz(2) by (simp add: unat_small)
  show "to_cpu1 i w' = ps" "to_linux i w' = to_linux i w" "world_inv ocm cached w'"
    using eff(3,4,5) w by (simp_all add: to_cpu1_def to_linux_def world_inv_def w')
  show "to_linux j w' = to_linux j w \<and> to_cpu1 j w' = to_cpu1 j w" if "j < 3" "j \<noteq> i"
    using eff(6) that by (simp add: to_linux_def to_cpu1_def w')
qed

section \<open>Each direction of each channel is a bounded channel\<close>

definition link_inv :: "bool \<Rightarrow> bool \<Rightarrow> nat \<Rightarrow> world \<Rightarrow> bool" where
  "link_inv ocm cached i w \<longleftrightarrow> i < 3 \<and> world_inv ocm cached w \<and> [] \<notin> set (to_cpu1 i w)"

definition link_capacity :: "bool \<Rightarrow> nat \<Rightarrow> nat" where
  "link_capacity ocm i = packet_slots ocm i - 1"

lemma link_contents_bound:
  assumes "link_inv ocm cached i w"
  shows "length (to_linux i w) \<le> link_capacity ocm i" and "length (to_cpu1 i w) \<le> link_capacity ocm i"
proof -
  have w: "world_inv ocm cached w" and i: "i < 3" using assms by (auto simp: link_inv_def)
  have inv: "ring_inv (ktx_ring (ktunnel ocm i w)) (mem (machine (wvariant w)))"
    "ring_inv (krx_ring (ktunnel ocm i w)) (mem (machine (wvariant w)))"
    using world_kernel_ok(2) [OF w i] by (auto simp: ktunnel_inv_def)
  from ring_capacity [OF inv(1)] ring_capacity [OF inv(2)]
  show "length (to_linux i w) \<le> link_capacity ocm i" and "length (to_cpu1 i w) \<le> link_capacity ocm i"
    using ktunnel_sizes(4,5) [OF w i] world_contents [OF w i] by (simp_all add: link_capacity_def)
qed

interpretation uplink: bounded_channel
  "link_inv ocm cached i" "to_linux i" "link_capacity ocm i" "admissible_packet ocm i"
  "cpu1_send i" "linux_recv ocm i (packet_max ocm i)" for ocm cached i
proof unfold_locales
  fix w p ps
  assume inv: "link_inv ocm cached i w"
  then have w: "world_inv ocm cached w" and i: "i < 3" by (auto simp: link_inv_def)
  show "length (to_linux i w) \<le> link_capacity ocm i" by (rule link_contents_bound [OF inv])
  obtain ok w' where s: "cpu1_send i p w = (ok, w')" by fastforce
  show "\<exists>s'. cpu1_send i p w = (True, s') \<and> link_inv ocm cached i s' \<and> to_linux i s' = to_linux i w @ [p]"
    if "admissible_packet ocm i p" "length (to_linux i w) < link_capacity ocm i"
    using cpu1_send_correct(1,2,4,5) [OF w i that(1) s] that(2) inv s by (auto simp: link_inv_def link_capacity_def)
  show "cpu1_send i p w = (False, w)"
    if "admissible_packet ocm i p" "\<not> length (to_linux i w) < link_capacity ocm i"
    using cpu1_send_correct(1,3) [OF w i that(1) s] that(2) s by (auto simp: link_capacity_def)
  show "linux_recv ocm i (packet_max ocm i) w = (None, w)" if "to_linux i w = []"
    by (rule linux_recv_empty [OF w i that])
  obtain got w'' where r: "linux_recv ocm i (packet_max ocm i) w = (got, w'')" by fastforce
  show "\<exists>s'. linux_recv ocm i (packet_max ocm i) w = (Some p, s') \<and> link_inv ocm cached i s' \<and> to_linux i s' = ps"
    if "to_linux i w = p # ps"
    using linux_recv_correct(1-4) [OF w i that order_refl packet_max_bound [OF i] r] inv r by (auto simp: link_inv_def)
qed

interpretation downlink: bounded_channel
  "link_inv ocm cached i" "to_cpu1 i" "link_capacity ocm i" "admissible_packet ocm i"
  "linux_send ocm i" "cpu1_recv i (packet_max ocm i)" for ocm cached i
proof unfold_locales
  fix w p ps
  assume inv: "link_inv ocm cached i w"
  then have w: "world_inv ocm cached w" and i: "i < 3" by (auto simp: link_inv_def)
  show "length (to_cpu1 i w) \<le> link_capacity ocm i" by (rule link_contents_bound [OF inv])
  obtain ok w' where s: "linux_send ocm i p w = (ok, w')" by fastforce
  show "\<exists>s'. linux_send ocm i p w = (True, s') \<and> link_inv ocm cached i s' \<and> to_cpu1 i s' = to_cpu1 i w @ [p]"
    if "admissible_packet ocm i p" "length (to_cpu1 i w) < link_capacity ocm i"
    using linux_send_correct(1,2,5) [OF w i that(1) s] that inv s
    by (auto simp: link_inv_def link_capacity_def admissible_packet_def)
  show "linux_send ocm i p w = (False, w)"
    if "admissible_packet ocm i p" "\<not> length (to_cpu1 i w) < link_capacity ocm i"
    using linux_send_correct(1,3) [OF w i that(1) s] that(2) s by (auto simp: link_capacity_def)
  show "cpu1_recv i (packet_max ocm i) w = (None, w)" if "to_cpu1 i w = []"
    by (rule cpu1_recv_empty [OF w i that])
  obtain got w'' where r: "cpu1_recv i (packet_max ocm i) w = (got, w'')" by fastforce
  show "\<exists>s'. cpu1_recv i (packet_max ocm i) w = (Some p, s') \<and> link_inv ocm cached i s' \<and> to_cpu1 i s' = ps"
    if "to_cpu1 i w = p # ps"
  proof -
    have "p \<noteq> []" using inv that by (auto simp: link_inv_def)
    from cpu1_recv_correct(1,2,4) [OF w i that this order_refl packet_max_bound [OF i] r] show ?thesis
      using inv that r by (auto simp: link_inv_def)
  qed
qed

section \<open>Interrupts\<close>

lemma sgi_lookup:
  fixes ocm
  assumes "i < 3"
  defines "v \<equiv> (push_bit 16 1 OR cpu0KickSGI (bank_config ocm i)) AND XSCUGIC_SFI_TRIG_MASK"
  shows "v AND push_bit 16 1 \<noteq> 0"
    and "\<exists>c. List.find (\<lambda>c. cpu0_notify_ipi c = uint (v AND 0xF)) tunnel_configs = Some c
      \<and> cpu0_notify_ipi_handler c = device_of ocm i"
  using assms(1) unfolding v_def
  by (cases ocm; auto simp: less_3_cases bank_config_def IPC_TUNNEL_CONFIG_OFFSET_def f_configs_def device_of_def
      XSCUGIC_SFI_TRIG_MASK_def tunnel_configs_def push_bit_eq_mult)+

lemma handler_wakes: "d < DEVICE_COUNT \<Longrightarrow> (ipi_handlers ! d) k = k\<lparr>wakes := wakes k @ [d]\<rparr>"
  by (auto simp: DEVICE_COUNT_def ipi_handlers_def numeral_eq_Suc less_Suc_eq wake_up_interruptible_def
      tunnel0_ipi_notify_handler_def tunnel1_ipi_notify_handler_def tunnel2_ipi_notify_handler_def
      tunnel3_ipi_notify_handler_def tunnel4_ipi_notify_handler_def tunnel5_ipi_notify_handler_def)

lemma device_of_less: "i < 3 \<Longrightarrow> device_of ocm i < DEVICE_COUNT"
  by (simp add: device_of_def IPC_TUNNEL_CONFIG_OFFSET_def DEVICE_COUNT_def)

section \<open>The state after boot\<close>

definition boot_instance :: "bool \<Rightarrow> nat \<Rightarrow> TunnelInstance" where
  "boot_instance cached i = (let c = tunnel_configs ! i in
     \<lparr>kconfig = c, control_header = unat (control_header_address c), send_buffer = unat (send_buffer_address c),
      receive_buffer = unat (receive_buffer_address c), send_packet_size = aligned_size cached (send_max_packet_size c),
      receive_packet_size = aligned_size cached (receive_max_packet_size c), dev = of_nat (Suc i), is_open = False\<rparr>)"

definition blank_variant :: variant where
  "blank_variant = \<lparr>f_tunnels = replicate 3 blank_tunnel, tlb = [], machine = \<lparr>mem = (\<lambda>_. 0), sfi = []\<rparr>\<rparr>"

definition boot_world :: "bool \<Rightarrow> bool \<Rightarrow> world" where
  "boot_world ocm cached = \<lparr>wtunnels = map (boot_instance cached) [0..<DEVICE_COUNT],
     wvariant = snd (VARIANT_Initialize ocm cached blank_variant), wwakes = []\<rparr>"

lemma boot_world_ok: "world_inv ocm cached (boot_world ocm cached)"
  and boot_world_empty: "i < 3 \<Longrightarrow> to_linux i (boot_world ocm cached) = []" "i < 3 \<Longrightarrow> to_cpu1 i (boot_world ocm cached) = []"
proof -
  obtain ok v where v: "VARIANT_Initialize ocm cached blank_variant = (ok, v)" by fastforce
  have len: "length (f_tunnels blank_variant) = 3" by (simp add: blank_variant_def)
  note init = VARIANT_Initialize_correct [OF len v]
  show "world_inv ocm cached (boot_world ocm cached)"
    using init(2) device_of_less [of _ ocm] v
    by (simp add: world_inv_def boot_world_def instance_of_def boot_instance_def Let_def)
  show "i < 3 \<Longrightarrow> to_linux i (boot_world ocm cached) = []" "i < 3 \<Longrightarrow> to_cpu1 i (boot_world ocm cached) = []"
    using init(3) v by (simp_all add: boot_world_def to_linux_def to_cpu1_def)
qed

lemma boot_link_inv: "i < 3 \<Longrightarrow> link_inv ocm cached i (boot_world ocm cached)"
  by (simp add: link_inv_def boot_world_ok boot_world_empty)

lemma admissible_small: "i < 3 \<Longrightarrow> p \<noteq> [] \<Longrightarrow> length p \<le> 1920 \<Longrightarrow> admissible_packet ocm i p"
  by (cases ocm) (auto simp: admissible_packet_def packet_max_def less_3_cases bank_config_def
      IPC_TUNNEL_CONFIG_OFFSET_def f_configs_def)

section \<open>End-to-end properties\<close>

text \<open>
  Property C1. Whatever sequence of sends by the CPU1 application and reads by the Linux process
  is run on a channel, the packets accepted are exactly the packets received followed by those
  still in the ring, in order: nothing is lost, duplicated, invented or reordered. The whole
  link invariant holds afterwards.
\<close>

theorem uplink_fifo:
  assumes "link_inv ocm cached i w" and "list_all (admissible_packet ocm i) (sent_packets ops)"
    and "channel_run (cpu1_send i) (linux_recv ocm i (packet_max ocm i)) ops w = (accepted, received, w')"
  shows "to_linux i w @ accepted = received @ to_linux i w' \<and> link_inv ocm cached i w'"
  using uplink.run_fifo [OF assms] by blast

theorem uplink_fifo_witness:
  "\<exists>accepted received w'.
     channel_run (cpu1_send 0) (linux_recv True 0 (packet_max True 0)) [Send [1, 2], Send [3], Recv] (boot_world True True)
       = (accepted, received, w') \<and> accepted = received @ to_linux 0 w'"
proof -
  obtain a r w' where run: "channel_run (cpu1_send 0) (linux_recv True 0 (packet_max True 0))
      [Send [1, 2], Send [3], Recv] (boot_world True True) = (a, r, w')" by (metis prod_cases3)
  from uplink_fifo [OF boot_link_inv _ run] show ?thesis
    using run by (simp add: admissible_small boot_world_empty)
qed

text \<open>
  Property C2. The same for the packets a Linux process writes to the device and the CPU1
  application reads from the channel.
\<close>

theorem downlink_fifo:
  assumes "link_inv ocm cached i w" and "list_all (admissible_packet ocm i) (sent_packets ops)"
    and "channel_run (linux_send ocm i) (cpu1_recv i (packet_max ocm i)) ops w = (accepted, received, w')"
  shows "to_cpu1 i w @ accepted = received @ to_cpu1 i w' \<and> link_inv ocm cached i w'"
  using downlink.run_fifo [OF assms] by blast

theorem downlink_fifo_witness:
  "\<exists>accepted received w'.
     channel_run (linux_send False 1) (cpu1_recv 1 (packet_max False 1)) [Send [7], Recv, Recv] (boot_world False True)
       = (accepted, received, w') \<and> accepted = received @ to_cpu1 1 w'"
proof -
  obtain a r w' where run: "channel_run (linux_send False 1) (cpu1_recv 1 (packet_max False 1))
      [Send [7], Recv, Recv] (boot_world False True) = (a, r, w')" by (metis prod_cases3)
  from downlink_fifo [OF boot_link_inv _ run] show ?thesis
    using run by (simp add: admissible_small boot_world_empty)
qed

text \<open>
  Every packet in flight is delivered: as many reads as there are slots empty the
  ring, and return all the packets that were in it, oldest first.
\<close>

theorem link_drain:
  assumes "link_inv ocm cached i w"
  shows "(\<exists>w'. channel_run (cpu1_send i) (linux_recv ocm i (packet_max ocm i)) (replicate (link_capacity ocm i) Recv) w
      = ([], to_linux i w, w') \<and> to_linux i w' = [])
    \<and> (\<exists>w'. channel_run (linux_send ocm i) (cpu1_recv i (packet_max ocm i)) (replicate (link_capacity ocm i) Recv) w
      = ([], to_cpu1 i w, w') \<and> to_cpu1 i w' = [])"
  using uplink.run_drain [OF assms link_contents_bound(1) [OF assms]]
    downlink.run_drain [OF assms link_contents_bound(2) [OF assms]] by blast

theorem link_drain_witness:
  "\<exists>w'. channel_run (linux_send True 2) (cpu1_recv 2 (packet_max True 2)) (replicate (link_capacity True 2) Recv)
      (snd (linux_send True 2 [5, 6] (boot_world True True))) = ([], [[5, 6]], w')"
proof -
  let ?w = "boot_world True True"
  have cap: "link_capacity True 2 = 1"
    by (simp add: link_capacity_def packet_slots_def bank_config_def IPC_TUNNEL_CONFIG_OFFSET_def f_configs_def)
  obtain w1 where s: "linux_send True 2 [5, 6] ?w = (True, w1)" "link_inv True True 2 w1" "to_cpu1 2 w1 = [[5, 6]]"
    using downlink.send_ok [OF boot_link_inv [of 2 True True], of "[5, 6]"]
    by (auto simp: cap admissible_small boot_world_empty)
  from link_drain [OF s(2)] s show ?thesis by auto
qed



text \<open>
  The software interrupt that goes out with a packet on channel \<open>i\<close> reaches the
  handler of exactly the device of that channel: delivering it wakes that device's read queue,
  once, and no other.
\<close>

lemma sgi_wakes_reader:
  assumes "world_inv ocm cached w" and "i < 3" and "sfi (machine (wvariant w)) = []"
    and "cpu1_send i p w = (True, w')"
  shows "wwakes (deliver_sgi w') = wwakes w @ [device_of ocm i] \<and> sfi (machine (wvariant (deliver_sgi w'))) = []
    \<and> to_linux i (deliver_sgi w') = to_linux i w'"
proof -
  obtain v' where wr: "write_chan i p (of_nat (length p)) (wvariant w) = (True, v')" and w': "w' = w\<lparr>wvariant := v'\<rparr>"
    using assms(4) by (auto simp: cpu1_send_def split: prod.splits)
  have inv: "variant_inv ocm cached (wvariant w)" using assms(1) by (simp add: world_inv_def)
  note sfi = write_chan_sfi [OF inv assms(2) wr]
  obtain c where c: "List.find (\<lambda>c. cpu0_notify_ipi c = uint (((push_bit 16 1 OR cpu0KickSGI (bank_config ocm i))
      AND XSCUGIC_SFI_TRIG_MASK) AND 0xF)) tunnel_configs = Some c" "cpu0_notify_ipi_handler c = device_of ocm i"
    using sgi_lookup(2) [OF assms(2), of ocm] by blast
  then show ?thesis
    using sfi assms(3) sgi_lookup(1) [OF assms(2), of ocm] handler_wakes [OF device_of_less [OF assms(2)]]
    by (simp add: deliver_sgi_def w' Let_def c kernel_of_def put_kernel_def to_linux_def chan_sent_def)
qed

lemma sgi_wakes_reader_witness:
  "wwakes (deliver_sgi (snd (cpu1_send 1 [4] (boot_world False True)))) = [4]"
proof -
  let ?w = "boot_world False True"
  have cap: "link_capacity False (Suc 0) = 3"
    by (simp add: link_capacity_def packet_slots_def bank_config_def IPC_TUNNEL_CONFIG_OFFSET_def f_configs_def)
  obtain w1 where s: "cpu1_send 1 [4] ?w = (True, w1)"
    using uplink.send_ok [OF boot_link_inv [of 1 False True], of "[4]"]
    by (auto simp: cap admissible_small boot_world_empty)
  have q: "sfi (machine (wvariant ?w)) = []" "wwakes ?w = []"
    by (simp_all add: boot_world_def VARIANT_Initialize_def init_tunnel_def IPC_TUNNEL_Init_def blank_variant_def Let_def)
  from sgi_wakes_reader [OF boot_world_ok _ q(1) s] q(2) s show ?thesis
    by (simp add: device_of_def IPC_TUNNEL_CONFIG_OFFSET_def)
qed

section \<open>Properties of the device files\<close>

lemma boot_kernel_ok:
  assumes "i < 3"
  shows "ktunnel_wf (boot_instance True (device_of ocm i))"
    and "ktunnel_inv (boot_instance True (device_of ocm i)) (mem (machine (wvariant (boot_world ocm True))))"
    and "ring_contents (ktx_ring (boot_instance True (device_of ocm i))) (mem (machine (wvariant (boot_world ocm True)))) = []"
    and "ring_contents (krx_ring (boot_instance True (device_of ocm i))) (mem (machine (wvariant (boot_world ocm True)))) = []"
proof -
  have t: "ktunnel ocm i (boot_world ocm True) = boot_instance True (device_of ocm i)"
    using device_of_less [OF assms] by (simp add: boot_world_def)
  show "ktunnel_wf (boot_instance True (device_of ocm i))"
    "ktunnel_inv (boot_instance True (device_of ocm i)) (mem (machine (wvariant (boot_world ocm True))))"
    "ring_contents (ktx_ring (boot_instance True (device_of ocm i))) (mem (machine (wvariant (boot_world ocm True)))) = []"
    "ring_contents (krx_ring (boot_instance True (device_of ocm i))) (mem (machine (wvariant (boot_world ocm True)))) = []"
    using world_kernel_ok [OF boot_world_ok assms, of ocm True] world_contents [OF boot_world_ok assms, of ocm True]
      boot_world_empty [OF assms, of ocm True] by (simp_all add: t)
qed

text \<open>The kernel of a freshly booted system, and a non-blocking file on its first device.\<close>

definition boot_kernel :: kernel where
  "boot_kernel = kernel_of (boot_world True True)"

lemma boot_kernel_tunnel: "tunnels boot_kernel ! 0 = boot_instance True 0"
  "ktunnel_wf (tunnels boot_kernel ! 0)" "ktunnel_inv (tunnels boot_kernel ! 0) (kmem boot_kernel)"
  "ring_contents (ktx_ring (tunnels boot_kernel ! 0)) (kmem boot_kernel) = []"
  "ring_contents (krx_ring (tunnels boot_kernel ! 0)) (kmem boot_kernel) = []"
  "send_max_packet_size (kconfig (tunnels boot_kernel ! 0)) = 0x780"
  "send_buffered_packet_count (kconfig (tunnels boot_kernel ! 0)) = 2"
proof -
  show t: "tunnels boot_kernel ! 0 = boot_instance True 0" by (simp add: boot_kernel_def boot_world_def DEVICE_COUNT_def)
  have "device_of True 0 = 0" by (simp add: device_of_def IPC_TUNNEL_CONFIG_OFFSET_def)
  with boot_kernel_ok [of 0 True]
  show "ktunnel_wf (tunnels boot_kernel ! 0)" "ktunnel_inv (tunnels boot_kernel ! 0) (kmem boot_kernel)"
    "ring_contents (ktx_ring (tunnels boot_kernel ! 0)) (kmem boot_kernel) = []"
    "ring_contents (krx_ring (tunnels boot_kernel ! 0)) (kmem boot_kernel) = []" unfolding t by (simp_all add: boot_kernel_def)
  show "send_max_packet_size (kconfig (tunnels boot_kernel ! 0)) = 0x780"
    "send_buffered_packet_count (kconfig (tunnels boot_kernel ! 0)) = 2"
    unfolding t by (simp_all add: boot_instance_def tunnel_configs_def)
qed

text \<open>
  Writing to a tunnel device, on every branch: an empty write and a full ring report 0, a
  packet above the maximum is refused with \<open>EFBIG\<close>, a fault in the user buffer gives \<open>EFAULT\<close>, and
  none of these adds a packet; otherwise exactly the written bytes are appended and their number
  is returned. In every case the ring invariant, the other direction and all memory outside the
  send ring are preserved.
\<close>

lemma dev_write_correct:
  assumes f: "private_data f = Some i" and wf: "ktunnel_wf (tunnels k ! i)"
    and inv: "ktunnel_inv (tunnels k ! i) (kmem k)" and cfu: "copy_from_user_ok cfu"
    and run: "dev_write cfu f buffer len k = (r, k')"
  shows "(let q = ring_contents (ktx_ring (tunnels k ! i)) (kmem k);
              q' = ring_contents (ktx_ring (tunnels k ! i)) (kmem k')
          in if len = 0 then r = Inr 0 \<and> k' = k
             else if ucast (send_max_packet_size (kconfig (tunnels k ! i))) < len then r = Inl EFBIG \<and> k' = k
             else if unat (send_buffered_packet_count (kconfig (tunnels k ! i))) - 1 \<le> length q then r = Inr 0 \<and> k' = k
             else if snd (cfu buffer (unat len)) = 0 then r = Inr len \<and> q' = q @ [take (unat len) buffer]
             else r = Inl EFAULT \<and> q' = q)
    \<and> ktunnel_inv (tunnels k ! i) (kmem k') \<and> tunnels k' = tunnels k
    \<and> ring_contents (krx_ring (tunnels k ! i)) (kmem k') = ring_contents (krx_ring (tunnels k ! i)) (kmem k)
    \<and> (\<forall>x. \<not> in_ring (ktx_ring (tunnels k ! i)) x \<longrightarrow> kmem k' x = kmem k x)"
proof -
  let ?t = "tunnels k ! i"
  let ?room = "length (ring_contents (ktx_ring ?t) (kmem k)) < rcount (ktx_ring ?t) - 1"
  consider (zero) "len = 0" | (big) "len \<noteq> 0" "ucast (send_max_packet_size (kconfig ?t)) < len"
    | (full) "len \<noteq> 0" "len \<le> ucast (send_max_packet_size (kconfig ?t))" "\<not> ?room"
    | (room) "len \<noteq> 0" "len \<le> ucast (send_max_packet_size (kconfig ?t))" ?room
    by (metis not_le)
  then show ?thesis
  proof cases
    case zero
    then show ?thesis using run inv by (auto simp: dev_write_def)
  next
    case big
    then show ?thesis using run inv f by (auto simp: dev_write_def Let_def)
  next
    case full
    then show ?thesis using dev_write_full [OF f inv full(1,2,3), of cfu buffer] run inv
      by (auto simp: Let_def not_less)
  next
    case room
    note eff = dev_write_room [OF f wf inv cfu room(1,2,3) run]
    have "\<forall>x. \<not> in_ring (ktx_ring ?t) x \<longrightarrow> kmem k' x = kmem k x" using eff(3) by blast
    note other = ktunnel_other_ring [OF wf inv _ _ ktx_neq_krx this, simplified]
    show ?thesis using eff other room by (auto simp: Let_def ktunnel_inv_def not_less)
  qed
qed

lemma dev_write_correct_witness:
  "fst (dev_write full_copy_from_user \<lparr>private_data = Some 0, o_nonblock = True\<rparr> [1, 2] 2 boot_kernel) = Inr 2"
proof -
  let ?f = "\<lparr>private_data = Some 0, o_nonblock = True\<rparr>"
  obtain r k' where run: "dev_write full_copy_from_user ?f [1, 2] 2 boot_kernel = (r, k')" by fastforce
  have f: "private_data ?f = Some 0" by simp
  show ?thesis
    using dev_write_correct [OF f boot_kernel_tunnel(2,3) full_copies_ok(2) run] run
    by (simp add: Let_def boot_kernel_tunnel(4,6,7) full_copy_from_user_def)
qed

lemma dev_read_packet:
  assumes wf: "ktunnel_wf t" and inv: "ktunnel_inv t (kmem k)" and ctu: "copy_to_user_ok ctu"
    and ne: "ring_contents (krx_ring t) (kmem k) = p # ps" and pk: "try_get_read_packet t (kmem k) = Some pk"
    and run: "read_out ctu t pk buffer len k = (r, buffer', k')"
  shows "(if snd (ctu buffer (take (unat len) p)) = 0
      then r = Inr (of_nat (min (unat len) (length p))) \<and> take (min (unat len) (length p)) buffer' = take (unat len) p
        \<and> ring_contents (krx_ring t) (kmem k') = ps
      else r = Inl EFAULT \<and> k' = k)
    \<and> ktunnel_inv t (kmem k') \<and> tunnels k' = tunnels k
    \<and> ring_contents (ktx_ring t) (kmem k') = ring_contents (ktx_ring t) (kmem k)"
proof -
  note eff = read_out_correct [OF assms]
  have "\<forall>x. \<not> in_ring (krx_ring t) x \<longrightarrow> kmem k' x = kmem k x" using eff(3) by blast
  note other = ktunnel_other_ring [OF wf inv _ _ ktx_neq_krx [symmetric] this, simplified]
  have "take (min (unat len) (length p)) (take (unat len) p @ b) = take (unat len) p" for b by (simp add: min_def)
  then show ?thesis using eff(1,2,4) other by (auto simp: ktunnel_inv_def split: if_splits)
qed

text \<open>
  Non-blocking reads: with no packet queued the call fails with \<open>EAGAIN\<close>; otherwise the
  oldest packet, cut to the length asked for, is copied to the caller and removed, unless the copy
  faults, in which case \<open>EFAULT\<close> is returned and the packet stays in the ring.
\<close>

lemma dev_read_correct:
  assumes f: "private_data f = Some i" "o_nonblock f" and wf: "ktunnel_wf (tunnels k ! i)"
    and inv: "ktunnel_inv (tunnels k ! i) (kmem k)" and ctu: "copy_to_user_ok ctu"
  shows "\<exists>r buffer' k'. dev_read ctu f buffer len events k = Some (r, buffer', k') \<and>
    (case ring_contents (krx_ring (tunnels k ! i)) (kmem k) of
       [] \<Rightarrow> r = Inl EAGAIN \<and> buffer' = buffer \<and> k' = k
     | p # ps \<Rightarrow>
        if snd (ctu buffer (take (unat len) p)) = 0
        then r = Inr (of_nat (min (unat len) (length p))) \<and> take (min (unat len) (length p)) buffer' = take (unat len) p
          \<and> ring_contents (krx_ring (tunnels k ! i)) (kmem k') = ps
        else r = Inl EFAULT \<and> k' = k)
    \<and> ktunnel_inv (tunnels k ! i) (kmem k') \<and> tunnels k' = tunnels k
    \<and> ring_contents (ktx_ring (tunnels k ! i)) (kmem k') = ring_contents (ktx_ring (tunnels k ! i)) (kmem k)"
proof -
  let ?t = "tunnels k ! i"
  have tg: "try_get_read_packet ?t (kmem k) = None \<longleftrightarrow> ring_contents (krx_ring ?t) (kmem k) = []"
    using inv by (simp add: try_get_read_packet_eq ktunnel_inv_def)
  show ?thesis
  proof (cases "ring_contents (krx_ring ?t) (kmem k)")
    case Nil
    then have "try_get_read_packet ?t (kmem k) = None" using tg by simp
    then show ?thesis using f inv Nil by (simp add: dev_read_def)
  next
    case (Cons p ps)
    then obtain pk where pk: "try_get_read_packet ?t (kmem k) = Some pk" using tg by auto
    obtain r b k' where ro: "read_out ctu ?t pk buffer len k = (r, b, k')" by (metis prod_cases3)
    then have "dev_read ctu f buffer len events k = Some (r, b, k')" using f pk by (simp add: dev_read_def)
    then show ?thesis using dev_read_packet [OF wf inv ctu Cons pk ro] Cons by simp
  qed
qed

lemma dev_read_correct_witness:
  "\<exists>k'. dev_read full_copy_to_user \<lparr>private_data = Some 0, o_nonblock = True\<rparr> [0, 0] 2 [] boot_kernel
     = Some (Inl EAGAIN, [0, 0], k')"
  using dev_read_correct [of "\<lparr>private_data = Some 0, o_nonblock = True\<rparr>" 0 boot_kernel full_copy_to_user "[0, 0]" 2 "[]"]
    boot_kernel_tunnel full_copies_ok(1) by auto

text \<open>
  Blocking reads: a call that returns either was interrupted by a signal while the ring was
  empty (\<open>EINTR\<close>, nothing consumed), or found the ring non-empty when it was called or woken up, and
  then behaves as a non-blocking read of that moment. It never reports that no data is there.
\<close>

lemma dev_read_blocking:
  assumes f: "private_data f = Some i" "\<not> o_nonblock f" and wf: "ktunnel_wf (tunnels k ! i)" and ctu: "copy_to_user_ok ctu"
    and inv: "\<forall>m \<in> insert (kmem k) {m. Woken m \<in> set events \<or> Signalled m \<in> set events}. ktunnel_inv (tunnels k ! i) m"
    and run: "dev_read ctu f buffer len events k = Some (r, buffer', k')"
  shows "\<exists>m \<in> insert (kmem k) {m. Woken m \<in> set events \<or> Signalled m \<in> set events}.
    case ring_contents (krx_ring (tunnels k ! i)) m of
       [] \<Rightarrow> r = Inl EINTR \<and> buffer' = buffer \<and> kmem k' = m \<and> Signalled m \<in> set events
     | p # ps \<Rightarrow>
        if snd (ctu buffer (take (unat len) p)) = 0
        then r = Inr (of_nat (min (unat len) (length p))) \<and> take (min (unat len) (length p)) buffer' = take (unat len) p
          \<and> ring_contents (krx_ring (tunnels k ! i)) (kmem k') = ps
        else r = Inl EFAULT \<and> kmem k' = m"
proof -
  let ?t = "tunnels k ! i"
  obtain got m where wait: "wait_event_interruptible (try_get_read_packet ?t) (kmem k) events = Some (got, m)"
    using run f by (auto simp: dev_read_def Let_def split: option.splits)
  note s = wait_event_interruptible_sound [OF wait]
  have m: "m \<in> insert (kmem k) {m. Woken m \<in> set events \<or> Signalled m \<in> set events}" using s by auto
  then have inv_m: "ktunnel_inv ?t m" using inv by blast
  then have tg: "try_get_read_packet ?t m = None \<longleftrightarrow> ring_contents (krx_ring ?t) m = []"
    by (simp add: try_get_read_packet_eq ktunnel_inv_def)
  show ?thesis
  proof (cases "ring_contents (krx_ring ?t) m")
    case Nil
    then have "got = None" using tg s by simp
    then show ?thesis using run f wait s Nil by (intro bexI [OF _ m]) (auto simp: dev_read_def)
  next
    case (Cons p ps)
    then obtain pk where pk: "try_get_read_packet ?t m = Some pk" "got = Some pk" using tg s by auto
    then have ro: "read_out ctu ?t pk buffer len (k\<lparr>kmem := m\<rparr>) = (r, buffer', k')"
      using run f wait by (simp add: dev_read_def)
    have "if snd (ctu buffer (take (unat len) p)) = 0
        then r = Inr (of_nat (min (unat len) (length p))) \<and> take (min (unat len) (length p)) buffer' = take (unat len) p
          \<and> ring_contents (krx_ring ?t) (kmem k') = ps
        else r = Inl EFAULT \<and> k' = k\<lparr>kmem := m\<rparr>"
      using dev_read_packet [OF wf _ ctu _ _ ro] inv_m Cons pk(1) by simp
    then show ?thesis using Cons by (intro bexI [OF _ m]) (auto split: if_splits)
  qed
qed

lemma dev_read_blocking_witness:
  "\<exists>r buffer' k'. dev_read full_copy_to_user \<lparr>private_data = Some 0, o_nonblock = False\<rparr> [0, 0] 2
      [Signalled (kmem boot_kernel)] boot_kernel = Some (r, buffer', k') \<and> r = Inl EINTR"
proof -
  let ?f = "\<lparr>private_data = Some 0, o_nonblock = False\<rparr>"
  have tg: "try_get_read_packet (tunnels boot_kernel ! 0) (kmem boot_kernel) = None"
    using boot_kernel_tunnel(3,5) by (simp add: try_get_read_packet_eq ktunnel_inv_def)
  have run: "dev_read full_copy_to_user ?f [0, 0] 2 [Signalled (kmem boot_kernel)] boot_kernel =
      Some (Inl EINTR, [0, 0], boot_kernel\<lparr>kmem := kmem boot_kernel\<rparr>)"
    using tg by (simp add: dev_read_def)
  then show ?thesis
    using dev_read_blocking [OF _ _ boot_kernel_tunnel(2) full_copies_ok(1) _ run] boot_kernel_tunnel(3,5) by auto
qed



text \<open>
  \<open>poll\<close> reports the device readable exactly when a non-blocking read would find a packet.
\<close>

theorem dev_poll_correct:
  assumes "private_data f = Some i" and "ktunnel_inv (tunnels k ! i) (kmem k)"
  shows "dev_poll f k = Inr (if ring_contents (krx_ring (tunnels k ! i)) (kmem k) = [] then {} else {POLLIN, POLLRDNORM})
    \<and> (dev_poll f k = Inr {} \<longleftrightarrow> dev_read ctu (f\<lparr>o_nonblock := True\<rparr>) buffer len events k = Some (Inl EAGAIN, buffer, k))"
proof -
  let ?t = "tunnels k ! i"
  have tg: "try_get_read_packet ?t (kmem k) = None \<longleftrightarrow> ring_contents (krx_ring ?t) (kmem k) = []"
    using assms(2) by (simp add: try_get_read_packet_eq ktunnel_inv_def)
  have "dev_read ctu (f\<lparr>o_nonblock := True\<rparr>) buffer len events k = Some (Inl EAGAIN, buffer, k) \<longleftrightarrow>
      try_get_read_packet ?t (kmem k) = None"
  proof (cases "try_get_read_packet ?t (kmem k)")
    case (Some pk)
    have "read_out ctu ?t pk buffer len k \<noteq> (Inl EAGAIN, buffer, k)"
      by (simp add: read_out_def Let_def split: prod.splits)
    then show ?thesis using assms(1) Some by (simp add: dev_read_def)
  qed (use assms(1) in \<open>simp add: dev_read_def\<close>)
  then show ?thesis using dev_poll_iff [OF assms] tg by auto
qed

theorem dev_poll_correct_witness: "dev_poll \<lparr>private_data = Some 0, o_nonblock = True\<rparr> boot_kernel = Inr {}"
  using dev_poll_correct [of "\<lparr>private_data = Some 0, o_nonblock = True\<rparr>" 0 boot_kernel] boot_kernel_tunnel(3,5) by simp

text \<open>
  C40: a mapping that \<open>dev_mmap\<close> hands to \<open>remap_pfn_range\<close> lies inside the shared buffer of the device: the
  physical range from the page frame requested, of the size requested, is part of it. (The shared
  buffer starts at a page boundary and ends inside the address space.)
\<close>

theorem dev_mmap_bounds:
  assumes f: "private_data f = Some i" and al: "4096 dvd unat (shared_buffer_address (kconfig (tunnels k ! i)))"
    and top: "unat (shared_buffer_address (kconfig (tunnels k ! i))) + unat (shared_buffer_size (kconfig (tunnels k ! i))) \<le> 2 ^ 32"
    and run: "dev_mmap cached (\<lambda>start pfn size prot. if ok start pfn size prot then Inr () else Inl e) f vma k = (Inr (), vma')"
  shows "\<exists>pfn prot. ok (vm_start vma) pfn (vm_end vma - vm_start vma) prot
    \<and> unat (shared_buffer_address (kconfig (tunnels k ! i))) \<le> unat pfn * 4096
    \<and> unat pfn * 4096 + unat (vm_end vma - vm_start vma)
       \<le> unat (shared_buffer_address (kconfig (tunnels k ! i))) + unat (shared_buffer_size (kconfig (tunnels k ! i)))
    \<and> VM_SHARED \<in> vm_flags vma \<and> vm_flags vma' = vm_flags vma \<union> {VM_PFNMAP, VM_DONTEXPAND, VM_DONTDUMP}"
proof -
  let ?b = "shared_buffer_address (kconfig (tunnels k ! i))" and ?n = "shared_buffer_size (kconfig (tunnels k ! i))"
  let ?off = "push_bit PAGE_SHIFT (vm_pgoff vma)" and ?sz = "vm_end vma - vm_start vma"
  let ?pfn = "drop_bit PAGE_SHIFT (?b + ?off)"
  have c: "VM_SHARED \<in> vm_flags vma" "?off < ?n" "?sz \<le> ?n - ?off"
      "ok (vm_start vma) ?pfn ?sz (Some (if cached then SharedWriteBack else NonCached))"
      "vm_flags vma' = vm_flags vma \<union> {VM_PFNMAP, VM_DONTEXPAND, VM_DONTDUMP}"
    using run f by (auto simp: dev_mmap_def Let_def not_le not_less split: if_splits)
  have off: "unat ?off < unat ?n" using c(2) by (simp add: word_less_nat_alt)
  have "unat (?n - ?off) = unat ?n - unat ?off" using off by (simp add: unat_sub word_le_nat_alt)
  then have sz: "unat ?off + unat ?sz \<le> unat ?n" using c(3) off by (simp add: word_le_nat_alt)
  have "unat ?b + unat ?off < 2 ^ 32" using top off by linarith
  from push_drop_page [OF this al unat_page_offset]
  have "unat ?pfn * 4096 = unat ?b + unat ?off" .
  then show ?thesis using c sz by (intro exI [of _ ?pfn] exI) auto
qed

theorem dev_mmap_bounds_witness:
  "\<exists>pfn. unat pfn * 4096 \<ge> 0xFFFFE000 \<and> unat pfn * 4096 + 0x1000 \<le> 0xFFFFE000 + 0x1000 \<and>
     (\<exists>vma'. dev_mmap True (\<lambda>start p size prot. if p = pfn then Inr () else Inl EINVAL)
       \<lparr>private_data = Some 0, o_nonblock = True\<rparr>
       \<lparr>vm_start = 0x1000, vm_end = 0x2000, vm_pgoff = 0, vm_flags = {VM_SHARED}, vm_page_prot = None\<rparr> boot_kernel = (Inr (), vma'))"
proof -
  let ?vma = "\<lparr>vm_start = 0x1000, vm_end = 0x2000, vm_pgoff = 0, vm_flags = {VM_SHARED}, vm_page_prot = None\<rparr>"
  let ?f = "\<lparr>private_data = Some 0, o_nonblock = True\<rparr>"
  define pfn where "pfn = drop_bit PAGE_SHIFT (0xFFFFE000 :: u32)"
  have cfg: "shared_buffer_address (kconfig (tunnels boot_kernel ! 0)) = 0xFFFFE000"
    "shared_buffer_size (kconfig (tunnels boot_kernel ! 0)) = 0x1000"
    unfolding boot_kernel_tunnel(1) by (simp_all add: boot_instance_def tunnel_configs_def)
  have "\<exists>vma'. dev_mmap True (\<lambda>start p size prot. if p = pfn then Inr () else Inl EINVAL) ?f ?vma boot_kernel = (Inr (), vma')"
    unfolding dev_mmap_def
    by (simp only: kfile.simps vm_area.simps option.case Let_def cfg push_bit_of_0 add_0_right pfn_def [symmetric]) simp
  then obtain vma' where run: "dev_mmap True (\<lambda>start p size prot. if p = pfn then Inr () else Inl EINVAL) ?f ?vma boot_kernel = (Inr (), vma')" ..
  have f: "private_data ?f = Some 0" by simp
  have al: "4096 dvd unat (shared_buffer_address (kconfig (tunnels boot_kernel ! 0)))" by (simp add: cfg)
  have top: "unat (shared_buffer_address (kconfig (tunnels boot_kernel ! 0))) +
      unat (shared_buffer_size (kconfig (tunnels boot_kernel ! 0))) \<le> 2 ^ 32" by (simp add: cfg)
  have "0xFFFFE000 \<le> unat pfn * 4096 \<and> unat pfn * 4096 + 0x1000 \<le> 0xFFFFE000 + 0x1000"
    using dev_mmap_bounds [where ok = "\<lambda>_ p _ _. p = pfn", OF f al top run] by (simp add: cfg)
  then show ?thesis using run by blast
qed

text \<open>
  A history of opens and releases of one device. Only a file whose open succeeded is released.
\<close>

datatype file_op = Open | Release

fun file_run :: "nat \<Rightarrow> file_op list \<Rightarrow> nat \<Rightarrow> kernel \<Rightarrow> nat \<times> kernel" where
  "file_run i [] opened k = (opened, k)"
| "file_run i (Open # ops) opened k =
     (case dev_open i \<lparr>private_data = None, o_nonblock = False\<rparr> k of
        (Inr _, _, k') \<Rightarrow> file_run i ops (Suc opened) k'
      | (Inl _, _, k') \<Rightarrow> file_run i ops opened k')"
| "file_run i (Release # ops) opened k =
     (if opened = 0 then file_run i ops opened k
      else file_run i ops (opened - 1) (snd (dev_release \<lparr>private_data = Some i, o_nonblock = False\<rparr> k)))"

text \<open>
  A device is open at most once at any time, whatever the order of opens and releases: the
  number of open files is 1 when the flag of the device is set and 0 otherwise.
\<close>

lemma open_exclusive:
  assumes "i < DEVICE_COUNT" and "length (tunnels k) = DEVICE_COUNT"
    and "opened = (if is_open (tunnels k ! i) then 1 else 0)"
    and "file_run i ops opened k = (opened', k')"
  shows "opened' = (if is_open (tunnels k' ! i) then 1 else 0) \<and> opened' \<le> 1"
  using assms(2-)
proof (induction ops arbitrary: opened k)
  case (Cons op ops)
  let ?t = "tunnels k ! i"
  let ?set = "\<lambda>b. k\<lparr>tunnels := (tunnels k)[i := ?t\<lparr>is_open := b\<rparr>]\<rparr>"
  have upd: "length (tunnels (?set b)) = DEVICE_COUNT" "is_open (tunnels (?set b) ! i) = b" for b
    using Cons.prems(1) assms(1) by simp_all
  show ?case
  proof (cases op)
    case Open
    show ?thesis
    proof (cases "is_open ?t")
      case True
      then show ?thesis using Cons.IH [OF Cons.prems(1,2)] Cons.prems(3) assms(1) Open by (simp add: dev_open_cases)
    next
      case False
      then show ?thesis
        using Cons.IH [OF upd(1) [of True], of 1] upd(2) [of True] Cons.prems(2,3) assms(1) Open by (simp add: dev_open_cases)
    qed
  next
    case Release
    show ?thesis
    proof (cases "is_open ?t")
      case True
      then show ?thesis
        using Cons.IH [OF upd(1) [of False], of 0] upd(2) [of False] Cons.prems(2,3) Release by (simp add: dev_release_def)
    next
      case False
      then show ?thesis using Cons.IH [OF Cons.prems(1,2)] Cons.prems(2,3) Release by simp
    qed
  qed
qed auto

lemma open_exclusive_witness: "fst (file_run 0 [Open, Open, Release, Open] 0 boot_kernel) \<le> 1"
proof -
  obtain o' k' where run: "file_run 0 [Open, Open, Release, Open] 0 boot_kernel = (o', k')" by fastforce
  have "\<not> is_open (tunnels boot_kernel ! 0)" unfolding boot_kernel_tunnel(1) by (simp add: boot_instance_def Let_def)
  then show ?thesis
    using open_exclusive [OF _ _ _ run] run by (simp add: DEVICE_COUNT_def boot_kernel_def boot_world_def)
qed

text \<open>
  The module's table gives device 2 a shared buffer of \<open>0x3000\<close> bytes where the firmware has
  \<open>0x2000\<close>; the larger area runs into the shared buffer of device 0. All other sizes agree.
\<close>

lemma shared_buffer_overlap:
  "\<not> disjoint_regions (unat (shared_buffer_address (tunnel_configs ! 2))) (unat (shared_buffer_size (tunnel_configs ! 2)))
       (unat (shared_buffer_address (tunnel_configs ! 0))) (unat (shared_buffer_size (tunnel_configs ! 0)))
   \<and> disjoint_regions (unat (sharedMemoryAddress (f_configs ! 2))) (unat (sharedMemorySize (f_configs ! 2)))
       (unat (sharedMemoryAddress (f_configs ! 0))) (unat (sharedMemorySize (f_configs ! 0)))
   \<and> map (\<lambda>i. shared_buffer_size (tunnel_configs ! i)) [0, 1, 3, 4, 5] = map (\<lambda>i. sharedMemorySize (f_configs ! i)) [0, 1, 3, 4, 5]"
  by (simp add: disjoint_regions_def tunnel_configs_def f_configs_def)


text \<open>A kernel in which mapping one of the buffers of the third device fails.\<close>

definition demo_env :: "u32 set \<Rightarrow> kenv" where
  "demo_env bad = \<lparr>alloc_chrdev_region_ret = Inr 0, mkdev = (\<lambda>first i. of_nat (Suc i)), class_create_err = None,
     device_create_err = (\<lambda>_. None), cdev_add_ret = (\<lambda>_. 0), remap_ok = (\<lambda>a. a \<notin> bad)\<rparr>"

definition demo_module :: module where
  "demo_module = \<lparr>mtunnels = replicate DEVICE_COUNT (boot_instance True 0), first_device_number = 0, live = {}, faulty = False\<rparr>"

lemma demo_ok: "fresh_module demo_module" "mkdev_ok (demo_env bad)"
proof -
  show "fresh_module demo_module" by (simp add: fresh_module_def demo_module_def)
  have "(of_nat (Suc i) :: u32) = of_nat (Suc j) \<longleftrightarrow> i = j" "(of_nat (Suc i) :: u32) \<noteq> 0" if "i < 6" "j < 6" for i j
    using that by (simp_all add: word_unat_eq_iff unat_of_nat del: of_nat_Suc)
  then show "mkdev_ok (demo_env bad)" unfolding mkdev_ok_def demo_env_def DEVICE_COUNT_def by force
qed




end
