(* ===== verification/Interrupt.thy ===== *)
theory Interrupt
  imports Prelude "HOL-Library.Monad_Syntax"
begin

text \<open>
  Interrupt services of the CPU1 application: \<open>src/src/interrupt.c\<close> and \<open>interrupt.h\<close>, over
  the functions of the board support package they call (the GIC driver
  \<open>bsp/.../scugic_v3_9/src/xscugic.c\<close>). The state holds the processor status register, the
  driver's handler table and the registers of the GIC distributor. The only hardware behaviour
  modelled is the register semantics that \<open>xscugic_hw.h\<close> documents: the enable-set and
  enable-clear banks set and clear bits of one enable bank, and a write to the software
  interrupt register makes an interrupt pending on the cores of its target list.

  A failed \<open>Xil_Assert\<close> does not return (\<open>Xil_AssertWait\<close> is true), so it is the value
  \<open>None\<close>.
\<close>

section \<open>State\<close>

text \<open>\<open>h\<close> is the type of handler functions, \<open>u\<close> that of their callback argument.\<close>

record ('h, 'u) cpu1 =
  cpsr :: u32
  gic_ready :: bool
  HandlerTable :: "('h \<times> 'u) list"
  dist :: "u32 \<Rightarrow> u32"
  pending :: "u32 \<Rightarrow> bool"

definition XSCUGIC_MAX_NUM_INTR_INPUTS :: u32 where
  "XSCUGIC_MAX_NUM_INTR_INPUTS = 95"

definition XSCUGIC_ENABLE_SET_OFFSET :: u32 where "XSCUGIC_ENABLE_SET_OFFSET = 0x100"
definition XSCUGIC_DISABLE_OFFSET :: u32 where "XSCUGIC_DISABLE_OFFSET = 0x180"
definition XSCUGIC_SFI_TRIG_OFFSET :: u32 where "XSCUGIC_SFI_TRIG_OFFSET = 0xF00"

definition XSCUGIC_PRIORITY_OFFSET_CALC :: "u32 \<Rightarrow> u32" where
  "XSCUGIC_PRIORITY_OFFSET_CALC i = 0x400 + (i div 4) * 4"

definition XSCUGIC_INT_CFG_OFFSET_CALC :: "u32 \<Rightarrow> u32" where
  "XSCUGIC_INT_CFG_OFFSET_CALC i = 0xC00 + (i div 16) * 4"

definition XSCUGIC_SPI_TARGET_OFFSET_CALC :: "u32 \<Rightarrow> u32" where
  "XSCUGIC_SPI_TARGET_OFFSET_CALC i = 0x800 + (i div 4) * 4"

text \<open>A store to a distributor register. The program runs on CPU1, bit 1 of a target list.\<close>

definition DistWriteReg :: "u32 \<Rightarrow> u32 \<Rightarrow> ('h, 'u, 'z) cpu1_scheme \<Rightarrow> ('h, 'u, 'z) cpu1_scheme" where
  "DistWriteReg off v s =
    (if XSCUGIC_ENABLE_SET_OFFSET \<le> off \<and> off < XSCUGIC_DISABLE_OFFSET
     then s\<lparr>dist := (dist s)(off := dist s off OR v)\<rparr>
     else if XSCUGIC_DISABLE_OFFSET \<le> off \<and> off < 0x200
     then s\<lparr>dist := (dist s)(off - 0x80 := dist s (off - 0x80) AND NOT v)\<rparr>
     else if off = XSCUGIC_SFI_TRIG_OFFSET
     then (if bit v 17 then s\<lparr>pending := (pending s)(v AND 0xF := True)\<rparr> else s)
     else s\<lparr>dist := (dist s)(off := v)\<rparr>)"

section \<open>GIC driver\<close>

definition Xil_Assert :: "bool \<Rightarrow> unit option" where
  "Xil_Assert b = (if b then Some () else None)"

lemma Xil_Assert_bind [simp]:
  "Option.bind (Xil_Assert b) f = (if b then f () else None)"
  by (simp add: Xil_Assert_def)

definition XScuGic_Connect ::
  "u32 \<Rightarrow> 'h \<Rightarrow> 'u \<Rightarrow> ('h, 'u, 'z) cpu1_scheme \<Rightarrow> ('h, 'u, 'z) cpu1_scheme option" where
  "XScuGic_Connect i h u s = do {
     Xil_Assert (i < XSCUGIC_MAX_NUM_INTR_INPUTS);
     Xil_Assert (gic_ready s);
     Some (s\<lparr>HandlerTable := (HandlerTable s)[unat i := (h, u)]\<rparr>) }"

definition XScuGic_Enable :: "u32 \<Rightarrow> ('h, 'u, 'z) cpu1_scheme \<Rightarrow> ('h, 'u, 'z) cpu1_scheme option" where
  "XScuGic_Enable i s = do {
     Xil_Assert (i < XSCUGIC_MAX_NUM_INTR_INPUTS);
     Xil_Assert (gic_ready s);
     Some (DistWriteReg (XSCUGIC_ENABLE_SET_OFFSET + (i div 32) * 4)
             (push_bit (unat (i mod 32)) 1) s) }"

definition XScuGic_Disable :: "u32 \<Rightarrow> ('h, 'u, 'z) cpu1_scheme \<Rightarrow> ('h, 'u, 'z) cpu1_scheme option" where
  "XScuGic_Disable i s = do {
     Xil_Assert (i < XSCUGIC_MAX_NUM_INTR_INPUTS);
     Xil_Assert (gic_ready s);
     Some (DistWriteReg (XSCUGIC_DISABLE_OFFSET + (i div 32) * 4)
             (push_bit (unat (i mod 32)) 1) s) }"

text \<open>Replacing a \<open>w\<close>-bit field of a register: clear under the shifted mask, then merge.\<close>

definition set_field :: "u32 \<Rightarrow> nat \<Rightarrow> u32 \<Rightarrow> u32 \<Rightarrow> u32" where
  "set_field fmask k v r = (r AND NOT (push_bit k fmask)) OR push_bit k v"

definition XScuGic_SetPriorityTriggerType ::
  "u32 \<Rightarrow> u8 \<Rightarrow> u8 \<Rightarrow> ('h, 'u, 'z) cpu1_scheme \<Rightarrow> ('h, 'u, 'z) cpu1_scheme option" where
  "XScuGic_SetPriorityTriggerType i prio trigger s = do {
     Xil_Assert (gic_ready s);
     Xil_Assert (i < XSCUGIC_MAX_NUM_INTR_INPUTS);
     Xil_Assert (trigger \<le> 3);
     Xil_Assert (prio \<le> 248);
     let po = XSCUGIC_PRIORITY_OFFSET_CALC i;
     let s1 = DistWriteReg po
                (set_field 0xFF (unat (i mod 4) * 8) (ucast (prio AND 0xF8)) (dist s po)) s;
     let co = XSCUGIC_INT_CFG_OFFSET_CALC i;
     Some (DistWriteReg co
             (set_field 3 (unat (i mod 16) * 2) (ucast trigger) (dist s1 co)) s1) }"

definition XScuGic_InterruptMaptoCpu ::
  "u8 \<Rightarrow> u32 \<Rightarrow> ('h, 'u, 'z) cpu1_scheme \<Rightarrow> ('h, 'u, 'z) cpu1_scheme" where
  "XScuGic_InterruptMaptoCpu c i s =
    (let o4 = XSCUGIC_SPI_TARGET_OFFSET_CALC i;
         target = push_bit (unat c) (1 :: u8)
     in DistWriteReg o4 (set_field 0xFF (unat (i AND 3) * 8) (ucast target) (dist s o4)) s)"

section \<open>\<open>interrupt.c\<close>\<close>

definition INTERRUPT_SGI_FIRST :: u32 where "INTERRUPT_SGI_FIRST = 0"
definition INTERRUPT_SGI_T1 :: u32 where "INTERRUPT_SGI_T1 = 2"
definition INTERRUPT_SGI_T2 :: u32 where "INTERRUPT_SGI_T2 = 3"
definition INTERRUPT_SGI_LAST :: u32 where "INTERRUPT_SGI_LAST = 15"
definition INTERRUPT_SCU_TIMER :: u32 where "INTERRUPT_SCU_TIMER = 29"

definition INTERRUPT_PRIORITY_T1 :: u8 where "INTERRUPT_PRIORITY_T1 = push_bit 3 2"
definition INTERRUPT_PRIORITY_T2 :: u8 where "INTERRUPT_PRIORITY_T2 = push_bit 3 3"
definition INTERRUPT_PRIORITY_SCHEDULER_TIMER :: u8 where "INTERRUPT_PRIORITY_SCHEDULER_TIMER = 0"
definition INTERRUPT_TRIGGER_TYPE_HIGH :: u8 where "INTERRUPT_TRIGGER_TYPE_HIGH = 1"

definition INTERRUPT_RegisterHandler ::
  "u32 \<Rightarrow> 'h \<Rightarrow> 'u \<Rightarrow> ('h, 'u, 'z) cpu1_scheme \<Rightarrow> ('h, 'u, 'z) cpu1_scheme option" where
  "INTERRUPT_RegisterHandler i h u s = XScuGic_Connect i h u s"

definition INTERRUPT_Enable :: "u32 \<Rightarrow> ('h, 'u, 'z) cpu1_scheme \<Rightarrow> ('h, 'u, 'z) cpu1_scheme option" where
  "INTERRUPT_Enable i s = XScuGic_Enable i s"

definition INTERRUPT_Disable :: "u32 \<Rightarrow> ('h, 'u, 'z) cpu1_scheme \<Rightarrow> ('h, 'u, 'z) cpu1_scheme option" where
  "INTERRUPT_Disable i s = XScuGic_Disable i s"

definition INTERRUPT_SetPriorityAndTriggerType ::
  "u32 \<Rightarrow> u8 \<Rightarrow> u8 \<Rightarrow> ('h, 'u, 'z) cpu1_scheme \<Rightarrow> ('h, 'u, 'z) cpu1_scheme option" where
  "INTERRUPT_SetPriorityAndTriggerType i prio trigger s =
     XScuGic_SetPriorityTriggerType i prio trigger s"

definition INTERRUPT_BindSPIToThisCPU ::
  "u32 \<Rightarrow> ('h, 'u, 'z) cpu1_scheme \<Rightarrow> ('h, 'u, 'z) cpu1_scheme" where
  "INTERRUPT_BindSPIToThisCPU i s = XScuGic_InterruptMaptoCpu 1 i s"

definition INTERRUPT_TriggerLocalSGI ::
  "u32 \<Rightarrow> ('h, 'u, 'z) cpu1_scheme \<Rightarrow> ('h, 'u, 'z) cpu1_scheme option" where
  "INTERRUPT_TriggerLocalSGI i s = do {
     Xil_Assert (INTERRUPT_SGI_FIRST \<le> i \<and> i \<le> INTERRUPT_SGI_LAST);
     let sgi = (push_bit 16 2 OR i) AND (0x00FF0000 OR 0x0000000F);
     Some (DistWriteReg XSCUGIC_SFI_TRIG_OFFSET sgi s) }"

section \<open>Critical sections (\<open>interrupt.h\<close>)\<close>

definition XIL_EXCEPTION_ALL :: u32 where "XIL_EXCEPTION_ALL = 0xC0"

definition INTERRUPT_EnterCritical ::
  "('h, 'u, 'z) cpu1_scheme \<Rightarrow> u32 \<times> ('h, 'u, 'z) cpu1_scheme" where
  "INTERRUPT_EnterCritical s = (cpsr s, s\<lparr>cpsr := cpsr s OR XIL_EXCEPTION_ALL\<rparr>)"

definition INTERRUPT_ExitCritical ::
  "u32 \<Rightarrow> ('h, 'u, 'z) cpu1_scheme \<Rightarrow> ('h, 'u, 'z) cpu1_scheme" where
  "INTERRUPT_ExitCritical old s =
     s\<lparr>cpsr := (cpsr s AND NOT XIL_EXCEPTION_ALL) OR (old AND XIL_EXCEPTION_ALL)\<rparr>"

text \<open>
  The macro is a \<open>for\<close> loop over the saved status word: the body runs while the word is not
  zero, and the step restores the masks and zeroes it, so the body runs at most once.
\<close>

definition INTERRUPT_CriticalSection ::
  "(('h, 'u, 'z) cpu1_scheme \<Rightarrow> ('h, 'u, 'z) cpu1_scheme option) \<Rightarrow>
   ('h, 'u, 'z) cpu1_scheme \<Rightarrow> ('h, 'u, 'z) cpu1_scheme option" where
  "INTERRUPT_CriticalSection body s =
    (let (old, s1) = INTERRUPT_EnterCritical s
     in if old \<noteq> 0 then map_option (INTERRUPT_ExitCritical old) (body s1) else Some s1)"

section \<open>Views of the distributor\<close>

definition gic_enabled :: "('h, 'u, 'z) cpu1_scheme \<Rightarrow> u32 \<Rightarrow> bool" where
  "gic_enabled s i = bit (dist s (XSCUGIC_ENABLE_SET_OFFSET + (i div 32) * 4)) (unat (i mod 32))"

definition gic_priority :: "('h, 'u, 'z) cpu1_scheme \<Rightarrow> u32 \<Rightarrow> u32" where
  "gic_priority s i = drop_bit (unat (i mod 4) * 8) (dist s (XSCUGIC_PRIORITY_OFFSET_CALC i)) AND 0xFF"

definition gic_trigger :: "('h, 'u, 'z) cpu1_scheme \<Rightarrow> u32 \<Rightarrow> u32" where
  "gic_trigger s i = drop_bit (unat (i mod 16) * 2) (dist s (XSCUGIC_INT_CFG_OFFSET_CALC i)) AND 3"

lemmas gic_offsets = XSCUGIC_ENABLE_SET_OFFSET_def XSCUGIC_DISABLE_OFFSET_def
  XSCUGIC_SFI_TRIG_OFFSET_def XSCUGIC_PRIORITY_OFFSET_CALC_def XSCUGIC_INT_CFG_OFFSET_CALC_def
  XSCUGIC_MAX_NUM_INTR_INPUTS_def

section \<open>Register arithmetic\<close>

lemma unat_gic_offset:
  assumes "i < XSCUGIC_MAX_NUM_INTR_INPUTS" and "k \<in> {4, 16, 32}" and "b \<in> {0x100, 0x180, 0x400, 0xC00}"
  shows "unat ((b :: u32) + (i div k) * 4) = unat b + unat i div unat k * 4"
proof -
  from assms(1) have i: "unat i < 95" by (simp add: gic_offsets word_less_nat_alt)
  have "unat i div unat k \<le> unat i" by simp
  with i have "unat i div unat k < 95" by linarith
  with assms(2,3) show ?thesis
    by (auto simp: unat_word_ariths unat_div_distrib)
qed

lemma gic_offset_parts:
  assumes "i < XSCUGIC_MAX_NUM_INTR_INPUTS"
  shows "unat (XSCUGIC_ENABLE_SET_OFFSET + (i div 32) * 4) = 0x100 + unat i div 32 * 4"
    and "unat (XSCUGIC_DISABLE_OFFSET + (i div 32) * 4) = 0x180 + unat i div 32 * 4"
    and "unat (XSCUGIC_PRIORITY_OFFSET_CALC i) = 0x400 + unat i div 4 * 4"
    and "unat (XSCUGIC_INT_CFG_OFFSET_CALC i) = 0xC00 + unat i div 16 * 4"
    and "unat i < 95"
  using assms unat_gic_offset [OF assms, of 32 "0x100"] unat_gic_offset [OF assms, of 32 "0x180"]
    unat_gic_offset [OF assms, of 4 "0x400"] unat_gic_offset [OF assms, of 16 "0xC00"]
  by (simp_all add: gic_offsets word_less_nat_alt)

lemma disable_bank:
  assumes "i < XSCUGIC_MAX_NUM_INTR_INPUTS"
  shows "XSCUGIC_DISABLE_OFFSET + (i div 32) * 4 - 0x80 = XSCUGIC_ENABLE_SET_OFFSET + (i div 32) * 4"
  by (simp add: gic_offsets)

lemma DistWriteReg_enable:
  assumes "i < XSCUGIC_MAX_NUM_INTR_INPUTS"
  shows "DistWriteReg (XSCUGIC_ENABLE_SET_OFFSET + (i div 32) * 4) v s =
    s\<lparr>dist := (dist s)(XSCUGIC_ENABLE_SET_OFFSET + (i div 32) * 4 :=
        dist s (XSCUGIC_ENABLE_SET_OFFSET + (i div 32) * 4) OR v)\<rparr>"
proof -
  note p = gic_offset_parts [OF assms]
  have "XSCUGIC_ENABLE_SET_OFFSET \<le> XSCUGIC_ENABLE_SET_OFFSET + (i div 32) * 4"
    "XSCUGIC_ENABLE_SET_OFFSET + (i div 32) * 4 < XSCUGIC_DISABLE_OFFSET"
    using p(5) by (simp_all only: word_le_nat_alt word_less_nat_alt p(1)) (simp_all add: gic_offsets)
  then show ?thesis by (simp add: DistWriteReg_def)
qed

lemma DistWriteReg_disable:
  assumes "i < XSCUGIC_MAX_NUM_INTR_INPUTS"
  shows "DistWriteReg (XSCUGIC_DISABLE_OFFSET + (i div 32) * 4) v s =
    s\<lparr>dist := (dist s)(XSCUGIC_ENABLE_SET_OFFSET + (i div 32) * 4 :=
        dist s (XSCUGIC_ENABLE_SET_OFFSET + (i div 32) * 4) AND NOT v)\<rparr>"
proof -
  note p = gic_offset_parts [OF assms]
  have "\<not> XSCUGIC_DISABLE_OFFSET + (i div 32) * 4 < XSCUGIC_DISABLE_OFFSET"
    "XSCUGIC_DISABLE_OFFSET \<le> XSCUGIC_DISABLE_OFFSET + (i div 32) * 4"
    "XSCUGIC_DISABLE_OFFSET + (i div 32) * 4 < 0x200"
    using p(5) by (simp_all only: word_le_nat_alt word_less_nat_alt p(2)) (simp_all add: gic_offsets)
  then show ?thesis by (simp only: DistWriteReg_def disable_bank [OF assms]) simp
qed

lemma DistWriteReg_plain:
  assumes "0x200 \<le> off" and "off \<noteq> XSCUGIC_SFI_TRIG_OFFSET"
  shows "DistWriteReg off v s = s\<lparr>dist := (dist s)(off := v)\<rparr>"
  using assms by (auto simp: DistWriteReg_def gic_offsets word_le_nat_alt word_less_nat_alt)

lemma DistWriteReg_priority:
  assumes "i < XSCUGIC_MAX_NUM_INTR_INPUTS"
  shows "DistWriteReg (XSCUGIC_PRIORITY_OFFSET_CALC i) v s =
      s\<lparr>dist := (dist s)(XSCUGIC_PRIORITY_OFFSET_CALC i := v)\<rparr>"
    and "DistWriteReg (XSCUGIC_INT_CFG_OFFSET_CALC i) v s =
      s\<lparr>dist := (dist s)(XSCUGIC_INT_CFG_OFFSET_CALC i := v)\<rparr>"
proof -
  note p = gic_offset_parts [OF assms]
  have le: "0x200 \<le> XSCUGIC_PRIORITY_OFFSET_CALC i" "XSCUGIC_PRIORITY_OFFSET_CALC i \<noteq> XSCUGIC_SFI_TRIG_OFFSET"
    "0x200 \<le> XSCUGIC_INT_CFG_OFFSET_CALC i" "XSCUGIC_INT_CFG_OFFSET_CALC i \<noteq> XSCUGIC_SFI_TRIG_OFFSET"
    using p(5) by (simp_all only: word_le_nat_alt word_unat_eq_iff p(3,4))
      (simp_all add: XSCUGIC_SFI_TRIG_OFFSET_def)
  show "DistWriteReg (XSCUGIC_PRIORITY_OFFSET_CALC i) v s =
      s\<lparr>dist := (dist s)(XSCUGIC_PRIORITY_OFFSET_CALC i := v)\<rparr>"
    by (rule DistWriteReg_plain [OF le(1,2)])
  show "DistWriteReg (XSCUGIC_INT_CFG_OFFSET_CALC i) v s =
      s\<lparr>dist := (dist s)(XSCUGIC_INT_CFG_OFFSET_CALC i := v)\<rparr>"
    by (rule DistWriteReg_plain [OF le(3,4)])
qed

text \<open>Different register banks do not alias.\<close>

lemma gic_banks_apart:
  assumes "i < XSCUGIC_MAX_NUM_INTR_INPUTS" and "j < XSCUGIC_MAX_NUM_INTR_INPUTS"
  shows "XSCUGIC_ENABLE_SET_OFFSET + (i div 32) * 4 \<noteq> XSCUGIC_PRIORITY_OFFSET_CALC j"
    and "XSCUGIC_ENABLE_SET_OFFSET + (i div 32) * 4 \<noteq> XSCUGIC_INT_CFG_OFFSET_CALC j"
    and "XSCUGIC_PRIORITY_OFFSET_CALC i \<noteq> XSCUGIC_INT_CFG_OFFSET_CALC j"
    and "XSCUGIC_ENABLE_SET_OFFSET + (i div 32) * 4 = XSCUGIC_ENABLE_SET_OFFSET + (j div 32) * 4
         \<longleftrightarrow> unat i div 32 = unat j div 32"
    and "XSCUGIC_PRIORITY_OFFSET_CALC i = XSCUGIC_PRIORITY_OFFSET_CALC j \<longleftrightarrow> unat i div 4 = unat j div 4"
    and "XSCUGIC_INT_CFG_OFFSET_CALC i = XSCUGIC_INT_CFG_OFFSET_CALC j \<longleftrightarrow> unat i div 16 = unat j div 16"
proof -
  note p = gic_offset_parts [OF assms(1)] and q = gic_offset_parts [OF assms(2)]
  show "XSCUGIC_ENABLE_SET_OFFSET + (i div 32) * 4 \<noteq> XSCUGIC_PRIORITY_OFFSET_CALC j"
    "XSCUGIC_ENABLE_SET_OFFSET + (i div 32) * 4 \<noteq> XSCUGIC_INT_CFG_OFFSET_CALC j"
    "XSCUGIC_PRIORITY_OFFSET_CALC i \<noteq> XSCUGIC_INT_CFG_OFFSET_CALC j"
    using p(5) q(5) div_le_dividend [of "unat i" 32] div_le_dividend [of "unat i" 4]
    by (simp_all only: word_unat_eq_iff p(1-4) q(1-4))
  show "XSCUGIC_ENABLE_SET_OFFSET + (i div 32) * 4 = XSCUGIC_ENABLE_SET_OFFSET + (j div 32) * 4
         \<longleftrightarrow> unat i div 32 = unat j div 32"
    "XSCUGIC_PRIORITY_OFFSET_CALC i = XSCUGIC_PRIORITY_OFFSET_CALC j \<longleftrightarrow> unat i div 4 = unat j div 4"
    "XSCUGIC_INT_CFG_OFFSET_CALC i = XSCUGIC_INT_CFG_OFFSET_CALC j \<longleftrightarrow> unat i div 16 = unat j div 16"
    by (simp_all only: word_unat_eq_iff p q) simp_all
qed

text \<open>Fields of one register: the written field reads back, the others are kept.\<close>

lemma set_field_same:
  assumes "k + w \<le> 32" and "v AND mask w = v"
  shows "drop_bit k (set_field (mask w) k v r) AND mask w = v"
proof (rule bit_word_eqI)
  fix n
  assume "n < LENGTH(32)"
  have "bit v n \<longleftrightarrow> bit v n \<and> n < w"
    using assms(2) by (metis bit_and_iff bit_mask_iff)
  then show "bit (drop_bit k (set_field (mask w) k v r) AND mask w) n = bit v n"
    using assms(1) by (auto simp: set_field_def bit_simps)
qed

lemma set_field_other:
  assumes "k + w \<le> l \<or> l + w \<le> k" and "k + w \<le> 32" and "v AND mask w = v"
  shows "drop_bit l (set_field (mask w) k v r) AND mask w = drop_bit l r AND mask w"
proof (rule bit_word_eqI)
  fix n
  assume n: "n < LENGTH(32)"
  have v: "bit v m \<longrightarrow> m < w" for m
    using assms(3) by (metis bit_and_iff bit_mask_iff)
  show "bit (drop_bit l (set_field (mask w) k v r) AND mask w) n = bit (drop_bit l r AND mask w) n"
    using assms(1,2) n v [of "l + n - k"] bit_imp_le_length [of r "l + n"]
    by (auto simp: set_field_def bit_simps)
qed

lemma set_field_array:
  assumes "(a + 1) * w \<le> 32" and "v AND mask w = v"
  shows "drop_bit (b * w) (set_field (mask w) (a * w) v r) AND mask w =
    (if a = b then v else drop_bit (b * w) r AND mask w)"
proof (cases "a = b")
  case True
  with assms set_field_same [of "a * w" w v r] show ?thesis by (simp add: add.commute)
next
  case False
  then have "Suc a \<le> b \<or> Suc b \<le> a" by arith
  then have "a * w + w \<le> b * w \<or> b * w + w \<le> a * w"
    using mult_le_mono1 [of "Suc a" b w] mult_le_mono1 [of "Suc b" a w] by (auto simp: add.commute)
  with False assms set_field_other [of "a * w" w "b * w" v r] show ?thesis
    by (simp add: add.commute)
qed

section \<open>What the operations do\<close>

text \<open>Two interrupt numbers with the same register and the same bit position are equal.\<close>

lemma same_reg_bit:
  fixes i j :: u32
  assumes "unat i div k = unat j div k" and "unat i mod k = unat j mod k"
  shows "i = j"
  using assms by (metis div_mult_mod_eq word_unat_eq_iff)

lemma unat_mod_num [simp]:
  "unat ((i :: u32) mod 4) = unat i mod 4" "unat (i mod 16) = unat i mod 16"
  "unat (i mod 32) = unat i mod 32"
  by (simp_all add: unat_mod_distrib)

lemma mask_numerals: "mask 8 = (0xFF :: u32)" "mask 2 = (3 :: u32)"
  by (simp_all add: mask_eq_exp_minus_1)

lemma gic_enabled_after_enable:
  assumes "i < XSCUGIC_MAX_NUM_INTR_INPUTS" and "gic_ready s"
  obtains s' where "INTERRUPT_Enable i s = Some s'"
    and "\<forall>j < XSCUGIC_MAX_NUM_INTR_INPUTS. gic_enabled s' j \<longleftrightarrow> j = i \<or> gic_enabled s j"
    and "\<forall>j < XSCUGIC_MAX_NUM_INTR_INPUTS. gic_priority s' j = gic_priority s j"
    and "s' = s\<lparr>dist := dist s'\<rparr>"
proof -
  define off where "off = XSCUGIC_ENABLE_SET_OFFSET + (i div 32) * 4"
  define s' where "s' = s\<lparr>dist := (dist s)(off := dist s off OR push_bit (unat (i mod 32)) 1)\<rparr>"
  have "INTERRUPT_Enable i s = Some s'"
    using assms by (simp add: INTERRUPT_Enable_def XScuGic_Enable_def DistWriteReg_enable s'_def off_def)
  moreover have "\<forall>j < XSCUGIC_MAX_NUM_INTR_INPUTS. gic_enabled s' j \<longleftrightarrow> j = i \<or> gic_enabled s j"
  proof (intro allI impI)
    fix j assume j: "j < XSCUGIC_MAX_NUM_INTR_INPUTS"
    show "gic_enabled s' j \<longleftrightarrow> j = i \<or> gic_enabled s j"
      using gic_banks_apart(4) [OF assms(1) j] same_reg_bit [of j 32 i]
      by (auto simp: gic_enabled_def s'_def off_def bit_simps)
  qed
  moreover have "\<forall>j < XSCUGIC_MAX_NUM_INTR_INPUTS. gic_priority s' j = gic_priority s j"
    using gic_banks_apart(1) [OF assms(1)] by (simp add: gic_priority_def s'_def off_def) metis
  moreover have "s' = s\<lparr>dist := dist s'\<rparr>" by (simp add: s'_def)
  ultimately show thesis by (rule that)
qed

lemma gic_enabled_after_disable:
  assumes "i < XSCUGIC_MAX_NUM_INTR_INPUTS" and "gic_ready s"
  obtains s' where "INTERRUPT_Disable i s = Some s'"
    and "\<forall>j < XSCUGIC_MAX_NUM_INTR_INPUTS. gic_enabled s' j \<longleftrightarrow> j \<noteq> i \<and> gic_enabled s j"
    and "\<forall>j < XSCUGIC_MAX_NUM_INTR_INPUTS. gic_priority s' j = gic_priority s j"
    and "s' = s\<lparr>dist := dist s'\<rparr>"
proof -
  define off where "off = XSCUGIC_ENABLE_SET_OFFSET + (i div 32) * 4"
  define s' where "s' = s\<lparr>dist := (dist s)(off := dist s off AND NOT (push_bit (unat (i mod 32)) 1))\<rparr>"
  have "INTERRUPT_Disable i s = Some s'"
    using assms by (simp add: INTERRUPT_Disable_def XScuGic_Disable_def DistWriteReg_disable s'_def off_def)
  moreover have "\<forall>j < XSCUGIC_MAX_NUM_INTR_INPUTS. gic_enabled s' j \<longleftrightarrow> j \<noteq> i \<and> gic_enabled s j"
  proof (intro allI impI)
    fix j assume j: "j < XSCUGIC_MAX_NUM_INTR_INPUTS"
    show "gic_enabled s' j \<longleftrightarrow> j \<noteq> i \<and> gic_enabled s j"
      using gic_banks_apart(4) [OF assms(1) j] same_reg_bit [of j 32 i]
      by (auto simp: gic_enabled_def s'_def off_def bit_simps)
  qed
  moreover have "\<forall>j < XSCUGIC_MAX_NUM_INTR_INPUTS. gic_priority s' j = gic_priority s j"
    using gic_banks_apart(1) [OF assms(1)] by (simp add: gic_priority_def s'_def off_def) metis
  moreover have "s' = s\<lparr>dist := dist s'\<rparr>" by (simp add: s'_def)
  ultimately show thesis by (rule that)
qed

lemma trigger_local_sgi:
  assumes "i \<le> 15"
  shows "INTERRUPT_TriggerLocalSGI i s = Some (s\<lparr>pending := (pending s)(i := True)\<rparr>)"
proof -
  have "unat i < 16" using assms by (simp add: word_le_nat_alt)
  then have "unat i \<in> set [0..<16]" by simp
  moreover have "i = of_nat (unat i)" by simp
  ultimately have "i \<in> set (map of_nat [0..<16])" by (metis image_eqI list.set_map)
  then have i: "i \<in> {0, 1, 2, 3, 4, 5, 6, 7, 8, 9, 10, 11, 12, 13, 14, 15}"
    by (simp add: upt_rec)
  then have "bit ((0x20000 OR i) AND 0xFF000F) 17"
    by (elim insertE) simp_all
  moreover from i have "((0x20000 OR i) AND 0xFF000F) AND 0xF = i"
    by (elim insertE) simp_all
  ultimately show ?thesis using assms
    by (simp add: INTERRUPT_TriggerLocalSGI_def DistWriteReg_def gic_offsets
        INTERRUPT_SGI_FIRST_def INTERRUPT_SGI_LAST_def)
qed

lemma prio_field: "(ucast (p AND 0xF8 :: u8) :: u32) AND mask 8 = ucast (p AND 0xF8)"
  by (rule bit_word_eqI) (auto simp: bit_simps)

lemma trigger_field:
  assumes "t \<le> (3 :: u8)"
  shows "(ucast t :: u32) AND mask 2 = ucast t"
proof -
  have "unat t < 4" using assms by (simp add: word_le_nat_alt)
  then have "unat (take_bit 2 (ucast t :: u32)) = unat (ucast t :: u32)"
    by (simp add: unsigned_take_bit_eq take_bit_eq_mod)
  then show ?thesis by (simp only: word_unat_eq_iff take_bit_eq_mask)
qed

lemma set_priority_and_trigger:
  assumes "i < XSCUGIC_MAX_NUM_INTR_INPUTS" and "gic_ready s" and "p \<le> 248" and "t \<le> 3"
  obtains s' where "INTERRUPT_SetPriorityAndTriggerType i p t s = Some s'"
    and "\<forall>j < XSCUGIC_MAX_NUM_INTR_INPUTS.
           gic_priority s' j = (if j = i then ucast (p AND 0xF8) else gic_priority s j)"
    and "\<forall>j < XSCUGIC_MAX_NUM_INTR_INPUTS.
           gic_trigger s' j = (if j = i then ucast t else gic_trigger s j)"
    and "\<forall>j < XSCUGIC_MAX_NUM_INTR_INPUTS. gic_enabled s' j = gic_enabled s j"
    and "s' = s\<lparr>dist := dist s'\<rparr>"
proof -
  define po where "po = XSCUGIC_PRIORITY_OFFSET_CALC i"
  define co where "co = XSCUGIC_INT_CFG_OFFSET_CALC i"
  define d where "d = (dist s)
    (po := set_field (mask 8) (unat i mod 4 * 8) (ucast (p AND 0xF8)) (dist s po),
     co := set_field (mask 2) (unat i mod 16 * 2) (ucast t) (dist s co))"
  have apart: "po \<noteq> co" using gic_banks_apart(3) [OF assms(1) assms(1)] by (simp add: po_def co_def)
  have "INTERRUPT_SetPriorityAndTriggerType i p t s = Some (s\<lparr>dist := d\<rparr>)"
    using assms apart
    by (simp add: INTERRUPT_SetPriorityAndTriggerType_def XScuGic_SetPriorityTriggerType_def
        DistWriteReg_priority mask_numerals d_def po_def co_def Let_def)
  moreover have "gic_priority (s\<lparr>dist := d\<rparr>) j = (if j = i then ucast (p AND 0xF8) else gic_priority s j)"
    if j: "j < XSCUGIC_MAX_NUM_INTR_INPUTS" for j
  proof (cases "unat i div 4 = unat j div 4")
    case True
    then have "XSCUGIC_PRIORITY_OFFSET_CALC j = po"
      using gic_banks_apart(5) [OF assms(1) j] by (simp add: po_def)
    moreover have "unat i mod 4 \<noteq> unat j mod 4" if "j \<noteq> i" using same_reg_bit True that by metis
    moreover have "unat i mod 4 < 4" "unat j mod 4 < 4" by simp_all
    ultimately show ?thesis using apart
      set_field_array [of "unat i mod 4" 8 "ucast (p AND 0xF8)" "unat j mod 4" "dist s po", OF _ prio_field]
      by (auto simp: gic_priority_def d_def mask_numerals)
  next
    case False
    then have "XSCUGIC_PRIORITY_OFFSET_CALC j \<noteq> po" "j \<noteq> i"
      using gic_banks_apart(5) [OF assms(1) j] by (auto simp: po_def)
    moreover have "XSCUGIC_PRIORITY_OFFSET_CALC j \<noteq> co"
      using gic_banks_apart(3) [OF j assms(1)] by (simp add: co_def)
    ultimately show ?thesis by (simp add: gic_priority_def d_def)
  qed
  moreover have "gic_trigger (s\<lparr>dist := d\<rparr>) j = (if j = i then ucast t else gic_trigger s j)"
    if j: "j < XSCUGIC_MAX_NUM_INTR_INPUTS" for j
  proof (cases "unat i div 16 = unat j div 16")
    case True
    then have "XSCUGIC_INT_CFG_OFFSET_CALC j = co"
      using gic_banks_apart(6) [OF assms(1) j] by (simp add: co_def)
    moreover have "unat i mod 16 \<noteq> unat j mod 16" if "j \<noteq> i" using same_reg_bit True that by metis
    moreover have "unat i mod 16 < 16" "unat j mod 16 < 16" by simp_all
    ultimately show ?thesis
      using set_field_array [of "unat i mod 16" 2 "ucast t" "unat j mod 16" "dist s co",
        OF _ trigger_field [OF assms(4)]]
      by (auto simp: gic_trigger_def d_def mask_numerals)
  next
    case False
    then have "XSCUGIC_INT_CFG_OFFSET_CALC j \<noteq> co" "j \<noteq> i"
      using gic_banks_apart(6) [OF assms(1) j] by (auto simp: co_def)
    moreover have "XSCUGIC_INT_CFG_OFFSET_CALC j \<noteq> po"
      using gic_banks_apart(3) [OF assms(1) j] by (auto simp: po_def)
    ultimately show ?thesis by (simp add: gic_trigger_def d_def)
  qed
  moreover have "gic_enabled (s\<lparr>dist := d\<rparr>) j = gic_enabled s j"
    if j: "j < XSCUGIC_MAX_NUM_INTR_INPUTS" for j
    using gic_banks_apart(1,2) [OF j assms(1)] by (simp add: gic_enabled_def d_def po_def co_def)
  ultimately show thesis by (intro that [of "s\<lparr>dist := d\<rparr>"]) simp_all
qed

lemma critical_section_runs_once:
  assumes "cpsr s \<noteq> 0"
  shows "INTERRUPT_CriticalSection body s =
    map_option (INTERRUPT_ExitCritical (cpsr s)) (body (s\<lparr>cpsr := cpsr s OR XIL_EXCEPTION_ALL\<rparr>))"
  using assms by (simp add: INTERRUPT_CriticalSection_def INTERRUPT_EnterCritical_def)

lemma exit_critical_restores:
  assumes "cpsr s = old OR XIL_EXCEPTION_ALL"
  shows "cpsr (INTERRUPT_ExitCritical old s) = old"
  unfolding INTERRUPT_ExitCritical_def assms
  by simp (rule bit_word_eqI, auto simp: bit_simps)

end
