(* ===== verification/Scheduler.thy ===== *)
theory Scheduler
  imports Interrupt
begin

text \<open>
  The rate-monotonic scheduler of the CPU1 application, \<open>src/src/scheduler.c\<close>, with the SCU
  timer driver it programs (\<open>bsp/.../scutimer_v2_1/src/xscutimer.c\<close> and its register macros).
  The timer interrupt runs the T0 task and divides its rate for the T1 and T2 tasks, which run
  in software interrupts of lower priority with nesting enabled.

  Task and handler pointers are symbols: \<open>isr\<close> enumerates the handlers the program connects,
  and a task is a value of an arbitrary type \<open>t\<close> that \<open>run\<close> executes on the application
  state. Calling a null task pointer is the value \<open>None\<close>.
\<close>

section \<open>State\<close>

datatype isr = StubHandler | TimerT0Interrupt_isr | T1Interrupt_isr | T2Interrupt_isr
  | metal_xlnx_irq_isr_ptr

record 't SchedulerConfig_t =
  t0Frequency :: u32
  t1Multiplier :: u32
  t2Multiplier :: u32
  t0Task :: 't
  t1Task :: 't
  t2Task :: 't

record 't sched = "(isr, 't option) cpu1" +
  tmr_ready :: bool
  tmr_started :: bool
  tmr_load :: u32
  tmr_control :: u32
  tmr_isr :: u32
  f_t1Multiplier :: u32
  f_t2Multiplier :: u32
  f_t0Task :: "'t option"
  f_t1Task :: "'t option"
  f_t2Task :: "'t option"
  t1Counter :: u32
  t2Counter :: u32

section \<open>SCU timer driver\<close>

text \<open>The status register clears the bits that are written as one.\<close>

definition XScuTimer_ClearInterruptStatus :: "'t sched \<Rightarrow> 't sched" where
  "XScuTimer_ClearInterruptStatus s = s\<lparr>tmr_isr := tmr_isr s AND NOT 1\<rparr>"

definition XScuTimer_CfgInitialize :: "'t sched \<Rightarrow> bool \<times> 't sched" where
  "XScuTimer_CfgInitialize s =
    (if \<not> tmr_started s then (True, s\<lparr>tmr_started := False, tmr_ready := True\<rparr>) else (False, s))"

definition XScuTimer_EnableAutoReload :: "'t sched \<Rightarrow> 't sched" where
  "XScuTimer_EnableAutoReload s = s\<lparr>tmr_control := tmr_control s OR 2\<rparr>"

definition XScuTimer_SetPrescaler :: "u8 \<Rightarrow> 't sched \<Rightarrow> 't sched option" where
  "XScuTimer_SetPrescaler v s = do {
     Xil_Assert (tmr_ready s);
     Some (s\<lparr>tmr_control := (tmr_control s AND NOT 0xFF00) OR push_bit 8 (ucast v)\<rparr>) }"

definition XScuTimer_LoadTimer :: "u32 \<Rightarrow> 't sched \<Rightarrow> 't sched" where
  "XScuTimer_LoadTimer v s = s\<lparr>tmr_load := v\<rparr>"

definition XScuTimer_Start :: "'t sched \<Rightarrow> 't sched option" where
  "XScuTimer_Start s = do {
     Xil_Assert (tmr_ready s);
     Some (s\<lparr>tmr_control := tmr_control s OR 1, tmr_started := True\<rparr>) }"

definition XScuTimer_Stop :: "'t sched \<Rightarrow> 't sched option" where
  "XScuTimer_Stop s = do {
     Xil_Assert (tmr_ready s);
     Some (s\<lparr>tmr_control := tmr_control s AND NOT 1, tmr_started := False\<rparr>) }"

definition XScuTimer_EnableInterrupt :: "'t sched \<Rightarrow> 't sched" where
  "XScuTimer_EnableInterrupt s = s\<lparr>tmr_control := tmr_control s OR 4\<rparr>"

definition XScuTimer_DisableInterrupt :: "'t sched \<Rightarrow> 't sched" where
  "XScuTimer_DisableInterrupt s = s\<lparr>tmr_control := tmr_control s AND NOT 4\<rparr>"

section \<open>\<open>scheduler.c\<close>\<close>

definition XPAR_CPU_CORTEXA9_0_CPU_CLK_FREQ_HZ :: u32 where
  "XPAR_CPU_CORTEXA9_0_CPU_CLK_FREQ_HZ = 666666687"

definition XSCUTIMER_CLOCK_HZ :: u32 where
  "XSCUTIMER_CLOCK_HZ = XPAR_CPU_CORTEXA9_0_CPU_CLK_FREQ_HZ div 2"

text \<open>The result of \<open>XScuTimer_CfgInitialize\<close> is ignored; a division by zero has no value.\<close>

definition ConfigureScuTimer :: "u32 \<Rightarrow> u8 \<Rightarrow> isr \<Rightarrow> 't option \<Rightarrow> 't sched \<Rightarrow> 't sched option" where
  "ConfigureScuTimer frequencyHz interruptPriority interruptHandler userData s = do {
     let (_, s) = XScuTimer_CfgInitialize s;
     let s = XScuTimer_EnableAutoReload s;
     s \<leftarrow> XScuTimer_SetPrescaler 0 s;
     _ \<leftarrow> (if frequencyHz = 0 then None else Some ());
     let s = XScuTimer_LoadTimer (XSCUTIMER_CLOCK_HZ div frequencyHz) s;
     s \<leftarrow> INTERRUPT_RegisterHandler INTERRUPT_SCU_TIMER interruptHandler userData s;
     s \<leftarrow> INTERRUPT_Enable INTERRUPT_SCU_TIMER s;
     s \<leftarrow> XScuTimer_Start s;
     s \<leftarrow> INTERRUPT_SetPriorityAndTriggerType INTERRUPT_SCU_TIMER interruptPriority
             INTERRUPT_TRIGGER_TYPE_HIGH s;
     let s = XScuTimer_ClearInterruptStatus s;
     Some (XScuTimer_EnableInterrupt s) }"

definition set_tasks :: "'t SchedulerConfig_t \<Rightarrow> 't sched \<Rightarrow> 't sched" where
  "set_tasks conf s = s\<lparr>
     f_t1Multiplier := t1Multiplier conf, f_t2Multiplier := t2Multiplier conf,
     f_t0Task := Some (t0Task conf), f_t1Task := Some (t1Task conf), f_t2Task := Some (t2Task conf)\<rparr>"

text \<open>Connecting, configuring and enabling one software interrupt.\<close>

definition setup_sgi :: "u32 \<Rightarrow> isr \<Rightarrow> 't option \<Rightarrow> u8 \<Rightarrow> 't sched \<Rightarrow> 't sched option" where
  "setup_sgi i h u prio s = do {
     s \<leftarrow> INTERRUPT_RegisterHandler i h u s;
     s \<leftarrow> INTERRUPT_SetPriorityAndTriggerType i prio INTERRUPT_TRIGGER_TYPE_HIGH s;
     INTERRUPT_Enable i s }"

definition SCHEDULER_Init :: "'t SchedulerConfig_t \<Rightarrow> 't sched \<Rightarrow> 't sched option" where
  "SCHEDULER_Init conf = INTERRUPT_CriticalSection (\<lambda>s. do {
     let s = set_tasks conf s;
     s \<leftarrow> ConfigureScuTimer (t0Frequency conf) INTERRUPT_PRIORITY_SCHEDULER_TIMER
            TimerT0Interrupt_isr (Some (t0Task conf)) s;
     s \<leftarrow> setup_sgi INTERRUPT_SGI_T1 T1Interrupt_isr (Some (t1Task conf)) INTERRUPT_PRIORITY_T1 s;
     setup_sgi INTERRUPT_SGI_T2 T2Interrupt_isr (Some (t2Task conf)) INTERRUPT_PRIORITY_T2 s })"

definition SCHEDULER_Stop :: "'t sched \<Rightarrow> 't sched option" where
  "SCHEDULER_Stop = INTERRUPT_CriticalSection (\<lambda>s. do {
     s \<leftarrow> XScuTimer_Stop s;
     let s = XScuTimer_ClearInterruptStatus s;
     let s = XScuTimer_DisableInterrupt s;
     INTERRUPT_Disable INTERRUPT_SCU_TIMER s })"

text \<open>Calling a task through its pointer.\<close>

definition call_task :: "('t \<Rightarrow> 'a \<Rightarrow> 'a) \<Rightarrow> 't option \<Rightarrow> 'a \<Rightarrow> 'a option" where
  "call_task run p a = map_option (\<lambda>t. run t a) p"

definition divide_t1 :: "'t sched \<Rightarrow> 't sched option" where
  "divide_t1 s =
    (if t1Counter s = f_t1Multiplier s
     then INTERRUPT_TriggerLocalSGI INTERRUPT_SGI_T1 (s\<lparr>t1Counter := 0\<rparr>) else Some s)"

definition divide_t2 :: "'t sched \<Rightarrow> 't sched option" where
  "divide_t2 s =
    (if t2Counter s = f_t2Multiplier s
     then INTERRUPT_TriggerLocalSGI INTERRUPT_SGI_T2 (s\<lparr>t2Counter := 0\<rparr>) else Some s)"

definition TimerT0Interrupt :: "('t \<Rightarrow> 'a \<Rightarrow> 'a) \<Rightarrow> 't sched \<times> 'a \<Rightarrow> ('t sched \<times> 'a) option" where
  "TimerT0Interrupt run = (\<lambda>(s, a). do {
     let s = XScuTimer_ClearInterruptStatus s;
     a \<leftarrow> call_task run (f_t0Task s) a;
     let s = s\<lparr>t1Counter := t1Counter s + 1, t2Counter := t2Counter s + 1\<rparr>;
     s \<leftarrow> divide_t1 s;
     s \<leftarrow> divide_t2 s;
     Some (s, a) })"

text \<open>
  \<open>T1Interrupt\<close> and \<open>T2Interrupt\<close> bracket their task with \<open>Xil_EnableNestedInterrupts\<close> and
  \<open>Xil_DisableNestedInterrupts\<close>. The first writes \<open>0x1F\<close> to the control byte of the status
  register (system mode, interrupts enabled), the second goes back to IRQ mode with
  interrupts masked.
\<close>

definition Xil_EnableNestedInterrupts :: "'t sched \<Rightarrow> 't sched" where
  "Xil_EnableNestedInterrupts s = s\<lparr>cpsr := (cpsr s AND NOT 0xFF) OR 0x1F\<rparr>"

definition Xil_DisableNestedInterrupts :: "'t sched \<Rightarrow> 't sched" where
  "Xil_DisableNestedInterrupts s = s\<lparr>cpsr := (cpsr s AND NOT 0xFF) OR 0x92\<rparr>"

definition T1Interrupt :: "('t \<Rightarrow> 'a \<Rightarrow> 'a) \<Rightarrow> 't sched \<times> 'a \<Rightarrow> ('t sched \<times> 'a) option" where
  "T1Interrupt run = (\<lambda>(s, a). do {
     let s = Xil_EnableNestedInterrupts s;
     a \<leftarrow> call_task run (f_t1Task s) a;
     Some (Xil_DisableNestedInterrupts s, a) })"

definition T2Interrupt :: "('t \<Rightarrow> 'a \<Rightarrow> 'a) \<Rightarrow> 't sched \<times> 'a \<Rightarrow> ('t sched \<times> 'a) option" where
  "T2Interrupt run = (\<lambda>(s, a). do {
     let s = Xil_EnableNestedInterrupts s;
     a \<leftarrow> call_task run (f_t2Task s) a;
     Some (Xil_DisableNestedInterrupts s, a) })"

section \<open>Configuration\<close>

abbreviation (input) valid_id :: "u32 \<Rightarrow> bool" where
  "valid_id j \<equiv> j < XSCUGIC_MAX_NUM_INTR_INPUTS"

lemma gic_views_frame [simp]:
  "gic_enabled (s\<lparr>HandlerTable := t\<rparr>) = gic_enabled s"
  "gic_priority (s\<lparr>HandlerTable := t\<rparr>) = gic_priority s"
  "gic_enabled (s\<lparr>pending := q\<rparr>) = gic_enabled s"
  "gic_priority (s\<lparr>pending := q\<rparr>) = gic_priority s"
  "gic_enabled (s\<lparr>cpsr := c\<rparr>) = gic_enabled s"
  "gic_priority (s\<lparr>cpsr := c\<rparr>) = gic_priority s"
  by (simp_all add: gic_enabled_def gic_priority_def fun_eq_iff)

lemma gic_views_dist:
  "dist s = dist s' \<Longrightarrow> gic_enabled s = gic_enabled s'"
  "dist s = dist s' \<Longrightarrow> gic_priority s = gic_priority s'"
  by (simp_all add: gic_enabled_def gic_priority_def fun_eq_iff)

text \<open>What connecting and configuring interrupt \<open>i\<close> changes.\<close>

definition configured :: "u32 \<Rightarrow> isr \<Rightarrow> 't option \<Rightarrow> u8 \<Rightarrow> 't sched \<Rightarrow> 't sched \<Rightarrow> bool" where
  "configured i h u prio s s' \<longleftrightarrow>
    (\<forall>j. valid_id j \<longrightarrow> (gic_enabled s' j \<longleftrightarrow> j = i \<or> gic_enabled s j)) \<and>
    (\<forall>j. valid_id j \<longrightarrow> gic_priority s' j = (if j = i then ucast (prio AND 0xF8) else gic_priority s j)) \<and>
    HandlerTable s' = (HandlerTable s)[unat i := (h, u)]"

lemma setup_sgi_spec:
  assumes "valid_id i" and "gic_ready s" and "prio \<le> 248"
  obtains s' where "setup_sgi i h u prio s = Some s'" and "configured i h u prio s s'"
    and "s' = s\<lparr>HandlerTable := HandlerTable s', dist := dist s'\<rparr>"
proof -
  define s1 where "s1 = s\<lparr>HandlerTable := (HandlerTable s)[unat i := (h, u)]\<rparr>"
  have c: "INTERRUPT_RegisterHandler i h u s = Some s1"
    using assms by (simp add: INTERRUPT_RegisterHandler_def XScuGic_Connect_def s1_def)
  have r1: "gic_ready s1" using assms by (simp add: s1_def)
  have t: "INTERRUPT_TRIGGER_TYPE_HIGH \<le> 3" by (simp add: INTERRUPT_TRIGGER_TYPE_HIGH_def)
  obtain s2 where s2: "INTERRUPT_SetPriorityAndTriggerType i prio INTERRUPT_TRIGGER_TYPE_HIGH s1 = Some s2"
    and p2: "\<forall>j. valid_id j \<longrightarrow> gic_priority s2 j = (if j = i then ucast (prio AND 0xF8) else gic_priority s1 j)"
    and e2: "\<forall>j. valid_id j \<longrightarrow> gic_enabled s2 j = gic_enabled s1 j" and u2: "s2 = s1\<lparr>dist := dist s2\<rparr>"
    by (rule set_priority_and_trigger [OF assms(1) r1 assms(3) t])
  have "gic_ready s2" using r1 by (subst u2) simp
  then obtain s3 where s3: "INTERRUPT_Enable i s2 = Some s3"
    and e3: "\<forall>j. valid_id j \<longrightarrow> (gic_enabled s3 j \<longleftrightarrow> j = i \<or> gic_enabled s2 j)"
    and p3: "\<forall>j. valid_id j \<longrightarrow> gic_priority s3 j = gic_priority s2 j" and u3: "s3 = s2\<lparr>dist := dist s3\<rparr>"
    using gic_enabled_after_enable [OF assms(1)] by blast
  have h2: "HandlerTable s2 = HandlerTable s1" by (subst u2) simp
  have h3: "HandlerTable s3 = HandlerTable s2" by (subst u3) simp
  have "setup_sgi i h u prio s = Some s3" by (simp add: setup_sgi_def c s2 s3)
  moreover have "configured i h u prio s s3"
    using p2 e2 e3 p3 h2 h3 by (simp add: configured_def s1_def)
  moreover have "s3 = s\<lparr>HandlerTable := HandlerTable s3, dist := dist s3\<rparr>"
    by (subst u3, subst u2) (simp add: s1_def h3 h2)
  ultimately show thesis by (rule that)
qed

text \<open>The timer control word while the timer runs: enabled, auto-reload, interrupt, no prescaler.\<close>

definition timer_running :: "u32 \<Rightarrow> 't sched \<Rightarrow> bool" where
  "timer_running frequencyHz s \<longleftrightarrow>
    tmr_ready s \<and> tmr_started s \<and> tmr_load s = XSCUTIMER_CLOCK_HZ div frequencyHz \<and>
    tmr_control s AND 0xFF07 = 7 \<and> tmr_isr s AND 1 = 0"

lemma timer_control_word:
  "((((c OR 2) AND - 65281) OR 1) OR 4) AND 0xFF07 = (7 :: u32)"
proof -
  have "(c AND 7) OR 7 = (7 :: u32)"
  proof (rule bit_word_eqI)
    fix n
    show "bit ((c AND 7) OR 7) n = bit (7 :: u32) n" by (auto simp only: bit_or_iff bit_and_iff)
  qed
  then show ?thesis by (simp add: or.assoc and.assoc bit.conj_disj_distrib2)
qed

lemma status_bit_cleared: "((x :: u32) AND - 2) AND 1 = 0"
  by (simp add: and.assoc)

lemma ConfigureScuTimer_spec:
  assumes "gic_ready s" and "tmr_ready s \<or> \<not> tmr_started s" and "frequencyHz \<noteq> 0" and "prio \<le> 248"
  obtains s' where "ConfigureScuTimer frequencyHz prio h u s = Some s'"
    and "configured INTERRUPT_SCU_TIMER h u prio s s'" and "timer_running frequencyHz s'"
    and "s' = s\<lparr>HandlerTable := HandlerTable s', dist := dist s', tmr_ready := True,
      tmr_started := True, tmr_load := tmr_load s', tmr_control := tmr_control s', tmr_isr := tmr_isr s'\<rparr>"
proof -
  define c where "c = (tmr_control s OR 2) AND NOT 0xFF00"
  define s1 where "s1 = s\<lparr>tmr_ready := True, tmr_control := c,
    tmr_load := XSCUTIMER_CLOCK_HZ div frequencyHz, HandlerTable := (HandlerTable s)[29 := (h, u)]\<rparr>"
  have id: "valid_id INTERRUPT_SCU_TIMER" by (simp add: gic_offsets INTERRUPT_SCU_TIMER_def)
  have i: "unat INTERRUPT_SCU_TIMER = 29" by (simp add: INTERRUPT_SCU_TIMER_def)
  have t: "INTERRUPT_TRIGGER_TYPE_HIGH \<le> 3" by (simp add: INTERRUPT_TRIGGER_TYPE_HIGH_def)
  have r1: "gic_ready s1" using assms by (simp add: s1_def)
  obtain s2 where s2: "INTERRUPT_Enable INTERRUPT_SCU_TIMER s1 = Some s2"
    and e2: "\<forall>j. valid_id j \<longrightarrow> (gic_enabled s2 j \<longleftrightarrow> j = INTERRUPT_SCU_TIMER \<or> gic_enabled s1 j)"
    and p2: "\<forall>j. valid_id j \<longrightarrow> gic_priority s2 j = gic_priority s1 j" and u2: "s2 = s1\<lparr>dist := dist s2\<rparr>"
    by (rule gic_enabled_after_enable [OF id r1])
  obtain d2 where u2: "s2 = s1\<lparr>dist := d2\<rparr>" using u2 by (rule that)
  have t2: "tmr_ready s2" by (simp add: u2 s1_def)
  define s3 where "s3 = s2\<lparr>tmr_control := tmr_control s2 OR 1, tmr_started := True\<rparr>"
  have r3: "gic_ready s3" using r1 by (simp add: s3_def u2)
  obtain s4 where s4: "INTERRUPT_SetPriorityAndTriggerType INTERRUPT_SCU_TIMER prio INTERRUPT_TRIGGER_TYPE_HIGH s3 = Some s4"
    and p4: "\<forall>j. valid_id j \<longrightarrow> gic_priority s4 j = (if j = INTERRUPT_SCU_TIMER then ucast (prio AND 0xF8) else gic_priority s3 j)"
    and e4: "\<forall>j. valid_id j \<longrightarrow> gic_enabled s4 j = gic_enabled s3 j" and u4: "s4 = s3\<lparr>dist := dist s4\<rparr>"
    by (rule set_priority_and_trigger [OF id r3 assms(4) t])
  obtain d4 where u4: "s4 = s3\<lparr>dist := d4\<rparr>" using u4 by (rule that)
  define s5 where "s5 = s4\<lparr>tmr_isr := tmr_isr s4 AND NOT 1, tmr_control := tmr_control s4 OR 4\<rparr>"
  have u5: "s5 = s\<lparr>HandlerTable := (HandlerTable s)[29 := (h, u)], dist := d4, tmr_ready := True,
      tmr_started := True, tmr_load := XSCUTIMER_CLOCK_HZ div frequencyHz,
      tmr_control := (c OR 1) OR 4, tmr_isr := tmr_isr s AND NOT 1\<rparr>"
    by (simp add: s5_def u4 s3_def u2 s1_def)
  show thesis
  proof (rule that [of s5])
    have pre: "XScuTimer_SetPrescaler 0 (XScuTimer_EnableAutoReload (snd (XScuTimer_CfgInitialize s)))
      = Some (s\<lparr>tmr_ready := True, tmr_control := c\<rparr>)"
      using assms(2) by (cases "tmr_started s")
        (simp_all add: XScuTimer_CfgInitialize_def XScuTimer_EnableAutoReload_def
          XScuTimer_SetPrescaler_def c_def)
    have reg: "INTERRUPT_RegisterHandler INTERRUPT_SCU_TIMER h u
        (XScuTimer_LoadTimer (XSCUTIMER_CLOCK_HZ div frequencyHz) (s\<lparr>tmr_ready := True, tmr_control := c\<rparr>))
      = Some s1"
      using assms(1) id by (simp add: INTERRUPT_RegisterHandler_def XScuGic_Connect_def
          XScuTimer_LoadTimer_def s1_def i)
    have start: "XScuTimer_Start s2 = Some s3" using t2 by (simp add: XScuTimer_Start_def s3_def)
    have fin: "XScuTimer_EnableInterrupt (XScuTimer_ClearInterruptStatus s4) = s5"
      by (simp add: XScuTimer_EnableInterrupt_def XScuTimer_ClearInterruptStatus_def s5_def)
    show "ConfigureScuTimer frequencyHz prio h u s = Some s5"
      using assms(3) by (simp add: ConfigureScuTimer_def case_prod_beta pre reg s2 start s4 fin)
    have d: "dist s5 = dist s4" "dist s3 = dist s2" "dist s1 = dist s" by (simp_all add: s5_def s3_def s1_def)
    have "HandlerTable s5 = (HandlerTable s)[29 := (h, u)]" by (simp add: u5)
    then show "configured INTERRUPT_SCU_TIMER h u prio s s5"
      using e2 p2 e4 p4 unfolding configured_def
      by (simp add: gic_views_dist [OF d(1)] gic_views_dist [OF d(2)] gic_views_dist [OF d(3)] i)
    show "timer_running frequencyHz s5"
      by (simp add: timer_running_def u5 c_def timer_control_word status_bit_cleared)
  qed (simp add: u5)
qed

text \<open>The body of \<open>SCHEDULER_Init\<close> after the stores to its variables.\<close>

definition setup_chain :: "'t SchedulerConfig_t \<Rightarrow> 't sched \<Rightarrow> 't sched \<Rightarrow> bool" where
  "setup_chain conf s0 s3 \<longleftrightarrow> (\<exists>s1 s2.
     configured INTERRUPT_SCU_TIMER TimerT0Interrupt_isr (Some (t0Task conf)) INTERRUPT_PRIORITY_SCHEDULER_TIMER s0 s1 \<and>
     configured INTERRUPT_SGI_T1 T1Interrupt_isr (Some (t1Task conf)) INTERRUPT_PRIORITY_T1 s1 s2 \<and>
     configured INTERRUPT_SGI_T2 T2Interrupt_isr (Some (t2Task conf)) INTERRUPT_PRIORITY_T2 s2 s3)"

lemma scheduler_setup:
  assumes "gic_ready s0" and "tmr_ready s0 \<or> \<not> tmr_started s0" and "t0Frequency conf \<noteq> 0"
  obtains s3 h d l c i where
    "do { s \<leftarrow> ConfigureScuTimer (t0Frequency conf) INTERRUPT_PRIORITY_SCHEDULER_TIMER
            TimerT0Interrupt_isr (Some (t0Task conf)) s0;
          s \<leftarrow> setup_sgi INTERRUPT_SGI_T1 T1Interrupt_isr (Some (t1Task conf)) INTERRUPT_PRIORITY_T1 s;
          setup_sgi INTERRUPT_SGI_T2 T2Interrupt_isr (Some (t2Task conf)) INTERRUPT_PRIORITY_T2 s } = Some s3"
    and "setup_chain conf s0 s3" and "timer_running (t0Frequency conf) s3"
    and "s3 = s0\<lparr>HandlerTable := h, dist := d, tmr_ready := True,
      tmr_started := True, tmr_load := l, tmr_control := c, tmr_isr := i\<rparr>"
proof -
  have ids: "valid_id INTERRUPT_SGI_T1" "valid_id INTERRUPT_SGI_T2"
    by (simp_all add: gic_offsets INTERRUPT_SGI_T1_def INTERRUPT_SGI_T2_def)
  have prios: "INTERRUPT_PRIORITY_SCHEDULER_TIMER \<le> 248" "INTERRUPT_PRIORITY_T1 \<le> 248" "INTERRUPT_PRIORITY_T2 \<le> 248"
    by (simp_all add: INTERRUPT_PRIORITY_SCHEDULER_TIMER_def INTERRUPT_PRIORITY_T1_def INTERRUPT_PRIORITY_T2_def)
  obtain s1 where s1: "ConfigureScuTimer (t0Frequency conf) INTERRUPT_PRIORITY_SCHEDULER_TIMER
      TimerT0Interrupt_isr (Some (t0Task conf)) s0 = Some s1"
    and c1: "configured INTERRUPT_SCU_TIMER TimerT0Interrupt_isr (Some (t0Task conf))
      INTERRUPT_PRIORITY_SCHEDULER_TIMER s0 s1"
    and t1: "timer_running (t0Frequency conf) s1"
    and u1: "s1 = s0\<lparr>HandlerTable := HandlerTable s1, dist := dist s1, tmr_ready := True,
      tmr_started := True, tmr_load := tmr_load s1, tmr_control := tmr_control s1, tmr_isr := tmr_isr s1\<rparr>"
    by (rule ConfigureScuTimer_spec [OF assms prios(1)])
  obtain h1 d1 l c i where u1: "s1 = s0\<lparr>HandlerTable := h1, dist := d1, tmr_ready := True,
      tmr_started := True, tmr_load := l, tmr_control := c, tmr_isr := i\<rparr>" using u1 by (rule that)
  have r1: "gic_ready s1" using assms by (simp add: u1)
  obtain s2 where s2: "setup_sgi INTERRUPT_SGI_T1 T1Interrupt_isr (Some (t1Task conf)) INTERRUPT_PRIORITY_T1 s1 = Some s2"
    and c2: "configured INTERRUPT_SGI_T1 T1Interrupt_isr (Some (t1Task conf)) INTERRUPT_PRIORITY_T1 s1 s2"
    and u2: "s2 = s1\<lparr>HandlerTable := HandlerTable s2, dist := dist s2\<rparr>"
    by (rule setup_sgi_spec [OF ids(1) r1 prios(2)])
  obtain h2 d2 where u2: "s2 = s1\<lparr>HandlerTable := h2, dist := d2\<rparr>" using u2 by (rule that)
  have r2: "gic_ready s2" using r1 by (simp add: u2)
  obtain s3 where s3: "setup_sgi INTERRUPT_SGI_T2 T2Interrupt_isr (Some (t2Task conf)) INTERRUPT_PRIORITY_T2 s2 = Some s3"
    and c3: "configured INTERRUPT_SGI_T2 T2Interrupt_isr (Some (t2Task conf)) INTERRUPT_PRIORITY_T2 s2 s3"
    and u3: "s3 = s2\<lparr>HandlerTable := HandlerTable s3, dist := dist s3\<rparr>"
    by (rule setup_sgi_spec [OF ids(2) r2 prios(3)])
  obtain h3 d3 where u3: "s3 = s2\<lparr>HandlerTable := h3, dist := d3\<rparr>" using u3 by (rule that)
  have u: "s3 = s0\<lparr>HandlerTable := h3, dist := d3, tmr_ready := True,
      tmr_started := True, tmr_load := l, tmr_control := c, tmr_isr := i\<rparr>" by (simp add: u3 u2 u1)
  have "timer_running (t0Frequency conf) s3" using t1 by (simp add: timer_running_def u u1)
  moreover have "setup_chain conf s0 s3" using c1 c2 c3 unfolding setup_chain_def by blast
  ultimately show thesis using that [of s3] u by (simp add: s1 s2 s3)
qed

lemma setup_chain_views:
  assumes "setup_chain conf s0 s3"
  shows "HandlerTable s3 = (HandlerTable s0)[29 := (TimerT0Interrupt_isr, Some (t0Task conf)),
      2 := (T1Interrupt_isr, Some (t1Task conf)), 3 := (T2Interrupt_isr, Some (t2Task conf))]"
    and "\<forall>j. valid_id j \<longrightarrow> (gic_enabled s3 j \<longleftrightarrow> j \<in> {29, 2, 3} \<or> gic_enabled s0 j) \<and>
      gic_priority s3 j =
        (if j = 29 then 0 else if j = 2 then 16 else if j = 3 then 24 else gic_priority s0 j)"
proof -
  have q: "ucast (INTERRUPT_PRIORITY_SCHEDULER_TIMER AND 0xF8) = (0 :: u32)"
    "ucast (INTERRUPT_PRIORITY_T1 AND 0xF8) = (16 :: u32)" "ucast (INTERRUPT_PRIORITY_T2 AND 0xF8) = (24 :: u32)"
    by (simp_all add: INTERRUPT_PRIORITY_SCHEDULER_TIMER_def INTERRUPT_PRIORITY_T1_def INTERRUPT_PRIORITY_T2_def)
  note c = assms [unfolded setup_chain_def configured_def q INTERRUPT_SCU_TIMER_def
      INTERRUPT_SGI_T1_def INTERRUPT_SGI_T2_def]
  from c show "HandlerTable s3 = (HandlerTable s0)[29 := (TimerT0Interrupt_isr, Some (t0Task conf)),
      2 := (T1Interrupt_isr, Some (t1Task conf)), 3 := (T2Interrupt_isr, Some (t2Task conf))]" by auto
  from c show "\<forall>j. valid_id j \<longrightarrow> (gic_enabled s3 j \<longleftrightarrow> j \<in> {29, 2, 3} \<or> gic_enabled s0 j) \<and>
      gic_priority s3 j =
        (if j = 29 then 0 else if j = 2 then 16 else if j = 3 then 24 else gic_priority s0 j)"
    by (elim exE conjE) simp
qed

lemma SCHEDULER_Init_spec:
  assumes "gic_ready s" and "tmr_ready s \<or> \<not> tmr_started s" and "length (HandlerTable s) = 95"
    and "cpsr s \<noteq> 0" and "t0Frequency conf \<noteq> 0"
  shows "\<exists>s'. SCHEDULER_Init conf s = Some s' \<and>
    f_t1Multiplier s' = t1Multiplier conf \<and> f_t2Multiplier s' = t2Multiplier conf \<and>
    f_t0Task s' = Some (t0Task conf) \<and> f_t1Task s' = Some (t1Task conf) \<and>
    f_t2Task s' = Some (t2Task conf) \<and>
    timer_running (t0Frequency conf) s' \<and> cpsr s' = cpsr s \<and> gic_ready s' \<and>
    pending s' = pending s \<and>
    HandlerTable s' = (HandlerTable s)[29 := (TimerT0Interrupt_isr, Some (t0Task conf)),
      2 := (T1Interrupt_isr, Some (t1Task conf)), 3 := (T2Interrupt_isr, Some (t2Task conf))] \<and>
    (\<forall>j. valid_id j \<longrightarrow>
      (gic_enabled s' j \<longleftrightarrow> j \<in> {29, 2, 3} \<or> gic_enabled s j) \<and>
      gic_priority s' j =
        (if j = 29 then 0 else if j = 2 then 16 else if j = 3 then 24 else gic_priority s j))"
proof -
  define s0 where "s0 = set_tasks conf (s\<lparr>cpsr := cpsr s OR XIL_EXCEPTION_ALL\<rparr>)"
  have "gic_ready s0" "tmr_ready s0 \<or> \<not> tmr_started s0" using assms by (simp_all add: s0_def set_tasks_def)
  then obtain s3 h d l c i where s3: "do { s \<leftarrow> ConfigureScuTimer (t0Frequency conf) INTERRUPT_PRIORITY_SCHEDULER_TIMER
            TimerT0Interrupt_isr (Some (t0Task conf)) s0;
          s \<leftarrow> setup_sgi INTERRUPT_SGI_T1 T1Interrupt_isr (Some (t1Task conf)) INTERRUPT_PRIORITY_T1 s;
          setup_sgi INTERRUPT_SGI_T2 T2Interrupt_isr (Some (t2Task conf)) INTERRUPT_PRIORITY_T2 s } = Some s3"
    and chain: "setup_chain conf s0 s3" and t3: "timer_running (t0Frequency conf) s3"
    and u: "s3 = s0\<lparr>HandlerTable := h, dist := d, tmr_ready := True,
      tmr_started := True, tmr_load := l, tmr_control := c, tmr_isr := i\<rparr>"
    using assms(5) by (rule scheduler_setup)
  define s' where "s' = INTERRUPT_ExitCritical (cpsr s) s3"
  have run: "SCHEDULER_Init conf s = Some s'"
    using assms(4) s3 by (simp add: SCHEDULER_Init_def critical_section_runs_once s0_def [symmetric] s'_def)
  have cs: "cpsr s' = cpsr s"
    unfolding s'_def by (rule exit_critical_restores) (simp add: u s0_def set_tasks_def)
  have t: "timer_running (t0Frequency conf) s'"
    using t3 by (simp add: timer_running_def s'_def INTERRUPT_ExitCritical_def)
  have v: "gic_enabled s3 = gic_enabled s'" "gic_priority s3 = gic_priority s'"
    "HandlerTable s3 = HandlerTable s'" "gic_enabled s0 = gic_enabled s" "gic_priority s0 = gic_priority s"
    "HandlerTable s0 = HandlerTable s"
    by (simp_all add: s'_def INTERRUPT_ExitCritical_def s0_def set_tasks_def gic_enabled_def gic_priority_def fun_eq_iff)
  have flds: "f_t1Multiplier s' = t1Multiplier conf \<and> f_t2Multiplier s' = t2Multiplier conf \<and>
    f_t0Task s' = Some (t0Task conf) \<and> f_t1Task s' = Some (t1Task conf) \<and>
    f_t2Task s' = Some (t2Task conf) \<and> gic_ready s' \<and> pending s' = pending s"
    using assms(1) by (simp add: s'_def INTERRUPT_ExitCritical_def u s0_def set_tasks_def)
  show ?thesis using run flds t cs setup_chain_views [OF chain, unfolded v] by blast
qed

text \<open>
  \<open>SCHEDULER_Init\<close>. From any state in which the GIC driver is initialised, the
  processor status word is not zero and the T0 frequency is not zero, the function returns
  with the tasks and multipliers of its configuration stored, the SCU timer running in
  auto-reload mode with the period \<open>clock / frequency\<close> and its interrupt enabled, and the
  three interrupts (timer, T1, T2) connected to their handlers, enabled, and given priorities
  0, 16 and 24 so that the timer preempts T1 and T1 preempts T2. No other interrupt is
  enabled or changes priority or handler, and the interrupt mask is what it was before.
\<close>

lemma scheduler_init:
  assumes "gic_ready s" and "tmr_ready s \<or> \<not> tmr_started s" and "length (HandlerTable s) = 95"
    and "cpsr s \<noteq> 0" and "t0Frequency conf \<noteq> 0"
  shows "\<exists>s'. SCHEDULER_Init conf s = Some s' \<and>
    f_t1Multiplier s' = t1Multiplier conf \<and> f_t2Multiplier s' = t2Multiplier conf \<and>
    f_t0Task s' = Some (t0Task conf) \<and> f_t1Task s' = Some (t1Task conf) \<and>
    f_t2Task s' = Some (t2Task conf) \<and>
    timer_running (t0Frequency conf) s' \<and> cpsr s' = cpsr s \<and> gic_ready s' \<and>
    pending s' = pending s \<and>
    HandlerTable s' = (HandlerTable s)[29 := (TimerT0Interrupt_isr, Some (t0Task conf)),
      2 := (T1Interrupt_isr, Some (t1Task conf)), 3 := (T2Interrupt_isr, Some (t2Task conf))] \<and>
    (\<forall>j. valid_id j \<longrightarrow>
      (gic_enabled s' j \<longleftrightarrow> j \<in> {29, 2, 3} \<or> gic_enabled s j) \<and>
      gic_priority s' j =
        (if j = 29 then 0 else if j = 2 then 16 else if j = 3 then 24 else gic_priority s j))"
  using assms by (rule SCHEDULER_Init_spec)

datatype app_task = APPLICATION_T0_task | APPLICATION_T1_task | APPLICATION_T2_task

text \<open>A state of the kind the board support package leaves behind: driver ready, no interrupt
  enabled, supervisor mode.\<close>

definition boot_sched :: "app_task sched" where
  "boot_sched = \<lparr>cpsr = 0x13, gic_ready = True, HandlerTable = replicate 95 (StubHandler, None),
     dist = (\<lambda>_. 0), pending = (\<lambda>_. False), tmr_ready = False, tmr_started = False,
     tmr_load = 0, tmr_control = 0, tmr_isr = 0, f_t1Multiplier = 4, f_t2Multiplier = 16,
     f_t0Task = None, f_t1Task = None, f_t2Task = None, t1Counter = 0, t2Counter = 0\<rparr>"

text \<open>The configuration of \<open>main.c\<close>.\<close>

definition f_schedulerConfig :: "app_task SchedulerConfig_t" where
  "f_schedulerConfig = \<lparr>t0Frequency = 20000, t1Multiplier = 4, t2Multiplier = 20,
     t0Task = APPLICATION_T0_task, t1Task = APPLICATION_T1_task, t2Task = APPLICATION_T2_task\<rparr>"

text \<open>The configuration of the program: a 20 kHz timer, so T1 at 5 kHz and T2 at 1 kHz.\<close>

lemma scheduler_init_witness:
  "\<exists>s'. SCHEDULER_Init f_schedulerConfig boot_sched = Some s' \<and> tmr_load s' = 16666 \<and>
     gic_enabled s' 29 \<and> gic_priority s' 2 = 16 \<and> \<not> gic_enabled s' 4 \<and>
     HandlerTable s' ! 3 = (T2Interrupt_isr, Some APPLICATION_T2_task)"
proof -
  have "gic_ready boot_sched"
    "tmr_ready boot_sched \<or> \<not> tmr_started boot_sched"
    "length (HandlerTable boot_sched) = 95"
    "cpsr boot_sched \<noteq> 0" "t0Frequency f_schedulerConfig \<noteq> 0"
    by (simp_all add: boot_sched_def f_schedulerConfig_def)
  from scheduler_init [OF this] show ?thesis
  proof (elim exE conjE)
    fix s'
    assume s': "SCHEDULER_Init f_schedulerConfig boot_sched = Some s'"
      and t: "timer_running (t0Frequency f_schedulerConfig) s'"
      and h: "HandlerTable s' = (HandlerTable boot_sched)[29 := (TimerT0Interrupt_isr, Some (t0Task f_schedulerConfig)),
        2 := (T1Interrupt_isr, Some (t1Task f_schedulerConfig)), 3 := (T2Interrupt_isr, Some (t2Task f_schedulerConfig))]"
      and v: "\<forall>j. valid_id j \<longrightarrow> (gic_enabled s' j \<longleftrightarrow> j \<in> {29, 2, 3} \<or> gic_enabled boot_sched j) \<and>
        gic_priority s' j =
          (if j = 29 then 0 else if j = 2 then 16 else if j = 3 then 24 else gic_priority boot_sched j)"
    have "HandlerTable s' ! 3 = (T2Interrupt_isr, Some APPLICATION_T2_task)"
      by (simp add: h boot_sched_def f_schedulerConfig_def)
    moreover have "tmr_load s' = 16666"
      using t by (simp add: timer_running_def f_schedulerConfig_def XSCUTIMER_CLOCK_HZ_def
          XPAR_CPU_CORTEXA9_0_CPU_CLK_FREQ_HZ_def)
    moreover have "gic_enabled s' 29 \<and> gic_priority s' 2 = 16 \<and> \<not> gic_enabled s' 4"
      using v [rule_format, of 29] v [rule_format, of 2] v [rule_format, of 4]
      by (simp add: gic_offsets gic_enabled_def boot_sched_def)
    ultimately show ?thesis using s' by blast
  qed
qed

section \<open>Rates\<close>

text \<open>
  One timer interrupt followed by the acknowledgement of the software interrupts it raised: the
  result tells whether T1 and T2 were triggered.
\<close>

definition timer_tick ::
  "('t \<Rightarrow> 'a \<Rightarrow> 'a) \<Rightarrow> 't sched \<times> 'a \<Rightarrow> ((bool \<times> bool) \<times> 't sched \<times> 'a) option" where
  "timer_tick run sa = do {
     (s, a) \<leftarrow> TimerT0Interrupt run sa;
     Some ((pending s INTERRUPT_SGI_T1, pending s INTERRUPT_SGI_T2),
           s\<lparr>pending := (pending s)(INTERRUPT_SGI_T1 := False, INTERRUPT_SGI_T2 := False)\<rparr>, a) }"

fun timer_ticks ::
  "('t \<Rightarrow> 'a \<Rightarrow> 'a) \<Rightarrow> nat \<Rightarrow> 't sched \<times> 'a \<Rightarrow> ((bool \<times> bool) list \<times> 't sched \<times> 'a) option" where
  "timer_ticks run 0 sa = Some ([], sa)"
| "timer_ticks run (Suc n) sa = do {
     (ts, sa1) \<leftarrow> timer_ticks run n sa;
     (t, sa2) \<leftarrow> timer_tick run sa1;
     Some (ts @ [t], sa2) }"

text \<open>The scheduler between ticks: \<open>k\<close> ticks have passed and both requests are taken.\<close>

definition ticked :: "'t \<Rightarrow> nat \<Rightarrow> 't sched \<Rightarrow> bool" where
  "ticked t0 k s \<longleftrightarrow> f_t0Task s = Some t0 \<and>
     0 < unat (f_t1Multiplier s) \<and> 0 < unat (f_t2Multiplier s) \<and>
     unat (t1Counter s) = k mod unat (f_t1Multiplier s) \<and>
     unat (t2Counter s) = k mod unat (f_t2Multiplier s) \<and>
     \<not> pending s INTERRUPT_SGI_T1 \<and> \<not> pending s INTERRUPT_SGI_T2"

lemma divider_next:
  fixes c m :: u32
  assumes "unat c = k mod unat m" and "0 < unat m"
  shows "c + 1 = m \<longleftrightarrow> unat m dvd Suc k"
    and "unat m dvd Suc k \<Longrightarrow> Suc k mod unat m = 0"
    and "\<not> unat m dvd Suc k \<Longrightarrow> unat (c + 1) = Suc k mod unat m"
proof -
  have lt: "unat c < unat m" using assms by simp
  moreover have "unat m < 2 ^ LENGTH(32)" by (rule unsigned_less)
  ultimately have plus: "unat (c + 1) = Suc (unat c)"
    by (simp add: unat_word_ariths)
  have "c + 1 = m \<longleftrightarrow> Suc (k mod unat m) = unat m"
    by (simp add: word_unat_eq_iff plus assms(1))
  then show *: "c + 1 = m \<longleftrightarrow> unat m dvd Suc k"
    using assms(2) by (simp add: mod_Suc dvd_eq_mod_eq_0)
  show "unat m dvd Suc k \<Longrightarrow> Suc k mod unat m = 0" by simp
  show "\<not> unat m dvd Suc k \<Longrightarrow> unat (c + 1) = Suc k mod unat m"
    using * plus assms by (simp add: mod_Suc word_unat_eq_iff)
qed

lemma timer_tick_ticked:
  assumes "ticked t0 k s"
  obtains s' where "timer_tick run (s, a) =
      Some ((unat (f_t1Multiplier s) dvd Suc k, unat (f_t2Multiplier s) dvd Suc k), s', run t0 a)"
    and "ticked t0 (Suc k) s'"
    and "f_t1Multiplier s' = f_t1Multiplier s" and "f_t2Multiplier s' = f_t2Multiplier s"
proof -
  have sgi: "INTERRUPT_SGI_T1 \<le> 15" "INTERRUPT_SGI_T2 \<le> 15" "INTERRUPT_SGI_T1 \<noteq> INTERRUPT_SGI_T2"
    by (simp_all add: INTERRUPT_SGI_T1_def INTERRUPT_SGI_T2_def)
  note n1 = divider_next [of "t1Counter s" k "f_t1Multiplier s"]
    and n2 = divider_next [of "t2Counter s" k "f_t2Multiplier s"]
  note defs = timer_tick_def TimerT0Interrupt_def call_task_def divide_t1_def divide_t2_def
    XScuTimer_ClearInterruptStatus_def trigger_local_sgi [OF sgi(1)] trigger_local_sgi [OF sgi(2)]
  define s' where "s' = s\<lparr>tmr_isr := tmr_isr s AND NOT 1,
    t1Counter := (if unat (f_t1Multiplier s) dvd Suc k then 0 else t1Counter s + 1),
    t2Counter := (if unat (f_t2Multiplier s) dvd Suc k then 0 else t2Counter s + 1),
    pending := (pending s)(INTERRUPT_SGI_T1 := False, INTERRUPT_SGI_T2 := False)\<rparr>"
  have p: "(pending s)(INTERRUPT_SGI_T1 := False, INTERRUPT_SGI_T2 := False) = pending s"
    using assms by (auto simp: ticked_def fun_eq_iff)
  have "timer_tick run (s, a) =
      Some ((unat (f_t1Multiplier s) dvd Suc k, unat (f_t2Multiplier s) dvd Suc k), s', run t0 a)"
    using assms n1(1) n2(1) sgi(3) p
    by (cases "unat (f_t1Multiplier s) dvd Suc k"; cases "unat (f_t2Multiplier s) dvd Suc k")
      (simp_all add: defs ticked_def s'_def)
  moreover have "ticked t0 (Suc k) s'"
    using assms n1(2,3) n2(2,3) sgi(3) by (auto simp: ticked_def s'_def)
  ultimately show thesis by (rule that) (simp_all add: s'_def)
qed

text \<open>
  C38: rates of the scheduler. With non-zero multipliers and counters at zero, the
  \<open>k\<close>-th timer interrupt triggers the T1 software interrupt exactly when \<open>t1Multiplier\<close>
  divides \<open>k\<close>, and the T2 one exactly when \<open>t2Multiplier\<close> divides \<open>k\<close>; every timer interrupt
  runs the T0 task once, and the run never fails.
\<close>

theorem scheduler_rates:
  assumes "f_t0Task s = Some t0" and "f_t1Multiplier s \<noteq> 0" and "f_t2Multiplier s \<noteq> 0"
    and "t1Counter s = 0" and "t2Counter s = 0"
    and "\<not> pending s INTERRUPT_SGI_T1" and "\<not> pending s INTERRUPT_SGI_T2"
  shows "\<exists>s'. timer_ticks run n (s, a) = Some
    (map (\<lambda>k. (unat (f_t1Multiplier s) dvd k, unat (f_t2Multiplier s) dvd k)) [1..<n + 1],
     s', (run t0 ^^ n) a)"
proof -
  have "ticked t0 0 s" using assms by (simp add: ticked_def unat_gt_0)
  then have "\<exists>s'. timer_ticks run n (s, a) = Some
      (map (\<lambda>k. (unat (f_t1Multiplier s) dvd k, unat (f_t2Multiplier s) dvd k)) [1..<n + 1],
       s', (run t0 ^^ n) a) \<and> ticked t0 n s' \<and>
      f_t1Multiplier s' = f_t1Multiplier s \<and> f_t2Multiplier s' = f_t2Multiplier s"
  proof (induction n)
    case (Suc n)
    then obtain s' where s': "timer_ticks run n (s, a) = Some
      (map (\<lambda>k. (unat (f_t1Multiplier s) dvd k, unat (f_t2Multiplier s) dvd k)) [1..<n + 1],
       s', (run t0 ^^ n) a)" and t: "ticked t0 n s'"
      and m: "f_t1Multiplier s' = f_t1Multiplier s" "f_t2Multiplier s' = f_t2Multiplier s" by blast
    from t obtain s'' where "timer_tick run (s', (run t0 ^^ n) a) =
        Some ((unat (f_t1Multiplier s') dvd Suc n, unat (f_t2Multiplier s') dvd Suc n), s'', run t0 ((run t0 ^^ n) a))"
      and "ticked t0 (Suc n) s''"
      and "f_t1Multiplier s'' = f_t1Multiplier s'" and "f_t2Multiplier s'' = f_t2Multiplier s'"
      by (rule timer_tick_ticked)
    with s' m show ?case by simp
  qed simp
  then show ?thesis by blast
qed

text \<open>Eight ticks of the program's configuration, counting the runs of T0.\<close>

theorem scheduler_rates_witness:
  "\<exists>s'. timer_ticks (\<lambda>_. Suc) 8
      (set_tasks f_schedulerConfig boot_sched, 0 :: nat) = Some
      (map (\<lambda>k. (4 dvd k, 20 dvd k)) [1..<9], s', (Suc ^^ 8) 0)"
  using scheduler_rates [of "set_tasks f_schedulerConfig boot_sched" APPLICATION_T0_task "\<lambda>_. Suc" 8 0]
  by (simp add: set_tasks_def f_schedulerConfig_def boot_sched_def)

end
