(* ===== verification/Preemption.thy ===== *)
theory Preemption
  imports Scheduler
begin

text \<open>
  Preemption between the task levels of CPU1. \<open>XScuGic_InterruptHandler\<close>
  (\<open>bsp/.../scugic_v3_9/src/xscugic_intr.c\<close>) acknowledges the pending interrupt of highest
  priority, calls its handler and signals the end of the interrupt; \<open>T1Interrupt\<close> and
  \<open>T2Interrupt\<close> enable nesting while their task runs, \<open>TimerT0Interrupt\<close> does not. The model is
  a step relation on the stack of active handlers: timer expiry, interrupt entry and the parts
  of each handler interleave in every order the GIC and the interrupt mask allow.
\<close>

section \<open>Activations\<close>

datatype phase = Entered | Nested | Ran

record activation =
  act_id :: u32
  act_saved :: u32
  act_phase :: phase

record ('t, 'a) exec =
  core :: "'t sched"
  app :: 'a
  active :: "activation list"

text \<open>The interrupt mask bit of the status register.\<close>

definition irq_masked :: "'t sched \<Rightarrow> bool" where
  "irq_masked c \<longleftrightarrow> bit (cpsr c) 7"

definition handler_of :: "'t sched \<Rightarrow> u32 \<Rightarrow> isr" where
  "handler_of c i = fst (HandlerTable c ! unat i)"

text \<open>The running priority: that of the innermost handler, or the mask \<open>CPUInitialize\<close> sets.\<close>

definition running_priority :: "'t sched \<Rightarrow> activation list \<Rightarrow> u32" where
  "running_priority c as = (case as of [] \<Rightarrow> 0xF0 | a # _ \<Rightarrow> gic_priority c (act_id a))"

definition signalled :: "'t sched \<Rightarrow> u32 \<Rightarrow> bool" where
  "signalled c i \<longleftrightarrow> valid_id i \<and> pending c i \<and> gic_enabled c i"

definition acknowledged :: "'t sched \<Rightarrow> activation list \<Rightarrow> u32 \<Rightarrow> bool" where
  "acknowledged c as i \<longleftrightarrow> signalled c i \<and> gic_priority c i < running_priority c as \<and>
     (\<forall>j. signalled c j \<longrightarrow> gic_priority c i \<le> gic_priority c j)"

definition timer_expires :: "'t sched \<Rightarrow> 't sched" where
  "timer_expires c = c\<lparr>tmr_isr := tmr_isr c OR 1, pending := (pending c)(INTERRUPT_SCU_TIMER := True)\<rparr>"

text \<open>Exception entry: IRQ mode with interrupts masked, the old status word saved.\<close>

definition irq_entry :: "u32 \<Rightarrow> ('t, 'a) exec \<Rightarrow> ('t, 'a) exec" where
  "irq_entry i e = e\<lparr>core := (core e)\<lparr>pending := (pending (core e))(i := False),
       cpsr := (cpsr (core e) AND NOT 0xFF) OR 0x92\<rparr>,
     active := \<lparr>act_id = i, act_saved = cpsr (core e), act_phase = Entered\<rparr> # active e\<rparr>"

definition task_of :: "'t sched \<Rightarrow> isr \<Rightarrow> 't option" where
  "task_of c h = (if h = T1Interrupt_isr then f_t1Task c else f_t2Task c)"

inductive exec_step :: "('t \<Rightarrow> 'a \<Rightarrow> 'a) \<Rightarrow> ('t, 'a) exec \<Rightarrow> ('t, 'a) exec \<Rightarrow> bool" for run where
  expire: "bit (tmr_control (core e)) 0 \<Longrightarrow> bit (tmr_control (core e)) 2 \<Longrightarrow>
    exec_step run e (e\<lparr>core := timer_expires (core e)\<rparr>)"
| irq: "\<not> irq_masked (core e) \<Longrightarrow> acknowledged (core e) (active e) i \<Longrightarrow>
    exec_step run e (irq_entry i e)"
| timer: "active e = a # as \<Longrightarrow> act_phase a = Entered \<Longrightarrow>
    handler_of (core e) (act_id a) = TimerT0Interrupt_isr \<Longrightarrow>
    TimerT0Interrupt run (core e, app e) = Some (c, x) \<Longrightarrow>
    exec_step run e (e\<lparr>core := c\<lparr>cpsr := act_saved a\<rparr>, app := x, active := as\<rparr>)"
| nest: "active e = a # as \<Longrightarrow> act_phase a = Entered \<Longrightarrow>
    handler_of (core e) (act_id a) \<in> {T1Interrupt_isr, T2Interrupt_isr} \<Longrightarrow>
    exec_step run e (e\<lparr>core := Xil_EnableNestedInterrupts (core e), active := a\<lparr>act_phase := Nested\<rparr> # as\<rparr>)"
| task: "active e = a # as \<Longrightarrow> act_phase a = Nested \<Longrightarrow>
    call_task run (task_of (core e) (handler_of (core e) (act_id a))) (app e) = Some x \<Longrightarrow>
    exec_step run e (e\<lparr>app := x, active := a\<lparr>act_phase := Ran\<rparr> # as\<rparr>)"
| leave: "active e = a # as \<Longrightarrow> act_phase a = Ran \<Longrightarrow>
    exec_step run e (e\<lparr>core := (Xil_DisableNestedInterrupts (core e))\<lparr>cpsr := act_saved a\<rparr>, active := as\<rparr>)"
| other: "active e = a # as \<Longrightarrow> act_phase a = Entered \<Longrightarrow>
    handler_of (core e) (act_id a) \<in> {StubHandler, metal_xlnx_irq_isr_ptr} \<Longrightarrow>
    exec_step run e (e\<lparr>core := (core e)\<lparr>cpsr := act_saved a\<rparr>, active := as\<rparr>)"

inductive exec_reach :: "('t \<Rightarrow> 'a \<Rightarrow> 'a) \<Rightarrow> ('t, 'a) exec \<Rightarrow> ('t, 'a) exec \<Rightarrow> bool" for run e0 where
  start: "exec_reach run e0 e0"
| step: "exec_reach run e0 e \<Longrightarrow> exec_step run e e' \<Longrightarrow> exec_reach run e0 e'"

section \<open>What the steps keep\<close>

text \<open>Steps never touch the configuration of the controller or the scheduler.\<close>

definition same_config :: "'t sched \<Rightarrow> 't sched \<Rightarrow> bool" where
  "same_config c d \<longleftrightarrow> dist c = dist d \<and> HandlerTable c = HandlerTable d \<and>
     f_t0Task c = f_t0Task d \<and> f_t1Task c = f_t1Task d \<and> f_t2Task c = f_t2Task d"

lemma same_config_simps [simp]:
  "same_config c c" "same_config c (d\<lparr>cpsr := w\<rparr>) = same_config c d"
  "same_config c (d\<lparr>pending := p\<rparr>) = same_config c d"
  "same_config c (d\<lparr>tmr_isr := u\<rparr>) = same_config c d"
  "same_config c (d\<lparr>t1Counter := v\<rparr>) = same_config c d"
  "same_config c (d\<lparr>t2Counter := v\<rparr>) = same_config c d"
  by (auto simp: same_config_def)

lemma same_config_views:
  assumes "same_config c d"
  shows "gic_priority c = gic_priority d" and "gic_enabled c = gic_enabled d"
    and "handler_of c = handler_of d" and "task_of c = task_of d"
  using assms by (auto simp: same_config_def gic_priority_def gic_enabled_def handler_of_def
      task_of_def fun_eq_iff)

lemma TimerT0Interrupt_same_config:
  assumes "TimerT0Interrupt run (c, x) = Some (d, y)"
  shows "same_config c d"
proof -
  have sgi: "INTERRUPT_SGI_T1 \<le> 15" "INTERRUPT_SGI_T2 \<le> 15"
    by (simp_all add: INTERRUPT_SGI_T1_def INTERRUPT_SGI_T2_def)
  show ?thesis using assms
    by (auto simp: TimerT0Interrupt_def XScuTimer_ClearInterruptStatus_def divide_t1_def divide_t2_def
        trigger_local_sgi [OF sgi(1)] trigger_local_sgi [OF sgi(2)] bind_eq_Some_conv Let_def
        split: if_splits)
qed

lemma exec_step_same_config:
  assumes "exec_step run e e'"
  shows "same_config (core e) (core e')"
  using assms
  by cases (auto simp: timer_expires_def irq_entry_def Xil_EnableNestedInterrupts_def
      Xil_DisableNestedInterrupts_def dest: TimerT0Interrupt_same_config)

text \<open>The stack discipline.\<close>

definition stack_inv :: "('t, 'a) exec \<Rightarrow> bool" where
  "stack_inv e \<longleftrightarrow>
     sorted_wrt (\<lambda>a b. gic_priority (core e) (act_id a) < gic_priority (core e) (act_id b)) (active e) \<and>
     (\<forall>a \<in> set (active e). valid_id (act_id a) \<and> gic_enabled (core e) (act_id a) \<and>
        (act_phase a \<noteq> Entered \<longrightarrow>
          handler_of (core e) (act_id a) \<in> {T1Interrupt_isr, T2Interrupt_isr})) \<and>
     (\<forall>a \<in> set (tl (active e)). act_phase a \<noteq> Entered) \<and>
     (active e \<noteq> [] \<and> act_phase (hd (active e)) = Entered \<longrightarrow> irq_masked (core e))"

lemma irq_masked_entry [simp]: "irq_masked (c\<lparr>cpsr := w OR 0x92\<rparr>)"
  by (simp add: irq_masked_def bit_simps)

lemma stack_inv_pop:
  assumes "stack_inv e" and "active e = a # as" and "same_config (core e) d"
  shows "stack_inv (e\<lparr>core := d, app := x, active := as\<rparr>)"
proof -
  note v = same_config_views [OF assms(3)]
  have "hd as \<in> set as" if "as \<noteq> []" using that by simp
  moreover have "set (tl as) \<subseteq> set as" by (cases as) auto
  ultimately show ?thesis using assms(1,2) unfolding stack_inv_def by (auto simp: v)
qed

lemma stack_inv_irq:
  assumes "stack_inv e" and "\<not> irq_masked (core e)" and "acknowledged (core e) (active e) i"
  shows "stack_inv (irq_entry i e)"
proof -
  define d where "d = core (irq_entry i e)"
  have "same_config (core e) d" by (simp add: d_def irq_entry_def)
  note v = same_config_views [OF this]
  have top: "act_phase a \<noteq> Entered" if "a \<in> set (active e)" for a
    using that assms(1,2) unfolding stack_inv_def by (cases "active e") auto
  have less: "gic_priority (core e) i < gic_priority (core e) (act_id b)" if "b \<in> set (active e)" for b
    using that assms(1,3) unfolding stack_inv_def acknowledged_def running_priority_def
    by (cases "active e") (auto dest: less_trans)
  have "active (irq_entry i e) = \<lparr>act_id = i, act_saved = cpsr (core e), act_phase = Entered\<rparr> # active e"
    and "irq_masked d" by (simp_all add: irq_entry_def d_def)
  then show ?thesis
    using assms(1,3) top less
    by (auto simp: stack_inv_def d_def [symmetric] v [symmetric] acknowledged_def signalled_def)
qed

lemma stack_inv_phase:
  assumes "stack_inv e" and "active e = a # as" and "same_config (core e) d" and "p \<noteq> Entered"
    and "handler_of (core e) (act_id a) \<in> {T1Interrupt_isr, T2Interrupt_isr}"
  shows "stack_inv (e\<lparr>core := d, app := x, active := a\<lparr>act_phase := p\<rparr> # as\<rparr>)"
proof -
  note v = same_config_views [OF assms(3)]
  show ?thesis using assms(1,2,4,5) unfolding stack_inv_def by (auto simp: v)
qed

lemma exec_step_stack_inv:
  assumes "exec_step run e e'" and "stack_inv e"
  shows "stack_inv e'"
  using assms
proof cases
  case expire
  have "same_config (core e) (timer_expires (core e))" by (simp add: timer_expires_def)
  note v = same_config_views [OF this]
  have "irq_masked (timer_expires (core e)) = irq_masked (core e)"
    by (simp add: irq_masked_def timer_expires_def)
  with assms(2) show ?thesis unfolding expire(1) stack_inv_def by (simp add: v)
next
  case (irq i)
  with assms(2) show ?thesis by (simp add: stack_inv_irq)
next
  case (timer a as c x)
  then have "same_config (core e) (c\<lparr>cpsr := act_saved a\<rparr>)" by (simp add: TimerT0Interrupt_same_config)
  with assms(2) timer show ?thesis by (simp add: stack_inv_pop)
next
  case (nest a as)
  then have "same_config (core e) (Xil_EnableNestedInterrupts (core e))"
    by (simp add: Xil_EnableNestedInterrupts_def)
  with nest stack_inv_phase [OF assms(2) nest(2), of _ Nested "app e"] show ?thesis by simp
next
  case (task a as x)
  then have "handler_of (core e) (act_id a) \<in> {T1Interrupt_isr, T2Interrupt_isr}"
    using assms(2) by (auto simp: stack_inv_def)
  with task stack_inv_phase [OF assms(2) task(2), of "core e" Ran x] show ?thesis by simp
next
  case (leave a as)
  then have "same_config (core e) ((Xil_DisableNestedInterrupts (core e))\<lparr>cpsr := act_saved a\<rparr>)"
    by (simp add: Xil_DisableNestedInterrupts_def)
  with leave stack_inv_pop [OF assms(2) leave(2), of _ "app e"] show ?thesis by simp
next
  case (other a as)
  then have "same_config (core e) ((core e)\<lparr>cpsr := act_saved a\<rparr>)" by simp
  with other stack_inv_pop [OF assms(2) other(2), of _ "app e"] show ?thesis by simp
qed

lemma exec_reach_inv:
  assumes "exec_reach run e0 e" and "active e0 = []"
  shows "stack_inv e \<and> same_config (core e0) (core e)"
  using assms
proof (induction rule: exec_reach.induct)
  case start
  then show ?case by (simp add: stack_inv_def)
next
  case (step e e')
  then have "same_config (core e) (core e')" using exec_step_same_config by blast
  with step show ?case using exec_step_stack_inv by (fastforce simp: same_config_def)
qed

section \<open>Levels of the program\<close>

text \<open>The interrupt configuration \<open>SCHEDULER_Init\<close> leaves on a controller with nothing else enabled.\<close>

definition scheduled :: "'t sched \<Rightarrow> bool" where
  "scheduled c \<longleftrightarrow> (\<forall>j. valid_id j \<longrightarrow> gic_enabled c j \<longrightarrow> j \<in> {29, 2, 3}) \<and>
     gic_priority c 29 = 0 \<and> gic_priority c 2 = 16 \<and> gic_priority c 3 = 24 \<and>
     handler_of c 29 = TimerT0Interrupt_isr \<and> handler_of c 2 = T1Interrupt_isr \<and>
     handler_of c 3 = T2Interrupt_isr \<and>
     f_t0Task c \<noteq> None \<and> f_t1Task c \<noteq> None \<and> f_t2Task c \<noteq> None"

lemma same_config_scheduled: "same_config c d \<Longrightarrow> scheduled d = scheduled c"
  using same_config_views [of c d] by (simp add: scheduled_def) (simp add: same_config_def)

lemma levels_strict:
  fixes as :: "activation list"
  assumes "scheduled c"
    and "sorted_wrt (\<lambda>a b. gic_priority c (act_id a) < gic_priority c (act_id b)) as"
    and "\<forall>a \<in> set as. act_id a \<in> {29, 2, 3}"
  shows "map act_id as \<in> set (subseqs [29, 2, 3])"
proof -
  have p: "gic_priority c 29 = 0" "gic_priority c 2 = 16" "gic_priority c 3 = 24"
    using assms(1) by (simp_all add: scheduled_def)
  have "length as \<le> 3"
  proof (rule ccontr)
    assume "\<not> length as \<le> 3"
    then have "Suc (Suc (Suc (Suc 0))) \<le> length as" by simp
    then obtain w x y z r where "as = w # x # y # z # r" by (auto simp: Suc_le_length_iff)
    with assms(2,3) show False by (auto simp: p)
  qed
  then consider "as = []" | a where "as = [a]" | a b where "as = [a, b]" | a b d where "as = [a, b, d]"
    by (auto simp: le_Suc_eq length_Suc_conv numeral_3_eq_3)
  then show ?thesis using assms(2,3) by cases (auto simp: p)
qed


section \<open>Completion\<close>

lemma call_task_Some: "p \<noteq> None \<Longrightarrow> \<exists>x. call_task run p a = Some x"
  by (auto simp: call_task_def)

lemma TimerT0Interrupt_returns:
  assumes "f_t0Task c \<noteq> None"
  shows "\<exists>d y. TimerT0Interrupt run (c, x) = Some (d, y)"
proof -
  have sgi: "INTERRUPT_SGI_T1 \<le> 15" "INTERRUPT_SGI_T2 \<le> 15"
    by (simp_all add: INTERRUPT_SGI_T1_def INTERRUPT_SGI_T2_def)
  from assms show ?thesis
    by (auto simp: TimerT0Interrupt_def XScuTimer_ClearInterruptStatus_def divide_t1_def divide_t2_def
        trigger_local_sgi [OF sgi(1)] trigger_local_sgi [OF sgi(2)] Let_def call_task_def)
qed

lemma step_then:
  assumes "exec_step run e f" and "\<exists>e'. (exec_step run)\<^sup>*\<^sup>* f e' \<and> P e'"
  shows "\<exists>e'. (exec_step run)\<^sup>*\<^sup>* e e' \<and> P e'"
  using assms by (elim exE conjE) (intro exI conjI, rule converse_rtranclp_into_rtranclp)

text \<open>The innermost handler can always take its next step, down to its return.\<close>

lemma innermost_returns:
  assumes "scheduled (core e)" and "stack_inv e" and "active e = a # as"
  shows "\<exists>e'. (exec_step run)\<^sup>*\<^sup>* e e' \<and> active e' = as"
proof -
  have tasks: "f_t0Task (core e) \<noteq> None" "f_t1Task (core e) \<noteq> None" "f_t2Task (core e) \<noteq> None"
    using assms(1) by (simp_all add: scheduled_def)
  have leave: "\<exists>e'. (exec_step run)\<^sup>*\<^sup>* f e' \<and> active e' = as"
    if "active f = b # as" "act_phase b = Ran" for f b
  proof -
    have "exec_step run f (f\<lparr>core := (Xil_DisableNestedInterrupts (core f))\<lparr>cpsr := act_saved b\<rparr>, active := as\<rparr>)"
      by (rule exec_step.leave [OF that])
    then have "(exec_step run)\<^sup>*\<^sup>* f (f\<lparr>core := (Xil_DisableNestedInterrupts (core f))\<lparr>cpsr := act_saved b\<rparr>, active := as\<rparr>)"
      by (rule r_into_rtranclp)
    then show ?thesis by (intro exI conjI) (assumption, simp)
  qed
  have task: "\<exists>e'. (exec_step run)\<^sup>*\<^sup>* f e' \<and> active e' = as"
    if f: "active f = b # as" "act_phase b = Nested" and t: "f_t1Task (core f) \<noteq> None" "f_t2Task (core f) \<noteq> None"
    for f b
  proof -
    have "task_of (core f) (handler_of (core f) (act_id b)) \<noteq> None" using t by (simp add: task_of_def)
    from call_task_Some [OF this] obtain x where "call_task run (task_of (core f) (handler_of (core f) (act_id b))) (app f) = Some x"
      by (rule exE)
    then have first: "exec_step run f (f\<lparr>app := x, active := b\<lparr>act_phase := Ran\<rparr> # as\<rparr>)"
      by (rule exec_step.task [OF f])
    have "\<exists>e'. (exec_step run)\<^sup>*\<^sup>* (f\<lparr>app := x, active := b\<lparr>act_phase := Ran\<rparr> # as\<rparr>) e' \<and> active e' = as"
      by (rule leave [of _ "b\<lparr>act_phase := Ran\<rparr>"]) simp_all
    with first show ?thesis by (rule step_then)
  qed
  have hs: "handler_of (core e) 29 = TimerT0Interrupt_isr" "handler_of (core e) 2 = T1Interrupt_isr"
    "handler_of (core e) 3 = T2Interrupt_isr" using assms(1) by (simp_all add: scheduled_def)
  have "a \<in> set (active e)" using assms(3) by simp
  then have "valid_id (act_id a)" "gic_enabled (core e) (act_id a)"
    using assms(2) by (simp_all add: stack_inv_def)
  then have id: "act_id a \<in> {29, 2, 3}" using assms(1) by (simp only: scheduled_def)
  show ?thesis
  proof (cases "act_phase a")
    case Entered
    show ?thesis
    proof (cases "act_id a = 29")
      case True
      obtain d y where "TimerT0Interrupt run (core e, app e) = Some (d, y)"
        using TimerT0Interrupt_returns [OF tasks(1), of run "app e"] by (elim exE)
      moreover have "handler_of (core e) (act_id a) = TimerT0Interrupt_isr"
        using True hs by simp
      ultimately have "exec_step run e (e\<lparr>core := d\<lparr>cpsr := act_saved a\<rparr>, app := y, active := as\<rparr>)"
        by (intro exec_step.timer [OF assms(3) Entered])
      then have "(exec_step run)\<^sup>*\<^sup>* e (e\<lparr>core := d\<lparr>cpsr := act_saved a\<rparr>, app := y, active := as\<rparr>)"
        by (rule r_into_rtranclp)
      then show ?thesis by (intro exI conjI) (assumption, simp)
    next
      case False
      then have h: "handler_of (core e) (act_id a) \<in> {T1Interrupt_isr, T2Interrupt_isr}"
        using id hs by (elim insertE emptyE) simp_all
      define f where "f = e\<lparr>core := Xil_EnableNestedInterrupts (core e), active := a\<lparr>act_phase := Nested\<rparr> # as\<rparr>"
      have first: "exec_step run e f" unfolding f_def by (rule exec_step.nest [OF assms(3) Entered h])
      have "active f = a\<lparr>act_phase := Nested\<rparr> # as" "act_phase (a\<lparr>act_phase := Nested\<rparr>) = Nested"
        "f_t1Task (core f) \<noteq> None" "f_t2Task (core f) \<noteq> None"
        using tasks by (simp_all add: f_def Xil_EnableNestedInterrupts_def)
      then have "\<exists>e'. (exec_step run)\<^sup>*\<^sup>* f e' \<and> active e' = as" by (rule task)
      with first show ?thesis by (rule step_then)
    qed
  next
    case Nested
    show ?thesis by (rule task [OF assms(3) Nested tasks(2,3)])
  next
    case Ran
    show ?thesis by (rule leave [OF assms(3) Ran])
  qed
qed


text \<open>
  A concrete run: after \<open>SCHEDULER_Init\<close> with the configuration of \<open>main.c\<close> the timer expires
  and its interrupt is taken.
\<close>

lemma demo_run:
  obtains e0 e :: "(app_task, 'a) exec" where "exec_reach run e0 e" and "active e0 = []"
    and "scheduled (core e0)" and "map act_id (active e) = [29]"
proof -
  have boot: "gic_ready boot_sched"
    "tmr_ready boot_sched \<or> \<not> tmr_started boot_sched"
    "length (HandlerTable boot_sched) = 95"
    "cpsr boot_sched \<noteq> 0" "t0Frequency f_schedulerConfig \<noteq> 0"
    by (simp_all add: boot_sched_def f_schedulerConfig_def)
  from SCHEDULER_Init_spec [OF boot] obtain c :: "app_task sched" where c: "scheduled c" "\<not> irq_masked c"
    "pending c = (\<lambda>_. False)" "gic_enabled c 29" "timer_running 20000 c"
  proof (elim exE conjE)
    fix s'
    assume tk: "f_t0Task s' = Some (t0Task f_schedulerConfig)" "f_t1Task s' = Some (t1Task f_schedulerConfig)"
      "f_t2Task s' = Some (t2Task f_schedulerConfig)"
      and t: "timer_running (t0Frequency f_schedulerConfig) s'" and m: "cpsr s' = cpsr boot_sched"
      and p: "pending s' = pending boot_sched"
      and h: "HandlerTable s' = (HandlerTable boot_sched)[29 := (TimerT0Interrupt_isr, Some (t0Task f_schedulerConfig)),
        2 := (T1Interrupt_isr, Some (t1Task f_schedulerConfig)), 3 := (T2Interrupt_isr, Some (t2Task f_schedulerConfig))]"
      and v: "\<forall>j. valid_id j \<longrightarrow> (gic_enabled s' j \<longleftrightarrow> j \<in> {29, 2, 3} \<or> gic_enabled boot_sched j) \<and>
        gic_priority s' j =
          (if j = 29 then 0 else if j = 2 then 16 else if j = 3 then 24 else gic_priority boot_sched j)"
    have "handler_of s' 29 = TimerT0Interrupt_isr" "handler_of s' 2 = T1Interrupt_isr"
      "handler_of s' 3 = T2Interrupt_isr" by (simp_all add: handler_of_def h boot_sched_def)
    moreover have off: "gic_enabled boot_sched = (\<lambda>_. False)"
      by (simp add: gic_enabled_def boot_sched_def fun_eq_iff)
    ultimately have "scheduled s'" and "gic_enabled s' 29" using v tk
      by (auto simp: scheduled_def gic_offsets off)
    moreover have "\<not> irq_masked s'" "pending s' = (\<lambda>_. False)"
      by (simp_all add: irq_masked_def m p boot_sched_def)
    ultimately show thesis using t by (intro that [of s']) (simp_all add: f_schedulerConfig_def)
  qed
  define e0 :: "(app_task, 'a) exec" where "e0 = \<lparr>core = c, app = undefined, active = []\<rparr>"
  define e1 where "e1 = e0\<lparr>core := timer_expires c\<rparr>"
  have "tmr_control c AND 0xFF07 = 7" using c(5) by (simp add: timer_running_def)
  then have "bit (tmr_control c AND 0xFF07) 0" "bit (tmr_control c AND 0xFF07) 2" by simp_all
  then have "bit (tmr_control c) 0" "bit (tmr_control c) 2" by (simp_all add: bit_and_iff)
  then have s1: "exec_step run e0 e1"
    using exec_step.expire [of e0 run] by (simp add: e1_def e0_def)
  have same: "same_config c (timer_expires c)" by (simp add: timer_expires_def)
  have sig: "signalled (timer_expires c) j \<longleftrightarrow> j = 29" for j
    using c(3,4) same_config_views(2) [OF same]
    by (auto simp: signalled_def timer_expires_def INTERRUPT_SCU_TIMER_def gic_offsets)
  have "gic_priority (timer_expires c) 29 = 0"
    using c(1) same_config_views(1) [OF same] by (simp add: scheduled_def)
  then have "acknowledged (timer_expires c) [] 29"
    by (simp add: acknowledged_def sig running_priority_def)
  moreover have "\<not> irq_masked (timer_expires c)" using c(2) by (simp add: irq_masked_def timer_expires_def)
  ultimately have "exec_step run e1 (irq_entry 29 e1)"
    by (intro exec_step.irq) (simp_all add: e1_def e0_def)
  with s1 have "exec_reach run e0 (irq_entry 29 e1)"
    by (blast intro: exec_reach.intros)
  then show thesis
    by (rule that) (use c(1) in \<open>simp_all add: e0_def e1_def irq_entry_def\<close>)
qed



end
