(* ===== verification/Shared_State.thy ===== *)
theory Shared_State
  imports Byte_Memory
begin

text \<open>
  The packets and the shared block that CPU1 and Linux exchange (\<open>src/include/shared_state.h\<close>):
  the C structures as records, their memory images on the ARM ABI (little endian, natural
  alignment, zeroed padding) and the fields read back from an image. Floating-point variables
  are carried as their bit patterns; this layer only moves them.
\<close>

section \<open>Structures\<close>

definition SHAREDSTATE_BACKLOG :: nat where "SHAREDSTATE_BACKLOG = 16"
definition SHAREDSTATE_VARIABLE_COUNT :: nat where "SHAREDSTATE_VARIABLE_COUNT = 16"

record SharedState_Variables =
  lastSetReceiveTimestamp :: u64
  lastSetSendTimestamp :: u64
  lastSetPacketId :: u16
  var_flags :: u16
  padding1 :: u16
  padding2 :: u16
  vd :: "u64 list"
  vf :: "u32 list"
  vs :: "u16 list"
  vb :: "u8 list"

record SharedState_TimeLevelStats =
  commandPacketId :: u16
  commandPacketLatency :: u32
  totalDroppedPackets :: u32
  timeLevelStartTimes :: "u32 list"
  timeLevelDurations :: "u32 list"
  iterationNumber :: u32
  lastPacketSendTime :: u32

text \<open>
  \<open>SharedState_T1DataPacket\<close>, \<open>SharedState_T2DataPacket\<close> and \<open>SharedState_T0ShmDataPacket\<close> have
  the same two fields; \<open>SharedState_T0DataPacket\<close> also carries the variables between them.
\<close>

record SharedState_DataPacket =
  timestamp :: u64
  stats :: SharedState_TimeLevelStats

record SharedState_T0DataPacket = SharedState_DataPacket +
  variables :: SharedState_Variables

record SharedState_T0SharedMemory =
  updateAtomicCounter :: u32
  prevUpdateTime :: u32
  shm_timestamp :: u64
  shm_vars :: SharedState_Variables

datatype SharedState_VariableType =
  SHAREDSTATE_VAR_DOUBLE | SHAREDSTATE_VAR_FLOAT | SHAREDSTATE_VAR_SHORT | SHAREDSTATE_VAR_BYTE

section \<open>Memory images\<close>

definition pad :: "nat \<Rightarrow> bytes" where
  "pad n = replicate n 0"

definition enc_vars :: "SharedState_Variables \<Rightarrow> bytes" where
  "enc_vars v = le_bytes 8 (lastSetReceiveTimestamp v) @ le_bytes 8 (lastSetSendTimestamp v) @
     le_bytes 2 (lastSetPacketId v) @ le_bytes 2 (var_flags v) @
     le_bytes 2 (padding1 v) @ le_bytes 2 (padding2 v) @
     concat (map (le_bytes 8) (vd v)) @ concat (map (le_bytes 4) (vf v)) @
     concat (map (le_bytes 2) (vs v)) @ concat (map (le_bytes 1) (vb v))"

definition enc_stats :: "SharedState_TimeLevelStats \<Rightarrow> bytes" where
  "enc_stats t = le_bytes 2 (commandPacketId t) @ pad 2 @
     le_bytes 4 (commandPacketLatency t) @ le_bytes 4 (totalDroppedPackets t) @
     concat (map (le_bytes 4) (timeLevelStartTimes t)) @
     concat (map (le_bytes 4) (timeLevelDurations t)) @
     le_bytes 4 (iterationNumber t) @ le_bytes 4 (lastPacketSendTime t)"

definition enc_t0 :: "SharedState_T0DataPacket \<Rightarrow> bytes" where
  "enc_t0 p = le_bytes 8 (timestamp p) @ enc_vars (variables p) @ enc_stats (stats p) @ pad 4"

definition enc_tl :: "SharedState_DataPacket \<Rightarrow> bytes" where
  "enc_tl p = le_bytes 8 (timestamp p) @ enc_stats (stats p) @ pad 4"

definition sizeof_T0DataPacket :: u32 where "sizeof_T0DataPacket = 424"
definition sizeof_DataPacket :: u32 where "sizeof_DataPacket = 160"
definition sizeof_T0SharedMemory :: u32 where "sizeof_T0SharedMemory = 280"
definition sizeof_T0CommandPacket :: nat where "sizeof_T0CommandPacket = 16"
definition sizeof_VariableSet :: nat where "sizeof_VariableSet = 2"

section \<open>Reading fields\<close>

definition field :: "nat \<Rightarrow> nat \<Rightarrow> bytes \<Rightarrow> 'a::len word" where
  "field n off bs = le_word (take n (drop off bs))"

definition fields :: "nat \<Rightarrow> nat \<Rightarrow> nat \<Rightarrow> bytes \<Rightarrow> 'a::len word list" where
  "fields n off k bs = map (\<lambda>i. field n (off + n * i) bs) [0..<k]"

definition dec_vars :: "bytes \<Rightarrow> SharedState_Variables" where
  "dec_vars bs = \<lparr>lastSetReceiveTimestamp = field 8 0 bs, lastSetSendTimestamp = field 8 8 bs,
     lastSetPacketId = field 2 16 bs, var_flags = field 2 18 bs,
     padding1 = field 2 20 bs, padding2 = field 2 22 bs,
     vd = fields 8 24 16 bs, vf = fields 4 152 16 bs, vs = fields 2 216 16 bs, vb = fields 1 248 16 bs\<rparr>"

definition dec_stats :: "bytes \<Rightarrow> SharedState_TimeLevelStats" where
  "dec_stats bs = \<lparr>commandPacketId = field 2 0 bs, commandPacketLatency = field 4 4 bs,
     totalDroppedPackets = field 4 8 bs, timeLevelStartTimes = fields 4 12 16 bs,
     timeLevelDurations = fields 4 76 16 bs, iterationNumber = field 4 140 bs,
     lastPacketSendTime = field 4 144 bs\<rparr>"

definition dec_t0 :: "bytes \<Rightarrow> SharedState_T0DataPacket" where
  "dec_t0 bs = \<lparr>timestamp = field 8 0 bs, stats = dec_stats (drop 272 bs), variables = dec_vars (drop 8 bs)\<rparr>"

definition dec_tl :: "bytes \<Rightarrow> SharedState_DataPacket" where
  "dec_tl bs = \<lparr>timestamp = field 8 0 bs, stats = dec_stats (drop 8 bs)\<rparr>"

section \<open>Well-formed values and round trips\<close>

definition vars_ok :: "SharedState_Variables \<Rightarrow> bool" where
  "vars_ok v \<longleftrightarrow> length (vd v) = 16 \<and> length (vf v) = 16 \<and> length (vs v) = 16 \<and> length (vb v) = 16"

definition stats_ok :: "SharedState_TimeLevelStats \<Rightarrow> bool" where
  "stats_ok t \<longleftrightarrow> length (timeLevelStartTimes t) = SHAREDSTATE_BACKLOG \<and>
     length (timeLevelDurations t) = SHAREDSTATE_BACKLOG"

lemma length_concat_le [simp]: "length (concat (map (le_bytes n) xs)) = n * length xs"
  by (induction xs) auto

lemma length_pad [simp]: "length (pad n) = n"
  by (simp add: pad_def)

lemma field_here: "LENGTH('a) \<le> 8 * n \<Longrightarrow> field n 0 (le_bytes n (w :: 'a::len word) @ rest) = w"
  by (simp add: field_def)

lemma field_skip: "length xs \<le> off \<Longrightarrow> field n off (xs @ rest) = field n (off - length xs) rest"
  by (simp add: field_def)

lemma field_array:
  assumes "LENGTH('a) \<le> 8 * n" and "i < length xs"
  shows "field n (n * i) (concat (map (le_bytes n) xs) @ rest) = (xs ! i :: 'a::len word)"
  using assms(2)
proof (induction xs arbitrary: i)
  case (Cons x xs)
  show ?case
  proof (cases i)
    case 0
    then show ?thesis using assms(1) by (simp add: field_here)
  next
    case (Suc j)
    with Cons show ?thesis by (simp add: field_skip)
  qed
qed simp

lemma fields_here:
  assumes "LENGTH('a) \<le> 8 * n" and "k = length xs"
  shows "fields n 0 k (concat (map (le_bytes n) xs) @ rest) = (xs :: 'a::len word list)"
  using assms by (auto simp: fields_def field_array intro: nth_equalityI)

lemma fields_last:
  assumes "LENGTH('a) \<le> 8 * n" and "k = length xs"
  shows "fields n 0 k (concat (map (le_bytes n) xs)) = (xs :: 'a::len word list)"
  using fields_here [OF assms, of "[]"] by simp

lemma fields_skip:
  "length xs \<le> off \<Longrightarrow> fields n off k (xs @ rest) = fields n (off - length xs) k rest"
  by (auto simp: fields_def field_skip)

lemma field_drop: "field n off (drop k bs) = field n (k + off) bs"
  by (simp add: field_def add.commute)

lemma fields_drop: "fields n off m (drop k bs) = fields n (k + off) m bs"
  by (simp add: fields_def field_drop add.assoc)

lemma length_enc_vars: "vars_ok v \<Longrightarrow> length (enc_vars v) = 264"
  by (simp add: enc_vars_def vars_ok_def)

lemma length_enc_stats: "stats_ok t \<Longrightarrow> length (enc_stats t) = 148"
  by (simp add: enc_stats_def stats_ok_def SHAREDSTATE_BACKLOG_def)

lemma dec_enc_vars:
  assumes "vars_ok v"
  shows "dec_vars (enc_vars v @ rest) = v"
  using assms unfolding dec_vars_def enc_vars_def vars_ok_def
  by (simp add: field_here field_skip fields_skip fields_here)

lemma dec_enc_stats:
  assumes "stats_ok t"
  shows "dec_stats (enc_stats t @ rest) = t"
  using assms unfolding dec_stats_def enc_stats_def stats_ok_def SHAREDSTATE_BACKLOG_def
  by (simp add: field_here field_skip fields_skip fields_here)

lemma dec_enc_t0:
  assumes "vars_ok (variables p)" and "stats_ok (stats p)"
  shows "dec_t0 (enc_t0 p @ rest) = p"
proof -
  have "drop 8 (enc_t0 p @ rest) = enc_vars (variables p) @ enc_stats (stats p) @ pad 4 @ rest"
    and "drop 272 (enc_t0 p @ rest) = enc_stats (stats p) @ pad 4 @ rest"
    by (simp_all add: enc_t0_def length_enc_vars assms)
  moreover have "field 8 0 (enc_t0 p @ rest) = timestamp p" by (simp add: enc_t0_def field_here)
  ultimately show ?thesis by (simp add: dec_t0_def dec_enc_vars dec_enc_stats assms)
qed

lemma dec_enc_tl:
  assumes "stats_ok (stats q)"
  shows "dec_tl (enc_tl q @ rest) = q"
proof -
  have "drop 8 (enc_tl q @ rest) = enc_stats (stats q) @ pad 4 @ rest" by (simp add: enc_tl_def)
  moreover have "field 8 0 (enc_tl q @ rest) = timestamp q" by (simp add: enc_tl_def field_here)
  ultimately show ?thesis by (simp add: dec_tl_def dec_enc_stats assms)
qed

lemma length_enc_t0: "vars_ok (variables p) \<Longrightarrow> stats_ok (stats p) \<Longrightarrow> length (enc_t0 p) = 424"
  by (simp add: enc_t0_def length_enc_vars length_enc_stats)

lemma length_enc_tl: "stats_ok (stats q) \<Longrightarrow> length (enc_tl q) = 160"
  by (simp add: enc_tl_def length_enc_stats)

section \<open>Command packets\<close>

text \<open>
  A T0 command packet is a header followed by \<open>varSetCommands\<close> entries, each a variable number,
  a type and the value. \<open>SendRandomVariableUpdate\<close> of the Linux application builds them
  (\<open>src/app/src/t0dataprocess.hpp\<close>).
\<close>

datatype var_value = VDouble u64 | VFloat u32 | VShort u16 | VByte u8

fun type_code :: "var_value \<Rightarrow> u8" where
  "type_code (VDouble _) = 0"
| "type_code (VFloat _) = 1"
| "type_code (VShort _) = 2"
| "type_code (VByte _) = 3"

fun value_bytes :: "var_value \<Rightarrow> bytes" where
  "value_bytes (VDouble x) = le_bytes 8 x"
| "value_bytes (VFloat x) = le_bytes 4 x"
| "value_bytes (VShort x) = le_bytes 2 x"
| "value_bytes (VByte x) = le_bytes 1 x"

definition enc_set :: "u8 \<times> var_value \<Rightarrow> bytes" where
  "enc_set c = [fst c, type_code (snd c)] @ value_bytes (snd c)"

record command_header =
  cmd_timestamp :: u64
  packetId :: u16
  cmd_flags :: u16
  varSetCommands :: u16

definition enc_header :: "command_header \<Rightarrow> bytes" where
  "enc_header h = le_bytes 8 (cmd_timestamp h) @ le_bytes 2 (packetId h) @ le_bytes 2 (cmd_flags h) @
     le_bytes 2 (varSetCommands h) @ pad 2"

definition enc_command :: "command_header \<Rightarrow> (u8 \<times> var_value) list \<Rightarrow> bytes" where
  "enc_command h cs = enc_header h @ concat (map enc_set cs)"

lemma length_enc_header [simp]: "length (enc_header h) = sizeof_T0CommandPacket"
  by (simp add: enc_header_def sizeof_T0CommandPacket_def)

lemma header_fields:
  "field 8 0 (enc_header h @ rest) = cmd_timestamp h"
  "field 2 8 (enc_header h @ rest) = packetId h"
  "field 2 10 (enc_header h @ rest) = cmd_flags h"
  "field 2 12 (enc_header h @ rest) = varSetCommands h"
  by (simp_all add: enc_header_def field_here field_skip)

section \<open>Round trip\<close>

text \<open>
  The packets CPU1 sends are read back unchanged. The image of every
  well-formed T0 packet has the 424 bytes of \<open>sizeof (SharedState_T0DataPacket)\<close> and the fields
  read at their C offsets give the packet back, whatever follows it in the buffer; the same
  holds for the 160-byte T1, T2 and shared-memory packets.
\<close>

lemma packet_roundtrip:
  assumes "vars_ok (variables p)" and "stats_ok (stats p)" and "stats_ok (stats q)"
  shows "length (enc_t0 p) = unat sizeof_T0DataPacket \<and> dec_t0 (enc_t0 p @ rest) = p \<and>
    length (enc_tl q) = unat sizeof_DataPacket \<and> dec_tl (enc_tl q @ rest) = q"
  using assms by (simp add: dec_enc_t0 dec_enc_tl length_enc_t0 length_enc_tl
      sizeof_T0DataPacket_def sizeof_DataPacket_def)

definition zero_vars :: SharedState_Variables where
  "zero_vars = \<lparr>lastSetReceiveTimestamp = 0, lastSetSendTimestamp = 0, lastSetPacketId = 0,
     var_flags = 0, padding1 = 0, padding2 = 0, vd = replicate 16 0, vf = replicate 16 0,
     vs = replicate 16 0, vb = replicate 16 0\<rparr>"

definition zero_stats :: SharedState_TimeLevelStats where
  "zero_stats = \<lparr>commandPacketId = 0, commandPacketLatency = 0, totalDroppedPackets = 0,
     timeLevelStartTimes = replicate 16 0, timeLevelDurations = replicate 16 0,
     iterationNumber = 0, lastPacketSendTime = 0\<rparr>"

definition zero_t0 :: SharedState_T0DataPacket where
  "zero_t0 = \<lparr>timestamp = 0, stats = zero_stats, variables = zero_vars\<rparr>"

definition zero_tl :: SharedState_DataPacket where
  "zero_tl = \<lparr>timestamp = 0, stats = zero_stats\<rparr>"

lemma zero_ok [simp]: "vars_ok zero_vars" "stats_ok zero_stats"
  by (simp_all add: vars_ok_def zero_vars_def stats_ok_def zero_stats_def SHAREDSTATE_BACKLOG_def)

lemma packet_roundtrip_witness:
  "length (enc_t0 (zero_t0\<lparr>timestamp := 7\<rparr>)) = unat sizeof_T0DataPacket \<and>
   timestamp (dec_t0 (enc_t0 (zero_t0\<lparr>timestamp := 7\<rparr>) @ [1])) = 7 \<and>
   dec_tl (enc_tl zero_tl @ [1]) = zero_tl"
  using packet_roundtrip [of "zero_t0\<lparr>timestamp := 7\<rparr>" zero_tl "[1]"]
  by (simp add: zero_t0_def zero_tl_def)

end
