(* ===== verification/Workload.thy ===== *)
theory Workload
  imports Shared_State "HOL-Library.Signed_Division"
begin

text \<open>
  The synthetic workload of the three task levels, \<open>src/src/workload.c\<close>. Doubles and floats are
  their bit patterns. The floating-point unit and the C library functions \<open>sin\<close> and \<open>cos\<close> are
  parameters, the fields of \<open>fpu\<close>, and so is what memory holds outside the arrays \<open>vf\<close> and
  \<open>vb\<close>: the code indexes them with unchecked values.
\<close>

record fpu =
  dadd :: "u64 \<Rightarrow> u64 \<Rightarrow> u64"
  dsub :: "u64 \<Rightarrow> u64 \<Rightarrow> u64"
  dmul :: "u64 \<Rightarrow> u64 \<Rightarrow> u64"
  ddiv :: "u64 \<Rightarrow> u64 \<Rightarrow> u64"
  dless :: "u64 \<Rightarrow> u64 \<Rightarrow> bool"
  dsin :: "u64 \<Rightarrow> u64"
  dcos :: "u64 \<Rightarrow> u64"
  f2d :: "u32 \<Rightarrow> u64"
  d2f :: "u64 \<Rightarrow> u32"
  fless :: "u32 \<Rightarrow> u32 \<Rightarrow> bool"
  d2i :: "u64 \<Rightarrow> int"
  i2d :: "int \<Rightarrow> u64"
  stray_vf :: "nat \<Rightarrow> u32"
  stray_vb :: "int \<Rightarrow> u8"

text \<open>A trivial unit, enough to evaluate the model on examples.\<close>

definition demo_fpu :: fpu where
  "demo_fpu = \<lparr>dadd = (+), dsub = (-), dmul = (*), ddiv = (div), dless = (<), dsin = id, dcos = id,
     f2d = ucast, d2f = ucast, fless = (<), d2i = sint, i2d = of_int,
     stray_vf = (\<lambda>_. 0), stray_vb = (\<lambda>_. 0)\<rparr>"

text \<open>Reads of \<open>vf[k]\<close> and \<open>vb[k]\<close> at an arbitrary index.\<close>

definition vf_at :: "fpu \<Rightarrow> SharedState_Variables \<Rightarrow> nat \<Rightarrow> u32" where
  "vf_at fp v k = (if k < length (vf v) then vf v ! k else stray_vf fp k)"

definition vb_at :: "fpu \<Rightarrow> SharedState_Variables \<Rightarrow> int \<Rightarrow> u8" where
  "vb_at fp v k = (if 0 \<le> k \<and> nat k < length (vb v) then vb v ! nat k else stray_vb fp k)"

definition T0_WORK_DIFFICULTY :: nat where "T0_WORK_DIFFICULTY = 8"
definition T1_WORK_DIFFICULTY :: nat where "T1_WORK_DIFFICULTY = 200"
definition T2_WORK_DIFFICULTY :: nat where "T2_WORK_DIFFICULTY = 400"

definition WORKLOAD_Init :: "SharedState_Variables \<Rightarrow> SharedState_Variables" where
  "WORKLOAD_Init v = zero_vars"

text \<open>The decimal literals of the source as IEEE double patterns.\<close>

definition lit_1_41 :: u64 where "lit_1_41 = 0x3FF68F5C28F5C28F"
definition lit_2_1 :: u64 where "lit_2_1 = 0x4000CCCCCCCCCCCD"
definition lit_231_4 :: u64 where "lit_231_4 = 0x406CECCCCCCCCCCD"
definition lit_0_14 :: u64 where "lit_0_14 = 0x3FC1EB851EB851EC"
definition lit_50 :: u64 where "lit_50 = 0x4049000000000000"
definition lit_m23_4 :: u64 where "lit_m23_4 = 0xC037666666666666"
definition lit_10000 :: u64 where "lit_10000 = 0x40C3880000000000"
definition lit_m10000 :: u64 where "lit_m10000 = 0xC0C3880000000000"
definition lit_123_452 :: u64 where "lit_123_452 = 0x405EDCED916872B0"
definition lit_2143515f :: u32 where "lit_2143515f = 0x4A02D46C"
definition lit_m125412f :: u32 where "lit_m125412f = 0xC7F4F200"
definition lit_123 :: u64 where "lit_123 = 0x405EC00000000000"
definition lit_1512436 :: u64 where "lit_1512436 = 0x413713F400000000"
definition lit_0_65 :: u64 where "lit_0_65 = 0x3FE4CCCCCCCCCCCD"
definition lit_m32165132 :: u64 where "lit_m32165132 = 0xC17EACD0C0000000"
definition lit_1234239051597 :: u64 where "lit_1234239051597 = 0x4271F5E61574D000"
definition lit_634 :: u64 where "lit_634 = 0x4083D00000000000"

text \<open>One pass of the inner loop body, on the variables and the static \<open>s_counter\<close>.\<close>

definition work_item ::
  "fpu \<Rightarrow> nat \<Rightarrow> SharedState_Variables \<times> u64 \<Rightarrow> SharedState_Variables \<times> u64" where
  "work_item fp i = (\<lambda>(v, s_counter).
    let d = vd v ! i;
        d = dadd fp d (dadd fp (dadd fp (dmul fp lit_2_1 d) s_counter) lit_231_4);
        s_counter = dadd fp s_counter lit_0_14;
        s_counter = (if dless fp lit_50 s_counter then lit_m23_4 else s_counter);
        big = (dless fp lit_10000 d \<or> dless fp d lit_m10000);
        v = v\<lparr>vd := (vd v)[i := (if big then dsin fp (ddiv fp d lit_10000) else d)]\<rparr>;
        v = (if big then v\<lparr>vs := (vs v)[i := vs v ! i + 1]\<rparr> else v);
        k = (unat (vs v ! i) * 123 + 13) mod SHAREDSTATE_VARIABLE_COUNT;
        v = v\<lparr>vb := (vb v)[k := vb v ! k + 1]\<rparr>;
        j = d2i fp (dmul fp s_counter (f2d fp (vf_at fp v (unat (vb v ! i))))) smod int SHAREDSTATE_VARIABLE_COUNT;
        f = d2f fp (dadd fp (f2d fp (vf v ! i)) (dmul fp (i2d fp (uint (vb_at fp v j))) s_counter));
        f = (if fless fp lit_2143515f f \<or> fless fp f lit_m125412f
             then d2f fp (dmul fp lit_123_452 s_counter) else f)
    in (v\<lparr>vf := (vf v)[i := f]\<rparr>, s_counter))"

definition work_pass ::
  "fpu \<Rightarrow> SharedState_Variables \<times> u64 \<Rightarrow> SharedState_Variables \<times> u64" where
  "work_pass fp vc = fold (work_item fp) [0..<SHAREDSTATE_VARIABLE_COUNT] vc"

definition WORKLOAD_T0 ::
  "fpu \<Rightarrow> SharedState_Variables \<times> u64 \<Rightarrow> SharedState_Variables \<times> u64" where
  "WORKLOAD_T0 fp vc = (work_pass fp ^^ T0_WORK_DIFFICULTY) vc"

text \<open>
  T1 and T2 run the same loop for a different number of rounds, each on its own static
  \<open>s_workStuff\<close>.
\<close>

definition stuff_round :: "fpu \<Rightarrow> u64 \<Rightarrow> nat \<Rightarrow> u64 \<Rightarrow> u64" where
  "stuff_round fp s_workStuff i var =
    (let var = dadd fp var lit_123;
         var = (if dless fp lit_1512436 var then dsub fp lit_123 (i2d fp (int i)) else var)
     in dmul fp (dmul fp (dcos fp var) lit_0_65) s_workStuff)"

definition stuff_work :: "fpu \<Rightarrow> nat \<Rightarrow> u64 \<Rightarrow> u64" where
  "stuff_work fp n s_workStuff =
    (let var = fold (stuff_round fp s_workStuff) [0..<n] s_workStuff
     in if dless fp lit_m32165132 var \<and> dless fp var lit_1234239051597 then var else lit_634)"

definition WORKLOAD_T1 :: "fpu \<Rightarrow> u64 \<Rightarrow> u64" where
  "WORKLOAD_T1 fp s_workStuff = stuff_work fp T1_WORK_DIFFICULTY s_workStuff"

definition WORKLOAD_T2 :: "fpu \<Rightarrow> u64 \<Rightarrow> u64" where
  "WORKLOAD_T2 fp s_workStuff = stuff_work fp T2_WORK_DIFFICULTY s_workStuff"

definition WORKLOAD_BG :: "'a \<Rightarrow> 'a" where
  "WORKLOAD_BG a = a"

section \<open>What the workload keeps\<close>

text \<open>The workload changes the four arrays in place and nothing else of the variables.\<close>

definition same_meta :: "SharedState_Variables \<Rightarrow> SharedState_Variables \<Rightarrow> bool" where
  "same_meta v w \<longleftrightarrow> w\<lparr>vd := [], vf := [], vs := [], vb := []\<rparr> = v\<lparr>vd := [], vf := [], vs := [], vb := []\<rparr> \<and>
     length (vd w) = length (vd v) \<and> length (vf w) = length (vf v) \<and>
     length (vs w) = length (vs v) \<and> length (vb w) = length (vb v)"

lemma same_meta_refl [simp]: "same_meta v v"
  by (simp add: same_meta_def)

lemma same_meta_trans: "same_meta u v \<Longrightarrow> same_meta v w \<Longrightarrow> same_meta u w"
  by (simp add: same_meta_def)

lemma same_meta_ok: "same_meta v w \<Longrightarrow> vars_ok w = vars_ok v"
  by (simp add: same_meta_def vars_ok_def)

lemma same_meta_fields:
  assumes "same_meta v w"
  shows "lastSetReceiveTimestamp w = lastSetReceiveTimestamp v" "lastSetSendTimestamp w = lastSetSendTimestamp v"
    "lastSetPacketId w = lastSetPacketId v" "var_flags w = var_flags v"
  using assms by (cases v; cases w; simp add: same_meta_def)+

lemma same_meta_update:
  "same_meta v (w\<lparr>vd := (vd w)[i := x]\<rparr>) = same_meta v w"
  "same_meta v (w\<lparr>vf := (vf w)[i := y]\<rparr>) = same_meta v w"
  "same_meta v (w\<lparr>vs := (vs w)[i := z]\<rparr>) = same_meta v w"
  "same_meta v (w\<lparr>vb := (vb w)[i := b]\<rparr>) = same_meta v w"
  "same_meta v (if c then w else w') = (if c then same_meta v w else same_meta v w')"
  by (simp_all add: same_meta_def)

lemma work_item_meta: "same_meta (fst vc) (fst (work_item fp i vc))"
  by (cases vc) (simp only: work_item_def Let_def prod.case fst_conv same_meta_update same_meta_refl if_cancel)

lemma fold_meta: "same_meta (fst vc) (fst (fold (work_item fp) ks vc))"
proof (induction ks arbitrary: vc)
  case (Cons i ks)
  show ?case using same_meta_trans [OF work_item_meta [of vc fp i] Cons.IH] by simp
qed simp

lemma WORKLOAD_T0_meta: "same_meta (fst vc) (fst (WORKLOAD_T0 fp vc))"
proof -
  have step: "same_meta (fst vc) (fst (work_pass fp vc))" for vc
    by (simp add: work_pass_def fold_meta)
  have "same_meta (fst vc) (fst ((work_pass fp ^^ n) vc))" for n
  proof (induction n)
    case (Suc n)
    show ?case using same_meta_trans [OF Suc step] by simp
  qed simp
  then show ?thesis by (simp add: WORKLOAD_T0_def)
qed

end
