(* ===== verification/Global_Timer.thy ===== *)
theory Global_Timer
  imports Prelude
begin

text \<open>
  The 64-bit global timer of the Cortex-A9, read through two 32-bit registers
  (\<open>GlobalTimer\<close> of \<open>src/src/application.c\<close> and \<open>application_shm.c\<close>; the Linux application has
  the same loop). The hardware counter is a parameter \<open>clk\<close>: \<open>clk n\<close> is its value at the
  \<open>n\<close>-th access the core makes. The result carries the number of the next access.
\<close>

definition timer_hi :: "u64 \<Rightarrow> u32" where "timer_hi t = ucast (drop_bit 32 t)"
definition timer_lo :: "u64 \<Rightarrow> u32" where "timer_lo t = ucast t"

definition timer_join :: "u32 \<Rightarrow> u32 \<Rightarrow> u64" where
  "timer_join high low = push_bit 32 (ucast high) OR ucast low"

partial_function (option) GlobalTimer :: "(nat \<Rightarrow> u64) \<Rightarrow> nat \<Rightarrow> (u64 \<times> nat) option" where
  [code]: "GlobalTimer clk n =
    (let high = timer_hi (clk n);
         low = timer_lo (clk (n + 1))
     in if timer_hi (clk (n + 2)) \<noteq> high then GlobalTimer clk (n + 3)
        else Some (timer_join high low, n + 3))"

lemma timer_join_parts: "timer_join (timer_hi t) (timer_lo t) = t"
  unfolding timer_join_def timer_hi_def timer_lo_def
  by (rule bit_word_eqI) (auto simp: bit_simps)

lemma timer_hi_unat: "unat (timer_hi t) = unat t div 2 ^ 32"
proof -
  have "unat t < 2 ^ LENGTH(64)" by (rule unsigned_less)
  then have "unat t div 2 ^ 32 < 2 ^ 32" by (simp add: less_mult_imp_div_less)
  then show ?thesis
    by (simp add: timer_hi_def unsigned_ucast_eq drop_bit_eq_div take_bit_eq_mod unat_div_distrib)
qed

lemma timer_hi_mono: "s \<le> t \<Longrightarrow> timer_hi s \<le> timer_hi t"
  by (simp add: word_le_nat_alt timer_hi_unat div_le_mono)

lemma GlobalTimer_here:
  assumes "timer_hi (clk (n + 2)) = timer_hi (clk n)" and "clk n \<le> clk (n + 1)" and "clk (n + 1) \<le> clk (n + 2)"
  shows "GlobalTimer clk n = Some (clk (n + 1), n + 3)"
proof -
  have "timer_hi (clk (n + 1)) = timer_hi (clk n)"
    using assms timer_hi_mono by (metis order_antisym)
  then have "timer_join (timer_hi (clk n)) (timer_lo (clk (n + 1))) = clk (n + 1)"
    using timer_join_parts [of "clk (n + 1)"] by simp
  then show ?thesis using assms(1) by (subst GlobalTimer.simps) simp
qed

lemma GlobalTimer_again:
  "timer_hi (clk (n + 2)) \<noteq> timer_hi (clk n) \<Longrightarrow> GlobalTimer clk n = GlobalTimer clk (n + 3)"
  by (subst GlobalTimer.simps) simp

text \<open>
  Between two carries into the upper half the timer makes \<open>2\<^sup>3\<^sup>2\<close> steps, far more than six register
  accesses take; \<open>slow_carry\<close> says that of the six accesses of two rounds either the first
  three or the last four see one upper half.
\<close>

definition slow_carry :: "(nat \<Rightarrow> u64) \<Rightarrow> nat \<Rightarrow> bool" where
  "slow_carry clk n \<longleftrightarrow> timer_hi (clk (n + 2)) = timer_hi (clk n) \<or>
     timer_hi (clk (n + 5)) = timer_hi (clk (n + 2))"

lemma GlobalTimer_returns:
  assumes "\<forall>i j. i \<le> j \<longrightarrow> clk i \<le> clk j" and "slow_carry clk n"
  shows "\<exists>k n'. GlobalTimer clk n = Some (clk k, n') \<and> n \<le> k \<and> k < n' \<and> n' \<le> n + 6"
proof (cases "timer_hi (clk (n + 2)) = timer_hi (clk n)")
  case True
  have "GlobalTimer clk n = Some (clk (n + 1), n + 3)"
    by (rule GlobalTimer_here [OF True]) (use assms(1) in auto)
  then show ?thesis by (intro exI [of _ "n + 1"] exI [of _ "n + 3"]) simp
next
  case False
  with assms(2) have hi: "timer_hi (clk (n + 5)) = timer_hi (clk (n + 2))" by (simp add: slow_carry_def)
  have "timer_hi (clk (n + 2)) \<le> timer_hi (clk (n + 3))" "timer_hi (clk (n + 3)) \<le> timer_hi (clk (n + 5))"
    using assms(1) by (auto intro: timer_hi_mono)
  with hi have "timer_hi (clk (n + 5)) = timer_hi (clk (n + 3))" by (metis order_antisym)
  then have "timer_hi (clk (n + 3 + 2)) = timer_hi (clk (n + 3))"
    by (simp only: add.assoc) simp
  then have "GlobalTimer clk (n + 3) = Some (clk (n + 3 + 1), n + 3 + 3)"
    by (rule GlobalTimer_here) (use assms(1) in auto)
  with GlobalTimer_again [OF False] show ?thesis
    by (intro exI [of _ "n + 4"] exI [of _ "n + 6"]) (simp add: eval_nat_numeral)
qed

text \<open>
  C39: the global timer is read without tearing. If the counter never runs backwards and
  its upper half does not carry in both of two consecutive rounds, \<open>GlobalTimer\<close> returns, after at most two
  rounds, the value the counter had at one single access of that call, although it reads the
  two halves at different times.
\<close>

theorem global_timer:
  assumes "\<forall>i j. i \<le> j \<longrightarrow> clk i \<le> clk j" and "slow_carry clk n"
  shows "\<exists>k n'. GlobalTimer clk n = Some (clk k, n') \<and> n \<le> k \<and> k < n' \<and> n' \<le> n + 6"
  using assms by (rule GlobalTimer_returns)

text \<open>A read across a carry: the counter is at the top of its lower half.\<close>

definition demo_clk :: "nat \<Rightarrow> u64" where
  "demo_clk i = (if i < 2 then 0xFFFFFFFF else 0x100000005)"

theorem global_timer_witness:
  "\<exists>k n'. GlobalTimer demo_clk 0 = Some (demo_clk k, n') \<and> k < n' \<and> n' \<le> 6 \<and> slow_carry demo_clk 0"
proof -
  have "\<forall>i j. i \<le> j \<longrightarrow> demo_clk i \<le> demo_clk j" by (simp add: demo_clk_def)
  moreover have "slow_carry demo_clk 0" by (simp add: slow_carry_def demo_clk_def)
  ultimately show ?thesis using global_timer [of demo_clk 0] by auto
qed

end
