(* ===== verification/Application.thy ===== *)
theory Application
  imports Workload Global_Timer "HOL-Library.Monad_Syntax"
begin

text \<open>
  The CPU1 application in its packet configuration, \<open>src/src/application.c\<close>: the command
  handlers and the three task functions. The transport is a parameter (the \<open>VARIANT_\<close> functions
  of either variant), as are the timer counter and the floating-point unit. A step with no
  defined result in C, an access outside a buffer or a variable array, is the value \<open>None\<close>, and
  so is a timer loop that never ends.
\<close>

section \<open>State\<close>

record app =
  timer_reads :: nat
  f_running :: bool
  f_t0InitDone :: bool
  s_t0StartTime :: u64
  s_t0Packet :: SharedState_T0DataPacket
  s_t1Packet :: SharedState_DataPacket
  s_t2Packet :: SharedState_DataPacket
  f_t0PacketBuffer :: bytes
  f_t1PacketBuffer :: bytes
  f_t2PacketBuffer :: bytes
  s_variables :: SharedState_Variables
  s_counter :: u64
  t1_workStuff :: u64
  t2_workStuff :: u64

text \<open>What the application calls: \<open>io_read\<close> and \<open>io_write\<close> are \<open>VARIANT_ReadChan\<close> and
  \<open>VARIANT_WriteChan\<close> of the channel given by their first argument.\<close>

record 'v io =
  io_clk :: "nat \<Rightarrow> u64"
  io_fpu :: fpu
  io_read :: "nat \<Rightarrow> bytes \<Rightarrow> u32 \<Rightarrow> (bytes \<Rightarrow> u32 \<Rightarrow> app option \<Rightarrow> app option) \<Rightarrow> app option \<Rightarrow> 'v
    \<Rightarrow> bytes \<times> app option \<times> 'v"
  io_write :: "nat \<Rightarrow> bytes \<Rightarrow> u32 \<Rightarrow> 'v \<Rightarrow> bool \<times> 'v"

definition PACKET_BUFFER_SIZE :: u32 where "PACKET_BUFFER_SIZE = 0x780"

definition now :: "'v io \<Rightarrow> app \<Rightarrow> (u64 \<times> app) option" where
  "now io a = map_option (\<lambda>(t, n). (t, a\<lparr>timer_reads := n\<rparr>)) (GlobalTimer (io_clk io) (timer_reads a))"

section \<open>Command handlers\<close>

text \<open>The loop over the variable-set entries, from offset \<open>off\<close> of the packet buffer.\<close>

fun set_variables :: "nat \<Rightarrow> nat \<Rightarrow> bytes \<Rightarrow> SharedState_Variables \<Rightarrow> SharedState_Variables option" where
  "set_variables 0 off data v = Some v"
| "set_variables (Suc n) off data v =
    (if length data < off + sizeof_VariableSet then None
     else
       let variableId = unat (data ! off);
           variableType = data ! (off + 1);
           off = off + sizeof_VariableSet
       in if variableType = 0 then
            (if variableId < length (vd v) \<and> off + 8 \<le> length data
             then set_variables n (off + 8) data (v\<lparr>vd := (vd v)[variableId := field 8 off data]\<rparr>)
             else None)
          else if variableType = 1 then
            (if variableId < length (vf v) \<and> off + 4 \<le> length data
             then set_variables n (off + 4) data (v\<lparr>vf := (vf v)[variableId := field 4 off data]\<rparr>)
             else None)
          else if variableType = 2 then
            (if variableId < length (vs v) \<and> off + 2 \<le> length data
             then set_variables n (off + 2) data (v\<lparr>vs := (vs v)[variableId := field 2 off data]\<rparr>)
             else None)
          else if variableType = 3 then
            (if variableId < length (vb v) \<and> off + 1 \<le> length data
             then set_variables n (off + 1) data (v\<lparr>vb := (vb v)[variableId := field 1 off data]\<rparr>)
             else None)
          else set_variables n off data v)"

text \<open>The latency is the difference of two 64-bit times, cut to 32 bits.\<close>

definition note_command :: "u64 \<Rightarrow> u64 \<Rightarrow> u16 \<Rightarrow> SharedState_TimeLevelStats \<Rightarrow> SharedState_TimeLevelStats" where
  "note_command receiveTime sent pid t =
     t\<lparr>commandPacketId := pid, commandPacketLatency := ucast (receiveTime - sent)\<rparr>"

definition HandleT0Packet :: "'v io \<Rightarrow> bytes \<Rightarrow> u32 \<Rightarrow> app \<Rightarrow> app option" where
  "HandleT0Packet io data sz a = do {
     (receiveTime, a) \<leftarrow> now io a;
     _ \<leftarrow> (if length data < sizeof_T0CommandPacket then None else Some ());
     let sent = (field 8 0 data :: u64);
     let pid = (field 2 8 data :: u16);
     let flags = (field 2 10 data :: u16);
     let count = (field 2 12 data :: u16);
     let a = a\<lparr>s_t0Packet := (s_t0Packet a)\<lparr>stats := note_command receiveTime sent pid (stats (s_t0Packet a))\<rparr>,
               s_variables := (s_variables a)\<lparr>lastSetPacketId := pid, lastSetReceiveTimestamp := receiveTime,
                 lastSetSendTimestamp := sent\<rparr>\<rparr>;
     let a = (if flags = 0xDEAD then a\<lparr>f_running := False\<rparr> else a);
     v \<leftarrow> set_variables (unat count) sizeof_T0CommandPacket data (s_variables a);
     Some (a\<lparr>s_variables := v\<rparr>) }"

definition HandleT1Packet :: "'v io \<Rightarrow> bytes \<Rightarrow> u32 \<Rightarrow> app \<Rightarrow> app option" where
  "HandleT1Packet io data sz a = do {
     (receiveTime, a) \<leftarrow> now io a;
     _ \<leftarrow> (if length data < 10 then None else Some ());
     Some (a\<lparr>s_t1Packet := (s_t1Packet a)\<lparr>stats :=
       note_command receiveTime (field 8 0 data) (field 2 8 data) (stats (s_t1Packet a))\<rparr>\<rparr>) }"

definition HandleT2Packet :: "'v io \<Rightarrow> bytes \<Rightarrow> u32 \<Rightarrow> app \<Rightarrow> app option" where
  "HandleT2Packet io data sz a = do {
     (receiveTime, a) \<leftarrow> now io a;
     _ \<leftarrow> (if length data < 10 then None else Some ());
     Some (a\<lparr>s_t2Packet := (s_t2Packet a)\<lparr>stats :=
       note_command receiveTime (field 8 0 data) (field 2 8 data) (stats (s_t2Packet a))\<rparr>\<rparr>) }"

section \<open>Task functions\<close>

definition APPLICATION_Init :: "app \<Rightarrow> bool \<times> app" where
  "APPLICATION_Init a = (True, a\<lparr>s_t0Packet := zero_t0, s_t1Packet := zero_tl, s_t2Packet := zero_tl\<rparr>)"

text \<open>\<open>VARIANT_ReadChan\<close> with a handler that may fail.\<close>

definition read_with ::
  "'v io \<Rightarrow> nat \<Rightarrow> (app \<Rightarrow> bytes) \<Rightarrow> (bytes \<Rightarrow> app \<Rightarrow> app) \<Rightarrow> (bytes \<Rightarrow> u32 \<Rightarrow> app \<Rightarrow> app option) \<Rightarrow>
   app \<times> 'v \<Rightarrow> (app \<times> 'v) option" where
  "read_with io i get_buf put_buf handler = (\<lambda>(a, v).
     let (buf, r, v) = io_read io i (get_buf a) PACKET_BUFFER_SIZE
           (\<lambda>data sz r. Option.bind r (handler data sz)) (Some a) v
     in map_option (\<lambda>a. (put_buf buf a, v)) r)"

definition ReadChan0 :: "'v io \<Rightarrow> app \<times> 'v \<Rightarrow> (app \<times> 'v) option" where
  "ReadChan0 io = read_with io 0 f_t0PacketBuffer (\<lambda>b. f_t0PacketBuffer_update (\<lambda>_. b)) (HandleT0Packet io)"

definition ReadChan1 :: "'v io \<Rightarrow> app \<times> 'v \<Rightarrow> (app \<times> 'v) option" where
  "ReadChan1 io = read_with io 1 f_t1PacketBuffer (\<lambda>b. f_t1PacketBuffer_update (\<lambda>_. b)) (HandleT1Packet io)"

definition ReadChan2 :: "'v io \<Rightarrow> app \<times> 'v \<Rightarrow> (app \<times> 'v) option" where
  "ReadChan2 io = read_with io 2 f_t2PacketBuffer (\<lambda>b. f_t2PacketBuffer_update (\<lambda>_. b)) (HandleT2Packet io)"

text \<open>The \<open>memmove\<close> of the first fifteen entries up by one, then the store to entry 0.\<close>

definition push_time :: "u32 \<Rightarrow> u32 list \<Rightarrow> u32 list" where
  "push_time t ts = t # take (SHAREDSTATE_BACKLOG - 1) ts"

definition note_run :: "u64 \<Rightarrow> u64 \<Rightarrow> SharedState_TimeLevelStats \<Rightarrow> SharedState_TimeLevelStats" where
  "note_run start finish t = t\<lparr>
     timeLevelStartTimes := push_time (ucast start) (timeLevelStartTimes t),
     timeLevelDurations := push_time (ucast (finish - start)) (timeLevelDurations t)\<rparr>"

definition note_sent :: "bool \<Rightarrow> SharedState_TimeLevelStats \<Rightarrow> SharedState_TimeLevelStats" where
  "note_sent ok t = t\<lparr>
     totalDroppedPackets := (if ok then totalDroppedPackets t else totalDroppedPackets t + 1),
     iterationNumber := iterationNumber t + 1\<rparr>"

definition do_workload_t0 :: "'v io \<Rightarrow> app \<Rightarrow> app" where
  "do_workload_t0 io a =
    (let (v, c) = WORKLOAD_T0 (io_fpu io) (s_variables a, s_counter a)
     in a\<lparr>s_variables := v, s_counter := c\<rparr>)"

definition report_t0 :: "'v io \<Rightarrow> app \<times> 'v \<Rightarrow> (app \<times> 'v) option" where
  "report_t0 io = (\<lambda>(a, v). do {
     (t, a) \<leftarrow> now io a;
     let p = (s_t0Packet a)\<lparr>timestamp := t, stats := note_run (s_t0StartTime a) t (stats (s_t0Packet a)),
               variables := s_variables a\<rparr>;
     let (ok, v) = io_write io 0 (enc_t0 p) sizeof_T0DataPacket v;
     let p = p\<lparr>stats := note_sent ok (stats p)\<rparr>;
     (t2, a) \<leftarrow> now io a;
     let p = p\<lparr>stats := (stats p)\<lparr>lastPacketSendTime := ucast (t2 - timestamp p)\<rparr>\<rparr>;
     Some (a\<lparr>s_t0Packet := p\<rparr>, v) })"

definition APPLICATION_T0 :: "'v io \<Rightarrow> app \<times> 'v \<Rightarrow> (app \<times> 'v) option" where
  "APPLICATION_T0 io = (\<lambda>(a, v). do {
     (t, a) \<leftarrow> now io a;
     let a = a\<lparr>s_t0StartTime := t\<rparr>;
     (a, v) \<leftarrow> (if f_t0InitDone a then ReadChan0 io (a, v) else Some (a, v));
     let a = do_workload_t0 io a;
     if f_t0InitDone a then report_t0 io (a, v) else Some (a\<lparr>f_t0InitDone := True\<rparr>, v) })"

text \<open>The tail of \<open>APPLICATION_T1\<close> and \<open>APPLICATION_T2\<close>: update the statistics, send the packet.\<close>

definition report_level ::
  "'v io \<Rightarrow> nat \<Rightarrow> u64 \<Rightarrow> SharedState_DataPacket \<Rightarrow> app \<times> 'v \<Rightarrow> (SharedState_DataPacket \<times> app \<times> 'v) option" where
  "report_level io i start p = (\<lambda>(a, v). do {
     (t, a) \<leftarrow> now io a;
     let p = p\<lparr>timestamp := t, stats := note_run start t (stats p)\<rparr>;
     let (ok, v) = io_write io i (enc_tl p) sizeof_DataPacket v;
     let p = p\<lparr>stats := note_sent ok (stats p)\<rparr>;
     (t2, a) \<leftarrow> now io a;
     Some (p\<lparr>stats := (stats p)\<lparr>lastPacketSendTime := ucast (t2 - timestamp p)\<rparr>\<rparr>, a, v) })"

definition APPLICATION_T1 :: "'v io \<Rightarrow> app \<times> 'v \<Rightarrow> (app \<times> 'v) option" where
  "APPLICATION_T1 io = (\<lambda>(a, v). do {
     (startTime, a) \<leftarrow> now io a;
     let a = a\<lparr>t1_workStuff := WORKLOAD_T1 (io_fpu io) (t1_workStuff a)\<rparr>;
     (a, v) \<leftarrow> ReadChan1 io (a, v);
     (p, a, v) \<leftarrow> report_level io 1 startTime (s_t1Packet a) (a, v);
     Some (a\<lparr>s_t1Packet := p\<rparr>, v) })"

definition APPLICATION_T2 :: "'v io \<Rightarrow> app \<times> 'v \<Rightarrow> (app \<times> 'v) option" where
  "APPLICATION_T2 io = (\<lambda>(a, v). do {
     (startTime, a) \<leftarrow> now io a;
     let a = a\<lparr>t2_workStuff := WORKLOAD_T2 (io_fpu io) (t2_workStuff a)\<rparr>;
     (a, v) \<leftarrow> ReadChan2 io (a, v);
     (p, a, v) \<leftarrow> report_level io 2 startTime (s_t2Packet a) (a, v);
     Some (a\<lparr>s_t2Packet := p\<rparr>, v) })"

definition APPLICATION_BG :: "app \<Rightarrow> app" where
  "APPLICATION_BG a = WORKLOAD_BG a"

definition APPLICATION_Running :: "app \<Rightarrow> bool" where
  "APPLICATION_Running a = f_running a"

section \<open>Time\<close>

definition clock_ok :: "'v io \<Rightarrow> bool" where
  "clock_ok io \<longleftrightarrow> (\<forall>i j. i \<le> j \<longrightarrow> io_clk io i \<le> io_clk io j) \<and> (\<forall>n. slow_carry (io_clk io) n)"

lemma now_returns:
  assumes "clock_ok io"
  obtains t n where "now io a = Some (t, a\<lparr>timer_reads := n\<rparr>)"
proof -
  obtain k n where "GlobalTimer (io_clk io) (timer_reads a) = Some (io_clk io k, n)"
    using GlobalTimer_returns [of "io_clk io" "timer_reads a"] assms by (auto simp: clock_ok_def)
  then show thesis by (intro that) (simp add: now_def)
qed

section \<open>Decoding of command packets\<close>

fun apply_set :: "u8 \<times> var_value \<Rightarrow> SharedState_Variables \<Rightarrow> SharedState_Variables" where
  "apply_set (i, VDouble x) v = v\<lparr>vd := (vd v)[unat i := x]\<rparr>"
| "apply_set (i, VFloat x) v = v\<lparr>vf := (vf v)[unat i := x]\<rparr>"
| "apply_set (i, VShort x) v = v\<lparr>vs := (vs v)[unat i := x]\<rparr>"
| "apply_set (i, VByte x) v = v\<lparr>vb := (vb v)[unat i := x]\<rparr>"

definition set_ok :: "u8 \<times> var_value \<Rightarrow> bool" where
  "set_ok c \<longleftrightarrow> unat (fst c) < SHAREDSTATE_VARIABLE_COUNT"

lemma vars_ok_apply_set [simp]: "vars_ok (apply_set c v) = vars_ok v"
  by (cases c; cases "snd c") (auto simp: vars_ok_def)

lemma apply_set_meta:
  "lastSetPacketId (apply_set c v) = lastSetPacketId v"
  "lastSetReceiveTimestamp (apply_set c v) = lastSetReceiveTimestamp v"
  "lastSetSendTimestamp (apply_set c v) = lastSetSendTimestamp v"
  by (cases c; cases "snd c"; simp)+

lemma fold_apply_set:
  "vars_ok (fold apply_set cs v) = vars_ok v"
  "lastSetPacketId (fold apply_set cs v) = lastSetPacketId v"
  "lastSetReceiveTimestamp (fold apply_set cs v) = lastSetReceiveTimestamp v"
  "lastSetSendTimestamp (fold apply_set cs v) = lastSetSendTimestamp v"
  by (induction cs arbitrary: v) (simp_all add: apply_set_meta)

lemma set_variables_enc:
  assumes "vars_ok v" and "list_all set_ok cs" and "off = length pre"
  shows "set_variables (length cs) off (pre @ concat (map enc_set cs) @ rest) v = Some (fold apply_set cs v)"
  using assms
proof (induction cs arbitrary: pre v off)
  case (Cons c cs)
  obtain i x where c: "c = (i, x)" by fastforce
  have i: "unat i < 16" using Cons.prems(2) c by (simp add: set_ok_def SHAREDSTATE_VARIABLE_COUNT_def)
  define D where "D = pre @ concat (map enc_set (c # cs)) @ rest"
  have D: "D = (pre @ [i, type_code x]) @ value_bytes x @ concat (map enc_set cs) @ rest"
    "D = (pre @ [i, type_code x] @ value_bytes x) @ concat (map enc_set cs) @ rest"
    by (simp_all add: D_def enc_set_def c)
  have at: "D ! off = i" "D ! (off + 1) = type_code x" "off + 2 + length (value_bytes x) \<le> length D"
    using Cons.prems(3) by (simp_all add: D_def enc_set_def c nth_append)
  have step: "set_variables (length cs) (off + 2 + length (value_bytes x)) D (apply_set c v) =
      Some (fold apply_set cs (apply_set c v))"
    unfolding D(2) using Cons.prems by (intro Cons.IH) auto
  have f: "take (length (value_bytes x)) (drop (off + 2) D) = value_bytes x"
    unfolding D(1) using Cons.prems(3) by simp
  have ok: "length (vd v) = 16" "length (vf v) = 16" "length (vs v) = 16" "length (vb v) = 16"
    using Cons.prems(1) by (simp_all add: vars_ok_def)
  have "set_variables (Suc (length cs)) off D v = Some (fold apply_set cs (apply_set c v))"
    by (cases x) (use at f step i ok in \<open>simp_all add: c Let_def sizeof_VariableSet_def field_def\<close>)
  then show ?case by (simp add: D_def)
qed simp

text \<open>What a command packet does to the application state.\<close>

definition commanded :: "u64 \<Rightarrow> command_header \<Rightarrow> (u8 \<times> var_value) list \<Rightarrow> app \<Rightarrow> app" where
  "commanded t h cs a = a\<lparr>
     s_t0Packet := (s_t0Packet a)\<lparr>stats := note_command t (cmd_timestamp h) (packetId h) (stats (s_t0Packet a))\<rparr>,
     s_variables := fold apply_set cs ((s_variables a)\<lparr>lastSetPacketId := packetId h,
       lastSetReceiveTimestamp := t, lastSetSendTimestamp := cmd_timestamp h\<rparr>),
     f_running := (f_running a \<and> cmd_flags h \<noteq> 0xDEAD)\<rparr>"

lemma vars_ok_meta [simp]:
  "vars_ok (v\<lparr>lastSetPacketId := x\<rparr>) = vars_ok v" "vars_ok (v\<lparr>lastSetReceiveTimestamp := y\<rparr>) = vars_ok v"
  "vars_ok (v\<lparr>lastSetSendTimestamp := z\<rparr>) = vars_ok v"
  by (simp_all add: vars_ok_def)

lemma HandleT0Packet_enc:
  assumes "now io a = Some (t, a\<lparr>timer_reads := n\<rparr>)" and "vars_ok (s_variables a)"
    and "list_all set_ok cs" and "length cs = unat (varSetCommands h)"
  shows "HandleT0Packet io (enc_command h cs @ rest) sz a = Some (commanded t h cs (a\<lparr>timer_reads := n\<rparr>))"
proof -
  let ?v = "(s_variables a)\<lparr>lastSetPacketId := packetId h, lastSetReceiveTimestamp := t,
    lastSetSendTimestamp := cmd_timestamp h\<rparr>"
  have sets: "set_variables (unat (varSetCommands h)) sizeof_T0CommandPacket
      (enc_header h @ concat (map enc_set cs) @ rest) ?v = Some (fold apply_set cs ?v)"
    using set_variables_enc [of ?v cs sizeof_T0CommandPacket "enc_header h" rest] assms by simp
  show ?thesis
    by (cases "cmd_flags h = 0xDEAD")
      (simp_all add: HandleT0Packet_def assms(1) enc_command_def header_fields Let_def sets commanded_def)
qed

section \<open>The transport as the application sees it\<close>

definition app_ok :: "app \<Rightarrow> bool" where
  "app_ok a \<longleftrightarrow> vars_ok (s_variables a) \<and> stats_ok (stats (s_t0Packet a)) \<and>
     stats_ok (stats (s_t1Packet a)) \<and> stats_ok (stats (s_t2Packet a))"

lemma stats_ok_notes [simp]:
  "stats_ok (note_command t s i st) = stats_ok st" "stats_ok (note_sent ok st) = stats_ok st"
  "stats_ok (st\<lparr>lastPacketSendTime := x\<rparr>) = stats_ok st"
  by (simp_all add: stats_ok_def note_command_def note_sent_def)

lemma stats_ok_run [simp]: "stats_ok st \<Longrightarrow> stats_ok (note_run s f st)"
  by (simp add: stats_ok_def note_run_def push_time_def SHAREDSTATE_BACKLOG_def)

text \<open>The workload keeps the bookkeeping of the variables and the rest of the state.\<close>

lemma do_workload_t0_keeps:
  "s_t0Packet (do_workload_t0 io a) = s_t0Packet a" "f_running (do_workload_t0 io a) = f_running a"
  "s_t0StartTime (do_workload_t0 io a) = s_t0StartTime a" "f_t0InitDone (do_workload_t0 io a) = f_t0InitDone a"
  "app_ok (do_workload_t0 io a) = app_ok a"
  "lastSetPacketId (s_variables (do_workload_t0 io a)) = lastSetPacketId (s_variables a)"
  "lastSetSendTimestamp (s_variables (do_workload_t0 io a)) = lastSetSendTimestamp (s_variables a)"
  "s_variables (do_workload_t0 io a) = fst (WORKLOAD_T0 (io_fpu io) (s_variables a, s_counter a))"
proof -
  obtain v c where vc: "WORKLOAD_T0 (io_fpu io) (s_variables a, s_counter a) = (v, c)" by fastforce
  have m: "same_meta (s_variables a) v"
    using WORKLOAD_T0_meta [of "(s_variables a, s_counter a)" "io_fpu io"] vc by simp
  show "s_t0Packet (do_workload_t0 io a) = s_t0Packet a" "f_running (do_workload_t0 io a) = f_running a"
    "s_t0StartTime (do_workload_t0 io a) = s_t0StartTime a" "f_t0InitDone (do_workload_t0 io a) = f_t0InitDone a"
    "app_ok (do_workload_t0 io a) = app_ok a"
    "lastSetPacketId (s_variables (do_workload_t0 io a)) = lastSetPacketId (s_variables a)"
    "lastSetSendTimestamp (s_variables (do_workload_t0 io a)) = lastSetSendTimestamp (s_variables a)"
    "s_variables (do_workload_t0 io a) = fst (WORKLOAD_T0 (io_fpu io) (s_variables a, s_counter a))"
    by (simp_all add: do_workload_t0_def vc app_ok_def same_meta_ok [OF m] same_meta_fields [OF m])
qed

lemma workload_fields:
  "lastSetPacketId (fst (WORKLOAD_T0 fp (x, c))) = lastSetPacketId x"
  "lastSetSendTimestamp (fst (WORKLOAD_T0 fp (x, c))) = lastSetSendTimestamp x"
  using same_meta_fields [OF WORKLOAD_T0_meta [of "(x, c)" fp]] by simp_all

text \<open>
  The contract of a transport, on the packets a channel holds in each direction. A read hands
  the oldest packet to the callback in the front of the buffer, or does nothing; a write is
  accepted exactly when the channel has room, and changes nothing else.
\<close>

locale app_transport =
  fixes io :: "'v io"
    and invar :: "'v \<Rightarrow> bool"
    and incoming :: "nat \<Rightarrow> 'v \<Rightarrow> bytes list"
    and outgoing :: "nat \<Rightarrow> 'v \<Rightarrow> bytes list"
    and room :: "nat \<Rightarrow> nat"
  assumes read_none: "invar v \<Longrightarrow> i < 3 \<Longrightarrow> incoming i v = [] \<Longrightarrow> io_read io i buf sz cb r v = (buf, r, v)"
    and read_one: "invar v \<Longrightarrow> i < 3 \<Longrightarrow> incoming i v = p # ps \<Longrightarrow> p \<noteq> [] \<Longrightarrow> length p \<le> unat sz \<Longrightarrow>
      unat sz < 2 ^ 16 \<Longrightarrow>
      \<exists>v'. io_read io i buf sz cb r v = (p @ drop (length p) buf, cb (p @ drop (length p) buf) (of_nat (length p)) r, v') \<and>
        invar v' \<and> incoming i v' = ps \<and> outgoing i v' = outgoing i v"
    and write_one: "invar v \<Longrightarrow> i < 3 \<Longrightarrow> p \<noteq> [] \<Longrightarrow> length p \<le> 1920 \<Longrightarrow> length p = unat sz \<Longrightarrow>
      \<exists>v'. io_write io i p sz v = (length (outgoing i v) < room i, v') \<and> invar v' \<and> incoming i v' = incoming i v \<and>
        outgoing i v' = outgoing i v @ (if length (outgoing i v) < room i then [p] else [])"
begin

text \<open>The report of a T0 run.\<close>

lemma report_t0_correct:
  assumes "invar v" and "app_ok a" and clock: "clock_ok io"
  obtains p a' v' where "report_t0 io (a, v) = Some (a', v')" and "invar v'" and "app_ok a'"
    and "incoming 0 v' = incoming 0 v"
    and "outgoing 0 v' = outgoing 0 v @ (if length (outgoing 0 v) < room 0 then [enc_t0 p] else [])"
    and "variables p = s_variables a" and "s_variables a' = s_variables a" and "f_running a' = f_running a"
    and "stats p = note_run (s_t0StartTime a) (timestamp p) (stats (s_t0Packet a))"
    and "\<exists>x. stats (s_t0Packet a') = (note_sent (length (outgoing 0 v) < room 0) (stats p))\<lparr>lastPacketSendTime := x\<rparr>"
    and "f_t0InitDone a' = f_t0InitDone a" and "vars_ok (variables p) \<and> stats_ok (stats p)"
proof -
  obtain t n where t: "now io a = Some (t, a\<lparr>timer_reads := n\<rparr>)" by (rule now_returns [OF clock])
  define p where "p = (s_t0Packet a)\<lparr>timestamp := t, stats := note_run (s_t0StartTime a) t (stats (s_t0Packet a)),
    variables := s_variables a\<rparr>"
  have ok: "vars_ok (variables p)" "stats_ok (stats p)" using assms(2) by (simp_all add: p_def app_ok_def)
  have len: "length (enc_t0 p) = 424" by (rule length_enc_t0 [OF ok])
  then have "enc_t0 p \<noteq> []" by auto
  with write_one [OF assms(1), of 0 "enc_t0 p" sizeof_T0DataPacket] len obtain v'
    where w: "io_write io 0 (enc_t0 p) sizeof_T0DataPacket v = (length (outgoing 0 v) < room 0, v')"
      and v': "invar v'" "incoming 0 v' = incoming 0 v"
        "outgoing 0 v' = outgoing 0 v @ (if length (outgoing 0 v) < room 0 then [enc_t0 p] else [])"
    by (auto simp: sizeof_T0DataPacket_def)
  obtain t2 n2 where t2: "now io (a\<lparr>timer_reads := n\<rparr>) = Some (t2, a\<lparr>timer_reads := n2\<rparr>)"
    using now_returns [OF clock, of "a\<lparr>timer_reads := n\<rparr>"] by auto
  define a' where "a' = a\<lparr>timer_reads := n2, s_t0Packet := p\<lparr>stats :=
    (note_sent (length (outgoing 0 v) < room 0) (stats p))\<lparr>lastPacketSendTime := ucast (t2 - timestamp p)\<rparr>\<rparr>\<rparr>"
  have run: "report_t0 io (a, v) = Some (a', v')"
    by (simp add: report_t0_def t w [unfolded p_def] t2 a'_def p_def Let_def)
  show thesis
    by (rule that [OF run v'(1) _ v'(2,3)]) (use assms(2) ok in \<open>auto simp: a'_def p_def app_ok_def\<close>)
qed

text \<open>A T0 run once its read of channel 0 is done.\<close>

lemma t0_tail:
  assumes "f_t0InitDone a" and "now io a = Some (t0, a\<lparr>timer_reads := n0\<rparr>)"
    and "ReadChan0 io (a\<lparr>timer_reads := n0, s_t0StartTime := t0\<rparr>, v) = Some (a2, v1)"
    and "invar v1" and "app_ok a2" and "f_t0InitDone a2" and "outgoing 0 v1 = outgoing 0 v"
    and clock: "clock_ok io"
  obtains p a' v' x where "APPLICATION_T0 io (a, v) = Some (a', v')" and "invar v'" and "app_ok a'"
    and "f_t0InitDone a'" and "incoming 0 v' = incoming 0 v1"
    and "outgoing 0 v' = outgoing 0 v @ (if length (outgoing 0 v) < room 0 then [enc_t0 p] else [])"
    and "dec_t0 (enc_t0 p) = p" and "variables p = s_variables a'"
    and "s_variables a' = fst (WORKLOAD_T0 (io_fpu io) (s_variables a2, s_counter a2))"
    and "lastSetPacketId (variables p) = lastSetPacketId (s_variables a2)"
    and "lastSetSendTimestamp (variables p) = lastSetSendTimestamp (s_variables a2)"
    and "stats p = note_run (s_t0StartTime a2) (timestamp p) (stats (s_t0Packet a2))"
    and "f_running a' = f_running a2"
    and "stats (s_t0Packet a') = (note_sent (length (outgoing 0 v) < room 0) (stats p))\<lparr>lastPacketSendTime := x\<rparr>"
proof -
  let ?w = "do_workload_t0 io a2"
  have ok2: "app_ok ?w" and d2: "f_t0InitDone ?w"
    using assms(5,6) by (simp_all add: do_workload_t0_keeps)
  obtain p a' v' where p: "report_t0 io (?w, v1) = Some (a', v')" "invar v'" "app_ok a'"
    "incoming 0 v' = incoming 0 v1"
    "outgoing 0 v' = outgoing 0 v1 @ (if length (outgoing 0 v1) < room 0 then [enc_t0 p] else [])"
    "variables p = s_variables ?w" "s_variables a' = s_variables ?w" "f_running a' = f_running ?w"
    "stats p = note_run (s_t0StartTime ?w) (timestamp p) (stats (s_t0Packet ?w))"
    "\<exists>x. stats (s_t0Packet a') = (note_sent (length (outgoing 0 v1) < room 0) (stats p))\<lparr>lastPacketSendTime := x\<rparr>"
    "f_t0InitDone a' = f_t0InitDone ?w" "vars_ok (variables p) \<and> stats_ok (stats p)"
    by (rule report_t0_correct [OF assms(4) ok2 clock])
  obtain x where x: "stats (s_t0Packet a') = (note_sent (length (outgoing 0 v) < room 0) (stats p))\<lparr>lastPacketSendTime := x\<rparr>"
    using p(10) assms(7) by auto
  have run: "APPLICATION_T0 io (a, v) = Some (a', v')"
    using assms(1,3) d2 p(1) by (simp add: APPLICATION_T0_def assms(2))
  have dec: "dec_t0 (enc_t0 p) = p" using dec_enc_t0 [of p "[]"] p(12) by simp
  show thesis
    by (rule that [OF run p(2,3) _ p(4) _ dec _ _ _ _ _ _ x])
      (use p d2 assms(7) in \<open>simp_all add: do_workload_t0_keeps workload_fields\<close>)
qed

text \<open>The read of a command packet.\<close>

lemma read_command:
  assumes "invar v" and "app_ok a" and "incoming 0 v = enc_command h cs # q"
    and "length (enc_command h cs) \<le> 1920" and "list_all set_ok cs" and "length cs = unat (varSetCommands h)"
    and clock: "clock_ok io"
  obtains t n b v1 where
    "ReadChan0 io (a, v) = Some ((commanded t h cs (a\<lparr>timer_reads := n\<rparr>))\<lparr>f_t0PacketBuffer := b\<rparr>, v1)"
    and "invar v1" and "incoming 0 v1 = q" and "outgoing 0 v1 = outgoing 0 v"
proof -
  obtain t n where t: "now io a = Some (t, a\<lparr>timer_reads := n\<rparr>)" by (rule now_returns [OF clock])
  let ?P = "enc_command h cs"
  have "length ?P \<ge> 16" by (simp add: enc_command_def sizeof_T0CommandPacket_def)
  then have ne: "?P \<noteq> []" by auto
  define b where "b = ?P @ drop (length ?P) (f_t0PacketBuffer a)"
  have hd: "HandleT0Packet io b sz a = Some (commanded t h cs (a\<lparr>timer_reads := n\<rparr>))" for sz
    unfolding b_def using assms t by (intro HandleT0Packet_enc) (simp_all add: app_ok_def)
  obtain v1 where v1: "io_read io 0 (f_t0PacketBuffer a) PACKET_BUFFER_SIZE
        (\<lambda>data sz r. Option.bind r (HandleT0Packet io data sz)) (Some a) v
      = (b, Some (commanded t h cs (a\<lparr>timer_reads := n\<rparr>)), v1)"
      "invar v1" "incoming 0 v1 = q" "outgoing 0 v1 = outgoing 0 v"
    using read_one [OF assms(1) _ assms(3) ne, of PACKET_BUFFER_SIZE "f_t0PacketBuffer a"
        "\<lambda>data sz r. Option.bind r (HandleT0Packet io data sz)" "Some a"] assms(4)
    by (auto simp: PACKET_BUFFER_SIZE_def b_def [symmetric] hd)
  show thesis by (rule that [OF _ v1(2,3,4)]) (simp add: ReadChan0_def read_with_def v1(1))
qed

text \<open>A T0 run that finds a command packet, and one that finds none.\<close>

lemma t0_command:
  assumes "invar v" and "app_ok a" and "f_t0InitDone a"
    and "incoming 0 v = enc_command h cs # q" and "length (enc_command h cs) \<le> 1920"
    and "list_all set_ok cs" and "length cs = unat (varSetCommands h)" and clock: "clock_ok io"
  shows "\<exists>p a' v' t c x. APPLICATION_T0 io (a, v) = Some (a', v') \<and> invar v' \<and> app_ok a' \<and> f_t0InitDone a' \<and>
    incoming 0 v' = q \<and>
    outgoing 0 v' = outgoing 0 v @ (if length (outgoing 0 v) < room 0 then [enc_t0 p] else []) \<and>
    dec_t0 (enc_t0 p) = p \<and> variables p = s_variables a' \<and>
    s_variables a' = fst (WORKLOAD_T0 (io_fpu io) (fold apply_set cs ((s_variables a)\<lparr>lastSetPacketId := packetId h,
       lastSetReceiveTimestamp := t, lastSetSendTimestamp := cmd_timestamp h\<rparr>), c)) \<and>
    lastSetPacketId (variables p) = packetId h \<and> lastSetSendTimestamp (variables p) = cmd_timestamp h \<and>
    commandPacketId (stats p) = packetId h \<and>
    f_running a' = (f_running a \<and> cmd_flags h \<noteq> 0xDEAD) \<and>
    stats (s_t0Packet a') = (note_sent (length (outgoing 0 v) < room 0) (stats p))\<lparr>lastPacketSendTime := x\<rparr>"
proof -
  obtain t0 n0 where t0: "now io a = Some (t0, a\<lparr>timer_reads := n0\<rparr>)" by (rule now_returns [OF clock])
  have "app_ok (a\<lparr>timer_reads := n0, s_t0StartTime := t0\<rparr>)" using assms(2) by (simp add: app_ok_def)
  then obtain t n b v1 where rd: "ReadChan0 io (a\<lparr>timer_reads := n0, s_t0StartTime := t0\<rparr>, v) =
      Some ((commanded t h cs (a\<lparr>timer_reads := n0, s_t0StartTime := t0, timer_reads := n\<rparr>))\<lparr>f_t0PacketBuffer := b\<rparr>, v1)"
    and v1: "invar v1" "incoming 0 v1 = q" "outgoing 0 v1 = outgoing 0 v"
    using read_command [OF assms(1) _ assms(4-7) clock] by metis
  define a2 where "a2 = (commanded t h cs (a\<lparr>timer_reads := n0, s_t0StartTime := t0, timer_reads := n\<rparr>))\<lparr>f_t0PacketBuffer := b\<rparr>"
  have a2: "app_ok a2" "f_t0InitDone a2" "lastSetPacketId (s_variables a2) = packetId h"
    "lastSetSendTimestamp (s_variables a2) = cmd_timestamp h" "s_counter a2 = s_counter a"
    "s_variables a2 = fold apply_set cs ((s_variables a)\<lparr>lastSetPacketId := packetId h,
       lastSetReceiveTimestamp := t, lastSetSendTimestamp := cmd_timestamp h\<rparr>)"
    "f_running a2 = (f_running a \<and> cmd_flags h \<noteq> 0xDEAD)"
    "stats (s_t0Packet a2) = note_command t (cmd_timestamp h) (packetId h) (stats (s_t0Packet a))"
    using assms(2,3) by (simp_all add: a2_def commanded_def app_ok_def fold_apply_set)
  have cid: "commandPacketId (note_run s f (stats (s_t0Packet a2))) = packetId h" for s f
    by (simp add: note_run_def a2(8) note_command_def)
  show ?thesis
  proof (rule t0_tail [OF assms(3) t0 rd [folded a2_def] v1(1) a2(1,2) v1(3) clock])
    fix p a' v' x
    assume F: "APPLICATION_T0 io (a, v) = Some (a', v')" "invar v'" "app_ok a'" "f_t0InitDone a'"
      "incoming 0 v' = incoming 0 v1"
      "outgoing 0 v' = outgoing 0 v @ (if length (outgoing 0 v) < room 0 then [enc_t0 p] else [])"
      "dec_t0 (enc_t0 p) = p" "variables p = s_variables a'"
      "s_variables a' = fst (WORKLOAD_T0 (io_fpu io) (s_variables a2, s_counter a2))"
      "lastSetPacketId (variables p) = lastSetPacketId (s_variables a2)"
      "lastSetSendTimestamp (variables p) = lastSetSendTimestamp (s_variables a2)"
      "stats p = note_run (s_t0StartTime a2) (timestamp p) (stats (s_t0Packet a2))"
      "f_running a' = f_running a2"
      "stats (s_t0Packet a') = (note_sent (length (outgoing 0 v) < room 0) (stats p))\<lparr>lastPacketSendTime := x\<rparr>"
    have "s_variables a' = fst (WORKLOAD_T0 (io_fpu io) (fold apply_set cs ((s_variables a)\<lparr>lastSetPacketId := packetId h,
       lastSetReceiveTimestamp := t, lastSetSendTimestamp := cmd_timestamp h\<rparr>), s_counter a))"
      using F(9) by (simp only: a2(5,6))
    moreover have "lastSetPacketId (variables p) = packetId h" using F(10) a2(3) by simp
    moreover have "lastSetSendTimestamp (variables p) = cmd_timestamp h" using F(11) a2(4) by simp
    moreover have "commandPacketId (stats p) = packetId h" by (simp only: F(12) cid)
    moreover have "f_running a' = (f_running a \<and> cmd_flags h \<noteq> 0xDEAD)" using F(13) a2(7) by simp
    moreover have "incoming 0 v' = q" using F(5) v1(2) by simp
    ultimately show ?thesis using F(1,2,3,4,6,7,8,14) by blast
  qed
qed

text \<open>A T0 run with no command waiting, and the first run.\<close>

lemma t0_idle:
  assumes "invar v" and "app_ok a" and "f_t0InitDone a" and "incoming 0 v = []" and clock: "clock_ok io"
  shows "\<exists>p a' v' x. APPLICATION_T0 io (a, v) = Some (a', v') \<and> invar v' \<and> app_ok a' \<and> f_t0InitDone a' \<and>
    incoming 0 v' = [] \<and>
    outgoing 0 v' = outgoing 0 v @ (if length (outgoing 0 v) < room 0 then [enc_t0 p] else []) \<and>
    dec_t0 (enc_t0 p) = p \<and> variables p = s_variables a' \<and> f_running a' = f_running a \<and>
    s_variables a' = fst (WORKLOAD_T0 (io_fpu io) (s_variables a, s_counter a)) \<and>
    stats (s_t0Packet a') = (note_sent (length (outgoing 0 v) < room 0) (stats p))\<lparr>lastPacketSendTime := x\<rparr>"
proof -
  obtain t0 n0 where t0: "now io a = Some (t0, a\<lparr>timer_reads := n0\<rparr>)" by (rule now_returns [OF clock])
  define a2 where "a2 = a\<lparr>timer_reads := n0, s_t0StartTime := t0\<rparr>"
  have rd: "ReadChan0 io (a\<lparr>timer_reads := n0, s_t0StartTime := t0\<rparr>, v) = Some (a2, v)"
    by (simp add: ReadChan0_def read_with_def read_none assms(1,4) a2_def)
  have a2: "app_ok a2" "f_t0InitDone a2" using assms(2,3) by (simp_all add: a2_def app_ok_def)
  show ?thesis
  proof (rule t0_tail [OF assms(3) t0 rd assms(1) a2 refl clock])
    fix p a' v' x
    assume F: "APPLICATION_T0 io (a, v) = Some (a', v')" "invar v'" "app_ok a'" "f_t0InitDone a'"
      "incoming 0 v' = incoming 0 v"
      "outgoing 0 v' = outgoing 0 v @ (if length (outgoing 0 v) < room 0 then [enc_t0 p] else [])"
      "dec_t0 (enc_t0 p) = p" "variables p = s_variables a'"
      "s_variables a' = fst (WORKLOAD_T0 (io_fpu io) (s_variables a2, s_counter a2))"
      "f_running a' = f_running a2"
      "stats (s_t0Packet a') = (note_sent (length (outgoing 0 v) < room 0) (stats p))\<lparr>lastPacketSendTime := x\<rparr>"
    have "f_running a' = f_running a" "incoming 0 v' = []"
      "s_variables a' = fst (WORKLOAD_T0 (io_fpu io) (s_variables a, s_counter a))"
      using F(5,9,10) assms(4) by (simp_all add: a2_def)
    then show ?thesis using F by blast
  qed
qed

lemma t0_first:
  assumes "\<not> f_t0InitDone a" and clock: "clock_ok io"
  shows "\<exists>a'. APPLICATION_T0 io (a, v) = Some (a', v) \<and> f_t0InitDone a' \<and> app_ok a' = app_ok a \<and>
    s_t0Packet a' = s_t0Packet a \<and> f_running a' = f_running a"
proof -
  obtain t n where t: "now io a = Some (t, a\<lparr>timer_reads := n\<rparr>)" by (rule now_returns [OF clock])
  let ?w = "do_workload_t0 io (a\<lparr>timer_reads := n, s_t0StartTime := t\<rparr>)"
  have "APPLICATION_T0 io (a, v) = Some (?w\<lparr>f_t0InitDone := True\<rparr>, v)"
    using assms(1) by (simp add: APPLICATION_T0_def t do_workload_t0_keeps(4))
  moreover have "app_ok (?w\<lparr>f_t0InitDone := True\<rparr>) = app_ok ?w" by (simp add: app_ok_def)
  moreover have "app_ok ?w = app_ok a" by (simp add: do_workload_t0_keeps(5)) (simp add: app_ok_def)
  ultimately show ?thesis by (simp add: do_workload_t0_keeps(1,2))
qed

text \<open>The report of the T1 and T2 levels.\<close>

lemma report_level_correct:
  assumes "invar v" and "i < 3" and "stats_ok (stats p)" and clock: "clock_ok io"
  obtains q p' v' n where "report_level io i start p (a, v) = Some (p', a\<lparr>timer_reads := n\<rparr>, v')" and "invar v'"
    and "incoming i v' = incoming i v"
    and "outgoing i v' = outgoing i v @ (if length (outgoing i v) < room i then [enc_tl q] else [])"
    and "stats q = note_run start (timestamp q) (stats p)" and "dec_tl (enc_tl q) = q"
    and "\<exists>x. stats p' = (note_sent (length (outgoing i v) < room i) (stats q))\<lparr>lastPacketSendTime := x\<rparr>"
proof -
  obtain t n where t: "now io a = Some (t, a\<lparr>timer_reads := n\<rparr>)" by (rule now_returns [OF clock])
  define q where "q = p\<lparr>timestamp := t, stats := note_run start t (stats p)\<rparr>"
  have ok: "stats_ok (stats q)" using assms(3) by (simp add: q_def)
  note len = length_enc_tl [OF ok]
  then have "enc_tl q \<noteq> []" by auto
  with write_one [OF assms(1,2), of "enc_tl q" sizeof_DataPacket] len obtain v'
    where w: "io_write io i (enc_tl q) sizeof_DataPacket v = (length (outgoing i v) < room i, v')"
      and v': "invar v'" "incoming i v' = incoming i v"
        "outgoing i v' = outgoing i v @ (if length (outgoing i v) < room i then [enc_tl q] else [])"
    by (auto simp: sizeof_DataPacket_def)
  obtain t2 n2 where t2: "now io (a\<lparr>timer_reads := n\<rparr>) = Some (t2, a\<lparr>timer_reads := n2\<rparr>)"
    using now_returns [OF clock, of "a\<lparr>timer_reads := n\<rparr>"] by auto
  define p' where "p' = q\<lparr>stats := (note_sent (length (outgoing i v) < room i) (stats q))\<lparr>lastPacketSendTime := ucast (t2 - timestamp q)\<rparr>\<rparr>"
  have run: "report_level io i start p (a, v) = Some (p', a\<lparr>timer_reads := n2\<rparr>, v')"
    by (simp add: report_level_def t w [unfolded q_def] t2 p'_def q_def Let_def)
  have dec: "dec_tl (enc_tl q) = q" using dec_enc_tl [OF ok, of "[]"] by simp
  show thesis
    by (rule that [OF run v' _ dec]) (auto simp: p'_def q_def)
qed

lemma t1_idle:
  assumes "invar v" and "app_ok a" and "incoming 1 v = []" and clock: "clock_ok io"
  shows "\<exists>q a' v' x start. APPLICATION_T1 io (a, v) = Some (a', v') \<and> invar v' \<and> incoming 1 v' = [] \<and>
    outgoing 1 v' = outgoing 1 v @ (if length (outgoing 1 v) < room 1 then [enc_tl q] else []) \<and>
    dec_tl (enc_tl q) = q \<and> stats q = note_run start (timestamp q) (stats (s_t1Packet a)) \<and>
    s_variables a' = s_variables a \<and> s_t0Packet a' = s_t0Packet a \<and>
    stats (s_t1Packet a') = (note_sent (length (outgoing 1 v) < room 1) (stats q))\<lparr>lastPacketSendTime := x\<rparr>"
proof -
  obtain t n where t: "now io a = Some (t, a\<lparr>timer_reads := n\<rparr>)" by (rule now_returns [OF clock])
  define a1 where "a1 = a\<lparr>timer_reads := n, t1_workStuff := WORKLOAD_T1 (io_fpu io) (t1_workStuff a)\<rparr>"
  have none: "io_read io 1 buf sz cb r v = (buf, r, v)" for buf sz cb r
    by (rule read_none [OF assms(1) _ assms(3)]) simp
  have rd: "ReadChan1 io (a1, v) = Some (a1, v)"
    by (simp add: ReadChan1_def read_with_def none a1_def del: One_nat_def)
  have ok: "stats_ok (stats (s_t1Packet a1))" using assms(2) by (simp add: a1_def app_ok_def)
  have i: "(1 :: nat) < 3" by simp
  obtain q p' v' n' where r: "report_level io 1 t (s_t1Packet a1) (a1, v) = Some (p', a1\<lparr>timer_reads := n'\<rparr>, v')"
    and v': "invar v'" "incoming 1 v' = incoming 1 v"
      "outgoing 1 v' = outgoing 1 v @ (if length (outgoing 1 v) < room 1 then [enc_tl q] else [])"
      "stats q = note_run t (timestamp q) (stats (s_t1Packet a1))" "dec_tl (enc_tl q) = q"
      "\<exists>x. stats p' = (note_sent (length (outgoing 1 v) < room 1) (stats q))\<lparr>lastPacketSendTime := x\<rparr>"
    by (rule report_level_correct [OF assms(1) i ok clock])
  have run: "APPLICATION_T1 io (a, v) = Some (a1\<lparr>timer_reads := n', s_t1Packet := p'\<rparr>, v')"
    using rd r by (simp add: APPLICATION_T1_def t a1_def del: One_nat_def)
  have "s_variables (a1\<lparr>timer_reads := n', s_t1Packet := p'\<rparr>) = s_variables a"
    "s_t0Packet (a1\<lparr>timer_reads := n', s_t1Packet := p'\<rparr>) = s_t0Packet a"
    "s_t1Packet (a1\<lparr>timer_reads := n', s_t1Packet := p'\<rparr>) = p'" "s_t1Packet a1 = s_t1Packet a"
    by (simp_all add: a1_def)
  then show ?thesis using run v' assms(3) by metis
qed

end

end
