(* ===== verification/Application_Tunnel.thy ===== *)
theory Application_Tunnel
  imports Application Tunnel_Link
begin

text \<open>
  The application over the IPC-tunnel variant: the transport contract of the application holds
  for the tunnel channels, and the properties of the task functions follow for the whole of
  CPU1's software, from the command packet a Linux process wrote to the report it reads back.
\<close>

section \<open>The tunnel as the application's transport\<close>

definition tunnel_io :: "(nat \<Rightarrow> u64) \<Rightarrow> fpu \<Rightarrow> variant io" where
  "tunnel_io clk fp = \<lparr>io_clk = clk, io_fpu = fp, io_read = read_chan, io_write = write_chan\<rparr>"

lemma tunnel_io_sel [simp]:
  "io_clk (tunnel_io clk fp) = clk" "io_fpu (tunnel_io clk fp) = fp"
  "io_read (tunnel_io clk fp) = read_chan" "io_write (tunnel_io clk fp) = write_chan"
  by (simp_all add: tunnel_io_def)

lemma tunnel_packet_max: "i < 3 \<Longrightarrow> 1920 \<le> unat (sendPacketMaxSize (bank_config ocm i))"
  by (cases ocm) (auto simp: bank_simps)

lemma tunnel_read_one:
  assumes "variant_inv ocm cached v" and "i < 3" and "chan_pending i v = p # ps" and "p \<noteq> []"
    and "length p \<le> unat sz" and "unat (sz :: u32) < 2 ^ 16"
  shows "\<exists>v'. read_chan i buf sz cb r v =
      (p @ drop (length p) buf, cb (p @ drop (length p) buf) (of_nat (length p)) r, v') \<and>
    variant_inv ocm cached v' \<and> chan_pending i v' = ps \<and> chan_sent i v' = chan_sent i v"
proof -
  obtain buf' r' v' where run: "read_chan i buf sz cb r v = (buf', r', v')" by (metis prod_cases3)
  have "length p = min (unat (ucast sz :: u16)) (length p)"
    using assms(5,6) by (simp add: unat_u32_u16)
  note rc = read_chan_correct [OF assms(1-3) run this]
  show ?thesis using run rc(1-5) assms(4) by simp
qed

lemma tunnel_write_one:
  assumes "variant_inv ocm cached v" and "i < 3" and "p \<noteq> []" and "length p \<le> 1920"
    and "length p = unat (sz :: u32)"
  shows "\<exists>v'. write_chan i p sz v = (length (chan_sent i v) < packet_slots ocm i - 1, v') \<and>
    variant_inv ocm cached v' \<and> chan_pending i v' = chan_pending i v \<and>
    chan_sent i v' = chan_sent i v @ (if length (chan_sent i v) < packet_slots ocm i - 1 then [p] else [])"
proof -
  obtain ok v' where run: "write_chan i p sz v = (ok, v')" by fastforce
  have "sz \<noteq> 0" using assms(3,5) by auto
  moreover have "sz \<le> ucast (sendPacketMaxSize (bank_config ocm i))"
    using assms(4,5) tunnel_packet_max [OF assms(2), of ocm] by (simp add: word_le_nat_alt)
  ultimately have wc: "ok \<longleftrightarrow> length (chan_sent i v) < packet_slots ocm i - 1"
      "ok \<Longrightarrow> chan_sent i v' = chan_sent i v @ [p]" "\<not> ok \<Longrightarrow> v' = v"
      "chan_pending i v' = chan_pending i v" "variant_inv ocm cached v'"
    using write_chan_correct [OF assms(1,2) _ _ _ run] assms(5) by (simp_all add: packet_slots_def)
  show ?thesis using run wc by auto
qed

interpretation tunnel_app: app_transport "tunnel_io clk fp" "variant_inv ocm cached" chan_pending chan_sent
    "\<lambda>i. packet_slots ocm i - 1"
  for ocm cached clk fp
proof (unfold_locales, goal_cases)
  case (1 v i buf sz cb r)
  then show ?case by (simp add: read_chan_empty)
next
  case (2 v i p ps sz buf cb r)
  then show ?case using tunnel_read_one [of ocm cached v i p ps sz buf cb r] by simp
next
  case (3 v i p sz)
  then show ?case using tunnel_write_one [of ocm cached v i p sz] by simp
qed

section \<open>Properties\<close>

definition t0_ready :: "bool \<Rightarrow> bool \<Rightarrow> (nat \<Rightarrow> u64) \<Rightarrow> app \<Rightarrow> variant \<Rightarrow> bool" where
  "t0_ready ocm cached clk a v \<longleftrightarrow> variant_inv ocm cached v \<and> app_ok a \<and> f_t0InitDone a \<and>
     (\<forall>i j. i \<le> j \<longrightarrow> clk i \<le> clk j) \<and> (\<forall>n. slow_carry clk n)"

lemma t0_readyD:
  assumes "t0_ready ocm cached clk a v"
  shows "variant_inv ocm cached v" "app_ok a" "f_t0InitDone a" "clock_ok (tunnel_io clk fp)"
  using assms by (auto simp: t0_ready_def clock_ok_def)

text \<open>
  C10: a command reaches the variables and is reported back. If the oldest packet
  waiting on channel 0 is a well-formed command packet (its entry count matches and every
  variable number is below 16), one run of \<open>APPLICATION_T0\<close> over the tunnel returns, removes
  exactly that packet, stores each value of the packet into its variable in order before the
  workload runs, stops the application exactly when the flags are \<open>0xDEAD\<close>, and sends one
  report (or counts one dropped packet if the ring is full) whose decoded form carries the
  variables after the workload and the command's packet number and send time.
\<close>

theorem t0_command_report:
  assumes "t0_ready ocm cached clk a v" and "chan_pending 0 v = enc_command h cs # q"
    and "length (enc_command h cs) \<le> 1920" and "list_all set_ok cs" and "length cs = unat (varSetCommands h)"
  shows "\<exists>p a' v' t c x. APPLICATION_T0 (tunnel_io clk fp) (a, v) = Some (a', v') \<and>
    variant_inv ocm cached v' \<and> app_ok a' \<and> f_t0InitDone a' \<and> chan_pending 0 v' = q \<and>
    chan_sent 0 v' = chan_sent 0 v @ (if length (chan_sent 0 v) < packet_slots ocm 0 - 1 then [enc_t0 p] else []) \<and>
    dec_t0 (enc_t0 p) = p \<and> variables p = s_variables a' \<and>
    s_variables a' = fst (WORKLOAD_T0 fp (fold apply_set cs ((s_variables a)\<lparr>lastSetPacketId := packetId h,
       lastSetReceiveTimestamp := t, lastSetSendTimestamp := cmd_timestamp h\<rparr>), c)) \<and>
    lastSetPacketId (variables p) = packetId h \<and> lastSetSendTimestamp (variables p) = cmd_timestamp h \<and>
    commandPacketId (stats p) = packetId h \<and>
    f_running a' = (f_running a \<and> cmd_flags h \<noteq> 0xDEAD) \<and>
    stats (s_t0Packet a') = (note_sent (length (chan_sent 0 v) < packet_slots ocm 0 - 1) (stats p))\<lparr>lastPacketSendTime := x\<rparr>"
  using tunnel_app.t0_command [OF t0_readyD(1-3) [OF assms(1)] assms(2-5) t0_readyD(4) [OF assms(1)], of fp]
  by simp

definition boot_app :: app where
  "boot_app = \<lparr>timer_reads = 0, f_running = True, f_t0InitDone = True, s_t0StartTime = 0,
     s_t0Packet = zero_t0, s_t1Packet = zero_tl, s_t2Packet = zero_tl,
     f_t0PacketBuffer = replicate 1920 0, f_t1PacketBuffer = replicate 1920 0,
     f_t2PacketBuffer = replicate 1920 0, s_variables = zero_vars, s_counter = 0x3FF68F5C28F5C28F,
     t1_workStuff = 0x3FF0000000000000, t2_workStuff = 0x3FF0000000000000\<rparr>"

definition stop_header :: command_header where
  "stop_header = \<lparr>cmd_timestamp = 5, packetId = 9, cmd_flags = 0xDEAD, varSetCommands = 1\<rparr>"

text \<open>Linux sends a stop command that also sets short variable 2.\<close>

definition stop_world :: world where
  "stop_world = snd (linux_send True 0 (enc_command stop_header [(2, VShort 77)]) (boot_world True False))"

lemma stop_world_ok:
  "variant_inv True False (wvariant stop_world)"
  "chan_pending 0 (wvariant stop_world) = [enc_command stop_header [(2, VShort 77)]]"
  "chan_sent 0 (wvariant stop_world) = []"
proof -
  let ?p = "enc_command stop_header [(2, VShort 77)]"
  obtain ok w where run: "linux_send True 0 ?p (boot_world True False) = (ok, w)" by fastforce
  have len: "length ?p = 20" by (simp add: enc_command_def enc_set_def sizeof_T0CommandPacket_def)
  then have "?p \<noteq> []" by auto
  then have adm: "admissible_packet True 0 ?p" using len by (intro admissible_small) simp_all
  note lc = linux_send_correct [OF boot_world_ok _ adm run, simplified]
  have slots: "packet_slots True 0 - 1 > 0" by (simp add: packet_slots_def bank_simps)
  have w: "stop_world = w" using run by (simp add: stop_world_def)
  show "variant_inv True False (wvariant stop_world)" using lc(5) by (simp add: w world_inv_def)
  show "chan_pending 0 (wvariant stop_world) = [?p]" "chan_sent 0 (wvariant stop_world) = []"
    using lc(1,2,4) slots boot_world_empty [of 0 True False] by (auto simp: w to_cpu1_def to_linux_def)
qed

theorem t0_command_report_witness:
  "\<exists>p a' v'. APPLICATION_T0 (tunnel_io (\<lambda>_. 7) demo_fpu) (boot_app, wvariant stop_world) = Some (a', v') \<and>
     \<not> f_running a' \<and> chan_pending 0 v' = [] \<and> chan_sent 0 v' = [enc_t0 p] \<and>
     lastSetPacketId (variables (dec_t0 (enc_t0 p))) = 9"
proof -
  have "t0_ready True False (\<lambda>_. 7) boot_app (wvariant stop_world)"
    by (simp add: t0_ready_def stop_world_ok app_ok_def boot_app_def zero_t0_def zero_tl_def slow_carry_def)
  moreover have "packet_slots True 0 - 1 > 0" by (simp add: packet_slots_def bank_simps)
  ultimately show ?thesis
    using t0_command_report [of True False "\<lambda>_. 7" boot_app "wvariant stop_world" stop_header
        "[(2, VShort 77)]" "[]" demo_fpu]
    by (fastforce simp: stop_world_ok enc_command_def enc_set_def sizeof_T0CommandPacket_def set_ok_def
        SHAREDSTATE_VARIABLE_COUNT_def stop_header_def boot_app_def)
qed

end
