(* ===== verification/Seqlock.thy ===== *)
theory Seqlock
  imports Shared_State
begin

text \<open>
  The shared block of the shared-memory configuration: CPU1 publishes the variables in place
  (\<open>APPLICATION_T0\<close> of \<open>src/src/application_shm.c\<close>), guarded by \<open>updateAtomicCounter\<close>, which is
  odd while an update is under way; a Linux process copies them and retries when the counter
  was odd or has changed (\<open>UpdateVariablesFromShm\<close> of \<open>src/app/src/t0dataprocess.hpp\<close>). The
  writer is a sequence of single stores, one byte at a time for the data, and the reader may look
  at each byte at any moment between its two looks at the counter.
\<close>

section \<open>The writer as a sequence of stores\<close>

text \<open>Offsets in \<open>SharedState_T0SharedMemory\<close>: counter 0, \<open>prevUpdateTime\<close> 4, \<open>timestamp\<close> 8, \<open>vars\<close> 16.\<close>

record shm_update =
  upd_timestamp :: u64
  upd_prevTime :: u32
  upd_vars :: SharedState_Variables

datatype micro = Bump | Put nat u8

fun puts :: "nat \<Rightarrow> bytes \<Rightarrow> micro list" where
  "puts off [] = []"
| "puts off (b # bs) = Put off b # puts (Suc off) bs"

definition update_micros :: "shm_update \<Rightarrow> micro list" where
  "update_micros u = Bump # puts 8 (le_bytes 8 (upd_timestamp u)) @ puts 4 (le_bytes 4 (upd_prevTime u)) @
     puts 16 (enc_vars (upd_vars u)) @ [Bump]"

fun exec_micro :: "addr \<Rightarrow> micro \<Rightarrow> memory \<Rightarrow> memory" where
  "exec_micro base Bump m = store32 m base (load32 m base + 1)"
| "exec_micro base (Put off b) m = store_bytes m (base + off) [b]"

text \<open>The memory after the first \<open>n\<close> stores.\<close>

definition mem_at :: "addr \<Rightarrow> micro list \<Rightarrow> memory \<Rightarrow> nat \<Rightarrow> memory" where
  "mem_at base ops m n = fold (exec_micro base) (take n ops) m"

definition bumps :: "micro list \<Rightarrow> nat" where
  "bumps ops = length (filter (\<lambda>x. x = Bump) ops)"

lemma bumps_simps [simp]:
  "bumps [] = 0" "bumps (Bump # ops) = Suc (bumps ops)" "bumps (Put a b # ops) = bumps ops"
  "bumps (xs @ ys) = bumps xs + bumps ys"
  by (simp_all add: bumps_def)

lemma bumps_puts [simp]: "bumps (puts off bs) = 0"
  by (induction bs arbitrary: off) simp_all

lemma bumps_update [simp]: "bumps (update_micros u) = 2"
  by (simp add: update_micros_def)

lemma length_puts [simp]: "length (puts off bs) = length bs"
  by (induction bs arbitrary: off) simp_all

text \<open>The body of an update holds no counter step.\<close>

lemma update_shape: "\<exists>body. update_micros u = Bump # body @ [Bump] \<and> bumps body = 0"
  by (rule exI [of _ "puts 8 (le_bytes 8 (upd_timestamp u)) @ puts 4 (le_bytes 4 (upd_prevTime u)) @
        puts 16 (enc_vars (upd_vars u))"]) (simp add: update_micros_def)

lemma bumps_take_zero: "bumps ops = 0 \<Longrightarrow> bumps (take n ops) = 0"
  by (induction ops arbitrary: n) (auto simp: take_Cons' bumps_def split: if_splits)

text \<open>An even number of counter steps means a whole number of updates.\<close>

lemma even_boundary:
  assumes "n \<le> length (concat (map update_micros us))" and "even (bumps (take n (concat (map update_micros us))))"
  shows "\<exists>k \<le> length us. take n (concat (map update_micros us)) = concat (map update_micros (take k us))"
  using assms
proof (induction us arbitrary: n)
  case (Cons u us)
  obtain body where body: "update_micros u = Bump # body @ [Bump]" "bumps body = 0" using update_shape by blast
  let ?rest = "concat (map update_micros us)"
  show ?case
  proof (cases "n < length (update_micros u)")
    case True
    then have t: "take n (concat (map update_micros (u # us))) = take n (update_micros u)" by simp
    have "n = 0"
    proof (rule ccontr)
      assume "n \<noteq> 0"
      then obtain m where n: "n = Suc m" "m \<le> length body" using True body by (cases n) auto
      then have "bumps (take n (update_micros u)) = 1" using bumps_take_zero [OF body(2)] body(1) by simp
      with Cons.prems(2) show False unfolding t by simp
    qed
    then show ?thesis by (intro exI [of _ 0]) simp
  next
    case False
    then obtain m where n: "n = length (update_micros u) + m" by (metis le_add_diff_inverse not_le)
    have t: "take n (concat (map update_micros (u # us))) = update_micros u @ take m ?rest" by (simp add: n)
    have "m \<le> length ?rest" "even (bumps (take m ?rest))" using Cons.prems n t by auto
    then obtain k where "k \<le> length us" "take m ?rest = concat (map update_micros (take k us))"
      using Cons.IH by blast
    then show ?thesis using t by (intro exI [of _ "Suc k"]) simp
  qed
qed simp

lemma bumps_take_mono: "i \<le> j \<Longrightarrow> bumps (take i ops) \<le> bumps (take j ops)"
  by (metis bumps_simps(4) le_add1 le_add_diff_inverse take_add)

text \<open>With the same even number of counter steps there is no store in between.\<close>

lemma no_store_between:
  fixes us :: "shm_update list"
  defines "ops \<equiv> concat (map update_micros us)"
  assumes "i \<le> j" and "j \<le> length ops" and "even (bumps (take i ops))" and "bumps (take j ops) = bumps (take i ops)"
  shows "i = j"
proof -
  have ne: "update_micros u \<noteq> []" for u by (simp add: update_micros_def)
  have tot: "bumps (concat (map update_micros xs)) = 2 * length xs" for xs
    by (induction xs) simp_all
  obtain k where k: "k \<le> length us" "take i ops = concat (map update_micros (take k us))"
    using even_boundary [of i us] assms by auto
  obtain l where l: "l \<le> length us" "take j ops = concat (map update_micros (take l us))"
    using even_boundary [of j us] assms by auto
  have "2 * k = 2 * l" using assms(5) k l tot [of "take k us"] tot [of "take l us"] by simp
  then have "take i ops = take j ops" using k l by simp
  then have "min (length ops) i = min (length ops) j" by (metis length_take)
  then show ?thesis using assms(2,3) by simp
qed

section \<open>The counter in memory\<close>

lemma exec_micro_counter:
  "load32 (exec_micro base Bump m) base = load32 m base + 1"
  "4 \<le> off \<Longrightarrow> load32 (exec_micro base (Put off b) m) base = load32 m base"
  by (simp_all add: load32_store_bytes_disjoint disjoint_regions_def)

fun data_only :: "micro \<Rightarrow> bool" where
  "data_only Bump = True"
| "data_only (Put off b) = (4 \<le> off)"

lemma puts_data_only: "4 \<le> off \<Longrightarrow> list_all data_only (puts off bs)"
  by (induction bs arbitrary: off) simp_all

lemma update_data_only: "list_all data_only (update_micros u)"
  by (simp add: update_micros_def puts_data_only)

lemma counter_after:
  assumes "list_all data_only ops"
  shows "load32 (fold (exec_micro base) ops m) base = load32 m base + of_nat (bumps ops)"
  using assms
proof (induction ops arbitrary: m)
  case (Cons x ops)
  have d: "data_only x" "list_all data_only ops" using Cons.prems by simp_all
  show ?case
  proof (cases x)
    case Bump
    then show ?thesis using Cons.IH [OF d(2), of "exec_micro base x m"]
      by (simp add: exec_micro_counter add.assoc)
  next
    case (Put off b)
    then show ?thesis using Cons.IH [OF d(2), of "exec_micro base x m"] d(1)
      by (simp add: exec_micro_counter(2) del: exec_micro.simps)
  qed
qed simp

section \<open>The data in memory\<close>

lemma store_bytes_Cons: "store_bytes (store_bytes m a [b]) (Suc a) bs = store_bytes m a (b # bs)"
  by (auto simp: store_bytes_def fun_eq_iff nth_Cons')

lemma exec_puts: "fold (exec_micro base) (puts off bs) m = store_bytes m (base + off) bs"
proof (induction bs arbitrary: off m)
  case Nil
  then show ?case by (auto simp: store_bytes_def fun_eq_iff)
next
  case (Cons b bs)
  then show ?case by (simp add: store_bytes_Cons)
qed

text \<open>One whole update, as the code performs it.\<close>

definition shm_publish :: "addr \<Rightarrow> shm_update \<Rightarrow> memory \<Rightarrow> memory" where
  "shm_publish f_shm u m =
    (let m = store32 m f_shm (load32 m f_shm + 1);
         m = store_bytes m (f_shm + 8) (le_bytes 8 (upd_timestamp u));
         m = store_bytes m (f_shm + 4) (le_bytes 4 (upd_prevTime u));
         m = store_bytes m (f_shm + 16) (enc_vars (upd_vars u))
     in store32 m f_shm (load32 m f_shm + 1))"

lemma shm_publish_micros: "fold (exec_micro base) (update_micros u) m = shm_publish base u m"
  by (simp add: update_micros_def exec_puts shm_publish_def Let_def)

text \<open>The three data fields as a reader decodes them.\<close>

definition shm_fields :: "memory \<Rightarrow> addr \<Rightarrow> u64 \<times> u32 \<times> SharedState_Variables" where
  "shm_fields m f_shm = (load64 m (f_shm + 8), load32 m (f_shm + 4), dec_vars (load_bytes m (f_shm + 16) 264))"

lemma shm_publish_fields:
  assumes "vars_ok (upd_vars u)"
  shows "shm_fields (shm_publish base u m) base = (upd_timestamp u, upd_prevTime u, upd_vars u)"
proof -
  have "dec_vars (enc_vars (upd_vars u)) = upd_vars u" using dec_enc_vars [OF assms, of "[]"] by simp
  then show ?thesis
    by (simp add: shm_fields_def shm_publish_def Let_def load64_def load32_def store32_def length_enc_vars assms
        load_store_bytes_disjoint disjoint_regions_def)
qed

lemma shm_publish_counter: "load32 (shm_publish base u m) base = load32 m base + 2"
  by (simp add: shm_publish_def Let_def load32_store_bytes_disjoint disjoint_regions_def add.assoc)

section \<open>The reader\<close>

text \<open>
  A successful pass of the reader: it looks at the counter at moment \<open>i\<close> and finds it even, at
  data byte \<open>k\<close> of the block at moment \<open>look k\<close>, and at the counter again at moment \<open>j\<close>, finding the
  same value. A moment is the number of stores the writer has made.
\<close>

definition reader_pass :: "addr \<Rightarrow> micro list \<Rightarrow> memory \<Rightarrow> nat \<Rightarrow> (nat \<Rightarrow> nat) \<Rightarrow> nat \<Rightarrow> bool" where
  "reader_pass base ops m i look j \<longleftrightarrow> i \<le> j \<and> j \<le> length ops \<and> (\<forall>k. i \<le> look k \<and> look k \<le> j) \<and>
     even (unat (load32 (mem_at base ops m i) base)) \<and>
     load32 (mem_at base ops m j) base = load32 (mem_at base ops m i) base"

text \<open>What the reader has in its local copy.\<close>

definition reader_copy :: "addr \<Rightarrow> micro list \<Rightarrow> memory \<Rightarrow> (nat \<Rightarrow> nat) \<Rightarrow> memory" where
  "reader_copy base ops m look = (\<lambda>x. mem_at base ops m (look (x - base)) x)"

lemma all_data_only: "list_all data_only (concat (map update_micros us))"
  by (induction us) (simp_all add: update_data_only)

lemma list_all_take: "list_all P xs \<Longrightarrow> list_all P (take n xs)"
  by (metis append_take_drop_id list_all_append)

lemma counter_at:
  "load32 (mem_at base (concat (map update_micros us)) m n) base =
     load32 m base + of_nat (bumps (take n (concat (map update_micros us))))"
  unfolding mem_at_def by (rule counter_after [OF list_all_take [OF all_data_only]])

lemma even_counter:
  assumes "even (unat (c :: u32))" and "even (unat (c + of_nat n))"
  shows "even n"
proof -
  have "unat (c + of_nat n) = (unat c + n) mod 2 ^ 32"
    by (simp add: unat_word_ariths unat_of_nat mod_simps)
  then have "even ((unat c + n) mod 2 ^ 32)" using assms(2) by simp
  then have "even (unat c + n)" by (simp add: dvd_mod_iff)
  then show ?thesis using assms(1) by simp
qed

lemma same_counter:
  fixes c :: u32
  assumes "c + of_nat a = c + of_nat b" and "a \<le> b" and "b < a + 2 ^ 32"
  shows "a = b"
proof -
  have "unat (of_nat (b - a) :: u32) = 0"
    using assms(1,2) by (simp add: of_nat_diff)
  then have "(b - a) mod 2 ^ 32 = 0" by (simp add: unat_of_nat)
  then show ?thesis using assms(2,3) by auto
qed

lemma reader_pass_still:
  assumes "reader_pass base (concat (map update_micros us)) m i look j" and "even (unat (load32 m base))"
    and "length us < 2 ^ 31"
  shows "i = j \<and> (\<exists>n \<le> length us. mem_at base (concat (map update_micros us)) m i = fold (shm_publish base) (take n us) m)"
proof -
  let ?ops = "concat (map update_micros us)" and ?c = "load32 m base"
  have ij: "i \<le> j" "j \<le> length ?ops" using assms(1) by (simp_all add: reader_pass_def)
  have ev: "even (bumps (take i ?ops))"
    using assms(1,2) by (auto simp: reader_pass_def counter_at intro: even_counter)
  have tot: "bumps (concat (map update_micros xs)) = 2 * length xs" for xs
    by (induction xs) simp_all
  have "bumps (take j ?ops) \<le> bumps (take (length ?ops) ?ops)" using ij by (intro bumps_take_mono)
  then have "bumps (take j ?ops) < 2 ^ 32" using assms(3) tot [of us] by simp
  moreover have "?c + of_nat (bumps (take i ?ops)) = ?c + of_nat (bumps (take j ?ops))"
    using assms(1) by (simp only: reader_pass_def counter_at)
  moreover have "bumps (take i ?ops) \<le> bumps (take j ?ops)" using ij by (intro bumps_take_mono)
  ultimately have "bumps (take j ?ops) = bumps (take i ?ops)" by (metis same_counter trans_less_add2)
  then have "i = j" using no_store_between [OF ij ev] by simp
  moreover obtain k where k: "k \<le> length us" "take i ?ops = concat (map update_micros (take k us))"
    using even_boundary [of i us] ij ev by auto
  have "fold (exec_micro base) (concat (map update_micros xs)) m' = fold (shm_publish base) xs m'" for xs m'
    by (induction xs arbitrary: m') (simp_all add: shm_publish_micros)
  then have "mem_at base ?ops m i = fold (shm_publish base) (take k us) m" by (simp add: mem_at_def k(2))
  ultimately show ?thesis using k(1) by blast
qed

text \<open>
  C9: no torn reads of the shared block. Let CPU1 publish any sequence of fewer
  than \<open>2\<^sup>3\<^sup>1\<close> updates, one store at a time, and let a Linux reader copy the block byte by byte at
  arbitrary moments between two looks at the counter that both give the same even value. Then
  everything the reader copied belongs to one and the same published update (or to the initial
  contents), and its fields decode to exactly the values CPU1 published in it.
\<close>

theorem seqlock_consistent:
  assumes "reader_pass base (concat (map update_micros us)) m i look j"
    and "even (unat (load32 m base))" and "length us < 2 ^ 31" and "list_all (\<lambda>u. vars_ok (upd_vars u)) us"
  shows "\<exists>n \<le> length us.
    reader_copy base (concat (map update_micros us)) m look = fold (shm_publish base) (take n us) m \<and>
    (0 < n \<longrightarrow> shm_fields (reader_copy base (concat (map update_micros us)) m look) base =
       (upd_timestamp (us ! (n - 1)), upd_prevTime (us ! (n - 1)), upd_vars (us ! (n - 1))))"
proof -
  let ?ops = "concat (map update_micros us)"
  obtain n where n: "i = j" "n \<le> length us" "mem_at base ?ops m i = fold (shm_publish base) (take n us) m"
    using reader_pass_still [OF assms(1-3)] by blast
  have "look k = i" for k using assms(1) n(1) by (auto simp: reader_pass_def intro: order_antisym)
  then have copy: "reader_copy base ?ops m look = fold (shm_publish base) (take n us) m"
    by (simp add: reader_copy_def n(3) [symmetric])
  have "shm_fields (fold (shm_publish base) (take n us) m) base =
      (upd_timestamp (us ! (n - 1)), upd_prevTime (us ! (n - 1)), upd_vars (us ! (n - 1)))" if "0 < n"
  proof -
    from that have "take n us = take (n - 1) us @ [us ! (n - 1)]"
      using n(2) take_Suc_conv_app_nth [of "n - 1" us] by simp
    moreover have "vars_ok (upd_vars (us ! (n - 1)))" using assms(4) that n(2) by (simp add: list_all_length)
    ultimately show ?thesis by (simp add: shm_publish_fields)
  qed
  with copy n(2) show ?thesis by (intro exI [of _ n]) simp
qed

definition demo_update :: shm_update where
  "demo_update = \<lparr>upd_timestamp = 3, upd_prevTime = 1, upd_vars = zero_vars\<rparr>"

text \<open>A reader that looks after one complete update.\<close>

theorem seqlock_consistent_witness:
  "\<exists>n \<le> 1. reader_copy 0 (concat (map update_micros [demo_update])) (\<lambda>_. 0)
      (\<lambda>_. length (update_micros demo_update)) = fold (shm_publish 0) (take n [demo_update]) (\<lambda>_. 0)"
proof -
  have z: "load32 (\<lambda>_. 0) 0 = 0" by code_simp
  have "load32 (mem_at 0 (concat (map update_micros [demo_update])) (\<lambda>_. 0) (length (update_micros demo_update))) 0 = 2"
    by (simp only: counter_at z) simp
  then have "reader_pass 0 (concat (map update_micros [demo_update])) (\<lambda>_. 0) (length (update_micros demo_update))
      (\<lambda>_. length (update_micros demo_update)) (length (update_micros demo_update))"
    by (simp add: reader_pass_def)
  from seqlock_consistent [OF this] z show ?thesis by (auto simp: demo_update_def)
qed

end
