(* ===== verification/Application_Shm.thy ===== *)
theory Application_Shm
  imports Application_Tunnel Seqlock
begin

text \<open>
  The application in its shared-memory configuration, \<open>src/src/application_shm.c\<close>: T0 publishes
  the variables in the shared block on every run and sends its statistics on every eighth.
  The command handlers and the T1 and T2 functions have the same text as in
  \<open>application.c\<close> and are the same definitions; of the T0 packet only the time stamp and the
  statistics are used and sent.
\<close>

section \<open>State\<close>

record shm_app =
  base_app :: app
  f_shm :: addr
  f_t0PacketSendCounter :: u32
  f_prevShmCopyTime :: u32

text \<open>The transport with the functions for the shared block: \<open>VARIANT_T0Shm\<close>, \<open>VARIANT_T0ShmSize\<close> and
  stores through the pointer.\<close>

record 'v shm_io =
  chan_io :: "'v io"
  T0Shm :: "'v \<Rightarrow> addr"
  T0ShmSize :: "'v \<Rightarrow> u32"
  on_memory :: "(memory \<Rightarrow> memory) \<Rightarrow> 'v \<Rightarrow> 'v"

definition T0_PACKET_SEND_DELAY :: u32 where "T0_PACKET_SEND_DELAY = 8"

section \<open>Operations\<close>

definition shm_HandleT0Packet :: "'v shm_io \<Rightarrow> bytes \<Rightarrow> u32 \<Rightarrow> app \<Rightarrow> app option" where
  "shm_HandleT0Packet io = HandleT0Packet (chan_io io)"

definition shm_HandleT1Packet :: "'v shm_io \<Rightarrow> bytes \<Rightarrow> u32 \<Rightarrow> app \<Rightarrow> app option" where
  "shm_HandleT1Packet io = HandleT1Packet (chan_io io)"

definition shm_HandleT2Packet :: "'v shm_io \<Rightarrow> bytes \<Rightarrow> u32 \<Rightarrow> app \<Rightarrow> app option" where
  "shm_HandleT2Packet io = HandleT2Packet (chan_io io)"

definition shm_APPLICATION_Init :: "'v shm_io \<Rightarrow> shm_app \<times> 'v \<Rightarrow> bool \<times> shm_app \<times> 'v" where
  "shm_APPLICATION_Init io = (\<lambda>(s, v).
    let s = s\<lparr>base_app := (base_app s)\<lparr>s_t0Packet := zero_t0, s_t1Packet := zero_tl, s_t2Packet := zero_tl\<rparr>\<rparr>
    in if T0ShmSize io v < sizeof_T0SharedMemory \<or> T0Shm io v = NULL then (False, s, v)
       else let s = s\<lparr>f_shm := T0Shm io v\<rparr>
            in (True, s, on_memory io (\<lambda>m. store_bytes m (f_shm s) (replicate (unat sizeof_T0SharedMemory) 0)) v))"

definition publish :: "'v shm_io \<Rightarrow> u64 \<Rightarrow> shm_app \<Rightarrow> 'v \<Rightarrow> 'v" where
  "publish io shmUpdateStart s v = on_memory io (shm_publish (f_shm s)
     \<lparr>upd_timestamp = shmUpdateStart, upd_prevTime = f_prevShmCopyTime s, upd_vars = s_variables (base_app s)\<rparr>) v"

definition stats_packet :: "app \<Rightarrow> SharedState_DataPacket" where
  "stats_packet a = \<lparr>timestamp = timestamp (s_t0Packet a), stats = stats (s_t0Packet a)\<rparr>"

text \<open>The sending branch of \<open>APPLICATION_T0\<close>, taken when the counter has reached eight.\<close>

definition send_stats :: "'v shm_io \<Rightarrow> u64 \<Rightarrow> shm_app \<times> 'v \<Rightarrow> (shm_app \<times> 'v) option" where
  "send_stats io endTime = (\<lambda>(s, v). do {
     let a = base_app s;
     let a = a\<lparr>s_t0Packet := (s_t0Packet a)\<lparr>timestamp := endTime\<rparr>\<rparr>;
     let (ok, v) = io_write (chan_io io) 0 (enc_tl (stats_packet a)) sizeof_DataPacket v;
     let st = stats (s_t0Packet a);
     let st = (if ok then st else st\<lparr>totalDroppedPackets := totalDroppedPackets st + 1\<rparr>);
     (t, a) \<leftarrow> now (chan_io io) a;
     let st = st\<lparr>lastPacketSendTime := ucast (t - endTime)\<rparr>;
     Some (s\<lparr>base_app := a\<lparr>s_t0Packet := (s_t0Packet a)\<lparr>stats := st\<rparr>\<rparr>, f_t0PacketSendCounter := 0\<rparr>, v) })"

definition report_shm :: "'v shm_io \<Rightarrow> shm_app \<times> 'v \<Rightarrow> (shm_app \<times> 'v) option" where
  "report_shm io = (\<lambda>(s, v). do {
     let a = base_app s;
     (shmUpdateStart, a) \<leftarrow> now (chan_io io) a;
     let v = publish io shmUpdateStart (s\<lparr>base_app := a\<rparr>) v;
     (endTime, a) \<leftarrow> now (chan_io io) a;
     let a = a\<lparr>s_t0Packet := (s_t0Packet a)\<lparr>stats := note_run (s_t0StartTime a) endTime (stats (s_t0Packet a))\<rparr>\<rparr>;
     let s = s\<lparr>base_app := a, f_prevShmCopyTime := ucast (endTime - shmUpdateStart)\<rparr>;
     (s, v) \<leftarrow> (if f_t0PacketSendCounter s = T0_PACKET_SEND_DELAY then send_stats io endTime (s, v) else Some (s, v));
     let a = base_app s;
     let st = stats (s_t0Packet a);
     Some (s\<lparr>base_app := a\<lparr>s_t0Packet := (s_t0Packet a)\<lparr>stats := st\<lparr>iterationNumber := iterationNumber st + 1\<rparr>\<rparr>\<rparr>\<rparr>, v) })"

definition shm_APPLICATION_T0 :: "'v shm_io \<Rightarrow> shm_app \<times> 'v \<Rightarrow> (shm_app \<times> 'v) option" where
  "shm_APPLICATION_T0 io = (\<lambda>(s, v). do {
     (t, a) \<leftarrow> now (chan_io io) (base_app s);
     let a = a\<lparr>s_t0StartTime := t\<rparr>;
     (a, v) \<leftarrow> (if f_t0InitDone a then ReadChan0 (chan_io io) (a, v) else Some (a, v));
     let a = do_workload_t0 (chan_io io) a;
     let s = s\<lparr>base_app := a, f_t0PacketSendCounter := f_t0PacketSendCounter s + 1\<rparr>;
     if f_t0InitDone a then report_shm io (s, v)
     else Some (s\<lparr>base_app := a\<lparr>f_t0InitDone := True\<rparr>\<rparr>, v) })"

definition shm_APPLICATION_T1 :: "'v shm_io \<Rightarrow> shm_app \<times> 'v \<Rightarrow> (shm_app \<times> 'v) option" where
  "shm_APPLICATION_T1 io = (\<lambda>(s, v).
     map_option (\<lambda>(a, v). (s\<lparr>base_app := a\<rparr>, v)) (APPLICATION_T1 (chan_io io) (base_app s, v)))"

definition shm_APPLICATION_T2 :: "'v shm_io \<Rightarrow> shm_app \<times> 'v \<Rightarrow> (shm_app \<times> 'v) option" where
  "shm_APPLICATION_T2 io = (\<lambda>(s, v).
     map_option (\<lambda>(a, v). (s\<lparr>base_app := a\<rparr>, v)) (APPLICATION_T2 (chan_io io) (base_app s, v)))"

definition shm_APPLICATION_BG :: "shm_app \<Rightarrow> shm_app" where
  "shm_APPLICATION_BG s = WORKLOAD_BG s"

definition shm_APPLICATION_Running :: "shm_app \<Rightarrow> bool" where
  "shm_APPLICATION_Running s = f_running (base_app s)"

section \<open>The shared block of the tunnel variant\<close>

definition tunnel_shm_io :: "(nat \<Rightarrow> u64) \<Rightarrow> fpu \<Rightarrow> variant shm_io" where
  "tunnel_shm_io clk fp = \<lparr>chan_io = tunnel_io clk fp, T0Shm = VARIANT_T0Shm, T0ShmSize = VARIANT_T0ShmSize,
     on_memory = (\<lambda>f v. v\<lparr>machine := (machine v)\<lparr>mem := f (mem (machine v))\<rparr>\<rparr>)\<rparr>"

lemma tunnel_shm_io_sel [simp]:
  "chan_io (tunnel_shm_io clk fp) = tunnel_io clk fp" "T0Shm (tunnel_shm_io clk fp) = VARIANT_T0Shm"
  "T0ShmSize (tunnel_shm_io clk fp) = VARIANT_T0ShmSize"
  "on_memory (tunnel_shm_io clk fp) f v = v\<lparr>machine := (machine v)\<lparr>mem := f (mem (machine v))\<rparr>\<rparr>"
  by (simp_all add: tunnel_shm_io_def)

lemma variant_shm:
  assumes "variant_inv ocm cached v"
  shows "VARIANT_T0Shm v = (if ocm then 0xFFFFE000 else 0x3FFFE000)" and "VARIANT_T0ShmSize v = 0x1000"
proof -
  have "config (f_tunnels v ! 0) = bank_config ocm 0" using assms by (simp add: variant_inv_def chan_inv_def)
  then show "VARIANT_T0Shm v = (if ocm then 0xFFFFE000 else 0x3FFFE000)" "VARIANT_T0ShmSize v = 0x1000"
    by (simp_all add: VARIANT_T0Shm_def VARIANT_T0ShmSize_def bank_simps)
qed

lemma shm_misses_rings:
  assumes "j < 3"
  shows "ring_misses (tx_ring (bank_tunnel ocm cached j)) (if ocm then 0xFFFFE000 else 0x3FFFE000) 0x1000"
    and "ring_misses (rx_ring (bank_tunnel ocm cached j)) (if ocm then 0xFFFFE000 else 0x3FFFE000) 0x1000"
proof -
  have shm: "unat (sharedMemoryAddress (bank_config ocm 0)) = (if ocm then 0xFFFFE000 else 0x3FFFE000)"
    "unat (sharedMemorySize (bank_config ocm 0)) = 0x1000" by (simp_all add: bank_simps)
  have above: "disjoint_regions (if ocm then 0xFFFFE000 else 0x3FFFE000) 0x1000 (window_base ocm j) (window_size j)"
    using shm_above_window [of 0 j ocm] assms unfolding shm by simp
  show "ring_misses (tx_ring (bank_tunnel ocm cached j)) (if ocm then 0xFFFFE000 else 0x3FFFE000) 0x1000"
    by (rule ring_within_misses [OF window_tx [OF assms] above])
  show "ring_misses (rx_ring (bank_tunnel ocm cached j)) (if ocm then 0xFFFFE000 else 0x3FFFE000) 0x1000"
    by (rule ring_within_misses [OF window_rx [OF assms] above])
qed

text \<open>Stores inside the block leave every channel as it is.\<close>

lemma shm_store_kept:
  assumes "variant_inv ocm cached v" and "f_tunnels v' = f_tunnels v"
    and "\<forall>x. x < VARIANT_T0Shm v \<or> VARIANT_T0Shm v + 0x1000 \<le> x \<longrightarrow> mem (machine v') x = mem (machine v) x"
  shows "variant_inv ocm cached v'"
    and "i < 3 \<Longrightarrow> chan_sent i v' = chan_sent i v \<and> chan_pending i v' = chan_pending i v"
proof -
  have ch: "chan_inv ocm cached k v" if "k < 3" for k using assms(1) that by (simp add: variant_inv_def)
  have kept: "chan_kept k v v'" if k: "k < 3" for k
  proof -
    have rings: "tx_ring (f_tunnels v ! k) = tx_ring (bank_tunnel ocm cached k)"
      "rx_ring (f_tunnels v ! k) = rx_ring (bank_tunnel ocm cached k)"
      using ch [OF k] by (simp_all add: chan_inv_def)
    have tx: "x < VARIANT_T0Shm v \<or> VARIANT_T0Shm v + 0x1000 \<le> x" if "in_ring (tx_ring (f_tunnels v ! k)) x" for x
      using ring_misses_in_ring [OF shm_misses_rings(1) [where ocm = ocm and cached = cached, OF k]] that
      by (simp only: rings variant_shm(1) [OF assms(1)])
    have rx: "x < VARIANT_T0Shm v \<or> VARIANT_T0Shm v + 0x1000 \<le> x" if "in_ring (rx_ring (f_tunnels v ! k)) x" for x
      using ring_misses_in_ring [OF shm_misses_rings(2) [where ocm = ocm and cached = cached, OF k]] that
      by (simp only: rings variant_shm(1) [OF assms(1)])
    have "\<forall>x. in_ring (tx_ring (f_tunnels v ! k)) x \<longrightarrow> mem (machine v') x = mem (machine v) x"
      "\<forall>x. in_ring (rx_ring (f_tunnels v ! k)) x \<longrightarrow> mem (machine v') x = mem (machine v) x"
      using tx rx assms(3) by blast+
    moreover have "ring_wf (tx_ring (f_tunnels v ! k))" "ring_wf (rx_ring (f_tunnels v ! k))"
      "ring_inv (tx_ring (f_tunnels v ! k)) (mem (machine v))" "ring_inv (rx_ring (f_tunnels v ! k)) (mem (machine v))"
      using chan_inv_wf [OF k ch [OF k]] ch [OF k] by (auto simp: tunnel_wf_def chan_inv_def tunnel_inv_def)
    ultimately show ?thesis using assms(2) by (simp add: chan_kept_def same_ring_eq)
  qed
  show "variant_inv ocm cached v'"
    using assms(1,2) chan_keptD(1) [OF _ ch kept] by (simp add: variant_inv_def)
  show "i < 3 \<Longrightarrow> chan_sent i v' = chan_sent i v \<and> chan_pending i v' = chan_pending i v"
    using chan_keptD(2,3) [OF _ ch kept] by blast
qed

lemma shm_publish_outside:
  assumes "vars_ok (upd_vars u)" and "x < base \<or> base + 0x1000 \<le> x"
  shows "shm_publish base u m x = m x"
  using assms(2) by (auto simp: shm_publish_def Let_def store32_def store_bytes_outside length_enc_vars [OF assms(1)])

text \<open>Sending leaves the block as it is.\<close>

lemma write_chan_outside:
  assumes "variant_inv ocm cached v" and "i < 3" and "sz \<noteq> 0" and "sz \<le> ucast (sendPacketMaxSize (bank_config ocm i))"
    and "unat sz \<le> length p" and "write_chan i p sz v = (ok, v')" and "\<not> in_ring (tx_ring (f_tunnels v ! i)) x"
  shows "mem (machine v') x = mem (machine v) x"
proof -
  let ?t = "f_tunnels v ! i"
  have ch: "chan_inv ocm cached i v" using assms(1,2) by (simp add: variant_inv_def)
  note wf = chan_inv_wf [OF assms(2) ch] and cfg = chan_config [OF assms(2) ch]
  have ti: "tunnel_inv ?t (machine v)" using ch by (simp add: chan_inv_def)
  have small: "unat sz \<le> unat (sendPacketMaxSize (bank_config ocm i))"
    using assms(4) by (simp add: word_le_nat_alt)
  then have us: "unat (ucast sz :: u16) = unat sz"
    using unat_u16_less [of "sendPacketMaxSize (bank_config ocm i)"] by (simp add: unat_u32_u16)
  have s16: "(ucast sz :: u16) \<noteq> 0" "(ucast sz :: u16) \<le> sendPacketMaxSize (config ?t)"
    using assms(3) small us by (auto simp: cfg word_le_nat_alt word_unat_eq_iff)
  obtain mc where w: "IPC_TUNNEL_Write ?t p (ucast sz) (machine v) = (ok, mc)" and v': "v' = v\<lparr>machine := mc\<rparr>"
    using assms(6) by (auto simp: write_chan_def split: prod.splits)
  show ?thesis
    using IPC_TUNNEL_Write_correct(5) [OF wf ti s16 _ w, unfolded us, OF assms(5)] assms(7) by (simp add: v')
qed

lemma write_chan_keeps_shm:
  assumes "variant_inv ocm cached v" and "sz \<noteq> 0" and "unat sz \<le> 1920" and "unat sz \<le> length p"
    and "write_chan 0 p sz v = (ok, v')" and "VARIANT_T0Shm v \<le> x" and "x < VARIANT_T0Shm v + 0x1000"
  shows "mem (machine v') x = mem (machine v) x"
proof (rule write_chan_outside [OF assms(1) _ assms(2) _ assms(4,5)])
  show "sz \<le> ucast (sendPacketMaxSize (bank_config ocm 0))"
    using assms(3) tunnel_packet_max [of 0 ocm] by (simp add: word_le_nat_alt)
  have "tx_ring (f_tunnels v ! 0) = tx_ring (bank_tunnel ocm cached 0)"
    using assms(1) by (simp add: variant_inv_def chan_inv_def)
  then show "\<not> in_ring (tx_ring (f_tunnels v ! 0)) x"
    using ring_misses_in_ring [OF shm_misses_rings(1) [where ocm = ocm and cached = cached and j = 0], of x]
      assms(6,7) by (simp only: variant_shm(1) [OF assms(1)]) linarith
qed simp

section \<open>Properties of the T0 run\<close>

definition shm_ready :: "bool \<Rightarrow> bool \<Rightarrow> (nat \<Rightarrow> u64) \<Rightarrow> shm_app \<Rightarrow> variant \<Rightarrow> bool" where
  "shm_ready ocm cached clk s v \<longleftrightarrow> t0_ready ocm cached clk (base_app s) v \<and> f_shm s = VARIANT_T0Shm v"

lemma publish_correct:
  assumes "variant_inv ocm cached v" and "f_shm s = VARIANT_T0Shm v" and "vars_ok (s_variables (base_app s))"
    and v'_def: "v' = publish (tunnel_shm_io clk fp) t s v"
  shows "variant_inv ocm cached v'" and "VARIANT_T0Shm v' = VARIANT_T0Shm v"
    and "i < 3 \<Longrightarrow> chan_sent i v' = chan_sent i v \<and> chan_pending i v' = chan_pending i v"
    and "shm_fields (mem (machine v')) (f_shm s) = (t, f_prevShmCopyTime s, s_variables (base_app s))"
    and "load32 (mem (machine v')) (f_shm s) = load32 (mem (machine v)) (f_shm s) + 2"
proof -
  let ?u = "\<lparr>upd_timestamp = t, upd_prevTime = f_prevShmCopyTime s, upd_vars = s_variables (base_app s)\<rparr>"
  have v': "v' = v\<lparr>machine := (machine v)\<lparr>mem := shm_publish (f_shm s) ?u (mem (machine v))\<rparr>\<rparr>"
    by (simp add: v'_def publish_def)
  have out: "\<forall>x. x < VARIANT_T0Shm v \<or> VARIANT_T0Shm v + 0x1000 \<le> x \<longrightarrow> mem (machine v') x = mem (machine v) x"
    using assms(2,3) by (simp add: v' shm_publish_outside)
  note kept = shm_store_kept [OF assms(1) _ out]
  show "variant_inv ocm cached v'" "i < 3 \<Longrightarrow> chan_sent i v' = chan_sent i v \<and> chan_pending i v' = chan_pending i v"
    using kept by (simp_all add: v')
  show "VARIANT_T0Shm v' = VARIANT_T0Shm v" by (simp add: v' VARIANT_T0Shm_def)
  show "shm_fields (mem (machine v')) (f_shm s) = (t, f_prevShmCopyTime s, s_variables (base_app s))"
    using shm_publish_fields [of ?u] assms(3) by (simp add: v')
  show "load32 (mem (machine v')) (f_shm s) = load32 (mem (machine v)) (f_shm s) + 2"
    by (simp add: v' shm_publish_counter)
qed

lemma shm_fields_cong:
  assumes "\<forall>x. base \<le> x \<and> x < base + 0x1000 \<longrightarrow> m' x = m x"
  shows "shm_fields m' base = shm_fields m base" and "load32 m' base = load32 m base"
proof -
  have "load_bytes m' (base + k) n = load_bytes m (base + k) n" if "k + n \<le> 0x1000" for k n
    using assms that by (intro load_bytes_cong) simp
  from this [of 8 8] this [of 4 4] this [of 16 264] this [of 0 4]
  show "shm_fields m' base = shm_fields m base" "load32 m' base = load32 m base"
    by (simp_all add: shm_fields_def load64_def load32_def)
qed

lemma send_stats_correct:
  assumes "variant_inv ocm cached v" and "f_shm s = VARIANT_T0Shm v" and "stats_ok (stats (s_t0Packet (base_app s)))"
    and "clock_ok (tunnel_io clk fp)"
  obtains s' v' q where "send_stats (tunnel_shm_io clk fp) t (s, v) = Some (s', v')" and "variant_inv ocm cached v'"
    and "chan_pending 0 v' = chan_pending 0 v"
    and "chan_sent 0 v' = chan_sent 0 v @ (if length (chan_sent 0 v) < packet_slots ocm 0 - 1 then [enc_tl q] else [])"
    and "stats q = stats (s_t0Packet (base_app s))" and "f_t0PacketSendCounter s' = 0"
    and "app_ok (base_app s') = app_ok (base_app s)" and "f_t0InitDone (base_app s') = f_t0InitDone (base_app s)"
    and "s_variables (base_app s') = s_variables (base_app s)"
    and "f_shm s' = f_shm s" and "f_prevShmCopyTime s' = f_prevShmCopyTime s"
    and "iterationNumber (stats (s_t0Packet (base_app s'))) = iterationNumber (stats (s_t0Packet (base_app s)))"
    and "shm_fields (mem (machine v')) (f_shm s) = shm_fields (mem (machine v)) (f_shm s)"
    and "load32 (mem (machine v')) (f_shm s) = load32 (mem (machine v)) (f_shm s)"
proof -
  define a where "a = (base_app s)\<lparr>s_t0Packet := (s_t0Packet (base_app s))\<lparr>timestamp := t\<rparr>\<rparr>"
  define q where "q = stats_packet a"
  have st: "stats q = stats (s_t0Packet (base_app s))" by (simp add: q_def stats_packet_def a_def)
  have len: "length (enc_tl q) = 160" using assms(3) st by (simp add: length_enc_tl)
  then have ne: "enc_tl q \<noteq> []" by auto
  obtain v' where w: "write_chan 0 (enc_tl q) sizeof_DataPacket v = (length (chan_sent 0 v) < packet_slots ocm 0 - 1, v')"
    and v': "variant_inv ocm cached v'" "chan_pending 0 v' = chan_pending 0 v"
      "chan_sent 0 v' = chan_sent 0 v @ (if length (chan_sent 0 v) < packet_slots ocm 0 - 1 then [enc_tl q] else [])"
    using tunnel_write_one [OF assms(1) _ ne, of 0 sizeof_DataPacket] len by (auto simp: sizeof_DataPacket_def)
  have "\<forall>x. f_shm s \<le> x \<and> x < f_shm s + 0x1000 \<longrightarrow> mem (machine v') x = mem (machine v) x"
    using write_chan_keeps_shm [OF assms(1) _ _ _ w] assms(2) len by (simp add: sizeof_DataPacket_def)
  note keep = shm_fields_cong [OF this]
  obtain t2 n where t2: "now (tunnel_io clk fp) a = Some (t2, a\<lparr>timer_reads := n\<rparr>)"
    by (rule now_returns [OF assms(4)])
  define ok where "ok = (length (chan_sent 0 v) < packet_slots ocm 0 - 1)"
  define st' where "st' = (if ok then stats q else (stats q)\<lparr>totalDroppedPackets := totalDroppedPackets (stats q) + 1\<rparr>)
    \<lparr>lastPacketSendTime := ucast (t2 - t)\<rparr>"
  have run: "send_stats (tunnel_shm_io clk fp) t (s, v) = Some
      (s\<lparr>base_app := a\<lparr>timer_reads := n, s_t0Packet := (s_t0Packet a)\<lparr>stats := st'\<rparr>\<rparr>, f_t0PacketSendCounter := 0\<rparr>, v')"
    using w t2 by (simp add: send_stats_def a_def q_def st'_def ok_def stats_packet_def Let_def)
  show thesis
    by (rule that [OF run v' st _ _ _ _ _ _ _ keep])
      (use assms(3) in \<open>simp_all add: a_def st'_def st app_ok_def stats_ok_def\<close>)
qed

text \<open>One run from the publication on.\<close>

lemma report_shm_correct:
  assumes "shm_ready ocm cached clk s v"
  shows "\<exists>s' v' q t. report_shm (tunnel_shm_io clk fp) (s, v) = Some (s', v') \<and>
    shm_ready ocm cached clk s' v' \<and> chan_pending 0 v' = chan_pending 0 v \<and>
    s_variables (base_app s') = s_variables (base_app s) \<and>
    shm_fields (mem (machine v')) (f_shm s) = (t, f_prevShmCopyTime s, s_variables (base_app s)) \<and>
    load32 (mem (machine v')) (f_shm s) = load32 (mem (machine v)) (f_shm s) + 2 \<and>
    chan_sent 0 v' = chan_sent 0 v @ (if f_t0PacketSendCounter s = T0_PACKET_SEND_DELAY \<and>
      length (chan_sent 0 v) < packet_slots ocm 0 - 1 then [enc_tl q] else []) \<and>
    f_t0PacketSendCounter s' =
      (if f_t0PacketSendCounter s = T0_PACKET_SEND_DELAY then 0 else f_t0PacketSendCounter s) \<and>
    iterationNumber (stats (s_t0Packet (base_app s'))) = iterationNumber (stats (s_t0Packet (base_app s))) + 1"
proof -
  have t0: "t0_ready ocm cached clk (base_app s) v" and shm: "f_shm s = VARIANT_T0Shm v"
    using assms by (simp_all add: shm_ready_def)
  note r = t0_readyD [OF t0]
  have ok: "vars_ok (s_variables (base_app s))" "stats_ok (stats (s_t0Packet (base_app s)))"
    using r(2) by (simp_all add: app_ok_def)
  let ?io = "tunnel_shm_io clk fp"
  obtain t1 n1 where t1: "now (tunnel_io clk fp) (base_app s) = Some (t1, (base_app s)\<lparr>timer_reads := n1\<rparr>)"
    by (rule now_returns [OF r(4)])
  define s1 where "s1 = s\<lparr>base_app := (base_app s)\<lparr>timer_reads := n1\<rparr>\<rparr>"
  define v1 where "v1 = publish ?io t1 s1 v"
  have "f_shm s1 = VARIANT_T0Shm v" "vars_ok (s_variables (base_app s1))" using shm ok by (simp_all add: s1_def)
  note pub = publish_correct [OF r(1) this v1_def]
  obtain t2 n2 where t2: "now (tunnel_io clk fp) (base_app s1) = Some (t2, (base_app s1)\<lparr>timer_reads := n2\<rparr>)"
    by (rule now_returns [OF r(4)])
  define a2 where "a2 = (base_app s)\<lparr>timer_reads := n2, s_t0Packet := (s_t0Packet (base_app s))\<lparr>stats :=
    note_run (s_t0StartTime (base_app s)) t2 (stats (s_t0Packet (base_app s)))\<rparr>\<rparr>"
  define s2 where "s2 = s\<lparr>base_app := a2, f_prevShmCopyTime := ucast (t2 - t1)\<rparr>"
  have s2: "app_ok (base_app s2)" "f_t0InitDone (base_app s2)" "f_shm s2 = VARIANT_T0Shm v1"
    "stats_ok (stats (s_t0Packet (base_app s2)))" "s_variables (base_app s2) = s_variables (base_app s)"
    "iterationNumber (stats (s_t0Packet (base_app s2))) = iterationNumber (stats (s_t0Packet (base_app s)))"
    using r(2,3) shm pub(2) by (simp_all add: s2_def a2_def app_ok_def note_run_def [of _ _ "stats (s_t0Packet (base_app s))"]
        stats_ok_def push_time_def SHAREDSTATE_BACKLOG_def)
  define bump :: "shm_app \<Rightarrow> shm_app" where "bump x = x\<lparr>base_app := (base_app x)\<lparr>s_t0Packet := (s_t0Packet (base_app x))\<lparr>stats :=
    (stats (s_t0Packet (base_app x)))\<lparr>iterationNumber := iterationNumber (stats (s_t0Packet (base_app x))) + 1\<rparr>\<rparr>\<rparr>\<rparr>" for x
  have run: "report_shm ?io (s, v) =
    map_option (\<lambda>(x, w). (bump x, w)) (if f_t0PacketSendCounter s = T0_PACKET_SEND_DELAY then send_stats ?io t2 (s2, v1) else Some (s2, v1))"
    using t1 t2 by (cases "f_t0PacketSendCounter s = T0_PACKET_SEND_DELAY"; cases "send_stats ?io t2 (s2, v1)")
      (auto simp: report_shm_def s1_def v1_def s2_def a2_def bump_def Let_def)
  have b: "app_ok (base_app (bump x)) = app_ok (base_app x)" "f_t0InitDone (base_app (bump x)) = f_t0InitDone (base_app x)"
    "f_shm (bump x) = f_shm x" "f_t0PacketSendCounter (bump x) = f_t0PacketSendCounter x"
    "s_variables (base_app (bump x)) = s_variables (base_app x)"
    "iterationNumber (stats (s_t0Packet (base_app (bump x)))) = iterationNumber (stats (s_t0Packet (base_app x))) + 1" for x
    by (simp_all add: bump_def app_ok_def stats_ok_def)
  have clk: "(\<forall>i j. i \<le> j \<longrightarrow> clk i \<le> clk j) \<and> (\<forall>n. slow_carry clk n)" using t0 by (simp add: t0_ready_def)
  have fs: "f_shm s1 = f_shm s" "f_prevShmCopyTime s1 = f_prevShmCopyTime s" "s_variables (base_app s1) = s_variables (base_app s)"
    "f_t0PacketSendCounter s2 = f_t0PacketSendCounter s" "f_shm s2 = f_shm s" by (simp_all add: s1_def s2_def)
  show ?thesis
  proof (cases "f_t0PacketSendCounter s = T0_PACKET_SEND_DELAY")
    case True
    obtain s3 v3 q where F: "send_stats ?io t2 (s2, v1) = Some (s3, v3)" "variant_inv ocm cached v3"
      "chan_pending 0 v3 = chan_pending 0 v1"
      "chan_sent 0 v3 = chan_sent 0 v1 @ (if length (chan_sent 0 v1) < packet_slots ocm 0 - 1 then [enc_tl q] else [])"
      "stats q = stats (s_t0Packet (base_app s2))" "f_t0PacketSendCounter s3 = 0"
      "app_ok (base_app s3) = app_ok (base_app s2)" "f_t0InitDone (base_app s3) = f_t0InitDone (base_app s2)"
      "s_variables (base_app s3) = s_variables (base_app s2)"
      "f_shm s3 = f_shm s2" "f_prevShmCopyTime s3 = f_prevShmCopyTime s2"
      "iterationNumber (stats (s_t0Packet (base_app s3))) = iterationNumber (stats (s_t0Packet (base_app s2)))"
      "shm_fields (mem (machine v3)) (f_shm s2) = shm_fields (mem (machine v1)) (f_shm s2)"
      "load32 (mem (machine v3)) (f_shm s2) = load32 (mem (machine v1)) (f_shm s2)"
      by (rule send_stats_correct [OF pub(1) s2(3,4) r(4)])
    have "VARIANT_T0Shm v3 = VARIANT_T0Shm v1" using variant_shm(1) [OF F(2)] variant_shm(1) [OF pub(1)] by simp
    then have "shm_ready ocm cached clk (bump s3) v3"
      using F s2 clk by (simp add: shm_ready_def t0_ready_def b)
    moreover have "report_shm ?io (s, v) = Some (bump s3, v3)" using True F(1) by (simp add: run)
    ultimately show ?thesis using True F pub(3) [of 0] pub(4,5) s2 fs b by (intro exI [of _ "bump s3"] exI [of _ v3] exI [of _ q] exI [of _ t1]) simp
  next
    case False
    have "shm_ready ocm cached clk (bump s2) v1" using s2 clk pub(1) by (simp add: shm_ready_def t0_ready_def b)
    moreover have "report_shm ?io (s, v) = Some (bump s2, v1)" using False by (simp add: run)
    ultimately show ?thesis using False pub(3) [of 0] pub(4,5) s2 fs b
      by (intro exI [of _ "bump s2"] exI [of _ v1] exI [of _ undefined] exI [of _ t1]) simp
  qed
qed

text \<open>
  Every T0 run of the shared-memory configuration publishes. With no command
  waiting, the run returns; the shared block then holds the time of the update, the duration of
  the previous one and the variables after the workload; its counter has advanced by exactly
  two, so an even counter stays even; the block and the rings do not disturb each other; a
  statistics packet is sent on every eighth run only, when the send counter reaches eight and
  is reset; and the iteration count grows by one.
\<close>

lemma shm_t0_publishes:
  assumes "shm_ready ocm cached clk s v" and "chan_pending 0 v = []"
  shows "\<exists>s' v' q t. shm_APPLICATION_T0 (tunnel_shm_io clk fp) (s, v) = Some (s', v') \<and>
    shm_ready ocm cached clk s' v' \<and> chan_pending 0 v' = [] \<and>
    s_variables (base_app s') = fst (WORKLOAD_T0 fp (s_variables (base_app s), s_counter (base_app s))) \<and>
    shm_fields (mem (machine v')) (f_shm s) = (t, f_prevShmCopyTime s, s_variables (base_app s')) \<and>
    load32 (mem (machine v')) (f_shm s) = load32 (mem (machine v)) (f_shm s) + 2 \<and>
    chan_sent 0 v' = chan_sent 0 v @ (if f_t0PacketSendCounter s + 1 = T0_PACKET_SEND_DELAY \<and>
      length (chan_sent 0 v) < packet_slots ocm 0 - 1 then [enc_tl q] else []) \<and>
    f_t0PacketSendCounter s' =
      (if f_t0PacketSendCounter s + 1 = T0_PACKET_SEND_DELAY then 0 else f_t0PacketSendCounter s + 1) \<and>
    iterationNumber (stats (s_t0Packet (base_app s'))) = iterationNumber (stats (s_t0Packet (base_app s))) + 1"
proof -
  have t0: "t0_ready ocm cached clk (base_app s) v" and shm: "f_shm s = VARIANT_T0Shm v"
    using assms(1) by (simp_all add: shm_ready_def)
  note r = t0_readyD [OF t0]
  let ?io = "tunnel_io clk fp"
  obtain t0 n0 where t0': "now ?io (base_app s) = Some (t0, (base_app s)\<lparr>timer_reads := n0\<rparr>)"
    by (rule now_returns [OF r(4)])
  define a0 where "a0 = (base_app s)\<lparr>timer_reads := n0, s_t0StartTime := t0\<rparr>"
  have rd: "ReadChan0 ?io (a0, v) = Some (a0, v)"
    by (simp add: ReadChan0_def read_with_def read_chan_empty [OF r(1) _ assms(2)] a0_def)
  define a1 where "a1 = do_workload_t0 ?io a0"
  define s1 where "s1 = s\<lparr>base_app := a1, f_t0PacketSendCounter := f_t0PacketSendCounter s + 1\<rparr>"
  have a1: "app_ok a1" "f_t0InitDone a1" "s_t0Packet a1 = s_t0Packet (base_app s)"
    "s_variables a1 = fst (WORKLOAD_T0 fp (s_variables (base_app s), s_counter (base_app s)))"
    using r(2,3) by (simp_all only: a1_def do_workload_t0_keeps) (simp_all add: a0_def app_ok_def)
  have ready: "shm_ready ocm cached clk s1 v"
    using assms(1) a1 by (simp add: shm_ready_def t0_ready_def s1_def)
  have run: "shm_APPLICATION_T0 (tunnel_shm_io clk fp) (s, v) = report_shm (tunnel_shm_io clk fp) (s1, v)"
    using r(3) rd a1(2) by (simp add: shm_APPLICATION_T0_def t0' a0_def s1_def a1_def)
  have s1: "f_shm s1 = f_shm s" "f_prevShmCopyTime s1 = f_prevShmCopyTime s"
    "f_t0PacketSendCounter s1 = f_t0PacketSendCounter s + 1" "base_app s1 = a1" by (simp_all add: s1_def)
  show ?thesis using report_shm_correct [OF ready, of fp] assms(2) unfolding run s1 a1 by (elim exE) auto
qed

text \<open>
  Start of the shared-memory configuration. Over the tunnel variant
  \<open>APPLICATION_Init\<close> succeeds, takes the 4 KiB block of channel 0, zeroes it (so the counter
  starts even) and leaves all channels as they are; on a transport without a shared block, as
  the OpenAMP variant, it reports failure and touches no memory.
\<close>

lemma shm_init:
  assumes "variant_inv ocm cached v" and "T0ShmSize other w < 280 \<or> T0Shm other w = 0"
  shows "(\<exists>s' v'. shm_APPLICATION_Init (tunnel_shm_io clk fp) (s, v) = (True, s', v') \<and>
      f_shm s' = (if ocm then 0xFFFFE000 else 0x3FFFE000) \<and> load32 (mem (machine v')) (f_shm s') = 0 \<and>
      variant_inv ocm cached v' \<and>
      (\<forall>i < 3. chan_sent i v' = chan_sent i v \<and> chan_pending i v' = chan_pending i v)) \<and>
    (\<exists>s'. shm_APPLICATION_Init other (s, w) = (False, s', w))"
proof -
  let ?z = "replicate 280 (0 :: u8)"
  define v' where "v' = v\<lparr>machine := (machine v)\<lparr>mem := store_bytes (mem (machine v)) (VARIANT_T0Shm v) ?z\<rparr>\<rparr>"
  define s' where "s' = s\<lparr>base_app := (base_app s)\<lparr>s_t0Packet := zero_t0, s_t1Packet := zero_tl, s_t2Packet := zero_tl\<rparr>,
    f_shm := VARIANT_T0Shm v\<rparr>"
  note vs = variant_shm [OF assms(1)]
  have "VARIANT_T0Shm v \<noteq> 0" by (simp add: vs(1))
  then have run: "shm_APPLICATION_Init (tunnel_shm_io clk fp) (s, v) = (True, s', v')"
    by (simp add: shm_APPLICATION_Init_def sizeof_T0SharedMemory_def vs(2) s'_def v'_def)
  have out: "\<forall>x. x < VARIANT_T0Shm v \<or> VARIANT_T0Shm v + 0x1000 \<le> x \<longrightarrow> mem (machine v') x = mem (machine v) x"
    by (auto simp: v'_def store_bytes_outside)
  have "f_tunnels v' = f_tunnels v" by (simp add: v'_def)
  note kept = shm_store_kept [OF assms(1) this out]
  have "load32 (mem (machine v')) (f_shm s') = 0" by (simp add: v'_def s'_def load32_memset_zero)
  moreover have "f_shm s' = (if ocm then 0xFFFFE000 else 0x3FFFE000)" by (simp add: s'_def vs(1))
  moreover have "\<exists>s'. shm_APPLICATION_Init other (s, w) = (False, s', w)"
    using assms(2) by (auto simp: shm_APPLICATION_Init_def sizeof_T0SharedMemory_def)
  ultimately show ?thesis using run kept by blast
qed

definition boot_shm_app :: shm_app where
  "boot_shm_app = \<lparr>base_app = boot_app, f_shm = 0xFFFFE000, f_t0PacketSendCounter = 0, f_prevShmCopyTime = 0\<rparr>"

lemma boot_variant_ok:
  "variant_inv True False (wvariant (boot_world True False))" "chan_pending 0 (wvariant (boot_world True False)) = []"
  using boot_world_ok [of True False] boot_world_empty(2) [of 0 True False]
  by (simp_all add: world_inv_def to_cpu1_def)

lemma shm_t0_publishes_witness:
  "\<exists>s' v'. shm_APPLICATION_T0 (tunnel_shm_io (\<lambda>_. 7) demo_fpu) (boot_shm_app, wvariant (boot_world True False)) = Some (s', v') \<and>
     f_t0PacketSendCounter s' = 1 \<and> load32 (mem (machine v')) 0xFFFFE000 =
       load32 (mem (machine (wvariant (boot_world True False)))) 0xFFFFE000 + 2"
proof -
  have "shm_ready True False (\<lambda>_. 7) boot_shm_app (wvariant (boot_world True False))"
    by (simp add: shm_ready_def t0_ready_def boot_variant_ok boot_shm_app_def app_ok_def boot_app_def zero_t0_def
        zero_tl_def slow_carry_def variant_shm(1) [OF boot_variant_ok(1)])
  from shm_t0_publishes [OF this boot_variant_ok(2), of demo_fpu] show ?thesis
    by (auto simp: boot_shm_app_def T0_PACKET_SEND_DELAY_def)
qed

lemma shm_init_witness:
  "fst (shm_APPLICATION_Init (tunnel_shm_io (\<lambda>_. 7) demo_fpu) (boot_shm_app, wvariant (boot_world True False))) \<and>
   \<not> fst (shm_APPLICATION_Init \<lparr>chan_io = undefined, T0Shm = (\<lambda>_. 0), T0ShmSize = (\<lambda>_. 0), on_memory = (\<lambda>_ v. v)\<rparr>
       (boot_shm_app, ()))"
  using shm_init [OF boot_variant_ok(1), of "\<lparr>chan_io = undefined, T0Shm = (\<lambda>_. 0), T0ShmSize = (\<lambda>_. 0), on_memory = (\<lambda>_ v. v)\<rparr>"
      "()" "\<lambda>_. 7" demo_fpu boot_shm_app]
  by auto

end
