(* ===== verification/Metal_Io.thy ===== *)
theory Metal_Io
  imports Byte_Memory
begin

text \<open>
  The I/O regions of libmetal (\<open>lib/io.h\<close>, \<open>lib/io.c\<close>): address translation between virtual
  addresses, offsets and physical addresses, and the block operations that copy through an
  alignment loop, a word loop and a byte loop. Regions have no operation table of their own:
  every region of the program is set up with empty \<open>ops\<close>. A block length is a C \<open>int\<close>; the
  model covers the non-negative ones.
\<close>

record metal_io_region =
  io_virt :: u32
  physmap :: "(u32 \<Rightarrow> u32) option"
  io_size :: u32
  page_shift :: u32
  page_mask :: u32
  mem_flags :: u32

definition METAL_BAD_VA :: u32 where "METAL_BAD_VA = - 1"
definition METAL_BAD_OFFSET :: u32 where "METAL_BAD_OFFSET = - 1"
definition METAL_BAD_PHYS :: u32 where "METAL_BAD_PHYS = - 1"

section \<open>Address translation\<close>

definition metal_io_init :: "u32 \<Rightarrow> (u32 \<Rightarrow> u32) option \<Rightarrow> u32 \<Rightarrow> u32 \<Rightarrow> u32 \<Rightarrow> metal_io_region" where
  "metal_io_init virt pm sz shift flags = \<lparr>io_virt = virt, physmap = pm, io_size = sz, page_shift = shift,
     page_mask = (if 32 \<le> shift then - 1 else push_bit (unat shift) 1 - 1), mem_flags = flags\<rparr>"

definition metal_io_virt :: "metal_io_region \<Rightarrow> u32 \<Rightarrow> u32" where
  "metal_io_virt io off = (if io_virt io \<noteq> METAL_BAD_VA \<and> off < io_size io then io_virt io + off else 0)"

definition metal_io_virt_to_offset :: "metal_io_region \<Rightarrow> u32 \<Rightarrow> u32" where
  "metal_io_virt_to_offset io virt =
    (let off = virt - io_virt io in if off < io_size io then off else METAL_BAD_OFFSET)"

definition metal_io_phys :: "metal_io_region \<Rightarrow> u32 \<Rightarrow> u32" where
  "metal_io_phys io off =
    (let page = (if 32 \<le> page_shift io then 0 else drop_bit (unat (page_shift io)) off)
     in case physmap io of
          Some pm \<Rightarrow> if off < io_size io then pm page + (off AND page_mask io) else METAL_BAD_PHYS
        | None \<Rightarrow> METAL_BAD_PHYS)"

text \<open>The search over the pages of a region. A region of one page (\<open>page_mask\<close> all ones) does
  not advance, so the loop is a partial function.\<close>

partial_function (option) phys_search :: "metal_io_region \<Rightarrow> u32 \<Rightarrow> u32 \<Rightarrow> u32 option" where
  "phys_search io phys off =
    (if metal_io_phys io off = phys then Some off
     else let off = off + (page_mask io + 1)
          in if off < io_size io then phys_search io phys off else Some METAL_BAD_OFFSET)"

definition metal_io_phys_to_offset :: "metal_io_region \<Rightarrow> u32 \<Rightarrow> u32 option" where
  "metal_io_phys_to_offset io phys =
    (if page_mask io = - 1
     then (case physmap io of None \<Rightarrow> None | Some pm \<Rightarrow> phys_search io phys (phys - pm 0))
     else phys_search io phys (phys AND page_mask io))"

definition metal_io_phys_to_virt :: "metal_io_region \<Rightarrow> u32 \<Rightarrow> u32 option" where
  "metal_io_phys_to_virt io phys = map_option (metal_io_virt io) (metal_io_phys_to_offset io phys)"

definition metal_io_virt_to_phys :: "metal_io_region \<Rightarrow> u32 \<Rightarrow> u32" where
  "metal_io_virt_to_phys io virt = metal_io_phys io (metal_io_virt_to_offset io virt)"

text \<open>A region of one page, as \<open>zynq_a9_proc_mmap\<close> and the device tables make them.\<close>

definition one_page :: "metal_io_region \<Rightarrow> bool" where
  "one_page io \<longleftrightarrow> io_virt io \<noteq> METAL_BAD_VA \<and> 32 \<le> page_shift io \<and> page_mask io = - 1 \<and> physmap io \<noteq> None"

lemma one_page_phys:
  assumes "one_page io" and "physmap io = Some pm"
  shows "metal_io_phys io off = (if off < io_size io then pm 0 + off else METAL_BAD_PHYS)"
  using assms by (simp add: metal_io_phys_def one_page_def)

text \<open>The search of a one-page region always ends.\<close>

lemma one_page_search:
  assumes "one_page io" and "physmap io = Some pm"
  shows "metal_io_phys_to_offset io phys =
    Some (if phys - pm 0 < io_size io \<or> phys = METAL_BAD_PHYS then phys - pm 0 else METAL_BAD_OFFSET)"
proof -
  have mask: "page_mask io = - 1" using assms(1) by (simp add: one_page_def)
  have "phys_search io phys (phys - pm 0) =
    Some (if phys - pm 0 < io_size io \<or> phys = METAL_BAD_PHYS then phys - pm 0 else METAL_BAD_OFFSET)"
    by (subst phys_search.simps) (auto simp: one_page_phys [OF assms] mask Let_def)
  then show ?thesis by (simp add: metal_io_phys_to_offset_def mask assms(2))
qed

lemma phys_to_virt_roundtrip:
  assumes "one_page io" and "virt - io_virt io < io_size io"
  shows "metal_io_phys_to_virt io (metal_io_virt_to_phys io virt) = Some virt"
proof -
  obtain pm where pm: "physmap io = Some pm" using assms(1) by (auto simp: one_page_def)
  have p: "metal_io_virt_to_phys io virt = pm 0 + (virt - io_virt io)"
    using assms(2) by (simp add: metal_io_virt_to_phys_def metal_io_virt_to_offset_def one_page_phys [OF assms(1) pm])
  have "metal_io_virt io (virt - io_virt io) = virt"
    using assms by (simp add: metal_io_virt_def one_page_def)
  then show ?thesis
    using assms(2) by (simp add: metal_io_phys_to_virt_def one_page_search [OF assms(1) pm] p)
qed

section \<open>Block operations\<close>

text \<open>The three loops of a block copy: single bytes while source or target is unaligned, then
  words, then the remaining bytes.\<close>

fun copy_head :: "nat \<Rightarrow> addr \<Rightarrow> addr \<Rightarrow> memory \<Rightarrow> nat \<times> addr \<times> addr \<times> memory" where
  "copy_head 0 d s m = (0, d, s, m)"
| "copy_head (Suc n) d s m =
    (if d mod 4 \<noteq> 0 \<or> s mod 4 \<noteq> 0 then copy_head n (d + 1) (s + 1) (m(d := m s)) else (Suc n, d, s, m))"

fun copy_words :: "nat \<Rightarrow> addr \<Rightarrow> addr \<Rightarrow> memory \<Rightarrow> nat \<times> addr \<times> addr \<times> memory" where
  "copy_words n d s m =
    (if 4 \<le> n then copy_words (n - 4) (d + 4) (s + 4) (store32 m d (load32 m s)) else (n, d, s, m))"

declare copy_words.simps [simp del]

fun copy_tail :: "nat \<Rightarrow> addr \<Rightarrow> addr \<Rightarrow> memory \<Rightarrow> memory" where
  "copy_tail 0 d s m = m"
| "copy_tail (Suc n) d s m = copy_tail n (d + 1) (s + 1) (m(d := m s))"

definition block_copy :: "nat \<Rightarrow> addr \<Rightarrow> addr \<Rightarrow> memory \<Rightarrow> memory" where
  "block_copy n d s m =
    (let (n, d, s, m) = copy_head n d s m; (n, d, s, m) = copy_words n d s m in copy_tail n d s m)"

fun set_head :: "u8 \<Rightarrow> nat \<Rightarrow> addr \<Rightarrow> memory \<Rightarrow> nat \<times> addr \<times> memory" where
  "set_head v 0 d m = (0, d, m)"
| "set_head v (Suc n) d m = (if d mod 4 \<noteq> 0 then set_head v n (d + 1) (m(d := v)) else (Suc n, d, m))"

fun set_words :: "u32 \<Rightarrow> nat \<Rightarrow> addr \<Rightarrow> memory \<Rightarrow> nat \<times> addr \<times> memory" where
  "set_words c n d m = (if 4 \<le> n then set_words c (n - 4) (d + 4) (store32 m d c) else (n, d, m))"

declare set_words.simps [simp del]

fun set_tail :: "u8 \<Rightarrow> nat \<Rightarrow> addr \<Rightarrow> memory \<Rightarrow> memory" where
  "set_tail v 0 d m = m"
| "set_tail v (Suc n) d m = set_tail v n (d + 1) (m(d := v))"

definition spread :: "u8 \<Rightarrow> u32" where
  "spread v = fold (\<lambda>i c. c OR push_bit (8 * i) (ucast v)) [1..<4] (ucast v)"

definition block_set :: "u8 \<Rightarrow> nat \<Rightarrow> addr \<Rightarrow> memory \<Rightarrow> memory" where
  "block_set v n d m =
    (let (n, d, m) = set_head v n d m; (n, d, m) = set_words (spread v) n d m in set_tail v n d m)"

definition ERANGE :: int where "ERANGE = 34"

text \<open>The bytes that fit in the region from the offset on. The sum is a 32-bit sum, as in the code.\<close>

definition clip_len :: "metal_io_region \<Rightarrow> u32 \<Rightarrow> nat \<Rightarrow> nat" where
  "clip_len io off len = (if io_size io < off + of_nat len then unat (io_size io - off) else len)"

definition metal_io_block_read :: "metal_io_region \<Rightarrow> u32 \<Rightarrow> addr \<Rightarrow> nat \<Rightarrow> memory \<Rightarrow> int \<times> memory" where
  "metal_io_block_read io off dst len m =
    (if io_size io \<le> off then (- ERANGE, m)
     else let len = clip_len io off len
          in (int len, block_copy len dst (unat (metal_io_virt io off)) m))"

definition metal_io_block_write :: "metal_io_region \<Rightarrow> u32 \<Rightarrow> addr \<Rightarrow> nat \<Rightarrow> memory \<Rightarrow> int \<times> memory" where
  "metal_io_block_write io off src len m =
    (if io_size io \<le> off then (- ERANGE, m)
     else let len = clip_len io off len
          in (int len, block_copy len (unat (metal_io_virt io off)) src m))"

definition metal_io_block_set :: "metal_io_region \<Rightarrow> u32 \<Rightarrow> u8 \<Rightarrow> nat \<Rightarrow> memory \<Rightarrow> int \<times> memory" where
  "metal_io_block_set io off v len m =
    (if io_size io \<le> off then (- ERANGE, m)
     else let len = clip_len io off len
          in (int len, block_set v len (unat (metal_io_virt io off)) m))"

section \<open>The block operations are \<open>memcpy\<close> and \<open>memset\<close>\<close>

lemma store_bytes_append:
  "store_bytes m a (xs @ ys) = store_bytes (store_bytes m a xs) (a + length xs) ys"
  by (auto simp: store_bytes_def fun_eq_iff nth_append)

lemma store_bytes_single: "store_bytes m a [b] = m(a := b)"
  by (auto simp: store_bytes_def fun_eq_iff)

lemma store_bytes_Nil [simp]: "store_bytes m a [] = m"
  by (auto simp: store_bytes_def fun_eq_iff)

lemma load_bytes_add: "load_bytes m a (n + k) = load_bytes m a n @ load_bytes m (a + n) k"
  by (rule nth_equalityI) (auto simp: load_bytes_def nth_append)

lemma load_bytes_one: "load_bytes m a (Suc 0) = [m a]"
  by (simp add: load_bytes_def)

text \<open>Copying a prefix first and the rest afterwards is one copy.\<close>

lemma copy_split:
  assumes "disjoint_regions d (n + k) s (n + k)"
  shows "store_bytes (store_bytes m d (load_bytes m s n)) (d + n)
      (load_bytes (store_bytes m d (load_bytes m s n)) (s + n) k) =
    store_bytes m d (load_bytes m s (n + k))"
proof -
  have "load_bytes (store_bytes m d (load_bytes m s n)) (s + n) k = load_bytes m (s + n) k"
    using assms by (intro load_store_bytes_disjoint) (auto simp: disjoint_regions_def)
  then show ?thesis by (simp add: load_bytes_add store_bytes_append)
qed

text \<open>A copy loop stopped after some bytes.\<close>

definition copied :: "nat \<Rightarrow> addr \<Rightarrow> addr \<Rightarrow> memory \<Rightarrow> nat \<times> addr \<times> addr \<times> memory \<Rightarrow> bool" where
  "copied n d s m r \<longleftrightarrow> (\<exists>k\<le>n. r = (n - k, d + k, s + k, store_bytes m d (load_bytes m s k)))"

lemma copied_step:
  assumes "copied n (d + j) (s + j) (store_bytes m d (load_bytes m s j)) r" and "disjoint_regions d (j + n) s (j + n)"
  shows "copied (j + n) d s m r"
proof -
  obtain k where k: "k \<le> n" "r = (n - k, d + j + k, s + j + k, store_bytes (store_bytes m d (load_bytes m s j)) (d + j)
      (load_bytes (store_bytes m d (load_bytes m s j)) (s + j) k))"
    using assms(1) by (auto simp: copied_def)
  have "disjoint_regions d (j + k) s (j + k)" using assms(2) k(1) by (auto simp: disjoint_regions_def)
  from copy_split [OF this] k show ?thesis
    unfolding copied_def by (intro exI [of _ "j + k"]) simp
qed

lemma copied_refl: "copied n d s m (n, d, s, m)"
  unfolding copied_def by (intro exI [of _ 0]) (simp add: load_bytes_def)

lemma copy_head_copied: "disjoint_regions d n s n \<Longrightarrow> copied n d s m (copy_head n d s m)"
proof (induction n arbitrary: d s m)
  case (Suc n)
  have "disjoint_regions (d + 1) n (s + 1) n" using Suc.prems by (auto simp: disjoint_regions_def)
  from Suc.IH [OF this, of "m(d := m s)"] have "copied (1 + n) d s m (copy_head n (d + 1) (s + 1) (m(d := m s)))"
    using Suc.prems by (intro copied_step) (simp_all add: load_bytes_def store_bytes_single del: fun_upd_apply)
  then show ?case by (simp add: copied_refl)
qed (simp add: copied_refl)

lemma le_bytes_take_bit: "8 * n \<le> k \<Longrightarrow> le_bytes n (take_bit k w) = le_bytes n (w :: 'a::len word)"
proof (induction n arbitrary: k w)
  case (Suc n)
  have "ucast (take_bit k w) = (ucast w :: u8)"
    using Suc.prems by (intro bit_word_eqI) (auto simp: bit_simps)
  then show ?case using Suc by (simp add: drop_bit_take_bit)
qed simp

lemma le_bytes_le_word: "8 * length bs \<le> LENGTH('a) \<Longrightarrow> le_bytes (length bs) (le_word bs :: 'a::len word) = bs"
proof (induction bs)
  case (Cons b bs)
  let ?w = "le_word bs :: 'a word"
  have "ucast (ucast b OR push_bit 8 ?w) = b"
    using Cons.prems by (intro bit_word_eqI) (auto simp: bit_simps)
  moreover have "drop_bit 8 (ucast b OR push_bit 8 ?w) = take_bit (LENGTH('a) - 8) ?w"
    by (rule bit_word_eqI) (auto simp: bit_simps dest: bit_imp_le_length)
  ultimately show ?case using Cons by (simp add: le_bytes_take_bit)
qed simp

lemma store32_load32: "store32 m d (load32 m s) = store_bytes m d (load_bytes m s 4)"
  using le_bytes_le_word [of "load_bytes m s 4", where 'a = 32] by (simp add: store32_def load32_def)

lemma copy_words_copied: "disjoint_regions d n s n \<Longrightarrow> copied n d s m (copy_words n d s m)"
proof (induction n arbitrary: d s m rule: less_induct)
  case (less n)
  show ?case
  proof (cases "4 \<le> n")
    case True
    have "disjoint_regions (d + 4) (n - 4) (s + 4) (n - 4)" using less.prems by (auto simp: disjoint_regions_def)
    then have "copied (n - 4) (d + 4) (s + 4) (store32 m d (load32 m s))
        (copy_words (n - 4) (d + 4) (s + 4) (store32 m d (load32 m s)))"
      using True by (intro less.IH) simp_all
    then have "copied (4 + (n - 4)) d s m (copy_words (n - 4) (d + 4) (s + 4) (store32 m d (load32 m s)))"
      using less.prems True by (intro copied_step) (simp_all add: store32_load32)
    then show ?thesis using True by (simp add: copy_words.simps [of n])
  qed (simp add: copy_words.simps [of n] copied_refl)
qed

lemma copy_tail_copies:
  "disjoint_regions d n s n \<Longrightarrow> copy_tail n d s m = store_bytes m d (load_bytes m s n)"
proof (induction n arbitrary: d s m)
  case (Suc n)
  have "disjoint_regions (d + 1) n (s + 1) n" using Suc.prems by (auto simp: disjoint_regions_def)
  from Suc.IH [OF this, of "m(d := m s)"] copy_split [of d 1 n s m] Suc.prems show ?case
    by (simp add: load_bytes_one store_bytes_single del: fun_upd_apply)
qed (simp add: load_bytes_def)

lemma block_copy_memcpy:
  assumes "disjoint_regions d n s n"
  shows "block_copy n d s m = store_bytes m d (load_bytes m s n)"
proof -
  obtain k where k: "k \<le> n" "copy_head n d s m = (n - k, d + k, s + k, store_bytes m d (load_bytes m s k))"
    using copy_head_copied [OF assms, of m] by (auto simp: copied_def)
  let ?m1 = "store_bytes m d (load_bytes m s k)"
  have d1: "disjoint_regions (d + k) (n - k) (s + k) (n - k)" using assms k(1) by (auto simp: disjoint_regions_def)
  obtain j where j: "j \<le> n - k" "copy_words (n - k) (d + k) (s + k) ?m1 =
      (n - k - j, d + k + j, s + k + j, store_bytes ?m1 (d + k) (load_bytes ?m1 (s + k) j))"
    using copy_words_copied [OF d1, of ?m1] by (auto simp: copied_def)
  have "disjoint_regions d (k + j) s (k + j)" using assms k(1) j(1) by (auto simp: disjoint_regions_def)
  from copy_split [OF this, of m] have m2: "store_bytes ?m1 (d + k) (load_bytes ?m1 (s + k) j) =
    store_bytes m d (load_bytes m s (k + j))" .
  have kj: "k + j \<le> n" using k(1) j(1) by simp
  have d2: "disjoint_regions (d + (k + j)) (n - (k + j)) (s + (k + j)) (n - (k + j))"
    using assms kj by (auto simp: disjoint_regions_def)
  have "block_copy n d s m = copy_tail (n - (k + j)) (d + (k + j)) (s + (k + j)) (store_bytes m d (load_bytes m s (k + j)))"
    by (simp add: block_copy_def k(2) j(2) m2 add.assoc)
  also have "\<dots> = store_bytes m d (load_bytes m s (k + j + (n - (k + j))))"
    using copy_split [of d "k + j" "n - (k + j)" s m] assms kj by (simp add: copy_tail_copies [OF d2])
  finally show ?thesis using kj by simp
qed

text \<open>The same for the fill.\<close>

lemma le_bytes_spread: "le_bytes 4 (spread v) = replicate 4 v"
proof -
  have "[1..<4] = [1, 2, 3 :: nat]" by (simp add: upt_rec)
  then have "spread v = ucast v OR push_bit 8 (ucast v) OR push_bit 16 (ucast v) OR push_bit 24 (ucast v)"
    by (simp add: spread_def or.assoc)
  also have "\<dots> = le_word [v, v, v, v]"
    by (rule bit_word_eqI) (auto simp: bit_simps)
  finally show ?thesis using le_bytes_le_word [of "[v, v, v, v]", where 'a = 32] by (simp add: numeral_eq_Suc)
qed

definition filled :: "u8 \<Rightarrow> nat \<Rightarrow> addr \<Rightarrow> memory \<Rightarrow> nat \<times> addr \<times> memory \<Rightarrow> bool" where
  "filled v n d m r \<longleftrightarrow> (\<exists>k\<le>n. r = (n - k, d + k, store_bytes m d (replicate k v)))"

lemma filled_step:
  assumes "filled v n (d + j) (store_bytes m d (replicate j v)) r"
  shows "filled v (j + n) d m r"
proof -
  obtain k where "k \<le> n" "r = (n - k, d + j + k, store_bytes (store_bytes m d (replicate j v)) (d + j) (replicate k v))"
    using assms by (auto simp: filled_def)
  then show ?thesis unfolding filled_def
    by (intro exI [of _ "j + k"]) (simp add: replicate_add store_bytes_append)
qed

lemma filled_refl: "filled v n d m (n, d, m)"
  unfolding filled_def by (intro exI [of _ 0]) simp

lemma set_head_filled: "filled v n d m (set_head v n d m)"
proof (induction n arbitrary: d m)
  case (Suc n)
  have "filled v (1 + n) d m (set_head v n (d + 1) (m(d := v)))"
    using Suc.IH by (intro filled_step) (simp add: store_bytes_single)
  then show ?case by (simp add: filled_refl)
qed (simp add: filled_refl)

lemma set_words_filled: "filled v n d m (set_words (spread v) n d m)"
proof (induction n arbitrary: d m rule: less_induct)
  case (less n)
  show ?case
  proof (cases "4 \<le> n")
    case True
    have "filled v (n - 4) (d + 4) (store32 m d (spread v)) (set_words (spread v) (n - 4) (d + 4) (store32 m d (spread v)))"
      using True by (intro less.IH) simp
    then have "filled v (4 + (n - 4)) d m (set_words (spread v) (n - 4) (d + 4) (store32 m d (spread v)))"
      by (intro filled_step) (simp add: store32_def le_bytes_spread)
    then show ?thesis using True by (simp add: set_words.simps [of _ n])
  qed (simp add: set_words.simps [of _ n] filled_refl)
qed

lemma set_tail_fills: "set_tail v n d m = store_bytes m d (replicate n v)"
proof (induction n arbitrary: d m)
  case (Suc n)
  show ?case
    using Suc.IH [of "d + 1" "m(d := v)"] store_bytes_append [of m d "[v]" "replicate n v"]
    by (simp add: store_bytes_single del: fun_upd_apply)
qed simp

lemma block_set_memset: "block_set v n d m = store_bytes m d (replicate n v)"
proof -
  obtain k where k: "k \<le> n" "set_head v n d m = (n - k, d + k, store_bytes m d (replicate k v))"
    using set_head_filled [of v n d m] by (auto simp: filled_def)
  obtain j where j: "j \<le> n - k" "set_words (spread v) (n - k) (d + k) (store_bytes m d (replicate k v)) =
      (n - k - j, d + k + j, store_bytes (store_bytes m d (replicate k v)) (d + k) (replicate j v))"
    using set_words_filled [of v "n - k" "d + k"] by (auto simp: filled_def)
  have "replicate n v = replicate k v @ replicate j v @ replicate (n - k - j) v"
    using k(1) j(1) by (simp add: replicate_add [symmetric])
  then show ?thesis
    using k(1) j(1) by (simp add: block_set_def k(2) j(2) set_tail_fills store_bytes_append)
qed

lemma clip_len_fits:
  assumes "unat off + len \<le> unat (io_size io)"
  shows "clip_len io off len = len"
proof -
  have "unat (io_size io) < 2 ^ 32" by (rule order_less_le_trans [OF unsigned_less]) simp
  then have "unat (off + of_nat len :: u32) = unat off + len"
    using assms by (simp add: unat_word_ariths unat_of_nat)
  then show ?thesis using assms by (simp add: clip_len_def word_less_nat_alt)
qed

lemma clip_len_le: "off < io_size io \<Longrightarrow> len < 2 ^ 32 \<Longrightarrow> clip_len io off len \<le> len"
proof -
  assume a: "off < io_size io" "len < 2 ^ 32"
  have "unat (io_size io - off) \<le> len" if "io_size io < off + of_nat len"
  proof (rule ccontr)
    assume "\<not> unat (io_size io - off) \<le> len"
    then have l: "unat off + len < unat (io_size io)" using a(1) by (simp add: unat_sub word_less_nat_alt)
    also have "\<dots> < 2 ^ 32" using unsigned_less [of "io_size io"] by simp
    finally have "unat (off + of_nat len :: u32) = unat off + len" using a(2) by (simp add: unat_word_ariths unat_of_nat)
    then show False using that l by (simp add: word_less_nat_alt)
  qed
  then show ?thesis by (simp add: clip_len_def)
qed

text \<open>The write of an object the caller holds, and that it is the block write from where the object lies.\<close>

definition metal_io_write_bytes :: "metal_io_region \<Rightarrow> u32 \<Rightarrow> bytes \<Rightarrow> memory \<Rightarrow> int \<times> memory" where
  "metal_io_write_bytes io off bs m =
    (if io_size io \<le> off then (- ERANGE, m)
     else let n = clip_len io off (length bs) in (int n, store_bytes m (unat (metal_io_virt io off)) (take n bs)))"

lemma block_write_bytes:
  assumes "load_bytes m src (length bs) = bs" and "length bs < 2 ^ 32"
    and "disjoint_regions (unat (metal_io_virt io off)) (length bs) src (length bs)"
  shows "metal_io_block_write io off src (length bs) m = metal_io_write_bytes io off bs m"
proof (cases "io_size io \<le> off")
  case False
  let ?n = "clip_len io off (length bs)"
  have n: "?n \<le> length bs" using False assms(2) by (intro clip_len_le) simp_all
  then have "disjoint_regions (unat (metal_io_virt io off)) ?n src ?n" using assms(3) by (auto simp: disjoint_regions_def)
  then have "block_copy ?n (unat (metal_io_virt io off)) src m = store_bytes m (unat (metal_io_virt io off)) (take ?n bs)"
    using load_bytes_take [OF n, of m src] assms(1) by (simp add: block_copy_memcpy)
  then show ?thesis using False by (simp add: metal_io_block_write_def metal_io_write_bytes_def Let_def)
qed (simp add: metal_io_block_write_def metal_io_write_bytes_def)

section \<open>Single values\<close>

text \<open>A bad offset or width ends in \<open>metal_assert (0)\<close>, the value \<open>None\<close>.\<close>

definition metal_io_read :: "metal_io_region \<Rightarrow> u32 \<Rightarrow> nat \<Rightarrow> memory \<Rightarrow> u64 option" where
  "metal_io_read io off width m =
    (let ptr = metal_io_virt io off
     in if ptr \<noteq> 0 \<and> width \<in> {1, 2, 4, 8} then Some (le_word (load_bytes m (unat ptr) width)) else None)"

definition metal_io_write :: "metal_io_region \<Rightarrow> u32 \<Rightarrow> u64 \<Rightarrow> nat \<Rightarrow> memory \<Rightarrow> memory option" where
  "metal_io_write io off v width m =
    (let ptr = metal_io_virt io off
     in if ptr \<noteq> 0 \<and> width \<in> {1, 2, 4, 8} then Some (store_bytes m (unat ptr) (le_bytes width v)) else None)"

end
