(* ===== verification/Virtqueue.thy ===== *)
theory Virtqueue
  imports Metal_Io "HOL-Library.Monad_Syntax" "HOL-Library.Multiset"
begin

text \<open>
  The split virtqueue of OpenAMP (\<open>lib/virtio/virtqueue.c\<close>, \<open>virtio_ring.h\<close>): a descriptor table
  with a free list threaded through it, an available ring written by the driver (master) and a
  used ring written by the device (slave). Both sides have their own \<open>virtqueue\<close> record and
  share one \<open>vring\<close>. The build does not define \<open>VQUEUE_DEBUG\<close>, so the parameter checks and
  assertions of the code are empty; an access outside a table is the value \<open>None\<close>.
\<close>

section \<open>Data\<close>

definition VQUEUE_SUCCESS :: int where "VQUEUE_SUCCESS = 0"
definition ERROR_VRING_NO_BUFF :: int where "ERROR_VRING_NO_BUFF = - 3007"
definition VQ_RING_DESC_CHAIN_END :: u16 where "VQ_RING_DESC_CHAIN_END = 32768"
definition VIRTIO_RING_F_EVENT_IDX :: u32 where "VIRTIO_RING_F_EVENT_IDX = push_bit 29 1"
definition VRING_DESC_F_NEXT :: u16 where "VRING_DESC_F_NEXT = 1"
definition VRING_DESC_F_WRITE :: u16 where "VRING_DESC_F_WRITE = 2"
definition VRING_DESC_F_INDIRECT :: u16 where "VRING_DESC_F_INDIRECT = 4"
definition VRING_USED_F_NO_NOTIFY :: u16 where "VRING_USED_F_NO_NOTIFY = 1"
definition VRING_AVAIL_F_NO_INTERRUPT :: u16 where "VRING_AVAIL_F_NO_INTERRUPT = 1"

record vring_desc =
  d_addr :: u64
  d_len :: u32
  d_flags :: u16
  d_next :: u16

text \<open>\<open>used_event\<close> and \<open>avail_event\<close> are the entries behind the available and the used ring.\<close>

record vring =
  vr_desc :: "vring_desc list"
  avail_flags :: u16
  avail_idx :: u16
  avail_ring :: "u16 list"
  used_event :: u16
  used_flags :: u16
  used_idx :: u16
  used_ring :: "(u32 \<times> u32) list"
  avail_event :: u16

record virtqueue_buf =
  vb_buf :: u32
  vb_len :: u32

record vq_desc_extra =
  cookie :: u32
  ndescs :: u16

datatype virtio_role = VIRTIO_DEV_MASTER | VIRTIO_DEV_SLAVE

record virtqueue =
  vq_role :: virtio_role
  vq_features :: u32
  vq_nentries :: u16
  vq_free_cnt :: u16
  vq_queued_cnt :: u16
  vq_desc_head_idx :: u16
  vq_used_cons_idx :: u16
  vq_available_idx :: u16
  vq_notify :: bool
  shm_io :: metal_io_region
  vq_descx :: "vq_desc_extra list"

section \<open>Layout of the ring in memory\<close>

definition vring_size :: "u32 \<Rightarrow> u32 \<Rightarrow> u32" where
  "vring_size num align =
    (let sz = num * 16;
         sz = sz + (4 + num * 2 + 2);
         sz = (sz + align - 1) AND NOT (align - 1)
     in sz + (4 + num * 8 + 2))"

text \<open>The addresses of the descriptor table, the available and the used ring.\<close>

definition vring_init :: "u32 \<Rightarrow> u32 \<Rightarrow> u32 \<Rightarrow> u32 \<times> u32 \<times> u32" where
  "vring_init num p align =
    (let avail = p + num * 16
     in (p, avail, (avail + 4 + num * 2 + 2 + align - 1) AND NOT (align - 1)))"

section \<open>Ring helpers\<close>

definition virtqueue_virt_to_phys :: "virtqueue \<Rightarrow> u32 \<Rightarrow> u32" where
  "virtqueue_virt_to_phys vq buf = metal_io_virt_to_phys (shm_io vq) buf"

definition virtqueue_phys_to_virt :: "virtqueue \<Rightarrow> u64 \<Rightarrow> u32 option" where
  "virtqueue_phys_to_virt vq phys = metal_io_phys_to_virt (shm_io vq) (ucast phys)"

text \<open>The value stored in the descriptor of the \<open>i\<close>-th buffer of a request; the next field keeps
  the link of the free list.\<close>

definition desc_entry :: "virtqueue \<Rightarrow> nat \<Rightarrow> nat \<Rightarrow> nat \<Rightarrow> virtqueue_buf \<Rightarrow> vring_desc \<Rightarrow> vring_desc" where
  "desc_entry vq readable needed i b dp = dp\<lparr>d_addr := ucast (virtqueue_virt_to_phys vq (vb_buf b)), d_len := vb_len b,
     d_flags := (if i + 1 < needed then VRING_DESC_F_NEXT else 0) OR (if readable \<le> i then VRING_DESC_F_WRITE else 0)\<rparr>"

function vq_ring_add_buffer ::
  "virtqueue \<Rightarrow> nat \<Rightarrow> nat \<Rightarrow> virtqueue_buf list \<Rightarrow> nat \<Rightarrow> u16 \<Rightarrow> vring_desc list \<Rightarrow> (u16 \<times> vring_desc list) option" where
  "vq_ring_add_buffer vq readable needed bufs i idx ds =
    (if i < needed then
       (if unat idx < length ds \<and> i < length bufs
        then let dp = ds ! unat idx
             in vq_ring_add_buffer vq readable needed bufs (i + 1) (d_next dp)
                  (ds[unat idx := desc_entry vq readable needed i (bufs ! i) dp])
        else None)
     else Some (idx, ds))"
  by pat_completeness auto
termination by (relation "measure (\<lambda>(vq, readable, needed, bufs, i, idx, ds). needed - i)") auto

declare vq_ring_add_buffer.simps [simp del]

text \<open>The walk to the last descriptor of a chain, counting \<open>ndescs\<close> down.\<close>

partial_function (option) chain_end :: "vring_desc list \<Rightarrow> u16 \<Rightarrow> u16 \<Rightarrow> (u16 \<times> u16) option" where
  "chain_end ds i nd =
    (if unat i < length ds
     then let dp = ds ! unat i
          in if d_flags dp AND VRING_DESC_F_NEXT \<noteq> 0 then chain_end ds (d_next dp) (nd - 1) else Some (i, nd)
     else None)"

definition vq_ring_free_chain :: "u16 \<Rightarrow> virtqueue \<times> vring \<Rightarrow> (virtqueue \<times> vring) option" where
  "vq_ring_free_chain desc_idx = (\<lambda>(vq, r).
     if unat desc_idx < length (vr_desc r) \<and> unat desc_idx < length (vq_descx vq)
     then let dxp = vq_descx vq ! unat desc_idx;
              vq = vq\<lparr>vq_free_cnt := vq_free_cnt vq + ndescs dxp\<rparr>
          in do {
            (l, nd) \<leftarrow> (if d_flags (vr_desc r ! unat desc_idx) AND VRING_DESC_F_INDIRECT = 0
              then chain_end (vr_desc r) desc_idx (ndescs dxp - 1) else Some (desc_idx, ndescs dxp - 1));
            Some (vq\<lparr>vq_descx := (vq_descx vq)[unat desc_idx := dxp\<lparr>ndescs := nd\<rparr>], vq_desc_head_idx := desc_idx\<rparr>,
              r\<lparr>vr_desc := (vr_desc r)[unat l := (vr_desc r ! unat l)\<lparr>d_next := vq_desc_head_idx vq\<rparr>]\<rparr>) }
     else None)"

definition vq_ring_init :: "virtqueue \<Rightarrow> vring \<Rightarrow> vring option" where
  "vq_ring_init vq r =
    (case vq_role vq of
       VIRTIO_DEV_MASTER \<Rightarrow>
         let n = unat (vq_nentries vq);
             ds = fold (\<lambda>i ds. ds[i := (ds ! i)\<lparr>d_next := of_nat (i + 1)\<rparr>]) [0..<n - 1] (vr_desc r)
         in if 0 < n \<and> n \<le> length ds
            then Some (r\<lparr>vr_desc := ds[n - 1 := (ds ! (n - 1))\<lparr>d_next := VQ_RING_DESC_CHAIN_END\<rparr>]\<rparr>) else None
     | VIRTIO_DEV_SLAVE \<Rightarrow> Some r)"

definition vq_ring_update_avail :: "u16 \<Rightarrow> virtqueue \<times> vring \<Rightarrow> (virtqueue \<times> vring) option" where
  "vq_ring_update_avail desc_idx = (\<lambda>(vq, r).
     let i = unat (avail_idx r AND (vq_nentries vq - 1))
     in if i < length (avail_ring r)
        then Some (vq\<lparr>vq_queued_cnt := vq_queued_cnt vq + 1\<rparr>,
          r\<lparr>avail_ring := (avail_ring r)[i := desc_idx], avail_idx := avail_idx r + 1\<rparr>)
        else None)"

definition virtqueue_nused :: "virtqueue \<Rightarrow> vring \<Rightarrow> u16" where
  "virtqueue_nused vq r = used_idx r - vq_used_cons_idx vq"

definition virtqueue_navail :: "virtqueue \<Rightarrow> vring \<Rightarrow> u16" where
  "virtqueue_navail vq r = avail_idx r - vq_available_idx vq"

definition vring_need_event :: "u16 \<Rightarrow> u16 \<Rightarrow> u16 \<Rightarrow> bool" where
  "vring_need_event event_idx new_idx old \<longleftrightarrow> new_idx - event_idx - 1 < new_idx - old"

definition event_idx_on :: "virtqueue \<Rightarrow> bool" where
  "event_idx_on vq \<longleftrightarrow> vq_features vq AND VIRTIO_RING_F_EVENT_IDX \<noteq> 0"

definition vq_ring_enable_interrupt :: "u16 \<Rightarrow> virtqueue \<Rightarrow> vring \<Rightarrow> bool \<times> vring" where
  "vq_ring_enable_interrupt ndesc vq r =
    (let r = (if event_idx_on vq
              then (case vq_role vq of
                 VIRTIO_DEV_MASTER \<Rightarrow> r\<lparr>used_event := vq_used_cons_idx vq + ndesc\<rparr>
               | VIRTIO_DEV_SLAVE \<Rightarrow> r\<lparr>avail_event := vq_available_idx vq + ndesc\<rparr>)
              else (case vq_role vq of
                 VIRTIO_DEV_MASTER \<Rightarrow> r\<lparr>avail_flags := avail_flags r AND NOT VRING_AVAIL_F_NO_INTERRUPT\<rparr>
               | VIRTIO_DEV_SLAVE \<Rightarrow> r\<lparr>used_flags := used_flags r AND NOT VRING_USED_F_NO_NOTIFY\<rparr>))
     in (case vq_role vq of
           VIRTIO_DEV_MASTER \<Rightarrow> ndesc < virtqueue_nused vq r
         | VIRTIO_DEV_SLAVE \<Rightarrow> ndesc < virtqueue_navail vq r, r))"

definition vq_ring_must_notify :: "virtqueue \<Rightarrow> vring \<Rightarrow> bool" where
  "vq_ring_must_notify vq r =
    (if event_idx_on vq
     then (case vq_role vq of
        VIRTIO_DEV_MASTER \<Rightarrow> vring_need_event (avail_event r) (avail_idx r) (avail_idx r - vq_queued_cnt vq)
      | VIRTIO_DEV_SLAVE \<Rightarrow> vring_need_event (used_event r) (used_idx r) (used_idx r - vq_queued_cnt vq))
     else (case vq_role vq of
        VIRTIO_DEV_MASTER \<Rightarrow> used_flags r AND VRING_USED_F_NO_NOTIFY = 0
      | VIRTIO_DEV_SLAVE \<Rightarrow> avail_flags r AND VRING_AVAIL_F_NO_INTERRUPT = 0))"

section \<open>Operations\<close>

definition virtqueue_allocate :: "nat \<Rightarrow> virtqueue" where
  "virtqueue_allocate n = \<lparr>vq_role = VIRTIO_DEV_MASTER, vq_features = 0, vq_nentries = 0, vq_free_cnt = 0,
     vq_queued_cnt = 0, vq_desc_head_idx = 0, vq_used_cons_idx = 0, vq_available_idx = 0, vq_notify = False,
     shm_io = \<lparr>io_virt = 0, physmap = None, io_size = 0, page_shift = 0, page_mask = 0, mem_flags = 0\<rparr>,
     vq_descx = replicate n \<lparr>cookie = 0, ndescs = 0\<rparr>\<rparr>"

definition virtqueue_create ::
  "virtio_role \<Rightarrow> u32 \<Rightarrow> u16 \<Rightarrow> bool \<Rightarrow> virtqueue \<times> vring \<Rightarrow> (int \<times> virtqueue \<times> vring) option" where
  "virtqueue_create role features num_descs notify = (\<lambda>(vq, r).
     let vq = vq\<lparr>vq_role := role, vq_features := features, vq_nentries := num_descs, vq_free_cnt := num_descs,
                vq_notify := notify\<rparr>
     in map_option (\<lambda>r. (VQUEUE_SUCCESS, vq, r)) (vq_ring_init vq r))"

definition virtqueue_set_shmem_io :: "metal_io_region \<Rightarrow> virtqueue \<Rightarrow> virtqueue" where
  "virtqueue_set_shmem_io io vq = vq\<lparr>shm_io := io\<rparr>"

definition virtqueue_add_buffer ::
  "virtqueue_buf list \<Rightarrow> nat \<Rightarrow> nat \<Rightarrow> u32 \<Rightarrow> virtqueue \<times> vring \<Rightarrow> (int \<times> virtqueue \<times> vring) option" where
  "virtqueue_add_buffer buf_list readable writable ck = (\<lambda>(vq, r).
     let needed = readable + writable;
         head_idx = vq_desc_head_idx vq
     in if unat head_idx < length (vq_descx vq)
        then do {
          let vq = vq\<lparr>vq_descx := (vq_descx vq)[unat head_idx := \<lparr>cookie = ck, ndescs = of_nat needed\<rparr>]\<rparr>;
          (idx, ds) \<leftarrow> vq_ring_add_buffer vq readable needed buf_list 0 head_idx (vr_desc r);
          let vq = vq\<lparr>vq_desc_head_idx := idx, vq_free_cnt := vq_free_cnt vq - of_nat needed\<rparr>;
          (vq, r) \<leftarrow> vq_ring_update_avail head_idx (vq, r\<lparr>vr_desc := ds\<rparr>);
          Some (VQUEUE_SUCCESS, vq, r) }
        else None)"

text \<open>The first component is \<open>None\<close> when the code returns \<open>NULL\<close> at once; else the cookie, the
  length and the ring index.\<close>

definition virtqueue_get_buffer :: "virtqueue \<times> vring \<Rightarrow> ((u32 \<times> u32 \<times> u16) option \<times> virtqueue \<times> vring) option" where
  "virtqueue_get_buffer = (\<lambda>(vq, r).
     if vq_used_cons_idx vq = used_idx r then Some (None, vq, r)
     else let ui = vq_used_cons_idx vq AND (vq_nentries vq - 1);
              vq = vq\<lparr>vq_used_cons_idx := vq_used_cons_idx vq + 1\<rparr>
          in if unat ui < length (used_ring r)
             then do {
               let (id, l) = used_ring r ! unat ui;
               let desc_idx = ucast id;
               (vq, r) \<leftarrow> vq_ring_free_chain desc_idx (vq, r);
               let dx = vq_descx vq ! unat desc_idx;
               Some (Some (cookie dx, l, ui), vq\<lparr>vq_descx := (vq_descx vq)[unat desc_idx := dx\<lparr>cookie := 0\<rparr>]\<rparr>, r) }
             else None)"

definition virtqueue_get_buffer_length :: "u16 \<Rightarrow> vring \<Rightarrow> u32 option" where
  "virtqueue_get_buffer_length i r =
    (if unat i < length (vr_desc r) then Some (d_len (vr_desc r ! unat i)) else None)"

text \<open>The first component is \<open>None\<close> when no buffer is available, else the descriptor index, the
  buffer and its length.\<close>

definition virtqueue_get_available_buffer ::
  "virtqueue \<times> vring \<Rightarrow> ((u16 \<times> u32 \<times> u32) option \<times> virtqueue \<times> vring) option" where
  "virtqueue_get_available_buffer = (\<lambda>(vq, r).
     if vq_available_idx vq = avail_idx r then Some (None, vq, r)
     else let head_idx = vq_available_idx vq AND (vq_nentries vq - 1);
              vq = vq\<lparr>vq_available_idx := vq_available_idx vq + 1\<rparr>
          in if unat head_idx < length (avail_ring r) \<and> unat (avail_ring r ! unat head_idx) < length (vr_desc r)
             then let ai = avail_ring r ! unat head_idx; d = vr_desc r ! unat ai
                  in map_option (\<lambda>b. (Some (ai, b, d_len d), vq, r)) (virtqueue_phys_to_virt vq (d_addr d))
             else None)"

definition virtqueue_add_consumed_buffer ::
  "u16 \<Rightarrow> u32 \<Rightarrow> virtqueue \<times> vring \<Rightarrow> (int \<times> virtqueue \<times> vring) option" where
  "virtqueue_add_consumed_buffer head_idx l = (\<lambda>(vq, r).
     if vq_nentries vq < head_idx then Some (ERROR_VRING_NO_BUFF, vq, r)
     else let ui = unat (used_idx r AND (vq_nentries vq - 1))
          in if ui < length (used_ring r)
             then Some (VQUEUE_SUCCESS, vq\<lparr>vq_queued_cnt := vq_queued_cnt vq + 1\<rparr>,
               r\<lparr>used_ring := (used_ring r)[ui := (ucast head_idx, l)], used_idx := used_idx r + 1\<rparr>)
             else None)"

definition virtqueue_enable_cb :: "virtqueue \<times> vring \<Rightarrow> bool \<times> virtqueue \<times> vring" where
  "virtqueue_enable_cb = (\<lambda>(vq, r). let (b, r) = vq_ring_enable_interrupt 0 vq r in (b, vq, r))"

definition virtqueue_disable_cb :: "virtqueue \<times> vring \<Rightarrow> virtqueue \<times> vring" where
  "virtqueue_disable_cb = (\<lambda>(vq, r).
    (vq, if event_idx_on vq
         then (case vq_role vq of
            VIRTIO_DEV_MASTER \<Rightarrow> r\<lparr>used_event := vq_used_cons_idx vq - vq_nentries vq - 1\<rparr>
          | VIRTIO_DEV_SLAVE \<Rightarrow> r\<lparr>avail_event := vq_available_idx vq - vq_nentries vq - 1\<rparr>)
         else (case vq_role vq of
            VIRTIO_DEV_MASTER \<Rightarrow> r\<lparr>avail_flags := avail_flags r OR VRING_AVAIL_F_NO_INTERRUPT\<rparr>
          | VIRTIO_DEV_SLAVE \<Rightarrow> r\<lparr>used_flags := used_flags r OR VRING_USED_F_NO_NOTIFY\<rparr>)))"

text \<open>The result tells whether the notify function was called.\<close>

definition virtqueue_kick :: "virtqueue \<times> vring \<Rightarrow> bool \<times> virtqueue \<times> vring" where
  "virtqueue_kick = (\<lambda>(vq, r). (vq_ring_must_notify vq r \<and> vq_notify vq, vq\<lparr>vq_queued_cnt := 0\<rparr>, r))"

definition virtqueue_get_desc_size :: "virtqueue \<times> vring \<Rightarrow> u32 option" where
  "virtqueue_get_desc_size = (\<lambda>(vq, r).
     if vq_available_idx vq = avail_idx r then Some 0
     else let head_idx = unat (vq_available_idx vq AND (vq_nentries vq - 1))
          in if head_idx < length (avail_ring r) \<and> unat (avail_ring r ! head_idx) < length (vr_desc r)
             then Some (d_len (vr_desc r ! unat (avail_ring r ! head_idx))) else None)"

end
