(* ===== verification/Virtqueue_Inv.thy ===== *)
theory Virtqueue_Inv
  imports Virtqueue
begin

text \<open>
  The virtqueue as a queue of requests. A driver side and a device side share one ring; the view
  names the free descriptors, the requests made available, those the device has taken, and those
  it has returned. Every operation of either side moves requests between these lists and keeps
  the partition of the descriptor table.
\<close>

section \<open>Segments of a ring\<close>

text \<open>The entries of a ring from a free-running 16-bit index on.\<close>

definition seg :: "'a list \<Rightarrow> u16 \<Rightarrow> 'a list \<Rightarrow> bool" where
  "seg ring start xs \<longleftrightarrow> length xs \<le> length ring \<and>
     (\<forall>j<length xs. ring ! (unat (start + of_nat j) mod length ring) = xs ! j)"

definition pow2_size :: "nat \<Rightarrow> bool" where
  "pow2_size n \<longleftrightarrow> (\<exists>k\<le>15. n = 2 ^ k)"

lemma pow2_size_pos: "pow2_size n \<Longrightarrow> 0 < n \<and> n \<le> 32768 \<and> n dvd 65536"
proof -
  assume "pow2_size n"
  then obtain k where k: "k \<le> 15" "n = 2 ^ k" by (auto simp: pow2_size_def)
  have "(2 :: nat) ^ k \<le> 2 ^ 15" using k(1) by (intro power_increasing) simp_all
  moreover have "(2 :: nat) ^ k dvd 2 ^ 16" using k(1) by (intro le_imp_power_dvd) simp
  ultimately show ?thesis using k(2) by simp
qed

lemma mask_index:
  assumes "pow2_size n" and "n = unat m"
  shows "unat (x AND (m - 1 :: u16)) = unat x mod n"
proof -
  obtain k where k: "k \<le> 15" "n = 2 ^ k" using assms(1) by (auto simp: pow2_size_def)
  have "m = of_nat n" using assms(2) by simp
  then have "m - 1 = mask k" using k by (simp add: mask_eq_exp_minus_1)
  then have "x AND (m - 1) = take_bit k x" by (simp only: take_bit_eq_mask)
  then have "unat (x AND (m - 1)) = take_bit k (unat x)" by (simp only: unsigned_take_bit_eq)
  then show ?thesis using k by (simp add: take_bit_eq_mod)
qed

lemma ring_pos_inj:
  assumes "n dvd 65536" and "i < n" and "j < n"
    and "unat (s + of_nat i :: u16) mod n = unat (s + of_nat j :: u16) mod n"
  shows "i = j"
proof -
  have "unat (s + of_nat l :: u16) mod n = (unat s + l) mod n" for l
    using assms(1) by (simp add: unat_word_ariths unat_of_nat mod_mod_cancel mod_add_right_eq)
  then have eq: "(unat s + i) mod n = (unat s + j) mod n" using assms(4) by simp
  show ?thesis
  proof (cases "i \<le> j")
    case True
    then have "n dvd j - i" using eq mod_eq_dvd_iff_nat [of "unat s + i" "unat s + j" n] by simp
    then show ?thesis using True assms(3) by (auto dest: dvd_imp_le)
  next
    case False
    then have "n dvd i - j" using eq mod_eq_dvd_iff_nat [of "unat s + j" "unat s + i" n] by simp
    then show ?thesis using False assms(2) by (auto dest: dvd_imp_le)
  qed
qed

lemma seg_push:
  assumes "seg ring s xs" and "length xs < length ring" and "length ring dvd 65536"
  shows "seg (ring[unat (s + of_nat (length xs)) mod length ring := x]) s (xs @ [x])"
proof -
  have pos: "unat (s + of_nat j :: u16) mod length ring < length ring" for j using assms(2) by (intro mod_less_divisor) auto
  have "ring[unat (s + of_nat (length xs)) mod length ring := x] ! (unat (s + of_nat j) mod length ring) = (xs @ [x]) ! j"
    if "j < Suc (length xs)" for j
  proof (cases "j = length xs")
    case False
    then have j: "j < length xs" using that by simp
    then have "unat (s + of_nat j) mod length ring \<noteq> unat (s + of_nat (length xs)) mod length ring"
      using ring_pos_inj [OF assms(3), of j "length xs" s] assms(2) by auto
    then show ?thesis using assms(1) j by (simp add: seg_def nth_append)
  qed (simp add: pos)
  then show ?thesis using assms(2) by (simp add: seg_def)
qed

lemma seg_pop: "seg ring s (x # xs) \<Longrightarrow> ring ! (unat s mod length ring) = x \<and> seg ring (s + 1) xs"
  by (auto simp: seg_def add.assoc [symmetric] dest: spec [of _ 0] spec [of _ "Suc _"])

section \<open>Chains of descriptors\<close>

fun linked :: "vring_desc list \<Rightarrow> u16 \<Rightarrow> nat list \<Rightarrow> u16 \<Rightarrow> bool" where
  "linked ds i [] e \<longleftrightarrow> i = e"
| "linked ds i (k # ks) e \<longleftrightarrow> unat i = k \<and> k < length ds \<and> linked ds (d_next (ds ! k)) ks e"

lemma linked_append: "linked ds i (xs @ ys) e \<longleftrightarrow> (\<exists>m. linked ds i xs m \<and> linked ds m ys e)"
  by (induction xs arbitrary: i) auto

lemma linked_cong:
  "linked ds i ks e \<Longrightarrow> (\<And>k. k \<in> set ks \<Longrightarrow> d_next (ds' ! k) = d_next (ds ! k)) \<Longrightarrow> length ds' = length ds \<Longrightarrow>
   linked ds' i ks e"
  by (induction ks arbitrary: i) auto

lemma linked_bound: "linked ds i ks e \<Longrightarrow> k \<in> set ks \<Longrightarrow> k < length ds"
  by (induction ks arbitrary: i) auto

lemma add_buffer_chain:
  assumes "linked ds idx (c @ F) e" and "distinct (c @ F)" and "needed = i + length c" and "needed \<le> length bufs"
  shows "\<exists>idx' ds'. vq_ring_add_buffer vq rd needed bufs i idx ds = Some (idx', ds') \<and> linked ds' idx' F e \<and>
    length ds' = length ds \<and> (\<forall>k. k \<notin> set c \<longrightarrow> ds' ! k = ds ! k) \<and>
    (\<forall>j<length c. ds' ! (c ! j) = desc_entry vq rd needed (i + j) (bufs ! (i + j)) (ds ! (c ! j)))"
  using assms
proof (induction c arbitrary: i idx ds)
  case Nil
  then show ?case by (simp add: vq_ring_add_buffer.simps)
next
  case (Cons k c)
  let ?e = "desc_entry vq rd needed i (bufs ! i) (ds ! k)"
  let ?ds = "ds[k := ?e]"
  have k: "unat idx = k" "k < length ds" "i < needed" "i < length bufs" using Cons.prems by simp_all
  have next_eq: "d_next ?e = d_next (ds ! k)" by (simp add: desc_entry_def)
  have "linked ds (d_next (ds ! k)) (c @ F) e" using Cons.prems(1) by simp
  then have "linked ?ds (d_next (ds ! k)) (c @ F) e"
    by (rule linked_cong) (use Cons.prems(2) k(2) in \<open>auto simp: nth_list_update\<close>)
  then obtain idx' ds' where IH: "vq_ring_add_buffer vq rd needed bufs (i + 1) (d_next (ds ! k)) ?ds = Some (idx', ds')"
    "linked ds' idx' F e" "length ds' = length ?ds" "\<forall>x. x \<notin> set c \<longrightarrow> ds' ! x = ?ds ! x"
    "\<forall>j<length c. ds' ! (c ! j) = desc_entry vq rd needed (i + 1 + j) (bufs ! (i + 1 + j)) (?ds ! (c ! j))"
    using Cons.IH [of ?ds "d_next (ds ! k)" "i + 1"] Cons.prems by auto
  have run: "vq_ring_add_buffer vq rd needed bufs i idx ds = Some (idx', ds')"
    using IH(1) k by (subst vq_ring_add_buffer.simps) (simp add: Let_def)
  have kc: "k \<notin> set c" using Cons.prems(2) by simp
  have "ds' ! ((k # c) ! j) = desc_entry vq rd needed (i + j) (bufs ! (i + j)) (ds ! ((k # c) ! j))"
    if "j < length (k # c)" for j
  proof (cases j)
    case 0
    then show ?thesis using IH(4) kc k(2) by simp
  next
    case (Suc l)
    then have "c ! l \<noteq> k" using that kc by (auto simp: in_set_conv_nth)
    then show ?thesis using IH(5) Suc that by simp
  qed
  moreover have "\<forall>x. x \<notin> set (k # c) \<longrightarrow> ds' ! x = ds ! x" using IH(4) by auto
  ultimately show ?case using run IH(2,3) by auto
qed

text \<open>A chain whose descriptors are marked as continued except the last.\<close>

fun chain_ok :: "vring_desc list \<Rightarrow> nat list \<Rightarrow> bool" where
  "chain_ok ds [] \<longleftrightarrow> False"
| "chain_ok ds [k] \<longleftrightarrow> k < length ds \<and> d_flags (ds ! k) AND VRING_DESC_F_NEXT = 0"
| "chain_ok ds (k # k' # ks) \<longleftrightarrow> k < length ds \<and> d_flags (ds ! k) AND VRING_DESC_F_NEXT \<noteq> 0 \<and>
    unat (d_next (ds ! k)) = k' \<and> chain_ok ds (k' # ks)"

lemma chain_ok_Cons: "c \<noteq> [] \<Longrightarrow> chain_ok ds (k # c) \<longleftrightarrow>
   k < length ds \<and> d_flags (ds ! k) AND VRING_DESC_F_NEXT \<noteq> 0 \<and> unat (d_next (ds ! k)) = hd c \<and> chain_ok ds c"
  by (cases c) auto

lemma chain_end_last:
  "chain_ok ds c \<Longrightarrow> unat i = hd c \<Longrightarrow>
   \<exists>l. chain_end ds i nd = Some (l, nd - of_nat (length c - 1)) \<and> unat l = last c"
proof (induction c arbitrary: i nd)
  case (Cons k c)
  show ?case
  proof (cases "c = []")
    case True
    then show ?thesis using Cons.prems by (subst chain_end.simps) (auto simp: Let_def)
  next
    case False
    have k: "k < length ds" "d_flags (ds ! k) AND VRING_DESC_F_NEXT \<noteq> 0" "unat (d_next (ds ! k)) = hd c" "chain_ok ds c"
      using Cons.prems(1) by (simp_all add: chain_ok_Cons [OF False])
    obtain l where l: "chain_end ds (d_next (ds ! k)) (nd - 1) = Some (l, nd - 1 - of_nat (length c - 1))" "unat l = last c"
      using Cons.IH [OF k(4,3), of "nd - 1"] by (elim exE conjE)
    have "chain_end ds i nd = chain_end ds (d_next (ds ! k)) (nd - 1)"
      using Cons.prems(2) k(1,2) by (subst chain_end.simps) (simp add: Let_def)
    moreover have "nd - 1 - of_nat (length c - 1) = nd - of_nat (length c)"
      using False by (cases c) simp_all
    ultimately show ?thesis using l False by simp
  qed
qed simp

lemma linked_chain:
  "chain_ok ds c \<Longrightarrow> unat i = hd c \<Longrightarrow> distinct c \<Longrightarrow> linked (ds[last c := (ds ! last c)\<lparr>d_next := e\<rparr>]) i c e"
proof (induction c arbitrary: i)
  case (Cons k c)
  show ?case
  proof (cases "c = []")
    case True
    then show ?thesis using Cons.prems by simp
  next
    case False
    then have "k \<noteq> last c" using Cons.prems(3) last_in_set [of c] by auto
    then show ?thesis using Cons False by (simp add: chain_ok_Cons)
  qed
qed simp

section \<open>Requests and views\<close>

record request =
  rq_chain :: "nat list"
  rq_bufs :: "virtqueue_buf list"
  rq_readable :: nat
  rq_cookie :: u32

record view =
  vw_free :: "nat list"
  vw_avail :: "request list"
  vw_taken :: "request list"
  vw_used :: "(request \<times> u32) list"

definition outstanding :: "view \<Rightarrow> request list" where
  "outstanding V = vw_avail V @ vw_taken V @ map fst (vw_used V)"

text \<open>The descriptors of a request hold its buffers, readable ones first.\<close>

definition contents :: "metal_io_region \<Rightarrow> vring_desc list \<Rightarrow> request \<Rightarrow> bool" where
  "contents io ds q \<longleftrightarrow> (\<forall>j<length (rq_chain q).
     d_addr (ds ! (rq_chain q ! j)) = ucast (metal_io_virt_to_phys io (vb_buf (rq_bufs q ! j))) \<and>
     d_len (ds ! (rq_chain q ! j)) = vb_len (rq_bufs q ! j) \<and>
     (d_flags (ds ! (rq_chain q ! j)) AND VRING_DESC_F_WRITE \<noteq> 0 \<longleftrightarrow> rq_readable q \<le> j) \<and>
     d_flags (ds ! (rq_chain q ! j)) AND VRING_DESC_F_INDIRECT = 0)"

definition request_ok :: "metal_io_region \<Rightarrow> vring_desc list \<Rightarrow> vq_desc_extra list \<Rightarrow> request \<Rightarrow> bool" where
  "request_ok io ds dx q \<longleftrightarrow> chain_ok ds (rq_chain q) \<and> contents io ds q \<and>
     cookie (dx ! hd (rq_chain q)) = rq_cookie q \<and> unat (ndescs (dx ! hd (rq_chain q))) = length (rq_chain q)"

definition sizes_ok :: "nat \<Rightarrow> virtqueue \<Rightarrow> virtqueue \<Rightarrow> vring \<Rightarrow> bool" where
  "sizes_ok n dv sv r \<longleftrightarrow> pow2_size n \<and> unat (vq_nentries dv) = n \<and> unat (vq_nentries sv) = n \<and>
     length (vr_desc r) = n \<and> length (avail_ring r) = n \<and> length (used_ring r) = n \<and> length (vq_descx dv) = n"

definition partitioned :: "nat \<Rightarrow> view \<Rightarrow> bool" where
  "partitioned n V \<longleftrightarrow> mset (vw_free V @ concat (map rq_chain (outstanding V))) = mset [0..<n]"

definition rings_ok :: "virtqueue \<Rightarrow> virtqueue \<Rightarrow> vring \<Rightarrow> view \<Rightarrow> bool" where
  "rings_ok dv sv r V \<longleftrightarrow>
     avail_idx r = vq_available_idx sv + of_nat (length (vw_avail V)) \<and>
     seg (avail_ring r) (vq_available_idx sv) (map (\<lambda>q. of_nat (hd (rq_chain q))) (vw_avail V)) \<and>
     used_idx r = vq_used_cons_idx dv + of_nat (length (vw_used V)) \<and>
     seg (used_ring r) (vq_used_cons_idx dv) (map (\<lambda>(q, l). (of_nat (hd (rq_chain q)), l)) (vw_used V))"

definition vq_inv :: "nat \<Rightarrow> virtqueue \<Rightarrow> virtqueue \<Rightarrow> vring \<Rightarrow> view \<Rightarrow> bool" where
  "vq_inv n dv sv r V \<longleftrightarrow> sizes_ok n dv sv r \<and> partitioned n V \<and>
     linked (vr_desc r) (vq_desc_head_idx dv) (vw_free V) VQ_RING_DESC_CHAIN_END \<and>
     unat (vq_free_cnt dv) = length (vw_free V) \<and>
     (\<forall>q \<in> set (outstanding V). request_ok (shm_io dv) (vr_desc r) (vq_descx dv) q) \<and> rings_ok dv sv r V"

subsection \<open>Consequences of the partition\<close>

lemma partitioned_distinct:
  assumes "partitioned n V"
  shows "distinct (vw_free V @ concat (map rq_chain (outstanding V)))"
    and "set (vw_free V @ concat (map rq_chain (outstanding V))) = {0..<n}"
    and "length (vw_free V) + length (concat (map rq_chain (outstanding V))) = n"
proof -
  let ?l = "vw_free V @ concat (map rq_chain (outstanding V))"
  have m: "mset ?l = mset [0..<n]" using assms by (simp add: partitioned_def)
  show "distinct ?l" using mset_eq_imp_distinct_iff [OF m] by simp
  show "set ?l = {0..<n}" using mset_eq_setD [OF m] by simp
  show "length (vw_free V) + length (concat (map rq_chain (outstanding V))) = n"
    using mset_eq_length [OF m] by simp
qed

lemma chain_ok_nonempty: "chain_ok ds c \<Longrightarrow> c \<noteq> []"
  by auto

lemma requests_bound: "\<forall>q \<in> set qs. rq_chain q \<noteq> [] \<Longrightarrow> length qs \<le> length (concat (map rq_chain qs))"
proof (induction qs)
  case (Cons q qs)
  then obtain k ks where "rq_chain q = k # ks" by (cases "rq_chain q") auto
  then show ?case using Cons by simp
qed simp

lemma outstanding_bound:
  assumes "vq_inv n dv sv r V"
  shows "length (vw_free V) + length (outstanding V) \<le> n"
proof -
  have "\<forall>q \<in> set (outstanding V). rq_chain q \<noteq> []"
    using assms by (auto simp: vq_inv_def request_ok_def)
  then show ?thesis
    using requests_bound [of "outstanding V"] partitioned_distinct(3) [of n V] assms by (simp add: vq_inv_def)
qed

text \<open>Requests own different descriptors.\<close>

lemma chains_disjoint:
  assumes "distinct (concat (map rq_chain (xs @ q # ys)))" and "q' \<in> set (xs @ ys)"
  shows "set (rq_chain q') \<inter> set (rq_chain q) = {}"
  using assms by auto

lemma request_ok_cong:
  assumes "request_ok io ds dx q" and "length ds' = length ds"
    and "\<And>k. k \<in> set (rq_chain q) \<Longrightarrow> ds' ! k = ds ! k"
    and "dx' ! hd (rq_chain q) = dx ! hd (rq_chain q)"
  shows "request_ok io ds' dx' q"
proof -
  have "chain_ok ds c \<Longrightarrow> (\<And>k. k \<in> set c \<Longrightarrow> ds' ! k = ds ! k) \<Longrightarrow> chain_ok ds' c" for c
    using assms(2) by (induction ds c rule: chain_ok.induct) auto
  then show ?thesis using assms by (auto simp: request_ok_def contents_def)
qed

end
