(* ===== verification/Virtqueue_Steps.thy ===== *)
theory Virtqueue_Steps
  imports Virtqueue_Inv
begin

text \<open>
  The four data operations of a virtqueue as moves between the lists of the view: the driver adds
  a request and gets a returned one back, the device takes an available request and returns it.
\<close>

lemma sizes_mask:
  assumes "sizes_ok n dv sv r"
  shows "unat (x AND (vq_nentries dv - 1)) = unat x mod n" and "unat (x AND (vq_nentries sv - 1)) = unat x mod n"
proof -
  have p: "pow2_size n" and d: "n = unat (vq_nentries dv)" and s: "n = unat (vq_nentries sv)"
    using assms by (simp_all add: sizes_ok_def)
  show "unat (x AND (vq_nentries dv - 1)) = unat x mod n" by (rule mask_index [OF p d])
  show "unat (x AND (vq_nentries sv - 1)) = unat x mod n" by (rule mask_index [OF p s])
qed

section \<open>Adding a request\<close>

lemma entry_flags [simp]:
  "d_flags (desc_entry vq rd needed i b d) AND VRING_DESC_F_NEXT = 0 \<longleftrightarrow> \<not> i + 1 < needed"
  "d_flags (desc_entry vq rd needed i b d) AND VRING_DESC_F_WRITE = 0 \<longleftrightarrow> \<not> rd \<le> i"
  "d_flags (desc_entry vq rd needed i b d) AND VRING_DESC_F_INDIRECT = 0"
  "d_next (desc_entry vq rd needed i b d) = d_next d"
  "d_addr (desc_entry vq rd needed i b d) = ucast (metal_io_virt_to_phys (shm_io vq) (vb_buf b))"
  "d_len (desc_entry vq rd needed i b d) = vb_len b"
  by (simp_all add: desc_entry_def VRING_DESC_F_NEXT_def VRING_DESC_F_WRITE_def VRING_DESC_F_INDIRECT_def
      virtqueue_virt_to_phys_def)

lemma entries_chain_ok:
  assumes "linked ds idx (c @ F) e" and "c \<noteq> []" and "length ds' = length ds"
    and "\<forall>j<length c. ds' ! (c ! j) = desc_entry vq rd (i + length c) (i + j) (bufs ! (i + j)) (ds ! (c ! j))"
  shows "chain_ok ds' c"
  using assms
proof (induction c arbitrary: i idx)
  case (Cons k c)
  have k: "ds' ! k = desc_entry vq rd (i + Suc (length c)) i (bufs ! i) (ds ! k)" "k < length ds'"
    using Cons.prems by auto
  show ?case
  proof (cases "c = []")
    case True
    then show ?thesis using k by simp
  next
    case False
    have "\<forall>j<length c. ds' ! (c ! j) = desc_entry vq rd (Suc i + length c) (Suc i + j) (bufs ! (Suc i + j)) (ds ! (c ! j))"
      using Cons.prems(4) by auto
    then have "chain_ok ds' c" using Cons.prems(1) False Cons.prems(3) by (intro Cons.IH [where i = "Suc i" and idx = "d_next (ds ! k)"]) simp_all
    moreover have "unat (d_next (ds ! k)) = hd c" using Cons.prems(1) False by (cases c) simp_all
    ultimately show ?thesis using k False by (simp add: chain_ok_Cons)
  qed
qed simp

text \<open>What adding leaves of the other requests.\<close>

lemma add_keeps_request:
  assumes "partitioned n V" and "vw_free V = c @ F" and "q' \<in> set (outstanding V)"
    and "request_ok io ds dx q'" and "length ds' = length ds" and "\<forall>k. k \<notin> set c \<longrightarrow> ds' ! k = ds ! k" and "c \<noteq> []"
  shows "request_ok io ds' (dx[hd c := x]) q'"
proof -
  have ne: "rq_chain q' \<noteq> []" using assms(4) by (auto simp: request_ok_def)
  have d: "set (rq_chain q') \<inter> set c = {}"
    using partitioned_distinct(1) [OF assms(1)] assms(2,3) by auto
  have "hd (rq_chain q') \<noteq> hd c" using d hd_in_set [OF ne] hd_in_set [OF assms(7)] by auto
  then show ?thesis using d assms(5,6) by (intro request_ok_cong [OF assms(4)]) auto
qed

lemma add_new_request:
  assumes "linked ds i (c @ F) e" and "c \<noteq> []" and "length ds' = length ds" and "length c < 2 ^ 16"
    and "\<forall>j<length c. ds' ! (c ! j) = desc_entry vq rd (0 + length c) (0 + j) (bufs ! (0 + j)) (ds ! (c ! j))"
    and "hd c < length dx"
  shows "request_ok (shm_io vq) ds' (dx[hd c := \<lparr>cookie = ck, ndescs = of_nat (length c)\<rparr>])
    \<lparr>rq_chain = c, rq_bufs = bufs, rq_readable = rd, rq_cookie = ck\<rparr>"
proof -
  have "chain_ok ds' c" by (rule entries_chain_ok [OF assms(1-3,5)])
  then show ?thesis using assms(4-6) by (auto simp: request_ok_def contents_def unat_of_nat)
qed

text \<open>The state after \<open>virtqueue_add_buffer\<close>.\<close>

definition added_vq :: "u16 \<Rightarrow> nat \<Rightarrow> u32 \<Rightarrow> virtqueue \<Rightarrow> virtqueue" where
  "added_vq idx m ck vq = vq\<lparr>
     vq_descx := (vq_descx vq)[unat (vq_desc_head_idx vq) := \<lparr>cookie = ck, ndescs = of_nat m\<rparr>],
     vq_desc_head_idx := idx, vq_free_cnt := vq_free_cnt vq - of_nat m, vq_queued_cnt := vq_queued_cnt vq + 1\<rparr>"

definition added_ring :: "virtqueue \<Rightarrow> vring_desc list \<Rightarrow> vring \<Rightarrow> vring" where
  "added_ring vq ds r = r\<lparr>vr_desc := ds,
     avail_ring := (avail_ring r)[unat (avail_idx r) mod length (avail_ring r) := vq_desc_head_idx vq],
     avail_idx := avail_idx r + 1\<rparr>"

lemma add_buffer_run:
  assumes sz: "sizes_ok n dv sv r" and lk: "linked (vr_desc r) (vq_desc_head_idx dv) (c @ F) e" and "distinct (c @ F)"
    and c: "c \<noteq> []" "length c = rd + wr" and bufs: "length bufs = length c"
  obtains idx ds where "virtqueue_add_buffer bufs rd wr ck (dv, r) =
      Some (VQUEUE_SUCCESS, added_vq idx (length c) ck dv, added_ring dv ds r)"
    and "linked ds idx F e" and "length ds = n" and "\<forall>x. x \<notin> set c \<longrightarrow> ds ! x = vr_desc r ! x"
    and "\<forall>j<length c. ds ! (c ! j) = desc_entry dv rd (0 + length c) (0 + j) (bufs ! (0 + j)) (vr_desc r ! (c ! j))"
proof -
  let ?h = "vq_desc_head_idx dv"
  define dv1 where "dv1 = dv\<lparr>vq_descx := (vq_descx dv)[unat ?h := \<lparr>cookie = ck, ndescs = of_nat (rd + wr)\<rparr>]\<rparr>"
  have lens: "length (vr_desc r) = n" "length (avail_ring r) = n" "length (vq_descx dv) = n" "0 < n"
    using sz pow2_size_pos [of n] by (simp_all add: sizes_ok_def)
  have h: "unat ?h < n" using lk c(1) lens(1) by (cases c) simp_all
  have e: "desc_entry dv1 = desc_entry dv" by (intro ext) (simp add: desc_entry_def dv1_def virtqueue_virt_to_phys_def)
  obtain idx ds where add: "vq_ring_add_buffer dv1 rd (rd + wr) bufs 0 ?h (vr_desc r) = Some (idx, ds)"
    and ds: "linked ds idx F e" "length ds = n" "\<forall>x. x \<notin> set c \<longrightarrow> ds ! x = vr_desc r ! x"
      "\<forall>j<length c. ds ! (c ! j) = desc_entry dv rd (0 + length c) (0 + j) (bufs ! (0 + j)) (vr_desc r ! (c ! j))"
    using add_buffer_chain [OF lk assms(3), of "rd + wr" 0 bufs dv1 rd] c(2) bufs lens(1) unfolding e by auto
  have "virtqueue_add_buffer bufs rd wr ck (dv, r) =
      Some (VQUEUE_SUCCESS, added_vq idx (length c) ck dv, added_ring dv ds r)"
    using add h lens sizes_mask(1) [OF sz, of "avail_idx r"]
    by (simp add: virtqueue_add_buffer_def dv1_def [symmetric] vq_ring_update_avail_def Let_def)
      (simp add: added_vq_def added_ring_def dv1_def c(2))
  then show thesis using ds by (rule that)
qed

lemma add_buffer_step:
  assumes inv: "vq_inv n dv sv r V" and free: "vw_free V = c @ F" and c: "c \<noteq> []" "length c = rd + wr"
    and bufs: "length bufs = length c"
  obtains dv' r' where "virtqueue_add_buffer bufs rd wr ck (dv, r) = Some (VQUEUE_SUCCESS, dv', r')"
    and "vq_inv n dv' sv r' (V\<lparr>vw_free := F, vw_avail := vw_avail V @
      [\<lparr>rq_chain = c, rq_bufs = bufs, rq_readable = rd, rq_cookie = ck\<rparr>]\<rparr>)"
    and "shm_io dv' = shm_io dv"
proof -
  let ?q = "\<lparr>rq_chain = c, rq_bufs = bufs, rq_readable = rd, rq_cookie = ck\<rparr>"
  let ?V = "V\<lparr>vw_free := F, vw_avail := vw_avail V @ [?q]\<rparr>"
  have sz: "sizes_ok n dv sv r" and part: "partitioned n V"
    and lk: "linked (vr_desc r) (vq_desc_head_idx dv) (c @ F) VQ_RING_DESC_CHAIN_END"
    and fc: "unat (vq_free_cnt dv) = length c + length F"
    and rq: "\<forall>q \<in> set (outstanding V). request_ok (shm_io dv) (vr_desc r) (vq_descx dv) q"
    and rg: "rings_ok dv sv r V"
    using inv free by (simp_all add: vq_inv_def)
  have n: "n \<le> 32768" "n dvd 65536" and lens: "length (vr_desc r) = n" "length (avail_ring r) = n" "length (vq_descx dv) = n"
    using sz pow2_size_pos [of n] by (simp_all add: sizes_ok_def)
  have bnd: "length c + length F + length (outstanding V) \<le> n"
    using outstanding_bound [OF inv] free by simp
  have hd_c: "unat (vq_desc_head_idx dv) = hd c" "hd c < n" using lk c(1) lens(1) by (cases c; simp)+
  have head: "vq_desc_head_idx dv = of_nat (hd c)" unfolding hd_c(1) [symmetric] by simp
  have dist: "distinct (c @ F)" using partitioned_distinct(1) [OF part] free by auto
  obtain idx ds where run: "virtqueue_add_buffer bufs rd wr ck (dv, r) =
      Some (VQUEUE_SUCCESS, added_vq idx (length c) ck dv, added_ring dv ds r)"
    and ds: "linked ds idx F VQ_RING_DESC_CHAIN_END" "length ds = n" "\<forall>x. x \<notin> set c \<longrightarrow> ds ! x = vr_desc r ! x"
      "\<forall>j<length c. ds ! (c ! j) = desc_entry dv rd (0 + length c) (0 + j) (bufs ! (0 + j)) (vr_desc r ! (c ! j))"
    by (rule add_buffer_run [OF sz lk dist c bufs])
  let ?dv = "added_vq idx (length c) ck dv" and ?r = "added_ring dv ds r"
  have fits: "unat (of_nat (length c) :: u16) = length c" using bnd n(1) by (simp add: unat_of_nat)
  then have "of_nat (length c) \<le> vq_free_cnt dv" using fc by (simp add: word_le_nat_alt)
  then have "unat (vq_free_cnt ?dv) = length F" using fits fc by (simp add: added_vq_def unat_sub)
  moreover have "sizes_ok n ?dv sv ?r" using sz ds(2) by (simp add: sizes_ok_def added_vq_def added_ring_def)
  moreover have "partitioned n ?V"
    using part by (simp add: partitioned_def free outstanding_def ac_simps)
  moreover have "request_ok (shm_io ?dv) (vr_desc ?r) (vq_descx ?dv) q'" if "q' \<in> set (outstanding ?V)" for q'
  proof (cases "q' = ?q")
    case True
    have "length c < 2 ^ 16" using bnd n(1) by simp
    then show ?thesis
      using add_new_request [OF lk c(1) _ _ ds(4), of "vq_descx dv" ck] True ds(2) lens hd_c
      by (simp add: added_vq_def added_ring_def)
  next
    case False
    then have q': "q' \<in> set (outstanding V)" using that by (auto simp: outstanding_def)
    have "request_ok (shm_io dv) ds ((vq_descx dv)[hd c := \<lparr>cookie = ck, ndescs = of_nat (length c)\<rparr>]) q'"
      using rq q' ds(2,3) lens(1) c(1) by (intro add_keeps_request [OF part free q', where ds = "vr_desc r"]) simp_all
    then show ?thesis by (simp add: added_vq_def added_ring_def hd_c(1))
  qed
  moreover have "rings_ok ?dv sv ?r ?V"
  proof -
    have "length (vw_avail V) < n" using bnd c(1) by (cases c) (simp_all add: outstanding_def)
    then show ?thesis
      using rg seg_push [of "avail_ring r" "vq_available_idx sv" "map (\<lambda>q. of_nat (hd (rq_chain q))) (vw_avail V)" "of_nat (hd c)"]
        lens(2) n(2) by (simp add: rings_ok_def added_vq_def added_ring_def head)
  qed
  ultimately have "vq_inv n ?dv sv ?r ?V" using ds(1) by (simp add: vq_inv_def) (simp add: added_vq_def added_ring_def)
  then show thesis by (rule that [OF run]) (simp add: added_vq_def)
qed

section \<open>The device takes and returns a request\<close>

lemma used_bound:
  assumes "vq_inv n dv sv r V"
  shows "length (vw_avail V) + length (vw_taken V) + length (vw_used V) \<le> n"
  using outstanding_bound [OF assms] by (simp add: outstanding_def)

lemma take_none:
  assumes "vq_inv n dv sv r V" and "vw_avail V = []"
  shows "virtqueue_get_available_buffer (sv, r) = Some (None, sv, r)"
  using assms by (simp add: virtqueue_get_available_buffer_def vq_inv_def rings_ok_def)

lemma index_moved:
  assumes "0 < m" and "m \<le> 32768"
  shows "s \<noteq> s + (of_nat m :: u16)"
proof
  assume "s = s + of_nat m"
  then have "(of_nat m :: u16) = 0" by simp
  then have "unat (of_nat m :: u16) = 0" by simp
  then show False using assms by (simp add: unat_of_nat)
qed

lemma ucast_index:
  "k < 65536 \<Longrightarrow> ucast (of_nat k :: u16) = (of_nat k :: u32)"
  "k < 65536 \<Longrightarrow> ucast (of_nat k :: u32) = (of_nat k :: u16)"
  by (simp_all add: unsigned_of_nat take_bit_nat_eq_self)

lemma ucast_u32_u64: "ucast (ucast (x :: u32) :: u64) = x"
  by (rule bit_word_eqI) (auto simp: bit_simps)

lemma request_head:
  assumes "vq_inv n dv sv r V" and "q \<in> set (outstanding V)"
  shows "hd (rq_chain q) < n" and "hd (rq_chain q) < 65536" and "hd (rq_chain q) = rq_chain q ! 0"
    and "request_ok (shm_io dv) (vr_desc r) (vq_descx dv) q" and "rq_chain q \<noteq> []"
proof -
  show r: "request_ok (shm_io dv) (vr_desc r) (vq_descx dv) q" using assms by (simp add: vq_inv_def)
  then have "chain_ok (vr_desc r) (rq_chain q)" by (simp add: request_ok_def)
  moreover have "length (vr_desc r) = n" "n \<le> 32768" using assms(1) pow2_size_pos [of n] by (simp_all add: vq_inv_def sizes_ok_def)
  ultimately show "hd (rq_chain q) < n" "hd (rq_chain q) < 65536" "rq_chain q \<noteq> []" "hd (rq_chain q) = rq_chain q ! 0"
    by (cases "rq_chain q"; cases "tl (rq_chain q)"; auto)+
qed

lemma take_step:
  assumes inv: "vq_inv n dv sv r V" and av: "vw_avail V = q # A" and page: "one_page (shm_io sv)"
  obtains p sv' where "virtqueue_get_available_buffer (sv, r) =
      Some (Some (of_nat (hd (rq_chain q)), p, vb_len (rq_bufs q ! 0)), sv', r)"
    and "metal_io_phys_to_virt (shm_io sv) (metal_io_virt_to_phys (shm_io dv) (vb_buf (rq_bufs q ! 0))) = Some p"
    and "vq_inv n dv sv' r (V\<lparr>vw_avail := A, vw_taken := q # vw_taken V\<rparr>)" and "shm_io sv' = shm_io sv"
proof -
  let ?V = "V\<lparr>vw_avail := A, vw_taken := q # vw_taken V\<rparr>"
  let ?h = "hd (rq_chain q)"
  let ?a = "metal_io_virt_to_phys (shm_io dv) (vb_buf (rq_bufs q ! 0))"
  have sz: "sizes_ok n dv sv r" and rg: "rings_ok dv sv r V" and part: "partitioned n V"
    using inv by (simp_all add: vq_inv_def)
  have n: "n \<le> 32768" "0 < n" and lens: "length (vr_desc r) = n" "length (avail_ring r) = n"
    using sz pow2_size_pos [of n] by (simp_all add: sizes_ok_def)
  have q: "q \<in> set (outstanding V)" using av by (simp add: outstanding_def)
  note h = request_head [OF inv q]
  have d: "d_addr (vr_desc r ! ?h) = ucast ?a" "d_len (vr_desc r ! ?h) = vb_len (rq_bufs q ! 0)"
    using h(4) length_greater_0_conv [THEN iffD2, OF h(5)] unfolding request_ok_def contents_def h(3) by blast+
  have seg: "avail_ring r ! (unat (vq_available_idx sv) mod n) = of_nat ?h"
    "seg (avail_ring r) (vq_available_idx sv + 1) (map (\<lambda>q. of_nat (hd (rq_chain q))) A)"
    using seg_pop [of "avail_ring r" "vq_available_idx sv" "of_nat ?h"] rg av lens(2) by (auto simp: rings_ok_def)
  have ne: "vq_available_idx sv \<noteq> avail_idx r"
    using rg av index_moved [of "length (vw_avail V)" "vq_available_idx sv"] used_bound [OF inv] n(1) by (simp add: rings_ok_def)
  obtain pm where pm: "physmap (shm_io sv) = Some pm" using page by (auto simp: one_page_def)
  obtain p where p: "metal_io_phys_to_virt (shm_io sv) ?a = Some p"
    by (simp add: metal_io_phys_to_virt_def one_page_search [OF page pm])
  define sv' where "sv' = sv\<lparr>vq_available_idx := vq_available_idx sv + 1\<rparr>"
  have u: "unat (of_nat ?h :: u16) = ?h" "ucast (ucast ?a :: u64) = ?a" using h(2) by (simp_all add: unat_of_nat ucast_u32_u64)
  have run: "virtqueue_get_available_buffer (sv, r) = Some (Some (of_nat ?h, p, vb_len (rq_bufs q ! 0)), sv', r)"
    using ne sizes_mask(2) [OF sz, of "vq_available_idx sv"] seg(1) lens n(2) h(1) u p d
    by (simp add: virtqueue_get_available_buffer_def Let_def virtqueue_phys_to_virt_def sv'_def)
  have "rings_ok dv sv' r ?V" using rg seg(2) by (simp add: rings_ok_def av sv'_def)
  moreover have "partitioned n ?V" using part by (simp add: partitioned_def outstanding_def av ac_simps)
  moreover have "set (outstanding ?V) = set (outstanding V)" by (auto simp: outstanding_def av)
  ultimately have "vq_inv n dv sv' r ?V"
    using inv by (simp add: vq_inv_def sizes_ok_def) (simp add: sv'_def)
  then show thesis by (rule that [OF run p]) (simp add: sv'_def)
qed

lemma give_step:
  assumes inv: "vq_inv n dv sv r V" and tk: "vw_taken V = T1 @ q # T2"
  obtains sv' r' where "virtqueue_add_consumed_buffer (of_nat (hd (rq_chain q))) l (sv, r) = Some (VQUEUE_SUCCESS, sv', r')"
    and "vq_inv n dv sv' r' (V\<lparr>vw_taken := T1 @ T2, vw_used := vw_used V @ [(q, l)]\<rparr>)" and "shm_io sv' = shm_io sv"
proof -
  let ?V = "V\<lparr>vw_taken := T1 @ T2, vw_used := vw_used V @ [(q, l)]\<rparr>"
  have sz: "sizes_ok n dv sv r" and rg: "rings_ok dv sv r V" and part: "partitioned n V"
    using inv by (simp_all add: vq_inv_def)
  have n: "n \<le> 32768" "n dvd 65536" "0 < n" and lens: "length (vr_desc r) = n" "length (used_ring r) = n"
    and ne: "unat (vq_nentries sv) = n"
    using sz pow2_size_pos [of n] by (simp_all add: sizes_ok_def)
  let ?i = "unat (used_idx r) mod n"
  define sv' where "sv' = sv\<lparr>vq_queued_cnt := vq_queued_cnt sv + 1\<rparr>"
  define r' where "r' = r\<lparr>used_ring := (used_ring r)[?i := (of_nat (hd (rq_chain q)), l)], used_idx := used_idx r + 1\<rparr>"
  have "q \<in> set (outstanding V)" using tk by (simp add: outstanding_def)
  note h = request_head [OF inv this]
  have u: "unat (of_nat (hd (rq_chain q)) :: u16) = hd (rq_chain q)" using h(2) by (simp add: unat_of_nat)
  have run: "virtqueue_add_consumed_buffer (of_nat (hd (rq_chain q))) l (sv, r) = Some (VQUEUE_SUCCESS, sv', r')"
    using h(1) u ne lens(2) n(3) sizes_mask(2) [OF sz, of "used_idx r"]
    by (simp add: virtqueue_add_consumed_buffer_def word_less_nat_alt sv'_def r'_def ucast_index(1) [OF h(2)])
  have "length (vw_used V) < n" using used_bound [OF inv] tk by simp
  then have "rings_ok dv sv' r' ?V"
    using rg seg_push [of "used_ring r" "vq_used_cons_idx dv" "map (\<lambda>(q, l). (of_nat (hd (rq_chain q)), l)) (vw_used V)"
      "(of_nat (hd (rq_chain q)), l)"] lens(2) n(2)
    by (simp add: rings_ok_def sv'_def r'_def)
  moreover have "partitioned n ?V" using part by (simp add: partitioned_def outstanding_def tk ac_simps)
  moreover have "set (outstanding ?V) = set (outstanding V)" by (auto simp: outstanding_def tk)
  ultimately have "vq_inv n dv sv' r' ?V"
    using inv by (simp add: vq_inv_def sizes_ok_def) (simp add: sv'_def r'_def)
  then show thesis by (rule that [OF run]) (simp add: sv'_def)
qed

section \<open>The driver gets a returned request\<close>

lemma get_none:
  assumes "vq_inv n dv sv r V" and "vw_used V = []"
  shows "virtqueue_get_buffer (dv, r) = Some (None, dv, r)"
  using assms by (simp add: virtqueue_get_buffer_def vq_inv_def rings_ok_def)

text \<open>Freeing the chain of a request puts it in front of the free list.\<close>

definition freed_vq :: "nat \<Rightarrow> u16 \<Rightarrow> virtqueue \<Rightarrow> virtqueue" where
  "freed_vq h nd vq = vq\<lparr>vq_free_cnt := vq_free_cnt vq + ndescs (vq_descx vq ! h),
     vq_descx := (vq_descx vq)[h := (vq_descx vq ! h)\<lparr>ndescs := nd\<rparr>], vq_desc_head_idx := of_nat h\<rparr>"

definition freed_ring :: "nat \<Rightarrow> virtqueue \<Rightarrow> vring \<Rightarrow> vring" where
  "freed_ring l vq r = r\<lparr>vr_desc := (vr_desc r)[l := (vr_desc r ! l)\<lparr>d_next := vq_desc_head_idx vq\<rparr>]\<rparr>"

lemma freed_ring_nth:
  "k \<noteq> l \<Longrightarrow> vr_desc (freed_ring l vq r) ! k = vr_desc r ! k" "length (vr_desc (freed_ring l vq r)) = length (vr_desc r)"
  by (simp_all add: freed_ring_def)

lemma free_chain_run:
  assumes "request_ok io (vr_desc r) (vq_descx vq) q" and "h = hd (rq_chain q)" and "h < 65536" and "h < length (vq_descx vq)"
  obtains nd where "vq_ring_free_chain (of_nat h) (vq, r) = Some (freed_vq h nd vq, freed_ring (last (rq_chain q)) vq r)"
proof -
  let ?c = "rq_chain q" and ?dx = "vq_descx vq ! h"
  have c: "chain_ok (vr_desc r) ?c" "contents io (vr_desc r) q" using assms(1) by (simp_all add: request_ok_def)
  then have ne: "0 < length ?c" by (cases ?c) auto
  have u: "unat (of_nat h :: u16) = h" using assms(3) by (simp add: unat_of_nat)
  have h0: "h = ?c ! 0" using assms(2) ne by (simp add: hd_conv_nth)
  have "h < length (vr_desc r)" using c(1) assms(2) by (cases ?c; cases "tl ?c") auto
  moreover have "d_flags (vr_desc r ! h) AND VRING_DESC_F_INDIRECT = 0"
    using c(2) ne unfolding contents_def h0 by blast
  moreover obtain l where "chain_end (vr_desc r) (of_nat h) (ndescs ?dx - 1) = Some (l, ndescs ?dx - 1 - of_nat (length ?c - 1))"
    "unat l = last ?c"
    using chain_end_last [OF c(1), of "of_nat h" "ndescs ?dx - 1"] u assms(2) by auto
  ultimately show thesis
    using assms(4) by (intro that [of "ndescs ?dx - 1 - of_nat (length ?c - 1)"])
      (simp add: vq_ring_free_chain_def u Let_def freed_vq_def freed_ring_def)
qed

lemma get_step:
  assumes inv: "vq_inv n dv sv r V" and us: "vw_used V = (q, l) # U"
  obtains dv' r' i where "virtqueue_get_buffer (dv, r) = Some (Some (rq_cookie q, l, i), dv', r')"
    and "vq_inv n dv' sv r' (V\<lparr>vw_used := U, vw_free := rq_chain q @ vw_free V\<rparr>)" and "shm_io dv' = shm_io dv"
proof -
  let ?V = "V\<lparr>vw_used := U, vw_free := rq_chain q @ vw_free V\<rparr>" and ?c = "rq_chain q"
  define h where "h = hd ?c"
  have sz: "sizes_ok n dv sv r" and rg: "rings_ok dv sv r V" and part: "partitioned n V"
    and lk: "linked (vr_desc r) (vq_desc_head_idx dv) (vw_free V) VQ_RING_DESC_CHAIN_END"
    and fc: "unat (vq_free_cnt dv) = length (vw_free V)"
    using inv by (simp_all add: vq_inv_def)
  have n: "n \<le> 32768" "0 < n" and lens: "length (vr_desc r) = n" "length (used_ring r) = n" "length (vq_descx dv) = n"
    using sz pow2_size_pos [of n] by (simp_all add: sizes_ok_def)
  have q: "q \<in> set (outstanding V)" using us by (simp add: outstanding_def)
  note hq = request_head [OF inv q, folded h_def]
  have dist: "distinct (?c @ vw_free V)" and others: "\<And>q'. q' \<in> set (outstanding ?V) \<Longrightarrow> set (rq_chain q') \<inter> set ?c = {}"
    and len: "length ?c + length (vw_free V) \<le> n"
    using partitioned_distinct [OF part] by (auto simp: outstanding_def us)
  let ?dv = "dv\<lparr>vq_used_cons_idx := vq_used_cons_idx dv + 1\<rparr>"
  have rq: "request_ok (shm_io dv) (vr_desc r) (vq_descx ?dv) q" using hq(4) by simp
  obtain nd where fr: "vq_ring_free_chain (of_nat h) (?dv, r) = Some (freed_vq h nd ?dv, freed_ring (last ?c) ?dv r)"
    by (rule free_chain_run [OF rq h_def hq(2)]) (use hq(1) lens(3) in simp_all)
  define dv' where "dv' = (freed_vq h nd ?dv)\<lparr>vq_descx := (vq_descx (freed_vq h nd ?dv))[h :=
    (vq_descx (freed_vq h nd ?dv) ! h)\<lparr>cookie := 0\<rparr>]\<rparr>"
  let ?r = "freed_ring (last ?c) ?dv r"
  have seg: "used_ring r ! (unat (vq_used_cons_idx dv) mod n) = (of_nat h, l)"
    "seg (used_ring r) (vq_used_cons_idx dv + 1) (map (\<lambda>(q, l). (of_nat (hd (rq_chain q)), l)) U)"
    using seg_pop [of "used_ring r" "vq_used_cons_idx dv" "(of_nat h, l)"] rg us lens(2) by (auto simp: rings_ok_def h_def)
  have ne: "vq_used_cons_idx dv \<noteq> used_idx r"
    using rg us index_moved [of "length (vw_used V)" "vq_used_cons_idx dv"] used_bound [OF inv] n(1) by (simp add: rings_ok_def)
  have u: "unat (of_nat h :: u16) = h" using hq(2) by (simp add: unat_of_nat)
  have run: "virtqueue_get_buffer (dv, r) =
      Some (Some (rq_cookie q, l, vq_used_cons_idx dv AND (vq_nentries dv - 1)), dv', ?r)"
    using ne sizes_mask(1) [OF sz, of "vq_used_cons_idx dv"] seg(1) lens n(2) fr hq(1,4) u
    by (simp add: virtqueue_get_buffer_def Let_def ucast_index(2) [OF hq(2)])
      (simp add: dv'_def freed_vq_def request_ok_def h_def)
  have io: "shm_io dv' = shm_io dv" and same: "vq_used_cons_idx dv' = vq_used_cons_idx dv + 1" "vq_nentries dv' = vq_nentries dv"
    "length (vq_descx dv') = length (vq_descx dv)" "\<And>k. k \<noteq> h \<Longrightarrow> vq_descx dv' ! k = vq_descx dv ! k"
    "vq_desc_head_idx dv' = of_nat h" "vq_free_cnt dv' = vq_free_cnt dv + ndescs (vq_descx dv ! h)"
    by (simp_all add: dv'_def freed_vq_def)
  have "linked (vr_desc ?r) (of_nat h) (?c @ vw_free V) VQ_RING_DESC_CHAIN_END"
  proof -
    have "linked (vr_desc ?r) (of_nat h) ?c (vq_desc_head_idx dv)"
      using linked_chain [of "vr_desc r" ?c "of_nat h" "vq_desc_head_idx dv"] hq(4) u dist
      by (simp add: freed_ring_def request_ok_def h_def)
    moreover have "last ?c \<notin> set (vw_free V)" using dist last_in_set [OF hq(5)] by auto
    then have "vr_desc ?r ! k = vr_desc r ! k" if "k \<in> set (vw_free V)" for k
      using that by (intro freed_ring_nth) auto
    then have "linked (vr_desc ?r) (vq_desc_head_idx dv) (vw_free V) VQ_RING_DESC_CHAIN_END"
      by (intro linked_cong [OF lk]) (simp_all add: freed_ring_nth(2))
    ultimately show ?thesis by (auto simp: linked_append)
  qed
  moreover have "unat (vq_free_cnt dv') = length (?c @ vw_free V)"
    using fc hq(4) len n(1) by (simp add: same(6) unat_word_ariths request_ok_def h_def)
  moreover have "partitioned n ?V" using part by (simp add: partitioned_def outstanding_def us ac_simps)
  moreover have "request_ok (shm_io dv) (vr_desc ?r) (vq_descx dv') q'" if "q' \<in> set (outstanding ?V)" for q'
  proof -
    have "q' \<in> set (outstanding V)" using that by (auto simp: outstanding_def us)
    note q' = request_head [OF inv this]
    have "hd (rq_chain q') \<noteq> h" using others [OF that] q'(5) hq(5) hd_in_set unfolding h_def by fastforce
    moreover have "last ?c \<notin> set (rq_chain q')" using others [OF that] last_in_set [OF hq(5)] by auto
    then have "vr_desc ?r ! k = vr_desc r ! k" if "k \<in> set (rq_chain q')" for k
      using that by (intro freed_ring_nth) auto
    ultimately show ?thesis using same(4) by (intro request_ok_cong [OF q'(4)]) (simp_all add: freed_ring_nth(2))
  qed
  moreover have "rings_ok dv' sv ?r ?V" using rg seg(2) by (simp add: rings_ok_def us same freed_ring_def)
  moreover have "sizes_ok n dv' sv ?r" using sz by (simp add: sizes_ok_def same freed_ring_def)
  ultimately have "vq_inv n dv' sv ?r ?V" by (simp add: vq_inv_def same io)
  then show thesis using io by (rule that [OF run])
qed

end
