(* ===== verification/Virtqueue_Spec.thy ===== *)
theory Virtqueue_Spec
  imports Virtqueue_Steps
begin

text \<open>
  What the virtqueue promises to its two sides: the simulation of the concrete operations by a
  queue of requests, the absence of accesses outside the tables, the suppression of
  notifications without a lost wake-up, and the layout of the ring in memory.
\<close>

section \<open>Creation\<close>

definition zero_desc :: vring_desc where
  "zero_desc = \<lparr>d_addr = 0, d_len = 0, d_flags = 0, d_next = 0\<rparr>"

definition zero_ring :: "nat \<Rightarrow> vring" where
  "zero_ring n = \<lparr>vr_desc = replicate n zero_desc, avail_flags = 0, avail_idx = 0, avail_ring = replicate n 0,
     used_event = 0, used_flags = 0, used_idx = 0, used_ring = replicate n (0, 0), avail_event = 0\<rparr>"

text \<open>Both sides create their queue on the same zeroed ring and set their I/O region.\<close>

definition vq_boot :: "nat \<Rightarrow> u32 \<Rightarrow> metal_io_region \<Rightarrow> metal_io_region \<Rightarrow> (virtqueue \<times> virtqueue \<times> vring) option" where
  "vq_boot n features iod ios = do {
     (st, dv, r) \<leftarrow> virtqueue_create VIRTIO_DEV_MASTER features (of_nat n) True (virtqueue_allocate n, zero_ring n);
     (st', sv, r) \<leftarrow> virtqueue_create VIRTIO_DEV_SLAVE features (of_nat n) True (virtqueue_allocate 0, r);
     Some (virtqueue_set_shmem_io iod dv, virtqueue_set_shmem_io ios sv, r) }"

definition empty_view :: "nat \<Rightarrow> view" where
  "empty_view n = \<lparr>vw_free = [0..<n], vw_avail = [], vw_taken = [], vw_used = []\<rparr>"

lemma init_links:
  fixes ds :: "vring_desc list"
  assumes "m \<le> length ds"
  defines "f \<equiv> \<lambda>i (ds :: vring_desc list). ds[i := (ds ! i)\<lparr>d_next := of_nat (i + 1)\<rparr>]"
  shows "length (fold f [0..<m] ds) = length ds" and "\<forall>i<m. d_next (fold f [0..<m] ds ! i) = of_nat (i + 1)"
proof -
  have len: "length (fold f [0..<m] ds) = length ds" for m
    by (induction m) (simp_all add: f_def)
  show "length (fold f [0..<m] ds) = length ds" by (rule len)
  show "\<forall>i<m. d_next (fold f [0..<m] ds ! i) = of_nat (i + 1)"
    using assms(1)
  proof (induction m)
    case (Suc m)
    then show ?case using len [of m] by (auto simp: f_def less_Suc_eq nth_list_update)
  qed simp
qed

lemma linked_range:
  assumes "\<forall>j. i \<le> j \<and> j + 1 < n \<longrightarrow> d_next (ds ! j) = of_nat (j + 1)" and "d_next (ds ! (n - 1)) = e"
    and "i < n" and "n \<le> length ds" and "n \<le> 65536"
  shows "linked ds (of_nat i) [i..<n] e"
  using assms
proof (induction "n - i" arbitrary: i)
  case (Suc k)
  have u: "unat (of_nat i :: u16) = i" using Suc.prems by (simp add: unat_of_nat)
  show ?case
  proof (cases "Suc i < n")
    case True
    then have "linked ds (of_nat (Suc i)) [Suc i..<n] e" using Suc by (intro Suc(1)) simp_all
    then show ?thesis using True Suc.prems u by (simp add: upt_conv_Cons)
  next
    case False
    then have "n = Suc i" using Suc.prems by simp
    then show ?thesis using Suc.prems u by simp
  qed
qed simp

lemma vq_boot_inv:
  assumes "pow2_size n"
  obtains dv sv r where "vq_boot n features iod ios = Some (dv, sv, r)" and "vq_inv n dv sv r (empty_view n)"
    and "shm_io dv = iod" and "shm_io sv = ios"
proof -
  have n: "0 < n" "n \<le> 32768" using pow2_size_pos [OF assms] by simp_all
  have u: "unat (of_nat n :: u16) = n" using n by (simp add: unat_of_nat)
  define f where "f = (\<lambda>i (ds :: vring_desc list). ds[i := (ds ! i)\<lparr>d_next := of_nat (i + 1)\<rparr>])"
  define ds where "ds = fold f [0..<n - 1] (replicate n zero_desc)"
  have ds: "length ds = n" "\<forall>i<n - 1. d_next (ds ! i) = of_nat (i + 1)"
    using init_links [of "n - 1" "replicate n zero_desc"] by (simp_all add: ds_def f_def)
  define ds' where "ds' = ds[n - 1 := (ds ! (n - 1))\<lparr>d_next := VQ_RING_DESC_CHAIN_END\<rparr>]"
  define dv where "dv = (virtqueue_allocate n)\<lparr>vq_features := features, vq_nentries := of_nat n, vq_free_cnt := of_nat n,
    vq_notify := True, shm_io := iod\<rparr>"
  define sv where "sv = (virtqueue_allocate 0)\<lparr>vq_role := VIRTIO_DEV_SLAVE, vq_features := features, vq_nentries := of_nat n,
    vq_free_cnt := of_nat n, vq_notify := True, shm_io := ios\<rparr>"
  let ?r = "(zero_ring n)\<lparr>vr_desc := ds'\<rparr>"
  have run: "vq_boot n features iod ios = Some (dv, sv, ?r)"
    using n ds(1) u unfolding ds_def f_def
    by (simp add: vq_boot_def virtqueue_create_def vq_ring_init_def virtqueue_set_shmem_io_def Let_def zero_ring_def
        dv_def sv_def ds'_def ds_def f_def virtqueue_allocate_def del: fold_simps)
  have "linked ds' (of_nat 0) [0..<n] VQ_RING_DESC_CHAIN_END"
    using ds n by (intro linked_range) (auto simp: ds'_def nth_list_update)
  then have "vq_inv n dv sv ?r (empty_view n)"
    using assms u ds(1) by (simp add: vq_inv_def sizes_ok_def partitioned_def empty_view_def outstanding_def rings_ok_def seg_def
        dv_def sv_def virtqueue_allocate_def zero_ring_def ds'_def)
  then show thesis by (rule that [OF run]) (simp_all add: dv_def sv_def)
qed

section \<open>Runs of the two sides\<close>

datatype vq_event = Added "virtqueue_buf list" nat u32 | Taken u16 u32 u32 | Given u16 u32 | Got u32 u32

text \<open>The operations of both sides in any order. The driver adds a request when enough
  descriptors are free; the device returns what it holds, kept in the list of the state.\<close>

inductive vq_run :: "virtqueue \<times> virtqueue \<times> vring \<times> u16 list \<Rightarrow> vq_event list \<Rightarrow>
    virtqueue \<times> virtqueue \<times> vring \<times> u16 list \<Rightarrow> bool" for s0 where
  start: "vq_run s0 [] s0"
| add: "vq_run s0 es (dv, sv, r, held) \<Longrightarrow> virtqueue_add_buffer bufs rd wr ck (dv, r) = Some (st, dv', r') \<Longrightarrow>
    0 < rd + wr \<Longrightarrow> rd + wr \<le> unat (vq_free_cnt dv) \<Longrightarrow> length bufs = rd + wr \<Longrightarrow>
    vq_run s0 (es @ [Added bufs rd ck]) (dv', sv, r', held)"
| take: "vq_run s0 es (dv, sv, r, held) \<Longrightarrow> virtqueue_get_available_buffer (sv, r) = Some (Some (i, p, l), sv', r') \<Longrightarrow>
    vq_run s0 (es @ [Taken i p l]) (dv, sv', r', i # held)"
| give: "vq_run s0 es (dv, sv, r, held) \<Longrightarrow> i \<in> set held \<Longrightarrow>
    virtqueue_add_consumed_buffer i l (sv, r) = Some (st, sv', r') \<Longrightarrow>
    vq_run s0 (es @ [Given i l]) (dv, sv', r', remove1 i held)"
| get: "vq_run s0 es (dv, sv, r, held) \<Longrightarrow> virtqueue_get_buffer (dv, r) = Some (Some (ck, l, i), dv', r') \<Longrightarrow>
    vq_run s0 (es @ [Got ck l]) (dv', sv, r', held)"

text \<open>The same events on the queue of requests.\<close>

inductive spec_run :: "metal_io_region \<Rightarrow> metal_io_region \<Rightarrow> view \<Rightarrow> vq_event list \<Rightarrow> view \<Rightarrow> bool" for iod ios V0 where
  start: "spec_run iod ios V0 [] V0"
| add: "spec_run iod ios V0 es V \<Longrightarrow> vw_free V = c @ F \<Longrightarrow> c \<noteq> [] \<Longrightarrow> length bufs = length c \<Longrightarrow>
    spec_run iod ios V0 (es @ [Added bufs rd ck]) (V\<lparr>vw_free := F, vw_avail := vw_avail V @
      [\<lparr>rq_chain = c, rq_bufs = bufs, rq_readable = rd, rq_cookie = ck\<rparr>]\<rparr>)"
| take: "spec_run iod ios V0 es V \<Longrightarrow> vw_avail V = q # A \<Longrightarrow>
    metal_io_phys_to_virt ios (metal_io_virt_to_phys iod (vb_buf (rq_bufs q ! 0))) = Some p \<Longrightarrow>
    spec_run iod ios V0 (es @ [Taken (of_nat (hd (rq_chain q))) p (vb_len (rq_bufs q ! 0))])
      (V\<lparr>vw_avail := A, vw_taken := q # vw_taken V\<rparr>)"
| give: "spec_run iod ios V0 es V \<Longrightarrow> vw_taken V = T1 @ q # T2 \<Longrightarrow>
    spec_run iod ios V0 (es @ [Given (of_nat (hd (rq_chain q))) l])
      (V\<lparr>vw_taken := T1 @ T2, vw_used := vw_used V @ [(q, l)]\<rparr>)"
| get: "spec_run iod ios V0 es V \<Longrightarrow> vw_used V = (q, l) # U \<Longrightarrow>
    spec_run iod ios V0 (es @ [Got (rq_cookie q) l]) (V\<lparr>vw_used := U, vw_free := rq_chain q @ vw_free V\<rparr>)"

definition vq_sim :: "nat \<Rightarrow> metal_io_region \<Rightarrow> metal_io_region \<Rightarrow> virtqueue \<times> virtqueue \<times> vring \<times> u16 list \<Rightarrow> view \<Rightarrow> bool" where
  "vq_sim n iod ios s V \<longleftrightarrow> (case s of (dv, sv, r, held) \<Rightarrow>
     vq_inv n dv sv r V \<and> shm_io dv = iod \<and> shm_io sv = ios \<and> held = map (\<lambda>q. of_nat (hd (rq_chain q))) (vw_taken V))"

lemma remove_held:
  assumes "i \<in> set (map f xs)"
  obtains xs1 q xs2 where "xs = xs1 @ q # xs2" and "f q = i" and "remove1 i (map f xs) = map f (xs1 @ xs2)"
proof -
  obtain q where "q \<in> set xs \<and> f q = i" using assms by auto
  then obtain xs1 q xs2 where sp: "xs = xs1 @ q # xs2" "f q = i" "\<forall>y \<in> set xs1. f y \<noteq> i"
    using split_list_first_prop [of xs "\<lambda>q. f q = i"] by blast
  then have "i \<notin> f ` set xs1" by auto
  then have "remove1 i (map f xs) = map f (xs1 @ xs2)" using sp by (simp add: remove1_append)
  then show thesis by (rule that [OF sp(1,2)])
qed

lemma vq_run_simulated:
  assumes "vq_run s0 es s" and "vq_sim n iod ios s0 V0" and page: "one_page ios"
  shows "\<exists>V. spec_run iod ios V0 es V \<and> vq_sim n iod ios s V"
  using assms(1,2)
proof (induction rule: vq_run.induct)
  case start
  then show ?case using spec_run.start by blast
next
  case (add es dv sv r held bufs rd wr ck st dv' r')
  then obtain V where V: "spec_run iod ios V0 es V" "vq_inv n dv sv r V" "shm_io dv = iod" "shm_io sv = ios"
    "held = map (\<lambda>q. of_nat (hd (rq_chain q))) (vw_taken V)" by (auto simp: vq_sim_def)
  define c F where "c = take (rd + wr) (vw_free V)" and "F = drop (rd + wr) (vw_free V)"
  have "unat (vq_free_cnt dv) = length (vw_free V)" using V(2) by (simp add: vq_inv_def)
  then have c: "vw_free V = c @ F" "c \<noteq> []" "length c = rd + wr" "length bufs = length c"
    using add.hyps(3-5) by (auto simp: c_def F_def)
  obtain dv2 r2 where a: "virtqueue_add_buffer bufs rd wr ck (dv, r) = Some (VQUEUE_SUCCESS, dv2, r2)"
    "vq_inv n dv2 sv r2 (V\<lparr>vw_free := F, vw_avail := vw_avail V @
      [\<lparr>rq_chain = c, rq_bufs = bufs, rq_readable = rd, rq_cookie = ck\<rparr>]\<rparr>)" "shm_io dv2 = shm_io dv"
    by (rule add_buffer_step [OF V(2) c])
  have "dv' = dv2" "r' = r2" using a(1) add.hyps(2) by simp_all
  then have "vq_sim n iod ios (dv', sv, r', held) (V\<lparr>vw_free := F, vw_avail := vw_avail V @
      [\<lparr>rq_chain = c, rq_bufs = bufs, rq_readable = rd, rq_cookie = ck\<rparr>]\<rparr>)"
    using a V by (simp add: vq_sim_def)
  then show ?case using spec_run.add [OF V(1) c(1,2,4)] by blast
next
  case (take es dv sv r held i p l sv' r')
  then obtain V where V: "spec_run iod ios V0 es V" "vq_inv n dv sv r V" "shm_io dv = iod" "shm_io sv = ios"
    "held = map (\<lambda>q. of_nat (hd (rq_chain q))) (vw_taken V)" by (auto simp: vq_sim_def)
  have "vw_avail V \<noteq> []" using take_none [OF V(2)] take.hyps(2) by auto
  then obtain q A where av: "vw_avail V = q # A" by (cases "vw_avail V") auto
  have pg: "one_page (shm_io sv)" using page V(4) by simp
  obtain p2 sv2 where t: "virtqueue_get_available_buffer (sv, r) =
      Some (Some (of_nat (hd (rq_chain q)), p2, vb_len (rq_bufs q ! 0)), sv2, r)"
    "metal_io_phys_to_virt (shm_io sv) (metal_io_virt_to_phys (shm_io dv) (vb_buf (rq_bufs q ! 0))) = Some p2"
    "vq_inv n dv sv2 r (V\<lparr>vw_avail := A, vw_taken := q # vw_taken V\<rparr>)" "shm_io sv2 = shm_io sv"
    by (rule take_step [OF V(2) av pg])
  have eq: "i = of_nat (hd (rq_chain q))" "p = p2" "l = vb_len (rq_bufs q ! 0)" "sv' = sv2" "r' = r"
    using t(1) take.hyps(2) by simp_all
  have "spec_run iod ios V0 (es @ [Taken i p l]) (V\<lparr>vw_avail := A, vw_taken := q # vw_taken V\<rparr>)"
    using spec_run.take [OF V(1) av] t(2) V(3,4) by (simp add: eq)
  moreover have "vq_sim n iod ios (dv, sv', r', i # held) (V\<lparr>vw_avail := A, vw_taken := q # vw_taken V\<rparr>)"
    using t V by (simp add: vq_sim_def eq)
  ultimately show ?case by blast
next
  case (give es dv sv r held i l st sv' r')
  then obtain V where V: "spec_run iod ios V0 es V" "vq_inv n dv sv r V" "shm_io dv = iod" "shm_io sv = ios"
    "held = map (\<lambda>q. of_nat (hd (rq_chain q))) (vw_taken V)" by (auto simp: vq_sim_def)
  obtain T1 q T2 where tk: "vw_taken V = T1 @ q # T2" "of_nat (hd (rq_chain q)) = i"
    "remove1 i held = map (\<lambda>q. of_nat (hd (rq_chain q))) (T1 @ T2)"
    using remove_held [of i "\<lambda>q. of_nat (hd (rq_chain q))" "vw_taken V"] give.hyps(2) V(5) by metis
  obtain sv2 r2 where g: "virtqueue_add_consumed_buffer (of_nat (hd (rq_chain q))) l (sv, r) = Some (VQUEUE_SUCCESS, sv2, r2)"
    "vq_inv n dv sv2 r2 (V\<lparr>vw_taken := T1 @ T2, vw_used := vw_used V @ [(q, l)]\<rparr>)" "shm_io sv2 = shm_io sv"
    by (rule give_step [OF V(2) tk(1)])
  have "sv' = sv2" "r' = r2" using g(1) give.hyps(3) tk(2) by simp_all
  then have "vq_sim n iod ios (dv, sv', r', remove1 i held) (V\<lparr>vw_taken := T1 @ T2, vw_used := vw_used V @ [(q, l)]\<rparr>)"
    using g V tk(3) by (simp add: vq_sim_def)
  then show ?case using spec_run.give [OF V(1) tk(1), of l] tk(2) by auto
next
  case (get es dv sv r held ck l i dv' r')
  then obtain V where V: "spec_run iod ios V0 es V" "vq_inv n dv sv r V" "shm_io dv = iod" "shm_io sv = ios"
    "held = map (\<lambda>q. of_nat (hd (rq_chain q))) (vw_taken V)" by (auto simp: vq_sim_def)
  have "vw_used V \<noteq> []" using get_none [OF V(2)] get.hyps(2) by auto
  then obtain q l2 U where us: "vw_used V = (q, l2) # U" by (cases "vw_used V") auto
  obtain dv2 r2 i2 where g: "virtqueue_get_buffer (dv, r) = Some (Some (rq_cookie q, l2, i2), dv2, r2)"
    "vq_inv n dv2 sv r2 (V\<lparr>vw_used := U, vw_free := rq_chain q @ vw_free V\<rparr>)" "shm_io dv2 = shm_io dv"
    by (rule get_step [OF V(2) us])
  have eq: "ck = rq_cookie q" "l = l2" "dv' = dv2" "r' = r2" using g(1) get.hyps(2) by simp_all
  have "vq_sim n iod ios (dv', sv, r', held) (V\<lparr>vw_used := U, vw_free := rq_chain q @ vw_free V\<rparr>)"
    using g V by (simp add: vq_sim_def eq)
  then show ?case using spec_run.get [OF V(1) us] eq by blast
qed

lemma boot_run_view:
  assumes "pow2_size n" and "one_page ios" and "vq_boot n features iod ios = Some (dv, sv, r)"
    and "vq_run (dv, sv, r, []) es (dv', sv', r', held)"
  obtains V where "spec_run iod ios (empty_view n) es V" and "vq_inv n dv' sv' r' V" and "shm_io sv' = ios"
    and "held = map (\<lambda>q. of_nat (hd (rq_chain q))) (vw_taken V)"
proof -
  have sim: "vq_sim n iod ios (dv, sv, r, []) (empty_view n)"
    using vq_boot_inv [OF assms(1), of features iod ios] assms(3) by (auto simp: vq_sim_def empty_view_def)
  obtain V where "spec_run iod ios (empty_view n) es V" "vq_sim n iod ios (dv', sv', r', held) V"
    using vq_run_simulated [OF assms(4) sim assms(2)] by (elim exE conjE)
  then show thesis by (intro that) (simp_all add: vq_sim_def)
qed

text \<open>
  C5: refinement. Let both sides create their queues on one ring and then run
  their operations in any order, the driver adding requests no larger than its free count and the
  device returning what it holds. The events are those of a queue of requests: buffers are taken
  in the order they were added, with the address and length they were added with, they come back
  in the order they were returned, with their cookie, and in every state the free list, the
  requests available, held and returned partition the descriptor table.
\<close>

theorem virtqueue_refines:
  assumes "pow2_size n" and "one_page ios" and "vq_boot n features iod ios = Some (dv, sv, r)"
    and "vq_run (dv, sv, r, []) es (dv', sv', r', held)"
  shows "\<exists>V. spec_run iod ios (empty_view n) es V \<and> vq_inv n dv' sv' r' V"
  by (rule boot_run_view [OF assms]) blast

text \<open>
  C23: safety. In every state such a run reaches, no operation leaves the tables of
  the ring: adding within the free count, taking, returning a held buffer and getting all have a
  defined result.
\<close>

theorem virtqueue_safe:
  assumes "pow2_size n" and "one_page ios" and "vq_boot n features iod ios = Some (dv, sv, r)"
    and "vq_run (dv, sv, r, []) es (dv', sv', r', held)"
  shows "(0 < rd + wr \<and> rd + wr \<le> unat (vq_free_cnt dv') \<and> length bufs = rd + wr \<longrightarrow>
      virtqueue_add_buffer bufs rd wr ck (dv', r') \<noteq> None) \<and>
    virtqueue_get_available_buffer (sv', r') \<noteq> None \<and> virtqueue_get_buffer (dv', r') \<noteq> None \<and>
    (\<forall>i \<in> set held. virtqueue_add_consumed_buffer i l (sv', r') \<noteq> None)"
proof -
  obtain V where V: "vq_inv n dv' sv' r' V" "shm_io sv' = ios" "held = map (\<lambda>q. of_nat (hd (rq_chain q))) (vw_taken V)"
    by (rule boot_run_view [OF assms])
  have pg: "one_page (shm_io sv')" using assms(2) V(2) by simp
  have "virtqueue_add_buffer bufs rd wr ck (dv', r') \<noteq> None"
    if h: "0 < rd + wr" "rd + wr \<le> unat (vq_free_cnt dv')" "length bufs = rd + wr"
  proof -
    let ?c = "take (rd + wr) (vw_free V)" and ?F = "drop (rd + wr) (vw_free V)"
    have "unat (vq_free_cnt dv') = length (vw_free V)" using V(1) by (simp add: vq_inv_def)
    then have c: "vw_free V = ?c @ ?F" "?c \<noteq> []" "length ?c = rd + wr" "length bufs = length ?c" using h by auto
    obtain dv2 r2 where "virtqueue_add_buffer bufs rd wr ck (dv', r') = Some (VQUEUE_SUCCESS, dv2, r2)"
      by (rule add_buffer_step [OF V(1) c])
    then show ?thesis by simp
  qed
  moreover have "virtqueue_get_available_buffer (sv', r') \<noteq> None"
  proof (cases "vw_avail V")
    case (Cons q A)
    show ?thesis by (rule take_step [OF V(1) Cons pg]) simp
  qed (simp add: take_none [OF V(1)])
  moreover have "virtqueue_get_buffer (dv', r') \<noteq> None"
  proof (cases "vw_used V")
    case (Cons u U)
    then have "vw_used V = (fst u, snd u) # U" by simp
    then show ?thesis by (rule get_step [OF V(1)]) simp
  qed (simp add: get_none [OF V(1)])
  moreover have "virtqueue_add_consumed_buffer i l (sv', r') \<noteq> None" if "i \<in> set held" for i
  proof -
    have "i \<in> set (map (\<lambda>q. of_nat (hd (rq_chain q))) (vw_taken V))" using that V(3) by simp
    then obtain T1 q T2 where tk: "vw_taken V = T1 @ q # T2" and i: "of_nat (hd (rq_chain q)) = i"
      by (rule remove_held)
    show ?thesis by (rule give_step [OF V(1) tk, of l]) (simp add: i)
  qed
  ultimately show ?thesis by (intro conjI impI ballI) simp_all
qed

text \<open>A ring of two descriptors: one request is added, and taken by the device.\<close>

definition demo_io :: metal_io_region where
  "demo_io = metal_io_init 0x3E800000 (Some (\<lambda>_. 0x3E800000)) 0x80000 (- 1) 0"

definition demo_buf :: virtqueue_buf where
  "demo_buf = \<lparr>vb_buf = 0x3E801000, vb_len = 512\<rparr>"

lemma demo_io_page: "one_page demo_io"
  by (simp add: demo_io_def metal_io_init_def one_page_def METAL_BAD_VA_def)

lemma pow2_two: "pow2_size 2"
  by (auto simp: pow2_size_def intro: exI [of _ 1])

lemma demo_vq_run:
  obtains dv sv r dv' sv' r' where "vq_boot 2 0 demo_io demo_io = Some (dv, sv, r)"
    and "vq_run (dv, sv, r, []) [Added [demo_buf] 1 7, Taken 0 0x3E801000 512] (dv', sv', r', [0])"
proof -
  obtain dv sv r where b: "vq_boot 2 0 demo_io demo_io = Some (dv, sv, r)" "vq_inv 2 dv sv r (empty_view 2)"
    "shm_io dv = demo_io" "shm_io sv = demo_io" by (rule vq_boot_inv [OF pow2_two])
  have free: "vw_free (empty_view 2) = [0] @ [1]" by (simp add: empty_view_def numeral_2_eq_2)
  obtain dv1 r1 where a: "virtqueue_add_buffer [demo_buf] 1 0 7 (dv, r) = Some (VQUEUE_SUCCESS, dv1, r1)"
    "vq_inv 2 dv1 sv r1 ((empty_view 2)\<lparr>vw_free := [1], vw_avail := vw_avail (empty_view 2) @
      [\<lparr>rq_chain = [0], rq_bufs = [demo_buf], rq_readable = 1, rq_cookie = 7\<rparr>]\<rparr>)" "shm_io dv1 = shm_io dv"
    by (rule add_buffer_step [OF b(2) free, of 1 0 "[demo_buf]" 7]) simp_all
  have fc: "unat (vq_free_cnt dv) = 2" using b(2) by (simp add: vq_inv_def empty_view_def)
  have r1: "vq_run (dv, sv, r, []) ([] @ [Added [demo_buf] 1 7]) (dv1, sv, r1, [])"
    by (rule vq_run.add [OF vq_run.start a(1)]) (simp_all add: fc)
  have pg: "one_page (shm_io sv)" using b(4) demo_io_page by simp
  obtain p sv2 where t: "virtqueue_get_available_buffer (sv, r1) = Some (Some (0, p, vb_len demo_buf), sv2, r1)"
    "metal_io_phys_to_virt (shm_io sv) (metal_io_virt_to_phys (shm_io dv1) (vb_buf demo_buf)) = Some p"
    by (rule take_step [OF a(2), of "\<lparr>rq_chain = [0], rq_bufs = [demo_buf], rq_readable = 1, rq_cookie = 7\<rparr>" "[]", OF _ pg])
      (simp_all add: empty_view_def)
  have "metal_io_phys_to_virt demo_io (metal_io_virt_to_phys demo_io 0x3E801000) = Some 0x3E801000"
    by (rule phys_to_virt_roundtrip [OF demo_io_page]) (simp add: demo_io_def metal_io_init_def)
  then have "p = 0x3E801000" using t(2) a(3) b(3,4) by (simp add: demo_buf_def)
  then have "vq_run (dv, sv, r, []) (([] @ [Added [demo_buf] 1 7]) @ [Taken 0 0x3E801000 512]) (dv1, sv2, r1, [0])"
    using vq_run.take [OF r1, of "of_nat 0" "0x3E801000" 512 sv2 r1] t(1) by (simp add: demo_buf_def)
  then show thesis using b(1) by (intro that) simp_all
qed

theorem virtqueue_refines_witness:
  "\<exists>V. spec_run demo_io demo_io (empty_view 2) [Added [demo_buf] 1 7, Taken 0 0x3E801000 512] V"
  using virtqueue_refines [OF pow2_two demo_io_page] demo_vq_run by metis

theorem virtqueue_safe_witness:
  "\<exists>dv sv r. virtqueue_add_consumed_buffer 0 512 (sv, r) \<noteq> None \<and> virtqueue_get_buffer (dv, r) \<noteq> None"
proof -
  obtain dv sv r dv' sv' r' where b: "vq_boot 2 0 demo_io demo_io = Some (dv, sv, r)"
    and run: "vq_run (dv, sv, r, []) [Added [demo_buf] 1 7, Taken 0 0x3E801000 512] (dv', sv', r', [0])" by (rule demo_vq_run)
  have "virtqueue_add_consumed_buffer 0 512 (sv', r') \<noteq> None \<and> virtqueue_get_buffer (dv', r') \<noteq> None"
    using virtqueue_safe [OF pow2_two demo_io_page b run, of 0 0 "[]" 0 512] by simp
  then show ?thesis by blast
qed

section \<open>Notifications\<close>

text \<open>An event is due exactly when the event index lies among the entries just produced.\<close>

lemma need_event_iff: "vring_need_event e new old \<longleftrightarrow> unat (e - old) < unat (new - old)"
proof -
  define x d where "x = e - old" and "d = new - old"
  have e: "new - e - 1 = d - x - 1" by (simp add: x_def d_def)
  have "d - x - 1 < d \<longleftrightarrow> x < d"
  proof (cases "x < d")
    case True
    then have "unat (d - x - 1) = unat d - unat x - 1" by (simp add: unat_sub word_less_nat_alt unat_sub_if')
    then show ?thesis using True by (simp add: word_less_nat_alt)
  next
    case False
    then have le: "unat d \<le> unat x" by (simp add: word_less_nat_alt)
    have "unat x < 2 ^ 16" using unsigned_less [of x] by simp
    then have "unat d \<le> unat (d - x - 1)" using le by (auto simp: unat_sub_if' unat_word_ariths)
    then show ?thesis using False by (simp add: word_less_nat_alt)
  qed
  then show ?thesis unfolding vring_need_event_def e by (simp add: x_def d_def word_less_nat_alt)
qed

lemma flag_cleared: "(x AND NOT f) AND (f :: u16) = 0"
  by (rule bit_word_eqI) (auto simp: bit_simps)

lemma nothing_new: "\<not> 0 < a - (b :: u16) \<longleftrightarrow> a = b"
  by (simp add: word_neq_0_conv [symmetric])

lemma add_buffer_effect:
  assumes "virtqueue_add_buffer bufs rd wr ck (dv, r) = Some (st, dv', r')"
  shows "avail_idx r' = avail_idx r + 1" and "vq_queued_cnt dv' = vq_queued_cnt dv + 1" and "vq_role dv' = vq_role dv"
    and "vq_features dv' = vq_features dv" and "vq_notify dv' = vq_notify dv" and "avail_event r' = avail_event r"
    and "used_flags r' = used_flags r"
  using assms
  by (auto simp: virtqueue_add_buffer_def vq_ring_update_avail_def Let_def bind_eq_Some_conv split: if_splits)

text \<open>The device returns several buffers before it notifies, as the receive callback does.\<close>

fun return_all :: "(u16 \<times> u32) list \<Rightarrow> virtqueue \<times> vring \<Rightarrow> (virtqueue \<times> vring) option" where
  "return_all [] s = Some s"
| "return_all ((i, l) # xs) s = do { (st, s) \<leftarrow> virtqueue_add_consumed_buffer i l s; return_all xs s }"

lemma return_all_effect:
  assumes "return_all xs (sv, r) = Some (sv', r')" and "\<forall>(i, l) \<in> set xs. i \<le> vq_nentries sv"
  shows "used_idx r' = used_idx r + of_nat (length xs) \<and> vq_queued_cnt sv' = vq_queued_cnt sv + of_nat (length xs) \<and>
    vq_role sv' = vq_role sv \<and> vq_features sv' = vq_features sv \<and> vq_notify sv' = vq_notify sv \<and>
    used_event r' = used_event r \<and> avail_flags r' = avail_flags r"
  using assms
proof (induction xs arbitrary: sv r)
  case (Cons x xs)
  obtain i l where x: "x = (i, l)" by fastforce
  let ?u = "unat (used_idx r AND (vq_nentries sv - 1))"
  have c: "virtqueue_add_consumed_buffer i l (sv, r) = Some (VQUEUE_SUCCESS, sv\<lparr>vq_queued_cnt := vq_queued_cnt sv + 1\<rparr>,
      r\<lparr>used_ring := (used_ring r)[?u := (ucast i, l)], used_idx := used_idx r + 1\<rparr>)"
    using Cons.prems by (auto simp: x virtqueue_add_consumed_buffer_def Let_def bind_eq_Some_conv split: if_splits)
  show ?case
    using Cons.IH [of "sv\<lparr>vq_queued_cnt := vq_queued_cnt sv + 1\<rparr>"
        "r\<lparr>used_ring := (used_ring r)[?u := (ucast i, l)], used_idx := used_idx r + 1\<rparr>"] Cons.prems
    by (simp add: x c add.assoc)
qed simp

text \<open>
  C24: notifications. With or without event indices, once one side has enabled its
  callback and found nothing pending, the next production of the other side is notified: a driver
  that adds a request and kicks, and a device that returns any number of buffers and kicks, call
  the notify function.
\<close>

theorem no_lost_wakeup:
  assumes "vq_role dv = VIRTIO_DEV_MASTER" and "vq_role sv = VIRTIO_DEV_SLAVE" and "vq_features dv = vq_features sv"
    and "vq_notify dv" and "vq_notify sv" and "vq_queued_cnt dv = 0" and "vq_queued_cnt sv = 0"
  shows "(virtqueue_enable_cb (sv, r) = (False, sv1, r1) \<and> virtqueue_add_buffer bufs rd wr ck (dv, r1) = Some (st, dv2, r2) \<longrightarrow>
      fst (virtqueue_kick (dv2, r2))) \<and>
    (virtqueue_enable_cb (dv, r) = (False, dv1, r1) \<and> return_all xs (sv, r1) = Some (sv2, r2) \<and>
      (\<forall>(i, l) \<in> set xs. i \<le> vq_nentries sv) \<and> xs \<noteq> [] \<and> length xs \<le> 32768 \<longrightarrow> fst (virtqueue_kick (sv2, r2)))"
proof (intro conjI impI; elim conjE)
  assume en: "virtqueue_enable_cb (sv, r) = (False, sv1, r1)"
    and add: "virtqueue_add_buffer bufs rd wr ck (dv, r1) = Some (st, dv2, r2)"
  note a = add_buffer_effect [OF add]
  have "avail_idx r1 = vq_available_idx sv" "event_idx_on sv \<Longrightarrow> avail_event r1 = vq_available_idx sv"
    "\<not> event_idx_on sv \<Longrightarrow> used_flags r1 AND VRING_USED_F_NO_NOTIFY = 0"
    using en assms(2)
    by (auto simp: virtqueue_enable_cb_def vq_ring_enable_interrupt_def virtqueue_navail_def Let_def flag_cleared nothing_new
        split: if_splits)
  moreover have "event_idx_on dv2 = event_idx_on sv" using a(4) assms(3) by (simp add: event_idx_on_def)
  ultimately show "fst (virtqueue_kick (dv2, r2))"
    using a assms(1,4,6) by (simp add: virtqueue_kick_def vq_ring_must_notify_def need_event_iff)
next
  assume en: "virtqueue_enable_cb (dv, r) = (False, dv1, r1)" and ret: "return_all xs (sv, r1) = Some (sv2, r2)"
    and ok: "\<forall>(i, l) \<in> set xs. i \<le> vq_nentries sv" and len: "xs \<noteq> []" "length xs \<le> 32768"
  note a = return_all_effect [OF ret ok]
  have "used_idx r1 = vq_used_cons_idx dv" "event_idx_on dv \<Longrightarrow> used_event r1 = vq_used_cons_idx dv"
    "\<not> event_idx_on dv \<Longrightarrow> avail_flags r1 AND VRING_AVAIL_F_NO_INTERRUPT = 0"
    using en assms(1)
    by (auto simp: virtqueue_enable_cb_def vq_ring_enable_interrupt_def virtqueue_nused_def Let_def flag_cleared nothing_new
        split: if_splits)
  moreover have "event_idx_on sv2 = event_idx_on dv" using a assms(3) by (simp add: event_idx_on_def)
  moreover have "0 < unat (of_nat (length xs) :: u16)" using len by (simp add: unat_of_nat)
  ultimately show "fst (virtqueue_kick (sv2, r2))"
    using a assms(2,5,7) by (simp add: virtqueue_kick_def vq_ring_must_notify_def need_event_iff)
qed

definition demo_driver :: virtqueue where
  "demo_driver = (virtqueue_allocate 2)\<lparr>vq_features := VIRTIO_RING_F_EVENT_IDX, vq_nentries := 2, vq_free_cnt := 2, vq_notify := True,
     shm_io := demo_io\<rparr>"

definition demo_device :: virtqueue where
  "demo_device = demo_driver\<lparr>vq_role := VIRTIO_DEV_SLAVE\<rparr>"

theorem no_lost_wakeup_witness:
  "\<exists>r1 sv2 r2. virtqueue_enable_cb (demo_driver, zero_ring 2) = (False, demo_driver, r1) \<and>
     return_all [(0, 512), (1, 512)] (demo_device, r1) = Some (sv2, r2) \<and> fst (virtqueue_kick (sv2, r2))"
proof -
  have roles: "vq_role demo_driver = VIRTIO_DEV_MASTER" "vq_role demo_device = VIRTIO_DEV_SLAVE"
    "vq_features demo_driver = vq_features demo_device" "vq_notify demo_driver" "vq_notify demo_device"
    "vq_queued_cnt demo_driver = 0" "vq_queued_cnt demo_device = 0"
    by (simp_all add: demo_device_def demo_driver_def virtqueue_allocate_def)
  define r1 where "r1 = snd (snd (virtqueue_enable_cb (demo_driver, zero_ring 2)))"
  have en: "virtqueue_enable_cb (demo_driver, zero_ring 2) = (False, demo_driver, r1)"
    unfolding r1_def by (simp add: virtqueue_enable_cb_def vq_ring_enable_interrupt_def virtqueue_nused_def Let_def
        demo_driver_def virtqueue_allocate_def zero_ring_def)
  obtain sv2 r2 where ret: "return_all [(0, 512), (1, 512)] (demo_device, r1) = Some (sv2, r2)"
    by (simp add: r1_def virtqueue_enable_cb_def vq_ring_enable_interrupt_def Let_def virtqueue_add_consumed_buffer_def
        demo_device_def demo_driver_def virtqueue_allocate_def zero_ring_def)
  have "\<forall>(i, l) \<in> set [(0, 512), (1, 512 :: u32)]. i \<le> vq_nentries demo_device"
    by (simp add: demo_device_def demo_driver_def)
  then have "fst (virtqueue_kick (sv2, r2))"
    using no_lost_wakeup [OF roles, of "zero_ring 2" demo_device r1 "[]" 0 0 0 0 demo_driver r2 demo_driver
        "[(0, 512), (1, 512)]" sv2] en ret by simp
  then show ?thesis using en ret by blast
qed

section \<open>Memory layout\<close>

lemma unat_align:
  assumes "k < 32"
  shows "unat (push_bit k 1 :: u32) = 2 ^ k"
proof -
  have "(push_bit k 1 :: u32) = of_nat (2 ^ k)" by (simp add: push_bit_eq_mult)
  moreover have "(2 :: nat) ^ k < 2 ^ 32" using assms by (intro power_strict_increasing) simp_all
  ultimately show ?thesis by (simp only: unat_of_nat len_num1 len_bit0) simp
qed

lemma clear_low_bits:
  fixes x :: u32
  assumes "k < 32"
  shows "unat (x AND NOT (push_bit k 1 - 1)) = unat x div 2 ^ k * 2 ^ k"
proof -
  have "x AND NOT (push_bit k 1 - 1) = x AND NOT (mask k)" using assms by (simp add: mask_eq_exp_minus_1 push_bit_eq_mult)
  also have "\<dots> = push_bit k (drop_bit k x)"
    by (rule bit_word_eqI) (auto simp: bit_simps)
  also have "\<dots> = x div push_bit k 1 * push_bit k 1" by (simp add: push_bit_eq_mult drop_bit_eq_div)
  finally have e: "x AND NOT (push_bit k 1 - 1) = x div push_bit k 1 * push_bit k 1" .
  have "unat x div 2 ^ k * 2 ^ k \<le> unat x" by simp
  also have "unat x < 2 ^ 32" using unsigned_less [of x] by simp
  finally have b: "unat x div 2 ^ k * 2 ^ k < 2 ^ 32" .
  have "unat (x div push_bit k 1 * push_bit k 1) = unat x div 2 ^ k * 2 ^ k mod 2 ^ 32"
    by (simp only: unat_word_ariths unat_div unat_align [OF assms] len_num1 len_bit0) (simp add: mod_mult_left_eq)
  then show ?thesis unfolding e using b by simp
qed

text \<open>
  Layout. For a power-of-two alignment and an aligned base, the descriptor table,
  the available ring (with its event field) and the used ring (with its event field) lie one
  after the other without overlap, the used ring is aligned, and together they fill exactly the
  \<open>vring_size\<close> bytes from the base.
\<close>

lemma vring_layout:
  assumes "k \<le> 15" and "num \<le> 32768" and "unat p mod 2 ^ k = 0"
    and "unat p + unat (vring_size num (push_bit k 1)) + 2 ^ k \<le> 2 ^ 32"
  shows "\<exists>a u. vring_init num p (push_bit k 1) = (p, a, u) \<and> unat a = unat p + 16 * unat num \<and>
    unat a + 6 + 2 * unat num \<le> unat u \<and> unat u mod 2 ^ k = 0 \<and>
    unat u + 6 + 8 * unat num = unat p + unat (vring_size num (push_bit k 1))"
proof -
  define A where "A = (2 :: nat) ^ k"
  define S where "S = 18 * unat num + 6"
  let ?al = "push_bit k 1 :: u32"
  have n: "unat num \<le> 32768" using assms(2) by (simp add: word_le_nat_alt)
  have A: "0 < A" "A \<le> 32768" "unat ?al = A"
    using assms(1) power_increasing [of k 15 "2 :: nat"] unat_align [of k] by (simp_all add: A_def)
  have k: "k < 32" using assms(1) by simp
  obtain m where m: "unat p = A * m" using assms(3) by (auto simp: A_def)
  have s0: "unat (num * 16 + (4 + num * 2 + 2) + ?al - 1) = S + A - 1"
    using n A by (simp add: unat_word_ariths S_def unat_sub_if' A(3))
  define R where "R = (S + A - 1) div A * A"
  have "R = S + A - 1 - (S + A - 1) mod A" by (simp add: R_def minus_mod_eq_div_mult)
  moreover have "(S + A - 1) mod A < A" using A(1) by simp
  ultimately have R: "S \<le> R" "R < S + A" using A(1) by linarith+
  have sz: "unat (vring_size num ?al) = R + (6 + 8 * unat num)"
  proof -
    have "unat (num * 16 + (4 + num * 2 + 2) + ?al - 1 AND NOT (?al - 1)) = R"
      using clear_low_bits [OF k] s0 by (simp only: R_def A_def)
    moreover have "unat (4 + num * 8 + 2) = 6 + 8 * unat num" using n by (simp add: unat_word_ariths)
    moreover have "R + (6 + 8 * unat num) < 2 ^ 32" using R n A by (simp add: S_def)
    ultimately show ?thesis unfolding vring_size_def Let_def by (subst unat_word_ariths(1)) simp
  qed
  let ?x = "p + num * 16 + 4 + num * 2 + 2 + ?al - 1"
  have fit: "unat p + R + (6 + 8 * unat num) + A \<le> 2 ^ 32" using assms(4) sz by (simp add: A_def)
  then have a: "unat (p + num * 16) = unat p + 16 * unat num" using R n by (simp add: unat_word_ariths S_def)
  have x: "unat ?x = unat p + (S + A - 1)"
  proof -
    have "?x = p + (num * 16 + (4 + num * 2 + 2) + ?al - 1)" by (simp add: algebra_simps)
    moreover have "unat p + (S + A - 1) < 2 ^ 32" using fit R A(1) by simp
    ultimately show ?thesis using s0 by (simp only: unat_word_ariths(1)) simp
  qed
  have "unat (?x AND NOT (?al - 1)) = (A * m + (S + A - 1)) div A * A"
    using clear_low_bits [OF k, of ?x] x m by (simp only: A_def)
  also have "(A * m + y) div A * A = A * m + y div A * A" for y using A(1) by (simp add: add_mult_distrib)
  then have "(A * m + (S + A - 1)) div A * A = A * m + R" by (simp only: R_def)
  finally have u: "unat (?x AND NOT (?al - 1)) = unat p + R" using m by simp
  have "(unat p + R) mod A = 0" using m by (simp add: R_def)
  then show ?thesis
    unfolding vring_init_def Let_def using a u R sz
    by (intro exI conjI) (rule refl, simp_all add: A_def S_def)
qed

text \<open>The rings of the resource table: 256 descriptors, aligned to a page.\<close>

lemma vring_layout_witness:
  "\<exists>a u. vring_init 256 0x3E800000 0x1000 = (0x3E800000, a, u) \<and> unat a = 0x3E801000 \<and>
     518 + unat a \<le> unat u \<and> unat u mod 4096 = 0 \<and> unat u + 2054 = 0x3E802806"
proof -
  have "(push_bit 12 1 :: u32) = 0x1000" and "vring_size 256 0x1000 = 10246"
    by (simp_all add: vring_size_def Let_def)
  then show ?thesis using vring_layout [of 12 256 "0x3E800000"] by simp
qed

end
