(* ===== verification/Rpmsg.thy ===== *)
theory Rpmsg
  imports Byte_Memory "HOL-Library.Monad_Syntax"
begin

text \<open>
  The RPMsg endpoint layer (\<open>lib/rpmsg/rpmsg.c\<close>, \<open>rpmsg.h\<close>): addresses are allocated from a bit
  map, endpoints are kept in a list in the order of their registration, and name-service messages
  announce them to the other side. Endpoints are objects of the program, named by a number; the
  operation \<open>send_offchannel_raw\<close> of the device is a parameter that acts on the device state
  \<open>'t\<close>. A read or write through a null or dangling pointer is the value \<open>None\<close>.
\<close>

section \<open>Data\<close>

definition RPMSG_NAME_SIZE :: nat where "RPMSG_NAME_SIZE = 32"
definition RPMSG_ADDR_BMP_SIZE :: nat where "RPMSG_ADDR_BMP_SIZE = 128"
definition RPMSG_NS_EPT_ADDR :: u32 where "RPMSG_NS_EPT_ADDR = 0x35"
definition RPMSG_ADDR_ANY :: u32 where "RPMSG_ADDR_ANY = 0xFFFFFFFF"
definition RPMSG_SUCCESS :: int where "RPMSG_SUCCESS = 0"
definition RPMSG_ERR_NO_BUFF :: int where "RPMSG_ERR_NO_BUFF = - 2002"
definition RPMSG_ERR_PARAM :: int where "RPMSG_ERR_PARAM = - 2003"
definition RPMSG_ERR_DEV_STATE :: int where "RPMSG_ERR_DEV_STATE = - 2004"
definition RPMSG_ERR_BUFF_SIZE :: int where "RPMSG_ERR_BUFF_SIZE = - 2005"
definition RPMSG_ERR_ADDR :: int where "RPMSG_ERR_ADDR = - 2007"
definition RPMSG_NS_CREATE :: u32 where "RPMSG_NS_CREATE = 0"
definition RPMSG_NS_DESTROY :: u32 where "RPMSG_NS_DESTROY = 1"

text \<open>\<open>ept_rdev\<close> tells that the device pointer is set, \<open>ept_node\<close> that the list node has been
  linked once.\<close>

record 'c rpmsg_endpoint =
  ept_name :: bytes
  ept_rdev :: bool
  ept_addr :: u32
  ept_dest :: u32
  ept_cb :: "'c option"
  ept_node :: bool

record ('c, 't) rpmsg_device =
  epts :: "nat \<Rightarrow> 'c rpmsg_endpoint"
  endpoints :: "nat list"
  bitmap :: "u32 list"
  support_ns :: bool
  dev :: 't

type_synonym 't send_op = "u32 \<Rightarrow> u32 \<Rightarrow> bytes \<Rightarrow> bool \<Rightarrow> 't \<Rightarrow> (int \<times> 't) option"

section \<open>Bit maps\<close>

definition metal_bitmap_is_bit_set :: "u32 list \<Rightarrow> nat \<Rightarrow> bool option" where
  "metal_bitmap_is_bit_set bm b =
    (if b div 32 < length bm then Some (bm ! (b div 32) AND push_bit (b mod 32) 1 \<noteq> 0) else None)"

definition metal_bitmap_set_bit :: "u32 list \<Rightarrow> nat \<Rightarrow> u32 list option" where
  "metal_bitmap_set_bit bm b =
    (if b div 32 < length bm then Some (bm[b div 32 := bm ! (b div 32) OR push_bit (b mod 32) 1]) else None)"

definition metal_bitmap_clear_bit :: "u32 list \<Rightarrow> nat \<Rightarrow> u32 list option" where
  "metal_bitmap_clear_bit bm b =
    (if b div 32 < length bm then Some (bm[b div 32 := bm ! (b div 32) AND NOT (push_bit (b mod 32) 1)]) else None)"

function metal_bitmap_next_clear_bit :: "u32 list \<Rightarrow> nat \<Rightarrow> nat \<Rightarrow> nat option" where
  "metal_bitmap_next_clear_bit bm b m =
    (if b < m then
       (case metal_bitmap_is_bit_set bm b of
          None \<Rightarrow> None
        | Some s \<Rightarrow> if s then metal_bitmap_next_clear_bit bm (b + 1) m else Some b)
     else Some b)"
  by pat_completeness auto
termination by (relation "measure (\<lambda>(bm, b, m). m - b)") auto

declare metal_bitmap_next_clear_bit.simps [simp del]

section \<open>Addresses\<close>

definition rpmsg_get_address :: "u32 list \<Rightarrow> nat \<Rightarrow> (u32 \<times> u32 list) option" where
  "rpmsg_get_address bm sz = do {
     nextbit \<leftarrow> metal_bitmap_next_clear_bit bm 0 sz;
     if nextbit < sz then do { bm \<leftarrow> metal_bitmap_set_bit bm nextbit; Some (of_nat nextbit, bm) }
     else Some (RPMSG_ADDR_ANY, bm) }"

text \<open>The three functions take the address as an \<open>int\<close>: an address from \<open>2^31\<close> on is negative,
  passes the size test and indexes outside the map.\<close>

definition rpmsg_release_address :: "u32 list \<Rightarrow> nat \<Rightarrow> u32 \<Rightarrow> u32 list option" where
  "rpmsg_release_address bm sz a = (if sint a < int sz then metal_bitmap_clear_bit bm (unat a) else Some bm)"

definition rpmsg_is_address_set :: "u32 list \<Rightarrow> nat \<Rightarrow> u32 \<Rightarrow> int option" where
  "rpmsg_is_address_set bm sz a =
    (if sint a < int sz then map_option (\<lambda>s. if s then 1 else 0) (metal_bitmap_is_bit_set bm (unat a))
     else Some RPMSG_ERR_PARAM)"

definition rpmsg_set_address :: "u32 list \<Rightarrow> nat \<Rightarrow> u32 \<Rightarrow> (int \<times> u32 list) option" where
  "rpmsg_set_address bm sz a =
    (if sint a < int sz then map_option (Pair RPMSG_SUCCESS) (metal_bitmap_set_bit bm (unat a))
     else Some (RPMSG_ERR_PARAM, bm))"

section \<open>Sending\<close>

definition rpmsg_send_offchannel_raw ::
  "'t send_op \<Rightarrow> nat \<Rightarrow> u32 \<Rightarrow> u32 \<Rightarrow> bytes \<Rightarrow> bool \<Rightarrow> ('c, 't) rpmsg_device \<Rightarrow> (int \<times> ('c, 't) rpmsg_device) option" where
  "rpmsg_send_offchannel_raw send e src dst data wait d =
    (if \<not> ept_rdev (epts d e) \<or> dst = RPMSG_ADDR_ANY then Some (RPMSG_ERR_PARAM, d)
     else map_option (\<lambda>(n, t). (n, d\<lparr>dev := t\<rparr>)) (send src dst data wait (dev d)))"

definition rpmsg_send :: "'t send_op \<Rightarrow> nat \<Rightarrow> bytes \<Rightarrow> ('c, 't) rpmsg_device \<Rightarrow> (int \<times> ('c, 't) rpmsg_device) option" where
  "rpmsg_send send e data d =
    (if ept_dest (epts d e) = RPMSG_ADDR_ANY then Some (RPMSG_ERR_ADDR, d)
     else rpmsg_send_offchannel_raw send e (ept_addr (epts d e)) (ept_dest (epts d e)) data True d)"

text \<open>\<open>strncpy\<close> into a name field, and its comparison by \<open>strncmp\<close>.\<close>

definition name_field :: "bytes \<Rightarrow> bytes" where
  "name_field s = (let s = takeWhile (\<lambda>b. b \<noteq> 0) s in take RPMSG_NAME_SIZE (s @ replicate RPMSG_NAME_SIZE 0))"

definition same_name :: "bytes \<Rightarrow> bytes \<Rightarrow> bool" where
  "same_name a b \<longleftrightarrow> takeWhile (\<lambda>x. x \<noteq> 0) (take RPMSG_NAME_SIZE a) = takeWhile (\<lambda>x. x \<noteq> 0) (take RPMSG_NAME_SIZE b)"

definition enc_ns_msg :: "bytes \<Rightarrow> u32 \<Rightarrow> u32 \<Rightarrow> bytes" where
  "enc_ns_msg name a fl = name_field name @ le_bytes 4 a @ le_bytes 4 fl"

definition rpmsg_send_ns_message ::
  "'t send_op \<Rightarrow> nat \<Rightarrow> u32 \<Rightarrow> ('c, 't) rpmsg_device \<Rightarrow> (int \<times> ('c, 't) rpmsg_device) option" where
  "rpmsg_send_ns_message send e fl d = do {
     (ret, d) \<leftarrow> rpmsg_send_offchannel_raw send e (ept_addr (epts d e)) RPMSG_NS_EPT_ADDR
       (enc_ns_msg (ept_name (epts d e)) (ept_addr (epts d e)) fl) True d;
     Some (if ret < 0 then ret else RPMSG_SUCCESS, d) }"

section \<open>Endpoints\<close>

text \<open>The search of the endpoint list; a name of \<open>None\<close> is a null pointer.\<close>

definition ept_matches :: "bytes option \<Rightarrow> u32 \<Rightarrow> u32 \<Rightarrow> 'c rpmsg_endpoint \<Rightarrow> bool" where
  "ept_matches name a dest ept \<longleftrightarrow>
     (a \<noteq> RPMSG_ADDR_ANY \<and> ept_addr ept = a) \<or> (a = ept_addr ept \<and> dest = ept_dest ept) \<or>
     (case name of None \<Rightarrow> False
      | Some nm \<Rightarrow> same_name (ept_name ept) nm \<and>
          ((dest \<noteq> RPMSG_ADDR_ANY \<and> ept_dest ept = dest) \<or> (a = RPMSG_ADDR_ANY \<and> ept_dest ept = RPMSG_ADDR_ANY)))"

definition rpmsg_get_endpoint :: "bytes option \<Rightarrow> u32 \<Rightarrow> u32 \<Rightarrow> ('c, 't) rpmsg_device \<Rightarrow> nat option" where
  "rpmsg_get_endpoint name a dest d = List.find (\<lambda>e. ept_matches name a dest (epts d e)) (endpoints d)"

definition rpmsg_get_ept_from_addr :: "u32 \<Rightarrow> ('c, 't) rpmsg_device \<Rightarrow> nat option" where
  "rpmsg_get_ept_from_addr a d = rpmsg_get_endpoint None a RPMSG_ADDR_ANY d"

definition rpmsg_unregister_endpoint :: "nat \<Rightarrow> ('c, 't) rpmsg_device \<Rightarrow> ('c, 't) rpmsg_device option" where
  "rpmsg_unregister_endpoint e d =
    (let ept = epts d e
     in if \<not> ept_rdev ept \<or> \<not> ept_node ept then None
        else do {
          bm \<leftarrow> (if ept_addr ept \<noteq> RPMSG_ADDR_ANY then rpmsg_release_address (bitmap d) RPMSG_ADDR_BMP_SIZE (ept_addr ept)
                 else Some (bitmap d));
          Some (d\<lparr>bitmap := bm, endpoints := remove1 e (endpoints d)\<rparr>) })"

definition rpmsg_register_endpoint :: "nat \<Rightarrow> ('c, 't) rpmsg_device \<Rightarrow> ('c, 't) rpmsg_device" where
  "rpmsg_register_endpoint e d = d\<lparr>epts := (epts d)(e := (epts d e)\<lparr>ept_rdev := True, ept_node := True\<rparr>),
     endpoints := endpoints d @ [e]\<rparr>"

definition rpmsg_init_ept :: "nat \<Rightarrow> bytes \<Rightarrow> u32 \<Rightarrow> u32 \<Rightarrow> 'c option \<Rightarrow> ('c, 't) rpmsg_device \<Rightarrow> ('c, 't) rpmsg_device" where
  "rpmsg_init_ept e name src dest cb d = d\<lparr>epts := (epts d)(e := (epts d e)\<lparr>ept_name := name_field name, ept_addr := src,
     ept_dest := dest, ept_cb := cb\<rparr>)\<rparr>"

text \<open>The part of \<open>rpmsg_create_ept\<close> once the address is decided.\<close>

definition add_ept ::
  "'t send_op \<Rightarrow> nat \<Rightarrow> bytes \<Rightarrow> u32 \<Rightarrow> u32 \<Rightarrow> 'c option \<Rightarrow> ('c, 't) rpmsg_device \<Rightarrow> (int \<times> ('c, 't) rpmsg_device) option" where
  "add_ept send e name a dest cb d =
    (let d = rpmsg_register_endpoint e (rpmsg_init_ept e name a dest cb d)
     in if support_ns d \<and> dest = RPMSG_ADDR_ANY
        then do {
          (status, d) \<leftarrow> rpmsg_send_ns_message send e RPMSG_NS_CREATE d;
          d \<leftarrow> (if status \<noteq> 0 then rpmsg_unregister_endpoint e d else Some d);
          Some (status, d) }
        else Some (RPMSG_SUCCESS, d))"

definition rpmsg_create_ept ::
  "'t send_op \<Rightarrow> nat \<Rightarrow> bytes \<Rightarrow> u32 \<Rightarrow> u32 \<Rightarrow> 'c option \<Rightarrow> ('c, 't) rpmsg_device \<Rightarrow> (int \<times> ('c, 't) rpmsg_device) option" where
  "rpmsg_create_ept send e name src dest cb d =
    (if src \<noteq> RPMSG_ADDR_ANY
     then do {
       status \<leftarrow> rpmsg_is_address_set (bitmap d) RPMSG_ADDR_BMP_SIZE src;
       if status = 0
       then do {
         (_, bm) \<leftarrow> rpmsg_set_address (bitmap d) RPMSG_ADDR_BMP_SIZE src;
         add_ept send e name src dest cb (d\<lparr>bitmap := bm\<rparr>) }
       else Some (if 0 < status then RPMSG_SUCCESS else status, d) }
     else do {
       (a, bm) \<leftarrow> rpmsg_get_address (bitmap d) RPMSG_ADDR_BMP_SIZE;
       add_ept send e name a dest cb (d\<lparr>bitmap := bm\<rparr>) })"

definition rpmsg_destroy_ept :: "'t send_op \<Rightarrow> nat \<Rightarrow> ('c, 't) rpmsg_device \<Rightarrow> ('c, 't) rpmsg_device option" where
  "rpmsg_destroy_ept send e d =
    (if \<not> ept_rdev (epts d e) then None
     else do {
       d \<leftarrow> (if hd (ept_name (epts d e)) \<noteq> 0 \<and> support_ns d \<and> ept_addr (epts d e) \<noteq> RPMSG_NS_EPT_ADDR
             then map_option snd (rpmsg_send_ns_message send e RPMSG_NS_DESTROY d) else Some d);
       rpmsg_unregister_endpoint e d })"

end
