(* ===== verification/Rpmsg_Registry.thy ===== *)
theory Rpmsg_Registry
  imports Rpmsg
begin

text \<open>
  The endpoint registry of RPMsg: addresses in use are marked in the bit map, registered endpoints
  have different addresses, and a message for an address reaches the endpoint that owns it.
\<close>

section \<open>The bit map as a set of addresses\<close>

definition bm_used :: "u32 list \<Rightarrow> nat \<Rightarrow> bool" where
  "bm_used bm b \<longleftrightarrow> bit (bm ! (b div 32)) (b mod 32)"

lemma bm_is_set: "length bm = 4 \<Longrightarrow> b < 128 \<Longrightarrow> metal_bitmap_is_bit_set bm b = Some (bm_used bm b)"
  by (simp add: metal_bitmap_is_bit_set_def bm_used_def less_mult_imp_div_less and_exp_eq_0_iff_not_bit)

lemma single_bit: "n < 32 \<Longrightarrow> bit ((2 :: u32) ^ k) n \<longleftrightarrow> n = k"
  by (auto simp: bit_exp_iff)

lemma bm_index_inj: "b div 32 = c div 32 \<Longrightarrow> b mod 32 = c mod 32 \<longleftrightarrow> b = (c :: nat)"
  by (metis div_mult_mod_eq)

text \<open>A change of one word that changes one bit.\<close>

lemma bm_update:
  assumes "length bm = 4" and "b < 128" and "\<And>n. n < 32 \<Longrightarrow> bit w n \<longleftrightarrow> (if n = b mod 32 then v else bit (bm ! (b div 32)) n)"
  shows "bm_used (bm[b div 32 := w]) c \<longleftrightarrow> (if c = b then v else bm_used bm c)"
proof (cases "c div 32 = b div 32")
  case True
  have "b div 32 < length bm" using assms(1,2) by (simp add: less_mult_imp_div_less)
  then show ?thesis using True assms(3) [of "c mod 32"] bm_index_inj [OF True] by (simp add: bm_used_def)
next
  case False
  then show ?thesis by (auto simp: bm_used_def)
qed

lemma bm_set:
  assumes "length bm = 4" and "b < 128"
  obtains bm' where "metal_bitmap_set_bit bm b = Some bm'" and "length bm' = 4"
    and "\<forall>c<128. bm_used bm' c \<longleftrightarrow> c = b \<or> bm_used bm c"
proof -
  have i: "b div 32 < 4" using assms(2) by (simp add: less_mult_imp_div_less)
  let ?bm = "bm[b div 32 := bm ! (b div 32) OR push_bit (b mod 32) 1]"
  have "bm_used ?bm c \<longleftrightarrow> c = b \<or> bm_used bm c" if "c < 128" for c
    using bm_update [OF assms, of "bm ! (b div 32) OR push_bit (b mod 32) 1" True c] by (auto simp: bit_or_iff single_bit)
  then show thesis using i assms(1) by (intro that [of ?bm]) (simp_all add: metal_bitmap_set_bit_def)
qed

lemma bm_clear:
  assumes "length bm = 4" and "b < 128"
  obtains bm' where "metal_bitmap_clear_bit bm b = Some bm'" and "length bm' = 4"
    and "\<forall>c<128. bm_used bm' c \<longleftrightarrow> c \<noteq> b \<and> bm_used bm c"
proof -
  have i: "b div 32 < 4" using assms(2) by (simp add: less_mult_imp_div_less)
  let ?bm = "bm[b div 32 := bm ! (b div 32) AND NOT (push_bit (b mod 32) 1)]"
  have "bm_used ?bm c \<longleftrightarrow> c \<noteq> b \<and> bm_used bm c" if "c < 128" for c
    using bm_update [OF assms, of "bm ! (b div 32) AND NOT (push_bit (b mod 32) 1)" False c]
    by (auto simp: bit_and_iff bit_not_iff single_bit)
  then show thesis using i assms(1) by (intro that [of ?bm]) (simp_all add: metal_bitmap_clear_bit_def)
qed

lemma bm_next_clear:
  assumes "length bm = 4"
  shows "b \<le> 128 \<Longrightarrow> \<exists>n. metal_bitmap_next_clear_bit bm b 128 = Some n \<and> n \<le> 128 \<and> (n < 128 \<longrightarrow> \<not> bm_used bm n) \<and>
    (\<forall>c. b \<le> c \<and> c < n \<longrightarrow> bm_used bm c)"
proof (induction "128 - b" arbitrary: b)
  case 0
  then show ?case by (subst metal_bitmap_next_clear_bit.simps) auto
next
  case (Suc k)
  then have b: "b < 128" by simp
  show ?case
  proof (cases "bm_used bm b")
    case True
    have "\<exists>n. metal_bitmap_next_clear_bit bm (b + 1) 128 = Some n \<and> n \<le> 128 \<and> (n < 128 \<longrightarrow> \<not> bm_used bm n) \<and>
        (\<forall>c. b + 1 \<le> c \<and> c < n \<longrightarrow> bm_used bm c)"
      using Suc b by (intro Suc(1)) simp_all
    moreover have "metal_bitmap_next_clear_bit bm b 128 = metal_bitmap_next_clear_bit bm (b + 1) 128"
      using True b by (subst metal_bitmap_next_clear_bit.simps) (simp add: bm_is_set [OF assms])
    ultimately show ?thesis using True by (metis Suc_eq_plus1 le_antisym not_less_eq_eq)
  next
    case False
    then have "metal_bitmap_next_clear_bit bm b 128 = Some b"
      using b by (subst metal_bitmap_next_clear_bit.simps) (simp add: bm_is_set [OF assms])
    then show ?thesis using False b by auto
  qed
qed

section \<open>The registry invariant\<close>

text \<open>The name-service endpoint \<open>ns\<close> is registered without marking its address.\<close>

definition rp_inv :: "nat \<Rightarrow> ('c, 't) rpmsg_device \<Rightarrow> bool" where
  "rp_inv ns d \<longleftrightarrow> length (bitmap d) = 4 \<and> distinct (endpoints d) \<and>
     (\<forall>e \<in> set (endpoints d). ept_rdev (epts d e) \<and> ept_node (epts d e)) \<and>
     (ns \<in> set (endpoints d) \<longrightarrow> ept_addr (epts d ns) = RPMSG_NS_EPT_ADDR) \<and>
     (\<forall>e \<in> set (endpoints d) - {ns}. ept_addr (epts d e) \<noteq> RPMSG_ADDR_ANY \<longrightarrow>
        unat (ept_addr (epts d e)) < 128 \<and> bm_used (bitmap d) (unat (ept_addr (epts d e)))) \<and>
     (\<forall>e \<in> set (endpoints d) - {ns}. \<forall>e' \<in> set (endpoints d) - {ns}.
        ept_addr (epts d e) = ept_addr (epts d e') \<and> ept_addr (epts d e) \<noteq> RPMSG_ADDR_ANY \<longrightarrow> e = e')"

lemma sint_small: "unat (a :: u32) < 2 ^ 31 \<Longrightarrow> sint a = int (unat a)"
proof -
  assume "unat a < 2 ^ 31"
  then have "int (unat a) < int (2 ^ 31)" by (simp only: of_nat_less_iff)
  then have "uint a < 2 ^ 31" by simp
  then have t: "take_bit 31 (uint a) = uint a" by (intro take_bit_int_eq_self) simp_all
  then have "\<not> bit (uint a) 31" using bit_take_bit_iff [of 31 "uint a" 31] by simp
  then have "sint a = take_bit 31 (uint a)" by (simp add: sint_uint signed_take_bit_eq_if_positive)
  then show "sint a = int (unat a)" using t by simp
qed

lemma small_address: "unat (a :: u32) < 2 ^ 31 \<Longrightarrow> sint a < 128 \<longleftrightarrow> unat a < 128"
proof -
  assume "unat a < 2 ^ 31"
  moreover have "int (unat a) < int 128 \<longleftrightarrow> unat a < 128" by (rule of_nat_less_iff)
  ultimately show ?thesis by (simp add: sint_small)
qed

lemma rp_inv_dev [simp]: "rp_inv ns (d\<lparr>dev := t\<rparr>) = rp_inv ns d"
  by (simp add: rp_inv_def)

lemma ns_message_keeps:
  assumes "rpmsg_send_ns_message send e fl d = Some (st, d')"
  shows "\<exists>t. d' = d\<lparr>dev := t\<rparr>"
  using assms by (auto simp: rpmsg_send_ns_message_def rpmsg_send_offchannel_raw_def bind_eq_Some_conv split: if_splits)
    (intro exI [of _ "dev d'"], simp)+

lemma lookup_endpoint:
  assumes "rp_inv ns d" and "e \<in> set (endpoints d)" and "e \<noteq> ns" and "ept_addr (epts d e) = a"
    and "a \<noteq> RPMSG_ADDR_ANY" and "a \<noteq> RPMSG_NS_EPT_ADDR"
  shows "rpmsg_get_ept_from_addr a d = Some e"
proof -
  let ?P = "\<lambda>e. ept_matches None a RPMSG_ADDR_ANY (epts d e)"
  have P: "?P x \<longleftrightarrow> ept_addr (epts d x) = a" for x using assms(5) by (auto simp: ept_matches_def)
  obtain x where x: "List.find ?P (endpoints d) = Some x" "x \<in> set (endpoints d)" "ept_addr (epts d x) = a"
  proof (cases "List.find ?P (endpoints d)")
    case None
    then show thesis using assms(2,4) P by (auto simp: find_None_iff)
  next
    case (Some x)
    then have "x \<in> set (endpoints d)" "ept_addr (epts d x) = a" by (auto simp: find_Some_iff P)
    then show thesis using Some by (intro that)
  qed
  have "x \<noteq> ns" using x assms(1,6) by (auto simp: rp_inv_def)
  then have "x = e" using x assms by (auto simp: rp_inv_def)
  then show ?thesis using x(1) by (simp add: rpmsg_get_ept_from_addr_def rpmsg_get_endpoint_def)
qed

lemma register_inv:
  assumes inv: "rp_inv ns d" and e: "e \<notin> set (endpoints d)" "e \<noteq> ns" and bm: "length bm = 4"
    and a: "if a = RPMSG_ADDR_ANY then bm = bitmap d else unat a < 128 \<and> \<not> bm_used (bitmap d) (unat a) \<and>
      (\<forall>c<128. bm_used bm c \<longleftrightarrow> c = unat a \<or> bm_used (bitmap d) c)"
  shows "rp_inv ns (rpmsg_register_endpoint e (rpmsg_init_ept e name a dest cb (d\<lparr>bitmap := bm\<rparr>)))"
proof (cases "a = RPMSG_ADDR_ANY")
  case True
  then show ?thesis using inv e bm a by (auto simp: rp_inv_def rpmsg_register_endpoint_def rpmsg_init_ept_def)
next
  case False
  then have used: "unat a < 128" "\<not> bm_used (bitmap d) (unat a)" "bm_used bm (unat a)"
    "\<And>c. c < 128 \<Longrightarrow> bm_used (bitmap d) c \<Longrightarrow> bm_used bm c" using a by auto
  then have "\<forall>x \<in> set (endpoints d) - {ns}. ept_addr (epts d x) \<noteq> a" using inv False by (auto simp: rp_inv_def)
  then show ?thesis using inv e bm used by (auto simp: rp_inv_def rpmsg_register_endpoint_def rpmsg_init_ept_def)
qed

lemma unregister_inv:
  assumes inv: "rp_inv ns d" and e: "e \<in> set (endpoints d)" "e \<noteq> ns"
  obtains d' where "rpmsg_unregister_endpoint e d = Some d'" and "rp_inv ns d'" and "epts d' = epts d"
    and "endpoints d' = remove1 e (endpoints d)" and "dev d' = dev d"
proof -
  have r: "ept_rdev (epts d e)" "ept_node (epts d e)" "length (bitmap d) = 4" "distinct (endpoints d)"
    using inv e(1) by (auto simp: rp_inv_def)
  let ?a = "ept_addr (epts d e)"
  show thesis
  proof (cases "?a = RPMSG_ADDR_ANY")
    case True
    have "rp_inv ns (d\<lparr>endpoints := remove1 e (endpoints d)\<rparr>)" using inv by (auto simp: rp_inv_def)
    then show thesis using r True by (intro that [of "d\<lparr>endpoints := remove1 e (endpoints d)\<rparr>"])
        (simp_all add: rpmsg_unregister_endpoint_def Let_def)
  next
    case False
    then have u: "unat ?a < 128" using inv e by (auto simp: rp_inv_def)
    obtain bm where bm: "metal_bitmap_clear_bit (bitmap d) (unat ?a) = Some bm" "length bm = 4"
      "\<forall>c<128. bm_used bm c \<longleftrightarrow> c \<noteq> unat ?a \<and> bm_used (bitmap d) c" by (rule bm_clear [OF r(3) u])
    have other: "ept_addr (epts d x) \<noteq> ?a" if "x \<in> set (endpoints d)" "x \<noteq> ns" "x \<noteq> e" for x
      using inv that e False by (auto simp: rp_inv_def)
    have "rp_inv ns (d\<lparr>bitmap := bm, endpoints := remove1 e (endpoints d)\<rparr>)"
      using inv bm(2,3) r(4) other by (auto simp: rp_inv_def word_unat_eq_iff)
    then show thesis using r False u bm(1) small_address [of ?a]
      by (intro that [of "d\<lparr>bitmap := bm, endpoints := remove1 e (endpoints d)\<rparr>"])
        (simp_all add: rpmsg_unregister_endpoint_def Let_def rpmsg_release_address_def RPMSG_ADDR_BMP_SIZE_def)
  qed
qed

section \<open>Creating and destroying endpoints\<close>

text \<open>The device after a registration, whether or not it was announced.\<close>

lemma add_ept_inv:
  assumes inv: "rp_inv ns d0" "d0 = rpmsg_register_endpoint e (rpmsg_init_ept e name a dest cb d)" and e: "e \<noteq> ns"
    and run: "add_ept send e name a dest cb d = Some (st, d')"
  shows "rp_inv ns d' \<and> epts d' = epts d0 \<and>
    endpoints d' = (if st = 0 then endpoints d0 else remove1 e (endpoints d0))"
proof (cases "support_ns d0 \<and> dest = RPMSG_ADDR_ANY")
  case False
  then show ?thesis using inv run by (auto simp: add_ept_def Let_def RPMSG_SUCCESS_def)
next
  case True
  then obtain d1 where ns: "rpmsg_send_ns_message send e RPMSG_NS_CREATE d0 = Some (st, d1)"
    and d': "(if st \<noteq> 0 then rpmsg_unregister_endpoint e d1 else Some d1) = Some d'"
    using run inv(2) by (auto simp: add_ept_def Let_def bind_eq_Some_conv)
  obtain t where d1: "d1 = d0\<lparr>dev := t\<rparr>" using ns_message_keeps [OF ns] by auto
  then have i1: "rp_inv ns d1" using inv(1) by simp
  have "e \<in> set (endpoints d1)" using d1 inv(2) by (simp add: rpmsg_register_endpoint_def)
  then obtain d2 where "rpmsg_unregister_endpoint e d1 = Some d2" "rp_inv ns d2" "epts d2 = epts d1"
    "endpoints d2 = remove1 e (endpoints d1)"
    by (rule unregister_inv [OF i1 _ e])
  then show ?thesis using d' d1 i1 by (auto split: if_splits)
qed

definition taken_address :: "u32 \<Rightarrow> ('c, 't) rpmsg_device \<Rightarrow> bool" where
  "taken_address a d \<longleftrightarrow> a \<noteq> RPMSG_ADDR_ANY \<and> (128 \<le> unat a \<or> bm_used (bitmap d) (unat a))"

lemma create_ept_chooses:
  assumes inv: "rp_inv ns d" and src: "src = RPMSG_ADDR_ANY \<or> unat src < 2 ^ 31" and free: "\<not> taken_address src d"
  obtains a bm where "rpmsg_create_ept send e name src dest cb d = add_ept send e name a dest cb (d\<lparr>bitmap := bm\<rparr>)"
    and "length bm = 4" and "src \<noteq> RPMSG_ADDR_ANY \<longrightarrow> a = src"
    and "if a = RPMSG_ADDR_ANY then bm = bitmap d else unat a < 128 \<and> \<not> bm_used (bitmap d) (unat a) \<and>
      (\<forall>c<128. bm_used bm c \<longleftrightarrow> c = unat a \<or> bm_used (bitmap d) c)"
proof (cases "src = RPMSG_ADDR_ANY")
  case False
  have len: "length (bitmap d) = 4" using inv by (simp add: rp_inv_def)
  have a: "unat src < 128" "\<not> bm_used (bitmap d) (unat src)" using free False by (auto simp: taken_address_def)
  obtain bm where bm: "metal_bitmap_set_bit (bitmap d) (unat src) = Some bm" "length bm = 4"
    "\<forall>c<128. bm_used bm c \<longleftrightarrow> c = unat src \<or> bm_used (bitmap d) c" by (rule bm_set [OF len a(1)])
  have "rpmsg_create_ept send e name src dest cb d = add_ept send e name src dest cb (d\<lparr>bitmap := bm\<rparr>)"
    using False a small_address [of src] bm(1)
    by (simp add: rpmsg_create_ept_def rpmsg_is_address_set_def rpmsg_set_address_def RPMSG_ADDR_BMP_SIZE_def bm_is_set [OF len])
  then show thesis using bm a False by (intro that [of src bm]) simp_all
next
  case True
  have len: "length (bitmap d) = 4" using inv by (simp add: rp_inv_def)
  obtain n where n: "metal_bitmap_next_clear_bit (bitmap d) 0 128 = Some n" "n \<le> 128" "n < 128 \<Longrightarrow> \<not> bm_used (bitmap d) n"
    using bm_next_clear [OF len, of 0] by auto
  show thesis
  proof (cases "n < 128")
    case n128: True
    obtain bm where bm: "metal_bitmap_set_bit (bitmap d) n = Some bm" "length bm = 4"
      "\<forall>c<128. bm_used bm c \<longleftrightarrow> c = n \<or> bm_used (bitmap d) c" by (rule bm_set [OF len n128])
    have u: "unat (of_nat n :: u32) = n" using n128 by (simp add: unat_of_nat)
    then have "(of_nat n :: u32) \<noteq> RPMSG_ADDR_ANY" using n128 by (auto simp: RPMSG_ADDR_ANY_def)
    then show thesis using True n bm n128 u
      by (intro that [of "of_nat n" bm]) (simp_all add: rpmsg_create_ept_def rpmsg_get_address_def RPMSG_ADDR_BMP_SIZE_def)
  next
    case False
    then show thesis using True n len
      by (intro that [of RPMSG_ADDR_ANY "bitmap d"]) (simp_all add: rpmsg_create_ept_def rpmsg_get_address_def RPMSG_ADDR_BMP_SIZE_def)
  qed
qed

lemma create_ept_registry:
  assumes "rp_inv ns d" and "e \<notin> set (endpoints d)" and "e \<noteq> ns" and "src = RPMSG_ADDR_ANY \<or> unat src < 2 ^ 31"
    and "rpmsg_create_ept send e name src dest cb d = Some (st, d')"
  shows "rp_inv ns d' \<and> (\<forall>x. x \<noteq> e \<longrightarrow> epts d' x = epts d x) \<and>
    (if taken_address src d then d' = d \<and> st = (if 128 \<le> unat src then RPMSG_ERR_PARAM else RPMSG_SUCCESS)
     else endpoints d' = endpoints d @ (if st = 0 then [e] else []) \<and>
       (src \<noteq> RPMSG_ADDR_ANY \<longrightarrow> ept_addr (epts d' e) = src) \<and>
       (st = 0 \<and> ept_addr (epts d' e) \<notin> {RPMSG_ADDR_ANY, RPMSG_NS_EPT_ADDR} \<longrightarrow>
          rpmsg_get_ept_from_addr (ept_addr (epts d' e)) d' = Some e))"
proof (cases "taken_address src d")
  case True
  have len: "length (bitmap d) = 4" using assms(1) by (simp add: rp_inv_def)
  have "d' = d \<and> st = (if 128 \<le> unat src then RPMSG_ERR_PARAM else RPMSG_SUCCESS)"
  proof (cases "unat src < 128")
    case t: True
    then show ?thesis using True assms(4,5) small_address [of src] bm_is_set [OF len t]
      by (auto simp: taken_address_def rpmsg_create_ept_def rpmsg_is_address_set_def RPMSG_ADDR_BMP_SIZE_def)
  next
    case False
    then show ?thesis using True assms(4,5) small_address [of src]
      by (auto simp: taken_address_def rpmsg_create_ept_def rpmsg_is_address_set_def RPMSG_ADDR_BMP_SIZE_def RPMSG_ERR_PARAM_def)
  qed
  then show ?thesis using True assms(1) by simp
next
  case False
  obtain a bm where run: "rpmsg_create_ept send e name src dest cb d = add_ept send e name a dest cb (d\<lparr>bitmap := bm\<rparr>)"
    and bm: "length bm = 4" and a: "src \<noteq> RPMSG_ADDR_ANY \<longrightarrow> a = src"
    "if a = RPMSG_ADDR_ANY then bm = bitmap d else unat a < 128 \<and> \<not> bm_used (bitmap d) (unat a) \<and>
      (\<forall>c<128. bm_used bm c \<longleftrightarrow> c = unat a \<or> bm_used (bitmap d) c)"
    by (rule create_ept_chooses [OF assms(1,4) False])
  define d0 where "d0 = rpmsg_register_endpoint e (rpmsg_init_ept e name a dest cb (d\<lparr>bitmap := bm\<rparr>))"
  have i0: "rp_inv ns d0" unfolding d0_def by (rule register_inv [OF assms(1,2,3) bm a(2)])
  have res: "rp_inv ns d'" "epts d' = epts d0" "endpoints d' = (if st = 0 then endpoints d0 else remove1 e (endpoints d0))"
    using add_ept_inv [OF i0 d0_def assms(3)] assms(5) run by auto
  have d0: "endpoints d0 = endpoints d @ [e]" "ept_addr (epts d0 e) = a" "\<And>x. x \<noteq> e \<Longrightarrow> epts d0 x = epts d x"
    by (simp_all add: d0_def rpmsg_register_endpoint_def rpmsg_init_ept_def)
  have "endpoints d' = endpoints d @ (if st = 0 then [e] else [])"
    using res(3) d0(1) assms(2) by (simp add: remove1_append)
  moreover have "rpmsg_get_ept_from_addr a d' = Some e" if "st = 0" "a \<noteq> RPMSG_ADDR_ANY" "a \<noteq> RPMSG_NS_EPT_ADDR"
    using that res d0 assms(3) by (intro lookup_endpoint [of ns]) simp_all
  ultimately show ?thesis using False res(1,2) d0(2,3) a(1) by simp
qed


definition demo_rp :: "(unit, unit) rpmsg_device" where
  "demo_rp = \<lparr>epts = (\<lambda>_. \<lparr>ept_name = replicate 32 0, ept_rdev = False, ept_addr = 0, ept_dest = 0, ept_cb = None, ept_node = False\<rparr>),
     endpoints = [], bitmap = [0, 0, 0, 0], support_ns = False, dev = ()\<rparr>"


end
