(* ===== verification/Rpmsg_Virtio.thy ===== *)
theory Rpmsg_Virtio
  imports Virtqueue_Spec Rpmsg_Registry
begin

text \<open>
  RPMsg over virtio (\<open>lib/rpmsg/rpmsg_virtio.c\<close>): the send path with its wait for a buffer, the
  receive callback that dispatches messages to endpoints, the name service, and the
  initialisation of a device in either role. The state of a device has its two virtqueues and
  rings, the shared memory and the state of the application. What the application provides (its
  endpoint callbacks, which may have no result, and the name-service hooks), what happens on the other core during a sleep,
  and the value of the header field the code leaves uninitialised are parameters.
\<close>

section \<open>Data\<close>

definition RPMSG_BUFFER_SIZE :: u32 where "RPMSG_BUFFER_SIZE = 512"
definition sizeof_rpmsg_hdr :: u32 where "sizeof_rpmsg_hdr = 16"
definition sizeof_rpmsg_ns_msg :: nat where "sizeof_rpmsg_ns_msg = 40"
definition RPMSG_TICK_COUNT :: nat where "RPMSG_TICK_COUNT = 15000000"
definition RPMSG_TICKS_PER_INTERVAL :: nat where "RPMSG_TICKS_PER_INTERVAL = 1000"
definition VIRTIO_CONFIG_STATUS_DRIVER_OK :: u8 where "VIRTIO_CONFIG_STATUS_DRIVER_OK = 4"
definition VIRTIO_CONFIG_STATUS_NEEDS_RESET :: u8 where "VIRTIO_CONFIG_STATUS_NEEDS_RESET = 0x40"
definition ERROR_VQUEUE_INVLD_PARAM :: int where "ERROR_VQUEUE_INVLD_PARAM = - 3008"

record rpmsg_virtio_shm_pool =
  pool_base :: u32
  pool_avail :: u32
  pool_size :: u32

record 'a rvdev =
  rv_role :: virtio_role
  rv_status :: u8
  rvq :: virtqueue
  rring :: vring
  svq :: virtqueue
  sring :: vring
  shbuf_io :: metal_io_region
  shpool :: rpmsg_virtio_shm_pool
  rv_mem :: memory
  rv_notified :: nat
  rv_app :: 'a

datatype 'c ept_fun = rpmsg_virtio_ns_callback_fun | user_callback 'c

record ('c, 'a) rp_env =
  env_call :: "'c \<Rightarrow> bytes \<Rightarrow> u32 \<Rightarrow> 'a \<Rightarrow> (int \<times> 'a) option"
  env_bind :: "bytes \<Rightarrow> u32 \<Rightarrow> 'a \<Rightarrow> 'a"
  env_unbind :: "nat \<Rightarrow> 'a \<Rightarrow> 'a"
  env_sleep :: "'a rvdev \<Rightarrow> 'a rvdev"
  env_flags :: u16

type_synonym ('c, 'a) rpdev = "('c ept_fun, 'a rvdev) rpmsg_device"

section \<open>Buffers\<close>

definition rpmsg_virtio_shm_pool_get_buffer :: "u32 \<Rightarrow> rpmsg_virtio_shm_pool \<Rightarrow> u32 \<times> rpmsg_virtio_shm_pool" where
  "rpmsg_virtio_shm_pool_get_buffer sz p =
    (if pool_avail p < sz then (0, p)
     else (pool_base p + pool_size p - pool_avail p, p\<lparr>pool_avail := pool_avail p - sz\<rparr>))"

definition rpmsg_virtio_init_shm_pool :: "u32 \<Rightarrow> u32 \<Rightarrow> rpmsg_virtio_shm_pool" where
  "rpmsg_virtio_init_shm_pool shb sz = \<lparr>pool_base = shb, pool_avail = sz, pool_size = sz\<rparr>"

definition rpmsg_virtio_return_buffer :: "u32 \<Rightarrow> u32 \<Rightarrow> u16 \<Rightarrow> 'a rvdev \<Rightarrow> 'a rvdev option" where
  "rpmsg_virtio_return_buffer buffer l idx v =
    map_option (\<lambda>(st, q, r). v\<lparr>rvq := q, rring := r\<rparr>)
      (case rv_role v of
         VIRTIO_DEV_MASTER \<Rightarrow> virtqueue_add_buffer [\<lparr>vb_buf = buffer, vb_len = l\<rparr>] 0 1 buffer (rvq v, rring v)
       | VIRTIO_DEV_SLAVE \<Rightarrow> virtqueue_add_consumed_buffer idx l (rvq v, rring v))"

definition rpmsg_virtio_enqueue_buffer :: "u32 \<Rightarrow> u32 \<Rightarrow> u16 \<Rightarrow> 'a rvdev \<Rightarrow> (int \<times> 'a rvdev) option" where
  "rpmsg_virtio_enqueue_buffer buffer l idx v =
    map_option (\<lambda>(st, q, r). (st, v\<lparr>svq := q, sring := r\<rparr>))
      (case rv_role v of
         VIRTIO_DEV_MASTER \<Rightarrow> virtqueue_add_buffer [\<lparr>vb_buf = buffer, vb_len = l\<rparr>] 1 0 buffer (svq v, sring v)
       | VIRTIO_DEV_SLAVE \<Rightarrow> virtqueue_add_consumed_buffer idx l (svq v, sring v))"

text \<open>A buffer is its address, length and index; the null address stands for no buffer.\<close>

definition rpmsg_virtio_get_tx_buffer :: "'a rvdev \<Rightarrow> ((u32 \<times> u32 \<times> u16) \<times> 'a rvdev) option" where
  "rpmsg_virtio_get_tx_buffer v =
    (case rv_role v of
       VIRTIO_DEV_MASTER \<Rightarrow> do {
         (b, q, r) \<leftarrow> virtqueue_get_buffer (svq v, sring v);
         let v = v\<lparr>svq := q, sring := r\<rparr>;
         (case b of
            Some (data, l, i) \<Rightarrow>
              if data \<noteq> 0 then Some ((data, l, i), v)
              else (let (data, p) = rpmsg_virtio_shm_pool_get_buffer RPMSG_BUFFER_SIZE (shpool v)
                    in Some ((data, RPMSG_BUFFER_SIZE, i), v\<lparr>shpool := p\<rparr>))
          | None \<Rightarrow> (let (data, p) = rpmsg_virtio_shm_pool_get_buffer RPMSG_BUFFER_SIZE (shpool v)
                     in Some ((data, RPMSG_BUFFER_SIZE, 0), v\<lparr>shpool := p\<rparr>))) }
     | VIRTIO_DEV_SLAVE \<Rightarrow> do {
         (b, q, r) \<leftarrow> virtqueue_get_available_buffer (svq v, sring v);
         let v = v\<lparr>svq := q, sring := r\<rparr>;
         Some (case b of Some (i, data, l) \<Rightarrow> (data, l, i) | None \<Rightarrow> (0, 0, 0), v) })"

definition rpmsg_virtio_get_rx_buffer :: "'a rvdev \<Rightarrow> ((u32 \<times> u32 \<times> u16) \<times> 'a rvdev) option" where
  "rpmsg_virtio_get_rx_buffer v =
    (case rv_role v of
       VIRTIO_DEV_MASTER \<Rightarrow> do {
         (b, q, r) \<leftarrow> virtqueue_get_buffer (rvq v, rring v);
         Some (case b of Some (data, l, i) \<Rightarrow> (data, l, i) | None \<Rightarrow> (0, 0, 0), v\<lparr>rvq := q, rring := r\<rparr>) }
     | VIRTIO_DEV_SLAVE \<Rightarrow> do {
         (b, q, r) \<leftarrow> virtqueue_get_available_buffer (rvq v, rring v);
         Some (case b of Some (i, data, l) \<Rightarrow> (data, l, i) | None \<Rightarrow> (0, 0, 0), v\<lparr>rvq := q, rring := r\<rparr>) })"

text \<open>The busy wait for the driver. The status byte is written by the other core: \<open>status k\<close> is what
  the \<open>k\<close>-th read returns. The result is the number of the read that saw the driver ready.\<close>

partial_function (option) rpmsg_virtio_wait_remote_ready :: "(nat \<Rightarrow> u8) \<Rightarrow> nat \<Rightarrow> nat option" where
  "rpmsg_virtio_wait_remote_ready status k =
    (if status k AND VIRTIO_CONFIG_STATUS_NEEDS_RESET \<noteq> 0 then rpmsg_virtio_wait_remote_ready status (k + 1)
     else if status k AND VIRTIO_CONFIG_STATUS_DRIVER_OK \<noteq> 0 then Some k
     else rpmsg_virtio_wait_remote_ready status (k + 1))"

definition rpmsg_virtio_get_buffer_size :: "'a rvdev \<Rightarrow> int option" where
  "rpmsg_virtio_get_buffer_size v =
    (case rv_role v of
       VIRTIO_DEV_MASTER \<Rightarrow> Some (sint (RPMSG_BUFFER_SIZE - sizeof_rpmsg_hdr))
     | VIRTIO_DEV_SLAVE \<Rightarrow>
         map_option (\<lambda>l. max 0 (sint (l - sizeof_rpmsg_hdr))) (virtqueue_get_desc_size (svq v, sring v)))"

section \<open>Sending\<close>

text \<open>The loop that waits for a transmit buffer; the argument counts the remaining ticks.\<close>

fun wait_tx_buffer ::
  "('c, 'a) rp_env \<Rightarrow> nat \<Rightarrow> int \<Rightarrow> 'a rvdev \<Rightarrow> ((int + u32 \<times> u32 \<times> u16) \<times> 'a rvdev) option" where
  "wait_tx_buffer env tick_count sz v = do {
     avail_size \<leftarrow> rpmsg_virtio_get_buffer_size v;
     if avail_size \<noteq> 0 \<and> avail_size < sz then Some (Inl RPMSG_ERR_BUFF_SIZE, v)
     else do {
       ((buffer, l, i), v) \<leftarrow> rpmsg_virtio_get_tx_buffer v;
       if buffer \<noteq> 0 then Some (Inr (buffer, l, i), v)
       else (case tick_count of
           0 \<Rightarrow> Some (Inl RPMSG_ERR_NO_BUFF, v)
         | Suc t \<Rightarrow> if avail_size \<noteq> 0 then Some (Inl RPMSG_ERR_BUFF_SIZE, v)
                    else wait_tx_buffer env t sz (env_sleep env v)) } }"

declare wait_tx_buffer.simps [simp del]

definition enc_rpmsg_hdr :: "u32 \<Rightarrow> u32 \<Rightarrow> u16 \<Rightarrow> u16 \<Rightarrow> bytes" where
  "enc_rpmsg_hdr src dst l fl = le_bytes 4 src @ le_bytes 4 dst @ le_bytes 4 (0 :: u32) @ le_bytes 2 l @ le_bytes 2 fl"

definition kick_send :: "'a rvdev \<Rightarrow> 'a rvdev" where
  "kick_send v = (let (b, q, r) = virtqueue_kick (svq v, sring v)
     in v\<lparr>svq := q, sring := r, rv_notified := (if b then rv_notified v + 1 else rv_notified v)\<rparr>)"

definition kick_receive :: "'a rvdev \<Rightarrow> 'a rvdev" where
  "kick_receive v = (let (b, q, r) = virtqueue_kick (rvq v, rring v)
     in v\<lparr>rvq := q, rring := r, rv_notified := (if b then rv_notified v + 1 else rv_notified v)\<rparr>)"

text \<open>\<open>RPMSG_ASSERT\<close> loops for ever when its condition fails.\<close>

definition RPMSG_ASSERT :: "bool \<Rightarrow> unit option" where
  "RPMSG_ASSERT b = (if b then Some () else None)"

lemma RPMSG_ASSERT_bind [simp]: "Option.bind (RPMSG_ASSERT b) f = (if b then f () else None)"
  by (simp add: RPMSG_ASSERT_def)

definition rpmsg_virtio_send_offchannel_raw :: "('c, 'a) rp_env \<Rightarrow> 'a rvdev send_op" where
  "rpmsg_virtio_send_offchannel_raw env src dst data wait v =
    (if rv_status v AND VIRTIO_CONFIG_STATUS_DRIVER_OK = 0 then Some (RPMSG_ERR_DEV_STATE, v)
     else do {
       (b, v) \<leftarrow> wait_tx_buffer env (if wait then RPMSG_TICK_COUNT div RPMSG_TICKS_PER_INTERVAL else 0) (int (length data)) v;
       (case b of
          Inl err \<Rightarrow> Some (err, v)
        | Inr (buffer, buff_len, idx) \<Rightarrow> do {
            let io = shbuf_io v;
            let (status, m) = metal_io_write_bytes io (metal_io_virt_to_offset io buffer)
              (enc_rpmsg_hdr src dst (of_nat (length data)) (env_flags env)) (rv_mem v);
            _ \<leftarrow> RPMSG_ASSERT (status = int (unat sizeof_rpmsg_hdr));
            let (status, m) = metal_io_write_bytes io (metal_io_virt_to_offset io (buffer + sizeof_rpmsg_hdr)) data m;
            _ \<leftarrow> RPMSG_ASSERT (status = int (length data));
            (status, v) \<leftarrow> rpmsg_virtio_enqueue_buffer buffer buff_len idx (v\<lparr>rv_mem := m\<rparr>);
            _ \<leftarrow> RPMSG_ASSERT (status = VQUEUE_SUCCESS);
            Some (int (length data), kick_send v) }) })"

section \<open>Receiving\<close>

definition set_dest :: "nat \<Rightarrow> u32 \<Rightarrow> ('c, 't) rpmsg_device \<Rightarrow> ('c, 't) rpmsg_device" where
  "set_dest e a d = d\<lparr>epts := (epts d)(e := (epts d e)\<lparr>ept_dest := a\<rparr>)\<rparr>"

definition on_app :: "('a \<Rightarrow> 'a) \<Rightarrow> ('c, 'a rvdev) rpmsg_device \<Rightarrow> ('c, 'a rvdev) rpmsg_device" where
  "on_app f d = d\<lparr>dev := (dev d)\<lparr>rv_app := f (rv_app (dev d))\<rparr>\<rparr>"

text \<open>The name-service callback; the unbind hook gets the name-service endpoint \<open>e\<close> itself, as in
  the code.\<close>

definition rpmsg_virtio_ns_callback :: "('c, 'a) rp_env \<Rightarrow> nat \<Rightarrow> bytes \<Rightarrow> ('c, 'a) rpdev \<Rightarrow> int \<times> ('c, 'a) rpdev" where
  "rpmsg_virtio_ns_callback env e data d =
    (if length data \<noteq> sizeof_rpmsg_ns_msg then (RPMSG_SUCCESS, d)
     else let name = take RPMSG_NAME_SIZE data;
              dest = le_word (take 4 (drop RPMSG_NAME_SIZE data));
              flags = (le_word (take 4 (drop (RPMSG_NAME_SIZE + 4) data)) :: u32);
              found = rpmsg_get_endpoint (Some name) RPMSG_ADDR_ANY dest d
          in (RPMSG_SUCCESS,
              if flags AND RPMSG_NS_DESTROY \<noteq> 0
              then (case found of Some x \<Rightarrow> on_app (env_unbind env e) (set_dest x RPMSG_ADDR_ANY d) | None \<Rightarrow> d)
              else (case found of Some x \<Rightarrow> set_dest x dest d | None \<Rightarrow> on_app (env_bind env name dest) d)))"

definition run_callback :: "('c, 'a) rp_env \<Rightarrow> nat \<Rightarrow> bytes \<Rightarrow> u32 \<Rightarrow> ('c, 'a) rpdev \<Rightarrow> (int \<times> ('c, 'a) rpdev) option" where
  "run_callback env e data src d =
    (case ept_cb (epts d e) of
       None \<Rightarrow> None
     | Some rpmsg_virtio_ns_callback_fun \<Rightarrow> Some (rpmsg_virtio_ns_callback env e data d)
     | Some (user_callback c) \<Rightarrow>
         map_option (\<lambda>(st, a). (st, d\<lparr>dev := (dev d)\<lparr>rv_app := a\<rparr>\<rparr>)) (env_call env c data src (rv_app (dev d))))"

text \<open>The handling of one received buffer.\<close>

definition rx_dispatch :: "('c, 'a) rp_env \<Rightarrow> u32 \<Rightarrow> ('c, 'a) rpdev \<Rightarrow> ('c, 'a) rpdev option" where
  "rx_dispatch env hdr d =
    (let m = rv_mem (dev d); src = load32 m (unat hdr)
     in case rpmsg_get_ept_from_addr (load32 m (unat hdr + 4)) d of
          None \<Rightarrow> Some d
        | Some e \<Rightarrow> do {
            let d = (if ept_dest (epts d e) = RPMSG_ADDR_ANY then set_dest e src d else d);
            (st, d) \<leftarrow> run_callback env e (load_bytes m (unat hdr + 16) (unat (load16 m (unat hdr + 12)))) src d;
            _ \<leftarrow> RPMSG_ASSERT (0 \<le> st);
            Some d })"

definition on_dev :: "('t \<Rightarrow> 't option) \<Rightarrow> ('c, 't) rpmsg_device \<Rightarrow> ('c, 't) rpmsg_device option" where
  "on_dev f d = map_option (\<lambda>t. d\<lparr>dev := t\<rparr>) (f (dev d))"

partial_function (option) rx_loop :: "('c, 'a) rp_env \<Rightarrow> u32 \<times> u32 \<times> u16 \<Rightarrow> ('c, 'a) rpdev \<Rightarrow> ('c, 'a) rpdev option" where
  "rx_loop env b d =
    (case b of (hdr, l, idx) \<Rightarrow>
       if hdr = 0 then Some d
       else do {
         d \<leftarrow> rx_dispatch env hdr d;
         d \<leftarrow> on_dev (rpmsg_virtio_return_buffer hdr l idx) d;
         (b, v) \<leftarrow> rpmsg_virtio_get_rx_buffer (dev d);
         let v = (if fst b = 0 then kick_receive v else v);
         rx_loop env b (d\<lparr>dev := v\<rparr>) })"

definition rpmsg_virtio_rx_callback :: "('c, 'a) rp_env \<Rightarrow> ('c, 'a) rpdev \<Rightarrow> ('c, 'a) rpdev option" where
  "rpmsg_virtio_rx_callback env d = do {
     (b, v) \<leftarrow> rpmsg_virtio_get_rx_buffer (dev d);
     rx_loop env b (d\<lparr>dev := v\<rparr>) }"

definition rpmsg_virtio_tx_callback :: "('c, 'a) rpdev \<Rightarrow> ('c, 'a) rpdev" where
  "rpmsg_virtio_tx_callback d = d"

section \<open>Initialisation\<close>

record vring_info =
  vi_num :: u16
  vi_vq :: virtqueue
  vi_ring :: vring

fun create_vqs :: "virtio_role \<Rightarrow> u32 \<Rightarrow> vring_info list \<Rightarrow> vring_info list option" where
  "create_vqs role features [] = Some []"
| "create_vqs role features (x # xs) = do {
     (st, q, r) \<leftarrow> virtqueue_create role features (vi_num x) True
       (vi_vq x, if role = VIRTIO_DEV_MASTER then zero_ring (unat (vi_num x)) else vi_ring x);
     ys \<leftarrow> create_vqs role features xs;
     Some (x\<lparr>vi_vq := q, vi_ring := r\<rparr> # ys) }"

definition virtio_create_virtqueues :: "virtio_role \<Rightarrow> u32 \<Rightarrow> nat \<Rightarrow> vring_info list \<Rightarrow> (int \<times> vring_info list) option" where
  "virtio_create_virtqueues role features nvqs vs =
    (if length vs < nvqs then Some (ERROR_VQUEUE_INVLD_PARAM, vs)
     else map_option (\<lambda>ys. (0, ys @ drop nvqs vs)) (create_vqs role features (take nvqs vs)))"

text \<open>The master hands all its receive buffers to the other side.\<close>

fun fill_receive_queue :: "nat \<Rightarrow> 'a rvdev \<Rightarrow> (int \<times> 'a rvdev) option" where
  "fill_receive_queue 0 v = Some (RPMSG_SUCCESS, v)"
| "fill_receive_queue (Suc n) v =
    (let (buffer, p) = rpmsg_virtio_shm_pool_get_buffer RPMSG_BUFFER_SIZE (shpool v)
     in if buffer = 0 then Some (RPMSG_ERR_NO_BUFF, v)
        else do {
          let (_, m) = metal_io_block_set (shbuf_io v) (metal_io_virt_to_offset (shbuf_io v) buffer) 0
            (unat RPMSG_BUFFER_SIZE) (rv_mem v);
          (status, q, r) \<leftarrow> virtqueue_add_buffer [\<lparr>vb_buf = buffer, vb_len = RPMSG_BUFFER_SIZE\<rparr>] 0 1 buffer (rvq v, rring v);
          let v = v\<lparr>shpool := p, rv_mem := m, rvq := q, rring := r\<rparr>;
          if status \<noteq> RPMSG_SUCCESS then Some (status, v) else fill_receive_queue n v })"

definition VIRTIO_RPMSG_F_NS :: nat where "VIRTIO_RPMSG_F_NS = 0"
definition RPMSG_NUM_VRINGS :: nat where "RPMSG_NUM_VRINGS = 2"

definition init_queues ::
  "virtio_role \<Rightarrow> u8 \<Rightarrow> metal_io_region \<Rightarrow> rpmsg_virtio_shm_pool \<Rightarrow> vring_info list \<Rightarrow> memory \<Rightarrow> 'a \<Rightarrow> 'a rvdev" where
  "init_queues role status io pool vs m a =
    (let (rx, tx) = (case role of VIRTIO_DEV_MASTER \<Rightarrow> (vs ! 0, vs ! 1) | VIRTIO_DEV_SLAVE \<Rightarrow> (vs ! 1, vs ! 0));
         (sq, sr) = virtqueue_disable_cb (vi_vq tx, vi_ring tx)
     in \<lparr>rv_role = role, rv_status = status, rvq = virtqueue_set_shmem_io io (vi_vq rx), rring = vi_ring rx,
         svq = virtqueue_set_shmem_io io sq, sring = sr, shbuf_io = io, shpool = pool, rv_mem = m, rv_notified = 0, rv_app = a\<rparr>)"

text \<open>The name-service endpoint is the object \<open>ns\<close>; \<open>status\<close> is the sequence of status bytes the
  slave reads. The device is \<open>None\<close> when the function fails.\<close>

definition rpmsg_init_vdev ::
  "virtio_role \<Rightarrow> (nat \<Rightarrow> u8) \<Rightarrow> u32 \<Rightarrow> metal_io_region \<Rightarrow> rpmsg_virtio_shm_pool option \<Rightarrow> vring_info list \<Rightarrow> memory \<Rightarrow>
   (nat \<Rightarrow> 'c ept_fun rpmsg_endpoint) \<Rightarrow> nat \<Rightarrow> 'a \<Rightarrow> (int \<times> ('c, 'a) rpdev option) option" where
  "rpmsg_init_vdev role status features io pool vs m es ns a = do {
     k \<leftarrow> (case role of VIRTIO_DEV_MASTER \<Rightarrow> Some 0 | VIRTIO_DEV_SLAVE \<Rightarrow> rpmsg_virtio_wait_remote_ready status 0);
     if role = VIRTIO_DEV_MASTER \<and> pool = None then Some (RPMSG_ERR_PARAM, None)
     else if role = VIRTIO_DEV_MASTER \<and> pool_size (the pool) = 0 then Some (RPMSG_ERR_NO_BUFF, None)
     else do {
       (st, vs) \<leftarrow> virtio_create_virtqueues role features RPMSG_NUM_VRINGS vs;
       if st \<noteq> RPMSG_SUCCESS then Some (st, None)
       else do {
         let v = init_queues role (status k) io
           (case pool of Some p \<Rightarrow> p | None \<Rightarrow> \<lparr>pool_base = 0, pool_avail = 0, pool_size = 0\<rparr>) vs m a;
         (st, v) \<leftarrow> (case role of VIRTIO_DEV_MASTER \<Rightarrow> fill_receive_queue (unat (vq_nentries (rvq v))) v
                     | VIRTIO_DEV_SLAVE \<Rightarrow> Some (st, v));
         if st \<noteq> RPMSG_SUCCESS then Some (st, None)
         else
           let d = \<lparr>epts = es, endpoints = [], bitmap = replicate 4 0, support_ns = bit features VIRTIO_RPMSG_F_NS, dev = v\<rparr>;
               d = (if support_ns d then rpmsg_register_endpoint ns (rpmsg_init_ept ns [0x4E, 0x53] RPMSG_NS_EPT_ADDR
                      RPMSG_NS_EPT_ADDR (Some rpmsg_virtio_ns_callback_fun) d) else d);
               d = (if role = VIRTIO_DEV_MASTER then d\<lparr>dev := (dev d)\<lparr>rv_status := VIRTIO_CONFIG_STATUS_DRIVER_OK\<rparr>\<rparr> else d)
           in Some (st, Some d) } } }"

partial_function (option) rpmsg_deinit_vdev :: "'t send_op \<Rightarrow> ('c, 't) rpmsg_device \<Rightarrow> ('c, 't) rpmsg_device option" where
  "rpmsg_deinit_vdev send d =
    (case endpoints d of [] \<Rightarrow> Some d
     | e # _ \<Rightarrow> do { d \<leftarrow> rpmsg_destroy_ept send e d; rpmsg_deinit_vdev send d })"

section \<open>The receive callback\<close>

definition put_rx :: "virtqueue \<Rightarrow> vring \<Rightarrow> nat \<Rightarrow> ('c, 'a rvdev) rpmsg_device \<Rightarrow> ('c, 'a rvdev) rpmsg_device" where
  "put_rx q r k d = d\<lparr>dev := (dev d)\<lparr>rvq := q, rring := r, rv_notified := k\<rparr>\<rparr>"

lemma put_rx_simps [simp]:
  "epts (put_rx q r k d) = epts d" "endpoints (put_rx q r k d) = endpoints d" "rv_mem (dev (put_rx q r k d)) = rv_mem (dev d)"
  "rv_app (dev (put_rx q r k d)) = rv_app (dev d)" "rv_role (dev (put_rx q r k d)) = rv_role (dev d)"
  "rvq (dev (put_rx q r k d)) = q" "rring (dev (put_rx q r k d)) = r" "rv_notified (dev (put_rx q r k d)) = k"
  "put_rx q r k (put_rx q' r' k' d) = put_rx q r k d" "shm_io (rvq (dev (put_rx q r k d))) = shm_io q"
  by (simp_all add: put_rx_def)

text \<open>Dispatching does not look at the queues.\<close>

lemma put_rx_commutes:
  "rpmsg_get_endpoint nm a b (put_rx q r k d) = rpmsg_get_endpoint nm a b d"
  "set_dest e a (put_rx q r k d) = put_rx q r k (set_dest e a d)"
  "on_app f (put_rx q r k d) = put_rx q r k (on_app f d)"
  by (simp_all add: rpmsg_get_endpoint_def set_dest_def on_app_def put_rx_def)

lemma ns_callback_frame:
  "rpmsg_virtio_ns_callback env e data (put_rx q r k d) = map_prod id (put_rx q r k) (rpmsg_virtio_ns_callback env e data d)"
  by (simp add: rpmsg_virtio_ns_callback_def Let_def put_rx_commutes split: option.split)

lemma callback_frame:
  "run_callback env e data src (put_rx q r k d) = map_option (map_prod id (put_rx q r k)) (run_callback env e data src d)"
proof (cases "ept_cb (epts d e)")
  case (Some c)
  show ?thesis
  proof (cases c)
    case (user_callback u)
    then show ?thesis using Some
      by (cases "env_call env u data src (rv_app (dev d))") (auto simp: run_callback_def put_rx_def)
  qed (simp add: run_callback_def Some ns_callback_frame)
qed (simp add: run_callback_def)

lemma dispatch_frame: "rx_dispatch env h (put_rx q r k d) = map_option (put_rx q r k) (rx_dispatch env h d)"
proof (cases "rpmsg_get_ept_from_addr (load32 (rv_mem (dev d)) (unat h + 4)) d")
  case None
  then show ?thesis by (simp add: rx_dispatch_def rpmsg_get_ept_from_addr_def put_rx_commutes Let_def)
next
  case (Some e)
  define src where "src = load32 (rv_mem (dev d)) (unat h)"
  define data where "data = load_bytes (rv_mem (dev d)) (unat h + 16) (unat (load16 (rv_mem (dev d)) (unat h + 12)))"
  define d0 where "d0 = (if ept_dest (epts d e) = RPMSG_ADDR_ANY then set_dest e src d else d)"
  have "(if ept_dest (epts d e) = RPMSG_ADDR_ANY then set_dest e src (put_rx q r k d) else put_rx q r k d) = put_rx q r k d0"
    by (simp add: d0_def put_rx_commutes)
  then show ?thesis using Some
    by (cases "run_callback env e data src d0")
      (auto simp: rx_dispatch_def rpmsg_get_ept_from_addr_def put_rx_commutes Let_def callback_frame src_def data_def d0_def)
qed

lemma put_rx_self: "put_rx (rvq (dev d)) (rring (dev d)) (rv_notified (dev d)) d = d"
  by (simp add: put_rx_def)

lemma dispatch_keeps:
  assumes "rx_dispatch env h d = Some d'"
  shows "rvq (dev d') = rvq (dev d)" and "rring (dev d') = rring (dev d)" and "rv_notified (dev d') = rv_notified (dev d)"
    and "rv_role (dev d') = rv_role (dev d)"
proof -
  have "rx_dispatch env h d = map_option (put_rx (rvq (dev d)) (rring (dev d)) (rv_notified (dev d))) (rx_dispatch env h d)"
    using dispatch_frame [of env h "rvq (dev d)" "rring (dev d)" "rv_notified (dev d)" d] by (simp only: put_rx_self)
  then have "d' = put_rx (rvq (dev d)) (rring (dev d)) (rv_notified (dev d)) d'" using assms by simp
  then show "rvq (dev d') = rvq (dev d)" "rring (dev d') = rring (dev d)" "rv_notified (dev d') = rv_notified (dev d)"
    by (metis put_rx_simps(6), metis put_rx_simps(7), metis put_rx_simps(8))
  show "rv_role (dev d') = rv_role (dev d)"
    using assms by (auto simp: rx_dispatch_def run_callback_def rpmsg_virtio_ns_callback_def Let_def set_dest_def on_app_def
        bind_eq_Some_conv split: option.splits ept_fun.splits if_splits prod.splits)
qed

end
