(* ===== verification/Rpmsg_Delivery.thy ===== *)
theory Rpmsg_Delivery
  imports Rpmsg_Virtio
begin

text \<open>
  The data path of RPMsg on the slave side, the role CPU1 has: a message sent is written, header
  and payload, to the buffer the master made available and returned to it; the receive callback
  hands every available message to its endpoint, in order, returns the buffers and ends.
\<close>

section \<open>Receiving\<close>

text \<open>A message is its source, its destination and its payload; its delivery hands the payload to
  the endpoint of the destination, which learns its peer from the first message.\<close>

type_synonym message = "u32 \<times> u32 \<times> bytes"

definition message_at :: "memory \<Rightarrow> addr \<Rightarrow> message" where
  "message_at m a = (load32 m a, load32 m (a + 4), load_bytes m (a + 16) (unat (load16 m (a + 12))))"

definition deliver :: "('c, 'a) rp_env \<Rightarrow> message \<Rightarrow> ('c, 'a) rpdev \<Rightarrow> ('c, 'a) rpdev option" where
  "deliver env msg d = (case msg of (src, dst, payload) \<Rightarrow>
     case rpmsg_get_ept_from_addr dst d of
       None \<Rightarrow> Some d
     | Some e \<Rightarrow>
         let d = (if ept_dest (epts d e) = RPMSG_ADDR_ANY then set_dest e src d else d)
         in case run_callback env e payload src d of None \<Rightarrow> None | Some (st, d) \<Rightarrow> if 0 \<le> st then Some d else None)"

lemma dispatch_delivers: "rx_dispatch env h d = deliver env (message_at (rv_mem (dev d)) (unat h)) d"
  by (simp add: rx_dispatch_def deliver_def message_at_def Let_def split: option.split)

fun deliver_all :: "('c, 'a) rp_env \<Rightarrow> message list \<Rightarrow> ('c, 'a) rpdev \<Rightarrow> ('c, 'a) rpdev option" where
  "deliver_all env [] d = Some d"
| "deliver_all env (x # xs) d = do { d \<leftarrow> deliver env x d; deliver_all env xs d }"

fun dispatch_all :: "('c, 'a) rp_env \<Rightarrow> u32 list \<Rightarrow> ('c, 'a) rpdev \<Rightarrow> ('c, 'a) rpdev option" where
  "dispatch_all env [] d = Some d"
| "dispatch_all env (h # hs) d = do { d \<leftarrow> rx_dispatch env h d; dispatch_all env hs d }"

lemma dispatch_all_frame: "dispatch_all env hs (put_rx q r k d) = map_option (put_rx q r k) (dispatch_all env hs d)"
proof (induction hs arbitrary: d)
  case (Cons h hs)
  then show ?case by (cases "rx_dispatch env h d") (simp_all add: dispatch_frame)
qed simp

lemma deliver_mem: "deliver env x d = Some d' \<Longrightarrow> rv_mem (dev d') = rv_mem (dev d)"
  by (auto simp: deliver_def run_callback_def rpmsg_virtio_ns_callback_def Let_def set_dest_def on_app_def
      split: option.splits ept_fun.splits if_splits prod.splits)

lemma dispatch_all_delivers:
  "dispatch_all env hs d = deliver_all env (map (\<lambda>h. message_at (rv_mem (dev d)) (unat h)) hs) d"
proof (induction hs arbitrary: d)
  case (Cons h hs)
  show ?case
  proof (cases "rx_dispatch env h d")
    case (Some d')
    then have "rv_mem (dev d') = rv_mem (dev d)" by (intro deliver_mem) (simp add: dispatch_delivers)
    then show ?thesis using Some Cons.IH [of d'] by (simp add: dispatch_delivers)
  qed (simp add: dispatch_delivers)
qed simp

text \<open>The address at which the receiver sees the first buffer of a request.\<close>

definition seen_at :: "metal_io_region \<Rightarrow> metal_io_region \<Rightarrow> request \<Rightarrow> u32 option" where
  "seen_at iod ios q = metal_io_phys_to_virt ios (metal_io_virt_to_phys iod (vb_buf (rq_bufs q ! 0)))"

abbreviation req_len :: "request \<Rightarrow> u32" where
  "req_len q \<equiv> vb_len (rq_bufs q ! 0)"

abbreviation req_idx :: "request \<Rightarrow> u16" where
  "req_idx q \<equiv> of_nat (hd (rq_chain q))"

lemma rx_get_none:
  assumes "rv_role v = VIRTIO_DEV_SLAVE" and "vq_inv n dv (rvq v) (rring v) V" and "vw_avail V = []"
  shows "rpmsg_virtio_get_rx_buffer v = Some ((0, 0, 0), v)"
  using assms by (simp add: rpmsg_virtio_get_rx_buffer_def take_none)

lemma rx_get_some:
  assumes "rv_role v = VIRTIO_DEV_SLAVE" and "vq_inv n dv (rvq v) (rring v) V" and "vw_avail V = q # A"
    and "one_page (shm_io (rvq v))" and "seen_at (shm_io dv) (shm_io (rvq v)) q = Some h"
  obtains q' where "rpmsg_virtio_get_rx_buffer v = Some ((h, req_len q, req_idx q), v\<lparr>rvq := q'\<rparr>)"
    and "vq_inv n dv q' (rring v) (V\<lparr>vw_avail := A, vw_taken := q # vw_taken V\<rparr>)" and "shm_io q' = shm_io (rvq v)"
proof -
  obtain p q' where t: "virtqueue_get_available_buffer (rvq v, rring v) = Some (Some (req_idx q, p, req_len q), q', rring v)"
    "metal_io_phys_to_virt (shm_io (rvq v)) (metal_io_virt_to_phys (shm_io dv) (vb_buf (rq_bufs q ! 0))) = Some p"
    "vq_inv n dv q' (rring v) (V\<lparr>vw_avail := A, vw_taken := q # vw_taken V\<rparr>)" "shm_io q' = shm_io (rvq v)"
    by (rule take_step [OF assms(2,3,4)])
  have "p = h" using t(2) assms(5) by (simp add: seen_at_def)
  then show thesis using t assms(1) by (intro that [of q']) (simp_all add: rpmsg_virtio_get_rx_buffer_def)
qed

lemma rx_return:
  assumes "rv_role v = VIRTIO_DEV_SLAVE" and "vq_inv n dv (rvq v) (rring v) V" and "vw_taken V = q # T"
  obtains q' r' where "rpmsg_virtio_return_buffer h l (req_idx q) v = Some (v\<lparr>rvq := q', rring := r'\<rparr>)"
    and "vq_inv n dv q' r' (V\<lparr>vw_taken := T, vw_used := vw_used V @ [(q, l)]\<rparr>)" and "shm_io q' = shm_io (rvq v)"
proof -
  have tk: "vw_taken V = [] @ q # T" using assms(3) by simp
  obtain q' r' where "virtqueue_add_consumed_buffer (req_idx q) l (rvq v, rring v) = Some (VQUEUE_SUCCESS, q', r')"
    "vq_inv n dv q' r' (V\<lparr>vw_taken := [] @ T, vw_used := vw_used V @ [(q, l)]\<rparr>)" "shm_io q' = shm_io (rvq v)"
    by (rule give_step [OF assms(2) tk])
  then show thesis using assms(1) by (intro that [of r' q']) (simp_all add: rpmsg_virtio_return_buffer_def)
qed

lemma kick_keeps_inv:
  "vq_inv n dv (sv\<lparr>vq_queued_cnt := k\<rparr>) r V = vq_inv n dv sv r V"
  by (simp add: vq_inv_def sizes_ok_def rings_ok_def)

lemma kick_receive_put:
  "\<exists>k. kick_receive (dev (put_rx q r j d)) = (dev (put_rx (q\<lparr>vq_queued_cnt := 0\<rparr>) r k d))"
  by (cases "fst (virtqueue_kick (q, r))")
    (auto simp: kick_receive_def virtqueue_kick_def put_rx_def intro: exI [of _ "Suc j"] exI [of _ j])

lemma rx_loop_null: "rx_loop env (0, l, i) d = Some d"
  by (subst rx_loop.simps) simp

lemma dev_put_rx: "d\<lparr>dev := dev (put_rx q r k d)\<rparr> = put_rx q r k d"
  by (simp add: put_rx_def)

lemma rx_update_order: "v\<lparr>rring := r, rvq := q\<rparr> = v\<lparr>rvq := q, rring := r\<rparr>"
  by simp

text \<open>One turn of the loop, up to the next buffer.\<close>

lemma rx_loop_turn:
  assumes "h \<noteq> 0" and "rx_dispatch env h d = Some d'" and "rpmsg_virtio_return_buffer h l i (dev d') = Some v"
    and "rpmsg_virtio_get_rx_buffer v = Some (b, v')"
  shows "rx_loop env (h, l, i) d = rx_loop env b (d'\<lparr>dev := (if fst b = 0 then kick_receive v' else v')\<rparr>)"
  using assms by (subst rx_loop.simps) (simp add: on_dev_def)

lemma rx_loop_last:
  assumes "vq_inv n dv (rvq (dev d)) (rring (dev d)) V" and "rv_role (dev d) = VIRTIO_DEV_SLAVE"
    and "vw_taken V = q # T" and "vw_avail V = []" and "h \<noteq> 0" and "rx_dispatch env h d = Some d'"
  shows "\<exists>q' r' k. rx_loop env (h, req_len q, req_idx q) d = Some (put_rx q' r' k d') \<and> vq_queued_cnt q' = 0 \<and>
    vq_inv n dv q' r' (V\<lparr>vw_taken := T, vw_used := vw_used V @ [(q, req_len q)]\<rparr>)"
proof -
  note keep = dispatch_keeps [OF assms(6)]
  let ?V = "V\<lparr>vw_taken := T, vw_used := vw_used V @ [(q, req_len q)]\<rparr>"
  obtain q2 r2 where ret: "rpmsg_virtio_return_buffer h (req_len q) (req_idx q) (dev d') = Some ((dev d')\<lparr>rvq := q2, rring := r2\<rparr>)"
    "vq_inv n dv q2 r2 ?V"
    by (rule rx_return [of "dev d'" n dv V q T]) (use assms keep in simp_all)
  let ?v = "(dev d')\<lparr>rvq := q2, rring := r2\<rparr>"
  have v: "?v = dev (put_rx q2 r2 (rv_notified (dev d')) d')" by (simp add: put_rx_def)
  have get: "rpmsg_virtio_get_rx_buffer ?v = Some ((0, 0, 0), ?v)"
    by (rule rx_get_none [of ?v n dv ?V]) (use assms keep ret(2) in simp_all)
  obtain k where k: "kick_receive ?v = dev (put_rx (q2\<lparr>vq_queued_cnt := 0\<rparr>) r2 k d')"
    using kick_receive_put [of q2 r2 "rv_notified (dev d')" d'] v by auto
  have "rx_loop env (h, req_len q, req_idx q) d = Some (put_rx (q2\<lparr>vq_queued_cnt := 0\<rparr>) r2 k d')"
    using rx_loop_turn [OF assms(5,6) ret(1) get] by (simp add: k dev_put_rx rx_loop_null)
  then show ?thesis using ret(2)
    by (intro exI [of _ "q2\<lparr>vq_queued_cnt := 0\<rparr>"] exI [of _ r2] exI [of _ k]) (simp add: kick_keeps_inv)
qed

lemma rx_loop_next:
  assumes "vq_inv n dv (rvq (dev d)) (rring (dev d)) V" and "one_page (shm_io (rvq (dev d)))"
    and "rv_role (dev d) = VIRTIO_DEV_SLAVE" and "vw_taken V = q # T" and "vw_avail V = qa # A" and "h \<noteq> 0"
    and "seen_at (shm_io dv) (shm_io (rvq (dev d))) qa = Some ha" and "ha \<noteq> 0" and "rx_dispatch env h d = Some d'"
  shows "\<exists>q' r'. rx_loop env (h, req_len q, req_idx q) d =
      rx_loop env (ha, req_len qa, req_idx qa) (put_rx q' r' (rv_notified (dev d')) d') \<and> shm_io q' = shm_io (rvq (dev d)) \<and>
    vq_inv n dv q' r' (V\<lparr>vw_avail := A, vw_taken := qa # T, vw_used := vw_used V @ [(q, req_len q)]\<rparr>)"
proof -
  note keep = dispatch_keeps [OF assms(9)]
  let ?V = "V\<lparr>vw_taken := T, vw_used := vw_used V @ [(q, req_len q)]\<rparr>"
  obtain q2 r2 where ret: "rpmsg_virtio_return_buffer h (req_len q) (req_idx q) (dev d') = Some ((dev d')\<lparr>rvq := q2, rring := r2\<rparr>)"
    "vq_inv n dv q2 r2 ?V" "shm_io q2 = shm_io (rvq (dev d'))"
    by (rule rx_return [of "dev d'" n dv V q T]) (use assms keep in simp_all)
  let ?v = "(dev d')\<lparr>rvq := q2, rring := r2\<rparr>"
  obtain q3 where get: "rpmsg_virtio_get_rx_buffer ?v = Some ((ha, req_len qa, req_idx qa), ?v\<lparr>rvq := q3\<rparr>)"
    "vq_inv n dv q3 r2 (?V\<lparr>vw_avail := A, vw_taken := qa # T\<rparr>)" "shm_io q3 = shm_io q2"
    by (rule rx_get_some [of ?v n dv ?V qa A]) (use assms keep ret in simp_all)
  have "?V\<lparr>vw_avail := A, vw_taken := qa # T\<rparr> = V\<lparr>vw_avail := A, vw_taken := qa # T, vw_used := vw_used V @ [(q, req_len q)]\<rparr>"
    by simp
  with get(2) have inv: "vq_inv n dv q3 r2 (V\<lparr>vw_avail := A, vw_taken := qa # T, vw_used := vw_used V @ [(q, req_len q)]\<rparr>)"
    by (simp only:)
  show ?thesis
    using rx_loop_turn [OF assms(6,9) ret(1) get(1)] assms(8) inv get(3) ret(3) keep(1)
    by (intro exI [of _ q3] exI [of _ r2]) (simp add: put_rx_def rx_update_order)
qed

lemma rx_loop_drains:
  assumes "vq_inv n dv (rvq (dev d)) (rring (dev d)) V" and "one_page (shm_io (rvq (dev d)))"
    and "rv_role (dev d) = VIRTIO_DEV_SLAVE" and "vw_taken V = q # T" and "vw_avail V = A" and "h \<noteq> 0"
    and "map (seen_at (shm_io dv) (shm_io (rvq (dev d)))) A = map Some hs" and "0 \<notin> set hs"
    and "dispatch_all env (h # hs) d = Some d1"
  shows "\<exists>q' r' k. rx_loop env (h, req_len q, req_idx q) d = Some (put_rx q' r' k d1) \<and> vq_queued_cnt q' = 0 \<and>
    vq_inv n dv q' r' (V\<lparr>vw_avail := [], vw_taken := T, vw_used := vw_used V @ map (\<lambda>q. (q, req_len q)) (q # A)\<rparr>)"
  using assms
proof (induction A arbitrary: d d1 V q h hs)
  case Nil
  then have d': "rx_dispatch env h d = Some d1" by (auto simp: bind_eq_Some_conv)
  have "V\<lparr>vw_avail := [], vw_taken := T, vw_used := vw_used V @ [(q, req_len q)]\<rparr> =
      V\<lparr>vw_taken := T, vw_used := vw_used V @ [(q, req_len q)]\<rparr>" using Nil.prems(5) by simp
  then show ?case using rx_loop_last [OF Nil.prems(1,3,4,5,6) d'] by simp
next
  case (Cons qa A)
  then obtain ha hs' where hs: "hs = ha # hs'" "seen_at (shm_io dv) (shm_io (rvq (dev d))) qa = Some ha"
    "map (seen_at (shm_io dv) (shm_io (rvq (dev d)))) A = map Some hs'" "ha \<noteq> 0" "0 \<notin> set hs'" by (cases hs) auto
  obtain d' where d': "rx_dispatch env h d = Some d'" "dispatch_all env hs d' = Some d1"
    using Cons.prems(9) by (auto simp: bind_eq_Some_conv)
  let ?V = "V\<lparr>vw_avail := A, vw_taken := qa # T, vw_used := vw_used V @ [(q, req_len q)]\<rparr>"
  obtain q3 r2 where run: "rx_loop env (h, req_len q, req_idx q) d =
      rx_loop env (ha, req_len qa, req_idx qa) (put_rx q3 r2 (rv_notified (dev d')) d')"
    and inv: "vq_inv n dv q3 r2 ?V" "shm_io q3 = shm_io (rvq (dev d))"
    using rx_loop_next [OF Cons.prems(1-6) hs(2,4) d'(1)] by auto
  let ?d = "put_rx q3 r2 (rv_notified (dev d')) d'"
  have disp: "dispatch_all env (ha # hs') ?d = Some (put_rx q3 r2 (rv_notified (dev d')) d1)"
    using d'(2) hs(1) by (simp add: dispatch_all_frame del: dispatch_all.simps)
  obtain q' r' k where IH: "rx_loop env (ha, req_len qa, req_idx qa) ?d =
      Some (put_rx q' r' k (put_rx q3 r2 (rv_notified (dev d')) d1))" "vq_queued_cnt q' = 0"
    "vq_inv n dv q' r' (?V\<lparr>vw_avail := [], vw_taken := T, vw_used := vw_used ?V @ map (\<lambda>q. (q, req_len q)) (qa # A)\<rparr>)"
    using Cons.IH [where d = ?d and V = ?V and q = qa and hs = hs', OF _ _ _ _ _ hs(4) _ hs(5) disp]
      inv dispatch_keeps(4) [OF d'(1)] Cons.prems(2,3) hs(3) by auto
  then show ?case by (intro exI [of _ q'] exI [of _ r'] exI [of _ k]) (simp add: run)
qed

lemma rx_callback_drains:
  assumes "vq_inv n dv (rvq (dev d)) (rring (dev d)) V" and "one_page (shm_io (rvq (dev d)))"
    and "rv_role (dev d) = VIRTIO_DEV_SLAVE"
    and "map (seen_at (shm_io dv) (shm_io (rvq (dev d)))) (vw_avail V) = map Some hs" and "0 \<notin> set hs"
    and "deliver_all env (map (\<lambda>h. message_at (rv_mem (dev d)) (unat h)) hs) d = Some d1"
  shows "\<exists>q r k. rpmsg_virtio_rx_callback env d = Some (put_rx q r k d1) \<and>
    vq_inv n dv q r (V\<lparr>vw_avail := [], vw_used := vw_used V @ map (\<lambda>q. (q, req_len q)) (vw_avail V)\<rparr>)"
proof (cases "vw_avail V")
  case Nil
  then have "rpmsg_virtio_rx_callback env d = Some d"
    using rx_get_none [OF assms(3,1)] by (simp add: rpmsg_virtio_rx_callback_def rx_loop_null)
  moreover have "hs = []" and eq: "V\<lparr>vw_avail := []\<rparr> = V" using Nil assms(4) by simp_all
  moreover have "vq_inv n dv (rvq (dev d)) (rring (dev d)) (V\<lparr>vw_avail := []\<rparr>)" unfolding eq by (rule assms(1))
  ultimately show ?thesis using assms(6) Nil
    by (intro exI [of _ "rvq (dev d)"] exI [of _ "rring (dev d)"] exI [of _ "rv_notified (dev d)"]) (simp add: put_rx_self)
next
  case (Cons q A)
  then obtain h hs' where hs: "hs = h # hs'" "seen_at (shm_io dv) (shm_io (rvq (dev d))) q = Some h"
    "map (seen_at (shm_io dv) (shm_io (rvq (dev d)))) A = map Some hs'" "h \<noteq> 0" "0 \<notin> set hs'"
    using assms(4,5) by (cases hs) auto
  obtain q1 where get: "rpmsg_virtio_get_rx_buffer (dev d) = Some ((h, req_len q, req_idx q), (dev d)\<lparr>rvq := q1\<rparr>)"
    "vq_inv n dv q1 (rring (dev d)) (V\<lparr>vw_avail := A, vw_taken := q # vw_taken V\<rparr>)" "shm_io q1 = shm_io (rvq (dev d))"
    by (rule rx_get_some [OF assms(3,1) Cons assms(2) hs(2)])
  let ?d = "put_rx q1 (rring (dev d)) (rv_notified (dev d)) d"
  let ?V = "V\<lparr>vw_avail := A, vw_taken := q # vw_taken V\<rparr>"
  have "dispatch_all env (h # hs') d = Some d1" using assms(6) hs(1) by (simp only: dispatch_all_delivers)
  then have "dispatch_all env (h # hs') ?d = Some (put_rx q1 (rring (dev d)) (rv_notified (dev d)) d1)"
    by (simp only: dispatch_all_frame option.map)
  from rx_loop_drains [where n = n and dv = dv and A = A and d = ?d and V = ?V and q = q and hs = hs' and T = "vw_taken V", OF _ _ _ _ _ hs(4) _ hs(5) this]
  obtain q' r' k where run: "rx_loop env (h, req_len q, req_idx q) ?d =
      Some (put_rx q' r' k (put_rx q1 (rring (dev d)) (rv_notified (dev d)) d1))"
    and inv: "vq_inv n dv q' r' (?V\<lparr>vw_avail := [], vw_taken := vw_taken V,
      vw_used := vw_used ?V @ map (\<lambda>q. (q, req_len q)) (q # A)\<rparr>)"
    using get assms(2,3) hs(3) by auto
  have "d\<lparr>dev := (dev d)\<lparr>rvq := q1\<rparr>\<rparr> = ?d" by (simp add: put_rx_def)
  then have "rpmsg_virtio_rx_callback env d = Some (put_rx q' r' k d1)"
    using get(1) run by (simp add: rpmsg_virtio_rx_callback_def)
  then show ?thesis using inv Cons by (intro exI [of _ q'] exI [of _ r'] exI [of _ k]) simp
qed

text \<open>
  C21: termination and delivery. Let the peer have made requests available whose
  buffers the slave sees at the addresses \<open>hs\<close>, and let the callbacks of the endpoints accept the
  messages there. The receive callback ends; it has delivered every message to the endpoint of its
  destination, in the order of the queue; every buffer is back with the peer, in the same order and
  with its full length, and the queue satisfies its invariant again.
\<close>

theorem rpmsg_receive:
  assumes "vq_inv n dv (rvq (dev d)) (rring (dev d)) V" and "one_page (shm_io (rvq (dev d)))"
    and "rv_role (dev d) = VIRTIO_DEV_SLAVE"
    and "map (seen_at (shm_io dv) (shm_io (rvq (dev d)))) (vw_avail V) = map Some hs" and "0 \<notin> set hs"
    and "deliver_all env (map (\<lambda>h. message_at (rv_mem (dev d)) (unat h)) hs) d = Some d1"
  shows "\<exists>q r k. rpmsg_virtio_rx_callback env d = Some (put_rx q r k d1) \<and>
    vq_inv n dv q r (V\<lparr>vw_avail := [], vw_used := vw_used V @ map (\<lambda>q. (q, req_len q)) (vw_avail V)\<rparr>)"
  by (rule rx_callback_drains [OF assms])

section \<open>Sending\<close>

lemma desc_size_none:
  assumes "vq_inv n dv sv r V" and "vw_avail V = []"
  shows "virtqueue_get_desc_size (sv, r) = Some 0"
  using assms by (simp add: virtqueue_get_desc_size_def vq_inv_def rings_ok_def)

lemma desc_size_some:
  assumes "vq_inv n dv sv r V" and "vw_avail V = q # A" and "one_page (shm_io sv)"
  shows "virtqueue_get_desc_size (sv, r) = Some (req_len q)"
  by (rule take_step [OF assms])
    (auto simp: virtqueue_get_available_buffer_def virtqueue_get_desc_size_def Let_def split: if_splits)

text \<open>The payload that fits, and the space left for it, as the \<open>int\<close> the code computes.\<close>

lemma payload_space:
  assumes "16 \<le> l" and "l < (2 :: u32) ^ 31"
  shows "max 0 (sint (l - sizeof_rpmsg_hdr)) = int (unat l) - 16"
proof -
  have l: "unat l < 2 ^ 31" "16 \<le> unat l" using assms by (simp_all add: word_less_nat_alt word_le_nat_alt)
  have u: "unat (l - 16) = unat l - 16" using assms(1) by (simp add: unat_sub)
  then have "sint (l - 16) = int (unat l - 16)" using sint_small [of "l - 16"] l(1) by (simp only: u)
  then show ?thesis using l(2) by (simp only: sizeof_rpmsg_hdr_def of_nat_diff)
qed

definition region_ok :: "metal_io_region \<Rightarrow> bool" where
  "region_ok io \<longleftrightarrow> one_page io \<and> unat (io_virt io) + unat (io_size io) \<le> 2 ^ 32"

definition in_region :: "metal_io_region \<Rightarrow> u32 \<Rightarrow> u32 \<Rightarrow> bool" where
  "in_region io b l \<longleftrightarrow> io_virt io \<le> b \<and> unat b + unat l \<le> unat (io_virt io) + unat (io_size io)"

lemma write_in_region:
  assumes "region_ok io" and "io_virt io \<le> b" and "unat b + length bs \<le> unat (io_virt io) + unat (io_size io)"
    and "unat b < unat (io_virt io) + unat (io_size io)"
  shows "metal_io_write_bytes io (metal_io_virt_to_offset io b) bs m = (int (length bs), store_bytes m (unat b) bs)"
proof -
  have off: "unat (b - io_virt io) = unat b - unat (io_virt io)" using assms(2) by (rule unat_sub)
  have lt: "b - io_virt io < io_size io" using off assms(2,4) by (simp add: word_less_nat_alt word_le_nat_alt)
  have "clip_len io (b - io_virt io) (length bs) = length bs"
    using off assms(2,3) by (intro clip_len_fits) (simp add: word_le_nat_alt)
  moreover have "metal_io_virt io (b - io_virt io) = b"
    using lt assms(1) by (simp add: metal_io_virt_def region_ok_def one_page_def)
  ultimately show ?thesis using lt by (simp add: metal_io_write_bytes_def metal_io_virt_to_offset_def not_le [symmetric])
qed

lemma length_enc_hdr [simp]: "length (enc_rpmsg_hdr src dst l fl) = 16"
  by (simp add: enc_rpmsg_hdr_def)

lemma message_stored:
  assumes "length data < 65536"
  shows "message_at (store_bytes m a (enc_rpmsg_hdr src dst (of_nat (length data)) fl @ data)) a = (src, dst, data)"
proof -
  let ?bs = "enc_rpmsg_hdr src dst (of_nat (length data)) fl @ data"
  let ?m = "store_bytes m a ?bs"
  have "load32 ?m a = src" using load_bytes_within [of 0 4 ?bs m a] by (simp add: load32_def enc_rpmsg_hdr_def)
  moreover have "load32 ?m (a + 4) = dst" using load_bytes_within [of 4 4 ?bs m a] by (simp add: load32_def enc_rpmsg_hdr_def)
  moreover have l: "load16 ?m (a + 12) = of_nat (length data)"
    using load_bytes_within [of 12 2 ?bs m a] by (simp add: load16_def enc_rpmsg_hdr_def)
  moreover have "load_bytes ?m (a + 16) (length data) = data" using load_bytes_within [of 16 "length data" ?bs m a] by simp
  ultimately show ?thesis using assms by (simp add: message_at_def unat_of_nat)
qed

lemma tx_get_none:
  assumes "rv_role v = VIRTIO_DEV_SLAVE" and "vq_inv n dv (svq v) (sring v) V" and "vw_avail V = []"
  shows "rpmsg_virtio_get_tx_buffer v = Some ((0, 0, 0), v)"
  using assms by (simp add: rpmsg_virtio_get_tx_buffer_def take_none)

lemma tx_get_some:
  assumes "rv_role v = VIRTIO_DEV_SLAVE" and "vq_inv n dv (svq v) (sring v) V" and "vw_avail V = q # A"
    and "one_page (shm_io (svq v))" and "seen_at (shm_io dv) (shm_io (svq v)) q = Some h"
  obtains q' where "rpmsg_virtio_get_tx_buffer v = Some ((h, req_len q, req_idx q), v\<lparr>svq := q'\<rparr>)"
    and "vq_inv n dv q' (sring v) (V\<lparr>vw_avail := A, vw_taken := q # vw_taken V\<rparr>)" and "shm_io q' = shm_io (svq v)"
proof -
  obtain p q' where t: "virtqueue_get_available_buffer (svq v, sring v) = Some (Some (req_idx q, p, req_len q), q', sring v)"
    "metal_io_phys_to_virt (shm_io (svq v)) (metal_io_virt_to_phys (shm_io dv) (vb_buf (rq_bufs q ! 0))) = Some p"
    "vq_inv n dv q' (sring v) (V\<lparr>vw_avail := A, vw_taken := q # vw_taken V\<rparr>)" "shm_io q' = shm_io (svq v)"
    by (rule take_step [OF assms(2,3,4)])
  have "p = h" using t(2) assms(5) by (simp add: seen_at_def)
  then show thesis using t assms(1) by (intro that [of q']) (simp_all add: rpmsg_virtio_get_tx_buffer_def)
qed

lemma tx_enqueue:
  assumes "rv_role v = VIRTIO_DEV_SLAVE" and "vq_inv n dv (svq v) (sring v) V" and "vw_taken V = q # T"
  obtains q' r' where "rpmsg_virtio_enqueue_buffer h l (req_idx q) v = Some (VQUEUE_SUCCESS, v\<lparr>svq := q', sring := r'\<rparr>)"
    and "vq_inv n dv q' r' (V\<lparr>vw_taken := T, vw_used := vw_used V @ [(q, l)]\<rparr>)"
proof -
  have tk: "vw_taken V = [] @ q # T" using assms(3) by simp
  obtain q' r' where "virtqueue_add_consumed_buffer (req_idx q) l (svq v, sring v) = Some (VQUEUE_SUCCESS, q', r')"
    "vq_inv n dv q' r' (V\<lparr>vw_taken := [] @ T, vw_used := vw_used V @ [(q, l)]\<rparr>)"
    by (rule give_step [OF assms(2) tk])
  then show thesis using assms(1) by (intro that [of r' q']) (simp_all add: rpmsg_virtio_enqueue_buffer_def)
qed

lemma slave_space:
  assumes "rv_role v = VIRTIO_DEV_SLAVE" and "vq_inv n dv (svq v) (sring v) V" and "vw_avail V = q # A"
    and "one_page (shm_io (svq v))" and "16 < req_len q" and "req_len q < 2 ^ 31"
  shows "rpmsg_virtio_get_buffer_size v = Some (int (unat (req_len q)) - 16)"
  using assms(1,5,6) desc_size_some [OF assms(2,3,4)] payload_space [of "req_len q"]
  by (simp add: rpmsg_virtio_get_buffer_size_def)

lemma wait_tx_takes:
  assumes "rpmsg_virtio_get_buffer_size v = Some a" and "a = 0 \<or> sz \<le> a"
    and "rpmsg_virtio_get_tx_buffer v = Some ((b, l, i), v')" and "b \<noteq> 0"
  shows "wait_tx_buffer env t sz v = Some (Inr (b, l, i), v')"
  using assms by (subst wait_tx_buffer.simps) auto

lemma wait_tx_too_large:
  assumes "rpmsg_virtio_get_buffer_size v = Some a" and "a \<noteq> 0" and "a < sz"
  shows "wait_tx_buffer env t sz v = Some (Inl RPMSG_ERR_BUFF_SIZE, v)"
  using assms by (subst wait_tx_buffer.simps) simp

lemma kick_send_keeps:
  "vq_inv n dv (svq (kick_send v)) (sring (kick_send v)) V = vq_inv n dv (svq v) (sring v) V"
  "rv_mem (kick_send v) = rv_mem v"
  by (simp_all add: kick_send_def virtqueue_kick_def kick_keeps_inv)

lemma send_stores:
  assumes "rv_role v = VIRTIO_DEV_SLAVE" and "vq_inv n dv (svq v) (sring v) V" and "region_ok (shm_io (svq v))"
    and "shbuf_io v = shm_io (svq v)" and "rv_status v AND VIRTIO_CONFIG_STATUS_DRIVER_OK \<noteq> 0"
    and "vw_avail V = q # A" and "seen_at (shm_io dv) (shm_io (svq v)) q = Some b" and "b \<noteq> 0"
    and "in_region (shm_io (svq v)) b (req_len q)" and "16 < req_len q" and "req_len q < 2 ^ 31"
    and "16 + length data \<le> unat (req_len q)"
  shows "\<exists>v'. rpmsg_virtio_send_offchannel_raw env src dst data wait v = Some (int (length data), v') \<and>
    rv_mem v' = store_bytes (rv_mem v) (unat b) (enc_rpmsg_hdr src dst (of_nat (length data)) (env_flags env) @ data) \<and>
    vq_inv n dv (svq v') (sring v') (V\<lparr>vw_avail := A, vw_used := vw_used V @ [(q, req_len q)]\<rparr>)"
proof -
  let ?io = "shm_io (svq v)" and ?h = "enc_rpmsg_hdr src dst (of_nat (length data)) (env_flags env)"
  have pg: "one_page ?io" using assms(3) by (simp add: region_ok_def)
  have len: "16 < unat (req_len q)" using assms(10) by (simp add: word_less_nat_alt)
  have size: "rpmsg_virtio_get_buffer_size v = Some (int (unat (req_len q)) - 16)"
    by (rule slave_space [OF assms(1,2,6) pg assms(10,11)])
  obtain q1 where get: "rpmsg_virtio_get_tx_buffer v = Some ((b, req_len q, req_idx q), v\<lparr>svq := q1\<rparr>)"
    "vq_inv n dv q1 (sring v) (V\<lparr>vw_avail := A, vw_taken := q # vw_taken V\<rparr>)"
    by (rule tx_get_some [OF assms(1,2,6) pg assms(7)])
  have fit: "int (length data) \<le> int (unat (req_len q)) - 16" using assms(12) by linarith
  have wait: "wait_tx_buffer env t (int (length data)) v = Some (Inr (b, req_len q, req_idx q), v\<lparr>svq := q1\<rparr>)" for t
    by (rule wait_tx_takes [OF size _ get(1) assms(8)]) (use fit in blast)
  have rg: "io_virt ?io \<le> b" "unat b + unat (req_len q) \<le> unat (io_virt ?io) + unat (io_size ?io)"
    using assms(9) by (simp_all add: in_region_def)
  have "unat b + 16 < 2 ^ 32" using rg(2) assms(3) len by (simp add: region_ok_def)
  then have b16: "unat (b + sizeof_rpmsg_hdr) = unat b + 16" by (simp add: sizeof_rpmsg_hdr_def unat_word_ariths)
  have w1: "metal_io_write_bytes ?io (metal_io_virt_to_offset ?io b) ?h (rv_mem v) = (16, store_bytes (rv_mem v) (unat b) ?h)"
    by (subst write_in_region [OF assms(3) rg(1)]) (use rg(2) len in simp_all)
  have "io_virt ?io \<le> b + sizeof_rpmsg_hdr" using rg(1) b16 by (simp add: word_le_nat_alt)
  then have w2: "metal_io_write_bytes ?io (metal_io_virt_to_offset ?io (b + sizeof_rpmsg_hdr)) data
      (store_bytes (rv_mem v) (unat b) ?h) = (int (length data), store_bytes (rv_mem v) (unat b) (?h @ data))"
    by (subst write_in_region [OF assms(3)]) (use rg(2) len b16 assms(12) in \<open>simp_all add: store_bytes_append\<close>)
  let ?v = "v\<lparr>svq := q1, rv_mem := store_bytes (rv_mem v) (unat b) (?h @ data)\<rparr>"
  obtain q2 r2 where enq: "rpmsg_virtio_enqueue_buffer b (req_len q) (req_idx q) ?v =
      Some (VQUEUE_SUCCESS, ?v\<lparr>svq := q2, sring := r2\<rparr>)"
    "vq_inv n dv q2 r2 (V\<lparr>vw_avail := A, vw_taken := q # vw_taken V\<rparr>
      \<lparr>vw_taken := vw_taken V, vw_used := vw_used (V\<lparr>vw_avail := A, vw_taken := q # vw_taken V\<rparr>) @ [(q, req_len q)]\<rparr>)"
    by (rule tx_enqueue [of ?v n dv "V\<lparr>vw_avail := A, vw_taken := q # vw_taken V\<rparr>" q "vw_taken V" b "req_len q"])
      (use assms(1) get(2) in simp_all)
  have "rpmsg_virtio_send_offchannel_raw env src dst data wait v =
      Some (int (length data), kick_send (?v\<lparr>svq := q2, sring := r2\<rparr>))"
    using assms(4,5) wait w1 w2 enq(1)
    by (simp add: rpmsg_virtio_send_offchannel_raw_def sizeof_rpmsg_hdr_def VQUEUE_SUCCESS_def)
  then show ?thesis using enq(2) by (simp add: kick_send_keeps)
qed


subsection \<open>A device with one buffer\<close>

definition demo_rp_env :: "(unit, (bytes \<times> u32) list) rp_env" where
  "demo_rp_env = \<lparr>env_call = (\<lambda>_ bs src log. Some (0, log @ [(bs, src)])), env_bind = (\<lambda>_ _ a. a), env_unbind = (\<lambda>_ a. a),
     env_sleep = id, env_flags = 0\<rparr>"

definition demo_rvdev :: "memory \<Rightarrow> virtqueue \<Rightarrow> vring \<Rightarrow> (bytes \<times> u32) list rvdev" where
  "demo_rvdev m sv r = \<lparr>rv_role = VIRTIO_DEV_SLAVE, rv_status = 4, rvq = sv, rring = r, svq = sv, sring = r, shbuf_io = demo_io,
     shpool = rpmsg_virtio_init_shm_pool 0 0, rv_mem = m, rv_notified = 0, rv_app = []\<rparr>"

definition demo_request :: request where
  "demo_request = \<lparr>rq_chain = [0], rq_bufs = [demo_buf], rq_readable = 0, rq_cookie = 0\<rparr>"

definition demo_view :: view where
  "demo_view = \<lparr>vw_free = [1], vw_avail = [demo_request], vw_taken = [], vw_used = []\<rparr>"

lemma demo_queue: "\<exists>dv sv r. vq_inv 2 dv sv r demo_view \<and> shm_io dv = demo_io \<and> shm_io sv = demo_io"
proof -
  obtain dv sv r where b: "vq_inv 2 dv sv r (empty_view 2)" "shm_io dv = demo_io" "shm_io sv = demo_io"
    by (rule vq_boot_inv [OF pow2_two, of 0 demo_io demo_io])
  have e: "vw_free (empty_view 2) = [0] @ [1]" by (simp add: empty_view_def numeral_2_eq_2)
  obtain dv' r' where a: "vq_inv 2 dv' sv r' ((empty_view 2)\<lparr>vw_free := [1], vw_avail := vw_avail (empty_view 2) @
      [\<lparr>rq_chain = [0], rq_bufs = [demo_buf], rq_readable = 0, rq_cookie = 0\<rparr>]\<rparr>)" "shm_io dv' = shm_io dv"
    by (rule add_buffer_step [OF b(1) e, of 0 1 "[demo_buf]" 0]) simp_all
  then have "vq_inv 2 dv' sv r' demo_view" by (simp add: demo_view_def demo_request_def empty_view_def)
  then show ?thesis using a(2) b by auto
qed

lemma demo_seen: "seen_at demo_io demo_io demo_request = Some 0x3E801000"
  using phys_to_virt_roundtrip [OF demo_io_page, of "0x3E801000"]
  by (simp add: seen_at_def demo_request_def demo_buf_def demo_io_def metal_io_init_def)


text \<open>A zeroed buffer holds the empty message from address 0 to address 0.\<close>

theorem rpmsg_receive_witness:
  "\<exists>d d1. deliver demo_rp_env (0, 0, []) d = Some d1 \<and> rv_app (dev d1) = [([], 0)] \<and>
     (\<exists>q r k. rpmsg_virtio_rx_callback demo_rp_env d = Some (put_rx q r k d1))"
proof -
  obtain dv sv r where q: "vq_inv 2 dv sv r demo_view" "shm_io dv = demo_io" "shm_io sv = demo_io" using demo_queue by auto
  define d where "d = \<lparr>epts = (\<lambda>_. \<lparr>ept_name = replicate 32 0, ept_rdev = True, ept_addr = 0, ept_dest = 7,
      ept_cb = Some (user_callback ()), ept_node = True\<rparr>), endpoints = [0], bitmap = [1, 0, 0, 0], support_ns = False,
      dev = demo_rvdev (\<lambda>_. 0) sv r\<rparr>"
  define d1 where "d1 = d\<lparr>dev := (dev d)\<lparr>rv_app := [([], 0)]\<rparr>\<rparr>"
  have del: "deliver demo_rp_env (0, 0, []) d = Some d1"
    by (simp add: deliver_def rpmsg_get_ept_from_addr_def rpmsg_get_endpoint_def ept_matches_def RPMSG_ADDR_ANY_def d_def d1_def
        run_callback_def demo_rp_env_def demo_rvdev_def)
  have msg: "message_at (rv_mem (dev d)) a = (0, 0, [])" for a
    by (simp add: message_at_def d_def demo_rvdev_def load32_def load16_def load_bytes_def le_word_zeros map_replicate_const)
  have "vq_inv 2 dv (rvq (dev d)) (rring (dev d)) demo_view" "one_page (shm_io (rvq (dev d)))" "rv_role (dev d) = VIRTIO_DEV_SLAVE"
    "map (seen_at (shm_io dv) (shm_io (rvq (dev d)))) (vw_avail demo_view) = map Some [0x3E801000]" "0 \<notin> set [0x3E801000 :: u32]"
    using q demo_io_page demo_seen by (simp_all add: d_def demo_rvdev_def demo_view_def)
  from rpmsg_receive [OF this, of demo_rp_env d1] del
  have "\<exists>q r k. rpmsg_virtio_rx_callback demo_rp_env d = Some (put_rx q r k d1)" by (auto simp: msg)
  then show ?thesis using del by (intro exI [of _ d] exI [of _ d1]) (simp add: d1_def)
qed

end
