(* ===== verification/Remoteproc.thy ===== *)
theory Remoteproc
  imports Virtqueue Rpmsg
begin

text \<open>
  The remoteproc layer as CPU1 uses it: the memories of a remote processor and the translation of
  their addresses (\<open>lib/remoteproc/remoteproc.c\<close>), the parser of the resource table
  (\<open>rsc_table_parser.c\<close>), the virtio devices it describes (\<open>remoteproc_virtio.c\<close>), the operations of
  the Zynq A9 (\<open>openamp/zynq_a9_rproc.c\<close>) and the resource table of CPU1 (\<open>openamp/rsc_table.c\<close>). The
  table is read from and written to memory where the code does so. Allocation succeeds; loading
  of firmware, which CPU1 never does, is in the theory \<open>Firmware_Load\<close>. An access outside the bit map and a failed
  \<open>metal_assert\<close> are the value \<open>None\<close>. The tests of the processor pointer against null are left out: the
  program has one static processor.
\<close>

section \<open>Data\<close>

definition RSC_NOTIFY_ID_ANY :: u32 where "RSC_NOTIFY_ID_ANY = 0xFFFFFFFF"
definition FW_RSC_U32_ADDR_ANY :: u32 where "FW_RSC_U32_ADDR_ANY = 0xFFFFFFFF"
definition RPROC_MAX_NAME_LEN :: nat where "RPROC_MAX_NAME_LEN = 32"
definition RPROC_EINVAL :: int where "RPROC_EINVAL = 2"
definition RPROC_ENODEV :: int where "RPROC_ENODEV = 3"
definition RPROC_EAGAIN :: int where "RPROC_EAGAIN = 4"
definition RPROC_ERR_RSC_TAB_TRUNC :: int where "RPROC_ERR_RSC_TAB_TRUNC = 5"
definition RPROC_ERR_RSC_TAB_VER :: int where "RPROC_ERR_RSC_TAB_VER = 6"
definition RPROC_ERR_RSC_TAB_RSVD :: int where "RPROC_ERR_RSC_TAB_RSVD = 7"
definition RPROC_ERR_RSC_TAB_NS :: int where "RPROC_ERR_RSC_TAB_NS = 11"
definition RSC_TAB_SUPPORTED_VERSION :: u32 where "RSC_TAB_SUPPORTED_VERSION = 1"
definition RSC_VDEV :: u32 where "RSC_VDEV = 3"
definition RSC_LAST :: u32 where "RSC_LAST = 4"
definition RSC_VENDOR_START :: u32 where "RSC_VENDOR_START = 128"
definition RSC_VENDOR_END :: u32 where "RSC_VENDOR_END = 512"

datatype rproc_state = RPROC_OFFLINE | RPROC_CONFIGURED | RPROC_READY | RPROC_RUNNING | RPROC_SUSPENDED | RPROC_ERROR | RPROC_STOPPED

record remoteproc_mem =
  mem_da :: u32
  mem_pa :: u32
  mem_size :: u32
  mem_name :: bytes
  mem_io :: metal_io_region

record virtio_vring_info =
  vi_extra :: u32
  vi_io :: "metal_io_region option"
  vi_notifyid :: u32
  vi_vaddr :: u32
  vi_num_descs :: u32
  vi_align :: u32

record remoteproc_virtio =
  vd_role :: virtio_role
  vd_notifyid :: u32
  vd_vrings :: "virtio_vring_info list"
  vd_rsc :: u32
  vd_rsc_io :: metal_io_region

text \<open>The state of the processor, with the private data of the platform (\<open>remoteproc_priv\<close>), the
  interrupts enabled for it and the values written to the software-interrupt register.\<close>

record remoteproc =
  rsc_table :: u32
  rsc_len :: u32
  rsc_io :: "metal_io_region option"
  rproc_mems :: "remoteproc_mem list"
  rproc_vdevs :: "remoteproc_virtio list"
  rproc_bitmap :: u32
  rproc_state :: rproc_state
  rproc_mem :: memory
  gic_io :: bool
  irq_to_notify :: u32
  irq_notification :: u32
  cpu_id :: u32
  nokick :: bool
  enabled_irqs :: "u32 list"
  soft_irqs :: "u32 list"

section \<open>Memories\<close>

fun get_mem_loop :: "bytes option \<Rightarrow> u32 \<Rightarrow> u32 \<Rightarrow> u32 \<Rightarrow> u32 \<Rightarrow> remoteproc_mem list \<Rightarrow> remoteproc_mem option" where
  "get_mem_loop name pa da va sz [] = None"
| "get_mem_loop name pa da va sz (m # ms) =
    (case name of
       Some s \<Rightarrow> if take (length s) (mem_name m) = s then Some m else get_mem_loop name pa da va sz ms
     | None \<Rightarrow>
         if pa \<noteq> METAL_BAD_PHYS then
           (if mem_pa m \<le> pa \<and> pa + sz \<le> mem_pa m + mem_size m then Some m else get_mem_loop name pa da va sz ms)
         else if da \<noteq> METAL_BAD_PHYS then
           (if mem_da m \<le> da \<and> da + sz \<le> mem_da m + mem_size m then Some m else get_mem_loop name pa da va sz ms)
         else if va \<noteq> 0 then
           (if metal_io_virt_to_offset (mem_io m) va \<noteq> METAL_BAD_OFFSET then Some m else get_mem_loop name pa da va sz ms)
         else None)"

definition remoteproc_get_mem :: "bytes option \<Rightarrow> u32 \<Rightarrow> u32 \<Rightarrow> u32 \<Rightarrow> u32 \<Rightarrow> remoteproc \<Rightarrow> remoteproc_mem option" where
  "remoteproc_get_mem name pa da va sz rp =
    (if (case name of Some s \<Rightarrow> RPROC_MAX_NAME_LEN < length s | None \<Rightarrow> False) then None
     else get_mem_loop name pa da va sz (rproc_mems rp))"

definition remoteproc_datopa :: "remoteproc_mem \<Rightarrow> u32 \<Rightarrow> u32" where
  "remoteproc_datopa m da = mem_pa m + da - mem_da m"

definition remoteproc_patoda :: "remoteproc_mem \<Rightarrow> u32 \<Rightarrow> u32" where
  "remoteproc_patoda m pa = mem_da m + pa - mem_pa m"

definition remoteproc_get_io_with_name :: "bytes \<Rightarrow> remoteproc \<Rightarrow> metal_io_region option" where
  "remoteproc_get_io_with_name name rp =
    map_option mem_io (remoteproc_get_mem (Some name) METAL_BAD_PHYS METAL_BAD_PHYS 0 0 rp)"

definition remoteproc_get_io_with_pa :: "u32 \<Rightarrow> remoteproc \<Rightarrow> metal_io_region option" where
  "remoteproc_get_io_with_pa pa rp = map_option mem_io (remoteproc_get_mem None pa METAL_BAD_PHYS 0 0 rp)"

text \<open>With a device address the offset in the region is returned too; its search may not end.\<close>

definition remoteproc_get_io_with_da :: "u32 \<Rightarrow> remoteproc \<Rightarrow> (metal_io_region \<times> u32) option option" where
  "remoteproc_get_io_with_da da rp =
    (case remoteproc_get_mem None METAL_BAD_PHYS da 0 0 rp of
       Some m \<Rightarrow> map_option (\<lambda>off. Some (mem_io m, off)) (metal_io_phys_to_offset (mem_io m) (remoteproc_datopa m da))
     | None \<Rightarrow> Some None)"

definition remoteproc_get_io_with_va :: "u32 \<Rightarrow> remoteproc \<Rightarrow> metal_io_region option" where
  "remoteproc_get_io_with_va va rp = map_option mem_io (remoteproc_get_mem None METAL_BAD_PHYS METAL_BAD_PHYS va 0 rp)"

definition remoteproc_init_mem :: "bytes option \<Rightarrow> u32 \<Rightarrow> u32 \<Rightarrow> u32 \<Rightarrow> metal_io_region \<Rightarrow> remoteproc_mem" where
  "remoteproc_init_mem name pa da sz io =
    \<lparr>mem_da = da, mem_pa = pa, mem_size = sz,
     mem_name = (case name of Some s \<Rightarrow> take RPROC_MAX_NAME_LEN (s @ replicate RPROC_MAX_NAME_LEN 0)
                 | None \<Rightarrow> replicate RPROC_MAX_NAME_LEN 0), mem_io = io\<rparr>"

definition remoteproc_add_mem :: "remoteproc_mem \<Rightarrow> remoteproc \<Rightarrow> remoteproc" where
  "remoteproc_add_mem m rp = rp\<lparr>rproc_mems := rproc_mems rp @ [m]\<rparr>"

definition NORM_NONCACHE :: u32 where "NORM_NONCACHE = 0x11DE2"
definition STRONG_ORDERED :: u32 where "STRONG_ORDERED = 0xC02"

text \<open>The mapping of the Zynq A9: the virtual address is the physical one. The result is the
  virtual address (null when there is none), the two addresses, and the region.\<close>

definition zynq_a9_proc_mmap ::
  "u32 \<Rightarrow> u32 \<Rightarrow> u32 \<Rightarrow> u32 \<Rightarrow> remoteproc \<Rightarrow> ((u32 \<times> u32 \<times> u32 \<times> metal_io_region option) \<times> remoteproc) option" where
  "zynq_a9_proc_mmap pa da sz attribute rp =
    (if pa = METAL_BAD_PHYS \<and> da = METAL_BAD_PHYS then Some ((0, pa, da, None), rp)
     else let lpa = (if pa = METAL_BAD_PHYS then da else pa);
              lda = (if da = METAL_BAD_PHYS then lpa else da);
              attribute = (if attribute = 0 then NORM_NONCACHE OR STRONG_ORDERED else attribute);
              io = metal_io_init lpa (Some (\<lambda>_. lpa)) sz 32 attribute;
              rp = remoteproc_add_mem (remoteproc_init_mem None lpa lda sz io) rp
          in map_option (\<lambda>va. ((va, lpa, lda, Some io), rp)) (metal_io_phys_to_virt io lpa))"

definition remoteproc_mmap ::
  "u32 option \<Rightarrow> u32 option \<Rightarrow> u32 \<Rightarrow> u32 \<Rightarrow> remoteproc \<Rightarrow>
   ((u32 \<times> u32 option \<times> u32 option \<times> metal_io_region option) \<times> remoteproc) option" where
  "remoteproc_mmap pa da sz attribute rp =
    (if pa = None \<and> da = None then Some ((0, pa, da, None), rp)
     else let lpa = (case pa of Some a \<Rightarrow> a | None \<Rightarrow> METAL_BAD_PHYS);
              lda = (case da of Some a \<Rightarrow> a | None \<Rightarrow> METAL_BAD_PHYS)
          in do {
            ((va, lpa, lda, io), rp) \<leftarrow>
              (case remoteproc_get_mem None lpa lda 0 sz rp of
                 Some m \<Rightarrow>
                   let lda' = (if lpa \<noteq> METAL_BAD_PHYS then remoteproc_patoda m lpa else lda);
                       lpa' = (if lpa \<noteq> METAL_BAD_PHYS then lpa else if lda \<noteq> METAL_BAD_PHYS then remoteproc_datopa m lda else lpa)
                   in map_option (\<lambda>va. ((va, lpa', lda', Some (mem_io m)), rp)) (metal_io_phys_to_virt (mem_io m) lpa')
               | None \<Rightarrow> zynq_a9_proc_mmap lpa lda sz attribute rp);
            Some ((va, map_option (\<lambda>_. lpa) pa, map_option (\<lambda>_. lda) da, io), rp) })"

section \<open>Notification ids\<close>

definition remoteproc_allocate_id :: "u32 \<Rightarrow> u32 \<Rightarrow> remoteproc \<Rightarrow> (u32 \<times> remoteproc) option" where
  "remoteproc_allocate_id start stop rp =
    (let start = (if start = RSC_NOTIFY_ID_ANY then 0 else start);
         stop = (if stop = 0 then 32 else stop)
     in do {
       notifyid \<leftarrow> metal_bitmap_next_clear_bit [rproc_bitmap rp] (unat start) (unat stop);
       if notifyid \<noteq> unat stop
       then do {
         bm \<leftarrow> metal_bitmap_set_bit [rproc_bitmap rp] notifyid;
         Some (of_nat notifyid, rp\<lparr>rproc_bitmap := bm ! 0\<rparr>) }
       else Some (RSC_NOTIFY_ID_ANY, rp) })"

section \<open>The resource table\<close>

definition sizeof_resource_table :: u32 where "sizeof_resource_table = 16"

abbreviation word_at :: "remoteproc \<Rightarrow> u32 \<Rightarrow> u32" where
  "word_at rp a \<equiv> load32 (rproc_mem rp) (unat a)"

definition put_word :: "u32 \<Rightarrow> u32 \<Rightarrow> remoteproc \<Rightarrow> remoteproc" where
  "put_word a v rp = rp\<lparr>rproc_mem := store32 (rproc_mem rp) (unat a) v\<rparr>"

definition handle_carve_out_rsc :: "u32 \<Rightarrow> remoteproc \<Rightarrow> (int \<times> remoteproc) option" where
  "handle_carve_out_rsc rsc rp =
    (if word_at rp (rsc + 20) \<noteq> 0 then Some (- RPROC_ERR_RSC_TAB_RSVD, rp)
     else do {
       ((va, _), rp) \<leftarrow> remoteproc_mmap (Some (word_at rp (rsc + 8))) (Some (word_at rp (rsc + 4)))
         (word_at rp (rsc + 12)) (word_at rp (rsc + 16)) rp;
       Some (if va \<noteq> 0 then 0 else - RPROC_EINVAL, rp) })"

text \<open>The operations of the Zynq A9 have no handler for vendor resources.\<close>

definition handle_vendor_rsc :: "u32 \<Rightarrow> remoteproc \<Rightarrow> (int \<times> remoteproc) option" where
  "handle_vendor_rsc rsc rp = Some (- RPROC_ERR_RSC_TAB_NS, rp)"

definition handle_trace_rsc :: "u32 \<Rightarrow> remoteproc \<Rightarrow> (int \<times> remoteproc) option" where
  "handle_trace_rsc rsc rp =
    Some (if word_at rp (rsc + 4) \<noteq> FW_RSC_U32_ADDR_ANY \<and> word_at rp (rsc + 8) \<noteq> 0 then 0 else - RPROC_ERR_RSC_TAB_NS, rp)"

definition handle_dummy_rsc :: "u32 \<Rightarrow> remoteproc \<Rightarrow> (int \<times> remoteproc) option" where
  "handle_dummy_rsc rsc rp = Some (- RPROC_ERR_RSC_TAB_NS, rp)"

text \<open>Offsets of \<open>fw_rsc_vdev\<close>: \<open>notifyid\<close> 8, \<open>dfeatures\<close> 12, \<open>gfeatures\<close> 16, \<open>status\<close> 24,
  \<open>num_of_vrings\<close> 25, \<open>vring\<close> 28; of its vring entries of 20 bytes: \<open>da\<close> 0, \<open>align\<close> 4, \<open>num\<close> 8,
  \<open>notifyid\<close> 12. The id of a vring is written to the device entry, as in the code.\<close>

definition alloc_rsc_id :: "u32 \<Rightarrow> u32 \<Rightarrow> remoteproc \<Rightarrow> remoteproc option" where
  "alloc_rsc_id rsc a rp = do {
     (notifyid, rp) \<leftarrow> remoteproc_allocate_id (word_at rp a) (word_at rp a + 1) rp;
     Some (if notifyid \<noteq> RSC_NOTIFY_ID_ANY then put_word (rsc + 8) notifyid rp else rp) }"

fun alloc_vring_ids :: "u32 \<Rightarrow> nat list \<Rightarrow> remoteproc \<Rightarrow> remoteproc option" where
  "alloc_vring_ids rsc [] rp = Some rp"
| "alloc_vring_ids rsc (i # is) rp = do {
     rp \<leftarrow> alloc_rsc_id rsc (rsc + 28 + of_nat i * 20 + 12) rp;
     alloc_vring_ids rsc is rp }"

definition handle_vdev_rsc :: "u32 \<Rightarrow> remoteproc \<Rightarrow> (int \<times> remoteproc) option" where
  "handle_vdev_rsc rsc rp = do {
     rp \<leftarrow> alloc_rsc_id rsc (rsc + 8) rp;
     rp \<leftarrow> alloc_vring_ids rsc [0..<unat (rproc_mem rp (unat (rsc + 25)))] rp;
     Some (0, rp) }"

definition handle_rsc :: "u32 \<Rightarrow> u32 \<Rightarrow> int \<Rightarrow> remoteproc \<Rightarrow> (int \<times> remoteproc) option" where
  "handle_rsc type rsc status rp =
    (if type = 0 then handle_carve_out_rsc rsc rp
     else if type = 1 then handle_dummy_rsc rsc rp
     else if type = 2 then handle_trace_rsc rsc rp
     else if type = RSC_VDEV then handle_vdev_rsc rsc rp
     else if RSC_VENDOR_START \<le> type \<and> type \<le> RSC_VENDOR_END then handle_vendor_rsc rsc rp
     else Some (status, rp))"

partial_function (option) rsc_loop ::
  "u32 \<Rightarrow> metal_io_region option \<Rightarrow> u32 \<Rightarrow> int \<Rightarrow> remoteproc \<Rightarrow> (int \<times> remoteproc) option" where
  "rsc_loop table io idx status rp =
    (if idx < word_at rp (table + 4) then
       let rsc_start = table + word_at rp (table + 16 + idx * 4)
       in if (case io of Some r \<Rightarrow> metal_io_virt_to_offset r rsc_start = METAL_BAD_OFFSET | None \<Rightarrow> False)
          then Some (- RPROC_ERR_RSC_TAB_TRUNC, rp)
          else do {
            (status, rp) \<leftarrow> handle_rsc (word_at rp rsc_start) rsc_start status rp;
            if status = - RPROC_ERR_RSC_TAB_NS then rsc_loop table io (idx + 1) 0 rp
            else if status \<noteq> 0 then Some (status, rp)
            else rsc_loop table io (idx + 1) status rp }
     else Some (status, rp))"

definition handle_rsc_table :: "u32 \<Rightarrow> u32 \<Rightarrow> metal_io_region option \<Rightarrow> remoteproc \<Rightarrow> (int \<times> remoteproc) option" where
  "handle_rsc_table table sz io rp =
    (if sz < sizeof_resource_table then Some (- RPROC_ERR_RSC_TAB_TRUNC, rp)
     else if word_at rp table \<noteq> RSC_TAB_SUPPORTED_VERSION then Some (- RPROC_ERR_RSC_TAB_VER, rp)
     else if sz < sizeof_resource_table + word_at rp (table + 4) * 4 then Some (- RPROC_ERR_RSC_TAB_TRUNC, rp)
     else if word_at rp (table + 8) \<noteq> 0 \<or> word_at rp (table + 12) \<noteq> 0 then Some (- RPROC_ERR_RSC_TAB_RSVD, rp)
     else rsc_loop table io 0 0 rp)"

text \<open>The offset of the \<open>index\<close>-th resource of a type, 0 when there is none.\<close>

fun find_loop :: "u32 \<Rightarrow> u32 \<Rightarrow> u32 \<Rightarrow> u32 \<Rightarrow> nat list \<Rightarrow> remoteproc \<Rightarrow> u32" where
  "find_loop table type index rsc_index [] rp = 0"
| "find_loop table type index rsc_index (i # is) rp =
    (let off = word_at rp (table + 16 + of_nat i * 4)
     in if word_at rp (table + off) = type
        then (if rsc_index = index then off else find_loop table type index (rsc_index + 1) is rp)
        else find_loop table type index rsc_index is rp)"

definition find_rsc :: "u32 \<Rightarrow> u32 \<Rightarrow> u32 \<Rightarrow> remoteproc \<Rightarrow> u32" where
  "find_rsc table type index rp = find_loop table type index 0 [0..<unat (word_at rp (table + 4))] rp"

definition remoteproc_parse_rsc_table :: "u32 \<Rightarrow> u32 \<Rightarrow> remoteproc \<Rightarrow> (int \<times> remoteproc) option" where
  "remoteproc_parse_rsc_table table sz rp = handle_rsc_table table sz (remoteproc_get_io_with_va table rp) rp"

definition remoteproc_set_rsc_table :: "u32 \<Rightarrow> u32 \<Rightarrow> remoteproc \<Rightarrow> (int \<times> remoteproc) option" where
  "remoteproc_set_rsc_table table sz rp =
    (case remoteproc_get_io_with_va table rp of
       None \<Rightarrow> Some (- RPROC_EINVAL, rp)
     | Some io \<Rightarrow> do {
         (ret, rp) \<leftarrow> remoteproc_parse_rsc_table table sz rp;
         Some (ret, if ret = 0 then rp\<lparr>rsc_table := table, rsc_len := sz, rsc_io := Some io\<rparr> else rp) })"

section \<open>Notifying the other core\<close>

definition GIC_DIST_SOFTINT :: u32 where "GIC_DIST_SOFTINT = 0xF00"
definition GIC_SFI_TRIG_CPU_MASK :: u32 where "GIC_SFI_TRIG_CPU_MASK = 0x00FF0000"
definition GIC_SFI_TRIG_INTID_MASK :: u32 where "GIC_SFI_TRIG_INTID_MASK = 0x0000000F"
definition GIC_CPU_ID_BASE :: nat where "GIC_CPU_ID_BASE = 16"

definition zynq_a9_proc_notify :: "u32 \<Rightarrow> remoteproc \<Rightarrow> int \<times> remoteproc" where
  "zynq_a9_proc_notify notifyid rp =
    (if \<not> gic_io rp then (- 1, rp)
     else (0, rp\<lparr>soft_irqs := soft_irqs rp @ [(push_bit (GIC_CPU_ID_BASE + unat (cpu_id rp)) 1 OR irq_to_notify rp) AND
       (GIC_SFI_TRIG_CPU_MASK OR GIC_SFI_TRIG_INTID_MASK)]\<rparr>))"

definition remoteproc_virtio_notify :: "u32 \<Rightarrow> remoteproc \<Rightarrow> int \<times> remoteproc" where
  "remoteproc_virtio_notify notifyid rp = zynq_a9_proc_notify notifyid rp"

definition zynq_a9_proc_irq_handler :: "remoteproc \<Rightarrow> remoteproc" where
  "zynq_a9_proc_irq_handler rp = rp\<lparr>nokick := False\<rparr>"

text \<open>The device and its region are found by libmetal; whether they are is a parameter.\<close>

definition zynq_a9_proc_init :: "bool \<Rightarrow> bool \<Rightarrow> remoteproc \<Rightarrow> bool \<times> remoteproc" where
  "zynq_a9_proc_init dev_found io_found rp =
    (if \<not> dev_found then (False, rp)
     else if \<not> io_found then (False, rp\<lparr>gic_io := False\<rparr>)
     else (True, rp\<lparr>gic_io := True, nokick := True, enabled_irqs := irq_notification rp # enabled_irqs rp\<rparr>))"

definition zynq_a9_proc_remove :: "remoteproc \<Rightarrow> remoteproc" where
  "zynq_a9_proc_remove rp = rp\<lparr>enabled_irqs := removeAll (irq_to_notify rp) (enabled_irqs rp)\<rparr>"

section \<open>Life cycle\<close>

definition remoteproc_init :: "bool \<Rightarrow> bool \<Rightarrow> remoteproc \<Rightarrow> bool \<times> remoteproc" where
  "remoteproc_init dev_found io_found rp =
    zynq_a9_proc_init dev_found io_found (rp\<lparr>rsc_table := 0, rsc_len := 0, rsc_io := None, rproc_mems := [], rproc_vdevs := [],
      rproc_bitmap := 0, rproc_state := RPROC_OFFLINE\<rparr>)"

definition remoteproc_remove :: "remoteproc \<Rightarrow> int \<times> remoteproc" where
  "remoteproc_remove rp =
    (if rproc_state rp = RPROC_OFFLINE then (0, zynq_a9_proc_remove rp) else (- RPROC_EAGAIN, rp))"

text \<open>The Zynq A9 has no \<open>config\<close>, \<open>start\<close>, \<open>stop\<close> and \<open>shutdown\<close> operation: starting calls a null
  pointer, stopping returns its initial value.\<close>

definition remoteproc_config :: "remoteproc \<Rightarrow> int \<times> remoteproc" where
  "remoteproc_config rp =
    (if rproc_state rp = RPROC_OFFLINE then (0, rp\<lparr>rproc_state := RPROC_READY\<rparr>) else (- RPROC_EINVAL, rp))"

definition remoteproc_start :: "remoteproc \<Rightarrow> (int \<times> remoteproc) option" where
  "remoteproc_start rp = (if rproc_state rp = RPROC_READY then None else Some (- RPROC_EINVAL, rp))"

definition remoteproc_stop :: "remoteproc \<Rightarrow> int \<times> remoteproc" where
  "remoteproc_stop rp =
    (if rproc_state rp \<noteq> RPROC_STOPPED \<and> rproc_state rp \<noteq> RPROC_OFFLINE
     then (- RPROC_ENODEV, rp\<lparr>rproc_state := RPROC_STOPPED\<rparr>) else (0, rp))"

definition remoteproc_shutdown :: "remoteproc \<Rightarrow> int \<times> remoteproc" where
  "remoteproc_shutdown rp =
    (if rproc_state rp \<noteq> RPROC_OFFLINE then (0, rp\<lparr>rproc_state := RPROC_OFFLINE\<rparr>) else (0, rp))"

section \<open>Virtio devices\<close>

definition vdev_read :: "remoteproc_virtio \<Rightarrow> u32 \<Rightarrow> nat \<Rightarrow> memory \<Rightarrow> u64 option" where
  "vdev_read vd field width m = metal_io_read (vd_rsc_io vd) (metal_io_virt_to_offset (vd_rsc_io vd) (vd_rsc vd + field)) width m"

definition vdev_write :: "remoteproc_virtio \<Rightarrow> u32 \<Rightarrow> u64 \<Rightarrow> nat \<Rightarrow> remoteproc \<Rightarrow> remoteproc option" where
  "vdev_write vd field v width rp =
    map_option (\<lambda>m. rp\<lparr>rproc_mem := m\<rparr>)
      (metal_io_write (vd_rsc_io vd) (metal_io_virt_to_offset (vd_rsc_io vd) (vd_rsc vd + field)) v width (rproc_mem rp))"

definition rproc_virtio_get_status :: "remoteproc_virtio \<Rightarrow> memory \<Rightarrow> u8 option" where
  "rproc_virtio_get_status vd m = map_option ucast (vdev_read vd 24 1 m)"

definition rproc_virtio_set_status :: "remoteproc_virtio \<Rightarrow> u8 \<Rightarrow> remoteproc \<Rightarrow> remoteproc option" where
  "rproc_virtio_set_status vd status rp =
    map_option (\<lambda>rp. snd (remoteproc_virtio_notify (vd_notifyid vd) rp)) (vdev_write vd 24 (ucast status) 1 rp)"

definition rproc_virtio_get_dfeatures :: "remoteproc_virtio \<Rightarrow> memory \<Rightarrow> u32 option" where
  "rproc_virtio_get_dfeatures vd m = map_option ucast (vdev_read vd 12 4 m)"

definition rproc_virtio_get_features :: "remoteproc_virtio \<Rightarrow> memory \<Rightarrow> u32 option" where
  "rproc_virtio_get_features vd m = do {
     gfeatures \<leftarrow> map_option ucast (vdev_read vd 16 4 m);
     dfeatures \<leftarrow> rproc_virtio_get_dfeatures vd m;
     Some (dfeatures AND gfeatures) }"

definition rproc_virtio_set_features :: "remoteproc_virtio \<Rightarrow> u32 \<Rightarrow> remoteproc \<Rightarrow> remoteproc option" where
  "rproc_virtio_set_features vd features rp =
    map_option (\<lambda>rp. snd (remoteproc_virtio_notify (vd_notifyid vd) rp)) (vdev_write vd 16 (ucast features) 4 rp)"

definition rproc_virtio_negotiate_features :: "remoteproc_virtio \<Rightarrow> u32 \<Rightarrow> remoteproc \<Rightarrow> remoteproc option" where
  "rproc_virtio_negotiate_features vd features rp = do {
     dfeatures \<leftarrow> rproc_virtio_get_dfeatures vd (rproc_mem rp);
     rproc_virtio_set_features vd (dfeatures AND features) rp }"

definition rproc_virtio_reset_device :: "remoteproc_virtio \<Rightarrow> remoteproc \<Rightarrow> remoteproc option" where
  "rproc_virtio_reset_device vd rp =
    (if vd_role vd = VIRTIO_DEV_MASTER then rproc_virtio_set_status vd 0x40 rp else Some rp)"

text \<open>The notify function of a virtqueue, by its index.\<close>

definition rproc_virtio_virtqueue_notify :: "remoteproc_virtio \<Rightarrow> nat \<Rightarrow> remoteproc \<Rightarrow> remoteproc option" where
  "rproc_virtio_virtqueue_notify vd vq_id rp =
    (if vq_id < length (vd_vrings vd)
     then Some (snd (remoteproc_virtio_notify (vi_notifyid (vd_vrings vd ! vq_id)) rp)) else None)"

definition rproc_virtio_create_vdev ::
  "virtio_role \<Rightarrow> u32 \<Rightarrow> u32 \<Rightarrow> metal_io_region \<Rightarrow> remoteproc \<Rightarrow> (remoteproc_virtio \<times> remoteproc) option" where
  "rproc_virtio_create_vdev role notifyid rsc io rp =
    (let vd = \<lparr>vd_role = role, vd_notifyid = notifyid,
           vd_vrings = map (\<lambda>i. \<lparr>vi_extra = (if role = VIRTIO_DEV_MASTER then word_at rp (rsc + 28 + of_nat i * 20 + 8) else 0),
             vi_io = None, vi_notifyid = 0, vi_vaddr = 0, vi_num_descs = 0, vi_align = 0\<rparr>)
             [0..<unat (rproc_mem rp (unat (rsc + 25)))],
           vd_rsc = rsc, vd_rsc_io = io\<rparr>
     in if role = VIRTIO_DEV_MASTER then do {
          dfeatures \<leftarrow> rproc_virtio_get_dfeatures vd (rproc_mem rp);
          rp \<leftarrow> rproc_virtio_negotiate_features vd dfeatures rp;
          Some (vd, rp) }
        else Some (vd, rp))"

definition rproc_virtio_init_vring ::
  "nat \<Rightarrow> u32 \<Rightarrow> u32 \<Rightarrow> metal_io_region option \<Rightarrow> u32 \<Rightarrow> u32 \<Rightarrow> remoteproc_virtio \<Rightarrow> int \<times> remoteproc_virtio" where
  "rproc_virtio_init_vring index notifyid va io num_descs align vd =
    (if length (vd_vrings vd) \<le> index then (- RPROC_EINVAL, vd)
     else (0, vd\<lparr>vd_vrings := (vd_vrings vd)[index := (vd_vrings vd ! index)\<lparr>vi_io := io, vi_notifyid := notifyid, vi_vaddr := va,
       vi_num_descs := num_descs, vi_align := align\<rparr>]\<rparr>))"

text \<open>The virtqueues whose notification function is called, in order.\<close>

definition rproc_virtio_notified :: "u32 \<Rightarrow> remoteproc_virtio \<Rightarrow> int \<times> nat list" where
  "rproc_virtio_notified notifyid vd =
    (if vd_notifyid vd = notifyid then (0, [])
     else (0, filter (\<lambda>i. vi_notifyid (vd_vrings vd ! i) = notifyid \<or> notifyid = RSC_NOTIFY_ID_ANY) [0..<length (vd_vrings vd)]))"

text \<open>The busy wait for the driver: \<open>ms k\<close> is the memory at the \<open>k\<close>-th read of the status.\<close>

partial_function (option) wait_driver_ok :: "remoteproc_virtio \<Rightarrow> (nat \<Rightarrow> memory) \<Rightarrow> nat \<Rightarrow> nat option" where
  "wait_driver_ok vd ms k = do {
     status \<leftarrow> rproc_virtio_get_status vd (ms k);
     if status AND 4 \<noteq> 0 then Some k else wait_driver_ok vd ms (k + 1) }"

definition rproc_virtio_wait_remote_ready :: "remoteproc_virtio \<Rightarrow> (nat \<Rightarrow> memory) \<Rightarrow> remoteproc \<Rightarrow> remoteproc option" where
  "rproc_virtio_wait_remote_ready vd ms rp =
    (if vd_role vd = VIRTIO_DEV_MASTER then Some rp
     else map_option (\<lambda>k. rp\<lparr>rproc_mem := ms k\<rparr>) (wait_driver_ok vd ms 0))"

text \<open>Each vring of the table is mapped and entered in the device; the flag tells success.\<close>

fun init_vrings :: "nat list \<Rightarrow> remoteproc_virtio \<Rightarrow> remoteproc \<Rightarrow> (bool \<times> remoteproc_virtio \<times> remoteproc) option" where
  "init_vrings [] vd rp = Some (True, vd, rp)"
| "init_vrings (i # is) vd rp =
    (let vring = vd_rsc vd + 28 + of_nat i * 20;
         num_descs = word_at rp (vring + 8); align = word_at rp (vring + 4); notifyid = word_at rp (vring + 12)
     in do {
       ((va, _, _, io), rp) \<leftarrow> remoteproc_mmap None (Some (word_at rp vring)) (vring_size num_descs align) 0 rp;
       if va = 0 then Some (False, vd, rp)
       else (let (ret, vd) = rproc_virtio_init_vring i notifyid va io num_descs align vd
             in if ret \<noteq> 0 then Some (False, vd, rp) else init_vrings is vd rp) })"

text \<open>The device is its position in the list of devices; \<open>None\<close> is a null pointer.\<close>

definition remoteproc_create_virtio ::
  "u32 \<Rightarrow> virtio_role \<Rightarrow> (nat \<Rightarrow> memory) \<Rightarrow> remoteproc \<Rightarrow> (nat option \<times> remoteproc) option" where
  "remoteproc_create_virtio vdev_id role ms rp =
    (let off = find_rsc (rsc_table rp) RSC_VDEV vdev_id rp
     in if off = 0 then Some (None, rp)
        else let rsc = rsc_table rp + off; notifyid = word_at rp (rsc + 8);
                 created = filter (\<lambda>i. vd_notifyid (rproc_vdevs rp ! i) = notifyid) [0..<length (rproc_vdevs rp)]
             in if created \<noteq> [] then Some (Some (hd created), rp)
                else case rsc_io rp of
                  None \<Rightarrow> None
                | Some io \<Rightarrow> do {
                    (vd, rp) \<leftarrow> rproc_virtio_create_vdev role notifyid rsc io rp;
                    rp \<leftarrow> rproc_virtio_wait_remote_ready vd ms rp;
                    (ok, vd, rp) \<leftarrow> init_vrings [0..<unat (rproc_mem rp (unat (rsc + 25)))] vd rp;
                    Some (if ok then (Some (length (rproc_vdevs rp)), rp\<lparr>rproc_vdevs := rproc_vdevs rp @ [vd]\<rparr>) else (None, rp)) })"

definition remoteproc_remove_virtio :: "nat \<Rightarrow> remoteproc \<Rightarrow> remoteproc" where
  "remoteproc_remove_virtio i rp = rp\<lparr>rproc_vdevs := take i (rproc_vdevs rp) @ drop (Suc i) (rproc_vdevs rp)\<rparr>"

text \<open>The virtqueues notified, as pairs of device and queue.\<close>

definition remoteproc_get_notification :: "u32 \<Rightarrow> remoteproc \<Rightarrow> int \<times> (nat \<times> nat) list" where
  "remoteproc_get_notification notifyid rp =
    (0, concat (map (\<lambda>i. map (Pair i) (snd (rproc_virtio_notified notifyid (rproc_vdevs rp ! i)))) [0..<length (rproc_vdevs rp)]))"

end
