(* ===== verification/Openamp_Platform.thy ===== *)
theory Openamp_Platform
  imports Remoteproc
begin

text \<open>
  The platform of the OpenAMP variant (\<open>openamp/platform_info.c\<close>) and the resource table of CPU1
  (\<open>openamp/rsc_table.c\<close>): creation of the remote processor with its memories, polling for
  notifications, and what the parser makes of the table.
\<close>

section \<open>The resource table of CPU1\<close>

definition VRING_ALIGN :: u32 where "VRING_ALIGN = 0x1000"
definition VRING_SIZE :: u32 where "VRING_SIZE = 256"
definition NUM_VRINGS :: u8 where "NUM_VRINGS = 2"

definition resources :: bytes where
  "resources = concat (map (le_bytes 4) ([1, 1, 0, 0] @ [48, 0, 0, 0, 0, 0, 0, 0 :: u32])) @
     concat (map (le_bytes 4) [RSC_VDEV, 7, 0, 1, 0, 0]) @ [0, NUM_VRINGS, 0, 0] @
     concat (map (le_bytes 4) [FW_RSC_U32_ADDR_ANY, VRING_ALIGN, VRING_SIZE, 1, 0]) @
     concat (map (le_bytes 4) [FW_RSC_U32_ADDR_ANY, VRING_ALIGN, VRING_SIZE, 2, 0])"

definition get_resource_table :: "u32 \<Rightarrow> u32 \<times> u32" where
  "get_resource_table table = (table, of_nat (length resources))"

section \<open>Creation\<close>

definition SHARED_MEM_PA :: u32 where "SHARED_MEM_PA = 0x3E800000"
definition SHARED_MEM_SIZE :: u32 where "SHARED_MEM_SIZE = 0x80000"
definition SHARED_BUF_OFFSET :: u32 where "SHARED_BUF_OFFSET = 0x80000"
definition SGI_TO_NOTIFY :: u32 where "SGI_TO_NOTIFY = 15"
definition SGI_NOTIFICATION :: u32 where "SGI_NOTIFICATION = 14"
definition ZYNQ_CPU_ID_MASK :: u32 where "ZYNQ_CPU_ID_MASK = 1"

text \<open>The static processor before its initialisation; \<open>XPAR_CPU_ID\<close> is 1 on this core.\<close>

definition rproc_inst :: "memory \<Rightarrow> remoteproc" where
  "rproc_inst m = \<lparr>rsc_table = 0, rsc_len = 0, rsc_io = None, rproc_mems = [], rproc_vdevs = [], rproc_bitmap = 0,
     rproc_state = RPROC_OFFLINE, rproc_mem = m, gic_io = False, irq_to_notify = SGI_TO_NOTIFY,
     irq_notification = SGI_NOTIFICATION, cpu_id = NOT 1 AND ZYNQ_CPU_ID_MASK, nokick = False, enabled_irqs = [], soft_irqs = []\<rparr>"

text \<open>The table lies at \<open>table\<close>; the flags tell whether libmetal finds the interrupt controller and its
  region. The first component of the result tells whether a processor was created.\<close>

definition platform_create_proc :: "bool \<Rightarrow> bool \<Rightarrow> u32 \<Rightarrow> remoteproc \<Rightarrow> (bool \<times> remoteproc) option" where
  "platform_create_proc dev_found io_found table rp =
    (let (rsc, rsc_size) = get_resource_table table;
         (ok, rp) = remoteproc_init dev_found io_found rp
     in if \<not> ok then Some (False, rp)
        else do {
          ((_, _, _, io), rp) \<leftarrow> remoteproc_mmap (Some rsc) None rsc_size (NORM_NONCACHE OR STRONG_ORDERED) rp;
          let rp = (case io of Some _ \<Rightarrow> rp\<lparr>rsc_io := io\<rparr> | None \<Rightarrow> rp);
          (_, rp) \<leftarrow> remoteproc_mmap (Some SHARED_MEM_PA) None SHARED_MEM_SIZE (NORM_NONCACHE OR STRONG_ORDERED) rp;
          (ret, rp) \<leftarrow> remoteproc_set_rsc_table rsc rsc_size rp;
          Some (if ret \<noteq> 0 then (False, snd (remoteproc_remove rp)) else (True, rp)) })"

definition EINVAL_platform :: int where "EINVAL_platform = 22"

definition platform_init :: "bool \<Rightarrow> bool \<Rightarrow> u32 \<Rightarrow> remoteproc \<Rightarrow> (int \<times> remoteproc) option" where
  "platform_init dev_found io_found table rp =
    map_option (\<lambda>(ok, rp). (if ok then 0 else - EINVAL_platform, rp)) (platform_create_proc dev_found io_found table rp)"

definition platform_cleanup :: "remoteproc \<Rightarrow> remoteproc" where
  "platform_cleanup rp = snd (remoteproc_remove rp)"

definition platform_release_rpmsg_vdev :: "remoteproc \<Rightarrow> remoteproc" where
  "platform_release_rpmsg_vdev rp = rp"

section \<open>Polling\<close>

definition platform_poll_noblock :: "remoteproc \<Rightarrow> (int \<times> (nat \<times> nat) list) \<times> remoteproc" where
  "platform_poll_noblock rp =
    (if \<not> nokick rp then ((1, snd (remoteproc_get_notification RSC_NOTIFY_ID_ANY rp)), rp\<lparr>nokick := True\<rparr>)
     else ((0, []), rp))"

text \<open>The blocking poll; \<open>kick k\<close> tells whether the interrupt handler has run by the \<open>k\<close>-th test.\<close>

partial_function (option) platform_poll :: "(nat \<Rightarrow> bool) \<Rightarrow> nat \<Rightarrow> remoteproc \<Rightarrow> ((int \<times> (nat \<times> nat) list) \<times> remoteproc) option" where
  "platform_poll kick k rp =
    (let rp = (if kick k then zynq_a9_proc_irq_handler rp else rp)
     in if \<not> nokick rp then Some ((0, snd (remoteproc_get_notification RSC_NOTIFY_ID_ANY rp)), rp\<lparr>nokick := True\<rparr>)
        else platform_poll kick (k + 1) rp)"

section \<open>What the parser makes of the table\<close>

definition cpu1_table :: "memory \<Rightarrow> nat \<Rightarrow> bool" where
  "cpu1_table m a \<longleftrightarrow> load32 m a = 1 \<and> load32 m (a + 4) = 1 \<and> load32 m (a + 8) = 0 \<and> load32 m (a + 12) = 0 \<and>
     load32 m (a + 16) = 48 \<and> load32 m (a + 48) = RSC_VDEV \<and> load32 m (a + 56) = 0 \<and> m (a + 73) = NUM_VRINGS \<and>
     load32 m (a + 88) = 1 \<and> load32 m (a + 108) = 2"

lemma length_resources: "length resources = 116"
  by (simp add: resources_def)

lemma load_within: "off + 4 \<le> length bs \<Longrightarrow> load32 (store_bytes m a bs) (a + off) = le_word (take 4 (drop off bs))"
  by (simp add: load32_def load_bytes_within)

lemma resources_table: "cpu1_table (store_bytes m a resources) a"
proof -
  have w: "off + 4 \<le> 116 \<Longrightarrow> load32 (store_bytes m a resources) (a + off) = le_word (take 4 (drop off resources))" for off
    using load_within [of off resources m a] by (simp add: length_resources)
  have "store_bytes m a resources (a + 73) = NUM_VRINGS"
    by (simp add: store_bytes_def length_resources) (simp add: resources_def nth_append)
  then show ?thesis unfolding cpu1_table_def
    using w [of 0] w [of 4] w [of 8] w [of 12] w [of 16] w [of 48] w [of 56] w [of 88] w [of 108]
    by (simp add: resources_def)
qed

lemma table_address:
  "unat R + 116 \<le> 2 ^ 32 \<Longrightarrow> k < 116 \<Longrightarrow> unat (R + of_nat k :: u32) = unat R + k"
  by (simp add: unat_word_ariths unat_of_nat)

lemma table_addresses:
  assumes "unat (R :: u32) + 116 \<le> 2 ^ 32"
  shows "unat (R + 4) = unat R + 4" "unat (R + 8) = unat R + 8" "unat (R + 12) = unat R + 12" "unat (R + 16) = unat R + 16"
    "unat (R + 48) = unat R + 48" "unat (R + 56) = unat R + 56" "unat (R + 73) = unat R + 73" "unat (R + 88) = unat R + 88"
    "unat (R + 108) = unat R + 108" "unat (R + 72) = unat R + 72" "unat (R + 76) = unat R + 76" "unat (R + 80) = unat R + 80"
    "unat (R + 84) = unat R + 84" "unat (R + 96) = unat R + 96" "unat (R + 100) = unat R + 100" "unat (R + 104) = unat R + 104"
  using table_address [OF assms, of 4] table_address [OF assms, of 8] table_address [OF assms, of 12] table_address [OF assms, of 16]
    table_address [OF assms, of 48] table_address [OF assms, of 56] table_address [OF assms, of 73] table_address [OF assms, of 88]
    table_address [OF assms, of 108] table_address [OF assms, of 72] table_address [OF assms, of 76] table_address [OF assms, of 80]
    table_address [OF assms, of 84] table_address [OF assms, of 96] table_address [OF assms, of 100] table_address [OF assms, of 104]
  by simp_all

lemma store32_twice [simp]: "store32 (store32 m a v) a w = store32 m a w"
  by (auto simp: store32_def store_bytes_def fun_eq_iff)

text \<open>An id below 32 that is free is allocated.\<close>

lemma allocate_free_id:
  assumes "unat k < 31" and "rproc_bitmap rp AND push_bit (unat k) 1 = 0"
  shows "remoteproc_allocate_id k (k + 1) rp = Some (k, rp\<lparr>rproc_bitmap := rproc_bitmap rp OR push_bit (unat k) 1\<rparr>)"
proof -
  have u: "unat (k + 1) = unat k + 1" "k \<noteq> RSC_NOTIFY_ID_ANY" "k + 1 \<noteq> 0"
    using assms(1) by (auto simp: unat_word_ariths RSC_NOTIFY_ID_ANY_def unat_eq_zero [symmetric])
  have "metal_bitmap_next_clear_bit [rproc_bitmap rp] (unat k) (unat k + 1) = Some (unat k)"
    using assms by (subst metal_bitmap_next_clear_bit.simps) (simp add: metal_bitmap_is_bit_set_def)
  then show ?thesis using u assms(1) by (simp add: remoteproc_allocate_id_def metal_bitmap_set_bit_def Let_def)
qed

lemma parse_cpu1_vdev:
  assumes "cpu1_table (rproc_mem rp) (unat R)" and "unat R + 116 \<le> 2 ^ 32" and "rproc_bitmap rp = 0"
  shows "handle_vdev_rsc (R + 48) rp = Some (0, rp\<lparr>rproc_bitmap := 7, rproc_mem := store32 (rproc_mem rp) (unat R + 56) 2\<rparr>)"
proof -
  note ad = table_addresses [OF assms(2)]
  let ?st = "\<lambda>b v. rp\<lparr>rproc_bitmap := b, rproc_mem := store32 (rproc_mem rp) (unat R + 56) v\<rparr>"
  have t: "load32 (rproc_mem rp) (unat R + 56) = 0" "rproc_mem rp (unat R + 73) = 2" "load32 (rproc_mem rp) (unat R + 88) = 1"
    "load32 (rproc_mem rp) (unat R + 108) = 2" using assms(1) by (simp_all add: cpu1_table_def NUM_VRINGS_def)
  have k: "load32 (store32 m (unat R + 56) v) (unat R + 88) = load32 m (unat R + 88)"
    "load32 (store32 m (unat R + 56) v) (unat R + 108) = load32 m (unat R + 108)"
    "store32 m (unat R + 56) v (unat R + 73) = m (unat R + 73)" for m v
    by (simp_all add: load32_store32_disjoint disjoint_regions_def store32_outside)
  have a0: "alloc_rsc_id (R + 48) (R + 48 + 8) rp = Some (?st 1 0)"
    using allocate_free_id [of 0 rp] t assms(3) ad by (simp add: alloc_rsc_id_def put_word_def RSC_NOTIFY_ID_ANY_def add.assoc)
  have a1: "alloc_rsc_id (R + 48) (R + 88) (?st 1 0) = Some (?st 3 1)"
    using allocate_free_id [of 1 "?st 1 0"] t k ad by (simp add: alloc_rsc_id_def put_word_def RSC_NOTIFY_ID_ANY_def add.assoc)
  have a2: "alloc_rsc_id (R + 48) (R + 108) (?st 3 1) = Some (?st 7 2)"
    using allocate_free_id [of 2 "?st 3 1"] t k ad by (simp add: alloc_rsc_id_def put_word_def RSC_NOTIFY_ID_ANY_def add.assoc)
  have n: "[0..<2] = [0, Suc 0]" by (simp add: numeral_2_eq_2)
  show ?thesis
    using a0 a1 a2 t k ad by (simp add: handle_vdev_rsc_def add.assoc n)
qed

definition mapped_io :: "u32 \<Rightarrow> u32 \<Rightarrow> u32 \<Rightarrow> metal_io_region" where
  "mapped_io pa sz attribute = metal_io_init pa (Some (\<lambda>_. pa)) sz 32 attribute"

abbreviation shared_attr :: u32 where
  "shared_attr \<equiv> NORM_NONCACHE OR STRONG_ORDERED"

lemma mapped_io_page: "pa \<noteq> METAL_BAD_VA \<Longrightarrow> one_page (mapped_io pa sz attribute)"
  by (simp add: mapped_io_def metal_io_init_def one_page_def)

lemma mapped_io_virt:
  assumes "pa \<noteq> METAL_BAD_VA" and "a - pa < sz"
  shows "metal_io_phys_to_virt (mapped_io pa sz attribute) a = Some a"
proof -
  let ?io = "mapped_io pa sz attribute"
  have "metal_io_virt_to_phys ?io a = a"
    using assms(2) one_page_phys [OF mapped_io_page [OF assms(1)], where pm = "\<lambda>_. pa"]
    by (simp add: metal_io_virt_to_phys_def metal_io_virt_to_offset_def mapped_io_def metal_io_init_def)
  moreover have "metal_io_phys_to_virt ?io (metal_io_virt_to_phys ?io a) = Some a"
    by (rule phys_to_virt_roundtrip [OF mapped_io_page [OF assms(1)]]) (use assms(2) in \<open>simp add: mapped_io_def metal_io_init_def\<close>)
  ultimately show ?thesis by simp
qed

definition mapped_mem :: "u32 \<Rightarrow> u32 \<Rightarrow> remoteproc_mem" where
  "mapped_mem pa sz = \<lparr>mem_da = pa, mem_pa = pa, mem_size = sz, mem_name = replicate 32 0, mem_io = mapped_io pa sz shared_attr\<rparr>"

lemma mmap_new:
  assumes "remoteproc_get_mem None pa METAL_BAD_PHYS 0 sz rp = None" and "pa \<noteq> METAL_BAD_VA" and "0 < sz"
  shows "remoteproc_mmap (Some pa) None sz shared_attr rp =
    Some ((pa, Some pa, None, Some (mapped_io pa sz shared_attr)), rp\<lparr>rproc_mems := rproc_mems rp @ [mapped_mem pa sz]\<rparr>)"
proof -
  have "pa \<noteq> METAL_BAD_PHYS" "shared_attr \<noteq> 0"
    using assms(2) by (simp_all add: METAL_BAD_PHYS_def METAL_BAD_VA_def NORM_NONCACHE_def STRONG_ORDERED_def)
  then show ?thesis
    using assms(1) mapped_io_virt [OF assms(2), of pa sz shared_attr] assms(3)
    by (simp add: remoteproc_mmap_def zynq_a9_proc_mmap_def Let_def mapped_io_def remoteproc_add_mem_def mapped_mem_def
        remoteproc_init_mem_def RPROC_MAX_NAME_LEN_def)
qed

definition cpu1_mems :: "u32 \<Rightarrow> remoteproc_mem list" where
  "cpu1_mems R = [mapped_mem R 116, mapped_mem SHARED_MEM_PA SHARED_MEM_SIZE]"

definition cpu1_rproc :: "u32 \<Rightarrow> remoteproc \<Rightarrow> remoteproc" where
  "cpu1_rproc R rp = rp\<lparr>rsc_table := R, rsc_len := 116, rsc_io := Some (mapped_io R 116 shared_attr), rproc_mems := cpu1_mems R,
     rproc_vdevs := [], rproc_bitmap := 7, rproc_state := RPROC_OFFLINE, rproc_mem := store32 (rproc_mem rp) (unat R + 56) 2,
     gic_io := True, nokick := True, enabled_irqs := irq_notification rp # enabled_irqs rp\<rparr>"

lemma update_order: "rp\<lparr>rproc_mems := ms, rsc_io := io\<rparr> = rp\<lparr>rsc_io := io, rproc_mems := ms\<rparr>"
  by simp

lemma create_cpu1:
  assumes "cpu1_table (rproc_mem rp) (unat R)" and "unat R + 116 \<le> 2 ^ 32" and "R \<noteq> 0"
  shows "platform_create_proc True True R rp = Some (True, cpu1_rproc R rp)"
proof -
  note ad = table_addresses [OF assms(2)]
  have "unat METAL_BAD_VA = 2 ^ 32 - 1" by (simp add: METAL_BAD_VA_def unsigned_minus_1_eq_mask mask_eq_exp_minus_1)
  then have R: "R \<noteq> METAL_BAD_VA" using assms(2) by auto
  define rp0 where "rp0 = snd (remoteproc_init True True rp)"
  have i0: "remoteproc_init True True rp = (True, rp0)" "rproc_mems rp0 = []" "rproc_mem rp0 = rproc_mem rp" "rproc_bitmap rp0 = 0"
    by (simp_all add: rp0_def remoteproc_init_def zynq_a9_proc_init_def)
  have m1: "remoteproc_mmap (Some R) None 116 shared_attr rp0 =
      Some ((R, Some R, None, Some (mapped_io R 116 shared_attr)), rp0\<lparr>rproc_mems := [mapped_mem R 116]\<rparr>)"
    using mmap_new [OF _ R, of 116 rp0] i0(2) by (simp add: remoteproc_get_mem_def)
  let ?rp1 = "rp0\<lparr>rsc_io := Some (mapped_io R 116 shared_attr), rproc_mems := [mapped_mem R 116]\<rparr>"
  have "\<not> (R \<le> SHARED_MEM_PA \<and> SHARED_MEM_PA + SHARED_MEM_SIZE \<le> R + 116)"
  proof
    assume h: "R \<le> SHARED_MEM_PA \<and> SHARED_MEM_PA + SHARED_MEM_SIZE \<le> R + 116"
    then have "unat R \<le> 0x3E800000" by (simp add: SHARED_MEM_PA_def word_le_nat_alt)
    then have "unat (R + 116) \<le> 0x3E800000 + 116" by (simp add: unat_word_ariths)
    then show False using h by (simp add: SHARED_MEM_PA_def SHARED_MEM_SIZE_def word_le_nat_alt)
  qed
  then have m2: "remoteproc_mmap (Some SHARED_MEM_PA) None SHARED_MEM_SIZE shared_attr ?rp1 = Some ((SHARED_MEM_PA,
      Some SHARED_MEM_PA, None, Some (mapped_io SHARED_MEM_PA SHARED_MEM_SIZE shared_attr)), ?rp1\<lparr>rproc_mems := cpu1_mems R\<rparr>)"
    using mmap_new [of SHARED_MEM_PA SHARED_MEM_SIZE ?rp1]
    by (simp add: remoteproc_get_mem_def cpu1_mems_def mapped_mem_def METAL_BAD_PHYS_def METAL_BAD_VA_def SHARED_MEM_PA_def
        SHARED_MEM_SIZE_def)
  let ?rp2 = "rp0\<lparr>rsc_io := Some (mapped_io R 116 shared_attr), rproc_mems := cpu1_mems R\<rparr>"
  have io: "remoteproc_get_io_with_va R ?rp2 = Some (mapped_io R 116 shared_attr)"
    using assms(3) by (simp add: remoteproc_get_io_with_va_def remoteproc_get_mem_def cpu1_mems_def mapped_mem_def
        metal_io_virt_to_offset_def mapped_io_def metal_io_init_def METAL_BAD_OFFSET_def)
  have tab: "load32 (rproc_mem rp) (unat R) = 1" "load32 (rproc_mem rp) (unat R + 4) = 1" "load32 (rproc_mem rp) (unat R + 8) = 0"
    "load32 (rproc_mem rp) (unat R + 12) = 0" "load32 (rproc_mem rp) (unat R + 16) = 48" "load32 (rproc_mem rp) (unat R + 48) = 3"
    using assms(1) by (simp_all add: cpu1_table_def RSC_VDEV_def)
  let ?rp3 = "?rp2\<lparr>rproc_bitmap := 7, rproc_mem := store32 (rproc_mem rp) (unat R + 56) 2\<rparr>"
  have vdev: "handle_vdev_rsc (R + 48) ?rp2 = Some (0, ?rp3)"
    using parse_cpu1_vdev [of ?rp2 R] assms(1,2) i0 by simp
  have num: "load32 (store32 (rproc_mem rp) (unat R + 56) 2) (unat R + 4) = 1"
    using tab(2) by (simp add: load32_store32_disjoint disjoint_regions_def)
  have "rsc_loop R (Some (mapped_io R 116 shared_attr)) 0 0 ?rp2 = Some (0, ?rp3)"
    using vdev tab num ad i0(3)
    by (subst rsc_loop.simps, subst rsc_loop.simps)
      (simp add: handle_rsc_def RSC_VDEV_def metal_io_virt_to_offset_def mapped_io_def metal_io_init_def METAL_BAD_OFFSET_def
        RPROC_ERR_RSC_TAB_NS_def)
  then have parse: "remoteproc_parse_rsc_table R 116 ?rp2 = Some (0, ?rp3)"
    using tab ad i0(3) by (simp add: remoteproc_parse_rsc_table_def io handle_rsc_table_def sizeof_resource_table_def
        RSC_TAB_SUPPORTED_VERSION_def)
  have "cpu1_rproc R rp = ?rp3\<lparr>rsc_table := R, rsc_len := 116, rsc_io := Some (mapped_io R 116 shared_attr)\<rparr>"
    by (simp add: cpu1_rproc_def rp0_def remoteproc_init_def zynq_a9_proc_init_def)
  then show ?thesis
    using m1 m2 parse by (simp add: platform_create_proc_def get_resource_table_def length_resources i0(1)
        remoteproc_set_rsc_table_def io update_order)
qed

section \<open>The virtio device\<close>

text \<open>What the driver on the other core has written when it reports that it is ready.\<close>

definition driver_ready :: "memory \<Rightarrow> nat \<Rightarrow> u32 \<Rightarrow> u32 \<Rightarrow> bool" where
  "driver_ready m a d0 d1 \<longleftrightarrow> m (a + 72) AND 4 \<noteq> 0 \<and> m (a + 73) = NUM_VRINGS \<and>
     load32 m (a + 76) = d0 \<and> load32 m (a + 80) = VRING_ALIGN \<and> load32 m (a + 84) = VRING_SIZE \<and> load32 m (a + 88) = 1 \<and>
     load32 m (a + 96) = d1 \<and> load32 m (a + 100) = VRING_ALIGN \<and> load32 m (a + 104) = VRING_SIZE \<and> load32 m (a + 108) = 2"

definition in_shared :: "u32 \<Rightarrow> bool" where
  "in_shared d \<longleftrightarrow> SHARED_MEM_PA \<le> d \<and> unat d + unat (vring_size VRING_SIZE VRING_ALIGN) \<le> unat (SHARED_MEM_PA + SHARED_MEM_SIZE)"

lemma cpu1_vring_size: "vring_size VRING_SIZE VRING_ALIGN = 10246"
  by (simp add: vring_size_def Let_def VRING_SIZE_def VRING_ALIGN_def)

lemma wait_finds:
  assumes "\<And>m. rproc_virtio_get_status vd m = Some (st m)" and "\<forall>j. i \<le> j \<and> j < k \<longrightarrow> st (ms j) AND 4 = 0"
    and "st (ms k) AND 4 \<noteq> 0" and "i \<le> k"
  shows "wait_driver_ok vd ms i = Some k"
  using assms(2,4)
proof (induction "k - i" arbitrary: i)
  case 0
  then show ?case using assms(1,3) by (subst wait_driver_ok.simps) simp
next
  case (Suc n)
  then have "wait_driver_ok vd ms (i + 1) = Some k" by (intro Suc(1)) auto
  then show ?case using Suc assms(1) by (subst wait_driver_ok.simps) simp
qed

lemma cpu1_status:
  assumes "vd_rsc vd = R + 48" and "vd_rsc_io vd = mapped_io R 116 shared_attr" and "unat R + 116 \<le> 2 ^ 32" and "R \<noteq> 0"
  shows "rproc_virtio_get_status vd m = Some (m (unat R + 72))"
proof -
  have "unat (R + 72) \<noteq> 0" using table_addresses(10) [OF assms(3)] by simp
  then have p: "R + 72 \<noteq> 0" by auto
  have "unat METAL_BAD_VA = 2 ^ 32 - 1" by (simp add: METAL_BAD_VA_def unsigned_minus_1_eq_mask mask_eq_exp_minus_1)
  then have R: "R \<noteq> METAL_BAD_VA" using assms(3) by auto
  have b: "ucast (ucast b :: u64) = b" for b :: u8
    by (rule bit_word_eqI) (auto simp: bit_simps)
  show ?thesis
    using p R table_addresses(10) [OF assms(3)] b
    by (simp add: rproc_virtio_get_status_def vdev_read_def assms(1,2) metal_io_read_def metal_io_virt_to_offset_def metal_io_virt_def
        mapped_io_def metal_io_init_def add.assoc Let_def load_bytes_def)
qed

lemma mmap_vring:
  assumes "in_shared d" and "rproc_mems rp = cpu1_mems R" and "unat R + 116 \<le> 2 ^ 32"
  shows "remoteproc_mmap None (Some d) 10246 0 rp =
    Some ((d, None, Some d, Some (mapped_io SHARED_MEM_PA SHARED_MEM_SIZE shared_attr)), rp)"
proof -
  have d: "SHARED_MEM_PA \<le> d" "0x3E800000 \<le> unat d" "unat d + 10246 \<le> 0x3E880000"
    using assms(1) by (simp_all add: in_shared_def cpu1_vring_size SHARED_MEM_PA_def SHARED_MEM_SIZE_def word_le_nat_alt)
  have u: "unat (d + 10246) = unat d + 10246" using d(3) by (simp add: unat_word_ariths)
  have bad: "d \<noteq> METAL_BAD_PHYS"
    using d(3) by (auto simp: METAL_BAD_PHYS_def unsigned_minus_1_eq_mask mask_eq_exp_minus_1)
  have "unat (R + 116) \<le> unat R + 116" by (simp add: unat_word_ariths)
  then have no: "\<not> (R \<le> d \<and> d + 10246 \<le> R + 116)" using u by (auto simp: word_le_nat_alt)
  have yes: "d + 10246 \<le> SHARED_MEM_PA + SHARED_MEM_SIZE"
    using u d(3) by (simp add: word_le_nat_alt SHARED_MEM_PA_def SHARED_MEM_SIZE_def)
  have "unat (d - SHARED_MEM_PA) = unat d - 0x3E800000" using d(1) by (simp add: unat_sub SHARED_MEM_PA_def)
  then have off: "d - SHARED_MEM_PA < SHARED_MEM_SIZE" using d by (simp add: word_less_nat_alt SHARED_MEM_SIZE_def)
  have "SHARED_MEM_PA \<noteq> METAL_BAD_VA" by (simp add: SHARED_MEM_PA_def METAL_BAD_VA_def)
  note v = mapped_io_virt [OF this off, of shared_attr]
  show ?thesis
    using bad no yes d(1) v
    by (auto simp: remoteproc_mmap_def remoteproc_get_mem_def assms(2) cpu1_mems_def mapped_mem_def Let_def remoteproc_datopa_def)
qed

lemma vring_entered:
  assumes "in_shared d" and "rproc_mems rp = cpu1_mems R" and "unat R + 116 \<le> 2 ^ 32" and "i < length (vd_vrings vd)"
    and "vring = vd_rsc vd + 28 + of_nat i * 20"
    and "word_at rp vring = d" and "word_at rp (vring + 4) = VRING_ALIGN" and "word_at rp (vring + 8) = VRING_SIZE"
  shows "init_vrings (i # is) vd rp = init_vrings is (snd (rproc_virtio_init_vring i (word_at rp (vring + 12)) d
    (Some (mapped_io SHARED_MEM_PA SHARED_MEM_SIZE shared_attr)) VRING_SIZE VRING_ALIGN vd)) rp"
proof -
  have "unat d \<noteq> 0" using assms(1) by (auto simp: in_shared_def SHARED_MEM_PA_def word_le_nat_alt)
  then have "d \<noteq> 0" by auto
  then show ?thesis
    using mmap_vring [OF assms(1,2,3)] assms(4-8)
    by (simp add: Let_def cpu1_vring_size rproc_virtio_init_vring_def)
qed

lemma create_cpu1_virtio:
  assumes "cpu1_table (rproc_mem rp) (unat R)" and "unat R + 116 \<le> 2 ^ 32" and "R \<noteq> 0"
    and "driver_ready (ms k) (unat R) d0 d1" and "\<forall>j<k. ms j (unat R + 72) AND 4 = 0" and "in_shared d0" and "in_shared d1"
  shows "\<exists>rp2. remoteproc_create_virtio 0 VIRTIO_DEV_SLAVE ms (cpu1_rproc R rp) = Some (Some 0, rp2) \<and>
    map vd_notifyid (rproc_vdevs rp2) = [2] \<and> map vi_notifyid (vd_vrings (rproc_vdevs rp2 ! 0)) = [1, 2] \<and>
    map vi_vaddr (vd_vrings (rproc_vdevs rp2 ! 0)) = [d0, d1] \<and> map vi_num_descs (vd_vrings (rproc_vdevs rp2 ! 0)) = [256, 256]"
proof -
  note ad = table_addresses [OF assms(2)]
  let ?rp = "cpu1_rproc R rp" and ?io = "mapped_io R 116 shared_attr"
  have st: "load32 (store32 m (unat R + 56) v) (unat R + o1) = load32 m (unat R + o1)" if "o1 + 4 \<le> 56 \<or> 60 \<le> o1" for m v o1
    using that by (auto simp: load32_store32_disjoint disjoint_regions_def)
  have tab: "load32 (rproc_mem ?rp) (unat R + 4) = 1" "load32 (rproc_mem ?rp) (unat R + 16) = 48" "load32 (rproc_mem ?rp) (unat R + 48) = 3"
    "load32 (rproc_mem ?rp) (unat R + 56) = 2" "rproc_mem ?rp (unat R + 73) = 2"
    using assms(1) by (simp_all add: cpu1_table_def cpu1_rproc_def st RSC_VDEV_def NUM_VRINGS_def store32_outside)
  have find: "find_rsc R RSC_VDEV 0 ?rp = 48"
    using tab ad by (simp add: find_rsc_def RSC_VDEV_def)
  define v0 where "v0 = \<lparr>vi_extra = 0, vi_io = None, vi_notifyid = 0, vi_vaddr = 0, vi_num_descs = 0, vi_align = 0 :: u32\<rparr>"
  define vd where "vd = \<lparr>vd_role = VIRTIO_DEV_SLAVE, vd_notifyid = 2, vd_vrings = [v0, v0], vd_rsc = R + 48, vd_rsc_io = ?io\<rparr>"
  have n2: "[0..<2] = [0, Suc 0]" by (simp add: numeral_2_eq_2)
  have create: "rproc_virtio_create_vdev VIRTIO_DEV_SLAVE 2 (R + 48) ?io ?rp = Some (vd, ?rp)"
    using tab(5) ad by (simp add: rproc_virtio_create_vdev_def vd_def v0_def add.assoc n2)
  let ?rp1 = "?rp\<lparr>rproc_mem := ms k\<rparr>"
  have "wait_driver_ok vd ms 0 = Some k"
    by (rule wait_finds [where st = "\<lambda>m. m (unat R + 72)"])
      (use assms(4,5) cpu1_status [OF _ _ assms(2,3), of vd] in \<open>auto simp: vd_def driver_ready_def\<close>)
  then have wait: "rproc_virtio_wait_remote_ready vd ms ?rp = Some ?rp1"
    by (simp add: rproc_virtio_wait_remote_ready_def vd_def)
  note rd = assms(4) [unfolded driver_ready_def]
  have mems: "rproc_mems ?rp1 = cpu1_mems R" by (simp add: cpu1_rproc_def)
  let ?sh = "Some (mapped_io SHARED_MEM_PA SHARED_MEM_SIZE shared_attr)"
  define vd2 where "vd2 = vd\<lparr>vd_vrings := [v0\<lparr>vi_io := ?sh, vi_notifyid := 1, vi_vaddr := d0, vi_num_descs := VRING_SIZE, vi_align := VRING_ALIGN\<rparr>,
      v0\<lparr>vi_io := ?sh, vi_notifyid := 2, vi_vaddr := d1, vi_num_descs := VRING_SIZE, vi_align := VRING_ALIGN\<rparr>]\<rparr>"
  have "init_vrings [0, Suc 0] vd ?rp1 = Some (True, vd2, ?rp1)"
    using vring_entered [OF assms(6) mems assms(2), of 0 vd "R + 76" "[Suc 0]"] rd ad
      vring_entered [OF assms(7) mems assms(2), of "Suc 0" "snd (rproc_virtio_init_vring 0 1 d0 ?sh VRING_SIZE VRING_ALIGN vd)" "R + 96" "[]"]
    by (simp add: vd_def rproc_virtio_init_vring_def add.assoc vd2_def del: init_vrings.simps(2))
  then have "remoteproc_create_virtio 0 VIRTIO_DEV_SLAVE ms ?rp = Some (Some 0, ?rp1\<lparr>rproc_vdevs := [vd2]\<rparr>)"
    using find create wait tab(4) rd ad
    by (simp add: remoteproc_create_virtio_def cpu1_rproc_def Let_def add.assoc NUM_VRINGS_def n2 del: init_vrings.simps)
  then show ?thesis by (simp add: vd2_def vd_def v0_def VRING_SIZE_def)
qed

lemma notified_any:
  assumes "map vd_notifyid (rproc_vdevs rp) = [2]" and "map vi_notifyid (vd_vrings (rproc_vdevs rp ! 0)) = [1, 2]"
  shows "remoteproc_get_notification RSC_NOTIFY_ID_ANY rp = (0, [(0, 0), (0, 1)])"
    and "remoteproc_get_notification 1 rp = (0, [(0, 0)])" and "remoteproc_get_notification 2 rp = (0, [])"
proof -
  obtain vd where vd: "rproc_vdevs rp = [vd]" "vd_notifyid vd = 2" using assms(1) by (auto simp: map_eq_Cons_conv)
  obtain a b where v: "vd_vrings vd = [a, b]" "vi_notifyid a = 1" "vi_notifyid b = 2"
    using assms(2) vd(1) by (auto simp: map_eq_Cons_conv)
  have n: "[0..<Suc (Suc 0)] = [0, Suc 0]" by simp
  show "remoteproc_get_notification RSC_NOTIFY_ID_ANY rp = (0, [(0, 0), (0, 1)])"
    "remoteproc_get_notification 1 rp = (0, [(0, 0)])" "remoteproc_get_notification 2 rp = (0, [])"
    using vd v by (simp_all add: remoteproc_get_notification_def rproc_virtio_notified_def RSC_NOTIFY_ID_ANY_def n)
qed

text \<open>
  C26: start-up of the OpenAMP platform. Let the resource table of CPU1 lie in
  memory and let the driver on the other core, after any number of reads of the status byte,
  report ready with both rings in the shared memory. The processor and its virtio device are
  created, with the two rings at the addresses the driver chose. A notification for any id reaches
  both queues and one for id 1 the first; one for id 2, the id of the second ring, reaches none,
  because the parser has overwritten the id of the device with it.
\<close>

theorem resource_table_boot:
  assumes "cpu1_table (rproc_mem rp) (unat R)" and "unat R + 116 \<le> 2 ^ 32" and "R \<noteq> 0"
    and "driver_ready (ms k) (unat R) d0 d1" and "\<forall>j<k. ms j (unat R + 72) AND 4 = 0" and "in_shared d0" and "in_shared d1"
  shows "\<exists>rp1 rp2. platform_create_proc True True R rp = Some (True, rp1) \<and>
    remoteproc_create_virtio 0 VIRTIO_DEV_SLAVE ms rp1 = Some (Some 0, rp2) \<and>
    map vi_vaddr (vd_vrings (rproc_vdevs rp2 ! 0)) = [d0, d1] \<and> map vi_num_descs (vd_vrings (rproc_vdevs rp2 ! 0)) = [256, 256] \<and>
    remoteproc_get_notification RSC_NOTIFY_ID_ANY rp2 = (0, [(0, 0), (0, 1)]) \<and>
    remoteproc_get_notification 1 rp2 = (0, [(0, 0)]) \<and> remoteproc_get_notification 2 rp2 = (0, [])"
proof -
  obtain rp2 where "remoteproc_create_virtio 0 VIRTIO_DEV_SLAVE ms (cpu1_rproc R rp) = Some (Some 0, rp2)"
    and "map vi_vaddr (vd_vrings (rproc_vdevs rp2 ! 0)) = [d0, d1]" "map vi_num_descs (vd_vrings (rproc_vdevs rp2 ! 0)) = [256, 256]"
    and ids: "map vd_notifyid (rproc_vdevs rp2) = [2]" "map vi_notifyid (vd_vrings (rproc_vdevs rp2 ! 0)) = [1, 2]"
    using create_cpu1_virtio [OF assms] by (elim exE conjE)
  then show ?thesis
    using create_cpu1 [OF assms(1-3)] notified_any [OF ids] by (intro exI [of _ "cpu1_rproc R rp"] exI [of _ rp2] conjI)
qed

text \<open>The table as the driver leaves it: ready, with the rings at the start of the shared memory.\<close>

definition demo_ready :: memory where
  "demo_ready = store32 (store32 ((store_bytes (\<lambda>_. 0) 0x100000 resources)(0x100000 + 72 := 7)) (0x100000 + 76) 0x3E800000)
     (0x100000 + 96) 0x3E804000"

theorem resource_table_boot_witness:
  "\<exists>rp1 rp2. platform_create_proc True True 0x100000 (rproc_inst (store_bytes (\<lambda>_. 0) 0x100000 resources)) = Some (True, rp1) \<and>
     remoteproc_create_virtio 0 VIRTIO_DEV_SLAVE (\<lambda>_. demo_ready) rp1 = Some (Some 0, rp2) \<and>
     remoteproc_get_notification 2 rp2 = (0, [])"
proof -
  let ?m = "store_bytes (\<lambda>_. 0) 0x100000 resources" and ?a = "0x100000 :: nat"
  have t: "cpu1_table (rproc_mem (rproc_inst ?m)) (unat (0x100000 :: u32))"
    using resources_table [of "\<lambda>_. 0" ?a] by (simp add: rproc_inst_def)
  have w: "off + 4 \<le> 116 \<Longrightarrow> load32 ?m (?a + off) = le_word (take 4 (drop off resources))" for off
    using load_within [of off resources "\<lambda>_. 0" ?a] by (simp add: length_resources)
  have keep: "load32 (m(a := b)) c = load32 m c" if "a < c \<or> c + 4 \<le> a" for m a b c
    using that unfolding load32_def by (intro arg_cong [of _ _ le_word] load_bytes_cong) auto
  have byte: "?m (?a + 73) = NUM_VRINGS" using resources_table [of "\<lambda>_. 0" ?a] by (simp add: cpu1_table_def)
  have r: "driver_ready demo_ready (unat (0x100000 :: u32)) 0x3E800000 0x3E804000"
    using w [of 80] w [of 84] w [of 88] w [of 100] w [of 104] w [of 108] byte
    by (simp add: driver_ready_def demo_ready_def load32_store32_disjoint disjoint_regions_def store32_outside keep
        resources_def)
  have "in_shared 0x3E800000" "in_shared 0x3E804000"
    by (simp_all add: in_shared_def cpu1_vring_size SHARED_MEM_PA_def SHARED_MEM_SIZE_def)
  then show ?thesis
    using resource_table_boot [where ms = "\<lambda>_. demo_ready" and k = 0, OF t _ _ r] by auto
qed

end
