(* ===== verification/Openamp_Variant.thy ===== *)
theory Openamp_Variant
  imports Rpmsg_Delivery Openamp_Platform Channel_Spec
begin

text \<open>
  The OpenAMP transport of the application (\<open>variants/openamp/variant.c\<close>): three channels, each an
  RPMsg endpoint with a ring of sixteen buffered packets for what arrives while nobody reads the
  channel. The state of the variant is the application state of the RPMsg device; a read callback
  is a function on the state \<open>'x\<close> of the program. A copy past the end of a buffer and a null
  pointer are the value \<open>None\<close>.
\<close>

section \<open>Data\<close>

definition RPMSG_MAX_DATA_SIZE :: nat where "RPMSG_MAX_DATA_SIZE = 496"
definition CHAN_BUFFER_SIZE :: int where "CHAN_BUFFER_SIZE = 16"

record BufferedPacket =
  packetSize :: u32
  packet_buf :: bytes

type_synonym 'x read_cb = "bytes \<Rightarrow> 'x \<Rightarrow> 'x option"

record 'x Channel =
  packetsBegin :: int
  packetsEnd :: int
  chan_cb :: "'x read_cb option"
  packets :: "BufferedPacket list"

record 'x ovariant =
  f_chans :: "'x Channel list"
  f_packetsBuffered :: u32
  ov_app :: 'x

definition init_chan :: "'x Channel" where
  "init_chan = \<lparr>packetsBegin = 0, packetsEnd = 0, chan_cb = None,
     packets = replicate 16 \<lparr>packetSize = 0, packet_buf = replicate RPMSG_MAX_DATA_SIZE 0\<rparr>\<rparr>"

definition put_chan :: "nat \<Rightarrow> 'x Channel \<Rightarrow> 'x ovariant \<Rightarrow> 'x ovariant" where
  "put_chan i c v = v\<lparr>f_chans := (f_chans v)[i := c]\<rparr>"

section \<open>The endpoint callback\<close>

text \<open>The end index 16 marks a full ring.\<close>

definition buffer_packet :: "bytes \<Rightarrow> 'x Channel \<Rightarrow> 'x Channel option" where
  "buffer_packet data c =
    (if packetsEnd c \<noteq> CHAN_BUFFER_SIZE then
       let e = nat (packetsEnd c)
       in if length (packets c) \<le> e \<or> RPMSG_MAX_DATA_SIZE < length data then None
          else let p = packets c ! e;
                   c = c\<lparr>packets := (packets c)[e := \<lparr>packetSize = of_nat (length data),
                     packet_buf = data @ drop (length data) (packet_buf p)\<rparr>], packetsEnd := packetsEnd c + 1\<rparr>;
                   c = (if packetsEnd c = CHAN_BUFFER_SIZE then c\<lparr>packetsEnd := 0\<rparr> else c)
               in Some (if packetsBegin c = packetsEnd c then c\<lparr>packetsEnd := CHAN_BUFFER_SIZE\<rparr> else c)
     else Some c)"

definition rpmsg_endpoint_cb :: "nat \<Rightarrow> bytes \<Rightarrow> u32 \<Rightarrow> 'x ovariant \<Rightarrow> (int \<times> 'x ovariant) option" where
  "rpmsg_endpoint_cb i data src v =
    (let chan = f_chans v ! i
     in case chan_cb chan of
          Some cb \<Rightarrow> map_option (\<lambda>x. (RPMSG_SUCCESS, v\<lparr>ov_app := x\<rparr>)) (cb data (ov_app v))
        | None \<Rightarrow> map_option (\<lambda>c. (RPMSG_SUCCESS, (put_chan i c v)\<lparr>f_packetsBuffered := f_packetsBuffered v + 1\<rparr>))
                    (buffer_packet data chan))"

text \<open>The RPMsg environment of the variant: no bind hook, an empty unbind hook.\<close>

definition rpmsg_service_unbind :: "nat \<Rightarrow> 'x ovariant \<Rightarrow> 'x ovariant" where
  "rpmsg_service_unbind e v = v"

definition variant_env :: "('x ovariant rvdev \<Rightarrow> 'x ovariant rvdev) \<Rightarrow> u16 \<Rightarrow> (nat, 'x ovariant) rp_env" where
  "variant_env sleep flags = \<lparr>env_call = rpmsg_endpoint_cb, env_bind = (\<lambda>_ _ v. v), env_unbind = rpmsg_service_unbind,
     env_sleep = sleep, env_flags = flags\<rparr>"

section \<open>Initialisation\<close>

text \<open>The bytes of \<open>dippa-channel0\<close> and its two sisters.\<close>

definition SERVICE_NAME :: "nat \<Rightarrow> bytes" where
  "SERVICE_NAME i = [0x64, 0x69, 0x70, 0x70, 0x61, 0x2D, 0x63, 0x68, 0x61, 0x6E, 0x6E, 0x65, 0x6C, 0x30 + of_nat i]"

definition create_channel ::
  "(nat, 'x ovariant) rp_env \<Rightarrow> nat \<Rightarrow> (nat, 'x ovariant) rpdev \<Rightarrow> (int \<times> (nat, 'x ovariant) rpdev) option" where
  "create_channel env i d = rpmsg_create_ept (rpmsg_virtio_send_offchannel_raw env) i (SERVICE_NAME i) 0 RPMSG_ADDR_ANY
     (Some (user_callback i)) d"

definition oa_VARIANT_Initialize ::
  "(nat, 'x ovariant) rp_env \<Rightarrow> (nat, 'x ovariant) rpdev option \<Rightarrow> (bool \<times> (nat, 'x ovariant) rpdev) option" where
  "oa_VARIANT_Initialize env rpdev = do {
     d \<leftarrow> rpdev;
     (ret, d) \<leftarrow> create_channel env 0 d;
     if ret \<noteq> 0 then Some (False, d)
     else do {
       (ret, d) \<leftarrow> create_channel env 1 d;
       if ret \<noteq> 0 then Some (False, d)
       else do {
         (ret, d) \<leftarrow> create_channel env 2 d;
         Some (ret = 0, d) } } }"

text \<open>The creation of the device. \<open>ms\<close> are the memories the waits for the driver see, \<open>rings\<close> what the
  rings in shared memory hold, \<open>m\<close> the memory afterwards; the name-service endpoint is object 3.\<close>

definition platform_create_rpmsg_vdev ::
  "virtio_role \<Rightarrow> (nat \<Rightarrow> memory) \<Rightarrow> (u32 \<Rightarrow> vring) \<Rightarrow> (nat \<Rightarrow> u8) \<Rightarrow> memory \<Rightarrow> (nat \<Rightarrow> nat ept_fun rpmsg_endpoint) \<Rightarrow>
   'x ovariant \<Rightarrow> remoteproc \<Rightarrow> ((nat, 'x ovariant) rpdev option \<times> remoteproc) option" where
  "platform_create_rpmsg_vdev role ms rings status m es v rp =
    (case remoteproc_get_io_with_pa SHARED_MEM_PA rp of
       None \<Rightarrow> Some (None, rp)
     | Some io \<Rightarrow> do {
         shbuf \<leftarrow> metal_io_phys_to_virt io (SHARED_MEM_PA + SHARED_BUF_OFFSET);
         (vd, rp) \<leftarrow> remoteproc_create_virtio 0 role ms rp;
         (case vd of
            None \<Rightarrow> Some (None, rp)
          | Some i \<Rightarrow> do {
              features \<leftarrow> rproc_virtio_get_features (rproc_vdevs rp ! i) (rproc_mem rp);
              let vs = map (\<lambda>x. \<lparr>vi_num = ucast (vi_num_descs x), vi_vq = virtqueue_allocate (unat (vi_extra x)),
                vi_ring = rings (vi_vaddr x)\<rparr>) (vd_vrings (rproc_vdevs rp ! i));
              (ret, d) \<leftarrow> rpmsg_init_vdev role status features io
                (if role = VIRTIO_DEV_MASTER then Some (rpmsg_virtio_init_shm_pool shbuf (SHARED_MEM_SIZE - SHARED_BUF_OFFSET))
                 else None) vs m es 3 v;
              Some (if ret \<noteq> 0 then (None, remoteproc_remove_virtio i rp) else (d, rp)) }) })"

section \<open>Reading and writing\<close>

text \<open>The state of the transport: the remote processor and the RPMsg device.\<close>

record 'x otransport =
  ot_rproc :: remoteproc
  ot_dev :: "(nat, 'x ovariant) rpdev"

abbreviation ot_variant :: "'x otransport \<Rightarrow> 'x ovariant" where
  "ot_variant s \<equiv> rv_app (dev (ot_dev s))"

definition on_variant :: "('x ovariant \<Rightarrow> 'x ovariant) \<Rightarrow> 'x otransport \<Rightarrow> 'x otransport" where
  "on_variant f s = s\<lparr>ot_dev := on_app f (ot_dev s)\<rparr>"

definition next_packet :: "'x Channel \<Rightarrow> 'x Channel" where
  "next_packet c =
    (let c = c\<lparr>packetsBegin := packetsBegin c + 1\<rparr>;
         c = (if packetsBegin c = CHAN_BUFFER_SIZE then c\<lparr>packetsBegin := 0\<rparr> else c)
     in if packetsEnd c = CHAN_BUFFER_SIZE
        then (let c = c\<lparr>packetsEnd := packetsBegin c - 1\<rparr>
              in if packetsEnd c < 0 then c\<lparr>packetsEnd := CHAN_BUFFER_SIZE - 1\<rparr> else c)
        else c)"

partial_function (option) read_buffered :: "'x read_cb \<Rightarrow> 'x Channel \<Rightarrow> 'x \<Rightarrow> ('x Channel \<times> 'x) option" where
  "read_buffered cb c x =
    (if packetsBegin c = packetsEnd c then Some (c, x)
     else if length (packets c) \<le> nat (packetsBegin c) then None
     else let p = packets c ! nat (packetsBegin c)
          in do {
            x \<leftarrow> cb (take (unat (packetSize p)) (packet_buf p)) x;
            read_buffered cb (next_packet c) x })"

text \<open>The callbacks of the two virtqueues of the slave, and the poll that runs them.\<close>

definition virtqueue_notification ::
  "(nat, 'x ovariant) rp_env \<Rightarrow> nat \<times> nat \<Rightarrow> (nat, 'x ovariant) rpdev \<Rightarrow> (nat, 'x ovariant) rpdev option" where
  "virtqueue_notification env q d =
    (if snd q = 1 then rpmsg_virtio_rx_callback env d else Some (rpmsg_virtio_tx_callback d))"

fun run_notifications ::
  "(nat, 'x ovariant) rp_env \<Rightarrow> (nat \<times> nat) list \<Rightarrow> (nat, 'x ovariant) rpdev \<Rightarrow> (nat, 'x ovariant) rpdev option" where
  "run_notifications env [] d = Some d"
| "run_notifications env (q # qs) d = do { d \<leftarrow> virtqueue_notification env q d; run_notifications env qs d }"

definition poll_platform :: "(nat, 'x ovariant) rp_env \<Rightarrow> 'x otransport \<Rightarrow> 'x otransport option" where
  "poll_platform env s =
    (case platform_poll_noblock (ot_rproc s) of ((_, qs), rp) \<Rightarrow>
       map_option (\<lambda>d. s\<lparr>ot_rproc := rp, ot_dev := d\<rparr>) (run_notifications env qs (ot_dev s)))"

definition set_cb :: "nat \<Rightarrow> 'x read_cb option \<Rightarrow> 'x ovariant \<Rightarrow> 'x ovariant" where
  "set_cb i cb v = put_chan i ((f_chans v ! i)\<lparr>chan_cb := cb\<rparr>) v"

definition ReadChannel :: "(nat, 'x ovariant) rp_env \<Rightarrow> nat \<Rightarrow> 'x read_cb \<Rightarrow> 'x otransport \<Rightarrow> 'x otransport option" where
  "ReadChannel env i cb s = do {
     (c, x) \<leftarrow> read_buffered cb (f_chans (ot_variant s) ! i) (ov_app (ot_variant s));
     s \<leftarrow> poll_platform env (on_variant (\<lambda>v. (set_cb i (Some cb) (put_chan i c v))\<lparr>ov_app := x, f_packetsBuffered := 0\<rparr>) s);
     Some (on_variant (set_cb i None) s) }"

definition WriteChannel :: "(nat, 'x ovariant) rp_env \<Rightarrow> nat \<Rightarrow> bytes \<Rightarrow> 'x otransport \<Rightarrow> (bool \<times> 'x otransport) option" where
  "WriteChannel env i data s =
    map_option (\<lambda>(ret, d). (0 \<le> ret, s\<lparr>ot_dev := d\<rparr>)) (rpmsg_send (rpmsg_virtio_send_offchannel_raw env) i data (ot_dev s))"

definition PacketSizeChannel :: "nat \<Rightarrow> u32" where
  "PacketSizeChannel i = of_nat RPMSG_MAX_DATA_SIZE"

definition oa_VARIANT_Destruct :: "(nat, 'x ovariant) rp_env \<Rightarrow> 'x otransport \<Rightarrow> 'x otransport option" where
  "oa_VARIANT_Destruct env s = do {
     d \<leftarrow> rpmsg_destroy_ept (rpmsg_virtio_send_offchannel_raw env) 2 (ot_dev s);
     d \<leftarrow> rpmsg_destroy_ept (rpmsg_virtio_send_offchannel_raw env) 1 d;
     d \<leftarrow> rpmsg_destroy_ept (rpmsg_virtio_send_offchannel_raw env) 0 d;
     Some (s\<lparr>ot_rproc := platform_release_rpmsg_vdev (ot_rproc s), ot_dev := d\<rparr>) }"

definition oa_VARIANT_T0Shm :: u32 where "oa_VARIANT_T0Shm = 0"
definition oa_VARIANT_T0ShmSize :: u32 where "oa_VARIANT_T0ShmSize = 0"

section \<open>The ring of buffered packets is a bounded queue\<close>

definition chan_ok :: "'x Channel \<Rightarrow> bool" where
  "chan_ok c \<longleftrightarrow> length (packets c) = 16 \<and> 0 \<le> packetsBegin c \<and> packetsBegin c < 16 \<and> 0 \<le> packetsEnd c \<and> packetsEnd c \<le> 16 \<and>
     (\<forall>p \<in> set (packets c). unat (packetSize p) \<le> 496 \<and> length (packet_buf p) = 496)"

definition queued :: "'x Channel \<Rightarrow> nat" where
  "queued c = (if packetsEnd c = 16 then 16 else nat ((packetsEnd c - packetsBegin c) mod 16))"

definition payload :: "BufferedPacket \<Rightarrow> bytes" where
  "payload p = take (unat (packetSize p)) (packet_buf p)"

definition chan_queue :: "'x Channel \<Rightarrow> bytes list" where
  "chan_queue c = map (\<lambda>k. payload (packets c ! ((nat (packetsBegin c) + k) mod 16))) [0..<queued c]"

lemma chan_queue_Nil: "chan_ok c \<Longrightarrow> packetsBegin c = packetsEnd c \<Longrightarrow> chan_queue c = []"
  by (simp add: chan_queue_def queued_def chan_ok_def)

lemma next_packet_simps:
  "chan_ok c \<Longrightarrow> packetsBegin (next_packet c) = (packetsBegin c + 1) mod 16"
  "packets (next_packet c) = packets c" "chan_cb (next_packet c) = chan_cb c"
  "chan_ok c \<Longrightarrow> packetsEnd (next_packet c) = (if packetsEnd c = 16 then packetsBegin c else packetsEnd c)"
  by (auto simp: next_packet_def Let_def chan_ok_def CHAN_BUFFER_SIZE_def)

lemma small_mod: "- 16 \<le> d \<Longrightarrow> d < 16 \<Longrightarrow> d mod 16 = (if 0 \<le> d then d else d + 16)" for d :: int
  using mod_add_self2 [of d 16] mod_pos_pos_trivial [of "d + 16" 16] by (auto simp del: mod_add_self2)

lemma next_queued: "chan_ok c \<Longrightarrow> packetsBegin c \<noteq> packetsEnd c \<Longrightarrow> queued c = Suc (queued (next_packet c))"
proof -
  assume ok: "chan_ok c" and ne: "packetsBegin c \<noteq> packetsEnd c"
  define b e where "b = packetsBegin c" and "e = packetsEnd c"
  have be: "0 \<le> b" "b < 16" "0 \<le> e" "e \<le> 16" "b \<noteq> e" using ok ne by (simp_all add: chan_ok_def b_def e_def)
  have "queued (next_packet c) = nat (((if e = 16 then b else e) - (b + 1) mod 16) mod 16)"
    using ok be by (simp add: queued_def next_packet_simps b_def e_def)
  moreover have "queued c = (if e = 16 then 16 else nat ((e - b) mod 16))" by (simp add: queued_def b_def e_def)
  moreover have "(b + 1) mod 16 = (if b = 15 then 0 else b + 1)" using be by auto
  ultimately show ?thesis using be by (auto simp: small_mod)
qed

lemma next_packet_ok: "chan_ok c \<Longrightarrow> chan_ok (next_packet c)"
  using next_packet_simps [of c] by (auto simp: chan_ok_def)

lemma next_queue:
  assumes "chan_ok c" and "packetsBegin c \<noteq> packetsEnd c"
  shows "chan_queue c = payload (packets c ! nat (packetsBegin c)) # chan_queue (next_packet c)"
proof -
  have b: "0 \<le> packetsBegin c" "packetsBegin c < 16" using assms(1) by (simp_all add: chan_ok_def)
  have "nat ((packetsBegin c + 1) mod 16) = (nat (packetsBegin c) + 1) mod 16" using b by (simp add: nat_mod_distrib nat_add_distrib)
  then have "(nat ((packetsBegin c + 1) mod 16) + k) mod 16 = (nat (packetsBegin c) + Suc k) mod 16" for k
    by (simp add: mod_simps)
  then show ?thesis
    using b next_queued [OF assms] by (simp add: chan_queue_def next_packet_simps(1) [OF assms(1)] next_packet_simps(2) upt_conv_Cons map_Suc_upt [symmetric]
        comp_def del: upt_Suc)
qed

fun apply_all :: "'x read_cb \<Rightarrow> bytes list \<Rightarrow> 'x \<Rightarrow> 'x option" where
  "apply_all cb [] x = Some x"
| "apply_all cb (p # ps) x = do { x \<leftarrow> cb p x; apply_all cb ps x }"

lemma read_buffered_drains:
  assumes "chan_ok c"
  shows "\<exists>c'. read_buffered cb c x = map_option (Pair c') (apply_all cb (chan_queue c) x) \<and> chan_ok c' \<and> chan_queue c' = [] \<and>
    chan_cb c' = chan_cb c"
  using assms
proof (induction "queued c" arbitrary: c x)
  case 0
  then have "packetsBegin c = packetsEnd c" using next_queued [of c] by force
  then show ?case using 0 chan_queue_Nil [of c] by (intro exI [of _ c]) (subst read_buffered.simps, simp)
next
  case (Suc n)
  have ne: "packetsBegin c \<noteq> packetsEnd c" using Suc.hyps(2) Suc.prems by (auto simp: queued_def chan_ok_def)
  have n: "n = queued (next_packet c)" using next_queued [OF Suc.prems ne] Suc.hyps(2) by simp
  have i: "\<not> length (packets c) \<le> nat (packetsBegin c)" using Suc.prems by (auto simp: chan_ok_def not_le nat_less_iff)
  show ?case
  proof (cases "cb (payload (packets c ! nat (packetsBegin c))) x")
    case None
    then show ?thesis using ne i next_queue [OF Suc.prems ne] Suc.hyps(1) [OF n next_packet_ok [OF Suc.prems], of x]
      by (subst read_buffered.simps) (auto simp: payload_def next_packet_simps)
  next
    case (Some x')
    then show ?thesis using ne i next_queue [OF Suc.prems ne] Suc.hyps(1) [OF n next_packet_ok [OF Suc.prems], of x']
      by (subst read_buffered.simps) (auto simp: payload_def next_packet_simps)
  qed
qed

lemma slots_differ: "k < q \<Longrightarrow> q < 16 \<Longrightarrow> (b + k) mod 16 \<noteq> (b + q) mod (16 :: nat)"
proof
  assume h: "k < q" "q < 16" "(b + k) mod 16 = (b + q) mod 16"
  then have "16 dvd q - k" using mod_eq_dvd_iff_nat [of "b + k" "b + q" 16] by simp
  then show False using h by (auto dest: dvd_imp_le)
qed

lemma end_slot:
  assumes "chan_ok c" and "packetsEnd c \<noteq> 16"
  shows "nat (packetsEnd c) = (nat (packetsBegin c) + queued c) mod 16" and "queued c < 16"
proof -
  define b e where "b = packetsBegin c" and "e = packetsEnd c"
  have be: "0 \<le> b" "b < 16" "0 \<le> e" "e < 16" using assms by (simp_all add: chan_ok_def b_def e_def)
  have q: "int (queued c) = (e - b) mod 16" using assms(2) by (simp add: queued_def b_def e_def)
  then show "queued c < 16" using pos_mod_bound [of 16 "e - b"] by simp
  have "int ((nat b + queued c) mod 16) = (b + (e - b) mod 16) mod 16" using be q by (simp add: zmod_int)
  also have "\<dots> = e" using be by (simp add: mod_add_right_eq)
  finally show "nat (packetsEnd c) = (nat (packetsBegin c) + queued c) mod 16" by (simp add: b_def e_def)
qed

lemma buffer_packet_queues:
  assumes "chan_ok c" and "length data \<le> 496"
  shows "\<exists>c'. buffer_packet data c = Some c' \<and> chan_ok c' \<and> chan_cb c' = chan_cb c \<and>
    chan_queue c' = (if length (chan_queue c) < 16 then chan_queue c @ [data] else chan_queue c)"
proof (cases "packetsEnd c = 16")
  case True
  then show ?thesis using assms(1) by (intro exI [of _ c]) (simp add: buffer_packet_def CHAN_BUFFER_SIZE_def chan_queue_def queued_def)
next
  case False
  define b q where "b = nat (packetsBegin c)" and "q = queued c"
  note e = end_slot [OF assms(1) False, folded b_def q_def]
  define p where "p = \<lparr>packetSize = of_nat (length data), packet_buf = data @ drop (length data) (packet_buf (packets c ! nat (packetsEnd c)))\<rparr>"
  define ps where "ps = (packets c)[(b + q) mod 16 := p]"
  define e' where "e' = (if packetsEnd c = 15 then 0 else packetsEnd c + 1)"
  define c' where "c' = c\<lparr>packets := ps, packetsEnd := (if packetsBegin c = e' then 16 else e')\<rparr>"
  have c: "length (packets c) = 16" "0 \<le> packetsBegin c" "packetsBegin c < 16" "0 \<le> packetsEnd c" "packetsEnd c < 16"
    using assms(1) False by (simp_all add: chan_ok_def)
  have run: "buffer_packet data c = Some c'"
    using c assms(2) False e(1) [symmetric]
    by (auto simp: buffer_packet_def CHAN_BUFFER_SIZE_def RPMSG_MAX_DATA_SIZE_def Let_def c'_def e'_def ps_def p_def)
  have "length (packet_buf (packets c ! nat (packetsEnd c))) = 496" using assms(1) c by (simp add: chan_ok_def nat_less_iff)
  then have p: "unat (packetSize p) \<le> 496" "length (packet_buf p) = 496" "payload p = data"
    using assms(2) by (simp_all add: p_def payload_def unat_of_nat)
  have ok: "chan_ok c'"
    using assms(1) c p(1,2) set_update_subset_insert [of "packets c" "(b + q) mod 16" p]
    by (auto simp: chan_ok_def c'_def ps_def e'_def)
  have q': "queued c' = Suc q"
    using c False by (auto simp: queued_def c'_def e'_def q_def small_mod)
  have "payload (ps ! ((b + k) mod 16)) = (map (\<lambda>k. payload (packets c ! ((b + k) mod 16))) [0..<q] @ [data]) ! k" if "k < Suc q" for k
  proof (cases "k = q")
    case True
    then show ?thesis using p(3) c(1) by (simp add: ps_def nth_append)
  next
    case False
    then have "(b + q) mod 16 \<noteq> (b + k) mod 16" using that slots_differ [of k q b] e(2) by auto
    then show ?thesis using False that by (simp add: ps_def nth_append)
  qed
  then have "map (\<lambda>k. payload (ps ! ((b + k) mod 16))) [0..<Suc q] = map (\<lambda>k. payload (packets c ! ((b + k) mod 16))) [0..<q] @ [data]"
    by (intro nth_equalityI) (simp_all del: upt_Suc)
  then have "chan_queue c' = chan_queue c @ [data]"
    unfolding chan_queue_def q' by (simp add: c'_def b_def q_def del: upt_Suc)
  then show ?thesis using run ok e(2) by (intro exI [of _ c']) (simp add: c'_def chan_queue_def q_def)
qed

text \<open>The ring as a channel: what the endpoint callback puts in and the read loop takes out.\<close>

definition ring_put :: "bytes \<Rightarrow> 'x Channel \<Rightarrow> bool \<times> 'x Channel" where
  "ring_put data c = (packetsEnd c \<noteq> CHAN_BUFFER_SIZE, case buffer_packet data c of Some c' \<Rightarrow> c' | None \<Rightarrow> c)"

definition ring_take :: "'x Channel \<Rightarrow> bytes option \<times> 'x Channel" where
  "ring_take c = (if packetsBegin c = packetsEnd c then (None, c)
     else (Some (payload (packets c ! nat (packetsBegin c))), next_packet c))"

lemma queue_length: "chan_ok c \<Longrightarrow> length (chan_queue c) < 16 \<longleftrightarrow> packetsEnd c \<noteq> 16"
  using end_slot(2) [of c] by (auto simp: chan_queue_def queued_def)

lemma queue_empty: "chan_ok c \<Longrightarrow> chan_queue c = [] \<longleftrightarrow> packetsBegin c = packetsEnd c"
  using next_queue [of c] chan_queue_Nil [of c] by (metis list.distinct(1))

interpretation oa_ring: bounded_channel chan_ok chan_queue 16 "\<lambda>p. length p \<le> 496" ring_put ring_take
proof unfold_locales
  fix c :: "'x Channel" and p ps
  assume ok: "chan_ok c"
  show "length (chan_queue c) \<le> 16" using end_slot(2) [OF ok] by (cases "packetsEnd c = 16") (auto simp: chan_queue_def queued_def)
  show "ring_take c = (None, c)" if "chan_queue c = []"
    using that queue_empty [OF ok] by (simp add: ring_take_def)
  show "\<exists>c'. ring_take c = (Some p, c') \<and> chan_ok c' \<and> chan_queue c' = ps" if "chan_queue c = p # ps"
    using that queue_empty [OF ok] next_queue [OF ok] next_packet_ok [OF ok] by (auto simp: ring_take_def)
  assume p: "length p \<le> 496"
  show "\<exists>c'. ring_put p c = (True, c') \<and> chan_ok c' \<and> chan_queue c' = chan_queue c @ [p]" if "length (chan_queue c) < 16"
    using that buffer_packet_queues [OF ok p] queue_length [OF ok] by (auto simp: ring_put_def CHAN_BUFFER_SIZE_def)
  show "ring_put p c = (False, c)" if "\<not> length (chan_queue c) < 16"
    using that queue_length [OF ok] by (simp add: ring_put_def CHAN_BUFFER_SIZE_def buffer_packet_def)
qed

text \<open>
  C35: the packets that arrive while nobody reads. In any sequence of arrivals of
  packets of at most 496 bytes and of packets taken by the read loop, starting from the empty ring
  of the initial state, the packets taken and those still buffered are exactly the ones accepted,
  in the order of arrival; at most sixteen are buffered, and one is refused only when sixteen are.
\<close>

theorem openamp_buffer_fifo:
  fixes c :: "'x Channel"
  assumes "list_all (\<lambda>p. length p \<le> 496) (sent_packets ops)"
    and "channel_run ring_put ring_take ops init_chan = (accepted, taken, c)"
  shows "accepted = taken @ chan_queue c \<and> length (chan_queue c) \<le> 16 \<and>
    (length p \<le> 496 \<longrightarrow> fst (ring_put p c) = (length (chan_queue c) < 16))"
proof -
  have init: "chan_ok (init_chan :: 'x Channel)" "chan_queue (init_chan :: 'x Channel) = []"
    by (simp_all add: init_chan_def chan_ok_def chan_queue_def queued_def RPMSG_MAX_DATA_SIZE_def)
  have run: "chan_ok c" "accepted = taken @ chan_queue c" using oa_ring.run_fifo [OF init(1) assms] init(2) by simp_all
  then show ?thesis using oa_ring.within_capacity queue_length [OF run(1)] by (auto simp: ring_put_def CHAN_BUFFER_SIZE_def)
qed

theorem openamp_buffer_fifo_witness:
  "\<exists>c :: unit Channel. channel_run ring_put ring_take [Send [1], Send [2, 3], Recv] init_chan = ([[1], [2, 3]], [[1]], c) \<and> chan_queue c = [[2, 3]]"
proof -
  obtain a t and c :: "unit Channel" where run: "channel_run ring_put ring_take [Send [1], Send [2, 3], Recv] init_chan = (a, t, c)" by (metis prod.exhaust)
  then have "a = [[1], [2, 3]]" "t = [[1]]"
    by (auto simp: ring_put_def ring_take_def buffer_packet_def init_chan_def Let_def CHAN_BUFFER_SIZE_def RPMSG_MAX_DATA_SIZE_def
        payload_def)
  then show ?thesis using openamp_buffer_fifo [OF _ run] run by (intro exI [of _ c]) (simp del: channel_run.simps)
qed

section \<open>Reading a channel\<close>

lemma address_matches: "a \<noteq> RPMSG_ADDR_ANY \<Longrightarrow> ept_matches None a RPMSG_ADDR_ANY ept \<longleftrightarrow> ept_addr ept = a"
  by (auto simp: ept_matches_def)

lemma lookup_cong:
  assumes "a \<noteq> RPMSG_ADDR_ANY" and "endpoints d' = endpoints d" and "\<And>e. ept_addr (epts d' e) = ept_addr (epts d e)"
  shows "rpmsg_get_ept_from_addr a d' = rpmsg_get_ept_from_addr a d"
  using assms by (simp add: rpmsg_get_ept_from_addr_def rpmsg_get_endpoint_def address_matches)

text \<open>Endpoint \<open>i\<close> has address \<open>a\<close> and the callback of channel \<open>i\<close>, which is being read with \<open>cb\<close>.\<close>

definition reading :: "nat \<Rightarrow> u32 \<Rightarrow> 'x read_cb \<Rightarrow> (nat, 'x ovariant) rpdev \<Rightarrow> bool" where
  "reading i a cb d \<longleftrightarrow> a \<noteq> RPMSG_ADDR_ANY \<and> rpmsg_get_ept_from_addr a d = Some i \<and> ept_cb (epts d i) = Some (user_callback i) \<and>
     chan_cb (f_chans (rv_app (dev d)) ! i) = Some cb"

lemma deliver_reading:
  assumes "reading i a cb d" and "cb p (ov_app (rv_app (dev d))) = Some x"
  shows "\<exists>d'. deliver (variant_env sleep fl) (src, a, p) d = Some d' \<and> reading i a cb d' \<and>
    rv_app (dev d') = (rv_app (dev d))\<lparr>ov_app := x\<rparr>"
proof -
  define d0 where "d0 = (if ept_dest (epts d i) = RPMSG_ADDR_ANY then set_dest i src d else d)"
  define d' where "d' = on_app (\<lambda>v. v\<lparr>ov_app := x\<rparr>) d0"
  have d0: "endpoints d0 = endpoints d" "\<And>e. ept_addr (epts d0 e) = ept_addr (epts d e)" "dev d0 = dev d"
    "ept_cb (epts d0 i) = ept_cb (epts d i)"
    by (simp_all add: d0_def set_dest_def)
  have d': "endpoints d' = endpoints d" "\<And>e. ept_addr (epts d' e) = ept_addr (epts d e)" "ept_cb (epts d' i) = ept_cb (epts d i)"
    "rv_app (dev d') = (rv_app (dev d))\<lparr>ov_app := x\<rparr>"
    using d0 by (simp_all add: d'_def on_app_def)
  have "deliver (variant_env sleep fl) (src, a, p) d = Some d'"
    using assms d0 by (simp add: deliver_def reading_def Let_def run_callback_def variant_env_def rpmsg_endpoint_cb_def
        d0_def [symmetric] d'_def on_app_def RPMSG_SUCCESS_def)
  moreover have "reading i a cb d'"
    using assms(1) d' lookup_cong [of a d' d] by (simp add: reading_def)
  ultimately show ?thesis using d'(4) by blast
qed

lemma deliver_all_reading:
  assumes "reading i a cb d" and "apply_all cb ps (ov_app (rv_app (dev d))) = Some x" and "map (fst \<circ> snd) msgs = map (\<lambda>_. a) msgs"
    and "map (snd \<circ> snd) msgs = ps"
  shows "\<exists>d'. deliver_all (variant_env sleep fl) msgs d = Some d' \<and> reading i a cb d' \<and> rv_app (dev d') = (rv_app (dev d))\<lparr>ov_app := x\<rparr>"
  using assms
proof (induction msgs arbitrary: d ps)
  case Nil
  then show ?case by simp
next
  case (Cons msg msgs)
  obtain src p where msg: "msg = (src, a, p)" using Cons.prems(3) by (cases msg) auto
  obtain ps' y where y: "ps = p # ps'" "cb p (ov_app (rv_app (dev d))) = Some y" "apply_all cb ps' y = Some x"
    using Cons.prems(2,4) msg by (cases ps) (auto simp: bind_eq_Some_conv)
  obtain d1 where d1: "deliver (variant_env sleep fl) (src, a, p) d = Some d1" "reading i a cb d1"
    "rv_app (dev d1) = (rv_app (dev d))\<lparr>ov_app := y\<rparr>"
    using deliver_reading [OF Cons.prems(1) y(2)] by blast
  then show ?case using Cons.IH [OF d1(2), of ps'] y(1,3) Cons.prems(3,4) msg by simp
qed

lemma poll_runs:
  assumes "\<not> nokick (ot_rproc s)" and "remoteproc_get_notification RSC_NOTIFY_ID_ANY (ot_rproc s) = (0, [(0, 0), (0, 1)])"
    and "rpmsg_virtio_rx_callback env (ot_dev s) = Some d"
  shows "poll_platform env s = Some (s\<lparr>ot_rproc := (ot_rproc s)\<lparr>nokick := True\<rparr>, ot_dev := d\<rparr>)"
  using assms by (simp add: poll_platform_def platform_poll_noblock_def virtqueue_notification_def rpmsg_virtio_tx_callback_def)

lemma on_app_simps:
  "rvq (dev (on_app f d)) = rvq (dev d)" "rring (dev (on_app f d)) = rring (dev d)" "rv_role (dev (on_app f d)) = rv_role (dev d)"
  "rv_mem (dev (on_app f d)) = rv_mem (dev d)" "rv_app (dev (on_app f d)) = f (rv_app (dev d))" "epts (on_app f d) = epts d"
  "endpoints (on_app f d) = endpoints d"
  by (simp_all add: on_app_def)

lemma chan_cb_irrelevant [simp]: "chan_ok (c\<lparr>chan_cb := z\<rparr>) = chan_ok c" "chan_queue (c\<lparr>chan_cb := z\<rparr>) = chan_queue c"
  by (simp_all add: chan_ok_def chan_queue_def queued_def)

text \<open>
  C6: the read of a channel, composed of the ring of buffered packets, the
  virtqueue and the dispatch of messages. With a notification pending and messages for the
  endpoint of the channel waiting in the receive queue, the read ends; it has passed to its
  callback the packets buffered earlier and then the waiting messages, all in the order of their
  arrival; afterwards nothing is buffered, every buffer of the queue is back with the peer and
  the notification is consumed.
\<close>

theorem openamp_read_fifo:
  assumes "i < length (f_chans (ot_variant s))" and "chan_ok (f_chans (ot_variant s) ! i)"
    and "\<not> nokick (ot_rproc s)" and "remoteproc_get_notification RSC_NOTIFY_ID_ANY (ot_rproc s) = (0, [(0, 0), (0, 1)])"
    and "vq_inv n dv (rvq (dev (ot_dev s))) (rring (dev (ot_dev s))) V" and "one_page (shm_io (rvq (dev (ot_dev s))))"
    and "rv_role (dev (ot_dev s)) = VIRTIO_DEV_SLAVE"
    and "map (seen_at (shm_io dv) (shm_io (rvq (dev (ot_dev s))))) (vw_avail V) = map Some hs" and "0 \<notin> set hs"
    and "map (\<lambda>h. message_at (rv_mem (dev (ot_dev s))) (unat h)) hs = map (\<lambda>(src, p). (src, a, p)) sent"
    and "a \<noteq> RPMSG_ADDR_ANY" and "rpmsg_get_ept_from_addr a (ot_dev s) = Some i"
    and "ept_cb (epts (ot_dev s) i) = Some (user_callback i)"
    and "apply_all cb (chan_queue (f_chans (ot_variant s) ! i) @ map snd sent) (ov_app (ot_variant s)) = Some x"
  shows "\<exists>s'. ReadChannel (variant_env sleep fl) i cb s = Some s' \<and> ov_app (ot_variant s') = x \<and> nokick (ot_rproc s') \<and>
    chan_ok (f_chans (ot_variant s') ! i) \<and> chan_queue (f_chans (ot_variant s') ! i) = [] \<and>
    vq_inv n dv (rvq (dev (ot_dev s'))) (rring (dev (ot_dev s')))
      (V\<lparr>vw_avail := [], vw_used := vw_used V @ map (\<lambda>q. (q, req_len q)) (vw_avail V)\<rparr>)"
proof -
  let ?c = "f_chans (ot_variant s) ! i" and ?env = "variant_env sleep fl"
  have app: "apply_all cb (xs @ ys) y = apply_all cb xs y \<bind> apply_all cb ys" for xs ys y
    by (induction xs arbitrary: y) (auto split: bind_splits)
  obtain y where y: "apply_all cb (chan_queue ?c) (ov_app (ot_variant s)) = Some y" "apply_all cb (map snd sent) y = Some x"
    using assms(14) by (auto simp: app bind_eq_Some_conv)
  obtain c' where c': "read_buffered cb ?c (ov_app (ot_variant s)) = Some (c', y)" "chan_ok c'" "chan_queue c' = []"
    using read_buffered_drains [OF assms(2), of cb "ov_app (ot_variant s)"] y(1) by auto
  let ?f = "\<lambda>v. (set_cb i (Some cb) (put_chan i c' v))\<lparr>ov_app := y, f_packetsBuffered := 0\<rparr>"
  define d0 where "d0 = on_app ?f (ot_dev s)"
  have "rpmsg_get_ept_from_addr a d0 = Some i" using assms(11,12) lookup_cong [of a d0 "ot_dev s"] by (simp add: d0_def on_app_simps)
  then have rd: "reading i a cb d0"
    using assms(1,11,13) by (simp add: reading_def d0_def on_app_simps set_cb_def put_chan_def)
  have "apply_all cb (map snd sent) (ov_app (rv_app (dev d0))) = Some x" using y(2) by (simp add: d0_def on_app_simps)
  from deliver_all_reading [OF rd this, of "map (\<lambda>(src, p). (src, a, p)) sent" sleep fl]
  obtain d1 where d1: "deliver_all ?env (map (\<lambda>h. message_at (rv_mem (dev d0)) (unat h)) hs) d0 = Some d1"
    "rv_app (dev d1) = (rv_app (dev d0))\<lparr>ov_app := x\<rparr>"
    using assms(10) by (auto simp: comp_def case_prod_beta d0_def on_app_simps)
  obtain q r k where rx: "rpmsg_virtio_rx_callback ?env d0 = Some (put_rx q r k d1)"
    and inv: "vq_inv n dv q r (V\<lparr>vw_avail := [], vw_used := vw_used V @ map (\<lambda>q. (q, req_len q)) (vw_avail V)\<rparr>)"
    using rx_callback_drains [of n dv d0 V hs ?env d1] assms(5-9) d1(1) by (auto simp: d0_def on_app_simps)
  let ?s0 = "on_variant ?f s"
  have poll: "poll_platform ?env ?s0 = Some (?s0\<lparr>ot_rproc := (ot_rproc s)\<lparr>nokick := True\<rparr>, ot_dev := put_rx q r k d1\<rparr>)"
    using poll_runs [of ?s0 ?env "put_rx q r k d1"] assms(3,4) rx by (simp add: on_variant_def d0_def)
  let ?s1 = "on_variant (set_cb i None) (?s0\<lparr>ot_rproc := (ot_rproc s)\<lparr>nokick := True\<rparr>, ot_dev := put_rx q r k d1\<rparr>)"
  have "ReadChannel ?env i cb s = Some ?s1" using c'(1) poll by (simp add: ReadChannel_def)
  moreover have "rv_app (dev (ot_dev ?s1)) = set_cb i None (rv_app (dev d1))"
    by (simp add: on_variant_def on_app_simps)
  moreover have "f_chans (set_cb i None (rv_app (dev d1))) ! i = c'\<lparr>chan_cb := None\<rparr>"
    using assms(1) by (simp add: d1(2) set_cb_def put_chan_def d0_def on_app_simps)
  moreover have "ov_app (set_cb i None (rv_app (dev d1))) = x" by (simp add: d1(2) set_cb_def put_chan_def)
  ultimately show ?thesis using inv c'(2,3) by (intro exI [of _ ?s1]) (simp add: on_variant_def on_app_simps)
qed

text \<open>One empty message waits for channel 0; one packet is buffered.\<close>

definition demo_chan :: "bytes list Channel" where
  "demo_chan = init_chan\<lparr>packetsEnd := 1\<rparr>"

definition demo_rpdev :: "virtqueue \<Rightarrow> vring \<Rightarrow> (nat, bytes list ovariant) rpdev" where
  "demo_rpdev sv r = \<lparr>epts = (\<lambda>_. \<lparr>ept_name = replicate 32 0, ept_rdev = True, ept_addr = 0, ept_dest = 7,
      ept_cb = Some (user_callback 0), ept_node = True\<rparr>), endpoints = [0], bitmap = [1, 0, 0, 0], support_ns = False,
      dev = \<lparr>rv_role = VIRTIO_DEV_SLAVE, rv_status = 4, rvq = sv, rring = r, svq = sv, sring = r, shbuf_io = demo_io,
        shpool = rpmsg_virtio_init_shm_pool 0 0, rv_mem = (\<lambda>_. 0), rv_notified = 0,
        rv_app = \<lparr>f_chans = [demo_chan, init_chan, init_chan], f_packetsBuffered = 1, ov_app = []\<rparr>\<rparr>\<rparr>"

definition demo_rproc :: remoteproc where
  "demo_rproc = (rproc_inst (\<lambda>_. 0))\<lparr>rproc_vdevs := [\<lparr>vd_role = VIRTIO_DEV_SLAVE, vd_notifyid = 2, vd_vrings =
     map (\<lambda>i. \<lparr>vi_extra = 0, vi_io = None, vi_notifyid = i, vi_vaddr = 0, vi_num_descs = 256, vi_align = 4096\<rparr>) [1, 2],
     vd_rsc = 0, vd_rsc_io = demo_io\<rparr>]\<rparr>"

theorem openamp_read_fifo_witness:
  "\<exists>s s'. chan_queue (f_chans (ot_variant s) ! 0) = [[]] \<and>
     ReadChannel (variant_env id 0) 0 (\<lambda>p log. Some (log @ [p])) s = Some s' \<and> ov_app (ot_variant s') = [[], []]"
proof -
  obtain dv sv r where q: "vq_inv 2 dv sv r demo_view" "shm_io dv = demo_io" "shm_io sv = demo_io" using demo_queue by auto
  define s where "s = \<lparr>ot_rproc = demo_rproc, ot_dev = demo_rpdev sv r\<rparr>"
  have ok: "chan_ok (f_chans (ot_variant s) ! 0)" and cq: "chan_queue (f_chans (ot_variant s) ! 0) = [[]]"
    by (simp_all add: s_def demo_rpdev_def demo_chan_def init_chan_def chan_ok_def chan_queue_def queued_def payload_def
        RPMSG_MAX_DATA_SIZE_def)
  have nt: "remoteproc_get_notification RSC_NOTIFY_ID_ANY (ot_rproc s) = (0, [(0, 0), (0, 1)])"
    by (rule notified_any(1)) (simp_all add: s_def demo_rproc_def)
  have msg: "message_at (rv_mem (dev (ot_dev s))) a = (0, 0, [])" for a
    by (simp add: message_at_def s_def demo_rpdev_def load32_def load16_def load_bytes_def le_word_zeros map_replicate_const)
  have "rpmsg_get_ept_from_addr 0 (ot_dev s) = Some 0" "ept_cb (epts (ot_dev s) 0) = Some (user_callback 0)"
    by (simp_all add: s_def demo_rpdev_def rpmsg_get_ept_from_addr_def rpmsg_get_endpoint_def ept_matches_def RPMSG_ADDR_ANY_def)
  then have "\<exists>s'. ReadChannel (variant_env id 0) 0 (\<lambda>p log. Some (log @ [p])) s = Some s' \<and> ov_app (ot_variant s') = [[], []]"
    using openamp_read_fifo [OF _ ok _ nt, where n = 2 and dv = dv and V = demo_view and hs = "[0x3E801000]" and a = 0 and sent = "[(0, [])]"
        and cb = "\<lambda>p log. Some (log @ [p])" and x = "[[], []]" and sleep = id and fl = 0]
      q demo_io_page demo_seen msg cq
    by (auto simp: s_def demo_rpdev_def demo_rproc_def rproc_inst_def demo_view_def RPMSG_ADDR_ANY_def)
  then show ?thesis using cq by blast
qed

section \<open>Channels 1 and 2\<close>

text \<open>An endpoint as the static data of the program has it before its creation.\<close>

definition static_ept :: "'c rpmsg_endpoint \<Rightarrow> bool" where
  "static_ept e \<longleftrightarrow> \<not> ept_rdev e \<and> ept_dest e = 0"

lemma second_channel:
  assumes "rp_inv 3 d" and "0 \<in> set (endpoints d)" and "ept_addr (epts d 0) = 0" and "i \<notin> set (endpoints d)" and "i \<noteq> 3"
    and "create_channel env i d = Some (ret, d')"
  shows "ret = 0 \<and> d' = d"
proof -
  have "0 \<in> set (endpoints d) - {3}" "ept_addr (epts d 0) \<noteq> RPMSG_ADDR_ANY" using assms(2,3) by (simp_all add: RPMSG_ADDR_ANY_def)
  then have "bm_used (bitmap d) (unat (ept_addr (epts d 0)))" using assms(1) unfolding rp_inv_def by blast
  then have "bm_used (bitmap d) (unat (0 :: u32))" using assms(3) by simp
  then have t: "taken_address 0 d" by (simp add: taken_address_def RPMSG_ADDR_ANY_def)
  show ?thesis
    using create_ept_registry [OF assms(1,4,5) _ assms(6) [unfolded create_channel_def]] t by (auto simp: RPMSG_SUCCESS_def)
qed

lemma dead_write:
  assumes "static_ept (epts (ot_dev s) i)"
  shows "WriteChannel env i data s = Some (False, s)"
  using assms by (simp add: WriteChannel_def rpmsg_send_def rpmsg_send_offchannel_raw_def static_ept_def RPMSG_ADDR_ANY_def
      RPMSG_ERR_PARAM_def)

text \<open>
  C34: initialisation of the variant. All three endpoints ask for address 0. When the
  initialisation reports success, only channel 0 has an endpoint and receives the messages for
  address 0; channels 1 and 2 have none: every write to them fails without effect, and the
  destruction of the variant dereferences their null device.
\<close>

theorem openamp_channels:
  assumes "rp_inv 3 d" and "set (endpoints d) \<subseteq> {3}" and "\<not> taken_address 0 d"
    and "static_ept (epts d 1)" and "static_ept (epts d 2)"
    and "oa_VARIANT_Initialize env (Some d) = Some (True, d')"
  shows "endpoints d' = endpoints d @ [0] \<and> rpmsg_get_ept_from_addr 0 d' = Some 0 \<and>
    (\<forall>i \<in> {1, 2}. WriteChannel env i data \<lparr>ot_rproc = rp, ot_dev = d'\<rparr> = Some (False, \<lparr>ot_rproc = rp, ot_dev = d'\<rparr>)) \<and>
    oa_VARIANT_Destruct env \<lparr>ot_rproc = rp, ot_dev = d'\<rparr> = None"
proof -
  obtain d1 d2 r2 r3 where c: "create_channel env 0 d = Some (0, d1)" "create_channel env 1 d1 = Some (r2, d2)" "r2 = 0"
    "create_channel env 2 d2 = Some (r3, d')"
    using assms(6) by (auto simp: oa_VARIANT_Initialize_def bind_eq_Some_conv split: if_splits)
  have e0: "0 \<notin> set (endpoints d)" "(0 :: nat) \<noteq> 3" "(0 :: u32) = RPMSG_ADDR_ANY \<or> unat (0 :: u32) < 2 ^ 31" using assms(2) by auto
  note r = create_ept_registry [OF assms(1) e0 c(1) [unfolded create_channel_def]]
  have d1: "rp_inv 3 d1" "endpoints d1 = endpoints d @ [0]" "ept_addr (epts d1 0) = 0" "rpmsg_get_ept_from_addr 0 d1 = Some 0"
    "epts d1 1 = epts d 1" "epts d1 2 = epts d 2"
    using r assms(3) by (auto simp: RPMSG_ADDR_ANY_def RPMSG_NS_EPT_ADDR_def)
  have out: "0 \<in> set (endpoints d1)" "1 \<notin> set (endpoints d1)" "2 \<notin> set (endpoints d1)" using d1(2) assms(2) by auto
  have d2: "d2 = d1" using second_channel [OF d1(1) out(1) d1(3) out(2) _ c(2)] by simp
  have d': "d' = d1" using second_channel [OF d1(1) out(1) d1(3) out(3) _ c(4) [unfolded d2]] by simp
  have "rpmsg_destroy_ept f 2 d' = None" for f
    using assms(5) d1(6) d' by (simp add: rpmsg_destroy_ept_def static_ept_def)
  then have "oa_VARIANT_Destruct env \<lparr>ot_rproc = rp, ot_dev = d'\<rparr> = None" by (simp add: oa_VARIANT_Destruct_def)
  moreover have "WriteChannel env i data \<lparr>ot_rproc = rp, ot_dev = d'\<rparr> = Some (False, \<lparr>ot_rproc = rp, ot_dev = d'\<rparr>)"
    if "i \<in> {1, 2}" for i
    using that assms(4,5) d1(5,6) d' by (intro dead_write) auto
  ultimately show ?thesis using d1(2,4) d' by simp
qed

definition demo_fresh :: "(nat, bytes list ovariant) rpdev" where
  "demo_fresh = (demo_rpdev demo_device (zero_ring 2))\<lparr>epts := (\<lambda>_. \<lparr>ept_name = replicate 32 0, ept_rdev = False, ept_addr = 0,
     ept_dest = 0, ept_cb = None, ept_node = False\<rparr>), endpoints := [], bitmap := [0, 0, 0, 0]\<rparr>"

theorem openamp_channels_witness:
  "\<exists>d'. oa_VARIANT_Initialize (variant_env id 0) (Some demo_fresh) = Some (True, d') \<and> endpoints d' = [0] \<and>
     WriteChannel (variant_env id 0) 1 [42] \<lparr>ot_rproc = demo_rproc, ot_dev = d'\<rparr> =
       Some (False, \<lparr>ot_rproc = demo_rproc, ot_dev = d'\<rparr>)"
proof -
  have f: "endpoints demo_fresh = []" "bitmap demo_fresh = [0, 0, 0, 0]" "support_ns demo_fresh = False"
    by (simp_all add: demo_fresh_def demo_rpdev_def)
  have inv: "rp_inv 3 demo_fresh" "set (endpoints demo_fresh) \<subseteq> {3}" "static_ept (epts demo_fresh 1)" "static_ept (epts demo_fresh 2)"
    by (simp_all add: rp_inv_def f) (simp_all add: demo_fresh_def static_ept_def)
  have free: "\<not> taken_address 0 demo_fresh" by (simp add: taken_address_def f bm_used_def)
  obtain d' where d': "oa_VARIANT_Initialize (variant_env id 0) (Some demo_fresh) = Some (True, d')"
    by (simp add: oa_VARIANT_Initialize_def create_channel_def rpmsg_create_ept_def rpmsg_is_address_set_def RPMSG_ADDR_BMP_SIZE_def
        metal_bitmap_is_bit_set_def rpmsg_set_address_def metal_bitmap_set_bit_def add_ept_def Let_def f RPMSG_ADDR_ANY_def
        rpmsg_register_endpoint_def rpmsg_init_ept_def RPMSG_SUCCESS_def)
  then show ?thesis
    using openamp_channels [OF inv(1,2) free inv(3,4) d', of "[42]" demo_rproc] f(1) by auto
qed

end
