(* ===== verification/Metal_List.thy ===== *)
theory Metal_List
  imports Prelude "HOL-Library.Monad_Syntax"
begin

text \<open>
  The circular doubly linked lists of libmetal (\<open>lib/list.h\<close>), which hold the interrupt
  controllers, buses, devices and shared memories. A list is a head node and the nodes linked to
  it in a heap of nodes; \<open>list_at\<close> relates a heap to the sequence of nodes it represents. The
  operations update the heap one assignment at a time, in the order of the source. The clients use
  the lists through the locale \<open>node_list\<close>.
\<close>

section \<open>Nodes and operations\<close>

record 'p metal_list =
  l_next :: 'p
  l_prev :: 'p

type_synonym 'p list_heap = "'p \<Rightarrow> 'p metal_list"

definition set_next :: "'p \<Rightarrow> 'p \<Rightarrow> 'p list_heap \<Rightarrow> 'p list_heap" where
  "set_next p v H = H(p := (H p)\<lparr>l_next := v\<rparr>)"

definition set_prev :: "'p \<Rightarrow> 'p \<Rightarrow> 'p list_heap \<Rightarrow> 'p list_heap" where
  "set_prev p v H = H(p := (H p)\<lparr>l_prev := v\<rparr>)"

definition metal_list_init :: "'p \<Rightarrow> 'p list_heap \<Rightarrow> 'p list_heap" where
  "metal_list_init l H = set_next l l (set_prev l l H)"

definition metal_list_add_before :: "'p \<Rightarrow> 'p \<Rightarrow> 'p list_heap \<Rightarrow> 'p list_heap" where
  "metal_list_add_before node new_node H =
    (let H = set_prev new_node (l_prev (H node)) H;
         H = set_next new_node node H;
         H = set_prev (l_next (H new_node)) new_node H
     in set_next (l_prev (H new_node)) new_node H)"

definition metal_list_add_after :: "'p \<Rightarrow> 'p \<Rightarrow> 'p list_heap \<Rightarrow> 'p list_heap" where
  "metal_list_add_after node new_node H =
    (let H = set_prev new_node node H;
         H = set_next new_node (l_next (H node)) H;
         H = set_prev (l_next (H new_node)) new_node H
     in set_next (l_prev (H new_node)) new_node H)"

definition metal_list_add_head :: "'p \<Rightarrow> 'p \<Rightarrow> 'p list_heap \<Rightarrow> 'p list_heap" where
  "metal_list_add_head l node H = metal_list_add_after l node H"

definition metal_list_add_tail :: "'p \<Rightarrow> 'p \<Rightarrow> 'p list_heap \<Rightarrow> 'p list_heap" where
  "metal_list_add_tail l node H = metal_list_add_before l node H"

definition metal_list_is_empty :: "'p \<Rightarrow> 'p list_heap \<Rightarrow> bool" where
  "metal_list_is_empty l H \<longleftrightarrow> l_next (H l) = l"

definition metal_list_del :: "'p \<Rightarrow> 'p list_heap \<Rightarrow> 'p list_heap" where
  "metal_list_del node H =
    (let H = set_prev (l_next (H node)) (l_prev (H node)) H;
         H = set_next (l_prev (H node)) (l_next (H node)) H
     in set_next node node (set_prev node node H))"

definition metal_list_first :: "'p \<Rightarrow> 'p list_heap \<Rightarrow> 'p option" where
  "metal_list_first l H = (if metal_list_is_empty l H then None else Some (l_next (H l)))"

text \<open>
  The loop \<open>metal_list_for_each\<close> with a body that reads the list: the body maps the loop state to
  a new state or leaves the loop with a result. A damaged list may make the loop run forever, so it
  is a partial function.
\<close>

partial_function (option) for_each_from ::
  "'p list_heap \<Rightarrow> 'p \<Rightarrow> ('p \<Rightarrow> 's \<Rightarrow> 's + 'r) \<Rightarrow> 'p \<Rightarrow> 's \<Rightarrow> ('s + 'r) option" where
  "for_each_from H l body node s =
    (if node = l then Some (Inl s)
     else case body node s of Inl s' \<Rightarrow> for_each_from H l body (l_next (H node)) s' | Inr r \<Rightarrow> Some (Inr r))"

definition metal_list_for_each ::
  "'p list_heap \<Rightarrow> 'p \<Rightarrow> ('p \<Rightarrow> 's \<Rightarrow> 's + 'r) \<Rightarrow> 's \<Rightarrow> ('s + 'r) option" where
  "metal_list_for_each H l body s = for_each_from H l body (l_next (H l)) s"

text \<open>The loops that stop at the first node with a property and return it.\<close>

definition metal_list_find :: "'p list_heap \<Rightarrow> 'p \<Rightarrow> ('p \<Rightarrow> bool) \<Rightarrow> 'p option option" where
  "metal_list_find H l P = do {
     r \<leftarrow> metal_list_for_each H l (\<lambda>n _. if P n then Inr n else Inl ()) ();
     Some (case r of Inl _ \<Rightarrow> None | Inr n \<Rightarrow> Some n) }"

section \<open>The sequence a list represents\<close>

fun dseg :: "'p list_heap \<Rightarrow> 'p \<Rightarrow> 'p list \<Rightarrow> 'p \<Rightarrow> bool" where
  "dseg H a [] b \<longleftrightarrow> l_next (H a) = b \<and> l_prev (H b) = a"
| "dseg H a (x # xs) b \<longleftrightarrow> l_next (H a) = x \<and> l_prev (H x) = a \<and> dseg H x xs b"

definition list_at :: "'p list_heap \<Rightarrow> 'p \<Rightarrow> 'p list \<Rightarrow> bool" where
  "list_at H l xs \<longleftrightarrow> distinct (l # xs) \<and> dseg H l xs l"

fun fold_until :: "('p \<Rightarrow> 's \<Rightarrow> 's + 'r) \<Rightarrow> 'p list \<Rightarrow> 's \<Rightarrow> 's + 'r" where
  "fold_until f [] s = Inl s"
| "fold_until f (x # xs) s = (case f x s of Inl s' \<Rightarrow> fold_until f xs s' | Inr r \<Rightarrow> Inr r)"

lemma set_next_simps [simp]:
  "l_next (set_next p v H q) = (if q = p then v else l_next (H q))"
  "l_prev (set_next p v H q) = l_prev (H q)"
  "l_next (set_prev p v H q) = l_next (H q)"
  "l_prev (set_prev p v H q) = (if q = p then v else l_prev (H q))"
  by (simp_all add: set_next_def set_prev_def)

lemma dseg_append:
  "dseg H a (xs @ y # ys) b \<longleftrightarrow> dseg H a xs y \<and> dseg H y ys b"
  by (induction xs arbitrary: a) auto

lemma dseg_cong:
  assumes "\<And>x. x \<in> insert a (set xs) \<Longrightarrow> l_next (H' x) = l_next (H x)"
    and "\<And>x. x \<in> insert b (set xs) \<Longrightarrow> l_prev (H' x) = l_prev (H x)"
  shows "dseg H' a xs b = dseg H a xs b"
  using assms by (induction xs arbitrary: a) auto

lemma dseg_last: "dseg H a xs b \<Longrightarrow> l_prev (H b) = last (a # xs)"
  by (induction xs arbitrary: a) auto

lemma dseg_first: "dseg H a xs b \<Longrightarrow> l_next (H a) = hd (xs @ [b])"
  by (cases xs) auto

text \<open>A segment survives when only the outer links of its ends change.\<close>

lemma dseg_prev_end:
  assumes "dseg H a xs b" and "p \<notin> set xs" and "p \<noteq> b"
  shows "dseg (set_prev p v H) a xs b"
  using assms by (induction xs arbitrary: a) auto

lemma dseg_next_end:
  assumes "dseg H a xs b" and "p \<notin> set xs" and "p \<noteq> a"
  shows "dseg (set_next p v H) a xs b"
  using assms by (induction xs arbitrary: a) auto

lemma list_at_cong:
  assumes "\<And>x. x \<in> insert l (set xs) \<Longrightarrow> H' x = H x"
  shows "list_at H' l xs = list_at H l xs"
  using dseg_cong [of l xs H' H l] assms by (simp add: list_at_def)

lemma list_at_distinct: "list_at H l xs \<Longrightarrow> distinct (l # xs)"
  by (simp add: list_at_def)

section \<open>Correctness of the operations\<close>

lemma list_at_init: "list_at (metal_list_init l H) l []"
  by (simp add: list_at_def metal_list_init_def)

text \<open>Linking a node between two neighbours, the work of both additions.\<close>

definition linked :: "'p \<Rightarrow> 'p \<Rightarrow> 'p \<Rightarrow> 'p list_heap \<Rightarrow> 'p list_heap" where
  "linked a n b H = set_next a n (set_prev b n (set_next n b (set_prev n a H)))"

lemma add_before_linked:
  assumes "n \<noteq> x" and "n \<noteq> l_prev (H x)"
  shows "metal_list_add_before x n H = linked (l_prev (H x)) n x H"
  using assms by (simp add: metal_list_add_before_def linked_def)

lemma add_after_linked:
  assumes "n \<noteq> x" and "n \<noteq> l_next (H x)"
  shows "metal_list_add_after x n H = linked x n (l_next (H x)) H"
  using assms by (simp add: metal_list_add_after_def linked_def fun_eq_iff set_next_def set_prev_def)

lemma dseg_insert:
  assumes "dseg H c (ys @ zs) d" and "distinct (c # ys @ zs)" and "d \<notin> set (ys @ zs)"
    and "n \<notin> set (c # d # ys @ zs)"
  shows "dseg (linked (last (c # ys)) n (hd (zs @ [d])) H) c (ys @ n # zs) d"
  using assms
proof (induction ys arbitrary: c)
  case Nil
  then show ?case
  proof (cases zs)
    case (Cons z zs')
    then have "dseg (linked c n z H) z zs' d = dseg H z zs' d"
      using Nil.prems by (intro dseg_cong) (auto simp: linked_def)
    then show ?thesis using Nil.prems Cons by (simp add: linked_def)
  qed (simp add: linked_def)
next
  case (Cons y ys)
  have "c \<noteq> last (y # ys)" and "y \<noteq> hd (zs @ [d])"
    using Cons.prems(2,3) last_in_set [of "y # ys"] by (auto simp: hd_append split: if_splits)
  then show ?case
    using Cons.IH [of y] Cons.prems by (auto simp: linked_def)
qed

definition unlinked :: "'p \<Rightarrow> 'p \<Rightarrow> 'p list_heap \<Rightarrow> 'p list_heap" where
  "unlinked a b H = set_next a b (set_prev b a H)"

lemma dseg_remove:
  assumes "dseg H c (ys @ x # zs) d" and "distinct (c # ys @ x # zs)" and "d \<notin> set (ys @ x # zs)"
  shows "dseg (unlinked (last (c # ys)) (hd (zs @ [d])) H) c (ys @ zs) d"
  using assms
proof (induction ys arbitrary: c)
  case Nil
  then show ?case
  proof (cases zs)
    case (Cons z zs')
    then have "dseg (unlinked c z H) z zs' d = dseg H z zs' d"
      using Nil.prems by (intro dseg_cong) (auto simp: unlinked_def)
    then show ?thesis using Nil.prems Cons by (simp add: unlinked_def)
  qed (simp add: unlinked_def)
next
  case (Cons y ys)
  have "c \<noteq> last (y # ys)" and "y \<noteq> hd (zs @ [d])"
    using Cons.prems(2,3) last_in_set [of "y # ys"] by (auto simp: hd_append split: if_splits)
  then show ?case
    using Cons.IH [of y] Cons.prems by (auto simp: unlinked_def)
qed

lemma list_at_neighbours:
  assumes "list_at H l (ys @ x # zs)"
  shows "l_prev (H x) = last (l # ys)" and "l_next (H x) = hd (zs @ [l])"
  using assms dseg_last [of H l ys x] dseg_first [of H x zs l] by (simp_all add: list_at_def dseg_append)

lemma list_at_ends:
  assumes "list_at H l xs"
  shows "l_prev (H l) = last (l # xs)" and "l_next (H l) = hd (xs @ [l])"
  using assms dseg_last [of H l xs l] dseg_first [of H l xs l] by (simp_all add: list_at_def)

lemma list_at_insert:
  assumes "list_at H l (ys @ zs)" and "n \<notin> set (l # ys @ zs)"
  shows "list_at (linked (last (l # ys)) n (hd (zs @ [l])) H) l (ys @ n # zs)"
  using assms dseg_insert [of H l ys zs l n] by (auto simp: list_at_def)

lemma last_in: "last (l # ys) \<in> insert l (set ys)"
  using last_in_set [of "l # ys"] by simp

lemma hd_in: "hd (zs @ [l]) \<in> insert l (set zs)"
  by (cases zs) simp_all

lemma list_at_add_before:
  assumes "list_at H l (ys @ x # zs)" and "n \<notin> set (l # ys @ x # zs)"
  shows "list_at (metal_list_add_before x n H) l (ys @ n # x # zs)"
proof -
  have "n \<noteq> x" "n \<noteq> l_prev (H x)"
    using assms(2) last_in [of l ys] by (auto simp: list_at_neighbours(1) [OF assms(1)] split: if_splits)
  then show ?thesis
    using list_at_insert [OF assms] by (simp add: add_before_linked list_at_neighbours(1) [OF assms(1)])
qed

lemma list_at_add_after:
  assumes "list_at H l (ys @ x # zs)" and "n \<notin> set (l # ys @ x # zs)"
  shows "list_at (metal_list_add_after x n H) l (ys @ x # n # zs)"
proof -
  have "n \<noteq> x" "n \<noteq> l_next (H x)"
    using assms(2) hd_in [of zs l] by (auto simp: list_at_neighbours(2) [OF assms(1)])
  then show ?thesis
    using list_at_insert [of H l "ys @ [x]" zs n] assms
    by (simp add: add_after_linked list_at_neighbours(2) [OF assms(1)])
qed

lemma list_at_add_tail:
  assumes "list_at H l xs" and "n \<notin> set (l # xs)"
  shows "list_at (metal_list_add_tail l n H) l (xs @ [n])"
proof -
  have "n \<noteq> l" "n \<noteq> l_prev (H l)"
    using assms(2) last_in [of l xs] by (auto simp: list_at_ends(1) [OF assms(1)] split: if_splits)
  then show ?thesis
    using list_at_insert [of H l xs "[]" n] assms
    by (simp add: metal_list_add_tail_def add_before_linked list_at_ends(1) [OF assms(1)])
qed

lemma list_at_add_head:
  assumes "list_at H l xs" and "n \<notin> set (l # xs)"
  shows "list_at (metal_list_add_head l n H) l (n # xs)"
proof -
  have "n \<noteq> l" "n \<noteq> l_next (H l)"
    using assms(2) hd_in [of xs l] by (auto simp: list_at_ends(2) [OF assms(1)])
  then show ?thesis
    using list_at_insert [of H l "[]" xs n] assms
    by (simp add: metal_list_add_head_def add_after_linked list_at_ends(2) [OF assms(1)])
qed

lemma list_at_del:
  assumes "list_at H l (ys @ x # zs)"
  shows "list_at (metal_list_del x H) l (ys @ zs)" and "list_at (metal_list_del x H) x []"
proof -
  let ?a = "last (l # ys)" and ?b = "hd (zs @ [l])"
  note nb = list_at_neighbours [OF assms]
  have d: "distinct (l # ys @ x # zs)" using list_at_distinct [OF assms] .
  then have ne: "x \<noteq> ?a" "x \<noteq> ?b"
    using last_in [of l ys] hd_in [of zs l] by (auto split: if_splits)
  have "dseg (unlinked ?a ?b H) l (ys @ zs) l"
    using assms d by (intro dseg_remove [where x = x]) (auto simp: list_at_def)
  then have "dseg (set_next x x (set_prev x x (unlinked ?a ?b H))) l (ys @ zs) l"
    using d by (subst dseg_cong [where H = "unlinked ?a ?b H"]) auto
  moreover have "metal_list_del x H = set_next x x (set_prev x x (unlinked ?a ?b H))"
    using ne by (simp add: metal_list_del_def unlinked_def nb Let_def del: last.simps)
  ultimately show "list_at (metal_list_del x H) l (ys @ zs)" "list_at (metal_list_del x H) x []"
    using d by (simp_all add: list_at_def)
qed

lemma list_at_remove1:
  assumes "list_at H l xs" and "x \<in> set xs"
  shows "list_at (metal_list_del x H) l (remove1 x xs)"
proof -
  obtain ys zs where s: "xs = ys @ x # zs" "x \<notin> set ys" using split_list_first [OF assms(2)] by blast
  then show ?thesis using list_at_del(1) [of H l ys x zs] assms(1) by (simp add: remove1_append)
qed

lemma is_empty_iff: "list_at H l xs \<Longrightarrow> metal_list_is_empty l H \<longleftrightarrow> xs = []"
  by (cases xs) (auto simp: metal_list_is_empty_def list_at_def)

lemma first_is_hd: "list_at H l xs \<Longrightarrow> metal_list_first l H = (if xs = [] then None else Some (hd xs))"
  by (cases xs) (auto simp: metal_list_first_def is_empty_iff list_at_ends(2))

text \<open>The loop visits the nodes in order and ends.\<close>

lemma for_each_seg:
  assumes "dseg H a xs l" and "l \<notin> set xs"
  shows "for_each_from H l body (l_next (H a)) s = Some (fold_until body xs s)"
  using assms
proof (induction xs arbitrary: a s)
  case Nil
  then show ?case by (subst for_each_from.simps) simp
next
  case (Cons x xs)
  then show ?case by (subst for_each_from.simps) (auto split: sum.split)
qed

lemma for_each_list:
  assumes "list_at H l xs"
  shows "metal_list_for_each H l body s = Some (fold_until body xs s)"
  using assms for_each_seg [of H l xs l body s] by (simp add: metal_list_for_each_def list_at_def)

lemma find_list:
  assumes "list_at H l xs"
  shows "metal_list_find H l P = Some (List.find P xs)"
proof -
  have "fold_until (\<lambda>n _. if P n then Inr n else Inl ()) xs () =
    (case List.find P xs of Some n \<Rightarrow> Inr n | None \<Rightarrow> Inl ())"
    by (induction xs) auto
  then show ?thesis by (simp add: metal_list_find_def for_each_list [OF assms] split: option.split)
qed

text \<open>An operation touches only the nodes of its own list.\<close>

lemma init_frame: "p \<noteq> l \<Longrightarrow> metal_list_init l H p = H p"
  by (simp add: metal_list_init_def set_next_def set_prev_def)

lemma add_tail_frame:
  assumes "list_at H l xs" and "n \<notin> set (l # xs)" and "p \<notin> set (n # l # xs)"
  shows "metal_list_add_tail l n H p = H p"
proof -
  have "n \<noteq> l" "n \<noteq> l_prev (H l)" "p \<noteq> l_prev (H l)"
    using assms(2,3) last_in [of l xs] by (auto simp: list_at_ends(1) [OF assms(1)] split: if_splits)
  then show ?thesis
    using assms(3) by (simp add: metal_list_add_tail_def add_before_linked linked_def set_next_def set_prev_def)
qed

lemma del_frame:
  assumes "list_at H l xs" and "x \<in> set xs" and "p \<notin> set (l # xs)"
  shows "metal_list_del x H p = H p"
proof -
  obtain ys zs where s: "xs = ys @ x # zs" using split_list_first [OF assms(2)] by blast
  note nb = list_at_neighbours [of H l ys x zs]
  have "p \<noteq> l_prev (H x)" "p \<noteq> l_next (H x)" "p \<noteq> x" "x \<noteq> l_next (H x)"
    using assms(1,3) s nb last_in [of l ys] hd_in [of zs l] list_at_distinct [OF assms(1)]
    by (auto split: if_splits)
  then show ?thesis by (simp add: metal_list_del_def set_next_def set_prev_def Let_def)
qed

section \<open>The interface\<close>

text \<open>
  What a client of the lists relies on: a sequence of nodes behind a head, additions at the end,
  removal, and a search that ends. \<open>rep\<close> ties the store to the sequence.
\<close>

locale node_list =
  fixes rep :: "'h \<Rightarrow> 'p \<Rightarrow> 'p list \<Rightarrow> bool"
    and init :: "'p \<Rightarrow> 'h \<Rightarrow> 'h"
    and add_tail :: "'p \<Rightarrow> 'p \<Rightarrow> 'h \<Rightarrow> 'h"
    and del :: "'p \<Rightarrow> 'h \<Rightarrow> 'h"
    and search :: "'h \<Rightarrow> 'p \<Rightarrow> ('p \<Rightarrow> bool) \<Rightarrow> 'p option option"
  assumes rep_distinct: "rep h l xs \<Longrightarrow> distinct (l # xs)"
    and rep_init: "rep (init l h) l []"
    and rep_add: "rep h l xs \<Longrightarrow> n \<notin> set (l # xs) \<Longrightarrow> rep (add_tail l n h) l (xs @ [n])"
    and rep_del: "rep h l xs \<Longrightarrow> n \<in> set xs \<Longrightarrow> rep (del n h) l (remove1 n xs)"
    and rep_search: "rep h l xs \<Longrightarrow> search h l P = Some (List.find P xs)"
    and init_other: "rep h l xs \<Longrightarrow> k \<notin> set (l # xs) \<Longrightarrow> rep (init k h) l xs"
    and add_other: "rep h l xs \<Longrightarrow> rep h k ys \<Longrightarrow> set (l # xs) \<inter> set (n # k # ys) = {} \<Longrightarrow> n \<notin> set (k # ys) \<Longrightarrow>
      rep (add_tail k n h) l xs"
    and del_other: "rep h l xs \<Longrightarrow> rep h k ys \<Longrightarrow> set (l # xs) \<inter> set (k # ys) = {} \<Longrightarrow> n \<in> set ys \<Longrightarrow>
      rep (del n h) l xs"
begin

lemma search_none: "rep h l xs \<Longrightarrow> \<forall>x\<in>set xs. \<not> P x \<Longrightarrow> search h l P = Some None"
  by (simp add: rep_search find_None_iff)

lemma find_append: "List.find P (xs @ ys) = (case List.find P xs of None \<Rightarrow> List.find P ys | Some x \<Rightarrow> Some x)"
  by (induction xs) auto

text \<open>A new node is found exactly when no older one has the property: the first entry wins.\<close>

lemma search_added:
  assumes "rep h l xs" and "n \<notin> set (l # xs)" and "search h l P = Some r"
  shows "search (add_tail l n h) l P = Some (case r of Some x \<Rightarrow> Some x | None \<Rightarrow> if P n then Some n else None)"
  using rep_search [OF rep_add [OF assms(1,2)], of P] rep_search [OF assms(1), of P] assms(3)
  by (auto simp: find_append split: option.split)

lemma search_found:
  assumes "rep h l xs" and "x \<in> set xs" and "P x" and "\<And>y. y \<in> set xs \<Longrightarrow> P y \<Longrightarrow> y = x"
  shows "search h l P = Some (Some x)"
proof -
  obtain y where y: "List.find P xs = Some y" using assms(2,3) by (cases "List.find P xs") (auto simp: find_None_iff)
  then have "y \<in> set xs" "P y" by (auto simp: find_Some_iff)
  then show ?thesis using assms(4) y by (simp add: rep_search [OF assms(1)])
qed

lemma search_deleted:
  assumes "rep h l xs" and "x \<in> set xs" and "\<And>y. y \<in> set xs \<Longrightarrow> P y \<Longrightarrow> y = x"
  shows "search (del x h) l P = Some None"
  using rep_distinct [OF assms(1)] assms(3) by (intro search_none [OF rep_del [OF assms(1,2)]]) auto

lemma search_member: "rep h l xs \<Longrightarrow> search h l ((=) n) = Some (if n \<in> set xs then Some n else None)"
  by (cases "n \<in> set xs") (auto intro: search_found search_none)

end

interpretation ml: node_list list_at metal_list_init metal_list_add_tail metal_list_del metal_list_find
proof
  fix H :: "'p list_heap" and l xs k ys n
  assume a: "list_at H l xs"
  show "k \<notin> set (l # xs) \<Longrightarrow> list_at (metal_list_init k H) l xs"
    using a by (subst list_at_cong [where H = H]) (auto intro: init_frame)
  assume b: "list_at H k ys"
  show "set (l # xs) \<inter> set (n # k # ys) = {} \<Longrightarrow> n \<notin> set (k # ys) \<Longrightarrow> list_at (metal_list_add_tail k n H) l xs"
    using a by (subst list_at_cong [where H = H]) (auto intro!: add_tail_frame [OF b])
  show "set (l # xs) \<inter> set (k # ys) = {} \<Longrightarrow> n \<in> set ys \<Longrightarrow> list_at (metal_list_del n H) l xs"
    using a by (subst list_at_cong [where H = H]) (auto intro!: del_frame [OF b])
qed (fact list_at_distinct list_at_init list_at_add_tail list_at_remove1 find_list)+

section \<open>Sequences of operations\<close>

datatype 'p list_op =
    Add_head 'p
  | Add_tail 'p
  | Add_before 'p 'p
  | Add_after 'p 'p
  | Del 'p

fun list_exec :: "'p \<Rightarrow> 'p list_op \<Rightarrow> 'p list_heap \<Rightarrow> 'p list_heap" where
  "list_exec l (Add_head n) H = metal_list_add_head l n H"
| "list_exec l (Add_tail n) H = metal_list_add_tail l n H"
| "list_exec l (Add_before x n) H = metal_list_add_before x n H"
| "list_exec l (Add_after x n) H = metal_list_add_after x n H"
| "list_exec l (Del x) H = metal_list_del x H"

text \<open>The specification: a node is added once, next to a node of the list, and only a node of the
  list is removed.\<close>

fun insert_before :: "'p \<Rightarrow> 'p \<Rightarrow> 'p list \<Rightarrow> 'p list" where
  "insert_before x n [] = []"
| "insert_before x n (y # ys) = (if y = x then n # y # ys else y # insert_before x n ys)"

fun insert_after :: "'p \<Rightarrow> 'p \<Rightarrow> 'p list \<Rightarrow> 'p list" where
  "insert_after x n [] = []"
| "insert_after x n (y # ys) = (if y = x then y # n # ys else y # insert_after x n ys)"

fun spec_exec :: "'p \<Rightarrow> 'p list_op \<Rightarrow> 'p list \<Rightarrow> 'p list option" where
  "spec_exec l (Add_head n) xs = (if n \<notin> set (l # xs) then Some (n # xs) else None)"
| "spec_exec l (Add_tail n) xs = (if n \<notin> set (l # xs) then Some (xs @ [n]) else None)"
| "spec_exec l (Add_before x n) xs = (if x \<in> set xs \<and> n \<notin> set (l # xs) then Some (insert_before x n xs) else None)"
| "spec_exec l (Add_after x n) xs = (if x \<in> set xs \<and> n \<notin> set (l # xs) then Some (insert_after x n xs) else None)"
| "spec_exec l (Del x) xs = (if x \<in> set xs then Some (remove1 x xs) else None)"

fun spec_run :: "'p \<Rightarrow> 'p list_op list \<Rightarrow> 'p list \<Rightarrow> 'p list option" where
  "spec_run l [] xs = Some xs"
| "spec_run l (p # ps) xs = Option.bind (spec_exec l p xs) (spec_run l ps)"

lemma insert_split:
  "x \<notin> set ys \<Longrightarrow> insert_before x n (ys @ x # zs) = ys @ n # x # zs"
  "x \<notin> set ys \<Longrightarrow> insert_after x n (ys @ x # zs) = ys @ x # n # zs"
  by (induction ys) auto

lemma list_exec_refines:
  assumes "list_at H l xs" and "spec_exec l p xs = Some xs'"
  shows "list_at (list_exec l p H) l xs'"
proof (cases p)
  case (Add_before x n)
  with assms(2) obtain ys zs where "xs = ys @ x # zs" "x \<notin> set ys" by (auto split: if_splits dest: split_list_first)
  then show ?thesis using assms Add_before by (auto simp: insert_split split: if_splits intro: list_at_add_before)
next
  case (Add_after x n)
  with assms(2) obtain ys zs where "xs = ys @ x # zs" "x \<notin> set ys" by (auto split: if_splits dest: split_list_first)
  then show ?thesis using assms Add_after by (auto simp: insert_split split: if_splits intro: list_at_add_after)
qed (use assms in \<open>auto split: if_splits intro: list_at_add_head list_at_add_tail list_at_remove1\<close>)

lemma list_run_refines:
  "list_at H l xs \<Longrightarrow> spec_run l ps xs = Some xs' \<Longrightarrow> list_at (fold (list_exec l) ps H) l xs'"
  by (induction ps arbitrary: H xs) (auto simp: bind_eq_Some_conv dest: list_exec_refines)

text \<open>
  C19: the linked lists implement sequences. After any sequence of additions at
  either end or next to a node and of removals that is legal for sequences, the heap represents the
  resulting sequence; the emptiness test and the first node are those of the sequence, and a loop
  over the list ends after visiting its nodes in order, whatever its body computes.
\<close>

theorem metal_list_refines:
  assumes "spec_run l ps [] = Some xs" and "H' = fold (list_exec l) ps (metal_list_init l H)"
  shows "list_at H' l xs \<and> (metal_list_is_empty l H' \<longleftrightarrow> xs = []) \<and>
    metal_list_first l H' = (if xs = [] then None else Some (hd xs)) \<and>
    metal_list_for_each H' l body s = Some (fold_until body xs s)"
  using list_run_refines [OF list_at_init assms(1), of H] assms(2)
  by (simp add: is_empty_iff first_is_hd for_each_list)

theorem metal_list_refines_witness:
  "list_at (fold (list_exec 0) [Add_tail 1, Add_head 2, Add_before 1 3, Del 2] (metal_list_init 0 (\<lambda>_. \<lparr>l_next = 0, l_prev = 0\<rparr>)))
     (0 :: nat) [3, 1] \<and>
   metal_list_for_each (fold (list_exec 0) [Add_tail 1, Add_head 2, Add_before 1 3, Del 2] (metal_list_init 0 (\<lambda>_. \<lparr>l_next = 0, l_prev = 0\<rparr>)))
     (0 :: nat) (\<lambda>n s. (Inl (s + n) :: nat + unit)) 0 = Some (Inl 4)"
  using metal_list_refines [of 0 "[Add_tail 1, Add_head 2, Add_before 1 3, Del 2]" "[3, 1]" _ "\<lambda>_. \<lparr>l_next = 0, l_prev = 0\<rparr>"
      "\<lambda>n s. (Inl (s + n) :: nat + unit)" 0]
  by simp

text \<open>
  Adding a node that is already the last one breaks the list: its successor becomes itself, and a
  search for a node that is not there never ends.
\<close>

lemma for_each_self_loop:
  assumes "for_each_from H l body n s = Some r" and "l_next (H n) = n" and "n \<noteq> l" and "\<forall>s. \<exists>s'. body n s = Inl s'"
  shows False
proof -
  have "l_next (H n) = n \<longrightarrow> n \<noteq> l \<longrightarrow> (\<forall>s. \<exists>s'. body n s = Inl s') \<longrightarrow> False"
  proof (rule for_each_from.raw_induct [OF _ assms(1)])
    fix loop H l body n s r
    assume IH: "\<And>H l body n s r. loop H l body n s = Some r \<Longrightarrow>
        l_next (H n) = n \<longrightarrow> n \<noteq> l \<longrightarrow> (\<forall>s. \<exists>s'. body n s = Inl s') \<longrightarrow> False"
      and step: "(if n = l then Some (Inl s)
        else case body n s of Inl s' \<Rightarrow> loop H l body (l_next (H n)) s' | Inr r \<Rightarrow> Some (Inr r)) = Some r"
    show "l_next (H n) = n \<longrightarrow> n \<noteq> l \<longrightarrow> (\<forall>s. \<exists>s'. body n s = Inl s') \<longrightarrow> False"
    proof (intro impI)
      assume h: "l_next (H n) = n" "n \<noteq> l" "\<forall>s. \<exists>s'. body n s = Inl s'"
      then obtain s' where "body n s = Inl s'" by blast
      with h step have "loop H l body n s' = Some r" by simp
      with IH h show False by blast
    qed
  qed
  with assms(2-4) show False by blast
qed

lemma for_each_from_append:
  assumes "dseg H a xs b" and "\<forall>x\<in>insert a (set xs). l_next (H' x) = l_next (H x)" and "l \<notin> set xs"
    and "fold_until body xs s = Inl s'"
  shows "for_each_from H' l body (l_next (H' a)) s = for_each_from H' l body b s'"
  using assms
proof (induction xs arbitrary: a s)
  case (Cons x xs)
  then show ?case by (subst for_each_from.simps) (auto split: sum.splits)
qed simp

lemma fold_until_absent: "\<forall>x\<in>set xs. \<not> P x \<Longrightarrow> fold_until (\<lambda>n _. if P n then Inr n else Inl ()) xs () = Inl ()"
  by (induction xs) auto

lemma add_twice_diverges:
  assumes "list_at H l (ys @ [n])" and "\<forall>x\<in>set (ys @ [n]). \<not> P x"
  shows "metal_list_find (metal_list_add_tail l n H) l P = None"
proof -
  let ?body = "\<lambda>n (_ :: unit). if P n then Inr n else Inl ()" and ?H = "metal_list_add_tail l n H"
  have d: "n \<noteq> l" "n \<notin> set ys" "l \<notin> set ys" using list_at_distinct [OF assms(1)] by auto
  have p: "l_prev (H l) = n" using list_at_ends(1) [OF assms(1)] by simp
  have nxt: "l_next (?H x) = (if x = n then n else l_next (H x))" for x
    using d p by (simp add: metal_list_add_tail_def metal_list_add_before_def Let_def)
  have "dseg H l ys n" using assms(1) by (simp add: list_at_def dseg_append)
  then have "metal_list_for_each ?H l ?body () = for_each_from ?H l ?body n ()"
    using d assms(2) unfolding metal_list_for_each_def
    by (intro for_each_from_append [where H = H and xs = ys]) (auto simp: nxt fold_until_absent)
  also have "\<dots> = None"
    using for_each_self_loop [of ?H l ?body n "()"] d assms(2) nxt [of n] by (cases "for_each_from ?H l ?body n ()") auto
  finally show ?thesis by (simp add: metal_list_find_def)
qed

end
