(* ===== verification/Gic_Driver.thy ===== *)
theory Gic_Driver
  imports Interrupt
begin

text \<open>
  The rest of the driver of the interrupt controller (\<open>scugic_v3_9/src/xscugic.c\<close>,
  \<open>xscugic_sinit.c\<close>): configuration, start and stop of the distributor, targets of the shared
  interrupts, software interrupts and the stub handler. The two cores share the distributor, and the
  driver runs on CPU1 beside a system that already uses it, so the theorems are about what is left
  of the other core's settings. The build defines \<open>USE_AMP\<close>; the model keeps it as a parameter.
\<close>

section \<open>State\<close>

text \<open>A handler is \<open>None\<close> for a null pointer. \<open>cpu_if\<close> are the registers of the CPU interface,
  \<open>UnhandledInterrupts\<close> is the statistics counter of the instance and \<open>CpuId\<close> the static variable
  of the driver.\<close>

record ('f, 'u) gic = "('f option, 'u) cpu1" +
  cpu_if :: "u32 \<Rightarrow> u32"
  UnhandledInterrupts :: u32
  CpuId :: u32

definition XSCUGIC_DIST_EN_OFFSET :: u32 where "XSCUGIC_DIST_EN_OFFSET = 0"
definition XSCUGIC_EN_INT_MASK :: u32 where "XSCUGIC_EN_INT_MASK = 1"
definition XSCUGIC_CONTROL_OFFSET :: u32 where "XSCUGIC_CONTROL_OFFSET = 0"
definition XSCUGIC_CPU_PRIOR_OFFSET :: u32 where "XSCUGIC_CPU_PRIOR_OFFSET = 4"
definition DEFAULT_PRIORITY :: u32 where "DEFAULT_PRIORITY = 0xa0a0a0a0"
definition XST_SUCCESS :: int where "XST_SUCCESS = 0"

text \<open>The interrupt numbers of \<open>for (Int_Id = a; Int_Id < MAX; Int_Id += step)\<close>.\<close>

definition int_ids :: "nat \<Rightarrow> nat \<Rightarrow> u32 list" where
  "int_ids a st = map of_nat (filter (\<lambda>k. (k - a) mod st = 0) [a..<unat XSCUGIC_MAX_NUM_INTR_INPUTS])"

definition CPUWriteReg :: "u32 \<Rightarrow> u32 \<Rightarrow> ('f, 'u, 'z) gic_scheme \<Rightarrow> ('f, 'u, 'z) gic_scheme" where
  "CPUWriteReg off v s = s\<lparr>cpu_if := (cpu_if s)(off := v)\<rparr>"

definition all_bytes :: "u32 \<Rightarrow> u32" where
  "all_bytes c = (let c = c OR push_bit 8 c in c OR push_bit 16 c)"

section \<open>Start of the distributor\<close>

definition DoDistributorInit :: "u32 \<Rightarrow> ('f, 'u, 'z) gic_scheme \<Rightarrow> ('f, 'u, 'z) gic_scheme" where
  "DoDistributorInit CpuID s =
    (let s = DistWriteReg XSCUGIC_DIST_EN_OFFSET 0 s;
         s = fold (\<lambda>i. DistWriteReg (XSCUGIC_INT_CFG_OFFSET_CALC i) 0) (int_ids 32 16) s;
         s = fold (\<lambda>i. DistWriteReg (XSCUGIC_PRIORITY_OFFSET_CALC i) DEFAULT_PRIORITY) (int_ids 0 4) s;
         (_, s) = fold (\<lambda>i (LocalCpuID, s). let LocalCpuID = all_bytes LocalCpuID
                          in (LocalCpuID, DistWriteReg (XSCUGIC_SPI_TARGET_OFFSET_CALC i) LocalCpuID s))
                    (int_ids 32 4) (CpuID, s);
         s = fold (\<lambda>i. DistWriteReg (XSCUGIC_DISABLE_OFFSET + (i div 32) * 4) 0xFFFFFFFF) (int_ids 0 32) s
     in DistWriteReg XSCUGIC_DIST_EN_OFFSET XSCUGIC_EN_INT_MASK s)"

definition DistributorInit :: "bool \<Rightarrow> u32 \<Rightarrow> ('f, 'u, 'z) gic_scheme \<Rightarrow> ('f, 'u, 'z) gic_scheme" where
  "DistributorInit USE_AMP CpuID s =
    (if USE_AMP then s
     else if dist s XSCUGIC_DIST_EN_OFFSET AND XSCUGIC_EN_INT_MASK = 0 then DoDistributorInit CpuID s
     else fold (\<lambda>i s. DistWriteReg (XSCUGIC_SPI_TARGET_OFFSET_CALC i)
                  (dist s (XSCUGIC_SPI_TARGET_OFFSET_CALC i) OR all_bytes CpuID) s) (int_ids 32 4) s)"

definition CPUInitialize :: "('f, 'u, 'z) gic_scheme \<Rightarrow> ('f, 'u, 'z) gic_scheme" where
  "CPUInitialize s = CPUWriteReg XSCUGIC_CONTROL_OFFSET 0x07 (CPUWriteReg XSCUGIC_CPU_PRIOR_OFFSET 0xF0 s)"

section \<open>Targets of the shared interrupts\<close>

text \<open>One pass over the target registers that takes the cores of \<open>c\<close> out.\<close>

definition drop_targets :: "u32 \<Rightarrow> u32 list \<Rightarrow> ('f, 'u, 'z) gic_scheme \<Rightarrow> ('f, 'u, 'z) gic_scheme" where
  "drop_targets c = fold (\<lambda>i s. DistWriteReg (XSCUGIC_SPI_TARGET_OFFSET_CALC i)
     (dist s (XSCUGIC_SPI_TARGET_OFFSET_CALC i) AND NOT c) s)"

definition XScuGic_Stop :: "('f, 'u, 'z) gic_scheme \<Rightarrow> ('f, 'u, 'z) gic_scheme" where
  "XScuGic_Stop s =
    (if dist s XSCUGIC_DIST_EN_OFFSET AND XSCUGIC_EN_INT_MASK = 0 then s
     else let c = all_bytes (push_bit (unat (CpuId s)) 1);
              (DistDisable, s) = fold (\<lambda>i (DistDisable, s). let Target_Cpu = dist s (XSCUGIC_SPI_TARGET_OFFSET_CALC i)
                  in (DistDisable \<and> \<not> (Target_Cpu \<noteq> c \<and> Target_Cpu \<noteq> 0),
                      DistWriteReg (XSCUGIC_SPI_TARGET_OFFSET_CALC i) (Target_Cpu AND NOT c) s)) (int_ids 32 4) (True, s)
          in if DistDisable
             then DistWriteReg XSCUGIC_DIST_EN_OFFSET 0
                    (fold (\<lambda>i. DistWriteReg (XSCUGIC_DISABLE_OFFSET + (i div 32) * 4) 0xFFFFFFFF) (int_ids 0 32) s)
             else s)"

definition XScuGic_InterruptUnmapFromCpu :: "u8 \<Rightarrow> u32 \<Rightarrow> ('f, 'u, 'z) gic_scheme \<Rightarrow> ('f, 'u, 'z) gic_scheme" where
  "XScuGic_InterruptUnmapFromCpu c i s =
    (let off = XSCUGIC_SPI_TARGET_OFFSET_CALC i; BitPos = (ucast (i mod 4) * 8 + c :: u8)
     in DistWriteReg off (dist s off AND NOT (push_bit (unat BitPos) 1)) s)"

definition XScuGic_UnmapAllInterruptsFromCpu :: "u8 \<Rightarrow> ('f, 'u, 'z) gic_scheme \<Rightarrow> ('f, 'u, 'z) gic_scheme" where
  "XScuGic_UnmapAllInterruptsFromCpu c s = drop_targets (all_bytes (push_bit (unat c) 1)) (int_ids 32 4) s"

section \<open>Instance\<close>

text \<open>The table of devices has one entry, with device id 0.\<close>

definition XScuGic_LookupConfig :: "u16 \<Rightarrow> nat option" where
  "XScuGic_LookupConfig DeviceId = List.find (\<lambda>k. [0 :: u16] ! k = DeviceId) [0..<1]"

text \<open>\<open>stub\<close> is the stub handler and \<open>inst\<close> the instance pointer stored as its argument;
  \<open>dual_core\<close> tells whether the fuse register reports two cores.\<close>

definition XScuGic_CfgInitialize ::
  "bool \<Rightarrow> bool \<Rightarrow> 'f \<Rightarrow> 'u \<Rightarrow> ('f, 'u, 'z) gic_scheme \<Rightarrow> (int \<times> ('f, 'u, 'z) gic_scheme) option" where
  "XScuGic_CfgInitialize USE_AMP dual_core stub inst s = do {
     Xil_Assert dual_core;
     Some (XST_SUCCESS,
       if gic_ready s then s
       else let Cpu_Id = CpuId s + 1;
                s = s\<lparr>HandlerTable := map (\<lambda>(h, _). (Some (case h of None \<Rightarrow> stub | Some f \<Rightarrow> f), inst)) (HandlerTable s)\<rparr>;
                s = CPUInitialize (DistributorInit USE_AMP Cpu_Id (XScuGic_Stop s))
            in s\<lparr>gic_ready := True\<rparr>) }"

definition XScuGic_Disconnect ::
  "'f \<Rightarrow> 'u \<Rightarrow> u32 \<Rightarrow> ('f, 'u, 'z) gic_scheme \<Rightarrow> ('f, 'u, 'z) gic_scheme option" where
  "XScuGic_Disconnect stub inst i s = do {
     Xil_Assert (i < XSCUGIC_MAX_NUM_INTR_INPUTS);
     Xil_Assert (gic_ready s);
     let s = DistWriteReg (XSCUGIC_DISABLE_OFFSET + (i div 32) * 4) (push_bit (unat (i mod 32)) 1) s;
     Some (s\<lparr>HandlerTable := (HandlerTable s)[unat i := (Some stub, inst)]\<rparr>) }"

definition XScuGic_SoftwareIntr :: "u32 \<Rightarrow> u32 \<Rightarrow> ('f, 'u, 'z) gic_scheme \<Rightarrow> (int \<times> ('f, 'u, 'z) gic_scheme) option" where
  "XScuGic_SoftwareIntr i c s = do {
     Xil_Assert (gic_ready s);
     Xil_Assert (i \<le> 15);
     Xil_Assert (c \<le> 255);
     let m = (push_bit 16 c OR i) AND (0x00FF0000 OR 0x0000000F);
     Some (XST_SUCCESS, DistWriteReg XSCUGIC_SFI_TRIG_OFFSET m s) }"

definition XScuGic_StubHandler :: "('f, 'u, 'z) gic_scheme \<Rightarrow> ('f, 'u, 'z) gic_scheme" where
  "XScuGic_StubHandler s = s\<lparr>UnhandledInterrupts := UnhandledInterrupts s + 1\<rparr>"

definition XScuGic_GetPriorityTriggerType :: "u32 \<Rightarrow> ('f, 'u, 'z) gic_scheme \<Rightarrow> (u8 \<times> u8) option" where
  "XScuGic_GetPriorityTriggerType i s = do {
     Xil_Assert (gic_ready s);
     Xil_Assert (i < XSCUGIC_MAX_NUM_INTR_INPUTS);
     Some (ucast (drop_bit (unat ((i mod 4) * 8)) (dist s (XSCUGIC_PRIORITY_OFFSET_CALC i)) AND 0xFF),
           ucast (drop_bit (unat ((i mod 16) * 2)) (dist s (XSCUGIC_INT_CFG_OFFSET_CALC i)) AND 3)) }"

definition XScuGic_SetCpuID :: "u32 \<Rightarrow> ('f, 'u, 'z) gic_scheme \<Rightarrow> ('f, 'u, 'z) gic_scheme option" where
  "XScuGic_SetCpuID c s = do { Xil_Assert (c \<le> 1); Some (s\<lparr>CpuId := c\<rparr>) }"

definition XScuGic_GetCpuID :: "('f, 'u, 'z) gic_scheme \<Rightarrow> u32" where
  "XScuGic_GetCpuID s = CpuId s"

section \<open>Lists of registers\<close>

lemma int_ids_simps:
  "int_ids 32 4 = [32, 36, 40, 44, 48, 52, 56, 60, 64, 68, 72, 76, 80, 84, 88, 92]"
  "int_ids 0 32 = [0, 32, 64]"
  by (simp_all add: int_ids_def XSCUGIC_MAX_NUM_INTR_INPUTS_def upt_rec)

definition spi_target_regs :: "u32 set" where
  "spi_target_regs = XSCUGIC_SPI_TARGET_OFFSET_CALC ` set (int_ids 32 4)"

lemma target_regs_distinct: "distinct (map XSCUGIC_SPI_TARGET_OFFSET_CALC (int_ids 32 4))"
  by (simp add: int_ids_simps XSCUGIC_SPI_TARGET_OFFSET_CALC_def)

lemma target_reg_plain:
  "i \<in> set (int_ids 32 4) \<Longrightarrow> DistWriteReg (XSCUGIC_SPI_TARGET_OFFSET_CALC i) v s =
    s\<lparr>dist := (dist s)(XSCUGIC_SPI_TARGET_OFFSET_CALC i := v)\<rparr>"
  unfolding int_ids_simps
  by (rule DistWriteReg_plain) (auto simp: XSCUGIC_SPI_TARGET_OFFSET_CALC_def XSCUGIC_SFI_TRIG_OFFSET_def)

text \<open>A pass that changes each register of a list on its own.\<close>

lemma fold_registers:
  assumes "distinct (map T is)" and "\<And>i v s. i \<in> set is \<Longrightarrow> w (T i) v s = s\<lparr>dist := (dist s)(T i := v)\<rparr>"
  shows "fold (\<lambda>i s. w (T i) (f (dist s (T i))) s) is s =
    s\<lparr>dist := \<lambda>off. if off \<in> T ` set is then f (dist s off) else dist s off\<rparr>"
  using assms
proof (induction "is" arbitrary: s)
  case (Cons i "is")
  let ?d = "(dist s)(T i := f (dist s (T i)))"
  have "fold (\<lambda>i s. w (T i) (f (dist s (T i))) s) (i # is) s = s\<lparr>dist := \<lambda>off. if off \<in> T ` set is then f (?d off) else ?d off\<rparr>"
    using Cons by (simp cong: if_cong)
  moreover have "(\<lambda>off. if off \<in> T ` set is then f (?d off) else ?d off) =
      (\<lambda>off. if off \<in> T ` set (i # is) then f (dist s off) else dist s off)"
    using Cons.prems(1) by auto
  ultimately show ?case by simp
qed simp

lemma drop_targets_effect:
  "drop_targets c (int_ids 32 4) s =
    s\<lparr>dist := \<lambda>off. if off \<in> spi_target_regs then dist s off AND NOT c else dist s off\<rparr>"
  unfolding drop_targets_def spi_target_regs_def
  by (rule fold_registers [OF target_regs_distinct, where f = "\<lambda>v. v AND NOT c" and w = DistWriteReg])
    (rule target_reg_plain)

text \<open>The scan of \<open>XScuGic_Stop\<close>: the flag survives when no register names another core.\<close>

lemma stop_scan:
  assumes "distinct (map T is)" and "\<And>i v s. i \<in> set is \<Longrightarrow> w (T i) v s = s\<lparr>dist := (dist s)(T i := v)\<rparr>"
  shows "fold (\<lambda>i (b, s). let t = dist s (T i) in (b \<and> \<not> (t \<noteq> c \<and> t \<noteq> 0), w (T i) (t AND NOT c) s)) is (b, s) =
    (b \<and> (\<forall>i\<in>set is. dist s (T i) \<in> {0, c}),
     fold (\<lambda>i s. w (T i) (dist s (T i) AND NOT c) s) is s)"
  using assms
proof (induction "is" arbitrary: b s)
  case (Cons i "is")
  have keep: "dist (s\<lparr>dist := (dist s)(T i := v)\<rparr>) (T j) = dist s (T j)" if "j \<in> set is" for j v
  proof -
    have "T j \<noteq> T i" using Cons.prems(1) that by (metis distinct.simps(2) imageI list.set_map list.simps(9))
    then show ?thesis by simp
  qed
  have "(\<forall>j\<in>set is. dist (s\<lparr>dist := (dist s)(T i := v)\<rparr>) (T j) \<in> {0, c}) \<longleftrightarrow> (\<forall>j\<in>set is. dist s (T j) \<in> {0, c})" for v
    by (simp only: keep cong: ball_cong)
  moreover have "distinct (map T is)" using Cons.prems(1) by simp
  ultimately show ?case
    using Cons.IH Cons.prems(2) by (simp add: Let_def) blast
qed simp

definition cpu1_only :: u32 where "cpu1_only = 0x02020202"

lemma all_bytes_cpu1 [simp]: "all_bytes 2 = cpu1_only"
  by (simp add: all_bytes_def cpu1_only_def)

lemma stop_effect:
  assumes "CpuId s = 1" and "dist s XSCUGIC_DIST_EN_OFFSET AND XSCUGIC_EN_INT_MASK \<noteq> 0"
    and "i \<in> set (int_ids 32 4)" and "dist s (XSCUGIC_SPI_TARGET_OFFSET_CALC i) \<notin> {0, cpu1_only}"
  shows "XScuGic_Stop s = s\<lparr>dist := \<lambda>off. if off \<in> spi_target_regs then dist s off AND NOT cpu1_only else dist s off\<rparr>"
proof -
  have "fold (\<lambda>i (b, s). let t = dist s (XSCUGIC_SPI_TARGET_OFFSET_CALC i)
      in (b \<and> \<not> (t \<noteq> cpu1_only \<and> t \<noteq> 0), DistWriteReg (XSCUGIC_SPI_TARGET_OFFSET_CALC i) (t AND NOT cpu1_only) s))
      (int_ids 32 4) (True, s) = (False, drop_targets cpu1_only (int_ids 32 4) s)"
    using assms(3,4) stop_scan [where w = DistWriteReg and c = cpu1_only and b = True and s = s, OF target_regs_distinct target_reg_plain]
    by (auto simp: drop_targets_def)
  then show ?thesis
    using assms(1,2) by (simp add: XScuGic_Stop_def drop_targets_effect Let_def)
qed

lemma dist_en_not_target: "XSCUGIC_DIST_EN_OFFSET \<notin> spi_target_regs"
  by (simp add: spi_target_regs_def int_ids_simps XSCUGIC_SPI_TARGET_OFFSET_CALC_def XSCUGIC_DIST_EN_OFFSET_def)

lemma gic_init_effect:
  assumes "\<not> gic_ready s" and "CpuId s = 1" and "dist s XSCUGIC_DIST_EN_OFFSET AND XSCUGIC_EN_INT_MASK \<noteq> 0"
    and "i \<in> set (int_ids 32 4)" and "dist s (XSCUGIC_SPI_TARGET_OFFSET_CALC i) \<notin> {0, cpu1_only}"
  shows "\<exists>s'. XScuGic_CfgInitialize True True stub inst s = Some (XST_SUCCESS, s') \<and> gic_ready s' \<and>
    (\<forall>off. dist s' off = (if off \<in> spi_target_regs then dist s off AND NOT cpu1_only else dist s off)) \<and>
    pending s' = pending s \<and> cpsr s' = cpsr s \<and>
    HandlerTable s' = map (\<lambda>(h, _). (Some (case h of None \<Rightarrow> stub | Some f \<Rightarrow> f), inst)) (HandlerTable s) \<and>
    cpu_if s' XSCUGIC_CPU_PRIOR_OFFSET = 0xF0 \<and> cpu_if s' XSCUGIC_CONTROL_OFFSET = 7 \<and> gic.more s' = gic.more s"
proof -
  let ?h = "map (\<lambda>(h, _). (Some (case h of None \<Rightarrow> stub | Some f \<Rightarrow> f), inst)) (HandlerTable s)"
  have "XScuGic_Stop (s\<lparr>HandlerTable := ?h\<rparr>) = s\<lparr>HandlerTable := ?h,
      dist := \<lambda>off. if off \<in> spi_target_regs then dist s off AND NOT cpu1_only else dist s off\<rparr>"
    using stop_effect [of "s\<lparr>HandlerTable := ?h\<rparr>" i] assms(2-5) by (simp cong: if_cong)
  then show ?thesis
    using assms(1) by (simp add: XScuGic_CfgInitialize_def DistributorInit_def CPUInitialize_def CPUWriteReg_def Let_def
        XSCUGIC_CONTROL_OFFSET_def XSCUGIC_CPU_PRIOR_OFFSET_def)
qed

text \<open>
  C32: starting the driver on CPU1 beside a running system. When the distributor is on
  and some shared interrupt is routed to the other core, initialisation ends with the driver ready;
  of the distributor it changes only the target registers, and of those it only takes out CPU1:
  enables, priorities, triggers and every target of the other core stay. All handlers are set, the
  connected ones kept, and the CPU interface passes priorities below 0xF0.
\<close>

theorem gic_init_amp:
  assumes "\<not> gic_ready s" and "CpuId s = 1" and "dist s XSCUGIC_DIST_EN_OFFSET AND XSCUGIC_EN_INT_MASK \<noteq> 0"
    and "i \<in> set (int_ids 32 4)" and "dist s (XSCUGIC_SPI_TARGET_OFFSET_CALC i) \<notin> {0, cpu1_only}"
  shows "\<exists>s'. XScuGic_CfgInitialize True True stub inst s = Some (XST_SUCCESS, s') \<and> gic_ready s' \<and>
    (\<forall>off. dist s' off = (if off \<in> spi_target_regs then dist s off AND NOT cpu1_only else dist s off)) \<and>
    pending s' = pending s \<and> cpsr s' = cpsr s \<and>
    HandlerTable s' = map (\<lambda>(h, _). (Some (case h of None \<Rightarrow> stub | Some f \<Rightarrow> f), inst)) (HandlerTable s) \<and>
    cpu_if s' XSCUGIC_CPU_PRIOR_OFFSET = 0xF0 \<and> cpu_if s' XSCUGIC_CONTROL_OFFSET = 7"
  using gic_init_effect [OF assms] by blast

theorem gic_init_amp_witness:
  "\<exists>s'. XScuGic_CfgInitialize True True (1 :: nat) (0 :: nat)
     \<lparr>cpsr = 0xC0, gic_ready = False, HandlerTable = replicate 95 (None, 0), dist = (\<lambda>_. 0x01010101), pending = (\<lambda>_. False),
       cpu_if = (\<lambda>_. 0), UnhandledInterrupts = 0, CpuId = 1\<rparr> = Some (XST_SUCCESS, s') \<and> gic_ready s' \<and>
    (\<forall>off. dist s' off = 0x01010101)"
proof -
  let ?s = "\<lparr>cpsr = 0xC0, gic_ready = False, HandlerTable = replicate 95 (None, 0), dist = (\<lambda>_. 0x01010101), pending = (\<lambda>_. False),
       cpu_if = (\<lambda>_. 0), UnhandledInterrupts = 0, CpuId = 1\<rparr> :: (nat, nat) gic"
  have "0x01010101 AND NOT cpu1_only = 0x01010101" by (simp add: cpu1_only_def)
  then show ?thesis
    using gic_init_amp [of ?s 32 1 0] by (auto simp: int_ids_simps cpu1_only_def XSCUGIC_EN_INT_MASK_def)
qed

text \<open>
  With no shared interrupt routed to the other core, the same call switches the distributor off, and
  the build with \<open>USE_AMP\<close> never switches it on again.
\<close>

lemma gic_init_amp_off:
  assumes "\<not> gic_ready s" and "CpuId s = 1" and "dist s XSCUGIC_DIST_EN_OFFSET AND XSCUGIC_EN_INT_MASK \<noteq> 0"
    and "\<forall>i\<in>set (int_ids 32 4). dist s (XSCUGIC_SPI_TARGET_OFFSET_CALC i) \<in> {0, cpu1_only}"
    and "XScuGic_CfgInitialize True True stub inst s = Some (r, s')"
  shows "dist s' XSCUGIC_DIST_EN_OFFSET = 0"
proof -
  let ?h = "map (\<lambda>(h, _). (Some (case h of None \<Rightarrow> stub | Some f \<Rightarrow> f), inst)) (HandlerTable s)"
  have off: "dist (DistWriteReg XSCUGIC_DIST_EN_OFFSET 0 x) XSCUGIC_DIST_EN_OFFSET = 0" for x :: "('a, 'b, 'c) gic_scheme"
    by (simp add: DistWriteReg_def XSCUGIC_DIST_EN_OFFSET_def gic_offsets)
  have "dist (XScuGic_Stop (s\<lparr>HandlerTable := ?h\<rparr>)) XSCUGIC_DIST_EN_OFFSET = 0"
    using assms(2,3,4) stop_scan [where w = DistWriteReg and c = cpu1_only and b = True and s = "s\<lparr>HandlerTable := ?h\<rparr>",
        OF target_regs_distinct target_reg_plain]
    by (simp add: XScuGic_Stop_def off Let_def)
  then show ?thesis
    using assms(1,5) by (auto simp: XScuGic_CfgInitialize_def DistributorInit_def CPUInitialize_def CPUWriteReg_def Let_def)
qed

section \<open>Cold start\<close>

lemma fold_const_registers:
  fixes s :: "('f, 'u, 'z) gic_scheme"
  assumes "distinct (map T is)" and "\<And>i v (s :: ('f, 'u, 'z) gic_scheme). i \<in> set is \<Longrightarrow> DistWriteReg (T i) v s = s\<lparr>dist := (dist s)(T i := v)\<rparr>"
  shows "fold (\<lambda>i. DistWriteReg (T i) v) is s = s\<lparr>dist := \<lambda>off. if off \<in> T ` set is then v else dist s off\<rparr>"
  by (rule fold_registers [OF assms(1), where f = "\<lambda>_. v" and w = DistWriteReg]) (rule assms(2))

lemma int_ids_more:
  "int_ids 0 4 = map of_nat [0, 4, 8, 12, 16, 20, 24, 28, 32, 36, 40, 44, 48, 52, 56, 60, 64, 68, 72, 76, 80, 84, 88, 92]"
  "int_ids 32 16 = [32, 48, 64, 80]"
  by (simp_all add: int_ids_def XSCUGIC_MAX_NUM_INTR_INPUTS_def upt_rec)

lemma int_ids_below: "i \<in> set (int_ids a st) \<Longrightarrow> i < XSCUGIC_MAX_NUM_INTR_INPUTS"
  by (auto simp: int_ids_def XSCUGIC_MAX_NUM_INTR_INPUTS_def word_less_nat_alt unat_of_nat)

lemma registers_distinct:
  "distinct (map XSCUGIC_PRIORITY_OFFSET_CALC (int_ids 0 4))" "distinct (map XSCUGIC_INT_CFG_OFFSET_CALC (int_ids 32 16))"
  by (simp_all add: int_ids_more XSCUGIC_PRIORITY_OFFSET_CALC_def XSCUGIC_INT_CFG_OFFSET_CALC_def)

lemma priority_reg_covered:
  assumes "j < XSCUGIC_MAX_NUM_INTR_INPUTS"
  shows "XSCUGIC_PRIORITY_OFFSET_CALC j \<in> XSCUGIC_PRIORITY_OFFSET_CALC ` set (int_ids 0 4)"
proof -
  define k where "k = unat j div 4 * 4"
  have u: "unat j < 95" using assms by (simp add: XSCUGIC_MAX_NUM_INTR_INPUTS_def word_less_nat_alt)
  then have k: "k < 95" "k mod 4 = 0" "k div 4 = unat j div 4" by (simp_all add: k_def)
  then have "unat (of_nat k :: u32) = k" by (simp add: unat_of_nat)
  then have "XSCUGIC_PRIORITY_OFFSET_CALC (of_nat k) = XSCUGIC_PRIORITY_OFFSET_CALC j"
    by (simp add: XSCUGIC_PRIORITY_OFFSET_CALC_def word_unat_eq_iff unat_word_ariths unat_div_distrib k(3))
  moreover have "of_nat k \<in> set (int_ids 0 4)"
    using k by (auto simp: int_ids_def XSCUGIC_MAX_NUM_INTR_INPUTS_def intro!: imageI)
  ultimately show ?thesis by (metis imageI)
qed

lemma same_targets:
  "fold (\<lambda>i (c, s). let c = all_bytes c in (c, DistWriteReg (XSCUGIC_SPI_TARGET_OFFSET_CALC i) c s)) is (cpu1_only, s) =
    (cpu1_only, fold (\<lambda>i. DistWriteReg (XSCUGIC_SPI_TARGET_OFFSET_CALC i) cpu1_only) is s)"
proof -
  have "all_bytes cpu1_only = cpu1_only" by (simp add: all_bytes_def cpu1_only_def)
  then show ?thesis by (induction "is" arbitrary: s) (simp_all add: Let_def)
qed

lemma first_target:
  assumes "is \<noteq> []"
  shows "fold (\<lambda>i (c, s). let c = all_bytes c in (c, DistWriteReg (XSCUGIC_SPI_TARGET_OFFSET_CALC i) c s)) is (2, s) =
    (cpu1_only, fold (\<lambda>i. DistWriteReg (XSCUGIC_SPI_TARGET_OFFSET_CALC i) cpu1_only) is s)"
proof -
  obtain i "is'" where "is = i # is'" using assms by (cases "is") auto
  then show ?thesis using same_targets [of "is'"] by (simp add: Let_def)
qed

lemma disable_all:
  "fold (\<lambda>i. DistWriteReg (XSCUGIC_DISABLE_OFFSET + (i div 32) * 4) 0xFFFFFFFF) (int_ids 0 32) s =
    s\<lparr>dist := (dist s)(0x100 := 0, 0x104 := 0, 0x108 := 0)\<rparr>"
proof -
  have e: "(- 4294967296 :: u32) = 0" by code_simp
  have z: "x AND - 4294967296 = 0" for x :: u32 by (simp only: e and_zero_eq)
  show ?thesis by (simp add: int_ids_simps DistWriteReg_def gic_offsets z)
qed

lemma dist_en_write: "DistWriteReg XSCUGIC_DIST_EN_OFFSET v s = s\<lparr>dist := (dist s)(XSCUGIC_DIST_EN_OFFSET := v)\<rparr>"
  by (simp add: DistWriteReg_def XSCUGIC_DIST_EN_OFFSET_def gic_offsets)

definition cold_regs :: "(u32 \<Rightarrow> u32) \<Rightarrow> u32 \<Rightarrow> u32" where
  "cold_regs d off =
    (if off = XSCUGIC_DIST_EN_OFFSET then XSCUGIC_EN_INT_MASK
     else if off \<in> {0x100, 0x104, 0x108} then 0
     else if off \<in> spi_target_regs then cpu1_only
     else if off \<in> XSCUGIC_PRIORITY_OFFSET_CALC ` set (int_ids 0 4) then DEFAULT_PRIORITY
     else if off \<in> XSCUGIC_INT_CFG_OFFSET_CALC ` set (int_ids 32 16) then 0
     else d off)"

lemma cold_distributor: "DoDistributorInit 2 s = s\<lparr>dist := cold_regs (dist s)\<rparr>"
proof -
  have c: "fold (\<lambda>i. DistWriteReg (XSCUGIC_INT_CFG_OFFSET_CALC i) v) (int_ids 32 16) x =
      x\<lparr>dist := \<lambda>off. if off \<in> XSCUGIC_INT_CFG_OFFSET_CALC ` set (int_ids 32 16) then v else dist x off\<rparr>" for v and x :: "('a, 'b, 'c) gic_scheme"
    by (rule fold_const_registers [OF registers_distinct(2)]) (rule DistWriteReg_priority(2) [OF int_ids_below])
  have p: "fold (\<lambda>i. DistWriteReg (XSCUGIC_PRIORITY_OFFSET_CALC i) v) (int_ids 0 4) x =
      x\<lparr>dist := \<lambda>off. if off \<in> XSCUGIC_PRIORITY_OFFSET_CALC ` set (int_ids 0 4) then v else dist x off\<rparr>" for v and x :: "('a, 'b, 'c) gic_scheme"
    by (rule fold_const_registers [OF registers_distinct(1)]) (rule DistWriteReg_priority(1) [OF int_ids_below])
  have t: "fold (\<lambda>i. DistWriteReg (XSCUGIC_SPI_TARGET_OFFSET_CALC i) v) (int_ids 32 4) x =
      x\<lparr>dist := \<lambda>off. if off \<in> spi_target_regs then v else dist x off\<rparr>" for v and x :: "('a, 'b, 'c) gic_scheme"
    unfolding spi_target_regs_def by (rule fold_const_registers [OF target_regs_distinct]) (rule target_reg_plain)
  have f1: "fold (\<lambda>i (c, s). let c = all_bytes c in (c, DistWriteReg (XSCUGIC_SPI_TARGET_OFFSET_CALC i) c s)) (int_ids 32 4) (2, x) =
      (cpu1_only, fold (\<lambda>i. DistWriteReg (XSCUGIC_SPI_TARGET_OFFSET_CALC i) cpu1_only) (int_ids 32 4) x)" for x :: "('a, 'b, 'c) gic_scheme"
    by (rule first_target) (simp add: int_ids_simps)
  show ?thesis
    by (simp add: DoDistributorInit_def f1 [unfolded Let_def] disable_all dist_en_write c p t Let_def cold_regs_def fun_eq_iff cong: if_cong)
qed

text \<open>
  Cold start of a build without \<open>USE_AMP\<close>: the distributor comes up with every interrupt disabled at
  the default priority and every shared interrupt routed to CPU1 alone.
\<close>

lemma gic_cold_start:
  fixes s :: "('f, 'u, 'z) gic_scheme"
  assumes "\<not> gic_ready s" and "CpuId s = 1" and "dist s XSCUGIC_DIST_EN_OFFSET AND XSCUGIC_EN_INT_MASK = 0"
  shows "\<exists>s'. XScuGic_CfgInitialize False True stub inst s = Some (XST_SUCCESS, s') \<and> gic_ready s' \<and>
    dist s' XSCUGIC_DIST_EN_OFFSET = XSCUGIC_EN_INT_MASK \<and> (\<forall>off\<in>spi_target_regs. dist s' off = cpu1_only) \<and>
    (\<forall>j < XSCUGIC_MAX_NUM_INTR_INPUTS. \<not> gic_enabled s' j \<and> dist s' (XSCUGIC_PRIORITY_OFFSET_CALC j) = DEFAULT_PRIORITY)"
proof -
  let ?d = "cold_regs (dist s)"
  have init: "\<exists>s'. XScuGic_CfgInitialize False True stub inst s = Some (XST_SUCCESS, s') \<and> gic_ready s' \<and> dist s' = ?d"
    using assms by (simp add: XScuGic_CfgInitialize_def XScuGic_Stop_def DistributorInit_def cold_distributor CPUInitialize_def
        CPUWriteReg_def Let_def)
  have tgt: "?d off = cpu1_only" if "off \<in> spi_target_regs" for off
    using that by (auto simp: cold_regs_def spi_target_regs_def int_ids_simps XSCUGIC_SPI_TARGET_OFFSET_CALC_def XSCUGIC_DIST_EN_OFFSET_def)
  have dis: "?d (XSCUGIC_ENABLE_SET_OFFSET + (j div 32) * 4) = 0" if "j < XSCUGIC_MAX_NUM_INTR_INPUTS" for j
  proof -
    have "unat j div 32 \<in> {0, 1, 2}" using gic_offset_parts(5) [OF that] by auto
    then have "unat (XSCUGIC_ENABLE_SET_OFFSET + (j div 32) * 4) \<in> {0x100, 0x104, 0x108}"
      using gic_offset_parts(1) [OF that] by auto
    then have "XSCUGIC_ENABLE_SET_OFFSET + (j div 32) * 4 \<in> {0x100, 0x104, 0x108}" by (auto simp: word_unat_eq_iff)
    then show ?thesis by (auto simp: cold_regs_def XSCUGIC_DIST_EN_OFFSET_def)
  qed
  have pri: "?d (XSCUGIC_PRIORITY_OFFSET_CALC j) = DEFAULT_PRIORITY" if "j < XSCUGIC_MAX_NUM_INTR_INPUTS" for j
  proof -
    have "XSCUGIC_PRIORITY_OFFSET_CALC j \<notin> insert XSCUGIC_DIST_EN_OFFSET ({0x100, 0x104, 0x108} \<union> spi_target_regs)"
      using gic_offset_parts(3,5) [OF that] unfolding spi_target_regs_def int_ids_simps
      by (auto simp: word_unat_eq_iff XSCUGIC_DIST_EN_OFFSET_def XSCUGIC_SPI_TARGET_OFFSET_CALC_def)
    then show ?thesis using priority_reg_covered [OF that] by (simp add: cold_regs_def)
  qed
  show ?thesis using init tgt dis pri by (auto simp: gic_enabled_def cold_regs_def)
qed

section \<open>Single interrupts\<close>

lemma field_shift: "unat (((i :: u32) mod 4) * 8) = unat i mod 4 * 8" "unat ((i mod 16) * 2) = unat i mod 16 * 2"
proof -
  have "unat i mod 4 < 4" "unat i mod 16 < 16" by simp_all
  then show "unat ((i mod 4) * 8) = unat i mod 4 * 8" "unat ((i mod 16) * 2) = unat i mod 16 * 2"
    by (simp_all add: unat_word_ariths)
qed

lemma priority_roundtrip:
  fixes s :: "('f, 'u, 'z) gic_scheme"
  assumes "i < XSCUGIC_MAX_NUM_INTR_INPUTS" and "gic_ready s" and "p \<le> 248" and "t \<le> 3"
  shows "\<exists>s'. INTERRUPT_SetPriorityAndTriggerType i p t s = Some s' \<and>
    XScuGic_GetPriorityTriggerType i s' = Some (p AND 0xF8, t)"
proof -
  obtain s' where s': "INTERRUPT_SetPriorityAndTriggerType i p t s = Some s'" "gic_priority s' i = ucast (p AND 0xF8)"
      "gic_trigger s' i = ucast t" "s' = s\<lparr>dist := dist s'\<rparr>"
    using set_priority_and_trigger [OF assms(1,2,3,4)] assms(1) by metis
  have "gic_ready s'" using s'(4) assms(2) by (metis cpu1.select_convs(2) cpu1.surjective cpu1.update_convs(4))
  then have "XScuGic_GetPriorityTriggerType i s' = Some (ucast (gic_priority s' i), ucast (gic_trigger s' i))"
    using assms(1) by (simp add: XScuGic_GetPriorityTriggerType_def field_shift gic_priority_def gic_trigger_def)
  moreover have "ucast (ucast x :: u32) = x" for x :: u8 by (rule bit_word_eqI) (auto simp: bit_simps)
  ultimately show ?thesis using s'(1-3) by simp
qed

lemma software_intr_local:
  "gic_ready s \<Longrightarrow> i \<le> 15 \<Longrightarrow>
    XScuGic_SoftwareIntr i 2 s = map_option (\<lambda>s'. (XST_SUCCESS, s')) (INTERRUPT_TriggerLocalSGI i s)"
  by (simp add: XScuGic_SoftwareIntr_def INTERRUPT_TriggerLocalSGI_def INTERRUPT_SGI_FIRST_def INTERRUPT_SGI_LAST_def)

lemma disconnect_effect:
  assumes "i < XSCUGIC_MAX_NUM_INTR_INPUTS" and "gic_ready s" and "length (HandlerTable s) = 95"
  shows "\<exists>s'. XScuGic_Disconnect stub inst i s = Some s' \<and> HandlerTable s' ! unat i = (Some stub, inst) \<and>
    (\<forall>j < XSCUGIC_MAX_NUM_INTR_INPUTS. gic_enabled s' j \<longleftrightarrow> j \<noteq> i \<and> gic_enabled s j)"
proof -
  obtain s1 where s1: "INTERRUPT_Disable i s = Some s1"
      "\<forall>j < XSCUGIC_MAX_NUM_INTR_INPUTS. gic_enabled s1 j \<longleftrightarrow> j \<noteq> i \<and> gic_enabled s j" "s1 = s\<lparr>dist := dist s1\<rparr>"
    using gic_enabled_after_disable [OF assms(1,2)] by metis
  then have "XScuGic_Disconnect stub inst i s = Some (s1\<lparr>HandlerTable := (HandlerTable s1)[unat i := (Some stub, inst)]\<rparr>)"
    using assms by (auto simp: INTERRUPT_Disable_def XScuGic_Disable_def XScuGic_Disconnect_def)
  moreover have "HandlerTable s1 = HandlerTable s" using s1(3) by (metis cpu1.select_convs(3) cpu1.surjective cpu1.update_convs(4))
  ultimately show ?thesis
    using s1(2) assms(1,3) by (auto simp: gic_enabled_def gic_offsets word_less_nat_alt)
qed

end
