(* ===== verification/Metal_Irq.thy ===== *)
theory Metal_Irq
  imports Metal_List Gic_Driver
begin

text \<open>
  Interrupts of libmetal: the registry of interrupt controllers (\<open>lib/irq.c\<close>,
  \<open>lib/irq_controller.h\<close>), the controller of the Zynq (\<open>system/generic/xlnx_common/irq.c\<close>,
  \<open>system/generic/zynq7/sys.c\<close>) and the software interrupts (\<open>lib/softirq.c\<close>). The registry is a
  linked list of controllers, used through the interface of \<open>Metal_List\<close>. Interrupt numbers are C
  \<open>int\<close>s; the model computes with integers, and the invariant keeps every range below \<open>INT_MAX\<close>.
\<close>

section \<open>Controllers\<close>

definition METAL_IRQ_ANY :: int where "METAL_IRQ_ANY = - 1"
definition METAL_IRQ_DISABLE :: u32 where "METAL_IRQ_DISABLE = 0"
definition METAL_IRQ_ENABLE :: u32 where "METAL_IRQ_ENABLE = 1"
definition METAL_IRQ_NOT_HANDLED :: int where "METAL_IRQ_NOT_HANDLED = 0"
definition EINVAL_irq :: int where "EINVAL_irq = 22"

text \<open>A handler gets the interrupt number and its argument and runs on the environment, the part
  of the state outside the registry. A null pointer is \<open>None\<close>.\<close>

type_synonym ('a, 'e) metal_irq_handler = "int \<Rightarrow> 'a option \<Rightarrow> 'e \<Rightarrow> int \<times> 'e"

record ('a, 'e) metal_irq =
  irq_hd :: "('a, 'e) metal_irq_handler option"
  irq_arg :: "'a option"

text \<open>The functions of a controller get it as their first argument; they read its base and number.\<close>

record ('a, 'e) irq_controller =
  irq_base :: int
  irq_num :: int
  irq_set_enable :: "int \<Rightarrow> int \<Rightarrow> int \<Rightarrow> u32 \<Rightarrow> 'e \<Rightarrow> 'e"
  irq_register_fn :: "(int \<Rightarrow> int \<Rightarrow> int \<Rightarrow> ('a, 'e) metal_irq_handler option \<Rightarrow> 'a option \<Rightarrow> 'e \<Rightarrow> int \<times> 'e) option"
  irqs :: "('a, 'e) metal_irq list option"

text \<open>The nodes of the registry are its head and the nodes inside the controllers, which are named
  by numbers.\<close>

datatype irq_node = Irq_cntrs | Cntr (container: nat)

record ('a, 'e) irq_state =
  irq_links :: "irq_node list_heap"
  irq_ctl :: "nat \<Rightarrow> ('a, 'e) irq_controller"
  irq_env :: 'e

section \<open>Registry\<close>

text \<open>One step of the search for a free range: it moves the range behind a controller it overlaps,
  or gives up when the base is fixed.\<close>

definition allocate_step :: "int \<Rightarrow> int \<Rightarrow> ('a, 'e) irq_controller \<Rightarrow> int \<times> int \<Rightarrow> (int \<times> int) + unit" where
  "allocate_step base num c = (\<lambda>(tocheck, end_tocheck).
    let cntr_irq_base = irq_base c; cntr_irq_end = cntr_irq_base + irq_num c
    in if tocheck < cntr_irq_end \<and> end_tocheck > cntr_irq_base
       then if base \<noteq> METAL_IRQ_ANY then Inr () else Inl (cntr_irq_end, cntr_irq_end + num)
       else Inl (tocheck, end_tocheck))"

definition metal_irq_allocate :: "int \<Rightarrow> int \<Rightarrow> ('a, 'e) irq_state \<Rightarrow> int option" where
  "metal_irq_allocate base num s =
    (if num = 0 then Some METAL_IRQ_ANY
     else let tocheck = (if base = METAL_IRQ_ANY then 0 else base)
          in map_option (\<lambda>r. case r of Inl (t, _) \<Rightarrow> t | Inr _ \<Rightarrow> METAL_IRQ_ANY)
               (metal_list_for_each (irq_links s) Irq_cntrs (\<lambda>n. allocate_step base num (irq_ctl s (container n)))
                  (tocheck, tocheck + num)))"

definition metal_irq_register_controller :: "nat option \<Rightarrow> ('a, 'e) irq_state \<Rightarrow> (int \<times> ('a, 'e) irq_state) option" where
  "metal_irq_register_controller cntr s =
    (case cntr of None \<Rightarrow> Some (- EINVAL_irq, s)
     | Some c \<Rightarrow> do {
         there \<leftarrow> metal_list_find (irq_links s) Irq_cntrs ((=) (Cntr c));
         if there \<noteq> None then Some (0, s)
         else do {
           base \<leftarrow> metal_irq_allocate (irq_base (irq_ctl s c)) (irq_num (irq_ctl s c)) s;
           if base = METAL_IRQ_ANY then Some (- EINVAL_irq, s)
           else Some (0, s\<lparr>irq_ctl := (irq_ctl s)(c := irq_ctl s c\<lparr>irq_base := base\<rparr>),
                           irq_links := metal_list_add_tail Irq_cntrs (Cntr c) (irq_links s)\<rparr>) } })"

definition owns :: "('a, 'e) irq_controller \<Rightarrow> int \<Rightarrow> bool" where
  "owns c irq \<longleftrightarrow> irq_base c \<le> irq \<and> irq < irq_base c + irq_num c"

definition metal_irq_get_controller :: "int \<Rightarrow> ('a, 'e) irq_state \<Rightarrow> nat option option" where
  "metal_irq_get_controller irq s =
    map_option (map_option container) (metal_list_find (irq_links s) Irq_cntrs (\<lambda>n. owns (irq_ctl s (container n)) irq))"

definition metal_irq_set_enable :: "int \<Rightarrow> u32 \<Rightarrow> ('a, 'e) irq_state \<Rightarrow> ('a, 'e) irq_state option" where
  "metal_irq_set_enable irq state s = do {
     cntr \<leftarrow> metal_irq_get_controller irq s;
     Some (case cntr of None \<Rightarrow> s
           | Some c \<Rightarrow> let k = irq_ctl s c in s\<lparr>irq_env := irq_set_enable k (irq_base k) (irq_num k) irq state (irq_env s)\<rparr>) }"

definition metal_irq_register ::
  "int \<Rightarrow> ('a, 'e) metal_irq_handler option \<Rightarrow> 'a option \<Rightarrow> ('a, 'e) irq_state \<Rightarrow> (int \<times> ('a, 'e) irq_state) option" where
  "metal_irq_register irq handler arg s = do {
     cntr \<leftarrow> metal_irq_get_controller irq s;
     Some (case cntr of None \<Rightarrow> (- EINVAL_irq, s)
           | Some c \<Rightarrow> let k = irq_ctl s c in
               (case irq_register_fn k of
                  Some f \<Rightarrow> let (r, e) = f (irq_base k) (irq_num k) irq handler arg (irq_env s) in (r, s\<lparr>irq_env := e\<rparr>)
                | None \<Rightarrow> (case irqs k of
                    None \<Rightarrow> (- EINVAL_irq, s)
                  | Some tab \<Rightarrow> (0, s\<lparr>irq_ctl := (irq_ctl s)(c := k\<lparr>irqs :=
                      Some (tab[nat (irq - irq_base k) := \<lparr>irq_hd = handler, irq_arg = arg\<rparr>])\<rparr>)\<rparr>)))) }"

definition metal_irq_unregister :: "int \<Rightarrow> ('a, 'e) irq_state \<Rightarrow> ('a, 'e) irq_state option" where
  "metal_irq_unregister irq s = map_option snd (metal_irq_register irq None None s)"

definition metal_irq_enable :: "u32 \<Rightarrow> ('a, 'e) irq_state \<Rightarrow> ('a, 'e) irq_state option" where
  "metal_irq_enable vector s = metal_irq_set_enable (sint vector) METAL_IRQ_ENABLE s"

definition metal_irq_disable :: "u32 \<Rightarrow> ('a, 'e) irq_state \<Rightarrow> ('a, 'e) irq_state option" where
  "metal_irq_disable vector s = metal_irq_set_enable (sint vector) METAL_IRQ_DISABLE s"

definition metal_irq_handle :: "('a, 'e) metal_irq \<Rightarrow> int \<Rightarrow> 'e \<Rightarrow> int \<times> 'e" where
  "metal_irq_handle d irq e = (case irq_hd d of Some h \<Rightarrow> h irq (irq_arg d) e | None \<Rightarrow> (METAL_IRQ_NOT_HANDLED, e))"

section \<open>The controller of the Zynq\<close>

definition sys_irq_enable :: "u32 \<Rightarrow> ('f, 'u, 'z) gic_scheme \<Rightarrow> ('f, 'u, 'z) gic_scheme" where
  "sys_irq_enable v = DistWriteReg (XSCUGIC_ENABLE_SET_OFFSET + (v div 32) * 4) (push_bit (unat (v mod 32)) 1)"

definition sys_irq_disable :: "u32 \<Rightarrow> ('f, 'u, 'z) gic_scheme \<Rightarrow> ('f, 'u, 'z) gic_scheme" where
  "sys_irq_disable v = DistWriteReg (XSCUGIC_DISABLE_OFFSET + (v div 32) * 4) (push_bit (unat (v mod 32)) 1)"

text \<open>\<open>metal_irq_save_disable\<close> and \<open>metal_irq_restore_enable\<close> of the generic system.\<close>

definition sys_irq_save_disable :: "('f, 'u, 'z) gic_scheme \<Rightarrow> u32 \<times> ('f, 'u, 'z) gic_scheme" where
  "sys_irq_save_disable s =
    (let state = cpsr s AND XIL_EXCEPTION_ALL
     in (state, if XIL_EXCEPTION_ALL \<noteq> state then s\<lparr>cpsr := cpsr s OR (XIL_EXCEPTION_ALL AND XIL_EXCEPTION_ALL)\<rparr> else s))"

definition sys_irq_restore_enable :: "u32 \<Rightarrow> ('f, 'u, 'z) gic_scheme \<Rightarrow> ('f, 'u, 'z) gic_scheme" where
  "sys_irq_restore_enable flags s = s\<lparr>cpsr := cpsr s AND NOT (NOT flags AND XIL_EXCEPTION_ALL)\<rparr>"

definition metal_xlnx_irq_set_enable :: "int \<Rightarrow> int \<Rightarrow> int \<Rightarrow> u32 \<Rightarrow> ('f, 'u, 'z) gic_scheme \<Rightarrow> ('f, 'u, 'z) gic_scheme" where
  "metal_xlnx_irq_set_enable base num irq state e =
    (if irq < base \<or> irq \<ge> base + num then e
     else if state = METAL_IRQ_ENABLE then sys_irq_enable (word_of_int irq) e
     else sys_irq_disable (word_of_int irq) e)"

definition MAX_IRQS :: nat where "MAX_IRQS = 95"

definition no_irq :: "('a, 'e) metal_irq" where
  "no_irq = \<lparr>irq_hd = None, irq_arg = None\<rparr>"

abbreviation (input) XLNX_IRQ_CNTR :: nat where "XLNX_IRQ_CNTR \<equiv> 0"

definition xlnx_irq_cntr :: "('a, ('f, 'u, 'z) gic_scheme) irq_controller" where
  "xlnx_irq_cntr = \<lparr>irq_base = 0, irq_num = int MAX_IRQS, irq_set_enable = metal_xlnx_irq_set_enable, irq_register_fn = None,
     irqs = Some (replicate MAX_IRQS no_irq)\<rparr>"

definition metal_xlnx_irq_isr :: "u32 \<Rightarrow> ('a, 'e) irq_state \<Rightarrow> ('a, 'e) irq_state" where
  "metal_xlnx_irq_isr vector s =
    (if MAX_IRQS \<le> unat vector then s
     else case irqs (irq_ctl s XLNX_IRQ_CNTR) of
       Some tab \<Rightarrow> s\<lparr>irq_env := snd (metal_irq_handle (tab ! unat vector) (sint vector) (irq_env s))\<rparr>
     | None \<Rightarrow> s)"

definition metal_xlnx_irq_init :: "('a, 'e) irq_state \<Rightarrow> (int \<times> ('a, 'e) irq_state) option" where
  "metal_xlnx_irq_init s = do {
     (ret, s) \<leftarrow> metal_irq_register_controller (Some XLNX_IRQ_CNTR) s;
     Some (if ret < 0 then (ret, s) else (0, s)) }"

section \<open>Software interrupts\<close>

definition METAL_SOFTIRQ_NUM :: nat where "METAL_SOFTIRQ_NUM = 64"

record ('f, 'u) metal_hw = "('f, 'u) gic" +
  softirq_avail :: int
  softirq_pending :: "u8 list"
  softirq_enabled :: "u8 list"

abbreviation (input) METAL_SOFTIRQ_CNTR :: nat where "METAL_SOFTIRQ_CNTR \<equiv> 1"

definition metal_softirq_set_enable :: "int \<Rightarrow> int \<Rightarrow> int \<Rightarrow> u32 \<Rightarrow> ('f, 'u, 'z) metal_hw_scheme \<Rightarrow> ('f, 'u, 'z) metal_hw_scheme" where
  "metal_softirq_set_enable base num irq enable e =
    (if irq < base \<or> irq \<ge> base + num then e
     else e\<lparr>softirq_enabled := (softirq_enabled e)[nat (irq - base) := (if enable = METAL_IRQ_ENABLE then 1 else 0)]\<rparr>)"

definition metal_softirq_cntr :: "('a, ('f, 'u, 'z) metal_hw_scheme) irq_controller" where
  "metal_softirq_cntr = \<lparr>irq_base = METAL_IRQ_ANY, irq_num = int METAL_SOFTIRQ_NUM, irq_set_enable = metal_softirq_set_enable,
     irq_register_fn = None, irqs = Some (replicate METAL_SOFTIRQ_NUM no_irq)\<rparr>"

type_synonym ('a, 'f, 'u, 'z) metal_irqs = "('a, ('f, 'u, 'z) metal_hw_scheme) irq_state"

definition metal_softirq_set :: "int \<Rightarrow> ('a, 'f, 'u, 'z) metal_irqs \<Rightarrow> ('a, 'f, 'u, 'z) metal_irqs" where
  "metal_softirq_set irq s =
    (let c = irq_ctl s METAL_SOFTIRQ_CNTR; e = irq_env s
     in if irq < irq_base c \<or> irq \<ge> irq_base c + irq_num c then s
        else s\<lparr>irq_env := e\<lparr>softirq_pending := (softirq_pending e)[nat (irq - irq_base c) := 1]\<rparr>\<rparr>)"

definition metal_softirq_init :: "('a, 'e) irq_state \<Rightarrow> (int \<times> ('a, 'e) irq_state) option" where
  "metal_softirq_init s = metal_irq_register_controller (Some METAL_SOFTIRQ_CNTR) s"

definition metal_softirq_allocate :: "int \<Rightarrow> ('a, 'f, 'u, 'z) metal_irqs \<Rightarrow> int \<times> ('a, 'f, 'u, 'z) metal_irqs" where
  "metal_softirq_allocate num s =
    (let e = irq_env s
     in if softirq_avail e + num \<ge> int METAL_SOFTIRQ_NUM then (- EINVAL_irq, s)
        else (softirq_avail e + irq_base (irq_ctl s METAL_SOFTIRQ_CNTR), s\<lparr>irq_env := e\<lparr>softirq_avail := softirq_avail e + num\<rparr>\<rparr>))"

definition softirq_step :: "nat \<Rightarrow> ('a, 'f, 'u, 'z) metal_irqs \<Rightarrow> ('a, 'f, 'u, 'z) metal_irqs" where
  "softirq_step i s =
    (let e = irq_env s; c = irq_ctl s METAL_SOFTIRQ_CNTR
     in if softirq_enabled e ! i \<noteq> 0 \<and> softirq_pending e ! i = 1
        then (case irqs c of
            Some tab \<Rightarrow> s\<lparr>irq_env := snd (metal_irq_handle (tab ! i) (int i + irq_base c)
                           (e\<lparr>softirq_pending := (softirq_pending e)[i := 0]\<rparr>))\<rparr>
          | None \<Rightarrow> s)
        else s)"

definition metal_softirq_dispatch :: "('a, 'f, 'u, 'z) metal_irqs \<Rightarrow> ('a, 'f, 'u, 'z) metal_irqs" where
  "metal_softirq_dispatch s = fold softirq_step [0..<METAL_SOFTIRQ_NUM] s"

section \<open>Search for a free range\<close>

definition apart :: "('a, 'e) irq_controller \<Rightarrow> int \<Rightarrow> int \<Rightarrow> bool" where
  "apart c t n \<longleftrightarrow> t + n \<le> irq_base c \<or> irq_base c + irq_num c \<le> t"

lemma fold_until_map: "fold_until f (map g xs) s = fold_until (\<lambda>x. f (g x)) xs s"
  by (induction xs arbitrary: s) (auto split: sum.split)

lemma allocate_step_apart:
  "allocate_step b n c (t, t + n) =
    (if apart c t n then Inl (t, t + n) else if b \<noteq> METAL_IRQ_ANY then Inr ()
     else Inl (irq_base c + irq_num c, irq_base c + irq_num c + n))"
  by (auto simp: allocate_step_def apart_def Let_def)

lemma allocate_all_apart:
  "\<forall>c\<in>set cs. apart c t n \<Longrightarrow> fold_until (allocate_step b n) cs (t, t + n) = Inl (t, t + n)"
  by (induction cs) (simp_all add: allocate_step_apart)

lemma allocate_fixed:
  assumes "b \<noteq> METAL_IRQ_ANY"
  shows "fold_until (allocate_step b n) cs (t, t + n) = (if \<forall>c\<in>set cs. apart c t n then Inl (t, t + n) else Inr ())"
  using assms by (induction cs) (simp_all add: allocate_step_apart)

text \<open>The range found for a controller without a fixed base is free when the controllers are sorted
  by their ranges.\<close>

lemma allocate_any_sorted:
  assumes "sorted_wrt (\<lambda>c d. irq_base c + irq_num c \<le> irq_base d) cs" and "\<forall>c\<in>set cs. 0 < irq_num c" and "0 < n"
  shows "\<exists>t' \<ge> t. fold_until (allocate_step METAL_IRQ_ANY n) cs (t, t + n) = Inl (t', t' + n) \<and> (\<forall>c\<in>set cs. apart c t' n) \<and>
    (t' = t \<or> (\<exists>c\<in>set cs. t' = irq_base c + irq_num c))"
  using assms
proof (induction cs arbitrary: t)
  case (Cons c cs)
  let ?e = "irq_base c + irq_num c"
  consider "\<not> apart c t n" | "t + n \<le> irq_base c" | "?e \<le> t" "apart c t n" by (auto simp: apart_def)
  then show ?case
  proof cases
    case 1
    moreover obtain t' where "t' \<ge> ?e" "fold_until (allocate_step METAL_IRQ_ANY n) cs (?e, ?e + n) = Inl (t', t' + n)"
        "\<forall>c\<in>set cs. apart c t' n" "t' = ?e \<or> (\<exists>c\<in>set cs. t' = irq_base c + irq_num c)" using Cons.IH [of ?e] Cons.prems by auto
    moreover have "t \<le> ?e" using 1 by (auto simp: apart_def)
    ultimately show ?thesis by (intro exI [of _ t']) (auto simp: allocate_step_apart apart_def)
  next
    case 2
    have "\<forall>d\<in>set (c # cs). apart d t n" using 2 Cons.prems by (auto simp: apart_def)
    then show ?thesis using allocate_all_apart [of "c # cs" t n METAL_IRQ_ANY] by blast
  next
    case 3
    moreover obtain t' where "t' \<ge> t" "fold_until (allocate_step METAL_IRQ_ANY n) cs (t, t + n) = Inl (t', t' + n)"
        "\<forall>c\<in>set cs. apart c t' n" "t' = t \<or> (\<exists>c\<in>set cs. t' = irq_base c + irq_num c)" using Cons.IH [of t] Cons.prems by auto
    ultimately show ?thesis by (intro exI [of _ t']) (auto simp: allocate_step_apart apart_def)
  qed
qed simp

section \<open>The invariant of the registry\<close>

definition INT_MAX :: int where "INT_MAX = 2 ^ 31 - 1"

definition irq_range_ok :: "('a, 'e) irq_controller \<Rightarrow> bool" where
  "irq_range_ok c \<longleftrightarrow> 0 \<le> irq_base c \<and> 0 < irq_num c \<and> irq_base c + irq_num c \<le> INT_MAX \<and>
     (\<forall>tab. irqs c = Some tab \<longrightarrow> int (length tab) = irq_num c)"

definition irq_inv :: "('a, 'e) irq_state \<Rightarrow> nat list \<Rightarrow> bool" where
  "irq_inv s cs \<longleftrightarrow> list_at (irq_links s) Irq_cntrs (map Cntr cs) \<and> (\<forall>c\<in>set cs. irq_range_ok (irq_ctl s c)) \<and>
     (\<forall>c\<in>set cs. \<forall>d\<in>set cs. c \<noteq> d \<longrightarrow> apart (irq_ctl s c) (irq_base (irq_ctl s d)) (irq_num (irq_ctl s d)))"

lemma irq_inv_list: "irq_inv s cs \<Longrightarrow> list_at (irq_links s) Irq_cntrs (map Cntr cs)"
  by (simp add: irq_inv_def)

lemma allocate_list:
  assumes "irq_inv s cs" and "num \<noteq> 0"
  shows "metal_irq_allocate base num s =
    Some (let t = (if base = METAL_IRQ_ANY then 0 else base)
          in case fold_until (allocate_step base num) (map (irq_ctl s) cs) (t, t + num) of Inl (t, _) \<Rightarrow> t | Inr _ \<Rightarrow> METAL_IRQ_ANY)"
  using assms(2) by (simp add: metal_irq_allocate_def for_each_list [OF irq_inv_list [OF assms(1)]] fold_until_map Let_def)

text \<open>The owner of an interrupt is unique, so the search finds it.\<close>

lemma get_controller_owner:
  assumes "irq_inv s cs" and "c \<in> set cs" and "owns (irq_ctl s c) irq"
  shows "metal_irq_get_controller irq s = Some (Some c)"
proof -
  have "metal_list_find (irq_links s) Irq_cntrs (\<lambda>n. owns (irq_ctl s (container n)) irq) = Some (Some (Cntr c))"
  proof (rule ml.search_found [OF irq_inv_list [OF assms(1)]])
    fix y assume "y \<in> set (map Cntr cs)" and o: "owns (irq_ctl s (container y)) irq"
    then obtain d where d: "y = Cntr d" "d \<in> set cs" by auto
    have "c \<noteq> d \<Longrightarrow> apart (irq_ctl s c) (irq_base (irq_ctl s d)) (irq_num (irq_ctl s d))"
      using assms(1,2) d(2) by (auto simp: irq_inv_def)
    then show "y = Cntr c" using assms(3) o d(1) by (auto simp: apart_def owns_def)
  qed (use assms in auto)
  then show ?thesis by (simp add: metal_irq_get_controller_def)
qed

lemma get_controller_none:
  assumes "irq_inv s cs" and "\<forall>c\<in>set cs. \<not> owns (irq_ctl s c) irq"
  shows "metal_irq_get_controller irq s = Some None"
  using ml.search_none [OF irq_inv_list [OF assms(1)], of "\<lambda>n. owns (irq_ctl s (container n)) irq"] assms(2)
  by (simp add: metal_irq_get_controller_def)

lemma list_at_Cntr:
  assumes "irq_inv s cs" and "c \<notin> set cs"
  shows "list_at (metal_list_add_tail Irq_cntrs (Cntr c) (irq_links s)) Irq_cntrs (map Cntr (cs @ [c]))"
  using ml.rep_add [OF irq_inv_list [OF assms(1)], of "Cntr c"] assms(2) by auto

lemma irq_inv_added:
  assumes "irq_inv s cs" and "c \<notin> set cs" and "\<forall>d\<in>set cs. apart (irq_ctl s d) base (irq_num (irq_ctl s c))"
    and "irq_range_ok (irq_ctl s c\<lparr>irq_base := base\<rparr>)"
  shows "irq_inv (s\<lparr>irq_ctl := (irq_ctl s)(c := irq_ctl s c\<lparr>irq_base := base\<rparr>),
      irq_links := metal_list_add_tail Irq_cntrs (Cntr c) (irq_links s)\<rparr>) (cs @ [c])"
proof -
  have "apart (irq_ctl s c\<lparr>irq_base := base\<rparr>) (irq_base (irq_ctl s d)) (irq_num (irq_ctl s d))" if "d \<in> set cs" for d
    using assms(3) that by (auto simp: apart_def)
  then show ?thesis
    using assms list_at_Cntr [OF assms(1,2)] by (auto simp: irq_inv_def)
qed

lemma register_new:
  assumes "irq_inv s cs" and "c \<notin> set cs" and "irq_num (irq_ctl s c) \<noteq> 0"
  shows "metal_irq_register_controller (Some c) s =
    Some (let k = irq_ctl s c; t = (if irq_base k = METAL_IRQ_ANY then 0 else irq_base k)
      in case fold_until (allocate_step (irq_base k) (irq_num k)) (map (irq_ctl s) cs) (t, t + irq_num k) of
           Inr _ \<Rightarrow> (- EINVAL_irq, s)
         | Inl (b, _) \<Rightarrow> if b = METAL_IRQ_ANY then (- EINVAL_irq, s)
             else (0, s\<lparr>irq_ctl := (irq_ctl s)(c := k\<lparr>irq_base := b\<rparr>),
                        irq_links := metal_list_add_tail Irq_cntrs (Cntr c) (irq_links s)\<rparr>))"
proof -
  have "metal_list_find (irq_links s) Irq_cntrs ((=) (Cntr c)) = Some None"
    using ml.search_member [OF irq_inv_list [OF assms(1)], of "Cntr c"] assms(2) by auto
  then show ?thesis
    using allocate_list [OF assms(1,3)] by (simp add: metal_irq_register_controller_def Let_def split: sum.split)
qed


section \<open>The registry of the system\<close>

definition metal_irq_start :: "(nat \<Rightarrow> ('a, 'e) irq_controller) \<Rightarrow> 'e \<Rightarrow> ('a, 'e) irq_state" where
  "metal_irq_start ctl e = \<lparr>irq_links = metal_list_init Irq_cntrs (\<lambda>_. \<lparr>l_next = Irq_cntrs, l_prev = Irq_cntrs\<rparr>),
     irq_ctl = ctl, irq_env = e\<rparr>"

definition system_ctl :: "nat \<Rightarrow> ('a, ('f, 'u, 'z) metal_hw_scheme) irq_controller" where
  "system_ctl n = (if n = XLNX_IRQ_CNTR then xlnx_irq_cntr else metal_softirq_cntr)"

lemma irq_inv_start: "irq_inv (metal_irq_start ctl e) []"
  by (simp add: irq_inv_def metal_irq_start_def list_at_init)

lemma xlnx_range_ok [simp]: "irq_range_ok xlnx_irq_cntr"
  by (simp add: irq_range_ok_def xlnx_irq_cntr_def MAX_IRQS_def INT_MAX_def)


text \<open>The Zynq controller first and the software interrupts behind it.\<close>

lemma system_controllers:
  fixes e :: "('f, 'u, 'z) metal_hw_scheme"
  shows "\<exists>s1 s2 :: ('a, 'f, 'u, 'z) metal_irqs. metal_xlnx_irq_init (metal_irq_start system_ctl e) = Some (0, s1) \<and> metal_softirq_init s1 = Some (0, s2) \<and>
     irq_inv s2 [XLNX_IRQ_CNTR, METAL_SOFTIRQ_CNTR] \<and> irq_base (irq_ctl s2 METAL_SOFTIRQ_CNTR) = 95 \<and>
     irq_ctl s2 XLNX_IRQ_CNTR = xlnx_irq_cntr \<and> irq_env s2 = e"
proof -
  define s0 where "s0 = (metal_irq_start system_ctl e :: ('a, 'f, 'u, 'z) metal_irqs)"
  have ctl: "irq_ctl s0 = system_ctl" "irq_env s0 = e" by (simp_all add: metal_irq_start_def s0_def)
  have i0: "irq_inv s0 []" by (simp add: s0_def irq_inv_start)
  define s1 where "s1 = s0\<lparr>irq_ctl := (irq_ctl s0)(0 := xlnx_irq_cntr\<lparr>irq_base := 0\<rparr>),
      irq_links := metal_list_add_tail Irq_cntrs (Cntr 0) (irq_links s0)\<rparr>"
  have r1: "metal_irq_register_controller (Some 0) s0 = Some (0, s1)"
    using register_new [OF i0, of 0]
    by (simp add: ctl system_ctl_def s1_def METAL_IRQ_ANY_def xlnx_irq_cntr_def MAX_IRQS_def)
  have i1: "irq_inv s1 [0]"
    using irq_inv_added [OF i0, of 0 0]
    by (simp add: ctl system_ctl_def s1_def) (simp add: xlnx_irq_cntr_def irq_range_ok_def MAX_IRQS_def INT_MAX_def)
  have c1: "irq_ctl s1 0 = xlnx_irq_cntr" "irq_ctl s1 (Suc 0) = metal_softirq_cntr" "irq_env s1 = e"
    by (simp_all add: s1_def ctl system_ctl_def metal_irq_start_def) (simp add: xlnx_irq_cntr_def)
  define s2 where "s2 = s1\<lparr>irq_ctl := (irq_ctl s1)(1 := metal_softirq_cntr\<lparr>irq_base := 95\<rparr>),
      irq_links := metal_list_add_tail Irq_cntrs (Cntr 1) (irq_links s1)\<rparr>"
  have r2: "metal_irq_register_controller (Some 1) s1 = Some (0, s2)"
    using register_new [OF i1, of 1]
    by (simp add: c1 s2_def allocate_step_def METAL_IRQ_ANY_def xlnx_irq_cntr_def metal_softirq_cntr_def MAX_IRQS_def METAL_SOFTIRQ_NUM_def)
  have "irq_inv s2 [0, 1]"
    using irq_inv_added [OF i1, of 1 95]
    by (simp add: c1 s2_def)
      (simp add: apart_def metal_softirq_cntr_def xlnx_irq_cntr_def irq_range_ok_def MAX_IRQS_def METAL_SOFTIRQ_NUM_def INT_MAX_def)
  moreover have "irq_ctl s2 0 = xlnx_irq_cntr" "irq_base (irq_ctl s2 1) = 95" "irq_env s2 = e" using c1 by (simp_all add: s2_def)
  ultimately show ?thesis using r1 r2 by (simp add: s0_def metal_xlnx_irq_init_def metal_softirq_init_def)
qed

text \<open>In the other order the software interrupts take the numbers of the Zynq controller, which is
  then refused.\<close>

lemma system_controllers_swapped:
  fixes e :: "('f, 'u, 'z) metal_hw_scheme"
  shows "\<exists>s1 :: ('a, 'f, 'u, 'z) metal_irqs. metal_softirq_init (metal_irq_start system_ctl e) = Some (0, s1) \<and> metal_xlnx_irq_init s1 = Some (- EINVAL_irq, s1)"
proof -
  define s0 where "s0 = (metal_irq_start system_ctl e :: ('a, 'f, 'u, 'z) metal_irqs)"
  have ctl: "irq_ctl s0 = system_ctl" "irq_env s0 = e" by (simp_all add: metal_irq_start_def s0_def)
  have i0: "irq_inv s0 []" by (simp add: s0_def irq_inv_start)
  define s1 where "s1 = s0\<lparr>irq_ctl := (irq_ctl s0)(1 := metal_softirq_cntr\<lparr>irq_base := 0\<rparr>),
      irq_links := metal_list_add_tail Irq_cntrs (Cntr 1) (irq_links s0)\<rparr>"
  have r1: "metal_irq_register_controller (Some 1) s0 = Some (0, s1)"
    using register_new [OF i0, of 1]
    by (simp add: ctl system_ctl_def s1_def METAL_IRQ_ANY_def metal_softirq_cntr_def METAL_SOFTIRQ_NUM_def)
  have i1: "irq_inv s1 [1]"
    using irq_inv_added [OF i0, of 1 0]
    by (simp add: ctl system_ctl_def s1_def) (simp add: metal_softirq_cntr_def irq_range_ok_def METAL_SOFTIRQ_NUM_def INT_MAX_def)
  have "irq_ctl s1 0 = xlnx_irq_cntr" "irq_ctl s1 1 = metal_softirq_cntr\<lparr>irq_base := 0\<rparr>"
    by (simp_all add: s1_def ctl system_ctl_def)
  then have "metal_irq_register_controller (Some 0) s1 = Some (- EINVAL_irq, s1)"
    using register_new [OF i1, of 0]
    by (simp add: allocate_step_def METAL_IRQ_ANY_def xlnx_irq_cntr_def metal_softirq_cntr_def MAX_IRQS_def METAL_SOFTIRQ_NUM_def)
  then show ?thesis using r1 by (simp add: s0_def metal_xlnx_irq_init_def metal_softirq_init_def EINVAL_irq_def)
qed

section \<open>Handlers\<close>

lemma irq_inv_table:
  assumes "irq_inv s cs" and "irqs (irq_ctl s c) = Some tab" and "length tab' = length tab"
  shows "irq_inv (s\<lparr>irq_ctl := (irq_ctl s)(c := irq_ctl s c\<lparr>irqs := Some tab'\<rparr>)\<rparr>) cs"
  using assms by (auto simp: irq_inv_def irq_range_ok_def apart_def)

lemma irq_inv_env: "irq_inv (s\<lparr>irq_env := e\<rparr>) cs = irq_inv s cs"
  by (simp add: irq_inv_def)

lemma register_handler:
  assumes "irq_inv s cs" and "c \<in> set cs" and "owns (irq_ctl s c) irq"
    and "irq_register_fn (irq_ctl s c) = None" and "irqs (irq_ctl s c) = Some tab"
  shows "metal_irq_register irq h a s = Some (0, s\<lparr>irq_ctl := (irq_ctl s)(c := irq_ctl s c\<lparr>irqs :=
      Some (tab[nat (irq - irq_base (irq_ctl s c)) := \<lparr>irq_hd = h, irq_arg = a\<rparr>])\<rparr>)\<rparr>)"
  using assms(4,5) get_controller_owner [OF assms(1-3)] by (simp add: metal_irq_register_def Let_def)

lemma small_vector:
  assumes "v < XSCUGIC_MAX_NUM_INTR_INPUTS"
  shows "sint v = uint v" and "unat v < MAX_IRQS" and "word_of_int (sint v) = v" and "uint v < int MAX_IRQS"
proof -
  have u: "uint v < 95" using assms by (simp add: XSCUGIC_MAX_NUM_INTR_INPUTS_def word_less_def)
  then show "uint v < int MAX_IRQS" by (simp add: MAX_IRQS_def)
  show "unat v < MAX_IRQS" using assms by (simp add: XSCUGIC_MAX_NUM_INTR_INPUTS_def word_less_nat_alt MAX_IRQS_def)
  have "- 2147483648 \<le> uint v" using uint_ge_0 [of v] by linarith
  then show "sint v = uint v" using u by (simp add: sint_uint signed_take_bit_int_eq_self_iff)
  show "word_of_int (sint v) = v" by simp
qed

lemma sys_irq_enable_effect:
  assumes "i < XSCUGIC_MAX_NUM_INTR_INPUTS" and "j < XSCUGIC_MAX_NUM_INTR_INPUTS"
  shows "gic_enabled (sys_irq_enable i e) j \<longleftrightarrow> j = i \<or> gic_enabled e j"
    and "gic_enabled (sys_irq_disable i e) j \<longleftrightarrow> j \<noteq> i \<and> gic_enabled e j"
proof -
  let ?off = "\<lambda>i. XSCUGIC_ENABLE_SET_OFFSET + (i div 32) * 4"
  have "?off j = ?off i \<and> (unat j mod 32 = unat i mod 32 \<longrightarrow> j = i) \<or> ?off j \<noteq> ?off i \<and> j \<noteq> i"
    using gic_banks_apart(4) [OF assms] same_reg_bit [of j 32 i] by auto
  then show "gic_enabled (sys_irq_enable i e) j \<longleftrightarrow> j = i \<or> gic_enabled e j"
    "gic_enabled (sys_irq_disable i e) j \<longleftrightarrow> j \<noteq> i \<and> gic_enabled e j"
    unfolding gic_enabled_def sys_irq_enable_def sys_irq_disable_def DistWriteReg_enable [OF assms(1)] DistWriteReg_disable [OF assms(1)]
    by (elim disjE; simp add: bit_simps; auto)+
qed

definition zynq_irqs :: "('a, ('f, 'u, 'z) gic_scheme) irq_state \<Rightarrow> nat list \<Rightarrow> ('a, ('f, 'u, 'z) gic_scheme) metal_irq list \<Rightarrow> bool" where
  "zynq_irqs s cs tab \<longleftrightarrow> irq_inv s cs \<and> XLNX_IRQ_CNTR \<in> set cs \<and> irq_ctl s XLNX_IRQ_CNTR = xlnx_irq_cntr\<lparr>irqs := Some tab\<rparr>"

lemma zynq_owns:
  assumes "zynq_irqs s cs tab" and "v < XSCUGIC_MAX_NUM_INTR_INPUTS"
  shows "owns (irq_ctl s XLNX_IRQ_CNTR) (sint v)" and "length tab = 95"
proof -
  have "irq_range_ok (irq_ctl s XLNX_IRQ_CNTR)" using assms(1) by (auto simp: zynq_irqs_def irq_inv_def)
  then show "length tab = 95" using assms(1) by (simp add: zynq_irqs_def irq_range_ok_def xlnx_irq_cntr_def MAX_IRQS_def)
  show "owns (irq_ctl s XLNX_IRQ_CNTR) (sint v)"
    using assms small_vector(1,4) [OF assms(2)] by (simp add: zynq_irqs_def owns_def xlnx_irq_cntr_def)
qed

lemma zynq_register:
  assumes "zynq_irqs s cs tab" and "v < XSCUGIC_MAX_NUM_INTR_INPUTS"
  shows "\<exists>s'. metal_irq_register (sint v) h a s = Some (0, s') \<and> zynq_irqs s' cs (tab[unat v := \<lparr>irq_hd = h, irq_arg = a\<rparr>]) \<and>
    irq_env s' = irq_env s \<and> (\<forall>d. d \<noteq> XLNX_IRQ_CNTR \<longrightarrow> irq_ctl s' d = irq_ctl s d)"
proof -
  have z: "irq_inv s cs" "0 \<in> set cs" "irq_ctl s 0 = xlnx_irq_cntr\<lparr>irqs := Some tab\<rparr>" using assms(1) by (auto simp: zynq_irqs_def)
  let ?tab = "tab[unat v := \<lparr>irq_hd = h, irq_arg = a\<rparr>]"
  let ?s = "s\<lparr>irq_ctl := (irq_ctl s)(0 := irq_ctl s 0\<lparr>irqs := Some ?tab\<rparr>)\<rparr>"
  have "metal_irq_register (sint v) h a s = Some (0, ?s)"
    using register_handler [OF z(1,2) zynq_owns(1) [OF assms], of tab h a] small_vector(1) [OF assms(2)]
    by (simp add: z(3)) (simp add: xlnx_irq_cntr_def)
  moreover have "irq_inv ?s cs" by (rule irq_inv_table [OF z(1), of 0 tab]) (simp_all add: z(3))
  ultimately show ?thesis using z by (simp add: zynq_irqs_def)
qed

lemma zynq_enable:
  assumes "zynq_irqs s cs tab" and "v < XSCUGIC_MAX_NUM_INTR_INPUTS"
  shows "metal_irq_enable v s = Some (s\<lparr>irq_env := sys_irq_enable v (irq_env s)\<rparr>)"
    and "metal_irq_disable v s = Some (s\<lparr>irq_env := sys_irq_disable v (irq_env s)\<rparr>)"
proof -
  have z: "irq_inv s cs" "0 \<in> set cs" "irq_ctl s 0 = xlnx_irq_cntr\<lparr>irqs := Some tab\<rparr>" using assms(1) by (auto simp: zynq_irqs_def)
  note o = get_controller_owner [OF z(1,2) zynq_owns(1) [OF assms]] and v = small_vector [OF assms(2)]
  have "0 \<le> sint v" "sint v < int MAX_IRQS" using v by simp_all
  then show "metal_irq_enable v s = Some (s\<lparr>irq_env := sys_irq_enable v (irq_env s)\<rparr>)"
    "metal_irq_disable v s = Some (s\<lparr>irq_env := sys_irq_disable v (irq_env s)\<rparr>)"
    using o v(3) by (simp_all add: metal_irq_enable_def metal_irq_disable_def metal_irq_set_enable_def z(3) Let_def)
      (simp_all add: xlnx_irq_cntr_def metal_xlnx_irq_set_enable_def METAL_IRQ_ENABLE_def METAL_IRQ_DISABLE_def)
qed

lemma zynq_isr:
  assumes "zynq_irqs s cs tab" and "v < XSCUGIC_MAX_NUM_INTR_INPUTS"
  shows "metal_xlnx_irq_isr v s = s\<lparr>irq_env := snd (metal_irq_handle (tab ! unat v) (sint v) (irq_env s))\<rparr>"
  using assms(1) small_vector(2) [OF assms(2)] by (simp add: metal_xlnx_irq_isr_def zynq_irqs_def)

text \<open>
  An interrupt handler from registration to removal. A handler registered for an
  interrupt of the Zynq controller and enabled is called with its number and argument when the
  interrupt occurs; enabling sets the enable bit of this interrupt and no other, and the handlers of
  all other interrupts stay. After it is unregistered the interrupt runs no handler.
\<close>

lemma irq_dispatch:
  assumes "zynq_irqs s cs tab" and "v < XSCUGIC_MAX_NUM_INTR_INPUTS"
  shows "\<exists>s1 s2 s3. metal_irq_register (sint v) (Some h) a s = Some (0, s1) \<and> metal_irq_enable v s1 = Some s2 \<and>
    (\<forall>j < XSCUGIC_MAX_NUM_INTR_INPUTS. gic_enabled (irq_env s2) j \<longleftrightarrow> j = v \<or> gic_enabled (irq_env s) j) \<and>
    irq_env (metal_xlnx_irq_isr v s2) = snd (h (sint v) a (irq_env s2)) \<and>
    (\<forall>w < XSCUGIC_MAX_NUM_INTR_INPUTS. w \<noteq> v \<longrightarrow>
       irq_env (metal_xlnx_irq_isr w s2) = snd (metal_irq_handle (tab ! unat w) (sint w) (irq_env s2))) \<and>
    metal_irq_unregister (sint v) s2 = Some s3 \<and> metal_xlnx_irq_isr v s3 = s3"
proof -
  let ?tab = "tab[unat v := \<lparr>irq_hd = Some h, irq_arg = a\<rparr>]"
  have len: "unat v < length tab" using zynq_owns(2) [OF assms] small_vector(2) [OF assms(2)] by (simp add: MAX_IRQS_def)
  obtain s1 where s1: "metal_irq_register (sint v) (Some h) a s = Some (0, s1)" "zynq_irqs s1 cs ?tab" "irq_env s1 = irq_env s"
    using zynq_register [OF assms, of "Some h" a] by blast
  define s2 where "s2 = s1\<lparr>irq_env := sys_irq_enable v (irq_env s1)\<rparr>"
  have e2: "metal_irq_enable v s1 = Some s2" using zynq_enable(1) [OF s1(2) assms(2)] by (simp add: s2_def)
  have z2: "zynq_irqs s2 cs ?tab" using s1(2) by (simp add: s2_def zynq_irqs_def irq_inv_env)
  obtain s3 where s3: "metal_irq_register (sint v) None None s2 = Some (0, s3)"
      "zynq_irqs s3 cs (?tab[unat v := \<lparr>irq_hd = None, irq_arg = None\<rparr>])"
    using zynq_register [OF z2 assms(2), of None None] by blast
  have "metal_xlnx_irq_isr v s3 = s3" using zynq_isr [OF s3(2) assms(2)] len by (simp add: metal_irq_handle_def)
  moreover have "irq_env (metal_xlnx_irq_isr v s2) = snd (h (sint v) a (irq_env s2))"
    using zynq_isr [OF z2 assms(2)] len by (simp add: metal_irq_handle_def)
  moreover have "irq_env (metal_xlnx_irq_isr w s2) = snd (metal_irq_handle (tab ! unat w) (sint w) (irq_env s2))"
    if "w < XSCUGIC_MAX_NUM_INTR_INPUTS" "w \<noteq> v" for w
    using zynq_isr [OF z2 that(1)] that(2) by (simp add: nth_list_update word_unat_eq_iff)
  ultimately show ?thesis
    using s1 e2 s3(1) sys_irq_enable_effect(1) [OF assms(2), of _ "irq_env s"]
    by (auto simp: metal_irq_unregister_def s2_def)
qed

definition demo_irqs :: "(nat, (unit, unit) gic) irq_state" where
  "demo_irqs = (let s = metal_irq_start (\<lambda>_. xlnx_irq_cntr) \<lparr>cpsr = 0, gic_ready = True, HandlerTable = [], dist = (\<lambda>_. 0),
       pending = (\<lambda>_. False), cpu_if = (\<lambda>_. 0), UnhandledInterrupts = 0, CpuId = 1\<rparr>
     in s\<lparr>irq_ctl := (irq_ctl s)(0 := irq_ctl s 0\<lparr>irq_base := 0\<rparr>), irq_links := metal_list_add_tail Irq_cntrs (Cntr 0) (irq_links s)\<rparr>)"

lemma demo_irqs_ok: "zynq_irqs demo_irqs [0] (replicate MAX_IRQS no_irq)"
  using irq_inv_added [OF irq_inv_start [of "\<lambda>_. xlnx_irq_cntr"], where c = 0 and base = 0]
  by (simp add: zynq_irqs_def demo_irqs_def Let_def metal_irq_start_def) (simp add: xlnx_irq_cntr_def irq_range_ok_def MAX_IRQS_def INT_MAX_def)

lemma irq_dispatch_witness:
  "\<exists>s1 s2. metal_irq_register 14 (Some (\<lambda>irq a e. (1, e\<lparr>cpsr := 7\<rparr>))) (Some 3) demo_irqs = Some (0, s1) \<and>
    metal_irq_enable 14 s1 = Some s2 \<and> gic_enabled (irq_env s2) 14 \<and> cpsr (irq_env (metal_xlnx_irq_isr 14 s2)) = 7"
proof -
  have "(14 :: u32) < XSCUGIC_MAX_NUM_INTR_INPUTS" by (simp add: XSCUGIC_MAX_NUM_INTR_INPUTS_def)
  from irq_dispatch [OF demo_irqs_ok this, of "\<lambda>irq a e. (1, e\<lparr>cpsr := 7\<rparr>)" "Some 3"] this show ?thesis by auto
qed

text \<open>
  Without the sorting the search returns a range that is taken: it makes one pass, and a controller
  it has already passed may overlap the range it moves to.
\<close>

definition clash_ctl :: "nat \<Rightarrow> (unit, unit) irq_controller" where
  "clash_ctl n = \<lparr>irq_base = (if n = 0 then 10 else METAL_IRQ_ANY), irq_num = (if n = 1 then 5 else 10),
     irq_set_enable = (\<lambda>_ _ _ _ e. e), irq_register_fn = None, irqs = None\<rparr>"

lemma irq_any_overlap:
  "\<exists>s1 s2 s3. metal_irq_register_controller (Some 0) (metal_irq_start clash_ctl ()) = Some (0, s1) \<and>
    metal_irq_register_controller (Some 1) s1 = Some (0, s2) \<and> metal_irq_register_controller (Some 2) s2 = Some (0, s3) \<and>
    owns (irq_ctl s3 0) 12 \<and> owns (irq_ctl s3 2) 12"
proof -
  define s0 where "s0 = metal_irq_start clash_ctl ()"
  have i0: "irq_inv s0 []" and c0: "irq_ctl s0 = clash_ctl" by (simp_all add: s0_def irq_inv_start) (simp add: metal_irq_start_def)
  define s1 where "s1 = s0\<lparr>irq_ctl := (irq_ctl s0)(0 := clash_ctl 0\<lparr>irq_base := 10\<rparr>),
      irq_links := metal_list_add_tail Irq_cntrs (Cntr 0) (irq_links s0)\<rparr>"
  have r1: "metal_irq_register_controller (Some 0) s0 = Some (0, s1)"
    using register_new [OF i0, of 0] by (simp add: c0 s1_def clash_ctl_def METAL_IRQ_ANY_def)
  have i1: "irq_inv s1 [0]"
    using irq_inv_added [OF i0, of 0 10] by (simp add: c0 s1_def) (simp add: clash_ctl_def irq_range_ok_def INT_MAX_def)
  have c1: "irq_ctl s1 = clash_ctl(0 := clash_ctl 0\<lparr>irq_base := 10\<rparr>)" by (simp add: s1_def c0)
  define s2 where "s2 = s1\<lparr>irq_ctl := (irq_ctl s1)(1 := clash_ctl 1\<lparr>irq_base := 0\<rparr>),
      irq_links := metal_list_add_tail Irq_cntrs (Cntr 1) (irq_links s1)\<rparr>"
  have r2: "metal_irq_register_controller (Some 1) s1 = Some (0, s2)"
    using register_new [OF i1, of 1] by (simp add: c1 s2_def clash_ctl_def METAL_IRQ_ANY_def allocate_step_def)
  have i2: "irq_inv s2 [0, 1]"
    using irq_inv_added [OF i1, of 1 0]
    by (simp add: c1 s2_def) (simp add: clash_ctl_def apart_def irq_range_ok_def INT_MAX_def)
  have c2: "irq_ctl s2 = clash_ctl(0 := clash_ctl 0\<lparr>irq_base := 10\<rparr>, 1 := clash_ctl 1\<lparr>irq_base := 0\<rparr>)" by (simp add: s2_def c1)
  have "\<exists>s3. metal_irq_register_controller (Some 2) s2 = Some (0, s3) \<and> irq_ctl s3 = (irq_ctl s2)(2 := clash_ctl 2\<lparr>irq_base := 5\<rparr>)"
    using register_new [OF i2, of 2] by (simp add: c2 clash_ctl_def METAL_IRQ_ANY_def allocate_step_def)
  then show ?thesis using r1 r2 by (auto simp: s0_def c2 clash_ctl_def owns_def)
qed

section \<open>Masking and software interrupts\<close>

lemma irq_save_restore:
  "sys_irq_save_disable s = (flags, s') \<Longrightarrow> cpsr s' AND XIL_EXCEPTION_ALL = XIL_EXCEPTION_ALL \<and> sys_irq_restore_enable flags s' = s"
proof -
  assume h: "sys_irq_save_disable s = (flags, s')"
  have m: "(x OR XIL_EXCEPTION_ALL) AND NOT (NOT (x AND XIL_EXCEPTION_ALL) AND XIL_EXCEPTION_ALL) = x"
    "(x OR XIL_EXCEPTION_ALL) AND XIL_EXCEPTION_ALL = XIL_EXCEPTION_ALL" for x :: u32
    by (rule bit_word_eqI; auto simp: bit_simps)+
  have "x AND NOT (NOT (x AND XIL_EXCEPTION_ALL) AND XIL_EXCEPTION_ALL) = x" if "x AND XIL_EXCEPTION_ALL = XIL_EXCEPTION_ALL" for x :: u32
    using that by simp
  then show ?thesis
    using h m by (auto simp: sys_irq_save_disable_def sys_irq_restore_enable_def Let_def split: if_splits)
qed

definition softirq_ready :: "('f, 'u, 'z) metal_hw_scheme \<Rightarrow> nat \<Rightarrow> bool" where
  "softirq_ready e i \<longleftrightarrow> softirq_enabled e ! i \<noteq> 0 \<and> softirq_pending e ! i = 1"

definition softirq_run :: "('a, ('f, 'u, 'z) metal_hw_scheme) metal_irq list \<Rightarrow> int \<Rightarrow> nat \<Rightarrow>
    ('f, 'u, 'z) metal_hw_scheme \<Rightarrow> ('f, 'u, 'z) metal_hw_scheme" where
  "softirq_run tab base i e = snd (metal_irq_handle (tab ! i) (int i + base) (e\<lparr>softirq_pending := (softirq_pending e)[i := 0]\<rparr>))"

text \<open>A handler that leaves the two arrays alone.\<close>

definition keeps_softirqs :: "('a, ('f, 'u, 'z) metal_hw_scheme) metal_irq \<Rightarrow> bool" where
  "keeps_softirqs d \<longleftrightarrow> (\<forall>h irq e. irq_hd d = Some h \<longrightarrow>
     softirq_pending (snd (h irq (irq_arg d) e)) = softirq_pending e \<and> softirq_enabled (snd (h irq (irq_arg d) e)) = softirq_enabled e)"

lemma softirq_run_arrays:
  "keeps_softirqs (tab ! i) \<Longrightarrow> softirq_pending (softirq_run tab base i e) = (softirq_pending e)[i := 0] \<and>
    softirq_enabled (softirq_run tab base i e) = softirq_enabled e"
  by (auto simp: softirq_run_def keeps_softirqs_def metal_irq_handle_def split: option.split)

lemma softirq_fold:
  assumes "irqs (irq_ctl s METAL_SOFTIRQ_CNTR) = Some tab" and "\<forall>i\<in>set is. keeps_softirqs (tab ! i)" and "distinct is"
    and "\<forall>i\<in>set is. i < length (softirq_pending (irq_env s))"
  shows "fold softirq_step is s = s\<lparr>irq_env := fold (softirq_run tab (irq_base (irq_ctl s METAL_SOFTIRQ_CNTR)))
      (filter (softirq_ready (irq_env s)) is) (irq_env s)\<rparr>"
  using assms
proof (induction "is" arbitrary: s)
  case (Cons i "is")
  define b where "b = irq_base (irq_ctl s METAL_SOFTIRQ_CNTR)"
  show ?case
  proof (cases "softirq_ready (irq_env s) i")
    case True
    let ?e = "softirq_run tab b i (irq_env s)"
    have a: "softirq_pending ?e = (softirq_pending (irq_env s))[i := 0]" "softirq_enabled ?e = softirq_enabled (irq_env s)"
      using softirq_run_arrays Cons.prems(2) by (metis list.set_intros(1))+
    have step: "softirq_step i s = s\<lparr>irq_env := ?e\<rparr>"
      using True Cons.prems(1) by (simp add: softirq_step_def softirq_ready_def softirq_run_def Let_def b_def)
    have "filter (softirq_ready ?e) is = filter (softirq_ready (irq_env s)) is"
    proof (rule filter_cong [OF refl])
      fix x assume "x \<in> set is"
      then have "x \<noteq> i" using Cons.prems(3) by auto
      then show "softirq_ready ?e x = softirq_ready (irq_env s) x" by (simp add: softirq_ready_def a)
    qed
    then show ?thesis
      using Cons.IH [of "s\<lparr>irq_env := ?e\<rparr>"] Cons.prems True step a(1) by (simp add: b_def)
  next
    case False
    then have "softirq_step i s = s" by (auto simp: softirq_step_def softirq_ready_def Let_def)
    then show ?thesis using Cons False by simp
  qed
qed simp

lemma softirq_fold_arrays:
  assumes "\<forall>i\<in>set is. keeps_softirqs (tab ! i)" and "k < length (softirq_pending e)"
  shows "softirq_pending (fold (softirq_run tab b) is e) ! k = (if k \<in> set is then 0 else softirq_pending e ! k) \<and>
    length (softirq_pending (fold (softirq_run tab b) is e)) = length (softirq_pending e)"
  using assms
proof (induction "is" arbitrary: e)
  case (Cons i "is")
  have "softirq_pending (softirq_run tab b i e) = (softirq_pending e)[i := 0]"
    using softirq_run_arrays [of tab i b e] Cons.prems by simp
  then show ?case using Cons.IH [of "softirq_run tab b i e"] Cons.prems by (auto simp: nth_list_update)
qed simp

text \<open>
  A pass over the software interrupts. It runs the handlers of exactly the
  interrupts that are enabled and pending, each once, in ascending order, and clears their pending
  flags; an interrupt that is pending but not enabled stays pending.
\<close>

lemma softirq_dispatch:
  assumes "irqs (irq_ctl s METAL_SOFTIRQ_CNTR) = Some tab" and "\<forall>i<METAL_SOFTIRQ_NUM. keeps_softirqs (tab ! i)"
    and "length (softirq_pending (irq_env s)) = METAL_SOFTIRQ_NUM" and "s' = metal_softirq_dispatch s"
  shows "irq_env s' = fold (softirq_run tab (irq_base (irq_ctl s METAL_SOFTIRQ_CNTR)))
      (filter (softirq_ready (irq_env s)) [0..<METAL_SOFTIRQ_NUM]) (irq_env s) \<and>
    (\<forall>i<METAL_SOFTIRQ_NUM. softirq_pending (irq_env s') ! i =
       (if softirq_ready (irq_env s) i then 0 else softirq_pending (irq_env s) ! i)) \<and> irq_ctl s' = irq_ctl s"
proof -
  let ?is = "filter (softirq_ready (irq_env s)) [0..<METAL_SOFTIRQ_NUM]"
  have run: "s' = s\<lparr>irq_env := fold (softirq_run tab (irq_base (irq_ctl s METAL_SOFTIRQ_CNTR))) ?is (irq_env s)\<rparr>"
    unfolding assms(4) metal_softirq_dispatch_def by (rule softirq_fold) (use assms(1-3) in auto)
  then show ?thesis
    using softirq_fold_arrays [of ?is tab _ "irq_env s" "irq_base (irq_ctl s METAL_SOFTIRQ_CNTR)"] assms(2,3) by auto
qed

lemma softirq_dispatch_witness:
  "\<exists>s :: (unit, unit, unit, unit) metal_irqs. softirq_pending (irq_env (metal_softirq_dispatch s)) ! 1 = 0 \<and>
     softirq_pending (irq_env (metal_softirq_dispatch s)) ! 2 = 1 \<and> cpsr (irq_env (metal_softirq_dispatch s)) = 9"
proof -
  define e :: "(unit, unit) metal_hw" where "e = \<lparr>cpsr = 0, gic_ready = True, HandlerTable = [], dist = (\<lambda>_. 0),
       pending = (\<lambda>_. False), cpu_if = (\<lambda>_. 0), UnhandledInterrupts = 0, CpuId = 1, softirq_avail = 0,
       softirq_pending = (replicate 64 0)[1 := 1, 2 := 1], softirq_enabled = (replicate 64 0)[1 := 1]\<rparr>"
  define tab :: "(unit, (unit, unit) metal_hw) metal_irq list"
    where "tab = replicate 64 \<lparr>irq_hd = Some (\<lambda>_ _ e. (1, e\<lparr>cpsr := 9\<rparr>)), irq_arg = None\<rparr>"
  define s where "s = metal_irq_start (\<lambda>_. metal_softirq_cntr\<lparr>irqs := Some tab\<rparr>) e"
  have keeps: "keeps_softirqs (tab ! i)" if "i < 64" for i using that by (simp add: tab_def keeps_softirqs_def)
  have ready: "softirq_ready e i \<longleftrightarrow> i = 1" if "i < 64" for i
    using that by (auto simp: softirq_ready_def e_def nth_list_update split: if_splits)
  have "filter (softirq_ready e) [0..<64] = filter (\<lambda>i. i = 1) [0..<64]" by (rule filter_cong) (simp_all add: ready)
  also have "\<dots> = [1]" by (simp add: upt_rec)
  finally have f: "filter (softirq_ready e) [0..<64] = [1]" .
  have env: "irq_env s = e" "irqs (irq_ctl s METAL_SOFTIRQ_CNTR) = Some tab" by (simp_all add: s_def metal_irq_start_def)
  note d = softirq_dispatch [OF env(2) _ _ refl, unfolded env METAL_SOFTIRQ_NUM_def]
  have p: "softirq_pending e ! 2 = 1" "length (softirq_pending e) = 64" by (simp_all add: e_def)
  have "irq_env (metal_softirq_dispatch s) = softirq_run tab (irq_base (irq_ctl s METAL_SOFTIRQ_CNTR)) 1 e \<and>
      softirq_pending (irq_env (metal_softirq_dispatch s)) ! 1 = 0 \<and> softirq_pending (irq_env (metal_softirq_dispatch s)) ! 2 = 1"
    using d keeps p ready by (auto simp: f)
  then show ?thesis using p by (intro exI [of _ s]) (simp add: softirq_run_def metal_irq_handle_def tab_def)
qed

text \<open>Allocated numbers lie in the range of the controller, and the last one is never given out.\<close>

lemma softirq_allocate_range:
  assumes "metal_softirq_allocate num s = (r, s')" and "0 \<le> softirq_avail (irq_env s)" and "0 < num" and "r \<noteq> - EINVAL_irq"
  shows "r = softirq_avail (irq_env s) + irq_base (irq_ctl s METAL_SOFTIRQ_CNTR) \<and> softirq_avail (irq_env s') = softirq_avail (irq_env s) + num \<and>
    r + num < irq_base (irq_ctl s METAL_SOFTIRQ_CNTR) + int METAL_SOFTIRQ_NUM"
  using assms by (auto simp: metal_softirq_allocate_def Let_def split: if_splits)

end
