(* ===== verification/Metal_Device.thy ===== *)
theory Metal_Device
  imports Metal_List Metal_Io
begin

text \<open>
  Buses and devices of libmetal (\<open>lib/init.c\<close>, \<open>lib/device.c\<close>, \<open>lib/dma.c\<close>) on the generic system
  (\<open>system/generic/init.c\<close>, \<open>device.c\<close>, \<open>io.c\<close>) and the Zynq (\<open>system/generic/zynq7/sys.c\<close>),
  with the page attributes of the board support package (\<open>xil_mmu.c\<close>). The lists of buses and
  devices live in one heap of nodes and are used through the interface of \<open>Metal_List\<close>.

  The operations of a bus are a table of functions, a parameter of the definitions; the program has
  one bus, whose table is \<open>generic_bus_ops\<close>. Strings are null pointers or character lists.
\<close>

section \<open>State\<close>

definition EINVAL_metal :: int where "EINVAL_metal = 22"
definition EEXIST_metal :: int where "EEXIST_metal = 17"
definition ENOENT_metal :: int where "ENOENT_metal = 2"
definition ENODEV_metal :: int where "ENODEV_metal = 19"
definition METAL_MAX_DEVICE_REGIONS :: nat where "METAL_MAX_DEVICE_REGIONS = 32"

text \<open>\<open>Null_node\<close> is the null pointer that \<open>memset\<close> leaves in the heads of the lists.\<close>

datatype metal_node =
    Null_node
  | Bus_list
  | Generic_shmem_list
  | Generic_device_list
  | Bus_node (bus_of: nat)
  | Bus_devices nat
  | Device_node (dev_of: nat)
  | Shmem_node (shmem_of: nat)
  | Shmem_refs nat
  | Ref_node (ref_of: nat)
  | Provider_list
  | Provider_node (provider_of: nat)

record metal_device =
  dev_name :: "string option"
  dev_bus :: "nat option"
  num_regions :: nat
  regions :: "metal_io_region list"

datatype cache_call = Cache_flush u32 u32 | Cache_invalidate u32 u32

record metal_state =
  metal_links :: "metal_node list_heap"
  bus_name :: "nat \<Rightarrow> string option"
  devices :: "nat \<Rightarrow> metal_device"
  mmu_table :: "nat \<Rightarrow> u32"
  cache_calls :: "cache_call list"

record metal_sg =
  sg_virt :: u32
  sg_len :: u32

text \<open>\<open>dev_open\<close> returns an error code and the device; \<open>None\<close> stands for a search that does not
  end.\<close>

record bus_ops =
  bus_close :: "(nat \<Rightarrow> metal_state \<Rightarrow> metal_state) option"
  dev_open :: "(nat \<Rightarrow> string \<Rightarrow> metal_state \<Rightarrow> ((int \<times> nat option) \<times> metal_state) option) option"
  dev_close :: "(nat \<Rightarrow> nat \<Rightarrow> metal_state \<Rightarrow> metal_state) option"
  dev_dma_map :: "(nat \<Rightarrow> nat \<Rightarrow> u32 \<Rightarrow> metal_sg list \<Rightarrow> metal_sg list \<Rightarrow> metal_state \<Rightarrow> (int \<times> metal_sg list) \<times> metal_state) option"
  dev_dma_unmap :: "(nat \<Rightarrow> nat \<Rightarrow> u32 \<Rightarrow> metal_sg list \<Rightarrow> metal_state \<Rightarrow> metal_state) option"

definition named :: "string option \<Rightarrow> bool" where
  "named n \<longleftrightarrow> (case n of None \<Rightarrow> False | Some s \<Rightarrow> s \<noteq> [])"

section \<open>Page attributes\<close>

definition Xil_SetTlbAttributes :: "u32 \<Rightarrow> u32 \<Rightarrow> metal_state \<Rightarrow> metal_state" where
  "Xil_SetTlbAttributes a attrib s =
    s\<lparr>mmu_table := (mmu_table s)(unat (a div 0x100000) := (a AND 0xFFF00000) OR attrib)\<rparr>"

definition ARM_AR_MEM_TTB_SECT_SIZE :: u32 where "ARM_AR_MEM_TTB_SECT_SIZE = 1024 * 1024"

text \<open>The section counter is a 32-bit word, so the loop is a partial function.\<close>

partial_function (option) map_sections :: "u32 \<Rightarrow> u32 \<Rightarrow> u32 \<Rightarrow> u32 \<Rightarrow> metal_state \<Rightarrow> metal_state option" where
  "map_sections pa flags sz section_offset s =
    (if section_offset < sz
     then map_sections pa flags sz (section_offset + ARM_AR_MEM_TTB_SECT_SIZE) (Xil_SetTlbAttributes (pa + section_offset) flags s)
     else Some s)"

definition metal_machine_io_mem_map :: "u32 \<Rightarrow> u32 \<Rightarrow> u32 \<Rightarrow> metal_state \<Rightarrow> metal_state option" where
  "metal_machine_io_mem_map pa sz flags s =
    (if flags = 0 then Some s
     else map_sections (pa AND NOT (ARM_AR_MEM_TTB_SECT_SIZE - 1)) flags sz 0 s)"

text \<open>A shift by 32 or more, which the device tables ask for, yields zero on this processor.\<close>

fun map_pages :: "(u32 \<Rightarrow> u32) \<Rightarrow> u32 \<Rightarrow> u32 \<Rightarrow> nat list \<Rightarrow> metal_state \<Rightarrow> metal_state option" where
  "map_pages pm psize flags [] s = Some s"
| "map_pages pm psize flags (p # ps) s = do {
     s \<leftarrow> metal_machine_io_mem_map (pm (of_nat p)) psize flags s;
     map_pages pm psize flags ps s }"

definition metal_sys_io_mem_map :: "metal_io_region \<Rightarrow> metal_state \<Rightarrow> metal_state option" where
  "metal_sys_io_mem_map io s =
    (let psize = io_size io; pages = drop_bit (unat (page_shift io)) psize
     in if psize = 0 then Some s
        else let psize = (if pages \<noteq> 0 then push_bit (unat (page_shift io)) 1 else psize)
             in case physmap io of
                  None \<Rightarrow> None
                | Some pm \<Rightarrow> map_pages pm psize (mem_flags io) [0..<Suc (unat pages)] s)"

fun open_regions :: "metal_io_region list \<Rightarrow> metal_state \<Rightarrow> metal_state option" where
  "open_regions [] s = Some s"
| "open_regions (io # ios) s =
    (if io_size io = 0 then Some s
     else do { s \<leftarrow> metal_sys_io_mem_map io s; open_regions ios s })"

definition metal_generic_dev_sys_open :: "nat \<Rightarrow> metal_state \<Rightarrow> (int \<times> metal_state) option" where
  "metal_generic_dev_sys_open d s =
    map_option (\<lambda>s. (0, s)) (open_regions (take (num_regions (devices s d)) (regions (devices s d))) s)"

section \<open>Buses\<close>

definition metal_bus_find :: "string \<Rightarrow> metal_state \<Rightarrow> (int \<times> nat option) option" where
  "metal_bus_find name s =
    map_option (\<lambda>r. case r of Some n \<Rightarrow> (0, Some (bus_of n)) | None \<Rightarrow> (- ENOENT_metal, None))
      (metal_list_find (metal_links s) Bus_list (\<lambda>n. bus_name s (bus_of n) = Some name))"

definition metal_bus_register :: "nat option \<Rightarrow> metal_state \<Rightarrow> (int \<times> metal_state) option" where
  "metal_bus_register bus s =
    (case bus of None \<Rightarrow> Some (- EINVAL_metal, s)
     | Some b \<Rightarrow> if \<not> named (bus_name s b) then Some (- EINVAL_metal, s)
        else do {
          (r, _) \<leftarrow> metal_bus_find (the (bus_name s b)) s;
          if r = 0 then Some (- EEXIST_metal, s)
          else Some (0, s\<lparr>metal_links := metal_list_add_tail Bus_list (Bus_node b)
                             (metal_list_init (Bus_devices b) (metal_links s))\<rparr>) })"

definition metal_bus_unregister :: "(nat \<Rightarrow> bus_ops) \<Rightarrow> nat \<Rightarrow> metal_state \<Rightarrow> int \<times> metal_state" where
  "metal_bus_unregister ops b s =
    (let s = s\<lparr>metal_links := metal_list_del (Bus_node b) (metal_links s)\<rparr>
     in (0, case bus_close (ops b) of Some f \<Rightarrow> f b s | None \<Rightarrow> s))"

section \<open>Devices\<close>

definition metal_device_open ::
  "(nat \<Rightarrow> bus_ops) \<Rightarrow> string option \<Rightarrow> string option \<Rightarrow> metal_state \<Rightarrow> ((int \<times> nat option) \<times> metal_state) option" where
  "metal_device_open ops bname dname s =
    (if \<not> named bname \<or> \<not> named dname then Some ((- EINVAL_metal, None), s)
     else do {
       (error, bus) \<leftarrow> metal_bus_find (the bname) s;
       case bus of None \<Rightarrow> Some ((error, None), s)
       | Some b \<Rightarrow> (case dev_open (ops b) of
           None \<Rightarrow> Some ((- ENODEV_metal, None), s)
         | Some f \<Rightarrow> f b (the dname) s) })"

text \<open>A failed assertion does not return.\<close>

definition metal_device_close :: "(nat \<Rightarrow> bus_ops) \<Rightarrow> nat \<Rightarrow> metal_state \<Rightarrow> metal_state option" where
  "metal_device_close ops d s =
    (case dev_bus (devices s d) of None \<Rightarrow> None
     | Some b \<Rightarrow> Some (case dev_close (ops b) of Some f \<Rightarrow> f b d s | None \<Rightarrow> s))"

abbreviation (input) metal_generic_bus :: nat where "metal_generic_bus \<equiv> 0"

definition metal_register_generic_device :: "nat \<Rightarrow> metal_state \<Rightarrow> int \<times> metal_state" where
  "metal_register_generic_device d s =
    (if \<not> named (dev_name (devices s d)) \<or> METAL_MAX_DEVICE_REGIONS < num_regions (devices s d) then (- EINVAL_metal, s)
     else (0, s\<lparr>devices := (devices s)(d := devices s d\<lparr>dev_bus := Some metal_generic_bus\<rparr>),
                metal_links := metal_list_add_tail Generic_device_list (Device_node d) (metal_links s)\<rparr>))"

definition metal_generic_dev_open :: "nat \<Rightarrow> string \<Rightarrow> metal_state \<Rightarrow> ((int \<times> nat option) \<times> metal_state) option" where
  "metal_generic_dev_open b dname s = do {
     r \<leftarrow> metal_list_find (metal_links s) Generic_device_list (\<lambda>n. dev_name (devices s (dev_of n)) = Some dname);
     case r of
       Some n \<Rightarrow> map_option (\<lambda>(e, s). ((e, Some (dev_of n)), s)) (metal_generic_dev_sys_open (dev_of n) s)
     | None \<Rightarrow> Some ((- ENODEV_metal, None), s) }"

definition metal_device_io_region :: "nat \<Rightarrow> nat \<Rightarrow> metal_state \<Rightarrow> metal_io_region option" where
  "metal_device_io_region d index s =
    (if index < num_regions (devices s d) then Some (regions (devices s d) ! index) else None)"

section \<open>DMA\<close>

definition METAL_DMA_DEV_W :: u32 where "METAL_DMA_DEV_W = 2"

definition dma_map_step :: "u32 \<Rightarrow> metal_sg \<Rightarrow> metal_state \<Rightarrow> metal_state" where
  "dma_map_step dir sg s = s\<lparr>cache_calls := cache_calls s @
     (if dir = METAL_DMA_DEV_W then [Cache_flush (sg_virt sg) (sg_len sg)] else []) @ [Cache_invalidate (sg_virt sg) (sg_len sg)]\<rparr>"

text \<open>The result holds the entries copied to the output list.\<close>

definition metal_generic_dev_dma_map ::
  "nat \<Rightarrow> nat \<Rightarrow> u32 \<Rightarrow> metal_sg list \<Rightarrow> metal_sg list \<Rightarrow> metal_state \<Rightarrow> (int \<times> metal_sg list) \<times> metal_state" where
  "metal_generic_dev_dma_map b d dir sg_in sg_out s =
    ((int (length sg_in), sg_in @ drop (length sg_in) sg_out), fold (dma_map_step dir) sg_in s)"

definition metal_generic_dev_dma_unmap :: "nat \<Rightarrow> nat \<Rightarrow> u32 \<Rightarrow> metal_sg list \<Rightarrow> metal_state \<Rightarrow> metal_state" where
  "metal_generic_dev_dma_unmap b d dir sg s =
    fold (\<lambda>g s. s\<lparr>cache_calls := cache_calls s @ [Cache_invalidate (sg_virt g) (sg_len g)]\<rparr>) sg s"

definition metal_dma_map ::
  "(nat \<Rightarrow> bus_ops) \<Rightarrow> nat option \<Rightarrow> u32 \<Rightarrow> metal_sg list option \<Rightarrow> metal_sg list option \<Rightarrow> metal_state \<Rightarrow>
    ((int \<times> metal_sg list) \<times> metal_state) option" where
  "metal_dma_map ops dev dir sg_in sg_out s =
    (case (dev, sg_in, sg_out) of
       (Some d, Some i, Some out) \<Rightarrow> do {
         b \<leftarrow> dev_bus (devices s d);
         Some (case dev_dma_map (ops b) of None \<Rightarrow> ((- ENODEV_metal, out), s) | Some f \<Rightarrow> f b d dir i out s) }
     | _ \<Rightarrow> Some ((- EINVAL_metal, []), s))"

definition metal_dma_unmap ::
  "(nat \<Rightarrow> bus_ops) \<Rightarrow> nat option \<Rightarrow> u32 \<Rightarrow> metal_sg list option \<Rightarrow> metal_state \<Rightarrow> metal_state option" where
  "metal_dma_unmap ops dev dir sg s =
    (case dev of None \<Rightarrow> Some s
     | Some d \<Rightarrow> do {
         b \<leftarrow> dev_bus (devices s d);
         Some (case (dev_dma_unmap (ops b), sg) of (Some f, Some g) \<Rightarrow> f b d dir g s | _ \<Rightarrow> s) })"

section \<open>The system\<close>

definition generic_bus_ops :: "nat \<Rightarrow> bus_ops" where
  "generic_bus_ops b = \<lparr>bus_close = None, dev_open = Some metal_generic_dev_open, dev_close = None,
     dev_dma_map = Some metal_generic_dev_dma_map, dev_dma_unmap = Some metal_generic_dev_dma_unmap\<rparr>"

definition metal_sys_init :: "metal_state \<Rightarrow> (int \<times> metal_state) option" where
  "metal_sys_init s = map_option (\<lambda>(_, s). (0, s)) (metal_bus_register (Some metal_generic_bus) s)"

definition metal_sys_finish :: "metal_state \<Rightarrow> metal_state" where
  "metal_sys_finish s = snd (metal_bus_unregister generic_bus_ops metal_generic_bus s)"

definition metal_init :: "metal_state \<Rightarrow> (int \<times> metal_state) option" where
  "metal_init s = metal_sys_init (s\<lparr>metal_links := metal_list_init Generic_device_list
     (metal_list_init Generic_shmem_list (metal_list_init Bus_list (metal_links s)))\<rparr>)"

definition metal_finish :: "metal_state \<Rightarrow> metal_state" where
  "metal_finish s = (let s = metal_sys_finish s; z = \<lparr>l_next = Null_node, l_prev = Null_node\<rparr>
     in s\<lparr>metal_links := (metal_links s)(Bus_list := z, Generic_shmem_list := z, Generic_device_list := z)\<rparr>)"

section \<open>Sections\<close>

text \<open>The entry of one section of a megabyte.\<close>

definition set_section :: "u32 \<Rightarrow> nat \<Rightarrow> metal_state \<Rightarrow> metal_state" where
  "set_section flags j s = s\<lparr>mmu_table := (mmu_table s)(j := of_nat (j * 2 ^ 20) OR flags)\<rparr>"

lemma unat_of_nat_u32: "n < 2 ^ 32 \<Longrightarrow> unat (of_nat n :: u32) = n"
  by (simp add: unat_of_nat)

lemma sect_size: "ARM_AR_MEM_TTB_SECT_SIZE = 2 ^ 20" "unat ARM_AR_MEM_TTB_SECT_SIZE = 2 ^ 20"
  by (simp_all add: ARM_AR_MEM_TTB_SECT_SIZE_def)

lemma section_mask: "(a :: u32) AND 0xFFF00000 = of_nat (unat a div 2 ^ 20 * 2 ^ 20)"
proof -
  have "(0xFFF00000 :: u32) = NOT (mask 20)" by (simp add: mask_eq_exp_minus_1)
  then have "a AND 0xFFF00000 = push_bit 20 (drop_bit 20 a)"
    by (simp add: bit_eq_iff bit_simps) auto
  also have "push_bit 20 (drop_bit 20 a) = of_nat (unat (drop_bit 20 a)) * 2 ^ 20" by (simp add: push_bit_eq_mult)
  also have "unat (drop_bit 20 a) = unat a div 2 ^ 20" by (simp add: drop_bit_eq_div unat_div_distrib)
  finally show ?thesis by simp
qed

lemma set_tlb_section:
  "Xil_SetTlbAttributes a flags s = set_section flags (unat a div 2 ^ 20) s"
  by (simp add: Xil_SetTlbAttributes_def set_section_def section_mask unat_div_distrib)

lemma map_sections_effect:
  assumes "unat sz \<le> n * 2 ^ 20" and "n * 2 ^ 20 < unat sz + 2 ^ 20" and "p + n \<le> 2 ^ 12" and "n < 2 ^ 12" and "k \<le> n"
  shows "map_sections (of_nat (p * 2 ^ 20)) flags sz (of_nat (k * 2 ^ 20)) s = Some (fold (set_section flags) [p + k..<p + n] s)"
  using assms(5)
proof (induction "n - k" arbitrary: k s)
  case 0
  then have "k = n" by simp
  have "unat (of_nat (n * 2 ^ 20) :: u32) = n * 2 ^ 20" using assms(4) by (intro unat_of_nat_u32) simp
  then have "\<not> of_nat (n * 2 ^ 20) < sz" using assms(1) by (simp add: word_less_nat_alt)
  then show ?case using \<open>k = n\<close> by (subst map_sections.simps) simp
next
  case (Suc x)
  then have k: "k < n" "x = n - Suc k" by simp_all
  have u: "unat (of_nat (k * 2 ^ 20) :: u32) = k * 2 ^ 20" using k assms(4) by (intro unat_of_nat_u32) simp
  have up: "unat (of_nat ((p + k) * 2 ^ 20) :: u32) = (p + k) * 2 ^ 20" using k assms(3) by (intro unat_of_nat_u32) simp
  have "k * 2 ^ 20 + 2 ^ 20 \<le> n * 2 ^ 20" using mult_le_mono1 [of "Suc k" n "2 ^ 20"] k by simp
  then have "k * 2 ^ 20 < unat sz" using assms(2) by linarith
  then have less: "of_nat (k * 2 ^ 20) < sz" using u by (simp add: word_less_nat_alt)
  have addr: "(of_nat (p * 2 ^ 20) :: u32) + of_nat (k * 2 ^ 20) = of_nat ((p + k) * 2 ^ 20)" by (simp add: algebra_simps)
  have "Xil_SetTlbAttributes (of_nat ((p + k) * 2 ^ 20)) flags s = set_section flags (p + k) s"
    by (simp only: set_tlb_section up) simp
  moreover have "(of_nat (k * 2 ^ 20) :: u32) + ARM_AR_MEM_TTB_SECT_SIZE = of_nat (Suc k * 2 ^ 20)" by (simp add: sect_size algebra_simps)
  ultimately have "map_sections (of_nat (p * 2 ^ 20)) flags sz (of_nat (k * 2 ^ 20)) s =
      map_sections (of_nat (p * 2 ^ 20)) flags sz (of_nat (Suc k * 2 ^ 20)) (set_section flags (p + k) s)"
    using less by (subst map_sections.simps) (simp only: if_True addr)
  also have "\<dots> = Some (fold (set_section flags) [p + Suc k..<p + n] (set_section flags (p + k) s))"
    using k(1) by (intro Suc.hyps(1) [of "Suc k"]) (simp_all add: k(2))
  finally show ?case using k by (simp add: upt_rec [of "p + k"])
qed

text \<open>A region of one page inside one section, as the device table of the platform has it.\<close>

definition one_section :: "metal_io_region \<Rightarrow> (u32 \<Rightarrow> u32) \<Rightarrow> bool" where
  "one_section io pm \<longleftrightarrow> physmap io = Some pm \<and> 32 \<le> page_shift io \<and> 0 < unat (io_size io) \<and>
     unat (pm 0) mod 2 ^ 20 + unat (io_size io) \<le> 2 ^ 20"

lemma not_sect: "NOT (ARM_AR_MEM_TTB_SECT_SIZE - 1) = 0xFFF00000"
proof -
  have "(- 1048576 :: u32) = 4293918720" by code_simp
  then show ?thesis by (simp add: sect_size)
qed

lemma one_section_mapped:
  assumes "one_section io pm" and "mem_flags io \<noteq> 0"
  shows "metal_sys_io_mem_map io s = Some (set_section (mem_flags io) (unat (pm 0) div 2 ^ 20) s)"
proof -
  let ?p = "unat (pm 0) div 2 ^ 20"
  have io: "physmap io = Some pm" "32 \<le> unat (page_shift io)" "io_size io \<noteq> 0" "unat (io_size io) \<le> 2 ^ 20"
    using assms(1) by (auto simp: one_section_def word_le_nat_alt)
  have z: "drop_bit (unat (page_shift io)) (io_size io) = 0" using io(2) 
    by (intro bit_word_eqI) (auto simp: bit_simps dest: bit_imp_le_length)
  have "unat (pm 0) < 2 ^ 12 * 2 ^ 20" by (rule less_le_trans [OF unsigned_less]) simp
  then have p: "?p + 1 \<le> 2 ^ 12" using less_mult_imp_div_less [of "unat (pm 0)" "2 ^ 12" "2 ^ 20"] by simp
  have m: "pm 0 AND NOT (ARM_AR_MEM_TTB_SECT_SIZE - 1) = of_nat (?p * 2 ^ 20)"
    using section_mask [of "pm 0"] not_sect by simp
  have "map_sections (of_nat (?p * 2 ^ 20)) (mem_flags io) (io_size io) (of_nat (0 * 2 ^ 20)) s =
      Some (fold (set_section (mem_flags io)) [?p + 0..<?p + 1] s)"
    using io(3,4) p by (intro map_sections_effect) (auto simp: word_unat_eq_iff)
  then show ?thesis
    using io z assms(2) m by (simp add: metal_sys_io_mem_map_def metal_machine_io_mem_map_def Let_def)
qed

text \<open>
  A region that crosses a section boundary is mapped only in part: the physical address is rounded
  down, the size is not rounded up.
\<close>

lemma crossing_region_not_mapped:
  "metal_sys_io_mem_map \<lparr>io_virt = 0x1FF000, physmap = Some (\<lambda>_. 0x1FF000), io_size = 0x2000, page_shift = - 1, page_mask = - 1,
     mem_flags = 1\<rparr> s = Some (set_section 1 1 s)"
proof -
  have "map_sections (of_nat (1 * 2 ^ 20)) 1 0x2000 (of_nat (0 * 2 ^ 20)) s = Some (fold (set_section 1) [1 + 0..<1 + 1] s)"
    by (rule map_sections_effect) simp_all
  moreover have "unat (- 1 :: u32) = 2 ^ 32 - 1" by (simp add: unsigned_minus_1_eq_mask mask_eq_exp_minus_1)
  moreover have "drop_bit (2 ^ 32 - 1) (0x2000 :: u32) = 0"
    by (intro bit_word_eqI) (auto simp: bit_simps dest: bit_imp_le_length)
  ultimately show ?thesis
    by (simp add: metal_sys_io_mem_map_def metal_machine_io_mem_map_def sect_size)
qed

section \<open>The registry\<close>

definition metal_inv :: "metal_state \<Rightarrow> nat list \<Rightarrow> nat list \<Rightarrow> nat list \<Rightarrow> bool" where
  "metal_inv s bs ds ms \<longleftrightarrow>
     list_at (metal_links s) Bus_list (map Bus_node bs) \<and> list_at (metal_links s) Generic_device_list (map Device_node ds) \<and>
     list_at (metal_links s) Generic_shmem_list (map Shmem_node ms) \<and>
     (\<forall>b\<in>set bs. \<forall>c\<in>set bs. bus_name s b = bus_name s c \<longrightarrow> b = c) \<and>
     (\<forall>d\<in>set ds. named (dev_name (devices s d)) \<and> dev_bus (devices s d) = Some metal_generic_bus)"

lemma metal_inv_lists:
  assumes "metal_inv s bs ds ms"
  shows "list_at (metal_links s) Bus_list (map Bus_node bs)" "list_at (metal_links s) Generic_device_list (map Device_node ds)"
    "list_at (metal_links s) Generic_shmem_list (map Shmem_node ms)"
  using assms by (simp_all add: metal_inv_def)

lemma bus_find_registered:
  assumes "metal_inv s bs ds ms" and "b \<in> set bs" and "bus_name s b = Some name"
  shows "metal_bus_find name s = Some (0, Some b)"
proof -
  have "metal_list_find (metal_links s) Bus_list (\<lambda>n. bus_name s (bus_of n) = Some name) = Some (Some (Bus_node b))"
    using assms by (intro ml.search_found [OF metal_inv_lists(1) [OF assms(1)]]) (auto simp: metal_inv_def)
  then show ?thesis by (simp add: metal_bus_find_def)
qed

lemma bus_find_missing:
  assumes "metal_inv s bs ds ms" and "\<forall>b\<in>set bs. bus_name s b \<noteq> Some name"
  shows "metal_bus_find name s = Some (- ENOENT_metal, None)"
  using ml.search_none [OF metal_inv_lists(1) [OF assms(1)], of "\<lambda>n. bus_name s (bus_of n) = Some name"] assms(2)
  by (simp add: metal_bus_find_def)

lemma init_lists:
  assumes "bus_name s metal_generic_bus = Some ''generic''"
  shows "\<exists>s'. metal_init s = Some (0, s') \<and> metal_inv s' [metal_generic_bus] [] [] \<and>
    s' = s\<lparr>metal_links := metal_links s'\<rparr>"
proof -
  define L where "L = metal_list_init Generic_device_list (metal_list_init Generic_shmem_list (metal_list_init Bus_list (metal_links s)))"
  have l: "list_at L Bus_list []" "list_at L Generic_shmem_list []" "list_at L Generic_device_list []"
    unfolding L_def by (simp_all add: ml.rep_init ml.init_other)
  define L' where "L' = metal_list_init (Bus_devices 0) L"
  have l': "list_at L' Bus_list []" "list_at L' Generic_shmem_list []" "list_at L' Generic_device_list []"
    using l ml.init_other [of L _ "[]" "Bus_devices 0"] by (simp_all add: L'_def)
  define M where "M = metal_list_add_tail Bus_list (Bus_node 0) L'"
  have "list_at M Bus_list [Bus_node 0]" using ml.rep_add [OF l'(1), of "Bus_node 0"] by (simp add: M_def)
  moreover have "list_at M Generic_shmem_list []" "list_at M Generic_device_list []"
    using ml.add_other [OF l'(2) l'(1), of "Bus_node 0"] ml.add_other [OF l'(3) l'(1), of "Bus_node 0"] by (simp_all add: M_def)
  ultimately have inv: "metal_inv (s\<lparr>metal_links := M\<rparr>) [0] [] []" by (simp add: metal_inv_def)
  have "metal_inv (s\<lparr>metal_links := L\<rparr>) [] [] []" using l by (simp add: metal_inv_def)
  then have "metal_bus_find ''generic'' (s\<lparr>metal_links := L\<rparr>) = Some (- ENOENT_metal, None)" by (rule bus_find_missing) simp
  then have "metal_bus_register (Some 0) (s\<lparr>metal_links := L\<rparr>) = Some (0, s\<lparr>metal_links := M\<rparr>)"
    using assms by (simp add: metal_bus_register_def named_def ENOENT_metal_def M_def L'_def)
  then have "metal_init s = Some (0, s\<lparr>metal_links := M\<rparr>)" by (simp add: metal_init_def metal_sys_init_def L_def)
  then show ?thesis using inv by auto
qed

lemma register_device:
  assumes "metal_inv s bs ds ms" and "d \<notin> set ds" and "named (dev_name (devices s d))"
    and "num_regions (devices s d) \<le> METAL_MAX_DEVICE_REGIONS"
  shows "\<exists>s'. metal_register_generic_device d s = (0, s') \<and> metal_inv s' bs (ds @ [d]) ms \<and>
    devices s' = (devices s)(d := devices s d\<lparr>dev_bus := Some metal_generic_bus\<rparr>) \<and> bus_name s' = bus_name s \<and> mmu_table s' = mmu_table s"
proof -
  let ?L = "metal_list_add_tail Generic_device_list (Device_node d) (metal_links s)"
  note l = metal_inv_lists [OF assms(1)]
  have "list_at ?L Generic_device_list (map Device_node ds @ [Device_node d])" using assms(2) by (intro ml.rep_add [OF l(2)]) auto
  moreover have "list_at ?L Bus_list (map Bus_node bs)" "list_at ?L Generic_shmem_list (map Shmem_node ms)"
    using assms(2) by (auto intro!: ml.add_other [OF l(1) l(2)] ml.add_other [OF l(3) l(2)])
  ultimately show ?thesis
    using assms by (auto simp: metal_register_generic_device_def metal_inv_def)
qed

lemma generic_open:
  assumes "metal_inv s bs ds ms" and "metal_generic_bus \<in> set bs" and "bus_name s metal_generic_bus = Some ''generic''" and "nm \<noteq> []"
  shows "metal_device_open generic_bus_ops (Some ''generic'') (Some nm) s = metal_generic_dev_open metal_generic_bus nm s"
  using bus_find_registered [OF assms(1-3)] assms(4) by (simp add: metal_device_open_def named_def generic_bus_ops_def)

lemma generic_open_missing:
  assumes "metal_inv s bs ds ms" and "\<forall>d\<in>set ds. dev_name (devices s d) \<noteq> Some nm"
  shows "metal_generic_dev_open b nm s = Some ((- ENODEV_metal, None), s)"
  using ml.search_none [OF metal_inv_lists(2) [OF assms(1)], of "\<lambda>n. dev_name (devices s (dev_of n)) = Some nm"] assms(2)
  by (simp add: metal_generic_dev_open_def)

lemma generic_open_found:
  assumes "metal_inv s bs ds ms" and "d \<in> set ds" and "dev_name (devices s d) = Some nm"
    and "\<forall>c\<in>set ds. dev_name (devices s c) = Some nm \<longrightarrow> c = d"
    and "take (num_regions (devices s d)) (regions (devices s d)) = [io]" and "one_section io pm" and "mem_flags io \<noteq> 0"
  shows "metal_generic_dev_open b nm s = Some ((0, Some d), set_section (mem_flags io) (unat (pm 0) div 2 ^ 20) s)"
proof -
  have "metal_list_find (metal_links s) Generic_device_list (\<lambda>n. dev_name (devices s (dev_of n)) = Some nm) = Some (Some (Device_node d))"
  proof (rule ml.search_found [OF metal_inv_lists(2) [OF assms(1)]])
    fix y assume "y \<in> set (map Device_node ds)" and n: "dev_name (devices s (dev_of y)) = Some nm"
    then obtain c where c: "y = Device_node c" "c \<in> set ds" by auto
    then have "c = d" using assms(4) n by (simp only: metal_node.sel)
    then show "y = Device_node d" using c by simp
  qed (use assms(2,3) in simp_all)
  moreover have "io_size io \<noteq> 0" using assms(6) by (auto simp: one_section_def)
  ultimately show ?thesis
    using one_section_mapped [OF assms(6,7), of s] assms(5)
    by (simp add: metal_generic_dev_open_def metal_generic_dev_sys_open_def)
qed


definition SCUGIC_DIST_BASE :: u32 where "SCUGIC_DIST_BASE = 0xF8F01000"
definition DEVICE_MEMORY :: u32 where "DEVICE_MEMORY = 0xC06"

definition scugic_device :: metal_device where
  "scugic_device = \<lparr>dev_name = Some ''scugic_dev'', dev_bus = None, num_regions = 1,
     regions = [\<lparr>io_virt = SCUGIC_DIST_BASE, physmap = Some (\<lambda>_. SCUGIC_DIST_BASE), io_size = 0x1000, page_shift = - 1,
       page_mask = - 1, mem_flags = DEVICE_MEMORY\<rparr>]\<rparr>"

lemma scugic_section:
  "one_section \<lparr>io_virt = SCUGIC_DIST_BASE, physmap = Some (\<lambda>_. SCUGIC_DIST_BASE), io_size = 0x1000, page_shift = - 1,
       page_mask = - 1, mem_flags = DEVICE_MEMORY\<rparr> (\<lambda>_. SCUGIC_DIST_BASE)"
  by (simp add: one_section_def SCUGIC_DIST_BASE_def word_le_nat_alt unsigned_minus_1_eq_mask mask_eq_exp_minus_1)

definition metal_demo :: metal_state where
  "metal_demo = \<lparr>metal_links = (\<lambda>_. \<lparr>l_next = Null_node, l_prev = Null_node\<rparr>), bus_name = (\<lambda>_. Some ''generic''),
     devices = (\<lambda>_. scugic_device), mmu_table = (\<lambda>_. 0), cache_calls = []\<rparr>"


text \<open>Registering a device twice breaks the list: opening a device that is not there never returns.\<close>

lemma register_twice_hangs:
  assumes "metal_inv s bs (ds @ [d]) ms" and "named (dev_name (devices s d))" and "num_regions (devices s d) \<le> METAL_MAX_DEVICE_REGIONS"
    and "metal_register_generic_device d s = (r, s')" and "\<forall>c\<in>set (ds @ [d]). dev_name (devices s c) \<noteq> Some nm"
  shows "r = 0 \<and> metal_generic_dev_open b nm s' = None"
proof -
  have s': "r = 0" "s' = s\<lparr>devices := (devices s)(d := devices s d\<lparr>dev_bus := Some metal_generic_bus\<rparr>),
      metal_links := metal_list_add_tail Generic_device_list (Device_node d) (metal_links s)\<rparr>"
    using assms(2-4) by (auto simp: metal_register_generic_device_def)
  have "metal_list_find (metal_list_add_tail Generic_device_list (Device_node d) (metal_links s)) Generic_device_list
      (\<lambda>n. dev_name (devices s' (dev_of n)) = Some nm) = None"
    using metal_inv_lists(2) [OF assms(1)] assms(5) by (intro add_twice_diverges [where ys = "map Device_node ds"]) (auto simp: s')
  then show ?thesis using s' by (simp add: metal_generic_dev_open_def)
qed

end
