(* ===== verification/Platform_System.thy ===== *)
theory Platform_System
  imports Metal_Irq Metal_Device Openamp_Platform
begin

text \<open>
  Start of the platform as one system: \<open>openamp/helper.c\<close> over the interrupt controller driver and
  libmetal, and \<open>platform_init\<close> and \<open>platform_cleanup\<close> (\<open>openamp/platform_info.c\<close>) with every call
  they make. It joins the interrupt registry, the device registry and the remote processor, and ends
  with the path of a notification from the interrupt to the flag that the polling loop tests.
\<close>

section \<open>State\<close>

text \<open>The handlers and arguments that the driver's table can hold at this stage.\<close>

datatype gic_fn = Stub_fn | Metal_isr_fn
datatype gic_arg = Gic_instance | Vector u32

text \<open>\<open>exc_irq\<close> tells whether the IRQ exception is served by the driver's interrupt handler. The
  remote processor is part of what an interrupt handler may change.\<close>

record sys_hw = "(gic_fn, gic_arg) metal_hw" +
  exc_irq :: bool
  caches_on :: bool
  hw_rproc :: remoteproc

record system =
  sys_irq :: "(unit, sys_hw) irq_state"
  sys_metal :: metal_state

definition XIL_EXCEPTION_IRQ :: u32 where "XIL_EXCEPTION_IRQ = 0x80"

definition Xil_ExceptionDisable :: "('h, 'u, 'z) cpu1_scheme \<Rightarrow> ('h, 'u, 'z) cpu1_scheme" where
  "Xil_ExceptionDisable e = e\<lparr>cpsr := cpsr e OR (XIL_EXCEPTION_IRQ AND XIL_EXCEPTION_ALL)\<rparr>"

definition Xil_ExceptionEnable :: "('h, 'u, 'z) cpu1_scheme \<Rightarrow> ('h, 'u, 'z) cpu1_scheme" where
  "Xil_ExceptionEnable e = e\<lparr>cpsr := cpsr e AND NOT (XIL_EXCEPTION_IRQ AND XIL_EXCEPTION_ALL)\<rparr>"

definition Xil_ExceptionRegisterHandler :: "sys_hw \<Rightarrow> sys_hw" where
  "Xil_ExceptionRegisterHandler e = e\<lparr>exc_irq := True\<rparr>"

section \<open>\<open>helper.c\<close>\<close>

definition XST_FAILURE :: int where "XST_FAILURE = 1"

definition app_gic_initialize :: "bool \<Rightarrow> sys_hw \<Rightarrow> (int \<times> sys_hw) option" where
  "app_gic_initialize dual_core e =
    (let e = Xil_ExceptionDisable e
     in case XScuGic_LookupConfig 0 of
          None \<Rightarrow> Some (XST_FAILURE, e)
        | Some _ \<Rightarrow> do {
            (Status, e) \<leftarrow> XScuGic_CfgInitialize True dual_core Stub_fn Gic_instance e;
            if Status \<noteq> XST_SUCCESS then Some (XST_FAILURE, e)
            else do {
              let e = Xil_ExceptionRegisterHandler e;
              e \<leftarrow> XScuGic_Disable SGI_NOTIFICATION e;
              let e = Xil_ExceptionEnable e;
              e \<leftarrow> XScuGic_Connect SGI_NOTIFICATION (Some Metal_isr_fn) (Vector SGI_NOTIFICATION) e;
              Some (0, e) } })"

definition init_system :: "bool \<Rightarrow> system \<Rightarrow> (int \<times> system) option" where
  "init_system dual_core s = do {
     (_, m) \<leftarrow> metal_init (sys_metal s);
     (_, e) \<leftarrow> app_gic_initialize dual_core (irq_env (sys_irq s));
     (ret, q) \<leftarrow> metal_xlnx_irq_init (sys_irq s\<lparr>irq_env := e\<rparr>);
     Some (ret, s\<lparr>sys_metal := m, sys_irq := q\<rparr>) }"

definition cleanup_system :: "system \<Rightarrow> system" where
  "cleanup_system s = s\<lparr>sys_metal := metal_finish (sys_metal s),
     sys_irq := sys_irq s\<lparr>irq_env := irq_env (sys_irq s)\<lparr>caches_on := False\<rparr>\<rparr>\<rparr>"

section \<open>\<open>platform_info.c\<close>\<close>

definition on_rproc :: "(remoteproc \<Rightarrow> remoteproc) \<Rightarrow> sys_hw \<Rightarrow> sys_hw" where
  "on_rproc f e = e\<lparr>hw_rproc := f (hw_rproc e)\<rparr>"

definition METAL_IRQ_HANDLED :: int where "METAL_IRQ_HANDLED = 1"

text \<open>The notification handler as libmetal calls it, with the processor as its argument.\<close>

definition proc_irq_handler :: "(unit, sys_hw) metal_irq_handler" where
  "proc_irq_handler vect_id data e =
    (case data of None \<Rightarrow> (METAL_IRQ_NOT_HANDLED, e) | Some _ \<Rightarrow> (METAL_IRQ_HANDLED, on_rproc zynq_a9_proc_irq_handler e))"

text \<open>What \<open>zynq_a9_proc_init\<close> asks of libmetal: the device, its region, and, when both are there,
  the notification interrupt.\<close>

definition proc_init_calls :: "system \<Rightarrow> ((bool \<times> bool) \<times> system) option" where
  "proc_init_calls s = do {
     ((ret, dev), m) \<leftarrow> metal_device_open generic_bus_ops (Some ''generic'') (Some ''scugic_dev'') (sys_metal s);
     let s = s\<lparr>sys_metal := m\<rparr>;
     let io = (case dev of Some d \<Rightarrow> metal_device_io_region d 0 m | None \<Rightarrow> None);
     let irq_vect = irq_notification (hw_rproc (irq_env (sys_irq s)));
     if ret \<noteq> 0 \<or> io = None then Some ((ret = 0, io \<noteq> None), s)
     else do {
       (_, q) \<leftarrow> metal_irq_register (sint irq_vect) (Some proc_irq_handler) (Some ()) (sys_irq s);
       q \<leftarrow> metal_irq_enable irq_vect q;
       Some ((True, True), s\<lparr>sys_irq := q\<rparr>) } }"

definition sys_platform_init :: "bool \<Rightarrow> u32 \<Rightarrow> system \<Rightarrow> (int \<times> system) option" where
  "sys_platform_init dual_core table s = do {
     (_, s) \<leftarrow> init_system dual_core s;
     let s = s\<lparr>sys_metal := snd (metal_register_generic_device 0 (sys_metal s))\<rparr>;
     ((dev_found, io_found), s) \<leftarrow> proc_init_calls s;
     (ret, rp) \<leftarrow> platform_init dev_found io_found table (hw_rproc (irq_env (sys_irq s)));
     Some (ret, s\<lparr>sys_irq := sys_irq s\<lparr>irq_env := irq_env (sys_irq s)\<lparr>hw_rproc := rp\<rparr>\<rparr>\<rparr>) }"

definition sys_platform_cleanup :: "bool \<Rightarrow> system \<Rightarrow> system option" where
  "sys_platform_cleanup created s =
    (if created \<and> rproc_state (hw_rproc (irq_env (sys_irq s))) = RPROC_OFFLINE then do {
       let i = irq_to_notify (hw_rproc (irq_env (sys_irq s)));
       q \<leftarrow> metal_irq_disable i (sys_irq s);
       q \<leftarrow> metal_irq_unregister (sint i) q;
       Some (cleanup_system (s\<lparr>sys_irq := q\<lparr>irq_env := on_rproc platform_cleanup (irq_env q)\<rparr>\<rparr>)) }
     else Some (cleanup_system s))"

section \<open>Interrupts\<close>

text \<open>Serving an interrupt through the driver's handler table.\<close>

definition serve_irq :: "u32 \<Rightarrow> system \<Rightarrow> system" where
  "serve_irq i s =
    (case HandlerTable (irq_env (sys_irq s)) ! unat i of
       (Some Metal_isr_fn, Vector v) \<Rightarrow> s\<lparr>sys_irq := metal_xlnx_irq_isr v (sys_irq s)\<rparr>
     | (Some Stub_fn, _) \<Rightarrow> s\<lparr>sys_irq := sys_irq s\<lparr>irq_env := XScuGic_StubHandler (irq_env (sys_irq s))\<rparr>\<rparr>
     | _ \<Rightarrow> s)"

text \<open>The state of the hardware when the program starts: the other core runs and owns shared
  interrupts, the driver is fresh, and the processor is in a mode of its own (bit 4 of the status
  register is set in every mode).\<close>

definition hw_start :: "sys_hw \<Rightarrow> bool" where
  "hw_start e \<longleftrightarrow> \<not> gic_ready e \<and> bit (cpsr e) 4 \<and> CpuId e = 1 \<and> length (HandlerTable e) = 95 \<and>
     dist e XSCUGIC_DIST_EN_OFFSET AND XSCUGIC_EN_INT_MASK \<noteq> 0 \<and>
     (\<exists>i\<in>set (int_ids 32 4). dist e (XSCUGIC_SPI_TARGET_OFFSET_CALC i) \<notin> {0, cpu1_only}) \<and>
     irq_notification (hw_rproc e) = SGI_NOTIFICATION \<and> irq_to_notify (hw_rproc e) = SGI_TO_NOTIFY"

lemma sgi_small: "SGI_NOTIFICATION < XSCUGIC_MAX_NUM_INTR_INPUTS" "SGI_TO_NOTIFY < XSCUGIC_MAX_NUM_INTR_INPUTS"
  by (simp_all add: SGI_NOTIFICATION_def SGI_TO_NOTIFY_def XSCUGIC_MAX_NUM_INTR_INPUTS_def)

section \<open>Correctness\<close>

lemma gic_enabled_ext: "dist x = dist y \<Longrightarrow> gic_enabled x i = gic_enabled y i"
  by (simp add: gic_enabled_def)

lemma gic_more_rproc: "gic.more x = gic.more y \<Longrightarrow> hw_rproc x = hw_rproc y" for x y :: sys_hw
  by (cases x, cases y) simp

lemma app_gic_initialize_ok:
  assumes "hw_start e"
  obtains e' where "app_gic_initialize True e = Some (0, e')" and "gic_ready e'" and "exc_irq e'"
    and "HandlerTable e' ! 14 = (Some Metal_isr_fn, Vector 14)" and "length (HandlerTable e') = 95"
    and "\<not> bit (cpsr e') 7" and "bit (cpsr e') 4" and "hw_rproc e' = hw_rproc e"
proof -
  let ?e0 = "Xil_ExceptionDisable e"
  obtain i where i: "i \<in> set (int_ids 32 4)" "dist e (XSCUGIC_SPI_TARGET_OFFSET_CALC i) \<notin> {0, cpu1_only}"
    using assms by (auto simp: hw_start_def)
  have pre: "\<not> gic_ready ?e0" "CpuId ?e0 = 1" "dist ?e0 XSCUGIC_DIST_EN_OFFSET AND XSCUGIC_EN_INT_MASK \<noteq> 0"
    "dist ?e0 (XSCUGIC_SPI_TARGET_OFFSET_CALC i) \<notin> {0, cpu1_only}"
    using assms i(2) by (simp_all add: hw_start_def Xil_ExceptionDisable_def)
  obtain e1 where e1: "XScuGic_CfgInitialize True True Stub_fn Gic_instance ?e0 = Some (XST_SUCCESS, e1)" "gic_ready e1"
      "HandlerTable e1 = map (\<lambda>(h, _). (Some (case h of None \<Rightarrow> Stub_fn | Some f \<Rightarrow> f), Gic_instance)) (HandlerTable ?e0)" "gic.more e1 = gic.more ?e0" "cpsr e1 = cpsr ?e0"
    using gic_init_effect [OF pre(1-3) i(1) pre(4), of Stub_fn Gic_instance] by blast
  have rp: "hw_rproc e1 = hw_rproc e" using gic_more_rproc [OF e1(4)] by (simp add: Xil_ExceptionDisable_def)
  let ?e1 = "Xil_ExceptionRegisterHandler e1"
  have r1: "gic_ready ?e1" using e1(2) by (simp add: Xil_ExceptionRegisterHandler_def)
  obtain e2 where e2: "XScuGic_Disable SGI_NOTIFICATION ?e1 = Some e2" "e2 = ?e1\<lparr>dist := dist e2\<rparr>"
    by (rule gic_enabled_after_disable [OF sgi_small(1) r1, unfolded INTERRUPT_Disable_def])
  have f2: "gic_ready e2" "HandlerTable e2 = HandlerTable e1" "hw_rproc e2 = hw_rproc e" "exc_irq e2" "cpsr e2 = cpsr ?e0"
    using e1(2,5) rp by (subst e2(2), simp add: Xil_ExceptionRegisterHandler_def)+
  let ?e3 = "Xil_ExceptionEnable e2"
  define e' where "e' = ?e3\<lparr>HandlerTable := (HandlerTable ?e3)[14 := (Some Metal_isr_fn, Vector 14)]\<rparr>"
  have "XScuGic_Connect SGI_NOTIFICATION (Some Metal_isr_fn) (Vector SGI_NOTIFICATION) ?e3 = Some e'"
    using f2(1) sgi_small(1) by (simp add: XScuGic_Connect_def Xil_ExceptionEnable_def e'_def) (simp add: SGI_NOTIFICATION_def)
  then have "app_gic_initialize True e = Some (0, e')"
    using e1(1) e2(1) by (simp add: app_gic_initialize_def XScuGic_LookupConfig_def Let_def)
  moreover have len: "length (HandlerTable e1) = 95" using assms by (simp add: e1(3) hw_start_def Xil_ExceptionDisable_def)
  moreover have "\<not> bit (cpsr e') 7"
    by (simp add: e'_def Xil_ExceptionEnable_def XIL_EXCEPTION_IRQ_def XIL_EXCEPTION_ALL_def bit_simps)
  moreover have "bit (cpsr e') 4"
    using f2(5) assms by (simp add: e'_def hw_start_def Xil_ExceptionEnable_def Xil_ExceptionDisable_def XIL_EXCEPTION_IRQ_def XIL_EXCEPTION_ALL_def bit_simps)
  ultimately show thesis
    using f2 by (intro that [of e']) (simp_all add: e'_def Xil_ExceptionEnable_def)
qed

lemma xlnx_registered:
  assumes "irq_inv s []" and "irq_ctl s 0 = xlnx_irq_cntr"
  shows "\<exists>s'. metal_xlnx_irq_init s = Some (0, s') \<and> zynq_irqs s' [0] (replicate MAX_IRQS no_irq) \<and> irq_env s' = irq_env s"
proof -
  define s' where "s' = s\<lparr>irq_ctl := (irq_ctl s)(0 := xlnx_irq_cntr\<lparr>irq_base := 0\<rparr>),
      irq_links := metal_list_add_tail Irq_cntrs (Cntr 0) (irq_links s)\<rparr>"
  have "metal_irq_register_controller (Some 0) s = Some (0, s')"
    using register_new [OF assms(1), of 0] by (simp add: assms(2) s'_def METAL_IRQ_ANY_def xlnx_irq_cntr_def MAX_IRQS_def)
  moreover have "irq_inv s' [0]"
    using irq_inv_added [OF assms(1), of 0 0]
    by (simp add: assms(2) s'_def) (simp add: xlnx_irq_cntr_def irq_range_ok_def MAX_IRQS_def INT_MAX_def)
  ultimately show ?thesis
    by (simp add: metal_xlnx_irq_init_def zynq_irqs_def) (simp add: s'_def xlnx_irq_cntr_def)
qed

definition metal_start :: "metal_state \<Rightarrow> bool" where
  "metal_start m \<longleftrightarrow> bus_name m metal_generic_bus = Some ''generic'' \<and> devices m 0 = scugic_device"

definition sys_start :: "system \<Rightarrow> bool" where
  "sys_start s \<longleftrightarrow> irq_inv (sys_irq s) [] \<and> irq_ctl (sys_irq s) 0 = xlnx_irq_cntr \<and> hw_start (irq_env (sys_irq s)) \<and>
     metal_start (sys_metal s)"

lemma init_system_ok:
  assumes "sys_start s"
  obtains s' where "init_system True s = Some (0, s')" and "metal_inv (sys_metal s') [0] [] []" and "metal_start (sys_metal s')"
    and "zynq_irqs (sys_irq s') [0] (replicate MAX_IRQS no_irq)"
    and "gic_ready (irq_env (sys_irq s'))" and "exc_irq (irq_env (sys_irq s'))" and "\<not> bit (cpsr (irq_env (sys_irq s'))) 7"
    and "HandlerTable (irq_env (sys_irq s')) ! 14 = (Some Metal_isr_fn, Vector 14)"
    and "length (HandlerTable (irq_env (sys_irq s'))) = 95" and "bit (cpsr (irq_env (sys_irq s'))) 4"
    and "hw_rproc (irq_env (sys_irq s')) = hw_rproc (irq_env (sys_irq s))"
proof -
  have hw: "hw_start (irq_env (sys_irq s))" using assms by (simp add: sys_start_def)
  obtain m where m: "metal_init (sys_metal s) = Some (0, m)" "metal_inv m [0] [] []" "m = sys_metal s\<lparr>metal_links := metal_links m\<rparr>"
    using init_lists [of "sys_metal s"] assms by (auto simp: sys_start_def metal_start_def)
  have ms: "metal_start m" using assms by (subst m(3)) (simp add: sys_start_def metal_start_def)
  obtain e where e: "app_gic_initialize True (irq_env (sys_irq s)) = Some (0, e)" "gic_ready e" "exc_irq e" "\<not> bit (cpsr e) 7"
      "HandlerTable e ! 14 = (Some Metal_isr_fn, Vector 14)" "hw_rproc e = hw_rproc (irq_env (sys_irq s))"
      "length (HandlerTable e) = 95" "bit (cpsr e) 4"
    by (rule app_gic_initialize_ok [OF hw])
  obtain q where q: "metal_xlnx_irq_init (sys_irq s\<lparr>irq_env := e\<rparr>) = Some (0, q)" "zynq_irqs q [0] (replicate MAX_IRQS no_irq)"
      "irq_env q = e"
    using xlnx_registered [of "sys_irq s\<lparr>irq_env := e\<rparr>"] assms by (auto simp: sys_start_def irq_inv_env)
  show thesis
    by (rule that [of "s\<lparr>sys_metal := m, sys_irq := q\<rparr>"]) (use m ms e q in \<open>simp_all add: init_system_def\<close>)
qed

lemma scugic_opens:
  assumes "metal_inv m [0] [] []" and "metal_start m"
  obtains m' where "metal_register_generic_device 0 m = (0, m')"
    and "metal_device_open generic_bus_ops (Some ''generic'') (Some ''scugic_dev'') m' =
      Some ((0, Some 0), set_section DEVICE_MEMORY 0xF8F m')"
    and "metal_device_io_region 0 0 (set_section DEVICE_MEMORY 0xF8F m') \<noteq> None" and "metal_inv m' [0] [0] []"
    and "mmu_table m' = mmu_table m"
proof -
  have d: "devices m 0 = scugic_device" "bus_name m 0 = Some ''generic''" using assms(2) by (simp_all add: metal_start_def)
  obtain m' where m': "metal_register_generic_device 0 m = (0, m')" "metal_inv m' [0] [0] []"
      "devices m' = (devices m)(0 := devices m 0\<lparr>dev_bus := Some 0\<rparr>)" "bus_name m' = bus_name m" "mmu_table m' = mmu_table m"
    using register_device [OF assms(1), of 0] d(1) by (auto simp: scugic_device_def named_def METAL_MAX_DEVICE_REGIONS_def)
  have "metal_generic_dev_open 0 ''scugic_dev'' m' = Some ((0, Some 0), set_section DEVICE_MEMORY 0xF8F m')"
    using generic_open_found [OF m'(2), of 0 "''scugic_dev''", OF _ _ _ _ scugic_section, of "0"]
    by (simp add: m'(3) d(1)) (simp add: scugic_device_def DEVICE_MEMORY_def SCUGIC_DIST_BASE_def)
  moreover have "metal_device_open generic_bus_ops (Some ''generic'') (Some ''scugic_dev'') m' = metal_generic_dev_open 0 ''scugic_dev'' m'"
    by (rule generic_open [OF m'(2)]) (simp_all add: m'(4) d(2))
  moreover have "metal_device_io_region 0 0 (set_section DEVICE_MEMORY 0xF8F m') \<noteq> None"
    by (simp add: metal_device_io_region_def set_section_def m'(3) d(1)) (simp add: scugic_device_def)
  ultimately show thesis using m' by (intro that [of m']) simp_all
qed

lemma platform_started:
  assumes "sys_start s" and "rp = hw_rproc (irq_env (sys_irq s))"
    and "cpu1_table (rproc_mem rp) (unat R)" and "unat R + 116 \<le> 2 ^ 32" and "R \<noteq> 0"
  obtains s' where "sys_platform_init True R s = Some (0, s')" and "hw_rproc (irq_env (sys_irq s')) = cpu1_rproc R rp"
    and "mmu_table (sys_metal s') 0xF8F = 0xF8F00C06" and "\<not> bit (cpsr (irq_env (sys_irq s'))) 7" and "exc_irq (irq_env (sys_irq s'))"
    and "gic_enabled (irq_env (sys_irq s')) SGI_NOTIFICATION"
    and "hw_rproc (irq_env (sys_irq (serve_irq SGI_NOTIFICATION s'))) = (cpu1_rproc R rp)\<lparr>nokick := False\<rparr>"
    and "zynq_irqs (sys_irq s') [0] ((replicate MAX_IRQS no_irq)[unat SGI_NOTIFICATION := \<lparr>irq_hd = Some proc_irq_handler, irq_arg = Some ()\<rparr>])"
    and "gic_ready (irq_env (sys_irq s'))" and "length (HandlerTable (irq_env (sys_irq s'))) = 95" and "bit (cpsr (irq_env (sys_irq s'))) 4"
proof -
  obtain s1 where s1: "init_system True s = Some (0, s1)" "metal_inv (sys_metal s1) [0] [] []" "metal_start (sys_metal s1)"
      "zynq_irqs (sys_irq s1) [0] (replicate MAX_IRQS no_irq)" "gic_ready (irq_env (sys_irq s1))" "exc_irq (irq_env (sys_irq s1))"
      "\<not> bit (cpsr (irq_env (sys_irq s1))) 7" "HandlerTable (irq_env (sys_irq s1)) ! 14 = (Some Metal_isr_fn, Vector 14)"
      "length (HandlerTable (irq_env (sys_irq s1))) = 95" "bit (cpsr (irq_env (sys_irq s1))) 4"
      "hw_rproc (irq_env (sys_irq s1)) = rp"
    unfolding assms(2) by (rule init_system_ok [OF assms(1)])
  obtain m where m: "metal_register_generic_device 0 (sys_metal s1) = (0, m)"
      "metal_device_open generic_bus_ops (Some ''generic'') (Some ''scugic_dev'') m = Some ((0, Some 0), set_section DEVICE_MEMORY 0xF8F m)"
      "metal_device_io_region 0 0 (set_section DEVICE_MEMORY 0xF8F m) \<noteq> None"
    by (rule scugic_opens [OF s1(2,3)])
  have rp: "irq_notification rp = SGI_NOTIFICATION" using assms(1,2) by (simp add: sys_start_def hw_start_def)
  let ?h = "\<lparr>irq_hd = Some proc_irq_handler, irq_arg = Some ()\<rparr>" and ?tab = "replicate MAX_IRQS no_irq :: (unit, sys_hw) metal_irq list"
  obtain q1 where q1: "metal_irq_register (sint SGI_NOTIFICATION) (Some proc_irq_handler) (Some ()) (sys_irq s1) = Some (0, q1)"
      "zynq_irqs q1 [0] (?tab[unat SGI_NOTIFICATION := ?h])" "irq_env q1 = irq_env (sys_irq s1)"
    using zynq_register [OF s1(4) sgi_small(1), of "Some proc_irq_handler" "Some ()"] by blast
  define e2 where "e2 = sys_irq_enable SGI_NOTIFICATION (irq_env (sys_irq s1))"
  have q2: "metal_irq_enable SGI_NOTIFICATION q1 = Some (q1\<lparr>irq_env := e2\<rparr>)"
    using zynq_enable(1) [OF q1(2) sgi_small(1)] q1(3) by (simp add: e2_def)
  have f2: "hw_rproc e2 = rp" "cpsr e2 = cpsr (irq_env (sys_irq s1))" "exc_irq e2" "HandlerTable e2 ! 14 = (Some Metal_isr_fn, Vector 14)"
    "gic_ready e2" "length (HandlerTable e2) = 95"
    using s1(5,6,8,9,11) by (simp_all add: e2_def sys_irq_enable_def DistWriteReg_enable [OF sgi_small(1)])
  let ?s' = "s1\<lparr>sys_metal := set_section DEVICE_MEMORY 0xF8F m, sys_irq := q1\<lparr>irq_env := e2\<lparr>hw_rproc := cpu1_rproc R rp\<rparr>\<rparr>\<rparr>"
  have calls: "proc_init_calls (s1\<lparr>sys_metal := m\<rparr>) =
      Some ((True, True), s1\<lparr>sys_metal := set_section DEVICE_MEMORY 0xF8F m, sys_irq := q1\<lparr>irq_env := e2\<rparr>\<rparr>)"
    using m(2,3) q1(1) q2 rp s1(11) by (simp add: proc_init_calls_def Let_def)
  have "platform_init True True R rp = Some (0, cpu1_rproc R rp)"
    using create_cpu1 [OF assms(3-5)] by (simp add: platform_init_def)
  then have run: "sys_platform_init True R s = Some (0, ?s')"
    using s1(1) m(1) calls f2(1) by (simp add: sys_platform_init_def Let_def)
  have z: "zynq_irqs (sys_irq ?s') [0] (?tab[unat SGI_NOTIFICATION := ?h])"
    using q1(2) by (simp add: zynq_irqs_def irq_inv_env)
  have served: "hw_rproc (irq_env (sys_irq (serve_irq SGI_NOTIFICATION ?s'))) = (cpu1_rproc R rp)\<lparr>nokick := False\<rparr>"
    using zynq_isr [OF z sgi_small(1)] f2(4)
    by (simp add: serve_irq_def SGI_NOTIFICATION_def MAX_IRQS_def metal_irq_handle_def proc_irq_handler_def on_rproc_def
        zynq_a9_proc_irq_handler_def)
  have en: "gic_enabled e2 SGI_NOTIFICATION"
    using sys_irq_enable_effect(1) [OF sgi_small(1) sgi_small(1)] by (simp add: e2_def)
  have mmu: "mmu_table (sys_metal ?s') 0xF8F = 0xF8F00C06" by (simp add: set_section_def DEVICE_MEMORY_def)
  have env: "irq_env (sys_irq ?s') = e2\<lparr>hw_rproc := cpu1_rproc R rp\<rparr>" by simp
  show thesis
  proof (rule that)
    show "sys_platform_init True R s = Some (0, ?s')" by (rule run)
    show "mmu_table (sys_metal ?s') 0xF8F = 0xF8F00C06" by (rule mmu)
    show "\<not> bit (cpsr (irq_env (sys_irq ?s'))) 7" "bit (cpsr (irq_env (sys_irq ?s'))) 4" using f2(2) s1(7,10) by (simp_all add: env)
    show "gic_enabled (irq_env (sys_irq ?s')) SGI_NOTIFICATION" using en by (simp add: env gic_enabled_def)
    show "exc_irq (irq_env (sys_irq ?s'))" "gic_ready (irq_env (sys_irq ?s'))" "length (HandlerTable (irq_env (sys_irq ?s'))) = 95"
      using f2 by (simp_all add: env)
  qed (use served z env in simp_all)
qed

text \<open>
  C27: start of the whole platform and the path of a notification. On a fresh driver
  beside a running system, with the resource table of CPU1 in memory, initialisation succeeds:
  the interrupt controller of the processor is registered, the GIC device is found and its page
  mapped as device memory, the processor is created, IRQs are unmasked and the notification
  interrupt is enabled. When that interrupt is served, the handler of the processor runs and the next
  non-blocking poll reports a notification; without it the poll reports none.
\<close>

theorem platform_boot:
  assumes "sys_start s" and "rp = hw_rproc (irq_env (sys_irq s))"
    and "cpu1_table (rproc_mem rp) (unat R)" and "unat R + 116 \<le> 2 ^ 32" and "R \<noteq> 0"
  shows "\<exists>s'. sys_platform_init True R s = Some (0, s') \<and> hw_rproc (irq_env (sys_irq s')) = cpu1_rproc R rp \<and>
    mmu_table (sys_metal s') 0xF8F = 0xF8F00C06 \<and>
    \<not> bit (cpsr (irq_env (sys_irq s'))) 7 \<and> exc_irq (irq_env (sys_irq s')) \<and> gic_enabled (irq_env (sys_irq s')) SGI_NOTIFICATION \<and>
    fst (fst (platform_poll_noblock (hw_rproc (irq_env (sys_irq s'))))) = 0 \<and>
    fst (fst (platform_poll_noblock (hw_rproc (irq_env (sys_irq (serve_irq SGI_NOTIFICATION s')))))) = 1"
proof -
  obtain s' where s': "sys_platform_init True R s = Some (0, s')" "hw_rproc (irq_env (sys_irq s')) = cpu1_rproc R rp"
      "mmu_table (sys_metal s') 0xF8F = 0xF8F00C06" "\<not> bit (cpsr (irq_env (sys_irq s'))) 7" "exc_irq (irq_env (sys_irq s'))"
      "gic_enabled (irq_env (sys_irq s')) SGI_NOTIFICATION"
      "hw_rproc (irq_env (sys_irq (serve_irq SGI_NOTIFICATION s'))) = (cpu1_rproc R rp)\<lparr>nokick := False\<rparr>"
    by (rule platform_started [OF assms])
  have "fst (fst (platform_poll_noblock (cpu1_rproc R rp))) = 0" "fst (fst (platform_poll_noblock ((cpu1_rproc R rp)\<lparr>nokick := False\<rparr>))) = 1"
    by (simp_all add: platform_poll_noblock_def cpu1_rproc_def)
  then show ?thesis using s' by (intro exI [of _ s']) simp
qed

definition demo_hw :: sys_hw where
  "demo_hw = \<lparr>cpsr = 0x13, gic_ready = False, HandlerTable = replicate 95 (None, Gic_instance), dist = (\<lambda>_. 0x01010101),
     pending = (\<lambda>_. False), cpu_if = (\<lambda>_. 0), UnhandledInterrupts = 0, CpuId = 1, softirq_avail = 0, softirq_pending = [],
     softirq_enabled = [], exc_irq = False, caches_on = True, hw_rproc = rproc_inst (store_bytes (\<lambda>_. 0) 0x100000 resources)\<rparr>"

definition demo_system :: system where
  "demo_system = \<lparr>sys_irq = metal_irq_start (\<lambda>_. xlnx_irq_cntr) demo_hw, sys_metal = metal_demo\<rparr>"

lemma demo_system_start: "sys_start demo_system"
proof -
  have "\<exists>i\<in>set (int_ids 32 4). dist demo_hw (XSCUGIC_SPI_TARGET_OFFSET_CALC i) \<notin> {0, cpu1_only}"
    by (rule bexI [of _ 32]) (simp_all add: int_ids_simps demo_hw_def cpu1_only_def)
  then have "hw_start demo_hw" by (simp add: hw_start_def) (simp add: demo_hw_def XSCUGIC_EN_INT_MASK_def rproc_inst_def)
  moreover have "metal_start metal_demo" by (simp add: metal_start_def metal_demo_def)
  ultimately show ?thesis
    using irq_inv_start [of "\<lambda>_. xlnx_irq_cntr" demo_hw] by (simp add: sys_start_def demo_system_def) (simp add: metal_irq_start_def)
qed

theorem platform_boot_witness:
  "\<exists>s'. sys_platform_init True 0x100000 demo_system = Some (0, s') \<and> gic_enabled (irq_env (sys_irq s')) SGI_NOTIFICATION \<and>
    fst (fst (platform_poll_noblock (hw_rproc (irq_env (sys_irq (serve_irq SGI_NOTIFICATION s')))))) = 1"
proof -
  let ?rp = "hw_rproc (irq_env (sys_irq demo_system))"
  have "?rp = rproc_inst (store_bytes (\<lambda>_. 0) 0x100000 resources)" by (simp add: demo_system_def metal_irq_start_def demo_hw_def)
  then have "cpu1_table (rproc_mem ?rp) (unat (0x100000 :: u32))"
    using resources_table [of "\<lambda>_. 0" "0x100000"] by (simp add: rproc_inst_def)
  then show ?thesis using platform_boot [OF demo_system_start refl, of "0x100000"] by auto
qed

text \<open>
  Clean-up disables and unregisters the interrupt towards the other core, not the one it listens to:
  the notification interrupt stays enabled with its handler in place.
\<close>

lemma cleanup_keeps_notification:
  assumes "zynq_irqs (sys_irq s) cs tab" and "hw_rproc (irq_env (sys_irq s)) = rp" and "rproc_state rp = RPROC_OFFLINE"
    and "irq_to_notify rp = SGI_TO_NOTIFY" and "gic_enabled (irq_env (sys_irq s)) SGI_NOTIFICATION"
  shows "\<exists>s' tab'. sys_platform_cleanup True s = Some s' \<and> gic_enabled (irq_env (sys_irq s')) SGI_NOTIFICATION \<and>
    zynq_irqs (sys_irq s') cs tab' \<and> tab' ! unat SGI_NOTIFICATION = tab ! unat SGI_NOTIFICATION"
proof -
  let ?e = "sys_irq_disable SGI_TO_NOTIFY (irq_env (sys_irq s))"
  have d: "metal_irq_disable SGI_TO_NOTIFY (sys_irq s) = Some (sys_irq s\<lparr>irq_env := ?e\<rparr>)"
    using zynq_enable(2) [OF assms(1) sgi_small(2)] .
  have z: "zynq_irqs (sys_irq s\<lparr>irq_env := ?e\<rparr>) cs tab" using assms(1) by (simp add: zynq_irqs_def irq_inv_env)
  obtain q where q: "metal_irq_register (sint SGI_TO_NOTIFY) None None (sys_irq s\<lparr>irq_env := ?e\<rparr>) = Some (0, q)"
      "zynq_irqs q cs (tab[unat SGI_TO_NOTIFY := \<lparr>irq_hd = None, irq_arg = None\<rparr>])" "irq_env q = ?e"
    using zynq_register [OF z sgi_small(2), of None None] by auto
  have en: "gic_enabled ?e SGI_NOTIFICATION"
    using sys_irq_enable_effect(2) [OF sgi_small(2) sgi_small(1), of "irq_env (sys_irq s)"] assms(5) by (simp add: SGI_TO_NOTIFY_def SGI_NOTIFICATION_def)
  define s' where "s' = cleanup_system (s\<lparr>sys_irq := q\<lparr>irq_env := on_rproc platform_cleanup (irq_env q)\<rparr>\<rparr>)"
  have "sys_platform_cleanup True s = Some s'"
    using d q(1) assms(2-4) by (simp add: sys_platform_cleanup_def metal_irq_unregister_def s'_def Let_def)
  moreover have "zynq_irqs (sys_irq s') cs (tab[unat SGI_TO_NOTIFY := \<lparr>irq_hd = None, irq_arg = None\<rparr>])"
    using q(2) by (simp add: s'_def cleanup_system_def zynq_irqs_def irq_inv_env)
  moreover have "gic_enabled (irq_env (sys_irq s')) SGI_NOTIFICATION"
    using en q(3) by (simp add: s'_def cleanup_system_def on_rproc_def gic_enabled_def)
  moreover have "tab[unat SGI_TO_NOTIFY := x] ! unat SGI_NOTIFICATION = tab ! unat SGI_NOTIFICATION" for x
    by (simp add: SGI_TO_NOTIFY_def SGI_NOTIFICATION_def)
  ultimately show ?thesis by blast
qed

end
