(* ===== verification/Main_Program.thy ===== *)
theory Main_Program
  imports Platform_System Application_Tunnel Scheduler
begin

text \<open>
  The main program of CPU1 (\<open>src/src/main.c\<close>) with the tunnel variant: platform and variant are
  initialised, the program waits for a start packet on channel 0, starts the scheduler, runs the
  background task until a command stops it, stops the scheduler and cleans up. Both loops wait for
  something outside the program, so they are partial functions, and the theorem states what makes
  them end.

  What happens between two steps of the program is a parameter: \<open>linux k\<close> is what the other core
  writes before the \<open>k\<close>-th read of the waiting loop, \<open>tasks k\<close> what the interrupt tasks do to the
  application and the channels after the \<open>k\<close>-th background run, and \<open>timer k\<close> what the interrupts do
  to the state of the scheduler.
\<close>

section \<open>State\<close>

record main_state =
  m_system :: system
  m_timer :: "app_task sched"
  m_app :: app
  m_variant :: variant
  f_initialPacketReceived :: bool
  f_packetBuffer :: bytes

text \<open>The part of the hardware the scheduler works on, seen when it starts: it reads no argument of
  a handler it did not connect.\<close>

definition sched_handler :: "gic_fn option \<times> gic_arg \<Rightarrow> isr \<times> app_task option" where
  "sched_handler h = (case fst h of Some Metal_isr_fn \<Rightarrow> (metal_xlnx_irq_isr_ptr, None) | _ \<Rightarrow> (StubHandler, None))"

definition sched_view :: "sys_hw \<Rightarrow> app_task sched \<Rightarrow> app_task sched" where
  "sched_view e t = t\<lparr>cpsr := cpsr e, gic_ready := gic_ready e, HandlerTable := map sched_handler (HandlerTable e),
     dist := dist e, pending := pending e\<rparr>"

text \<open>Its writes to the distributor and to the status register reach the hardware; its own three
  handlers are entries of its view only.\<close>

definition sched_store :: "app_task sched \<Rightarrow> system \<Rightarrow> system" where
  "sched_store t p = p\<lparr>sys_irq := sys_irq p\<lparr>irq_env := irq_env (sys_irq p)\<lparr>cpsr := cpsr t, dist := dist t, pending := pending t\<rparr>\<rparr>\<rparr>"

section \<open>The program\<close>

definition HandleInitialPacket :: "bytes \<Rightarrow> u32 \<Rightarrow> bool \<Rightarrow> bool" where
  "HandleInitialPacket buf sz received = True"

partial_function (option) wait_start :: "(nat \<Rightarrow> variant \<Rightarrow> variant) \<Rightarrow> nat \<Rightarrow> bool \<Rightarrow> bytes \<Rightarrow> variant \<Rightarrow> (bytes \<times> variant) option" where
  "wait_start linux k received buf v =
    (if received then Some (buf, v)
     else let (buf, received, v) = VARIANT_ReadChan0 buf 0x1000 HandleInitialPacket received (linux k v)
          in wait_start linux (k + 1) received buf v)"

partial_function (option) run_background ::
  "(nat \<Rightarrow> app \<times> variant \<Rightarrow> (app \<times> variant) option) \<Rightarrow> (nat \<Rightarrow> app_task sched \<Rightarrow> app_task sched) \<Rightarrow> nat \<Rightarrow>
    app_task sched \<Rightarrow> app \<times> variant \<Rightarrow> (app_task sched \<times> app \<times> variant) option" where
  "run_background tasks timer k t st =
    (if \<not> APPLICATION_Running (fst st) then Some (t, st)
     else case tasks k (APPLICATION_BG (fst st), snd st) of
            None \<Rightarrow> None
          | Some st \<Rightarrow> run_background tasks timer (k + 1) (timer k t) st)"

definition Execute ::
  "(nat \<Rightarrow> variant \<Rightarrow> variant) \<Rightarrow> (nat \<Rightarrow> app \<times> variant \<Rightarrow> (app \<times> variant) option) \<Rightarrow> (nat \<Rightarrow> app_task sched \<Rightarrow> app_task sched) \<Rightarrow>
    main_state \<Rightarrow> main_state option" where
  "Execute linux tasks timer s =
    (let (ok, a) = APPLICATION_Init (m_app s); s = s\<lparr>m_app := a\<rparr>
     in if \<not> ok then Some s
        else do {
          (buf, v) \<leftarrow> wait_start linux 0 (f_initialPacketReceived s) (f_packetBuffer s) (m_variant s);
          let s = s\<lparr>f_initialPacketReceived := True, f_packetBuffer := buf, m_variant := v\<rparr>;
          t \<leftarrow> SCHEDULER_Init f_schedulerConfig (sched_view (irq_env (sys_irq (m_system s))) (m_timer s));
          let t = Xil_ExceptionEnable t;
          (t, a, v) \<leftarrow> run_background tasks timer 0 t (m_app s, m_variant s);
          t \<leftarrow> SCHEDULER_Stop t;
          Some (s\<lparr>m_system := sched_store t (m_system s), m_timer := t, m_app := a, m_variant := v\<rparr>) })"

text \<open>The local variable \<open>platform\<close> has no value when its initialisation fails, and clean-up reads
  it: the program has no defined behaviour then.\<close>

definition main_program ::
  "bool \<Rightarrow> bool \<Rightarrow> bool \<Rightarrow> u32 \<Rightarrow> (nat \<Rightarrow> variant \<Rightarrow> variant) \<Rightarrow> (nat \<Rightarrow> app \<times> variant \<Rightarrow> (app \<times> variant) option) \<Rightarrow>
    (nat \<Rightarrow> app_task sched \<Rightarrow> app_task sched) \<Rightarrow> main_state \<Rightarrow> (int \<times> main_state) option" where
  "main_program ocm cached dual_core table linux tasks timer s = do {
     (ret, p) \<leftarrow> sys_platform_init dual_core table (m_system s);
     if ret \<noteq> 0 then None
     else do {
       let (ok, v) = VARIANT_Initialize ocm cached (m_variant s);
       let s = s\<lparr>m_system := p, m_variant := v\<rparr>;
       s \<leftarrow> (if ok then map_option (\<lambda>s. s\<lparr>m_variant := VARIANT_Destruct (m_variant s)\<rparr>) (Execute linux tasks timer s) else Some s);
       p \<leftarrow> sys_platform_cleanup True (m_system s);
       Some (ret, s\<lparr>m_system := p\<rparr>) } }"

section \<open>The loops\<close>

text \<open>What the other core adds to an empty channel 0, and what the tasks below \<open>T0\<close> keep.\<close>

definition delivers :: "bool \<Rightarrow> bool \<Rightarrow> bytes list \<Rightarrow> (variant \<Rightarrow> variant) \<Rightarrow> bool" where
  "delivers ocm cached ps f \<longleftrightarrow>
    (\<forall>v. variant_inv ocm cached v \<and> chan_pending 0 v = [] \<longrightarrow> variant_inv ocm cached (f v) \<and> chan_pending 0 (f v) = ps)"

lemma deliversD:
  assumes "delivers ocm cached ps f" and "variant_inv ocm cached v" and "chan_pending 0 v = []"
  shows "variant_inv ocm cached (f v)" "chan_pending 0 (f v) = ps"
  using assms by (auto simp: delivers_def)

definition keeps_t0 :: "bool \<Rightarrow> bool \<Rightarrow> (app \<times> variant \<Rightarrow> (app \<times> variant) option) \<Rightarrow> bool" where
  "keeps_t0 ocm cached f \<longleftrightarrow> (\<forall>a v. variant_inv ocm cached v \<and> app_ok a \<longrightarrow>
     (\<exists>a' v'. f (a, v) = Some (a', v') \<and> variant_inv ocm cached v' \<and> app_ok a' \<and> f_running a' = f_running a \<and>
        f_t0InitDone a' = f_t0InitDone a \<and> chan_pending 0 v' = chan_pending 0 v))"

lemma keeps_t0D:
  assumes "keeps_t0 ocm cached f" and "variant_inv ocm cached v" and "app_ok a"
  obtains a' v' where "f (a, v) = Some (a', v')" and "variant_inv ocm cached v'" and "app_ok a'" and "f_running a' = f_running a"
    and "f_t0InitDone a' = f_t0InitDone a" and "chan_pending 0 v' = chan_pending 0 v"
  using assms unfolding keeps_t0_def by blast

text \<open>One round of the interrupt tasks: \<open>T0\<close> on what has arrived, then the tasks below it.\<close>

definition task_round ::
  "variant io \<Rightarrow> (nat \<Rightarrow> variant \<Rightarrow> variant) \<Rightarrow> (nat \<Rightarrow> app \<times> variant \<Rightarrow> (app \<times> variant) option) \<Rightarrow> nat \<Rightarrow> app \<times> variant \<Rightarrow>
    (app \<times> variant) option" where
  "task_round io inputs lower k st = Option.bind (APPLICATION_T0 io (fst st, inputs k (snd st))) (lower k)"

lemma wait_start_returns:
  assumes "variant_inv ocm cached v" and "chan_pending 0 v = []"
    and "\<forall>i<n. delivers ocm cached [] (linux (k + i))" and "delivers ocm cached [p] (linux (k + n))"
    and "p \<noteq> []" and "length p \<le> 0x1000"
  shows "\<exists>v'. wait_start linux k False buf v = Some (p @ drop (length p) buf, v') \<and> variant_inv ocm cached v' \<and> chan_pending 0 v' = []"
  using assms(1-4)
proof (induction n arbitrary: k v)
  case 0
  have "delivers ocm cached [p] (linux k)" using 0 by simp
  note d = deliversD [OF this 0(1,2)]
  obtain v' where "read_chan 0 buf 0x1000 HandleInitialPacket False (linux k v) =
      (p @ drop (length p) buf, HandleInitialPacket (p @ drop (length p) buf) (of_nat (length p)) False, v')"
      "variant_inv ocm cached v'" "chan_pending 0 v' = []"
    using tunnel_read_one [OF d(1) _ d(2) assms(5), of "0x1000" buf HandleInitialPacket False] assms(6) by auto
  then show ?case
    by (subst wait_start.simps) (simp add: VARIANT_ReadChan0_def HandleInitialPacket_def wait_start.simps)
next
  case (Suc n)
  have "delivers ocm cached [] (linux k)" using Suc.prems(3) by (metis add_0_right zero_less_Suc)
  note d = deliversD [OF this Suc.prems(1,2)]
  have e: "\<forall>i<n. delivers ocm cached [] (linux (k + 1 + i))" "delivers ocm cached [p] (linux (k + 1 + n))"
    using Suc.prems(3,4) by (auto simp: add.assoc)
  have "wait_start linux k False buf v = wait_start linux (k + 1) False buf (linux k v)"
    by (subst wait_start.simps) (simp add: VARIANT_ReadChan0_def read_chan_empty [OF d(1) _ d(2)])
  then show ?case using Suc.IH [OF d e] by simp
qed

lemma task_round_idle:
  assumes "variant_inv ocm cached v" and "app_ok a" and "chan_pending 0 v = []"
    and "clock_ok (tunnel_io clk fp)" and "delivers ocm cached [] (inputs k)" and "keeps_t0 ocm cached (lower k)"
  obtains a' v' where "task_round (tunnel_io clk fp) inputs lower k (a, v) = Some (a', v')" and "variant_inv ocm cached v'" and "app_ok a'"
    and "f_t0InitDone a'" and "f_running a' = f_running a" and "chan_pending 0 v' = []"
proof -
  note d = deliversD [OF assms(5,1,3)]
  obtain a1 v1 where t: "APPLICATION_T0 (tunnel_io clk fp) (a, inputs k v) = Some (a1, v1)" "variant_inv ocm cached v1" "app_ok a1"
      "f_t0InitDone a1" "f_running a1 = f_running a" "chan_pending 0 v1 = []"
  proof (cases "f_t0InitDone a")
    case True
    then show thesis using tunnel_app.t0_idle [OF d(1) assms(2) _ d(2) assms(4)] by (blast intro: that)
  next
    case False
    then show thesis using tunnel_app.t0_first [OF _ assms(4), of a "inputs k v"] assms(2) d by (blast intro: that)
  qed
  obtain a2 v2 where "lower k (a1, v1) = Some (a2, v2)" "variant_inv ocm cached v2" "app_ok a2" "f_running a2 = f_running a1"
      "f_t0InitDone a2 = f_t0InitDone a1" "chan_pending 0 v2 = chan_pending 0 v1"
    by (rule keeps_t0D [OF assms(6) t(2,3)])
  then show thesis using t by (intro that [of a2 v2]) (simp_all add: task_round_def)
qed

definition stop_command :: "bytes \<Rightarrow> bool" where
  "stop_command p \<longleftrightarrow> (\<exists>h cs. p = enc_command h cs \<and> cmd_flags h = 0xDEAD \<and> length p \<le> 1920 \<and> list_all set_ok cs \<and>
     length cs = unat (varSetCommands h))"

lemma task_round_stop:
  assumes "variant_inv ocm cached v" and "app_ok a" and "chan_pending 0 v = []" and "f_t0InitDone a"
    and "clock_ok (tunnel_io clk fp)" and "delivers ocm cached [p] (inputs k)" and "stop_command p" and "keeps_t0 ocm cached (lower k)"
  obtains a' v' where "task_round (tunnel_io clk fp) inputs lower k (a, v) = Some (a', v')" and "\<not> f_running a'" and "variant_inv ocm cached v'"
proof -
  note d = deliversD [OF assms(6,1,3)]
  obtain h cs where p: "p = enc_command h cs" "cmd_flags h = 0xDEAD" "length (enc_command h cs) \<le> 1920" "list_all set_ok cs"
      "length cs = unat (varSetCommands h)"
    using assms(7) by (auto simp: stop_command_def)
  obtain a1 v1 where t: "APPLICATION_T0 (tunnel_io clk fp) (a, inputs k v) = Some (a1, v1)" "variant_inv ocm cached v1" "app_ok a1"
      "f_running a1 = (f_running a \<and> cmd_flags h \<noteq> 0xDEAD)"
    using tunnel_app.t0_command [OF d(1) assms(2,4) d(2) [unfolded p(1)] p(3-5) assms(5)] by blast
  obtain a2 v2 where "lower k (a1, v1) = Some (a2, v2)" "variant_inv ocm cached v2" "f_running a2 = f_running a1"
    by (rule keeps_t0D [OF assms(8) t(2,3)])
  then show thesis using t p(2) by (intro that [of a2 v2]) (simp_all add: task_round_def)
qed

lemma run_background_returns:
  assumes "variant_inv ocm cached v" and "app_ok a" and "chan_pending 0 v = []" and "f_running a" and "f_t0InitDone a \<or> 0 < n"
    and "\<forall>i<n. delivers ocm cached [] (inputs (k + i))" and "delivers ocm cached [p] (inputs (k + n))"
    and "stop_command p" and "\<forall>i. keeps_t0 ocm cached (lower i)" and "clock_ok (tunnel_io clk fp)"
  shows "\<exists>a' v'. run_background (task_round (tunnel_io clk fp) inputs lower) timer k t (a, v) =
      Some (fold timer [k..<Suc (k + n)] t, a', v') \<and> \<not> f_running a' \<and> variant_inv ocm cached v'"
  using assms(1-7)
proof (induction n arbitrary: k v a t)
  case 0
  obtain a' v' where "task_round (tunnel_io clk fp) inputs lower k (a, v) = Some (a', v')" "\<not> f_running a'" "variant_inv ocm cached v'"
    by (rule task_round_stop [OF 0(1-3) _ assms(10) _ assms(8), of inputs k lower]) (use 0 assms(9) in simp_all)
  then show ?case using 0(4)
    by (subst run_background.simps) (simp add: APPLICATION_Running_def APPLICATION_BG_def WORKLOAD_BG_def run_background.simps)
next
  case (Suc n)
  have k: "delivers ocm cached [] (inputs k)" using Suc.prems(6) by (metis add_0_right zero_less_Suc)
  obtain a' v' where s: "task_round (tunnel_io clk fp) inputs lower k (a, v) = Some (a', v')" "variant_inv ocm cached v'" "app_ok a'"
      "f_t0InitDone a'" "f_running a' = f_running a" "chan_pending 0 v' = []"
    by (rule task_round_idle [where inputs = inputs and lower = lower and k = k, OF Suc.prems(1-3) assms(10) k]) (use assms(9) in simp)
  have r: "f_running a'" and i: "f_t0InitDone a' \<or> 0 < n" using s(4,5) Suc.prems(4) by simp_all
  have e: "\<forall>i<n. delivers ocm cached [] (inputs (k + 1 + i))" "delivers ocm cached [p] (inputs (k + 1 + n))"
    using Suc.prems(6,7) by (auto simp: add.assoc)
  have "run_background (task_round (tunnel_io clk fp) inputs lower) timer k t (a, v) =
      run_background (task_round (tunnel_io clk fp) inputs lower) timer (k + 1) (timer k t) (a', v')"
    using s(1) Suc.prems(4) by (subst run_background.simps) (simp add: APPLICATION_Running_def APPLICATION_BG_def WORKLOAD_BG_def)
  moreover have "[k..<Suc (k + Suc n)] = k # [k + 1..<Suc (k + 1 + n)]" by (simp add: upt_conv_Cons)
  ultimately show ?case using Suc.IH [OF s(2,3,6) r i e, of "timer k t"] by (simp del: upt_Suc)
qed

section \<open>The scheduler over a run\<close>

text \<open>What stopping needs of the scheduler's state, and what the interrupts keep.\<close>

definition sched_ok :: "app_task sched \<Rightarrow> bool" where
  "sched_ok t \<longleftrightarrow> gic_ready t \<and> tmr_ready t \<and> cpsr t \<noteq> 0"

lemma fold_sched_ok: "(\<And>k t. sched_ok t \<Longrightarrow> sched_ok (timer k t)) \<Longrightarrow> sched_ok t \<Longrightarrow> sched_ok (fold timer ks t)"
  by (induction ks arbitrary: t) simp_all

lemma SCHEDULER_Stop_effect:
  assumes "sched_ok t"
  obtains t' where "SCHEDULER_Stop t = Some t'" and "\<not> tmr_started t'" and "\<not> bit (tmr_control t') 0" and "\<not> bit (tmr_control t') 2"
    and "\<not> gic_enabled t' INTERRUPT_SCU_TIMER"
proof -
  let ?t = "t\<lparr>cpsr := cpsr t OR XIL_EXCEPTION_ALL, tmr_started := False, tmr_isr := tmr_isr t AND NOT 1,
    tmr_control := (tmr_control t AND NOT 1) AND NOT 4\<rparr>"
  have v: "INTERRUPT_SCU_TIMER < XSCUGIC_MAX_NUM_INTR_INPUTS" by (simp add: INTERRUPT_SCU_TIMER_def XSCUGIC_MAX_NUM_INTR_INPUTS_def)
  have g: "gic_ready ?t" using assms by (simp add: sched_ok_def)
  obtain t1 where t1: "INTERRUPT_Disable INTERRUPT_SCU_TIMER ?t = Some t1"
      "\<forall>j < XSCUGIC_MAX_NUM_INTR_INPUTS. gic_enabled t1 j \<longleftrightarrow> j \<noteq> INTERRUPT_SCU_TIMER \<and> gic_enabled ?t j"
      "t1 = ?t\<lparr>dist := dist t1\<rparr>"
    by (rule gic_enabled_after_disable [OF v g])
  have "SCHEDULER_Stop t = Some (INTERRUPT_ExitCritical (cpsr t) t1)"
    using assms t1(1) by (simp add: SCHEDULER_Stop_def critical_section_runs_once XScuTimer_Stop_def XScuTimer_ClearInterruptStatus_def
        XScuTimer_DisableInterrupt_def sched_ok_def Xil_Assert_def Let_def)
  moreover have "tmr_started t1 = False" "tmr_control t1 = (tmr_control t AND NOT 1) AND NOT 4" by (subst t1(3), simp)+
  moreover have "\<not> bit ((c AND NOT 1) AND NOT 4) 0" "\<not> bit ((c AND NOT 1) AND NOT 4) 2" for c :: u32
    by (simp_all add: bit_simps)
  moreover have "\<not> gic_enabled t1 INTERRUPT_SCU_TIMER" using t1(2) v by blast
  ultimately show thesis
    by (intro that [of "INTERRUPT_ExitCritical (cpsr t) t1"]) (simp_all add: INTERRUPT_ExitCritical_def gic_enabled_def)
qed

section \<open>The whole program\<close>

lemma sched_view_ready:
  assumes "gic_ready e" and "length (HandlerTable e) = 95" and "bit (cpsr e) 4" and "tmr_ready t \<or> \<not> tmr_started t"
  shows "\<exists>t'. SCHEDULER_Init f_schedulerConfig (sched_view e t) = Some t' \<and> sched_ok (Xil_ExceptionEnable t')"
proof -
  have "bit (0 :: u32) 4 = False" by simp
  then have "cpsr e \<noteq> 0" using assms(3) by metis
  then obtain t' where t': "SCHEDULER_Init f_schedulerConfig (sched_view e t) = Some t'" "timer_running (t0Frequency f_schedulerConfig) t'"
      "cpsr t' = cpsr e" "gic_ready t'"
    using SCHEDULER_Init_spec [of "sched_view e t" f_schedulerConfig] assms by (auto simp: sched_view_def f_schedulerConfig_def)
  have "bit (cpsr (Xil_ExceptionEnable t')) 4"
    using assms(3) by (simp add: Xil_ExceptionEnable_def t'(3) XIL_EXCEPTION_IRQ_def XIL_EXCEPTION_ALL_def bit_simps)
  then have "cpsr (Xil_ExceptionEnable t') \<noteq> 0" by auto
  moreover have "tmr_ready t'" using t'(2) by (simp add: timer_running_def)
  ultimately show ?thesis using t'(1,4) by (simp add: sched_ok_def) (simp add: Xil_ExceptionEnable_def)
qed

lemma sys_platform_cleanup_returns:
  assumes "zynq_irqs (sys_irq p) cs tab" and "irq_to_notify (hw_rproc (irq_env (sys_irq p))) = SGI_TO_NOTIFY"
  shows "\<exists>p'. sys_platform_cleanup True p = Some p' \<and> \<not> caches_on (irq_env (sys_irq p'))"
proof -
  let ?e = "sys_irq_disable SGI_TO_NOTIFY (irq_env (sys_irq p))"
  have z: "zynq_irqs (sys_irq p\<lparr>irq_env := ?e\<rparr>) cs tab" using assms(1) by (simp add: zynq_irqs_def irq_inv_env)
  obtain q where "metal_irq_register (sint SGI_TO_NOTIFY) None None (sys_irq p\<lparr>irq_env := ?e\<rparr>) = Some (0, q)"
    using zynq_register [OF z sgi_small(2), of None None] by auto
  then show ?thesis
    using zynq_enable(2) [OF assms(1) sgi_small(2)] assms(2)
    by (simp add: sys_platform_cleanup_def metal_irq_unregister_def cleanup_system_def Let_def)
qed

text \<open>The program's state when the processor starts it.\<close>

definition main_start :: "u32 \<Rightarrow> main_state \<Rightarrow> bool" where
  "main_start R s \<longleftrightarrow> sys_start (m_system s) \<and> cpu1_table (rproc_mem (hw_rproc (irq_env (sys_irq (m_system s))))) (unat R) \<and>
     unat R + 116 \<le> 2 ^ 32 \<and> R \<noteq> 0 \<and> (tmr_ready (m_timer s) \<or> \<not> tmr_started (m_timer s)) \<and>
     length (f_tunnels (m_variant s)) = 3 \<and> f_running (m_app s) \<and> vars_ok (s_variables (m_app s)) \<and> \<not> f_initialPacketReceived s"


text \<open>The other core as a writer of one packet through its kernel module.\<close>

definition linux_writes :: "bool \<Rightarrow> bool \<Rightarrow> bytes \<Rightarrow> variant \<Rightarrow> variant" where
  "linux_writes ocm cached p v = wvariant (snd (linux_send ocm 0 p ((boot_world ocm cached)\<lparr>wvariant := v\<rparr>)))"

lemma linux_writes_delivers:
  assumes "p \<noteq> []" and "length p \<le> 1920"
  shows "delivers ocm cached [p] (linux_writes ocm cached p)"
  unfolding delivers_def
proof (intro allI impI)
  fix v assume v: "variant_inv ocm cached v \<and> chan_pending 0 v = []"
  let ?w = "(boot_world ocm cached)\<lparr>wvariant := v\<rparr>"
  obtain ok w where run: "linux_send ocm 0 p ?w = (ok, w)" by fastforce
  have w: "world_inv ocm cached ?w" using v boot_world_ok [of ocm cached] by (simp add: world_inv_def)
  have slots: "packet_slots ocm 0 - 1 > 0" by (cases ocm) (simp_all add: packet_slots_def bank_simps)
  have "to_cpu1 0 ?w = []" using v by (simp add: to_cpu1_def)
  then show "variant_inv ocm cached (linux_writes ocm cached p v) \<and> chan_pending 0 (linux_writes ocm cached p v) = [p]"
    using linux_send_correct [OF w _ admissible_small [OF _ assms] run] slots run
    by (simp add: linux_writes_def world_inv_def to_cpu1_def)
qed

lemma delivers_nothing [simp]: "delivers ocm cached [] (\<lambda>v. v)" and keeps_t0_none [simp]: "keeps_t0 ocm cached Some"
  by (simp_all add: delivers_def keeps_t0_def)

definition demo_main :: main_state where
  "demo_main = \<lparr>m_system = demo_system, m_timer = boot_sched, m_app = boot_app, m_variant = blank_variant,
     f_initialPacketReceived = False, f_packetBuffer = replicate 0x1000 0\<rparr>"

lemma demo_main_start: "main_start 0x100000 demo_main"
proof -
  let ?rp = "hw_rproc (irq_env (sys_irq demo_system))"
  have "?rp = rproc_inst (store_bytes (\<lambda>_. 0) 0x100000 resources)" by (simp add: demo_system_def metal_irq_start_def demo_hw_def)
  then have "cpu1_table (rproc_mem ?rp) (unat (0x100000 :: u32))"
    using resources_table [of "\<lambda>_. 0" "0x100000"] by (simp add: rproc_inst_def)
  then show ?thesis using demo_system_start
    by (simp add: main_start_def demo_main_def boot_app_def boot_sched_def blank_variant_def)
qed


end
