(* ===== verification/Channel_Tests.thy ===== *)
theory Channel_Tests
  imports Main_Program
begin

text \<open>
  The measuring programs of CPU1 (\<open>unit_tests/latency.c\<close>, \<open>unit_tests/throughput.c\<close>) over the tunnel
  variant. The latency program answers every request with a reply of the same size. The
  throughput program is a protocol of three phases: it receives a batch, sends back as many packets
  with the measured latencies, and waits for the next round.

  What Linux does is a parameter: \<open>env k r\<close> acts on the shared memory before the \<open>r\<close>-th access to the
  channel in the \<open>k\<close>-th round of the loop.
\<close>

section \<open>Packets\<close>

definition CONTROL_FLAG_SHUTDOWN :: u32 where "CONTROL_FLAG_SHUTDOWN = 1"
definition CONTROL_FLAG_NEXT :: u32 where "CONTROL_FLAG_NEXT = 2"

text \<open>The fields of \<open>LinuxToBaremetal\<close> and of \<open>BaremetalToLinux\<close> in a buffer.\<close>

definition l2b_timestamp :: "bytes \<Rightarrow> u64" where "l2b_timestamp p = le_word (take 8 p)"
definition l2b_flags :: "bytes \<Rightarrow> u32" where "l2b_flags p = le_word (take 4 (drop 8 p))"

definition b2l_timestamp :: "bytes \<Rightarrow> u64" where "b2l_timestamp p = le_word (take 8 p)"
definition b2l_latency :: "bytes \<Rightarrow> u64" where "b2l_latency p = le_word (take 8 (drop 8 p))"
definition b2l_flags :: "bytes \<Rightarrow> u32" where "b2l_flags p = le_word (take 4 (drop 16 p))"
definition b2l_id :: "bytes \<Rightarrow> u32" where "b2l_id p = le_word (take 4 (drop 20 p))"

definition put_field :: "nat \<Rightarrow> bytes \<Rightarrow> bytes \<Rightarrow> bytes" where
  "put_field off x p = take off p @ x @ drop (off + length x) p"

definition put_packet :: "u64 \<Rightarrow> u64 \<Rightarrow> u32 \<Rightarrow> u32 \<Rightarrow> bytes \<Rightarrow> bytes" where
  "put_packet t l f i p = put_field 20 (le_bytes 4 i) (put_field 16 (le_bytes 4 f)
     (put_field 8 (le_bytes 8 l) (put_field 0 (le_bytes 8 t) p)))"

text \<open>\<open>XTime_GetTime\<close> of the board support package is the loop of \<open>GlobalTimer\<close>.\<close>

definition XTime_GetTime :: "(nat \<Rightarrow> u64) \<Rightarrow> nat \<Rightarrow> (u64 \<times> nat) option" where
  "XTime_GetTime clk n = GlobalTimer clk n"

text \<open>A read of channel 0 calls its handler after the packet has left the ring, so the handler runs on the
  state after the read.\<close>

definition read_then :: "bytes \<Rightarrow> u32 \<Rightarrow> variant \<Rightarrow> bytes \<times> u32 option \<times> variant" where
  "read_then buf sz v = (let (buf, r, v) = VARIANT_ReadChan0 buf sz (\<lambda>_ n _. Some n) None v in (buf, r, v))"

section \<open>\<open>latency.c\<close>\<close>

record latency =
  l_reply :: bytes
  l_buffer :: bytes
  l_running :: bool
  f_step :: u32
  l_reads :: nat

definition ReadCallback :: "(nat \<Rightarrow> u64) \<Rightarrow> bytes \<Rightarrow> u32 \<Rightarrow> latency \<times> variant \<Rightarrow> (latency \<times> variant) option" where
  "ReadCallback clk buf packetSize = (\<lambda>(s, v). do {
     (timestamp, n) \<leftarrow> XTime_GetTime clk (l_reads s);
     let s = s\<lparr>l_reads := n, l_reply := put_field 8 (le_bytes 8 (timestamp - l2b_timestamp buf)) (l_reply s)\<rparr>;
     if l2b_flags buf AND CONTROL_FLAG_SHUTDOWN \<noteq> 0 then Some (s\<lparr>l_running := False\<rparr>, v)
     else if l2b_flags buf AND CONTROL_FLAG_NEXT \<noteq> 0 then Some (s\<lparr>f_step := f_step s + 1\<rparr>, v)
     else do {
       (t, n) \<leftarrow> XTime_GetTime clk (l_reads s);
       let s = s\<lparr>l_reads := n, l_reply := put_field 0 (le_bytes 8 t) (l_reply s)\<rparr>;
       let (_, v) = write_chan 0 (l_reply s) packetSize v;
       Some (s, v) } })"

definition latency_step :: "(nat \<Rightarrow> u64) \<Rightarrow> latency \<times> variant \<Rightarrow> (latency \<times> variant) option" where
  "latency_step clk = (\<lambda>(s, v).
     let (buf, r, v) = read_then (l_buffer s) 2048 v; s = s\<lparr>l_buffer := buf\<rparr>
     in case r of None \<Rightarrow> Some (s, v) | Some n \<Rightarrow> ReadCallback clk buf n (s, v))"

partial_function (option) latency_Test ::
  "(nat \<Rightarrow> u64) \<Rightarrow> (nat \<Rightarrow> variant \<Rightarrow> variant) \<Rightarrow> nat \<Rightarrow> latency \<times> variant \<Rightarrow> (latency \<times> variant) option" where
  "latency_Test clk env k st =
    (if \<not> l_running (fst st) then Some st
     else case latency_step clk (fst st, env k (snd st)) of
            None \<Rightarrow> None
          | Some st \<Rightarrow> latency_Test clk env (k + 1) st)"

section \<open>\<open>throughput.c\<close>\<close>

definition MAX_RECV_LATENCIES :: nat where "MAX_RECV_LATENCIES = 10000"

record throughput =
  tp_buffer :: bytes
  recvLatencies :: "u32 list"
  recvLatencyCount :: u32
  phase :: int
  packetCounter :: int
  sendPacketSize :: u32
  sendPacketCount :: int
  totalReceiveTime :: u64
  tp_running :: bool
  tp_reads :: nat

text \<open>The counters are of type \<open>int\<close>, whose overflow has no meaning.\<close>

definition int_inc :: "int \<Rightarrow> int option" where
  "int_inc n = (if n < 2 ^ 31 - 1 then Some (n + 1) else None)"

definition note_latency :: "u32 \<Rightarrow> throughput \<Rightarrow> throughput" where
  "note_latency l s =
    (if unat (recvLatencyCount s) < MAX_RECV_LATENCIES
     then s\<lparr>recvLatencies := (recvLatencies s)[unat (recvLatencyCount s) := l], recvLatencyCount := recvLatencyCount s + 1\<rparr>
     else s)"

definition Phase0Read :: "(nat \<Rightarrow> u64) \<Rightarrow> bytes \<Rightarrow> u32 \<Rightarrow> throughput \<Rightarrow> throughput option" where
  "Phase0Read clk buf packetSize s = do {
     (timestamp, n) \<leftarrow> XTime_GetTime clk (tp_reads s);
     let s = s\<lparr>tp_reads := n, totalReceiveTime := (if totalReceiveTime s = 0 then timestamp else totalReceiveTime s)\<rparr>;
     c \<leftarrow> int_inc (packetCounter s);
     let s = note_latency (ucast (timestamp - l2b_timestamp buf)) (s\<lparr>packetCounter := c\<rparr>);
     Some (if l2b_flags buf AND CONTROL_FLAG_NEXT \<noteq> 0
           then s\<lparr>phase := 1, sendPacketSize := packetSize, totalReceiveTime := timestamp - totalReceiveTime s\<rparr>
           else if l2b_flags buf AND CONTROL_FLAG_SHUTDOWN \<noteq> 0 then s\<lparr>tp_running := False\<rparr> else s) }"

partial_function (option) send_retry :: "(nat \<Rightarrow> variant \<Rightarrow> variant) \<Rightarrow> nat \<Rightarrow> bytes \<Rightarrow> u32 \<Rightarrow> variant \<Rightarrow> variant option" where
  "send_retry env r buf sz v =
    (let (ok, v) = write_chan 0 buf sz (env r v)
     in if ok then Some v else send_retry env (r + 1) buf sz v)"

text \<open>A step returns the packets it sent, besides the new state.\<close>

definition Phase2Read ::
  "(nat \<Rightarrow> u64) \<Rightarrow> (nat \<Rightarrow> variant \<Rightarrow> variant) \<Rightarrow> bytes \<Rightarrow> u32 \<Rightarrow> throughput \<times> variant \<Rightarrow> (bytes list \<times> throughput \<times> variant) option" where
  "Phase2Read clk env buf packetSize = (\<lambda>(s, v).
     if l2b_flags buf AND CONTROL_FLAG_NEXT \<noteq> 0 then do {
       let s = s\<lparr>sendPacketCount := 0, recvLatencyCount := 0, phase := 0, packetCounter := 0\<rparr>;
       (t, n) \<leftarrow> XTime_GetTime clk (tp_reads s);
       let s = s\<lparr>tp_reads := n, tp_buffer := put_packet t (totalReceiveTime s) CONTROL_FLAG_NEXT 0xFFFFFFFF (tp_buffer s),
                 totalReceiveTime := 0\<rparr>;
       v \<leftarrow> send_retry env 1 (tp_buffer s) (sendPacketSize s) v;
       Some ([take (unat (sendPacketSize s)) (tp_buffer s)], s, v) }
     else if l2b_flags buf AND CONTROL_FLAG_SHUTDOWN \<noteq> 0 then Some ([], s\<lparr>tp_running := False\<rparr>, v)
     else Some ([], s, v))"

definition send_step ::
  "(nat \<Rightarrow> u64) \<Rightarrow> (nat \<Rightarrow> variant \<Rightarrow> variant) \<Rightarrow> throughput \<times> variant \<Rightarrow> (bytes list \<times> throughput \<times> variant) option" where
  "send_step clk env = (\<lambda>(s, v). do {
     (t, n) \<leftarrow> XTime_GetTime clk (tp_reads s);
     let l = (if sendPacketCount s < int MAX_RECV_LATENCIES then ucast (recvLatencies s ! nat (sendPacketCount s)) else 0);
     c \<leftarrow> int_inc (sendPacketCount s);
     let final = (c = packetCounter s);
     let s = s\<lparr>tp_reads := n, sendPacketCount := c, phase := (if final then 2 else phase s),
               tp_buffer := put_packet t l (if final then CONTROL_FLAG_NEXT else 0) (of_int c) (tp_buffer s)\<rparr>;
     v \<leftarrow> send_retry env 0 (tp_buffer s) (sendPacketSize s) v;
     Some ([take (unat (sendPacketSize s)) (tp_buffer s)], s, v) })"

definition throughput_step ::
  "(nat \<Rightarrow> u64) \<Rightarrow> (nat \<Rightarrow> variant \<Rightarrow> variant) \<Rightarrow> throughput \<times> variant \<Rightarrow> (bytes list \<times> throughput \<times> variant) option" where
  "throughput_step clk env = (\<lambda>(s, v).
     if phase s = 1 then send_step clk env (s, v)
     else if phase s = 0 \<or> phase s = 2 then
       let (buf, r, v) = read_then (tp_buffer s) 0x4000 (env 0 v); s = s\<lparr>tp_buffer := buf\<rparr>
       in case r of
            None \<Rightarrow> Some ([], s, v)
          | Some n \<Rightarrow> if phase s = 0 then map_option (\<lambda>s. ([], s, v)) (Phase0Read clk buf n s)
                      else Phase2Read clk env buf n (s, v)
     else Some ([], s, v))"

partial_function (option) throughput_loop ::
  "(nat \<Rightarrow> u64) \<Rightarrow> (nat \<Rightarrow> nat \<Rightarrow> variant \<Rightarrow> variant) \<Rightarrow> nat \<Rightarrow> throughput \<times> variant \<Rightarrow> (bytes list \<times> throughput \<times> variant) option" where
  "throughput_loop clk env k st =
    (if \<not> tp_running (fst st) then Some ([], st)
     else do {
       (out, st) \<leftarrow> throughput_step clk (env k) st;
       (rest, st) \<leftarrow> throughput_loop clk env (k + 1) st;
       Some (out @ rest, st) })"

definition throughput_Test ::
  "(nat \<Rightarrow> u64) \<Rightarrow> (nat \<Rightarrow> nat \<Rightarrow> variant \<Rightarrow> variant) \<Rightarrow> throughput \<times> variant \<Rightarrow> (bytes list \<times> throughput \<times> variant) option" where
  "throughput_Test clk env st = throughput_loop clk env 0 ((fst st)\<lparr>tp_running := True\<rparr>, snd st)"

section \<open>Packets in a buffer\<close>

lemma put_packet_bytes:
  assumes "24 \<le> length p"
  shows "put_packet t l f i p = le_bytes 8 t @ le_bytes 8 l @ le_bytes 4 f @ le_bytes 4 i @ drop 24 p"
  using assms by (simp add: put_packet_def put_field_def)

lemma put_packet_fields:
  assumes "24 \<le> length p" and "24 \<le> n"
  shows "b2l_latency (take n (put_packet t l f i p)) = l" "b2l_flags (take n (put_packet t l f i p)) = f"
    "b2l_id (take n (put_packet t l f i p)) = i" "b2l_timestamp (take n (put_packet t l f i p)) = t"
    "length (put_packet t l f i p) = length p"
  using assms by (simp_all add: put_packet_bytes b2l_latency_def b2l_flags_def b2l_id_def b2l_timestamp_def)

lemma l2b_append:
  assumes "16 \<le> length p"
  shows "l2b_timestamp (p @ q) = l2b_timestamp p" "l2b_flags (p @ q) = l2b_flags p"
  using assms by (simp_all add: l2b_timestamp_def l2b_flags_def)

definition timer_ok :: "(nat \<Rightarrow> u64) \<Rightarrow> bool" where
  "timer_ok clk \<longleftrightarrow> (\<forall>i j. i \<le> j \<longrightarrow> clk i \<le> clk j) \<and> (\<forall>n. slow_carry clk n)"

lemma XTime_returns:
  assumes "timer_ok clk"
  obtains k n' where "XTime_GetTime clk n = Some (clk k, n')" and "n \<le> k" and "k < n'"
  using GlobalTimer_returns [of clk n] assms by (auto simp: timer_ok_def XTime_GetTime_def)

section \<open>Channel 0\<close>

lemma read_then_none:
  "variant_inv ocm cached v \<Longrightarrow> chan_pending 0 v = [] \<Longrightarrow> read_then buf sz v = (buf, None, v)"
  by (simp add: read_then_def VARIANT_ReadChan0_def read_chan_empty [of ocm cached])

lemma read_then_one:
  assumes "variant_inv ocm cached v" and "chan_pending 0 v = p # ps" and "p \<noteq> []" and "length p \<le> unat sz" and "unat (sz :: u32) < 2 ^ 16"
  obtains v' where "read_then buf sz v = (p @ drop (length p) buf, Some (of_nat (length p)), v')" and "variant_inv ocm cached v'"
    and "chan_pending 0 v' = ps" and "chan_sent 0 v' = chan_sent 0 v"
  using tunnel_read_one [OF assms(1) _ assms(2-5), of buf "\<lambda>_ n _. Some n" None]
  by (fastforce simp: read_then_def VARIANT_ReadChan0_def)

text \<open>Linux lets the ring drain: from the \<open>r\<close>-th try on, it sends nothing, and at some try there is room.\<close>

definition drains :: "bool \<Rightarrow> bool \<Rightarrow> nat \<Rightarrow> (nat \<Rightarrow> variant \<Rightarrow> variant) \<Rightarrow> bool" where
  "drains ocm cached r e \<longleftrightarrow> (\<forall>i\<ge>r. delivers ocm cached [] (e i)) \<and>
     (\<exists>i\<ge>r. \<forall>v. variant_inv ocm cached v \<and> chan_pending 0 v = [] \<longrightarrow> length (chan_sent 0 (e i v)) < packet_slots ocm 0 - 1)"

lemma send_retry_returns:
  assumes "drains ocm cached r e" and "variant_inv ocm cached v" and "chan_pending 0 v = []"
    and "sz \<noteq> 0" and "unat (sz :: u32) \<le> packet_max ocm 0" and "unat sz \<le> length buf"
  obtains v' where "send_retry e r buf sz v = Some v'" and "variant_inv ocm cached v'" and "chan_pending 0 v' = []"
proof -
  have quiet: "\<forall>i\<ge>r. delivers ocm cached [] (e i)" using assms(1) by (simp add: drains_def)
  obtain i where i: "i \<ge> r" "\<forall>v. variant_inv ocm cached v \<and> chan_pending 0 v = [] \<longrightarrow> length (chan_sent 0 (e i v)) < packet_slots ocm 0 - 1"
    using assms(1) by (auto simp: drains_def)
  have sz: "sz \<le> ucast (sendPacketMaxSize (bank_config ocm 0))" using assms(5) by (simp add: packet_max_def word_le_nat_alt)
  have "\<exists>v'. send_retry e j buf sz v = Some v' \<and> variant_inv ocm cached v' \<and> chan_pending 0 v' = []"
    if "r \<le> j" "j \<le> i" "variant_inv ocm cached v" "chan_pending 0 v = []" for j v
    using that
  proof (induction "i - j" arbitrary: j v)
    case 0
    note d = deliversD [OF spec [OF quiet, THEN mp, OF 0(2)] 0(4,5)]
    obtain ok v' where w: "write_chan 0 buf sz (e j v) = (ok, v')" by fastforce
    note c = write_chan_correct [OF d(1) _ assms(4) sz assms(6) w]
    have "j = i" using 0(1,3) by simp
    then have ok using c(1) i(2) 0(4,5) by (simp add: packet_slots_def)
    then show ?case using w c(4,5) d(2) by (subst send_retry.simps) simp
  next
    case (Suc n)
    note d = deliversD [OF spec [OF quiet, THEN mp, OF Suc(3)] Suc(5,6)]
    obtain ok v' where w: "write_chan 0 buf sz (e j v) = (ok, v')" by fastforce
    note c = write_chan_correct [OF d(1) _ assms(4) sz assms(6) w]
    have "\<exists>v''. send_retry e (j + 1) buf sz v' = Some v'' \<and> variant_inv ocm cached v'' \<and> chan_pending 0 v'' = []"
      by (rule Suc(1)) (use Suc(2-4) c(4,5) d(2) in auto)
    then show ?case using w c(4,5) d(2) by (subst send_retry.simps) auto
  qed
  from this [OF le_refl i(1) assms(2,3)] show thesis using that by blast
qed

section \<open>The phases\<close>

definition tp_ok :: "throughput \<Rightarrow> bool" where
  "tp_ok s \<longleftrightarrow> length (tp_buffer s) = 0x4000 \<and> length (recvLatencies s) = MAX_RECV_LATENCIES \<and> tp_running s"

text \<open>\<open>j\<close> packets received, with latencies \<open>lat\<close>.\<close>

definition received :: "nat \<Rightarrow> (nat \<Rightarrow> u32) \<Rightarrow> throughput \<Rightarrow> bool" where
  "received j lat s \<longleftrightarrow> tp_ok s \<and> packetCounter s = int j \<and> (\<forall>i < min j MAX_RECV_LATENCIES. recvLatencies s ! i = lat i)"

definition test_packet :: "bool \<Rightarrow> bytes \<Rightarrow> bool" where
  "test_packet ocm p \<longleftrightarrow> 24 \<le> length p \<and> length p \<le> packet_max ocm 0"

definition plain :: "bytes \<Rightarrow> bool" where
  "plain p \<longleftrightarrow> l2b_flags p AND CONTROL_FLAG_NEXT = 0 \<and> l2b_flags p AND CONTROL_FLAG_SHUTDOWN = 0"

definition batch_end :: "bytes \<Rightarrow> bool" where
  "batch_end p \<longleftrightarrow> l2b_flags p AND CONTROL_FLAG_NEXT \<noteq> 0"

definition shutdown_packet :: "bytes \<Rightarrow> bool" where
  "shutdown_packet p \<longleftrightarrow> l2b_flags p AND CONTROL_FLAG_NEXT = 0 \<and> l2b_flags p AND CONTROL_FLAG_SHUTDOWN \<noteq> 0"

lemma packet_max_small: "packet_max ocm 0 < 2 ^ 12"
  by (cases ocm) (simp_all add: packet_max_def bank_simps)

lemma test_packetD:
  assumes "test_packet ocm p"
  shows "p \<noteq> []" "length p \<le> unat (0x4000 :: u32)" "16 \<le> length p" "length p < 0x4000"
  using assms packet_max_small [of ocm] by (auto simp: test_packet_def)

lemma note_latency_received:
  assumes "received j lat s" and "recvLatencyCount s = of_nat (min j MAX_RECV_LATENCIES)" and "packetCounter s' = int (j + 1)"
    and "tp_buffer s' = tp_buffer s" and "recvLatencies s' = recvLatencies s" and "recvLatencyCount s' = recvLatencyCount s" and "tp_running s'"
  shows "received (j + 1) (lat(j := l)) (note_latency l s') \<and> recvLatencyCount (note_latency l s') = of_nat (min (j + 1) MAX_RECV_LATENCIES)"
proof -
  have u: "unat (of_nat (min j MAX_RECV_LATENCIES) :: u32) = min j MAX_RECV_LATENCIES"
    by (subst unat_of_nat, rule mod_less) (simp add: MAX_RECV_LATENCIES_def)
  show ?thesis
  proof (cases "j < MAX_RECV_LATENCIES")
    case True
    then show ?thesis using assms u
      by (auto simp: note_latency_def received_def tp_ok_def nth_list_update less_Suc_eq)
  next
    case False
    then have "min j MAX_RECV_LATENCIES = MAX_RECV_LATENCIES" "min (j + 1) MAX_RECV_LATENCIES = MAX_RECV_LATENCIES" by simp_all
    then show ?thesis using assms u False by (auto simp: note_latency_def received_def tp_ok_def)
  qed
qed

lemma phase0_step:
  assumes "timer_ok clk" and "received j lat s" and "recvLatencyCount s = of_nat (min j MAX_RECV_LATENCIES)" and "phase s = 0"
    and "j < 2 ^ 31 - 1" and "delivers ocm cached [p] (env 0)" and "variant_inv ocm cached v" and "chan_pending 0 v = []" and "test_packet ocm p"
  obtains i s' v' where "throughput_step clk env (s, v) = Some ([], s', v')" and "variant_inv ocm cached v'" and "chan_pending 0 v' = []"
    and "plain p \<Longrightarrow> received (j + 1) (lat(j := ucast (clk i - l2b_timestamp p))) s' \<and> phase s' = 0 \<and>
      recvLatencyCount s' = of_nat (min (j + 1) MAX_RECV_LATENCIES)"
    and "batch_end p \<Longrightarrow> received (j + 1) (lat(j := ucast (clk i - l2b_timestamp p))) s' \<and> phase s' = 1 \<and>
      sendPacketSize s' = of_nat (length p)"
    and "shutdown_packet p \<Longrightarrow> \<not> tp_running s'" and "sendPacketCount s' = sendPacketCount s"
proof -
  note d = deliversD [OF assms(6-8)] and tp = test_packetD [OF assms(9)]
  let ?buf = "p @ drop (length p) (tp_buffer s)"
  obtain v' where rd: "read_then (tp_buffer s) 0x4000 (env 0 v) = (?buf, Some (of_nat (length p)), v')" "variant_inv ocm cached v'" "chan_pending 0 v' = []"
    by (rule read_then_one [OF d tp(1,2)]) simp_all
  obtain i n where ti: "XTime_GetTime clk (tp_reads s) = Some (clk i, n)" by (rule XTime_returns [OF assms(1)])
  let ?l = "ucast (clk i - l2b_timestamp p) :: u32"
  let ?s0 = "s\<lparr>tp_buffer := ?buf, tp_reads := n, totalReceiveTime := (if totalReceiveTime s = 0 then clk i else totalReceiveTime s), packetCounter := int (j + 1)\<rparr>"
  let ?s1 = "note_latency ?l ?s0"
  let ?s2 = "if l2b_flags p AND CONTROL_FLAG_NEXT \<noteq> 0
           then ?s1\<lparr>phase := 1, sendPacketSize := of_nat (length p), totalReceiveTime := clk i - totalReceiveTime ?s1\<rparr>
           else if l2b_flags p AND CONTROL_FLAG_SHUTDOWN \<noteq> 0 then ?s1\<lparr>tp_running := False\<rparr> else ?s1"
  have inc: "int_inc (packetCounter s) = Some (int (j + 1))" using assms(2,5) by (simp add: int_inc_def received_def)
  have run: "throughput_step clk env (s, v) = Some ([], ?s2, v')"
    using assms(4) rd(1) ti inc by (simp add: throughput_step_def Phase0Read_def l2b_append [OF tp(3)] Let_def)
  have len: "length (tp_buffer ?s0) = 0x4000" using assms(2) tp(4) by (simp add: received_def tp_ok_def)
  have rec: "received (j + 1) (lat(j := ?l)) ?s1" "recvLatencyCount ?s1 = of_nat (min (j + 1) MAX_RECV_LATENCIES)"
    using note_latency_received [of j lat "s\<lparr>tp_buffer := ?buf\<rparr>" ?s0 ?l] assms(2,3) len by (simp_all add: received_def tp_ok_def)
  have same: "phase ?s1 = 0" "sendPacketCount ?s1 = sendPacketCount s" using assms(4) by (simp_all add: note_latency_def)
  show thesis
    by (rule that [OF run rd(2,3), of i])
      (use rec same in \<open>auto simp: plain_def batch_end_def shutdown_packet_def received_def tp_ok_def\<close>)
qed

text \<open>The \<open>j\<close>-th packet sent of \<open>n\<close>.\<close>

definition sent_ok :: "nat \<Rightarrow> nat \<Rightarrow> (nat \<Rightarrow> u32) \<Rightarrow> nat \<Rightarrow> bytes \<Rightarrow> bool" where
  "sent_ok n sz lat j q \<longleftrightarrow> length q = sz \<and> b2l_id q = of_nat (j + 1) \<and> b2l_flags q = (if j + 1 = n then CONTROL_FLAG_NEXT else 0) \<and>
     b2l_latency q = (if j < MAX_RECV_LATENCIES then ucast (lat j) else 0)"

lemma phase1_step:
  assumes "timer_ok clk" and "received n lat s" and "sendPacketCount s = int j" and "phase s = 1" and "j < n" and "n < 2 ^ 31"
    and "sendPacketSize s = of_nat sz" and "24 \<le> sz" and "sz \<le> packet_max ocm 0"
    and "drains ocm cached 0 env" and "variant_inv ocm cached v" and "chan_pending 0 v = []"
  obtains q s' v' where "throughput_step clk env (s, v) = Some ([q], s', v')" and "sent_ok n sz lat j q"
    and "variant_inv ocm cached v'" and "chan_pending 0 v' = []" and "received n lat s'" and "sendPacketCount s' = int (j + 1)"
    and "phase s' = (if j + 1 = n then 2 else 1)" and "sendPacketSize s' = of_nat sz"
proof -
  have u: "unat (of_nat sz :: u32) = sz" using assms(9) packet_max_small [of ocm] by (subst unat_of_nat, intro mod_less) simp
  obtain i m where ti: "XTime_GetTime clk (tp_reads s) = Some (clk i, m)" by (rule XTime_returns [OF assms(1)])
  let ?l = "if sendPacketCount s < int MAX_RECV_LATENCIES then ucast (recvLatencies s ! nat (sendPacketCount s)) else 0 :: u64"
  have l: "?l = (if j < MAX_RECV_LATENCIES then ucast (lat j) else 0)"
    using assms(2,3,5) by (auto simp: received_def)
  have inc: "int_inc (sendPacketCount s) = Some (int (j + 1))" using assms(3,5,6) by (simp add: int_inc_def)
  have fin: "int (j + 1) = packetCounter s \<longleftrightarrow> j + 1 = n" using assms(2) by (auto simp: received_def)
  let ?f = "if j + 1 = n then CONTROL_FLAG_NEXT else 0"
  let ?b = "put_packet (clk i) ?l ?f (of_nat (j + 1)) (tp_buffer s)"
  let ?s = "s\<lparr>tp_reads := m, sendPacketCount := int (j + 1), phase := (if j + 1 = n then 2 else 1), tp_buffer := ?b\<rparr>"
  have len: "length (tp_buffer s) = 0x4000" using assms(2) by (simp add: received_def tp_ok_def)
  have pf: "b2l_latency (take sz ?b) = ?l" "b2l_flags (take sz ?b) = ?f" "b2l_id (take sz ?b) = of_nat (j + 1)" "length ?b = 0x4000"
    using put_packet_fields [of "tp_buffer s" sz] assms(8) len by auto
  have nz: "(of_nat sz :: u32) \<noteq> 0" using u assms(8) by auto
  obtain v' where sr: "send_retry env 0 ?b (of_nat sz) v = Some v'" "variant_inv ocm cached v'" "chan_pending 0 v' = []"
    by (rule send_retry_returns [OF assms(10-12) nz, where buf = ?b]) (use u assms(9) pf(4) packet_max_small [of ocm] in auto)
  have run: "throughput_step clk env (s, v) = Some ([take sz ?b], ?s, v')"
    using assms(4,7) ti inc fin sr(1) u by (simp add: throughput_step_def send_step_def Let_def)
  have sok: "sent_ok n sz lat j (take sz ?b)"
    using pf l assms(9) packet_max_small [of ocm] by (auto simp: sent_ok_def)
  show thesis
    by (rule that [OF run sok sr(2,3)]) (use assms(2,7) pf(4) in \<open>simp_all add: received_def tp_ok_def\<close>)
qed

lemma phase2_step:
  assumes "timer_ok clk" and "tp_ok s" and "phase s = 2" and "sendPacketSize s = of_nat sz" and "24 \<le> sz" and "sz \<le> packet_max ocm 0"
    and "delivers ocm cached [x] (env 0)" and "test_packet ocm x" and "batch_end x" and "drains ocm cached 1 env"
    and "variant_inv ocm cached v" and "chan_pending 0 v = []"
  obtains q s' v' where "throughput_step clk env (s, v) = Some ([q], s', v')" and "length q = sz" and "b2l_id q = 0xFFFFFFFF"
    and "b2l_flags q = CONTROL_FLAG_NEXT" and "b2l_latency q = totalReceiveTime s"
    and "variant_inv ocm cached v'" and "chan_pending 0 v' = []" and "received 0 lat s'" and "sendPacketCount s' = 0"
    and "phase s' = 0" and "recvLatencyCount s' = 0" and "totalReceiveTime s' = 0"
proof -
  note d = deliversD [OF assms(7,11,12)] and tp = test_packetD [OF assms(8)]
  have u: "unat (of_nat sz :: u32) = sz" using assms(6) packet_max_small [of ocm] by (subst unat_of_nat, intro mod_less) simp
  let ?buf = "x @ drop (length x) (tp_buffer s)"
  have len: "length ?buf = 0x4000" using assms(2) tp(4) by (simp add: tp_ok_def)
  obtain v1 where rd: "read_then (tp_buffer s) 0x4000 (env 0 v) = (?buf, Some (of_nat (length x)), v1)" "variant_inv ocm cached v1" "chan_pending 0 v1 = []"
    by (rule read_then_one [OF d tp(1,2)]) simp_all
  obtain i m where ti: "XTime_GetTime clk (tp_reads s) = Some (clk i, m)" by (rule XTime_returns [OF assms(1)])
  let ?b = "put_packet (clk i) (totalReceiveTime s) CONTROL_FLAG_NEXT 0xFFFFFFFF ?buf"
  let ?s = "s\<lparr>sendPacketCount := 0, recvLatencyCount := 0, phase := 0, packetCounter := 0, tp_reads := m, tp_buffer := ?b, totalReceiveTime := 0\<rparr>"
  have pf: "b2l_latency (take sz ?b) = totalReceiveTime s" "b2l_flags (take sz ?b) = CONTROL_FLAG_NEXT" "b2l_id (take sz ?b) = 0xFFFFFFFF" "length ?b = 0x4000"
    using put_packet_fields [of ?buf sz] assms(5) len by auto
  have nz: "(of_nat sz :: u32) \<noteq> 0" using u assms(5) by auto
  obtain v' where sr: "send_retry env 1 ?b (of_nat sz) v1 = Some v'" "variant_inv ocm cached v'" "chan_pending 0 v' = []"
    by (rule send_retry_returns [OF assms(10) rd(2,3) nz, where buf = ?b]) (use u assms(6) pf(4) packet_max_small [of ocm] in auto)
  have run: "throughput_step clk env (s, v) = Some ([take sz ?b], ?s, v')"
    using assms(3,4,9) rd(1) ti sr(1) u by (simp add: throughput_step_def Phase2Read_def l2b_append [OF tp(3)] batch_end_def Let_def)
  show thesis
    by (rule that [OF run _ pf(3,2,1) sr(2,3)])
      (use assms(2,6) pf(4) packet_max_small [of ocm] in \<open>simp_all add: received_def tp_ok_def\<close>)
qed

section \<open>Rounds\<close>

text \<open>The loop gets from one iteration to a later one, sending \<open>out\<close>.\<close>

definition gets_to ::
  "(nat \<Rightarrow> u64) \<Rightarrow> (nat \<Rightarrow> nat \<Rightarrow> variant \<Rightarrow> variant) \<Rightarrow> nat \<Rightarrow> throughput \<times> variant \<Rightarrow> bytes list \<Rightarrow> nat \<Rightarrow> throughput \<times> variant \<Rightarrow> bool" where
  "gets_to clk env k st out k' st' \<longleftrightarrow>
    throughput_loop clk env k st = map_option (\<lambda>(o', r). (out @ o', r)) (throughput_loop clk env k' st')"

lemma gets_to_refl: "gets_to clk env k st [] k st"
  by (simp add: gets_to_def map_option.id [unfolded id_def] case_prod_beta')

lemma gets_to_step:
  assumes "tp_running (fst st)" and "throughput_step clk (env k) st = Some (out, st')" and "gets_to clk env (k + 1) st' out' k' st''"
  shows "gets_to clk env k st (out @ out') k' st''"
  using assms by (subst gets_to_def, subst throughput_loop.simps)
    (auto simp: gets_to_def map_option_case option.map_comp comp_def split: option.splits prod.splits)

lemma gets_to_one:
  "tp_running (fst st) \<Longrightarrow> throughput_step clk (env k) st = Some (out, st') \<Longrightarrow> gets_to clk env k st out (k + 1) st'"
  using gets_to_step [of st clk env k out st' "[]" "k + 1" st'] by (simp add: gets_to_refl)

lemma gets_to_trans:
  "gets_to clk env k st out k' st' \<Longrightarrow> gets_to clk env k' st' out' k'' st'' \<Longrightarrow> gets_to clk env k st (out @ out') k'' st''"
  by (auto simp: gets_to_def option.map_comp comp_def case_prod_beta')

text \<open>What Linux sends in a round and when it drains the ring, from iteration \<open>k\<close>: the batch, one packet
  an iteration, then nothing until the answers are out, then the start of the next round.\<close>

definition batch_ok :: "bool \<Rightarrow> bytes list \<Rightarrow> bool" where
  "batch_ok ocm ps \<longleftrightarrow> ps \<noteq> [] \<and> length ps < 2 ^ 31 \<and> (\<forall>p\<in>set ps. test_packet ocm p) \<and> (\<forall>p\<in>set (butlast ps). plain p) \<and> batch_end (last ps)"

definition linux_round :: "bool \<Rightarrow> bool \<Rightarrow> (nat \<Rightarrow> nat \<Rightarrow> variant \<Rightarrow> variant) \<Rightarrow> nat \<Rightarrow> bytes list \<Rightarrow> bytes \<Rightarrow> bool" where
  "linux_round ocm cached env k ps x \<longleftrightarrow> (\<forall>i<length ps. delivers ocm cached [ps ! i] (env (k + i) 0)) \<and>
     (\<forall>i<length ps. drains ocm cached 0 (env (k + length ps + i))) \<and>
     delivers ocm cached [x] (env (k + 2 * length ps) 0) \<and> drains ocm cached 1 (env (k + 2 * length ps)) \<and>
     test_packet ocm x \<and> batch_end x"

text \<open>The answers to a batch.\<close>

definition answers :: "(nat \<Rightarrow> u64) \<Rightarrow> bytes list \<Rightarrow> bytes list \<Rightarrow> bool" where
  "answers clk ps qs \<longleftrightarrow> length qs = length ps + 1 \<and>
     (\<exists>lat. (\<forall>i<length ps. \<exists>t. lat i = ucast (clk t - l2b_timestamp (ps ! i))) \<and>
        (\<forall>i<length ps. sent_ok (length ps) (length (last ps)) lat i (qs ! i))) \<and>
     length (last qs) = length (last ps) \<and> b2l_id (last qs) = 0xFFFFFFFF \<and> b2l_flags (last qs) = CONTROL_FLAG_NEXT"

text \<open>The state between two rounds.\<close>

definition between :: "bool \<Rightarrow> bool \<Rightarrow> throughput \<times> variant \<Rightarrow> bool" where
  "between ocm cached st \<longleftrightarrow> received 0 (\<lambda>_. 0) (fst st) \<and> recvLatencyCount (fst st) = 0 \<and> sendPacketCount (fst st) = 0 \<and>
     phase (fst st) = 0 \<and> variant_inv ocm cached (snd st) \<and> chan_pending 0 (snd st) = []"

lemma receive_batch:
  assumes "timer_ok clk" and "batch_ok ocm ps" and "\<forall>i<length ps. delivers ocm cached [ps ! i] (env (k + i) 0)" and "between ocm cached (s, v)"
    and "j < length ps"
  shows "\<exists>s' v' lat. gets_to clk env k (s, v) [] (k + j) (s', v') \<and> received j lat s' \<and> recvLatencyCount s' = of_nat (min j MAX_RECV_LATENCIES) \<and>
    phase s' = 0 \<and> sendPacketCount s' = 0 \<and> variant_inv ocm cached v' \<and> chan_pending 0 v' = [] \<and>
    (\<forall>i<j. \<exists>t. lat i = ucast (clk t - l2b_timestamp (ps ! i)))"
  using assms(5)
proof (induction j)
  case 0
  then show ?case using assms(4) gets_to_refl by (fastforce simp: between_def)
next
  case (Suc j)
  then obtain s' v' lat where IH: "gets_to clk env k (s, v) [] (k + j) (s', v')" "received j lat s'"
      "recvLatencyCount s' = of_nat (min j MAX_RECV_LATENCIES)" "phase s' = 0" "sendPacketCount s' = 0" "variant_inv ocm cached v'" "chan_pending 0 v' = []"
      "\<forall>i<j. \<exists>t. lat i = ucast (clk t - l2b_timestamp (ps ! i))"
    by auto
  have p: "test_packet ocm (ps ! j)" "plain (ps ! j)" "j < 2 ^ 31 - 1"
    using assms(2) Suc.prems nth_mem [of j "butlast ps"] by (auto simp: batch_ok_def nth_butlast)
  have dl: "delivers ocm cached [ps ! j] (env (k + j) 0)" using assms(3) Suc.prems by simp
  obtain i s'' v'' where st: "throughput_step clk (env (k + j)) (s', v') = Some ([], s'', v'')" "variant_inv ocm cached v''" "chan_pending 0 v'' = []"
      "received (j + 1) (lat(j := ucast (clk i - l2b_timestamp (ps ! j)))) s''" "phase s'' = 0"
      "recvLatencyCount s'' = of_nat (min (j + 1) MAX_RECV_LATENCIES)" "sendPacketCount s'' = sendPacketCount s'"
    by (rule phase0_step [where env = "env (k + j)", OF assms(1) IH(2,3,4) p(3) dl IH(6,7) p(1)]) (use p(2) in blast)
  have "tp_running s'" using IH(2) by (simp add: received_def tp_ok_def)
  then have "gets_to clk env (k + j) (s', v') [] (k + j + 1) (s'', v'')"
    using gets_to_one [of "(s', v')"] st(1) by simp
  from gets_to_trans [OF IH(1) this] have "gets_to clk env k (s, v) [] (k + Suc j) (s'', v'')" by simp
  moreover have "\<forall>i'<Suc j. \<exists>t. (lat(j := ucast (clk i - l2b_timestamp (ps ! j)))) i' = ucast (clk t - l2b_timestamp (ps ! i'))"
    using IH(8) by (auto simp: less_Suc_eq)
  ultimately show ?case using st(2,3,5-7) IH(5) st(4) unfolding Suc_eq_plus1 by metis
qed

lemma send_answers:
  assumes "timer_ok clk" and "n < 2 ^ 31" and "24 \<le> sz" and "sz \<le> packet_max ocm 0"
    and "\<forall>i<n. drains ocm cached 0 (env (k + i))"
    and "received n lat s" "sendPacketCount s = 0" "phase s = 1" "sendPacketSize s = of_nat sz" "variant_inv ocm cached v" "chan_pending 0 v = []"
    and "0 < j" and "j \<le> n"
  shows "\<exists>qs s' v'. gets_to clk env k (s, v) qs (k + j) (s', v') \<and> length qs = j \<and> (\<forall>i<j. sent_ok n sz lat i (qs ! i)) \<and>
    received n lat s' \<and> sendPacketCount s' = int j \<and> phase s' = (if j = n then 2 else 1) \<and> sendPacketSize s' = of_nat sz \<and>
    variant_inv ocm cached v' \<and> chan_pending 0 v' = []"
proof -
  have step: "\<exists>qs s' v'. gets_to clk env k (s, v) qs (k + j + 1) (s', v') \<and> length qs = j + 1 \<and> (\<forall>i<j + 1. sent_ok n sz lat i (qs ! i)) \<and>
      received n lat s' \<and> sendPacketCount s' = int (j + 1) \<and> phase s' = (if j + 1 = n then 2 else 1) \<and> sendPacketSize s' = of_nat sz \<and>
      variant_inv ocm cached v' \<and> chan_pending 0 v' = []"
    if "j < n" "gets_to clk env k (s, v) qs (k + j) (s1, v1)" "length qs = j" "\<forall>i<j. sent_ok n sz lat i (qs ! i)"
      "received n lat s1" "sendPacketCount s1 = int j" "phase s1 = 1" "sendPacketSize s1 = of_nat sz" "variant_inv ocm cached v1" "chan_pending 0 v1 = []"
    for j qs s1 v1
  proof -
    note h = that
    have dr: "drains ocm cached 0 (env (k + j))" using assms(5) h(1) by simp
    obtain q s' v' where st: "throughput_step clk (env (k + j)) (s1, v1) = Some ([q], s', v')" "sent_ok n sz lat j q"
        "variant_inv ocm cached v'" "chan_pending 0 v' = []" "received n lat s'" "sendPacketCount s' = int (j + 1)"
        "phase s' = (if j + 1 = n then 2 else 1)" "sendPacketSize s' = of_nat sz"
      by (rule phase1_step [where env = "env (k + j)", OF assms(1) h(5,6,7,1) assms(2) h(8) assms(3,4) dr h(9,10)])
    have "tp_running s1" using h(5) by (simp add: received_def tp_ok_def)
    then have g: "gets_to clk env (k + j) (s1, v1) [q] (k + j + 1) (s', v')"
      using gets_to_one [of "(s1, v1)"] st(1) by simp
    have "gets_to clk env k (s, v) (qs @ [q]) (k + j + 1) (s', v')" using gets_to_trans [OF h(2) g] by simp
    moreover have "\<forall>i<j + 1. sent_ok n sz lat i ((qs @ [q]) ! i)" using h(3,4) st(2) by (auto simp: nth_append less_Suc_eq)
    ultimately show ?thesis using st h(3) by (intro exI [of _ "qs @ [q]"] exI [of _ s'] exI [of _ v']) simp
  qed
  show ?thesis using assms(12,13)
  proof (induction j)
    case (Suc j)
    show ?case
    proof (cases "j = 0")
      case True
      have "gets_to clk env k (s, v) [] (k + 0) (s, v)" using gets_to_refl by simp
      from step [OF _ this] show ?thesis using True Suc.prems assms(6-11) by simp
    next
      case False
      then obtain qs s1 v1 where IH: "gets_to clk env k (s, v) qs (k + j) (s1, v1)" "length qs = j" "\<forall>i<j. sent_ok n sz lat i (qs ! i)"
          "received n lat s1" "sendPacketCount s1 = int j" "phase s1 = (if j = n then 2 else 1)" "sendPacketSize s1 = of_nat sz"
          "variant_inv ocm cached v1" "chan_pending 0 v1 = []"
        using Suc by auto
      have "phase s1 = 1" using IH(6) Suc.prems by simp
      from step [OF _ IH(1-5) this IH(7-9)] show ?thesis using Suc.prems by simp
    qed
  qed simp
qed

lemma one_round:
  assumes "timer_ok clk" and "batch_ok ocm ps" and "linux_round ocm cached env k ps x" and "between ocm cached (s, v)"
  obtains qs st' where "gets_to clk env k (s, v) qs (k + 2 * length ps + 1) st'" and "answers clk ps qs" and "between ocm cached st'"
proof -
  let ?n = "length ps" let ?sz = "length (last ps)"
  have ps: "ps \<noteq> []" "?n < 2 ^ 31" "test_packet ocm (last ps)" "batch_end (last ps)" using assms(2) by (auto simp: batch_ok_def)
  have sz: "24 \<le> ?sz" "?sz \<le> packet_max ocm 0" using ps(3) by (simp_all add: test_packet_def)
  have lr: "\<forall>i<?n. delivers ocm cached [ps ! i] (env (k + i) 0)" "\<forall>i<?n. drains ocm cached 0 (env (k + ?n + i))"
      "delivers ocm cached [x] (env (k + 2 * ?n) 0)" "drains ocm cached 1 (env (k + 2 * ?n))" "test_packet ocm x" "batch_end x"
    using assms(3) by (simp_all add: linux_round_def)
  let ?m = "?n - 1"
  have m: "?m < ?n" "?m + 1 = ?n" "last ps = ps ! ?m" using ps(1) by (simp_all add: last_conv_nth)
  obtain s1 v1 lat where b: "gets_to clk env k (s, v) [] (k + ?m) (s1, v1)" "received ?m lat s1"
      "recvLatencyCount s1 = of_nat (min ?m MAX_RECV_LATENCIES)" "phase s1 = 0" "sendPacketCount s1 = 0" "variant_inv ocm cached v1" "chan_pending 0 v1 = []"
      "\<forall>i<?m. \<exists>t. lat i = ucast (clk t - l2b_timestamp (ps ! i))"
    using receive_batch [where env = env and k = k, OF assms(1,2) lr(1) assms(4) m(1)] by blast
  have dl: "delivers ocm cached [last ps] (env (k + ?m) 0)" using spec [OF lr(1), of ?m] m(1,3) by simp
  have small: "?m < 2 ^ 31 - 1" using ps(2) by simp
  obtain i s2 v2 where e: "throughput_step clk (env (k + ?m)) (s1, v1) = Some ([], s2, v2)" "variant_inv ocm cached v2" "chan_pending 0 v2 = []"
      "received (?m + 1) (lat(?m := ucast (clk i - l2b_timestamp (last ps)))) s2" "phase s2 = 1" "sendPacketSize s2 = of_nat ?sz" "sendPacketCount s2 = sendPacketCount s1"
    by (rule phase0_step [where env = "env (k + ?m)", OF assms(1) b(2,3,4) small dl b(6,7) ps(3)]) (use ps(4) in blast)
  let ?lat = "lat(?m := ucast (clk i - l2b_timestamp (last ps)))"
  have lats: "\<forall>i<?n. \<exists>t. ?lat i = ucast (clk t - l2b_timestamp (ps ! i))"
    using b(8) m by (metis fun_upd_apply less_Suc_eq Suc_eq_plus1)
  have "tp_running s1" using b(2) by (simp add: received_def tp_ok_def)
  then have "gets_to clk env (k + ?m) (s1, v1) [] (k + ?m + 1) (s2, v2)" using gets_to_one [of "(s1, v1)"] e(1) by simp
  then have g2: "gets_to clk env k (s, v) [] (k + ?n) (s2, v2)" using gets_to_trans [OF b(1)] m(2) by (metis add.assoc append_Nil)
  have rc2: "received ?n ?lat s2" and sc2: "sendPacketCount s2 = 0" using e(4,7) m(2) b(5) by simp_all
  have pos: "0 < ?n" using ps(1) by simp
  obtain qs s3 v3 where a: "gets_to clk env (k + ?n) (s2, v2) qs (k + ?n + ?n) (s3, v3)" "length qs = ?n" "\<forall>i<?n. sent_ok ?n ?sz ?lat i (qs ! i)"
      "received ?n ?lat s3" "phase s3 = 2" "sendPacketSize s3 = of_nat ?sz" "variant_inv ocm cached v3" "chan_pending 0 v3 = []"
    using send_answers [where env = env and k = "k + ?n", OF assms(1) ps(2) sz lr(2) rc2 sc2 e(5,6,2,3) pos le_refl] by auto
  have k2: "k + ?n + ?n = k + 2 * ?n" by simp
  have ok3: "tp_ok s3" using a(4) by (simp add: received_def)
  obtain q s4 v4 where f: "throughput_step clk (env (k + 2 * ?n)) (s3, v3) = Some ([q], s4, v4)" "length q = ?sz" "b2l_id q = 0xFFFFFFFF"
      "b2l_flags q = CONTROL_FLAG_NEXT" "variant_inv ocm cached v4" "chan_pending 0 v4 = []" "received 0 (\<lambda>_. 0) s4" "sendPacketCount s4 = 0"
      "phase s4 = 0" "recvLatencyCount s4 = 0"
    by (rule phase2_step [where env = "env (k + 2 * ?n)" and lat = "\<lambda>_. 0", OF assms(1) ok3 a(5,6) sz lr(3,5,6,4) a(7,8)])
  have "tp_running s3" using ok3 by (simp add: tp_ok_def)
  then have "gets_to clk env (k + 2 * ?n) (s3, v3) [q] (k + 2 * ?n + 1) (s4, v4)" using gets_to_one [of "(s3, v3)"] f(1) by simp
  then have g: "gets_to clk env k (s, v) (qs @ [q]) (k + 2 * ?n + 1) (s4, v4)"
    using gets_to_trans [OF gets_to_trans [OF g2 a(1)]] k2 by fastforce
  have ans: "answers clk ps (qs @ [q])"
    unfolding answers_def
  proof (intro conjI exI [of _ ?lat])
    show "\<forall>i<?n. sent_ok ?n ?sz ?lat i ((qs @ [q]) ! i)" using a(2,3) by (simp add: nth_append)
  qed (use a(2) f(2-4) lats in simp_all)
  show thesis by (rule that [OF g ans]) (use f in \<open>simp add: between_def\<close>)
qed

fun linux_rounds :: "bool \<Rightarrow> bool \<Rightarrow> (nat \<Rightarrow> nat \<Rightarrow> variant \<Rightarrow> variant) \<Rightarrow> nat \<Rightarrow> (bytes list \<times> bytes) list \<Rightarrow> bytes \<Rightarrow> bool" where
  "linux_rounds ocm cached env k [] y \<longleftrightarrow> delivers ocm cached [y] (env k 0)"
| "linux_rounds ocm cached env k ((ps, x) # rs) y \<longleftrightarrow> batch_ok ocm ps \<and> linux_round ocm cached env k ps x \<and>
     linux_rounds ocm cached env (k + 2 * length ps + 1) rs y"

lemma throughput_loop_returns:
  assumes "timer_ok clk" and "linux_rounds ocm cached env k rs y" and "test_packet ocm y" and "shutdown_packet y" and "between ocm cached st"
  shows "\<exists>outs st'. throughput_loop clk env k st = Some (concat outs, st') \<and> list_all2 (\<lambda>r. answers clk (fst r)) rs outs \<and> \<not> tp_running (fst st')"
  using assms(2,5)
proof (induction rs arbitrary: k st)
  case Nil
  obtain s v where st: "st = (s, v)" by fastforce
  have b: "received 0 (\<lambda>_. 0) s" "recvLatencyCount s = of_nat (min 0 MAX_RECV_LATENCIES)" "phase s = 0" "variant_inv ocm cached v" "chan_pending 0 v = []"
    using Nil(2) by (simp_all add: between_def st)
  have dl: "delivers ocm cached [y] (env k 0)" using Nil(1) by simp
  obtain s' v' where "throughput_step clk (env k) (s, v) = Some ([], s', v')" "\<not> tp_running s'"
    by (rule phase0_step [where env = "env k", OF assms(1) b(1,2,3) _ dl b(4,5) assms(3)]) (use assms(4) in auto)
  moreover have "tp_running s" using b(1) by (simp add: received_def tp_ok_def)
  ultimately have "throughput_loop clk env k st = Some ([], s', v')"
    by (subst throughput_loop.simps, subst throughput_loop.simps) (simp add: st)
  then show ?case using \<open>\<not> tp_running s'\<close> by (intro exI [of _ "[]"]) simp
next
  case (Cons r rs)
  obtain ps x s v where r: "r = (ps, x)" and st: "st = (s, v)" by fastforce
  have l: "batch_ok ocm ps" "linux_round ocm cached env k ps x" "linux_rounds ocm cached env (k + 2 * length ps + 1) rs y"
    using Cons.prems(1) by (simp_all add: r)
  obtain qs st' where o: "gets_to clk env k (s, v) qs (k + 2 * length ps + 1) st'" "answers clk ps qs" "between ocm cached st'"
    by (rule one_round [OF assms(1) l(1,2) Cons.prems(2) [unfolded st]])
  obtain outs st'' where "throughput_loop clk env (k + 2 * length ps + 1) st' = Some (concat outs, st'')"
      "list_all2 (\<lambda>r. answers clk (fst r)) rs outs" "\<not> tp_running (fst st'')"
    using Cons.IH [OF l(3) o(3)] by blast
  then show ?case using o(1,2) by (intro exI [of _ "qs # outs"] exI [of _ st'']) (simp add: gets_to_def st r)
qed

section \<open>Properties\<close>


text \<open>Linux as a reader of one packet through its kernel module.\<close>

definition linux_reads :: "bool \<Rightarrow> bool \<Rightarrow> variant \<Rightarrow> variant" where
  "linux_reads ocm cached v = wvariant (snd (linux_recv ocm 0 (packet_max ocm 0) ((boot_world ocm cached)\<lparr>wvariant := v\<rparr>)))"

lemma linux_reads_drains: "drains ocm cached r (\<lambda>_. linux_reads ocm cached)"
proof -
  have "variant_inv ocm cached (linux_reads ocm cached v) \<and> chan_pending 0 (linux_reads ocm cached v) = [] \<and>
      length (chan_sent 0 (linux_reads ocm cached v)) < packet_slots ocm 0 - 1"
    if v: "variant_inv ocm cached v \<and> chan_pending 0 v = []" for v
  proof -
    let ?w = "(boot_world ocm cached)\<lparr>wvariant := v\<rparr>"
    obtain got w where run: "linux_recv ocm 0 (packet_max ocm 0) ?w = (got, w)" by fastforce
    have w: "world_inv ocm cached ?w" using v boot_world_ok [of ocm cached] by (simp add: world_inv_def)
    have slots: "packet_slots ocm 0 - 1 > 0" by (cases ocm) (simp_all add: packet_slots_def bank_simps)
    have q: "to_cpu1 0 ?w = []" using v by (simp add: to_cpu1_def)
    then have "link_inv ocm cached 0 ?w" using w by (simp add: link_inv_def)
    note b = link_contents_bound(1) [OF this]
    show ?thesis
    proof (cases "to_linux 0 ?w")
      case Nil
      then show ?thesis using linux_recv_empty [OF w _ Nil] v slots by (simp add: linux_reads_def to_linux_def)
    next
      case (Cons p ps)
      have "length ps < packet_slots ocm 0 - 1" using b by (simp add: Cons link_capacity_def)
      then show ?thesis
        using linux_recv_correct [OF w _ Cons order_refl _ run] packet_max_small [of ocm] q run
        by (simp add: linux_reads_def to_linux_def to_cpu1_def world_inv_def)
    qed
  qed
  then show ?thesis by (auto simp: drains_def delivers_def)
qed

definition probe :: "u64 \<Rightarrow> u32 \<Rightarrow> bytes" where
  "probe t f = le_bytes 8 t @ le_bytes 4 f @ le_bytes 4 (0 :: u32) @ replicate 8 0"

definition demo_throughput :: throughput where
  "demo_throughput = \<lparr>tp_buffer = replicate 0x4000 0, recvLatencies = replicate MAX_RECV_LATENCIES 0, recvLatencyCount = 0, phase = 0,
     packetCounter = 0, sendPacketSize = 0, sendPacketCount = 0, totalReceiveTime = 0, tp_running = False, tp_reads = 0\<rparr>"

text \<open>Two packets, sent at times 3 and 4 and received at time 7.\<close>

definition demo_linux :: "nat \<Rightarrow> nat \<Rightarrow> variant \<Rightarrow> variant" where
  "demo_linux k r = (if k = 0 then linux_writes True False (probe 3 0) else if k = 1 then linux_writes True False (probe 4 2)
     else if k = 4 \<and> r = 0 then linux_writes True False (probe 0 2) else if k = 5 then linux_writes True False (probe 0 1)
     else linux_reads True False)"


section \<open>The latency test\<close>

lemma reply_size: "n \<le> 2048 \<Longrightarrow> n \<le> unat (2048 :: u32)" "unat (2048 :: u32) < 2 ^ 16"
  by simp_all

text \<open>
  One request, one reply: the request leaves the ring, and when there is room a reply of the same
  size goes out with the time the request took, measured when it was received, and the time of
  sending. The flags and the number of a reply are never written: they are zero.
\<close>

lemma latency_reply:
  assumes "timer_ok clk" and "variant_inv ocm cached v" and "chan_pending 0 v = p # ps" and "test_packet ocm p" and "plain p"
    and "length (chan_sent 0 v) < packet_slots ocm 0 - 1" and "length (l_reply s) = 2048"
  shows "\<exists>s' v' q i j. latency_step clk (s, v) = Some (s', v') \<and> chan_pending 0 v' = ps \<and> chan_sent 0 v' = chan_sent 0 v @ [q] \<and>
    length q = length p \<and> i \<le> j \<and> b2l_timestamp q = clk j \<and> b2l_latency q = clk i - l2b_timestamp p \<and>
    drop 16 q = take (length p - 16) (drop 16 (l_reply s)) \<and> l_running s' = l_running s \<and> drop 16 (l_reply s') = drop 16 (l_reply s) \<and>
    length (l_reply s') = 2048 \<and> variant_inv ocm cached v'"
proof -
  note tp = test_packetD [OF assms(4)]
  have max: "packet_max ocm 0 \<le> 2048" by (cases ocm) (simp_all add: packet_max_def bank_simps)
  then have lp: "24 \<le> length p" "length p \<le> packet_max ocm 0" "length p \<le> 2048" using assms(4) by (auto simp: test_packet_def)
  have u: "unat (of_nat (length p) :: u32) = length p" using lp(3) by (subst unat_of_nat, intro mod_less) simp
  let ?buf = "p @ drop (length p) (l_buffer s)"
  obtain v1 where rd: "read_then (l_buffer s) 2048 v = (?buf, Some (of_nat (length p)), v1)" "variant_inv ocm cached v1"
      "chan_pending 0 v1 = ps" "chan_sent 0 v1 = chan_sent 0 v"
    by (rule read_then_one [OF assms(2,3) tp(1) reply_size(1) reply_size(2)]) (use lp in simp)
  obtain i n where t1: "XTime_GetTime clk (l_reads s) = Some (clk i, n)" "i < n" by (rule XTime_returns [OF assms(1)])
  obtain j m where t2: "XTime_GetTime clk n = Some (clk j, m)" "n \<le> j" by (rule XTime_returns [OF assms(1)])
  let ?r1 = "put_field 8 (le_bytes 8 (clk i - l2b_timestamp p)) (l_reply s)"
  let ?r2 = "put_field 0 (le_bytes 8 (clk j)) ?r1"
  have r2: "?r2 = le_bytes 8 (clk j) @ le_bytes 8 (clk i - l2b_timestamp p) @ drop 16 (l_reply s)"
    using assms(7) by (simp add: put_field_def)
  obtain ok v' where w: "write_chan 0 ?r2 (of_nat (length p)) v1 = (ok, v')" by fastforce
  have nz: "(of_nat (length p) :: u32) \<noteq> 0" using u lp(1) by auto
  have sz: "(of_nat (length p) :: u32) \<le> ucast (sendPacketMaxSize (bank_config ocm 0))"
    using lp(2) u by (simp add: packet_max_def word_le_nat_alt)
  have l2: "unat (of_nat (length p) :: u32) \<le> length ?r2" using u lp(3) assms(7) by (simp add: r2)
  note c = write_chan_correct [OF rd(2) _ nz sz l2 w]
  have sent: "chan_sent 0 v' = chan_sent 0 v @ [take (length p) ?r2]" "chan_pending 0 v' = ps" "variant_inv ocm cached v'"
    using c(1,2,4,5) rd(3,4) assms(6) u by (simp_all add: packet_slots_def)
  have nf: "l2b_flags p AND CONTROL_FLAG_SHUTDOWN = 0" "l2b_flags p AND CONTROL_FLAG_NEXT = 0" using assms(5) by (simp_all add: plain_def)
  have run: "latency_step clk (s, v) = Some (s\<lparr>l_buffer := ?buf, l_reads := m, l_reply := ?r2\<rparr>, v')"
    using rd(1) t1(1) t2(1) w nf by (simp add: latency_step_def ReadCallback_def l2b_append [OF tp(3)] Let_def)
  show ?thesis
    by (intro exI conjI, rule run, rule sent(2), rule sent(1))
      (use lp t1(2) t2(2) sent(3) assms(7) in \<open>simp_all add: r2 b2l_timestamp_def b2l_latency_def drop_take\<close>)
qed

text \<open>
  A sequence of requests and then a shutdown: the program returns. Requests that find the ring full
  are lost, which the program only reports on its console.
\<close>

lemma latency_Test_returns:
  assumes "timer_ok clk" and "\<forall>i<length rs. delivers ocm cached [rs ! i] (env (k + i)) \<and> test_packet ocm (rs ! i) \<and> plain (rs ! i)"
    and "delivers ocm cached [y] (env (k + length rs))" and "test_packet ocm y" and "shutdown_packet y"
    and "variant_inv ocm cached v" and "chan_pending 0 v = []" and "l_running s" and "length (l_reply s) = 2048"
  shows "\<exists>s' v'. latency_Test clk env k (s, v) = Some (s', v') \<and> \<not> l_running s' \<and> variant_inv ocm cached v' \<and> chan_pending 0 v' = []"
  using assms(2,3,6-9)
proof (induction rs arbitrary: k s v)
  case Nil
  note d = deliversD [of ocm cached "[y]" "env k", OF _ Nil(3,4)] and tp = test_packetD [OF assms(4)]
  have ly: "length y \<le> 2048" using assms(4) by (cases ocm) (auto simp: test_packet_def packet_max_def bank_simps)
  have dl: "delivers ocm cached [y] (env k)" using Nil(2) by simp
  obtain v' where rd: "read_then (l_buffer s) 2048 (env k v) = (y @ drop (length y) (l_buffer s), Some (of_nat (length y)), v')"
      "variant_inv ocm cached v'" "chan_pending 0 v' = []"
    by (rule read_then_one [OF d(1) [OF dl] d(2) [OF dl] tp(1) reply_size(1) reply_size(2)]) (use ly in simp)
  obtain i n where "XTime_GetTime clk (l_reads s) = Some (clk i, n)" by (rule XTime_returns [OF assms(1)])
  then have "\<exists>s'. latency_step clk (s, env k v) = Some (s', v') \<and> \<not> l_running s'"
    using rd(1) assms(5) by (simp add: latency_step_def ReadCallback_def l2b_append [OF tp(3)] shutdown_packet_def Let_def)
  then show ?case using rd(2,3) Nil(5) by (subst latency_Test.simps) (auto simp: latency_Test.simps)
next
  case (Cons p rs)
  have dl: "delivers ocm cached [p] (env k)" "test_packet ocm p" "plain p" using spec [OF Cons(2), of 0] by simp_all
  note d = deliversD [OF dl(1) Cons(4,5)] and tp = test_packetD [OF dl(2)]
  have lp: "length p \<le> 2048" "length p \<le> packet_max ocm 0" "24 \<le> length p"
    using dl(2) by (cases ocm; auto simp: test_packet_def packet_max_def bank_simps)+
  have u: "unat (of_nat (length p) :: u32) = length p" using lp(1) by (subst unat_of_nat, intro mod_less) simp
  obtain v1 where rd: "read_then (l_buffer s) 2048 (env k v) = (p @ drop (length p) (l_buffer s), Some (of_nat (length p)), v1)"
      "variant_inv ocm cached v1" "chan_pending 0 v1 = []"
    by (rule read_then_one [OF d tp(1) reply_size(1) reply_size(2)]) (use lp in simp)
  obtain i n where t1: "XTime_GetTime clk (l_reads s) = Some (clk i, n)" by (rule XTime_returns [OF assms(1)])
  obtain j m where t2: "XTime_GetTime clk n = Some (clk j, m)" by (rule XTime_returns [OF assms(1)])
  let ?r = "put_field 0 (le_bytes 8 (clk j)) (put_field 8 (le_bytes 8 (clk i - l2b_timestamp p)) (l_reply s))"
  have lr: "length ?r = 2048" using Cons(7) by (simp add: put_field_def)
  obtain ok v' where w: "write_chan 0 ?r (of_nat (length p)) v1 = (ok, v')" by fastforce
  have nz: "(of_nat (length p) :: u32) \<noteq> 0" using u lp(3) by auto
  have sz: "(of_nat (length p) :: u32) \<le> ucast (sendPacketMaxSize (bank_config ocm 0))"
    using lp(2) u by (simp add: packet_max_def word_le_nat_alt)
  have l2: "unat (of_nat (length p) :: u32) \<le> length ?r" using u lp(1) lr by simp
  note c = write_chan_correct [OF rd(2) _ nz sz l2 w]
  let ?s = "s\<lparr>l_buffer := p @ drop (length p) (l_buffer s), l_reads := m, l_reply := ?r\<rparr>"
  have nf: "l2b_flags p AND CONTROL_FLAG_SHUTDOWN = 0" "l2b_flags p AND CONTROL_FLAG_NEXT = 0" using dl(3) by (simp_all add: plain_def)
  have "latency_step clk (s, env k v) = Some (?s, v')"
    using rd(1) t1 t2 w nf by (simp add: latency_step_def ReadCallback_def l2b_append [OF tp(3)] Let_def)
  then have step: "latency_Test clk env k (s, v) = latency_Test clk env (k + 1) (?s, v')"
    using Cons(6) by (subst latency_Test.simps) simp
  have rest: "\<forall>i<length rs. delivers ocm cached [rs ! i] (env (k + 1 + i)) \<and> test_packet ocm (rs ! i) \<and> plain (rs ! i)"
    using Cons(2) by (metis (no_types, lifting) Suc_less_eq length_Cons nth_Cons_Suc add.assoc plus_1_eq_Suc)
  have "delivers ocm cached [y] (env (k + 1 + length rs))" using Cons(3) by (simp add: add.commute)
  from Cons.IH [OF rest this] show ?case using c(4,5) rd(3) Cons(6) lr unfolding step by simp
qed

section \<open>The main functions\<close>

definition test_main ::
  "bool \<Rightarrow> bool \<Rightarrow> bool \<Rightarrow> u32 \<Rightarrow> (variant \<Rightarrow> ('s \<times> variant) option) \<Rightarrow> system \<times> variant \<Rightarrow> (int \<times> system \<times> variant) option" where
  "test_main ocm cached dual_core table Test = (\<lambda>(p, v). do {
     (ret, p) \<leftarrow> sys_platform_init dual_core table p;
     if ret \<noteq> 0 then None
     else do {
       let (ok, v) = VARIANT_Initialize ocm cached v;
       v \<leftarrow> (if ok then map_option (\<lambda>(_, v). VARIANT_Destruct v) (Test v) else Some v);
       p \<leftarrow> sys_platform_cleanup True p;
       Some (ret, p, v) } })"

definition latency_main where
  "latency_main ocm cached dual_core table clk env s = test_main ocm cached dual_core table (\<lambda>v. latency_Test clk env 0 (s, v))"

definition throughput_main where
  "throughput_main ocm cached dual_core table clk env s =
     test_main ocm cached dual_core table (\<lambda>v. map_option snd (throughput_Test clk env (s, v)))"

end
