(* ===== verification/Data_Cache.thy ===== *)
theory Data_Cache
  imports Prelude "HOL-Library.Monad_Syntax"
begin

text \<open>
  The cache maintenance of the board support package (\<open>standalone_v7_0/src/xil_cache.c\<close>) on a model
  of the two cache levels of the Zynq: the first-level data and instruction caches of the core and
  the second-level cache that both cores share. The theorems say what a flush and an
  invalidation of an address range do to the memory that other masters see and to what the core
  itself sees.

  An address is a 32-bit word and a cache line is named by the address of its first byte. The caches
  hold at most one copy of a line per level. Where a first-level line goes when it is written back,
  into the second level or past it, is the choice \<open>l2_alloc\<close> of the hardware, and so is the way
  \<open>l1way\<close> a line is kept in. The waiting for the end of a background operation of the second level and the
  barriers have no effect of their own.

  The build for two separate programs on the two cores (\<open>USE_AMP\<close>) leaves the second level to the other
  core; this is the parameter \<open>amp\<close>.
\<close>

section \<open>Hardware\<close>

record cline =
  cl_data :: "u32 \<Rightarrow> u8"
  cl_dirty :: bool

record caches =
  c_cpsr :: u32
  c_control :: u32
  c_csid :: u32
  l2cc :: "u32 \<Rightarrow> u32"
  l1d :: "u32 \<Rightarrow> cline option"
  l1i :: "u32 \<Rightarrow> (u32 \<Rightarrow> u8) option"
  l2 :: "u32 \<Rightarrow> cline option"
  dram :: "u32 \<Rightarrow> u8"
  l1way :: "u32 \<Rightarrow> u32"
  l2_alloc :: "u32 \<Rightarrow> bool"

definition line_of :: "u32 \<Rightarrow> u32" where "line_of a = a AND NOT 0x1F"

definition XREG_CP15_CONTROL_C_BIT :: u32 where "XREG_CP15_CONTROL_C_BIT = 0x4"
definition XREG_CP15_CONTROL_I_BIT :: u32 where "XREG_CP15_CONTROL_I_BIT = 0x1000"
definition XPS_L2CC_CNTRL_OFFSET :: u32 where "XPS_L2CC_CNTRL_OFFSET = 0x100"
definition XPS_L2CC_AUX_CNTRL_OFFSET :: u32 where "XPS_L2CC_AUX_CNTRL_OFFSET = 0x104"
definition XPS_L2CC_TAG_RAM_CNTRL_OFFSET :: u32 where "XPS_L2CC_TAG_RAM_CNTRL_OFFSET = 0x108"
definition XPS_L2CC_DATA_RAM_CNTRL_OFFSET :: u32 where "XPS_L2CC_DATA_RAM_CNTRL_OFFSET = 0x10C"
definition XPS_L2CC_ISR_OFFSET :: u32 where "XPS_L2CC_ISR_OFFSET = 0x21C"
definition XPS_L2CC_IAR_OFFSET :: u32 where "XPS_L2CC_IAR_OFFSET = 0x220"
definition XPS_L2CC_CACHE_SYNC_OFFSET :: u32 where "XPS_L2CC_CACHE_SYNC_OFFSET = 0x730"
definition XPS_L2CC_DEBUG_CTRL_OFFSET :: u32 where "XPS_L2CC_DEBUG_CTRL_OFFSET = 0xF40"
definition IRQ_FIQ_MASK :: u32 where "IRQ_FIQ_MASK = 0xC0"

definition l1_on :: "caches \<Rightarrow> bool" where
  "l1_on s \<longleftrightarrow> c_control s AND XREG_CP15_CONTROL_C_BIT \<noteq> 0"

definition l2_on :: "caches \<Rightarrow> bool" where
  "l2_on s \<longleftrightarrow> l2cc s XPS_L2CC_CNTRL_OFFSET AND 1 \<noteq> 0"

text \<open>What is below the first level, and what the core reads.\<close>

definition below_view :: "caches \<Rightarrow> u32 \<Rightarrow> u8" where
  "below_view s b = (case (if l2_on s then l2 s (line_of b) else None) of Some c \<Rightarrow> cl_data c b | None \<Rightarrow> dram s b)"

definition cpu_view :: "caches \<Rightarrow> u32 \<Rightarrow> u8" where
  "cpu_view s b = (case (if l1_on s then l1d s (line_of b) else None) of Some c \<Rightarrow> cl_data c b | None \<Rightarrow> below_view s b)"

text \<open>A write-back of first-level line \<open>a\<close> goes into the second level or into memory.\<close>

definition into_l2 :: "caches \<Rightarrow> u32 \<Rightarrow> bool" where
  "into_l2 s a \<longleftrightarrow> l2_on s \<and> (l2 s a \<noteq> None \<or> l2_alloc s a)"

definition clean_l1 :: "(u32 \<Rightarrow> bool) \<Rightarrow> caches \<Rightarrow> caches" where
  "clean_l1 P s = s\<lparr>l1d := (\<lambda>a. if P a then map_option (\<lambda>c. c\<lparr>cl_dirty := False\<rparr>) (l1d s a) else l1d s a),
     l2 := (\<lambda>a. case l1d s a of Some c \<Rightarrow> if P a \<and> cl_dirty c \<and> into_l2 s a then Some c else l2 s a | None \<Rightarrow> l2 s a),
     dram := (\<lambda>b. case l1d s (line_of b) of Some c \<Rightarrow> if P (line_of b) \<and> cl_dirty c \<and> \<not> into_l2 s (line_of b) then cl_data c b else dram s b
                | None \<Rightarrow> dram s b)\<rparr>"

definition inval_l1 :: "(u32 \<Rightarrow> bool) \<Rightarrow> caches \<Rightarrow> caches" where
  "inval_l1 P s = s\<lparr>l1d := (\<lambda>a. if P a then None else l1d s a)\<rparr>"

definition flush_l1 :: "(u32 \<Rightarrow> bool) \<Rightarrow> caches \<Rightarrow> caches" where
  "flush_l1 P s = inval_l1 P (clean_l1 P s)"

definition inval_l1i :: "(u32 \<Rightarrow> bool) \<Rightarrow> caches \<Rightarrow> caches" where
  "inval_l1i P s = s\<lparr>l1i := (\<lambda>a. if P a then None else l1i s a)\<rparr>"

definition clean_l2 :: "(u32 \<Rightarrow> bool) \<Rightarrow> caches \<Rightarrow> caches" where
  "clean_l2 P s = s\<lparr>l2 := (\<lambda>a. if P a then map_option (\<lambda>c. c\<lparr>cl_dirty := False\<rparr>) (l2 s a) else l2 s a),
     dram := (\<lambda>b. case l2 s (line_of b) of Some c \<Rightarrow> if P (line_of b) \<and> cl_dirty c then cl_data c b else dram s b | None \<Rightarrow> dram s b)\<rparr>"

definition inval_l2 :: "(u32 \<Rightarrow> bool) \<Rightarrow> caches \<Rightarrow> caches" where
  "inval_l2 P s = s\<lparr>l2 := (\<lambda>a. if P a then None else l2 s a)\<rparr>"

definition flush_l2 :: "(u32 \<Rightarrow> bool) \<Rightarrow> caches \<Rightarrow> caches" where
  "flush_l2 P s = inval_l2 P (clean_l2 P s)"

text \<open>An operation by set and way acts on the line in that slot: the way in the top two bits, the set
  in bits 5 to 12.\<close>

definition in_slot :: "caches \<Rightarrow> u32 \<Rightarrow> u32 \<Rightarrow> bool" where
  "in_slot s r a \<longleftrightarrow> push_bit 30 (l1way s a) OR (a AND 0x1FE0) = r"

section \<open>Masking and loops\<close>

definition l2_out :: "u32 \<Rightarrow> u32 \<Rightarrow> caches \<Rightarrow> caches" where
  "l2_out off v s = s\<lparr>l2cc := (l2cc s)(off := v)\<rparr>"

definition Xil_L2WriteDebugCtrl :: "u32 \<Rightarrow> caches \<Rightarrow> caches" where
  "Xil_L2WriteDebugCtrl v = l2_out XPS_L2CC_DEBUG_CTRL_OFFSET v"

definition Xil_L2CacheSync :: "caches \<Rightarrow> caches" where
  "Xil_L2CacheSync = l2_out XPS_L2CC_CACHE_SYNC_OFFSET 0"

text \<open>Every operation on more than one line runs with interrupts masked.\<close>

definition masked :: "(caches \<Rightarrow> caches option) \<Rightarrow> caches \<Rightarrow> caches option" where
  "masked f s = map_option (\<lambda>s'. s'\<lparr>c_cpsr := c_cpsr s\<rparr>) (f (s\<lparr>c_cpsr := c_cpsr s OR IRQ_FIQ_MASK\<rparr>))"

partial_function (option) lines_loop :: "(u32 \<Rightarrow> caches \<Rightarrow> caches) \<Rightarrow> u32 \<Rightarrow> u32 \<Rightarrow> caches \<Rightarrow> caches option" where
  "lines_loop f LocalAddr end s = (if LocalAddr < end then lines_loop f (LocalAddr + 32) end (f LocalAddr s) else Some s)"

text \<open>The common form of the range operations: nothing for length 0, else the line of the start
  address and the following ones up to the end.\<close>

definition over_range :: "(u32 \<Rightarrow> caches \<Rightarrow> caches) \<Rightarrow> u32 \<Rightarrow> u32 \<Rightarrow> caches \<Rightarrow> caches option" where
  "over_range f adr len s = (if len \<noteq> 0 then lines_loop f (adr AND NOT (32 - 1)) (adr + len) s else Some s)"

section \<open>Single lines\<close>

definition Xil_L1DCacheInvalidateLine :: "u32 \<Rightarrow> caches \<Rightarrow> caches" where
  "Xil_L1DCacheInvalidateLine adr = inval_l1 ((=) (adr AND NOT 0x1F))"

definition Xil_L1DCacheFlushLine :: "u32 \<Rightarrow> caches \<Rightarrow> caches" where
  "Xil_L1DCacheFlushLine adr = flush_l1 ((=) (adr AND NOT 0x1F))"

definition Xil_L1DCacheStoreLine :: "u32 \<Rightarrow> caches \<Rightarrow> caches" where
  "Xil_L1DCacheStoreLine adr = clean_l1 ((=) (adr AND NOT 0x1F))"

definition Xil_L1ICacheInvalidateLine :: "u32 \<Rightarrow> caches \<Rightarrow> caches" where
  "Xil_L1ICacheInvalidateLine adr = inval_l1i ((=) (adr AND NOT 0x1F))"

definition Xil_L2CacheInvalidateLine :: "u32 \<Rightarrow> caches \<Rightarrow> caches" where
  "Xil_L2CacheInvalidateLine adr = inval_l2 ((=) (line_of adr))"

text \<open>The configured workaround (\<open>CONFIG_PL310_ERRATA_588369\<close>) cleans and then invalidates.\<close>

definition Xil_L2CacheFlushLine :: "u32 \<Rightarrow> caches \<Rightarrow> caches" where
  "Xil_L2CacheFlushLine adr s = inval_l2 ((=) (line_of adr)) (clean_l2 ((=) (line_of adr)) s)"

definition Xil_L2CacheStoreLine :: "u32 \<Rightarrow> caches \<Rightarrow> caches" where
  "Xil_L2CacheStoreLine adr = clean_l2 ((=) (line_of adr))"

definition l2_flush_line_locked :: "u32 \<Rightarrow> caches \<Rightarrow> caches" where
  "l2_flush_line_locked adr s =
    Xil_L2CacheSync (Xil_L2WriteDebugCtrl 0 (Xil_L2CacheFlushLine adr (Xil_L2WriteDebugCtrl 3 s)))"

definition Xil_DCacheInvalidateLine :: "bool \<Rightarrow> u32 \<Rightarrow> caches \<Rightarrow> caches option" where
  "Xil_DCacheInvalidateLine amp adr = masked (\<lambda>s.
     Some (Xil_L1DCacheInvalidateLine adr (if amp then s else Xil_L2CacheInvalidateLine adr s)))"

definition Xil_DCacheFlushLine :: "bool \<Rightarrow> u32 \<Rightarrow> caches \<Rightarrow> caches option" where
  "Xil_DCacheFlushLine amp adr = masked (\<lambda>s.
     let s = Xil_L1DCacheFlushLine adr s in Some (if amp then s else l2_flush_line_locked adr s))"

definition Xil_DCacheStoreLine :: "bool \<Rightarrow> u32 \<Rightarrow> caches \<Rightarrow> caches option" where
  "Xil_DCacheStoreLine amp adr = masked (\<lambda>s.
     let s = Xil_L1DCacheStoreLine adr s in Some (if amp then s else Xil_L2CacheStoreLine adr s))"

definition Xil_ICacheInvalidateLine :: "bool \<Rightarrow> u32 \<Rightarrow> caches \<Rightarrow> caches option" where
  "Xil_ICacheInvalidateLine amp adr = masked (\<lambda>s.
     Some (Xil_L1ICacheInvalidateLine adr (if amp then s else Xil_L2CacheInvalidateLine adr s)))"

section \<open>Ranges\<close>

definition flush_step :: "bool \<Rightarrow> u32 \<Rightarrow> caches \<Rightarrow> caches" where
  "flush_step amp a s = (let s = flush_l1 ((=) (line_of a)) s
     in if amp then s else Xil_L2CacheSync (flush_l2 ((=) (line_of a)) s))"

definition Xil_DCacheFlushRange :: "bool \<Rightarrow> u32 \<Rightarrow> u32 \<Rightarrow> caches \<Rightarrow> caches option" where
  "Xil_DCacheFlushRange amp adr len = masked (over_range (flush_step amp) adr len)"

definition inval_step :: "bool \<Rightarrow> u32 \<Rightarrow> caches \<Rightarrow> caches" where
  "inval_step amp a s = inval_l1 ((=) (line_of a)) (if amp then s else Xil_L2CacheSync (inval_l2 ((=) (line_of a)) s))"

text \<open>The lines that the range covers in part are flushed, those it covers are invalidated.\<close>

definition flush_partial :: "bool \<Rightarrow> u32 \<Rightarrow> caches \<Rightarrow> caches" where
  "flush_partial amp a s = (let s = Xil_L1DCacheFlushLine a s in if amp then s else l2_flush_line_locked a s)"

definition Xil_DCacheInvalidateRange :: "bool \<Rightarrow> u32 \<Rightarrow> u32 \<Rightarrow> caches \<Rightarrow> caches option" where
  "Xil_DCacheInvalidateRange amp adr len = masked (\<lambda>s.
     if len \<noteq> 0 then
       let tempadr = adr; tempend = tempadr + len;
           (tempadr, s) = (if tempadr AND (32 - 1) \<noteq> 0
             then (let t = tempadr AND NOT (32 - 1) in (t + 32, flush_partial amp t s)) else (tempadr, s));
           (tempend, s) = (if tempend AND (32 - 1) \<noteq> 0
             then (let t = tempend AND NOT (32 - 1) in (t, flush_partial amp t s)) else (tempend, s))
       in lines_loop (inval_step amp) tempadr tempend s
     else Some s)"

definition Xil_L1DCacheInvalidateRange :: "u32 \<Rightarrow> u32 \<Rightarrow> caches \<Rightarrow> caches option" where
  "Xil_L1DCacheInvalidateRange adr len = masked (over_range (\<lambda>a. inval_l1 ((=) (line_of a))) adr len)"

definition Xil_L1DCacheFlushRange :: "u32 \<Rightarrow> u32 \<Rightarrow> caches \<Rightarrow> caches option" where
  "Xil_L1DCacheFlushRange adr len = masked (over_range (\<lambda>a. flush_l1 ((=) (line_of a))) adr len)"

definition Xil_L1ICacheInvalidateRange :: "u32 \<Rightarrow> u32 \<Rightarrow> caches \<Rightarrow> caches option" where
  "Xil_L1ICacheInvalidateRange adr len = masked (over_range (\<lambda>a. inval_l1i ((=) (line_of a))) adr len)"

definition Xil_ICacheInvalidateRange :: "bool \<Rightarrow> u32 \<Rightarrow> u32 \<Rightarrow> caches \<Rightarrow> caches option" where
  "Xil_ICacheInvalidateRange amp adr len = masked (over_range (\<lambda>a s.
     inval_l1i ((=) (line_of a)) (if amp then s else inval_l2 ((=) (line_of a)) s)) adr len)"

definition l2_range :: "(u32 \<Rightarrow> caches \<Rightarrow> caches) \<Rightarrow> u32 \<Rightarrow> u32 \<Rightarrow> caches \<Rightarrow> caches option" where
  "l2_range f adr len = masked (\<lambda>s.
     if len \<noteq> 0
     then map_option (Xil_L2WriteDebugCtrl 0) (over_range (\<lambda>a s. Xil_L2CacheSync (f a s)) adr len (Xil_L2WriteDebugCtrl 3 s))
     else Some s)"

definition Xil_L2CacheInvalidateRange :: "u32 \<Rightarrow> u32 \<Rightarrow> caches \<Rightarrow> caches option" where
  "Xil_L2CacheInvalidateRange = l2_range (\<lambda>a. inval_l2 ((=) (line_of a)))"

definition Xil_L2CacheFlushRange :: "u32 \<Rightarrow> u32 \<Rightarrow> caches \<Rightarrow> caches option" where
  "Xil_L2CacheFlushRange = l2_range (\<lambda>a. flush_l2 ((=) (line_of a)))"

section \<open>Whole caches\<close>

text \<open>The geometry the code computes from the cache size register: the binary logarithm of the line
  size, the number of ways and the number of sets.\<close>

definition cache_geometry :: "u32 \<Rightarrow> u32 \<times> u32 \<times> u32" where
  "cache_geometry CsidReg =
    (let CacheSize = ((drop_bit 13 CsidReg AND 0x1FF) + 1) * 128;
         NumWays = drop_bit 3 (CsidReg AND 0x3FF) + 1;
         LineSize = (CsidReg AND 0x07) + 4;
         NumSet = CacheSize div NumWays;
         NumSet = NumSet div push_bit (unat LineSize) 1
     in (LineSize, NumWays, NumSet))"

definition by_set_way :: "(u32 \<Rightarrow> caches \<Rightarrow> caches) \<Rightarrow> caches \<Rightarrow> caches" where
  "by_set_way f s =
    (let (LineSize, NumWays, NumSet) = cache_geometry (c_csid s)
     in snd (fold (\<lambda>_ (Way, s).
          (Way + 0x40000000,
           snd (fold (\<lambda>_ (Set, s). (Set + push_bit (unat LineSize) 1, f (Way OR Set) s)) [0..<unat NumSet] (0, s))))
        [0..<unat NumWays] (0, s)))"

definition Xil_L1DCacheFlush :: "caches \<Rightarrow> caches option" where
  "Xil_L1DCacheFlush = masked (\<lambda>s. Some (by_set_way (\<lambda>r s. flush_l1 (in_slot s r) s) s))"

text \<open>The stack of the program lies between \<open>stack_end\<close> and \<open>stack_start\<close>.\<close>

definition Xil_L1DCacheInvalidate :: "bool \<Rightarrow> u32 \<Rightarrow> u32 \<Rightarrow> caches \<Rightarrow> caches option" where
  "Xil_L1DCacheInvalidate amp stack_end stack_start = masked (\<lambda>s. do {
     s \<leftarrow> (if l1_on s then Xil_DCacheFlushRange amp stack_end (stack_start - stack_end) s else Some s);
     Some (by_set_way (\<lambda>r s. inval_l1 (in_slot s r) s) s) })"

definition Xil_L1DCacheEnable :: "bool \<Rightarrow> u32 \<Rightarrow> u32 \<Rightarrow> caches \<Rightarrow> caches option" where
  "Xil_L1DCacheEnable amp stack_end stack_start s =
    (if l1_on s then Some s
     else do {
       s \<leftarrow> Xil_L1DCacheInvalidate amp stack_end stack_start s;
       Some (s\<lparr>c_control := c_control s OR XREG_CP15_CONTROL_C_BIT\<rparr>) })"

definition Xil_L1DCacheDisable :: "caches \<Rightarrow> caches option" where
  "Xil_L1DCacheDisable s = do {
     s \<leftarrow> Xil_L1DCacheFlush s;
     Some (s\<lparr>c_control := c_control s AND NOT XREG_CP15_CONTROL_C_BIT\<rparr>) }"

definition Xil_L1ICacheEnable :: "caches \<Rightarrow> caches" where
  "Xil_L1ICacheEnable s =
    (if c_control s AND XREG_CP15_CONTROL_I_BIT \<noteq> 0 then s
     else let s = inval_l1i (\<lambda>_. True) s in s\<lparr>c_control := c_control s OR XREG_CP15_CONTROL_I_BIT\<rparr>)"

definition Xil_L1ICacheDisable :: "caches \<Rightarrow> caches" where
  "Xil_L1ICacheDisable s =
    (let s = inval_l1i (\<lambda>_. True) s in s\<lparr>c_control := c_control s AND NOT XREG_CP15_CONTROL_I_BIT\<rparr>)"

definition Xil_L1ICacheInvalidate :: "caches \<Rightarrow> caches" where
  "Xil_L1ICacheInvalidate = inval_l1i (\<lambda>_. True)"

definition Xil_L2CacheInvalidate :: "u32 \<Rightarrow> u32 \<Rightarrow> caches \<Rightarrow> caches option" where
  "Xil_L2CacheInvalidate stack_end stack_start s = do {
     s \<leftarrow> (if l2_on s then Xil_DCacheFlushRange False stack_end (stack_start - stack_end) s else Some s);
     Some (Xil_L2CacheSync (inval_l2 (\<lambda>_. True) s)) }"

definition Xil_L2CacheFlush :: "caches \<Rightarrow> caches" where
  "Xil_L2CacheFlush s =
     Xil_L2WriteDebugCtrl 0 (Xil_L2CacheSync (flush_l2 (\<lambda>_. True) (Xil_L2WriteDebugCtrl 3 s)))"

definition Xil_L2CacheEnable :: "u32 \<Rightarrow> u32 \<Rightarrow> caches \<Rightarrow> caches option" where
  "Xil_L2CacheEnable stack_end stack_start s =
    (if l2_on s then Some s
     else do {
       let s = l2_out XPS_L2CC_AUX_CNTRL_OFFSET ((l2cc s XPS_L2CC_AUX_CNTRL_OFFSET AND 0xFFF1FFFF) OR 0x72360000) s;
       let s = l2_out XPS_L2CC_TAG_RAM_CNTRL_OFFSET 0x111 s;
       let s = l2_out XPS_L2CC_DATA_RAM_CNTRL_OFFSET 0x121 s;
       let s = l2_out XPS_L2CC_IAR_OFFSET (l2cc s XPS_L2CC_ISR_OFFSET) s;
       s \<leftarrow> Xil_L2CacheInvalidate stack_end stack_start s;
       let s = l2_out XPS_L2CC_CNTRL_OFFSET (l2cc s XPS_L2CC_CNTRL_OFFSET OR 1) s;
       Some (Xil_L2CacheSync s) })"

definition Xil_L2CacheDisable :: "caches \<Rightarrow> caches" where
  "Xil_L2CacheDisable s =
    (if l2_on s
     then let s = Xil_L2CacheFlush s in l2_out XPS_L2CC_CNTRL_OFFSET (l2cc s XPS_L2CC_CNTRL_OFFSET AND NOT 1) s
     else s)"

definition Xil_DCacheEnable :: "bool \<Rightarrow> u32 \<Rightarrow> u32 \<Rightarrow> caches \<Rightarrow> caches option" where
  "Xil_DCacheEnable amp stack_end stack_start s = do {
     s \<leftarrow> Xil_L1DCacheEnable amp stack_end stack_start s;
     if amp then Some s else Xil_L2CacheEnable stack_end stack_start s }"

definition Xil_DCacheDisable :: "bool \<Rightarrow> caches \<Rightarrow> caches option" where
  "Xil_DCacheDisable amp s = Xil_L1DCacheDisable (if amp then s else Xil_L2CacheDisable s)"

definition Xil_DCacheInvalidate :: "bool \<Rightarrow> u32 \<Rightarrow> u32 \<Rightarrow> caches \<Rightarrow> caches option" where
  "Xil_DCacheInvalidate amp stack_end stack_start = masked (\<lambda>s. do {
     s \<leftarrow> (if amp then Some s else Xil_L2CacheInvalidate stack_end stack_start s);
     Xil_L1DCacheInvalidate amp stack_end stack_start s })"

definition Xil_DCacheFlush :: "bool \<Rightarrow> caches \<Rightarrow> caches option" where
  "Xil_DCacheFlush amp = masked (\<lambda>s. do {
     s \<leftarrow> Xil_L1DCacheFlush s;
     Some (if amp then s else Xil_L2CacheFlush s) })"

definition Xil_ICacheEnable :: "bool \<Rightarrow> u32 \<Rightarrow> u32 \<Rightarrow> caches \<Rightarrow> caches option" where
  "Xil_ICacheEnable amp stack_end stack_start s =
    (let s = Xil_L1ICacheEnable s in if amp then Some s else Xil_L2CacheEnable stack_end stack_start s)"

definition Xil_ICacheDisable :: "bool \<Rightarrow> caches \<Rightarrow> caches" where
  "Xil_ICacheDisable amp s = Xil_L1ICacheDisable (if amp then s else Xil_L2CacheDisable s)"

definition Xil_ICacheInvalidate :: "bool \<Rightarrow> u32 \<Rightarrow> u32 \<Rightarrow> caches \<Rightarrow> caches option" where
  "Xil_ICacheInvalidate amp stack_end stack_start = masked (\<lambda>s. do {
     s \<leftarrow> (if amp then Some s else Xil_L2CacheInvalidate stack_end stack_start s);
     Some (Xil_L1ICacheInvalidate s) })"

section \<open>Single operations\<close>

lemma low_bits: "(0x1F :: u32) = mask 5"
  by (simp add: mask_eq_exp_minus_1)

lemma line_of_alt: "line_of a = push_bit 5 (drop_bit 5 a)"
  unfolding line_of_def low_bits by (rule bit_word_eqI) (auto simp: bit_simps)

lemma line_of_unat: "unat (line_of a) = unat a div 32 * 32"
proof -
  have "unat a < 2 ^ 32" using unsigned_less [of a] by simp
  then have "unat a div 32 * 32 < 2 ^ 32" by simp
  then show ?thesis by (simp add: line_of_alt drop_bit_eq_div push_bit_eq_mult unat_word_ariths unat_div_distrib)
qed

lemma line_of_line [simp]: "line_of (line_of a) = line_of a"
  by (simp add: word_unat_eq_iff line_of_unat)

text \<open>The copies of line \<open>a\<close> that are not dirty equal what is below them.\<close>

definition fresh :: "caches \<Rightarrow> u32 \<Rightarrow> bool" where
  "fresh s a \<longleftrightarrow> (\<forall>c b. line_of b = a \<longrightarrow> l1d s a = Some c \<longrightarrow> \<not> cl_dirty c \<longrightarrow> cl_data c b = below_view s b) \<and>
    (\<forall>c b. line_of b = a \<longrightarrow> l2_on s \<longrightarrow> l2 s a = Some c \<longrightarrow> \<not> cl_dirty c \<longrightarrow> cl_data c b = dram s b)"

lemma flags [simp]:
  "l1_on (flush_l1 P s) = l1_on s" "l1_on (clean_l1 P s) = l1_on s" "l1_on (inval_l1 P s) = l1_on s" "l1_on (flush_l2 P s) = l1_on s"
  "l1_on (inval_l2 P s) = l1_on s" "l1_on (clean_l2 P s) = l1_on s" "l1_on (l2_out off v s) = l1_on s"
  "l2_on (flush_l1 P s) = l2_on s" "l2_on (clean_l1 P s) = l2_on s" "l2_on (inval_l1 P s) = l2_on s" "l2_on (flush_l2 P s) = l2_on s"
  "l2_on (inval_l2 P s) = l2_on s" "l2_on (clean_l2 P s) = l2_on s" "off \<noteq> XPS_L2CC_CNTRL_OFFSET \<Longrightarrow> l2_on (l2_out off v s) = l2_on s"
  by (simp_all add: l1_on_def l2_on_def flush_l1_def clean_l1_def inval_l1_def flush_l2_def clean_l2_def inval_l2_def l2_out_def)

lemma flush_l1_view:
  assumes "l1_on s" and "fresh s (line_of b)"
  shows "cpu_view (flush_l1 P s) b = cpu_view s b" and "fresh (flush_l1 P s) (line_of b)"
    and "\<not> P (line_of b) \<Longrightarrow> below_view (flush_l1 P s) b = below_view s b"
    and "P (line_of b) \<Longrightarrow> below_view (flush_l1 P s) b = cpu_view s b"
  using assms
  by (auto simp: cpu_view_def below_view_def fresh_def flush_l1_def inval_l1_def clean_l1_def l1_on_def l2_on_def into_l2_def split: option.splits)

lemma flush_l2_view:
  assumes "l2_on s" and "fresh s (line_of b)"
  shows "cpu_view (flush_l2 P s) b = cpu_view s b" and "fresh (flush_l2 P s) (line_of b)"
    and "below_view (flush_l2 P s) b = below_view s b" and "P (line_of b) \<Longrightarrow> dram (flush_l2 P s) b = below_view s b"
  using assms
  by (auto simp: cpu_view_def below_view_def fresh_def flush_l2_def inval_l2_def clean_l2_def l1_on_def l2_on_def split: option.splits)

lemma l2_out_sel [simp]:
  "l1d (l2_out off v s) = l1d s" "l2 (l2_out off v s) = l2 s" "dram (l2_out off v s) = dram s" "c_cpsr (l2_out off v s) = c_cpsr s"
  "l1i (l2_out off v s) = l1i s" "c_csid (l2_out off v s) = c_csid s" "c_control (l2_out off v s) = c_control s" "l1way (l2_out off v s) = l1way s"
  by (simp_all add: l2_out_def)

lemma l2_out_view [simp]:
  assumes "off \<noteq> XPS_L2CC_CNTRL_OFFSET"
  shows "cpu_view (l2_out off v s) b = cpu_view s b" "below_view (l2_out off v s) b = below_view s b" "fresh (l2_out off v s) a = fresh s a"
proof -
  have "l2_on (l2_out off v s) = l2_on s" using assms by simp
  then show "cpu_view (l2_out off v s) b = cpu_view s b" "below_view (l2_out off v s) b = below_view s b" for b
    by (auto simp: cpu_view_def below_view_def split: option.splits)
  then show "fresh (l2_out off v s) a = fresh s a" using \<open>l2_on (l2_out off v s) = l2_on s\<close>
    by (simp add: fresh_def)
qed

lemma offsets [simp]:
  "XPS_L2CC_DEBUG_CTRL_OFFSET \<noteq> XPS_L2CC_CNTRL_OFFSET" "XPS_L2CC_CACHE_SYNC_OFFSET \<noteq> XPS_L2CC_CNTRL_OFFSET"
  by (simp_all add: XPS_L2CC_DEBUG_CTRL_OFFSET_def XPS_L2CC_CNTRL_OFFSET_def XPS_L2CC_CACHE_SYNC_OFFSET_def)

lemma cpsr_same [simp]:
  "c_cpsr (flush_l1 P s) = c_cpsr s" "c_cpsr (clean_l1 P s) = c_cpsr s" "c_cpsr (inval_l1 P s) = c_cpsr s" "c_cpsr (flush_l2 P s) = c_cpsr s"
  "c_cpsr (inval_l2 P s) = c_cpsr s" "c_cpsr (clean_l2 P s) = c_cpsr s"
  by (simp_all add: flush_l1_def clean_l1_def inval_l1_def flush_l2_def clean_l2_def inval_l2_def)

lemma cpsr_view [simp]:
  "cpu_view (s\<lparr>c_cpsr := x\<rparr>) b = cpu_view s b" "below_view (s\<lparr>c_cpsr := x\<rparr>) b = below_view s b" "fresh (s\<lparr>c_cpsr := x\<rparr>) a = fresh s a"
  "l1_on (s\<lparr>c_cpsr := x\<rparr>) = l1_on s" "l2_on (s\<lparr>c_cpsr := x\<rparr>) = l2_on s"
  by (auto simp: cpu_view_def below_view_def fresh_def l1_on_def l2_on_def split: option.splits)

text \<open>Which lines are gone after a flush, and which an operation leaves alone.\<close>

lemma gone [simp]:
  "P a \<Longrightarrow> l1d (flush_l1 P s) a = None" "P a \<Longrightarrow> l2 (flush_l2 P s) a = None" "l1d (flush_l2 P s) = l1d s" "l1d (inval_l2 P s) = l1d s"
  by (simp_all add: flush_l1_def inval_l1_def flush_l2_def clean_l2_def inval_l2_def)

lemma stays_gone:
  "l1d s a = None \<Longrightarrow> l1d (flush_l1 P s) a = None" "l1d s a = None \<Longrightarrow> l2 s a = None \<Longrightarrow> l2 (flush_l1 P s) a = None"
  "l2 s a = None \<Longrightarrow> l2 (flush_l2 P s) a = None"
  by (simp_all add: flush_l1_def inval_l1_def clean_l1_def flush_l2_def clean_l2_def inval_l2_def)

lemma other_line:
  "\<not> P a \<Longrightarrow> l1d (flush_l1 P s) a = l1d s a" "\<not> P a \<Longrightarrow> l2 (flush_l1 P s) a = l2 s a" "\<not> P a \<Longrightarrow> l2 (flush_l2 P s) a = l2 s a"
  "\<not> P (line_of b) \<Longrightarrow> dram (flush_l1 P s) b = dram s b" "\<not> P (line_of b) \<Longrightarrow> dram (flush_l2 P s) b = dram s b"
  by (simp_all add: flush_l1_def inval_l1_def clean_l1_def flush_l2_def clean_l2_def inval_l2_def split: option.splits)

section \<open>Walking over lines\<close>

text \<open>The lines the loop visits.\<close>

definition lines :: "u32 \<Rightarrow> u32 \<Rightarrow> u32 list" where
  "lines a e = map (\<lambda>k. a + 32 * of_nat k) [0..<(unat e - unat a + 31) div 32]"

lemma lines_step:
  assumes "a < e" and "unat e \<le> 2 ^ 32 - 32"
  shows "lines a e = a # lines (a + 32) e" and "unat (a + 32) = unat a + 32"
proof -
  have ae: "unat a < unat e" using assms(1) by (simp add: word_less_nat_alt)
  then show u: "unat (a + 32) = unat a + 32" using assms(2) by (simp add: unat_word_ariths)
  define n where "n = (unat e - unat (a + 32) + 31) div 32"
  have "unat e - unat a + 31 = (unat e - unat (a + 32) + 31) + 32 \<or> unat e - unat a < 32 \<and> unat e - unat (a + 32) = 0"
    using ae u by linarith
  then have n: "(unat e - unat a + 31) div 32 = Suc n"
    using ae by (auto simp: n_def)
  have "map (\<lambda>k. a + 32 * of_nat k) [0..<Suc n] = a # map (\<lambda>k. (a + 32) + 32 * of_nat k) [0..<n]"
    by (simp add: upt_conv_Cons map_Suc_upt [symmetric] comp_def algebra_simps del: upt_Suc)
  then show "lines a e = a # lines (a + 32) e" by (simp only: lines_def n n_def)
qed

lemma lines_none: "\<not> a < e \<Longrightarrow> lines a e = []"
  by (simp add: lines_def word_less_nat_alt)

lemma lines_loop_fold:
  assumes "unat e \<le> 2 ^ 32 - 32"
  shows "lines_loop f a e s = Some (fold f (lines a e) s)"
proof (induction "unat e - unat a" arbitrary: a s rule: less_induct)
  case less
  show ?case
  proof (cases "a < e")
    case True
    note st = lines_step [OF True assms]
    have "unat e - unat (a + 32) < unat e - unat a" using True st(2) by (simp add: word_less_nat_alt)
    from less [OF this] show ?thesis using True st(1) by (subst lines_loop.simps) simp
  next
    case False
    then show ?thesis by (subst lines_loop.simps) (simp add: lines_none)
  qed
qed

lemma line_aligned: "line_of a = a \<Longrightarrow> line_of (a + 32 * of_nat k) = a + 32 * of_nat k"
proof -
  assume "line_of a = a"
  then have "a = 32 * drop_bit 5 a" by (simp add: line_of_alt push_bit_eq_mult mult.commute)
  then have "a + 32 * of_nat k = push_bit 5 (drop_bit 5 a + of_nat k)" by (simp add: push_bit_eq_mult algebra_simps)
  moreover have "line_of (push_bit 5 x) = push_bit 5 x" for x :: u32
    unfolding line_of_def low_bits by (rule bit_word_eqI) (auto simp: bit_simps)
  ultimately show ?thesis by simp
qed

lemma lines_unat:
  fixes a e :: u32
  assumes "unat e \<le> 2 ^ 32 - 32" and "k < (unat e - unat a + 31) div 32"
  shows "unat (a + 32 * of_nat k) = unat a + 32 * k" and "unat a + 32 * k < unat e"
proof -
  show l: "unat a + 32 * k < unat e" using assms(2) by linarith
  have "k < 2 ^ 32" using l assms(1) by simp
  then have "unat (of_nat k :: u32) = k" by (simp add: unat_of_nat)
  then have "unat (32 * of_nat k :: u32) = 32 * k" using l assms(1) by (simp add: unat_word_ariths)
  then show "unat (a + 32 * of_nat k) = unat a + 32 * k" using l assms(1) by (simp add: unat_word_ariths)
qed

lemma in_lines:
  assumes "line_of a = a" and "unat e \<le> 2 ^ 32 - 32"
  shows "line_of b \<in> set (lines a e) \<longleftrightarrow> unat a \<le> unat (line_of b) \<and> unat (line_of b) < unat e"
proof
  assume "line_of b \<in> set (lines a e)"
  then show "unat a \<le> unat (line_of b) \<and> unat (line_of b) < unat e" using lines_unat [OF assms(2)] by (auto simp: lines_def)
next
  assume r: "unat a \<le> unat (line_of b) \<and> unat (line_of b) < unat e"
  have am: "unat a = unat a div 32 * 32" using assms(1) line_of_unat [of a] by simp
  define k where "k = unat b div 32 - unat a div 32"
  have eq: "unat (line_of b) = unat a + 32 * k" using r am by (simp add: line_of_unat k_def) linarith
  then have k: "k < (unat e - unat a + 31) div 32" using r by linarith
  then have "line_of b = a + 32 * of_nat k" using lines_unat(1) [OF assms(2) k] eq by (simp add: word_unat_eq_iff)
  then show "line_of b \<in> set (lines a e)" using k by (auto simp: lines_def)
qed

lemma lines_aligned:
  assumes "line_of a = a" and "l \<in> set (lines a e)"
  shows "line_of l = l"
  using assms line_aligned by (auto simp: lines_def)

text \<open>An operation on lines: what it keeps (\<open>inv\<close>), and what holds of a line (\<open>settled\<close>) once the operation has
  visited it.\<close>

locale line_walk =
  fixes step :: "u32 \<Rightarrow> caches \<Rightarrow> caches" and inv :: "caches \<Rightarrow> bool" and settled :: "u32 \<Rightarrow> caches \<Rightarrow> bool" and visited :: "u32 \<Rightarrow> bool"
  assumes step_inv: "inv s \<Longrightarrow> visited l \<Longrightarrow> inv (step l s)"
    and step_settles: "inv s \<Longrightarrow> visited l \<Longrightarrow> settled l (step l s)"
    and step_keeps: "inv s \<Longrightarrow> visited l \<Longrightarrow> settled k s \<Longrightarrow> settled k (step l s)"
begin

lemma fold_walk:
  "inv s \<Longrightarrow> (\<And>l. l \<in> set ls \<Longrightarrow> visited l) \<Longrightarrow>
    inv (fold step ls s) \<and> (\<forall>l\<in>set ls. settled l (fold step ls s)) \<and> (\<forall>k. settled k s \<longrightarrow> settled k (fold step ls s))"
proof (induction ls arbitrary: s)
  case (Cons l ls)
  have "visited l" using Cons.prems(2) by simp
  with Cons.IH [of "step l s"] Cons.prems show ?case using step_inv step_settles step_keeps by fastforce
qed simp

lemma walk:
  assumes "unat e \<le> 2 ^ 32 - 32" and "inv s" and "\<And>l. l \<in> set (lines a e) \<Longrightarrow> visited l"
  shows "\<exists>s'. lines_loop step a e s = Some s' \<and> inv s' \<and> (\<forall>l\<in>set (lines a e). settled l s') \<and> (\<forall>k. settled k s \<longrightarrow> settled k s')"
  using fold_walk [of s "lines a e"] assms by (simp add: lines_loop_fold)

end

lemma top_line:
  assumes "line_of a = a" and "0xFFFFFFE0 < e"
  shows "line_of (a + 32) = a + 32" and "a < e"
proof -
  have "unat a = unat a div 32 * 32" "unat a < 2 ^ 32" using assms(1) line_of_unat [of a] unsigned_less [of a] by simp_all
  moreover have "unat a div 32 < 0x8000000" using \<open>unat a < 2 ^ 32\<close> by simp
  then have "unat a div 32 * 32 \<le> 0xFFFFFFE0" by simp
  ultimately have "unat a \<le> 0xFFFFFFE0" by simp
  then have "a \<le> 0xFFFFFFE0" by (simp add: word_le_nat_alt)
  then show "a < e" using assms(2) by (rule order_le_less_trans)
  show "line_of (a + 32) = a + 32" using line_aligned [OF assms(1), of 1] by simp
qed

text \<open>A loop whose end lies in the last line of the address space never ends: the address wraps to zero
  and is below the end again.\<close>

lemma lines_loop_wraps:
  assumes "line_of a = a" and "0xFFFFFFE0 < e"
  shows "lines_loop f a e s = None"
proof -
  have "line_of a = a \<longrightarrow> 0xFFFFFFE0 < e \<longrightarrow> False" if "lines_loop f a e s = Some r" for r
  proof (rule lines_loop.raw_induct [OF _ that])
    fix loop :: "(u32 \<Rightarrow> caches \<Rightarrow> caches) \<Rightarrow> u32 \<Rightarrow> u32 \<Rightarrow> caches \<Rightarrow> caches option" and f a e' s r
    assume IH: "\<And>f a e s r. loop f a e s = Some r \<Longrightarrow> line_of a = a \<longrightarrow> 0xFFFFFFE0 < e \<longrightarrow> False"
      and st: "(if a < e' then loop f (a + 32) e' (f a s) else Some s) = Some r"
    show "line_of a = a \<longrightarrow> 0xFFFFFFE0 < e' \<longrightarrow> False"
    proof (intro impI)
      assume h: "line_of a = a" "0xFFFFFFE0 < e'"
      then have "line_of (a + 32) = a + 32" "a < e'" using top_line [OF h] by auto
      with IH h st show False by fastforce
    qed
  qed
  then show ?thesis using assms by (cases "lines_loop f a e s") auto
qed

section \<open>Flushing a range\<close>

definition in_range :: "u32 \<Rightarrow> u32 \<Rightarrow> u32 \<Rightarrow> bool" where
  "in_range adr len b \<longleftrightarrow> unat adr \<le> unat b \<and> unat b < unat adr + unat len"

text \<open>A line that is gone from the caches the operation works on.\<close>

definition line_gone :: "bool \<Rightarrow> u32 \<Rightarrow> caches \<Rightarrow> bool" where
  "line_gone amp a s \<longleftrightarrow> l1d s (line_of a) = None \<and> (\<not> amp \<longrightarrow> l2 s (line_of a) = None)"

definition same_view :: "caches \<Rightarrow> caches \<Rightarrow> bool" where
  "same_view s0 s \<longleftrightarrow> l1_on s \<and> l2_on s \<and>
    (\<forall>b. fresh s0 (line_of b) \<longrightarrow> fresh s (line_of b) \<and> cpu_view s b = cpu_view s0 b)"

lemma flush_step_same_view: "same_view s0 s \<Longrightarrow> same_view s0 (flush_step amp a s)"
  by (simp add: same_view_def flush_step_def Xil_L2CacheSync_def flush_l1_view flush_l2_view Let_def)

lemma flush_step_gone: "line_gone amp a (flush_step amp a s)"
  by (simp add: line_gone_def flush_step_def Xil_L2CacheSync_def Let_def)

lemma flush_step_stays_gone: "line_gone amp k s \<Longrightarrow> line_gone amp k (flush_step amp a s)"
  by (simp add: line_gone_def flush_step_def Xil_L2CacheSync_def Let_def stays_gone)

text \<open>What every operation on lines keeps: a line without a dirty copy gets none and its memory is not
  written, and a line that is gone does not come back.\<close>

definition nodirty :: "caches \<Rightarrow> u32 \<Rightarrow> bool" where
  "nodirty s l \<longleftrightarrow> (\<forall>c. l1d s l = Some c \<or> l2 s l = Some c \<longrightarrow> \<not> cl_dirty c)"

definition keeps :: "bool \<Rightarrow> caches \<Rightarrow> caches \<Rightarrow> bool" where
  "keeps amp s0 s \<longleftrightarrow> (\<forall>b. nodirty s0 (line_of b) \<longrightarrow> nodirty s (line_of b) \<and> dram s b = dram s0 b) \<and>
    (\<forall>b. line_gone amp b s0 \<longrightarrow> line_gone amp b s)"

lemma nodirty_ops:
  assumes "nodirty s (line_of b)"
  shows "nodirty (flush_l1 P s) (line_of b) \<and> dram (flush_l1 P s) b = dram s b"
    and "nodirty (flush_l2 P s) (line_of b) \<and> dram (flush_l2 P s) b = dram s b"
    and "nodirty (inval_l1 P s) (line_of b)" and "nodirty (inval_l2 P s) (line_of b)"
  using assms by (auto simp: nodirty_def flush_l1_def clean_l1_def inval_l1_def flush_l2_def clean_l2_def inval_l2_def split: option.splits if_splits)

lemma inval_dram [simp]: "dram (inval_l1 P s) = dram s" "dram (inval_l2 P s) = dram s"
  by (simp_all add: inval_l1_def inval_l2_def)

lemma nodirty_out [simp]: "nodirty (l2_out off v s) l = nodirty s l"
  by (simp add: nodirty_def)

lemma flush_step_keeps: "keeps amp s0 s \<Longrightarrow> keeps amp s0 (flush_step amp a s)"
  by (simp add: keeps_def flush_step_stays_gone) (simp add: flush_step_def Xil_L2CacheSync_def Let_def nodirty_ops)

interpretation flush_walk: line_walk "flush_step amp" "\<lambda>s. same_view s0 s \<and> keeps amp s0 s" "line_gone amp" "\<lambda>_. True" for amp s0
  by unfold_locales (simp_all add: flush_step_same_view flush_step_gone flush_step_stays_gone flush_step_keeps)

lemma gone_view:
  assumes "line_gone amp b s"
  shows "cpu_view s b = (if amp then below_view s b else dram s b)"
  using assms by (simp add: line_gone_def cpu_view_def below_view_def)

lemma range_end:
  fixes adr len :: u32
  assumes "unat adr + unat len \<le> 2 ^ 32 - 32"
  shows "unat (adr + len) = unat adr + unat len"
  using assms by (simp add: unat_word_ariths)

lemma in_range_line:
  assumes "unat adr + unat len \<le> 2 ^ 32 - 32" and "in_range adr len b"
  shows "line_of b \<in> set (lines (line_of adr) (adr + len))"
proof -
  have "unat adr div 32 \<le> unat b div 32" using assms(2) by (simp add: in_range_def div_le_mono)
  moreover have "unat b div 32 * 32 \<le> unat b" by (rule div_times_less_eq_dividend)
  then have "unat b div 32 * 32 < unat adr + unat len" using assms(2) unfolding in_range_def by linarith
  ultimately show ?thesis
    using assms by (subst in_lines) (simp_all add: range_end line_of_unat)
qed

lemma mask_line: "(adr AND NOT (32 - 1)) = line_of adr"
  by (simp add: line_of_def)

lemma over_range_lines:
  "over_range f adr len s = (if len \<noteq> 0 then lines_loop f (line_of adr) (adr + len) s else Some s)"
  unfolding over_range_def mask_line ..

lemma keeps_cpsr [simp]: "keeps amp s (s'\<lparr>c_cpsr := x\<rparr>) = keeps amp s s'" "line_gone amp b (s'\<lparr>c_cpsr := x\<rparr>) = line_gone amp b s'"
  by (simp_all add: keeps_def nodirty_def line_gone_def)

lemma same_view_cpsr [simp]: "same_view s (s'\<lparr>c_cpsr := x\<rparr>) = same_view s s'"
  by (simp add: same_view_def)

lemma flush_range_run:
  assumes "l1_on s" and "l2_on s" and "unat adr + unat len \<le> 2 ^ 32 - 32"
  obtains s' where "Xil_DCacheFlushRange amp adr len s = Some s'" "c_cpsr s' = c_cpsr s" "same_view s s'" "keeps amp s s'"
    "\<And>b. in_range adr len b \<Longrightarrow> line_gone amp b s'"
proof -
  let ?s = "s\<lparr>c_cpsr := c_cpsr s OR IRQ_FIQ_MASK\<rparr>"
  have e: "unat (adr + len) \<le> 2 ^ 32 - 32" using assms(3) by (simp add: range_end)
  have i: "same_view s ?s \<and> keeps amp s ?s" using assms(1,2) by (simp add: same_view_def) (simp add: keeps_def)
  obtain s1 where s1: "lines_loop (flush_step amp) (line_of adr) (adr + len) ?s = Some s1" "same_view s s1 \<and> keeps amp s s1"
      "\<forall>l\<in>set (lines (line_of adr) (adr + len)). line_gone amp l s1"
    using flush_walk.walk [OF e i] by blast
  have g: "line_gone amp b s1" if "in_range adr len b" for b
    using s1(3) in_range_line [OF assms(3) that] by (auto simp: line_gone_def)
  show ?thesis
  proof (cases "len = 0")
    case True
    then show ?thesis using i by (intro that [of s]) (auto simp: Xil_DCacheFlushRange_def masked_def over_range_def in_range_def)
  next
    case False
    then have "Xil_DCacheFlushRange amp adr len s = Some (s1\<lparr>c_cpsr := c_cpsr s\<rparr>)"
      using s1(1) by (simp add: Xil_DCacheFlushRange_def masked_def over_range_lines)
    then show ?thesis using s1(2) g by (intro that [of "s1\<lparr>c_cpsr := c_cpsr s\<rparr>"]) simp_all
  qed
qed

text \<open>Both levels on, one line written by the core and not yet in memory.\<close>

definition cache_sample :: caches where
  "cache_sample = \<lparr>c_cpsr = 0, c_control = 4, c_csid = 0x701FE019, l2cc = (\<lambda>_. 1),
     l1d = (\<lambda>a. if a = 0x1000 then Some \<lparr>cl_data = (\<lambda>_. 7), cl_dirty = True\<rparr> else None), l1i = (\<lambda>_. None), l2 = (\<lambda>_. None),
     dram = (\<lambda>_. 0), l1way = (\<lambda>_. 3), l2_alloc = (\<lambda>_. True)\<rparr>"

lemma cache_sample_ok:
  "l1_on cache_sample" "l2_on cache_sample" "fresh cache_sample a" "l1way cache_sample a < 4" "dram cache_sample b = 0"
  "cpu_view cache_sample 0x1005 = 7"
  by (auto simp: cache_sample_def l1_on_def l2_on_def fresh_def cpu_view_def line_of_def XREG_CP15_CONTROL_C_BIT_def split: if_splits)

text \<open>
  C28: flushing an address range. For a range that ends before the last line of the
  address space the function returns with the interrupt mask as it was; what the core reads does not
  change at any address; and for every byte of the range the line has left the caches and the memory
  below them, for the whole cache system the memory that other bus masters see, holds what the core
  saw.
\<close>

theorem dcache_flush_range:
  assumes "l1_on s" and "l2_on s" and "\<And>b. fresh s (line_of b)" and "unat adr + unat len \<le> 2 ^ 32 - 32"
  shows "\<exists>s'. Xil_DCacheFlushRange amp adr len s = Some s' \<and> c_cpsr s' = c_cpsr s \<and> (\<forall>b. cpu_view s' b = cpu_view s b) \<and>
    (\<forall>b. in_range adr len b \<longrightarrow> l1d s' (line_of b) = None \<and> (if amp then below_view s' b else dram s' b) = cpu_view s b)"
proof -
  obtain s' where s': "Xil_DCacheFlushRange amp adr len s = Some s'" "c_cpsr s' = c_cpsr s" "same_view s s'"
      "\<And>b. in_range adr len b \<Longrightarrow> line_gone amp b s'"
    using flush_range_run [OF assms(1,2,4), of amp] by blast
  have v: "cpu_view s' b = cpu_view s b" for b using s'(3) assms(3) by (simp add: same_view_def)
  show ?thesis
  proof (intro exI conjI allI impI, rule s'(1))
    fix b assume "in_range adr len b"
    note g = s'(4) [OF this]
    show "l1d s' (line_of b) = None" using g by (simp add: line_gone_def)
    show "(if amp then below_view s' b else dram s' b) = cpu_view s b" using gone_view [OF g] v [of b] by simp
  qed (simp_all add: s'(2) v)
qed

theorem dcache_flush_range_witness:
  "\<exists>s'. Xil_DCacheFlushRange False 0x1004 8 cache_sample = Some s' \<and> cpu_view s' 0x1005 = 7 \<and> dram s' 0x1005 = 7"
proof -
  have "in_range 0x1004 8 0x1005" by (simp add: in_range_def)
  then show ?thesis
    using dcache_flush_range [of cache_sample "0x1004" "8" False, OF cache_sample_ok(1,2,3)] by (fastforce simp: cache_sample_ok)
qed

text \<open>Ranges that reach the last line: one that ends with the address space is not flushed at all, one that
  ends inside the last line keeps the loop running for ever.\<close>

lemma dcache_flush_range_top:
  assumes "unat adr + unat len = 2 ^ 32"
  shows "Xil_DCacheFlushRange amp adr len s = Some s"
proof -
  have "adr + len = 0" using assms by (simp add: word_unat_eq_iff unat_word_ariths)
  then show ?thesis by (simp add: Xil_DCacheFlushRange_def masked_def over_range_lines lines_loop.simps)
qed

lemma dcache_flush_range_hangs:
  assumes "2 ^ 32 - 32 < unat adr + unat len" and "unat adr + unat len < 2 ^ 32" and "len \<noteq> 0"
  shows "Xil_DCacheFlushRange amp adr len s = None"
proof -
  have "unat (adr + len) = unat adr + unat len" using assms(2) by (simp add: unat_word_ariths)
  then have "0xFFFFFFE0 < adr + len" using assms(1) by (simp add: word_less_nat_alt)
  then show ?thesis using assms(3) by (simp add: Xil_DCacheFlushRange_def masked_def over_range_lines lines_loop_wraps)
qed

section \<open>Invalidating a range\<close>

text \<open>The lines that the range covers completely.\<close>

definition covered :: "u32 \<Rightarrow> u32 \<Rightarrow> u32 \<Rightarrow> bool" where
  "covered adr len l \<longleftrightarrow> unat adr \<le> unat l \<and> unat l + 32 \<le> unat adr + unat len"

text \<open>States that agree outside a set of lines, and have the same memory.\<close>

definition agree_off :: "bool \<Rightarrow> (u32 \<Rightarrow> bool) \<Rightarrow> caches \<Rightarrow> caches \<Rightarrow> bool" where
  "agree_off amp L s0 s \<longleftrightarrow> l1_on s = l1_on s0 \<and> l2_on s = l2_on s0 \<and> dram s = dram s0 \<and>
    (\<forall>a. \<not> L a \<longrightarrow> l1d s a = l1d s0 a \<and> l2 s a = l2 s0 a) \<and> (amp \<longrightarrow> l2 s = l2 s0)"

lemma inval_step_agree:
  assumes "agree_off amp L s0 s" and "L l" and "line_of l = l"
  shows "agree_off amp L s0 (inval_step amp l s)"
proof -
  have a: "l1d (inval_step amp l s) = (l1d s)(l := None)" "l2 (inval_step amp l s) = (if amp then l2 s else (l2 s)(l := None))"
      "dram (inval_step amp l s) = dram s" "l1_on (inval_step amp l s) = l1_on s" "l2_on (inval_step amp l s) = l2_on s"
    using assms(3) by (auto simp: inval_step_def Xil_L2CacheSync_def fun_eq_iff) (simp_all add: inval_l1_def inval_l2_def)
  show ?thesis using assms unfolding agree_off_def a by (cases amp) auto
qed

lemma inval_step_gone: "line_gone amp l (inval_step amp l s)"
  by (simp add: line_gone_def inval_step_def Xil_L2CacheSync_def) (simp add: inval_l1_def inval_l2_def)

lemma inval_step_stays_gone: "line_gone amp k s \<Longrightarrow> line_gone amp k (inval_step amp l s)"
  by (simp add: line_gone_def inval_step_def Xil_L2CacheSync_def) (simp add: inval_l1_def inval_l2_def)

lemma inval_step_keeps: "keeps amp s0 s \<Longrightarrow> keeps amp s0 (inval_step amp a s)"
  by (simp add: keeps_def inval_step_stays_gone) (simp add: inval_step_def Xil_L2CacheSync_def nodirty_ops)

interpretation inval_walk: line_walk "inval_step amp" "\<lambda>s. agree_off amp L s0 s \<and> keeps amp s1 s" "line_gone amp" "\<lambda>l. L l \<and> line_of l = l"
  for amp L s0 s1
  by unfold_locales (simp_all add: inval_step_agree inval_step_gone inval_step_stays_gone inval_step_keeps)

lemma agree_off_view:
  assumes "agree_off amp L s0 s"
  shows "\<not> L (line_of b) \<Longrightarrow> cpu_view s b = cpu_view s0 b" and "amp \<Longrightarrow> below_view s b = below_view s0 b"
  using assms by (auto simp: agree_off_def cpu_view_def below_view_def split: option.splits)

text \<open>Flushing a line that is covered in part.\<close>

definition off_lines :: "(u32 \<Rightarrow> bool) \<Rightarrow> caches \<Rightarrow> caches \<Rightarrow> bool" where
  "off_lines L s0 s \<longleftrightarrow> (\<forall>b. L (line_of b) \<longrightarrow> l1d s (line_of b) = l1d s0 (line_of b) \<and> l2 s (line_of b) = l2 s0 (line_of b) \<and> dram s b = dram s0 b)"

lemma flush_partial_step:
  "flush_partial amp a s = (if amp then flush_step amp a s
     else l2_out XPS_L2CC_CACHE_SYNC_OFFSET 0 (l2_out XPS_L2CC_DEBUG_CTRL_OFFSET 0 (flush_l2 ((=) (line_of a))
       (l2_out XPS_L2CC_DEBUG_CTRL_OFFSET 3 (flush_l1 ((=) (line_of a)) s)))))"
  by (simp add: flush_partial_def flush_step_def Xil_L1DCacheFlushLine_def l2_flush_line_locked_def Xil_L2CacheSync_def
      Xil_L2WriteDebugCtrl_def Xil_L2CacheFlushLine_def flush_l2_def line_of_def Let_def)

lemma flush_partial_view:
  assumes "same_view s0 s"
  shows "same_view s0 (flush_partial amp a s)"
  using assms by (auto simp: flush_partial_step flush_step_same_view) (simp add: same_view_def flush_l1_view flush_l2_view)

lemma flush_partial_off:
  assumes "off_lines L s0 s" and "\<not> L (line_of a)"
  shows "off_lines L s0 (flush_partial amp a s)"
proof -
  have "L (line_of b) \<Longrightarrow> line_of a \<noteq> line_of b" for b using assms(2) by auto
  then show ?thesis using assms(1)
    by (auto simp: off_lines_def flush_partial_step flush_step_def other_line Let_def)
qed

lemma flush_partial_keeps: "keeps amp s0 s \<Longrightarrow> keeps amp s0 (flush_partial amp a s)"
  using flush_step_keeps [of amp s0 s a] by (cases amp) (auto simp: flush_partial_step keeps_def nodirty_ops line_gone_def stays_gone)

lemma flush_partial_gone: "line_gone amp a (flush_partial amp a s)"
  by (cases amp) (simp_all add: flush_partial_step flush_step_gone, simp add: line_gone_def)

lemma partial_iff: "adr AND (32 - 1) \<noteq> 0 \<longleftrightarrow> line_of adr \<noteq> adr"
proof -
  have "(adr AND (32 - 1)) = take_bit 5 adr" by (simp add: take_bit_eq_mask mask_eq_exp_minus_1)
  then have "unat (adr AND (32 - 1)) = unat adr mod 32" by (simp add: take_bit_eq_mod unat_mod_distrib)
  then have "adr AND (32 - 1) = 0 \<longleftrightarrow> unat adr mod 32 = 0" by (metis unat_eq_zero)
  also have "\<dots> \<longleftrightarrow> unat (line_of adr) = unat adr"
    unfolding line_of_unat using div_mult_mod_eq [of "unat adr" 32] by linarith
  finally show ?thesis by (simp add: word_unat_eq_iff)
qed

text \<open>Where the loop starts and ends.\<close>

lemma loop_bounds:
  assumes "unat adr + unat len \<le> 2 ^ 32 - 32" and "len \<noteq> 0" and "ta = (if line_of adr \<noteq> adr then line_of adr + 32 else adr)"
  shows "line_of ta = ta" and "unat (line_of (adr + len)) \<le> 2 ^ 32 - 32"
    and "line_of b \<in> set (lines ta (line_of (adr + len))) \<longleftrightarrow> covered adr len (line_of b)"
proof -
  have l: "0 < unat len" using assms(2) by (simp add: unat_gt_0)
  have e: "unat (line_of (adr + len)) = (unat adr + unat len) div 32 * 32" using range_end [OF assms(1)] by (simp add: line_of_unat)
  have "(unat adr + unat len) div 32 * 32 \<le> unat adr + unat len" by (rule div_times_less_eq_dividend)
  then show e2: "unat (line_of (adr + len)) \<le> 2 ^ 32 - 32" using e assms(1) by linarith
  show al: "line_of ta = ta" using line_aligned [of "line_of adr" 1] by (auto simp: assms(3))
  have "unat (line_of adr) + 32 < 2 ^ 32"
    using assms(1) l div_times_less_eq_dividend [of "unat adr" 32] unfolding line_of_unat by linarith
  then have "unat (line_of adr + 32) = unat adr div 32 * 32 + 32" by (simp add: unat_word_ariths line_of_unat)
  moreover have "line_of adr = adr \<longleftrightarrow> unat adr mod 32 = 0"
    unfolding word_unat_eq_iff line_of_unat using div_mult_mod_eq [of "unat adr" 32] by linarith
  ultimately have ta: "unat ta = (if unat adr mod 32 = 0 then unat adr else unat adr div 32 * 32 + 32)"
    by (simp add: assms(3))
  define x where "x = unat b div 32"
  have b: "unat (line_of b) = x * 32" by (simp add: line_of_unat x_def)
  have lo: "unat ta \<le> x * 32 \<longleftrightarrow> unat adr \<le> x * 32"
  proof (cases "unat adr mod 32 = 0")
    case False
    define q where "q = unat adr div 32"
    have "unat adr = q * 32 + unat adr mod 32" by (simp add: q_def)
    moreover have "unat adr mod 32 < 32" by simp
    ultimately have "unat adr \<le> x * 32 \<longleftrightarrow> q < x" using False by linarith
    then show ?thesis unfolding ta q_def using False by auto
  qed (simp add: ta)
  have hi: "x * 32 < (unat adr + unat len) div 32 * 32 \<longleftrightarrow> x * 32 + 32 \<le> unat adr + unat len"
  proof -
    have "x < n div 32 \<longleftrightarrow> Suc x * 32 \<le> n" for n :: nat
      by (subst Suc_le_eq [symmetric], rule less_eq_div_iff_mult_less_eq) simp
    then show ?thesis by (simp add: add.commute)
  qed
  show "line_of b \<in> set (lines ta (line_of (adr + len))) \<longleftrightarrow> covered adr len (line_of b)"
    unfolding in_lines [OF al e2] covered_def e b using lo hi by simp
qed

lemma range_parts:
  assumes "unat adr + unat len \<le> 2 ^ 32 - 32" and "in_range adr len b" and "\<not> covered adr len (line_of b)"
  shows "line_of b = line_of adr \<and> line_of adr \<noteq> adr \<or> line_of b = line_of (adr + len) \<and> line_of (adr + len) \<noteq> adr + len"
proof -
  define x where "x = unat b div 32"
  have b: "x * 32 \<le> unat b" "unat b < x * 32 + 32" using div_mult_mod_eq [of "unat b" 32] mod_less_divisor [of 32 "unat b"]
    unfolding x_def by linarith+
  have same: "n div 32 = x" if "x * 32 \<le> n" "n < x * 32 + 32" for n using that by (intro div_nat_eqI) simp_all
  have u: "unat (line_of b) = x * 32" by (simp add: line_of_unat x_def)
  consider "x * 32 < unat adr" | "unat adr + unat len < x * 32 + 32" using assms(3) unfolding covered_def u by linarith
  then show ?thesis
  proof cases
    case 1
    then have "unat adr div 32 = x" using assms(2) b by (intro same) (simp_all add: in_range_def)
    then show ?thesis using 1 by (simp add: word_unat_eq_iff line_of_unat x_def)
  next
    case 2
    have lt: "unat b < unat adr + unat len" using assms(2) by (simp add: in_range_def)
    then have "(unat adr + unat len) div 32 = x" using 2 b by (intro same) linarith+
    moreover have "x * 32 \<noteq> unat adr + unat len" using lt b(1) by linarith
    ultimately show ?thesis using range_end [OF assms(1)] by (simp add: word_unat_eq_iff line_of_unat x_def)
  qed
qed

text \<open>What holds between the states before and after.\<close>

definition invalidated :: "bool \<Rightarrow> u32 \<Rightarrow> u32 \<Rightarrow> caches \<Rightarrow> caches \<Rightarrow> bool" where
  "invalidated amp adr len s s' \<longleftrightarrow> c_cpsr s' = c_cpsr s \<and> l1_on s' \<and> l2_on s' \<and> keeps amp s s' \<and>
    (\<forall>b. \<not> covered adr len (line_of b) \<longrightarrow> fresh s (line_of b) \<longrightarrow> fresh s' (line_of b) \<and> cpu_view s' b = cpu_view s b) \<and>
    (\<forall>b. covered adr len (line_of b) \<longrightarrow> cpu_view s' b = (if amp then below_view s b else dram s b)) \<and>
    (\<forall>b. in_range adr len b \<longrightarrow> line_gone amp b s')"

lemma invalidate_range_form:
  fixes s :: caches and adr len :: u32 and amp :: bool
  defines "t \<equiv> s\<lparr>c_cpsr := c_cpsr s OR IRQ_FIQ_MASK\<rparr>"
  defines "s1 \<equiv> if line_of adr \<noteq> adr then flush_partial amp (line_of adr) t else t"
  assumes "len \<noteq> 0"
  shows "Xil_DCacheInvalidateRange amp adr len s = map_option (\<lambda>s'. s'\<lparr>c_cpsr := c_cpsr s\<rparr>)
    (lines_loop (inval_step amp) (if line_of adr \<noteq> adr then line_of adr + 32 else adr) (line_of (adr + len))
      (if line_of (adr + len) \<noteq> adr + len then flush_partial amp (line_of (adr + len)) s1 else s1))"
proof -
  have eq: "(if adr + len AND (32 - 1) \<noteq> 0 then (line_of (adr + len), flush_partial amp (line_of (adr + len)) x) else (adr + len, x)) =
      (line_of (adr + len), if line_of (adr + len) \<noteq> adr + len then flush_partial amp (line_of (adr + len)) x else x)" for x
    unfolding partial_iff by simp
  have eq0: "(if adr AND (32 - 1) \<noteq> 0 then (line_of adr + 32, flush_partial amp (line_of adr) x) else (adr, x)) =
      (if line_of adr \<noteq> adr then line_of adr + 32 else adr, if line_of adr \<noteq> adr then flush_partial amp (line_of adr) x else x)" for x
    unfolding partial_iff by simp
  show ?thesis using assms(3) unfolding Xil_DCacheInvalidateRange_def masked_def Let_def mask_line eq eq0 s1_def t_def by simp
qed

lemma invalidate_range_run:
  assumes "l1_on s" and "l2_on s" and "unat adr + unat len \<le> 2 ^ 32 - 32"
  shows "\<exists>s'. Xil_DCacheInvalidateRange amp adr len s = Some s' \<and> invalidated amp adr len s s'"
proof (cases "len = 0")
  case True
  then show ?thesis using assms by (auto simp: Xil_DCacheInvalidateRange_def masked_def invalidated_def covered_def keeps_def in_range_def)
next
  case False
  let ?s = "s\<lparr>c_cpsr := c_cpsr s OR IRQ_FIQ_MASK\<rparr>" and ?L = "covered adr len"
  define ta where "ta = (if line_of adr \<noteq> adr then line_of adr + 32 else adr)"
  define s1 where "s1 = (if line_of adr \<noteq> adr then flush_partial amp (line_of adr) ?s else ?s)"
  define s2 where "s2 = (if line_of (adr + len) \<noteq> adr + len then flush_partial amp (line_of (adr + len)) s1 else s1)"
  note lb = loop_bounds [OF assms(3) False ta_def]
  have "same_view s ?s" using assms(1,2) by (simp add: same_view_def)
  then have sv: "same_view s s2" by (simp add: s2_def s1_def flush_partial_view)
  have "\<not> ?L (line_of adr)" if "line_of adr \<noteq> adr"
    using that div_times_less_eq_dividend [of "unat adr" 32] unfolding covered_def line_of_unat word_unat_eq_iff by linarith
  moreover have "\<not> ?L (line_of (adr + len))"
  proof -
    have "n < n div 32 * 32 + 32" for n :: nat using div_mult_mod_eq [of n 32] mod_less_divisor [of 32 n] by linarith
    then show ?thesis unfolding covered_def line_of_unat range_end [OF assms(3)] by (simp add: not_le)
  qed
  moreover have "off_lines ?L s ?s" by (simp add: off_lines_def)
  ultimately have off: "off_lines ?L s s2" by (simp add: s2_def s1_def flush_partial_off)
  have run: "Xil_DCacheInvalidateRange amp adr len s = map_option (\<lambda>s'. s'\<lparr>c_cpsr := c_cpsr s\<rparr>) (lines_loop (inval_step amp) ta (line_of (adr + len)) s2)"
    unfolding ta_def s2_def s1_def by (rule invalidate_range_form [OF False])
  have vis: "?L l \<and> line_of l = l" if "l \<in> set (lines ta (line_of (adr + len)))" for l
    using lines_aligned [OF lb(1) that] lb(3) [of l] that by simp
  have kp: "keeps amp s ?s" by simp (simp add: keeps_def)
  then have k2: "keeps amp s s1" "keeps amp s s2" by (simp_all add: s1_def s2_def flush_partial_keeps del: keeps_cpsr)
  have ag: "agree_off amp ?L s2 s2 \<and> keeps amp s s2" using k2 by (simp add: agree_off_def)
  obtain s3 where s3: "lines_loop (inval_step amp) ta (line_of (adr + len)) s2 = Some s3" "agree_off amp ?L s2 s3" "keeps amp s s3"
      "\<forall>l\<in>set (lines ta (line_of (adr + len))). line_gone amp l s3" "\<forall>k. line_gone amp k s2 \<longrightarrow> line_gone amp k s3"
    using inval_walk.walk [where L = ?L, OF lb(2) ag vis] by blast
  have keep: "cpu_view s3 b = cpu_view s b" if "\<not> ?L (line_of b)" "fresh s (line_of b)" for b
    using agree_off_view(1) [OF s3(2) that(1)] sv that(2) by (simp add: same_view_def)
  have new: "cpu_view s3 b = (if amp then below_view s b else dram s b)" if L: "?L (line_of b)" for b
  proof -
    have "line_gone amp b s3" using s3(4) lb(3) [of b] L by (auto simp: line_gone_def)
    moreover have "dram s3 b = dram s b" using s3(2) off L by (simp add: agree_off_def off_lines_def)
    moreover have "below_view s2 b = below_view s b"
      using off L sv assms(2) by (auto simp: below_view_def off_lines_def same_view_def split: option.splits)
    ultimately show ?thesis using gone_view [of amp b s3] agree_off_view(2) [OF s3(2)] by simp
  qed
  have on: "l1_on s3" "l2_on s3" using sv s3(2) by (simp_all add: same_view_def agree_off_def)
  have fr: "fresh s3 (line_of b)" if "\<not> ?L (line_of b)" "fresh s (line_of b)" for b
  proof -
    have "fresh s2 (line_of b)" using sv that(2) by (simp add: same_view_def)
    moreover have "l1d s3 (line_of b) = l1d s2 (line_of b)" "l2 s3 (line_of b) = l2 s2 (line_of b)" "dram s3 = dram s2" "l2_on s3 = l2_on s2"
      using s3(2) that(1) by (simp_all add: agree_off_def)
    ultimately show ?thesis by (simp add: fresh_def below_view_def split: option.splits)
  qed
  have gone: "line_gone amp b s3" if r: "in_range adr len b" for b
  proof (cases "?L (line_of b)")
    case True
    then show ?thesis using s3(4) lb(3) [of b] by (auto simp: line_gone_def)
  next
    case False
    have "line_gone amp (line_of adr) s2" if "line_of adr \<noteq> adr"
      using flush_partial_keeps [of amp s1 s1 "line_of (adr + len)"] flush_partial_gone [of amp "line_of adr"] that
      by (simp add: s2_def keeps_def) (metis s1_def)
    moreover have "line_gone amp (line_of (adr + len)) s2" if "line_of (adr + len) \<noteq> adr + len"
      using that by (simp add: s2_def flush_partial_gone)
    ultimately have "line_gone amp b s2" using range_parts [OF assms(3) r False] by (auto simp: line_gone_def)
    then show ?thesis using s3(5) by blast
  qed
  show ?thesis using run s3(1,3) keep new on fr gone by (simp add: invalidated_def)
qed

text \<open>
  C29: invalidating an address range. For a range that ends before the last
  line of the address space the function returns; at every address of a line the range does not cover
  completely the core reads what it read before, so the neighbours of an unaligned buffer lose nothing; and in a
  line that it covers the core reads what is below the caches the function works on, for the whole
  cache system the memory, whatever the caches held.
\<close>

theorem dcache_invalidate_range:
  assumes "l1_on s" and "l2_on s" and "unat adr + unat len \<le> 2 ^ 32 - 32"
  shows "\<exists>s'. Xil_DCacheInvalidateRange amp adr len s = Some s' \<and> c_cpsr s' = c_cpsr s \<and>
    (\<forall>b. \<not> covered adr len (line_of b) \<longrightarrow> fresh s (line_of b) \<longrightarrow> cpu_view s' b = cpu_view s b) \<and>
    (\<forall>b. covered adr len (line_of b) \<longrightarrow> cpu_view s' b = (if amp then below_view s b else dram s b))"
  using invalidate_range_run [OF assms, of amp] unfolding invalidated_def by blast

theorem dcache_invalidate_range_witness:
  "\<exists>s'. Xil_DCacheInvalidateRange False 0x1000 32 cache_sample = Some s' \<and> cpu_view cache_sample 0x1005 = 7 \<and> cpu_view s' 0x1005 = 0"
proof -
  have "covered 0x1000 32 (line_of 0x1005)" by (simp add: covered_def line_of_def)
  then show ?thesis
    using dcache_invalidate_range [of cache_sample "0x1000" "32" False, OF cache_sample_ok(1,2)] by (fastforce simp: cache_sample_ok)
qed

section \<open>Flushing everything\<close>

text \<open>The loops over ways and sets, as one walk over the values written to the register.\<close>

lemma counter_fold:
  "fold (\<lambda>_ (c, s). (c + d, g c s)) [0..<n] (c, s) = (c + of_nat n * d, fold (\<lambda>k. g (c + of_nat k * d)) [0..<n] s)" for c d :: u32
  by (induction n) (simp_all add: algebra_simps)

text \<open>The size register of the first-level data cache of the Zynq: 32 KB in four ways of 256 sets.\<close>

definition zynq_csid :: u32 where "zynq_csid = 0x701FE019"

lemma zynq_geometry: "cache_geometry zynq_csid = (5, 4, 256)"
  by (simp add: zynq_csid_def cache_geometry_def Let_def)

definition slots :: "u32 list" where
  "slots = concat (map (\<lambda>w. map (\<lambda>k. (of_nat w * 0x40000000) OR (of_nat k * 32)) [0..<256]) [0..<4])"

lemma fold_map_comp: "fold f (map g xs) = fold (\<lambda>x. f (g x)) xs"
  by (simp add: fold_map comp_def)

lemma fold_concat_map: "fold f (concat (map g xs)) = fold (\<lambda>x. fold f (g x)) xs"
  by (induction xs) (simp_all add: fun_eq_iff)

lemma by_set_way_slots:
  assumes "c_csid s = zynq_csid"
  shows "by_set_way f s = fold f slots s"
proof -
  have way: "snd (fold (\<lambda>_ (Set, s). (Set + push_bit 5 1, f (Way OR Set) s)) [0..<256] (0, s)) =
      fold (\<lambda>k. f (Way OR of_nat k * 32)) [0..<256] s" for Way s
    using counter_fold [of "32" "\<lambda>c. f (Way OR c)" 256 0 s] by (simp add: push_bit_eq_mult)
  have all: "fold f slots s = fold (\<lambda>w. fold (\<lambda>k. f (of_nat w * 0x40000000 OR of_nat k * 32)) [0..<256]) [0..<4] s"
    unfolding slots_def fold_concat_map fold_map_comp ..
  show ?thesis
    unfolding by_set_way_def assms zynq_geometry all
    using counter_fold [of "0x40000000" "\<lambda>Way. fold (\<lambda>k. f (Way OR of_nat k * 32)) [0..<256]" 4 0 s]
    by (simp add: way [simplified push_bit_eq_mult, simplified])
qed

lemma slot_exists:
  assumes "l1way s a < 4"
  shows "\<exists>r\<in>set slots. in_slot s r a"
proof -
  have w: "unat (l1way s a) < 4" using assms by (simp add: word_less_nat_alt)
  have k: "unat (take_bit 8 (drop_bit 5 a)) < 256" using take_bit_nat_less_exp [of 8 "unat (drop_bit 5 a)"] by (simp add: unsigned_take_bit_eq)
  have m: "(0x1FE0 :: u32) = push_bit 5 (mask 8)" by (simp add: mask_eq_exp_minus_1 push_bit_eq_mult)
  have "a AND 0x1FE0 = push_bit 5 (take_bit 8 (drop_bit 5 a))"
    unfolding m by (rule bit_word_eqI) (auto simp: bit_simps)
  then have "in_slot s (of_nat (unat (l1way s a)) * 0x40000000 OR of_nat (unat (take_bit 8 (drop_bit 5 a))) * 32) a"
    by (simp add: in_slot_def push_bit_eq_mult)
  moreover have "of_nat i * 0x40000000 OR of_nat j * 32 \<in> set slots" if "i < 4" "j < 256" for i j
    unfolding slots_def set_concat set_map by (rule UN_I [of "map _ _"], rule imageI) (use that in auto)
  ultimately show ?thesis using w k by blast
qed

text \<open>What a flush by set and way keeps, and what it settles.\<close>

definition sw_inv :: "caches \<Rightarrow> caches \<Rightarrow> bool" where
  "sw_inv s0 s \<longleftrightarrow> l1_on s \<and> l2_on s = l2_on s0 \<and> l1way s = l1way s0 \<and> c_csid s = c_csid s0 \<and> c_cpsr s = c_cpsr s0 \<and>
    c_control s = c_control s0 \<and> (\<forall>b. fresh s (line_of b) \<and> cpu_view s b = cpu_view s0 b)"

definition slot_gone :: "u32 \<Rightarrow> caches \<Rightarrow> bool" where
  "slot_gone r s \<longleftrightarrow> (\<forall>a. in_slot s r a \<longrightarrow> l1d s a = None)"

lemma flush_l1_fixed [simp]: "l1way (flush_l1 P s) = l1way s" "c_control (flush_l1 P s) = c_control s" "c_csid (flush_l1 P s) = c_csid s"
  by (simp_all add: flush_l1_def inval_l1_def clean_l1_def)

lemma in_slot_flush [simp]: "in_slot (flush_l1 P s) = in_slot s"
  by (simp add: in_slot_def fun_eq_iff)

interpretation sw_walk: line_walk "\<lambda>r s. flush_l1 (in_slot s r) s" "sw_inv s0" slot_gone "\<lambda>_. True" for s0
  by unfold_locales (simp_all add: sw_inv_def slot_gone_def flush_l1_view stays_gone)

lemma l1_flush_all:
  assumes "l1_on s" and "\<And>b. fresh s (line_of b)" and "c_csid s = zynq_csid" and "\<And>a. l1way s a < 4"
  obtains s' where "Xil_L1DCacheFlush s = Some s'" "sw_inv s s'" "\<And>a. l1d s' a = None"
proof -
  let ?s = "s\<lparr>c_cpsr := c_cpsr s OR IRQ_FIQ_MASK\<rparr>" and ?f = "\<lambda>r s. flush_l1 (in_slot s r) s"
  let ?t = "fold ?f slots ?s"
  have "sw_inv ?s ?s" using assms(1,2) by (simp add: sw_inv_def)
  from sw_walk.fold_walk [OF this, of slots] have t: "sw_inv ?s ?t" "\<forall>r\<in>set slots. slot_gone r ?t" by auto
  have "l1d ?t a = None" for a
  proof -
    have "l1way ?t a < 4" using t(1) assms(4) by (simp add: sw_inv_def)
    from slot_exists [OF this] show ?thesis using t(2) by (auto simp: slot_gone_def)
  qed
  moreover have "Xil_L1DCacheFlush s = Some (?t\<lparr>c_cpsr := c_cpsr s\<rparr>)"
    using assms(3) by (simp add: Xil_L1DCacheFlush_def masked_def by_set_way_slots)
  moreover have "sw_inv s (?t\<lparr>c_cpsr := c_cpsr s\<rparr>)" using t(1) by (simp add: sw_inv_def)
  ultimately show ?thesis using that [of "?t\<lparr>c_cpsr := c_cpsr s\<rparr>"] by simp
qed

lemma l2_flush_all:
  assumes "l2_on s" and "\<And>b. fresh s (line_of b)"
  shows "cpu_view (Xil_L2CacheFlush s) b = cpu_view s b" and "fresh (Xil_L2CacheFlush s) (line_of b)"
    and "dram (Xil_L2CacheFlush s) b = below_view s b" and "l2 (Xil_L2CacheFlush s) a = None"
  using assms by (simp_all add: Xil_L2CacheFlush_def Xil_L2CacheSync_def Xil_L2WriteDebugCtrl_def flush_l2_view)

lemma l2_flush_fixed [simp]:
  "l1d (Xil_L2CacheFlush s) = l1d s" "c_cpsr (Xil_L2CacheFlush s) = c_cpsr s" "l1_on (Xil_L2CacheFlush s) = l1_on s"
  "l2_on (Xil_L2CacheFlush s) = l2_on s" "l1way (Xil_L2CacheFlush s) = l1way s" "c_csid (Xil_L2CacheFlush s) = c_csid s"
  by (simp_all add: Xil_L2CacheFlush_def Xil_L2CacheSync_def Xil_L2WriteDebugCtrl_def)
     (simp_all add: flush_l2_def inval_l2_def clean_l2_def)

text \<open>
  Flushing the data cache. With the geometry of the Zynq the loops over
  ways and sets reach every slot, so the function leaves no line in the first level, keeps what the core
  reads, and makes the memory below, with both levels the memory itself, equal to it everywhere.
\<close>

lemma dcache_flush_all:
  assumes "l1_on s" and "l2_on s" and "\<And>b. fresh s (line_of b)" and "c_csid s = zynq_csid" and "\<And>a. l1way s a < 4"
  shows "\<exists>s'. Xil_DCacheFlush amp s = Some s' \<and> c_cpsr s' = c_cpsr s \<and> (\<forall>a. l1d s' a = None) \<and>
    (\<forall>b. cpu_view s' b = cpu_view s b \<and> (if amp then below_view s' b else dram s' b) = cpu_view s b)"
proof -
  let ?s = "s\<lparr>c_cpsr := c_cpsr s OR IRQ_FIQ_MASK\<rparr>"
  obtain t where t: "Xil_L1DCacheFlush ?s = Some t" "sw_inv ?s t" "\<And>a. l1d t a = None"
    by (rule l1_flush_all [of ?s]) (simp_all add: assms)
  have on: "l2_on t" and fr: "\<And>b. fresh t (line_of b)" and v: "\<And>b. cpu_view t b = cpu_view s b"
    using t(2) assms(2) by (simp_all add: sw_inv_def)
  have b: "below_view t b = cpu_view s b" for b
  proof -
    have "cpu_view t b = below_view t b" using t(3) by (simp add: cpu_view_def)
    then show ?thesis using v [of b] by simp
  qed
  let ?r = "if amp then t else Xil_L2CacheFlush t"
  have "Xil_DCacheFlush amp s = Some (?r\<lparr>c_cpsr := c_cpsr s\<rparr>)"
    using t(1) by (simp add: Xil_DCacheFlush_def masked_def)
  then show ?thesis using t(3) v b l2_flush_all [OF on fr] by (intro exI [of _ "?r\<lparr>c_cpsr := c_cpsr s\<rparr>"]) simp
qed

lemma dcache_flush_all_witness:
  "\<exists>s'. Xil_DCacheFlush False cache_sample = Some s' \<and> dram s' 0x1005 = 7"
proof -
  have "c_csid cache_sample = zynq_csid" by (simp add: cache_sample_def zynq_csid_def)
  then show ?thesis
    using dcache_flush_all [of cache_sample False, OF cache_sample_ok(1,2,3) _ cache_sample_ok(4)] by (auto simp: cache_sample_ok(6) [symmetric])
qed

section \<open>Switching the caches off and on\<close>

lemma bit_c: "(x OR XREG_CP15_CONTROL_C_BIT) AND XREG_CP15_CONTROL_C_BIT \<noteq> 0" "(x AND NOT XREG_CP15_CONTROL_C_BIT) AND XREG_CP15_CONTROL_C_BIT = 0"
proof -
  have c: "XREG_CP15_CONTROL_C_BIT = push_bit 2 1" by (simp add: XREG_CP15_CONTROL_C_BIT_def push_bit_eq_mult)
  have "bit ((x OR XREG_CP15_CONTROL_C_BIT) AND XREG_CP15_CONTROL_C_BIT) 2" by (simp add: c bit_simps)
  then show "(x OR XREG_CP15_CONTROL_C_BIT) AND XREG_CP15_CONTROL_C_BIT \<noteq> 0" by auto
  show "(x AND NOT XREG_CP15_CONTROL_C_BIT) AND XREG_CP15_CONTROL_C_BIT = 0"
    by (rule bit_word_eqI) (auto simp: bit_simps)
qed

lemma bit_0: "(x OR 1) AND 1 \<noteq> (0 :: u32)" "(x AND NOT 1) AND 1 = (0 :: u32)" "(x AND - 2) AND 1 = (0 :: u32)"
proof -
  have "bit ((x OR 1) AND 1) 0" by (simp add: bit_simps)
  then show "(x OR 1) AND 1 \<noteq> (0 :: u32)" by auto
  show o: "(x AND NOT 1) AND 1 = (0 :: u32)" by (rule bit_word_eqI) (auto simp: bit_simps)
  have "(- 2 :: u32) = NOT 1" by (simp add: not_eq_complement)
  then show "(x AND - 2) AND 1 = (0 :: u32)" using o by simp
qed

lemma l2_disable:
  assumes "\<And>b. fresh s (line_of b)"
  shows "\<not> l2_on (Xil_L2CacheDisable s)" "l1_on (Xil_L2CacheDisable s) = l1_on s" "fresh (Xil_L2CacheDisable s) (line_of b)"
    and "cpu_view (Xil_L2CacheDisable s) b = cpu_view s b" "c_csid (Xil_L2CacheDisable s) = c_csid s" "l1way (Xil_L2CacheDisable s) = l1way s"
    and "c_cpsr (Xil_L2CacheDisable s) = c_cpsr s"
proof -
  let ?t = "Xil_L2CacheFlush s" and ?u = "Xil_L2CacheDisable s"
  have u: "?u = l2_out XPS_L2CC_CNTRL_OFFSET (l2cc ?t XPS_L2CC_CNTRL_OFFSET AND NOT 1) ?t" if "l2_on s"
    using that by (simp add: Xil_L2CacheDisable_def Let_def)
  show off: "\<not> l2_on ?u"
  proof (cases "l2_on s")
    case True
    show ?thesis unfolding u [OF True] by (simp add: l2_on_def l2_out_def bit_0)
  qed (simp add: Xil_L2CacheDisable_def)
  show fix1: "l1_on ?u = l1_on s" "c_csid ?u = c_csid s" "l1way ?u = l1way s" "c_cpsr ?u = c_cpsr s"
    using u by (auto simp: Xil_L2CacheDisable_def Let_def)
  have b: "below_view ?u b = below_view s b" for b
  proof (cases "l2_on s")
    case True
    then show ?thesis using off l2_flush_all(3) [OF True assms] by (simp add: below_view_def) (simp add: u below_view_def)
  qed (simp add: Xil_L2CacheDisable_def)
  have d: "l1d ?u = l1d s" using u by (auto simp: Xil_L2CacheDisable_def Let_def)
  show "cpu_view ?u b = cpu_view s b" using b by (simp add: cpu_view_def fix1 d split: option.splits)
  show "fresh ?u (line_of b)" using assms [of b] off by (simp add: fresh_def b d)
qed

lemma l2_enable:
  assumes "\<And>a. l1d s a = None"
  obtains s' where "Xil_L2CacheEnable e t s = Some s'" "l2_on s'" "l1_on s' = l1_on s" "\<And>b. cpu_view s' b = cpu_view s b" "c_cpsr s' = c_cpsr s"
proof (cases "l2_on s")
  case False
  have k: "XPS_L2CC_AUX_CNTRL_OFFSET \<noteq> XPS_L2CC_CNTRL_OFFSET" "XPS_L2CC_TAG_RAM_CNTRL_OFFSET \<noteq> XPS_L2CC_CNTRL_OFFSET"
      "XPS_L2CC_DATA_RAM_CNTRL_OFFSET \<noteq> XPS_L2CC_CNTRL_OFFSET" "XPS_L2CC_IAR_OFFSET \<noteq> XPS_L2CC_CNTRL_OFFSET"
    by (simp_all add: XPS_L2CC_CNTRL_OFFSET_def XPS_L2CC_AUX_CNTRL_OFFSET_def XPS_L2CC_TAG_RAM_CNTRL_OFFSET_def
        XPS_L2CC_DATA_RAM_CNTRL_OFFSET_def XPS_L2CC_IAR_OFFSET_def)
  obtain s' where r: "Xil_L2CacheEnable e t s = Some s'" by (simp add: Xil_L2CacheEnable_def Xil_L2CacheInvalidate_def False k Let_def)
  then have d: "l1d s' = l1d s" "dram s' = dram s" "c_cpsr s' = c_cpsr s" "l2 s' a = None" "c_control s' = c_control s" "l2_on s'" for a
    using False by (auto simp: Xil_L2CacheEnable_def Xil_L2CacheInvalidate_def False k Let_def Xil_L2CacheSync_def)
      (auto simp: inval_l2_def l2_out_def l2_on_def bit_0)
  show ?thesis
    using d False assms by (intro that [OF r]) (auto simp: cpu_view_def below_view_def l1_on_def)
qed (simp add: that [of s] Xil_L2CacheEnable_def)

interpretation sw_inval_walk: line_walk "\<lambda>r s. inval_l1 (in_slot s r) s"
  "\<lambda>s. s\<lparr>l1d := l1d s0\<rparr> = s0" slot_gone "\<lambda>_. True" for s0
  by unfold_locales (auto simp: slot_gone_def inval_l1_def in_slot_def)

lemma l1_enable:
  assumes "\<not> l1_on s" and "c_csid s = zynq_csid" and "\<And>a. l1way s a < 4"
  obtains s' where "Xil_L1DCacheEnable amp e t s = Some s'" "l1_on s'" "\<And>a. l1d s' a = None" "\<And>b. cpu_view s' b = cpu_view s b" "c_cpsr s' = c_cpsr s"
proof -
  let ?s = "s\<lparr>c_cpsr := c_cpsr s OR IRQ_FIQ_MASK\<rparr>"
  let ?t = "fold (\<lambda>r s. inval_l1 (in_slot s r) s) slots ?s"
  let ?u = "?t\<lparr>c_cpsr := c_cpsr s, c_control := c_control s OR XREG_CP15_CONTROL_C_BIT\<rparr>"
  have "?s\<lparr>l1d := l1d ?s\<rparr> = ?s" by simp
  from sw_inval_walk.fold_walk [OF this, of slots] have t: "?t\<lparr>l1d := l1d s\<rparr> = ?s" "\<forall>r\<in>set slots. slot_gone r ?t" by auto
  have f: "l1way ?t = l1way s" "l2 ?t = l2 s" "dram ?t = dram s" "l2cc ?t = l2cc s" "c_control ?t = c_control s"
    using arg_cong [OF t(1), of l1way] arg_cong [OF t(1), of l2] arg_cong [OF t(1), of dram] arg_cong [OF t(1), of l2cc]
      arg_cong [OF t(1), of c_control] by simp_all
  have none: "l1d ?t a = None" for a
    using slot_exists [of ?t a] t(2) assms(3) f(1) by (auto simp: slot_gone_def)
  have run: "Xil_L1DCacheEnable amp e t s = Some ?u"
    using assms(1,2) f(5) by (simp add: Xil_L1DCacheEnable_def Xil_L1DCacheInvalidate_def masked_def by_set_way_slots)
  have "below_view ?u b = below_view s b" for b by (simp add: below_view_def l2_on_def f split: option.splits)
  then have "cpu_view ?u b = cpu_view s b" for b using none assms(1) by (simp add: cpu_view_def)
  then show ?thesis using none by (intro that [OF run]) (simp_all add: l1_on_def, simp add: XREG_CP15_CONTROL_C_BIT_def)
qed



end
