(* ===== verification/Dma_Coherence.thy ===== *)
theory Dma_Coherence
  imports Metal_Device Data_Cache
begin

text \<open>
  Buffers shared with a bus master that does not see the caches: the DMA mapping of libmetal (\<open>lib/device.c\<close>)
  over the cache maintenance of the board support package, joined by the machine layer
  (\<open>system/generic/zynq7/sys.c\<close>). The mapping records the cache operations it asks for; here they run on the
  caches.
\<close>

definition metal_machine_cache_flush :: "bool \<Rightarrow> u32 \<Rightarrow> u32 \<Rightarrow> caches \<Rightarrow> caches option" where
  "metal_machine_cache_flush amp addr len =
    (if addr = 0 \<and> len = 0 then Xil_DCacheFlush amp else Xil_DCacheFlushRange amp addr len)"

definition metal_machine_cache_invalidate :: "bool \<Rightarrow> u32 \<Rightarrow> u32 \<Rightarrow> u32 \<Rightarrow> u32 \<Rightarrow> caches \<Rightarrow> caches option" where
  "metal_machine_cache_invalidate amp stack_end stack_start addr len =
    (if addr = 0 \<and> len = 0 then Xil_DCacheInvalidate amp stack_end stack_start else Xil_DCacheInvalidateRange amp addr len)"

fun run_cache_call :: "bool \<Rightarrow> u32 \<Rightarrow> u32 \<Rightarrow> cache_call \<Rightarrow> caches \<Rightarrow> caches option" where
  "run_cache_call amp stack_end stack_start (Cache_flush a n) = metal_machine_cache_flush amp a n"
| "run_cache_call amp stack_end stack_start (Cache_invalidate a n) = metal_machine_cache_invalidate amp stack_end stack_start a n"

fun run_cache_calls :: "bool \<Rightarrow> u32 \<Rightarrow> u32 \<Rightarrow> cache_call list \<Rightarrow> caches \<Rightarrow> caches option" where
  "run_cache_calls amp stack_end stack_start [] s = Some s"
| "run_cache_calls amp stack_end stack_start (c # cs) s = do {
     s \<leftarrow> run_cache_call amp stack_end stack_start c s;
     run_cache_calls amp stack_end stack_start cs s }"

lemma run_cache_calls_append:
  "run_cache_calls amp e t (cs @ ds) s = Option.bind (run_cache_calls amp e t cs s) (run_cache_calls amp e t ds)"
  by (induction cs arbitrary: s) (auto split: Option.bind_splits)

text \<open>Entries that lie below the last line of the address space.\<close>

definition sg_ok :: "metal_sg \<Rightarrow> bool" where
  "sg_ok g \<longleftrightarrow> sg_len g \<noteq> 0 \<and> unat (sg_virt g) + unat (sg_len g) \<le> 2 ^ 32 - 32"

definition in_sg :: "metal_sg \<Rightarrow> u32 \<Rightarrow> bool" where
  "in_sg g b \<longleftrightarrow> in_range (sg_virt g) (sg_len g) b"

text \<open>What each entry asks for.\<close>

definition map_calls :: "u32 \<Rightarrow> metal_sg list \<Rightarrow> cache_call list" where
  "map_calls dir sgs = concat (map (\<lambda>g. (if dir = METAL_DMA_DEV_W then [Cache_flush (sg_virt g) (sg_len g)] else []) @
     [Cache_invalidate (sg_virt g) (sg_len g)]) sgs)"

definition unmap_calls :: "metal_sg list \<Rightarrow> cache_call list" where
  "unmap_calls sgs = map (\<lambda>g. Cache_invalidate (sg_virt g) (sg_len g)) sgs"

lemma dma_map_calls:
  "metal_generic_dev_dma_map b d dir sgs out s =
    ((int (length sgs), sgs @ drop (length sgs) out), s\<lparr>cache_calls := cache_calls s @ map_calls dir sgs\<rparr>)"
proof -
  have "fold (dma_map_step dir) sgs s = s\<lparr>cache_calls := cache_calls s @ map_calls dir sgs\<rparr>"
    by (induction sgs arbitrary: s) (simp_all add: map_calls_def dma_map_step_def)
  then show ?thesis by (simp add: metal_generic_dev_dma_map_def)
qed

lemma dma_unmap_calls:
  "metal_generic_dev_dma_unmap b d dir sgs s = s\<lparr>cache_calls := cache_calls s @ unmap_calls sgs\<rparr>"
  unfolding metal_generic_dev_dma_unmap_def by (induction sgs arbitrary: s) (simp_all add: unmap_calls_def)

text \<open>What holds of the caches between the entries while a buffer is mapped: the core sees what it saw, and a
  line that has left the caches stays out.\<close>

definition map_inv :: "caches \<Rightarrow> caches \<Rightarrow> bool" where
  "map_inv s0 s \<longleftrightarrow> l1_on s \<and> l2_on s \<and> c_cpsr s = c_cpsr s0 \<and> (\<forall>b. fresh s (line_of b) \<and> cpu_view s b = cpu_view s0 b)"

lemma gone_fresh: "line_gone False b s \<Longrightarrow> fresh s (line_of b)"
  by (simp add: line_gone_def fresh_def)

lemma gone_nodirty: "line_gone False b s \<Longrightarrow> nodirty s (line_of b)"
  by (simp add: line_gone_def nodirty_def)

lemma covered_line_gone:
  assumes "covered adr len (line_of b)" and "\<And>b. in_range adr len b \<Longrightarrow> line_gone False b s"
  shows "line_gone False b s"
proof -
  have "in_range adr len (line_of b)" using assms(1) by (simp add: covered_def in_range_def)
  from assms(2) [OF this] show ?thesis by (simp add: line_gone_def)
qed

lemma map_entry:
  assumes "map_inv s0 s" and "sg_ok g"
  obtains s' where "run_cache_calls False e t [Cache_flush (sg_virt g) (sg_len g), Cache_invalidate (sg_virt g) (sg_len g)] s = Some s'"
    "map_inv s0 s'" "keeps False s s'" "\<And>b. in_sg g b \<Longrightarrow> line_gone False b s'"
proof -
  have on: "l1_on s" "l2_on s" and fr: "\<And>b. fresh s (line_of b)" and ok: "unat (sg_virt g) + unat (sg_len g) \<le> 2 ^ 32 - 32" "sg_len g \<noteq> 0"
    using assms by (simp_all add: map_inv_def sg_ok_def)
  obtain s1 where s1: "Xil_DCacheFlushRange False (sg_virt g) (sg_len g) s = Some s1" "c_cpsr s1 = c_cpsr s" "same_view s s1" "keeps False s s1"
      "\<And>b. in_range (sg_virt g) (sg_len g) b \<Longrightarrow> line_gone False b s1"
    using flush_range_run [OF on ok(1), of False] by blast
  have v1: "fresh s1 (line_of b)" "cpu_view s1 b = cpu_view s b" "l1_on s1" "l2_on s1" for b using s1(3) fr by (simp_all add: same_view_def)
  obtain s2 where s2: "Xil_DCacheInvalidateRange False (sg_virt g) (sg_len g) s1 = Some s2" "invalidated False (sg_virt g) (sg_len g) s1 s2"
    using invalidate_range_run [OF v1(3,4) ok(1)] by blast
  note i2 = s2(2) [unfolded invalidated_def]
  have "fresh s2 (line_of b) \<and> cpu_view s2 b = cpu_view s1 b" for b
  proof (cases "covered (sg_virt g) (sg_len g) (line_of b)")
    case True
    have g1: "line_gone False b s1" and g2: "line_gone False b s2" using covered_line_gone [OF True] s1(5) i2 by auto
    have "dram s2 b = dram s1 b" using i2 gone_nodirty [OF g1] by (simp add: keeps_def)
    then show ?thesis using gone_view [OF g1] gone_view [OF g2] gone_fresh [OF g2] by simp
  qed (use i2 v1 in blast)
  then have "map_inv s0 s2" using assms(1) s1(2) i2 v1(2) by (simp add: map_inv_def)
  moreover have "keeps False s s2" using s1(4) i2 by (simp add: keeps_def)
  ultimately show ?thesis using s1(1) s2(1) i2 ok(2)
    by (intro that [of s2]) (simp_all add: metal_machine_cache_flush_def metal_machine_cache_invalidate_def in_sg_def)
qed

lemma map_entries:
  assumes "map_inv s0 s" and "\<And>g. g \<in> set sgs \<Longrightarrow> sg_ok g"
  shows "\<exists>s'. run_cache_calls False e t (map_calls METAL_DMA_DEV_W sgs) s = Some s' \<and> map_inv s0 s' \<and> keeps False s s' \<and>
    (\<forall>g\<in>set sgs. \<forall>b. in_sg g b \<longrightarrow> line_gone False b s')"
  using assms
proof (induction sgs arbitrary: s)
  case Nil
  then show ?case by (simp add: map_calls_def keeps_def)
next
  case (Cons g sgs)
  obtain s1 where s1: "run_cache_calls False e t [Cache_flush (sg_virt g) (sg_len g), Cache_invalidate (sg_virt g) (sg_len g)] s = Some s1"
      "map_inv s0 s1" "keeps False s s1" "\<And>b. in_sg g b \<Longrightarrow> line_gone False b s1"
    using map_entry [OF Cons.prems(1), of g e t] Cons.prems(2) by auto
  have "\<And>g. g \<in> set sgs \<Longrightarrow> sg_ok g" using Cons.prems(2) by simp
  from Cons.IH [OF s1(2) this] obtain s2 where s2: "run_cache_calls False e t (map_calls METAL_DMA_DEV_W sgs) s1 = Some s2" "map_inv s0 s2"
      "keeps False s1 s2" "\<forall>g\<in>set sgs. \<forall>b. in_sg g b \<longrightarrow> line_gone False b s2" by blast
  have "map_calls METAL_DMA_DEV_W (g # sgs) = [Cache_flush (sg_virt g) (sg_len g), Cache_invalidate (sg_virt g) (sg_len g)] @ map_calls METAL_DMA_DEV_W sgs"
    by (simp add: map_calls_def)
  then have "run_cache_calls False e t (map_calls METAL_DMA_DEV_W (g # sgs)) s = Some s2"
    by (simp only: run_cache_calls_append s1(1) Option.bind_lunit s2(1))
  moreover have "keeps False s s2" using s1(3) s2(3) by (simp add: keeps_def)
  moreover have "line_gone False b s2" if "in_sg g b" for b using s1(4) [OF that] s2(3) by (simp add: keeps_def)
  ultimately show ?case using s2(2,4) by auto
qed

lemma unmap_entries:
  assumes "l1_on s" and "l2_on s" and "\<And>g. g \<in> set sgs \<Longrightarrow> sg_ok g"
  shows "\<exists>s'. run_cache_calls False e t (unmap_calls sgs) s = Some s' \<and> keeps False s s' \<and>
    (\<forall>g\<in>set sgs. \<forall>b. in_sg g b \<longrightarrow> line_gone False b s')"
  using assms
proof (induction sgs arbitrary: s)
  case Nil
  then show ?case by (simp add: unmap_calls_def keeps_def)
next
  case (Cons g sgs)
  have ok: "unat (sg_virt g) + unat (sg_len g) \<le> 2 ^ 32 - 32" "sg_len g \<noteq> 0" using Cons.prems(3) by (auto simp: sg_ok_def)
  obtain s1 where s1: "Xil_DCacheInvalidateRange False (sg_virt g) (sg_len g) s = Some s1" "l1_on s1" "l2_on s1" "keeps False s s1"
      "\<forall>b. in_range (sg_virt g) (sg_len g) b \<longrightarrow> line_gone False b s1"
    using invalidate_range_run [OF Cons.prems(1,2) ok(1), of False] unfolding invalidated_def by blast
  have "\<And>g. g \<in> set sgs \<Longrightarrow> sg_ok g" using Cons.prems(3) by simp
  from Cons.IH [OF s1(2,3) this] obtain s2 where s2: "run_cache_calls False e t (unmap_calls sgs) s1 = Some s2"
      "keeps False s1 s2" "\<forall>g\<in>set sgs. \<forall>b. in_sg g b \<longrightarrow> line_gone False b s2" by blast
  have "run_cache_calls False e t (unmap_calls (g # sgs)) s = Some s2"
    using s1(1) s2(1) ok(2) by (simp add: unmap_calls_def metal_machine_cache_invalidate_def)
  moreover have "keeps False s s2" using s1(4) s2(2) by (simp add: keeps_def)
  moreover have "line_gone False b s2" if "in_sg g b" for b using s1(5) that s2(2) by (simp add: keeps_def in_sg_def)
  ultimately show ?case using s2(3) by auto
qed


definition dma_sample :: metal_state where
  "dma_sample = \<lparr>metal_links = (\<lambda>_. \<lparr>l_next = Null_node, l_prev = Null_node\<rparr>), bus_name = (\<lambda>_. None),
     devices = (\<lambda>_. scugic_device\<lparr>dev_bus := Some 0\<rparr>), mmu_table = (\<lambda>_. 0), cache_calls = []\<rparr>"

definition dma_sg :: metal_sg where "dma_sg = \<lparr>sg_virt = 0x1000, sg_len = 32\<rparr>"


text \<open>Mapping for a device read only invalidates: what the core has written into lines that the buffer covers is
  lost, and neither the device nor the core sees it any more.\<close>

lemma dma_map_device_read_loses:
  "\<exists>m1 s1. metal_dma_map generic_bus_ops (Some 0) 1 (Some [dma_sg]) (Some [dma_sg]) dma_sample = Some ((1, [dma_sg]), m1) \<and>
    run_cache_calls False 0 0 (cache_calls m1) cache_sample = Some s1 \<and>
    cpu_view cache_sample 0x1005 = 7 \<and> dram s1 0x1005 = 0 \<and> cpu_view s1 0x1005 = 0"
proof -
  have b: "unat (0x1000 :: u32) + unat (32 :: u32) \<le> 2 ^ 32 - 32" by simp
  have c: "covered 0x1000 32 (line_of 0x1005)" "in_range 0x1000 32 0x1005" by (simp_all add: covered_def line_of_def in_range_def)
  obtain s1 where s1: "Xil_DCacheInvalidateRange False 0x1000 32 cache_sample = Some s1"
      "invalidated False 0x1000 32 cache_sample s1"
    using invalidate_range_run [OF cache_sample_ok(1,2) b] by blast
  note i1 = s1(2) [unfolded invalidated_def]
  have "cpu_view s1 0x1005 = 0" using i1 c(1) by (simp add: cache_sample_ok)
  moreover have "dram s1 0x1005 = cpu_view s1 0x1005" using gone_view [of False "0x1005" s1] i1 c(2) by simp
  ultimately show ?thesis using s1(1) cache_sample_ok(6)
    by (simp add: metal_dma_map_def dma_sample_def generic_bus_ops_def dma_map_calls map_calls_def METAL_DMA_DEV_W_def dma_sg_def
        metal_machine_cache_invalidate_def)
qed

end
