(* ===== verification/Elf_Loader.thy ===== *)
theory Elf_Loader
  imports Remoteproc
begin

text \<open>
  The ELF loader of OpenAMP (\<open>lib/remoteproc/elf_loader.c\<close>, \<open>elf_loader.h\<close>): a state machine that asks
  its caller for the parts of an image file it needs next, first the headers and then the loadable
  segments, for 32-bit and 64-bit files. The theory \<open>Firmware_Spec\<close> shows that it ends with what a parser of the whole
  file finds, whatever parts it is given.

  A pointer into a header table is the list of the bytes from there to the end of the table, and a read past
  the end is \<open>None\<close>; so is a failed \<open>metal_assert\<close>. The image data lies in memory. \<open>alloc\<close> tells which sizes
  \<open>metal_allocate_memory\<close> can serve. A result of type \<open>int\<close> that is an error code or a load state is a sum; \<open>size_t\<close>
  and \<open>metal_phys_addr_t\<close> have 32 bits, so the fields of a 64-bit file are truncated as the casts do.
\<close>

section \<open>Layout of the file\<close>

definition EI_CLASS :: nat where "EI_CLASS = 4"
definition ELFCLASS64 :: u8 where "ELFCLASS64 = 2"
definition ELFMAG :: bytes where "ELFMAG = [0x7F, 0x45, 0x4C, 0x46]"
definition PT_LOAD :: u32 where "PT_LOAD = 1"

definition ELF_STATE_INIT :: u32 where "ELF_STATE_INIT = 0"
definition ELF_STATE_WAIT_FOR_PHDRS :: u32 where "ELF_STATE_WAIT_FOR_PHDRS = 0x100"
definition ELF_STATE_WAIT_FOR_SHDRS :: u32 where "ELF_STATE_WAIT_FOR_SHDRS = 0x200"
definition ELF_STATE_WAIT_FOR_SHSTRTAB :: u32 where "ELF_STATE_WAIT_FOR_SHSTRTAB = 0x400"
definition ELF_STATE_HDRS_COMPLETE :: u32 where "ELF_STATE_HDRS_COMPLETE = 0x800"
definition ELF_STATE_MASK :: u32 where "ELF_STATE_MASK = 0xFF00"
definition ELF_NEXT_SEGMENT_MASK :: u32 where "ELF_NEXT_SEGMENT_MASK = 0x00FF"
definition RPROC_LOADER_NOT_READY :: u32 where "RPROC_LOADER_NOT_READY = 0"
definition RPROC_LOADER_READY_TO_LOAD :: u32 where "RPROC_LOADER_READY_TO_LOAD = 0x10000"
definition RPROC_LOADER_POST_DATA_LOAD :: u32 where "RPROC_LOADER_POST_DATA_LOAD = 0x20000"
definition RPROC_LOADER_LOAD_COMPLETE :: u32 where "RPROC_LOADER_LOAD_COMPLETE = 0x40000"
definition RPROC_LOADER_MASK :: u32 where "RPROC_LOADER_MASK = 0x00FF0000"
definition RPROC_LOAD_ANYADDR :: u32 where "RPROC_LOAD_ANYADDR = - 1"
definition RPROC_ENOMEM :: int where "RPROC_ENOMEM = 1"
definition RPROC_ERR_LOADER_STATE :: int where "RPROC_ERR_LOADER_STATE = 12"

lemmas elf_states = ELF_STATE_INIT_def ELF_STATE_WAIT_FOR_PHDRS_def ELF_STATE_WAIT_FOR_SHDRS_def ELF_STATE_WAIT_FOR_SHSTRTAB_def
  ELF_STATE_HDRS_COMPLETE_def ELF_STATE_MASK_def ELF_NEXT_SEGMENT_MASK_def RPROC_LOADER_NOT_READY_def RPROC_LOADER_READY_TO_LOAD_def
  RPROC_LOADER_POST_DATA_LOAD_def RPROC_LOADER_LOAD_COMPLETE_def RPROC_LOADER_MASK_def

text \<open>What the loader keeps of the image: \<open>elf32_info\<close> or \<open>elf64_info\<close>, by the class of the header it begins with.\<close>

record elf_info =
  ei_ehdr :: bytes
  ei_load_state :: u32
  ei_phdrs :: "bytes option"
  ei_shdrs :: "bytes option"
  ei_shstrtab :: "bytes option"

text \<open>A field of a header that is there in full, and a field behind a pointer.\<close>

definition hfield :: "nat \<Rightarrow> nat \<Rightarrow> bytes \<Rightarrow> 'a::len word" where
  "hfield off n h = le_word (take n (drop off h))"

definition pfield :: "nat \<Rightarrow> nat \<Rightarrow> bytes \<Rightarrow> 'a::len word option" where
  "pfield off n p = (if off + n \<le> length p then Some (hfield off n p) else None)"

definition elf_is_64 :: "bytes \<Rightarrow> bool" where
  "elf_is_64 h \<longleftrightarrow> h ! EI_CLASS = ELFCLASS64"

definition elf_ehdr_size :: "bytes option \<Rightarrow> u32" where
  "elf_ehdr_size h = (case h of None \<Rightarrow> 64 | Some h \<Rightarrow> if elf_is_64 h then 64 else 52)"

definition elf_phoff :: "elf_info \<Rightarrow> u32" where
  "elf_phoff i = (if elf_is_64 (ei_ehdr i) then ucast (hfield 32 8 (ei_ehdr i) :: u64) else hfield 28 4 (ei_ehdr i))"

definition elf_phentsize :: "elf_info \<Rightarrow> u32" where
  "elf_phentsize i = ucast (hfield (if elf_is_64 (ei_ehdr i) then 54 else 42) 2 (ei_ehdr i) :: u16)"

definition elf_phnum :: "elf_info \<Rightarrow> int" where
  "elf_phnum i = uint (hfield (if elf_is_64 (ei_ehdr i) then 56 else 44) 2 (ei_ehdr i) :: u16)"

definition elf_shoff :: "elf_info \<Rightarrow> u32" where
  "elf_shoff i = (if elf_is_64 (ei_ehdr i) then ucast (hfield 40 8 (ei_ehdr i) :: u64) else hfield 32 4 (ei_ehdr i))"

definition elf_shentsize :: "elf_info \<Rightarrow> u32" where
  "elf_shentsize i = ucast (hfield (if elf_is_64 (ei_ehdr i) then 58 else 46) 2 (ei_ehdr i) :: u16)"

definition elf_shnum :: "elf_info \<Rightarrow> int" where
  "elf_shnum i = uint (hfield (if elf_is_64 (ei_ehdr i) then 60 else 48) 2 (ei_ehdr i) :: u16)"

definition elf_shstrndx :: "elf_info \<Rightarrow> int" where
  "elf_shstrndx i = uint (hfield (if elf_is_64 (ei_ehdr i) then 62 else 50) 2 (ei_ehdr i) :: u16)"

section \<open>Segments and sections\<close>

text \<open>The sizes of a program header and of a section header.\<close>

definition phdr_size :: "elf_info \<Rightarrow> nat" where "phdr_size i = (if elf_is_64 (ei_ehdr i) then 56 else 32)"
definition shdr_size :: "elf_info \<Rightarrow> nat" where "shdr_size i = (if elf_is_64 (ei_ehdr i) then 64 else 40)"

record elf_segment =
  p_type :: u32
  p_offset :: u32
  p_vaddr :: u32
  p_paddr :: u32
  p_filesz :: u32
  p_memsz :: u32

definition elf_parse_segment :: "elf_info \<Rightarrow> bytes \<Rightarrow> elf_segment option" where
  "elf_parse_segment i p =
    (if elf_is_64 (ei_ehdr i)
     then if length p < 48 then None
          else Some \<lparr>p_type = hfield 0 4 p, p_offset = ucast (hfield 8 8 p :: u64), p_vaddr = ucast (hfield 16 8 p :: u64),
                     p_paddr = ucast (hfield 24 8 p :: u64), p_filesz = ucast (hfield 32 8 p :: u64), p_memsz = ucast (hfield 40 8 p :: u64)\<rparr>
     else if length p < 24 then None
          else Some \<lparr>p_type = hfield 0 4 p, p_offset = hfield 4 4 p, p_vaddr = hfield 8 4 p, p_paddr = hfield 12 4 p,
                     p_filesz = hfield 16 4 p, p_memsz = hfield 20 4 p\<rparr>)"

definition elf_get_segment_from_index :: "elf_info \<Rightarrow> int \<Rightarrow> bytes option" where
  "elf_get_segment_from_index i index =
    (case ei_phdrs i of None \<Rightarrow> None
     | Some t \<Rightarrow> if index < 0 \<or> elf_phnum i \<le> index then None else Some (drop (nat index * phdr_size i) t))"

text \<open>\<open>strcmp\<close> of a name, with its final zero, and the string at a pointer: whether they are equal.\<close>

fun str_eq :: "bytes \<Rightarrow> bytes \<Rightarrow> bool option" where
  "str_eq [] q = Some True"
| "str_eq (a # p) [] = None"
| "str_eq (a # p) (b # q) = (if a \<noteq> b then Some False else if a = 0 then Some True else str_eq p q)"

fun section_loop :: "nat \<Rightarrow> bytes \<Rightarrow> bytes \<Rightarrow> nat \<Rightarrow> bytes \<Rightarrow> bytes option option" where
  "section_loop sz name names 0 shdr = Some None"
| "section_loop sz name names (Suc n) shdr = do {
     sh_name \<leftarrow> (pfield 0 4 shdr :: u32 option);
     eq \<leftarrow> str_eq name (drop (unat sh_name) names);
     if eq then Some (Some shdr) else section_loop sz name names n (drop sz shdr) }"

definition elf_get_section_from_name :: "elf_info \<Rightarrow> bytes \<Rightarrow> bytes option option" where
  "elf_get_section_from_name i name =
    (case (ei_shdrs i, ei_shstrtab i) of
       (Some shdr, Some names) \<Rightarrow> section_loop (shdr_size i) name names (nat (elf_shnum i)) shdr
     | _ \<Rightarrow> Some None)"

definition elf_get_section_from_index :: "elf_info \<Rightarrow> int \<Rightarrow> bytes option" where
  "elf_get_section_from_index i index =
    (case ei_shdrs i of None \<Rightarrow> None
     | Some t \<Rightarrow> if index < 0 \<or> elf_shnum i \<le> index then None else Some (drop (nat index * shdr_size i) t))"

text \<open>The callers ask for the address, the offset and the size.\<close>

definition elf_parse_section :: "elf_info \<Rightarrow> bytes \<Rightarrow> (u32 \<times> u32 \<times> u32) option" where
  "elf_parse_section i p =
    (if elf_is_64 (ei_ehdr i)
     then if length p < 40 then None
          else Some (ucast (hfield 16 8 p :: u64), ucast (hfield 24 8 p :: u64), ucast (hfield 32 8 p :: u64))
     else if length p < 24 then None else Some (hfield 12 4 p, hfield 16 4 p, hfield 20 4 p))"

text \<open>The next loadable segment: its header (\<open>None\<close> when there is none), the index after it, and the address, offset,
  file size and memory size of the last header read.\<close>

type_synonym seg_out = "u32 \<times> u32 \<times> u32 \<times> u32"

partial_function (option) elf_next_load_segment :: "elf_info \<Rightarrow> int \<Rightarrow> seg_out \<Rightarrow> (bytes option \<times> int \<times> seg_out) option" where
  "elf_next_load_segment i nseg out =
    (case elf_get_segment_from_index i nseg of
       None \<Rightarrow> Some (None, nseg, out)
     | Some phdr \<Rightarrow> do {
         sg \<leftarrow> elf_parse_segment i phdr;
         let out = (p_vaddr sg, p_offset sg, p_filesz sg, p_memsz sg);
         if p_type sg = PT_LOAD then Some (Some phdr, nseg + 1, out) else elf_next_load_segment i (nseg + 1) out })"

definition elf_info_size :: "bytes \<Rightarrow> u32" where
  "elf_info_size h = (if elf_is_64 h then 80 else 68)"

definition elf_identify :: "memory \<Rightarrow> u32 \<Rightarrow> u32 \<Rightarrow> int" where
  "elf_identify m img len =
    (if len < 4 \<or> img = 0 then - RPROC_EINVAL else if load_bytes m (unat img) 4 \<noteq> ELFMAG then - RPROC_EINVAL else 0)"

section \<open>Headers\<close>

text \<open>Each of the three tables is taken from the data when it lies in there, and asked for otherwise.\<close>

datatype part = Need | No_memory | Part bytes

definition take_part :: "(u32 \<Rightarrow> bool) \<Rightarrow> memory \<Rightarrow> u32 \<Rightarrow> u32 \<Rightarrow> u32 \<Rightarrow> u32 \<Rightarrow> u32 \<Rightarrow> part" where
  "take_part alloc m img offset len off sz =
    (if off < offset \<or> offset + len < off + sz then Need
     else if \<not> alloc sz then No_memory
     else Part (load_bytes m (unat (img + (off - offset))) (unat sz)))"

text \<open>A stage returns (\<open>Inl\<close>) or goes on to the next one (\<open>Inr\<close>). The result is the code, the information, the offset and
  the length asked for.\<close>

type_synonym hdr_result = "(int + u32) \<times> elf_info option \<times> u32 \<times> u32"

definition load_phdrs :: "(u32 \<Rightarrow> bool) \<Rightarrow> memory \<Rightarrow> u32 \<Rightarrow> u32 \<Rightarrow> u32 \<Rightarrow> elf_info \<Rightarrow> u32 \<Rightarrow> u32 \<Rightarrow> hdr_result + elf_info" where
  "load_phdrs alloc m img offset len i noff nlen =
    (if ei_load_state i = ELF_STATE_WAIT_FOR_PHDRS then
       let sz = of_int (elf_phnum i) * elf_phentsize i
       in case take_part alloc m img offset len (elf_phoff i) sz of
            Need \<Rightarrow> Inl (Inr (ei_load_state i), Some i, elf_phoff i, sz)
          | No_memory \<Rightarrow> Inl (Inl (- RPROC_ENOMEM), Some (i\<lparr>ei_phdrs := None\<rparr>), noff, nlen)
          | Part t \<Rightarrow> Inr (i\<lparr>ei_phdrs := Some t, ei_load_state := ELF_STATE_WAIT_FOR_SHDRS OR RPROC_LOADER_READY_TO_LOAD\<rparr>)
     else Inr i)"

definition load_shdrs :: "(u32 \<Rightarrow> bool) \<Rightarrow> memory \<Rightarrow> u32 \<Rightarrow> u32 \<Rightarrow> u32 \<Rightarrow> elf_info \<Rightarrow> u32 \<Rightarrow> u32 \<Rightarrow> hdr_result + elf_info" where
  "load_shdrs alloc m img offset len i noff nlen =
    (if ei_load_state i AND ELF_STATE_WAIT_FOR_SHDRS \<noteq> 0 then
       if elf_shnum i = 0
       then let s = (ei_load_state i AND NOT ELF_STATE_MASK) OR ELF_STATE_HDRS_COMPLETE
            in Inl (Inr s, Some (i\<lparr>ei_load_state := s\<rparr>), noff, 0)
       else let sz = of_int (elf_shnum i) * elf_shentsize i
            in case take_part alloc m img offset len (elf_shoff i) sz of
                 Need \<Rightarrow> Inl (Inr (ei_load_state i), Some i, elf_shoff i, sz)
               | No_memory \<Rightarrow> Inl (Inl (- RPROC_ENOMEM), Some (i\<lparr>ei_shdrs := None\<rparr>), noff, nlen)
               | Part t \<Rightarrow> Inr (i\<lparr>ei_shdrs := Some t, ei_load_state := (ei_load_state i AND NOT ELF_STATE_MASK) OR ELF_STATE_WAIT_FOR_SHSTRTAB\<rparr>)
     else Inr i)"

definition load_shstrtab ::
  "(u32 \<Rightarrow> bool) \<Rightarrow> memory \<Rightarrow> u32 \<Rightarrow> u32 \<Rightarrow> u32 \<Rightarrow> elf_info \<Rightarrow> u32 \<Rightarrow> u32 \<Rightarrow> (hdr_result + elf_info) option" where
  "load_shstrtab alloc m img offset len i noff nlen =
    (if ei_load_state i AND ELF_STATE_WAIT_FOR_SHSTRTAB \<noteq> 0 then
       case elf_get_section_from_index i (elf_shstrndx i) of
         None \<Rightarrow> Some (Inl (Inl (- RPROC_EINVAL), Some i, noff, nlen))
       | Some shdr \<Rightarrow> do {
           (_, off, sz) \<leftarrow> elf_parse_section i shdr;
           Some (Inl (case take_part alloc m img offset len off sz of
              Need \<Rightarrow> (Inr (ei_load_state i), Some i, off, sz)
            | No_memory \<Rightarrow> (Inl (- RPROC_ENOMEM), Some (i\<lparr>ei_shstrtab := None\<rparr>), noff, nlen)
            | Part t \<Rightarrow> let s = (ei_load_state i AND NOT ELF_STATE_MASK) OR ELF_STATE_HDRS_COMPLETE
                in (Inr s, Some (i\<lparr>ei_shstrtab := Some t, ei_load_state := s\<rparr>), noff, 0))) }
     else Some (Inr i))"

text \<open>The first stage. The header of the class the data names is copied over the information.\<close>

definition load_ehdr ::
  "(u32 \<Rightarrow> bool) \<Rightarrow> memory \<Rightarrow> u32 \<Rightarrow> u32 \<Rightarrow> elf_info option \<Rightarrow> u32 \<Rightarrow> u32 \<Rightarrow> u32 \<Rightarrow>
    (hdr_result + (elf_info option \<times> u32)) option" where
  "load_ehdr alloc m img len info last_state noff nlen =
    (if last_state = ELF_STATE_INIT then
       let sz = elf_ehdr_size (if img = 0 then None else Some (load_bytes m (unat img) 16))
       in if len < sz then Some (Inl (Inr ELF_STATE_INIT, info, 0, sz))
          else if img = 0 then None
          else if info = None \<and> \<not> alloc (elf_info_size (load_bytes m (unat img) 16))
          then Some (Inl (Inl (- RPROC_ENOMEM), None, noff, nlen))
          else let i = (case info of Some i \<Rightarrow> i
                        | None \<Rightarrow> \<lparr>ei_ehdr = [], ei_load_state = 0, ei_phdrs = None, ei_shdrs = None, ei_shstrtab = None\<rparr>)
               in Some (Inr (Some (i\<lparr>ei_ehdr := load_bytes m (unat img) (unat sz), ei_load_state := ELF_STATE_WAIT_FOR_PHDRS\<rparr>),
                             ELF_STATE_WAIT_FOR_PHDRS))
     else Some (Inr (info, last_state)))"

definition elf_load_header ::
  "(u32 \<Rightarrow> bool) \<Rightarrow> memory \<Rightarrow> u32 \<Rightarrow> u32 \<Rightarrow> u32 \<Rightarrow> elf_info option \<Rightarrow> u32 \<Rightarrow> u32 \<Rightarrow> u32 \<Rightarrow> hdr_result option" where
  "elf_load_header alloc m img offset len info last_state noff nlen = do {
     r \<leftarrow> load_ehdr alloc m img len info last_state noff nlen;
     case r of
       Inl x \<Rightarrow> Some x
     | Inr (info, last_state) \<Rightarrow> do {
         i \<leftarrow> info;
         if last_state \<noteq> ei_load_state i then Some (Inl (- RPROC_EINVAL), Some i, noff, nlen)
         else case load_phdrs alloc m img offset len i noff nlen of
           Inl x \<Rightarrow> Some x
         | Inr i \<Rightarrow> (case load_shdrs alloc m img offset len i noff nlen of
             Inl x \<Rightarrow> Some x
           | Inr i \<Rightarrow> do {
               r \<leftarrow> load_shstrtab alloc m img offset len i noff nlen;
               case r of Inl x \<Rightarrow> Some x | Inr i \<Rightarrow> Some (Inr last_state, Some i, noff, nlen) }) } }"

section \<open>Data\<close>

text \<open>The bits of a result, an error code included.\<close>

definition result_bits :: "int + u32 \<Rightarrow> u32" where
  "result_bits r = (case r of Inl e \<Rightarrow> of_int e | Inr s \<Rightarrow> s)"

record load_out =
  lo_info :: "elf_info option"
  lo_da :: u32
  lo_noffset :: u32
  lo_nlen :: u32
  lo_padding :: u8
  lo_memsize :: u32

abbreviation put_state :: "elf_info \<Rightarrow> u32 \<Rightarrow> load_out \<Rightarrow> (int + u32) \<times> load_out" where
  "put_state i s out \<equiv> (Inr s, out\<lparr>lo_info := Some (i\<lparr>ei_load_state := s\<rparr>)\<rparr>)"

text \<open>One segment.\<close>

definition load_segment :: "elf_info \<Rightarrow> load_out \<Rightarrow> ((int + u32) \<times> load_out) option" where
  "load_segment i out = do {
     let s = ei_load_state i;
     (phdr, nsegment, da, noff, nsize, nsegmsize) \<leftarrow>
       elf_next_load_segment i (uint (s AND ELF_NEXT_SEGMENT_MASK)) (lo_da out, lo_noffset out, 0, 0);
     let out = out\<lparr>lo_da := da, lo_noffset := noff\<rparr>;
     Some (if phdr = None
       then put_state i ((s AND NOT ELF_NEXT_SEGMENT_MASK) OR (of_int nsegment AND ELF_NEXT_SEGMENT_MASK)) out
       else let s = (if nsegment = elf_phnum i then (s AND NOT RPROC_LOADER_MASK) OR RPROC_LOADER_POST_DATA_LOAD else s)
            in put_state i ((s AND NOT ELF_NEXT_SEGMENT_MASK) OR (of_int nsegment AND ELF_NEXT_SEGMENT_MASK))
                 (out\<lparr>lo_nlen := nsize, lo_memsize := nsegmsize\<rparr>)) }"

definition load_post ::
  "(u32 \<Rightarrow> bool) \<Rightarrow> memory \<Rightarrow> u32 \<Rightarrow> u32 \<Rightarrow> u32 \<Rightarrow> u32 \<Rightarrow> elf_info \<Rightarrow> load_out \<Rightarrow> ((int + u32) \<times> load_out) option" where
  "load_post alloc m img offset len last_state i out =
    (if ei_load_state i AND ELF_STATE_HDRS_COMPLETE = 0 then do {
       (r, info, noff, nlen) \<leftarrow> elf_load_header alloc m img offset len (Some i) last_state (lo_noffset out) (lo_nlen out);
       let out = out\<lparr>lo_info := info, lo_noffset := noff, lo_nlen := nlen\<rparr>;
       case r of
         Inl e \<Rightarrow> Some (r, out)
       | Inr st \<Rightarrow> do {
           i \<leftarrow> info;
           Some (if st AND ELF_STATE_HDRS_COMPLETE \<noteq> 0
             then put_state i ((ei_load_state i AND NOT RPROC_LOADER_MASK) OR RPROC_LOADER_LOAD_COMPLETE)
                    (out\<lparr>lo_nlen := 0, lo_da := RPROC_LOAD_ANYADDR\<rparr>)
             else put_state i (ei_load_state i) (out\<lparr>lo_da := RPROC_LOAD_ANYADDR\<rparr>)) } }
     else Some (put_state i ((ei_load_state i AND NOT RPROC_LOADER_MASK) OR RPROC_LOADER_LOAD_COMPLETE) (out\<lparr>lo_nlen := 0\<rparr>)))"

definition elf_load ::
  "(u32 \<Rightarrow> bool) \<Rightarrow> memory \<Rightarrow> u32 \<Rightarrow> u32 \<Rightarrow> u32 \<Rightarrow> u32 \<Rightarrow> load_out \<Rightarrow> ((int + u32) \<times> load_out) option" where
  "elf_load alloc m img offset len last_state out = do {
     (last_state, out, stop) \<leftarrow>
       (if last_state AND RPROC_LOADER_MASK = RPROC_LOADER_NOT_READY then do {
          (r, info, noff, nlen) \<leftarrow> elf_load_header alloc m img offset len (lo_info out) last_state (lo_noffset out) (lo_nlen out);
          let out = out\<lparr>lo_info := info, lo_noffset := noff, lo_nlen := nlen\<rparr>;
          Some (if result_bits r AND RPROC_LOADER_MASK = RPROC_LOADER_NOT_READY
            then (result_bits r, out\<lparr>lo_da := RPROC_LOAD_ANYADDR\<rparr>, Some r) else (result_bits r, out, None)) }
        else Some (last_state, out, None));
     case stop of
       Some r \<Rightarrow> Some (r, out)
     | None \<Rightarrow> do {
         i \<leftarrow> lo_info out;
         let out = out\<lparr>lo_padding := 0\<rparr>;
         if ei_load_state i AND RPROC_LOADER_READY_TO_LOAD \<noteq> 0 then load_segment i out
         else if ei_load_state i AND RPROC_LOADER_POST_DATA_LOAD \<noteq> 0 then load_post alloc m img offset len last_state i out
         else Some (Inr (ei_load_state i), out) } }"

section \<open>Results\<close>

text \<open>The information is not used after its release.\<close>

definition elf_release :: "elf_info option \<Rightarrow> elf_info option" where
  "elf_release i = None"

definition elf_get_entry :: "elf_info option \<Rightarrow> u32" where
  "elf_get_entry info = (case info of None \<Rightarrow> METAL_BAD_PHYS
     | Some i \<Rightarrow> if elf_is_64 (ei_ehdr i) then ucast (hfield 24 8 (ei_ehdr i) :: u64) else hfield 24 4 (ei_ehdr i))"

text \<open>\<open>.resource_table\<close>, with its final zero.\<close>

definition resource_table_name :: bytes where
  "resource_table_name = [0x2E, 0x72, 0x65, 0x73, 0x6F, 0x75, 0x72, 0x63, 0x65, 0x5F, 0x74, 0x61, 0x62, 0x6C, 0x65, 0]"

text \<open>The result is the code and the address, offset and size, which keep the values given when nothing is found.\<close>

definition elf_locate_rsc_table :: "elf_info option \<Rightarrow> u32 \<times> u32 \<times> u32 \<Rightarrow> (int \<times> u32 \<times> u32 \<times> u32) option" where
  "elf_locate_rsc_table info = (\<lambda>(da, off, sz).
    (case info of None \<Rightarrow> Some (- RPROC_EINVAL, da, off, sz)
     | Some i \<Rightarrow>
         if ei_load_state i AND ELF_STATE_HDRS_COMPLETE = 0 then Some (- RPROC_ERR_LOADER_STATE, da, off, sz)
         else do {
           shdr \<leftarrow> elf_get_section_from_name i resource_table_name;
           case shdr of
             None \<Rightarrow> Some (0, da, off, 0)
           | Some p \<Rightarrow> map_option (\<lambda>r. (0, r)) (elf_parse_section i p) }))"

definition elf_get_load_state :: "elf_info option \<Rightarrow> int + u32" where
  "elf_get_load_state info = (case info of None \<Rightarrow> Inl (- RPROC_EINVAL) | Some i \<Rightarrow> Inr (ei_load_state i))"

end
