(* ===== verification/Firmware_Load.thy ===== *)
theory Firmware_Load
  imports Elf_Loader
begin

text \<open>
  Loading firmware: \<open>remoteproc_load\<close> and \<open>remoteproc_load_noblock\<close> (\<open>lib/remoteproc/remoteproc.c\<close>) over the ELF loader and the
  mapping of the Zynq A9, and the image store of the OpenAMP example that keeps the whole file in memory
  (\<open>apps/examples/load_fw/mem_image_store.c\<close>) with the loop of the example that drives the second function
  (\<open>load_fw.c\<close>).

  An image store is a record of functions on the memory. \<open>malloc\<close> gives the address of a block of memory, \<open>None\<close>
  when there is none; freeing an error code that was made a pointer is \<open>None\<close>. The lock has no effect.
\<close>

section \<open>Image stores\<close>

definition EINVAL_image :: int where "EINVAL_image = 22"

record image_store =
  st_open :: "memory \<Rightarrow> int \<times> u32"
  st_load :: "u32 \<Rightarrow> u32 \<Rightarrow> u32 \<Rightarrow> metal_io_region option \<Rightarrow> memory \<Rightarrow> (int \<times> u32 option \<times> memory) option"
  st_seek :: bool

definition mem_image_open :: "u32 \<Rightarrow> memory \<Rightarrow> int \<times> u32" where
  "mem_image_open base m = (0x100, base)"

definition mem_image_load ::
  "u32 \<Rightarrow> u32 \<Rightarrow> u32 \<Rightarrow> u32 \<Rightarrow> metal_io_region option \<Rightarrow> memory \<Rightarrow> (int \<times> u32 option \<times> memory) option" where
  "mem_image_load base offset sz pa io m =
    (if pa = METAL_BAD_PHYS then Some (sint sz, Some (base + offset), m)
     else case io of
       None \<Rightarrow> Some (- EINVAL_image, None, m)
     | Some r \<Rightarrow> do {
         va \<leftarrow> metal_io_phys_to_virt r pa;
         Some (if va = 0 then (- EINVAL_image, None, m)
           else (sint sz, None, store_bytes m (unat va) (load_bytes m (unat (base + offset)) (unat sz)))) })"

definition mem_image_store_ops :: "u32 \<Rightarrow> image_store" where
  "mem_image_store_ops base = \<lparr>st_open = mem_image_open base, st_load = mem_image_load base, st_seek = True\<rparr>"

section \<open>\<open>remoteproc_load\<close>\<close>

text \<open>The processor with the fields that only loading uses; \<open>ld_loader\<close> tells whether a loader has been chosen, and
  there is only the one for ELF.\<close>

record loading =
  ld_rproc :: remoteproc
  ld_bootaddr :: u32
  ld_loader :: bool

definition remoteproc_check_fw_format :: "memory \<Rightarrow> u32 \<Rightarrow> u32 \<Rightarrow> bool" where
  "remoteproc_check_fw_format m img len \<longleftrightarrow> len \<noteq> 0 \<and> elf_identify m img len = 0"

text \<open>Error codes as pointers, and their release.\<close>

definition RPROC_ERR_PTR :: "int \<Rightarrow> u32" where "RPROC_ERR_PTR e = of_int e"
definition RPROC_IS_ERR :: "u32 \<Rightarrow> bool" where "RPROC_IS_ERR p \<longleftrightarrow> RPROC_ERR_PTR (- 16) \<le> p"

definition metal_free_memory :: "u32 \<Rightarrow> unit option" where
  "metal_free_memory p = (if RPROC_IS_ERR p then None else Some ())"

definition set_mem :: "memory \<Rightarrow> remoteproc \<Rightarrow> remoteproc" where
  "set_mem m rp = rp\<lparr>rproc_mem := m\<rparr>"

definition remoteproc_get_rsc_table ::
  "(u32 \<Rightarrow> u32 option) \<Rightarrow> image_store \<Rightarrow> u32 \<Rightarrow> u32 \<Rightarrow> remoteproc \<Rightarrow> (u32 \<times> remoteproc) option" where
  "remoteproc_get_rsc_table malloc store offset len rp =
    (case malloc len of
       None \<Rightarrow> Some (RPROC_ERR_PTR (- RPROC_ENOMEM), rp)
     | Some t \<Rightarrow> do {
         (ret, data, m) \<leftarrow> st_load store offset len RPROC_LOAD_ANYADDR None (rproc_mem rp);
         case data of
           Some img \<Rightarrow>
             if ret < 0 \<or> ret < sint len \<or> img = 0
             then do { _ \<leftarrow> metal_free_memory (RPROC_ERR_PTR (- RPROC_EINVAL)); Some (RPROC_ERR_PTR (- RPROC_EINVAL), set_mem m rp) }
             else do {
               let rp = set_mem (store_bytes m (unat t) (load_bytes m (unat img) (unat len))) rp;
               (ret, rp) \<leftarrow> handle_rsc_table t len None rp;
               if ret < 0 then do { _ \<leftarrow> metal_free_memory (RPROC_ERR_PTR ret); Some (RPROC_ERR_PTR ret, rp) }
               else Some (t, rp) }
         | None \<Rightarrow> do { _ \<leftarrow> metal_free_memory (RPROC_ERR_PTR (- RPROC_EINVAL)); Some (RPROC_ERR_PTR (- RPROC_EINVAL), set_mem m rp) } })"

text \<open>The loop over the headers. It ends with a return code (\<open>Inl\<close>) or with the data at hand, the information and the
  load state.\<close>

partial_function (option) load_headers ::
  "image_store \<Rightarrow> (u32 \<Rightarrow> bool) \<Rightarrow> u32 \<Rightarrow> u32 \<Rightarrow> u32 \<Rightarrow> elf_info option \<Rightarrow> u32 \<Rightarrow> u32 \<times> u32 \<Rightarrow> memory \<Rightarrow>
    ((int + u32 \<times> elf_info option \<times> u32) \<times> memory) option" where
  "load_headers store alloc img offset len info state nxt m = do {
     (r, info, noffset, nlen) \<leftarrow> elf_load_header alloc m img offset len info state (fst nxt) (snd nxt);
     case r of
       Inl e \<Rightarrow> Some (Inl e, m)
     | Inr st \<Rightarrow>
         if st AND RPROC_LOADER_READY_TO_LOAD \<noteq> 0 \<and> (nlen = 0 \<or> offset + len < noffset \<and> \<not> st_seek store)
         then Some (Inr (img, info, st), m)
         else do {
           (ret, data, m) \<leftarrow> st_load store noffset nlen RPROC_LOAD_ANYADDR None m;
           if ret < sint nlen then Some (Inl ret, m)
           else load_headers store alloc (case data of Some a \<Rightarrow> a | None \<Rightarrow> 0) noffset nlen info st (noffset, nlen) m } }"

text \<open>One piece of data into the memory of the processor.\<close>

definition load_target ::
  "image_store \<Rightarrow> load_out \<Rightarrow> metal_io_region option \<Rightarrow> remoteproc \<Rightarrow> ((int option \<times> u32 option \<times> metal_io_region option) \<times> remoteproc) option" where
  "load_target store out io rp = do {
     ((_, pa, da, io'), rp) \<leftarrow> remoteproc_mmap (Some METAL_BAD_PHYS) (Some (lo_da out)) (lo_memsize out) 0 rp;
     let io = (case io' of Some r \<Rightarrow> Some r | None \<Rightarrow> io);
     pa \<leftarrow> pa;
     if pa = METAL_BAD_PHYS then Some ((Some (- RPROC_EINVAL), None, io), rp)
     else case io of
       None \<Rightarrow> Some ((Some (- RPROC_EINVAL), None, io), rp)
     | Some r \<Rightarrow> do {
         (ret, data, m) \<leftarrow>
           (if lo_nlen out \<noteq> 0 then st_load store (lo_noffset out) (lo_nlen out) pa io (rproc_mem rp)
            else Some (0, None, rproc_mem rp));
         let rp = set_mem m rp;
         if lo_nlen out \<noteq> 0 \<and> ret \<noteq> sint (lo_nlen out) then Some ((Some (- RPROC_EINVAL), data, io), rp)
         else if lo_nlen out < lo_memsize out then do {
           off \<leftarrow> metal_io_phys_to_offset r (pa + lo_nlen out);
           let m = snd (metal_io_block_set r off (lo_padding out) (unat (lo_memsize out - lo_nlen out)) (rproc_mem rp));
           Some ((None, data, io), set_mem m rp) }
         else Some ((None, data, io), rp) } }"

text \<open>The loop over the data.\<close>

partial_function (option) load_data_loop ::
  "image_store \<Rightarrow> (u32 \<Rightarrow> bool) \<Rightarrow> u32 \<Rightarrow> u32 \<Rightarrow> u32 \<Rightarrow> elf_info option \<Rightarrow> u32 \<Rightarrow> metal_io_region option \<Rightarrow> remoteproc \<Rightarrow>
    ((int + elf_info option \<times> metal_io_region option) \<times> remoteproc) option" where
  "load_data_loop store alloc img offset len info state io rp = do {
     (r, out) \<leftarrow> elf_load alloc (rproc_mem rp) img offset len state
       \<lparr>lo_info = info, lo_da = RPROC_LOAD_ANYADDR, lo_noffset = 0, lo_nlen = 0, lo_padding = 0, lo_memsize = 0\<rparr>;
     case r of
       Inl e \<Rightarrow> Some (Inl e, rp)
     | Inr st \<Rightarrow>
         if lo_da out \<noteq> RPROC_LOAD_ANYADDR then do {
           ((err, data, io), rp) \<leftarrow> load_target store out io rp;
           case err of
             Some e \<Rightarrow> Some (Inl e, rp)
           | None \<Rightarrow> load_data_loop store alloc (case data of Some a \<Rightarrow> a | None \<Rightarrow> 0) offset len (lo_info out) st io rp }
         else if lo_nlen out \<noteq> 0 then do {
           (ret, data, m) \<leftarrow> st_load store (lo_noffset out) (lo_nlen out) RPROC_LOAD_ANYADDR None (rproc_mem rp);
           let rp = set_mem m rp;
           let img = (case data of Some a \<Rightarrow> a | None \<Rightarrow> img);
           if ret < sint (lo_nlen out)
           then (if st AND RPROC_LOADER_POST_DATA_LOAD \<noteq> 0 then Some (Inr (lo_info out, io), rp) else Some (Inl ret, rp))
           else load_data_loop store alloc img (lo_noffset out) (lo_nlen out) (lo_info out) st io rp }
         else Some (Inr (lo_info out, io), rp) }"

text \<open>The resource table goes where its section says, with what the parser wrote into it.\<close>

definition update_rsc_table ::
  "u32 \<Rightarrow> u32 \<Rightarrow> u32 \<Rightarrow> metal_io_region option \<Rightarrow> remoteproc \<Rightarrow> remoteproc option" where
  "update_rsc_table table rsc_da sz io rp =
    (if table = 0 then Some rp
     else do {
       ((va, _, _, io'), rp) \<leftarrow> remoteproc_mmap None (Some rsc_da) sz 0 rp;
       let io = (case io' of Some r \<Rightarrow> Some r | None \<Rightarrow> io);
       rp \<leftarrow> (if va \<noteq> 0 then do {
           r \<leftarrow> io;
           let m = snd (metal_io_block_write r (metal_io_virt_to_offset r va) (unat table) (unat sz) (rproc_mem rp));
           Some ((set_mem m rp)\<lparr>rsc_table := va, rsc_len := sz, rsc_io := io\<rparr>) }
         else Some rp);
       _ \<leftarrow> metal_free_memory table;
       Some rp })"

definition locate_and_get ::
  "(u32 \<Rightarrow> u32 option) \<Rightarrow> image_store \<Rightarrow> elf_info option \<Rightarrow> u32 \<times> u32 \<times> u32 \<Rightarrow> u32 \<Rightarrow> remoteproc \<Rightarrow>
    (u32 \<times> (u32 \<times> u32 \<times> u32) \<times> remoteproc) option" where
  "locate_and_get malloc store info loc table rp = do {
     (ret, da, off, sz) \<leftarrow> elf_locate_rsc_table info loc;
     if ret = 0 \<and> 0 < sz then do {
       (table, rp) \<leftarrow> remoteproc_get_rsc_table malloc store off sz rp;
       Some (table, (da, off, sz), rp) }
     else Some (table, (da, off, sz), rp) }"

text \<open>What follows the headers. The result is the code and the information of the image.\<close>

definition load_body ::
  "(u32 \<Rightarrow> u32 option) \<Rightarrow> image_store \<Rightarrow> u32 \<Rightarrow> elf_info option \<Rightarrow> u32 \<Rightarrow> loading \<Rightarrow> (int \<times> elf_info option \<times> loading) option" where
  "load_body malloc store img info state s = do {
     (table, (rsc_da, off, rsc_size), rp) \<leftarrow> locate_and_get malloc store info (0, 0, 0) 0 (ld_rproc s);
     (r, rp) \<leftarrow> load_data_loop store (\<lambda>n. malloc n \<noteq> None) img 0 0 info state None rp;
     case r of
       Inl e \<Rightarrow> do {
         _ \<leftarrow> (if table \<noteq> 0 then metal_free_memory table else Some ());
         Some (e, elf_release info, s\<lparr>ld_rproc := rp\<rparr>) }
     | Inr (info, io) \<Rightarrow> do {
         (table, (rsc_da, off, rsc_size), rp) \<leftarrow>
           (if rsc_size = 0 then locate_and_get malloc store info (rsc_da, off, rsc_size) table rp
            else Some (table, (rsc_da, off, rsc_size), rp));
         rp \<leftarrow> update_rsc_table table rsc_da rsc_size io rp;
         Some (0, info, s\<lparr>ld_rproc := rp\<lparr>rproc_state := RPROC_READY\<rparr>, ld_bootaddr := elf_get_entry info\<rparr>) } }"

definition remoteproc_load ::
  "(u32 \<Rightarrow> u32 option) \<Rightarrow> image_store option \<Rightarrow> bool \<Rightarrow> loading \<Rightarrow> (int \<times> elf_info option \<times> loading) option" where
  "remoteproc_load malloc store_ops want_info s =
    (if rproc_state (ld_rproc s) \<noteq> RPROC_READY \<and> rproc_state (ld_rproc s) \<noteq> RPROC_CONFIGURED then Some (- RPROC_EINVAL, None, s)
     else case store_ops of
       None \<Rightarrow> Some (- RPROC_EINVAL, None, s)
     | Some store \<Rightarrow>
         let m = rproc_mem (ld_rproc s); (ret, img) = st_open store m
         in if ret \<le> 0 then Some (- RPROC_EINVAL, None, s)
            else if img = 0 then None
            else if \<not> ld_loader s \<and> \<not> remoteproc_check_fw_format m img (of_int ret) then Some (- RPROC_EINVAL, None, s)
            else do {
              let s = s\<lparr>ld_loader := True\<rparr>;
              (r, m) \<leftarrow> load_headers store (\<lambda>n. malloc n \<noteq> None) img 0 (of_int ret) None RPROC_LOADER_NOT_READY (0, 0) m;
              let s = s\<lparr>ld_rproc := set_mem m (ld_rproc s)\<rparr>;
              case r of
                Inl e \<Rightarrow> Some (e, None, s)
              | Inr (img, info, st) \<Rightarrow> do {
                  (ret, info, s) \<leftarrow> load_body malloc store img info st s;
                  Some (ret, if want_info then info else elf_release info, s) } })"

section \<open>\<open>remoteproc_load_noblock\<close>\<close>

text \<open>The caller's variables.\<close>

record nb_vars =
  nb_info :: "elf_info option"
  nb_pa :: u32
  nb_io :: "metal_io_region option"
  nb_noffset :: u32
  nb_nlen :: u32
  nb_nmlen :: u32
  nb_padding :: u8

text \<open>The last part, once the image is loaded: the resource table is read back from the memory of the processor, parsed
  and written again. The result is an error code, or \<open>None\<close> to go on.\<close>

definition noblock_finish ::
  "(u32 \<Rightarrow> u32 option) \<Rightarrow> elf_info option \<Rightarrow> metal_io_region option \<Rightarrow> loading \<Rightarrow> ((int option \<times> metal_io_region option) \<times> loading) option" where
  "noblock_finish malloc info io s = do {
     (ret, rsc_da, _, sz) \<leftarrow> elf_locate_rsc_table info (0, 0, 0);
     if ret = 0 \<and> 0 < sz then
       case malloc sz of
         None \<Rightarrow> Some ((Some (- RPROC_ENOMEM), io), s)
       | Some t \<Rightarrow> do {
           ((va, _, _, io'), rp) \<leftarrow> remoteproc_mmap None (Some rsc_da) sz 0 (ld_rproc s);
           let io = (case io' of Some r \<Rightarrow> Some r | None \<Rightarrow> io);
           let s = s\<lparr>ld_rproc := rp\<rparr>;
           case io of
             None \<Rightarrow> Some ((Some ret, io), s)
           | Some r \<Rightarrow> do {
               let off = metal_io_virt_to_offset r va;
               let (n, m) = metal_io_block_read r off (unat t) (unat sz) (rproc_mem rp);
               let rp = set_mem m rp;
               if n \<noteq> sint sz then Some ((Some n, io), s\<lparr>ld_rproc := rp\<rparr>)
               else do {
                 (ret, rp) \<leftarrow> remoteproc_parse_rsc_table t sz rp;
                 if ret < 0 then Some ((Some ret, io), s\<lparr>ld_rproc := rp\<rparr>)
                 else do {
                   let m = snd (metal_io_block_write r off (unat t) (unat sz) (rproc_mem rp));
                   let rp = (set_mem m rp)\<lparr>rsc_table := va, rsc_len := sz\<rparr>;
                   Some ((None, io), s\<lparr>ld_rproc := rp, ld_bootaddr := elf_get_entry info\<rparr>) } } } }
     else Some ((None, io), s\<lparr>ld_bootaddr := elf_get_entry info\<rparr>) }"

text \<open>The middle part: the headers, then the next segment. The result is an error code, or whether to return at once, and the
  state.\<close>

definition noblock_headers ::
  "(u32 \<Rightarrow> bool) \<Rightarrow> memory \<Rightarrow> u32 \<Rightarrow> u32 \<Rightarrow> u32 \<Rightarrow> u32 \<Rightarrow> nb_vars \<Rightarrow> ((int + bool \<times> u32) \<times> nb_vars) option" where
  "noblock_headers alloc m img offset len state v =
    (if state AND RPROC_LOADER_READY_TO_LOAD = 0 \<and> state AND RPROC_LOADER_LOAD_COMPLETE = 0 then do {
       (r, info, noff, nlen) \<leftarrow> elf_load_header alloc m img offset len (nb_info v) state (nb_noffset v) (nb_nlen v);
       let v = v\<lparr>nb_info := info, nb_noffset := noff, nb_nlen := nlen\<rparr>;
       Some (case r of Inl e \<Rightarrow> (Inl e, v) | Inr st \<Rightarrow> (Inr (nlen \<noteq> 0 \<and> st AND RPROC_LOADER_READY_TO_LOAD = 0, st), v)) }
     else Some (Inr (False, state), v))"

definition noblock_data ::
  "(u32 \<Rightarrow> bool) \<Rightarrow> u32 \<Rightarrow> u32 \<Rightarrow> u32 \<Rightarrow> u32 \<Rightarrow> nb_vars \<Rightarrow> remoteproc \<Rightarrow> (((int + bool \<times> u32) \<times> nb_vars) \<times> remoteproc) option" where
  "noblock_data alloc img offset len state v rp =
    (if state AND RPROC_LOADER_READY_TO_LOAD \<noteq> 0 \<or> state AND RPROC_LOADER_POST_DATA_LOAD \<noteq> 0 then do {
       (r, out) \<leftarrow> elf_load alloc (rproc_mem rp) img offset len state
         \<lparr>lo_info = nb_info v, lo_da = RPROC_LOAD_ANYADDR, lo_noffset = nb_noffset v, lo_nlen = nb_nlen v,
          lo_padding = nb_padding v, lo_memsize = nb_nmlen v\<rparr>;
       let v = v\<lparr>nb_info := lo_info out, nb_noffset := lo_noffset out, nb_nlen := lo_nlen out, nb_nmlen := lo_memsize out,
                 nb_padding := lo_padding out\<rparr>;
       case r of
         Inl e \<Rightarrow> Some ((Inl e, v), rp)
       | Inr st \<Rightarrow>
           if lo_da out \<noteq> RPROC_LOAD_ANYADDR then do {
             ((_, pa, _, io'), rp) \<leftarrow> remoteproc_mmap (Some METAL_BAD_PHYS) (Some (lo_da out)) (lo_memsize out) 0 rp;
             pa \<leftarrow> pa;
             let v = v\<lparr>nb_pa := pa, nb_io := (case io' of Some r \<Rightarrow> Some r | None \<Rightarrow> nb_io v)\<rparr>;
             Some (if pa = METAL_BAD_PHYS then (Inl (- RPROC_EINVAL), v) else (Inr (nb_nlen v \<noteq> 0, st), v), rp) }
           else Some ((Inr (nb_nlen v \<noteq> 0, st), v), rp) }
     else Some ((Inr (False, state), v), rp))"

text \<open>An error releases the information, which the caller's variable still points to.\<close>

definition remoteproc_load_noblock ::
  "(u32 \<Rightarrow> u32 option) \<Rightarrow> u32 \<Rightarrow> u32 \<Rightarrow> u32 \<Rightarrow> nb_vars \<Rightarrow> loading \<Rightarrow> ((int \<times> nb_vars) \<times> loading) option" where
  "remoteproc_load_noblock malloc img offset len v s =
    (let m = rproc_mem (ld_rproc s); alloc = (\<lambda>n. malloc n \<noteq> None)
     in if rproc_state (ld_rproc s) \<noteq> RPROC_READY then Some ((- RPROC_EINVAL, v), s)
        else if \<not> ld_loader s \<and> (img = 0 \<or> offset \<noteq> 0 \<or> len = 0 \<or> \<not> remoteproc_check_fw_format m img len)
        then Some ((- RPROC_EINVAL, v), s)
        else do {
          let s = s\<lparr>ld_loader := True\<rparr>;
          let state = (case nb_info v of None \<Rightarrow> 0 | Some i \<Rightarrow> ei_load_state i);
          let info = nb_info v;
          (r, v) \<leftarrow> noblock_headers alloc m img offset len state (v\<lparr>nb_nlen := 0\<rparr>);
          case r of
            Inl e \<Rightarrow> Some ((e, v\<lparr>nb_info := info\<rparr>), s)
          | Inr (True, st) \<Rightarrow> Some ((0, v), s)
          | Inr (False, st) \<Rightarrow> do {
              ((r, v), rp) \<leftarrow> noblock_data alloc img offset len st v (ld_rproc s);
              let s = s\<lparr>ld_rproc := rp\<rparr>;
              case r of
                Inl e \<Rightarrow> Some ((e, v\<lparr>nb_info := info\<rparr>), s)
              | Inr (True, st) \<Rightarrow> Some ((0, v), s)
              | Inr (False, st) \<Rightarrow>
                  if st AND RPROC_LOADER_LOAD_COMPLETE \<noteq> 0 then do {
                    ((err, io), s) \<leftarrow> noblock_finish malloc (nb_info v) (nb_io v) s;
                    let v = v\<lparr>nb_io := io\<rparr>;
                    Some (case err of Some e \<Rightarrow> (e, v\<lparr>nb_info := info\<rparr>) | None \<Rightarrow> (0, v), s) }
                  else Some ((0, v), s) } })"

text \<open>The loop of the example. Its result is 0 or the code of the step that failed.\<close>

definition pad_segment :: "nb_vars \<Rightarrow> remoteproc \<Rightarrow> remoteproc option" where
  "pad_segment v rp =
    (case nb_io v of
       Some r \<Rightarrow> if nb_nlen v < nb_nmlen v then do {
           off \<leftarrow> metal_io_phys_to_offset r (nb_pa v + nb_nlen v);
           let m = snd (metal_io_block_set r off (nb_padding v) (unat (nb_nmlen v - nb_nlen v)) (rproc_mem rp));
           Some (set_mem m rp) }
         else Some rp
     | None \<Rightarrow> Some rp)"

partial_function (option) noblock_loop ::
  "(u32 \<Rightarrow> u32 option) \<Rightarrow> image_store \<Rightarrow> u32 \<Rightarrow> u32 \<Rightarrow> u32 \<Rightarrow> nb_vars \<Rightarrow> loading \<Rightarrow> (int \<times> loading) option" where
  "noblock_loop malloc store img offset len v s = do {
     ((ret, v), s) \<leftarrow> remoteproc_load_noblock malloc img offset len
       (v\<lparr>nb_nlen := 0, nb_pa := METAL_BAD_PHYS, nb_io := None, nb_nmlen := 0\<rparr>) s;
     if ret \<noteq> 0 then Some (ret, s)
     else if nb_nlen v = 0 then Some (0, s)
     else do {
       (ret, data, m) \<leftarrow> st_load store (nb_noffset v) (nb_nlen v) (nb_pa v) (nb_io v) (rproc_mem (ld_rproc s));
       let img = (case data of Some a \<Rightarrow> a | None \<Rightarrow> img);
       let s = s\<lparr>ld_rproc := set_mem m (ld_rproc s)\<rparr>;
       if ret \<noteq> sint (nb_nlen v) then Some (ret, s)
       else do {
         rp \<leftarrow> pad_segment v (ld_rproc s);
         noblock_loop malloc store img (nb_noffset v) (nb_nlen v) v (s\<lparr>ld_rproc := rp\<rparr>) } } }"

definition load_exectuable_noblock :: "(u32 \<Rightarrow> u32 option) \<Rightarrow> image_store \<Rightarrow> nb_vars \<Rightarrow> loading \<Rightarrow> (int \<times> loading) option" where
  "load_exectuable_noblock malloc store v s =
    (let s = s\<lparr>ld_rproc := snd (remoteproc_config (ld_rproc s))\<rparr>;
         (ret, img) = st_open store (rproc_mem (ld_rproc s))
     in if ret \<le> 0 then Some (- EINVAL_image, s)
        else noblock_loop malloc store img 0 (of_int ret) (v\<lparr>nb_info := None\<rparr>) s)"

definition load_exectuable_block :: "(u32 \<Rightarrow> u32 option) \<Rightarrow> image_store option \<Rightarrow> loading \<Rightarrow> (int \<times> elf_info option \<times> loading) option" where
  "load_exectuable_block malloc store s = remoteproc_load malloc store False (s\<lparr>ld_rproc := snd (remoteproc_config (ld_rproc s))\<rparr>)"

end
