(* ===== verification/Firmware_Spec.thy ===== *)
theory Firmware_Spec
  imports Firmware_Load Openamp_Platform
begin

text \<open>
  What loading firmware does, against a parser that reads the whole file at once: the header state machine ends with
  what that parser finds, and the memory of the processor ends with every loadable segment of the file.
  The interface of an image store is the locale \<open>image_source\<close>; the store of the OpenAMP example is its instance.
\<close>

section \<open>The file\<close>

definition slice :: "nat \<Rightarrow> nat \<Rightarrow> bytes \<Rightarrow> bytes" where
  "slice off n img = take n (drop off img)"

definition bare_info :: "bytes \<Rightarrow> elf_info" where
  "bare_info img = \<lparr>ei_ehdr = take (unat (elf_ehdr_size (Some img))) img, ei_load_state = ELF_STATE_WAIT_FOR_PHDRS,
     ei_phdrs = None, ei_shdrs = None, ei_shstrtab = None\<rparr>"

definition phdrs_bytes :: "elf_info \<Rightarrow> u32" where "phdrs_bytes i = of_int (elf_phnum i) * elf_phentsize i"
definition shdrs_bytes :: "elf_info \<Rightarrow> u32" where "shdrs_bytes i = of_int (elf_shnum i) * elf_shentsize i"

definition with_phdrs :: "bytes \<Rightarrow> elf_info" where
  "with_phdrs img = (let i = bare_info img
     in i\<lparr>ei_phdrs := Some (slice (unat (elf_phoff i)) (unat (phdrs_bytes i)) img), ei_load_state := 0x10200\<rparr>)"

definition with_shdrs :: "bytes \<Rightarrow> elf_info" where
  "with_shdrs img = (let i = with_phdrs img
     in i\<lparr>ei_shdrs := Some (slice (unat (elf_shoff i)) (unat (shdrs_bytes i)) img), ei_load_state := 0x10400\<rparr>)"

text \<open>Offset and size of the section names.\<close>

definition names_at :: "bytes \<Rightarrow> (u32 \<times> u32) option" where
  "names_at img = (let i = with_shdrs img in do {
     p \<leftarrow> elf_get_section_from_index i (elf_shstrndx i);
     (_, off, sz) \<leftarrow> elf_parse_section i p;
     Some (off, sz) })"

definition elf_image :: "bytes \<Rightarrow> elf_info" where
  "elf_image img =
    (if elf_shnum (bare_info img) = 0 then (with_phdrs img)\<lparr>ei_load_state := 0x10800\<rparr>
     else (with_shdrs img)\<lparr>ei_shstrtab := map_option (\<lambda>(off, sz). slice (unat off) (unat sz) img) (names_at img), ei_load_state := 0x10800\<rparr>)"

text \<open>The tables lie in the file, with entries of the size the class of the file has, and at most 255 program headers.\<close>

definition elf_ok :: "bytes \<Rightarrow> bool" where
  "elf_ok img \<longleftrightarrow> (let i = bare_info img in
     16 \<le> length img \<and> unat (elf_ehdr_size (Some img)) \<le> length img \<and> length img < 2 ^ 31 \<and> take 4 img = ELFMAG \<and>
     unat (elf_phoff i) + unat (phdrs_bytes i) \<le> length img \<and> unat (elf_phentsize i) = phdr_size i \<and> elf_phnum i \<le> 255 \<and>
     (elf_shnum i \<noteq> 0 \<longrightarrow> unat (elf_shoff i) + unat (shdrs_bytes i) \<le> length img \<and> shdrs_bytes i \<noteq> 0 \<and>
        (case names_at img of None \<Rightarrow> False | Some (off, sz) \<Rightarrow> unat off + unat sz \<le> length img \<and> sz \<noteq> 0)))"

definition seg_at :: "bytes \<Rightarrow> nat \<Rightarrow> elf_segment" where
  "seg_at img k = the (elf_parse_segment (elf_image img) (drop (k * phdr_size (elf_image img)) (the (ei_phdrs (elf_image img)))))"

definition phnum :: "bytes \<Rightarrow> nat" where "phnum img = nat (elf_phnum (elf_image img))"

definition segs_from :: "bytes \<Rightarrow> nat \<Rightarrow> elf_segment list" where
  "segs_from img k = filter (\<lambda>sg. p_type sg = PT_LOAD) (map (seg_at img) [k..<phnum img])"

definition elf_segments :: "bytes \<Rightarrow> elf_segment list" where
  "elf_segments img = segs_from img 0"

definition store_segment :: "bytes \<Rightarrow> elf_segment \<Rightarrow> memory \<Rightarrow> memory" where
  "store_segment img sg m = store_bytes m (unat (p_vaddr sg))
     (slice (unat (p_offset sg)) (unat (p_filesz sg)) img @ replicate (unat (p_memsz sg) - unat (p_filesz sg)) 0)"

definition image_at :: "memory \<Rightarrow> u32 \<Rightarrow> bytes \<Rightarrow> bool" where
  "image_at m base img \<longleftrightarrow> load_bytes m (unat base) (length img) = img \<and> unat base + length img < 2 ^ 32 \<and> base \<noteq> 0"

text \<open>A segment lies in the file, has an address, and stays away from where the file is kept.\<close>

definition segment_ok :: "u32 \<Rightarrow> bytes \<Rightarrow> elf_segment \<Rightarrow> bool" where
  "segment_ok base img sg \<longleftrightarrow> p_vaddr sg \<noteq> 0 \<and> unat (p_vaddr sg) + unat (p_memsz sg) < 2 ^ 32 \<and> p_memsz sg \<noteq> 0 \<and>
     unat (p_filesz sg) \<le> unat (p_memsz sg) \<and> unat (p_offset sg) + unat (p_filesz sg) \<le> length img \<and>
     disjoint_regions (unat (p_vaddr sg)) (unat (p_memsz sg)) (unat base) (length img)"

section \<open>Headers\<close>

lemma image_slice:
  assumes "image_at m base img" and "unat off + n \<le> length img"
  shows "load_bytes m (unat (base + off)) n = slice (unat off) n img"
proof -
  have "unat (base + off) = unat base + unat off" using assms by (simp add: image_at_def unat_word_ariths)
  moreover have "load_bytes m (unat base + unat off) n = slice (unat off) n (load_bytes m (unat base) (length img))"
    using assms(2) by (intro nth_equalityI) (simp_all add: slice_def nth_load_bytes add.assoc)
  ultimately show ?thesis using assms(1) by (simp add: image_at_def)
qed

lemma image_take_part:
  assumes "image_at m base img" and "unat off + unat sz \<le> length img" and "alloc sz"
  shows "take_part alloc m (base + offset) offset len off sz =
    (if off < offset \<or> offset + len < off + sz then Need else Part (slice (unat off) (unat sz) img))"
proof -
  have "base + offset + (off - offset) = base + off" by simp
  then show ?thesis using assms(3) image_slice [OF assms(1,2)] by (simp add: take_part_def)
qed

lemma info_views [simp]:
  "elf_phnum (i\<lparr>ei_load_state := s\<rparr>) = elf_phnum i" "elf_phnum (i\<lparr>ei_phdrs := a\<rparr>) = elf_phnum i"
  "elf_phnum (i\<lparr>ei_shdrs := a\<rparr>) = elf_phnum i" "elf_phnum (i\<lparr>ei_shstrtab := a\<rparr>) = elf_phnum i"
  "elf_shnum (i\<lparr>ei_load_state := s\<rparr>) = elf_shnum i" "elf_shnum (i\<lparr>ei_phdrs := a\<rparr>) = elf_shnum i"
  "elf_shnum (i\<lparr>ei_shdrs := a\<rparr>) = elf_shnum i" "elf_shnum (i\<lparr>ei_shstrtab := a\<rparr>) = elf_shnum i"
  "elf_shoff (i\<lparr>ei_load_state := s\<rparr>) = elf_shoff i" "elf_shoff (i\<lparr>ei_phdrs := a\<rparr>) = elf_shoff i"
  "elf_shentsize (i\<lparr>ei_load_state := s\<rparr>) = elf_shentsize i" "elf_shentsize (i\<lparr>ei_phdrs := a\<rparr>) = elf_shentsize i"
  "elf_shstrndx (i\<lparr>ei_load_state := s\<rparr>) = elf_shstrndx i" "elf_shstrndx (i\<lparr>ei_phdrs := a\<rparr>) = elf_shstrndx i"
  "elf_shstrndx (i\<lparr>ei_shdrs := a\<rparr>) = elf_shstrndx i"
  "elf_phentsize (i\<lparr>ei_load_state := s\<rparr>) = elf_phentsize i" "elf_phentsize (i\<lparr>ei_phdrs := a\<rparr>) = elf_phentsize i"
  "phdr_size (i\<lparr>ei_load_state := s\<rparr>) = phdr_size i" "phdr_size (i\<lparr>ei_phdrs := a\<rparr>) = phdr_size i"
  "phdr_size (i\<lparr>ei_shdrs := a\<rparr>) = phdr_size i" "phdr_size (i\<lparr>ei_shstrtab := a\<rparr>) = phdr_size i"
  "elf_parse_segment (i\<lparr>ei_load_state := s\<rparr>) = elf_parse_segment i"
  "shdr_size (i\<lparr>ei_load_state := s\<rparr>) = shdr_size i"
  by (simp_all add: elf_phnum_def elf_shnum_def elf_shoff_def elf_shentsize_def elf_shstrndx_def elf_phentsize_def phdr_size_def
      elf_parse_segment_def shdr_size_def fun_eq_iff)

lemma state_views [simp]:
  "elf_get_segment_from_index (i\<lparr>ei_load_state := s\<rparr>) = elf_get_segment_from_index i"
  "elf_get_section_from_name (i\<lparr>ei_load_state := s\<rparr>) = elf_get_section_from_name i"
  "elf_get_entry (Some (i\<lparr>ei_load_state := s\<rparr>)) = elf_get_entry (Some i)"
  "elf_get_section_from_index (i\<lparr>ei_load_state := s\<rparr>) = elf_get_section_from_index i"
  "elf_parse_section (i\<lparr>ei_load_state := s\<rparr>) = elf_parse_section i"
  by (simp_all add: elf_get_segment_from_index_def elf_get_section_from_name_def elf_get_entry_def
      elf_get_section_from_index_def elf_parse_section_def fun_eq_iff split: option.split)

lemma stage_states [simp]:
  "ei_load_state (bare_info img) = 0x100" "ei_load_state (with_phdrs img) = 0x10200" "ei_load_state (with_shdrs img) = 0x10400"
  "ei_load_state (elf_image img) = 0x10800"
  by (simp_all add: bare_info_def with_phdrs_def with_shdrs_def elf_image_def elf_states Let_def)

lemma image_views [simp]:
  "elf_phnum (with_phdrs img) = elf_phnum (bare_info img)" "elf_phnum (elf_image img) = elf_phnum (bare_info img)"
  "elf_shnum (with_phdrs img) = elf_shnum (bare_info img)" "elf_shoff (with_phdrs img) = elf_shoff (bare_info img)"
  "elf_shentsize (with_phdrs img) = elf_shentsize (bare_info img)" "shdrs_bytes (with_phdrs img) = shdrs_bytes (bare_info img)"
  "phdr_size (elf_image img) = phdr_size (bare_info img)" "elf_shstrndx (with_phdrs img) = elf_shstrndx (bare_info img)"
  "ei_phdrs (elf_image img) = Some (slice (unat (elf_phoff (bare_info img))) (unat (phdrs_bytes (bare_info img))) img)"
  by (simp_all add: with_phdrs_def with_shdrs_def elf_image_def shdrs_bytes_def Let_def)

text \<open>Each stage either asks for its table or goes on, and goes on when it is given what it asked for.\<close>

definition names_result :: "bytes \<Rightarrow> u32 \<Rightarrow> u32 \<Rightarrow> u32 \<Rightarrow> hdr_result" where
  "names_result img offset len a = (case names_at img of None \<Rightarrow> (Inl 0, None, 0, 0)
     | Some (off, sz) \<Rightarrow> if off < offset \<or> offset + len < off + sz then (Inr 0x10400, Some (with_shdrs img), off, sz)
         else (Inr 0x10800, Some (elf_image img), a, 0))"

definition shdrs_result :: "bytes \<Rightarrow> u32 \<Rightarrow> u32 \<Rightarrow> u32 \<Rightarrow> hdr_result" where
  "shdrs_result img offset len a = (let i = bare_info img; off = elf_shoff i; sz = shdrs_bytes i in
     if elf_shnum i = 0 then (Inr 0x10800, Some (elf_image img), a, 0)
     else if off < offset \<or> offset + len < off + sz then (Inr 0x10200, Some (with_phdrs img), off, sz)
     else names_result img offset len a)"

definition phdrs_result :: "bytes \<Rightarrow> u32 \<Rightarrow> u32 \<Rightarrow> u32 \<Rightarrow> hdr_result" where
  "phdrs_result img offset len a = (let i = bare_info img; off = elf_phoff i; sz = phdrs_bytes i in
     if off < offset \<or> offset + len < off + sz then (Inr 0x100, Some i, off, sz) else shdrs_result img offset len a)"

lemma elf_ok_parts:
  assumes "elf_ok img"
  shows "16 \<le> length img" "unat (elf_ehdr_size (Some img)) \<le> length img" "length img < 2 ^ 31" "take 4 img = ELFMAG"
    "unat (elf_phoff (bare_info img)) + unat (phdrs_bytes (bare_info img)) \<le> length img"
    "unat (elf_phentsize (bare_info img)) = phdr_size (bare_info img)" "elf_phnum (bare_info img) \<le> 255"
    "elf_shnum (bare_info img) \<noteq> 0 \<Longrightarrow> unat (elf_shoff (bare_info img)) + unat (shdrs_bytes (bare_info img)) \<le> length img \<and>
       shdrs_bytes (bare_info img) \<noteq> 0"
  using assms by (auto simp: elf_ok_def Let_def)

lemma names_ok:
  assumes "elf_ok img" and "elf_shnum (bare_info img) \<noteq> 0"
  obtains off sz where "names_at img = Some (off, sz)" "unat off + unat sz \<le> length img" "sz \<noteq> 0"
  using assms by (auto simp: elf_ok_def Let_def split: option.splits)

lemma same_state: "ei_load_state i = s \<Longrightarrow> i\<lparr>ei_load_state := s\<rparr> = i"
  by (cases i) simp

lemma names_stage_in:
  assumes "elf_ok img" and "image_at m base img" and "\<forall>n. alloc n" and "elf_shnum (bare_info img) \<noteq> 0" and "s AND 0x400 \<noteq> 0"
  obtains off sz where "names_at img = Some (off, sz)" "sz \<noteq> 0" "unat off + unat sz \<le> length img"
    "\<And>offset len a b. load_shstrtab alloc m (base + offset) offset len ((with_shdrs img)\<lparr>ei_load_state := s\<rparr>) a b = Some (Inl
      (if off < offset \<or> offset + len < off + sz then (Inr s, Some ((with_shdrs img)\<lparr>ei_load_state := s\<rparr>), off, sz)
       else let t = (s AND NOT 0xFF00) OR 0x800 in (Inr t, Some ((elf_image img)\<lparr>ei_load_state := t\<rparr>), a, 0)))"
    "\<And>data offset len a b. off < offset \<or> offset + len < off + sz \<Longrightarrow>
      load_shstrtab alloc m data offset len ((with_shdrs img)\<lparr>ei_load_state := s\<rparr>) a b =
        Some (Inl (Inr s, Some ((with_shdrs img)\<lparr>ei_load_state := s\<rparr>), off, sz))"
proof -
  obtain off sz where ns: "names_at img = Some (off, sz)" "unat off + unat sz \<le> length img" "sz \<noteq> 0"
    using names_ok [OF assms(1,4)] .
  then obtain p x where p: "elf_get_section_from_index (with_shdrs img) (elf_shstrndx (with_shdrs img)) = Some p"
      "elf_parse_section (with_shdrs img) p = Some (x, off, sz)"
    by (auto simp: names_at_def Let_def bind_eq_Some_conv)
  have e: "(with_shdrs img)\<lparr>ei_shstrtab := Some (slice (unat off) (unat sz) img), ei_load_state := t\<rparr> = (elf_image img)\<lparr>ei_load_state := t\<rparr>" for t
    using assms(4) ns(1) by (simp add: elf_image_def)
  show thesis
  proof (rule that [OF ns(1,3,2)], goal_cases)
    case 1
    show ?case unfolding load_shstrtab_def
      by (simp add: p e assms(5) image_take_part [OF assms(2) ns(2) spec [OF assms(3)]] elf_states Let_def)
  next
    case 2
    then show ?case unfolding load_shstrtab_def by (simp add: p assms(5) elf_states take_part_def)
  qed
qed

lemma names_stage:
  assumes "elf_ok img" and "image_at m base img" and "\<forall>n. alloc n" and "elf_shnum (bare_info img) \<noteq> 0"
  shows "load_shstrtab alloc m (base + offset) offset len (with_shdrs img) a b = Some (Inl (names_result img offset len a))"
proof -
  have s: "(with_shdrs img)\<lparr>ei_load_state := 0x10400\<rparr> = with_shdrs img" "(elf_image img)\<lparr>ei_load_state := 0x10800\<rparr> = elf_image img"
    by (simp_all add: same_state)
  show ?thesis
    by (rule names_stage_in [OF assms, of "0x10400"]) (simp_all add: names_result_def s Let_def)
qed

lemma shdrs_stage_in:
  assumes "elf_ok img" and "image_at m base img" and "\<forall>n. alloc n" and "elf_shnum (bare_info img) \<noteq> 0" and "s AND 0x200 \<noteq> 0"
  defines "off \<equiv> elf_shoff (bare_info img)" and "sz \<equiv> shdrs_bytes (bare_info img)"
  shows "load_shdrs alloc m (base + offset) offset len ((with_phdrs img)\<lparr>ei_load_state := s\<rparr>) a b =
      (if off < offset \<or> offset + len < off + sz then Inl (Inr s, Some ((with_phdrs img)\<lparr>ei_load_state := s\<rparr>), off, sz)
       else Inr ((with_shdrs img)\<lparr>ei_load_state := (s AND NOT 0xFF00) OR 0x400\<rparr>))"
    and "off < offset \<or> offset + len < off + sz \<Longrightarrow> load_shdrs alloc m data offset len ((with_phdrs img)\<lparr>ei_load_state := s\<rparr>) a b =
      Inl (Inr s, Some ((with_phdrs img)\<lparr>ei_load_state := s\<rparr>), off, sz)"
proof -
  note part = image_take_part [OF assms(2) conjunct1 [OF elf_ok_parts(8) [OF assms(1,4)]] spec [OF assms(3)]]
  have sz: "of_int (elf_shnum ((with_phdrs img)\<lparr>ei_load_state := s\<rparr>)) * elf_shentsize ((with_phdrs img)\<lparr>ei_load_state := s\<rparr>) =
      shdrs_bytes (bare_info img)"
    by (simp add: shdrs_bytes_def)
  show "load_shdrs alloc m (base + offset) offset len ((with_phdrs img)\<lparr>ei_load_state := s\<rparr>) a b =
      (if off < offset \<or> offset + len < off + sz then Inl (Inr s, Some ((with_phdrs img)\<lparr>ei_load_state := s\<rparr>), off, sz)
       else Inr ((with_shdrs img)\<lparr>ei_load_state := (s AND NOT 0xFF00) OR 0x400\<rparr>))"
    unfolding load_shdrs_def Let_def sz using assms(4,5) by (simp add: part elf_states with_shdrs_def Let_def off_def sz_def)
  assume "off < offset \<or> offset + len < off + sz"
  then show "load_shdrs alloc m data offset len ((with_phdrs img)\<lparr>ei_load_state := s\<rparr>) a b =
      Inl (Inr s, Some ((with_phdrs img)\<lparr>ei_load_state := s\<rparr>), off, sz)"
    unfolding load_shdrs_def Let_def sz using assms(4,5) by (simp add: take_part_def elf_states off_def sz_def)
qed

lemma shdrs_stage:
  assumes "elf_ok img" and "image_at m base img" and "\<forall>n. alloc n"
  shows "load_shdrs alloc m (base + offset) offset len (with_phdrs img) a b =
    (let i = bare_info img; off = elf_shoff i; sz = shdrs_bytes i in
     if elf_shnum i = 0 then Inl (Inr 0x10800, Some (elf_image img), a, 0)
     else if off < offset \<or> offset + len < off + sz then Inl (Inr 0x10200, Some (with_phdrs img), off, sz) else Inr (with_shdrs img))"
proof (cases "elf_shnum (bare_info img) = 0")
  case True
  then show ?thesis by (simp add: load_shdrs_def elf_states Let_def elf_image_def)
next
  case False
  have e: "(with_phdrs img)\<lparr>ei_load_state := 0x10200\<rparr> = with_phdrs img" "(with_shdrs img)\<lparr>ei_load_state := 0x10400\<rparr> = with_shdrs img"
    by (simp_all add: same_state)
  show ?thesis using shdrs_stage_in(1) [OF assms False, of "0x10200" offset len a b] False by (simp add: Let_def e)
qed

lemma phdrs_stage:
  assumes "elf_ok img" and "image_at m base img" and "\<forall>n. alloc n"
  shows "load_phdrs alloc m (base + offset) offset len (bare_info img) a b =
    (let i = bare_info img; off = elf_phoff i; sz = phdrs_bytes i in
     if off < offset \<or> offset + len < off + sz then Inl (Inr 0x100, Some i, off, sz) else Inr (with_phdrs img))"
  unfolding load_phdrs_def Let_def phdrs_bytes_def [symmetric]
  by (simp add: image_take_part [OF assms(2) elf_ok_parts(5) [OF assms(1)] spec [OF assms(3)]] elf_states with_phdrs_def Let_def)

text \<open>The calls of the loader, by the state they start in.\<close>

lemma header_calls:
  assumes "elf_ok img" and "image_at m base img" and "\<forall>n. alloc n"
  shows "elf_shnum (bare_info img) \<noteq> 0 \<Longrightarrow>
      elf_load_header alloc m (base + offset) offset len (Some (with_shdrs img)) 0x10400 a b = Some (names_result img offset len a)"
    and "elf_load_header alloc m (base + offset) offset len (Some (with_phdrs img)) 0x10200 a b = Some (shdrs_result img offset len a)"
    and "elf_load_header alloc m (base + offset) offset len (Some (bare_info img)) 0x100 a b = Some (phdrs_result img offset len a)"
proof -
  note s = names_stage [OF assms] shdrs_stage [OF assms, unfolded Let_def] phdrs_stage [OF assms, unfolded Let_def]
  have later: "load_phdrs alloc m x offset len (with_phdrs img) a b = Inr (with_phdrs img)"
      "load_phdrs alloc m x offset len (with_shdrs img) a b = Inr (with_shdrs img)"
      "load_shdrs alloc m x offset len (with_shdrs img) a b = Inr (with_shdrs img)" for x
    by (simp_all add: load_phdrs_def load_shdrs_def elf_states)
  show "elf_shnum (bare_info img) \<noteq> 0 \<Longrightarrow>
      elf_load_header alloc m (base + offset) offset len (Some (with_shdrs img)) 0x10400 a b = Some (names_result img offset len a)"
    by (simp add: elf_load_header_def load_ehdr_def elf_states later s)
  show "elf_load_header alloc m (base + offset) offset len (Some (with_phdrs img)) 0x10200 a b = Some (shdrs_result img offset len a)"
    by (simp add: elf_load_header_def load_ehdr_def elf_states later s shdrs_result_def Let_def)
  show "elf_load_header alloc m (base + offset) offset len (Some (bare_info img)) 0x100 a b = Some (phdrs_result img offset len a)"
    by (simp add: elf_load_header_def load_ehdr_def elf_states later s shdrs_result_def phdrs_result_def Let_def)
qed

lemma ehdr_call:
  assumes "elf_ok img" and "image_at m base img" and "\<forall>n. alloc n" and "64 \<le> len"
  shows "elf_load_header alloc m base 0 len None 0 a b = elf_load_header alloc m base 0 len (Some (bare_info img)) 0x100 a b"
proof -
  have pre: "load_bytes m (unat base) n = take n img" if "n \<le> length img" for n
    using image_slice [OF assms(2), of 0 n] that by (simp add: slice_def)
  have sz: "elf_ehdr_size (Some (take 16 img)) = elf_ehdr_size (Some img)"
    using elf_ok_parts(1) [OF assms(1)] by (simp add: elf_ehdr_size_def elf_is_64_def EI_CLASS_def)
  have "elf_ehdr_size (Some img) \<le> 64" by (simp add: elf_ehdr_size_def)
  then have "\<not> len < elf_ehdr_size (Some img)" using assms(4) by (meson leD order_trans)
  moreover have "base \<noteq> 0" using assms(2) by (simp add: image_at_def)
  ultimately show ?thesis
    unfolding elf_load_header_def load_ehdr_def
    by (simp add: pre elf_ok_parts [OF assms(1)] sz Let_def assms(3) elf_states bare_info_def)
qed

section \<open>The interface of an image store\<close>

text \<open>A store that keeps the image at an address and can read any part of it.\<close>

locale image_source =
  fixes store :: image_store and base :: u32
  assumes opens: "st_open store m = (0x100, base)"
    and seeks: "st_seek store"
    and reads: "st_load store off sz RPROC_LOAD_ANYADDR None m = Some (sint sz, Some (base + off), m)"
    and writes: "pa \<noteq> METAL_BAD_PHYS \<Longrightarrow> metal_io_phys_to_virt r pa = Some va \<Longrightarrow> va \<noteq> 0 \<Longrightarrow>
      st_load store off sz pa (Some r) m =
        Some (sint sz, None, store_bytes m (unat va) (load_bytes m (unat (base + off)) (unat sz)))"
begin

lemma header_unfold:
  assumes "elf_load_header alloc m a offset len info state (fst nxt) (snd nxt) = Some (Inr st, info', noff, sz)"
  shows "load_headers store alloc a offset len info state nxt m =
    (if st AND RPROC_LOADER_READY_TO_LOAD \<noteq> 0 \<and> sz = 0 then Some (Inr (a, info', st), m)
     else load_headers store alloc (base + noff) noff sz info' st (noff, sz) m)"
  using assms by (subst load_headers.simps) (simp add: seeks reads)

lemma names_loaded:
  assumes "elf_ok img" and "image_at m base img" and "\<forall>n. alloc n" and "elf_shnum (bare_info img) \<noteq> 0"
  shows "\<exists>a. load_headers store alloc (base + offset) offset len (Some (with_shdrs img)) 0x10400 nxt m =
    Some (Inr (a, Some (elf_image img), 0x10800), m)"
proof -
  obtain off sz where ns: "names_at img = Some (off, sz)" "sz \<noteq> 0" using names_ok [OF assms(1,4)] .
  note call = header_calls(1) [OF assms, unfolded names_result_def ns(1), simplified]
  have fit: "\<exists>a. load_headers store alloc (base + o') o' l' (Some (with_shdrs img)) 0x10400 nxt' m =
      Some (Inr (a, Some (elf_image img), 0x10800), m)" if "\<not> (off < o' \<or> o' + l' < off + sz)" for o' l' nxt'
    using that call [of o' l'] by (subst header_unfold) (auto simp: elf_states)
  show ?thesis
  proof (cases "off < offset \<or> offset + len < off + sz")
    case True
    then show ?thesis using call [of offset len] fit [of off sz] ns(2) by (subst header_unfold) (auto simp: elf_states)
  qed (rule fit)
qed

lemma shdrs_loaded:
  assumes "elf_ok img" and "image_at m base img" and "\<forall>n. alloc n"
  shows "\<exists>a. load_headers store alloc (base + offset) offset len (Some (with_phdrs img)) 0x10200 nxt m =
    Some (Inr (a, Some (elf_image img), 0x10800), m)"
proof (cases "elf_shnum (bare_info img) = 0")
  case True
  then show ?thesis
    using header_calls(2) [OF assms, unfolded shdrs_result_def Let_def]
    by (subst header_unfold) (auto simp: elf_states)
next
  case False
  let ?off = "elf_shoff (bare_info img)" let ?sz = "shdrs_bytes (bare_info img)"
  obtain off sz where ns: "names_at img = Some (off, sz)" "sz \<noteq> 0" using names_ok [OF assms(1) False] .
  have nz: "?sz \<noteq> 0" using elf_ok_parts(8) [OF assms(1) False] by simp
  note call = header_calls(2) [OF assms, unfolded shdrs_result_def Let_def]
  have fit: "\<exists>a. load_headers store alloc (base + o') o' l' (Some (with_phdrs img)) 0x10200 nxt' m =
      Some (Inr (a, Some (elf_image img), 0x10800), m)" if f: "\<not> (?off < o' \<or> o' + l' < ?off + ?sz)" for o' l' nxt'
  proof -
    have c: "elf_load_header alloc m (base + o') o' l' (Some (with_phdrs img)) 0x10200 (fst nxt') (snd nxt') =
        Some (names_result img o' l' (fst nxt'))"
      using call f False by simp
    show ?thesis
    proof (cases "off < o' \<or> o' + l' < off + sz")
      case True
      then show ?thesis
        using header_unfold [of alloc m "base + o'" o' l' "Some (with_phdrs img)" "0x10200" nxt' "0x10400" "Some (with_shdrs img)" off sz] c
          names_loaded [OF assms False, of off sz "(off, sz)"] ns by (simp add: names_result_def)
    next
      case False
      then show ?thesis
        using header_unfold [of alloc m "base + o'" o' l' "Some (with_phdrs img)" "0x10200" nxt' "0x10800" "Some (elf_image img)" "fst nxt'" 0] c
          ns by (simp add: names_result_def elf_states)
    qed
  qed
  show ?thesis
  proof (cases "?off < offset \<or> offset + len < ?off + ?sz")
    case True
    then show ?thesis using call [of offset len] fit [of ?off ?sz] nz False by (subst header_unfold) (auto simp: elf_states)
  qed (rule fit)
qed

lemma phdrs_loaded:
  assumes "elf_ok img" and "image_at m base img" and "\<forall>n. alloc n"
  shows "\<exists>a. load_headers store alloc (base + offset) offset len (Some (bare_info img)) 0x100 nxt m =
    Some (Inr (a, Some (elf_image img), 0x10800), m)"
proof -
  let ?off = "elf_phoff (bare_info img)" let ?sz = "phdrs_bytes (bare_info img)"
  note call = header_calls(3) [OF assms, unfolded phdrs_result_def Let_def]
  have fit: "\<exists>a. load_headers store alloc (base + o') o' l' (Some (bare_info img)) 0x100 nxt' m =
      Some (Inr (a, Some (elf_image img), 0x10800), m)" if f: "\<not> (?off < o' \<or> o' + l' < ?off + ?sz)" for o' l' nxt'
  proof -
    have "elf_load_header alloc m (base + o') o' l' (Some (bare_info img)) 0x100 (fst nxt') (snd nxt') =
        elf_load_header alloc m (base + o') o' l' (Some (with_phdrs img)) 0x10200 (fst nxt') (snd nxt')"
      using call f header_calls(2) [OF assms] by simp
    then have "load_headers store alloc (base + o') o' l' (Some (bare_info img)) 0x100 nxt' m =
        load_headers store alloc (base + o') o' l' (Some (with_phdrs img)) 0x10200 nxt' m"
      by (subst (1 2) load_headers.simps) simp
    then show ?thesis using shdrs_loaded [OF assms] by simp
  qed
  show ?thesis
  proof (cases "?off < offset \<or> offset + len < ?off + ?sz")
    case True
    then show ?thesis
      using call [of offset len] fit [of ?off ?sz]
        header_unfold [of alloc m "base + offset" offset len "Some (bare_info img)" "0x100" nxt "0x100" "Some (bare_info img)" ?off ?sz]
      by (simp add: elf_states)
  qed (rule fit)
qed

lemma headers_loaded:
  assumes "elf_ok img" and "image_at m base img" and "\<forall>n. alloc n"
  shows "\<exists>a. load_headers store alloc base 0 0x100 None 0 (0, 0) m = Some (Inr (a, Some (elf_image img), 0x10800), m)"
proof -
  have "load_headers store alloc base 0 0x100 None 0 (0, 0) m = load_headers store alloc base 0 0x100 (Some (bare_info img)) 0x100 (0, 0) m"
    by (subst (1 2) load_headers.simps) (simp add: ehdr_call [OF assms])
  then show ?thesis using phdrs_loaded [OF assms, of 0 "0x100" "(0, 0)"] by simp
qed

end

section \<open>Segments\<close>

lemma phnum_int: "elf_phnum (bare_info img) = int (phnum img)"
proof -
  have "0 \<le> elf_phnum (bare_info img)" by (simp add: elf_phnum_def)
  then show ?thesis by (simp add: phnum_def)
qed

lemma phnum_le: "elf_ok img \<Longrightarrow> phnum img \<le> 255"
  using phnum_int [of img] elf_ok_parts(7) [of img] by simp

lemma phdrs_bytes_size:
  assumes "elf_ok img"
  shows "unat (phdrs_bytes (bare_info img)) = phnum img * phdr_size (bare_info img)"
proof -
  let ?i = "bare_info img"
  note le = phnum_le [OF assms]
  have "phdrs_bytes ?i = of_nat (phnum img) * elf_phentsize ?i" by (simp add: phdrs_bytes_def phnum_int)
  moreover have "unat (of_nat (phnum img) :: u32) = phnum img" using le by (simp add: unat_of_nat)
  moreover have "phnum img * phdr_size ?i \<le> 255 * 56" using le by (rule mult_le_mono) (simp add: phdr_size_def)
  ultimately show ?thesis using elf_ok_parts(6) [OF assms] by (simp add: unat_mult_lem [THEN iffD1])
qed

lemma segment_table:
  assumes "elf_ok img"
  shows "elf_get_segment_from_index (elf_image img) (int k) =
      (if k < phnum img then Some (drop (k * phdr_size (elf_image img)) (the (ei_phdrs (elf_image img)))) else None)"
    and "k < phnum img \<Longrightarrow>
      elf_parse_segment (elf_image img) (drop (k * phdr_size (elf_image img)) (the (ei_phdrs (elf_image img)))) = Some (seg_at img k)"
proof -
  let ?i = "bare_info img"
  note n = phnum_int [of img]
  show "elf_get_segment_from_index (elf_image img) (int k) =
      (if k < phnum img then Some (drop (k * phdr_size (elf_image img)) (the (ei_phdrs (elf_image img)))) else None)"
    using n by (simp add: elf_get_segment_from_index_def)
  have len: "length (the (ei_phdrs (elf_image img))) = phnum img * phdr_size ?i"
    using elf_ok_parts(5) [OF assms] phdrs_bytes_size [OF assms] by (simp add: slice_def)
  assume k: "k < phnum img"
  have "Suc k * phdr_size ?i \<le> phnum img * phdr_size ?i" using k by (intro mult_le_mono1) simp
  then have "phdr_size ?i \<le> length (drop (k * phdr_size ?i) (the (ei_phdrs (elf_image img))))" using len by simp
  then have "elf_parse_segment (elf_image img) (drop (k * phdr_size ?i) (the (ei_phdrs (elf_image img)))) \<noteq> None"
    using image_views(7) [of img] by (auto simp: elf_parse_segment_def phdr_size_def split: if_splits)
  then show "elf_parse_segment (elf_image img) (drop (k * phdr_size (elf_image img)) (the (ei_phdrs (elf_image img)))) = Some (seg_at img k)"
    by (auto simp: seg_at_def)
qed

lemma segs_from_step: "k < phnum img \<Longrightarrow>
    segs_from img k = (if p_type (seg_at img k) = PT_LOAD then seg_at img k # segs_from img (Suc k) else segs_from img (Suc k))"
  by (simp add: segs_from_def upt_conv_Cons)

text \<open>The tables of the file are there from the second stage on.\<close>

definition has_tables :: "bytes \<Rightarrow> elf_info \<Rightarrow> bool" where
  "has_tables img i \<longleftrightarrow> ei_ehdr i = ei_ehdr (elf_image img) \<and> ei_phdrs i = ei_phdrs (elf_image img)"

lemma has_tables_simps [simp]:
  "has_tables img (i\<lparr>ei_load_state := s\<rparr>) = has_tables img i" "has_tables img (elf_image img)"
  "has_tables img (with_phdrs img)" "has_tables img (with_shdrs img)"
  by (simp_all add: has_tables_def with_phdrs_def with_shdrs_def elf_image_def Let_def phdrs_bytes_def)

lemma has_tables_views:
  assumes "has_tables img i"
  shows "elf_get_segment_from_index i = elf_get_segment_from_index (elf_image img)" "elf_parse_segment i = elf_parse_segment (elf_image img)"
    "elf_phnum i = elf_phnum (elf_image img)"
proof -
  show n: "elf_phnum i = elf_phnum (elf_image img)" using assms by (simp add: has_tables_def elf_phnum_def del: image_views)
  have "phdr_size i = phdr_size (elf_image img)" using assms by (simp add: has_tables_def phdr_size_def del: image_views)
  then show "elf_get_segment_from_index i = elf_get_segment_from_index (elf_image img)"
    using assms n by (simp add: has_tables_def elf_get_segment_from_index_def fun_eq_iff split: option.split del: image_views)
  show "elf_parse_segment i = elf_parse_segment (elf_image img)"
    using assms by (simp add: has_tables_def elf_parse_segment_def fun_eq_iff)
qed

lemma next_segment:
  assumes "elf_ok img" and "has_tables img i" and "k \<le> phnum img"
  shows "case segs_from img k of
      [] \<Rightarrow> \<exists>o1. elf_next_load_segment i (int k) out = Some (None, int (phnum img), o1) \<and> (k = phnum img \<longrightarrow> o1 = out)
    | sg # rest \<Rightarrow> \<exists>j p. k \<le> j \<and> j < phnum img \<and> segs_from img (Suc j) = rest \<and>
        elf_next_load_segment i (int k) out = Some (Some p, int (Suc j), p_vaddr sg, p_offset sg, p_filesz sg, p_memsz sg)"
  using assms(3)
proof (induction "phnum img - k" arbitrary: k out)
  case 0
  then have "k = phnum img" by simp
  then show ?case
    by (subst elf_next_load_segment.simps) (simp add: segs_from_def segment_table [OF assms(1)] has_tables_views [OF assms(2)])
next
  case (Suc n)
  then have k: "k < phnum img" by simp
  let ?sg = "seg_at img k"
  have run: "elf_next_load_segment i (int k) out =
      (if p_type ?sg = PT_LOAD
       then Some (Some (drop (k * phdr_size (elf_image img)) (the (ei_phdrs (elf_image img)))), int (Suc k),
              p_vaddr ?sg, p_offset ?sg, p_filesz ?sg, p_memsz ?sg)
       else elf_next_load_segment i (int (Suc k)) (p_vaddr ?sg, p_offset ?sg, p_filesz ?sg, p_memsz ?sg))"
    using k by (subst elf_next_load_segment.simps)
      (simp add: segment_table [OF assms(1)] has_tables_views [OF assms(2)] add.commute [of 1] del: image_views)
  show ?case
  proof (cases "p_type ?sg = PT_LOAD")
    case True
    then show ?thesis using k run by (auto simp: segs_from_step [OF k])
  next
    case False
    have "phnum img - Suc k = n" "Suc k \<le> phnum img" using Suc(2) k by simp_all
    then show ?thesis using Suc(1) [of "Suc k" "(p_vaddr ?sg, p_offset ?sg, p_filesz ?sg, p_memsz ?sg)"] False k run
      by (auto simp: segs_from_step [OF k] split: list.splits)
  qed
qed

section \<open>Memories of the processor\<close>

text \<open>The memories that the mapping of the Zynq A9 makes: an address stands for itself.\<close>

definition same_mem :: "remoteproc_mem \<Rightarrow> bool" where
  "same_mem x \<longleftrightarrow> mem_da x = mem_pa x \<and> mem_pa x \<noteq> METAL_BAD_PHYS \<and> unat (mem_pa x) + unat (mem_size x) < 2 ^ 32 \<and>
     mem_io x = mapped_io (mem_pa x) (mem_size x) (mem_flags (mem_io x))"

definition covers :: "metal_io_region \<Rightarrow> u32 \<Rightarrow> u32 \<Rightarrow> bool" where
  "covers r da sz \<longleftrightarrow> (\<exists>b n f. r = mapped_io b n f \<and> b \<noteq> METAL_BAD_PHYS \<and> unat b \<le> unat da \<and> unat da + unat sz \<le> unat b + unat n)"

lemma get_mem_loop_found:
  assumes "get_mem_loop None METAL_BAD_PHYS da 0 sz ms = Some x" and "\<forall>x \<in> set ms. same_mem x" and "da \<noteq> METAL_BAD_PHYS"
    and "unat da + unat sz < 2 ^ 32"
  shows "same_mem x" and "covers (mem_io x) da sz" and "x \<in> set ms"
proof -
  have x: "x \<in> set ms \<and> mem_da x \<le> da \<and> da + sz \<le> mem_da x + mem_size x"
    using assms(1,3) by (induction ms) (auto split: if_splits)
  then show m: "x \<in> set ms" and s: "same_mem x" using assms(2) by simp_all
  have "unat (mem_da x + mem_size x) = unat (mem_pa x) + unat (mem_size x)" "unat (da + sz) = unat da + unat sz"
    using s assms(4) by (simp_all add: same_mem_def unat_word_ariths)
  then show "covers (mem_io x) da sz" using x s unfolding covers_def same_mem_def
    by (intro exI [of _ "mem_pa x"] exI [of _ "mem_size x"] exI [of _ "mem_flags (mem_io x)"]) (auto simp: word_le_nat_alt)
qed

lemma mapped_io_search:
  assumes "b \<noteq> METAL_BAD_PHYS"
  shows "metal_io_phys_to_offset (mapped_io b n f) a =
    Some (if a - b < n \<or> a = METAL_BAD_PHYS then a - b else METAL_BAD_OFFSET)"
  using one_page_search [OF mapped_io_page [of b n f], where pm = "\<lambda>_. b" and phys = a] assms
  by (simp add: METAL_BAD_VA_def METAL_BAD_PHYS_def mapped_io_def metal_io_init_def)

text \<open>Mapping a device address ends, and finds or makes a memory with all of it.\<close>

lemma mmap_device:
  assumes "\<forall>x \<in> set (rproc_mems rp). same_mem x" and "da \<noteq> METAL_BAD_PHYS" and "unat da + unat sz < 2 ^ 32"
  obtains va r ms where "remoteproc_mmap (Some METAL_BAD_PHYS) (Some da) sz 0 rp =
      Some ((va, Some da, Some da, Some r), rp\<lparr>rproc_mems := ms\<rparr>)" "covers r da sz" "\<forall>x \<in> set ms. same_mem x"
proof (cases "remoteproc_get_mem None METAL_BAD_PHYS da 0 sz rp")
  case (Some x)
  note x = get_mem_loop_found [OF _ assms, of x]
  have f: "get_mem_loop None METAL_BAD_PHYS da 0 sz (rproc_mems rp) = Some x" using Some by (simp add: remoteproc_get_mem_def)
  have "remoteproc_datopa x da = da" using x(1) [OF f] by (simp add: remoteproc_datopa_def same_mem_def)
  moreover obtain va where "metal_io_phys_to_virt (mem_io x) da = Some va"
    using x(2) [OF f] by (auto simp: covers_def metal_io_phys_to_virt_def mapped_io_search)
  ultimately have "remoteproc_mmap (Some METAL_BAD_PHYS) (Some da) sz 0 rp = Some ((va, Some da, Some da, Some (mem_io x)), rp)"
    using assms(2) by (simp add: remoteproc_mmap_def Some Let_def)
  then show thesis using that [of va "mem_io x" "rproc_mems rp"] x(2) [OF f] assms(1) by simp
next
  case None
  let ?r = "mapped_io da sz shared_attr"
  obtain va where va: "metal_io_phys_to_virt ?r da = Some va"
    using assms(2) by (auto simp: metal_io_phys_to_virt_def mapped_io_search)
  let ?x = "remoteproc_init_mem None da da sz ?r"
  have "remoteproc_mmap (Some METAL_BAD_PHYS) (Some da) sz 0 rp =
      Some ((va, Some da, Some da, Some ?r), rp\<lparr>rproc_mems := rproc_mems rp @ [?x]\<rparr>)"
    using None assms(2) va
    by (simp add: remoteproc_mmap_def zynq_a9_proc_mmap_def Let_def mapped_io_def remoteproc_add_mem_def)
  moreover have "covers ?r da sz" using assms(2) by (auto simp: covers_def)
  moreover have "same_mem ?x" using assms(2,3) by (simp add: same_mem_def remoteproc_init_mem_def mapped_io_def metal_io_init_def)
  ultimately show thesis using that [of va ?r "rproc_mems rp @ [?x]"] assms(1) by simp
qed

lemma covers_access:
  assumes "covers r da sz" and "unat da \<le> unat a" and "unat a < unat da + unat sz" and "a \<noteq> 0"
  shows "metal_io_phys_to_virt r a = Some a"
    and "unat a + n \<le> unat da + unat sz \<Longrightarrow>
      \<exists>off. metal_io_phys_to_offset r a = Some off \<and> snd (metal_io_block_set r off v n m) = store_bytes m (unat a) (replicate n v)"
proof -
  obtain b k f where r: "r = mapped_io b k f" "b \<noteq> METAL_BAD_PHYS" "unat b \<le> unat da" "unat da + unat sz \<le> unat b + unat k"
    using assms(1) by (auto simp: covers_def)
  have off: "unat (a - b) = unat a - unat b" using r(3) assms(2) by (simp add: unat_sub word_le_nat_alt)
  then have lt: "a - b < k" using r(3,4) assms(2,3) by (simp add: word_less_nat_alt)
  have nle: "\<not> k \<le> a - b" using lt by simp
  have b: "b \<noteq> METAL_BAD_VA" using r(2) by (simp add: METAL_BAD_VA_def METAL_BAD_PHYS_def)
  show "metal_io_phys_to_virt r a = Some a" unfolding r(1) by (rule mapped_io_virt [OF b lt])
  assume n: "unat a + n \<le> unat da + unat sz"
  have s: "metal_io_phys_to_offset r a = Some (a - b)" using lt by (simp add: r(1) mapped_io_search [OF r(2)])
  have io: "io_size r = k" "io_virt r = b" by (simp_all add: r(1) mapped_io_def metal_io_init_def)
  have "clip_len r (a - b) n = n" using n r(3,4) assms(2) by (intro clip_len_fits) (simp add: off io)
  then have "snd (metal_io_block_set r (a - b) v n m) = store_bytes m (unat a) (replicate n v)"
    using lt nle b by (simp add: metal_io_block_set_def io metal_io_virt_def block_set_memset Let_def)
  then show "\<exists>off. metal_io_phys_to_offset r a = Some off \<and> snd (metal_io_block_set r off v n m) = store_bytes m (unat a) (replicate n v)"
    using s by blast
qed

lemma image_kept:
  assumes "image_at m base img" and "segment_ok base img sg"
  shows "image_at (store_segment img sg m) base img"
proof -
  have "length (slice (unat (p_offset sg)) (unat (p_filesz sg)) img @ replicate (unat (p_memsz sg) - unat (p_filesz sg)) 0) = unat (p_memsz sg)"
    using assms(2) by (auto simp: segment_ok_def slice_def min_def)
  then show ?thesis
    using assms by (simp add: image_at_def store_segment_def segment_ok_def load_store_bytes_disjoint disjoint_regions_sym)
qed

text \<open>The load state once the headers are there, and while segments are left.\<close>

definition ready :: "nat \<Rightarrow> u32" where "ready k = 0x10800 OR (of_nat k AND 0xFF)"

lemma ready_bits:
  "ready 0 = 0x10800" "ready k AND 0x10000 \<noteq> 0" "ready k AND 0xFF0000 \<noteq> 0"
  "(ready k AND NOT 0xFF) OR (of_nat j AND 0xFF) = ready j"
  "k \<le> 255 \<Longrightarrow> uint (ready k AND 0xFF) = int k"
  "(((ready k AND NOT 0xFF0000) OR 0x20000) AND NOT 0xFF) OR (of_nat j AND 0xFF) = 0x20800 OR (of_nat j AND 0xFF)"
proof -
  show "ready 0 = 0x10800" by (simp add: ready_def)
  have "ready k AND 0x10000 = 0x10000" by (simp add: ready_def bit.conj_disj_distrib2 and.assoc)
  then show "ready k AND 0x10000 \<noteq> 0" by simp
  have "ready k AND 0xFF0000 = 0x10000" by (simp add: ready_def bit.conj_disj_distrib2 and.assoc)
  then show "ready k AND 0xFF0000 \<noteq> 0" by simp
  show "(ready k AND NOT 0xFF) OR (of_nat j AND 0xFF) = ready j"
    by (simp add: ready_def bit.conj_disj_distrib2 and.assoc)
  show "(((ready k AND NOT 0xFF0000) OR 0x20000) AND NOT 0xFF) OR (of_nat j AND 0xFF) = 0x20800 OR (of_nat j AND 0xFF)"
    by (simp add: ready_def bit.conj_disj_distrib2 and.assoc or.assoc)
  assume k: "k \<le> 255"
  have "ready k AND 0xFF = of_nat k AND 0xFF" by (simp add: ready_def bit.conj_disj_distrib2 and.assoc)
  also have "\<dots> = (of_nat k :: u32) AND mask 8" by (simp add: mask_eq_exp_minus_1)
  also have "\<dots> = take_bit 8 (of_nat k)" by (simp add: take_bit_eq_mask)
  also have "uint (take_bit 8 (of_nat k :: u32)) = take_bit 8 (uint (of_nat k :: u32))" by (rule unsigned_take_bit_eq)
  also have "\<dots> = int k" using k by (simp add: take_bit_eq_mod unsigned_of_nat)
  finally show "uint (ready k AND 0xFF) = int k" .
qed

text \<open>What one call of \<open>elf_load\<close> says of the next segment.\<close>

abbreviation info_in :: "bytes \<Rightarrow> u32 \<Rightarrow> elf_info" where
  "info_in img s \<equiv> (elf_image img)\<lparr>ei_load_state := s\<rparr>"

abbreviation asked :: "elf_info \<Rightarrow> u32 \<Rightarrow> u32 \<Rightarrow> u32 \<Rightarrow> u32 \<Rightarrow> load_out" where
  "asked i da off n sz \<equiv> \<lparr>lo_info = Some i, lo_da = da, lo_noffset = off, lo_nlen = n, lo_padding = 0, lo_memsize = sz\<rparr>"

lemma load_one_segment:
  assumes "elf_ok img" and "has_tables img i" and "k \<le> phnum img" and "segs_from img k = sg # rest"
    and "ei_load_state i AND 0x10000 \<noteq> 0" and "uint (ei_load_state i AND 0xFF) = int k" and "st AND 0xFF0000 \<noteq> 0"
  obtains j where "k < j" "j \<le> phnum img" "segs_from img j = rest"
    "elf_load alloc m a off len st \<lparr>lo_info = Some i, lo_da = RPROC_LOAD_ANYADDR, lo_noffset = n0, lo_nlen = n1, lo_padding = pd, lo_memsize = 0\<rparr> =
      (let s = ei_load_state i;
           s = ((if j = phnum img then (s AND NOT 0xFF0000) OR 0x20000 else s) AND NOT 0xFF) OR (of_nat j AND 0xFF)
       in Some (Inr s, asked (i\<lparr>ei_load_state := s\<rparr>) (p_vaddr sg) (p_offset sg) (p_filesz sg) (p_memsz sg)))"
proof -
  obtain j p where j: "k \<le> j" "j < phnum img" "segs_from img (Suc j) = rest"
      "elf_next_load_segment i (int k) (RPROC_LOAD_ANYADDR, n0, 0, 0) =
        Some (Some p, int (Suc j), p_vaddr sg, p_offset sg, p_filesz sg, p_memsz sg)"
    using next_segment [OF assms(1-3), of "(RPROC_LOAD_ANYADDR, n0, 0, 0)"] assms(4) by auto
  have n: "elf_phnum i = int (phnum img)" using has_tables_views(3) [OF assms(2)] phnum_int by simp
  have w: "word_of_int (int (Suc j)) = (of_nat (Suc j) :: u32)" by (simp only: of_int_of_nat_eq)
  have "int (Suc j) = int (phnum img) \<longleftrightarrow> Suc j = phnum img" by (simp only: of_nat_eq_iff)
  then have "elf_load alloc m a off len st \<lparr>lo_info = Some i, lo_da = RPROC_LOAD_ANYADDR, lo_noffset = n0, lo_nlen = n1, lo_padding = pd, lo_memsize = 0\<rparr> =
      (let s = ei_load_state i;
           s = ((if Suc j = phnum img then (s AND NOT 0xFF0000) OR 0x20000 else s) AND NOT 0xFF) OR (of_nat (Suc j) AND 0xFF)
       in Some (Inr s, asked (i\<lparr>ei_load_state := s\<rparr>) (p_vaddr sg) (p_offset sg) (p_filesz sg) (p_memsz sg)))"
    using assms(5-7) j(4) unfolding elf_load_def load_segment_def
    by (simp add: elf_states n w Let_def del: of_nat_Suc)
  then show thesis using that [of "Suc j"] j by simp
qed

lemma load_some_segment:
  assumes "elf_ok img" and "k \<le> phnum img" and "segs_from img k = sg # rest"
  obtains j where "k < j" "j \<le> phnum img" "segs_from img j = rest"
    "elf_load alloc m a off len (ready k) (asked (info_in img (ready k)) RPROC_LOAD_ANYADDR 0 0 0) =
      (let s = if j = phnum img then 0x20800 OR (of_nat j AND 0xFF) else ready j
       in Some (Inr s, asked (info_in img s) (p_vaddr sg) (p_offset sg) (p_filesz sg) (p_memsz sg)))"
proof -
  have "k \<le> 255" using assms(2) phnum_le [OF assms(1)] by simp
  note bits = ready_bits(2,3) [of k] ready_bits(5) [OF this]
  show thesis
    by (rule load_one_segment [OF assms(1) _ assms(2,3), of "info_in img (ready k)" "ready k" alloc m a off len 0 0 0])
      (use bits that in \<open>auto simp: Let_def ready_bits(4,6) [simplified] split: if_splits\<close>)
qed

lemma load_no_segment:
  assumes "elf_ok img" and "k \<le> phnum img" and "segs_from img k = []"
  shows "\<exists>da noff. elf_load alloc m a off len (ready k) (asked (info_in img (ready k)) RPROC_LOAD_ANYADDR 0 0 0) =
      Some (Inr (ready (phnum img)), asked (info_in img (ready (phnum img))) da noff 0 0) \<and>
    (k = phnum img \<longrightarrow> da = RPROC_LOAD_ANYADDR)"
proof -
  obtain da noff x y where nx: "elf_next_load_segment (info_in img (ready k)) (int k) (RPROC_LOAD_ANYADDR, 0, 0, 0) =
        Some (None, int (phnum img), da, noff, x, y)" "k = phnum img \<longrightarrow> da = RPROC_LOAD_ANYADDR"
    using next_segment [OF assms(1) _ assms(2), of "info_in img (ready k)" "(RPROC_LOAD_ANYADDR, 0, 0, 0)"] assms(3) by auto
  have k: "uint (ready k AND 0xFF) = int k" using ready_bits(5) assms(2) phnum_le [OF assms(1)] by simp
  have "elf_load alloc m a off len (ready k) (asked (info_in img (ready k)) RPROC_LOAD_ANYADDR 0 0 0) =
      Some (Inr (ready (phnum img)), asked (info_in img (ready (phnum img))) da noff 0 0)"
    using ready_bits(2,3) [of k] nx(1) unfolding elf_load_def load_segment_def
    by (simp add: elf_states k ready_bits(4) [simplified] Let_def)
  then show ?thesis using nx(2) by blast
qed

lemma load_after_last:
  "\<exists>s. elf_load alloc m a off len (0x20800 OR (v AND 0xFF)) (asked (info_in img (0x20800 OR (v AND 0xFF))) RPROC_LOAD_ANYADDR 0 0 0) =
     Some (Inr s, asked (info_in img s) RPROC_LOAD_ANYADDR 0 0 0)"
  unfolding elf_load_def load_post_def
  by (simp add: elf_states bit.conj_disj_distrib2 and.assoc Let_def)

section \<open>One segment into memory\<close>

lemma segment_address:
  assumes "segment_ok base img sg"
  shows "p_vaddr sg \<noteq> METAL_BAD_PHYS" "0 < unat (p_memsz sg)"
proof -
  have ok: "unat (p_vaddr sg) + unat (p_memsz sg) < 2 ^ 32" "p_memsz sg \<noteq> 0" using assms by (simp_all add: segment_ok_def)
  show spos: "0 < unat (p_memsz sg)" using ok(2) by (simp add: unat_gt_0)
  show "p_vaddr sg \<noteq> METAL_BAD_PHYS"
  proof
    assume "p_vaddr sg = METAL_BAD_PHYS"
    then have "unat (p_vaddr sg) = 2 ^ 32 - 1" by (simp add: METAL_BAD_PHYS_def unsigned_minus_1_eq_mask mask_eq_exp_minus_1)
    then show False using ok(1) spos by simp
  qed
qed

context image_source
begin

text \<open>The two writes of a segment: its data, and the rest of its memory.\<close>

lemma segment_written:
  assumes "image_at m base img" and "segment_ok base img sg" and "covers r (p_vaddr sg) (p_memsz sg)"
  obtains m1 where "st_load store (p_offset sg) (p_filesz sg) (p_vaddr sg) (Some r) m = Some (sint (p_filesz sg), None, m1)"
    "p_filesz sg = 0 \<longrightarrow> m1 = m"
    "p_filesz sg < p_memsz sg \<longrightarrow> (\<exists>off. metal_io_phys_to_offset r (p_vaddr sg + p_filesz sg) = Some off \<and>
      snd (metal_io_block_set r off 0 (unat (p_memsz sg - p_filesz sg)) m1) = store_segment img sg m)"
    "\<not> p_filesz sg < p_memsz sg \<longrightarrow> m1 = store_segment img sg m"
proof -
  let ?a = "p_vaddr sg" and ?f = "p_filesz sg" and ?s = "p_memsz sg"
  have ok: "?a \<noteq> 0" "unat ?a + unat ?s < 2 ^ 32" "unat ?f \<le> unat ?s" "unat (p_offset sg) + unat ?f \<le> length img"
    using assms(2) by (simp_all add: segment_ok_def)
  note spos = segment_address(2) [OF assms(2)] and a = segment_address(1) [OF assms(2)]
  let ?data = "slice (unat (p_offset sg)) (unat ?f) img"
  have virt: "metal_io_phys_to_virt r ?a = Some ?a" using covers_access(1) [OF assms(3)] spos ok(1) by simp
  let ?m1 = "store_bytes m (unat ?a) ?data"
  have len: "length ?data = unat ?f" using ok(4) by (auto simp: slice_def min_def)
  show thesis
  proof (rule that [of ?m1])
    show "st_load store (p_offset sg) ?f ?a (Some r) m = Some (sint ?f, None, ?m1)"
      using writes [OF a virt ok(1), of "p_offset sg" ?f m] image_slice [OF assms(1) ok(4)] by simp
    show "?f = 0 \<longrightarrow> ?m1 = m" by (simp add: slice_def)
    show "?f < ?s \<longrightarrow> (\<exists>off. metal_io_phys_to_offset r (?a + ?f) = Some off \<and>
      snd (metal_io_block_set r off 0 (unat (?s - ?f)) ?m1) = store_segment img sg m)"
    proof
      assume lt: "?f < ?s"
      have af: "unat (?a + ?f) = unat ?a + unat ?f" using ok(2,3) by (simp add: unat_word_ariths)
      have "?a + ?f \<noteq> 0" using af ok(1) by (metis add_is_0 unat_0 unat_eq_zero)
      moreover have "unat (?s - ?f) = unat ?s - unat ?f" using ok(3) by (simp add: unat_sub word_le_nat_alt)
      moreover have "store_bytes ?m1 (unat ?a + unat ?f) (replicate (unat ?s - unat ?f) 0) = store_segment img sg m"
        by (simp add: store_segment_def store_bytes_append len)
      ultimately show "\<exists>off. metal_io_phys_to_offset r (?a + ?f) = Some off \<and>
          snd (metal_io_block_set r off 0 (unat (?s - ?f)) ?m1) = store_segment img sg m"
        using covers_access(2) [OF assms(3), of "?a + ?f" "unat ?s - unat ?f" 0 ?m1] af ok(3) lt by (auto simp: word_less_nat_alt)
    qed
    show "\<not> ?f < ?s \<longrightarrow> ?m1 = store_segment img sg m"
    proof
      assume "\<not> ?f < ?s"
      then have "unat ?s = unat ?f" using ok(3) by (simp add: word_less_nat_alt)
      then show "?m1 = store_segment img sg m" by (simp add: store_segment_def)
    qed
  qed
qed

lemma segment_stored:
  assumes "image_at (rproc_mem rp) base img" and "segment_ok base img sg" and "\<forall>x \<in> set (rproc_mems rp). same_mem x"
  obtains d r ms where "load_target store (asked i (p_vaddr sg) (p_offset sg) (p_filesz sg) (p_memsz sg)) io rp =
      Some ((None, d, Some r), rp\<lparr>rproc_mem := store_segment img sg (rproc_mem rp), rproc_mems := ms\<rparr>)" "\<forall>x \<in> set ms. same_mem x"
proof -
  let ?a = "p_vaddr sg" and ?f = "p_filesz sg" and ?s = "p_memsz sg" and ?m = "rproc_mem rp"
  have ok: "unat ?a + unat ?s < 2 ^ 32" using assms(2) by (simp add: segment_ok_def)
  note a = segment_address(1) [OF assms(2)]
  obtain va r ms where map: "remoteproc_mmap (Some METAL_BAD_PHYS) (Some ?a) ?s 0 rp =
      Some ((va, Some ?a, Some ?a, Some r), rp\<lparr>rproc_mems := ms\<rparr>)" "covers r ?a ?s" "\<forall>x \<in> set ms. same_mem x"
    using mmap_device [OF assms(3) a ok] .
  obtain m1 where w: "st_load store (p_offset sg) ?f ?a (Some r) ?m = Some (sint ?f, None, m1)" "?f = 0 \<longrightarrow> m1 = ?m"
      "?f < ?s \<longrightarrow> (\<exists>off. metal_io_phys_to_offset r (?a + ?f) = Some off \<and>
        snd (metal_io_block_set r off 0 (unat (?s - ?f)) m1) = store_segment img sg ?m)"
      "\<not> ?f < ?s \<longrightarrow> m1 = store_segment img sg ?m"
    by (rule segment_written [OF assms(1,2) map(2)])
  have read: "\<exists>d. (if ?f \<noteq> 0 then st_load store (p_offset sg) ?f ?a (Some r) ?m else Some (0, None, ?m)) = Some (sint ?f, d, m1)"
    using w(1,2) by auto
  show thesis
  proof (cases "?f < ?s")
    case True
    then show thesis
      using read w(3) True map(1) a that [of _ r ms] map(3) unfolding load_target_def
      by (auto simp: set_mem_def Let_def split: if_splits)
  next
    case False
    then show thesis
      using read w(4) False map(1) a that [of _ r ms] map(3) unfolding load_target_def
      by (auto simp: set_mem_def Let_def split: if_splits)
  qed
qed

text \<open>A header with no memory behind it: the last one of a file whose last header is not loadable.\<close>

lemma nothing_stored:
  assumes "da \<noteq> RPROC_LOAD_ANYADDR" and "\<forall>x \<in> set (rproc_mems rp). same_mem x"
  obtains r ms where "load_target store (asked i da off 0 0) io rp =
      Some ((None, None, Some r), rp\<lparr>rproc_mems := ms\<rparr>)" "\<forall>x \<in> set ms. same_mem x"
proof -
  have da: "da \<noteq> METAL_BAD_PHYS" using assms(1) by (simp add: METAL_BAD_PHYS_def RPROC_LOAD_ANYADDR_def)
  have "unat da + unat (0 :: u32) < 2 ^ 32" using unsigned_less [of da] by simp
  from mmap_device [OF assms(2) da this] obtain va r ms where
    map: "remoteproc_mmap (Some METAL_BAD_PHYS) (Some da) 0 0 rp = Some ((va, Some da, Some da, Some r), rp\<lparr>rproc_mems := ms\<rparr>)"
      "\<forall>x \<in> set ms. same_mem x" .
  then show thesis using that [of r ms] da unfolding load_target_def by (auto simp: set_mem_def Let_def)
qed

lemma data_loop_end:
  assumes "elf_ok img" and "k = phnum img"
  shows "load_data_loop store alloc a off len (Some (info_in img (ready k))) (ready k) io rp =
    Some (Inr (Some (info_in img (ready k)), io), rp)"
proof -
  have "segs_from img k = []" using assms(2) by (simp add: segs_from_def)
  then show ?thesis
    using load_no_segment [OF assms(1), of k alloc "rproc_mem rp" a off len] assms(2) by (subst load_data_loop.simps) auto
qed

lemma data_loaded:
  assumes "elf_ok img" and "k \<le> phnum img" and "image_at (rproc_mem rp) base img"
    and "\<forall>sg \<in> set (segs_from img k). segment_ok base img sg" and "\<forall>x \<in> set (rproc_mems rp). same_mem x"
  shows "\<exists>s io' ms. load_data_loop store alloc a off len (Some (info_in img (ready k))) (ready k) io rp =
      Some (Inr (Some (info_in img s), io'), rp\<lparr>rproc_mem := fold (store_segment img) (segs_from img k) (rproc_mem rp), rproc_mems := ms\<rparr>) \<and>
    (\<forall>x \<in> set ms. same_mem x)"
  using assms(2-5)
proof (induction "segs_from img k" arbitrary: k a io rp)
  case Nil
  obtain da noff where l: "elf_load alloc (rproc_mem rp) a off len (ready k) (asked (info_in img (ready k)) RPROC_LOAD_ANYADDR 0 0 0) =
      Some (Inr (ready (phnum img)), asked (info_in img (ready (phnum img))) da noff 0 0)"
    using load_no_segment [OF assms(1) Nil(2) Nil(1) [symmetric]] by blast
  show ?case
  proof (cases "da = RPROC_LOAD_ANYADDR")
    case True
    then show ?thesis using l Nil(1,5) by (subst load_data_loop.simps) (auto intro!: exI [of _ "rproc_mems rp"])
  next
    case False
    obtain r ms where t: "load_target store (asked (info_in img (ready (phnum img))) da noff 0 0) io rp =
        Some ((None, None, Some r), rp\<lparr>rproc_mems := ms\<rparr>)" "\<forall>x \<in> set ms. same_mem x"
      using nothing_stored [OF False Nil(5)] .
    show ?thesis
      using l False t Nil(1) by (subst load_data_loop.simps) (auto simp: data_loop_end [OF assms(1)])
  qed
next
  case (Cons sg rest)
  note ok = Cons(5)
  have sg: "segment_ok base img sg" using ok Cons(2) [symmetric] by simp
  obtain j where j: "k < j" "j \<le> phnum img" "segs_from img j = rest"
    "elf_load alloc (rproc_mem rp) a off len (ready k) (asked (info_in img (ready k)) RPROC_LOAD_ANYADDR 0 0 0) =
      (let s = if j = phnum img then 0x20800 OR (of_nat j AND 0xFF) else ready j
       in Some (Inr s, asked (info_in img s) (p_vaddr sg) (p_offset sg) (p_filesz sg) (p_memsz sg)))"
    using load_some_segment [OF assms(1) Cons(3) Cons(2) [symmetric]] .
  let ?s = "if j = phnum img then 0x20800 OR (of_nat j AND 0xFF) else ready j"
  obtain d r ms where t: "load_target store (asked (info_in img ?s) (p_vaddr sg) (p_offset sg) (p_filesz sg) (p_memsz sg)) io rp =
      Some ((None, d, Some r), rp\<lparr>rproc_mem := store_segment img sg (rproc_mem rp), rproc_mems := ms\<rparr>)" "\<forall>x \<in> set ms. same_mem x"
    using segment_stored [OF Cons(4) sg Cons(6)] .
  let ?rp = "rp\<lparr>rproc_mem := store_segment img sg (rproc_mem rp), rproc_mems := ms\<rparr>"
  have "unat (p_vaddr sg) + unat (p_memsz sg) < 2 ^ 32" "0 < unat (p_memsz sg)"
    using sg by (simp_all add: segment_ok_def unat_gt_0)
  then have da: "p_vaddr sg \<noteq> RPROC_LOAD_ANYADDR"
    by (auto simp: RPROC_LOAD_ANYADDR_def unsigned_minus_1_eq_mask mask_eq_exp_minus_1)
  have run: "load_data_loop store alloc a off len (Some (info_in img (ready k))) (ready k) io rp =
      load_data_loop store alloc (case d of Some a \<Rightarrow> a | None \<Rightarrow> 0) off len (Some (info_in img ?s)) ?s (Some r) ?rp"
    by (subst load_data_loop.simps) (simp add: j(4) Let_def da t(1))
  show ?case
  proof (cases "j = phnum img")
    case True
    then have rest: "rest = []" using j(3) by (simp add: segs_from_def)
    show ?thesis
      using run True load_after_last [of alloc "rproc_mem ?rp" "case d of Some a \<Rightarrow> a | None \<Rightarrow> 0" off len "of_nat j" img] t(2)
      by (subst (asm) load_data_loop.simps) (auto simp: Cons(2) [symmetric] rest)
  next
    case False
    have "\<exists>s io' ms'. load_data_loop store alloc (case d of Some a \<Rightarrow> a | None \<Rightarrow> 0) off len (Some (info_in img (ready j))) (ready j) (Some r) ?rp =
        Some (Inr (Some (info_in img s), io'), ?rp\<lparr>rproc_mem := fold (store_segment img) (segs_from img j) (rproc_mem ?rp), rproc_mems := ms'\<rparr>) \<and>
      (\<forall>x \<in> set ms'. same_mem x)"
      using Cons(5) t(2) image_kept [OF Cons(4) sg] j(2,3) Cons(2) [symmetric] by (intro Cons(1)) auto
    then show ?thesis using run False by (simp add: Cons(2) [symmetric] j(3))
  qed
qed

text \<open>The whole: the headers, the data, and no resource table.\<close>

lemma no_table:
  assumes "elf_get_section_from_name (elf_image img) resource_table_name = Some None"
  shows "locate_and_get malloc store (Some (info_in img s)) (0, 0, 0) 0 rp = Some (0, (0, 0, 0), rp)"
  using assms by (simp add: locate_and_get_def elf_locate_rsc_table_def RPROC_ERR_LOADER_STATE_def)

lemma image_loaded:
  fixes ld :: loading
  defines "rp \<equiv> ld_rproc ld"
  assumes "elf_ok img" and "image_at (rproc_mem rp) base img" and "\<forall>sg \<in> set (elf_segments img). segment_ok base img sg"
    and "elf_get_section_from_name (elf_image img) resource_table_name = Some None"
    and "\<forall>x \<in> set (rproc_mems rp). same_mem x" and "rproc_state rp \<in> {RPROC_READY, RPROC_CONFIGURED}" and "\<forall>n. malloc n \<noteq> None"
  shows "\<exists>info ms. remoteproc_load malloc (Some store) want ld = Some (0, info,
      \<lparr>ld_rproc = rp\<lparr>rproc_mem := fold (store_segment img) (elf_segments img) (rproc_mem rp), rproc_mems := ms, rproc_state := RPROC_READY\<rparr>,
       ld_bootaddr = elf_get_entry (Some (elf_image img)), ld_loader = True\<rparr>) \<and> (\<forall>x \<in> set ms. same_mem x)"
proof -
  let ?alloc = "\<lambda>n. malloc n \<noteq> None"
  have al: "\<forall>n. ?alloc n" using assms(8) by simp
  have base: "base \<noteq> 0" using assms(3) by (simp add: image_at_def)
  have "load_bytes (rproc_mem rp) (unat base) 4 = take 4 img"
    using image_slice [OF assms(3), of 0 4] elf_ok_parts(1) [OF assms(2)] by (simp add: slice_def)
  then have fmt: "remoteproc_check_fw_format (rproc_mem rp) base 0x100"
    using elf_ok_parts(4) [OF assms(2)] base by (simp add: remoteproc_check_fw_format_def elf_identify_def)
  obtain a where hdr: "load_headers store ?alloc base 0 0x100 None 0 (0, 0) (rproc_mem rp) =
      Some (Inr (a, Some (elf_image img), 0x10800), rproc_mem rp)"
    using headers_loaded [OF assms(2,3) al] by blast
  have start: "Some (elf_image img) = Some (info_in img (ready 0))" "0x10800 = ready 0"
    by (simp_all add: ready_bits(1))
  obtain s io ms where data: "load_data_loop store ?alloc a 0 0 (Some (elf_image img)) 0x10800 None rp =
      Some (Inr (Some (info_in img s), io), rp\<lparr>rproc_mem := fold (store_segment img) (elf_segments img) (rproc_mem rp), rproc_mems := ms\<rparr>)"
      "\<forall>x \<in> set ms. same_mem x"
    using data_loaded [OF assms(2) _ assms(3), of 0] assms(4,6) unfolding start elf_segments_def by blast
  have first: "locate_and_get malloc store (Some (elf_image img)) (0, 0, 0) 0 rp = Some (0, (0, 0, 0), rp)"
    unfolding start by (rule no_table [OF assms(5)])
  have "set_mem (rproc_mem rp) rp = rp" by (simp add: set_mem_def)
  then have "remoteproc_load malloc (Some store) want ld = Some (0, if want then Some (info_in img s) else None,
      \<lparr>ld_rproc = rp\<lparr>rproc_mem := fold (store_segment img) (elf_segments img) (rproc_mem rp), rproc_mems := ms, rproc_state := RPROC_READY\<rparr>,
       ld_bootaddr = elf_get_entry (Some (elf_image img)), ld_loader = True\<rparr>)"
    using assms(7) hdr fmt base data(1) first
    by (auto simp: remoteproc_load_def opens rp_def [symmetric] RPROC_LOADER_NOT_READY_def load_body_def no_table [OF assms(5)]
        update_rsc_table_def elf_release_def Let_def)
  then show ?thesis using data(2) by blast
qed

end

section \<open>The image store of the example\<close>

interpretation mem_image: image_source "mem_image_store_ops base" base for base
  by unfold_locales (auto simp: mem_image_store_ops_def mem_image_open_def mem_image_load_def RPROC_LOAD_ANYADDR_def METAL_BAD_PHYS_def)


text \<open>A file of two segments and one section, which holds the names of the sections.\<close>

definition sample_phdr :: "u32 \<Rightarrow> u32 \<Rightarrow> u32 \<Rightarrow> u32 \<Rightarrow> bytes" where
  "sample_phdr off va f n = concat (map (le_bytes 4) [PT_LOAD, off, va, va, f, n, 7, 4])"

definition sample_image :: bytes where
  "sample_image = [0x7F, 0x45, 0x4C, 0x46, 1, 1, 1, 0, 0, 0, 0, 0, 0, 0, 0, 0] @
     concat (map (le_bytes 4) [0x00280002 :: u32, 1, 0x8000, 52, 116, 0]) @
     concat (map (le_bytes 2) [52 :: u16, 32, 2, 40, 1, 0]) @
     sample_phdr 156 0x8000 4 8 @ sample_phdr 160 0x9000 2 2 @
     concat (map (le_bytes 4) [0 :: u32, 3, 0, 0, 162, 2, 0, 0, 1, 0]) @
     [1, 2, 3, 4, 5, 6, 0x2E, 0]"

definition sample_loading :: loading where
  "sample_loading = \<lparr>ld_rproc = snd (remoteproc_config (rproc_inst (store_bytes (\<lambda>_. 0) 0x100000 sample_image))),
     ld_bootaddr = 0, ld_loader = False\<rparr>"

lemma sample_header:
  "length sample_image = 164" "take 4 sample_image = ELFMAG" "elf_ehdr_size (Some sample_image) = 52"
  "elf_phoff (bare_info sample_image) = 52" "phdrs_bytes (bare_info sample_image) = 64" "elf_phentsize (bare_info sample_image) = 32"
  "phdr_size (bare_info sample_image) = 32" "elf_phnum (bare_info sample_image) = 2" "elf_shnum (bare_info sample_image) = 1"
  "elf_shoff (bare_info sample_image) = 116" "shdrs_bytes (bare_info sample_image) = 40" "names_at sample_image = Some (162, 2)"
  by code_simp+

lemma sample_ok: "elf_ok sample_image"
  by (simp add: elf_ok_def sample_header)

lemma sample_segments: "elf_segments sample_image =
    [\<lparr>p_type = 1, p_offset = 156, p_vaddr = 0x8000, p_paddr = 0x8000, p_filesz = 4, p_memsz = 8\<rparr>,
     \<lparr>p_type = 1, p_offset = 160, p_vaddr = 0x9000, p_paddr = 0x9000, p_filesz = 2, p_memsz = 2\<rparr>]"
  by code_simp

lemma sample_slices: "slice 156 4 sample_image = [1, 2, 3, 4]" "slice 160 2 sample_image = [5, 6]"
  by code_simp+

lemma sample_no_table: "elf_get_section_from_name (elf_image sample_image) resource_table_name = Some None"
  by code_simp

lemma sample_entry: "elf_get_entry (Some (elf_image sample_image)) = 0x8000"
  by code_simp

text \<open>The file at \<open>0x100000\<close>.\<close>

abbreviation sample_mem :: memory where "sample_mem \<equiv> store_bytes (\<lambda>_. 0) 0x100000 sample_image"

lemma sample_state:
  "rproc_mem (ld_rproc sample_loading) = sample_mem" "rproc_mems (ld_rproc sample_loading) = []"
  "rproc_state (ld_rproc sample_loading) = RPROC_READY"
  by (simp_all add: sample_loading_def remoteproc_config_def rproc_inst_def)

lemma sample_placed:
  "image_at sample_mem 0x100000 sample_image" "\<forall>sg \<in> set (elf_segments sample_image). segment_ok 0x100000 sample_image sg"
  by (simp_all add: image_at_def sample_header(1) sample_segments segment_ok_def disjoint_regions_def)

lemma sample_memory:
  fixes m defines "m \<equiv> fold (store_segment sample_image) (elf_segments sample_image) sample_mem"
  shows "load_bytes m 0x8000 8 = [1, 2, 3, 4, 0, 0, 0, 0]" "load_bytes m 0x9000 2 = [5, 6]"
proof -
  have "replicate 4 (0 :: u8) = [0, 0, 0, 0]" by (simp add: numeral_eq_Suc)
  then show "load_bytes m 0x8000 8 = [1, 2, 3, 4, 0, 0, 0, 0]" "load_bytes m 0x9000 2 = [5, 6]"
    by (simp_all add: m_def sample_segments store_segment_def sample_slices load_store_bytes_disjoint disjoint_regions_def)
qed


end
