(* ===== verification/Firmware_Noblock.thy ===== *)
theory Firmware_Noblock
  imports Firmware_Spec
begin

text \<open>
  Loading without blocking (\<open>remoteproc_load_noblock\<close> with the loop of \<open>load_fw.c\<close>) against blocking loading: here the segments are
  loaded before the section headers, one call of the loader each, and the memory ends the same.
\<close>

section \<open>Load states\<close>

text \<open>The stage of the headers and the index of the next segment, while segments are loaded and after the last one.\<close>

definition data_state :: "u32 \<Rightarrow> nat \<Rightarrow> u32" where "data_state x k = 0x10000 OR (x OR (of_nat k AND 0xFF))"
definition post_state :: "u32 \<Rightarrow> nat \<Rightarrow> u32" where "post_state x k = 0x20000 OR (x OR (of_nat k AND 0xFF))"

lemma or_numerals:
  "(numeral a :: u32) OR (numeral b OR v) = (numeral a OR numeral b) OR v" "(numeral b OR v) OR (numeral a :: u32) = (numeral a OR numeral b) OR v"
  "(numeral b OR v) OR v = (numeral b :: u32) OR v"
  by (simp_all add: or.assoc or.left_commute or.commute)

lemma data_state_bits:
  assumes "x \<in> {0x200, 0x400, 0x800}"
  shows "data_state x k AND 0x10000 \<noteq> 0" "data_state x k AND 0xFF0000 \<noteq> 0" "k \<le> 255 \<Longrightarrow> uint (data_state x k AND 0xFF) = int k"
    "(data_state x k AND NOT 0xFF) OR (of_nat j AND 0xFF) = data_state x j"
    "(((data_state x k AND NOT 0xFF0000) OR 0x20000) AND NOT 0xFF) OR (of_nat j AND 0xFF) = post_state x j"
proof -
  have "data_state x k AND 0x10000 = 0x10000" using assms by (auto simp: data_state_def bit.conj_disj_distrib2 and.assoc)
  then show "data_state x k AND 0x10000 \<noteq> 0" by simp
  have "data_state x k AND 0xFF0000 = 0x10000" using assms by (auto simp: data_state_def bit.conj_disj_distrib2 and.assoc)
  then show "data_state x k AND 0xFF0000 \<noteq> 0" by simp
  have "data_state x k AND 0xFF = ready k AND 0xFF"
    using assms by (auto simp: data_state_def ready_def bit.conj_disj_distrib2 and.assoc)
  then show "k \<le> 255 \<Longrightarrow> uint (data_state x k AND 0xFF) = int k" using ready_bits(5) by simp
  show "(data_state x k AND NOT 0xFF) OR (of_nat j AND 0xFF) = data_state x j"
    using assms by (auto simp: data_state_def bit.conj_disj_distrib2 and.assoc or_numerals)
  show "(((data_state x k AND NOT 0xFF0000) OR 0x20000) AND NOT 0xFF) OR (of_nat j AND 0xFF) = post_state x j"
    using assms by (auto simp: data_state_def post_state_def bit.conj_disj_distrib2 and.assoc or_numerals)
qed

lemma post_state_bits:
  assumes "x \<in> {0x200, 0x400, 0x800}"
  shows "post_state x k AND 0x10000 = 0" "post_state x k AND 0x20000 = 0x20000" "post_state x k AND 0x40000 = 0"
    "post_state x k AND 0xFF0000 = 0x20000" "y \<in> {0x200, 0x400, 0x800} \<Longrightarrow> post_state x k AND y = (if x = y then y else 0)"
    "y \<in> {0x200, 0x400, 0x800} \<Longrightarrow> (post_state x k AND NOT 0xFF00) OR y = post_state y k"
  using assms by (auto simp: post_state_def bit.conj_disj_distrib2 and.assoc or_numerals)

lemma post_state_not: "x \<in> {0x200, 0x400, 0x800} \<Longrightarrow> post_state x k \<noteq> 0" "x \<in> {0x200, 0x400, 0x800} \<Longrightarrow> post_state x k \<noteq> 0x100"
proof -
  assume "x \<in> {0x200, 0x400, 0x800}"
  then have "post_state x k AND 0x20000 = 0x20000" by (rule post_state_bits(2))
  then show "post_state x k \<noteq> 0" "post_state x k \<noteq> 0x100" by auto
qed

lemma complete_bits: "((s AND NOT 0xFF0000) OR 0x40000) AND 0x40000 = (0x40000 :: u32)"
  by (simp add: bit.conj_disj_distrib2 and.assoc)

section \<open>One call\<close>

abbreviation fresh_call :: "nb_vars \<Rightarrow> nb_vars" where
  "fresh_call v \<equiv> v\<lparr>nb_nlen := 0, nb_pa := METAL_BAD_PHYS, nb_io := None, nb_nmlen := 0\<rparr>"

abbreviation info_state :: "nb_vars \<Rightarrow> u32" where
  "info_state v \<equiv> (case nb_info v of None \<Rightarrow> 0 | Some i \<Rightarrow> ei_load_state i)"

text \<open>A call gets past its checks when the processor is ready and the loader is known or recognised.\<close>

definition may_load :: "u32 \<Rightarrow> u32 \<Rightarrow> u32 \<Rightarrow> loading \<Rightarrow> bool" where
  "may_load img offset len s \<longleftrightarrow> rproc_state (ld_rproc s) = RPROC_READY \<and>
     (ld_loader s \<or> img \<noteq> 0 \<and> offset = 0 \<and> len \<noteq> 0 \<and> remoteproc_check_fw_format (rproc_mem (ld_rproc s)) img len)"

lemma call_headers:
  assumes "may_load img offset len s"
    and "noblock_headers (\<lambda>n. malloc n \<noteq> None) (rproc_mem (ld_rproc s)) img offset len (info_state v) (v\<lparr>nb_nlen := 0\<rparr>) = Some (Inr (b, st), w)"
  shows "b \<Longrightarrow> remoteproc_load_noblock malloc img offset len v s = Some ((0, w), s\<lparr>ld_loader := True\<rparr>)"
    and "\<not> b \<Longrightarrow> noblock_data (\<lambda>n. malloc n \<noteq> None) img offset len st w (ld_rproc s) = Some ((Inr (True, st'), w'), rp) \<Longrightarrow>
      remoteproc_load_noblock malloc img offset len v s = Some ((0, w'), s\<lparr>ld_loader := True, ld_rproc := rp\<rparr>)"
    and "\<not> b \<Longrightarrow> noblock_data (\<lambda>n. malloc n \<noteq> None) img offset len st w (ld_rproc s) = Some ((Inr (False, st'), w'), rp) \<Longrightarrow>
      st' AND 0x40000 \<noteq> 0 \<Longrightarrow> nb_info w' = Some (info_in file t) \<Longrightarrow>
      elf_get_section_from_name (elf_image file) resource_table_name = Some None \<Longrightarrow>
      remoteproc_load_noblock malloc img offset len v s =
        Some ((0, w'), s\<lparr>ld_loader := True, ld_rproc := rp, ld_bootaddr := elf_get_entry (Some (elf_image file))\<rparr>)"
  using assms
  by (auto simp: remoteproc_load_noblock_def may_load_def noblock_finish_def elf_locate_rsc_table_def elf_states RPROC_ERR_LOADER_STATE_def Let_def
      split: bool.splits)

context image_source
begin

lemma loop_more:
  assumes "remoteproc_load_noblock malloc img offset len (fresh_call v) s = Some ((0, w), s')" and "nb_nlen w \<noteq> 0"
    and "st_load store (nb_noffset w) (nb_nlen w) (nb_pa w) (nb_io w) (rproc_mem (ld_rproc s')) = Some (sint (nb_nlen w), data, m)"
    and "pad_segment w (set_mem m (ld_rproc s')) = Some rp"
  shows "noblock_loop malloc store img offset len v s =
    noblock_loop malloc store (case data of Some a \<Rightarrow> a | None \<Rightarrow> img) (nb_noffset w) (nb_nlen w) w (s'\<lparr>ld_rproc := rp\<rparr>)"
  using assms by (subst noblock_loop.simps) simp

lemma loop_header:
  assumes "may_load img offset len s"
    and "noblock_headers (\<lambda>n. malloc n \<noteq> None) (rproc_mem (ld_rproc s)) img offset len (info_state v) (fresh_call v) = Some (Inr (True, st), w)"
    and "nb_nlen w \<noteq> 0" and "nb_pa w = METAL_BAD_PHYS" and "nb_io w = None"
  shows "noblock_loop malloc store img offset len v s =
    noblock_loop malloc store (base + nb_noffset w) (nb_noffset w) (nb_nlen w) w (s\<lparr>ld_loader := True\<rparr>)"
proof -
  have call: "remoteproc_load_noblock malloc img offset len (fresh_call v) s = Some ((0, w), s\<lparr>ld_loader := True\<rparr>)"
  proof (rule call_headers(1) [OF assms(1)])
    have "(fresh_call v)\<lparr>nb_nlen := 0\<rparr> = fresh_call v" "nb_info (fresh_call v) = nb_info v" by simp_all
    then show "noblock_headers (\<lambda>n. malloc n \<noteq> None) (rproc_mem (ld_rproc s)) img offset len (info_state (fresh_call v))
        ((fresh_call v)\<lparr>nb_nlen := 0\<rparr>) = Some (Inr (True, st), w)"
      using assms(2) by (simp only:)
  qed simp
  have rd: "st_load store (nb_noffset w) (nb_nlen w) (nb_pa w) (nb_io w) m = Some (sint (nb_nlen w), Some (base + nb_noffset w), m)" for m
    using reads [of "nb_noffset w" "nb_nlen w" m] assms(4,5) by (simp add: RPROC_LOAD_ANYADDR_def METAL_BAD_PHYS_def)
  have "pad_segment w (set_mem (rproc_mem (ld_rproc s)) (ld_rproc s)) = Some (ld_rproc s)"
    using assms(5) by (simp add: pad_segment_def set_mem_def)
  then show ?thesis using loop_more [OF call assms(3), of _ _ "ld_rproc s"] rd by simp
qed

end

section \<open>After the last segment\<close>

lemma complete_data:
  assumes "nb_info v = Some (info_in img (post_state 0x800 k))" and "nb_nlen v = 0"
  obtains t w where "noblock_data alloc a off len (post_state 0x800 k) v rp = Some ((Inr (False, t), w), rp)"
    "t AND 0x40000 \<noteq> 0" "nb_info w = Some (info_in img t)" "nb_nlen w = 0"
proof -
  have x: "(0x800 :: u32) \<in> {0x200, 0x400, 0x800}" by simp
  note b = post_state_bits(1-4) [OF x, of k] post_state_bits(5) [OF x x, of k] complete_bits [of "post_state 0x800 k"]
  show thesis
    by (rule that [of "(post_state 0x800 k AND NOT 0xFF0000) OR 0x40000"
          "v\<lparr>nb_info := Some (info_in img ((post_state 0x800 k AND NOT 0xFF0000) OR 0x40000)), nb_nlen := 0, nb_padding := 0\<rparr>"])
      (use b assms in \<open>simp_all add: noblock_data_def elf_load_def load_post_def elf_states Let_def\<close>)
qed

lemma header_call_post:
  assumes "x \<in> {0x200, 0x400, 0x800}"
  shows "noblock_headers alloc m data offset len (post_state x k) (v\<lparr>nb_info := Some (i\<lparr>ei_load_state := post_state x k\<rparr>), nb_nlen := 0\<rparr>) =
    (let i = i\<lparr>ei_load_state := post_state x k\<rparr>; finish = (\<lambda>(r, info, noff, nlen).
        let w = v\<lparr>nb_info := info, nb_noffset := noff, nb_nlen := nlen\<rparr>
        in Some (case r of Inl e \<Rightarrow> (Inl e, w) | Inr st \<Rightarrow> (Inr (nlen \<noteq> 0 \<and> st AND RPROC_LOADER_READY_TO_LOAD = 0, st), w)))
     in case load_shdrs alloc m data offset len i (nb_noffset v) 0 of
          Inl y \<Rightarrow> finish y
        | Inr i \<Rightarrow> (case load_shstrtab alloc m data offset len i (nb_noffset v) 0 of
            None \<Rightarrow> None
          | Some (Inl y) \<Rightarrow> finish y
          | Some (Inr i) \<Rightarrow> finish (Inr (post_state x k), Some i, nb_noffset v, 0)))"
proof -
  have "load_phdrs alloc m data offset len (i\<lparr>ei_load_state := post_state x k\<rparr>) noff n = Inr (i\<lparr>ei_load_state := post_state x k\<rparr>)" for noff n
    using post_state_not(2) [OF assms] by (simp add: load_phdrs_def elf_states)
  then show ?thesis
    using post_state_bits(1,3) [OF assms, of k] post_state_not(1) [OF assms, of k]
    by (simp add: noblock_headers_def elf_load_header_def load_ehdr_def elf_states Let_def
        split: sum.splits option.splits prod.splits)
qed

lemma fresh_as_update:
  "nb_info v = Some i \<Longrightarrow> fresh_call v = (fresh_call v)\<lparr>nb_info := Some i, nb_nlen := 0\<rparr>"
  by simp

context image_source
begin

lemma loop_complete:
  assumes "may_load a off len s" and "elf_get_section_from_name (elf_image img) resource_table_name = Some None"
    and "noblock_headers (\<lambda>n. malloc n \<noteq> None) (rproc_mem (ld_rproc s)) a off len (info_state v) (fresh_call v) =
      Some (Inr (False, post_state 0x800 k), w)"
    and "nb_info w = Some (info_in img (post_state 0x800 k))" and "nb_nlen w = 0"
  shows "noblock_loop malloc store a off len v s = Some (0, s\<lparr>ld_loader := True, ld_bootaddr := elf_get_entry (Some (elf_image img))\<rparr>)"
proof -
  obtain t w' where d: "noblock_data (\<lambda>n. malloc n \<noteq> None) a off len (post_state 0x800 k) w (ld_rproc s) = Some ((Inr (False, t), w'), ld_rproc s)"
      "t AND 0x40000 \<noteq> 0" "nb_info w' = Some (info_in img t)" "nb_nlen w' = 0"
    using complete_data [OF assms(4,5)] .
  have e: "(fresh_call v)\<lparr>nb_nlen := 0\<rparr> = fresh_call v" "nb_info (fresh_call v) = nb_info v" by simp_all
  have h: "noblock_headers (\<lambda>n. malloc n \<noteq> None) (rproc_mem (ld_rproc s)) a off len (info_state (fresh_call v))
      ((fresh_call v)\<lparr>nb_nlen := 0\<rparr>) = Some (Inr (False, post_state 0x800 k), w)"
    using assms(3) by (simp only: e)
  have r: "s\<lparr>ld_loader := True, ld_rproc := ld_rproc s, ld_bootaddr := elf_get_entry (Some (elf_image img))\<rparr> =
      s\<lparr>ld_loader := True, ld_bootaddr := elf_get_entry (Some (elf_image img))\<rparr>"
    by (cases s) simp
  have "remoteproc_load_noblock malloc a off len (fresh_call v) s =
      Some ((0, w'), s\<lparr>ld_loader := True, ld_bootaddr := elf_get_entry (Some (elf_image img))\<rparr>)"
    using call_headers(3) [OF assms(1) h _ d(1,2,3) assms(2)] by (simp only: r simp_thms)
  then show ?thesis using d(4) by (subst noblock_loop.simps) simp
qed

lemma post_complete:
  assumes "may_load a off len s" and "elf_get_section_from_name (elf_image img) resource_table_name = Some None"
    and "nb_info v = Some (info_in img (post_state 0x800 k))"
  shows "noblock_loop malloc store a off len v s = Some (0, s\<lparr>ld_loader := True, ld_bootaddr := elf_get_entry (Some (elf_image img))\<rparr>)"
proof -
  have x: "(0x800 :: u32) \<in> {0x200, 0x400, 0x800}" "(0x200 :: u32) \<in> {0x200, 0x400, 0x800}" "(0x400 :: u32) \<in> {0x200, 0x400, 0x800}" by simp_all
  have "noblock_headers (\<lambda>n. malloc n \<noteq> None) (rproc_mem (ld_rproc s)) a off len (post_state 0x800 k) (fresh_call v) =
      Some (Inr (False, post_state 0x800 k), fresh_call v)"
    using post_state_bits(5) [OF x(1) x(2), of k] post_state_bits(5) [OF x(1) x(3), of k] assms(3)
    by (subst fresh_as_update [OF assms(3)], subst header_call_post [OF x(1)])
      (simp add: load_shdrs_def load_shstrtab_def elf_states Let_def)
  then show ?thesis by (intro loop_complete [OF assms(1,2), where w = "fresh_call v" and k = k]) (simp_all add: assms(3))
qed

text \<open>With the section headers there, the names are taken from the data at hand or asked for.\<close>

lemma post_names:
  assumes "elf_ok img" and "image_at (rproc_mem (ld_rproc s)) base img" and "\<forall>n. malloc n \<noteq> None" and "elf_shnum (bare_info img) \<noteq> 0"
    and "elf_get_section_from_name (elf_image img) resource_table_name = Some None"
    and "may_load a offset len s" and "nb_info v = Some ((with_shdrs img)\<lparr>ei_load_state := post_state 0x400 k\<rparr>)"
    and "a = base + offset \<or> (\<forall>off sz. names_at img = Some (off, sz) \<longrightarrow> off < offset \<or> offset + len < off + sz)"
  shows "noblock_loop malloc store a offset len v s = Some (0, s\<lparr>ld_loader := True, ld_bootaddr := elf_get_entry (Some (elf_image img))\<rparr>)"
proof -
  have x: "(0x400 :: u32) \<in> {0x200, 0x400, 0x800}" "(0x200 :: u32) \<in> {0x200, 0x400, 0x800}" "(0x800 :: u32) \<in> {0x200, 0x400, 0x800}" by simp_all
  let ?P = "post_state 0x400 k" and ?i = "(with_shdrs img)\<lparr>ei_load_state := post_state 0x400 k\<rparr>"
  let ?al = "\<lambda>n. malloc n \<noteq> None" and ?m = "rproc_mem (ld_rproc s)"
  have b: "?P AND 0x200 = 0" "?P AND 0x400 \<noteq> 0" "(?P AND NOT 0xFF00) OR 0x800 = post_state 0x800 k"
      "?P AND 0x10000 = 0" "post_state 0x800 k AND 0x10000 = 0"
    using post_state_bits(5) [OF x(1) x(2), of k] post_state_bits(5) [OF x(1) x(1), of k] post_state_bits(6) [OF x(1) x(3), of k]
      post_state_bits(1) [OF x(1)] post_state_bits(1) [OF x(3)] by simp_all
  have al: "\<forall>n. ?al n" using assms(3) by simp
  obtain off sz where n: "names_at img = Some (off, sz)" "sz \<noteq> 0"
    "\<And>offset len a b. load_shstrtab ?al ?m (base + offset) offset len ?i a b = Some (Inl
      (if off < offset \<or> offset + len < off + sz then (Inr ?P, Some ?i, off, sz)
       else let t = (?P AND NOT 0xFF00) OR 0x800 in (Inr t, Some (info_in img t), a, 0)))"
    "\<And>data offset len a b. off < offset \<or> offset + len < off + sz \<Longrightarrow>
      load_shstrtab ?al ?m data offset len ?i a b = Some (Inl (Inr ?P, Some ?i, off, sz))"
    by (rule names_stage_in [OF assms(1,2) al assms(4) b(2)]) blast
  have skip: "load_shdrs ?al ?m data o' l' ?i no 0 = Inr ?i" for data o' l' no
    using b(1) by (simp add: load_shdrs_def elf_states)
  have fit: "noblock_loop malloc store (base + o') o' l' v' s' = Some (0, s'\<lparr>ld_loader := True, ld_bootaddr := elf_get_entry (Some (elf_image img))\<rparr>)"
    if "\<not> (off < o' \<or> o' + l' < off + sz)" "nb_info v' = Some ?i" "may_load (base + o') o' l' s'" "rproc_mem (ld_rproc s') = ?m" for o' l' v' s'
  proof -
    have "noblock_headers ?al ?m (base + o') o' l' ?P (fresh_call v') =
        Some (Inr (False, post_state 0x800 k), (fresh_call v')\<lparr>nb_info := Some (info_in img (post_state 0x800 k)), nb_noffset := nb_noffset v', nb_nlen := 0\<rparr>)"
      using that(1) b(3,5) by (subst fresh_as_update [OF that(2)], subst header_call_post [OF x(1)])
        (simp add: skip n(3) Let_def del: not_None_eq)
    then show ?thesis
      using that(2-4) assms(5) by (intro loop_complete [where img = img and k = k and w = "(fresh_call v')\<lparr>nb_info := Some (info_in img (post_state 0x800 k)), nb_noffset := nb_noffset v', nb_nlen := 0\<rparr>"])
        (simp_all del: not_None_eq)
  qed
  show ?thesis
  proof (cases "off < offset \<or> offset + len < off + sz")
    case True
    let ?w = "(fresh_call v)\<lparr>nb_info := Some ?i, nb_noffset := off, nb_nlen := sz\<rparr>"
    have "noblock_headers ?al ?m a offset len ?P (fresh_call v) = Some (Inr (True, ?P), ?w)"
      using True b(4) n(2) by (subst fresh_as_update [OF assms(7)], subst header_call_post [OF x(1)])
        (simp add: skip n(4) elf_states Let_def del: not_None_eq)
    then have "noblock_loop malloc store a offset len v s = noblock_loop malloc store (base + off) off sz ?w (s\<lparr>ld_loader := True\<rparr>)"
      using loop_header [OF assms(6), of malloc v ?P ?w] assms(7) n(2) by (simp del: not_None_eq)
    also have "\<dots> = Some (0, s\<lparr>ld_loader := True, ld_bootaddr := elf_get_entry (Some (elf_image img))\<rparr>)"
      using fit [of off sz ?w "s\<lparr>ld_loader := True\<rparr>"] assms(6) by (simp add: may_load_def)
    finally show ?thesis .
  next
    case False
    then show ?thesis using fit [OF _ assms(7), of offset len s] assms(6,8) n(1) by auto
  qed
qed

text \<open>With only the program headers there, the section headers come first.\<close>

lemma post_shdrs:
  assumes "elf_ok img" and "image_at (rproc_mem (ld_rproc s)) base img" and "\<forall>n. malloc n \<noteq> None" and "elf_shnum (bare_info img) \<noteq> 0"
    and "elf_get_section_from_name (elf_image img) resource_table_name = Some None"
    and "may_load a offset len s" and "nb_info v = Some ((with_phdrs img)\<lparr>ei_load_state := post_state 0x200 k\<rparr>)"
    and "a = base + offset \<or> elf_shoff (bare_info img) < offset \<or> offset + len < elf_shoff (bare_info img) + shdrs_bytes (bare_info img)"
  shows "noblock_loop malloc store a offset len v s = Some (0, s\<lparr>ld_loader := True, ld_bootaddr := elf_get_entry (Some (elf_image img))\<rparr>)"
proof -
  have x: "(0x400 :: u32) \<in> {0x200, 0x400, 0x800}" "(0x200 :: u32) \<in> {0x200, 0x400, 0x800}" "(0x800 :: u32) \<in> {0x200, 0x400, 0x800}" by simp_all
  let ?P = "post_state 0x200 k" and ?Q = "post_state 0x400 k"
  let ?i = "(with_phdrs img)\<lparr>ei_load_state := ?P\<rparr>" and ?j = "(with_shdrs img)\<lparr>ei_load_state := ?Q\<rparr>"
  let ?al = "\<lambda>n. malloc n \<noteq> None" and ?m = "rproc_mem (ld_rproc s)"
  let ?off = "elf_shoff (bare_info img)" and ?sz = "shdrs_bytes (bare_info img)"
  have b: "?P AND 0x200 \<noteq> 0" "(?P AND NOT 0xFF00) OR 0x400 = ?Q" "?Q AND 0x400 \<noteq> 0" "(?Q AND NOT 0xFF00) OR 0x800 = post_state 0x800 k"
      "?P AND 0x10000 = 0" "?Q AND 0x10000 = 0" "post_state 0x800 k AND 0x10000 = 0"
    using post_state_bits(5) [OF x(2) x(2), of k] post_state_bits(5) [OF x(1) x(1), of k] post_state_bits(6) [OF x(2) x(1), of k]
      post_state_bits(6) [OF x(1) x(3), of k] post_state_bits(1) [OF x(1)] post_state_bits(1) [OF x(2)] post_state_bits(1) [OF x(3)] by simp_all
  have al: "\<forall>n. ?al n" using assms(3) by simp
  have nz: "?sz \<noteq> 0" using elf_ok_parts(8) [OF assms(1,4)] by simp
  note sh = shdrs_stage_in [OF assms(1,2) al assms(4) b(1)]
  obtain off sz where n: "names_at img = Some (off, sz)" "sz \<noteq> 0"
    "\<And>offset len a b. load_shstrtab ?al ?m (base + offset) offset len ?j a b = Some (Inl
      (if off < offset \<or> offset + len < off + sz then (Inr ?Q, Some ?j, off, sz)
       else let t = (?Q AND NOT 0xFF00) OR 0x800 in (Inr t, Some (info_in img t), a, 0)))"
    by (rule names_stage_in [OF assms(1,2) al assms(4) b(3)]) blast
  have fit: "noblock_loop malloc store (base + o') o' l' v' s' = Some (0, s'\<lparr>ld_loader := True, ld_bootaddr := elf_get_entry (Some (elf_image img))\<rparr>)"
    if f: "\<not> (?off < o' \<or> o' + l' < ?off + ?sz)" and v: "nb_info v' = Some ?i" and l: "may_load (base + o') o' l' s'" "rproc_mem (ld_rproc s') = ?m" for o' l' v' s'
  proof (cases "off < o' \<or> o' + l' < off + sz")
    case True
    let ?w = "(fresh_call v')\<lparr>nb_info := Some ?j, nb_noffset := off, nb_nlen := sz\<rparr>"
    have "noblock_headers ?al ?m (base + o') o' l' ?P (fresh_call v') = Some (Inr (True, ?Q), ?w)"
      using f True b(2,6) n(2) by (subst fresh_as_update [OF v], subst header_call_post [OF x(2)])
        (simp add: sh n(3) elf_states Let_def del: not_None_eq)
    then have "noblock_loop malloc store (base + o') o' l' v' s' = noblock_loop malloc store (base + off) off sz ?w (s'\<lparr>ld_loader := True\<rparr>)"
      using loop_header [OF l(1), of malloc v' ?Q ?w] v l(2) n(2) by (simp del: not_None_eq)
    also have "\<dots> = Some (0, s'\<lparr>ld_loader := True, ld_bootaddr := elf_get_entry (Some (elf_image img))\<rparr>)"
      using post_names [OF assms(1) _ assms(3,4,5), of "s'\<lparr>ld_loader := True\<rparr>" "base + off" off sz ?w k] l assms(2) by (simp add: may_load_def)
    finally show ?thesis .
  next
    case False
    let ?w = "(fresh_call v')\<lparr>nb_info := Some (info_in img (post_state 0x800 k)), nb_noffset := nb_noffset v', nb_nlen := 0\<rparr>"
    have "noblock_headers ?al ?m (base + o') o' l' ?P (fresh_call v') = Some (Inr (False, post_state 0x800 k), ?w)"
      using f False b(2,4,7) by (subst fresh_as_update [OF v], subst header_call_post [OF x(2)])
        (simp add: sh n(3) Let_def del: not_None_eq)
    then show ?thesis
      using v l assms(5) by (intro loop_complete [where img = img and k = k and w = ?w]) (simp_all del: not_None_eq)
  qed
  show ?thesis
  proof (cases "?off < offset \<or> offset + len < ?off + ?sz")
    case True
    let ?w = "(fresh_call v)\<lparr>nb_info := Some ?i, nb_noffset := ?off, nb_nlen := ?sz\<rparr>"
    have "noblock_headers ?al ?m a offset len ?P (fresh_call v) = Some (Inr (True, ?P), ?w)"
      using True b(5) nz by (subst fresh_as_update [OF assms(7)], subst header_call_post [OF x(2)])
        (simp add: sh(2) elf_states Let_def del: not_None_eq)
    then have "noblock_loop malloc store a offset len v s = noblock_loop malloc store (base + ?off) ?off ?sz ?w (s\<lparr>ld_loader := True\<rparr>)"
      using loop_header [OF assms(6), of malloc v ?P ?w] assms(7) nz by (simp del: not_None_eq)
    also have "\<dots> = Some (0, s\<lparr>ld_loader := True, ld_bootaddr := elf_get_entry (Some (elf_image img))\<rparr>)"
      using fit [of ?off ?sz ?w "s\<lparr>ld_loader := True\<rparr>"] assms(6) by (simp add: may_load_def)
    finally show ?thesis .
  next
    case False
    then show ?thesis using fit [OF _ assms(7), of offset len s] assms(6,8) by auto
  qed
qed

end

text \<open>The three stages of the headers at the end of the data.\<close>

definition staged :: "bytes \<Rightarrow> u32 \<Rightarrow> elf_info \<Rightarrow> bool" where
  "staged img x i \<longleftrightarrow> (if elf_shnum (bare_info img) = 0 then (x, i) = (0x800, elf_image img)
     else (x, i) \<in> {(0x200, with_phdrs img), (0x400, with_shdrs img), (0x800, elf_image img)})"

lemma staged_facts:
  assumes "staged img x i"
  shows "x \<in> {0x200, 0x400, 0x800}" "has_tables img i" "has_tables img (i\<lparr>ei_load_state := s\<rparr>)"
  using assms by (auto simp: staged_def split: if_splits)

section \<open>Segments\<close>

lemma data_call:
  assumes "elf_ok img" and "staged img x i" and "k \<le> phnum img" and "segs_from img k = sg # rest" and "segment_ok base img sg"
    and "p_filesz sg \<noteq> 0" and "\<forall>y \<in> set (rproc_mems rp). same_mem y"
    and "nb_info v = Some (i\<lparr>ei_load_state := data_state x k\<rparr>)" and "nb_nmlen v = 0"
  obtains j r ms where "k < j" "j \<le> phnum img" "segs_from img j = rest" "covers r (p_vaddr sg) (p_memsz sg)" "\<forall>y \<in> set ms. same_mem y"
    "let st = (if j = phnum img then post_state x j else data_state x j) in
      noblock_data alloc a off len (data_state x k) v rp = Some ((Inr (True, st),
        v\<lparr>nb_info := Some (i\<lparr>ei_load_state := st\<rparr>), nb_noffset := p_offset sg, nb_nlen := p_filesz sg, nb_nmlen := p_memsz sg,
          nb_padding := 0, nb_pa := p_vaddr sg, nb_io := Some r\<rparr>), rp\<lparr>rproc_mems := ms\<rparr>)"
proof -
  note x = staged_facts(1) [OF assms(2)]
  have "k \<le> 255" using assms(3) phnum_le [OF assms(1)] by simp
  note b = data_state_bits(1,2) [OF x, of k] data_state_bits(3) [OF x this]
  let ?i = "i\<lparr>ei_load_state := data_state x k\<rparr>"
  have "unat (p_vaddr sg) + unat (p_memsz sg) < 2 ^ 32" using assms(5) by (simp add: segment_ok_def)
  then obtain va r ms where map: "remoteproc_mmap (Some METAL_BAD_PHYS) (Some (p_vaddr sg)) (p_memsz sg) 0 rp =
      Some ((va, Some (p_vaddr sg), Some (p_vaddr sg), Some r), rp\<lparr>rproc_mems := ms\<rparr>)" "covers r (p_vaddr sg) (p_memsz sg)" "\<forall>x \<in> set ms. same_mem x"
    using mmap_device [OF assms(7) segment_address(1) [OF assms(5)]] by metis
  have da: "p_vaddr sg \<noteq> RPROC_LOAD_ANYADDR" "p_vaddr sg \<noteq> METAL_BAD_PHYS"
    using segment_address(1) [OF assms(5)] by (simp_all add: RPROC_LOAD_ANYADDR_def METAL_BAD_PHYS_def)
  obtain j where j: "k < j" "j \<le> phnum img" "segs_from img j = rest"
    "elf_load alloc (rproc_mem rp) a off len (data_state x k) \<lparr>lo_info = Some ?i, lo_da = RPROC_LOAD_ANYADDR, lo_noffset = nb_noffset v, lo_nlen = nb_nlen v,
        lo_padding = nb_padding v, lo_memsize = 0\<rparr> =
      (let s = ei_load_state ?i;
           s = ((if j = phnum img then (s AND NOT 0xFF0000) OR 0x20000 else s) AND NOT 0xFF) OR (of_nat j AND 0xFF)
       in Some (Inr s, asked (?i\<lparr>ei_load_state := s\<rparr>) (p_vaddr sg) (p_offset sg) (p_filesz sg) (p_memsz sg)))"
    by (rule load_one_segment [OF assms(1) staged_facts(3) [OF assms(2)] assms(3,4), of "data_state x k" "data_state x k"]) (use b in simp_all)
  let ?st = "if j = phnum img then post_state x j else data_state x j"
  have st: "((if j = phnum img then (data_state x k AND NOT 0xFF0000) OR 0x20000 else data_state x k) AND NOT 0xFF) OR (of_nat j AND 0xFF) = ?st"
    using data_state_bits(4,5) [OF x] by simp
  have sel: "ei_load_state ?i = data_state x k" by simp
  have upd: "?i\<lparr>ei_load_state := q\<rparr> = i\<lparr>ei_load_state := q\<rparr>" for q by simp
  have load: "elf_load alloc (rproc_mem rp) a off len (data_state x k) \<lparr>lo_info = Some ?i, lo_da = RPROC_LOAD_ANYADDR, lo_noffset = nb_noffset v, lo_nlen = nb_nlen v,
        lo_padding = nb_padding v, lo_memsize = 0\<rparr> = Some (Inr ?st, asked (i\<lparr>ei_load_state := ?st\<rparr>) (p_vaddr sg) (p_offset sg) (p_filesz sg) (p_memsz sg))"
    unfolding j(4) Let_def sel upd st ..
  show thesis
    by (rule that [OF j(1-3) map(2,3)]) (use b(1) load map(1) da assms(6,8,9) in \<open>simp add: noblock_data_def elf_states Let_def\<close>)
qed

context image_source
begin

lemma segment_step:
  assumes "image_at (rproc_mem rp) base img" and "segment_ok base img sg" and "covers r (p_vaddr sg) (p_memsz sg)" and "p_filesz sg \<noteq> 0"
    and "nb_noffset w = p_offset sg" "nb_nlen w = p_filesz sg" "nb_nmlen w = p_memsz sg" "nb_padding w = 0" "nb_pa w = p_vaddr sg" "nb_io w = Some r"
  shows "\<exists>m. st_load store (nb_noffset w) (nb_nlen w) (nb_pa w) (nb_io w) (rproc_mem rp) = Some (sint (nb_nlen w), None, m) \<and>
    pad_segment w (set_mem m rp) = Some (rp\<lparr>rproc_mem := store_segment img sg (rproc_mem rp)\<rparr>)"
proof -
  obtain m1 where w: "st_load store (p_offset sg) (p_filesz sg) (p_vaddr sg) (Some r) (rproc_mem rp) = Some (sint (p_filesz sg), None, m1)"
    "p_filesz sg = 0 \<longrightarrow> m1 = rproc_mem rp"
    "p_filesz sg < p_memsz sg \<longrightarrow> (\<exists>off. metal_io_phys_to_offset r (p_vaddr sg + p_filesz sg) = Some off \<and>
      snd (metal_io_block_set r off 0 (unat (p_memsz sg - p_filesz sg)) m1) = store_segment img sg (rproc_mem rp))"
    "\<not> p_filesz sg < p_memsz sg \<longrightarrow> m1 = store_segment img sg (rproc_mem rp)"
    by (rule segment_written [OF assms(1-3)])
  show ?thesis
    by (rule exI [of _ m1]) (use w assms(5-) in \<open>auto simp: pad_segment_def set_mem_def Let_def\<close>)
qed

end

text \<open>The tables that are still missing after the data lie outside the last segment of the file.\<close>

definition tables_apart :: "bytes \<Rightarrow> elf_segment \<Rightarrow> bool" where
  "tables_apart img sg \<longleftrightarrow> (elf_shnum (bare_info img) \<noteq> 0 \<longrightarrow>
     (let i = bare_info img in elf_shoff i < p_offset sg \<or> p_offset sg + p_filesz sg < elf_shoff i + shdrs_bytes i) \<and>
     (case names_at img of None \<Rightarrow> True | Some (off, sz) \<Rightarrow> off < p_offset sg \<or> p_offset sg + p_filesz sg < off + sz))"

context image_source
begin

lemma post_loaded:
  assumes "elf_ok img" and "staged img x i" and "image_at (rproc_mem (ld_rproc s)) base img" and "\<forall>n. malloc n \<noteq> None"
    and "elf_get_section_from_name (elf_image img) resource_table_name = Some None"
    and "may_load a (p_offset sg) (p_filesz sg) s" and "nb_info v = Some (i\<lparr>ei_load_state := post_state x k\<rparr>)" and "tables_apart img sg"
  shows "noblock_loop malloc store a (p_offset sg) (p_filesz sg) v s =
    Some (0, s\<lparr>ld_loader := True, ld_bootaddr := elf_get_entry (Some (elf_image img))\<rparr>)"
proof -
  consider "x = 0x800" "i = elf_image img" | "x = 0x400" "i = with_shdrs img" "elf_shnum (bare_info img) \<noteq> 0"
    | "x = 0x200" "i = with_phdrs img" "elf_shnum (bare_info img) \<noteq> 0"
    using assms(2) by (auto simp: staged_def split: if_splits)
  then show ?thesis
  proof cases
    case 1
    then show ?thesis using post_complete [OF assms(6,5), of v k] assms(7) by simp
  next
    case 2
    then show ?thesis using assms by (intro post_names) (auto simp: tables_apart_def)
  next
    case 3
    then show ?thesis using assms by (intro post_shdrs) (auto simp: tables_apart_def Let_def)
  qed
qed

lemma last_segment: "segs_from img k \<noteq> [] \<Longrightarrow> k \<le> phnum img \<Longrightarrow> last (elf_segments img) = last (segs_from img k)"
  using upt_add_eq_append [of 0 k "phnum img - k"] by (simp add: elf_segments_def segs_from_def)

lemma data_headers:
  assumes "x \<in> {0x200, 0x400, 0x800}"
  shows "noblock_headers alloc m a offset len (data_state x j) v = Some (Inr (False, data_state x j), v)"
  using data_state_bits(1) [OF assms] by (simp add: noblock_headers_def elf_states)

lemma segments_loaded:
  assumes "elf_ok img" and "staged img x i" and "\<forall>n. malloc n \<noteq> None" and "elf_get_section_from_name (elf_image img) resource_table_name = Some None"
    and "segs_from img (phnum img - 1) \<noteq> []" and "tables_apart img (last (elf_segments img))"
    and "k < phnum img" and "image_at (rproc_mem (ld_rproc s)) base img"
    and "\<forall>sg \<in> set (segs_from img k). segment_ok base img sg \<and> p_filesz sg \<noteq> 0" and "\<forall>y \<in> set (rproc_mems (ld_rproc s)). same_mem y"
    and "may_load a offset len s"
    and "noblock_headers (\<lambda>n. malloc n \<noteq> None) (rproc_mem (ld_rproc s)) a offset len (info_state v) (fresh_call v) = Some (Inr (False, data_state x k), w)"
    and "nb_info w = Some (i\<lparr>ei_load_state := data_state x k\<rparr>)" and "nb_nmlen w = 0"
  shows "\<exists>ms. noblock_loop malloc store a offset len v s = Some (0, s\<lparr>ld_rproc := (ld_rproc s)\<lparr>rproc_mem := fold (store_segment img) (segs_from img k)
      (rproc_mem (ld_rproc s)), rproc_mems := ms\<rparr>, ld_loader := True, ld_bootaddr := elf_get_entry (Some (elf_image img))\<rparr>) \<and> (\<forall>y \<in> set ms. same_mem y)"
  using assms(7-)
proof (induction "segs_from img k" arbitrary: k a offset len v w s)
  case Nil
  have "k \<le> phnum img - 1" using Nil(2) by simp
  then have "set (segs_from img (phnum img - 1)) \<subseteq> set (segs_from img k)" by (auto simp: segs_from_def)
  then show ?case using Nil(1) assms(5) by simp
next
  case (Cons sg rest)
  have sg: "segment_ok base img sg" "p_filesz sg \<noteq> 0" using Cons(5) Cons(2) [symmetric] by simp_all
  have kle: "k \<le> phnum img" using Cons(3) by simp
  let ?al = "\<lambda>n. malloc n \<noteq> None"
  obtain j r ms where j: "k < j" "j \<le> phnum img" "segs_from img j = rest" and r: "covers r (p_vaddr sg) (p_memsz sg)" "\<forall>y \<in> set ms. same_mem y"
    and call: "let st = (if j = phnum img then post_state x j else data_state x j) in
      noblock_data ?al a offset len (data_state x k) w (ld_rproc s) = Some ((Inr (True, st),
        w\<lparr>nb_info := Some (i\<lparr>ei_load_state := st\<rparr>), nb_noffset := p_offset sg, nb_nlen := p_filesz sg, nb_nmlen := p_memsz sg,
          nb_padding := 0, nb_pa := p_vaddr sg, nb_io := Some r\<rparr>), (ld_rproc s)\<lparr>rproc_mems := ms\<rparr>)"
    using data_call [OF assms(1,2) kle Cons(2) [symmetric] sg Cons(6) Cons(9,10)] by metis
  let ?st = "if j = phnum img then post_state x j else data_state x j"
  let ?w = "w\<lparr>nb_info := Some (i\<lparr>ei_load_state := ?st\<rparr>), nb_noffset := p_offset sg, nb_nlen := p_filesz sg, nb_nmlen := p_memsz sg,
      nb_padding := 0, nb_pa := p_vaddr sg, nb_io := Some r\<rparr>"
  let ?rp = "(ld_rproc s)\<lparr>rproc_mems := ms\<rparr>" and ?m = "store_segment img sg (rproc_mem (ld_rproc s))"
  let ?s = "s\<lparr>ld_loader := True, ld_rproc := ?rp\<lparr>rproc_mem := ?m\<rparr>\<rparr>"
  have data: "noblock_data ?al a offset len (data_state x k) w (ld_rproc s) = Some ((Inr (True, ?st), ?w), ?rp)"
    using call by (simp only: Let_def)
  have e: "(fresh_call v)\<lparr>nb_nlen := 0\<rparr> = fresh_call v" "nb_info (fresh_call v) = nb_info v" by simp_all
  have h: "noblock_headers ?al (rproc_mem (ld_rproc s)) a offset len (info_state (fresh_call v)) ((fresh_call v)\<lparr>nb_nlen := 0\<rparr>) =
      Some (Inr (False, data_state x k), w)"
    using Cons(8) by (simp only: e)
  have one: "remoteproc_load_noblock malloc a offset len (fresh_call v) s = Some ((0, ?w), s\<lparr>ld_loader := True, ld_rproc := ?rp\<rparr>)"
    by (rule call_headers(2) [OF Cons(7) h _ data]) simp
  obtain m where m: "st_load store (nb_noffset ?w) (nb_nlen ?w) (nb_pa ?w) (nb_io ?w) (rproc_mem ?rp) = Some (sint (nb_nlen ?w), None, m)"
      "pad_segment ?w (set_mem m ?rp) = Some (?rp\<lparr>rproc_mem := store_segment img sg (rproc_mem ?rp)\<rparr>)"
    using segment_step [of ?rp img sg r ?w] Cons(4) sg r(1) by auto
  have run: "noblock_loop malloc store a offset len v s = noblock_loop malloc store a (p_offset sg) (p_filesz sg) ?w ?s"
    using loop_more [OF one] m sg(2) by simp
  have img: "image_at ?m base img" by (rule image_kept [OF Cons(4) sg(1)])
  have may: "may_load a o' l' ?s" for o' l' using Cons(7) by (simp add: may_load_def)
  show ?case
  proof (cases "j = phnum img")
    case True
    then have rest: "rest = []" using j(3) by (simp add: segs_from_def)
    have "last (elf_segments img) = sg" using last_segment [of img k] kle Cons(2) [symmetric] rest by simp
    then have "noblock_loop malloc store a (p_offset sg) (p_filesz sg) ?w ?s =
        Some (0, ?s\<lparr>ld_loader := True, ld_bootaddr := elf_get_entry (Some (elf_image img))\<rparr>)"
      using True img assms(6) by (intro post_loaded [OF assms(1,2) _ assms(3,4) may, where k = j]) simp_all
    then show ?thesis using run r(2) by (auto simp: Cons(2) [symmetric] rest intro!: exI [of _ ms])
  next
    case False
    then have jlt: "j < phnum img" using j(2) by simp
    have info: "info_state ?w = data_state x j" using False by simp
    have "noblock_headers ?al (rproc_mem (ld_rproc ?s)) a (p_offset sg) (p_filesz sg) (info_state ?w) (fresh_call ?w) =
        Some (Inr (False, data_state x j), fresh_call ?w)"
      unfolding info by (rule data_headers [OF staged_facts(1) [OF assms(2)]])
    then have "\<exists>ms. noblock_loop malloc store a (p_offset sg) (p_filesz sg) ?w ?s = Some (0, ?s\<lparr>ld_rproc := (ld_rproc ?s)\<lparr>rproc_mem :=
        fold (store_segment img) (segs_from img j) (rproc_mem (ld_rproc ?s)), rproc_mems := ms\<rparr>, ld_loader := True,
        ld_bootaddr := elf_get_entry (Some (elf_image img))\<rparr>) \<and> (\<forall>y \<in> set ms. same_mem y)"
      using Cons(5) img r(2) False j(3) Cons(2) [symmetric] by (intro Cons(1) [OF _ jlt, where w = "fresh_call ?w"] may) simp_all
    then show ?thesis using run by (auto simp: Cons(2) [symmetric] j(3))
  qed
qed

end

section \<open>The first calls\<close>

lemma shdrs_result_staged:
  assumes "elf_ok img"
  obtains x i no nl where "shdrs_result img offset len a = (Inr (data_state x 0), Some (i\<lparr>ei_load_state := data_state x 0\<rparr>), no, nl)" "staged img x i"
proof -
  have s: "data_state 0x200 0 = 0x10200" "data_state 0x400 0 = 0x10400" "data_state 0x800 0 = 0x10800" by (simp_all add: data_state_def)
  note e = same_state [of "with_phdrs img" "0x10200"] same_state [of "with_shdrs img" "0x10400"] same_state [of "elf_image img" "0x10800"]
  show thesis
  proof (cases "elf_shnum (bare_info img) = 0")
    case True
    then show thesis using that [of "0x800" "elf_image img" a 0] e by (simp add: shdrs_result_def s staged_def)
  next
    case False
    obtain off sz where n: "names_at img = Some (off, sz)" using names_ok [OF assms False] .
    let ?need = "\<lambda>off sz. off < offset \<or> offset + len < off + sz"
    consider "?need (elf_shoff (bare_info img)) (shdrs_bytes (bare_info img))"
      | "\<not> ?need (elf_shoff (bare_info img)) (shdrs_bytes (bare_info img))" "?need off sz"
      | "\<not> ?need (elf_shoff (bare_info img)) (shdrs_bytes (bare_info img))" "\<not> ?need off sz" by blast
    then show thesis
    proof cases
      case 1
      then show thesis
        using that [of "0x200" "with_phdrs img" "elf_shoff (bare_info img)" "shdrs_bytes (bare_info img)"] e False
        by (simp add: shdrs_result_def s staged_def Let_def)
    next
      case 2
      then show thesis
        using that [of "0x400" "with_shdrs img" off sz] e False by (simp add: shdrs_result_def names_result_def n s staged_def Let_def)
    next
      case 3
      then show thesis
        using that [of "0x800" "elf_image img" a 0] e False by (simp add: shdrs_result_def names_result_def n s staged_def Let_def)
    qed
  qed
qed

lemma headers_ready:
  assumes "elf_load_header alloc m a offset len info st no 0 = Some (shdrs_result img offset len no)"
    and "elf_ok img" and "st AND 0x10000 = 0" and "st AND 0x40000 = 0"
    and "nb_info v = info" and "nb_nlen v = 0" and "nb_noffset v = no"
  obtains x i w where "noblock_headers alloc m a offset len st v = Some (Inr (False, data_state x 0), w)" "staged img x i"
    "nb_info w = Some (i\<lparr>ei_load_state := data_state x 0\<rparr>)" "nb_nmlen w = nb_nmlen v"
proof -
  obtain x i no' nl where r: "shdrs_result img offset len no = (Inr (data_state x 0), Some (i\<lparr>ei_load_state := data_state x 0\<rparr>), no', nl)" "staged img x i"
    by (rule shdrs_result_staged [OF assms(2)])
  show thesis
    by (rule that [OF _ r(2), of "v\<lparr>nb_info := Some (i\<lparr>ei_load_state := data_state x 0\<rparr>), nb_noffset := no', nb_nlen := nl\<rparr>"])
      (use assms r(1) data_state_bits(1) [OF staged_facts(1) [OF r(2)], of 0] in \<open>simp_all add: noblock_headers_def elf_states\<close>)
qed

context image_source
begin

lemma noblock_loaded:
  assumes "elf_ok img" and "image_at (rproc_mem (ld_rproc s)) base img" and "\<forall>n. malloc n \<noteq> None"
    and "elf_get_section_from_name (elf_image img) resource_table_name = Some None"
    and "segs_from img (phnum img - 1) \<noteq> []" and "tables_apart img (last (elf_segments img))"
    and "\<forall>sg \<in> set (elf_segments img). segment_ok base img sg \<and> p_filesz sg \<noteq> 0" and "\<forall>y \<in> set (rproc_mems (ld_rproc s)). same_mem y"
    and "rproc_state (ld_rproc s) = RPROC_READY" and "nb_info v = None"
  shows "\<exists>ms. noblock_loop malloc store base 0 0x100 v s = Some (0, s\<lparr>ld_rproc := (ld_rproc s)\<lparr>rproc_mem := fold (store_segment img) (elf_segments img)
      (rproc_mem (ld_rproc s)), rproc_mems := ms\<rparr>, ld_loader := True, ld_bootaddr := elf_get_entry (Some (elf_image img))\<rparr>) \<and> (\<forall>y \<in> set ms. same_mem y)"
proof -
  let ?al = "\<lambda>n. malloc n \<noteq> None" and ?m = "rproc_mem (ld_rproc s)" and ?i = "bare_info img"
  let ?off = "elf_phoff (bare_info img)" and ?sz = "phdrs_bytes (bare_info img)"
  have al: "\<forall>n. ?al n" using assms(3) by simp
  have ph: "0 < phnum img" using assms(5) by (cases "phnum img") (simp_all add: segs_from_def)
  have "unat ?sz \<noteq> 0" using phdrs_bytes_size [OF assms(1)] ph by (simp add: phdr_size_def)
  then have nz: "?sz \<noteq> 0" by auto
  have may: "may_load base 0 0x100 s"
  proof -
    have "load_bytes ?m (unat base) 4 = take 4 img"
      using image_slice [OF assms(2), of 0 4] elf_ok_parts(1) [OF assms(1)] by (simp add: slice_def)
    then show ?thesis
      using elf_ok_parts(4) [OF assms(1)] assms(2,9) by (simp add: may_load_def remoteproc_check_fw_format_def elf_identify_def image_at_def)
  qed
  have segs: "\<forall>sg \<in> set (segs_from img 0). segment_ok base img sg \<and> p_filesz sg \<noteq> 0" using assms(7) by (simp add: elf_segments_def)
  note go = segments_loaded [OF assms(1) _ assms(3,4,5,6) ph _ segs, folded elf_segments_def]
  have first: "elf_load_header ?al ?m base 0 0x100 None 0 a b = Some (phdrs_result img 0 0x100 a)" for a b
    using ehdr_call [OF assms(1,2) al, of "0x100" a b] header_calls(3) [OF assms(1,2) al, of 0 "0x100" a b] by simp
  show ?thesis
  proof (cases "?off < 0 \<or> 0 + 0x100 < ?off + ?sz")
    case True
    let ?w = "(fresh_call v)\<lparr>nb_info := Some ?i, nb_noffset := ?off, nb_nlen := ?sz\<rparr>"
    have "noblock_headers ?al ?m base 0 0x100 0 (fresh_call v) = Some (Inr (True, 0x100), ?w)"
      using True nz assms(10) first unfolding noblock_headers_def
      by (simp add: elf_states phdrs_result_def Let_def del: not_None_eq)
    then have run: "noblock_loop malloc store base 0 0x100 v s = noblock_loop malloc store (base + ?off) ?off ?sz ?w (s\<lparr>ld_loader := True\<rparr>)"
      using loop_header [OF may, of malloc v "0x100" ?w] assms(10) nz by (simp del: not_None_eq)
    have second: "elf_load_header ?al ?m (base + ?off) ?off ?sz (Some ?i) 0x100 a b = Some (shdrs_result img ?off ?sz a)" for a b
      using header_calls(3) [OF assms(1,2) al, of ?off ?sz a b] by (simp add: phdrs_result_def Let_def)
    have st: "(0x100 :: u32) AND 0x10000 = 0" "(0x100 :: u32) AND 0x40000 = 0" by simp_all
    have eqs: "nb_info (fresh_call ?w) = Some ?i" "nb_nlen (fresh_call ?w) = 0" "nb_noffset (fresh_call ?w) = ?off" by simp_all
    obtain x i w where h: "noblock_headers ?al ?m (base + ?off) ?off ?sz 0x100 (fresh_call ?w) = Some (Inr (False, data_state x 0), w)" "staged img x i"
        "nb_info w = Some (i\<lparr>ei_load_state := data_state x 0\<rparr>)" "nb_nmlen w = nb_nmlen (fresh_call ?w)"
      by (rule headers_ready [OF second assms(1) st eqs])
    have "may_load (base + ?off) ?off ?sz (s\<lparr>ld_loader := True\<rparr>)" using may by (simp add: may_load_def)
    from go [OF h(2) _ _ this, of ?w w] show ?thesis unfolding run using assms(2,8) h(1,3,4) by (simp del: not_None_eq)
  next
    case False
    then have "phdrs_result img 0 0x100 a = shdrs_result img 0 0x100 a" for a by (simp add: phdrs_result_def Let_def)
    then have call: "elf_load_header ?al ?m base 0 0x100 None 0 a b = Some (shdrs_result img 0 0x100 a)" for a b using first by simp
    have st: "(0 :: u32) AND 0x10000 = 0" "(0 :: u32) AND 0x40000 = 0" by simp_all
    have eqs: "nb_info (fresh_call v) = None" "nb_nlen (fresh_call v) = 0" "nb_noffset (fresh_call v) = nb_noffset v"
      using assms(10) by simp_all
    obtain x i w where h: "noblock_headers ?al ?m base 0 0x100 0 (fresh_call v) = Some (Inr (False, data_state x 0), w)" "staged img x i"
        "nb_info w = Some (i\<lparr>ei_load_state := data_state x 0\<rparr>)" "nb_nmlen w = nb_nmlen (fresh_call v)"
      by (rule headers_ready [OF call assms(1) st eqs])
    from go [OF h(2) _ _ may, of v w] show ?thesis using assms(2,8,10) h(1,3,4) by (simp del: not_None_eq)
  qed
qed

end

section \<open>Both ways of loading\<close>



end
