(* ===== verification/Gic_Low_Level.thy ===== *)
theory Gic_Low_Level
  imports Gic_Driver
begin

text \<open>
  The low-level interface of the interrupt controller (\<open>scugic_v3_9/src/xscugic_hw.c\<close>), which works without a driver instance: the
  same registers reached through the base addresses of the configuration table, which has one entry. The theorems compare
  it with the driver of the theory \<open>Gic_Driver\<close> and say which handler an interrupt reaches.

  \<open>call\<close> runs a handler with its argument. A call of a null handler and an access outside the handler table are \<open>None\<close>.
\<close>

definition XSCUGIC_INT_ACK_OFFSET :: u32 where "XSCUGIC_INT_ACK_OFFSET = 0x0C"
definition XSCUGIC_EOI_OFFSET :: u32 where "XSCUGIC_EOI_OFFSET = 0x10"
definition XSCUGIC_ACK_INTID_MASK :: u32 where "XSCUGIC_ACK_INTID_MASK = 0x3FF"
definition ConfigTable_CpuBaseAddress :: "u32 list" where "ConfigTable_CpuBaseAddress = [0xF8F00100]"

definition DistInit :: "bool \<Rightarrow> u32 \<Rightarrow> ('f, 'u, 'z) gic_scheme \<Rightarrow> ('f, 'u, 'z) gic_scheme" where
  "DistInit USE_AMP CpuID s =
    (if USE_AMP then s
     else let s = DistWriteReg XSCUGIC_DIST_EN_OFFSET 0 s;
              s = fold (\<lambda>i. DistWriteReg (XSCUGIC_INT_CFG_OFFSET_CALC i) 0) (int_ids 32 16) s;
              s = fold (\<lambda>i. DistWriteReg (XSCUGIC_PRIORITY_OFFSET_CALC i) DEFAULT_PRIORITY) (int_ids 0 4) s;
              (_, s) = fold (\<lambda>i (LocalCpuID, s). let LocalCpuID = all_bytes LocalCpuID
                               in (LocalCpuID, DistWriteReg (XSCUGIC_SPI_TARGET_OFFSET_CALC i) LocalCpuID s))
                         (int_ids 32 4) (CpuID, s);
              s = fold (\<lambda>i. DistWriteReg (XSCUGIC_DISABLE_OFFSET + (i div 32) * 4) 0xFFFFFFFF) (int_ids 0 32) s
          in DistWriteReg XSCUGIC_DIST_EN_OFFSET XSCUGIC_EN_INT_MASK s)"

definition CPUInit :: "('f, 'u, 'z) gic_scheme \<Rightarrow> ('f, 'u, 'z) gic_scheme" where
  "CPUInit s = CPUWriteReg XSCUGIC_CONTROL_OFFSET 0x07 (CPUWriteReg XSCUGIC_CPU_PRIOR_OFFSET 0xF0 s)"

definition XScuGic_DeviceInitialize :: "bool \<Rightarrow> ('f, 'u, 'z) gic_scheme \<Rightarrow> int \<times> ('f, 'u, 'z) gic_scheme" where
  "XScuGic_DeviceInitialize USE_AMP s = (XST_SUCCESS, CPUInit (DistInit USE_AMP (XScuGic_GetCpuID s + 1) s))"

definition XScuGic_DeviceInterruptHandler ::
  "('f \<Rightarrow> 'u \<Rightarrow> ('f, 'u, 'z) gic_scheme \<Rightarrow> ('f, 'u, 'z) gic_scheme option) \<Rightarrow> ('f, 'u, 'z) gic_scheme \<Rightarrow> ('f, 'u, 'z) gic_scheme option" where
  "XScuGic_DeviceInterruptHandler call s =
    (let IntIDFull = cpu_if s XSCUGIC_INT_ACK_OFFSET; InterruptID = IntIDFull AND XSCUGIC_ACK_INTID_MASK
     in if XSCUGIC_MAX_NUM_INTR_INPUTS < InterruptID then Some (CPUWriteReg XSCUGIC_EOI_OFFSET IntIDFull s)
        else do {
          (Handler, CallBackRef) \<leftarrow>
            (if unat InterruptID < length (HandlerTable s) then Some (HandlerTable s ! unat InterruptID) else None);
          f \<leftarrow> Handler;
          s \<leftarrow> call f CallBackRef s;
          Some (CPUWriteReg XSCUGIC_EOI_OFFSET IntIDFull s) })"

definition LookupConfigByBaseAddress :: "u32 \<Rightarrow> nat option" where
  "LookupConfigByBaseAddress CpuBaseAddress = List.find (\<lambda>k. ConfigTable_CpuBaseAddress ! k = CpuBaseAddress) [0..<1]"

text \<open>A null handler or a null argument leaves the old one.\<close>

definition XScuGic_RegisterHandler ::
  "u32 \<Rightarrow> int \<Rightarrow> 'f option \<Rightarrow> 'u option \<Rightarrow> ('f, 'u, 'z) gic_scheme \<Rightarrow> ('f, 'u, 'z) gic_scheme option" where
  "XScuGic_RegisterHandler BaseAddress InterruptID IntrHandler CallBackRef s =
    (case LookupConfigByBaseAddress BaseAddress of
       None \<Rightarrow> Some s
     | Some _ \<Rightarrow>
         if IntrHandler = None \<and> CallBackRef = None then Some s
         else if InterruptID < 0 \<or> length (HandlerTable s) \<le> nat InterruptID then None
         else let (h, u) = HandlerTable s ! nat InterruptID
              in Some (s\<lparr>HandlerTable := (HandlerTable s)[nat InterruptID :=
                   ((case IntrHandler of Some f \<Rightarrow> Some f | None \<Rightarrow> h), (case CallBackRef of Some v \<Rightarrow> v | None \<Rightarrow> u))]\<rparr>))"

definition XScuGic_SetPriTrigTypeByDistAddr :: "u32 \<Rightarrow> u8 \<Rightarrow> u8 \<Rightarrow> ('f, 'u, 'z) gic_scheme \<Rightarrow> ('f, 'u, 'z) gic_scheme option" where
  "XScuGic_SetPriTrigTypeByDistAddr i prio trigger s = do {
     Xil_Assert (i < XSCUGIC_MAX_NUM_INTR_INPUTS);
     Xil_Assert (trigger \<le> 3);
     Xil_Assert (prio \<le> 248);
     let po = XSCUGIC_PRIORITY_OFFSET_CALC i;
     let s = DistWriteReg po (set_field 0xFF (unat (i mod 4) * 8) (ucast (prio AND 0xF8)) (dist s po)) s;
     let co = XSCUGIC_INT_CFG_OFFSET_CALC i;
     Some (DistWriteReg co (set_field 3 (unat (i mod 16) * 2) (ucast trigger) (dist s co)) s) }"

definition XScuGic_GetPriTrigTypeByDistAddr :: "u32 \<Rightarrow> ('f, 'u, 'z) gic_scheme \<Rightarrow> (u8 \<times> u8) option" where
  "XScuGic_GetPriTrigTypeByDistAddr i s = do {
     Xil_Assert (i < XSCUGIC_MAX_NUM_INTR_INPUTS);
     Some (ucast (drop_bit (unat ((i mod 4) * 8)) (dist s (XSCUGIC_PRIORITY_OFFSET_CALC i)) AND 0xFF),
           ucast (drop_bit (unat ((i mod 16) * 2)) (dist s (XSCUGIC_INT_CFG_OFFSET_CALC i)) AND 3)) }"

definition XScuGic_InterruptUnmapFromCpuByDistAddr :: "u8 \<Rightarrow> u32 \<Rightarrow> ('f, 'u, 'z) gic_scheme \<Rightarrow> ('f, 'u, 'z) gic_scheme option" where
  "XScuGic_InterruptUnmapFromCpuByDistAddr c i s = do {
     Xil_Assert (i < XSCUGIC_MAX_NUM_INTR_INPUTS);
     let off = XSCUGIC_SPI_TARGET_OFFSET_CALC i;
     let BitPos = (ucast (i mod 4) * 8 + c :: u8);
     Some (DistWriteReg off (dist s off AND NOT (push_bit (unat BitPos) 1)) s) }"

definition XScuGic_UnmapAllInterruptsFromCpuByDistAddr :: "u8 \<Rightarrow> ('f, 'u, 'z) gic_scheme \<Rightarrow> ('f, 'u, 'z) gic_scheme" where
  "XScuGic_UnmapAllInterruptsFromCpuByDistAddr c s =
    fold (\<lambda>i s. let Target_Cpu = dist s (XSCUGIC_SPI_TARGET_OFFSET_CALC i) AND NOT (all_bytes (push_bit (unat c) 1))
                in DistWriteReg (XSCUGIC_SPI_TARGET_OFFSET_CALC i) Target_Cpu s) (int_ids 32 4) s"

section \<open>The driver and the low-level interface\<close>

text \<open>On a started driver both interfaces do the same; the low-level start is the start of the driver without its stop.\<close>

lemma low_level_agrees:
  "gic_ready s \<Longrightarrow> XScuGic_SetPriTrigTypeByDistAddr i prio trigger s = XScuGic_SetPriorityTriggerType i prio trigger s"
  "gic_ready s \<Longrightarrow> XScuGic_GetPriTrigTypeByDistAddr i s = XScuGic_GetPriorityTriggerType i s"
  "i < XSCUGIC_MAX_NUM_INTR_INPUTS \<Longrightarrow> XScuGic_InterruptUnmapFromCpuByDistAddr c i s = Some (XScuGic_InterruptUnmapFromCpu c i s)"
  "XScuGic_UnmapAllInterruptsFromCpuByDistAddr c s = XScuGic_UnmapAllInterruptsFromCpu c s"
  "dist s XSCUGIC_DIST_EN_OFFSET AND XSCUGIC_EN_INT_MASK = 0 \<Longrightarrow>
    XScuGic_DeviceInitialize b s = (XST_SUCCESS, CPUInitialize (DistributorInit b (CpuId s + 1) s))"
  by (simp_all add: XScuGic_SetPriTrigTypeByDistAddr_def XScuGic_SetPriorityTriggerType_def XScuGic_GetPriTrigTypeByDistAddr_def
      XScuGic_GetPriorityTriggerType_def XScuGic_InterruptUnmapFromCpuByDistAddr_def XScuGic_InterruptUnmapFromCpu_def
      XScuGic_UnmapAllInterruptsFromCpuByDistAddr_def XScuGic_UnmapAllInterruptsFromCpu_def drop_targets_def
      XScuGic_DeviceInitialize_def DistInit_def CPUInit_def CPUInitialize_def DistributorInit_def DoDistributorInit_def
      XScuGic_GetCpuID_def Let_def)

section \<open>Dispatch\<close>

text \<open>A registered handler is the one its interrupt reaches, with its argument, and the interrupt is ended with the value acknowledged.\<close>

lemma registered_handler_called:
  assumes "XScuGic_RegisterHandler 0xF8F00100 (int k) (Some f) (Some u) s = Some s1" and "k < length (HandlerTable s)" and "k < 95"
    and "cpu_if s XSCUGIC_INT_ACK_OFFSET AND XSCUGIC_ACK_INTID_MASK = of_nat k"
  shows "XScuGic_DeviceInterruptHandler call s1 =
    map_option (CPUWriteReg XSCUGIC_EOI_OFFSET (cpu_if s XSCUGIC_INT_ACK_OFFSET)) (call f u s1)"
proof -
  have s1: "s1 = s\<lparr>HandlerTable := (HandlerTable s)[k := (Some f, u)]\<rparr>"
    using assms(1,2) by (simp add: XScuGic_RegisterHandler_def LookupConfigByBaseAddress_def ConfigTable_CpuBaseAddress_def
        split: prod.splits)
  have k: "unat (of_nat k :: u32) = k" using assms(3) by (simp add: unat_of_nat)
  have lt: "\<not> XSCUGIC_MAX_NUM_INTR_INPUTS < of_nat k"
    using assms(3) k by (simp add: XSCUGIC_MAX_NUM_INTR_INPUTS_def word_less_nat_alt)
  show ?thesis
    using assms(2,4) k lt by (cases "call f u s1") (simp_all add: XScuGic_DeviceInterruptHandler_def s1 Let_def)
qed

text \<open>A spurious interrupt is only ended.\<close>

lemma spurious_ended:
  assumes "cpu_if s XSCUGIC_INT_ACK_OFFSET AND XSCUGIC_ACK_INTID_MASK = 1023"
  shows "XScuGic_DeviceInterruptHandler call s = Some (CPUWriteReg XSCUGIC_EOI_OFFSET (cpu_if s XSCUGIC_INT_ACK_OFFSET) s)"
  using assms by (simp add: XScuGic_DeviceInterruptHandler_def XSCUGIC_MAX_NUM_INTR_INPUTS_def)

text \<open>The test lets number 95 pass, one past the handler table.\<close>

lemma id_95_outside_table:
  assumes "cpu_if s XSCUGIC_INT_ACK_OFFSET AND XSCUGIC_ACK_INTID_MASK = 95" and "length (HandlerTable s) = 95"
  shows "XScuGic_DeviceInterruptHandler call s = None"
  using assms by (simp add: XScuGic_DeviceInterruptHandler_def XSCUGIC_MAX_NUM_INTR_INPUTS_def)

end
