(* ===== verification/Rpc_Proxy.thy ===== *)
theory Rpc_Proxy
  imports Rpmsg
begin

text \<open>
  The file proxy of OpenAMP: system calls of the remote core that the other core executes. The caller's side is
  \<open>lib/proxy/rpmsg_retarget.c\<close> with \<open>rpmsg_retarget.h\<close>, the executing side the example \<open>apps/examples/rpc_demo/rpc_demod.c\<close>.

  The endpoint, \<open>rpmsg_send\<close> and the poll function are parameters: sending gives a result code, polling gives the callbacks it makes. \<open>peer\<close>
  is the state behind them. A response buffer is a list of its bytes, an uninitialised buffer is filled from the parameter
  \<open>junk\<close>. C integers are 32-bit words, read with \<open>sint\<close>. An access outside a buffer is \<open>None\<close>, a wait without end too. Locks have no effect.
\<close>

section \<open>Messages\<close>

definition OPEN_SYSCALL_ID :: u32 where "OPEN_SYSCALL_ID = 1"
definition CLOSE_SYSCALL_ID :: u32 where "CLOSE_SYSCALL_ID = 2"
definition WRITE_SYSCALL_ID :: u32 where "WRITE_SYSCALL_ID = 3"
definition READ_SYSCALL_ID :: u32 where "READ_SYSCALL_ID = 4"
definition TERM_SYSCALL_ID :: u32 where "TERM_SYSCALL_ID = 6"
definition MAX_BUF_LEN :: nat where "MAX_BUF_LEN = 496"
definition EINVAL_rpc :: int where "EINVAL_rpc = 22"

lemmas syscall_ids = OPEN_SYSCALL_ID_def CLOSE_SYSCALL_ID_def WRITE_SYSCALL_ID_def READ_SYSCALL_ID_def TERM_SYSCALL_ID_def

record rpmsg_rpc_syscall =
  sc_id :: u32
  int_field1 :: u32
  int_field2 :: u32
  data_len :: u32

text \<open>The structure in memory, and the structure at the start of a buffer that holds one.\<close>

definition syscall_bytes :: "rpmsg_rpc_syscall \<Rightarrow> bytes" where
  "syscall_bytes c = le_bytes 4 (sc_id c) @ le_bytes 4 (int_field1 c) @ le_bytes 4 (int_field2 c) @ le_bytes 4 (data_len c)"

definition syscall_at :: "bytes \<Rightarrow> rpmsg_rpc_syscall" where
  "syscall_at b = \<lparr>sc_id = le_word (take 4 b), int_field1 = le_word (take 4 (drop 4 b)),
     int_field2 = le_word (take 4 (drop 8 b)), data_len = le_word (take 4 (drop 12 b))\<rparr>"

lemma length_syscall_bytes [simp]: "length (syscall_bytes c) = 16"
  by (simp add: syscall_bytes_def)

lemma syscall_roundtrip [simp]: "syscall_at (syscall_bytes c @ rest) = c"
  by (simp add: syscall_at_def syscall_bytes_def)

lemma syscall_roundtrip_exact [simp]: "syscall_at (syscall_bytes c) = c"
  using syscall_roundtrip [of c "[]"] by simp

section \<open>The connection\<close>

record 'w rpmsg_rpc_data =
  ept_open :: bool
  ept_destroyed :: bool
  nacked :: bool
  respbuf :: "bytes option"
  peer :: 'w

datatype rpc_event = Message bytes | Unbind

record 'w rpc_ops =
  op_send :: "bytes \<Rightarrow> 'w \<Rightarrow> int \<times> 'w"
  op_poll :: "'w \<Rightarrow> (rpc_event list \<times> 'w) option"
  op_shutdown :: "'w \<Rightarrow> 'w"

text \<open>Sending on a destroyed endpoint is refused by \<open>rpmsg_send\<close>.\<close>

definition ept_send :: "'w rpc_ops \<Rightarrow> bytes \<Rightarrow> 'w rpmsg_rpc_data \<Rightarrow> int \<times> 'w rpmsg_rpc_data" where
  "ept_send ops msg rpc =
    (if ept_open rpc then let (ret, w) = op_send ops msg (peer rpc) in (ret, rpc\<lparr>peer := w\<rparr>) else (RPMSG_ERR_PARAM, rpc))"

definition rpmsg_rpc_ept_cb :: "bytes \<Rightarrow> 'w rpmsg_rpc_data \<Rightarrow> 'w rpmsg_rpc_data option" where
  "rpmsg_rpc_ept_cb data rpc =
    (if length data < 4 then None
     else if sc_id (syscall_at data) = TERM_SYSCALL_ID then Some (rpc\<lparr>ept_open := False\<rparr>)
     else let rpc = (case respbuf rpc of
                None \<Rightarrow> rpc
              | Some b \<Rightarrow> rpc\<lparr>respbuf := Some (take (length b) data @ drop (length data) b)\<rparr>)
          in Some (rpc\<lparr>nacked := False\<rparr>))"

definition rpc_service_unbind :: "'w rpc_ops \<Rightarrow> 'w rpmsg_rpc_data \<Rightarrow> 'w rpmsg_rpc_data" where
  "rpc_service_unbind ops rpc =
    (let rpc = rpc\<lparr>ept_destroyed := True, ept_open := False, nacked := False\<rparr> in rpc\<lparr>peer := op_shutdown ops (peer rpc)\<rparr>)"

text \<open>A destroyed endpoint gets no callbacks.\<close>

fun rpc_events :: "'w rpc_ops \<Rightarrow> rpc_event list \<Rightarrow> 'w rpmsg_rpc_data \<Rightarrow> 'w rpmsg_rpc_data option" where
  "rpc_events ops [] rpc = Some rpc"
| "rpc_events ops (e # es) rpc =
    (if \<not> ept_open rpc then Some rpc
     else case e of
       Message d \<Rightarrow> (case rpmsg_rpc_ept_cb d rpc of None \<Rightarrow> None | Some rpc \<Rightarrow> rpc_events ops es rpc)
     | Unbind \<Rightarrow> rpc_events ops es (rpc_service_unbind ops rpc))"

definition rpc_poll :: "'w rpc_ops \<Rightarrow> 'w rpmsg_rpc_data \<Rightarrow> 'w rpmsg_rpc_data option" where
  "rpc_poll ops rpc = do { (es, w) \<leftarrow> op_poll ops (peer rpc); rpc_events ops es (rpc\<lparr>peer := w\<rparr>) }"

text \<open>\<open>create\<close> creates the endpoint, \<open>ready\<close> tells whether it knows its destination.\<close>

partial_function (option) wait_ready :: "('w \<Rightarrow> bool) \<Rightarrow> 'w rpc_ops \<Rightarrow> 'w rpmsg_rpc_data \<Rightarrow> 'w rpmsg_rpc_data option" where
  "wait_ready ready ops rpc = (if ready (peer rpc) then Some rpc else do { rpc \<leftarrow> rpc_poll ops rpc; wait_ready ready ops rpc })"

definition rpmsg_rpc_init ::
  "('w \<Rightarrow> int \<times> 'w) \<Rightarrow> ('w \<Rightarrow> bool) \<Rightarrow> 'w rpc_ops \<Rightarrow> 'w rpmsg_rpc_data \<Rightarrow> (int \<times> 'w rpmsg_rpc_data) option" where
  "rpmsg_rpc_init create ready ops rpc =
    (let rpc = rpc\<lparr>ept_destroyed := False, respbuf := None, nacked := True\<rparr>; (ret, w) = create (peer rpc)
     in if ret \<noteq> 0 then Some (- EINVAL_rpc, rpc\<lparr>peer := w\<rparr>)
        else map_option (Pair 0) (wait_ready ready ops (rpc\<lparr>ept_open := True, peer := w\<rparr>)))"

definition rpmsg_rpc_release :: "'w rpmsg_rpc_data \<Rightarrow> 'w rpmsg_rpc_data" where
  "rpmsg_rpc_release rpc =
    (let rpc = (if \<not> ept_destroyed rpc then rpc\<lparr>ept_open := False\<rparr> else rpc) in rpc\<lparr>respbuf := None\<rparr>)"

partial_function (option) wait_response :: "'w rpc_ops \<Rightarrow> 'w rpmsg_rpc_data \<Rightarrow> 'w rpmsg_rpc_data option" where
  "wait_response ops rpc =
    (if nacked rpc then do { rpc \<leftarrow> rpc_poll ops rpc; wait_response ops rpc } else Some (rpc\<lparr>nacked := True\<rparr>))"

text \<open>The response is what \<open>respbuf\<close> holds at the end; the pointer stays in the structure.\<close>

definition rpmsg_rpc_send :: "'w rpc_ops \<Rightarrow> bytes \<Rightarrow> bytes option \<Rightarrow> 'w rpmsg_rpc_data \<Rightarrow> (int \<times> 'w rpmsg_rpc_data) option" where
  "rpmsg_rpc_send ops req resp rpc =
    (let (ret, rpc) = ept_send ops req (rpc\<lparr>respbuf := resp, nacked := True\<rparr>)
     in if ret < 0 then Some (- EINVAL_rpc, rpc)
        else if resp = None then Some (ret, rpc)
        else map_option (Pair ret) (wait_response ops rpc))"

text \<open>The connection that the system calls use.\<close>

definition rpmsg_set_default_rpc :: "'w rpmsg_rpc_data option \<Rightarrow> 'w rpmsg_rpc_data option \<Rightarrow> 'w rpmsg_rpc_data option" where
  "rpmsg_set_default_rpc rpc rpmsg_default_rpc = (if rpc = None then rpmsg_default_rpc else rpc)"

section \<open>System calls\<close>

text \<open>The result of a call that only returns a number: \<open>Inr\<close> is the connection with the response.\<close>

definition blank_response :: "bytes \<Rightarrow> bytes" where
  "blank_response junk = le_bytes 4 (0 :: u32) @ drop 4 junk"

definition number_of :: "u32 \<Rightarrow> int \<Rightarrow> 'w rpmsg_rpc_data \<Rightarrow> int" where
  "number_of scid ret rpc =
    (if ret < 0 then ret
     else let resp = syscall_at (the (respbuf rpc)) in if sc_id resp = scid then sint (int_field1 resp) else - EINVAL_rpc)"

definition rpc_open ::
  "'w rpc_ops \<Rightarrow> bytes \<Rightarrow> bytes option \<Rightarrow> u32 \<Rightarrow> u32 \<Rightarrow> 'w rpmsg_rpc_data option \<Rightarrow> (int \<times> 'w rpmsg_rpc_data option) option" where
  "rpc_open ops junk filename flags mode rpc = do {
     filename \<leftarrow> filename;
     let filename_len = length filename + 1;
     let payload_size = 16 + filename_len;
     if MAX_BUF_LEN < payload_size then Some (- EINVAL_rpc, rpc)
     else case rpc of
       None \<Rightarrow> Some (- EINVAL_rpc, None)
     | Some rpc \<Rightarrow> do {
         let msg = syscall_bytes \<lparr>sc_id = OPEN_SYSCALL_ID, int_field1 = flags, int_field2 = mode, data_len = of_nat filename_len\<rparr> @ filename @ [0];
         (ret, rpc) \<leftarrow> rpmsg_rpc_send ops msg (Some (blank_response (take 16 junk))) rpc;
         Some (number_of OPEN_SYSCALL_ID ret rpc, Some rpc) } }"

definition rpc_close :: "'w rpc_ops \<Rightarrow> bytes \<Rightarrow> u32 \<Rightarrow> 'w rpmsg_rpc_data option \<Rightarrow> (int \<times> 'w rpmsg_rpc_data option) option" where
  "rpc_close ops junk fd rpc =
    (case rpc of
       None \<Rightarrow> Some (- EINVAL_rpc, None)
     | Some rpc \<Rightarrow> do {
         let msg = syscall_bytes \<lparr>sc_id = CLOSE_SYSCALL_ID, int_field1 = fd, int_field2 = 0, data_len = 0\<rparr>;
         (ret, rpc) \<leftarrow> rpmsg_rpc_send ops msg (Some (blank_response (take 16 junk))) rpc;
         Some (number_of CLOSE_SYSCALL_ID ret rpc, Some rpc) })"

text \<open>\<open>junk\<close> is what the buffer on the stack holds; for standard output one byte of it is sent after the data, and the final zero is
  written behind that one.\<close>

definition rpc_write ::
  "'w rpc_ops \<Rightarrow> bytes \<Rightarrow> u32 \<Rightarrow> bytes \<Rightarrow> u32 \<Rightarrow> 'w rpmsg_rpc_data option \<Rightarrow> (int \<times> 'w rpmsg_rpc_data option) option" where
  "rpc_write ops junk fd ptr len rpc =
    (case rpc of
       None \<Rightarrow> Some (- EINVAL_rpc, None)
     | Some rpc \<Rightarrow>
         let null_term = (if fd = 1 then 1 else 0 :: nat)
         in if length ptr < unat len \<or> MAX_BUF_LEN < 16 + unat len then None
            else if fd = 1 \<and> MAX_BUF_LEN \<le> 16 + unat len + null_term then None
            else do {
              let msg = syscall_bytes \<lparr>sc_id = WRITE_SYSCALL_ID, int_field1 = fd, int_field2 = len, data_len = len + of_nat null_term\<rparr>
                @ take (unat len) ptr @ take null_term (drop (16 + unat len) junk);
              (ret, rpc) \<leftarrow> rpmsg_rpc_send ops msg (Some (blank_response (take 16 junk))) rpc;
              Some (number_of WRITE_SYSCALL_ID ret rpc, Some rpc) })"

text \<open>The result of a read is the number and the caller's buffer.\<close>

definition rpc_read ::
  "'w rpc_ops \<Rightarrow> bytes \<Rightarrow> u32 \<Rightarrow> bytes option \<Rightarrow> u32 \<Rightarrow> 'w rpmsg_rpc_data option \<Rightarrow>
    (int \<times> bytes option \<times> 'w rpmsg_rpc_data option) option" where
  "rpc_read ops junk fd buffer buflen rpc =
    (case (rpc, buffer) of
       (Some rpc, Some buf) \<Rightarrow>
         if buflen = 0 then Some (- EINVAL_rpc, buffer, Some rpc)
         else do {
           let msg = syscall_bytes \<lparr>sc_id = READ_SYSCALL_ID, int_field1 = fd, int_field2 = buflen, data_len = 0\<rparr>;
           (ret, rpc) \<leftarrow> rpmsg_rpc_send ops msg (Some (blank_response junk)) rpc;
           let tmpbuf = the (respbuf rpc);
           let resp = syscall_at tmpbuf;
           if ret < 0 then Some (ret, buffer, Some rpc)
           else if sc_id resp \<noteq> READ_SYSCALL_ID then Some (- EINVAL_rpc, buffer, Some rpc)
           else if sint (int_field1 resp) \<le> 0 then Some (sint (int_field1 resp), buffer, Some rpc)
           else do {
             let tmplen = (if sint buflen < sint (data_len resp) then buflen else data_len resp);
             if length tmpbuf < 16 + unat tmplen \<or> length buf < unat tmplen then None
             else Some (sint (int_field1 resp), Some (take (unat tmplen) (drop 16 tmpbuf) @ drop (unat tmplen) buf), Some rpc) } }
     | _ \<Rightarrow> Some (- EINVAL_rpc, buffer, rpc))"

end
