(* ===== verification/Rpc_Server.thy ===== *)
theory Rpc_Server
  imports Rpc_Proxy Rpmsg_Registry
begin

text \<open>
  The executing side of the file proxy (\<open>apps/examples/rpc_demo/rpc_demod.c\<close>): every message is a system call of the master core, whose
  files are a parameter. The theorems put it behind the calls of the theory \<open>Rpc_Proxy\<close>: a program that uses the proxy gets what it
  would get from the files directly.
\<close>

definition RPC_BUFF_SIZE :: nat where "RPC_BUFF_SIZE = 496"

text \<open>The files of the master: \<open>open\<close>, \<open>close\<close>, \<open>read\<close> and \<open>write\<close> of POSIX, with the state behind them.\<close>

record 'fs files =
  f_open :: "bytes \<Rightarrow> u32 \<Rightarrow> u32 \<Rightarrow> 'fs \<Rightarrow> u32 \<times> 'fs"
  f_close :: "u32 \<Rightarrow> 'fs \<Rightarrow> u32 \<times> 'fs"
  f_read :: "u32 \<Rightarrow> u32 \<Rightarrow> 'fs \<Rightarrow> (u32 \<times> bytes) \<times> 'fs"
  f_write :: "u32 \<Rightarrow> bytes \<Rightarrow> 'fs \<Rightarrow> u32 \<times> 'fs"

text \<open>The variables of the program (\<open>app_ept\<close>: the endpoint is registered); \<open>sent\<close> are the messages the endpoint has sent, the oldest first.\<close>

record 'fs rpc_server =
  err_cnt :: nat
  request_termination :: bool
  ept_deleted :: bool
  app_ept :: bool
  sent :: "bytes list"
  fs :: 'fs

text \<open>\<open>rpmsg_send\<close> with a buffer at hand: the message has to fit.\<close>

definition server_send :: "bytes \<Rightarrow> 'fs rpc_server \<Rightarrow> int \<times> 'fs rpc_server" where
  "server_send msg s =
    (if MAX_BUF_LEN < length msg then (RPMSG_ERR_BUFF_SIZE, s) else (int (length msg), s\<lparr>sent := sent s @ [msg]\<rparr>))"

definition send_result :: "bytes \<Rightarrow> 'fs rpc_server \<Rightarrow> int \<times> 'fs rpc_server" where
  "send_result msg s = (let (ret, s) = server_send msg s in (if 0 < ret then 0 else ret, s))"

text \<open>The string at a pointer into a buffer.\<close>

definition cstring :: "bytes \<Rightarrow> bytes option" where
  "cstring b = (if 0 \<in> set b then Some (takeWhile (\<lambda>c. c \<noteq> 0) b) else None)"

definition handle_open :: "'fs files \<Rightarrow> bytes \<Rightarrow> 'fs rpc_server \<Rightarrow> (int \<times> 'fs rpc_server) option" where
  "handle_open files buf s = do {
     name \<leftarrow> cstring (drop 16 buf);
     let c = syscall_at buf;
     let (fd, w) = f_open files name (int_field1 c) (int_field2 c) (fs s);
     Some (send_result (syscall_bytes \<lparr>sc_id = OPEN_SYSCALL_ID, int_field1 = fd, int_field2 = 0, data_len = 0\<rparr>) (s\<lparr>fs := w\<rparr>)) }"

definition handle_close :: "'fs files \<Rightarrow> bytes \<Rightarrow> 'fs rpc_server \<Rightarrow> (int \<times> 'fs rpc_server) option" where
  "handle_close files buf s = do {
     let (ret, w) = f_close files (int_field1 (syscall_at buf)) (fs s);
     Some (send_result (syscall_bytes \<lparr>sc_id = CLOSE_SYSCALL_ID, int_field1 = ret, int_field2 = 0, data_len = 0\<rparr>) (s\<lparr>fs := w\<rparr>)) }"

definition handle_read :: "'fs files \<Rightarrow> bytes \<Rightarrow> 'fs rpc_server \<Rightarrow> (int \<times> 'fs rpc_server) option" where
  "handle_read files buf s = do {
     let c = syscall_at buf;
     let count = (if int_field1 c = 0 then of_nat (RPC_BUFF_SIZE - 16) else int_field2 c);
     let ((bytes_read, payload), w) = f_read files (int_field1 c) count (fs s);
     if RPC_BUFF_SIZE - 16 < length payload then None
     else Some (send_result (syscall_bytes \<lparr>sc_id = READ_SYSCALL_ID, int_field1 = bytes_read, int_field2 = 0, data_len = bytes_read\<rparr> @
       take (if 0 < sint bytes_read then unat bytes_read else 0) payload) (s\<lparr>fs := w\<rparr>)) }"

definition handle_write :: "'fs files \<Rightarrow> bytes \<Rightarrow> 'fs rpc_server \<Rightarrow> (int \<times> 'fs rpc_server) option" where
  "handle_write files buf s = do {
     let c = syscall_at buf;
     if RPC_BUFF_SIZE < 16 + unat (int_field2 c) then None
     else do {
       let (bytes_written, w) = f_write files (int_field1 c) (take (unat (int_field2 c)) (drop 16 buf)) (fs s);
       Some (send_result (syscall_bytes \<lparr>sc_id = WRITE_SYSCALL_ID, int_field1 = bytes_written, int_field2 = 0, data_len = 0\<rparr>) (s\<lparr>fs := w\<rparr>)) } }"

definition handle_rpc :: "'fs files \<Rightarrow> bytes \<Rightarrow> 'fs rpc_server \<Rightarrow> (int \<times> 'fs rpc_server) option" where
  "handle_rpc files buf s =
    (let i = sc_id (syscall_at buf)
     in if i = OPEN_SYSCALL_ID then handle_open files buf s
        else if i = CLOSE_SYSCALL_ID then handle_close files buf s
        else if i = READ_SYSCALL_ID then handle_read files buf s
        else if i = WRITE_SYSCALL_ID then handle_write files buf s
        else if i = TERM_SYSCALL_ID then Some (0, s\<lparr>request_termination := True\<rparr>)
        else Some (- 1, s))"

text \<open>
  The copy out of a shared buffer at the address \<open>shbuf\<close>: bytes up to the next multiple of four, words, the remaining bytes.
  Each step gives what it has copied and what is left.
\<close>

fun shbuf_head :: "nat \<Rightarrow> bytes \<Rightarrow> bytes \<times> bytes" where
  "shbuf_head shbuf [] = ([], [])"
| "shbuf_head shbuf (x # b) =
    (if shbuf mod 4 \<noteq> 0 then let (dst, rest) = shbuf_head (shbuf + 1) b in (x # dst, rest) else ([], x # b))"

fun shbuf_words :: "bytes \<Rightarrow> bytes \<times> bytes" where
  "shbuf_words (x0 # x1 # x2 # x3 # b) = (let (dst, rest) = shbuf_words b in (x0 # x1 # x2 # x3 # dst, rest))"
| "shbuf_words b = ([], b)"

definition copy_from_shbuf :: "nat \<Rightarrow> bytes \<Rightarrow> bytes" where
  "copy_from_shbuf shbuf b = (let (head, b) = shbuf_head shbuf b; (words, b) = shbuf_words b in head @ words @ b)"

lemma shbuf_head_append: "shbuf_head shbuf b = (dst, rest) \<Longrightarrow> dst @ rest = b"
  by (induction shbuf b arbitrary: dst rest rule: shbuf_head.induct) (auto split: if_splits prod.splits)

lemma shbuf_words_append: "shbuf_words b = (dst, rest) \<Longrightarrow> dst @ rest = b"
  by (induction b arbitrary: dst rest rule: shbuf_words.induct) (auto split: prod.splits)

lemma copy_from_shbuf_copies [simp]: "copy_from_shbuf shbuf b = b"
  unfolding copy_from_shbuf_def by (auto simp: shbuf_words_append dest: shbuf_head_append split: prod.splits)

text \<open>The message is copied into a buffer on the stack, which holds \<open>junk\<close> before.\<close>

definition demod_endpoint_cb :: "'fs files \<Rightarrow> nat \<Rightarrow> bytes \<Rightarrow> bytes \<Rightarrow> 'fs rpc_server \<Rightarrow> 'fs rpc_server option" where
  "demod_endpoint_cb files shbuf junk data s =
    (if length data < 16 then Some (s\<lparr>err_cnt := err_cnt s + 1\<rparr>)
     else do {
       let data = take RPC_BUFF_SIZE data;
       (ret, s) \<leftarrow> handle_rpc files (copy_from_shbuf shbuf data @ drop (length data) junk) s;
       Some (if ret \<noteq> 0 then s\<lparr>err_cnt := err_cnt s + 1\<rparr> else s) })"

definition demod_service_unbind :: "'fs rpc_server \<Rightarrow> 'fs rpc_server" where
  "demod_service_unbind s = s\<lparr>app_ept := False, ept_deleted := True\<rparr>"

definition terminate_rpc_app :: "'fs rpc_server \<Rightarrow> 'fs rpc_server" where
  "terminate_rpc_app s = (if \<not> ept_deleted s then s\<lparr>app_ept := False\<rparr> else s)"

text \<open>The loop of the example; \<open>poll\<close> is \<open>platform_poll\<close> with the callbacks it makes. The first result is \<open>ret\<close>.\<close>

partial_function (option) demod_loop :: "('fs rpc_server \<Rightarrow> 'fs rpc_server option) \<Rightarrow> 'fs rpc_server \<Rightarrow> (int \<times> 'fs rpc_server) option" where
  "demod_loop poll s = do {
     s \<leftarrow> poll s;
     if err_cnt s \<noteq> 0 then Some (- EINVAL_rpc, s)
     else if ept_deleted s \<or> request_termination s then Some (0, s)
     else demod_loop poll s }"

text \<open>\<open>created\<close> is what \<open>rpmsg_create_ept\<close> returns.\<close>

definition demod_app :: "int \<Rightarrow> ('fs rpc_server \<Rightarrow> 'fs rpc_server option) \<Rightarrow> 'fs rpc_server \<Rightarrow> (int \<times> 'fs rpc_server) option" where
  "demod_app created poll s =
    (if created \<noteq> 0 then Some (- EINVAL_rpc, s)
     else do { (ret, s) \<leftarrow> demod_loop poll (s\<lparr>app_ept := True\<rparr>); Some (ret, terminate_rpc_app s) })"

text \<open>
  \<open>app\<close> ends with the first poll after which there is an error, a request to terminate or no endpoint, and leaves the endpoint
  unregistered.
\<close>

lemma demod_loop_ends:
  assumes "\<And>i. i < n \<Longrightarrow> poll (st i) = Some (st (Suc i))" and "\<And>i. 0 < i \<Longrightarrow> i < n \<Longrightarrow> err_cnt (st i) = 0 \<and> \<not> ept_deleted (st i) \<and> \<not> request_termination (st i)"
    and "0 < n" and "err_cnt (st n) \<noteq> 0 \<or> ept_deleted (st n) \<or> request_termination (st n)"
  shows "demod_loop poll (st 0) = Some (if err_cnt (st n) \<noteq> 0 then - EINVAL_rpc else 0, st n)"
  using assms
proof (induction n arbitrary: st)
  case (Suc n)
  show ?case
  proof (cases "n = 0")
    case True
    then show ?thesis using Suc(2) [of 0] Suc(5) by (subst demod_loop.simps) auto
  next
    case False
    have "demod_loop poll (st (Suc 0)) = Some (if err_cnt (st (Suc n)) \<noteq> 0 then - EINVAL_rpc else 0, st (Suc n))"
      using Suc(2-5) False by (intro Suc(1) [of "\<lambda>i. st (Suc i)"]) auto
    then show ?thesis using Suc(2) [of 0] Suc(3) [of 1] False by (subst demod_loop.simps) simp
  qed
qed simp

lemma demod_app_unregisters:
  "demod_app 0 poll s = Some (ret, s') \<Longrightarrow> \<not> ept_deleted s' \<Longrightarrow> \<not> app_ept s'"
  by (auto simp: demod_app_def terminate_rpc_app_def split: if_splits Option.bind_splits)
section \<open>Both sides\<close>

text \<open>
  The messages on their way to the master, the address of the buffer it receives them in and the state of its server. At every poll of the remote core the master may have
  had its turn (\<open>sched\<close>, by the number of the poll): then it has handled what was there, and its answers arrive.
\<close>

record 'fs link =
  shbuf :: nat
  to_master :: "bytes list"
  polls :: nat
  server :: "'fs rpc_server"

fun serve_all :: "'fs files \<Rightarrow> nat \<Rightarrow> bytes \<Rightarrow> bytes list \<Rightarrow> 'fs rpc_server \<Rightarrow> 'fs rpc_server option" where
  "serve_all files buf junk [] s = Some s"
| "serve_all files buf junk (m # ms) s = (case demod_endpoint_cb files buf junk m s of None \<Rightarrow> None | Some s \<Rightarrow> serve_all files buf junk ms s)"

definition link_send :: "bytes \<Rightarrow> 'fs link \<Rightarrow> int \<times> 'fs link" where
  "link_send msg l =
    (if MAX_BUF_LEN < length msg then (RPMSG_ERR_BUFF_SIZE, l) else (int (length msg), l\<lparr>to_master := to_master l @ [msg]\<rparr>))"

definition link_poll :: "(nat \<Rightarrow> bool) \<Rightarrow> 'fs files \<Rightarrow> bytes \<Rightarrow> 'fs link \<Rightarrow> (rpc_event list \<times> 'fs link) option" where
  "link_poll sched files junk l =
    (if sched (polls l) then do {
       s \<leftarrow> serve_all files (shbuf l) junk (to_master l) (server l);
       Some (map Message (sent s), l\<lparr>to_master := [], polls := polls l + 1, server := s\<lparr>sent := []\<rparr>\<rparr>) }
     else Some ([], l\<lparr>polls := polls l + 1\<rparr>))"

definition link_ops :: "(nat \<Rightarrow> bool) \<Rightarrow> 'fs files \<Rightarrow> bytes \<Rightarrow> 'fs link rpc_ops" where
  "link_ops sched files junk = \<lparr>op_send = link_send, op_poll = link_poll sched files junk, op_shutdown = (\<lambda>l. l)\<rparr>"

text \<open>Nothing is on its way, and both ends are up.\<close>

definition idle :: "'fs link rpmsg_rpc_data \<Rightarrow> bool" where
  "idle rpc \<longleftrightarrow> ept_open rpc \<and> to_master (peer rpc) = [] \<and> sent (server (peer rpc)) = [] \<and> err_cnt (server (peer rpc)) = 0 \<and>
     \<not> request_termination (server (peer rpc))"

abbreviation files_of :: "'fs link rpmsg_rpc_data \<Rightarrow> 'fs" where
  "files_of rpc \<equiv> fs (server (peer rpc))"

text \<open>A request the server answers with \<open>resp\<close> and the new state of the files.\<close>

definition answers :: "'fs files \<Rightarrow> bytes \<Rightarrow> bytes \<Rightarrow> 'fs \<Rightarrow> bytes \<Rightarrow> 'fs \<Rightarrow> bool" where
  "answers files junk req f resp f' \<longleftrightarrow> 4 \<le> length resp \<and> sc_id (syscall_at resp) \<noteq> TERM_SYSCALL_ID \<and>
     (\<forall>s buf. fs s = f \<longrightarrow> demod_endpoint_cb files buf junk req s = Some (s\<lparr>fs := f', sent := sent s @ [resp]\<rparr>))"

lemma response_arrives:
  fixes rpc :: "'fs link rpmsg_rpc_data"
  assumes "sched (polls (peer rpc) + d)" and "\<forall>i < d. \<not> sched (polls (peer rpc) + i)"
    and "ept_open rpc" and "nacked rpc" and "to_master (peer rpc) = [req]" and "sent (server (peer rpc)) = []" and "respbuf rpc = Some b"
    and "answers files junk req (files_of rpc) resp f'"
  shows "wait_response (link_ops sched files junk) rpc = Some (rpc\<lparr>nacked := True, respbuf := Some (take (length b) resp @ drop (length resp) b),
    peer := (peer rpc)\<lparr>to_master := [], polls := polls (peer rpc) + d + 1, server := (server (peer rpc))\<lparr>fs := f'\<rparr>\<rparr>\<rparr>)"
  using assms
proof (induction d arbitrary: rpc)
  case 0
  let ?s = "server (peer rpc)"
  have one: "serve_all files (shbuf (peer rpc)) junk [req] ?s = Some (?s\<lparr>fs := f', sent := [resp]\<rparr>)"
    using 0(6,8) by (simp add: answers_def)
  have "?s\<lparr>fs := f', sent := []\<rparr> = ?s\<lparr>fs := f'\<rparr>" using 0(6) by (cases "server (peer rpc)") simp
  then have "rpc_poll (link_ops sched files junk) rpc = Some (rpc\<lparr>nacked := False, respbuf := Some (take (length b) resp @ drop (length resp) b),
      peer := (peer rpc)\<lparr>to_master := [], polls := polls (peer rpc) + 1, server := ?s\<lparr>fs := f'\<rparr>\<rparr>\<rparr>)"
    using 0 one by (simp add: rpc_poll_def link_ops_def link_poll_def rpmsg_rpc_ept_cb_def answers_def)
  then show ?case using 0(4) by (subst wait_response.simps) (simp, subst wait_response.simps, simp)
next
  case (Suc d)
  have no: "\<not> sched (polls (peer rpc))" using Suc(3) by auto
  let ?r = "rpc\<lparr>peer := (peer rpc)\<lparr>polls := polls (peer rpc) + 1\<rparr>\<rparr>"
  have "rpc_poll (link_ops sched files junk) rpc = Some ?r"
    using no by (simp add: rpc_poll_def link_ops_def link_poll_def)
  then have "wait_response (link_ops sched files junk) rpc = wait_response (link_ops sched files junk) ?r"
    using Suc(5) by (subst wait_response.simps) simp
  also have "\<dots> = Some (?r\<lparr>nacked := True, respbuf := Some (take (length b) resp @ drop (length resp) b),
      peer := (peer ?r)\<lparr>to_master := [], polls := polls (peer ?r) + d + 1, server := (server (peer ?r))\<lparr>fs := f'\<rparr>\<rparr>\<rparr>)"
    using Suc(2-) by (intro Suc(1)) auto
  finally show ?case by simp
qed

lemma request_answered:
  assumes "idle rpc" and "length msg \<le> 496" and "answers files junk msg (files_of rpc) resp f'" and "\<forall>n. \<exists>d. sched (n + d)"
  shows "\<exists>rpc'. rpmsg_rpc_send (link_ops sched files junk) msg (Some b) rpc = Some (int (length msg), rpc') \<and>
    respbuf rpc' = Some (take (length b) resp @ drop (length resp) b) \<and> idle rpc' \<and> files_of rpc' = f'"
proof -
  define d where "d = (LEAST d. sched (polls (peer rpc) + d))"
  have d: "sched (polls (peer rpc) + d)" "\<forall>i < d. \<not> sched (polls (peer rpc) + i)"
    using assms(4) not_less_Least unfolding d_def by (auto intro: LeastI_ex)
  let ?r = "rpc\<lparr>respbuf := Some b, nacked := True, peer := (peer rpc)\<lparr>to_master := [msg]\<rparr>\<rparr>"
  let ?r' = "?r\<lparr>nacked := True, respbuf := Some (take (length b) resp @ drop (length resp) b),
    peer := (peer ?r)\<lparr>to_master := [], polls := polls (peer ?r) + d + 1, server := (server (peer ?r))\<lparr>fs := f'\<rparr>\<rparr>\<rparr>"
  have "wait_response (link_ops sched files junk) ?r = Some ?r'"
    using assms(1,3) d by (intro response_arrives) (simp_all add: idle_def)
  then have "rpmsg_rpc_send (link_ops sched files junk) msg (Some b) rpc = Some (int (length msg), ?r')"
    using assms(1,2) by (simp add: rpmsg_rpc_send_def ept_send_def link_ops_def link_send_def idle_def MAX_BUF_LEN_def)
  then show ?thesis using assms(1) by (intro exI [of _ ?r']) (simp_all add: idle_def)
qed

section \<open>Programs that use files\<close>

datatype file_call = Open_file bytes u32 u32 | Close_file u32 | Read_file u32 u32 | Write_file u32 bytes

text \<open>A call through the proxy: its number, and for a read the buffer, which held zeros before.\<close>

definition remote_call ::
  "'w rpc_ops \<Rightarrow> bytes \<Rightarrow> file_call \<Rightarrow> 'w rpmsg_rpc_data option \<Rightarrow> ((int \<times> bytes) \<times> 'w rpmsg_rpc_data option) option" where
  "remote_call ops junk c rpc =
    (case c of
       Open_file name flags mode \<Rightarrow> map_option (\<lambda>(r, rpc). ((r, []), rpc)) (rpc_open ops junk (Some name) flags mode rpc)
     | Close_file fd \<Rightarrow> map_option (\<lambda>(r, rpc). ((r, []), rpc)) (rpc_close ops junk fd rpc)
     | Read_file fd n \<Rightarrow> map_option (\<lambda>(r, b, rpc). ((r, the b), rpc)) (rpc_read ops junk fd (Some (replicate (unat n) 0)) n rpc)
     | Write_file fd bs \<Rightarrow> map_option (\<lambda>(r, rpc). ((r, []), rpc)) (rpc_write ops junk fd bs (of_nat (length bs)) rpc))"

fun remote_calls ::
  "'w rpc_ops \<Rightarrow> bytes \<Rightarrow> file_call list \<Rightarrow> 'w rpmsg_rpc_data option \<Rightarrow> ((int \<times> bytes) list \<times> 'w rpmsg_rpc_data option) option" where
  "remote_calls ops junk [] rpc = Some ([], rpc)"
| "remote_calls ops junk (c # cs) rpc = do {
     (r, rpc) \<leftarrow> remote_call ops junk c rpc;
     (rs, rpc) \<leftarrow> remote_calls ops junk cs rpc;
     Some (r # rs, rpc) }"

text \<open>The same calls on the files directly.\<close>

definition local_call :: "'fs files \<Rightarrow> file_call \<Rightarrow> 'fs \<Rightarrow> (int \<times> bytes) \<times> 'fs" where
  "local_call files c f =
    (case c of
       Open_file name flags mode \<Rightarrow> (let (r, f) = f_open files name flags mode f in ((sint r, []), f))
     | Close_file fd \<Rightarrow> (let (r, f) = f_close files fd f in ((sint r, []), f))
     | Read_file fd n \<Rightarrow> (let ((r, bs), f) = f_read files fd n f; b = replicate (unat n) 0
         in ((sint r, if 0 < sint r then bs @ drop (length bs) b else b), f))
     | Write_file fd bs \<Rightarrow> (let (r, f) = f_write files fd bs f in ((sint r, []), f)))"

fun local_calls :: "'fs files \<Rightarrow> file_call list \<Rightarrow> 'fs \<Rightarrow> (int \<times> bytes) list \<times> 'fs" where
  "local_calls files [] f = ([], f)"
| "local_calls files (c # cs) f = (let (r, f) = local_call files c f; (rs, f) = local_calls files cs f in (r # rs, f))"

text \<open>Calls that fit a message. Reading from standard input is left out: the server then reads as much as fits, not what was asked for.\<close>

fun call_fits :: "file_call \<Rightarrow> bool" where
  "call_fits (Open_file name flags mode) \<longleftrightarrow> 0 \<notin> set name \<and> length name \<le> 479"
| "call_fits (Close_file fd) \<longleftrightarrow> True"
| "call_fits (Read_file fd n) \<longleftrightarrow> fd \<noteq> 0 \<and> 0 < n \<and> n \<le> 480"
| "call_fits (Write_file fd bs) \<longleftrightarrow> length bs \<le> (if fd = 1 then 478 else 480)"

text \<open>POSIX: a read returns the number of bytes read, at most as many as were asked for, or -1.\<close>

definition posix_read :: "'fs files \<Rightarrow> bool" where
  "posix_read files \<longleftrightarrow> (\<forall>fd n f r bs f'. f_read files fd n f = ((r, bs), f') \<longrightarrow>
     (if 0 < sint r then unat r = length bs \<and> length bs \<le> unat n else bs = []))"

lemma cb_handle:
  "length req \<le> 496 \<Longrightarrow> 16 \<le> length req \<Longrightarrow> handle_rpc files (req @ drop (length req) junk) s = Some (0, s') \<Longrightarrow>
    demod_endpoint_cb files addr junk req s = Some s'"
  by (simp add: demod_endpoint_cb_def RPC_BUFF_SIZE_def)

lemma length_blank [simp]: "4 \<le> length junk \<Longrightarrow> length (blank_response junk) = length junk"
  by (simp add: blank_response_def)

lemma number_call:
  assumes "idle rpc" and "length msg \<le> 496" and "answers files junk' msg (files_of rpc) (syscall_bytes r) f'" and "\<forall>n. \<exists>d. sched (n + d)"
    and "length junk = 496"
  shows "\<exists>rpc'. rpmsg_rpc_send (link_ops sched files junk') msg (Some (blank_response (take 16 junk))) rpc = Some (int (length msg), rpc') \<and>
    number_of (sc_id r) (int (length msg)) rpc' = sint (int_field1 r) \<and> idle rpc' \<and> files_of rpc' = f'"
proof -
  obtain rpc' where "rpmsg_rpc_send (link_ops sched files junk') msg (Some (blank_response (take 16 junk))) rpc = Some (int (length msg), rpc')"
    "respbuf rpc' = Some (take (length (blank_response (take 16 junk))) (syscall_bytes r) @ drop (length (syscall_bytes r)) (blank_response (take 16 junk)))"
    "idle rpc'" "files_of rpc' = f'"
    using request_answered [OF assms(1-4)] by blast
  then show ?thesis using assms(5) by (simp add: number_of_def Let_def)
qed

text \<open>What the server answers to each call.\<close>

lemma answers_open:
  assumes "f_open files name flags mode f = (fd, f')" and "0 \<notin> set name" and "length name \<le> 479" and "sc_id c = OPEN_SYSCALL_ID"
    and "int_field1 c = flags" and "int_field2 c = mode"
  shows "answers files junk (syscall_bytes c @ name @ [0]) f
    (syscall_bytes \<lparr>sc_id = OPEN_SYSCALL_ID, int_field1 = fd, int_field2 = 0, data_len = 0\<rparr>) f'"
proof -
  have "cstring (name @ 0 # rest) = Some name" for rest using assms(2) by (auto simp: cstring_def takeWhile_append)
  then show ?thesis
    using assms unfolding answers_def
    by (auto simp: syscall_ids handle_rpc_def handle_open_def send_result_def server_send_def MAX_BUF_LEN_def Let_def intro!: cb_handle)
qed

lemma answers_close:
  assumes "f_close files fd f = (r, f')" and "sc_id c = CLOSE_SYSCALL_ID" and "int_field1 c = fd"
  shows "answers files junk (syscall_bytes c) f
    (syscall_bytes \<lparr>sc_id = CLOSE_SYSCALL_ID, int_field1 = r, int_field2 = 0, data_len = 0\<rparr>) f'"
  using assms unfolding answers_def
  by (auto simp: syscall_ids handle_rpc_def handle_close_def send_result_def server_send_def MAX_BUF_LEN_def Let_def intro!: cb_handle)

lemma answers_write:
  assumes "f_write files fd bs f = (r, f')" and "sc_id c = WRITE_SYSCALL_ID" and "int_field1 c = fd" and "int_field2 c = of_nat (length bs)"
    and "length bs + length t \<le> 480"
  shows "answers files junk (syscall_bytes c @ bs @ t) f
    (syscall_bytes \<lparr>sc_id = WRITE_SYSCALL_ID, int_field1 = r, int_field2 = 0, data_len = 0\<rparr>) f'"
proof -
  have "unat (of_nat (length bs) :: u32) = length bs" using assms(5) by (simp add: unat_of_nat)
  then show ?thesis
    using assms unfolding answers_def
    by (auto simp: syscall_ids handle_rpc_def handle_write_def send_result_def server_send_def MAX_BUF_LEN_def RPC_BUFF_SIZE_def Let_def intro!: cb_handle)
qed

lemma answers_read:
  assumes "f_read files fd n f = ((r, bs), f')" and "posix_read files" and "fd \<noteq> 0" and "n \<le> 480" and "sc_id c = READ_SYSCALL_ID"
    and "int_field1 c = fd" and "int_field2 c = n"
  shows "answers files junk (syscall_bytes c) f
    (syscall_bytes \<lparr>sc_id = READ_SYSCALL_ID, int_field1 = r, int_field2 = 0, data_len = r\<rparr> @ bs) f'"
proof -
  have p: "if 0 < sint r then unat r = length bs \<and> length bs \<le> unat n else bs = []"
    using assms(1,2) unfolding posix_read_def by blast
  have "unat n \<le> 480" using assms(4) by (simp add: word_le_nat_alt)
  then have "length bs \<le> 480" "take (if 0 < sint r then unat r else 0) bs = bs" using p by (auto split: if_splits)
  then show ?thesis
    using assms unfolding answers_def
    by (auto simp: syscall_ids handle_rpc_def handle_read_def send_result_def server_send_def MAX_BUF_LEN_def RPC_BUFF_SIZE_def Let_def intro!: cb_handle)
qed

lemma remote_call_agrees:
  assumes "idle rpc" and "\<forall>n. \<exists>d. sched (n + d)" and "posix_read files" and "length junk = 496" and "call_fits c"
  shows "\<exists>r rpc' f'. remote_call (link_ops sched files junk') junk c (Some rpc) = Some (r, Some rpc') \<and> idle rpc' \<and>
    local_call files c (files_of rpc) = (r, f') \<and> files_of rpc' = f'"
proof (cases c)
  case (Open_file name flags mode)
  obtain fd f' where o: "f_open files name flags mode (files_of rpc) = (fd, f')" by fastforce
  let ?c = "\<lparr>sc_id = OPEN_SYSCALL_ID, int_field1 = flags, int_field2 = mode, data_len = of_nat (length name + 1)\<rparr>"
  have fit: "0 \<notin> set name" "length name \<le> 479" using assms(5) Open_file by simp_all
  have len: "length (syscall_bytes ?c @ name @ [0]) \<le> 496" using fit by simp
  have "answers files junk' (syscall_bytes ?c @ name @ [0]) (files_of rpc)
      (syscall_bytes \<lparr>sc_id = OPEN_SYSCALL_ID, int_field1 = fd, int_field2 = 0, data_len = 0\<rparr>) f'"
    by (rule answers_open [OF o fit]) simp_all
  from number_call [OF assms(1) len this assms(2,4)]
  obtain rpc' where "rpmsg_rpc_send (link_ops sched files junk') (syscall_bytes ?c @ name @ [0]) (Some (blank_response (take 16 junk))) rpc =
      Some (int (length (syscall_bytes ?c @ name @ [0])), rpc')"
    "number_of OPEN_SYSCALL_ID (int (length (syscall_bytes ?c @ name @ [0]))) rpc' = sint fd" "idle rpc'" "files_of rpc' = f'" by auto
  then show ?thesis using fit(2) Open_file o
    by (intro exI [of _ "(sint fd, [])"] exI [of _ rpc'] exI [of _ f'])
      (simp add: remote_call_def rpc_open_def local_call_def MAX_BUF_LEN_def)
next
  case (Close_file fd)
  obtain r f' where o: "f_close files fd (files_of rpc) = (r, f')" by fastforce
  let ?c = "\<lparr>sc_id = CLOSE_SYSCALL_ID, int_field1 = fd, int_field2 = 0, data_len = 0\<rparr>"
  have "answers files junk' (syscall_bytes ?c) (files_of rpc)
      (syscall_bytes \<lparr>sc_id = CLOSE_SYSCALL_ID, int_field1 = r, int_field2 = 0, data_len = 0\<rparr>) f'"
    by (rule answers_close [OF o]) simp_all
  from number_call [OF assms(1) _ this assms(2,4)]
  obtain rpc' where "rpmsg_rpc_send (link_ops sched files junk') (syscall_bytes ?c) (Some (blank_response (take 16 junk))) rpc = Some (16, rpc')"
    "number_of CLOSE_SYSCALL_ID 16 rpc' = sint r" "idle rpc'" "files_of rpc' = f'" by auto
  then show ?thesis using Close_file o
    by (intro exI [of _ "(sint r, [])"] exI [of _ rpc'] exI [of _ f']) (simp add: remote_call_def rpc_close_def local_call_def)
next
  case (Write_file fd bs)
  obtain r f' where o: "f_write files fd bs (files_of rpc) = (r, f')" by fastforce
  let ?n = "if fd = 1 then 1 else 0 :: nat"
  let ?c = "\<lparr>sc_id = WRITE_SYSCALL_ID, int_field1 = fd, int_field2 = of_nat (length bs), data_len = of_nat (length bs) + of_nat ?n\<rparr>"
  let ?t = "take ?n (drop (16 + length bs) junk)"
  let ?m = "syscall_bytes ?c @ bs @ ?t"
  have fit: "length bs \<le> (if fd = 1 then 478 else 480)" using assms(5) Write_file by simp
  then have l: "unat (of_nat (length bs) :: u32) = length bs" by (simp add: unat_of_nat split: if_splits)
  have len: "length ?m \<le> 496" "length bs + length ?t \<le> 480" using fit by (simp_all split: if_splits)
  have "answers files junk' ?m (files_of rpc) (syscall_bytes \<lparr>sc_id = WRITE_SYSCALL_ID, int_field1 = r, int_field2 = 0, data_len = 0\<rparr>) f'"
    by (rule answers_write [OF o _ _ _ len(2)]) simp_all
  from number_call [OF assms(1) len(1) this assms(2,4)]
  obtain rpc' where run: "rpmsg_rpc_send (link_ops sched files junk') ?m (Some (blank_response (take 16 junk))) rpc = Some (int (length ?m), rpc')"
    "number_of WRITE_SYSCALL_ID (int (length ?m)) rpc' = sint r" "idle rpc'" "files_of rpc' = f'" by (auto simp del: length_append)
  have "rpc_write (link_ops sched files junk') junk fd bs (of_nat (length bs)) (Some rpc) = Some (sint r, Some rpc')"
    using run(1,2) fit l by (cases "fd = 1") (simp_all add: rpc_write_def MAX_BUF_LEN_def Let_def)
  then show ?thesis using Write_file o run(3,4)
    by (intro exI [of _ "(sint r, [])"] exI [of _ rpc'] exI [of _ f']) (simp add: remote_call_def local_call_def)
next
  case (Read_file fd n)
  obtain r bs f' where o: "f_read files fd n (files_of rpc) = ((r, bs), f')" by (metis surj_pair)
  let ?c = "\<lparr>sc_id = READ_SYSCALL_ID, int_field1 = fd, int_field2 = n, data_len = 0\<rparr>"
  let ?r = "\<lparr>sc_id = READ_SYSCALL_ID, int_field1 = r, int_field2 = 0, data_len = r\<rparr>"
  have fit: "fd \<noteq> 0" "0 < n" "n \<le> 480" "n \<noteq> 0" using assms(5) Read_file by auto
  have p: "if 0 < sint r then unat r = length bs \<and> length bs \<le> unat n else bs = []"
    using assms(3) o unfolding posix_read_def by blast
  have n: "unat n \<le> 480" using fit(3) by (simp add: word_le_nat_alt)
  have "answers files junk' (syscall_bytes ?c) (files_of rpc) (syscall_bytes ?r @ bs) f'"
    by (rule answers_read [OF o assms(3) fit(1,3)]) simp_all
  from request_answered [OF assms(1) _ this assms(2), of "blank_response junk"]
  obtain rpc' where run: "rpmsg_rpc_send (link_ops sched files junk') (syscall_bytes ?c) (Some (blank_response junk)) rpc = Some (16, rpc')"
    "respbuf rpc' = Some (take 496 (syscall_bytes ?r @ bs) @ drop (length (syscall_bytes ?r @ bs)) (blank_response junk))"
    "idle rpc'" "files_of rpc' = f'" using assms(4) by auto
  have lb: "length bs \<le> 480" using p n by (auto split: if_splits)
  have buf: "respbuf rpc' = Some (syscall_bytes ?r @ bs @ drop (16 + length bs) (blank_response junk))"
    using run(2) lb by simp
  have sn: "sint n = int (unat n)" using n by (intro sint_small) simp
  have ln: "length (replicate (unat n) (0 :: u8)) = unat n" by simp
  let ?b = "if 0 < sint r then bs @ drop (length bs) (replicate (unat n) 0) else replicate (unat n) 0"
  have "rpc_read (link_ops sched files junk') junk fd (Some (replicate (unat n) 0)) n (Some rpc) = Some (sint r, Some ?b, Some rpc')"
  proof (cases "0 < sint r")
    case True
    then have u: "unat r = length bs" "length bs \<le> unat n" using p by simp_all
    then have sr: "sint r = int (length bs)" using n sint_small [of r] by simp
    have nlt: "\<not> uint n < int (length bs)" using u(2) by (simp only: uint_nat of_nat_less_iff not_less)
    show ?thesis using True u sr sn nlt n run(1) fit(4) buf by (simp add: rpc_read_def Let_def)
  next
    case False
    then show ?thesis using run(1) fit(4) buf by (simp add: rpc_read_def Let_def)
  qed
  then show ?thesis using Read_file o run(3,4)
    by (intro exI [of _ "(sint r, ?b)"] exI [of _ rpc'] exI [of _ f']) (simp add: remote_call_def local_call_def Let_def)
qed


text \<open>One file that is appended to and read from the start, on a master that has its turn at every third poll.\<close>

definition one_file :: "bytes files" where
  "one_file = \<lparr>f_open = (\<lambda>name flags mode f. (3, f)), f_close = (\<lambda>fd f. (0, f)),
     f_read = (\<lambda>fd n f. ((of_nat (min (unat n) (min (length f) 1000)), take (min (unat n) (min (length f) 1000)) f), f)),
     f_write = (\<lambda>fd bs f. (of_nat (length bs), f @ bs))\<rparr>"

definition demo_rpc :: "bytes link rpmsg_rpc_data" where
  "demo_rpc = \<lparr>ept_open = True, ept_destroyed = False, nacked = True, respbuf = None,
     peer = \<lparr>shbuf = 0x3ED80000, to_master = [], polls = 0, server = \<lparr>err_cnt = 0, request_termination = False, ept_deleted = False, app_ept = True, sent = [], fs = []\<rparr>\<rparr>\<rparr>"


end
