(* ===== verification/Message_Wire.thy ===== *)
theory Message_Wire
  imports Rpc_Proxy
begin

text \<open>
  Two programs that talk over one RPMsg endpoint, as the example programs of OpenAMP do: a client that sends, polls and counts, and a
  service that runs on the other core. This theory holds what the examples share: the messages on their way, the turns of the other
  core, the polling loops, and the contract of a service that answers every message (locale \<open>responder\<close>).

  A callback that fails (an access outside a buffer) is \<open>None\<close>, a loop without end too.
\<close>

section \<open>Messages on their way\<close>

text \<open>
  \<open>queue\<close> are the messages the other core has not handled, the oldest first, in at most \<open>buffers\<close> buffers. \<open>turns\<close> counts the polls; with the poll number
  \<open>bound\<close> the announcement of the service arrives. \<open>remote\<close> is the state of the program on the other core.
\<close>

record 'p wire =
  queue :: "bytes list"
  buffers :: nat
  turns :: nat
  bound :: nat
  remote :: 'p

text \<open>Sending without waiting. (A waiting send does the same when a buffer is free.)\<close>

definition wire_send :: "bytes \<Rightarrow> 'p wire \<Rightarrow> int \<times> 'p wire" where
  "wire_send m w =
    (if MAX_BUF_LEN < length m then (RPMSG_ERR_BUFF_SIZE, w)
     else if buffers w \<le> length (queue w) then (RPMSG_ERR_NO_BUFF, w)
     else (int (length m), w\<lparr>queue := queue w @ [m]\<rparr>))"

text \<open>
  A service: whether its endpoint is registered, its callback, which gives what it sends, what its main loop does after a poll (with
  the announcement that the endpoint is destroyed, if it does that), and its callback for the end of the client.
\<close>

record 'p service =
  registered :: "'p \<Rightarrow> bool"
  on_request :: "bytes \<Rightarrow> 'p \<Rightarrow> (rpc_event list \<times> 'p) option"
  after_poll :: "'p \<Rightarrow> rpc_event list \<times> 'p"
  peer_gone :: "'p \<Rightarrow> 'p"

text \<open>The state of the services of the examples: a request to end, and their endpoint.\<close>

record service_state =
  shutdown_req :: bool
  s_lept :: bool

fun serve_queue :: "'p service \<Rightarrow> bytes list \<Rightarrow> 'p \<Rightarrow> (rpc_event list \<times> 'p) option" where
  "serve_queue S [] p = Some ([], p)"
| "serve_queue S (m # ms) p =
    (if \<not> registered S p then Some ([], p)
     else do { (es, p) \<leftarrow> on_request S m p; (es', p) \<leftarrow> serve_queue S ms p; Some (es @ es', p) })"

definition service_turn :: "'p service \<Rightarrow> bytes list \<Rightarrow> 'p \<Rightarrow> (rpc_event list \<times> 'p) option" where
  "service_turn S ms p = do { (es, p) \<leftarrow> serve_queue S ms p; let (es', p) = after_poll S p; Some (es @ es', p) }"

text \<open>A client: its endpoint and its callbacks. A destroyed endpoint gets no more of them.\<close>

record 'c client =
  endpoint :: "'c \<Rightarrow> bool"
  on_message :: "bytes \<Rightarrow> 'c \<Rightarrow> 'c option"
  on_unbind :: "'c \<Rightarrow> 'c"

fun deliver :: "'c client \<Rightarrow> rpc_event list \<Rightarrow> 'c \<Rightarrow> 'c option" where
  "deliver C [] c = Some c"
| "deliver C (e # es) c =
    (if \<not> endpoint C c then Some c
     else case e of Message m \<Rightarrow> do { c \<leftarrow> on_message C m c; deliver C es c } | Unbind \<Rightarrow> deliver C es (on_unbind C c))"

text \<open>A poll of the client. In the polls of \<open>sched\<close> the other core has had its turn, and what it has sent arrives.\<close>

definition wire_poll :: "(nat \<Rightarrow> bool) \<Rightarrow> 'p service \<Rightarrow> 'c client \<Rightarrow> 'c \<times> 'p wire \<Rightarrow> ('c \<times> 'p wire) option" where
  "wire_poll sched S C = (\<lambda>(c, w).
     if sched (turns w) then do {
       (es, p) \<leftarrow> service_turn S (queue w) (remote w);
       c \<leftarrow> deliver C es c;
       Some (c, w\<lparr>queue := [], turns := turns w + 1, remote := p\<rparr>) }
     else Some (c, w\<lparr>turns := turns w + 1\<rparr>))"

text \<open>\<open>do platform_poll while (\<dots>)\<close> and \<open>while (\<dots>) platform_poll\<close>.\<close>

partial_function (option) poll_until :: "('s \<Rightarrow> 's option) \<Rightarrow> ('s \<Rightarrow> bool) \<Rightarrow> 's \<Rightarrow> 's option" where
  "poll_until poll stop s = do { s \<leftarrow> poll s; if stop s then Some s else poll_until poll stop s }"

definition wait_until :: "('s \<Rightarrow> 's option) \<Rightarrow> ('s \<Rightarrow> bool) \<Rightarrow> 's \<Rightarrow> 's option" where
  "wait_until poll stop s = (if stop s then Some s else poll_until poll stop s)"

text \<open>Waiting until the endpoint knows its destination.\<close>

definition wait_bound :: "(nat \<Rightarrow> bool) \<Rightarrow> 'p service \<Rightarrow> 'c client \<Rightarrow> 'c \<times> 'p wire \<Rightarrow> ('c \<times> 'p wire) option" where
  "wait_bound sched S C = wait_until (wire_poll sched S C) (\<lambda>(c, w). bound w \<le> turns w)"

text \<open>The client destroys its endpoint: this is announced to the service.\<close>

definition announce_gone :: "'p service \<Rightarrow> 'p wire \<Rightarrow> 'p wire" where
  "announce_gone S w = w\<lparr>remote := (if registered S (remote w) then peer_gone S (remote w) else remote w)\<rparr>"

text \<open>The other core gets its turn again and again.\<close>

definition fair :: "(nat \<Rightarrow> bool) \<Rightarrow> bool" where
  "fair sched \<longleftrightarrow> (\<forall>n. \<exists>d. sched (n + d))"

lemma fair_next:
  assumes "fair sched"
  obtains d where "sched (n + d)" and "\<forall>i < d. \<not> sched (n + i)"
proof -
  have "\<exists>d. sched (n + d)" using assms by (simp add: fair_def)
  then have "sched (n + (LEAST d. sched (n + d)))" by (rule LeastI_ex)
  moreover have "\<forall>i < (LEAST d. sched (n + d)). \<not> sched (n + i)" using not_less_Least by blast
  ultimately show thesis using that by blast
qed

section \<open>Polling\<close>

text \<open>A loop of polls ends with the first state in which its condition holds.\<close>

lemma poll_until_ends:
  assumes "\<And>i. i < n \<Longrightarrow> poll (st i) = Some (st (Suc i))" and "\<And>i. 0 < i \<Longrightarrow> i < n \<Longrightarrow> \<not> stop (st i)" and "0 < n" and "stop (st n)"
  shows "poll_until poll stop (st 0) = Some (st n)"
  using assms
proof (induction n arbitrary: st)
  case (Suc n)
  show ?case
  proof (cases "n = 0")
    case True
    then show ?thesis using Suc(2) [of 0] Suc(5) by (subst poll_until.simps) auto
  next
    case False
    have "poll_until poll stop (st (Suc 0)) = Some (st (Suc n))"
      using Suc(2-5) False by (intro Suc(1) [of "\<lambda>i. st (Suc i)"]) auto
    then show ?thesis using Suc(2) [of 0] Suc(3) [of 1] False by (subst poll_until.simps) simp
  qed
qed simp

text \<open>Polls without a turn of the other core change nothing but the count.\<close>

lemma poll_until_turn:
  assumes "\<forall>i < d. \<not> sched (turns w + i)" and "\<not> stop c"
  shows "poll_until (wire_poll sched S C) (stop \<circ> fst) (c, w) = poll_until (wire_poll sched S C) (stop \<circ> fst) (c, w\<lparr>turns := turns w + d\<rparr>)"
  using assms(1)
proof (induction d)
  case (Suc d)
  let ?w = "w\<lparr>turns := turns w + d\<rparr>"
  have "poll_until (wire_poll sched S C) (stop \<circ> fst) (c, w) = poll_until (wire_poll sched S C) (stop \<circ> fst) (c, ?w)"
    using Suc by (simp add: o_def)
  also have "\<dots> = poll_until (wire_poll sched S C) (stop \<circ> fst) (c, w\<lparr>turns := turns w + Suc d\<rparr>)"
    using Suc(2) assms(2) by (subst poll_until.simps) (simp add: wire_poll_def)
  finally show ?case .
qed simp

lemma wait_bound_ends:
  assumes "queue w = []" and "after_poll S (remote w) = ([], remote w)"
  shows "\<exists>n. wait_bound sched S C (c, w) = Some (c, w\<lparr>turns := n\<rparr>)"
  using assms
proof (induction "bound w - turns w" arbitrary: w)
  case 0
  then show ?case by (intro exI [of _ "turns w"]) (simp add: wait_bound_def wait_until_def)
next
  case (Suc k)
  let ?w = "w\<lparr>turns := turns w + 1\<rparr>"
  have e: "w\<lparr>queue := [], turns := turns w + 1, remote := remote w\<rparr> = ?w" using Suc(3) by (cases w) simp
  then have "wire_poll sched S C (c, w) = Some (c, ?w)" using Suc(3,4) by (simp add: wire_poll_def service_turn_def)
  then have "wait_bound sched S C (c, w) = wait_bound sched S C (c, ?w)"
    using Suc(2) unfolding wait_bound_def wait_until_def by (subst poll_until.simps) simp
  moreover obtain n where "wait_bound sched S C (c, ?w) = Some (c, ?w\<lparr>turns := n\<rparr>)" using Suc(1) [of ?w] Suc(2-4) by fastforce
  ultimately show ?case by auto
qed

section \<open>Services that answer\<close>

text \<open>While \<open>up k\<close> holds the service answers each of the next \<open>k\<close> good messages with one message.\<close>

locale responder =
  fixes S :: "'p service" and good :: "bytes \<Rightarrow> bool" and answer :: "bytes \<Rightarrow> bytes" and up :: "nat \<Rightarrow> 'p \<Rightarrow> bool"
  assumes up_registered: "up (Suc k) p \<Longrightarrow> registered S p"
    and up_idle: "up k p \<Longrightarrow> after_poll S p = ([], p)"
    and answers_good: "up (Suc k) p \<Longrightarrow> good m \<Longrightarrow> \<exists>p'. on_request S m p = Some ([Message (answer m)], p') \<and> up k p'"
begin

lemma queue_answered:
  "up (length ms + k) p \<Longrightarrow> \<forall>m \<in> set ms. good m \<Longrightarrow>
    \<exists>p'. serve_queue S ms p = Some (map (\<lambda>m. Message (answer m)) ms, p') \<and> up k p'"
proof (induction ms arbitrary: p)
  case (Cons m ms)
  obtain p1 where one: "on_request S m p = Some ([Message (answer m)], p1)" "up (length ms + k) p1"
    using answers_good [of "length ms + k" p m] Cons(2,3) by auto
  obtain p' where "serve_queue S ms p1 = Some (map (\<lambda>m. Message (answer m)) ms, p')" "up k p'" using Cons(1) one(2) Cons(3) by auto
  then show ?case using one(1) up_registered [of "length ms + k" p] Cons(2) by auto
qed simp

lemma turn_answers:
  assumes "sched (turns w)" and "up (length (queue w) + k) (remote w)" and "\<forall>m \<in> set (queue w). good m"
    and "deliver C (map (\<lambda>m. Message (answer m)) (queue w)) c = Some c'"
  obtains p' where "wire_poll sched S C (c, w) = Some (c', w\<lparr>queue := [], turns := turns w + 1, remote := p'\<rparr>)" and "up k p'"
proof -
  obtain p' where "serve_queue S (queue w) (remote w) = Some (map (\<lambda>m. Message (answer m)) (queue w), p')" "up k p'"
    using queue_answered [OF assms(2,3)] by blast
  then show thesis using assms(1,4) up_idle that by (simp add: wire_poll_def service_turn_def)
qed

text \<open>A loop of polls that goes on until the answers to all messages on their way have arrived, and ends then.\<close>

lemma answers_arrive:
  assumes "fair sched" and "up (length (queue w) + k) (remote w)" and "\<forall>m \<in> set (queue w). good m" and "\<not> stop c"
    and "deliver C (map (\<lambda>m. Message (answer m)) (queue w)) c = Some c'" and "stop c'"
  obtains n p' where "poll_until (wire_poll sched S C) (stop \<circ> fst) (c, w) = Some (c', w\<lparr>queue := [], turns := n, remote := p'\<rparr>)" and "up k p'"
proof -
  obtain d where d: "sched (turns w + d)" "\<forall>i < d. \<not> sched (turns w + i)" using fair_next [OF assms(1)] .
  let ?w = "w\<lparr>turns := turns w + d\<rparr>"
  obtain p' where one: "wire_poll sched S C (c, ?w) = Some (c', ?w\<lparr>queue := [], turns := turns ?w + 1, remote := p'\<rparr>)" and up: "up k p'"
    by (rule turn_answers [of sched ?w k C c c']) (use d(1) assms(2,3,5) in simp_all)
  have "poll_until (wire_poll sched S C) (stop \<circ> fst) (c, w) = poll_until (wire_poll sched S C) (stop \<circ> fst) (c, ?w)"
    by (rule poll_until_turn [where stop = stop, OF d(2) assms(4)])
  also have "\<dots> = Some (c', w\<lparr>queue := [], turns := turns w + d + 1, remote := p'\<rparr>)"
    using one assms(6) by (subst poll_until.simps) simp
  finally show thesis using that up by blast
qed

text \<open>One message and its answer.\<close>

lemma round_trip:
  assumes "fair sched" and "up (Suc k) (remote w)" and "queue w = []" and "0 < buffers w" and "good m" and "length m \<le> 496" and "\<not> stop c"
    and "endpoint C c" and "on_message C (answer m) c = Some c'" and "stop c'"
  obtains n p' where "wire_send m w = (int (length m), w\<lparr>queue := [m]\<rparr>)"
    and "poll_until (wire_poll sched S C) (stop \<circ> fst) (c, w\<lparr>queue := [m]\<rparr>) = Some (c', w\<lparr>turns := n, remote := p'\<rparr>)" and "up k p'"
proof -
  have sent: "wire_send m w = (int (length m), w\<lparr>queue := [m]\<rparr>)" using assms(3,4,6) by (simp add: wire_send_def MAX_BUF_LEN_def)
  obtain n p' where run: "poll_until (wire_poll sched S C) (stop \<circ> fst) (c, w\<lparr>queue := [m]\<rparr>) =
      Some (c', w\<lparr>queue := [m]\<rparr>\<lparr>queue := [], turns := n, remote := p'\<rparr>)" and up: "up k p'"
    by (rule answers_arrive [of sched "w\<lparr>queue := [m]\<rparr>" k stop c C c']) (use assms in simp_all)
  have "w\<lparr>queue := [m]\<rparr>\<lparr>queue := [], turns := n, remote := p'\<rparr> = w\<lparr>turns := n, remote := p'\<rparr>" using assms(3) by (cases w) simp
  then show thesis using that sent run up by simp
qed

end

end
