(* ===== verification/Matrix_Demo.thy ===== *)
theory Matrix_Demo
  imports Message_Wire
begin

text \<open>
  The matrix example of the firmware (\<open>openamp/matrix_multiply.c\<close>, \<open>matrix_multiplyd.c\<close>): the client sends pairs of random matrices, the
  service on the other core multiplies them, and the client compares the result with its own. The theorem runs both programs.
\<close>

section \<open>Matrices\<close>

definition MAX_SIZE :: nat where "MAX_SIZE = 6"
definition SHUTDOWN_MSG :: u32 where "SHUTDOWN_MSG = 0xEF56A55A"

text \<open>The elements are row after row.\<close>

record matrix =
  m_size :: u32
  elements :: "u32 list"

definition element :: "matrix \<Rightarrow> nat \<Rightarrow> nat \<Rightarrow> u32 option" where
  "element m i j = (if i < MAX_SIZE \<and> j < MAX_SIZE then Some (elements m ! (MAX_SIZE * i + j)) else None)"

definition set_element :: "nat \<Rightarrow> nat \<Rightarrow> u32 \<Rightarrow> matrix \<Rightarrow> matrix option" where
  "set_element i j x m = (if i < MAX_SIZE \<and> j < MAX_SIZE then Some (m\<lparr>elements := (elements m)[MAX_SIZE * i + j := x]\<rparr>) else None)"

definition matrix_wf :: "matrix \<Rightarrow> bool" where
  "matrix_wf m \<longleftrightarrow> length (elements m) = 36 \<and> m_size m \<le> 6"

text \<open>The structure in memory.\<close>

definition matrix_bytes :: "matrix \<Rightarrow> bytes" where
  "matrix_bytes m = le_bytes 4 (m_size m) @ concat (map (le_bytes 4) (elements m))"

definition matrix_at :: "bytes \<Rightarrow> matrix" where
  "matrix_at b = \<lparr>m_size = le_word (take 4 b), elements = map (\<lambda>k. le_word (take 4 (drop (4 + 4 * k) b))) [0..<36]\<rparr>"

lemma length_words [simp]: "length (concat (map (le_bytes 4) xs)) = 4 * length xs"
  by (induction xs) simp_all

lemma nth_words: "k < length xs \<Longrightarrow> take 4 (drop (4 * k) (concat (map (le_bytes 4) xs) @ rest)) = le_bytes 4 (xs ! k)"
proof (induction xs arbitrary: k)
  case (Cons x xs)
  then show ?case by (cases k) simp_all
qed simp

lemma length_matrix_bytes: "length (elements m) = 36 \<Longrightarrow> length (matrix_bytes m) = 148"
  by (simp add: matrix_bytes_def)

lemma matrix_roundtrip:
  assumes "length (elements m) = 36"
  shows "matrix_at (matrix_bytes m @ rest) = m"
proof -
  have "le_word (take 4 (drop (4 + 4 * k) (matrix_bytes m @ rest))) = elements m ! k" if "k < 36" for k
    using that nth_words [of k "elements m" rest] assms by (simp add: matrix_bytes_def add.commute)
  then have "elements (matrix_at (matrix_bytes m @ rest)) = elements m"
    using assms by (intro nth_equalityI) (simp_all add: matrix_at_def)
  then show ?thesis by (simp add: matrix_at_def matrix_bytes_def)
qed

lemma length_matrix_at [simp]: "length (elements (matrix_at b)) = 36"
  by (simp add: matrix_at_def)

lemma matrix_at_append: "length b = 148 \<Longrightarrow> matrix_at (b @ rest) = matrix_at b"
  by (simp add: matrix_at_def)

section \<open>Multiplication\<close>

fun for_each :: "('i \<Rightarrow> 's \<Rightarrow> 's option) \<Rightarrow> 'i list \<Rightarrow> 's \<Rightarrow> 's option" where
  "for_each f [] s = Some s"
| "for_each f (i # is) s = do { s \<leftarrow> f i s; for_each f is s }"

text \<open>The code has this function twice, as \<open>matrix_multiply\<close> of the client and \<open>Matrix_Multiply\<close> of the service.\<close>

definition multiply_step :: "matrix \<Rightarrow> matrix \<Rightarrow> nat \<Rightarrow> nat \<Rightarrow> nat \<Rightarrow> matrix \<Rightarrow> matrix option" where
  "multiply_step m n i j k r = do {
     x \<leftarrow> element m i k;
     y \<leftarrow> element n k j;
     z \<leftarrow> element r i j;
     set_element i j (z + x * y) r }"

definition Matrix_Multiply :: "matrix \<Rightarrow> matrix \<Rightarrow> matrix option" where
  "Matrix_Multiply m n =
    (let r = \<lparr>m_size = m_size m, elements = replicate 36 0\<rparr>
     in for_each (\<lambda>i. for_each (\<lambda>j. for_each (\<lambda>k. multiply_step m n i j k) [0..<unat (m_size r)]) [0..<unat (m_size n)])
          [0..<unat (m_size m)] r)"

definition matrix_multiply :: "matrix \<Rightarrow> matrix \<Rightarrow> matrix option" where
  "matrix_multiply m n =
    (let r = \<lparr>m_size = m_size m, elements = replicate 36 0\<rparr>
     in for_each (\<lambda>i. for_each (\<lambda>j. for_each (\<lambda>k. multiply_step m n i j k) [0..<unat (m_size r)]) [0..<unat (m_size n)])
          [0..<unat (m_size m)] r)"

text \<open>Element \<open>i, j\<close> of the product, on 32-bit words.\<close>

definition entry :: "matrix \<Rightarrow> nat \<Rightarrow> nat \<Rightarrow> u32" where
  "entry m i j = elements m ! (6 * i + j)"

definition product_entry :: "matrix \<Rightarrow> matrix \<Rightarrow> nat \<Rightarrow> nat \<Rightarrow> u32" where
  "product_entry m n i j = (\<Sum>k < unat (m_size m). entry m i k * entry n k j)"

lemma position_inj:
  assumes "b < 6" and "j < 6"
  shows "6 * a + b = 6 * i + j \<longleftrightarrow> a = i \<and> b = (j :: nat)"
  using assms by presburger

lemma multiply_inner:
  assumes "i < 6" and "j < 6" and "\<forall>k \<in> set ks. k < 6" and "length (elements r) = 36"
  shows "for_each (\<lambda>k. multiply_step m n i j k) ks r =
    Some (r\<lparr>elements := (elements r)[6 * i + j := entry r i j + (\<Sum>k\<leftarrow>ks. entry m i k * entry n k j)]\<rparr>)"
  using assms(3,4)
proof (induction ks arbitrary: r)
  case (Cons k ks)
  have "6 * i + j < 36" using assms(1,2) by simp
  then show ?case using Cons assms(1,2)
    by (simp add: multiply_step_def element_def set_element_def MAX_SIZE_def entry_def add.assoc)
qed (simp add: entry_def)

lemma multiply_row:
  assumes "i < 6" and "s \<le> 6" and "\<forall>j \<in> set js. j < 6" and "distinct js" and "length (elements r) = 36"
  shows "\<exists>r'. for_each (\<lambda>j. for_each (\<lambda>k. multiply_step m n i j k) [0..<s]) js r = Some r' \<and> m_size r' = m_size r \<and>
    length (elements r') = 36 \<and>
    (\<forall>a < 6. \<forall>b < 6. entry r' a b = entry r a b + (if a = i \<and> b \<in> set js then \<Sum>k < s. entry m i k * entry n k b else 0))"
  using assms(3-5)
proof (induction js arbitrary: r)
  case (Cons j js)
  let ?x = "entry r i j + (\<Sum>k\<leftarrow>[0..<s]. entry m i k * entry n k j)"
  let ?r = "r\<lparr>elements := (elements r)[6 * i + j := ?x]\<rparr>"
  have one: "for_each (\<lambda>k. multiply_step m n i j k) [0..<s] r = Some ?r"
    using assms(1,2) Cons(2,4) by (intro multiply_inner) auto
  obtain r' where r': "for_each (\<lambda>j. for_each (\<lambda>k. multiply_step m n i j k) [0..<s]) js ?r = Some r'" "m_size r' = m_size r"
      "length (elements r') = 36"
      "\<forall>a < 6. \<forall>b < 6. entry r' a b = entry ?r a b + (if a = i \<and> b \<in> set js then \<Sum>k < s. entry m i k * entry n k b else 0)"
    using Cons(1) [of ?r] Cons(2-4) by auto
  have e: "entry ?r a b = (if a = i \<and> b = j then ?x else entry r a b)" if "a < 6" "b < 6" for a b
    using that assms(1) Cons(2,4) position_inj [of b j a i] by (auto simp: entry_def nth_list_update)
  have "(\<Sum>k\<leftarrow>[0..<s]. entry m i k * entry n k j) = (\<Sum>k < s. entry m i k * entry n k j)"
    by (simp add: interv_sum_list_conv_sum_set_nat atLeast0LessThan)
  then show ?case using one r' e Cons(3) by auto
qed simp

lemma multiply_rows:
  assumes "s \<le> 6" and "t \<le> 6" and "\<forall>i \<in> set is. i < 6" and "distinct is" and "length (elements r) = 36"
  shows "\<exists>r'. for_each (\<lambda>i. for_each (\<lambda>j. for_each (\<lambda>k. multiply_step m n i j k) [0..<s]) [0..<t]) is r = Some r' \<and> m_size r' = m_size r \<and>
    length (elements r') = 36 \<and>
    (\<forall>a < 6. \<forall>b < 6. entry r' a b = entry r a b + (if a \<in> set is \<and> b < t then \<Sum>k < s. entry m a k * entry n k b else 0))"
  using assms(3-5)
proof (induction "is" arbitrary: r)
  case (Cons i "is")
  obtain r1 where r1: "for_each (\<lambda>j. for_each (\<lambda>k. multiply_step m n i j k) [0..<s]) [0..<t] r = Some r1" "m_size r1 = m_size r"
      "length (elements r1) = 36"
      "\<forall>a < 6. \<forall>b < 6. entry r1 a b = entry r a b + (if a = i \<and> b < t then \<Sum>k < s. entry m i k * entry n k b else 0)"
    using multiply_row [of i s "[0..<t]" r m n] assms(1,2) Cons(2,4) by auto
  obtain r' where "for_each (\<lambda>i. for_each (\<lambda>j. for_each (\<lambda>k. multiply_step m n i j k) [0..<s]) [0..<t]) is r1 = Some r'"
      "m_size r' = m_size r1" "length (elements r') = 36"
      "\<forall>a < 6. \<forall>b < 6. entry r' a b = entry r1 a b + (if a \<in> set is \<and> b < t then \<Sum>k < s. entry m a k * entry n k b else 0)"
    using Cons(1) [of r1] Cons(2,3) r1(3) by auto
  then show ?case using r1 Cons(3) by auto
qed simp

text \<open>For sizes that fit, the function computes the product and keeps to the array.\<close>

lemma matrix_product:
  assumes "m_size m \<le> 6" and "m_size n \<le> 6"
  obtains r where "Matrix_Multiply m n = Some r" and "m_size r = m_size m" and "length (elements r) = 36"
    and "\<And>i j. i < 6 \<Longrightarrow> j < 6 \<Longrightarrow> entry r i j = (if i < unat (m_size m) \<and> j < unat (m_size n) then product_entry m n i j else 0)"
proof -
  have "unat (m_size m) \<le> 6" "unat (m_size n) \<le> 6" using assms by (simp_all add: word_le_nat_alt)
  then obtain r where r: "Matrix_Multiply m n = Some r" "m_size r = m_size m" "length (elements r) = 36"
      "\<forall>a < 6. \<forall>b < 6. entry r a b = entry \<lparr>m_size = m_size m, elements = replicate 36 0\<rparr> a b +
        (if a < unat (m_size m) \<and> b < unat (m_size n) then \<Sum>k < unat (m_size m). entry m a k * entry n k b else 0)"
    using multiply_rows [of "unat (m_size m)" "unat (m_size n)" "[0..<unat (m_size m)]" "\<lparr>m_size = m_size m, elements = replicate 36 0\<rparr>" m n]
    by (auto simp: Matrix_Multiply_def)
  have z: "entry \<lparr>m_size = m_size m, elements = replicate 36 0\<rparr> i j = 0" if "i < 6" "j < 6" for i j
    using that by (simp add: entry_def)
  have p: "entry r i j = (if i < unat (m_size m) \<and> j < unat (m_size n) then product_entry m n i j else 0)" if "i < 6" "j < 6" for i j
    using r(4) that z [OF that] by (auto simp: product_entry_def)
  show thesis by (rule that [OF r(1-3) p])
qed

lemma multiply_same: "matrix_multiply = Matrix_Multiply"
  by (rule ext, rule ext) (simp add: matrix_multiply_def Matrix_Multiply_def)

section \<open>The service\<close>

text \<open>The message is copied into two matrices on the stack, which hold \<open>junk\<close> before. A failed send is only logged.\<close>

definition matrixd_endpoint_cb :: "bytes \<Rightarrow> bytes \<Rightarrow> service_state \<Rightarrow> (rpc_event list \<times> service_state) option" where
  "matrixd_endpoint_cb junk data p =
    (if length data < 4 then None
     else if le_word (take 4 data) = SHUTDOWN_MSG then Some ([], p\<lparr>shutdown_req := True\<rparr>)
     else if 296 < length data then None
     else do {
       let matrix_array = data @ drop (length data) junk;
       matrix_result \<leftarrow> Matrix_Multiply (matrix_at (take 148 matrix_array)) (matrix_at (drop 148 matrix_array));
       Some ([Message (matrix_bytes matrix_result)], p) })"

definition matrixd_service_unbind :: "service_state \<Rightarrow> service_state" where
  "matrixd_service_unbind p = p\<lparr>shutdown_req := True\<rparr>"

definition matrixd_after_poll :: "service_state \<Rightarrow> rpc_event list \<times> service_state" where
  "matrixd_after_poll p = (if shutdown_req p \<and> s_lept p then ([Unbind], p\<lparr>s_lept := False\<rparr>) else ([], p))"

definition matrixd :: "bytes \<Rightarrow> service_state service" where
  "matrixd junk = \<lparr>registered = s_lept, on_request = matrixd_endpoint_cb junk, after_poll = matrixd_after_poll,
     peer_gone = matrixd_service_unbind\<rparr>"

definition service_up :: "service_state \<Rightarrow> bool" where
  "service_up p \<longleftrightarrow> s_lept p \<and> \<not> shutdown_req p"

section \<open>The client\<close>

text \<open>\<open>draws\<close> counts the calls of \<open>rand\<close>.\<close>

record matrix_client =
  mm_lept :: bool
  i_matrix :: "matrix list"
  e_matrix :: matrix
  result_returned :: bool
  mm_err_cnt :: nat
  mm_ept_deleted :: bool
  draws :: nat

definition matrix_print :: "matrix \<Rightarrow> unit option" where
  "matrix_print m = for_each (\<lambda>i. for_each (\<lambda>j u. do { x \<leftarrow> element m i j; Some u }) [0..<unat (m_size m)]) [0..<unat (m_size m)] ()"

definition generate_element :: "(nat \<Rightarrow> u32) \<Rightarrow> nat \<Rightarrow> nat \<Rightarrow> matrix \<times> nat \<Rightarrow> (matrix \<times> nat) option" where
  "generate_element rand j k = (\<lambda>(m, n). do {
     let value = rand n AND 0x7F;
     let value = value mod 10;
     m \<leftarrow> set_element j k value m;
     Some (m, n + 1) })"

definition generate_matrices ::
  "(nat \<Rightarrow> u32) \<Rightarrow> nat \<Rightarrow> u32 \<Rightarrow> matrix list \<times> nat \<Rightarrow> (matrix list \<times> nat) option" where
  "generate_matrices rand num_matrices matrix_size =
    for_each (\<lambda>i (ms, n). if length ms \<le> i then None else do {
      (m, n) \<leftarrow> for_each (\<lambda>j. for_each (\<lambda>k. generate_element rand j k) [0..<unat matrix_size]) [0..<unat matrix_size]
                 ((ms ! i)\<lparr>m_size := matrix_size\<rparr>, n);
      Some (ms[i := m], n) }) [0..<num_matrices]"

text \<open>Each row with a difference counts as an error.\<close>

definition row_differs :: "matrix \<Rightarrow> matrix \<Rightarrow> nat \<Rightarrow> bool" where
  "row_differs m n i \<longleftrightarrow> list_ex (\<lambda>j. element m i j \<noteq> element n i j) [0..<MAX_SIZE]"

definition matrix_endpoint_cb :: "bytes \<Rightarrow> matrix_client \<Rightarrow> matrix_client option" where
  "matrix_endpoint_cb data c =
    (if length data \<noteq> 148 then Some (c\<lparr>mm_err_cnt := mm_err_cnt c + 1\<rparr>)
     else let r_matrix = matrix_at data;
              c = c\<lparr>mm_err_cnt := mm_err_cnt c + length (filter (row_differs r_matrix (e_matrix c)) [0..<MAX_SIZE])\<rparr>
          in if mm_err_cnt c \<noteq> 0 then do { _ \<leftarrow> matrix_print (e_matrix c); _ \<leftarrow> matrix_print r_matrix; Some c }
             else Some (c\<lparr>result_returned := True\<rparr>))"

definition matrix_service_unbind :: "matrix_client \<Rightarrow> matrix_client" where
  "matrix_service_unbind c = c\<lparr>mm_lept := False, mm_ept_deleted := True\<rparr>"

definition matrix_ops :: "matrix_client client" where
  "matrix_ops = \<lparr>endpoint = mm_lept, on_message = matrix_endpoint_cb, on_unbind = matrix_service_unbind\<rparr>"

text \<open>The loop over the rounds, of which \<open>c\<close> are left. Sending on a destroyed endpoint fails.\<close>

fun matrix_rounds ::
  "(nat \<Rightarrow> u32) \<Rightarrow> (nat \<Rightarrow> bool) \<Rightarrow> 'p service \<Rightarrow> nat \<Rightarrow> matrix_client \<times> 'p wire \<Rightarrow> (matrix_client \<times> 'p wire) option" where
  "matrix_rounds rand sched S 0 s = Some s"
| "matrix_rounds rand sched S (Suc k) (c, w) = do {
     (ms, n) \<leftarrow> generate_matrices rand 2 6 (i_matrix c, draws c);
     e \<leftarrow> matrix_multiply (ms ! 0) (ms ! 1);
     let c = c\<lparr>i_matrix := ms, draws := n, e_matrix := e, result_returned := False\<rparr>;
     let (ret, w) = (if mm_lept c then wire_send (concat (map matrix_bytes ms)) w else (RPMSG_ERR_PARAM, w));
     if ret < 0 then Some (c, w)
     else do {
       (c, w) \<leftarrow> poll_until (wire_poll sched S matrix_ops) ((\<lambda>c. result_returned c \<or> mm_err_cnt c \<noteq> 0 \<or> mm_ept_deleted c) \<circ> fst) (c, w);
       if mm_err_cnt c \<noteq> 0 then Some (c, w) else matrix_rounds rand sched S k (c, w) } }"

text \<open>\<open>created\<close> is what \<open>rpmsg_create_ept\<close> returns.\<close>

definition matrix_app ::
  "(nat \<Rightarrow> u32) \<Rightarrow> (nat \<Rightarrow> bool) \<Rightarrow> 'p service \<Rightarrow> int \<Rightarrow> matrix_client \<times> 'p wire \<Rightarrow> (int \<times> matrix_client \<times> 'p wire) option" where
  "matrix_app rand sched S created = (\<lambda>(c, w).
     if created \<noteq> 0 then Some (created, c, w)
     else do {
       (c, w) \<leftarrow> wait_bound sched S matrix_ops (c\<lparr>mm_lept := True\<rparr>, w);
       (c, w) \<leftarrow> matrix_rounds rand sched S 200 (c\<lparr>mm_err_cnt := 0\<rparr>, w);
       let w = (if mm_lept c then announce_gone S w else w);
       Some (0, c\<lparr>mm_lept := False\<rparr>, w) })"

section \<open>Both programs\<close>

definition matrix_request :: "bytes \<Rightarrow> bool" where
  "matrix_request msg \<longleftrightarrow> length msg = 296 \<and> m_size (matrix_at (take 148 msg)) \<le> 6 \<and> m_size (matrix_at (drop 148 msg)) \<le> 6"

definition matrix_answer :: "bytes \<Rightarrow> bytes" where
  "matrix_answer msg = matrix_bytes (the (Matrix_Multiply (matrix_at (take 148 msg)) (matrix_at (drop 148 msg))))"

interpretation matrixd: responder "matrixd junk" matrix_request matrix_answer "\<lambda>k. service_up" for junk
proof unfold_locales
  fix p m
  assume up: "service_up p" and req: "matrix_request m"
  obtain r where r: "Matrix_Multiply (matrix_at (take 148 m)) (matrix_at (drop 148 m)) = Some r"
    by (rule matrix_product [of "matrix_at (take 148 m)" "matrix_at (drop 148 m)"]) (use req in \<open>simp_all add: matrix_request_def\<close>)
  have "m_size (matrix_at (take 148 m)) \<noteq> SHUTDOWN_MSG" using req by (auto simp: matrix_request_def SHUTDOWN_MSG_def)
  then have "le_word (take 4 m) \<noteq> SHUTDOWN_MSG" by (simp add: matrix_at_def)
  then show "\<exists>p'. on_request (matrixd junk) m p = Some ([Message (matrix_answer m)], p') \<and> service_up p'"
    using up req r by (simp add: matrixd_def matrixd_endpoint_cb_def matrix_request_def matrix_answer_def matrix_at_append)
qed (simp_all add: matrixd_def service_up_def matrixd_after_poll_def)

text \<open>The random matrices have the full size.\<close>

lemma generate_row:
  assumes "j < 6" and "\<forall>k \<in> set ks. k < 6" and "length (elements m) = 36"
  shows "\<exists>m'. for_each (\<lambda>k. generate_element rand j k) ks (m, n) = Some (m', n + length ks) \<and> m_size m' = m_size m \<and> length (elements m') = 36"
  using assms(2,3)
proof (induction ks arbitrary: m n)
  case (Cons k ks)
  let ?m = "m\<lparr>elements := (elements m)[6 * j + k := (rand n AND 0x7F) mod 10]\<rparr>"
  have "generate_element rand j k (m, n) = Some (?m, n + 1)"
    using assms(1) Cons(2) by (simp add: generate_element_def set_element_def MAX_SIZE_def Let_def)
  then show ?case using Cons(1) [of ?m "n + 1"] Cons(2,3) by auto
qed simp

lemma generate_rows:
  assumes "\<forall>j \<in> set js. j < 6" and "length (elements m) = 36"
  shows "\<exists>m'. for_each (\<lambda>j. for_each (\<lambda>k. generate_element rand j k) [0..<6]) js (m, n) = Some (m', n + 6 * length js) \<and>
    m_size m' = m_size m \<and> length (elements m') = 36"
  using assms
proof (induction js arbitrary: m n)
  case (Cons j js)
  obtain m1 where one: "for_each (\<lambda>k. generate_element rand j k) [0..<6] (m, n) = Some (m1, n + 6)" "m_size m1 = m_size m" "length (elements m1) = 36"
    using generate_row [of j "[0..<6]" m rand n] Cons(2,3) by auto
  then show ?case using Cons(1) [of m1 "n + 6"] Cons(2) by (auto simp: algebra_simps)
qed simp

lemma generate_pair:
  assumes "length (elements a) = 36" and "length (elements b) = 36"
  obtains a' b' where "generate_matrices rand 2 6 ([a, b], n) = Some ([a', b'], n + 72)" and "m_size a' = 6" and "m_size b' = 6"
    and "length (elements a') = 36" and "length (elements b') = 36"
proof -
  obtain a' where a': "for_each (\<lambda>j. for_each (\<lambda>k. generate_element rand j k) [0..<6]) [0..<6] (a\<lparr>m_size := 6\<rparr>, n) = Some (a', n + 36)"
      "m_size a' = 6" "length (elements a') = 36"
    using generate_rows [of "[0..<6]" "a\<lparr>m_size := 6\<rparr>" rand n] assms(1) by auto
  obtain b' where b': "for_each (\<lambda>j. for_each (\<lambda>k. generate_element rand j k) [0..<6]) [0..<6] (b\<lparr>m_size := 6\<rparr>, n + 36) = Some (b', n + 72)"
      "m_size b' = 6" "length (elements b') = 36"
    using generate_rows [of "[0..<6]" "b\<lparr>m_size := 6\<rparr>" rand "n + 36"] assms(2) by (auto simp: add.assoc)
  have "[0..<2] = [0, 1 :: nat]" by (simp add: upt_rec)
  then have "generate_matrices rand 2 6 ([a, b], n) = Some ([a', b'], n + 72)" using a'(1) b'(1) by (simp add: generate_matrices_def)
  then show thesis using that a'(2,3) b'(2,3) by blast
qed

definition matrix_ready :: "matrix_client \<Rightarrow> bool" where
  "matrix_ready c \<longleftrightarrow> mm_lept c \<and> mm_err_cnt c = 0 \<and> \<not> mm_ept_deleted c \<and> length (i_matrix c) = 2 \<and> (\<forall>m \<in> set (i_matrix c). length (elements m) = 36)"

definition wire_ready :: "service_state wire \<Rightarrow> bool" where
  "wire_ready w \<longleftrightarrow> queue w = [] \<and> 0 < buffers w \<and> service_up (remote w)"

definition result_right :: "matrix_client \<Rightarrow> bool" where
  "result_right c \<longleftrightarrow> result_returned c \<and>
     (\<forall>i < 6. \<forall>j < 6. element (e_matrix c) i j = Some (\<Sum>k < 6. entry (i_matrix c ! 0) i k * entry (i_matrix c ! 1) k j))"

lemma matrix_round:
  assumes "fair sched" and "matrix_ready c" and "wire_ready w"
  obtains c' w' where "matrix_rounds rand sched (matrixd junk) (Suc k) (c, w) = matrix_rounds rand sched (matrixd junk) k (c', w')"
    and "matrix_ready c'" and "wire_ready w'" and "result_right c'" and "draws c' = draws c + 72"
proof -
  obtain a b where ab: "i_matrix c = [a, b]" "length (elements a) = 36" "length (elements b) = 36"
    using assms(2) by (auto simp: matrix_ready_def length_Suc_conv numeral_2_eq_2)
  obtain a' b' where gen: "generate_matrices rand 2 6 ([a, b], draws c) = Some ([a', b'], draws c + 72)" "m_size a' = 6" "m_size b' = 6"
      "length (elements a') = 36" "length (elements b') = 36"
    using generate_pair [OF ab(2,3)] .
  obtain r where r: "Matrix_Multiply a' b' = Some r" "m_size r = 6" "length (elements r) = 36"
      and e: "\<And>i j. i < 6 \<Longrightarrow> j < 6 \<Longrightarrow> entry r i j = product_entry a' b' i j"
    by (rule matrix_product [of a' b']) (use gen in simp_all)
  let ?c = "c\<lparr>i_matrix := [a', b'], draws := draws c + 72, e_matrix := r, result_returned := False\<rparr>"
  let ?m = "matrix_bytes a' @ matrix_bytes b'"
  let ?stop = "\<lambda>c. result_returned c \<or> mm_err_cnt c \<noteq> 0 \<or> mm_ept_deleted c"
  have parts: "take 148 ?m = matrix_bytes a'" "drop 148 ?m = matrix_bytes b'" using gen(4) by (simp_all add: length_matrix_bytes)
  have at: "matrix_at (matrix_bytes x) = x" if "length (elements x) = 36" for x using matrix_roundtrip [OF that, of "[]"] by simp
  have req: "matrix_request ?m" using gen parts at by (simp add: matrix_request_def length_matrix_bytes)
  have ans: "matrix_answer ?m = matrix_bytes r" using gen parts at r(1) by (simp add: matrix_answer_def)
  have cb: "on_message matrix_ops (matrix_answer ?m) ?c = Some (?c\<lparr>result_returned := True\<rparr>)"
    using assms(2) r at by (simp add: ans matrix_ops_def matrix_endpoint_cb_def length_matrix_bytes matrix_ready_def row_differs_def list_ex_iff)
  obtain n p' where run: "wire_send ?m w = (int (length ?m), w\<lparr>queue := [?m]\<rparr>)"
      "poll_until (wire_poll sched (matrixd junk) matrix_ops) (?stop \<circ> fst) (?c, w\<lparr>queue := [?m]\<rparr>) =
        Some (?c\<lparr>result_returned := True\<rparr>, w\<lparr>turns := n, remote := p'\<rparr>)" "service_up p'"
    by (rule matrixd.round_trip [of sched w ?m ?stop ?c matrix_ops "?c\<lparr>result_returned := True\<rparr>" junk])
      (use assms cb req gen(4,5) in \<open>simp_all add: wire_ready_def matrix_ready_def matrix_ops_def length_matrix_bytes\<close>)
  have step: "matrix_rounds rand sched (matrixd junk) (Suc k) (c, w) =
      matrix_rounds rand sched (matrixd junk) k (?c\<lparr>result_returned := True\<rparr>, w\<lparr>turns := n, remote := p'\<rparr>)"
    using assms(2) gen(1,4,5) r(1) run(1,2) ab(1) by (simp add: multiply_same matrix_ready_def Let_def length_matrix_bytes)
  have "element r i j = Some (\<Sum>k < 6. entry a' i k * entry b' k j)" if "i < 6" "j < 6" for i j
    using that e [OF that] gen(2) by (simp add: element_def MAX_SIZE_def entry_def product_entry_def)
  then show thesis using assms(2,3) gen(4,5) run(3)
    by (intro that [OF step]) (simp_all add: matrix_ready_def wire_ready_def result_right_def)
qed

lemma matrix_all_rounds:
  assumes "fair sched" and "matrix_ready c" and "wire_ready w"
  shows "\<exists>c' w'. matrix_rounds rand sched (matrixd junk) k (c, w) = Some (c', w') \<and> matrix_ready c' \<and> wire_ready w' \<and>
    draws c' = draws c + 72 * k \<and> (0 < k \<longrightarrow> result_right c')"
  using assms(2,3)
proof (induction k arbitrary: c w)
  case (Suc k)
  obtain c1 w1 where one: "matrix_rounds rand sched (matrixd junk) (Suc k) (c, w) = matrix_rounds rand sched (matrixd junk) k (c1, w1)"
    "matrix_ready c1" "wire_ready w1" "result_right c1" "draws c1 = draws c + 72"
    using matrix_round [OF assms(1) Suc(2,3)] .
  show ?case
  proof (cases k)
    case 0
    then show ?thesis using one by auto
  next
    case (Suc l)
    then show ?thesis using Suc.IH [OF one(2,3)] one(1,5) by auto
  qed
qed auto


definition demo_matrix_client :: matrix_client where
  "demo_matrix_client = \<lparr>mm_lept = False, i_matrix = replicate 2 \<lparr>m_size = 0, elements = replicate 36 0\<rparr>,
     e_matrix = \<lparr>m_size = 0, elements = replicate 36 0\<rparr>, result_returned = False, mm_err_cnt = 0, mm_ept_deleted = False, draws = 0\<rparr>"

definition demo_wire :: "service_state wire" where
  "demo_wire = \<lparr>queue = [], buffers = 8, turns = 0, bound = 5, remote = \<lparr>shutdown_req = False, s_lept = True\<rparr>\<rparr>"


end
