(* ===== verification/Echo_Test.thy ===== *)
theory Echo_Test
  imports Message_Wire Rpmsg_Registry
begin

text \<open>
  The echo programs of OpenAMP: the service \<open>apps/examples/echo/rpmsg-echo.c\<close> with its client \<open>rpmsg-ping.c\<close>, which sends one packet of each
  size and checks the echo, and \<open>apps/tests/msg/rpmsg-flood-ping.c\<close>, which sends as many packets of each size as the buffers take without
  waiting for answers. \<open>unsigned long\<close> has four bytes.
\<close>

section \<open>The service\<close>

definition ECHO_SHUTDOWN_MSG :: u32 where "ECHO_SHUTDOWN_MSG = 0xEF56A55A"

text \<open>A failed send is only logged.\<close>

definition echo_endpoint_cb :: "bytes \<Rightarrow> service_state \<Rightarrow> (rpc_event list \<times> service_state) option" where
  "echo_endpoint_cb data p =
    (if length data < 4 then None
     else if le_word (take 4 data) = ECHO_SHUTDOWN_MSG then Some ([], p\<lparr>shutdown_req := True\<rparr>)
     else Some (if length data \<le> MAX_BUF_LEN then [Message data] else [], p))"

definition echo_service_unbind :: "service_state \<Rightarrow> service_state" where
  "echo_service_unbind p = p\<lparr>shutdown_req := True\<rparr>"

definition echo_after_poll :: "service_state \<Rightarrow> rpc_event list \<times> service_state" where
  "echo_after_poll p = (if shutdown_req p \<and> s_lept p then ([Unbind], p\<lparr>s_lept := False\<rparr>) else ([], p))"

definition echo :: "service_state service" where
  "echo = \<lparr>registered = s_lept, on_request = echo_endpoint_cb, after_poll = echo_after_poll, peer_gone = echo_service_unbind\<rparr>"

definition echo_request :: "bytes \<Rightarrow> bool" where
  "echo_request m \<longleftrightarrow> 4 \<le> length m \<and> length m \<le> 496 \<and> le_word (take 4 m) \<noteq> ECHO_SHUTDOWN_MSG"

interpretation echo: responder echo echo_request "\<lambda>m. m" "\<lambda>k p. s_lept p \<and> \<not> shutdown_req p"
  by unfold_locales (auto simp: echo_def echo_after_poll_def echo_endpoint_cb_def echo_request_def MAX_BUF_LEN_def)

section \<open>The clients\<close>

text \<open>\<open>i_data\<close> is the data part of the packet \<open>i_payload\<close>.\<close>

record ping_client =
  p_lept :: bool
  i_data :: bytes
  rnum :: int
  p_err_cnt :: nat
  p_ept_deleted :: bool

definition ping_service_unbind :: "ping_client \<Rightarrow> ping_client" where
  "ping_service_unbind c = c\<lparr>p_lept := False, p_ept_deleted := True\<rparr>"

text \<open>The structure \<open>_payload\<close>.\<close>

definition payload_bytes :: "u32 \<Rightarrow> u32 \<Rightarrow> bytes \<Rightarrow> bytes" where
  "payload_bytes num sz data = le_bytes 4 num @ le_bytes 4 sz @ data"

definition payload_num :: "bytes \<Rightarrow> u32" where "payload_num b = le_word (take 4 b)"
definition payload_size :: "bytes \<Rightarrow> u32" where "payload_size b = le_word (take 4 (drop 4 b))"
definition payload_data :: "bytes \<Rightarrow> bytes" where "payload_data b = drop 8 b"

lemma payload_fields [simp]:
  "payload_num (payload_bytes n k d) = n" "payload_size (payload_bytes n k d) = k" "payload_data (payload_bytes n k d) = d"
  "length (payload_bytes n k d) = 8 + length d" "take 4 (payload_bytes n k d) = le_bytes 4 n"
  by (simp_all add: payload_bytes_def payload_num_def payload_size_def payload_data_def)

text \<open>The check of the first \<open>n\<close> bytes: whether they are all right.\<close>

fun check_marks :: "nat \<Rightarrow> bytes \<Rightarrow> bool option" where
  "check_marks 0 b = Some True"
| "check_marks (Suc n) [] = None"
| "check_marks (Suc n) (x # b) = (if x \<noteq> 0xA5 then Some False else check_marks n b)"

fun compare_bytes :: "nat \<Rightarrow> bytes \<Rightarrow> bytes \<Rightarrow> bool option" where
  "compare_bytes 0 r i = Some True"
| "compare_bytes (Suc n) (x # r) (y # i) = (if x \<noteq> y then Some False else compare_bytes n r i)"
| "compare_bytes (Suc n) r i = None"

definition ping_endpoint_cb :: "bytes \<Rightarrow> ping_client \<Rightarrow> ping_client option" where
  "ping_endpoint_cb data c =
    (if length data < 8 then None
     else if payload_size data = 0 then Some (c\<lparr>p_err_cnt := p_err_cnt c + 1\<rparr>)
     else do {
       ok \<leftarrow> check_marks (nat (sint (payload_size data))) (payload_data data);
       let c = (if ok then c else c\<lparr>p_err_cnt := p_err_cnt c + 1\<rparr>);
       Some (c\<lparr>rnum := sint (payload_num data + 1)\<rparr>) })"

definition flood_endpoint_cb :: "bytes \<Rightarrow> ping_client \<Rightarrow> ping_client option" where
  "flood_endpoint_cb data c =
    (if length data < 8 then None
     else if payload_size data = 0 \<or> 496 < payload_size data then Some (c\<lparr>p_err_cnt := p_err_cnt c + 1\<rparr>)
     else do {
       ok \<leftarrow> compare_bytes (unat (payload_size data)) (payload_data data) (i_data c);
       let c = (if ok then c else c\<lparr>p_err_cnt := p_err_cnt c + 1\<rparr>);
       Some (c\<lparr>rnum := sint (payload_num data + 1)\<rparr>) })"

definition ping_ops :: "ping_client client" where
  "ping_ops = \<lparr>endpoint = p_lept, on_message = ping_endpoint_cb, on_unbind = ping_service_unbind\<rparr>"

definition flood_ops :: "ping_client client" where
  "flood_ops = \<lparr>endpoint = p_lept, on_message = flood_endpoint_cb, on_unbind = ping_service_unbind\<rparr>"

definition ept_send_msg :: "bytes \<Rightarrow> ping_client \<times> 'p wire \<Rightarrow> int \<times> ping_client \<times> 'p wire" where
  "ept_send_msg m = (\<lambda>(c, w). if p_lept c then let (ret, w) = wire_send m w in (ret, c, w) else (RPMSG_ERR_PARAM, c, w))"

text \<open>The loop of \<open>rpmsg-ping.c\<close> from packet \<open>i\<close> on, of which \<open>k\<close> are left; the packet \<open>i\<close> has \<open>i + 1\<close> bytes of data.\<close>

fun ping_rounds :: "(nat \<Rightarrow> bool) \<Rightarrow> 'p service \<Rightarrow> nat \<Rightarrow> nat \<Rightarrow> ping_client \<times> 'p wire \<Rightarrow> (ping_client \<times> 'p wire) option" where
  "ping_rounds sched S 0 i s = Some s"
| "ping_rounds sched S (Suc k) i s =
    (let (ret, s) = ept_send_msg (payload_bytes (of_nat i) (of_nat (i + 1)) (replicate (i + 1) 0xA5)) s
     in if ret < 0 then Some s
        else do {
          s \<leftarrow> poll_until (wire_poll sched S ping_ops) ((\<lambda>c. int (i + 1) \<le> rnum c \<or> p_err_cnt c \<noteq> 0 \<or> p_ept_deleted c) \<circ> fst) s;
          ping_rounds sched S k (i + 1) s })"

text \<open>
  \<open>buffer_size\<close> is what \<open>rpmsg_virtio_get_buffer_size\<close> returns, \<open>allocated\<close> tells whether the packet is, \<open>created\<close> is the result of
  \<open>rpmsg_create_ept\<close>.
\<close>

definition ping_app ::
  "(nat \<Rightarrow> bool) \<Rightarrow> 'p service \<Rightarrow> int \<Rightarrow> bool \<Rightarrow> int \<Rightarrow> ping_client \<times> 'p wire \<Rightarrow> (int \<times> ping_client \<times> 'p wire) option" where
  "ping_app sched S buffer_size allocated created = (\<lambda>(c, w).
     if buffer_size < 0 then Some (- 1, c, w)
     else let max_size = buffer_size - 8; num_payloads = max_size - 1 + 1
       in if \<not> allocated then Some (- 1, c, w)
          else if created \<noteq> 0 then Some (created, c, w)
          else do {
            (c, w) \<leftarrow> wait_bound sched S ping_ops (c\<lparr>p_lept := True\<rparr>, w);
            (c, w) \<leftarrow> ping_rounds sched S (nat num_payloads) 0 (c, w);
            Some (0, c\<lparr>p_lept := False\<rparr>, if p_lept c then announce_gone S w else w) })"

section \<open>Flooding\<close>

definition NUMS_PACKAGES :: nat where "NUMS_PACKAGES = 0x100000"

text \<open>Sending one packet: a poll whenever there is no buffer. \<open>ret\<close> is the result so far.\<close>

partial_function (option) flood_send ::
  "(nat \<Rightarrow> bool) \<Rightarrow> 'p service \<Rightarrow> bytes \<Rightarrow> int \<Rightarrow> ping_client \<times> 'p wire \<Rightarrow> (int \<times> ping_client \<times> 'p wire) option" where
  "flood_send sched S m ret s =
    (if p_err_cnt (fst s) \<noteq> 0 \<or> p_ept_deleted (fst s) then Some (ret, s)
     else case ept_send_msg m s of (ret, s) \<Rightarrow>
       if ret = RPMSG_ERR_NO_BUFF then do { s \<leftarrow> wire_poll sched S flood_ops s; flood_send sched S m ret s } else Some (ret, s))"

text \<open>\<open>sz\<close> bytes of data in every packet; \<open>k\<close> packets are left from packet \<open>i\<close> on.\<close>

fun flood_packets ::
  "(nat \<Rightarrow> bool) \<Rightarrow> 'p service \<Rightarrow> nat \<Rightarrow> nat \<Rightarrow> nat \<Rightarrow> int \<Rightarrow> ping_client \<times> 'p wire \<Rightarrow> (int \<times> ping_client \<times> 'p wire) option" where
  "flood_packets sched S sz 0 i ret s = Some (ret, s)"
| "flood_packets sched S sz (Suc k) i ret s = do {
     (ret, s) \<leftarrow> flood_send sched S (payload_bytes (of_nat i) (of_nat sz) (take sz (i_data (fst s)))) ret s;
     if ret < 0 \<or> p_err_cnt (fst s) \<noteq> 0 \<or> p_ept_deleted (fst s) then Some (ret, s)
     else flood_packets sched S sz k (i + 1) ret s }"

fun flood_sizes ::
  "(nat \<Rightarrow> bool) \<Rightarrow> 'p service \<Rightarrow> nat \<Rightarrow> nat \<Rightarrow> nat \<Rightarrow> int \<Rightarrow> ping_client \<times> 'p wire \<Rightarrow> (ping_client \<times> 'p wire) option" where
  "flood_sizes sched S num_pkgs 0 sz ret s = Some s"
| "flood_sizes sched S num_pkgs (Suc k) sz ret s = do {
     (ret, s) \<leftarrow> flood_packets sched S sz num_pkgs 0 ret ((fst s)\<lparr>rnum := 0\<rparr>, snd s);
     if ret < 0 then Some s
     else do {
       s \<leftarrow> wait_until (wire_poll sched S flood_ops) ((\<lambda>c. int num_pkgs \<le> rnum c \<or> p_err_cnt c \<noteq> 0 \<or> p_ept_deleted c) \<circ> fst) s;
       if p_err_cnt (fst s) \<noteq> 0 \<or> p_ept_deleted (fst s) then Some s
       else flood_sizes sched S num_pkgs k (sz + 1) ret s } }"

definition flood_app ::
  "(nat \<Rightarrow> bool) \<Rightarrow> 'p service \<Rightarrow> int \<Rightarrow> bool \<Rightarrow> int \<Rightarrow> ping_client \<times> 'p wire \<Rightarrow> (int \<times> ping_client \<times> 'p wire) option" where
  "flood_app sched S buffer_size allocated created = (\<lambda>(c, w).
     if buffer_size < 0 then Some (- 1, c, w)
     else if \<not> allocated then Some (- 1, c, w)
     else let max_size = buffer_size - 8
       in if created \<noteq> 0 then Some (created, c, w)
          else do {
            (c, w) \<leftarrow> wait_bound sched S flood_ops (c\<lparr>p_lept := True\<rparr>, w);
            _ \<leftarrow> (if max_size < 0 then None else Some ());
            let c = c\<lparr>i_data := replicate (nat max_size) 0xA5\<rparr>;
            (c, w) \<leftarrow> flood_sizes sched S NUMS_PACKAGES (nat max_size) 1 created (c, w);
            Some (0, c\<lparr>p_lept := False\<rparr>, if p_lept c then announce_gone S w else w) })"

section \<open>One packet of each size\<close>

lemma check_marks_ok: "n \<le> k \<Longrightarrow> check_marks n (replicate k 0xA5) = Some True"
proof (induction n arbitrary: k)
  case (Suc n)
  then show ?case by (cases k) simp_all
qed simp

lemma compare_bytes_ok: "n \<le> length r \<Longrightarrow> n \<le> length i \<Longrightarrow> take n r = take n i \<Longrightarrow> compare_bytes n r i = Some True"
  by (induction n r i rule: compare_bytes.induct) auto

text \<open>A packet number is none of the service's commands, and comes back as the count.\<close>

lemma small_number:
  assumes "i < 2 ^ 31 - 1"
  shows "sint (of_nat i + 1 :: u32) = int (i + 1)" and "(of_nat i :: u32) \<noteq> ECHO_SHUTDOWN_MSG"
proof -
  have "unat (of_nat i :: u32) = i" using assms by (simp add: unat_of_nat)
  then show "(of_nat i :: u32) \<noteq> ECHO_SHUTDOWN_MSG" using assms by (auto simp: ECHO_SHUTDOWN_MSG_def)
  have "unat (of_nat (i + 1) :: u32) = i + 1" using assms by (simp only: unat_of_nat) simp
  then show "sint (of_nat i + 1 :: u32) = int (i + 1)" using assms sint_small [of "of_nat (i + 1) :: u32"] by (simp add: add.commute)
qed

definition ping_ready :: "nat \<Rightarrow> ping_client \<times> service_state wire \<Rightarrow> bool" where
  "ping_ready i s \<longleftrightarrow> p_lept (fst s) \<and> p_err_cnt (fst s) = 0 \<and> \<not> p_ept_deleted (fst s) \<and> rnum (fst s) = int i \<and>
     queue (snd s) = [] \<and> 0 < buffers (snd s) \<and> s_lept (remote (snd s)) \<and> \<not> shutdown_req (remote (snd s))"

lemma ping_round:
  assumes "fair sched" and "ping_ready i (c, w)" and "i < 488"
  obtains s' where "ping_rounds sched echo (Suc k) i (c, w) = ping_rounds sched echo k (i + 1) s'" and "ping_ready (i + 1) s'"
proof -
  let ?m = "payload_bytes (of_nat i) (of_nat (i + 1)) (replicate (i + 1) 0xA5)"
  let ?stop = "\<lambda>c. int (i + 1) \<le> rnum c \<or> p_err_cnt c \<noteq> 0 \<or> p_ept_deleted c"
  have num: "sint (of_nat i + 1 :: u32) = int (i + 1)" "(of_nat i :: u32) \<noteq> ECHO_SHUTDOWN_MSG" by (rule small_number; use assms(3) in simp)+
  have sz: "unat (of_nat (i + 1) :: u32) = i + 1" using assms(3) by (simp only: unat_of_nat) simp
  then have ssz: "sint (of_nat (i + 1) :: u32) = int (i + 1)" using assms(3) sint_small [of "of_nat (i + 1) :: u32"] by simp
  have "(of_nat (i + 1) :: u32) \<noteq> 0" using sz by (metis Suc_eq_plus1 nat.simps(3) unat_0)
  moreover have "check_marks (Suc i) (replicate (Suc i) 0xA5) = Some True" by (rule check_marks_ok) simp
  moreover have "nat (1 + int i) = Suc i" by simp
  ultimately have cb: "on_message ping_ops ?m c = Some (c\<lparr>rnum := int (i + 1)\<rparr>)"
    using num(1) ssz by (simp add: ping_ops_def ping_endpoint_cb_def add.commute del: replicate_Suc check_marks.simps)
  have req: "echo_request ?m" using assms(3) num(2) by (simp add: echo_request_def)
  obtain n p' where run: "wire_send ?m w = (int (length ?m), w\<lparr>queue := [?m]\<rparr>)"
      "poll_until (wire_poll sched echo ping_ops) (?stop \<circ> fst) (c, w\<lparr>queue := [?m]\<rparr>) =
        Some (c\<lparr>rnum := int (i + 1)\<rparr>, w\<lparr>turns := n, remote := p'\<rparr>)" "s_lept p' \<and> \<not> shutdown_req p'"
    by (rule echo.round_trip [of sched w ?m ?stop c ping_ops "c\<lparr>rnum := int (i + 1)\<rparr>"])
      (use assms cb req in \<open>simp_all add: ping_ready_def ping_ops_def\<close>)
  have step: "ping_rounds sched echo (Suc k) i (c, w) = ping_rounds sched echo k (i + 1) (c\<lparr>rnum := int (i + 1)\<rparr>, w\<lparr>turns := n, remote := p'\<rparr>)"
    using assms(2) run(1,2) by (simp add: ept_send_msg_def ping_ready_def)
  show thesis by (rule that [OF step]) (use assms(2) run(3) in \<open>simp add: ping_ready_def\<close>)
qed

lemma ping_all_rounds:
  "fair sched \<Longrightarrow> ping_ready i s \<Longrightarrow> i + k \<le> 488 \<Longrightarrow> \<exists>s'. ping_rounds sched echo k i s = Some s' \<and> ping_ready (i + k) s'"
proof (induction k arbitrary: i s)
  case (Suc k)
  obtain s1 where "ping_rounds sched echo (Suc k) i s = ping_rounds sched echo k (i + 1) s1" "ping_ready (i + 1) s1"
    by (rule ping_round [of sched i "fst s" "snd s" k]) (use Suc in simp_all)
  then show ?case using Suc(1) [of "i + 1" s1] Suc(2,4) by auto
qed simp

text \<open>The client ends without an error after a packet of each size that fits a buffer, and the service is told to end.\<close>

lemma wait_bound_ready:
  assumes "queue w = []" and "s_lept (remote w)" and "\<not> shutdown_req (remote w)"
  shows "\<exists>n. wait_bound sched echo C (c, w) = Some (c, w\<lparr>turns := n\<rparr>)"
  by (rule wait_bound_ends) (use assms in \<open>simp_all add: echo_def echo_after_poll_def\<close>)

theorem ping_echo:
  assumes "fair sched" and "ping_ready 0 (c\<lparr>p_lept := True\<rparr>, w)" and "8 \<le> b" and "b \<le> 496"
  shows "\<exists>c' w'. ping_app sched echo b True 0 (c, w) = Some (0, c', w') \<and> p_err_cnt c' = 0 \<and> rnum c' = b - 8 \<and> queue w' = [] \<and>
    shutdown_req (remote w')"
proof -
  obtain n where wait: "wait_bound sched echo ping_ops (c\<lparr>p_lept := True\<rparr>, w) = Some (c\<lparr>p_lept := True\<rparr>, w\<lparr>turns := n\<rparr>)"
    using wait_bound_ready [of w sched ping_ops] assms(2) by (auto simp: ping_ready_def)
  have "ping_ready 0 (c\<lparr>p_lept := True\<rparr>, w\<lparr>turns := n\<rparr>)" using assms(2) by (simp add: ping_ready_def)
  moreover have "0 + nat (b - 8) \<le> 488" using assms(3,4) by (simp add: nat_le_iff)
  ultimately have "\<exists>s'. ping_rounds sched echo (nat (b - 8)) 0 (c\<lparr>p_lept := True\<rparr>, w\<lparr>turns := n\<rparr>) = Some s' \<and> ping_ready (0 + nat (b - 8)) s'"
    by (rule ping_all_rounds [OF assms(1)])
  then
  obtain c' w' where "ping_rounds sched echo (nat (b - 8)) 0 (c\<lparr>p_lept := True\<rparr>, w\<lparr>turns := n\<rparr>) = Some (c', w')" "ping_ready (nat (b - 8)) (c', w')"
    by auto
  then show ?thesis using wait assms(3)
    by (simp add: ping_app_def ping_ready_def announce_gone_def echo_def echo_service_unbind_def)
qed

section \<open>As many packets as there are buffers\<close>

text \<open>Packet \<open>i\<close> of \<open>sz\<close> bytes. Of the packets up to \<open>i\<close> the first \<open>j\<close> have been echoed, the others are on their way.\<close>

definition flood_msg :: "nat \<Rightarrow> nat \<Rightarrow> bytes" where
  "flood_msg sz i = payload_bytes (of_nat i) (of_nat sz) (replicate sz 0xA5)"

definition flood_inv :: "nat \<Rightarrow> nat \<Rightarrow> nat \<Rightarrow> nat \<Rightarrow> ping_client \<times> service_state wire \<Rightarrow> bool" where
  "flood_inv mx sz j i s \<longleftrightarrow> p_lept (fst s) \<and> p_err_cnt (fst s) = 0 \<and> \<not> p_ept_deleted (fst s) \<and> i_data (fst s) = replicate mx 0xA5 \<and>
     rnum (fst s) = int j \<and> j \<le> i \<and> queue (snd s) = map (flood_msg sz) [j..<i] \<and> i - j \<le> buffers (snd s) \<and> 0 < buffers (snd s) \<and>
     s_lept (remote (snd s)) \<and> \<not> shutdown_req (remote (snd s))"

lemma flood_answer:
  assumes "i < 2 ^ 31 - 1" and "0 < sz" and "sz \<le> mx" and "mx \<le> 488" and "i_data c = replicate mx 0xA5"
  shows "flood_endpoint_cb (flood_msg sz i) c = Some (c\<lparr>rnum := int (i + 1)\<rparr>)"
proof -
  have u: "unat (of_nat sz :: u32) = sz" using assms(3,4) by (simp add: unat_of_nat)
  then have "(of_nat sz :: u32) \<noteq> 0" "\<not> (496 :: u32) < of_nat sz" using assms(2-4) by (auto simp: word_less_nat_alt)
  moreover have "compare_bytes sz (replicate sz 0xA5) (replicate mx 0xA5) = Some True"
    using assms(3) by (intro compare_bytes_ok) (simp_all add: min_def)
  ultimately show ?thesis
    using small_number(1) [OF assms(1)] u assms(5) by (simp add: flood_endpoint_cb_def flood_msg_def)
qed

lemma flood_answers:
  assumes "i \<le> 2 ^ 31 - 1" and "0 < sz" and "sz \<le> mx" and "mx \<le> 488" and "p_lept c" and "i_data c = replicate mx 0xA5"
    and "j \<le> i" and "rnum c = int j"
  shows "deliver flood_ops (map (\<lambda>m. Message m) (map (flood_msg sz) [j..<i])) c = Some (c\<lparr>rnum := int i\<rparr>)"
  using assms(5-8)
proof (induction "i - j" arbitrary: j c)
  case (Suc k)
  have up: "[j..<i] = j # [Suc j..<i]" using Suc(2) by (simp add: upt_conv_Cons)
  have cb: "flood_endpoint_cb (flood_msg sz j) c = Some (c\<lparr>rnum := int (j + 1)\<rparr>)"
    using assms(1-4) Suc(2,4) by (intro flood_answer) simp_all
  have "deliver flood_ops (map (\<lambda>m. Message m) (map (flood_msg sz) [Suc j..<i])) (c\<lparr>rnum := int (j + 1)\<rparr>) =
      Some (c\<lparr>rnum := int (j + 1)\<rparr>\<lparr>rnum := int i\<rparr>)"
    by (rule Suc(1)) (use Suc(2-4) in simp_all)
  moreover have "endpoint flood_ops c" "on_message flood_ops (flood_msg sz j) c = Some (c\<lparr>rnum := int (j + 1)\<rparr>)"
    using Suc(3) cb by (simp_all add: flood_ops_def)
  ultimately show ?case unfolding up by simp
qed simp

lemma flood_requests:
  assumes "i \<le> 2 ^ 31 - 1" and "sz \<le> 488"
  shows "\<forall>m \<in> set (map (flood_msg sz) [j..<i]). echo_request m"
  using small_number(2) assms by (auto simp: echo_request_def flood_msg_def)

text \<open>A turn of the service brings the count up to date and empties the buffers.\<close>

lemma flood_turn:
  assumes "flood_inv mx sz j i (c, w)" and "i \<le> 2 ^ 31 - 1" and "0 < sz" and "sz \<le> mx" and "mx \<le> 488" and "sched (turns w)"
  obtains s where "wire_poll sched echo flood_ops (c, w) = Some s" and "flood_inv mx sz i i s"
proof -
  have dl: "deliver flood_ops (map (\<lambda>m. Message m) (queue w)) c = Some (c\<lparr>rnum := int i\<rparr>)"
    using assms(1-5) flood_answers [of i sz mx c j] by (simp add: flood_inv_def)
  have "\<forall>m \<in> set (queue w). echo_request m" using assms(1,2,4,5) flood_requests [of i sz j] by (simp add: flood_inv_def)
  then obtain p' where p': "wire_poll sched echo flood_ops (c, w) =
      Some (c\<lparr>rnum := int i\<rparr>, w\<lparr>queue := [], turns := turns w + 1, remote := p'\<rparr>)" "s_lept p' \<and> \<not> shutdown_req p'"
    using echo.turn_answers [of sched w flood_ops c "c\<lparr>rnum := int i\<rparr>"] assms(1,6) dl by (auto simp: flood_inv_def)
  show thesis by (rule that [OF p'(1)]) (use assms(1) p'(2) in \<open>simp add: flood_inv_def\<close>)
qed

lemma flood_send_cases:
  assumes "flood_inv mx sz j i (c, w)" and "sz \<le> mx" and "mx \<le> 488"
  shows "i - j < buffers w \<Longrightarrow> \<exists>s'. flood_send sched echo (flood_msg sz i) ret (c, w) = Some (int (8 + sz), s') \<and> flood_inv mx sz j (i + 1) s'"
    and "\<not> i - j < buffers w \<Longrightarrow> flood_send sched echo (flood_msg sz i) ret (c, w) =
      do { s \<leftarrow> wire_poll sched echo flood_ops (c, w); flood_send sched echo (flood_msg sz i) RPMSG_ERR_NO_BUFF s }"
proof -
  assume room: "i - j < buffers w"
  have "ept_send_msg (flood_msg sz i) (c, w) = (int (8 + sz), c, w\<lparr>queue := queue w @ [flood_msg sz i]\<rparr>)"
    using assms room by (simp add: ept_send_msg_def wire_send_def flood_inv_def flood_msg_def MAX_BUF_LEN_def)
  then show "\<exists>s'. flood_send sched echo (flood_msg sz i) ret (c, w) = Some (int (8 + sz), s') \<and> flood_inv mx sz j (i + 1) s'"
    using assms(1) room
    by (intro exI [of _ "(c, w\<lparr>queue := queue w @ [flood_msg sz i]\<rparr>)"], subst flood_send.simps) (auto simp: flood_inv_def RPMSG_ERR_NO_BUFF_def)
next
  assume full: "\<not> i - j < buffers w"
  have "ept_send_msg (flood_msg sz i) (c, w) = (RPMSG_ERR_NO_BUFF, c, w)"
    using assms full by (simp add: ept_send_msg_def wire_send_def flood_inv_def flood_msg_def MAX_BUF_LEN_def)
  then show "flood_send sched echo (flood_msg sz i) ret (c, w) =
      do { s \<leftarrow> wire_poll sched echo flood_ops (c, w); flood_send sched echo (flood_msg sz i) RPMSG_ERR_NO_BUFF s }"
    using assms(1) by (subst flood_send.simps) (simp add: flood_inv_def)
qed

lemma flood_send_returns:
  assumes "flood_inv mx sz j i (c, w)" and "i \<le> 2 ^ 31 - 1" and "0 < sz" and "sz \<le> mx" and "mx \<le> 488"
    and "sched (turns w + d)" and "\<forall>k < d. \<not> sched (turns w + k)"
  shows "\<exists>j' s'. flood_send sched echo (flood_msg sz i) ret (c, w) = Some (int (8 + sz), s') \<and> flood_inv mx sz j' (i + 1) s'"
  using assms(1,6,7)
proof (induction d arbitrary: w ret)
  case (0 w ret)
  show ?case
  proof (cases "i - j < buffers w")
    case True
    then show ?thesis using flood_send_cases(1) [OF 0(1) assms(4,5)] by blast
  next
    case False
    obtain c1 w1 where turn: "wire_poll sched echo flood_ops (c, w) = Some (c1, w1)" "flood_inv mx sz i i (c1, w1)"
      using flood_turn [OF 0(1) assms(2-5)] 0(2) by (metis add_0_right surj_pair)
    then have "i - i < buffers w1" by (simp add: flood_inv_def)
    then obtain s' where "flood_send sched echo (flood_msg sz i) RPMSG_ERR_NO_BUFF (c1, w1) = Some (int (8 + sz), s')" "flood_inv mx sz i (i + 1) s'"
      using flood_send_cases(1) [OF turn(2) assms(4,5)] by blast
    then show ?thesis using flood_send_cases(2) [OF 0(1) assms(4,5) False] turn(1) by auto
  qed
next
  case (Suc d w ret)
  show ?case
  proof (cases "i - j < buffers w")
    case True
    then show ?thesis using flood_send_cases(1) [OF Suc(2) assms(4,5)] by blast
  next
    case False
    let ?w = "w\<lparr>turns := turns w + 1\<rparr>"
    have "\<not> sched (turns w)" using Suc(4) by auto
    then have "wire_poll sched echo flood_ops (c, w) = Some (c, ?w)" by (simp add: wire_poll_def)
    moreover have "flood_inv mx sz j i (c, ?w)" using Suc(2) by (simp add: flood_inv_def)
    moreover have "sched (turns ?w + d)" "\<forall>k < d. \<not> sched (turns ?w + k)" using Suc(3,4) by auto
    ultimately show ?thesis using Suc(1) flood_send_cases(2) [OF Suc(2) assms(4,5) False] by simp
  qed
qed

lemma flood_packets_return:
  assumes "fair sched" and "0 < sz" and "sz \<le> mx" and "mx \<le> 488"
  shows "flood_inv mx sz j i s \<Longrightarrow> i + k \<le> 2 ^ 31 - 1 \<Longrightarrow> 0 \<le> ret \<Longrightarrow>
    \<exists>j' ret' s'. flood_packets sched echo sz k i ret s = Some (ret', s') \<and> 0 \<le> ret' \<and> flood_inv mx sz j' (i + k) s'"
proof (induction k arbitrary: i j ret s)
  case (Suc k)
  obtain d where d: "sched (turns (snd s) + d)" "\<forall>k < d. \<not> sched (turns (snd s) + k)" using fair_next [OF assms(1)] .
  obtain j1 s1 where one: "flood_send sched echo (flood_msg sz i) ret s = Some (int (8 + sz), s1)" "flood_inv mx sz j1 (i + 1) s1"
    using flood_send_returns [of mx sz j i "fst s" "snd s" sched d ret] assms(2-4) Suc(2,3) d by auto
  have msg: "payload_bytes (of_nat i) (of_nat sz) (take sz (i_data (fst s))) = flood_msg sz i"
    using Suc(2) assms(3) by (simp add: flood_inv_def flood_msg_def min_def)
  have "flood_packets sched echo sz (Suc k) i ret s = flood_packets sched echo sz k (i + 1) (int (8 + sz)) s1"
    using one by (simp add: msg flood_inv_def)
  then show ?case using Suc(1) [OF one(2), of "int (8 + sz)"] Suc(3) by auto
qed auto

text \<open>One size: all packets are sent and all echoes counted.\<close>

lemma flood_size_returns:
  assumes "fair sched" and "0 < sz" and "sz \<le> mx" and "mx \<le> 488" and "num \<le> 2 ^ 31 - 1" and "0 \<le> ret" and "flood_inv mx sz' j j s"
  obtains ret' s' where "flood_sizes sched echo num (Suc k) sz ret s = flood_sizes sched echo num k (sz + 1) ret' s'" and "0 \<le> ret'"
    and "flood_inv mx sz num num s'"
proof -
  have start: "flood_inv mx sz 0 0 ((fst s)\<lparr>rnum := 0\<rparr>, snd s)" using assms(7) by (simp add: flood_inv_def)
  obtain j1 ret1 s1 where sent: "flood_packets sched echo sz num 0 ret ((fst s)\<lparr>rnum := 0\<rparr>, snd s) = Some (ret1, s1)" "0 \<le> ret1"
      "flood_inv mx sz j1 num s1"
    using flood_packets_return [OF assms(1-4) start, of num ret] assms(5,6) by auto
  let ?stop = "\<lambda>c. int num \<le> rnum c \<or> p_err_cnt c \<noteq> 0 \<or> p_ept_deleted c"
  have "\<exists>s'. wait_until (wire_poll sched echo flood_ops) (?stop \<circ> fst) s1 = Some s' \<and> flood_inv mx sz num num s'"
  proof (cases "j1 = num")
    case True
    then show ?thesis using sent(3) by (auto simp: wait_until_def flood_inv_def)
  next
    case False
    let ?c = "fst s1" and ?w = "snd s1"
    have dl: "deliver flood_ops (map (\<lambda>m. Message m) (queue ?w)) ?c = Some (?c\<lparr>rnum := int num\<rparr>)"
      using sent(3) assms flood_answers [of num sz mx ?c j1] by (simp add: flood_inv_def)
    have good: "\<forall>m \<in> set (queue ?w). echo_request m" using sent(3) assms flood_requests [of num sz j1] by (simp add: flood_inv_def)
    have no: "\<not> ?stop ?c" using sent(3) False by (simp add: flood_inv_def)
    obtain n p' where "poll_until (wire_poll sched echo flood_ops) (?stop \<circ> fst) (?c, ?w) =
        Some (?c\<lparr>rnum := int num\<rparr>, ?w\<lparr>queue := [], turns := n, remote := p'\<rparr>)" "s_lept p' \<and> \<not> shutdown_req p'"
      by (rule echo.answers_arrive [of sched ?w ?stop ?c flood_ops "?c\<lparr>rnum := int num\<rparr>"]) (use assms(1) good no dl sent(3) in \<open>simp_all add: flood_inv_def\<close>)
    then show ?thesis using no sent(3) by (auto simp: wait_until_def flood_inv_def)
  qed
  then obtain s' where s': "wait_until (wire_poll sched echo flood_ops) (?stop \<circ> fst) s1 = Some s'" "flood_inv mx sz num num s'" by blast
  have "flood_sizes sched echo num (Suc k) sz ret s = flood_sizes sched echo num k (sz + 1) ret1 s'"
    using sent(1,2) s' by (simp add: flood_inv_def)
  then show thesis by (rule that [OF _ sent(2) s'(2)])
qed

lemma flood_sizes_return:
  assumes "fair sched" and "mx \<le> 488" and "num \<le> 2 ^ 31 - 1"
  shows "0 < sz \<Longrightarrow> sz + k \<le> mx + 1 \<Longrightarrow> 0 \<le> ret \<Longrightarrow> flood_inv mx sz' j j s \<Longrightarrow>
    \<exists>s'. flood_sizes sched echo num k sz ret s = Some s' \<and> (\<exists>sz. flood_inv mx sz (if k = 0 then j else num) (if k = 0 then j else num) s')"
proof (induction k arbitrary: sz sz' j ret s)
  case (Suc k)
  obtain ret1 s1 where one: "flood_sizes sched echo num (Suc k) sz ret s = flood_sizes sched echo num k (sz + 1) ret1 s1" "0 \<le> ret1"
      "flood_inv mx sz num num s1"
    by (rule flood_size_returns [OF assms(1) Suc(2) _ assms(2,3) Suc(4,5), of k]) (use Suc(3) in simp_all)
  have "\<exists>s'. flood_sizes sched echo num k (sz + 1) ret1 s1 = Some s' \<and> (\<exists>sz. flood_inv mx sz (if k = 0 then num else num) (if k = 0 then num else num) s')"
    by (rule Suc(1) [OF _ _ one(2,3)]) (use Suc(3) in simp_all)
  then show ?case using one(1) by (simp del: flood_sizes.simps)
qed auto


definition demo_ping_client :: ping_client where
  "demo_ping_client = \<lparr>p_lept = False, i_data = [], rnum = 0, p_err_cnt = 0, p_ept_deleted = False\<rparr>"

definition demo_echo_wire :: "service_state wire" where
  "demo_echo_wire = \<lparr>queue = [], buffers = 8, turns = 0, bound = 5, remote = \<lparr>shutdown_req = False, s_lept = True\<rparr>\<rparr>"


end
