(* ===== verification/Sample_Echo.thy ===== *)
theory Sample_Echo
  imports Message_Wire
begin

text \<open>
  The sample of OpenAMP that talks to the driver \<open>rpmsg-client-sample\<close> (\<open>apps/examples/rpmsg_sample_echo/rpmsg-sample-echo.c\<close>,
  \<open>rpmsg-sample-ping.c\<close>): the service echoes a hundred messages and then ends on its own; the client waits for the service to disappear.
\<close>

definition MSG_LIMIT :: nat where "MSG_LIMIT = 100"
definition RPMSG_BUFFER_SIZE_sample :: nat where "RPMSG_BUFFER_SIZE_sample = 512"

text \<open>``hello world!'' and ``goodbye!''.\<close>

definition HELLO_MSG :: bytes where "HELLO_MSG = [104, 101, 108, 108, 111, 32, 119, 111, 114, 108, 100, 33]"
definition BYE_MSG :: bytes where "BYE_MSG = [103, 111, 111, 100, 98, 121, 101, 33]"

section \<open>The service\<close>

record sample_service = service_state +
  count :: nat

definition sample_echo_cb :: "bytes \<Rightarrow> sample_service \<Rightarrow> (rpc_event list \<times> sample_service) option" where
  "sample_echo_cb data p =
    (if RPMSG_BUFFER_SIZE_sample < length data then None
     else let p = p\<lparr>count := count p + 1\<rparr>
       in if MSG_LIMIT < count p then Some ([], p)
          else if MAX_BUF_LEN < length data then Some ([], p\<lparr>shutdown_req := True\<rparr>)
          else Some ([Message data], if count p = MSG_LIMIT then p\<lparr>shutdown_req := True\<rparr> else p))"

definition sample_service_unbind :: "sample_service \<Rightarrow> sample_service" where
  "sample_service_unbind p = p\<lparr>shutdown_req := True\<rparr>"

definition sample_after_poll :: "sample_service \<Rightarrow> rpc_event list \<times> sample_service" where
  "sample_after_poll p = (if shutdown_req p \<and> s_lept p then ([Unbind], p\<lparr>s_lept := False\<rparr>) else ([], p))"

definition sample_echo :: "sample_service service" where
  "sample_echo = \<lparr>registered = s_lept, on_request = sample_echo_cb, after_poll = sample_after_poll, peer_gone = sample_service_unbind\<rparr>"

text \<open>It answers up to the 99th message as any echo does; the 100th is its last.\<close>

definition sample_up :: "nat \<Rightarrow> sample_service \<Rightarrow> bool" where
  "sample_up k p \<longleftrightarrow> s_lept p \<and> \<not> shutdown_req p \<and> count p + k = 99"

interpretation sample: responder sample_echo "\<lambda>m. length m \<le> 496" "\<lambda>m. m" sample_up
  by unfold_locales (auto simp: sample_echo_def sample_after_poll_def sample_echo_cb_def sample_up_def MAX_BUF_LEN_def MSG_LIMIT_def
      RPMSG_BUFFER_SIZE_sample_def Let_def)

section \<open>The client\<close>

record sample_client =
  sp_lept :: bool
  sp_rnum :: nat
  sp_err_cnt :: nat
  sp_ept_deleted :: bool

text \<open>Whether \<open>strncmp\<close> of two strings gives 0; a list ends with its terminating zero or is read as zeros.\<close>

fun strncmp_equal :: "bytes \<Rightarrow> bytes \<Rightarrow> nat \<Rightarrow> bool" where
  "strncmp_equal s t 0 \<longleftrightarrow> True"
| "strncmp_equal s t (Suc n) \<longleftrightarrow>
    (let x = (case s of [] \<Rightarrow> 0 | x # _ \<Rightarrow> x); y = (case t of [] \<Rightarrow> 0 | y # _ \<Rightarrow> y)
     in x = y \<and> (x = 0 \<or> strncmp_equal (tl s) (tl t) n))"

definition sample_ping_cb :: "bytes \<Rightarrow> sample_client \<Rightarrow> sample_client option" where
  "sample_ping_cb data c =
    (if RPMSG_BUFFER_SIZE_sample < length data then None
     else let payload = data @ replicate (RPMSG_BUFFER_SIZE_sample - length data) 0;
              seed = (if sp_rnum c = MSG_LIMIT - 1 then BYE_MSG else HELLO_MSG)
       in if \<not> strncmp_equal payload seed (length data) then Some (c\<lparr>sp_err_cnt := sp_err_cnt c + 1\<rparr>)
          else Some (c\<lparr>sp_rnum := sp_rnum c + 1\<rparr>))"

definition sample_ping_unbind :: "sample_client \<Rightarrow> sample_client" where
  "sample_ping_unbind c = c\<lparr>sp_lept := False, sp_ept_deleted := True\<rparr>"

definition sample_ops :: "sample_client client" where
  "sample_ops = \<lparr>endpoint = sp_lept, on_message = sample_ping_cb, on_unbind = sample_ping_unbind\<rparr>"

text \<open>The loop from message \<open>i\<close> on, of which \<open>k\<close> are left.\<close>

fun sample_rounds :: "(nat \<Rightarrow> bool) \<Rightarrow> 'p service \<Rightarrow> nat \<Rightarrow> nat \<Rightarrow> sample_client \<times> 'p wire \<Rightarrow> (sample_client \<times> 'p wire) option" where
  "sample_rounds sched S 0 i s = Some s"
| "sample_rounds sched S (Suc k) i (c, w) =
    (let m = (if i < MSG_LIMIT then HELLO_MSG else BYE_MSG);
         (ret, w) = (if sp_lept c then wire_send m w else (RPMSG_ERR_PARAM, w))
     in if ret < 0 then Some (c, w)
        else do {
          s \<leftarrow> poll_until (wire_poll sched S sample_ops) ((\<lambda>c. i \<le> sp_rnum c \<or> sp_err_cnt c \<noteq> 0) \<circ> fst) (c, w);
          sample_rounds sched S k (i + 1) s })"

definition sample_ping_app :: "(nat \<Rightarrow> bool) \<Rightarrow> 'p service \<Rightarrow> int \<Rightarrow> sample_client \<times> 'p wire \<Rightarrow> (int \<times> sample_client \<times> 'p wire) option" where
  "sample_ping_app sched S created = (\<lambda>(c, w).
     if created \<noteq> 0 then Some (created, c, w)
     else do {
       s \<leftarrow> wait_bound sched S sample_ops (c\<lparr>sp_lept := True\<rparr>, w);
       s \<leftarrow> sample_rounds sched S MSG_LIMIT 1 s;
       s \<leftarrow> wait_until (wire_poll sched S sample_ops) (sp_ept_deleted \<circ> fst) s;
       Some (0, s) })"

section \<open>Both programs\<close>

lemma strncmp_refl: "strncmp_equal (s @ replicate k 0) s n"
proof (induction n arbitrary: s)
  case (Suc n)
  show ?case
  proof (cases s)
    case Nil
    then show ?thesis by (cases k) simp_all
  next
    case (Cons x s')
    then show ?thesis using Suc [of s'] by (simp add: Let_def)
  qed
qed simp

lemma sample_msgs: "length HELLO_MSG = 12" "length BYE_MSG = 8" "HELLO_MSG \<noteq> []"
  by (simp_all add: HELLO_MSG_def BYE_MSG_def)

definition sample_ready :: "nat \<Rightarrow> sample_client \<times> sample_service wire \<Rightarrow> bool" where
  "sample_ready i s \<longleftrightarrow> sp_lept (fst s) \<and> sp_rnum (fst s) = i \<and> sp_err_cnt (fst s) = 0 \<and> \<not> sp_ept_deleted (fst s) \<and>
     queue (snd s) = [] \<and> 0 < buffers (snd s) \<and> i \<le> 99 \<and> sample_up (99 - i) (remote (snd s))"

text \<open>The client accepts the message it expects.\<close>

lemma expected_message:
  assumes "m = (if sp_rnum c = 99 then BYE_MSG else HELLO_MSG)"
  shows "sample_ping_cb m c = Some (c\<lparr>sp_rnum := sp_rnum c + 1\<rparr>)"
  using assms strncmp_refl [of m "RPMSG_BUFFER_SIZE_sample - length m" "length m"] sample_msgs
  by (auto simp: sample_ping_cb_def MSG_LIMIT_def RPMSG_BUFFER_SIZE_sample_def Let_def split: if_splits)

lemma sample_round:
  assumes "fair sched" and "sample_ready i (c, w)" and "i < 99"
  obtains s' where "sample_rounds sched sample_echo (Suc k) (i + 1) (c, w) = sample_rounds sched sample_echo k (i + 2) s'" and "sample_ready (i + 1) s'"
proof -
  let ?stop = "\<lambda>c. i + 1 \<le> sp_rnum c \<or> sp_err_cnt c \<noteq> 0"
  let ?c = "c\<lparr>sp_rnum := i + 1\<rparr>"
  have cb: "sample_ping_cb HELLO_MSG c = Some ?c" using expected_message [of HELLO_MSG c] assms(2,3) by (simp add: sample_ready_def)
  have "Suc (99 - (i + 1)) = 99 - i" using assms(3) by simp
  then have up: "sample_up (Suc (99 - (i + 1))) (remote w)" using assms(2) by (simp only: sample_ready_def fst_conv snd_conv)
  obtain n p' where run: "wire_send HELLO_MSG w = (int (length HELLO_MSG), w\<lparr>queue := [HELLO_MSG]\<rparr>)"
      "poll_until (wire_poll sched sample_echo sample_ops) (?stop \<circ> fst) (c, w\<lparr>queue := [HELLO_MSG]\<rparr>) =
        Some (?c, w\<lparr>turns := n, remote := p'\<rparr>)" "sample_up (99 - (i + 1)) p'"
    by (rule sample.round_trip [of sched "99 - (i + 1)" w HELLO_MSG ?stop c sample_ops ?c])
      (use assms cb up sample_msgs in \<open>simp_all add: sample_ready_def sample_ops_def\<close>)
  have step: "sample_rounds sched sample_echo (Suc k) (i + 1) (c, w) = sample_rounds sched sample_echo k (i + 2) (?c, w\<lparr>turns := n, remote := p'\<rparr>)"
    using assms(2,3) run(1,2) by (simp add: sample_ready_def MSG_LIMIT_def)
  show thesis by (rule that [OF step]) (use assms(2,3) run(3) in \<open>simp add: sample_ready_def\<close>)
qed

lemma sample_first_rounds:
  "fair sched \<Longrightarrow> sample_ready i s \<Longrightarrow> i + k \<le> 99 \<Longrightarrow>
    \<exists>s'. sample_rounds sched sample_echo (k + n) (i + 1) s = sample_rounds sched sample_echo n (i + k + 1) s' \<and> sample_ready (i + k) s'"
proof (induction k arbitrary: i s)
  case (Suc k)
  obtain s1 where "sample_rounds sched sample_echo (Suc (k + n)) (i + 1) s = sample_rounds sched sample_echo (k + n) (i + 2) s1" "sample_ready (i + 1) s1"
    by (rule sample_round [of sched i "fst s" "snd s" "k + n"]) (use Suc in simp_all)
  then show ?case using Suc(1) [of "i + 1" s1] Suc(2,4) by (auto simp del: sample_rounds.simps)
qed auto

text \<open>The last message comes back together with the news that the service has gone.\<close>

lemma sample_last_round:
  assumes "fair sched" and "sample_ready 99 (c, w)"
  obtains w' where "sample_rounds sched sample_echo 1 100 (c, w) = Some (c\<lparr>sp_rnum := 100, sp_lept := False, sp_ept_deleted := True\<rparr>, w')"
    and "\<not> s_lept (remote w')" and "count (remote w') = 100" and "queue w' = []"
proof -
  let ?stop = "\<lambda>c. 100 \<le> sp_rnum c \<or> sp_err_cnt c \<noteq> 0"
  let ?c = "c\<lparr>sp_rnum := 100, sp_lept := False, sp_ept_deleted := True\<rparr>"
  have up: "s_lept (remote w)" "\<not> shutdown_req (remote w)" "count (remote w) = 99" "queue w = []" "0 < buffers w" "sp_lept c" "\<not> ?stop c"
    using assms(2) by (simp_all add: sample_ready_def sample_up_def)
  have sent: "wire_send BYE_MSG w = (8, w\<lparr>queue := [BYE_MSG]\<rparr>)" using up sample_msgs by (simp add: wire_send_def MAX_BUF_LEN_def)
  obtain d where d: "sched (turns w + d)" "\<forall>k < d. \<not> sched (turns w + k)" using fair_next [OF assms(1)] .
  let ?w = "w\<lparr>queue := [BYE_MSG], turns := turns w + d\<rparr>"
  let ?p = "(remote w)\<lparr>count := 100, shutdown_req := True, s_lept := False\<rparr>"
  have turn: "service_turn sample_echo [BYE_MSG] (remote w) = Some ([Message BYE_MSG, Unbind], ?p)"
    using up sample_msgs by (simp add: service_turn_def sample_echo_def sample_echo_cb_def sample_after_poll_def MSG_LIMIT_def MAX_BUF_LEN_def
        RPMSG_BUFFER_SIZE_sample_def Let_def)
  have cb: "sample_ping_cb BYE_MSG c = Some (c\<lparr>sp_rnum := 100\<rparr>)"
    using expected_message [of BYE_MSG c] assms(2) by (simp add: sample_ready_def)
  have poll: "wire_poll sched sample_echo sample_ops (c, ?w) = Some (?c, ?w\<lparr>queue := [], turns := turns w + d + 1, remote := ?p\<rparr>)"
    using d(1) turn cb up(6) by (simp add: wire_poll_def sample_ops_def sample_ping_unbind_def)
  have "poll_until (wire_poll sched sample_echo sample_ops) (?stop \<circ> fst) (c, w\<lparr>queue := [BYE_MSG]\<rparr>) =
      poll_until (wire_poll sched sample_echo sample_ops) (?stop \<circ> fst) (c, ?w)"
    using poll_until_turn [of d sched "w\<lparr>queue := [BYE_MSG]\<rparr>" ?stop c] d(2) up(7) by simp
  also have "\<dots> = Some (?c, ?w\<lparr>queue := [], turns := turns w + d + 1, remote := ?p\<rparr>)"
    using poll by (subst poll_until.simps) simp
  finally have "sample_rounds sched sample_echo 1 100 (c, w) = Some (?c, ?w\<lparr>queue := [], turns := turns w + d + 1, remote := ?p\<rparr>)"
    using sent up(6) by (simp add: MSG_LIMIT_def)
  then show thesis by (rule that) simp_all
qed

text \<open>
  The sample from start to end. With the other core getting its turn again and again, all hundred messages come back, in order and
  without an error, the service ends after the last one, the client learns of it, and returns 0.
\<close>

theorem sample_echo_ends:
  assumes "fair sched" and "sample_ready 0 (c\<lparr>sp_lept := True\<rparr>, w)"
  shows "\<exists>c' w'. sample_ping_app sched sample_echo 0 (c, w) = Some (0, c', w') \<and> sp_rnum c' = 100 \<and> sp_err_cnt c' = 0 \<and> sp_ept_deleted c' \<and>
    count (remote w') = 100 \<and> \<not> s_lept (remote w') \<and> queue w' = []"
proof -
  have idle: "queue w = []" "after_poll sample_echo (remote w) = ([], remote w)"
    using assms(2) by (simp_all add: sample_ready_def sample_up_def sample_echo_def sample_after_poll_def)
  obtain n where wait: "wait_bound sched sample_echo sample_ops (c\<lparr>sp_lept := True\<rparr>, w) = Some (c\<lparr>sp_lept := True\<rparr>, w\<lparr>turns := n\<rparr>)"
    using wait_bound_ends [OF idle, of sched sample_ops] by blast
  have "sample_ready 0 (c\<lparr>sp_lept := True\<rparr>, w\<lparr>turns := n\<rparr>)" using assms(2) by (simp add: sample_ready_def)
  from sample_first_rounds [OF assms(1) this, of 99 1]
  obtain c1 w1 where first: "sample_rounds sched sample_echo 100 1 (c\<lparr>sp_lept := True\<rparr>, w\<lparr>turns := n\<rparr>) = sample_rounds sched sample_echo 1 100 (c1, w1)"
      "sample_ready 99 (c1, w1)" by (auto simp del: sample_rounds.simps)
  obtain w' where last: "sample_rounds sched sample_echo 1 100 (c1, w1) = Some (c1\<lparr>sp_rnum := 100, sp_lept := False, sp_ept_deleted := True\<rparr>, w')"
      "\<not> s_lept (remote w')" "count (remote w') = 100" "queue w' = []"
    by (rule sample_last_round [OF assms(1) first(2)])
  show ?thesis
    using wait first last by (simp add: sample_ping_app_def MSG_LIMIT_def wait_until_def sample_ready_def del: sample_rounds.simps)
qed

definition demo_sample_wire :: "sample_service wire" where
  "demo_sample_wire = \<lparr>queue = [], buffers = 8, turns = 0, bound = 5, remote = \<lparr>shutdown_req = False, s_lept = True, count = 0\<rparr>\<rparr>"

theorem sample_echo_ends_witness:
  "\<exists>c' w'. sample_ping_app (\<lambda>n. n mod 3 = 2) sample_echo 0
     (\<lparr>sp_lept = False, sp_rnum = 0, sp_err_cnt = 0, sp_ept_deleted = False\<rparr>, demo_sample_wire) = Some (0, c', w') \<and>
     sp_rnum c' = 100 \<and> sp_ept_deleted c' \<and> count (remote w') = 100"
proof -
  have turns: "fair (\<lambda>n. n mod 3 = 2)" unfolding fair_def by presburger
  have "sample_ready 0 (\<lparr>sp_lept = False, sp_rnum = 0, sp_err_cnt = 0, sp_ept_deleted = False\<rparr>\<lparr>sp_lept := True\<rparr>, demo_sample_wire)"
    by (simp add: sample_ready_def demo_sample_wire_def sample_up_def)
  from sample_echo_ends [OF turns this] show ?thesis by auto
qed

end
