(* ===== verification/Application_Types.thy ===== *)
theory Application_Types
  imports Application_Tunnel
begin

text \<open>
  The types of the application's state: every array keeps the length of its C declaration whatever bytes arrive, well-formed commands or not.
  (What a well-formed command does is in the theory \<open>Application\<close>.)
\<close>

section \<open>Commands of any content\<close>

lemma vars_ok_stores [simp]:
  "vars_ok (v\<lparr>vd := (vd v)[i := d]\<rparr>) = vars_ok v" "vars_ok (v\<lparr>vf := (vf v)[i := f]\<rparr>) = vars_ok v"
  "vars_ok (v\<lparr>vs := (vs v)[i := h]\<rparr>) = vars_ok v" "vars_ok (v\<lparr>vb := (vb v)[i := b]\<rparr>) = vars_ok v"
  by (simp_all add: vars_ok_def)

lemma set_variables_ok: "set_variables n off data v = Some v' \<Longrightarrow> vars_ok v \<Longrightarrow> vars_ok v'"
proof (induction n arbitrary: off v)
  case (Suc n)
  show ?case using Suc(2,3) by (auto simp: Let_def dest!: Suc(1) split: if_splits)
qed simp

lemma app_ok_simps [simp]:
  "app_ok (a\<lparr>timer_reads := n\<rparr>) = app_ok a" "app_ok (a\<lparr>f_running := r\<rparr>) = app_ok a" "app_ok (a\<lparr>s_t0StartTime := t\<rparr>) = app_ok a"
  "app_ok (a\<lparr>f_t0InitDone := b\<rparr>) = app_ok a" "app_ok (a\<lparr>f_t0PacketBuffer := b0\<rparr>) = app_ok a" "app_ok (a\<lparr>f_t1PacketBuffer := b1\<rparr>) = app_ok a"
  "app_ok (a\<lparr>f_t2PacketBuffer := b2\<rparr>) = app_ok a" "app_ok (a\<lparr>t1_workStuff := w1\<rparr>) = app_ok a" "app_ok (a\<lparr>t2_workStuff := w2\<rparr>) = app_ok a"
  by (simp_all add: app_ok_def)

lemma now_ok: "now io a = Some (t, a') \<Longrightarrow> app_ok a' = app_ok a"
  by (auto simp: now_def)

definition keeps_ok :: "(bytes \<Rightarrow> u32 \<Rightarrow> app \<Rightarrow> app option) \<Rightarrow> bool" where
  "keeps_ok handler \<longleftrightarrow> (\<forall>data sz a a'. handler data sz a = Some a' \<longrightarrow> app_ok a \<longrightarrow> app_ok a')"

lemma handlers_keep: "keeps_ok (HandleT0Packet io)" "keeps_ok (HandleT1Packet io)" "keeps_ok (HandleT2Packet io)"
proof -
  show "keeps_ok (HandleT1Packet io)" "keeps_ok (HandleT2Packet io)"
    by (auto simp: keeps_ok_def HandleT1Packet_def HandleT2Packet_def app_ok_def dest!: now_ok split: Option.bind_splits if_splits)
  show "keeps_ok (HandleT0Packet io)"
    unfolding keeps_ok_def
  proof (intro allI impI)
    fix data sz a a'
    assume run: "HandleT0Packet io data sz a = Some a'" and ok: "app_ok a"
    then obtain t a1 where a1: "now io a = Some (t, a1)" by (auto simp: HandleT0Packet_def split: Option.bind_splits)
    then have "app_ok a1" using ok by (simp add: now_ok)
    then show "app_ok a'" using run a1
      by (auto simp: HandleT0Packet_def Let_def app_ok_def dest!: set_variables_ok split: Option.bind_splits if_splits)
  qed
qed

section \<open>The tasks\<close>

lemma read_with_ok:
  assumes "keeps_ok handler" and "\<And>b a. app_ok (put_buf b a) = app_ok a"
    and "read_with (tunnel_io clk fp) i get_buf put_buf handler (a, v) = Some (a', v')"
  shows "app_ok a \<longrightarrow> app_ok a'"
proof -
  obtain buf r w where rd: "read_chan i (get_buf a) PACKET_BUFFER_SIZE (\<lambda>data sz r. Option.bind r (handler data sz)) (Some a) v = (buf, r, w)"
    by (metis prod_cases3)
  then have r: "r = Some a \<or> (\<exists>data n. r = handler data n a)" by (auto simp: read_chan_def split: prod.splits if_splits)
  obtain a1 where "r = Some a1" "a' = put_buf buf a1" using assms(3) rd by (cases r) (auto simp: read_with_def)
  then show ?thesis using r assms(1,2) unfolding keeps_ok_def by auto
qed

lemma reads_ok:
  "ReadChan0 (tunnel_io clk fp) (a, v) = Some (a', v') \<Longrightarrow> app_ok a \<longrightarrow> app_ok a'"
  "ReadChan1 (tunnel_io clk fp) (a, v) = Some (a', v') \<Longrightarrow> app_ok a \<longrightarrow> app_ok a'"
  "ReadChan2 (tunnel_io clk fp) (a, v) = Some (a', v') \<Longrightarrow> app_ok a \<longrightarrow> app_ok a'"
  using read_with_ok [OF handlers_keep(1), of "\<lambda>b. f_t0PacketBuffer_update (\<lambda>_. b)"]
    read_with_ok [OF handlers_keep(2), of "\<lambda>b. f_t1PacketBuffer_update (\<lambda>_. b)"]
    read_with_ok [OF handlers_keep(3), of "\<lambda>b. f_t2PacketBuffer_update (\<lambda>_. b)"]
  by (simp_all add: ReadChan0_def ReadChan1_def ReadChan2_def)

lemma report_t0_ok: "report_t0 io (a, v) = Some (a', v') \<Longrightarrow> app_ok a \<longrightarrow> app_ok a'"
  by (auto simp: report_t0_def Let_def app_ok_def now_def split: Option.bind_splits prod.splits)

lemma report_level_ok:
  "report_level io i start p (a, v) = Some (p', a', v') \<Longrightarrow> (stats_ok (stats p) \<longrightarrow> stats_ok (stats p')) \<and> app_ok a' = app_ok a"
  by (auto simp: report_level_def Let_def now_def split: Option.bind_splits prod.splits)

lemma app_ok_levels:
  "app_ok a \<Longrightarrow> stats_ok (stats p) \<Longrightarrow> app_ok (a\<lparr>s_t1Packet := p\<rparr>)" "app_ok a \<Longrightarrow> stats_ok (stats p) \<Longrightarrow> app_ok (a\<lparr>s_t2Packet := p\<rparr>)"
  "app_ok a \<Longrightarrow> stats_ok (stats (s_t1Packet a))" "app_ok a \<Longrightarrow> stats_ok (stats (s_t2Packet a))"
  by (simp_all add: app_ok_def)

lemma t0_ok: "APPLICATION_T0 (tunnel_io clk fp) (a, v) = Some (a', v') \<Longrightarrow> app_ok a \<Longrightarrow> app_ok a'"
  by (auto simp: APPLICATION_T0_def Let_def do_workload_t0_keeps(4,5) split: Option.bind_splits if_splits prod.splits
      dest!: now_ok reads_ok(1) report_t0_ok)

lemma t1_ok: "APPLICATION_T1 (tunnel_io clk fp) (a, v) = Some (a', v') \<Longrightarrow> app_ok a \<Longrightarrow> app_ok a'"
  by (auto simp: APPLICATION_T1_def Let_def app_ok_levels split: Option.bind_splits if_splits prod.splits
      dest!: now_ok reads_ok(2) report_level_ok intro!: app_ok_levels)

lemma t2_ok: "APPLICATION_T2 (tunnel_io clk fp) (a, v) = Some (a', v') \<Longrightarrow> app_ok a \<Longrightarrow> app_ok a'"
  by (auto simp: APPLICATION_T2_def Let_def app_ok_levels split: Option.bind_splits if_splits prod.splits
      dest!: now_ok reads_ok(3) report_level_ok intro!: app_ok_levels)



end
