(* ===== verification/Spec2Isabelle.thy ===== *)
theory Spec2Isabelle
  imports Tunnel_Link Preemption Application_Shm Openamp_Variant Channel_Tests Dma_Coherence Firmware_Noblock Gic_Low_Level Rpc_Server
    Matrix_Demo Echo_Test Sample_Echo Application_Types
begin

text \<open>
  \<^bold>\<open>The inter-processor packet tunnel of a Zynq-7000.\<close> CPU1 runs a bare-metal control application, CPU0
  runs Linux. They exchange packets over three channels. One of several \<^emph>\<open>variants\<close> is linked into
  the firmware: the IPC tunnel, rings in on-chip memory or in a reserved window of DDR, with a
  Linux kernel module on the other side; or OpenAMP, RPMsg over virtio. A scheduler on CPU1 runs
  the tasks of the application at three rates from a private timer and software interrupts.

  \<^bold>\<open>Foundations.\<close>
  \<^item> \<^verbatim>\<open>Prelude\<close>: types of the machine words and of addresses, fact collections, generic lemmas.
  \<^item> \<^verbatim>\<open>Byte_Memory\<close>: the memory both cores see as a function from addresses to bytes, with block and
    little-endian access and frame lemmas.
  \<^item> \<^verbatim>\<open>Channel_Spec\<close>: the contract of a packet channel as the locale \<open>bounded_channel\<close>, with the theorem
    that any run of sends and receives is first-in first-out. It is interpreted on both directions
    of the tunnel and on the packet ring of the OpenAMP variant.

  \<^bold>\<open>The IPC tunnel.\<close>
  \<^item> \<^verbatim>\<open>Ring_Index\<close>, \<^verbatim>\<open>Packet_Ring\<close>: a ring of packet slots in memory, its abstract contents, and what a
    producer's and a consumer's step do to it.
  \<^item> \<^verbatim>\<open>Ipc_Tunnel\<close> (\<open>variants/ipc-tunnel-v3/ipc_tunnel.c\<close>), \<^verbatim>\<open>Tunnel_Variant\<close> (\<open>variant.c\<close>): the driver on CPU1,
    its direct-access functions and the table of channels; correctness of read and write on every
    branch, equivalence of the direct access, disjointness of the memory map, start-up.
  \<^item> \<^verbatim>\<open>Kernel_Tunnel\<close>, \<^verbatim>\<open>Kernel_Module\<close> (\<open>kernel_module_src/ipc-tunnel.c\<close>): the file operations of the Linux
    module and its loading and unloading, with every error path of both.
  \<^item> \<^verbatim>\<open>Tunnel_Link\<close>: both cores on one memory. Packets of every channel arrive exactly once and in order in
    both directions, channels do not disturb each other, a blocked reader is served, the module
    releases what it acquires whichever call fails.

  \<^bold>\<open>CPU1.\<close>
  \<^item> \<^verbatim>\<open>Interrupt\<close> (\<open>src/interrupt.c\<close>, \<open>interrupt.h\<close>, the part of the GIC driver they call), \<^verbatim>\<open>Scheduler\<close>
    (\<open>src/scheduler.c\<close>, \<open>xscutimer.c\<close>), \<^verbatim>\<open>Preemption\<close> (\<open>xscugic_intr.c\<close> as a step relation with nesting): what the
    initialisation programs, the rates of the tasks, and that handlers nest only by urgency and can
    always return.
  \<^item> \<^verbatim>\<open>Shared_State\<close> (\<open>include/shared_state.h\<close>), \<^verbatim>\<open>Workload\<close> (\<open>src/workload.c\<close>), \<^verbatim>\<open>Global_Timer\<close>,
    \<^verbatim>\<open>Application\<close> (\<open>src/application.c\<close>) over the locale \<open>app_transport\<close>, \<^verbatim>\<open>Application_Tunnel\<close> with its
    interpretation on the tunnel, \<^verbatim>\<open>Application_Types\<close>, \<^verbatim>\<open>Seqlock\<close> and \<^verbatim>\<open>Application_Shm\<close> (\<open>src/application_shm.c\<close>): byte layout
    and round trip of the packets, the tasks with their commands and reports, the consistency of the
    shared-memory area for a concurrent reader at the granularity of single byte stores. The
    floating-point unit of the workload is a parameter.

  \<^bold>\<open>OpenAMP.\<close>
  \<^item> \<^verbatim>\<open>Metal_Io\<close> (libmetal \<open>lib/io.h\<close>, \<open>io.c\<close>): address translation; the block operations are \<open>memcpy\<close> and \<open>memset\<close>.
  \<^item> \<^verbatim>\<open>Virtqueue\<close> (\<open>lib/virtio/virtqueue.c\<close>, \<open>virtio_ring.h\<close>), \<^verbatim>\<open>Virtqueue_Inv\<close>, \<^verbatim>\<open>Virtqueue_Steps\<close>, \<^verbatim>\<open>Virtqueue_Spec\<close>: a driver
    and a device on one ring refine a queue of requests, never leave the tables, lose no wake-up, and
    the ring has the layout its size function promises.
  \<^item> \<^verbatim>\<open>Rpmsg\<close>, \<^verbatim>\<open>Rpmsg_Registry\<close> (\<open>lib/rpmsg/rpmsg.c\<close>): endpoints, their addresses and the name service.
  \<^item> \<^verbatim>\<open>Rpmsg_Virtio\<close>, \<^verbatim>\<open>Rpmsg_Delivery\<close> (\<open>lib/rpmsg/rpmsg_virtio.c\<close>): the send operation on every branch, and the
    receive callback, which ends and delivers every message in order.
  \<^item> \<^verbatim>\<open>Remoteproc\<close> (\<open>lib/remoteproc/remoteproc.c\<close>, \<open>remoteproc_virtio.c\<close>, \<open>rsc_table_parser.c\<close>,
    \<open>openamp/zynq_a9_rproc.c\<close>), \<^verbatim>\<open>Openamp_Platform\<close> (\<open>openamp/platform_info.c\<close>, \<open>rsc_table.c\<close>): from the resource
    table in memory to the virtio device and its notifications.
  \<^item> \<^verbatim>\<open>Elf_Loader\<close> (\<open>lib/remoteproc/elf_loader.c\<close>), \<^verbatim>\<open>Firmware_Load\<close> (\<open>remoteproc_load\<close>, \<open>remoteproc_load_noblock\<close>, the image store
    and loops of \<open>apps/examples/load_fw\<close>), \<^verbatim>\<open>Firmware_Spec\<close>, \<^verbatim>\<open>Firmware_Noblock\<close>: the state machine that asks for the parts of an ELF file,
    that the memory ends with every segment of the file, and that both ways of loading agree, over the locale \<open>image_source\<close>
    of an image store.
  \<^item> \<^verbatim>\<open>Rpc_Proxy\<close> (\<open>lib/proxy/rpmsg_retarget.c\<close>), \<^verbatim>\<open>Rpc_Server\<close> (\<open>apps/examples/rpc_demo/rpc_demod.c\<close>): the calls on files sent to
    the other core and executed there; every sequence of calls returns and gives what the files give directly.
  \<^item> \<^verbatim>\<open>Message_Wire\<close>: two programs that talk over one endpoint, the locale \<open>responder\<close> of a service that answers;
    \<^verbatim>\<open>Matrix_Demo\<close> (\<open>openamp/matrix_multiply.c\<close>, \<open>matrix_multiplyd.c\<close>), \<^verbatim>\<open>Echo_Test\<close> (\<open>rpmsg-echo.c\<close>, \<open>rpmsg-ping.c\<close>,
    \<open>rpmsg-flood-ping.c\<close>), \<^verbatim>\<open>Sample_Echo\<close> (\<open>rpmsg-sample-echo.c\<close>, \<open>rpmsg-sample-ping.c\<close>): both programs of each example
    run to their end without an error, and the matrices that come back are the products.
  \<^item> \<^verbatim>\<open>Openamp_Variant\<close> (\<open>variants/openamp/variant.c\<close>): the channels over RPMsg; reads deliver in order; two of the
    three channels never come up.

  \<^bold>\<open>Platform and main program.\<close>
  \<^item> \<^verbatim>\<open>Gic_Driver\<close> (\<open>scugic_v3_9/src/xscugic.c\<close>): start and stop of the interrupt controller driver; started on CPU1
    beside a running system it changes nothing of the other core. \<^verbatim>\<open>Gic_Low_Level\<close> (\<open>xscugic_hw.c\<close>): the interface without
    an instance, compared with the driver, and its dispatch.
  \<^item> \<^verbatim>\<open>Metal_List\<close> (libmetal \<open>lib/list.h\<close>): the doubly linked list on a heap refines a sequence; locale \<open>node_list\<close>.
  \<^item> \<^verbatim>\<open>Metal_Irq\<close> (\<open>lib/irq.c\<close>, \<open>softirq.c\<close>, the Xilinx controller): the registry of interrupt controllers, dispatch of
    hardware and soft interrupts. \<^verbatim>\<open>Metal_Device\<close> (\<open>lib/device.c\<close>, \<open>dma.c\<close>, \<open>init.c\<close> and their generic system part):
    buses, devices and the mapping of their regions.
  \<^item> \<^verbatim>\<open>Platform_System\<close> (\<open>openamp/helper.c\<close>, \<open>platform_init\<close> and \<open>platform_cleanup\<close> with every call they make): the platform comes
    up, and a notification interrupt reaches the flag of the polling loop.
  \<^item> \<^verbatim>\<open>Main_Program\<close> (\<open>src/main.c\<close>): the program from start to end with the tunnel variant; it returns when a
    start packet and later a stop command arrive. \<^verbatim>\<open>Channel_Tests\<close> (\<open>unit_tests/latency.c\<close>, \<open>throughput.c\<close>): the measuring
    programs on the same channel; the throughput protocol answers every batch and ends.
  \<^item> \<^verbatim>\<open>Data_Cache\<close> (\<open>standalone_v7_0/src/xil_cache.c\<close>): cache maintenance on two levels of caches above the memory; what a
    flush and an invalidation do to the memory and to what the core reads, over the locale \<open>line_walk\<close> of an
    operation on every line of a range. \<^verbatim>\<open>Dma_Coherence\<close> (libmetal \<open>zynq7/sys.c\<close> with \<open>device.c\<close>): a buffer handed to a device
    and back.

  \<^bold>\<open>Conventions.\<close> State is passed explicitly as records; each C function is one definition of the
  same name. An error code is a value; a failed assertion, an access outside an array, a null
  dereference and a loop without end are the value \<open>None\<close> of an option, and theorems state that the
  result is \<open>Some\<close>. Machine integers are words of their width. Loops whose end depends on the other
  core are \<open>partial_function (option)\<close>; what the other core does meanwhile is a parameter (a sequence of
  memories, of status bytes, of timer values, or a step function), and the theorems on them assume
  only that it does its part. There is no fuel except the tick count of the RPMsg send loop, which
  is the count of the code. The event loops of the two cores interleave at the granularity of their
  operations, and of single stores in \<^verbatim>\<open>Seqlock\<close>. Allocation succeeds, except in the kernel module
  and in the loading of firmware, where every failing call is a branch. Memory barriers have no effect in the model, and
  apart from \<^verbatim>\<open>Data_Cache\<close> and \<^verbatim>\<open>Dma_Coherence\<close>, where the caches are explicit, it has one coherent memory.

  \<^bold>\<open>Not modelled.\<close> The board support package apart from the
  functions named above (drivers of devices the firmware does not use, start-up assembly, C
  library stubs); the second copy of OpenAMP under \<open>bsp\<close>; the platform files of OpenAMP for other machines,
  and the example programs that manage a processor's life; the
  Linux programs under \<open>app\<close>, which are C++; build files and device trees.
\<close>

end
